(* ===== verification/GardenPrelude.thy ===== *)
theory GardenPrelude
  imports Complex_Main
begin

text \<open>
  Shared vocabulary of the development: the types that stand for Python values the components
  exchange (instants, clock readings, identifiers), error results with their sequencing
  operator, decimal rendering of integers, and the list-of-rows tables that stand for the
  database, with the interface locale the state components use.
\<close>

section \<open>Time\<close>

text \<open>
  An \<open>instant\<close> is a UTC \<open>datetime\<close>: Python's \<open>datetime\<close> counts whole microseconds, so an
  instant is their number since the epoch. A \<open>mono\<close> is a reading of \<open>time.monotonic()\<close> in
  seconds.
\<close>

type_synonym instant = int
type_synonym mono = rat

definition seconds :: "int \<Rightarrow> int" where
  "seconds n = n * 1000000"

lemma seconds_mono: "a \<le> b \<Longrightarrow> seconds a \<le> seconds b"
  by (simp add: seconds_def)

lemma seconds_pos [simp]: "0 < seconds n \<longleftrightarrow> 0 < n"
  by (simp add: seconds_def)

lemma seconds_nonneg [simp]: "0 \<le> seconds n \<longleftrightarrow> 0 \<le> n"
  by (simp add: seconds_def)

section \<open>Error results\<close>

text \<open>
  A Python function that may raise is a function into \<open>'e + 'a\<close>: \<open>Inl\<close> carries the
  exception. \<open>bindE\<close> runs the rest of the function on the value and passes an exception on.
\<close>

fun bindE :: "'e + 'a \<Rightarrow> ('a \<Rightarrow> 'e + 'b) \<Rightarrow> 'e + 'b" where
  "bindE (Inl e) k = Inl e"
| "bindE (Inr x) k = k x"

lemma bindE_Inr_iff: "bindE m k = Inr y \<longleftrightarrow> (\<exists>x. m = Inr x \<and> k x = Inr y)"
  by (cases m) auto

lemma bindE_Inl_iff: "bindE m k = Inl e \<longleftrightarrow> m = Inl e \<or> (\<exists>x. m = Inr x \<and> k x = Inl e)"
  by (cases m) auto

lemma bindE_InrE [elim!]:
  assumes "bindE m k = Inr y"
  obtains x where "m = Inr x" "k x = Inr y"
  using assms by (cases m) auto

text \<open>Built-in exceptions the modelled code can raise.\<close>

datatype py_exc = IndexError | KeyError | OverflowError | ZeroDivisionError | ValueError | TypeError | AttributeError

text \<open>\<open>int(x)\<close> on a number: truncation towards zero.\<close>

definition trunc :: "rat \<Rightarrow> int" where
  "trunc x = (if 0 \<le> x then \<lfloor>x\<rfloor> else \<lceil>x\<rceil>)"

lemma trunc_of_int [simp]: "trunc (of_int n) = n"
  by (simp add: trunc_def)

lemma trunc_nonneg: "0 \<le> x \<Longrightarrow> 0 \<le> trunc x"
  by (simp add: trunc_def)

lemma trunc_upper: "0 \<le> x \<Longrightarrow> x < of_int (trunc x) + 1"
  unfolding trunc_def using floor_correct [of x] by simp

lemma trunc_lower: "0 \<le> x \<Longrightarrow> of_int (trunc x) \<le> x"
  by (simp add: trunc_def)

section \<open>Decimal numbers\<close>

text \<open>\<open>str(n)\<close> of a Python integer, used in event and idempotency keys.\<close>

definition digit_char :: "nat \<Rightarrow> char" where
  "digit_char d = char_of (48 + d)"

fun nat_str :: "nat \<Rightarrow> string" where
  "nat_str n = (if n < 10 then [digit_char n] else nat_str (n div 10) @ [digit_char (n mod 10)])"

declare nat_str.simps [simp del]

definition int_str :: "int \<Rightarrow> string" where
  "int_str i = (if i < 0 then CHR ''-'' # nat_str (nat (- i)) else nat_str (nat i))"

text \<open>\<open>a < b\<close> on strings.\<close>

fun str_lt :: "string \<Rightarrow> string \<Rightarrow> bool" where
  "str_lt _ [] \<longleftrightarrow> False"
| "str_lt [] (_ # _) \<longleftrightarrow> True"
| "str_lt (a # as) (b # bs) \<longleftrightarrow> of_char a < (of_char b :: nat) \<or> (a = b \<and> str_lt as bs)"

section \<open>Tables\<close>

text \<open>
  A database table is the list of its rows. \<open>tget\<close> is the lookup by primary key
  (\<open>db.get\<close>), \<open>tupd\<close> the \<open>UPDATE ... WHERE id = k\<close>.
\<close>

definition tget :: "('r \<Rightarrow> 'k) \<Rightarrow> 'k \<Rightarrow> 'r list \<Rightarrow> 'r option" where
  "tget key k rows = find (\<lambda>r. key r = k) rows"

definition tupd :: "('r \<Rightarrow> 'k) \<Rightarrow> 'k \<Rightarrow> ('r \<Rightarrow> 'r) \<Rightarrow> 'r list \<Rightarrow> 'r list" where
  "tupd key k f rows = map (\<lambda>r. if key r = k then f r else r) rows"

lemma tget_Nil [simp]: "tget key k [] = None"
  by (simp add: tget_def)

lemma tget_Cons [simp]: "tget key k (r # rows) = (if key r = k then Some r else tget key k rows)"
  by (simp add: tget_def)

lemma tget_Some_key: "tget key k rows = Some r \<Longrightarrow> key r = k"
  by (auto simp: tget_def find_Some_iff)

lemma tget_Some_mem: "tget key k rows = Some r \<Longrightarrow> r \<in> set rows"
  by (auto simp: tget_def find_Some_iff)

lemma tget_None_iff: "tget key k rows = None \<longleftrightarrow> k \<notin> key ` set rows"
  by (auto simp: tget_def find_None_iff)

lemma tupd_Nil [simp]: "tupd key k f [] = []"
  by (simp add: tupd_def)

lemma tupd_Cons [simp]:
  "tupd key k f (r # rows) = (if key r = k then f r else r) # tupd key k f rows"
  by (simp add: tupd_def)

lemma tget_tupd:
  assumes "\<And>r. key r = k \<Longrightarrow> key (f r) = k"
  shows "tget key k' (tupd key k f rows) =
    (if k' = k then map_option f (tget key k rows) else tget key k' rows)"
  using assms by (induction rows) auto

lemma map_key_tupd:
  assumes "\<And>r. key r = k \<Longrightarrow> key (f r) = k"
  shows "map key (tupd key k f rows) = map key rows"
  using assms by (induction rows) auto

lemma tget_append:
  "tget key k (xs @ ys) = (case tget key k xs of None \<Rightarrow> tget key k ys | Some r \<Rightarrow> Some r)"
  by (induction xs) auto

lemma tget_distinct:
  assumes "distinct (map key rows)" and "r \<in> set rows"
  shows "tget key (key r) rows = Some r"
  using assms
proof (induction rows)
  case Nil
  then show ?case by simp
next
  case (Cons x xs)
  then show ?case by (cases "key x = key r") (auto simp: rev_image_eqI)
qed

section \<open>Sorting\<close>

text \<open>\<open>ORDER BY\<close> with a total order, given as its strict comparison.\<close>

fun insert_by :: "('a \<Rightarrow> 'a \<Rightarrow> bool) \<Rightarrow> 'a \<Rightarrow> 'a list \<Rightarrow> 'a list" where
  "insert_by before x [] = [x]"
| "insert_by before x (y # ys) = (if before x y then x # y # ys else y # insert_by before x ys)"

definition sort_by :: "('a \<Rightarrow> 'a \<Rightarrow> bool) \<Rightarrow> 'a list \<Rightarrow> 'a list" where
  "sort_by before xs = foldr (insert_by before) xs []"

lemma set_insert_by [simp]: "set (insert_by before x xs) = insert x (set xs)"
  by (induction xs) auto

lemma set_sort_by [simp]: "set (sort_by before xs) = set xs"
  by (induction xs) (simp_all add: sort_by_def)

lemma distinct_insert_by: "distinct (map f (insert_by before x xs)) \<longleftrightarrow> f x \<notin> f ` set xs \<and> distinct (map f xs)"
  by (induction xs) auto

lemma distinct_sort_by [simp]: "distinct (map f (sort_by before xs)) \<longleftrightarrow> distinct (map f xs)"
proof (induction xs)
  case (Cons x xs)
  have "sort_by before (x # xs) = insert_by before x (sort_by before xs)" by (simp add: sort_by_def)
  then show ?case using Cons by (simp add: distinct_insert_by)
qed (simp add: sort_by_def)

end
