(* ===== verification/RateLimits.thy ===== *)
theory RateLimits
  imports GardenPrelude
begin

text \<open>
  The in-process limiters: the machine daemon's crash budget (\<open>machine/crash_budget.py\<close>), the
  sliding-window failure limiter of the login and API-key routes (\<open>auth/limiter.py\<close>), and the
  token buckets of the orchestration rules (\<open>orchestration/rules.py\<close>: cooldown per
  participant, aggregate cap per guest room). Each reading of the monotonic clock is an
  argument, in the order the code takes them.
\<close>

section \<open>The sliding-window contract\<close>

text \<open>
  Both window limiters prune a list of timestamps on every access. What a client relies on is
  that pruning drops exactly the entries that are no longer live, and that an entry that is
  dead stays dead: then pruning early and often loses nothing that a later access counts.
\<close>

locale sliding_window =
  fixes live :: "mono \<Rightarrow> mono \<Rightarrow> bool"
    and prune :: "mono \<Rightarrow> mono list \<Rightarrow> mono list"
  assumes prune_live: "prune now ts = filter (live now) ts"
    and live_antimono: "now \<le> now' \<Longrightarrow> live now' t \<Longrightarrow> live now t"
begin

lemma prune_prune: "now \<le> now' \<Longrightarrow> prune now' (prune now ts) = prune now' ts"
  by (auto simp: prune_live intro!: filter_cong dest: live_antimono)

lemma prune_cong:
  assumes "now \<le> now'" and "prune now ts = prune now us"
  shows "prune now' ts = prune now' us"
proof -
  have "prune now' ts = prune now' (prune now ts)" by (simp add: prune_prune [OF assms(1)])
  also have "\<dots> = prune now' us" by (simp add: assms(2) prune_prune [OF assms(1)])
  finally show ?thesis .
qed

lemma prune_append: "prune now (ts @ us) = prune now ts @ prune now us"
  by (simp add: prune_live)

lemma prune_then_append:
  "now \<le> now' \<Longrightarrow> prune now' (prune now ts @ us) = prune now' (ts @ us)"
  by (simp add: prune_append prune_prune)

end

section \<open>Crash budget\<close>

record crash_budget =
  max_restarts :: int
  window_seconds :: int
  timestamps :: "mono list"

definition crash_prune :: "mono \<Rightarrow> crash_budget \<Rightarrow> crash_budget" where
  "crash_prune now b =
     (let cutoff = now - of_int (window_seconds b)
      in b\<lparr>timestamps := filter (\<lambda>t. t > cutoff) (timestamps b)\<rparr>)"

text \<open>\<open>record_crash\<close> reads the clock twice: once to prune, once for the new entry.\<close>

definition record_crash :: "mono \<Rightarrow> mono \<Rightarrow> crash_budget \<Rightarrow> bool \<times> crash_budget" where
  "record_crash now1 now2 b =
     (let b1 = crash_prune now1 b;
          b2 = b1\<lparr>timestamps := timestamps b1 @ [now2]\<rparr>
      in (int (length (timestamps b2)) \<le> max_restarts b2, b2))"

definition crash_reset :: "crash_budget \<Rightarrow> crash_budget" where
  "crash_reset b = b\<lparr>timestamps := []\<rparr>"

definition crash_count :: "mono \<Rightarrow> crash_budget \<Rightarrow> nat \<times> crash_budget" where
  "crash_count now b = (let b1 = crash_prune now b in (length (timestamps b1), b1))"

text \<open>The operations of a budget in the order the supervisor performs them.\<close>

datatype crash_op = Crash mono mono | CountCrashes mono | ResetCrashes

fun crash_step :: "crash_op \<Rightarrow> crash_budget \<Rightarrow> crash_budget" where
  "crash_step (Crash now1 now2) b = snd (record_crash now1 now2 b)"
| "crash_step (CountCrashes now) b = snd (crash_count now b)"
| "crash_step ResetCrashes b = crash_reset b"

text \<open>The specification keeps every crash since the last reset and never prunes.\<close>

fun crash_history :: "crash_op \<Rightarrow> mono list \<Rightarrow> mono list" where
  "crash_history (Crash now1 now2) h = h @ [now2]"
| "crash_history (CountCrashes now) h = h"
| "crash_history ResetCrashes h = []"

fun crash_clock_ok :: "mono \<Rightarrow> crash_op list \<Rightarrow> bool" where
  "crash_clock_ok t [] \<longleftrightarrow> True"
| "crash_clock_ok t (Crash now1 now2 # ops) \<longleftrightarrow> t \<le> now1 \<and> now1 \<le> now2 \<and> crash_clock_ok now2 ops"
| "crash_clock_ok t (CountCrashes now # ops) \<longleftrightarrow> t \<le> now \<and> crash_clock_ok now ops"
| "crash_clock_ok t (ResetCrashes # ops) \<longleftrightarrow> crash_clock_ok t ops"

fun crash_last :: "mono \<Rightarrow> crash_op list \<Rightarrow> mono" where
  "crash_last t [] = t"
| "crash_last t (Crash now1 now2 # ops) = crash_last now2 ops"
| "crash_last t (CountCrashes now # ops) = crash_last now ops"
| "crash_last t (ResetCrashes # ops) = crash_last t ops"

definition crash_live :: "int \<Rightarrow> mono \<Rightarrow> mono \<Rightarrow> bool" where
  "crash_live w now t \<longleftrightarrow> t > now - of_int w"

interpretation crash_window: sliding_window "crash_live w" "\<lambda>now. filter (crash_live w now)"
  for w
  by unfold_locales (auto simp: crash_live_def)

lemma crash_prune_timestamps:
  "timestamps (crash_prune now b) = filter (crash_live (window_seconds b) now) (timestamps b)"
  by (simp add: crash_prune_def Let_def crash_live_def [abs_def])

lemma crash_prune_frame [simp]:
  "window_seconds (crash_prune now b) = window_seconds b"
  "max_restarts (crash_prune now b) = max_restarts b"
  by (simp_all add: crash_prune_def Let_def)

lemma crash_ops_frame [simp]:
  "window_seconds (snd (record_crash now1 now2 b)) = window_seconds b"
  "max_restarts (snd (record_crash now1 now2 b)) = max_restarts b"
  "window_seconds (snd (crash_count now b)) = window_seconds b"
  "max_restarts (snd (crash_count now b)) = max_restarts b"
  "window_seconds (crash_reset b) = window_seconds b"
  "max_restarts (crash_reset b) = max_restarts b"
  by (simp_all add: record_crash_def crash_count_def crash_reset_def Let_def)

lemma crash_step_frame [simp]:
  "window_seconds (crash_step op b) = window_seconds b"
  "max_restarts (crash_step op b) = max_restarts b"
  by (cases op; simp)+

lemma crash_fold_frame [simp]:
  "window_seconds (fold crash_step ops b) = window_seconds b"
  "max_restarts (fold crash_step ops b) = max_restarts b"
  by (induction ops arbitrary: b) simp_all

text \<open>Pruning on every access agrees with the unpruned history, at every later time.\<close>

lemma crash_run_window:
  assumes "crash_clock_ok t ops" and "crash_last t ops \<le> now"
    and "\<And>now. t \<le> now \<Longrightarrow>
      filter (crash_live (window_seconds b) now) (timestamps b) =
      filter (crash_live (window_seconds b) now) h"
  shows "filter (crash_live (window_seconds b) now) (timestamps (fold crash_step ops b)) =
    filter (crash_live (window_seconds b) now) (fold crash_history ops h)"
  using assms
proof (induction t ops arbitrary: b h rule: crash_clock_ok.induct)
  case (1 t)
  then show ?case by simp
next
  case (2 t now1 now2 ops)
  let ?w = "window_seconds b"
  have "filter (crash_live ?w n) (timestamps (crash_step (Crash now1 now2) b)) =
    filter (crash_live ?w n) (h @ [now2])" if "now2 \<le> n" for n
    using "2.prems" that crash_window.prune_then_append [of now1 n ?w "timestamps b" "[now2]"]
    by (simp add: record_crash_def Let_def crash_prune_timestamps)
  from "2.IH" [of "crash_step (Crash now1 now2) b" "h @ [now2]"] "2.prems"(1,2) this
  show ?case by simp
next
  case (3 t now1 ops)
  let ?w = "window_seconds b"
  have "filter (crash_live ?w n) (timestamps (crash_step (CountCrashes now1) b)) =
    filter (crash_live ?w n) h" if "now1 \<le> n" for n
    using "3.prems" that crash_window.prune_prune [of now1 n ?w "timestamps b"]
    by (simp add: crash_count_def Let_def crash_prune_timestamps)
  from "3.IH" [of "crash_step (CountCrashes now1) b" h] "3.prems"(1,2) this
  show ?case by simp
next
  case (4 t ops)
  from "4.IH" [of "crash_step ResetCrashes b" "[]"] "4.prems"(1,2)
  show ?case by (simp add: crash_reset_def)
qed

text \<open>
  C19. The crash budget is exact: after any sequence of recorded crashes, count queries and
  resets on a monotone clock, a further crash is granted a restart exactly when, counting it,
  at most \<open>max_restarts\<close> of all crashes recorded since the last reset lie inside the sliding
  window. The pruning the code does on every access never changes an answer.
\<close>

theorem crash_budget_exact:
  assumes "timestamps b = []"
    and "crash_clock_ok t ops" and "crash_last t ops \<le> now1"
  shows "fst (record_crash now1 now2 (fold crash_step ops b)) \<longleftrightarrow>
    int (length (filter (crash_live (window_seconds b) now1) (fold crash_history ops []))) + 1
      \<le> max_restarts b"
  using crash_run_window [OF assms(2,3), of b "[]"] assms(1)
  by (simp add: record_crash_def Let_def crash_prune_timestamps add.commute)

theorem crash_budget_exact_witness:
  "fst (record_crash 310 310 (fold crash_step [Crash 0 0, Crash 100 100, Crash 200 200]
      \<lparr>max_restarts = 3, window_seconds = 300, timestamps = []\<rparr>)) \<longleftrightarrow> (2::int) + 1 \<le> 3"
  by (subst crash_budget_exact [of _ 0])
    (simp_all add: crash_live_def)

section \<open>Failure limiter\<close>

record failure_limiter =
  fl_limit :: int
  fl_window :: int
  fl_failures :: "string \<rightharpoonup> mono list"

definition limiter_init :: "int \<Rightarrow> int \<Rightarrow> failure_limiter" where
  "limiter_init limit window = \<lparr>fl_limit = limit, fl_window = window, fl_failures = Map.empty\<rparr>"

definition recent_failures :: "string \<Rightarrow> mono \<Rightarrow> failure_limiter \<Rightarrow> mono list \<times> failure_limiter" where
  "recent_failures k now l =
     (let window_start = now - of_int (fl_window l);
          recent = filter (\<lambda>t. t \<ge> window_start)
            (case fl_failures l k of None \<Rightarrow> [] | Some ts \<Rightarrow> ts)
      in (recent,
          l\<lparr>fl_failures := (if recent \<noteq> [] then (fl_failures l)(k \<mapsto> recent)
                           else (fl_failures l)(k := None))\<rparr>))"

text \<open>
  \<open>recent[0]\<close> raises \<open>IndexError\<close> on an empty list, which a limit below one would reach.
\<close>

definition retry_after ::
    "string \<Rightarrow> mono \<Rightarrow> failure_limiter \<Rightarrow> (py_exc + int option) \<times> failure_limiter" where
  "retry_after k now l =
     (let (recent, l1) = recent_failures k now l
      in if int (length recent) < fl_limit l1 then (Inr None, l1)
         else (case recent of
             [] \<Rightarrow> (Inl IndexError, l1)
           | r0 # _ \<Rightarrow> (Inr (Some (max 1 (trunc (r0 + of_int (fl_window l1) - now) + 1))), l1)))"

definition record_failure :: "string \<Rightarrow> mono \<Rightarrow> failure_limiter \<Rightarrow> failure_limiter" where
  "record_failure k now l =
     (let (recent, l1) = recent_failures k now l
      in l1\<lparr>fl_failures := (fl_failures l1)(k \<mapsto> recent @ [now])\<rparr>)"

definition limiter_reset :: "string \<Rightarrow> failure_limiter \<Rightarrow> failure_limiter" where
  "limiter_reset k l = l\<lparr>fl_failures := (fl_failures l)(k := None)\<rparr>"

definition stored :: "failure_limiter \<Rightarrow> string \<Rightarrow> mono list" where
  "stored l k = (case fl_failures l k of None \<Rightarrow> [] | Some ts \<Rightarrow> ts)"

definition fail_live :: "int \<Rightarrow> mono \<Rightarrow> mono \<Rightarrow> bool" where
  "fail_live w now t \<longleftrightarrow> t \<ge> now - of_int w"

interpretation fail_window: sliding_window "fail_live w" "\<lambda>now. filter (fail_live w now)"
  for w
  by unfold_locales (auto simp: fail_live_def)

lemma recent_failures_fst:
  "fst (recent_failures k now l) = filter (fail_live (fl_window l) now) (stored l k)"
  by (simp add: recent_failures_def Let_def stored_def fail_live_def [abs_def])

lemma recent_failures_stored:
  "stored (snd (recent_failures k now l)) k' =
    (if k' = k then filter (fail_live (fl_window l) now) (stored l k) else stored l k')"
  by (simp add: recent_failures_def Let_def stored_def fail_live_def [abs_def])

lemma recent_failures_frame [simp]:
  "fl_limit (snd (recent_failures k now l)) = fl_limit l"
  "fl_window (snd (recent_failures k now l)) = fl_window l"
  by (simp_all add: recent_failures_def Let_def)

lemma retry_after_eq:
  "retry_after k now l =
    (let recent = filter (fail_live (fl_window l) now) (stored l k)
     in (if int (length recent) < fl_limit l then Inr None
         else case recent of [] \<Rightarrow> Inl IndexError
           | r0 # _ \<Rightarrow> Inr (Some (max 1 (trunc (r0 + of_int (fl_window l) - now) + 1))),
         snd (recent_failures k now l)))"
proof -
  obtain recent l1 where r: "recent_failures k now l = (recent, l1)" by fastforce
  with recent_failures_fst [of k now l] recent_failures_frame [of k now l]
  show ?thesis by (simp add: retry_after_def Let_def split: list.splits)
qed

lemma record_failure_frame [simp]:
  "fl_limit (record_failure k now l) = fl_limit l"
  "fl_window (record_failure k now l) = fl_window l"
  by (simp_all add: record_failure_def case_prod_beta)

lemma record_failure_stored:
  "stored (record_failure k now l) k' =
    (if k' = k then filter (fail_live (fl_window l) now) (stored l k) @ [now] else stored l k')"
proof -
  obtain recent l1 where r: "recent_failures k now l = (recent, l1)" by fastforce
  with recent_failures_fst [of k now l] recent_failures_stored [of k now l k']
  show ?thesis by (auto simp: record_failure_def stored_def split: option.splits)
qed

lemma limiter_reset_stored: "stored (limiter_reset k l) k' = (if k' = k then [] else stored l k')"
  by (simp add: limiter_reset_def stored_def)

lemma limiter_reset_frame [simp]:
  "fl_limit (limiter_reset k l) = fl_limit l" "fl_window (limiter_reset k l) = fl_window l"
  by (simp_all add: limiter_reset_def)

text \<open>A run of the limiter and the specification that remembers every failure.\<close>

datatype limiter_op = Fail string mono | Query string mono | Clear string

fun limiter_step :: "limiter_op \<Rightarrow> failure_limiter \<Rightarrow> failure_limiter" where
  "limiter_step (Fail k now) l = record_failure k now l"
| "limiter_step (Query k now) l = snd (retry_after k now l)"
| "limiter_step (Clear k) l = limiter_reset k l"

fun failure_history :: "limiter_op \<Rightarrow> (string \<Rightarrow> mono list) \<Rightarrow> string \<Rightarrow> mono list" where
  "failure_history (Fail k now) h = h(k := h k @ [now])"
| "failure_history (Query k now) h = h"
| "failure_history (Clear k) h = h(k := [])"

fun limiter_times :: "limiter_op list \<Rightarrow> mono list" where
  "limiter_times [] = []"
| "limiter_times (Fail k now # ops) = now # limiter_times ops"
| "limiter_times (Query k now # ops) = now # limiter_times ops"
| "limiter_times (Clear k # ops) = limiter_times ops"

lemma limiter_step_frame [simp]:
  "fl_limit (limiter_step op l) = fl_limit l"
  "fl_window (limiter_step op l) = fl_window l"
  by (cases op; simp add: retry_after_eq Let_def)+

lemma limiter_fold_frame [simp]:
  "fl_limit (fold limiter_step ops l) = fl_limit l"
  "fl_window (fold limiter_step ops l) = fl_window l"
  by (induction ops arbitrary: l) simp_all

text \<open>One step keeps agreement with the history at every time from that step's clock on.\<close>

lemma limiter_step_window:
  assumes "\<And>n k. t \<le> n \<Longrightarrow> filter (fail_live (fl_window l) n) (stored l k) =
      filter (fail_live (fl_window l) n) (h k)"
    and "\<forall>u \<in> set (limiter_times [op]). t \<le> u \<and> u \<le> n" and "t \<le> n"
  shows "filter (fail_live (fl_window l) n) (stored (limiter_step op l) k) =
    filter (fail_live (fl_window l) n) (failure_history op h k)"
proof (cases op)
  case (Fail k' now)
  with assms show ?thesis
    using fail_window.prune_then_append [of now n "fl_window l" "stored l k" "[now]"]
    by (auto simp: record_failure_stored)
next
  case (Query k' now)
  with assms show ?thesis
    using fail_window.prune_prune [of now n "fl_window l" "stored l k"]
    by (auto simp: retry_after_eq Let_def recent_failures_stored)
next
  case (Clear k')
  with assms show ?thesis by (simp add: limiter_reset_stored)
qed

lemma limiter_run_window:
  assumes "sorted (t # limiter_times ops)" and "\<forall>u \<in> set (t # limiter_times ops). u \<le> n"
    and "\<And>n k. t \<le> n \<Longrightarrow> filter (fail_live (fl_window l) n) (stored l k) =
      filter (fail_live (fl_window l) n) (h k)"
  shows "filter (fail_live (fl_window l) n) (stored (fold limiter_step ops l) k) =
    filter (fail_live (fl_window l) n) (fold failure_history ops h k)"
  using assms
proof (induction ops arbitrary: t l h)
  case Nil
  then show ?case by simp
next
  case (Cons op ops)
  define t' where "t' = (case op of Fail k u \<Rightarrow> u | Query k u \<Rightarrow> u | Clear k \<Rightarrow> t)"
  have t': "t \<le> t'" "t' \<le> n" "sorted (t' # limiter_times ops)"
    "\<forall>u \<in> set (t' # limiter_times ops). u \<le> n"
    "\<forall>u \<in> set (limiter_times [op]). t \<le> u \<and> u \<le> t'"
    using Cons.prems(1,2) by (cases op; simp add: t'_def)+
  have "filter (fail_live (fl_window l) m) (stored (limiter_step op l) k) =
      filter (fail_live (fl_window l) m) (failure_history op h k)" if "t' \<le> m" for m k
    using t'(1,5) that by (intro limiter_step_window [where t = t] Cons.prems(3)) auto
  with Cons.IH [of t' "limiter_step op l" "failure_history op h"] t' show ?case by simp
qed

text \<open>
  The failure limiter is exact: after any sequence of failures, checks and resets for any
  keys on a monotone clock, a check lets the next attempt through exactly when fewer than
  \<open>limit\<close> failures of that key since its last reset are inside the window, and when it refuses
  with a positive limit it returns a number of seconds and never raises.
\<close>

theorem failure_limiter_exact:
  assumes "sorted (limiter_times ops @ [now])" and "0 < limit"
  shows "(fst (retry_after k now (fold limiter_step ops (limiter_init limit window))) = Inr None
      \<longleftrightarrow> int (length (filter (fail_live window now) (fold failure_history ops (\<lambda>_. []) k))) < limit)
    \<and> (\<exists>r. fst (retry_after k now (fold limiter_step ops (limiter_init limit window))) = Inr r)"
proof -
  let ?l = "limiter_init limit window"
  define t where "t = hd (limiter_times ops @ [now])"
  have t: "sorted (t # limiter_times ops)" "\<forall>u \<in> set (t # limiter_times ops). u \<le> now"
    using assms(1) by (cases "limiter_times ops"; simp add: t_def sorted_append)+
  have st: "stored ?l k = []" for k by (simp add: limiter_init_def stored_def)
  have "filter (fail_live (fl_window ?l) now) (stored (fold limiter_step ops ?l) k) =
      filter (fail_live (fl_window ?l) now) (fold failure_history ops (\<lambda>_. []) k)"
    by (rule limiter_run_window [OF t]) (simp add: st)
  then have eq: "filter (fail_live window now) (stored (fold limiter_step ops ?l) k) =
      filter (fail_live window now) (fold failure_history ops (\<lambda>_. []) k)"
    by (simp add: limiter_init_def)
  have f: "fl_window ?l = window" "fl_limit ?l = limit" by (simp_all add: limiter_init_def)
  have 1: "fst (retry_after k now (fold limiter_step ops ?l)) = Inr None
      \<longleftrightarrow> int (length (filter (fail_live window now) (fold failure_history ops (\<lambda>_. []) k))) < limit"
    by (simp add: retry_after_eq Let_def f eq split: list.splits)
  have 2: "\<exists>r. fst (retry_after k now (fold limiter_step ops ?l)) = Inr r"
    using assms(2) by (auto simp: retry_after_eq Let_def f eq split: list.splits)
  from 1 2 show ?thesis by blast
qed

theorem failure_limiter_exact_witness:
  "fst (retry_after ''ann'' 12 (fold limiter_step [Fail ''ann'' 0, Fail ''bob'' 4, Fail ''ann'' 10]
      (limiter_init 2 60))) = Inr None \<longleftrightarrow> (2::int) < 2"
  by (subst failure_limiter_exact [THEN conjunct1]) (simp_all add: fail_live_def)

text \<open>
  The \<open>Retry-After\<close> answer is honest: with exactly \<open>limit\<close> live failures, none of them in
  the future, the answer lies between one second and one more than the window, and a client
  that waits that long without failing again is let through.
\<close>

theorem retry_after_honest:
  assumes "fst (retry_after k now l) = Inr (Some s)" and "0 \<le> fl_window l"
    and "int (length (filter (fail_live (fl_window l) now) (stored l k))) = fl_limit l"
    and "\<forall>t \<in> set (stored l k). t \<le> now"
  shows "1 \<le> s \<and> s \<le> fl_window l + 1
    \<and> fst (retry_after k (now + of_int s) (snd (retry_after k now l))) = Inr None"
proof -
  let ?w = "fl_window l" and ?l' = "snd (retry_after k now l)"
  from assms(1,3) obtain r0 rs where
    rec: "filter (fail_live ?w now) (stored l k) = r0 # rs"
    and s: "s = max 1 (trunc (r0 + of_int ?w - now) + 1)"
    by (auto simp: retry_after_eq Let_def split: if_splits list.splits)
  have r0: "fail_live ?w now r0" "r0 \<le> now"
    using rec assms(4) by (auto simp: filter_eq_Cons_iff)
  then have d: "0 \<le> r0 + of_int ?w - now" by (simp add: fail_live_def)
  have s': "s = trunc (r0 + of_int ?w - now) + 1" using s trunc_nonneg [OF d] by simp
  have "of_int (trunc (r0 + of_int ?w - now)) \<le> r0 + of_int ?w - now" by (rule trunc_lower [OF d])
  also have "\<dots> \<le> of_int ?w" using r0 by simp
  finally have hi: "s \<le> ?w + 1" using s' by simp
  have lo: "1 \<le> s" using s by simp
  have dead: "\<not> fail_live ?w (now + of_int s) r0"
    using trunc_upper [OF d] s' by (simp add: fail_live_def)
  have st: "stored ?l' k = r0 # rs"
    using rec by (simp add: retry_after_eq Let_def recent_failures_stored)
  have fr: "fl_window ?l' = ?w" "fl_limit ?l' = fl_limit l" by (simp_all add: retry_after_eq Let_def)
  have "int (length (filter (fail_live ?w (now + of_int s)) (r0 # rs))) =
      int (length (filter (fail_live ?w (now + of_int s)) rs))" using dead by simp
  also have "\<dots> \<le> int (length rs)" by simp
  also have "\<dots> < fl_limit l" using assms(3) rec by simp
  finally have "int (length (filter (fail_live ?w (now + of_int s)) (r0 # rs))) < fl_limit l" .
  then have "fst (retry_after k (now + of_int s) ?l') = Inr None"
    by (simp add: retry_after_eq [of _ _ ?l'] Let_def st fr)
  with lo hi show ?thesis by simp
qed

theorem retry_after_honest_witness:
  "(1::int) \<le> 58 \<and> (58::int) \<le> 61 \<and>
    fst (retry_after ''ann'' 63 (snd (retry_after ''ann'' 5
      \<lparr>fl_limit = 2, fl_window = 60, fl_failures = [''ann'' \<mapsto> [2, 4]]\<rparr>))) = Inr None"
  using retry_after_honest [of "''ann''" 5
      "\<lparr>fl_limit = 2, fl_window = 60, fl_failures = [''ann'' \<mapsto> [2, 4]]\<rparr>" 58]
  by (simp add: retry_after_eq stored_def fail_live_def trunc_def)

section \<open>Token buckets\<close>

record token_bucket =
  tb_capacity :: int
  tb_rate :: rat
  tb_tokens :: rat
  tb_last :: mono

text \<open>\<open>__post_init__\<close> starts the bucket full and reads the clock.\<close>

definition new_bucket :: "int \<Rightarrow> rat \<Rightarrow> mono \<Rightarrow> token_bucket" where
  "new_bucket capacity rate now =
     \<lparr>tb_capacity = capacity, tb_rate = rate, tb_tokens = of_int capacity, tb_last = now\<rparr>"

definition tb_refill :: "mono \<Rightarrow> token_bucket \<Rightarrow> token_bucket" where
  "tb_refill now b =
     (let elapsed = now - tb_last b
      in b\<lparr>tb_tokens := min (of_int (tb_capacity b)) (tb_tokens b + elapsed * tb_rate b),
           tb_last := now\<rparr>)"

definition try_consume :: "int \<Rightarrow> mono \<Rightarrow> token_bucket \<Rightarrow> bool \<times> token_bucket" where
  "try_consume n now b =
     (let b1 = tb_refill now b
      in if tb_tokens b1 \<ge> of_int n
         then (True, b1\<lparr>tb_tokens := tb_tokens b1 - of_int n\<rparr>)
         else (False, b1))"

record cooldown_manager =
  cd_capacity :: int
  cd_rate :: rat
  cd_buckets :: "string \<rightharpoonup> token_bucket"

text \<open>
  \<open>check_cooldown\<close> reads the clock a first time only when it creates the bucket (\<open>now1\<close>) and
  again when it consumes (\<open>now2\<close>).
\<close>

definition check_cooldown ::
    "string \<Rightarrow> mono \<Rightarrow> mono \<Rightarrow> cooldown_manager \<Rightarrow> bool \<times> cooldown_manager" where
  "check_cooldown pid now1 now2 m =
     (let b = (case cd_buckets m pid of
                 None \<Rightarrow> new_bucket (cd_capacity m) (cd_rate m) now1
               | Some b \<Rightarrow> b);
          (ok, b') = try_consume 1 now2 b
      in (ok, m\<lparr>cd_buckets := (cd_buckets m)(pid \<mapsto> b')\<rparr>))"

text \<open>The guest limiter turns a cap per window into a refill rate; a zero window raises.\<close>

definition guest_limiter :: "int \<Rightarrow> rat \<Rightarrow> py_exc + cooldown_manager" where
  "guest_limiter capacity window =
     (if window = 0 then Inl ZeroDivisionError
      else Inr \<lparr>cd_capacity = capacity, cd_rate = of_int capacity / window, cd_buckets = Map.empty\<rparr>)"

definition guest_check ::
    "string \<Rightarrow> mono \<Rightarrow> mono \<Rightarrow> cooldown_manager \<Rightarrow> bool \<times> cooldown_manager" where
  "guest_check room now1 now2 m =
     (let fresh = new_bucket (cd_capacity m) (cd_rate m) now1;
          bucket = (case cd_buckets m room of None \<Rightarrow> fresh | Some b \<Rightarrow> b);
          (ok, b') = try_consume 1 now2 bucket
      in (ok, m\<lparr>cd_buckets := (cd_buckets m)(room \<mapsto> b')\<rparr>))"

text \<open>Requests of one token at given clock readings, and how many were granted.\<close>

fun grants :: "token_bucket \<Rightarrow> mono list \<Rightarrow> int" where
  "grants b [] = 0"
| "grants b (now # ts) =
     (let (ok, b') = try_consume 1 now b in (if ok then 1 else 0) + grants b' ts)"

definition bucket_ok :: "token_bucket \<Rightarrow> bool" where
  "bucket_ok b \<longleftrightarrow> 0 \<le> tb_rate b \<and> 0 \<le> tb_tokens b \<and> tb_tokens b \<le> of_int (tb_capacity b)"

lemma try_consume_frame [simp]:
  "tb_capacity (snd (try_consume n now b)) = tb_capacity b"
  "tb_rate (snd (try_consume n now b)) = tb_rate b"
  "tb_last (snd (try_consume n now b)) = now"
  by (simp_all add: try_consume_def tb_refill_def Let_def)

lemma bucket_ok_consume:
  assumes "bucket_ok b" and "tb_last b \<le> now" and "0 \<le> n"
  shows "bucket_ok (snd (try_consume n now b))"
  using assms by (auto simp: bucket_ok_def try_consume_def tb_refill_def Let_def)

lemma try_consume_tokens:
  assumes "tb_last b \<le> now" and "0 \<le> tb_rate b"
  shows "(if fst (try_consume 1 now b) then 1 else 0) + tb_tokens (snd (try_consume 1 now b))
    \<le> tb_tokens b + (now - tb_last b) * tb_rate b"
  by (simp add: try_consume_def tb_refill_def Let_def)

lemma grants_bound:
  assumes "bucket_ok b" and "sorted (tb_last b # ts)"
  shows "of_int (grants b ts) \<le> tb_tokens b + (last (tb_last b # ts) - tb_last b) * tb_rate b"
  using assms
proof (induction b ts rule: grants.induct)
  case (1 b)
  then show ?case by (simp add: bucket_ok_def)
next
  case (2 b now ts)
  let ?r = "try_consume 1 now b"
  have ok: "bucket_ok (snd ?r)" and rate: "0 \<le> tb_rate b"
    using 2(2,3) bucket_ok_consume [of b now 1] by (simp_all add: bucket_ok_def)
  have "of_int (grants (snd ?r) ts) \<le> tb_tokens (snd ?r) + (last (now # ts) - now) * tb_rate b"
    using "2.IH" [of ?r "fst ?r" "snd ?r"] ok 2(3) by simp
  moreover have "(if fst ?r then 1 else 0) + tb_tokens (snd ?r)
      \<le> tb_tokens b + (now - tb_last b) * tb_rate b"
    using try_consume_tokens [of b now] rate 2(3) by simp
  ultimately show ?case by (simp add: case_prod_beta Let_def algebra_simps split: if_splits)
qed



end
