(* ===== verification/PyFloat.thy ===== *)
theory PyFloat
  imports GardenPrelude
begin

text \<open>
  Python's \<open>float\<close>: an IEEE binary64 number, the two infinities or NaN. Finite values are
  rationals, and every operation rounds its exact result to nearest, ties to even, with
  gradual underflow and overflow to infinity. Positive and negative zero are one value: they
  compare equal and no modelled code tells them apart.
\<close>

datatype pyfloat = Fin rat | PInf | NInf | NaN

section \<open>Rounding\<close>

definition pow2 :: "int \<Rightarrow> rat" where
  "pow2 e = (if 0 \<le> e then 2 ^ nat e else 1 / 2 ^ nat (- e))"

function ilog2 :: "int \<Rightarrow> int" where
  "ilog2 n = (if n < 2 then 0 else 1 + ilog2 (n div 2))"
  by pat_completeness auto
termination
  by (relation "measure nat") auto

declare ilog2.simps [simp del]

text \<open>The exponent of a positive number: the largest \<open>e\<close> with \<open>pow2 e \<le> x\<close>.\<close>

definition fexponent :: "rat \<Rightarrow> int" where
  "fexponent x =
     (let (n, d) = quotient_of x; e = ilog2 n - ilog2 d
      in if pow2 e \<le> x then e else e - 1)"

definition round_half_even :: "rat \<Rightarrow> int" where
  "round_half_even r =
     (let f = \<lfloor>r\<rfloor>; d = r - of_int f
      in if d < 1 / 2 then f else if d > 1 / 2 then f + 1 else if even f then f else f + 1)"

definition round_pos :: "rat \<Rightarrow> rat" where
  "round_pos x =
     (let u = pow2 (max (fexponent x) (- 1022) - 52)
      in of_int (round_half_even (x / u)) * u)"

definition round64 :: "rat \<Rightarrow> pyfloat" where
  "round64 x =
     (let y = round_pos \<bar>x\<bar>
      in if x = 0 then Fin 0
         else if y \<ge> 2 ^ 1024 then (if 0 < x then PInf else NInf)
         else Fin (if 0 < x then y else - y))"

section \<open>Operations\<close>

fun fneg :: "pyfloat \<Rightarrow> pyfloat" where
  "fneg (Fin x) = Fin (- x)"
| "fneg PInf = NInf"
| "fneg NInf = PInf"
| "fneg NaN = NaN"

fun fadd :: "pyfloat \<Rightarrow> pyfloat \<Rightarrow> pyfloat" where
  "fadd (Fin x) (Fin y) = round64 (x + y)"
| "fadd NaN _ = NaN"
| "fadd _ NaN = NaN"
| "fadd PInf NInf = NaN"
| "fadd NInf PInf = NaN"
| "fadd PInf _ = PInf"
| "fadd _ PInf = PInf"
| "fadd NInf _ = NInf"
| "fadd _ NInf = NInf"

definition fsub :: "pyfloat \<Rightarrow> pyfloat \<Rightarrow> pyfloat" where
  "fsub a b = fadd a (fneg b)"

fun fsign :: "pyfloat \<Rightarrow> int" where
  "fsign (Fin x) = (if 0 < x then 1 else if x < 0 then - 1 else 0)"
| "fsign PInf = 1"
| "fsign NInf = - 1"
| "fsign NaN = 0"

fun fmul :: "pyfloat \<Rightarrow> pyfloat \<Rightarrow> pyfloat" where
  "fmul (Fin x) (Fin y) = round64 (x * y)"
| "fmul NaN _ = NaN"
| "fmul _ NaN = NaN"
| "fmul a b = (let s = fsign a * fsign b in if s = 0 then NaN else if 0 < s then PInf else NInf)"

fun fabs :: "pyfloat \<Rightarrow> pyfloat" where
  "fabs (Fin x) = Fin \<bar>x\<bar>"
| "fabs NaN = NaN"
| "fabs _ = PInf"

fun flt :: "pyfloat \<Rightarrow> pyfloat \<Rightarrow> bool" where
  "flt (Fin x) (Fin y) \<longleftrightarrow> x < y"
| "flt NaN _ \<longleftrightarrow> False"
| "flt _ NaN \<longleftrightarrow> False"
| "flt NInf b \<longleftrightarrow> b \<noteq> NInf"
| "flt a PInf \<longleftrightarrow> a \<noteq> PInf"
| "flt _ _ \<longleftrightarrow> False"

text \<open>\<open>a <= b\<close>, false on NaN.\<close>

definition fle :: "pyfloat \<Rightarrow> pyfloat \<Rightarrow> bool" where
  "fle a b \<longleftrightarrow> flt a b \<or> (a = b \<and> a \<noteq> NaN)"

text \<open>\<open>max(a, b)\<close> keeps its first argument unless the second is greater.\<close>

definition fmax :: "pyfloat \<Rightarrow> pyfloat \<Rightarrow> pyfloat" where
  "fmax a b = (if flt a b then b else a)"

fun is_finite :: "pyfloat \<Rightarrow> bool" where
  "is_finite (Fin _) \<longleftrightarrow> True"
| "is_finite _ \<longleftrightarrow> False"

text \<open>\<open>float(n)\<close> of an integer raises when the rounded value is not finite.\<close>

definition float_of_int :: "int \<Rightarrow> py_exc + pyfloat" where
  "float_of_int n =
     (case round64 (of_int n) of Fin x \<Rightarrow> Inr (Fin x) | _ \<Rightarrow> Inl OverflowError)"

text \<open>\<open>int(x)\<close> of a float.\<close>

fun int_of_float :: "pyfloat \<Rightarrow> py_exc + int" where
  "int_of_float (Fin x) = Inr (trunc x)"
| "int_of_float NaN = Inl ValueError"
| "int_of_float _ = Inl OverflowError"

section \<open>Facts about rounding\<close>

lemma pow2_pos [simp]: "0 < pow2 e"
  by (simp add: pow2_def)

lemma round_half_even_mono_int: "x \<le> of_int n \<Longrightarrow> round_half_even x \<le> n"
proof -
  assume "x \<le> of_int n"
  then consider "\<lfloor>x\<rfloor> < n" | "x = of_int n" by (metis floor_le_iff floor_of_int le_less_linear
    floor_less_iff order_le_less of_int_floor_le order_antisym le_floor_iff less_floor_iff)
  then show ?thesis
    by cases (auto simp: round_half_even_def Let_def)
qed

lemma round_half_even_of_int [simp]: "round_half_even (of_int n) = n"
  by (simp add: round_half_even_def)

lemma round_half_even_nonneg: "0 \<le> x \<Longrightarrow> 0 \<le> round_half_even x"
  by (auto simp: round_half_even_def Let_def)

lemma round_pos_nonneg: "0 \<le> x \<Longrightarrow> 0 \<le> round_pos x"
  by (simp add: round_pos_def Let_def round_half_even_nonneg less_imp_le)

text \<open>Rounding keeps the sign: what is positive after rounding was positive before.\<close>

lemma round64_sign:
  "flt (Fin 0) (round64 x) \<Longrightarrow> 0 < x"
  "flt (round64 x) (Fin 0) \<Longrightarrow> x < 0"
  using round_pos_nonneg [of "\<bar>x\<bar>"]
  by (auto simp: round64_def Let_def split: if_splits)

lemma round64_not_NaN [simp]: "round64 x \<noteq> NaN"
  by (simp add: round64_def Let_def)

text \<open>Small integers are exact, and rounding does not carry a number past a small integer.\<close>

lemma pow2_powi: "pow2 e = 2 powi e"
  by (simp add: pow2_def power_int_def field_simps)

lemma ilog2_bounds: "0 < n \<Longrightarrow> 0 \<le> ilog2 n \<and> 2 powi (ilog2 n) \<le> rat_of_int n
    \<and> rat_of_int n < 2 powi (ilog2 n + 1)"
proof (induction n rule: ilog2.induct)
  case (1 n)
  show ?case
  proof (cases "n < 2")
    case True
    with 1 have "n = 1" by simp
    then show ?thesis by (simp add: ilog2.simps)
  next
    case False
    then have IH: "0 \<le> ilog2 (n div 2)" "2 powi (ilog2 (n div 2)) \<le> rat_of_int (n div 2)"
      "rat_of_int (n div 2) < 2 powi (ilog2 (n div 2) + 1)"
      using "1.IH" by auto
    define k where "k = nat (ilog2 (n div 2))"
    have k: "ilog2 (n div 2) = int k" using IH(1) by (simp add: k_def)
    have eq: "ilog2 n = int k + 1" using False k by (simp add: ilog2.simps)
    have "rat_of_int (2 ^ k) \<le> rat_of_int (n div 2)" "rat_of_int (n div 2) < rat_of_int (2 ^ (k + 1))"
      using IH(2,3) k by (simp_all add: power_int_add)
    then have "2 ^ k \<le> n div 2" "n div 2 < 2 ^ (k + 1)" unfolding of_int_le_iff of_int_less_iff .
    then have "2 ^ (k + 1) \<le> n" "n < 2 ^ (k + 2)" by auto
    then have "rat_of_int (2 ^ (k + 1)) \<le> rat_of_int n" "rat_of_int n < rat_of_int (2 ^ (k + 2))"
      unfolding of_int_le_iff of_int_less_iff .
    then show ?thesis by (simp add: eq power_int_add)
  qed
qed

lemma fexponent_lower: "0 < x \<Longrightarrow> 2 powi (fexponent x) \<le> x"
proof -
  assume x: "0 < x"
  obtain n d where q: "quotient_of x = (n, d)" by fastforce
  have d: "0 < d" and xe: "x = of_int n / of_int d"
    using quotient_of_denom_pos [OF q] quotient_of_div [OF q] by auto
  with x have n: "0 < n" by (simp add: zero_less_divide_iff)
  let ?a = "ilog2 n" and ?b = "ilog2 d"
  show ?thesis
  proof (cases "pow2 (?a - ?b) \<le> x")
    case True
    then show ?thesis by (simp add: fexponent_def q Let_def pow2_powi)
  next
    case False
    have "2 powi (?a - ?b - 1) = 2 powi ?a / (2 powi (?b + 1) :: rat)"
      by (simp add: power_int_diff power_int_add field_simps)
    also have "\<dots> \<le> of_int n / of_int d"
      using ilog2_bounds [OF n] ilog2_bounds [OF d] d n
      by (intro frac_le) (auto simp: less_imp_le)
    also have "\<dots> = x" by (simp add: xe)
    finally show ?thesis using False by (simp add: fexponent_def q Let_def pow2_powi)
  qed
qed

lemma fexponent_small:
  assumes "0 < x" and "x \<le> of_int n" and "n \<le> 2 ^ 53"
  shows "fexponent x \<le> 52 \<or> (fexponent x = 53 \<and> x = 2 ^ 53 \<and> n = 2 ^ 53)"
proof -
  have "2 powi (fexponent x) \<le> x" by (rule fexponent_lower [OF assms(1)])
  also have "x \<le> of_int (2 ^ 53)" using assms(2,3) of_int_le_iff [of n "2 ^ 53", where 'a = rat] by linarith
  finally have le: "2 powi (fexponent x) \<le> (2 powi 53 :: rat)" by simp
  have "fexponent x \<le> 53"
  proof (rule ccontr)
    assume "\<not> fexponent x \<le> 53"
    then have "(2 powi 53 :: rat) < 2 powi (fexponent x)" by (intro power_int_strict_increasing) auto
    with le show False by simp
  qed
  moreover have "x = 2 ^ 53 \<and> n = 2 ^ 53" if "fexponent x = 53"
  proof -
    have "(2 ^ 53 :: rat) \<le> x" using fexponent_lower [OF assms(1)] that by simp
    moreover have "x \<le> 2 ^ 53"
      using assms(2,3) of_int_le_iff [of n "2 ^ 53", where 'a = rat] by simp
    ultimately have "x = 2 ^ 53" by simp
    moreover from this assms(2) have "rat_of_int (2 ^ 53) \<le> of_int n" by simp
    then have "2 ^ 53 \<le> n" unfolding of_int_le_iff .
    ultimately show ?thesis using assms(3) by simp
  qed
  ultimately show ?thesis by linarith
qed

text \<open>A bound that is a multiple of the unit in the last place bounds the rounded number.\<close>

lemma round_pos_small:
  assumes "0 < x" and "x \<le> of_int n" and "n \<le> 2 ^ 53"
  shows "round_pos x \<le> of_int n \<and> (x = of_int n \<longrightarrow> round_pos x = of_int n)"
proof -
  let ?u = "pow2 (max (fexponent x) (- 1022) - 52)"
  obtain m :: int where m: "of_int n / ?u = of_int m"
  proof (cases "fexponent x \<le> 52")
    case True
    define k where "k = nat (52 - max (fexponent x) (- 1022))"
    have "?u = 1 / 2 ^ k" using True by (simp add: pow2_def k_def)
    then have "of_int n / ?u = of_int (n * 2 ^ k)" by simp
    then show ?thesis by (rule that)
  next
    case False
    with fexponent_small [OF assms] have "fexponent x = 53" "n = 2 ^ 53" by auto
    then have "of_int n / ?u = of_int (2 ^ 52)" by (simp add: pow2_def)
    then show ?thesis by (rule that)
  qed
  have n: "of_int n = of_int m * ?u"
    using m pow2_pos [of "max (fexponent x) (- 1022) - 52"] by (metis less_irrefl nonzero_eq_divide_eq)
  have "x / ?u \<le> of_int m" using assms(2) m by (metis divide_right_mono less_imp_le pow2_pos)
  then have "round_half_even (x / ?u) \<le> m" by (rule round_half_even_mono_int)
  then have "round_pos x \<le> of_int n"
    by (simp add: round_pos_def Let_def n)
  moreover have "round_pos x = of_int n" if "x = of_int n"
    using that m by (simp add: round_pos_def Let_def n)
  ultimately show ?thesis by blast
qed

lemma round64_small:
  assumes "0 \<le> x" and "x \<le> of_int n" and "n \<le> 2 ^ 53"
  shows "\<exists>y. round64 x = Fin y \<and> 0 \<le> y \<and> y \<le> of_int n"
proof (cases "x = 0")
  case True
  with assms show ?thesis by (simp add: round64_def)
next
  case False
  with assms have x: "0 < x" by simp
  from round_pos_small [OF x assms(2,3)] have le: "round_pos x \<le> of_int n" by simp
  moreover have "rat_of_int n \<le> of_int (2 ^ 53)" using assms(3) unfolding of_int_le_iff .
  then have "rat_of_int n < 2 ^ 1024" by simp
  ultimately show ?thesis
    using x round_pos_nonneg [of x] by (auto simp: round64_def Let_def)
qed

lemma round64_int:
  assumes "0 \<le> n" and "n \<le> 2 ^ 53"
  shows "round64 (of_int n) = Fin (of_int n)"
proof (cases "n = 0")
  case True
  then show ?thesis by (simp add: round64_def)
next
  case False
  with assms have x: "0 < rat_of_int n" by simp
  from round_pos_small [OF x order_refl assms(2)] have "round_pos (of_int n) = of_int n" by simp
  moreover have "rat_of_int n \<le> of_int (2 ^ 53)" using assms(2) unfolding of_int_le_iff .
  then have "rat_of_int n < 2 ^ 1024" by simp
  ultimately show ?thesis using x by (simp add: round64_def Let_def)
qed

lemma float_of_int_small:
  "0 \<le> n \<Longrightarrow> n \<le> 2 ^ 53 \<Longrightarrow> float_of_int n = Inr (Fin (of_int n))"
  by (simp add: float_of_int_def round64_int)

end
