(* ===== verification/PyValues.thy ===== *)
theory PyValues
  imports PyFloat
begin

text \<open>
  Dynamic Python values as they arrive in JSON bodies and tool arguments, and the string
  operations the validators use. Strings are lists of 8-bit characters (Latin-1 code points);
  a dict is its list of items, looked up by the first occurrence of a key.
\<close>

datatype pyval =
    PNone
  | PBool bool
  | PInt int
  | PFloat pyfloat
  | PStr string
  | PList "pyval list"
  | PDict "(string \<times> pyval) list"

text \<open>\<open>d.get(k, default)\<close> and \<open>d.get(k)\<close>.\<close>

definition dget_or :: "(string \<times> pyval) list \<Rightarrow> string \<Rightarrow> pyval \<Rightarrow> pyval" where
  "dget_or d k dflt = (case map_of d k of None \<Rightarrow> dflt | Some v \<Rightarrow> v)"

definition dget :: "(string \<times> pyval) list \<Rightarrow> string \<Rightarrow> pyval" where
  "dget d k = dget_or d k PNone"

text \<open>\<open>d[k] = v\<close> keeps the position of an existing key.\<close>

fun dput :: "(string \<times> pyval) list \<Rightarrow> string \<Rightarrow> pyval \<Rightarrow> (string \<times> pyval) list" where
  "dput [] k v = [(k, v)]"
| "dput ((k', v') # d) k v = (if k' = k then (k, v) # d else (k', v') # dput d k v)"

lemma map_of_dput: "map_of (dput d k v) = (map_of d)(k \<mapsto> v)"
  by (induction d k v rule: dput.induct) auto

lemma dget_dput [simp]: "dget (dput d k v) k' = (if k' = k then v else dget d k')"
  by (simp add: dget_def dget_or_def map_of_dput)

section \<open>Strings\<close>

definition py_space :: "char \<Rightarrow> bool" where
  "py_space c \<longleftrightarrow> (let n = of_char c :: nat
     in (9 \<le> n \<and> n \<le> 13) \<or> (28 \<le> n \<and> n \<le> 32) \<or> n = 133 \<or> n = 160)"

definition lstrip :: "string \<Rightarrow> string" where
  "lstrip s = dropWhile py_space s"

definition strip :: "string \<Rightarrow> string" where
  "strip s = rev (lstrip (rev (lstrip s)))"

definition rstrip :: "string \<Rightarrow> string" where
  "rstrip s = rev (lstrip (rev s))"

lemma lstrip_lstrip [simp]: "lstrip (lstrip s) = lstrip s"
  by (simp add: lstrip_def)

lemma strip_eq: "strip s = rstrip (lstrip s)"
  by (simp add: strip_def rstrip_def)

lemma lstrip_rstrip_lstrip: "lstrip (rstrip (lstrip s)) = rstrip (lstrip s)"
proof (cases "lstrip s")
  case Nil
  then show ?thesis by (simp only: Nil) (simp add: rstrip_def lstrip_def)
next
  case (Cons c cs)
  then have c: "\<not> py_space c" unfolding lstrip_def by (metis dropWhile_eq_Cons_conv)
  have "\<exists>ds. dropWhile py_space (rev cs @ [c]) = ds @ [c]"
    using c by (induction "rev cs" arbitrary: cs) (auto simp: dropWhile_append)
  then obtain ds where "dropWhile py_space (rev cs @ [c]) = ds @ [c]" by blast
  then have "rstrip (lstrip s) = c # rev ds" using Cons by (simp add: rstrip_def lstrip_def)
  then show ?thesis using c by (simp add: lstrip_def)
qed

lemma strip_strip [simp]: "strip (strip s) = strip s"
proof -
  have "rstrip (rstrip t) = rstrip t" for t by (simp add: rstrip_def)
  then show ?thesis by (simp add: strip_eq lstrip_rstrip_lstrip)
qed

lemma length_strip_le: "length (strip s) \<le> length s"
proof -
  have "length (lstrip t) \<le> length t" for t by (simp add: lstrip_def length_dropWhile_le)
  from this [of s] this [of "rev (lstrip s)"] show ?thesis by (simp add: strip_def)
qed

text \<open>\<open>s.split(c)\<close> for a one-character separator: always at least one piece.\<close>

fun split_char :: "char \<Rightarrow> string \<Rightarrow> string list" where
  "split_char c [] = [[]]"
| "split_char c (x # xs) =
     (case split_char c xs of
        [] \<Rightarrow> []
      | w # ws \<Rightarrow> if x = c then [] # w # ws else (x # w) # ws)"

definition str_replace :: "char \<Rightarrow> char \<Rightarrow> string \<Rightarrow> string" where
  "str_replace a b s = map (\<lambda>c. if c = a then b else c) s"

section \<open>Numbers\<close>

text \<open>\<open>float(v)\<close> of a number, and \<open>math.isfinite\<close>, which converts an int first.\<close>

fun to_float :: "pyval \<Rightarrow> py_exc + pyfloat" where
  "to_float (PInt n) = float_of_int n"
| "to_float (PFloat f) = Inr f"
| "to_float _ = Inl TypeError"

fun num_in_range :: "rat \<Rightarrow> rat \<Rightarrow> pyval \<Rightarrow> bool" where
  "num_in_range lo hi (PInt n) \<longleftrightarrow> lo \<le> of_int n \<and> of_int n \<le> hi"
| "num_in_range lo hi (PFloat f) \<longleftrightarrow> fle (Fin lo) f \<and> fle f (Fin hi)"
| "num_in_range lo hi _ \<longleftrightarrow> False"

fun num_negative :: "pyval \<Rightarrow> bool" where
  "num_negative (PInt n) \<longleftrightarrow> n < 0"
| "num_negative (PFloat f) \<longleftrightarrow> flt f (Fin 0)"
| "num_negative _ \<longleftrightarrow> False"

text \<open>
  \<open>v in frozenset({...})\<close> over a set of strings hashes \<open>v\<close> first: a list or a dict raises
  \<open>TypeError\<close>.
\<close>

fun in_strs :: "pyval \<Rightarrow> string list \<Rightarrow> py_exc + bool" where
  "in_strs (PStr s) xs = Inr (s \<in> set xs)"
| "in_strs (PList _) xs = Inl TypeError"
| "in_strs (PDict _) xs = Inl TypeError"
| "in_strs _ xs = Inr False"

lemma in_strs_InrE:
  assumes "in_strs v xs = Inr True"
  obtains s where "v = PStr s" "s \<in> set xs"
  using assms by (cases v) auto

text \<open>A line feed, and the join of lines over it.\<close>

abbreviation NL :: char where "NL \<equiv> CHR 0x0A"

fun join_lines :: "string list \<Rightarrow> string" where
  "join_lines [] = []"
| "join_lines [l] = l"
| "join_lines (l # ls) = l @ [NL] @ join_lines ls"

end
