(* ===== verification/CampaignPolicy.thy ===== *)
theory CampaignPolicy
  imports PyValues
begin

text \<open>
  Campaign rules (campaigns/policy.py): the loop constants, the vocabularies, the check of a
  campaign request with its normal form, and the token budget arithmetic. The stored criteria
  (JSON objects in the code) are records, since only normalised objects are stored; the
  functions \<open>metric_raw\<close>, \<open>evaluator_raw\<close> and \<open>budget_raw\<close> give their JSON form back.
\<close>

section \<open>Constants and vocabularies\<close>

abbreviation MIN_GAP_SECONDS :: int where "MIN_GAP_SECONDS \<equiv> 300"
abbreviation PLATEAU_WINDOW :: nat where "PLATEAU_WINDOW \<equiv> 5"
abbreviation RETRO_EVERY_CYCLES :: int where "RETRO_EVERY_CYCLES \<equiv> 10"
abbreviation EVAL_FAILURE_BLOCK_THRESHOLD :: int where "EVAL_FAILURE_BLOCK_THRESHOLD \<equiv> 3"
abbreviation MAX_EVAL_TIMEOUT_SECONDS :: int where "MAX_EVAL_TIMEOUT_SECONDS \<equiv> 21600"
abbreviation MAX_EVAL_COMMAND_CHARS :: nat where "MAX_EVAL_COMMAND_CHARS \<equiv> 8192"
abbreviation MAX_EVAL_PATH_CHARS :: nat where "MAX_EVAL_PATH_CHARS \<equiv> 1024"
abbreviation MAX_EVAL_PIN_PATHS :: nat where "MAX_EVAL_PIN_PATHS \<equiv> 100"
abbreviation MAX_SCORE_KEY_CHARS :: nat where "MAX_SCORE_KEY_CHARS \<equiv> 120"

text \<open>The binary64 value of the literal \<open>0.05\<close>.\<close>

definition DEFAULT_RETRO_RESERVE_RATIO :: pyfloat where
  "DEFAULT_RETRO_RESERVE_RATIO = Fin (3602879701896397 / 72057594037927936)"

datatype camp_mode = TargetMode | OptimizeMode
datatype direction = Maximize | Minimize
datatype trusted_eval = TrustNone | TrustExternal

definition mode_of :: "string \<Rightarrow> camp_mode" where
  "mode_of s = (if s = ''target'' then TargetMode else OptimizeMode)"

definition direction_of :: "string \<Rightarrow> direction" where
  "direction_of s = (if s = ''maximize'' then Maximize else Minimize)"

definition trusted_of :: "string \<Rightarrow> trusted_eval" where
  "trusted_of s = (if s = ''external'' then TrustExternal else TrustNone)"

fun mode_str :: "camp_mode \<Rightarrow> string" where
  "mode_str TargetMode = ''target''"
| "mode_str OptimizeMode = ''optimize''"

fun direction_str :: "direction \<Rightarrow> string" where
  "direction_str Maximize = ''maximize''"
| "direction_str Minimize = ''minimize''"

fun trusted_str :: "trusted_eval \<Rightarrow> string" where
  "trusted_str TrustNone = ''none''"
| "trusted_str TrustExternal = ''external''"

text \<open>A campaign's status, and the events of its transition table.\<close>

datatype camp_status =
    Active | Paused | Blocked | Plateau | AwaitingConfirmation
  | Achieved | DeadlineReached | BudgetExhausted | Stopped

abbreviation OPEN_STATUSES :: "camp_status list" where
  "OPEN_STATUSES \<equiv> [Active, Paused, Blocked, Plateau, AwaitingConfirmation]"

abbreviation TERMINAL_STATUSES :: "camp_status list" where
  "TERMINAL_STATUSES \<equiv> [Achieved, DeadlineReached, BudgetExhausted, Stopped]"

datatype camp_event =
    TPause | TResume | TBlock | TPlateau | TTargetReached | TTrustedTargetReached
  | TConfirm | TReject | TDeadline | TBudgetExhausted | TStop | TEdit | TExtend

datatype attempt_kind = CycleKind | RetroKind
datatype agent_outcome = Attempted | Abandoned
datatype eval_status = EvPending | EvRunning | EvOk | EvFailed | EvInvalid | EvSkipped | EvTimedOut
datatype outcome =
    Improved | NoGain | Regressed | GuardrailViolation | EvalFailed | InvalidOutcome | NoRecord | Unknown

text \<open>What the campaign functions raise; the human messages are dropped, the codes kept.\<close>

datatype camp_exc =
    PolicyError string
  | IllegalTransition camp_status camp_event
  | CampaignConflict string
  | ToolError string
  | AttemptNotFound
  | ExecConflict string
  | IntegrityError
  | PyExc py_exc

fun lift_py :: "py_exc + 'a \<Rightarrow> camp_exc + 'a" where
  "lift_py (Inl e) = Inl (PyExc e)"
| "lift_py (Inr x) = Inr x"

definition guardE :: "bool \<Rightarrow> camp_exc \<Rightarrow> camp_exc + unit" where
  "guardE c e = (if c then Inr () else Inl e)"

lemma lift_py_Inr_iff [simp]: "lift_py r = Inr x \<longleftrightarrow> r = Inr x"
  by (cases r) auto

lemma guardE_Inr_iff [simp]: "guardE c e = Inr u \<longleftrightarrow> c"
  by (simp add: guardE_def)

lemma guardE_Inl_iff [simp]: "guardE c e = Inl x \<longleftrightarrow> \<not> c \<and> x = e"
  by (auto simp: guardE_def)

section \<open>Criteria\<close>

record metric =
  m_name :: string
  m_direction :: direction
  m_target :: "pyfloat option"
  m_min_delta :: pyfloat

record evaluator =
  ev_command :: string
  ev_cwd :: string
  ev_timeout :: int
  ev_pin_paths :: "string list"
  ev_score_key :: string

record budget =
  b_cap :: "int option"
  b_ratio :: pyfloat

datatype deadline_arg = NaiveTime int | AwareTime instant

record campaign_spec =
  cs_title :: string
  cs_purpose :: string
  cs_mode :: camp_mode
  cs_metric :: metric
  cs_evaluator :: evaluator
  cs_trusted :: trusted_eval
  cs_budget :: budget
  cs_deadline :: "instant option"

section \<open>Checks\<close>

fun is_int :: "pyval \<Rightarrow> bool" where
  "is_int (PInt _) \<longleftrightarrow> True"
| "is_int _ \<longleftrightarrow> False"

fun is_number :: "pyval \<Rightarrow> py_exc + bool" where
  "is_number (PInt n) = bindE (float_of_int n) (\<lambda>_. Inr True)"
| "is_number (PFloat f) = Inr (is_finite f)"
| "is_number _ = Inr False"

text \<open>\<open>PurePosixPath\<close>: the parts are the pieces between slashes, empty ones and dots left out.\<close>

definition path_parts :: "string \<Rightarrow> string list" where
  "path_parts s = filter (\<lambda>w. w \<noteq> [] \<and> w \<noteq> ''.'') (split_char (CHR ''/'') s)"

definition relative_path_str :: "string \<Rightarrow> bool" where
  "relative_path_str s \<longleftrightarrow>
     strip s \<noteq> [] \<and> CHR 0x00 \<notin> set s \<and> length s \<le> MAX_EVAL_PATH_CHARS \<and>
     (let p = str_replace (CHR 0x5C) (CHR ''/'') s
      in \<not> (p \<noteq> [] \<and> hd p = CHR ''/'') \<and> ''..'' \<notin> set (path_parts p))"

fun relative_path :: "pyval \<Rightarrow> bool" where
  "relative_path (PStr s) \<longleftrightarrow> relative_path_str s"
| "relative_path _ \<longleftrightarrow> False"

fun str_of :: "pyval \<Rightarrow> string" where
  "str_of (PStr s) = s"
| "str_of _ = []"

fun is_stripped_str :: "pyval \<Rightarrow> bool" where
  "is_stripped_str (PStr s) \<longleftrightarrow> strip s \<noteq> []"
| "is_stripped_str _ \<longleftrightarrow> False"

definition metric_of :: "pyval \<Rightarrow> camp_exc + metric" where
  "metric_of raw =
     (let bad = PolicyError ''INVALID_METRIC''
      in case raw of
        PDict d \<Rightarrow>
          bindE (guardE (is_stripped_str (dget d ''name'') \<and> length (str_of (dget d ''name'')) \<le> 120) bad) (\<lambda>_.
          bindE (lift_py (in_strs (dget d ''direction'') [''maximize'', ''minimize''])) (\<lambda>known.
          bindE (guardE known bad) (\<lambda>_.
          let target = dget d ''target'' in
          bindE (if target = PNone then Inr True else lift_py (is_number target)) (\<lambda>tnum.
          bindE (guardE tnum bad) (\<lambda>_.
          let min_delta = dget_or d ''min_delta'' (PFloat (Fin 0)) in
          bindE (lift_py (is_number min_delta)) (\<lambda>dnum.
          bindE (guardE (dnum \<and> \<not> num_negative min_delta) bad) (\<lambda>_.
          bindE (if target = PNone then Inr None
                 else bindE (lift_py (to_float target)) (\<lambda>t. Inr (Some t))) (\<lambda>t.
          bindE (lift_py (to_float min_delta)) (\<lambda>md.
          Inr \<lparr>m_name = strip (str_of (dget d ''name'')),
               m_direction = direction_of (str_of (dget d ''direction'')),
               m_target = t, m_min_delta = md\<rparr>)))))))))
      | _ \<Rightarrow> Inl bad)"

definition evaluator_of :: "pyval \<Rightarrow> camp_exc + evaluator" where
  "evaluator_of raw =
     (let bad = PolicyError ''INVALID_EVALUATOR''
      in case raw of
        PDict d \<Rightarrow>
          bindE (guardE (is_stripped_str (dget d ''command'')) bad) (\<lambda>_.
          let command = strip (str_of (dget d ''command'')) in
          bindE (guardE (length command \<le> MAX_EVAL_COMMAND_CHARS) bad) (\<lambda>_.
          let cwd = dget_or d ''cwd'' (PStr ''.'') in
          bindE (guardE (relative_path cwd) bad) (\<lambda>_.
          bindE (case dget_or d ''timeout_sec'' (PInt 600) of
                   PInt t \<Rightarrow> if 1 \<le> t \<and> t \<le> MAX_EVAL_TIMEOUT_SECONDS then Inr t else Inl bad
                 | _ \<Rightarrow> Inl bad) (\<lambda>timeout.
          bindE (case dget_or d ''pin_paths'' (PList []) of
                   PList ps \<Rightarrow> if list_all relative_path ps then Inr ps else Inl bad
                 | _ \<Rightarrow> Inl bad) (\<lambda>pins.
          bindE (guardE (length pins \<le> MAX_EVAL_PIN_PATHS) bad) (\<lambda>_.
          let score_key = dget_or d ''score_key'' (PStr ''score'') in
          bindE (guardE (is_stripped_str score_key) bad) (\<lambda>_.
          bindE (guardE (length (strip (str_of score_key)) \<le> MAX_SCORE_KEY_CHARS) bad) (\<lambda>_.
          Inr \<lparr>ev_command = command, ev_cwd = str_of cwd, ev_timeout = timeout,
               ev_pin_paths = map str_of pins, ev_score_key = strip (str_of score_key)\<rparr>))))))))
      | _ \<Rightarrow> Inl bad)"

fun cap_of :: "pyval \<Rightarrow> camp_exc + int option" where
  "cap_of PNone = Inr None"
| "cap_of (PInt cap) = (if cap \<le> 0 then Inl (PolicyError ''INVALID_BUDGET'') else Inr (Some cap))"
| "cap_of _ = Inl (PolicyError ''INVALID_BUDGET'')"

definition budget_of :: "pyval \<Rightarrow> camp_exc + budget" where
  "budget_of raw =
     (let bad = PolicyError ''INVALID_BUDGET''
      in case (if raw = PNone then PDict [] else raw) of
        PDict d \<Rightarrow>
          let ratio = dget_or d ''retro_reserve_ratio'' (PFloat DEFAULT_RETRO_RESERVE_RATIO) in
          bindE (lift_py (is_number ratio)) (\<lambda>num.
          bindE (guardE (num \<and> num_in_range 0 (1 / 2) ratio) bad) (\<lambda>_.
          bindE (lift_py (to_float ratio)) (\<lambda>r.
          bindE (cap_of (dget d ''max_total_tokens'')) (\<lambda>cap.
          Inr \<lparr>b_cap = cap, b_ratio = r\<rparr>))))
      | _ \<Rightarrow> Inl bad)"

fun check_deadline :: "instant \<Rightarrow> deadline_arg option \<Rightarrow> camp_exc + instant option" where
  "check_deadline now None = Inr None"
| "check_deadline now (Some (NaiveTime t)) = Inl (PolicyError ''INVALID_DEADLINE'')"
| "check_deadline now (Some (AwareTime t)) =
     (if t \<le> now then Inl (PolicyError ''INVALID_DEADLINE'') else Inr (Some t))"

definition validate_campaign_spec ::
  "pyval \<Rightarrow> pyval \<Rightarrow> pyval \<Rightarrow> pyval \<Rightarrow> pyval \<Rightarrow> pyval \<Rightarrow> deadline_arg option \<Rightarrow> pyval \<Rightarrow> instant
   \<Rightarrow> camp_exc + campaign_spec" where
  "validate_campaign_spec title purpose md metr evalr bud deadline trusted now =
     bindE (guardE (is_stripped_str title \<and> length (strip (str_of title)) \<le> 500)
             (PolicyError ''INVALID_CAMPAIGN'')) (\<lambda>_.
     bindE (guardE (is_stripped_str purpose) (PolicyError ''INVALID_CAMPAIGN'')) (\<lambda>_.
     bindE (lift_py (in_strs md [''target'', ''optimize''])) (\<lambda>known.
     bindE (guardE known (PolicyError ''INVALID_MODE'')) (\<lambda>_.
     bindE (lift_py (in_strs trusted [''none'', ''external''])) (\<lambda>tknown.
     bindE (guardE tknown (PolicyError ''INVALID_TRUSTED_EVAL'')) (\<lambda>_.
     bindE (metric_of metr) (\<lambda>m.
     bindE (evaluator_of evalr) (\<lambda>ev.
     bindE (budget_of bud) (\<lambda>b.
     bindE (check_deadline now deadline) (\<lambda>dl.
     bindE (guardE (\<not> (m_target m = None \<and> dl = None)) (PolicyError ''TARGET_OR_DEADLINE_REQUIRED'')) (\<lambda>_.
     bindE (guardE (\<not> (mode_of (str_of md) = TargetMode \<and> m_target m = None)) (PolicyError ''TARGET_REQUIRED'')) (\<lambda>_.
     bindE (guardE (\<not> (mode_of (str_of md) = OptimizeMode \<and> m_target m \<noteq> None))
             (PolicyError ''OPTIMIZE_HAS_NO_TARGET'')) (\<lambda>_.
     Inr \<lparr>cs_title = strip (str_of title), cs_purpose = strip (str_of purpose),
          cs_mode = mode_of (str_of md), cs_metric = m, cs_evaluator = ev,
          cs_trusted = trusted_of (str_of trusted), cs_budget = b, cs_deadline = dl\<rparr>)))))))))))))"

section \<open>Token budget\<close>

fun has_token_budget :: "budget option \<Rightarrow> bool" where
  "has_token_budget None \<longleftrightarrow> False"
| "has_token_budget (Some b) \<longleftrightarrow> b_cap b \<noteq> None"

text \<open>\<open>int(cap * (1 - ratio))\<close>: the product is a float, so \<open>cap\<close> is converted first.\<close>

definition usable_tokens :: "budget option \<Rightarrow> py_exc + int option" where
  "usable_tokens bo =
     (case bo of
        None \<Rightarrow> Inr None
      | Some b \<Rightarrow>
          (case b_cap b of
             None \<Rightarrow> Inr None
           | Some cap \<Rightarrow>
               bindE (float_of_int cap) (\<lambda>c.
               bindE (int_of_float (fmul c (fsub (Fin 1) (b_ratio b)))) (\<lambda>n. Inr (Some n)))))"

definition cycle_tokens_spent :: "budget option \<Rightarrow> int \<Rightarrow> py_exc + bool" where
  "cycle_tokens_spent bo used =
     bindE (usable_tokens bo) (\<lambda>u. Inr (case u of None \<Rightarrow> False | Some n \<Rightarrow> n - used \<le> 0))"

text \<open>
  \<open>evaluator_digest\<close> hashes the canonical JSON of the evaluator; digests are only compared for
  equality, so the model's digest is the evaluator itself (\<open>None\<close> and \<open>{}\<close> share one digest).
\<close>

type_synonym digest = "evaluator option"

definition evaluator_digest :: "evaluator option \<Rightarrow> digest" where
  "evaluator_digest ev = ev"

section \<open>What a stored specification satisfies\<close>

definition metric_ok :: "metric \<Rightarrow> bool" where
  "metric_ok m \<longleftrightarrow>
     m_name m \<noteq> [] \<and> strip (m_name m) = m_name m \<and> length (m_name m) \<le> 120 \<and>
     (case m_target m of None \<Rightarrow> True | Some t \<Rightarrow> is_finite t) \<and>
     is_finite (m_min_delta m) \<and> \<not> flt (m_min_delta m) (Fin 0)"

definition evaluator_ok :: "evaluator \<Rightarrow> bool" where
  "evaluator_ok ev \<longleftrightarrow>
     ev_command ev \<noteq> [] \<and> strip (ev_command ev) = ev_command ev
     \<and> length (ev_command ev) \<le> MAX_EVAL_COMMAND_CHARS \<and> relative_path_str (ev_cwd ev)
     \<and> 1 \<le> ev_timeout ev \<and> ev_timeout ev \<le> MAX_EVAL_TIMEOUT_SECONDS
     \<and> list_all relative_path_str (ev_pin_paths ev) \<and> length (ev_pin_paths ev) \<le> MAX_EVAL_PIN_PATHS
     \<and> ev_score_key ev \<noteq> [] \<and> strip (ev_score_key ev) = ev_score_key ev
     \<and> length (ev_score_key ev) \<le> MAX_SCORE_KEY_CHARS"

definition budget_ok :: "budget \<Rightarrow> bool" where
  "budget_ok b \<longleftrightarrow>
     (case b_cap b of None \<Rightarrow> True | Some c \<Rightarrow> 0 < c) \<and>
     (case b_ratio b of Fin r \<Rightarrow> 0 \<le> r \<and> r \<le> 1 / 2 | _ \<Rightarrow> False)"

definition spec_ok :: "instant \<Rightarrow> campaign_spec \<Rightarrow> bool" where
  "spec_ok now s \<longleftrightarrow>
     cs_title s \<noteq> [] \<and> strip (cs_title s) = cs_title s \<and> length (cs_title s) \<le> 500
     \<and> cs_purpose s \<noteq> [] \<and> strip (cs_purpose s) = cs_purpose s
     \<and> metric_ok (cs_metric s) \<and> evaluator_ok (cs_evaluator s) \<and> budget_ok (cs_budget s)
     \<and> (case cs_deadline s of None \<Rightarrow> True | Some t \<Rightarrow> now < t)
     \<and> (cs_mode s = TargetMode \<longleftrightarrow> m_target (cs_metric s) \<noteq> None)
     \<and> (cs_mode s = OptimizeMode \<longrightarrow> cs_deadline s \<noteq> None)"

text \<open>The JSON form of the stored criteria.\<close>

definition metric_raw :: "metric \<Rightarrow> pyval" where
  "metric_raw m = PDict
     [(''name'', PStr (m_name m)), (''direction'', PStr (direction_str (m_direction m))),
      (''target'', case m_target m of None \<Rightarrow> PNone | Some t \<Rightarrow> PFloat t),
      (''min_delta'', PFloat (m_min_delta m))]"

definition evaluator_raw :: "evaluator \<Rightarrow> pyval" where
  "evaluator_raw ev = PDict
     [(''command'', PStr (ev_command ev)), (''cwd'', PStr (ev_cwd ev)),
      (''timeout_sec'', PInt (ev_timeout ev)), (''pin_paths'', PList (map PStr (ev_pin_paths ev))),
      (''score_key'', PStr (ev_score_key ev))]"

definition budget_raw :: "budget \<Rightarrow> pyval" where
  "budget_raw b = PDict
     ((case b_cap b of None \<Rightarrow> [] | Some c \<Rightarrow> [(''max_total_tokens'', PInt c)])
      @ [(''retro_reserve_ratio'', PFloat (b_ratio b))])"

lemma mode_of_str [simp]: "mode_of (mode_str m) = m"
  by (cases m) (simp_all add: mode_of_def)

lemma direction_of_str [simp]: "direction_of (direction_str d) = d"
  by (cases d) (simp_all add: direction_of_def)

lemma trusted_of_str [simp]: "trusted_of (trusted_str t) = t"
  by (cases t) (simp_all add: trusted_of_def)

lemma is_number_to_float:
  "is_number v = Inr True \<Longrightarrow> \<exists>f. to_float v = Inr f \<and> is_finite f"
  by (cases v) (auto simp: float_of_int_def bindE_Inr_iff split: pyfloat.splits)

lemma to_float_not_negative:
  assumes "is_number v = Inr True" and "\<not> num_negative v" and "to_float v = Inr f"
  shows "\<not> flt f (Fin 0)"
proof (cases v)
  case (PInt n)
  with assms(3) have "round64 (of_int n) = f"
    by (auto simp: float_of_int_def split: pyfloat.splits)
  with assms(2) PInt show ?thesis using round64_sign(2) [of "of_int n"] by auto
qed (use assms in auto)

lemma metric_of_ok: "metric_of raw = Inr m \<Longrightarrow> metric_ok m"
proof -
  assume h: "metric_of raw = Inr m"
  then obtain d where raw: "raw = PDict d"
    by (cases raw) (auto simp: metric_of_def Let_def)
  let ?t = "dget d ''target''" and ?md = "dget_or d ''min_delta'' (PFloat (Fin 0))"
    and ?n = "dget d ''name''"
  from h raw obtain t md where
      name: "is_stripped_str ?n" "length (str_of ?n) \<le> 120"
    and tn: "?t \<noteq> PNone \<longrightarrow> is_number ?t = Inr True"
    and dn: "is_number ?md = Inr True" "\<not> num_negative ?md"
    and t: "(if ?t = PNone then t = None else \<exists>f. to_float ?t = Inr f \<and> t = Some f)"
    and md: "to_float ?md = Inr md"
    and m: "m = \<lparr>m_name = strip (str_of ?n), m_direction = direction_of (str_of (dget d ''direction'')),
               m_target = t, m_min_delta = md\<rparr>"
    by (auto simp: metric_of_def Let_def bindE_Inr_iff split: if_splits)
  from name obtain s where s: "?n = PStr s" "strip s \<noteq> []" by (cases ?n) auto
  moreover have "length (strip s) \<le> 120" using name(2) s length_strip_le [of s] by simp
  moreover have "case t of None \<Rightarrow> True | Some f \<Rightarrow> is_finite f"
    using t tn is_number_to_float [of ?t] by (auto split: if_splits)
  moreover have "is_finite md" "\<not> flt md (Fin 0)"
    using is_number_to_float [OF dn(1)] md to_float_not_negative [OF dn md] by auto
  ultimately show ?thesis by (simp add: metric_ok_def m)
qed

lemma str_of_relative: "list_all relative_path ps \<Longrightarrow> list_all relative_path_str (map str_of ps)"
proof (induction ps)
  case (Cons p ps)
  then show ?case by (cases p) auto
qed simp

lemma is_stripped_strE:
  assumes "is_stripped_str v"
  obtains s where "v = PStr s" "strip s \<noteq> []"
  using assms by (cases v) auto

lemma evaluator_of_ok: "evaluator_of raw = Inr ev \<Longrightarrow> evaluator_ok ev"
proof -
  assume h: "evaluator_of raw = Inr ev"
  then obtain d where raw: "raw = PDict d"
    by (cases raw) (auto simp: evaluator_of_def Let_def)
  let ?c = "dget d ''command''" and ?w = "dget_or d ''cwd'' (PStr ''.'')"
    and ?k = "dget_or d ''score_key'' (PStr ''score'')"
  from h raw obtain t ps where
      c: "is_stripped_str ?c" "length (strip (str_of ?c)) \<le> MAX_EVAL_COMMAND_CHARS"
    and w: "relative_path ?w"
    and t: "1 \<le> t" "t \<le> MAX_EVAL_TIMEOUT_SECONDS"
    and ps: "list_all relative_path ps" "length ps \<le> MAX_EVAL_PIN_PATHS"
    and k: "is_stripped_str ?k" "length (strip (str_of ?k)) \<le> MAX_SCORE_KEY_CHARS"
    and ev: "ev = \<lparr>ev_command = strip (str_of ?c), ev_cwd = str_of ?w, ev_timeout = t,
               ev_pin_paths = map str_of ps, ev_score_key = strip (str_of ?k)\<rparr>"
    by (auto simp: evaluator_of_def Let_def bindE_Inr_iff split: if_splits pyval.splits)
  from c(1) obtain cs where "?c = PStr cs" "strip cs \<noteq> []" by (rule is_stripped_strE)
  moreover from k(1) obtain ks where "?k = PStr ks" "strip ks \<noteq> []" by (rule is_stripped_strE)
  moreover from w obtain ws where "?w = PStr ws" "relative_path_str ws" by (cases ?w) auto
  ultimately show ?thesis
    using c(2) k(2) t ps str_of_relative [OF ps(1)] by (simp add: evaluator_ok_def ev)
qed

lemma num_in_range_float:
  assumes "num_in_range 0 (1 / 2) v" and "to_float v = Inr f"
  shows "\<exists>r. f = Fin r \<and> 0 \<le> r \<and> r \<le> 1 / 2"
proof (cases v)
  case (PInt n)
  with assms(1) have n: "0 \<le> rat_of_int n" "rat_of_int n \<le> 1 / 2" by auto
  then have "0 \<le> n" "rat_of_int n < of_int 1" by (simp_all del: of_int_1 add: of_int_1)
  then have "n = 0" unfolding of_int_less_iff by simp
  with PInt assms(2) have "f = Fin 0" using float_of_int_small [of 0] by simp
  then show ?thesis by simp
next
  case (PFloat g)
  with assms show ?thesis by (cases g) (auto simp: fle_def)
qed (use assms in auto)

lemma cap_of_pos: "cap_of v = Inr c \<Longrightarrow> (case c of None \<Rightarrow> True | Some n \<Rightarrow> 0 < n)"
  by (cases v) (auto split: if_splits)

lemma budget_of_ok: "budget_of raw = Inr b \<Longrightarrow> budget_ok b"
  by (auto simp: budget_of_def Let_def bindE_Inr_iff budget_ok_def
      dest: num_in_range_float cap_of_pos split: if_splits pyval.splits)

lemma check_deadline_Inr: "check_deadline now a = Inr dl \<Longrightarrow> (case dl of None \<Rightarrow> True | Some t \<Rightarrow> now < t)"
  by (cases "(now, a)" rule: check_deadline.cases) (auto split: if_splits)

lemma validate_spec_ok:
  assumes "validate_campaign_spec title purpose md metr evalr bud deadline trusted now = Inr s"
  shows "spec_ok now s"
proof -
  from assms obtain m ev b dl where
      t: "is_stripped_str title" "length (strip (str_of title)) \<le> 500"
    and p: "is_stripped_str purpose"
    and m: "metric_of metr = Inr m" and ev: "evaluator_of evalr = Inr ev"
    and b: "budget_of bud = Inr b" and dl: "check_deadline now deadline = Inr dl"
    and e: "m_target m \<noteq> None \<or> dl \<noteq> None"
      "mode_of (str_of md) = TargetMode \<longrightarrow> m_target m \<noteq> None"
      "mode_of (str_of md) = OptimizeMode \<longrightarrow> m_target m = None"
    and s: "s = \<lparr>cs_title = strip (str_of title), cs_purpose = strip (str_of purpose),
        cs_mode = mode_of (str_of md), cs_metric = m, cs_evaluator = ev,
        cs_trusted = trusted_of (str_of trusted), cs_budget = b, cs_deadline = dl\<rparr>"
    unfolding validate_campaign_spec_def bindE_Inr_iff guardE_Inr_iff by auto
  from t(1) obtain ts where "title = PStr ts" "strip ts \<noteq> []" by (rule is_stripped_strE)
  moreover from p obtain qs where "purpose = PStr qs" "strip qs \<noteq> []" by (rule is_stripped_strE)
  moreover have "mode_of (str_of md) = TargetMode \<longleftrightarrow> m_target m \<noteq> None"
    using e by (metis camp_mode.exhaust)
  ultimately show ?thesis
    using metric_of_ok [OF m] evaluator_of_ok [OF ev] budget_of_ok [OF b] check_deadline_Inr [OF dl] t e
    by (auto simp: spec_ok_def s)
qed

text \<open>
  C21. A campaign request that passes the check is stored in a normal form that satisfies every
  rule of the policy: trimmed non-empty texts within their limits, a finite target and a finite
  non-negative delta, an evaluator the machine accepts with paths inside the workspace, a
  positive cap and a reserve between 0 and one half, a future deadline, a target exactly in
  target mode and a deadline in optimize mode (CMP-01: every campaign has an end).
\<close>

theorem validated_spec_ok:
  assumes "validate_campaign_spec title purpose md metr evalr bud deadline trusted now = Inr s"
  shows "spec_ok now s"
  using assms by (rule validate_spec_ok)

definition sample_metric :: pyval where
  "sample_metric = PDict [(''name'', PStr '' accuracy''), (''direction'', PStr ''maximize''),
     (''target'', PFloat (Fin 1))]"

definition sample_budget :: pyval where
  "sample_budget = PDict [(''max_total_tokens'', PInt 100000), (''retro_reserve_ratio'', PFloat (Fin 0))]"

definition sample_evaluator :: pyval where
  "sample_evaluator = PDict [(''command'', PStr ''make eval ''), (''cwd'', PStr ''eval/./x'')]"

lemma validated_spec_ok_witness:
  "\<exists>s. validate_campaign_spec (PStr '' Speed'') (PStr ''p'') (PStr ''target'') sample_metric
      sample_evaluator sample_budget None (PStr ''none'') 0 = Inr s \<and> spec_ok 0 s"
proof -
  have "case validate_campaign_spec (PStr '' Speed'') (PStr ''p'') (PStr ''target'') sample_metric
      sample_evaluator sample_budget None (PStr ''none'') 0 of Inr _ \<Rightarrow> True | Inl _ \<Rightarrow> False"
    by code_simp
  then obtain s where s: "validate_campaign_spec (PStr '' Speed'') (PStr ''p'') (PStr ''target'') sample_metric
      sample_evaluator sample_budget None (PStr ''none'') 0 = Inr s"
    by (auto split: sum.splits)
  then show ?thesis using validated_spec_ok [OF s] by blast
qed

lemma metric_of_raw: "metric_ok m \<Longrightarrow> metric_of (metric_raw m) = Inr m"
  by (cases m; cases "m_target m"; cases "m_direction m")
     (auto simp: metric_of_def metric_raw_def metric_ok_def dget_def dget_or_def guardE_def
       direction_of_def)

lemma evaluator_of_raw: "evaluator_ok ev \<Longrightarrow> evaluator_of (evaluator_raw ev) = Inr ev"
  by (cases ev) (auto simp: evaluator_of_def evaluator_raw_def evaluator_ok_def dget_def dget_or_def
      guardE_def Let_def list_all_iff comp_def)

lemma budget_of_raw: "budget_ok b \<Longrightarrow> budget_of (budget_raw b) = Inr b"
  by (cases b; cases "b_cap b"; cases "b_ratio b") (auto simp: budget_of_def budget_raw_def budget_ok_def dget_def dget_or_def
      guardE_def Let_def fle_def less_le)

lemma in_strs_modes [simp]:
  "in_strs (PStr (mode_str md)) [''target'', ''optimize''] = Inr True"
  "in_strs (PStr (trusted_str t)) [''none'', ''external''] = Inr True"
  by (cases md; simp) (cases t; simp)

lemma revalidate_spec:
  assumes "spec_ok now s"
  shows "validate_campaign_spec (PStr (cs_title s)) (PStr (cs_purpose s)) (PStr (mode_str (cs_mode s)))
      (metric_raw (cs_metric s)) (evaluator_raw (cs_evaluator s)) (budget_raw (cs_budget s))
      (map_option AwareTime (cs_deadline s)) (PStr (trusted_str (cs_trusted s))) now = Inr s"
proof -
  have m: "metric_of (metric_raw (cs_metric s)) = Inr (cs_metric s)"
    and ev: "evaluator_of (evaluator_raw (cs_evaluator s)) = Inr (cs_evaluator s)"
    and b: "budget_of (budget_raw (cs_budget s)) = Inr (cs_budget s)"
    using assms by (simp_all add: spec_ok_def metric_of_raw evaluator_of_raw budget_of_raw)
  have dl: "check_deadline now (map_option AwareTime (cs_deadline s)) = Inr (cs_deadline s)"
    using assms by (auto simp: spec_ok_def split: option.splits)
  show ?thesis
    using assms unfolding spec_ok_def
    by (cases "cs_mode s"; cases "cs_trusted s")
       (simp_all add: validate_campaign_spec_def m ev b dl guardE_def mode_of_def trusted_of_def)
qed

text \<open>
  C22. The normal form is a fixed point: checking the stored criteria again (which the edit of a
  running campaign does) succeeds and changes nothing.
\<close>

theorem spec_revalidates:
  assumes "spec_ok now s"
  shows "validate_campaign_spec (PStr (cs_title s)) (PStr (cs_purpose s)) (PStr (mode_str (cs_mode s)))
      (metric_raw (cs_metric s)) (evaluator_raw (cs_evaluator s)) (budget_raw (cs_budget s))
      (map_option AwareTime (cs_deadline s)) (PStr (trusted_str (cs_trusted s))) now = Inr s"
  using revalidate_spec [OF assms] .

definition sample_spec :: campaign_spec where
  "sample_spec = \<lparr>cs_title = ''Speed'', cs_purpose = ''p'', cs_mode = OptimizeMode,
     cs_metric = \<lparr>m_name = ''ms'', m_direction = Minimize, m_target = None, m_min_delta = Fin 0\<rparr>,
     cs_evaluator = \<lparr>ev_command = ''make eval'', ev_cwd = ''.'', ev_timeout = 60, ev_pin_paths = [],
       ev_score_key = ''score''\<rparr>,
     cs_trusted = TrustNone, cs_budget = \<lparr>b_cap = Some 1000, b_ratio = Fin 0\<rparr>, cs_deadline = Some 7\<rparr>"

lemma sample_spec_ok: "spec_ok 0 sample_spec"
proof -
  have "relative_path_str ''.''" by code_simp
  moreover have "strip ''Speed'' = ''Speed''" "strip ''p'' = ''p''" "strip ''ms'' = ''ms''"
    "strip ''make eval'' = ''make eval''" "strip ''score'' = ''score''"
    by code_simp+
  ultimately show ?thesis
    by (simp add: spec_ok_def sample_spec_def metric_ok_def evaluator_ok_def budget_ok_def)
qed

lemma spec_revalidates_witness:
  "validate_campaign_spec (PStr (cs_title sample_spec)) (PStr (cs_purpose sample_spec))
      (PStr (mode_str (cs_mode sample_spec))) (metric_raw (cs_metric sample_spec))
      (evaluator_raw (cs_evaluator sample_spec)) (budget_raw (cs_budget sample_spec))
      (map_option AwareTime (cs_deadline sample_spec)) (PStr (trusted_str (cs_trusted sample_spec))) 0
    = Inr sample_spec"
  using spec_revalidates [OF sample_spec_ok] .

text \<open>
  For a valid budget whose cap is at most 2 to the 53 the usable tokens are computed without
  an error and lie between 0 and the cap, so cycles never run on more tokens than the campaign has.
\<close>

theorem usable_tokens_bounds:
  assumes "budget_ok b" and "b_cap b = Some cap" and "cap \<le> 2 ^ 53"
  shows "\<exists>u. usable_tokens (Some b) = Inr (Some u) \<and> 0 \<le> u \<and> u \<le> cap"
proof -
  from assms obtain r where r: "b_ratio b = Fin r" "0 \<le> r" "r \<le> 1 / 2" and cap: "0 < cap"
    by (auto simp: budget_ok_def split: pyfloat.splits)
  have "0 \<le> 1 - r" "1 - r \<le> of_int 1" using r by auto
  then obtain q where q: "round64 (1 - r) = Fin q" "0 \<le> q" "q \<le> 1"
    using round64_small [of "1 - r" 1] by auto
  have c0: "0 \<le> rat_of_int cap" using cap by simp
  then have "0 \<le> of_int cap * q" "of_int cap * q \<le> of_int cap"
    using q by (simp_all add: mult_left_le)
  then obtain p where p: "round64 (of_int cap * q) = Fin p" "0 \<le> p" "p \<le> of_int cap"
    using round64_small [of "of_int cap * q" cap] assms(3) by auto
  have "of_int (trunc p) \<le> rat_of_int cap" using trunc_lower [OF p(2)] p(3) by (rule order_trans)
  then have "trunc p \<le> cap" unfolding of_int_le_iff .
  moreover have "0 \<le> trunc p" by (rule trunc_nonneg [OF p(2)])
  ultimately show ?thesis
    using assms cap q p r by (simp add: usable_tokens_def fsub_def float_of_int_small)
qed

lemma usable_tokens_bounds_witness:
  "\<exists>u. usable_tokens (Some (cs_budget sample_spec)) = Inr (Some u) \<and> 0 \<le> u \<and> u \<le> 1000"
  by (rule usable_tokens_bounds) (simp_all add: sample_spec_def budget_ok_def)

end
