(* ===== verification/CampaignJudge.thy ===== *)
theory CampaignJudge
  imports CampaignPolicy
begin

text \<open>
  Scoring a cycle (campaigns/judge.py): one evaluation result, classified against the best
  valid score so far, in binary64 arithmetic.
\<close>

definition EPSILON :: pyfloat where
  "EPSILON = Fin (4835703278458517 / 4835703278458516698824704)"

definition JUDGED_OUTCOMES :: "outcome list" where
  "JUDGED_OUTCOMES = [Improved, NoGain, Regressed, GuardrailViolation]"

record verdict =
  v_outcome :: outcome
  v_eval_status :: eval_status
  v_dev_score :: "pyfloat option"
  v_valid :: "bool option"

definition v_improved :: "verdict \<Rightarrow> bool" where
  "v_improved v \<longleftrightarrow> v_outcome v = Improved"

definition v_eval_failed :: "verdict \<Rightarrow> bool" where
  "v_eval_failed v \<longleftrightarrow> v_outcome v = EvalFailed"

definition v_pin_mismatch :: "verdict \<Rightarrow> bool" where
  "v_pin_mismatch v \<longleftrightarrow> v_outcome v = InvalidOutcome"

definition gain :: "pyfloat \<Rightarrow> pyfloat \<Rightarrow> direction \<Rightarrow> pyfloat" where
  "gain score best dir = (if dir = Maximize then fsub score best else fsub best score)"

definition beats :: "pyfloat \<Rightarrow> pyfloat option \<Rightarrow> metric \<Rightarrow> bool" where
  "beats score best m =
     (case best of
        None \<Rightarrow> True
      | Some b \<Rightarrow>
          flt (fadd (m_min_delta m) (fmul EPSILON (fmax (Fin 1) (fabs b))))
              (gain score b (m_direction m)))"

definition reaches_target :: "pyfloat option \<Rightarrow> metric \<Rightarrow> bool" where
  "reaches_target score m =
     (case (score, m_target m) of
        (Some s, Some t) \<Rightarrow> if m_direction m = Maximize then fle t s else fle s t
      | _ \<Rightarrow> False)"

text \<open>The part of \<open>classify\<close> after the score has been read.\<close>

definition judge_score :: "metric \<Rightarrow> pyfloat \<Rightarrow> bool \<Rightarrow> pyfloat option \<Rightarrow> verdict" where
  "judge_score m s ok best =
     (let v = \<lambda>oc. \<lparr>v_outcome = oc, v_eval_status = EvOk, v_dev_score = Some s, v_valid = Some ok\<rparr>
      in if \<not> ok then v GuardrailViolation
         else if beats s best m then v Improved
         else case best of
             Some b \<Rightarrow> if flt (gain s b (m_direction m)) (Fin 0) then v Regressed else v NoGain
           | None \<Rightarrow> v NoGain)"

definition classify ::
  "metric \<Rightarrow> string \<Rightarrow> string \<Rightarrow> (string \<times> pyval) list option \<Rightarrow> pyfloat option \<Rightarrow> py_exc + verdict" where
  "classify m score_key status parsed best =
     (let failed = \<lparr>v_outcome = EvalFailed, v_eval_status = EvFailed, v_dev_score = None, v_valid = None\<rparr>
      in if status = ''invalid'' then
           Inr \<lparr>v_outcome = InvalidOutcome, v_eval_status = EvInvalid, v_dev_score = None, v_valid = None\<rparr>
         else if status \<noteq> ''ok'' \<or> parsed = None \<or> parsed = Some [] then
           Inr (failed\<lparr>v_eval_status := if status = ''timed_out'' then EvTimedOut else EvFailed\<rparr>)
         else
           case (dget (the parsed) score_key, dget (the parsed) ''valid'') of
             (PInt n, PBool ok) \<Rightarrow> bindE (float_of_int n) (\<lambda>s. Inr (judge_score m s ok best))
           | (PFloat s, PBool ok) \<Rightarrow> Inr (judge_score m s ok best)
           | _ \<Rightarrow> Inr failed)"

section \<open>What a verdict means\<close>

definition better :: "direction \<Rightarrow> pyfloat \<Rightarrow> pyfloat \<Rightarrow> bool" where
  "better dir a b \<longleftrightarrow> (if dir = Maximize then flt b a else flt a b)"

definition fnonneg :: "pyfloat \<Rightarrow> bool" where
  "fnonneg f \<longleftrightarrow> f \<noteq> NaN \<and> \<not> flt f (Fin 0)"

lemma fnonneg_cases: "fnonneg f \<longleftrightarrow> f = PInf \<or> (\<exists>x. f = Fin x \<and> 0 \<le> x)"
  by (cases f) (auto simp: fnonneg_def)

lemma fnonneg_round64: "0 \<le> x \<Longrightarrow> fnonneg (round64 x)"
  using round64_sign(2) [of x] by (auto simp: fnonneg_def)

lemma fnonneg_fadd: "fnonneg a \<Longrightarrow> fnonneg b \<Longrightarrow> fnonneg (fadd a b)"
  by (auto simp: fnonneg_cases [of a] fnonneg_cases [of b] fnonneg_round64) (simp_all add: fnonneg_def)

lemma fnonneg_tolerance: "is_finite b \<Longrightarrow> fnonneg (fmul EPSILON (fmax (Fin 1) (fabs b)))"
  by (cases b) (auto simp: EPSILON_def fmax_def intro!: fnonneg_round64)

lemma flt_above_nonneg: "fnonneg t \<Longrightarrow> flt t g \<Longrightarrow> flt (Fin 0) g"
  by (cases t; cases g) (auto simp: fnonneg_def)

lemma fsub_sign:
  assumes "is_finite a \<or> is_finite b"
  shows "flt (Fin 0) (fsub a b) \<Longrightarrow> flt b a" and "flt (fsub a b) (Fin 0) \<Longrightarrow> flt a b"
proof -
  show "flt b a" if "flt (Fin 0) (fsub a b)"
    using that assms by (cases a; cases b) (auto simp: fsub_def dest: round64_sign(1))
  show "flt a b" if "flt (fsub a b) (Fin 0)"
    using that assms by (cases a; cases b) (auto simp: fsub_def dest: round64_sign(2))
qed

lemma gain_sign:
  assumes "is_finite b"
  shows "flt (Fin 0) (gain s b dir) \<Longrightarrow> better dir s b" and "flt (gain s b dir) (Fin 0) \<Longrightarrow> better dir b s"
  using fsub_sign [of s b] fsub_sign [of b s] assms by (auto simp: gain_def better_def split: if_splits)

lemma beats_better:
  assumes "metric_ok m" and "is_finite b" and "beats s (Some b) m"
  shows "better (m_direction m) s b"
proof -
  have "fnonneg (m_min_delta m)" using assms(1) by (auto simp: metric_ok_def fnonneg_def)
  then have "fnonneg (fadd (m_min_delta m) (fmul EPSILON (fmax (Fin 1) (fabs b))))"
    using fnonneg_tolerance [OF assms(2)] by (rule fnonneg_fadd)
  with assms(3) have "flt (Fin 0) (gain s b (m_direction m))"
    by (auto simp: beats_def dest: flt_above_nonneg)
  then show ?thesis by (rule gain_sign(1) [OF assms(2)])
qed

lemma classify_cases:
  assumes "classify m k st parsed best = Inr v"
  obtains (unscored) "v_dev_score v = None" "v_valid v = None" "v_outcome v \<in> {EvalFailed, InvalidOutcome}"
      "v_outcome v = InvalidOutcome \<longleftrightarrow> st = ''invalid''" "v_eval_status v \<noteq> EvOk"
    | (scored) s ok where "v = judge_score m s ok best" "st = ''ok''"
      "\<exists>d. parsed = Some d \<and> dget d ''valid'' = PBool ok \<and> to_float (dget d k) = Inr s"
  using assms unfolding classify_def Let_def
  by (auto simp: bindE_Inr_iff split: if_splits pyval.splits)

text \<open>
  A verdict respects the order of the scores, in either direction of the metric: an
  improvement is strictly better than the best valid score so far, whatever the rounding of the
  difference and of the tolerance, and a regression is strictly worse; a score reported with
  \<open>valid = false\<close> is never an improvement.
\<close>

theorem classify_respects_order:
  assumes "metric_ok m" and "is_finite b" and "classify m k st parsed (Some b) = Inr v"
  shows "(v_outcome v = Improved \<longrightarrow>
      (\<exists>s. v_dev_score v = Some s \<and> better (m_direction m) s b \<and> v_valid v = Some True))
    \<and> (v_outcome v = Regressed \<longrightarrow> (\<exists>s. v_dev_score v = Some s \<and> better (m_direction m) b s))"
  using assms(3)
proof (cases rule: classify_cases)
  case unscored
  then show ?thesis by auto
next
  case (scored s ok)
  then show ?thesis
    using beats_better [OF assms(1,2), of s] gain_sign(2) [OF assms(2), of s "m_direction m"]
    by (auto simp: judge_score_def Let_def)
qed

definition speed_metric :: metric where
  "speed_metric = \<lparr>m_name = ''acc'', m_direction = Maximize, m_target = Some (Fin 1),
     m_min_delta = Fin 0\<rparr>"

lemma speed_metric_ok: "metric_ok speed_metric"
proof -
  have "strip ''acc'' = ''acc''" by code_simp
  then show ?thesis by (simp add: metric_ok_def speed_metric_def)
qed

definition report_3 :: "(string \<times> pyval) list" where
  "report_3 = [(''score'', PInt 3), (''valid'', PBool True)]"

lemma improved_report_3: "classify speed_metric ''score'' ''ok'' (Some report_3) (Some (Fin 0))
   = Inr \<lparr>v_outcome = Improved, v_eval_status = EvOk, v_dev_score = Some (Fin 3), v_valid = Some True\<rparr>"
proof -
  obtain y where y: "fmul EPSILON (Fin 1) = Fin y" "0 \<le> y" "y \<le> 1"
    using round64_small [of "4835703278458517 / 4835703278458516698824704" 1] by (auto simp: EPSILON_def)
  then obtain z where z: "round64 y = Fin z" "0 \<le> z" "z \<le> 1"
    using round64_small [of y 1] by auto
  have three: "round64 3 = Fin 3" using round64_int [of 3] by simp
  then have "float_of_int 3 = Inr (Fin 3)" by (simp add: float_of_int_def)
  moreover have "beats (Fin 3) (Some (Fin 0)) speed_metric"
    using y z three by (simp add: beats_def speed_metric_def fmax_def gain_def fsub_def)
  ultimately show ?thesis
    by (simp add: classify_def judge_score_def report_3_def dget_def dget_or_def Let_def)
qed

lemma classify_respects_order_witness: "better Maximize (Fin 3) (Fin 0)"
  using classify_respects_order [OF speed_metric_ok _ improved_report_3]
  by (simp add: speed_metric_def)

text \<open>
  The outcomes that count towards the plateau window are exactly those of a scored
  evaluation: a verdict has a score (and the attempt's evaluation status \<open>ok\<close>) if and only if its
  outcome is one of the judged outcomes, the machine said \<open>ok\<close> and reported a number and a boolean
  \<open>valid\<close>; a changed evaluator is \<open>invalid\<close> whatever the report holds; and the first valid score
  always improves.
\<close>

theorem classify_judged:
  assumes "classify m k st parsed best = Inr v"
  shows "(v_outcome v \<in> set JUDGED_OUTCOMES \<longleftrightarrow> v_dev_score v \<noteq> None)
    \<and> (v_dev_score v \<noteq> None \<longleftrightarrow> v_eval_status v = EvOk)
    \<and> (v_dev_score v \<noteq> None \<longrightarrow> st = ''ok'' \<and>
         (\<exists>d ok. parsed = Some d \<and> dget d ''valid'' = PBool ok \<and> v_valid v = Some ok
            \<and> to_float (dget d k) = Inr (the (v_dev_score v))
            \<and> (v_outcome v = GuardrailViolation \<longleftrightarrow> \<not> ok)))
    \<and> (v_outcome v = InvalidOutcome \<longleftrightarrow> st = ''invalid'')
    \<and> (best = None \<and> v_valid v = Some True \<longrightarrow> v_outcome v = Improved)"
  using assms
proof (cases rule: classify_cases)
  case unscored
  then show ?thesis by (auto simp: JUDGED_OUTCOMES_def)
next
  case (scored s ok)
  then show ?thesis
    by (cases best) (auto simp: judge_score_def Let_def JUDGED_OUTCOMES_def beats_def)
qed

lemma classify_judged_witness: "Improved \<in> set JUDGED_OUTCOMES"
  using classify_judged [OF improved_report_3] by simp

end
