(* ===== verification/CampaignModel.thy ===== *)
theory CampaignModel
  imports CampaignJudge
begin

text \<open>
  The database rows the campaign code reads and writes (db/models.py), the database as a record
  of tables, and the operations every component shares: lookup, row update, marks and history
  rows. Identifiers are strings; a new row's identifier (a random UUID in the code) is an argument
  of the operation that creates it. Foreign keys are plain identifiers.

  Identifiers the code draws with \<open>uuid4\<close> deep inside an operation come from the supply \<open>d_uuid\<close>,
  of which \<open>d_drawn\<close> have been used.

  An exception that leaves a hook deep inside an operation aborts the whole transaction: \<open>d_raised\<close>
  remembers it, and a database with it set is the state of a transaction that is rolled back.

  Messages to components outside the model (room notices, report requests, evaluation dispatch,
  after-commit publishing) are kept in outbox lists of the database record, in order.
\<close>

section \<open>Campaign rows\<close>

datatype retro_why = RetroEnd camp_status | RetroPeriodic

type_synonym pins = "(string \<times> pyval) list"

record campaign =
  c_id :: string
  c_owner :: "string option"
  c_room :: string
  c_agent :: "string option"
  c_title :: string
  c_purpose :: string
  c_mode :: camp_mode
  c_metric :: metric
  c_evaluator :: evaluator
  c_pins :: "pins option"
  c_trusted :: trusted_eval
  c_budget :: budget
  c_deadline :: "instant option"
  c_status :: camp_status
  c_stop_reason :: "string option"
  c_status_detail :: "string option"
  c_cycles_run :: int
  c_tokens_used :: int
  c_best :: "string option"
  c_final :: "string option"
  c_next :: "instant option"
  c_wake_reason :: "string option"
  c_since :: int
  c_eval_failures :: int
  c_retro_due :: "retro_why option"
  c_rev :: int
  c_created :: instant
  c_updated :: instant

record attempt =
  a_id :: string
  a_campaign :: string
  a_cycle_no :: int
  a_kind :: attempt_kind
  a_task :: "string option"
  a_execution :: "string option"
  a_opened :: instant
  a_closed :: "instant option"
  a_agent_outcome :: "agent_outcome option"
  a_hypothesis :: "string option"
  a_change_summary :: "string option"
  a_artifact_ref :: "string option"
  a_lessons :: "string option"
  a_recorded_at :: "instant option"
  a_wake_at :: "instant option"
  a_wake_reason :: "string option"
  a_block_reason :: "string option"
  a_unblock_hint :: "string option"
  a_eval_status :: eval_status
  a_eval_job :: "string option"
  a_eval_digest :: "digest option"
  a_eval_deadline :: "instant option"
  a_dev_score :: "pyfloat option"
  a_metrics :: "(string \<times> pyval) list option"
  a_valid :: "bool option"
  a_excerpt :: "string option"
  a_eval_started :: "instant option"
  a_eval_finished :: "instant option"
  a_trusted_score :: "pyfloat option"
  a_trusted_at :: "instant option"
  a_tokens :: "int option"
  a_outcome :: "outcome option"

text \<open>An attempt as it is inserted: every optional column empty.\<close>

definition new_attempt :: "string \<Rightarrow> string \<Rightarrow> int \<Rightarrow> attempt_kind \<Rightarrow> string \<Rightarrow> instant \<Rightarrow> eval_status \<Rightarrow> attempt" where
  "new_attempt aid cid n kind task opened evs =
     \<lparr>a_id = aid, a_campaign = cid, a_cycle_no = n, a_kind = kind, a_task = Some task,
      a_execution = None, a_opened = opened, a_closed = None, a_agent_outcome = None,
      a_hypothesis = None, a_change_summary = None, a_artifact_ref = None, a_lessons = None,
      a_recorded_at = None, a_wake_at = None, a_wake_reason = None, a_block_reason = None,
      a_unblock_hint = None, a_eval_status = evs, a_eval_job = None, a_eval_digest = None,
      a_eval_deadline = None, a_dev_score = None, a_metrics = None, a_valid = None,
      a_excerpt = None, a_eval_started = None, a_eval_finished = None, a_trusted_score = None,
      a_trusted_at = None, a_tokens = None, a_outcome = None\<rparr>"

record event_row =
  e_campaign :: string
  e_key :: string
  e_type :: string
  e_details :: "(string \<times> pyval) list"
  e_actor :: "string option"
  e_created :: instant

section \<open>Tasks, rooms and executions\<close>

datatype task_status = Todo | InProgress | TaskDone | TaskBlocked | TaskFailed

definition TASK_TERMINAL_STATUSES :: "task_status list" where
  "TASK_TERMINAL_STATUSES = [TaskDone, TaskFailed]"

record task_row =
  k_id :: string
  k_room :: string
  k_title :: string
  k_spec :: "string option"
  k_status :: task_status
  k_error :: "string option"
  k_finished :: "instant option"
  k_assignee :: "string option"
  k_assigned_at :: "instant option"
  k_created_by :: "string option"
  k_triggered_by :: string
  k_idem_key :: "string option"
  k_campaign :: "string option"
  k_execution :: "string option"
  k_input_rev :: "int option"

record room_row =
  r_id :: string
  r_project :: "string option"
  r_archived :: "instant option"
  r_is_dm :: bool
  r_lead :: "string option"

record participant_row =
  p_id :: string
  p_room :: string
  p_agent :: "string option"
  p_role :: string

record agent_row =
  g_id :: string
  g_machine :: "string option"
  g_desired_running :: bool

datatype exec_status =
    XPlanning | XRunning | XWaitingChildren | XRevising | XCancelling
  | XCompleted | XFailed | XCancelled

record exec_row =
  x_id :: string
  x_room :: string
  x_lead :: string
  x_root_task :: "string option"
  x_input_rev :: int
  x_status :: exec_status
  x_state_rev :: int
  x_error :: "string option"
  x_updated :: instant
  x_finished :: "instant option"

record exec_event =
  xe_execution :: string
  xe_task :: "string option"
  xe_key :: string
  xe_type :: string
  xe_details :: "(string \<times> pyval) list"

datatype mutation_action = MRevise | MCancel | MLimit | MDeadline
datatype mutation_phase = AwaitingStop | Applied | Superseded

record mutation_row =
  mu_id :: string
  mu_execution :: string
  mu_action :: mutation_action
  mu_phase :: mutation_phase
  mu_prev_rev :: int
  mu_rev :: int
  mu_expected_state_rev :: int
  mu_root_task :: "string option"
  mu_reason :: string
  mu_requested :: instant
  mu_completed :: "instant option"

datatype stop_status = StPending | StDelivered | StConfirmed | StNotStarted | StAlreadyFinished | StUnknown

record stop_row =
  st_id :: string
  st_mutation :: string
  st_execution :: string
  st_input_rev :: int
  st_request :: string
  st_attempt_id :: string
  st_attempt :: int
  st_generation :: int
  st_agent :: "string option"
  st_room :: string
  st_participant :: "string option"
  st_local :: "string option"
  st_reason :: string
  st_status :: stop_status
  st_deadline :: instant
  st_confirmed :: "instant option"
  st_receipt :: "(string \<times> pyval) list option"
  st_error_code :: "string option"

datatype turn_state =
  TnPending | TnLeased | TnRetrying | TnCompleting | TnCompleted | TnCancelled | TnFailed

record turn_row =
  tn_request :: string
  tn_room :: string
  tn_participant :: "string option"
  tn_agent :: "string option"
  tn_task :: "string option"
  tn_execution :: "string option"
  tn_input_rev :: "int option"
  tn_state :: turn_state
  tn_reason :: "string option"
  tn_completed :: "instant option"

datatype turn_attempt_state =
  TaPending | TaLeased | TaStarted | TaCompleting | TaCompleted | TaInterrupted | TaCancelled | TaStale | TaFailed

record turn_attempt =
  ta_id :: string
  ta_turn :: string
  ta_number :: int
  ta_generation :: int
  ta_local :: "string option"
  ta_state :: turn_attempt_state
  ta_ended :: "instant option"
  ta_reason :: "string option"
  ta_outcome :: "string option"

datatype outbox_state = ObPending | ObDelivering | ObDelivered | ObCancelled

record outbox_row =
  ob_turn :: string
  ob_state :: outbox_state

section \<open>The database\<close>

datatype mark = MarkCampaign string | MarkAttempt string | MarkTask string

record notice =
  no_campaign :: string
  no_status :: camp_status
  no_previous :: camp_status
  no_detail :: "string option"
  no_stop_reason :: "string option"

record report_request =
  rq_campaign :: string
  rq_reason :: string
  rq_previous :: camp_status
  rq_detail :: "string option"

record db =
  d_campaigns :: "campaign list"
  d_attempts :: "attempt list"
  d_events :: "event_row list"
  d_tasks :: "task_row list"
  d_rooms :: "room_row list"
  d_participants :: "participant_row list"
  d_agents :: "agent_row list"
  d_executions :: "exec_row list"
  d_exec_events :: "exec_event list"
  d_mutations :: "mutation_row list"
  d_stops :: "stop_row list"
  d_turns :: "turn_row list"
  d_turn_attempts :: "turn_attempt list"
  d_outbox :: "outbox_row list"
  d_usage :: "(string \<times> int) list"
  d_marks :: "mark list"
  d_notices :: "notice list"
  d_reports :: "report_request list"
  d_dispatches :: "string list"
  d_assigned :: "string list"
  d_closed_turns :: "string list"
  d_deadline_tasks :: "string list"
  d_uuid :: "nat \<Rightarrow> string"
  d_drawn :: nat
  d_raised :: "camp_exc option"

section \<open>Tables of the database\<close>

text \<open>
  \<open>row_get\<close> is \<open>db.get(Model, k)\<close>, \<open>row_upd\<close> an UPDATE of the row with that key and \<open>row_add\<close>
  an INSERT. The locale states what a table promises its clients; every table of the record is
  an interpretation of it.
\<close>

definition row_get :: "(db \<Rightarrow> 'r list) \<Rightarrow> ('r \<Rightarrow> string) \<Rightarrow> string \<Rightarrow> db \<Rightarrow> 'r option" where
  "row_get rows key k d = tget key k (rows d)"

definition row_upd :: "(('r list \<Rightarrow> 'r list) \<Rightarrow> db \<Rightarrow> db) \<Rightarrow> ('r \<Rightarrow> string) \<Rightarrow> string \<Rightarrow> ('r \<Rightarrow> 'r) \<Rightarrow> db \<Rightarrow> db" where
  "row_upd put key k f d = put (tupd key k f) d"

definition row_add :: "(('r list \<Rightarrow> 'r list) \<Rightarrow> db \<Rightarrow> db) \<Rightarrow> 'r \<Rightarrow> db \<Rightarrow> db" where
  "row_add put r d = put (\<lambda>rs. rs @ [r]) d"

locale row_table =
  fixes rows :: "db \<Rightarrow> 'r list" and put :: "('r list \<Rightarrow> 'r list) \<Rightarrow> db \<Rightarrow> db" and key :: "'r \<Rightarrow> string"
  assumes rows_put: "rows (put f d) = f (rows d)"
begin

lemma get_upd:
  assumes "\<And>r. key r = k \<Longrightarrow> key (f r) = k"
  shows "row_get rows key k' (row_upd put key k f d) =
    (if k' = k then map_option f (row_get rows key k d) else row_get rows key k' d)"
  unfolding row_get_def row_upd_def rows_put by (rule tget_tupd) (rule assms)

lemma keys_upd:
  assumes "\<And>r. key r = k \<Longrightarrow> key (f r) = k"
  shows "map key (rows (row_upd put key k f d)) = map key (rows d)"
  unfolding row_upd_def rows_put by (rule map_key_tupd) (rule assms)

lemma get_key: "row_get rows key k d = Some r \<Longrightarrow> key r = k"
  unfolding row_get_def by (rule tget_Some_key)

lemma get_mem: "row_get rows key k d = Some r \<Longrightarrow> r \<in> set (rows d)"
  unfolding row_get_def by (rule tget_Some_mem)

lemma get_add:
  "row_get rows key k (row_add put r d) =
    (case row_get rows key k d of None \<Rightarrow> if key r = k then Some r else None | Some q \<Rightarrow> Some q)"
  unfolding row_get_def row_add_def rows_put tget_append by (simp split: option.split)

lemma get_distinct: "distinct (map key (rows d)) \<Longrightarrow> r \<in> set (rows d) \<Longrightarrow> row_get rows key (key r) d = Some r"
  unfolding row_get_def by (rule tget_distinct)

lemma rows_upd: "rows (row_upd put key k f d) = map (\<lambda>r. if key r = k then f r else r) (rows d)"
  by (simp add: row_upd_def rows_put tupd_def)

lemma rows_upd_eq [simp]: "rows (row_upd put key k f d) = tupd key k f (rows d)"
  by (simp add: row_upd_def rows_put)

lemma rows_add [simp]: "rows (row_add put r d) = rows d @ [r]"
  by (simp add: row_add_def rows_put)

end

interpretation campaigns: row_table d_campaigns d_campaigns_update c_id
  by unfold_locales simp
interpretation attempts: row_table d_attempts d_attempts_update a_id
  by unfold_locales simp
interpretation tasks: row_table d_tasks d_tasks_update k_id
  by unfold_locales simp
interpretation executions: row_table d_executions d_executions_update x_id
  by unfold_locales simp
interpretation mutations: row_table d_mutations d_mutations_update mu_id
  by unfold_locales simp
interpretation stops: row_table d_stops d_stops_update st_id
  by unfold_locales simp
interpretation turns: row_table d_turns d_turns_update tn_request
  by unfold_locales simp
interpretation turn_attempts: row_table d_turn_attempts d_turn_attempts_update ta_id
  by unfold_locales simp
interpretation rooms: row_table d_rooms d_rooms_update r_id
  by unfold_locales simp

abbreviation get_campaign :: "string \<Rightarrow> db \<Rightarrow> campaign option" where
  "get_campaign \<equiv> row_get d_campaigns c_id"
abbreviation get_attempt :: "string \<Rightarrow> db \<Rightarrow> attempt option" where
  "get_attempt \<equiv> row_get d_attempts a_id"
abbreviation get_task :: "string \<Rightarrow> db \<Rightarrow> task_row option" where
  "get_task \<equiv> row_get d_tasks k_id"
abbreviation get_exec :: "string \<Rightarrow> db \<Rightarrow> exec_row option" where
  "get_exec \<equiv> row_get d_executions x_id"
abbreviation get_stop :: "string \<Rightarrow> db \<Rightarrow> stop_row option" where
  "get_stop \<equiv> row_get d_stops st_id"
abbreviation get_room :: "string \<Rightarrow> db \<Rightarrow> room_row option" where
  "get_room \<equiv> row_get d_rooms r_id"
abbreviation get_participant :: "string \<Rightarrow> db \<Rightarrow> participant_row option" where
  "get_participant \<equiv> row_get d_participants p_id"
abbreviation get_agent :: "string \<Rightarrow> db \<Rightarrow> agent_row option" where
  "get_agent \<equiv> row_get d_agents g_id"

abbreviation upd_campaign :: "string \<Rightarrow> (campaign \<Rightarrow> campaign) \<Rightarrow> db \<Rightarrow> db" where
  "upd_campaign \<equiv> row_upd d_campaigns_update c_id"
abbreviation upd_attempt :: "string \<Rightarrow> (attempt \<Rightarrow> attempt) \<Rightarrow> db \<Rightarrow> db" where
  "upd_attempt \<equiv> row_upd d_attempts_update a_id"
abbreviation upd_task :: "string \<Rightarrow> (task_row \<Rightarrow> task_row) \<Rightarrow> db \<Rightarrow> db" where
  "upd_task \<equiv> row_upd d_tasks_update k_id"
abbreviation upd_exec :: "string \<Rightarrow> (exec_row \<Rightarrow> exec_row) \<Rightarrow> db \<Rightarrow> db" where
  "upd_exec \<equiv> row_upd d_executions_update x_id"
abbreviation upd_stop :: "string \<Rightarrow> (stop_row \<Rightarrow> stop_row) \<Rightarrow> db \<Rightarrow> db" where
  "upd_stop \<equiv> row_upd d_stops_update st_id"

text \<open>Marks (campaigns/notify.py) are published after the commit.\<close>

definition add_mark :: "mark \<Rightarrow> db \<Rightarrow> db" where
  "add_mark m d = d\<lparr>d_marks := d_marks d @ [m]\<rparr>"

text \<open>Attempts of a campaign, and its open ones.\<close>

definition attempts_of :: "string \<Rightarrow> db \<Rightarrow> attempt list" where
  "attempts_of cid d = filter (\<lambda>a. a_campaign a = cid) (d_attempts d)"

definition open_attempts :: "string \<Rightarrow> db \<Rightarrow> attempt list" where
  "open_attempts cid d = filter (\<lambda>a. a_closed a = None) (attempts_of cid d)"

text \<open>An update of one table leaves the others as they are.\<close>

lemma upd_campaigns_frame [simp]:
  "d_attempts (row_upd d_campaigns_update c_id i f d) = d_attempts d"
  "d_events (row_upd d_campaigns_update c_id i f d) = d_events d"
  "d_tasks (row_upd d_campaigns_update c_id i f d) = d_tasks d"
  "d_rooms (row_upd d_campaigns_update c_id i f d) = d_rooms d"
  "d_participants (row_upd d_campaigns_update c_id i f d) = d_participants d"
  "d_agents (row_upd d_campaigns_update c_id i f d) = d_agents d"
  "d_executions (row_upd d_campaigns_update c_id i f d) = d_executions d"
  "d_exec_events (row_upd d_campaigns_update c_id i f d) = d_exec_events d"
  "d_mutations (row_upd d_campaigns_update c_id i f d) = d_mutations d"
  "d_stops (row_upd d_campaigns_update c_id i f d) = d_stops d"
  "d_turns (row_upd d_campaigns_update c_id i f d) = d_turns d"
  "d_turn_attempts (row_upd d_campaigns_update c_id i f d) = d_turn_attempts d"
  "d_outbox (row_upd d_campaigns_update c_id i f d) = d_outbox d"
  "d_usage (row_upd d_campaigns_update c_id i f d) = d_usage d"
  "d_marks (row_upd d_campaigns_update c_id i f d) = d_marks d"
  "d_notices (row_upd d_campaigns_update c_id i f d) = d_notices d"
  "d_reports (row_upd d_campaigns_update c_id i f d) = d_reports d"
  "d_dispatches (row_upd d_campaigns_update c_id i f d) = d_dispatches d"
  "d_assigned (row_upd d_campaigns_update c_id i f d) = d_assigned d"
  "d_closed_turns (row_upd d_campaigns_update c_id i f d) = d_closed_turns d"
  "d_deadline_tasks (row_upd d_campaigns_update c_id i f d) = d_deadline_tasks d"
  "d_uuid (row_upd d_campaigns_update c_id i f d) = d_uuid d"
  "d_drawn (row_upd d_campaigns_update c_id i f d) = d_drawn d"
  "d_raised (row_upd d_campaigns_update c_id i f d) = d_raised d"
  by (simp_all add: row_upd_def)

lemma add_campaigns_frame [simp]:
  "d_attempts (row_add d_campaigns_update r d) = d_attempts d"
  "d_events (row_add d_campaigns_update r d) = d_events d"
  "d_tasks (row_add d_campaigns_update r d) = d_tasks d"
  "d_rooms (row_add d_campaigns_update r d) = d_rooms d"
  "d_participants (row_add d_campaigns_update r d) = d_participants d"
  "d_agents (row_add d_campaigns_update r d) = d_agents d"
  "d_executions (row_add d_campaigns_update r d) = d_executions d"
  "d_exec_events (row_add d_campaigns_update r d) = d_exec_events d"
  "d_mutations (row_add d_campaigns_update r d) = d_mutations d"
  "d_stops (row_add d_campaigns_update r d) = d_stops d"
  "d_turns (row_add d_campaigns_update r d) = d_turns d"
  "d_turn_attempts (row_add d_campaigns_update r d) = d_turn_attempts d"
  "d_outbox (row_add d_campaigns_update r d) = d_outbox d"
  "d_usage (row_add d_campaigns_update r d) = d_usage d"
  "d_marks (row_add d_campaigns_update r d) = d_marks d"
  "d_notices (row_add d_campaigns_update r d) = d_notices d"
  "d_reports (row_add d_campaigns_update r d) = d_reports d"
  "d_dispatches (row_add d_campaigns_update r d) = d_dispatches d"
  "d_assigned (row_add d_campaigns_update r d) = d_assigned d"
  "d_closed_turns (row_add d_campaigns_update r d) = d_closed_turns d"
  "d_deadline_tasks (row_add d_campaigns_update r d) = d_deadline_tasks d"
  "d_uuid (row_add d_campaigns_update r d) = d_uuid d"
  "d_drawn (row_add d_campaigns_update r d) = d_drawn d"
  "d_raised (row_add d_campaigns_update r d) = d_raised d"
  by (simp_all add: row_add_def)

lemma upd_attempts_frame [simp]:
  "d_campaigns (row_upd d_attempts_update a_id i f d) = d_campaigns d"
  "d_events (row_upd d_attempts_update a_id i f d) = d_events d"
  "d_tasks (row_upd d_attempts_update a_id i f d) = d_tasks d"
  "d_rooms (row_upd d_attempts_update a_id i f d) = d_rooms d"
  "d_participants (row_upd d_attempts_update a_id i f d) = d_participants d"
  "d_agents (row_upd d_attempts_update a_id i f d) = d_agents d"
  "d_executions (row_upd d_attempts_update a_id i f d) = d_executions d"
  "d_exec_events (row_upd d_attempts_update a_id i f d) = d_exec_events d"
  "d_mutations (row_upd d_attempts_update a_id i f d) = d_mutations d"
  "d_stops (row_upd d_attempts_update a_id i f d) = d_stops d"
  "d_turns (row_upd d_attempts_update a_id i f d) = d_turns d"
  "d_turn_attempts (row_upd d_attempts_update a_id i f d) = d_turn_attempts d"
  "d_outbox (row_upd d_attempts_update a_id i f d) = d_outbox d"
  "d_usage (row_upd d_attempts_update a_id i f d) = d_usage d"
  "d_marks (row_upd d_attempts_update a_id i f d) = d_marks d"
  "d_notices (row_upd d_attempts_update a_id i f d) = d_notices d"
  "d_reports (row_upd d_attempts_update a_id i f d) = d_reports d"
  "d_dispatches (row_upd d_attempts_update a_id i f d) = d_dispatches d"
  "d_assigned (row_upd d_attempts_update a_id i f d) = d_assigned d"
  "d_closed_turns (row_upd d_attempts_update a_id i f d) = d_closed_turns d"
  "d_deadline_tasks (row_upd d_attempts_update a_id i f d) = d_deadline_tasks d"
  "d_uuid (row_upd d_attempts_update a_id i f d) = d_uuid d"
  "d_drawn (row_upd d_attempts_update a_id i f d) = d_drawn d"
  "d_raised (row_upd d_attempts_update a_id i f d) = d_raised d"
  by (simp_all add: row_upd_def)

lemma add_attempts_frame [simp]:
  "d_campaigns (row_add d_attempts_update r d) = d_campaigns d"
  "d_events (row_add d_attempts_update r d) = d_events d"
  "d_tasks (row_add d_attempts_update r d) = d_tasks d"
  "d_rooms (row_add d_attempts_update r d) = d_rooms d"
  "d_participants (row_add d_attempts_update r d) = d_participants d"
  "d_agents (row_add d_attempts_update r d) = d_agents d"
  "d_executions (row_add d_attempts_update r d) = d_executions d"
  "d_exec_events (row_add d_attempts_update r d) = d_exec_events d"
  "d_mutations (row_add d_attempts_update r d) = d_mutations d"
  "d_stops (row_add d_attempts_update r d) = d_stops d"
  "d_turns (row_add d_attempts_update r d) = d_turns d"
  "d_turn_attempts (row_add d_attempts_update r d) = d_turn_attempts d"
  "d_outbox (row_add d_attempts_update r d) = d_outbox d"
  "d_usage (row_add d_attempts_update r d) = d_usage d"
  "d_marks (row_add d_attempts_update r d) = d_marks d"
  "d_notices (row_add d_attempts_update r d) = d_notices d"
  "d_reports (row_add d_attempts_update r d) = d_reports d"
  "d_dispatches (row_add d_attempts_update r d) = d_dispatches d"
  "d_assigned (row_add d_attempts_update r d) = d_assigned d"
  "d_closed_turns (row_add d_attempts_update r d) = d_closed_turns d"
  "d_deadline_tasks (row_add d_attempts_update r d) = d_deadline_tasks d"
  "d_uuid (row_add d_attempts_update r d) = d_uuid d"
  "d_drawn (row_add d_attempts_update r d) = d_drawn d"
  "d_raised (row_add d_attempts_update r d) = d_raised d"
  by (simp_all add: row_add_def)

lemma upd_tasks_frame [simp]:
  "d_campaigns (row_upd d_tasks_update k_id i f d) = d_campaigns d"
  "d_attempts (row_upd d_tasks_update k_id i f d) = d_attempts d"
  "d_events (row_upd d_tasks_update k_id i f d) = d_events d"
  "d_rooms (row_upd d_tasks_update k_id i f d) = d_rooms d"
  "d_participants (row_upd d_tasks_update k_id i f d) = d_participants d"
  "d_agents (row_upd d_tasks_update k_id i f d) = d_agents d"
  "d_executions (row_upd d_tasks_update k_id i f d) = d_executions d"
  "d_exec_events (row_upd d_tasks_update k_id i f d) = d_exec_events d"
  "d_mutations (row_upd d_tasks_update k_id i f d) = d_mutations d"
  "d_stops (row_upd d_tasks_update k_id i f d) = d_stops d"
  "d_turns (row_upd d_tasks_update k_id i f d) = d_turns d"
  "d_turn_attempts (row_upd d_tasks_update k_id i f d) = d_turn_attempts d"
  "d_outbox (row_upd d_tasks_update k_id i f d) = d_outbox d"
  "d_usage (row_upd d_tasks_update k_id i f d) = d_usage d"
  "d_marks (row_upd d_tasks_update k_id i f d) = d_marks d"
  "d_notices (row_upd d_tasks_update k_id i f d) = d_notices d"
  "d_reports (row_upd d_tasks_update k_id i f d) = d_reports d"
  "d_dispatches (row_upd d_tasks_update k_id i f d) = d_dispatches d"
  "d_assigned (row_upd d_tasks_update k_id i f d) = d_assigned d"
  "d_closed_turns (row_upd d_tasks_update k_id i f d) = d_closed_turns d"
  "d_deadline_tasks (row_upd d_tasks_update k_id i f d) = d_deadline_tasks d"
  "d_uuid (row_upd d_tasks_update k_id i f d) = d_uuid d"
  "d_drawn (row_upd d_tasks_update k_id i f d) = d_drawn d"
  "d_raised (row_upd d_tasks_update k_id i f d) = d_raised d"
  by (simp_all add: row_upd_def)

lemma add_tasks_frame [simp]:
  "d_campaigns (row_add d_tasks_update r d) = d_campaigns d"
  "d_attempts (row_add d_tasks_update r d) = d_attempts d"
  "d_events (row_add d_tasks_update r d) = d_events d"
  "d_rooms (row_add d_tasks_update r d) = d_rooms d"
  "d_participants (row_add d_tasks_update r d) = d_participants d"
  "d_agents (row_add d_tasks_update r d) = d_agents d"
  "d_executions (row_add d_tasks_update r d) = d_executions d"
  "d_exec_events (row_add d_tasks_update r d) = d_exec_events d"
  "d_mutations (row_add d_tasks_update r d) = d_mutations d"
  "d_stops (row_add d_tasks_update r d) = d_stops d"
  "d_turns (row_add d_tasks_update r d) = d_turns d"
  "d_turn_attempts (row_add d_tasks_update r d) = d_turn_attempts d"
  "d_outbox (row_add d_tasks_update r d) = d_outbox d"
  "d_usage (row_add d_tasks_update r d) = d_usage d"
  "d_marks (row_add d_tasks_update r d) = d_marks d"
  "d_notices (row_add d_tasks_update r d) = d_notices d"
  "d_reports (row_add d_tasks_update r d) = d_reports d"
  "d_dispatches (row_add d_tasks_update r d) = d_dispatches d"
  "d_assigned (row_add d_tasks_update r d) = d_assigned d"
  "d_closed_turns (row_add d_tasks_update r d) = d_closed_turns d"
  "d_deadline_tasks (row_add d_tasks_update r d) = d_deadline_tasks d"
  "d_uuid (row_add d_tasks_update r d) = d_uuid d"
  "d_drawn (row_add d_tasks_update r d) = d_drawn d"
  "d_raised (row_add d_tasks_update r d) = d_raised d"
  by (simp_all add: row_add_def)

lemma upd_executions_frame [simp]:
  "d_campaigns (row_upd d_executions_update x_id i f d) = d_campaigns d"
  "d_attempts (row_upd d_executions_update x_id i f d) = d_attempts d"
  "d_events (row_upd d_executions_update x_id i f d) = d_events d"
  "d_tasks (row_upd d_executions_update x_id i f d) = d_tasks d"
  "d_rooms (row_upd d_executions_update x_id i f d) = d_rooms d"
  "d_participants (row_upd d_executions_update x_id i f d) = d_participants d"
  "d_agents (row_upd d_executions_update x_id i f d) = d_agents d"
  "d_exec_events (row_upd d_executions_update x_id i f d) = d_exec_events d"
  "d_mutations (row_upd d_executions_update x_id i f d) = d_mutations d"
  "d_stops (row_upd d_executions_update x_id i f d) = d_stops d"
  "d_turns (row_upd d_executions_update x_id i f d) = d_turns d"
  "d_turn_attempts (row_upd d_executions_update x_id i f d) = d_turn_attempts d"
  "d_outbox (row_upd d_executions_update x_id i f d) = d_outbox d"
  "d_usage (row_upd d_executions_update x_id i f d) = d_usage d"
  "d_marks (row_upd d_executions_update x_id i f d) = d_marks d"
  "d_notices (row_upd d_executions_update x_id i f d) = d_notices d"
  "d_reports (row_upd d_executions_update x_id i f d) = d_reports d"
  "d_dispatches (row_upd d_executions_update x_id i f d) = d_dispatches d"
  "d_assigned (row_upd d_executions_update x_id i f d) = d_assigned d"
  "d_closed_turns (row_upd d_executions_update x_id i f d) = d_closed_turns d"
  "d_deadline_tasks (row_upd d_executions_update x_id i f d) = d_deadline_tasks d"
  "d_uuid (row_upd d_executions_update x_id i f d) = d_uuid d"
  "d_drawn (row_upd d_executions_update x_id i f d) = d_drawn d"
  "d_raised (row_upd d_executions_update x_id i f d) = d_raised d"
  by (simp_all add: row_upd_def)

lemma add_executions_frame [simp]:
  "d_campaigns (row_add d_executions_update r d) = d_campaigns d"
  "d_attempts (row_add d_executions_update r d) = d_attempts d"
  "d_events (row_add d_executions_update r d) = d_events d"
  "d_tasks (row_add d_executions_update r d) = d_tasks d"
  "d_rooms (row_add d_executions_update r d) = d_rooms d"
  "d_participants (row_add d_executions_update r d) = d_participants d"
  "d_agents (row_add d_executions_update r d) = d_agents d"
  "d_exec_events (row_add d_executions_update r d) = d_exec_events d"
  "d_mutations (row_add d_executions_update r d) = d_mutations d"
  "d_stops (row_add d_executions_update r d) = d_stops d"
  "d_turns (row_add d_executions_update r d) = d_turns d"
  "d_turn_attempts (row_add d_executions_update r d) = d_turn_attempts d"
  "d_outbox (row_add d_executions_update r d) = d_outbox d"
  "d_usage (row_add d_executions_update r d) = d_usage d"
  "d_marks (row_add d_executions_update r d) = d_marks d"
  "d_notices (row_add d_executions_update r d) = d_notices d"
  "d_reports (row_add d_executions_update r d) = d_reports d"
  "d_dispatches (row_add d_executions_update r d) = d_dispatches d"
  "d_assigned (row_add d_executions_update r d) = d_assigned d"
  "d_closed_turns (row_add d_executions_update r d) = d_closed_turns d"
  "d_deadline_tasks (row_add d_executions_update r d) = d_deadline_tasks d"
  "d_uuid (row_add d_executions_update r d) = d_uuid d"
  "d_drawn (row_add d_executions_update r d) = d_drawn d"
  "d_raised (row_add d_executions_update r d) = d_raised d"
  by (simp_all add: row_add_def)

lemma upd_mutations_frame [simp]:
  "d_campaigns (row_upd d_mutations_update mu_id i f d) = d_campaigns d"
  "d_attempts (row_upd d_mutations_update mu_id i f d) = d_attempts d"
  "d_events (row_upd d_mutations_update mu_id i f d) = d_events d"
  "d_tasks (row_upd d_mutations_update mu_id i f d) = d_tasks d"
  "d_rooms (row_upd d_mutations_update mu_id i f d) = d_rooms d"
  "d_participants (row_upd d_mutations_update mu_id i f d) = d_participants d"
  "d_agents (row_upd d_mutations_update mu_id i f d) = d_agents d"
  "d_executions (row_upd d_mutations_update mu_id i f d) = d_executions d"
  "d_exec_events (row_upd d_mutations_update mu_id i f d) = d_exec_events d"
  "d_stops (row_upd d_mutations_update mu_id i f d) = d_stops d"
  "d_turns (row_upd d_mutations_update mu_id i f d) = d_turns d"
  "d_turn_attempts (row_upd d_mutations_update mu_id i f d) = d_turn_attempts d"
  "d_outbox (row_upd d_mutations_update mu_id i f d) = d_outbox d"
  "d_usage (row_upd d_mutations_update mu_id i f d) = d_usage d"
  "d_marks (row_upd d_mutations_update mu_id i f d) = d_marks d"
  "d_notices (row_upd d_mutations_update mu_id i f d) = d_notices d"
  "d_reports (row_upd d_mutations_update mu_id i f d) = d_reports d"
  "d_dispatches (row_upd d_mutations_update mu_id i f d) = d_dispatches d"
  "d_assigned (row_upd d_mutations_update mu_id i f d) = d_assigned d"
  "d_closed_turns (row_upd d_mutations_update mu_id i f d) = d_closed_turns d"
  "d_deadline_tasks (row_upd d_mutations_update mu_id i f d) = d_deadline_tasks d"
  "d_uuid (row_upd d_mutations_update mu_id i f d) = d_uuid d"
  "d_drawn (row_upd d_mutations_update mu_id i f d) = d_drawn d"
  "d_raised (row_upd d_mutations_update mu_id i f d) = d_raised d"
  by (simp_all add: row_upd_def)

lemma add_mutations_frame [simp]:
  "d_campaigns (row_add d_mutations_update r d) = d_campaigns d"
  "d_attempts (row_add d_mutations_update r d) = d_attempts d"
  "d_events (row_add d_mutations_update r d) = d_events d"
  "d_tasks (row_add d_mutations_update r d) = d_tasks d"
  "d_rooms (row_add d_mutations_update r d) = d_rooms d"
  "d_participants (row_add d_mutations_update r d) = d_participants d"
  "d_agents (row_add d_mutations_update r d) = d_agents d"
  "d_executions (row_add d_mutations_update r d) = d_executions d"
  "d_exec_events (row_add d_mutations_update r d) = d_exec_events d"
  "d_stops (row_add d_mutations_update r d) = d_stops d"
  "d_turns (row_add d_mutations_update r d) = d_turns d"
  "d_turn_attempts (row_add d_mutations_update r d) = d_turn_attempts d"
  "d_outbox (row_add d_mutations_update r d) = d_outbox d"
  "d_usage (row_add d_mutations_update r d) = d_usage d"
  "d_marks (row_add d_mutations_update r d) = d_marks d"
  "d_notices (row_add d_mutations_update r d) = d_notices d"
  "d_reports (row_add d_mutations_update r d) = d_reports d"
  "d_dispatches (row_add d_mutations_update r d) = d_dispatches d"
  "d_assigned (row_add d_mutations_update r d) = d_assigned d"
  "d_closed_turns (row_add d_mutations_update r d) = d_closed_turns d"
  "d_deadline_tasks (row_add d_mutations_update r d) = d_deadline_tasks d"
  "d_uuid (row_add d_mutations_update r d) = d_uuid d"
  "d_drawn (row_add d_mutations_update r d) = d_drawn d"
  "d_raised (row_add d_mutations_update r d) = d_raised d"
  by (simp_all add: row_add_def)

lemma upd_stops_frame [simp]:
  "d_campaigns (row_upd d_stops_update st_id i f d) = d_campaigns d"
  "d_attempts (row_upd d_stops_update st_id i f d) = d_attempts d"
  "d_events (row_upd d_stops_update st_id i f d) = d_events d"
  "d_tasks (row_upd d_stops_update st_id i f d) = d_tasks d"
  "d_rooms (row_upd d_stops_update st_id i f d) = d_rooms d"
  "d_participants (row_upd d_stops_update st_id i f d) = d_participants d"
  "d_agents (row_upd d_stops_update st_id i f d) = d_agents d"
  "d_executions (row_upd d_stops_update st_id i f d) = d_executions d"
  "d_exec_events (row_upd d_stops_update st_id i f d) = d_exec_events d"
  "d_mutations (row_upd d_stops_update st_id i f d) = d_mutations d"
  "d_turns (row_upd d_stops_update st_id i f d) = d_turns d"
  "d_turn_attempts (row_upd d_stops_update st_id i f d) = d_turn_attempts d"
  "d_outbox (row_upd d_stops_update st_id i f d) = d_outbox d"
  "d_usage (row_upd d_stops_update st_id i f d) = d_usage d"
  "d_marks (row_upd d_stops_update st_id i f d) = d_marks d"
  "d_notices (row_upd d_stops_update st_id i f d) = d_notices d"
  "d_reports (row_upd d_stops_update st_id i f d) = d_reports d"
  "d_dispatches (row_upd d_stops_update st_id i f d) = d_dispatches d"
  "d_assigned (row_upd d_stops_update st_id i f d) = d_assigned d"
  "d_closed_turns (row_upd d_stops_update st_id i f d) = d_closed_turns d"
  "d_deadline_tasks (row_upd d_stops_update st_id i f d) = d_deadline_tasks d"
  "d_uuid (row_upd d_stops_update st_id i f d) = d_uuid d"
  "d_drawn (row_upd d_stops_update st_id i f d) = d_drawn d"
  "d_raised (row_upd d_stops_update st_id i f d) = d_raised d"
  by (simp_all add: row_upd_def)

lemma add_stops_frame [simp]:
  "d_campaigns (row_add d_stops_update r d) = d_campaigns d"
  "d_attempts (row_add d_stops_update r d) = d_attempts d"
  "d_events (row_add d_stops_update r d) = d_events d"
  "d_tasks (row_add d_stops_update r d) = d_tasks d"
  "d_rooms (row_add d_stops_update r d) = d_rooms d"
  "d_participants (row_add d_stops_update r d) = d_participants d"
  "d_agents (row_add d_stops_update r d) = d_agents d"
  "d_executions (row_add d_stops_update r d) = d_executions d"
  "d_exec_events (row_add d_stops_update r d) = d_exec_events d"
  "d_mutations (row_add d_stops_update r d) = d_mutations d"
  "d_turns (row_add d_stops_update r d) = d_turns d"
  "d_turn_attempts (row_add d_stops_update r d) = d_turn_attempts d"
  "d_outbox (row_add d_stops_update r d) = d_outbox d"
  "d_usage (row_add d_stops_update r d) = d_usage d"
  "d_marks (row_add d_stops_update r d) = d_marks d"
  "d_notices (row_add d_stops_update r d) = d_notices d"
  "d_reports (row_add d_stops_update r d) = d_reports d"
  "d_dispatches (row_add d_stops_update r d) = d_dispatches d"
  "d_assigned (row_add d_stops_update r d) = d_assigned d"
  "d_closed_turns (row_add d_stops_update r d) = d_closed_turns d"
  "d_deadline_tasks (row_add d_stops_update r d) = d_deadline_tasks d"
  "d_uuid (row_add d_stops_update r d) = d_uuid d"
  "d_drawn (row_add d_stops_update r d) = d_drawn d"
  "d_raised (row_add d_stops_update r d) = d_raised d"
  by (simp_all add: row_add_def)

lemma upd_turns_frame [simp]:
  "d_campaigns (row_upd d_turns_update tn_request i f d) = d_campaigns d"
  "d_attempts (row_upd d_turns_update tn_request i f d) = d_attempts d"
  "d_events (row_upd d_turns_update tn_request i f d) = d_events d"
  "d_tasks (row_upd d_turns_update tn_request i f d) = d_tasks d"
  "d_rooms (row_upd d_turns_update tn_request i f d) = d_rooms d"
  "d_participants (row_upd d_turns_update tn_request i f d) = d_participants d"
  "d_agents (row_upd d_turns_update tn_request i f d) = d_agents d"
  "d_executions (row_upd d_turns_update tn_request i f d) = d_executions d"
  "d_exec_events (row_upd d_turns_update tn_request i f d) = d_exec_events d"
  "d_mutations (row_upd d_turns_update tn_request i f d) = d_mutations d"
  "d_stops (row_upd d_turns_update tn_request i f d) = d_stops d"
  "d_turn_attempts (row_upd d_turns_update tn_request i f d) = d_turn_attempts d"
  "d_outbox (row_upd d_turns_update tn_request i f d) = d_outbox d"
  "d_usage (row_upd d_turns_update tn_request i f d) = d_usage d"
  "d_marks (row_upd d_turns_update tn_request i f d) = d_marks d"
  "d_notices (row_upd d_turns_update tn_request i f d) = d_notices d"
  "d_reports (row_upd d_turns_update tn_request i f d) = d_reports d"
  "d_dispatches (row_upd d_turns_update tn_request i f d) = d_dispatches d"
  "d_assigned (row_upd d_turns_update tn_request i f d) = d_assigned d"
  "d_closed_turns (row_upd d_turns_update tn_request i f d) = d_closed_turns d"
  "d_deadline_tasks (row_upd d_turns_update tn_request i f d) = d_deadline_tasks d"
  "d_uuid (row_upd d_turns_update tn_request i f d) = d_uuid d"
  "d_drawn (row_upd d_turns_update tn_request i f d) = d_drawn d"
  "d_raised (row_upd d_turns_update tn_request i f d) = d_raised d"
  by (simp_all add: row_upd_def)

lemma add_turns_frame [simp]:
  "d_campaigns (row_add d_turns_update r d) = d_campaigns d"
  "d_attempts (row_add d_turns_update r d) = d_attempts d"
  "d_events (row_add d_turns_update r d) = d_events d"
  "d_tasks (row_add d_turns_update r d) = d_tasks d"
  "d_rooms (row_add d_turns_update r d) = d_rooms d"
  "d_participants (row_add d_turns_update r d) = d_participants d"
  "d_agents (row_add d_turns_update r d) = d_agents d"
  "d_executions (row_add d_turns_update r d) = d_executions d"
  "d_exec_events (row_add d_turns_update r d) = d_exec_events d"
  "d_mutations (row_add d_turns_update r d) = d_mutations d"
  "d_stops (row_add d_turns_update r d) = d_stops d"
  "d_turn_attempts (row_add d_turns_update r d) = d_turn_attempts d"
  "d_outbox (row_add d_turns_update r d) = d_outbox d"
  "d_usage (row_add d_turns_update r d) = d_usage d"
  "d_marks (row_add d_turns_update r d) = d_marks d"
  "d_notices (row_add d_turns_update r d) = d_notices d"
  "d_reports (row_add d_turns_update r d) = d_reports d"
  "d_dispatches (row_add d_turns_update r d) = d_dispatches d"
  "d_assigned (row_add d_turns_update r d) = d_assigned d"
  "d_closed_turns (row_add d_turns_update r d) = d_closed_turns d"
  "d_deadline_tasks (row_add d_turns_update r d) = d_deadline_tasks d"
  "d_uuid (row_add d_turns_update r d) = d_uuid d"
  "d_drawn (row_add d_turns_update r d) = d_drawn d"
  "d_raised (row_add d_turns_update r d) = d_raised d"
  by (simp_all add: row_add_def)

lemma upd_turn_attempts_frame [simp]:
  "d_campaigns (row_upd d_turn_attempts_update ta_id i f d) = d_campaigns d"
  "d_attempts (row_upd d_turn_attempts_update ta_id i f d) = d_attempts d"
  "d_events (row_upd d_turn_attempts_update ta_id i f d) = d_events d"
  "d_tasks (row_upd d_turn_attempts_update ta_id i f d) = d_tasks d"
  "d_rooms (row_upd d_turn_attempts_update ta_id i f d) = d_rooms d"
  "d_participants (row_upd d_turn_attempts_update ta_id i f d) = d_participants d"
  "d_agents (row_upd d_turn_attempts_update ta_id i f d) = d_agents d"
  "d_executions (row_upd d_turn_attempts_update ta_id i f d) = d_executions d"
  "d_exec_events (row_upd d_turn_attempts_update ta_id i f d) = d_exec_events d"
  "d_mutations (row_upd d_turn_attempts_update ta_id i f d) = d_mutations d"
  "d_stops (row_upd d_turn_attempts_update ta_id i f d) = d_stops d"
  "d_turns (row_upd d_turn_attempts_update ta_id i f d) = d_turns d"
  "d_outbox (row_upd d_turn_attempts_update ta_id i f d) = d_outbox d"
  "d_usage (row_upd d_turn_attempts_update ta_id i f d) = d_usage d"
  "d_marks (row_upd d_turn_attempts_update ta_id i f d) = d_marks d"
  "d_notices (row_upd d_turn_attempts_update ta_id i f d) = d_notices d"
  "d_reports (row_upd d_turn_attempts_update ta_id i f d) = d_reports d"
  "d_dispatches (row_upd d_turn_attempts_update ta_id i f d) = d_dispatches d"
  "d_assigned (row_upd d_turn_attempts_update ta_id i f d) = d_assigned d"
  "d_closed_turns (row_upd d_turn_attempts_update ta_id i f d) = d_closed_turns d"
  "d_deadline_tasks (row_upd d_turn_attempts_update ta_id i f d) = d_deadline_tasks d"
  "d_uuid (row_upd d_turn_attempts_update ta_id i f d) = d_uuid d"
  "d_drawn (row_upd d_turn_attempts_update ta_id i f d) = d_drawn d"
  "d_raised (row_upd d_turn_attempts_update ta_id i f d) = d_raised d"
  by (simp_all add: row_upd_def)

lemma add_turn_attempts_frame [simp]:
  "d_campaigns (row_add d_turn_attempts_update r d) = d_campaigns d"
  "d_attempts (row_add d_turn_attempts_update r d) = d_attempts d"
  "d_events (row_add d_turn_attempts_update r d) = d_events d"
  "d_tasks (row_add d_turn_attempts_update r d) = d_tasks d"
  "d_rooms (row_add d_turn_attempts_update r d) = d_rooms d"
  "d_participants (row_add d_turn_attempts_update r d) = d_participants d"
  "d_agents (row_add d_turn_attempts_update r d) = d_agents d"
  "d_executions (row_add d_turn_attempts_update r d) = d_executions d"
  "d_exec_events (row_add d_turn_attempts_update r d) = d_exec_events d"
  "d_mutations (row_add d_turn_attempts_update r d) = d_mutations d"
  "d_stops (row_add d_turn_attempts_update r d) = d_stops d"
  "d_turns (row_add d_turn_attempts_update r d) = d_turns d"
  "d_outbox (row_add d_turn_attempts_update r d) = d_outbox d"
  "d_usage (row_add d_turn_attempts_update r d) = d_usage d"
  "d_marks (row_add d_turn_attempts_update r d) = d_marks d"
  "d_notices (row_add d_turn_attempts_update r d) = d_notices d"
  "d_reports (row_add d_turn_attempts_update r d) = d_reports d"
  "d_dispatches (row_add d_turn_attempts_update r d) = d_dispatches d"
  "d_assigned (row_add d_turn_attempts_update r d) = d_assigned d"
  "d_closed_turns (row_add d_turn_attempts_update r d) = d_closed_turns d"
  "d_deadline_tasks (row_add d_turn_attempts_update r d) = d_deadline_tasks d"
  "d_uuid (row_add d_turn_attempts_update r d) = d_uuid d"
  "d_drawn (row_add d_turn_attempts_update r d) = d_drawn d"
  "d_raised (row_add d_turn_attempts_update r d) = d_raised d"
  by (simp_all add: row_add_def)

lemma add_mark_frame [simp]:
  "d_campaigns (add_mark m d) = d_campaigns d"
  "d_attempts (add_mark m d) = d_attempts d"
  "d_events (add_mark m d) = d_events d"
  "d_tasks (add_mark m d) = d_tasks d"
  "d_rooms (add_mark m d) = d_rooms d"
  "d_participants (add_mark m d) = d_participants d"
  "d_agents (add_mark m d) = d_agents d"
  "d_executions (add_mark m d) = d_executions d"
  "d_exec_events (add_mark m d) = d_exec_events d"
  "d_mutations (add_mark m d) = d_mutations d"
  "d_stops (add_mark m d) = d_stops d"
  "d_turns (add_mark m d) = d_turns d"
  "d_turn_attempts (add_mark m d) = d_turn_attempts d"
  "d_outbox (add_mark m d) = d_outbox d"
  "d_usage (add_mark m d) = d_usage d"
  "d_notices (add_mark m d) = d_notices d"
  "d_reports (add_mark m d) = d_reports d"
  "d_dispatches (add_mark m d) = d_dispatches d"
  "d_assigned (add_mark m d) = d_assigned d"
  "d_closed_turns (add_mark m d) = d_closed_turns d"
  "d_deadline_tasks (add_mark m d) = d_deadline_tasks d"
  "d_uuid (add_mark m d) = d_uuid d"
  "d_drawn (add_mark m d) = d_drawn d"
  "d_raised (add_mark m d) = d_raised d"
  by (simp_all add: add_mark_def)

lemma row_get_cong: "rows d = rows d' \<Longrightarrow> row_get rows key k d = row_get rows key k d'"
  by (simp add: row_get_def)

section \<open>Column values\<close>

text \<open>
  The keyword arguments \<open>**values\<close> of a loop-state write: one constructor per column the callers
  pass. \<open>set_col\<close> writes one column, \<open>set_cols\<close> all of them.
\<close>

datatype col =
    ColTitle string | ColPurpose string | ColTrusted trusted_eval | ColMetric metric
  | ColBudget budget | ColEvaluator evaluator | ColPins "pins option"
  | ColDeadline "instant option" | ColStopReason "string option" | ColStatusDetail "string option"
  | ColCyclesRun int | ColTokens int | ColBest "string option" | ColFinal "string option"
  | ColNext "instant option" | ColWakeReason "string option" | ColSince int | ColFailures int
  | ColRetroDue "retro_why option"

fun set_col :: "col \<Rightarrow> campaign \<Rightarrow> campaign" where
  "set_col (ColTitle v) c = c\<lparr>c_title := v\<rparr>"
| "set_col (ColPurpose v) c = c\<lparr>c_purpose := v\<rparr>"
| "set_col (ColTrusted v) c = c\<lparr>c_trusted := v\<rparr>"
| "set_col (ColMetric v) c = c\<lparr>c_metric := v\<rparr>"
| "set_col (ColBudget v) c = c\<lparr>c_budget := v\<rparr>"
| "set_col (ColEvaluator v) c = c\<lparr>c_evaluator := v\<rparr>"
| "set_col (ColPins v) c = c\<lparr>c_pins := v\<rparr>"
| "set_col (ColDeadline v) c = c\<lparr>c_deadline := v\<rparr>"
| "set_col (ColStopReason v) c = c\<lparr>c_stop_reason := v\<rparr>"
| "set_col (ColStatusDetail v) c = c\<lparr>c_status_detail := v\<rparr>"
| "set_col (ColCyclesRun v) c = c\<lparr>c_cycles_run := v\<rparr>"
| "set_col (ColTokens v) c = c\<lparr>c_tokens_used := v\<rparr>"
| "set_col (ColBest v) c = c\<lparr>c_best := v\<rparr>"
| "set_col (ColFinal v) c = c\<lparr>c_final := v\<rparr>"
| "set_col (ColNext v) c = c\<lparr>c_next := v\<rparr>"
| "set_col (ColWakeReason v) c = c\<lparr>c_wake_reason := v\<rparr>"
| "set_col (ColSince v) c = c\<lparr>c_since := v\<rparr>"
| "set_col (ColFailures v) c = c\<lparr>c_eval_failures := v\<rparr>"
| "set_col (ColRetroDue v) c = c\<lparr>c_retro_due := v\<rparr>"

definition set_cols :: "col list \<Rightarrow> campaign \<Rightarrow> campaign" where
  "set_cols vs c = fold set_col vs c"

lemma set_cols_Nil [simp]: "set_cols [] c = c"
  by (simp add: set_cols_def)

lemma set_cols_Cons [simp]: "set_cols (v # vs) c = set_cols vs (set_col v c)"
  by (simp add: set_cols_def)

lemma set_cols_append: "set_cols (vs @ ws) c = set_cols ws (set_cols vs c)"
  by (simp add: set_cols_def)

text \<open>No column write touches the identity of the row, its status or its revision.\<close>

lemma set_col_frame [simp]:
  "c_id (set_col v c) = c_id c" "c_status (set_col v c) = c_status c" "c_rev (set_col v c) = c_rev c"
  "c_agent (set_col v c) = c_agent c" "c_mode (set_col v c) = c_mode c" "c_room (set_col v c) = c_room c"
  "c_created (set_col v c) = c_created c"
  by (cases v; simp)+

lemma set_cols_frame [simp]:
  "c_id (set_cols vs c) = c_id c" "c_status (set_cols vs c) = c_status c" "c_rev (set_cols vs c) = c_rev c"
  "c_agent (set_cols vs c) = c_agent c" "c_mode (set_cols vs c) = c_mode c" "c_room (set_cols vs c) = c_room c"
  "c_created (set_cols vs c) = c_created c"
  by (induction vs arbitrary: c; simp)+

text \<open>\<open>values.get(k)\<close> and \<open>k in values\<close> for the columns the code looks up.\<close>

definition has_retro_col :: "col list \<Rightarrow> bool" where
  "has_retro_col vs \<longleftrightarrow> list_ex (\<lambda>v. case v of ColRetroDue _ \<Rightarrow> True | _ \<Rightarrow> False) vs"

definition has_final_col :: "col list \<Rightarrow> bool" where
  "has_final_col vs \<longleftrightarrow> list_ex (\<lambda>v. case v of ColFinal _ \<Rightarrow> True | _ \<Rightarrow> False) vs"

fun best_col :: "col list \<Rightarrow> string option option" where
  "best_col [] = None"
| "best_col (v # vs) = (case v of ColBest b \<Rightarrow> Some b | _ \<Rightarrow> best_col vs)"

fun detail_col :: "col list \<Rightarrow> string option" where
  "detail_col [] = None"
| "detail_col (v # vs) = (case v of ColStatusDetail s \<Rightarrow> s | _ \<Rightarrow> detail_col vs)"

end
