(* ===== verification/CampaignService.thy ===== *)
theory CampaignService
  imports CampaignModel
begin

text \<open>
  The campaign service (campaigns/service.py): the state table, the compare-and-set write of the
  loop state with its history row, creation and extension, and the limits of a cycle's execution.
  A campaign object held by a caller may be older than its row, so the writes take the object and
  return the object they leave. One instant \<open>now\<close> stands for the clock of a call.
\<close>

section \<open>State table\<close>

fun transition :: "camp_status \<Rightarrow> camp_event \<Rightarrow> camp_exc + camp_status" where
  "transition s e =
     (case (s, e) of
        (Active, TPause) \<Rightarrow> Inr Paused
      | (Paused, TResume) \<Rightarrow> Inr Active
      | (Blocked, TResume) \<Rightarrow> Inr Active
      | (Plateau, TResume) \<Rightarrow> Inr Active
      | (Active, TBlock) \<Rightarrow> Inr Blocked
      | (Paused, TBlock) \<Rightarrow> Inr Blocked
      | (Active, TPlateau) \<Rightarrow> Inr Plateau
      | (Active, TTargetReached) \<Rightarrow> Inr AwaitingConfirmation
      | (Paused, TTargetReached) \<Rightarrow> Inr AwaitingConfirmation
      | (AwaitingConfirmation, TConfirm) \<Rightarrow> Inr Achieved
      | (AwaitingConfirmation, TReject) \<Rightarrow> Inr Active
      | (Active, TTrustedTargetReached) \<Rightarrow> Inr Achieved
      | (Paused, TTrustedTargetReached) \<Rightarrow> Inr Achieved
      | (Plateau, TTrustedTargetReached) \<Rightarrow> Inr Achieved
      | (AwaitingConfirmation, TTrustedTargetReached) \<Rightarrow> Inr Achieved
      | (DeadlineReached, TExtend) \<Rightarrow> Inr Active
      | (BudgetExhausted, TExtend) \<Rightarrow> Inr Active
      | _ \<Rightarrow>
          if s \<in> set OPEN_STATUSES then
            (case e of
               TDeadline \<Rightarrow> Inr DeadlineReached
             | TBudgetExhausted \<Rightarrow> Inr BudgetExhausted
             | TStop \<Rightarrow> Inr Stopped
             | TEdit \<Rightarrow> Inr s
             | TExtend \<Rightarrow> Inr s
             | _ \<Rightarrow> Inl (IllegalTransition s e))
          else Inl (IllegalTransition s e))"

fun event_name :: "camp_event \<Rightarrow> string" where
  "event_name TPause = ''pause''"
| "event_name TResume = ''resume''"
| "event_name TBlock = ''block''"
| "event_name TPlateau = ''plateau''"
| "event_name TTargetReached = ''target_reached''"
| "event_name TTrustedTargetReached = ''trusted_target_reached''"
| "event_name TConfirm = ''confirm''"
| "event_name TReject = ''reject''"
| "event_name TDeadline = ''deadline''"
| "event_name TBudgetExhausted = ''budget_exhausted''"
| "event_name TStop = ''stop''"
| "event_name TEdit = ''edit''"
| "event_name TExtend = ''extend''"

fun status_name :: "camp_status \<Rightarrow> string" where
  "status_name Active = ''active''"
| "status_name Paused = ''paused''"
| "status_name Blocked = ''blocked''"
| "status_name Plateau = ''plateau''"
| "status_name AwaitingConfirmation = ''awaiting_confirmation''"
| "status_name Achieved = ''achieved''"
| "status_name DeadlineReached = ''deadline_reached''"
| "status_name BudgetExhausted = ''budget_exhausted''"
| "status_name Stopped = ''stopped''"

section \<open>Time\<close>

definition cycle_closed_at :: "instant option \<Rightarrow> instant \<Rightarrow> instant \<Rightarrow> instant" where
  "cycle_closed_at finished opened now =
     (let f = (case finished of None \<Rightarrow> now | Some t \<Rightarrow> t) in max f opened)"

definition next_cycle_at :: "instant \<Rightarrow> instant option \<Rightarrow> instant" where
  "next_cycle_at closed_at wake =
     (let earliest = closed_at + seconds MIN_GAP_SECONDS
      in case wake of None \<Rightarrow> earliest | Some w \<Rightarrow> max earliest w)"

section \<open>Events\<close>

text \<open>History rows are keyed; a key that is taken leaves the history as it is.\<close>

definition record_event ::
  "string \<Rightarrow> string \<Rightarrow> string \<Rightarrow> (string \<times> pyval) list \<Rightarrow> string \<Rightarrow> instant \<Rightarrow> db \<Rightarrow> db" where
  "record_event cid key typ details actor now d =
     (if key \<in> e_key ` set (d_events d) then d
      else d\<lparr>d_events := d_events d @
        [\<lparr>e_campaign = cid, e_key = key, e_type = typ, e_details = details, e_actor = Some actor,
          e_created = now\<rparr>]\<rparr>)"

text \<open>Event keys start with the campaign; \<open>key_of\<close> is the f-string \<open>campaign:id:...\<close>.\<close>

definition key_of :: "string \<Rightarrow> string \<Rightarrow> string" where
  "key_of cid rest = ''campaign:'' @ cid @ '':'' @ rest"

definition opt_str :: "string option \<Rightarrow> pyval" where
  "opt_str s = (case s of None \<Rightarrow> PNone | Some v \<Rightarrow> PStr v)"

definition opt_float :: "pyfloat option \<Rightarrow> pyval" where
  "opt_float f = (case f of None \<Rightarrow> PNone | Some v \<Rightarrow> PFloat v)"

definition opt_int :: "int option \<Rightarrow> pyval" where
  "opt_int n = (case n of None \<Rightarrow> PNone | Some v \<Rightarrow> PInt v)"

text \<open>\<open>isoformat()\<close> in event details: the instant, printed.\<close>

definition iso :: "instant option \<Rightarrow> pyval" where
  "iso t = (case t of None \<Rightarrow> PNone | Some v \<Rightarrow> PStr (int_str v))"

section \<open>State writes\<close>

text \<open>
  \<open>UPDATE campaigns SET ... WHERE id = :id AND state_revision = :seen\<close>: \<open>status\<close> is the new
  status when a transition writes one.
\<close>

definition cas_write :: "col list \<Rightarrow> camp_status option \<Rightarrow> int \<Rightarrow> instant \<Rightarrow> campaign \<Rightarrow> campaign" where
  "cas_write values status seen now c =
     (set_cols values c)\<lparr>c_status := (case status of None \<Rightarrow> c_status c | Some s \<Rightarrow> s),
        c_rev := seen + 1, c_updated := now\<rparr>"

definition seen_rev :: "campaign \<Rightarrow> int option \<Rightarrow> int" where
  "seen_rev obj expected = (case expected of None \<Rightarrow> c_rev obj | Some r \<Rightarrow> r)"

definition cas_update ::
  "campaign \<Rightarrow> int option \<Rightarrow> camp_status option \<Rightarrow> col list \<Rightarrow> instant \<Rightarrow> db \<Rightarrow> db \<times> campaign \<times> bool" where
  "cas_update obj expected status values now d =
     (let seen = seen_rev obj expected; write = cas_write values status seen now
      in case get_campaign (c_id obj) d of
           Some row \<Rightarrow>
             if c_rev row = seen
             then (add_mark (MarkCampaign (c_id obj)) (upd_campaign (c_id obj) write d), write obj, True)
             else (d, obj, False)
         | None \<Rightarrow> (d, obj, False))"

definition RETRO_STATUSES :: "camp_status list" where
  "RETRO_STATUSES = [Achieved, DeadlineReached, BudgetExhausted]"

definition NOTICE_STATUSES :: "camp_status list" where
  "NOTICE_STATUSES =
     [Blocked, Plateau, AwaitingConfirmation, Achieved, DeadlineReached, BudgetExhausted, Stopped]"

text \<open>The best trusted score among valid cycles; the first of equals wins.\<close>

fun best_trusted :: "direction \<Rightarrow> attempt option \<Rightarrow> attempt list \<Rightarrow> attempt option" where
  "best_trusted dir best [] = best"
| "best_trusted dir best (a # as) =
     (if a_valid a = Some False then best_trusted dir best as
      else case best of
        None \<Rightarrow> best_trusted dir (Some a) as
      | Some b \<Rightarrow>
          if flt (Fin 0) (gain (the (a_trusted_score a)) (the (a_trusted_score b)) dir)
          then best_trusted dir (Some a) as
          else best_trusted dir best as)"

definition default_final_attempt_id :: "campaign \<Rightarrow> string option \<Rightarrow> db \<Rightarrow> string option" where
  "default_final_attempt_id c best d =
     (case best_trusted (m_direction (c_metric c)) None
             (filter (\<lambda>a. a_kind a = CycleKind \<and> a_trusted_score a \<noteq> None) (attempts_of (c_id c) d)) of
        Some a \<Rightarrow> Some (a_id a)
      | None \<Rightarrow> (case best of Some b \<Rightarrow> Some b | None \<Rightarrow> c_best c))"

text \<open>The report a transition asks for (report.py), else the room gets a plain status notice.\<close>

definition report_reason :: "camp_status \<Rightarrow> camp_event \<Rightarrow> string option" where
  "report_reason new e =
     (if new = Achieved \<and> e = TConfirm then None
      else case new of
        AwaitingConfirmation \<Rightarrow> Some ''confirmation''
      | Achieved \<Rightarrow> Some ''ended''
      | DeadlineReached \<Rightarrow> Some ''ended''
      | BudgetExhausted \<Rightarrow> Some ''ended''
      | Blocked \<Rightarrow> Some ''needs_person''
      | Plateau \<Rightarrow> Some ''needs_person''
      | _ \<Rightarrow> None)"

definition request_report :: "campaign \<Rightarrow> string \<Rightarrow> camp_status \<Rightarrow> string option \<Rightarrow> db \<Rightarrow> db" where
  "request_report c reason previous detail d =
     d\<lparr>d_reports := d_reports d @
        [\<lparr>rq_campaign = c_id c, rq_reason = reason, rq_previous = previous, rq_detail = detail\<rparr>]\<rparr>"

definition post_status_notice :: "campaign \<Rightarrow> camp_status \<Rightarrow> string option \<Rightarrow> db \<Rightarrow> db" where
  "post_status_notice c previous detail d =
     d\<lparr>d_notices := d_notices d @
        [\<lparr>no_campaign = c_id c, no_status = c_status c, no_previous = previous,
          no_detail = (if detail = Some [] then None else detail),
          no_stop_reason = (if c_status c = Stopped \<and> c_stop_reason c \<noteq> Some [] then c_stop_reason c else None)\<rparr>]\<rparr>"

definition notice_detail :: "col list \<Rightarrow> (string \<times> pyval) list \<Rightarrow> string option" where
  "notice_detail values details =
     (case detail_col values of
        Some (ch # cs) \<Rightarrow> Some (ch # cs)
      | _ \<Rightarrow> (case dget details ''reason'' of PStr s \<Rightarrow> Some s | _ \<Rightarrow> None))"

text \<open>The columns a transition writes: an end of the loop makes a retrospective due and fixes the result.\<close>

definition ending_values :: "campaign \<Rightarrow> camp_status \<Rightarrow> col list \<Rightarrow> db \<Rightarrow> col list" where
  "ending_values obj new values d =
     (if new \<in> set RETRO_STATUSES \<and> new \<noteq> c_status obj then
        values
        @ (if has_retro_col values then [] else [ColRetroDue (Some (RetroEnd new))])
        @ (if has_final_col values then []
           else [ColFinal (default_final_attempt_id obj
                   (case best_col values of None \<Rightarrow> c_best obj | Some b \<Rightarrow> b) d)])
      else values)"

text \<open>The history row of a status change, and the message the room gets for it.\<close>

definition status_changed_row ::
  "campaign \<Rightarrow> camp_event \<Rightarrow> camp_status \<Rightarrow> string option \<Rightarrow> int \<Rightarrow> (string \<times> pyval) list \<Rightarrow> string \<Rightarrow> instant \<Rightarrow> db \<Rightarrow> db" where
  "status_changed_row obj event new key rv details actor now d =
     record_event (c_id obj)
       (case key of Some k \<Rightarrow> k | None \<Rightarrow> key_of (c_id obj) (''rev:'' @ int_str rv))
       ''status_changed''
       ([(''event'', PStr (event_name event)), (''from'', PStr (status_name (c_status obj))),
         (''to'', PStr (status_name new))] @ details) actor now d"

definition announce :: "campaign \<Rightarrow> camp_event \<Rightarrow> camp_status \<Rightarrow> camp_status \<Rightarrow> string option \<Rightarrow> db \<Rightarrow> db" where
  "announce obj event new previous detail d =
     (if new \<noteq> previous \<and> new \<in> set NOTICE_STATUSES then
        (case report_reason new event of
           Some r \<Rightarrow> request_report obj r previous detail d
         | None \<Rightarrow> post_status_notice obj previous detail d)
      else d)"

definition apply_transition ::
  "campaign \<Rightarrow> camp_event \<Rightarrow> string \<Rightarrow> instant \<Rightarrow> (string \<times> pyval) list \<Rightarrow> string option \<Rightarrow> int option
   \<Rightarrow> col list \<Rightarrow> db \<Rightarrow> camp_exc + (db \<times> campaign \<times> bool)" where
  "apply_transition obj event actor now details key expected values d =
     bindE (transition (c_status obj) event) (\<lambda>new.
       let previous = c_status obj;
           vals = ending_values obj new values d
       in case cas_update obj expected (Some new) vals now d of
            (d1, obj1, ok) \<Rightarrow>
              if \<not> ok then Inr (d1, obj1, False)
              else
                let d2 = status_changed_row obj event new key (c_rev obj1) details actor now d1
                in Inr (announce obj1 event new previous (notice_detail vals details) d2, obj1, True))"

section \<open>Creation\<close>

definition find_agent_participant :: "string \<Rightarrow> string \<Rightarrow> db \<Rightarrow> participant_row option" where
  "find_agent_participant rid gid d =
     find (\<lambda>p. p_room p = rid \<and> p_agent p = Some gid) (d_participants d)"

definition check_campaign_room :: "room_row \<Rightarrow> db \<Rightarrow> camp_exc + string" where
  "check_campaign_room room d =
     (if r_archived room \<noteq> None then Inl (PolicyError ''ROOM_ARCHIVED'')
      else case r_lead room of
        None \<Rightarrow> Inl (PolicyError ''ROOM_LEAD_REQUIRED'')
      | Some gid \<Rightarrow>
          if r_project room = None \<or> r_is_dm room then Inl (PolicyError ''ROOM_LEAD_REQUIRED'')
          else if find_agent_participant (r_id room) gid d = None then Inl (PolicyError ''ROOM_LEAD_REQUIRED'')
          else Inr gid)"

definition new_campaign :: "string \<Rightarrow> string option \<Rightarrow> string \<Rightarrow> string \<Rightarrow> campaign_spec \<Rightarrow> instant \<Rightarrow> campaign" where
  "new_campaign cid owner rid gid spec now =
     \<lparr>c_id = cid, c_owner = owner, c_room = rid, c_agent = Some gid, c_title = cs_title spec,
      c_purpose = cs_purpose spec, c_mode = cs_mode spec, c_metric = cs_metric spec,
      c_evaluator = cs_evaluator spec, c_pins = None, c_trusted = cs_trusted spec,
      c_budget = cs_budget spec, c_deadline = cs_deadline spec, c_status = Active,
      c_stop_reason = None, c_status_detail = None, c_cycles_run = 0, c_tokens_used = 0,
      c_best = None, c_final = None, c_next = Some now, c_wake_reason = None, c_since = 0,
      c_eval_failures = 0, c_retro_due = None, c_rev = 0, c_created = now, c_updated = now\<rparr>"

definition create_campaign ::
  "string \<Rightarrow> string option \<Rightarrow> room_row \<Rightarrow> pyval \<Rightarrow> pyval \<Rightarrow> pyval \<Rightarrow> pyval \<Rightarrow> pyval \<Rightarrow> pyval
   \<Rightarrow> deadline_arg option \<Rightarrow> pyval \<Rightarrow> instant \<Rightarrow> db \<Rightarrow> camp_exc + (db \<times> campaign)" where
  "create_campaign cid owner room title purpose md metr evalr bud deadline trusted now d =
     bindE (validate_campaign_spec title purpose md metr evalr bud deadline trusted now) (\<lambda>spec.
     bindE (check_campaign_room room d) (\<lambda>gid.
       let c = new_campaign cid owner (r_id room) gid spec now;
           d1 = row_add d_campaigns_update c d
       in Inr (record_event cid (key_of cid ''created'') ''created''
                 [(''mode'', PStr (mode_str (cs_mode spec))), (''agent_id'', PStr gid)]
                 (case owner of Some u \<Rightarrow> if u = [] then ''system'' else ''user:'' @ u | None \<Rightarrow> ''system'')
                 now d1, c)))"

section \<open>Extension\<close>

definition reopen_values :: "campaign \<Rightarrow> instant \<Rightarrow> col list" where
  "reopen_values c now =
     [ColStopReason None, ColFinal None, ColRetroDue None,
      ColNext (case c_next c of None \<Rightarrow> Some now | Some t \<Rightarrow> if t < now then Some now else Some t)]"

fun new_deadline :: "instant \<Rightarrow> instant option \<Rightarrow> deadline_arg option \<Rightarrow> camp_exc + instant option" where
  "new_deadline now cur None = Inr None"
| "new_deadline now cur (Some (NaiveTime t)) = Inl (PolicyError ''INVALID_DEADLINE'')"
| "new_deadline now cur (Some (AwareTime t)) =
     (if t \<le> now \<or> (case cur of None \<Rightarrow> False | Some c \<Rightarrow> t \<le> c)
      then Inl (PolicyError ''INVALID_DEADLINE'') else Inr (Some t))"

fun new_cap :: "budget \<Rightarrow> pyval \<Rightarrow> camp_exc + budget option" where
  "new_cap b PNone = Inr None"
| "new_cap b v =
     (case b_cap b of
        None \<Rightarrow> Inl (PolicyError ''NO_TOKEN_BUDGET'')
      | Some cap \<Rightarrow>
          (case v of
             PInt n \<Rightarrow> if n \<le> cap then Inl (PolicyError ''INVALID_BUDGET'') else Inr (Some (b\<lparr>b_cap := Some n\<rparr>))
           | _ \<Rightarrow> Inl (PolicyError ''INVALID_BUDGET'')))"

definition change_detail :: "pyval \<Rightarrow> pyval \<Rightarrow> pyval" where
  "change_detail a b = PDict [(''from'', a), (''to'', b)]"

definition extend_campaign ::
  "campaign \<Rightarrow> string \<Rightarrow> deadline_arg option \<Rightarrow> pyval \<Rightarrow> instant \<Rightarrow> db \<Rightarrow> camp_exc + (db \<times> campaign \<times> bool)" where
  "extend_campaign obj actor deadline_at max_tokens now d =
     bindE (transition (c_status obj) TExtend) (\<lambda>_.
     bindE (guardE (case get_room (c_room obj) d of None \<Rightarrow> False | Some r \<Rightarrow> r_archived r = None)
             (PolicyError ''ROOM_ARCHIVED'')) (\<lambda>_.
     bindE (guardE (\<not> (deadline_at = None \<and> max_tokens = PNone)) (PolicyError ''EXTEND_NOTHING'')) (\<lambda>_.
     bindE (new_deadline now (c_deadline obj) deadline_at) (\<lambda>dl.
     bindE (new_cap (c_budget obj) max_tokens) (\<lambda>bo.
     let deadline = (case dl of None \<Rightarrow> c_deadline obj | Some t \<Rightarrow> Some t);
         budget = (case bo of None \<Rightarrow> c_budget obj | Some b \<Rightarrow> b);
         values = (case dl of None \<Rightarrow> [] | Some t \<Rightarrow> [ColDeadline (Some t)])
                  @ (case bo of None \<Rightarrow> [] | Some b \<Rightarrow> [ColBudget b]);
         details = (case dl of None \<Rightarrow> [] | Some t \<Rightarrow>
                      [(''deadline_at'', change_detail (iso (c_deadline obj)) (iso (Some t)))])
                   @ (case bo of None \<Rightarrow> [] | Some b \<Rightarrow>
                      [(''max_total_tokens'', change_detail (opt_int (b_cap (c_budget obj))) (opt_int (b_cap b)))])
     in if c_status obj \<in> {DeadlineReached, BudgetExhausted} then
          bindE (lift_py (usable_tokens (Some budget))) (\<lambda>usable.
          let deadline_clear = (case deadline of None \<Rightarrow> True | Some t \<Rightarrow> now < t);
              budget_clear = (case usable of None \<Rightarrow> True | Some u \<Rightarrow> c_tokens_used obj < u)
          in bindE (guardE (deadline_clear \<and> budget_clear) (PolicyError ''EXTEND_DOES_NOT_REOPEN'')) (\<lambda>_.
             apply_transition obj TExtend actor now details None None
               (values @ reopen_values obj now) d))
        else apply_transition obj TExtend actor now details None None values d)))))"

section \<open>Cycle executions\<close>

definition remaining_cycle_tokens :: "campaign \<Rightarrow> py_exc + int option" where
  "remaining_cycle_tokens c =
     bindE (usable_tokens (Some (c_budget c)))
       (\<lambda>u. Inr (case u of None \<Rightarrow> None | Some n \<Rightarrow> Some (max 0 (n - c_tokens_used c))))"

definition open_attempt_for_task :: "task_row \<Rightarrow> db \<Rightarrow> attempt option" where
  "open_attempt_for_task task d =
     (case k_campaign task of
        None \<Rightarrow> None
      | Some cid \<Rightarrow> find (\<lambda>a. a_task a = Some (k_id task)) (open_attempts cid d))"

abbreviation RETRO_MAX_SECONDS :: int where "RETRO_MAX_SECONDS \<equiv> 7200"

text \<open>Execution limits are normalised before they come here, so a token limit is an integer or absent.\<close>

fun clamp_tokens :: "int \<Rightarrow> pyval \<Rightarrow> py_exc + int" where
  "clamp_tokens remaining PNone = Inr remaining"
| "clamp_tokens remaining (PInt n) = Inr (min n remaining)"
| "clamp_tokens remaining _ = Inl TypeError"

definition cycle_execution_limits ::
  "task_row \<Rightarrow> (string \<times> pyval) list \<Rightarrow> instant option \<Rightarrow> instant \<Rightarrow> db
   \<Rightarrow> camp_exc + (campaign \<times> (string \<times> pyval) list \<times> instant option)" where
  "cycle_execution_limits rt limits deadline_at now d =
     (let campaign = (case k_campaign rt of None \<Rightarrow> None | Some cid \<Rightarrow> get_campaign cid d);
          attempt = open_attempt_for_task rt d;
          retrospective = (case attempt of None \<Rightarrow> False | Some a \<Rightarrow> a_kind a = RetroKind)
      in case campaign of
        None \<Rightarrow> Inl (PolicyError ''CAMPAIGN_NOT_ACTIVE'')
      | Some c \<Rightarrow>
          bindE (guardE (\<not> (c_status c = Stopped \<or> (c_status c \<in> set TERMINAL_STATUSES \<and> \<not> retrospective)))
                  (PolicyError ''CAMPAIGN_NOT_ACTIVE'')) (\<lambda>_.
          bindE (guardE (attempt \<noteq> None) (PolicyError ''CAMPAIGN_CYCLE_CLOSED'')) (\<lambda>_.
          if retrospective then
            bindE (case b_cap (c_budget c) of
                     None \<Rightarrow> Inr limits
                   | Some cap \<Rightarrow>
                       let remaining = max 0 (cap - c_tokens_used c)
                       in if remaining \<le> 0 then Inl (PolicyError ''CAMPAIGN_BUDGET_EXHAUSTED'')
                          else bindE (lift_py (clamp_tokens remaining (dget limits ''max_total_tokens'')))
                                 (\<lambda>n. Inr (dput limits ''max_total_tokens'' (PInt n)))) (\<lambda>clamped.
            let retro_deadline = now + seconds RETRO_MAX_SECONDS;
                deadline = (case deadline_at of
                              Some t \<Rightarrow> if t < retro_deadline then t else retro_deadline
                            | None \<Rightarrow> retro_deadline)
            in Inr (c, dput clamped ''deadline_at'' (iso (Some deadline)), Some deadline))
          else
            bindE (lift_py (remaining_cycle_tokens c)) (\<lambda>remaining.
            bindE (guardE (\<not> (case remaining of None \<Rightarrow> False | Some n \<Rightarrow> n \<le> 0))
                    (PolicyError ''CAMPAIGN_BUDGET_EXHAUSTED'')) (\<lambda>_.
            bindE (case remaining of
                     None \<Rightarrow> Inr limits
                   | Some r \<Rightarrow> bindE (lift_py (clamp_tokens r (dget limits ''max_total_tokens'')))
                                (\<lambda>n. Inr (dput limits ''max_total_tokens'' (PInt n)))) (\<lambda>clamped.
            case c_deadline c of
              None \<Rightarrow> Inr (c, clamped, deadline_at)
            | Some cd \<Rightarrow>
                if cd \<le> now then Inl (PolicyError ''CAMPAIGN_DEADLINE_PASSED'')
                else let deadline = (case deadline_at of None \<Rightarrow> cd | Some t \<Rightarrow> if cd < t then cd else t)
                     in Inr (c, dput clamped ''deadline_at'' (iso (Some deadline)), Some deadline)))))))"

definition attach_cycle_execution :: "task_row \<Rightarrow> string \<Rightarrow> db \<Rightarrow> db" where
  "attach_cycle_execution rt xid d =
     (case open_attempt_for_task rt d of
        None \<Rightarrow> d
      | Some a \<Rightarrow>
          if a_execution a = None
          then add_mark (MarkAttempt (a_id a)) (upd_attempt (a_id a) (\<lambda>a. a\<lparr>a_execution := Some xid\<rparr>) d)
          else d)"

section \<open>The state table\<close>

text \<open>Runs of the table: the status after a sequence of accepted events.\<close>

fun run_events :: "camp_status \<Rightarrow> camp_event list \<Rightarrow> camp_status option" where
  "run_events s [] = Some s"
| "run_events s (e # es) = (case transition s e of Inl _ \<Rightarrow> None | Inr t \<Rightarrow> run_events t es)"

definition final_status :: "camp_status \<Rightarrow> bool" where
  "final_status s \<longleftrightarrow> s = Achieved \<or> s = Stopped"

lemma transition_final: "final_status s \<Longrightarrow> transition s e = Inl (IllegalTransition s e)"
  by (cases s; cases e) (simp_all add: final_status_def)

lemma run_final: "final_status s \<Longrightarrow> run_events s es = Some t \<Longrightarrow> es = [] \<and> t = s"
  by (cases es) (simp_all add: transition_final del: transition.simps)

lemma transition_ended:
  "transition s e = Inr t \<Longrightarrow> s \<in> {DeadlineReached, BudgetExhausted} \<Longrightarrow> e = TExtend \<and> t = Active"
  by (cases s; cases e) simp_all

lemma transition_to_achieved:
  "transition s e = Inr Achieved \<longleftrightarrow>
     (s = AwaitingConfirmation \<and> e = TConfirm) \<or>
     (s \<in> {Active, Paused, Plateau, AwaitingConfirmation} \<and> e = TTrustedTargetReached)"
  by (cases s; cases e) simp_all

lemma transition_to_awaiting:
  "transition s e = Inr AwaitingConfirmation \<longleftrightarrow>
     (s \<in> {Active, Paused} \<and> e = TTargetReached) \<or> (s = AwaitingConfirmation \<and> e \<in> {TEdit, TExtend})"
  by (cases s; cases e) simp_all

lemma run_events_snoc:
  "run_events s (es @ [e]) = (case run_events s es of None \<Rightarrow> None
     | Some t \<Rightarrow> (case transition t e of Inl _ \<Rightarrow> None | Inr u \<Rightarrow> Some u))"
  by (induction es arbitrary: s) (simp_all split: sum.split del: transition.simps)

lemma run_events_append:
  "run_events s es = Some t \<Longrightarrow> run_events t fs = Some u \<Longrightarrow> run_events s (es @ fs) = Some u"
  by (induction es arbitrary: s) (auto split: sum.splits simp del: transition.simps)

lemma run_to_awaiting:
  assumes "run_events s es = Some AwaitingConfirmation" and "s \<noteq> AwaitingConfirmation"
  shows "\<exists>xs ys. es = xs @ TTargetReached # ys \<and> set ys \<subseteq> {TEdit, TExtend}"
  using assms(1)
proof (induction es rule: rev_induct)
  case Nil
  with assms(2) show ?case by simp
next
  case (snoc e es)
  then obtain t where t: "run_events s es = Some t" "transition t e = Inr AwaitingConfirmation"
    by (auto simp: run_events_snoc simp del: transition.simps split: option.splits sum.splits)
  from t(2) consider "e = TTargetReached" | "t = AwaitingConfirmation" "e \<in> {TEdit, TExtend}"
    unfolding transition_to_awaiting by blast
  then show ?case
  proof cases
    case 1
    then show ?thesis by fastforce
  next
    case 2
    with t(1) snoc.IH obtain xs ys where "es = xs @ TTargetReached # ys" "set ys \<subseteq> {TEdit, TExtend}"
      by auto
    with 2(2) have "es @ [e] = xs @ TTargetReached # (ys @ [e])" "set (ys @ [e]) \<subseteq> {TEdit, TExtend}"
      by auto
    then show ?thesis by blast
  qed
qed

text \<open>
  Only a verified score or a person's confirmation achieves a campaign (CMP-06, CMP-07): on
  any sequence of accepted events that leads from \<open>active\<close> to \<open>achieved\<close>, the last event is either
  the trusted target, or a confirmation of a target the loop reached before, with nothing but
  edits and extensions in between.
\<close>

theorem achieved_needs_confirmation:
  assumes "run_events Active es = Some Achieved"
  shows "(\<exists>xs. es = xs @ [TTrustedTargetReached])
    \<or> (\<exists>xs ys. es = xs @ TTargetReached # ys @ [TConfirm] \<and> set ys \<subseteq> {TEdit, TExtend})"
proof (cases es rule: rev_cases)
  case Nil
  with assms show ?thesis by simp
next
  case (snoc fs e)
  then obtain t where t: "run_events Active fs = Some t" "transition t e = Inr Achieved"
    using assms by (auto simp: run_events_snoc simp del: transition.simps split: option.splits sum.splits)
  from t(2) consider "t = AwaitingConfirmation" "e = TConfirm" | "e = TTrustedTargetReached"
    unfolding transition_to_achieved by blast
  then show ?thesis
  proof cases
    case 1
    with t(1) run_to_awaiting [of Active fs] obtain xs ys
      where "fs = xs @ TTargetReached # ys" "set ys \<subseteq> {TEdit, TExtend}" by auto
    with 1 snoc show ?thesis by auto
  qed (use snoc in blast)
qed

lemma achieved_needs_confirmation_witness:
  "(\<exists>xs. [TPause, TTargetReached, TExtend, TConfirm] = xs @ [TTrustedTargetReached])
    \<or> (\<exists>xs ys. [TPause, TTargetReached, TExtend, TConfirm] = xs @ TTargetReached # ys @ [TConfirm]
          \<and> set ys \<subseteq> {TEdit, TExtend})"
  by (rule achieved_needs_confirmation) simp

text \<open>
  The ends of a loop: no event leaves \<open>achieved\<close> or \<open>stopped\<close>, only an extension leaves
  \<open>deadline_reached\<close> or \<open>budget_exhausted\<close> and then to \<open>active\<close>, and from every open status the
  deadline, the budget and a stop end the loop.
\<close>

theorem terminal_statuses_closed:
  "(\<forall>s es t. final_status s \<and> run_events s es = Some t \<longrightarrow> es = [] \<and> t = s)
   \<and> (\<forall>s e t. s \<in> {DeadlineReached, BudgetExhausted} \<and> transition s e = Inr t \<longrightarrow> e = TExtend \<and> t = Active)
   \<and> (\<forall>s \<in> set OPEN_STATUSES. transition s TDeadline = Inr DeadlineReached
        \<and> transition s TBudgetExhausted = Inr BudgetExhausted \<and> transition s TStop = Inr Stopped)"
proof (intro conjI allI impI ballI)
  fix s es t assume "final_status s \<and> run_events s es = Some t"
  then show "es = []" "t = s" using run_final by blast+
next
  fix s e t assume "s \<in> {DeadlineReached, BudgetExhausted} \<and> transition s e = Inr t"
  then show "e = TExtend" "t = Active" using transition_ended by blast+
next
  fix s assume "s \<in> set OPEN_STATUSES"
  then show "transition s TDeadline = Inr DeadlineReached" "transition s TBudgetExhausted = Inr BudgetExhausted"
    "transition s TStop = Inr Stopped"
    by auto
qed

lemma terminal_statuses_closed_witness:
  "run_events Stopped [TExtend] \<noteq> Some Active \<and> transition Paused TStop = Inr Stopped"
  using terminal_statuses_closed by (auto simp: final_status_def)

declare transition.simps [simp del]

section \<open>Writes of the loop state\<close>

lemma cas_write_frame [simp]:
  "c_id (cas_write vs st seen now c) = c_id c" "c_rev (cas_write vs st seen now c) = seen + 1"
  "c_status (cas_write vs st seen now c) = (case st of None \<Rightarrow> c_status c | Some s \<Rightarrow> s)"
  "c_agent (cas_write vs st seen now c) = c_agent c" "c_mode (cas_write vs st seen now c) = c_mode c"
  by (simp_all add: cas_write_def)

lemma cas_update_cases:
  assumes "cas_update obj ex st vs now d = (d', obj', ok)"
  obtains (lost) "\<not> ok" "d' = d" "obj' = obj"
      "\<And>row. get_campaign (c_id obj) d = Some row \<Longrightarrow> c_rev row \<noteq> seen_rev obj ex"
    | (won) row where "ok" "get_campaign (c_id obj) d = Some row" "c_rev row = seen_rev obj ex"
      "d' = add_mark (MarkCampaign (c_id obj)) (upd_campaign (c_id obj) (cas_write vs st (seen_rev obj ex) now) d)"
      "obj' = cas_write vs st (seen_rev obj ex) now obj"
proof (cases "\<exists>row. get_campaign (c_id obj) d = Some row \<and> c_rev row = seen_rev obj ex")
  case True
  with assms show ?thesis by (auto simp: cas_update_def Let_def intro: won)
next
  case False
  then have "cas_update obj ex st vs now d = (d, obj, False)"
    by (simp add: cas_update_def Let_def split: option.split)
  with assms False show ?thesis by (auto intro: lost)
qed

lemma get_campaign_cas [simp]:
  "get_campaign k (add_mark m (upd_campaign cid (cas_write vs st seen now) d)) =
     (if k = cid then map_option (cas_write vs st seen now) (get_campaign cid d) else get_campaign k d)"
  by (simp add: row_get_def tget_tupd)

text \<open>
  C23. The compare-and-set write is safe against concurrent writers: the winner's row is the old
  row with its columns, the revision one higher, no other campaign and no other table of the
  loop changes, and every later write planned on the revision the winner saw is refused and
  writes nothing.
\<close>

theorem cas_no_lost_update:
  assumes "cas_update o1 e1 s1 v1 n1 d = (d1, o1', True)"
  shows "\<exists>row. get_campaign (c_id o1) d = Some row
      \<and> get_campaign (c_id o1) d1 = Some (cas_write v1 s1 (c_rev row) n1 row)
      \<and> c_rev (cas_write v1 s1 (c_rev row) n1 row) = c_rev row + 1
      \<and> (\<forall>k. k \<noteq> c_id o1 \<longrightarrow> get_campaign k d1 = get_campaign k d)
      \<and> d_attempts d1 = d_attempts d \<and> d_events d1 = d_events d \<and> d_tasks d1 = d_tasks d
      \<and> (\<forall>o2 e2 s2 v2 n2. c_id o2 = c_id o1 \<and> seen_rev o2 e2 = c_rev row \<longrightarrow>
            cas_update o2 e2 s2 v2 n2 d1 = (d1, o2, False))"
  using assms
proof (cases rule: cas_update_cases)
  case lost
  then show ?thesis by simp
next
  case (won row)
  then show ?thesis by (auto simp: cas_update_def Let_def)
qed

definition sample_campaign :: campaign where
  "sample_campaign = new_campaign ''c1'' (Some ''u1'') ''r1'' ''g1'' sample_spec 0"

definition empty_db :: db where
  "empty_db = \<lparr>d_campaigns = [], d_attempts = [], d_events = [], d_tasks = [], d_rooms = [],
     d_participants = [], d_agents = [], d_executions = [], d_exec_events = [], d_mutations = [],
     d_stops = [], d_turns = [], d_turn_attempts = [], d_outbox = [], d_usage = [], d_marks = [],
     d_notices = [], d_reports = [], d_dispatches = [], d_assigned = [], d_closed_turns = [],
     d_deadline_tasks = [],
     d_uuid = (\<lambda>n. ''uuid-'' @ nat_str n), d_drawn = 0, d_raised = None\<rparr>"

definition sample_db :: db where
  "sample_db = empty_db\<lparr>d_campaigns := [sample_campaign],
     d_rooms := [\<lparr>r_id = ''r1'', r_project = Some ''p1'', r_archived = None, r_is_dm = False, r_lead = Some ''g1''\<rparr>],
     d_participants := [\<lparr>p_id = ''m1'', p_room = ''r1'', p_agent = Some ''g1'', p_role = ''member''\<rparr>]\<rparr>"

lemma sample_campaign_fields [simp]:
  "c_id sample_campaign = ''c1''" "c_rev sample_campaign = 0" "c_status sample_campaign = Active"
  "c_room sample_campaign = ''r1''" "c_agent sample_campaign = Some ''g1''" "c_retro_due sample_campaign = None"
  "c_deadline sample_campaign = Some 7" "c_next sample_campaign = Some 0" "c_tokens_used sample_campaign = 0"
  "c_budget sample_campaign = \<lparr>b_cap = Some 1000, b_ratio = Fin 0\<rparr>" "c_best sample_campaign = None"
  "c_cycles_run sample_campaign = 0"
  by (simp_all add: sample_campaign_def new_campaign_def sample_spec_def)

lemma get_sample [simp]: "get_campaign ''c1'' sample_db = Some sample_campaign"
  by (simp add: sample_db_def row_get_def)

lemma cas_no_lost_update_witness:
  "\<exists>d1. cas_update sample_campaign None (Some Paused) [ColTokens 3] 5 sample_db = (d1, cas_write [ColTokens 3] (Some Paused) 0 5 sample_campaign, True)
     \<and> cas_update sample_campaign None (Some Stopped) [] 6 d1 = (d1, sample_campaign, False)"
proof -
  have w: "cas_update sample_campaign None (Some Paused) [ColTokens 3] 5 sample_db =
      (add_mark (MarkCampaign ''c1'') (upd_campaign ''c1'' (cas_write [ColTokens 3] (Some Paused) 0 5) sample_db),
       cas_write [ColTokens 3] (Some Paused) 0 5 sample_campaign, True)"
    by (simp add: cas_update_def seen_rev_def Let_def)
  from cas_no_lost_update [OF w] show ?thesis using w by (auto simp: seen_rev_def)
qed

text \<open>
  The history is append-only and keyed: recording leaves every earlier row in place, adds at
  most one row, keeps the keys distinct, and recording the same key again (a replayed hook)
  changes nothing.
\<close>

theorem record_event_append_only:
  assumes "distinct (map e_key (d_events d))"
  shows "let d1 = record_event cid key typ det actor now d in
      (\<exists>new. d_events d1 = d_events d @ new \<and> length new \<le> 1)
      \<and> key \<in> e_key ` set (d_events d1)
      \<and> distinct (map e_key (d_events d1))
      \<and> d1 = d\<lparr>d_events := d_events d1\<rparr>
      \<and> (\<forall>cid' typ' det' actor' now'. record_event cid' key typ' det' actor' now' d1 = d1)"
  using assms by (auto simp: record_event_def Let_def)

lemma record_event_append_only_witness:
  "let d1 = record_event ''c1'' ''k'' ''t'' [] ''a'' 0 sample_db in
      (\<exists>new. d_events d1 = d_events sample_db @ new \<and> length new \<le> 1)
      \<and> ''k'' \<in> e_key ` set (d_events d1)
      \<and> distinct (map e_key (d_events d1))
      \<and> d1 = sample_db\<lparr>d_events := d_events d1\<rparr>
      \<and> (\<forall>cid' typ' det' actor' now'. record_event cid' ''k'' typ' det' actor' now' d1 = d1)"
  by (rule record_event_append_only) (simp add: sample_db_def empty_db_def)

text \<open>What the history and the outbox operations leave alone.\<close>

lemma record_event_frame [simp]:
  "d_campaigns (record_event cid key typ det actor now d) = d_campaigns d"
  "d_attempts (record_event cid key typ det actor now d) = d_attempts d"
  "d_tasks (record_event cid key typ det actor now d) = d_tasks d"
  "d_rooms (record_event cid key typ det actor now d) = d_rooms d"
  "d_participants (record_event cid key typ det actor now d) = d_participants d"
  "d_agents (record_event cid key typ det actor now d) = d_agents d"
  "d_executions (record_event cid key typ det actor now d) = d_executions d"
  "d_exec_events (record_event cid key typ det actor now d) = d_exec_events d"
  "d_mutations (record_event cid key typ det actor now d) = d_mutations d"
  "d_stops (record_event cid key typ det actor now d) = d_stops d"
  "d_turns (record_event cid key typ det actor now d) = d_turns d"
  "d_turn_attempts (record_event cid key typ det actor now d) = d_turn_attempts d"
  "d_outbox (record_event cid key typ det actor now d) = d_outbox d"
  "d_usage (record_event cid key typ det actor now d) = d_usage d"
  "d_marks (record_event cid key typ det actor now d) = d_marks d"
  "d_notices (record_event cid key typ det actor now d) = d_notices d"
  "d_reports (record_event cid key typ det actor now d) = d_reports d"
  "d_dispatches (record_event cid key typ det actor now d) = d_dispatches d"
  "d_assigned (record_event cid key typ det actor now d) = d_assigned d"
  "d_closed_turns (record_event cid key typ det actor now d) = d_closed_turns d"
  "d_deadline_tasks (record_event cid key typ det actor now d) = d_deadline_tasks d"
  "d_uuid (record_event cid key typ det actor now d) = d_uuid d"
  "d_drawn (record_event cid key typ det actor now d) = d_drawn d"
  "d_raised (record_event cid key typ det actor now d) = d_raised d"
  by (simp_all add: record_event_def)

lemma request_report_frame [simp]:
  "d_campaigns (request_report c r p det d) = d_campaigns d"
  "d_attempts (request_report c r p det d) = d_attempts d"
  "d_events (request_report c r p det d) = d_events d"
  "d_tasks (request_report c r p det d) = d_tasks d"
  "d_rooms (request_report c r p det d) = d_rooms d"
  "d_participants (request_report c r p det d) = d_participants d"
  "d_agents (request_report c r p det d) = d_agents d"
  "d_executions (request_report c r p det d) = d_executions d"
  "d_exec_events (request_report c r p det d) = d_exec_events d"
  "d_mutations (request_report c r p det d) = d_mutations d"
  "d_stops (request_report c r p det d) = d_stops d"
  "d_turns (request_report c r p det d) = d_turns d"
  "d_turn_attempts (request_report c r p det d) = d_turn_attempts d"
  "d_outbox (request_report c r p det d) = d_outbox d"
  "d_usage (request_report c r p det d) = d_usage d"
  "d_marks (request_report c r p det d) = d_marks d"
  "d_notices (request_report c r p det d) = d_notices d"
  "d_dispatches (request_report c r p det d) = d_dispatches d"
  "d_assigned (request_report c r p det d) = d_assigned d"
  "d_closed_turns (request_report c r p det d) = d_closed_turns d"
  "d_deadline_tasks (request_report c r p det d) = d_deadline_tasks d"
  "d_uuid (request_report c r p det d) = d_uuid d"
  "d_drawn (request_report c r p det d) = d_drawn d"
  "d_raised (request_report c r p det d) = d_raised d"
  by (simp_all add: request_report_def)

lemma post_status_notice_frame [simp]:
  "d_campaigns (post_status_notice c p det d) = d_campaigns d"
  "d_attempts (post_status_notice c p det d) = d_attempts d"
  "d_events (post_status_notice c p det d) = d_events d"
  "d_tasks (post_status_notice c p det d) = d_tasks d"
  "d_rooms (post_status_notice c p det d) = d_rooms d"
  "d_participants (post_status_notice c p det d) = d_participants d"
  "d_agents (post_status_notice c p det d) = d_agents d"
  "d_executions (post_status_notice c p det d) = d_executions d"
  "d_exec_events (post_status_notice c p det d) = d_exec_events d"
  "d_mutations (post_status_notice c p det d) = d_mutations d"
  "d_stops (post_status_notice c p det d) = d_stops d"
  "d_turns (post_status_notice c p det d) = d_turns d"
  "d_turn_attempts (post_status_notice c p det d) = d_turn_attempts d"
  "d_outbox (post_status_notice c p det d) = d_outbox d"
  "d_usage (post_status_notice c p det d) = d_usage d"
  "d_marks (post_status_notice c p det d) = d_marks d"
  "d_reports (post_status_notice c p det d) = d_reports d"
  "d_dispatches (post_status_notice c p det d) = d_dispatches d"
  "d_assigned (post_status_notice c p det d) = d_assigned d"
  "d_closed_turns (post_status_notice c p det d) = d_closed_turns d"
  "d_deadline_tasks (post_status_notice c p det d) = d_deadline_tasks d"
  "d_uuid (post_status_notice c p det d) = d_uuid d"
  "d_drawn (post_status_notice c p det d) = d_drawn d"
  "d_raised (post_status_notice c p det d) = d_raised d"
  by (simp_all add: post_status_notice_def)

lemma record_event_key: "key \<in> e_key ` set (d_events (record_event cid key typ det actor now d))"
  by (simp add: record_event_def)

lemma record_event_mono: "set (d_events d) \<subseteq> set (d_events (record_event cid key typ det actor now d))"
  by (auto simp: record_event_def)

text \<open>Everything a transition does not touch.\<close>

definition same_world :: "db \<Rightarrow> db \<Rightarrow> bool" where
  "same_world d d' \<longleftrightarrow>
     d_attempts d' = d_attempts d \<and> d_tasks d' = d_tasks d \<and> d_rooms d' = d_rooms d \<and>
     d_participants d' = d_participants d \<and> d_agents d' = d_agents d \<and>
     d_executions d' = d_executions d \<and> d_exec_events d' = d_exec_events d \<and>
     d_mutations d' = d_mutations d \<and> d_stops d' = d_stops d \<and> d_turns d' = d_turns d \<and>
     d_turn_attempts d' = d_turn_attempts d \<and> d_outbox d' = d_outbox d \<and> d_usage d' = d_usage d
     \<and> d_uuid d' = d_uuid d \<and> d_drawn d' = d_drawn d"

lemma same_world_refl [simp]: "same_world d d"
  by (simp add: same_world_def)

lemma same_world_trans: "same_world a b \<Longrightarrow> same_world b c \<Longrightarrow> same_world a c"
  by (simp add: same_world_def)

lemma same_world_steps [simp]:
  "same_world d (record_event cid key typ det actor now d)"
  "same_world d (request_report c r p de d)"
  "same_world d (post_status_notice c p de d)"
  "same_world d (add_mark m d)"
  "same_world d (upd_campaign k f d)"
  by (simp_all add: same_world_def)

lemma cas_update_world: "cas_update obj ex st vs now d = (d', obj', ok) \<Longrightarrow> same_world d d'"
  by (erule cas_update_cases) (simp_all add: same_world_def)

lemma status_changed_row_world: "same_world d (status_changed_row obj e new key rv det actor now d)"
  by (simp add: status_changed_row_def)

lemma status_changed_row_mono: "set (d_events d) \<subseteq> set (d_events (status_changed_row obj e new key rv det actor now d))"
  by (simp add: status_changed_row_def record_event_mono)

lemma status_changed_row_key:
  "(case key of Some k \<Rightarrow> k | None \<Rightarrow> key_of (c_id obj) (''rev:'' @ int_str rv))
     \<in> e_key ` set (d_events (status_changed_row obj e new key rv det actor now d))"
  unfolding status_changed_row_def by (rule record_event_key)

lemma status_changed_row_campaigns [simp]:
  "d_campaigns (status_changed_row obj e new key rv det actor now d) = d_campaigns d"
  by (simp add: status_changed_row_def)

lemma announce_frame [simp]:
  "d_campaigns (announce obj e new prev det d) = d_campaigns d"
  "d_events (announce obj e new prev det d) = d_events d"
  by (simp_all add: announce_def split: option.split)

lemma announce_world: "same_world d (announce obj e new prev det d)"
  by (simp add: announce_def split: option.split)

lemma apply_transition_cases:
  assumes "apply_transition obj e actor now det key ex vs d = Inr (d', obj', ok)"
  obtains (lost) "\<not> ok" "d' = d" "obj' = obj"
    | (won) row new where "ok" "transition (c_status obj) e = Inr new"
      "get_campaign (c_id obj) d = Some row" "c_rev row = seen_rev obj ex"
      "obj' = cas_write (ending_values obj new vs d) (Some new) (seen_rev obj ex) now obj"
      "\<And>k. get_campaign k d' = (if k = c_id obj
          then Some (cas_write (ending_values obj new vs d) (Some new) (seen_rev obj ex) now row)
          else get_campaign k d)"
      "map c_id (d_campaigns d') = map c_id (d_campaigns d)"
      "same_world d d'" "set (d_events d) \<subseteq> set (d_events d')"
      "(case key of Some k \<Rightarrow> k | None \<Rightarrow> key_of (c_id obj) (''rev:'' @ int_str (seen_rev obj ex + 1)))
         \<in> e_key ` set (d_events d')"
proof -
  from assms obtain new where t: "transition (c_status obj) e = Inr new"
    by (auto simp: apply_transition_def)
  let ?vals = "ending_values obj new vs d"
  obtain d1 o1 ok1 where c: "cas_update obj ex (Some new) ?vals now d = (d1, o1, ok1)"
    by (metis prod_cases3)
  from c show thesis
  proof (cases rule: cas_update_cases)
    case lost
    with assms t c show ?thesis by (auto simp: apply_transition_def Let_def intro: that(1))
  next
    case (won row)
    let ?d2 = "status_changed_row obj e new key (c_rev o1) det actor now d1"
    from assms t c won(1) have res: "ok" "obj' = o1"
      and d': "d' = announce o1 e new (c_status obj) (notice_detail ?vals det) ?d2"
      by (auto simp: apply_transition_def Let_def)
    have camps: "d_campaigns d' = d_campaigns d1" by (simp add: d')
    show ?thesis
    proof (rule that(2) [OF res(1) t won(2,3)])
      show "obj' = cas_write ?vals (Some new) (seen_rev obj ex) now obj" using res won by simp
      have "get_campaign k d' = get_campaign k d1" for k using camps by (simp add: row_get_def)
      then show "get_campaign k d' = (if k = c_id obj
          then Some (cas_write ?vals (Some new) (seen_rev obj ex) now row) else get_campaign k d)" for k
        using won(2,4) by simp
      show "map c_id (d_campaigns d') = map c_id (d_campaigns d)"
        using camps won(4) by (simp add: map_key_tupd)
      show "same_world d d'"
        unfolding d' by (intro same_world_trans [OF cas_update_world [OF c]] same_world_trans
            [OF status_changed_row_world announce_world])
      show "set (d_events d) \<subseteq> set (d_events d')"
        using won(4) status_changed_row_mono [of d1] by (auto simp: d')
      show "(case key of Some k \<Rightarrow> k | None \<Rightarrow> key_of (c_id obj) (''rev:'' @ int_str (seen_rev obj ex + 1)))
          \<in> e_key ` set (d_events d')"
        using won(5) status_changed_row_key by (simp add: d')
    qed
  qed
qed

lemma retro_due_set_cols: "\<not> has_retro_col vs \<Longrightarrow> c_retro_due (set_cols vs c) = c_retro_due c"
proof (induction vs arbitrary: c)
  case (Cons v vs)
  then show ?case by (cases v) (auto simp: has_retro_col_def)
qed simp

lemma final_set_cols: "\<not> has_final_col vs \<Longrightarrow> c_final (set_cols vs c) = c_final c"
proof (induction vs arbitrary: c)
  case (Cons v vs)
  then show ?case by (cases v) (auto simp: has_final_col_def)
qed simp

lemma ending_values_retro:
  assumes "new \<in> set RETRO_STATUSES" and "new \<noteq> c_status obj" and "\<not> has_retro_col vs"
  shows "c_retro_due (set_cols (ending_values obj new vs d) c) = Some (RetroEnd new)"
proof -
  have "\<not> has_retro_col [ColFinal x]" for x by (simp add: has_retro_col_def)
  then show ?thesis
    using assms by (simp add: ending_values_def set_cols_append retro_due_set_cols)
qed

lemma ending_values_final:
  assumes "new \<in> set RETRO_STATUSES" and "new \<noteq> c_status obj" and "\<not> has_final_col vs"
  shows "c_final (set_cols (ending_values obj new vs d) c) =
    default_final_attempt_id obj (case best_col vs of None \<Rightarrow> c_best obj | Some b \<Rightarrow> b) d"
  using assms by (simp add: ending_values_def set_cols_append)

text \<open>
  A transition follows the table and is recorded. When it is accepted and its write wins, the
  row has the table's status, one revision more, every other campaign and all other tables are
  as before, the history holds a row under the revision's key; when the loop ends on its own
  terms, a retrospective is due for that status and the final result is chosen, unless the caller
  gives them. When another writer was first, nothing is written at all.
\<close>

theorem apply_transition_effect:
  assumes "apply_transition obj e actor now det None ex vs d = Inr (d', obj', ok)"
  shows "(\<not> ok \<longrightarrow> d' = d \<and> obj' = obj) \<and>
    (ok \<longrightarrow> (\<exists>row row' new. transition (c_status obj) e = Inr new
       \<and> get_campaign (c_id obj) d = Some row \<and> get_campaign (c_id obj) d' = Some row'
       \<and> c_rev row = seen_rev obj ex \<and> c_status row' = new \<and> c_rev row' = c_rev row + 1 \<and> c_updated row' = now
       \<and> (\<forall>k. k \<noteq> c_id obj \<longrightarrow> get_campaign k d' = get_campaign k d) \<and> same_world d d'
       \<and> set (d_events d) \<subseteq> set (d_events d')
       \<and> key_of (c_id obj) (''rev:'' @ int_str (c_rev row')) \<in> e_key ` set (d_events d')
       \<and> (new \<in> set RETRO_STATUSES \<and> new \<noteq> c_status obj \<longrightarrow>
            (\<not> has_retro_col vs \<longrightarrow> c_retro_due row' = Some (RetroEnd new))
            \<and> (\<not> has_final_col vs \<longrightarrow> c_final row' = default_final_attempt_id obj
                 (case best_col vs of None \<Rightarrow> c_best obj | Some b \<Rightarrow> b) d))))"
  using assms
proof (cases rule: apply_transition_cases)
  case lost
  then show ?thesis by simp
next
  case (won row new)
  define row' where "row' = cas_write (ending_values obj new vs d) (Some new) (seen_rev obj ex) now row"
  have "c_retro_due row' = c_retro_due (set_cols (ending_values obj new vs d) row)"
    "c_final row' = c_final (set_cols (ending_values obj new vs d) row)"
    "c_status row' = new" "c_rev row' = c_rev row + 1" "c_updated row' = now"
    using won(4) by (simp_all add: row'_def cas_write_def)
  moreover have "get_campaign (c_id obj) d' = Some row'" using won(6) by (simp add: row'_def)
  ultimately show ?thesis
    using won ending_values_retro [of new obj vs d row] ending_values_final [of new obj vs d row]
    by auto
qed

lemma apply_transition_effect_witness:
  "\<exists>d' o'. apply_transition sample_campaign TDeadline ''system'' 9 [] None None [] sample_db = Inr (d', o', True)
     \<and> (\<exists>row'. get_campaign ''c1'' d' = Some row' \<and> c_retro_due row' = Some (RetroEnd DeadlineReached))"
proof -
  obtain d' o' where a: "apply_transition sample_campaign TDeadline ''system'' 9 [] None None [] sample_db = Inr (d', o', True)"
    by (simp add: apply_transition_def transition.simps cas_update_def seen_rev_def Let_def)
  have "transition (c_status sample_campaign) TDeadline = Inr DeadlineReached"
    by (simp add: transition.simps)
  with apply_transition_effect [OF a] a show ?thesis
    by (auto simp: RETRO_STATUSES_def has_retro_col_def)
qed

lemma ending_values_open: "new \<notin> set RETRO_STATUSES \<Longrightarrow> ending_values obj new vs d = vs"
  by (simp add: ending_values_def)

lemma transition_extend:
  "transition s TExtend = Inr t \<Longrightarrow>
     t = (if s \<in> {DeadlineReached, BudgetExhausted} then Active else s) \<and> \<not> final_status s
     \<and> t \<notin> set RETRO_STATUSES"
  by (cases s) (auto simp: transition.simps final_status_def RETRO_STATUSES_def)

lemma new_deadline_Inr:
  "new_deadline now cur a = Inr dl \<Longrightarrow>
     (a = None \<longrightarrow> dl = None) \<and> (\<forall>t. dl = Some t \<longrightarrow> now < t \<and> (\<forall>c. cur = Some c \<longrightarrow> c < t) \<and> a = Some (AwareTime t))
     \<and> (a \<noteq> None \<longrightarrow> dl \<noteq> None)"
  by (cases "(now, cur, a)" rule: new_deadline.cases) (auto split: if_splits)

lemma new_cap_Inr:
  "new_cap b v = Inr bo \<Longrightarrow>
     (v = PNone \<longrightarrow> bo = None) \<and>
     (v \<noteq> PNone \<longrightarrow> (\<exists>n old. v = PInt n \<and> b_cap b = Some old \<and> old < n \<and> bo = Some (b\<lparr>b_cap := Some n\<rparr>)))"
  by (cases v) (auto split: option.splits if_splits)

text \<open>The columns and the reopening check of an extension, in one place.\<close>

definition extended :: "campaign \<Rightarrow> instant option \<Rightarrow> budget option \<Rightarrow> campaign" where
  "extended c dl bo = set_cols ((case dl of None \<Rightarrow> [] | Some t \<Rightarrow> [ColDeadline (Some t)])
      @ (case bo of None \<Rightarrow> [] | Some b \<Rightarrow> [ColBudget b])) c"

lemma extended_fields [simp]:
  "c_deadline (extended c dl bo) = (case dl of None \<Rightarrow> c_deadline c | Some t \<Rightarrow> Some t)"
  "c_budget (extended c dl bo) = (case bo of None \<Rightarrow> c_budget c | Some b \<Rightarrow> b)"
  "c_next (extended c dl bo) = c_next c"
  by (simp_all add: extended_def split: option.split)

lemma extend_campaign_cases:
  assumes "extend_campaign obj actor a m now d = Inr (d', obj', True)"
  obtains dl bo vs det where
      "new_deadline now (c_deadline obj) a = Inr dl" "new_cap (c_budget obj) m = Inr bo"
      "\<exists>r. get_room (c_room obj) d = Some r \<and> r_archived r = None"
      "apply_transition obj TExtend actor now det None None vs d = Inr (d', obj', True)"
      "c_status obj \<notin> {DeadlineReached, BudgetExhausted} \<Longrightarrow> set_cols vs obj = extended obj dl bo"
      "c_status obj \<in> {DeadlineReached, BudgetExhausted} \<Longrightarrow>
         set_cols vs obj = set_cols (reopen_values obj now) (extended obj dl bo)"
      "c_status obj \<in> {DeadlineReached, BudgetExhausted} \<Longrightarrow>
         (case c_deadline (extended obj dl bo) of None \<Rightarrow> True | Some t \<Rightarrow> now < t) \<and>
         (\<exists>u. usable_tokens (Some (c_budget (extended obj dl bo))) = Inr u
            \<and> (case u of None \<Rightarrow> True | Some n \<Rightarrow> c_tokens_used obj < n))"
proof -
  from assms obtain dl bo where
    "new_deadline now (c_deadline obj) a = Inr dl" "new_cap (c_budget obj) m = Inr bo"
    and room: "case get_room (c_room obj) d of None \<Rightarrow> False | Some r \<Rightarrow> r_archived r = None"
    unfolding extend_campaign_def bindE_Inr_iff guardE_Inr_iff by blast
  note h = this assms [unfolded extend_campaign_def]
  have room': "\<exists>r. get_room (c_room obj) d = Some r \<and> r_archived r = None"
    using room by (auto split: option.splits)
  show thesis
  proof (cases "c_status obj \<in> {DeadlineReached, BudgetExhausted}")
    case True
    with h show ?thesis
      by (auto simp: Let_def bindE_Inr_iff intro!: that [OF h(1,2) room'] simp: extended_def set_cols_append
          split: option.splits)
  next
    case False
    with h show ?thesis
      by (auto simp: Let_def bindE_Inr_iff extended_def intro!: that [OF h(1,2) room'])
  qed
qed

lemma reopen_fields:
  "c_stop_reason (set_cols (reopen_values obj now) c) = None"
  "c_final (set_cols (reopen_values obj now) c) = None"
  "c_retro_due (set_cols (reopen_values obj now) c) = None"
  "c_deadline (set_cols (reopen_values obj now) c) = c_deadline c"
  "c_budget (set_cols (reopen_values obj now) c) = c_budget c"
  "\<exists>t. c_next (set_cols (reopen_values obj now) c) = Some t \<and> now \<le> t"
  by (auto simp: reopen_values_def split: option.split)

text \<open>
  An extension only ever raises what it changes: the new deadline is later than now and than
  the old one, the new cap is larger than the old one, in a room that is not archived. A loop
  that its deadline or its budget ended goes back to \<open>active\<close>, and only when neither the deadline
  nor the usable budget would end it again at once; its final result, its due retrospective and
  its stop reason are cleared. An open campaign keeps its status; \<open>achieved\<close> and \<open>stopped\<close> refuse.
\<close>

theorem extend_campaign_effect:
  assumes "get_campaign (c_id obj) d = Some obj"
    and "extend_campaign obj actor a m now d = Inr (d', obj', True)"
  shows "\<not> final_status (c_status obj)
    \<and> (\<exists>r. get_room (c_room obj) d = Some r \<and> r_archived r = None)
    \<and> get_campaign (c_id obj) d' = Some obj'
    \<and> (\<forall>t. c_deadline obj' = Some t \<and> c_deadline obj \<noteq> Some t \<longrightarrow>
          now < t \<and> (\<forall>old. c_deadline obj = Some old \<longrightarrow> old < t))
    \<and> (c_deadline obj' = None \<longrightarrow> c_deadline obj = None)
    \<and> (c_budget obj' = c_budget obj \<or>
         (\<exists>old n. b_cap (c_budget obj) = Some old \<and> old < n \<and> c_budget obj' = (c_budget obj)\<lparr>b_cap := Some n\<rparr>))
    \<and> (if c_status obj \<in> {DeadlineReached, BudgetExhausted}
       then c_status obj' = Active
         \<and> (case c_deadline obj' of None \<Rightarrow> True | Some t \<Rightarrow> now < t)
         \<and> (\<exists>u. usable_tokens (Some (c_budget obj')) = Inr u
              \<and> (case u of None \<Rightarrow> True | Some n \<Rightarrow> c_tokens_used obj < n))
         \<and> c_final obj' = None \<and> c_retro_due obj' = None \<and> c_stop_reason obj' = None
         \<and> (\<exists>t. c_next obj' = Some t \<and> now \<le> t)
       else c_status obj' = c_status obj)"
  using assms(2)
proof (cases rule: extend_campaign_cases)
  case (1 dl bo vs det)
  note dl = new_deadline_Inr [OF 1(1)] and bo = new_cap_Inr [OF 1(2)]
  from 1(4) show ?thesis
  proof (cases rule: apply_transition_cases)
    case (won row new)
    from transition_extend [OF won(2)] have new: "new = (if c_status obj \<in> {DeadlineReached, BudgetExhausted}
        then Active else c_status obj)" "\<not> final_status (c_status obj)" "new \<notin> set RETRO_STATUSES" by auto
    have o': "obj' = cas_write vs (Some new) (c_rev obj) now obj"
      using won(5) ending_values_open [OF new(3)] by (simp add: seen_rev_def)
    have row: "get_campaign (c_id obj) d' = Some obj'"
      using won assms(1) ending_values_open [OF new(3)] by (simp add: o' seen_rev_def)
    have f: "c_deadline obj' = c_deadline (set_cols vs obj)" "c_budget obj' = c_budget (set_cols vs obj)"
      "c_final obj' = c_final (set_cols vs obj)" "c_retro_due obj' = c_retro_due (set_cols vs obj)"
      "c_stop_reason obj' = c_stop_reason (set_cols vs obj)" "c_next obj' = c_next (set_cols vs obj)"
      "c_status obj' = new"
      by (simp_all add: o' cas_write_def)
    have ext: "c_deadline obj' = c_deadline (extended obj dl bo)" "c_budget obj' = c_budget (extended obj dl bo)"
      using f 1(5,6) reopen_fields by (cases "c_status obj \<in> {DeadlineReached, BudgetExhausted}"; simp)+
    have A: "\<forall>t. c_deadline obj' = Some t \<and> c_deadline obj \<noteq> Some t \<longrightarrow>
          now < t \<and> (\<forall>old. c_deadline obj = Some old \<longrightarrow> old < t)"
      "c_deadline obj' = None \<longrightarrow> c_deadline obj = None"
      using dl ext(1) by (cases dl; auto)+
    have B: "c_budget obj' = c_budget obj \<or> (\<exists>old n. b_cap (c_budget obj) = Some old \<and> old < n
        \<and> c_budget obj' = (c_budget obj)\<lparr>b_cap := Some n\<rparr>)"
      using bo ext(2) by (cases bo) auto
    have C: "c_status obj' = Active \<and> (case c_deadline obj' of None \<Rightarrow> True | Some t \<Rightarrow> now < t)
         \<and> (\<exists>u. usable_tokens (Some (c_budget obj')) = Inr u
              \<and> (case u of None \<Rightarrow> True | Some n \<Rightarrow> c_tokens_used obj < n))
         \<and> c_final obj' = None \<and> c_retro_due obj' = None \<and> c_stop_reason obj' = None
         \<and> (\<exists>t. c_next obj' = Some t \<and> now \<le> t)"
      if "c_status obj \<in> {DeadlineReached, BudgetExhausted}"
      using 1(6,7) [OF that] that new(1) f ext reopen_fields [of obj now "extended obj dl bo"]
      by (simp del: extended_fields)
    show ?thesis using 1(3) new row A B C f(7) by auto
  qed simp
qed

definition ended_campaign :: campaign where
  "ended_campaign = sample_campaign\<lparr>c_status := DeadlineReached, c_retro_due := Some (RetroEnd DeadlineReached)\<rparr>"

definition ended_db :: db where
  "ended_db = sample_db\<lparr>d_campaigns := [ended_campaign]\<rparr>"

lemma sample_usable: "usable_tokens (Some \<lparr>b_cap = Some 1000, b_ratio = Fin 0\<rparr>) = Inr (Some 1000)"
  using round64_int [of 1] round64_int [of 1000] trunc_of_int [of 1000]
  by (simp add: usable_tokens_def float_of_int_def fsub_def)

lemma extend_campaign_effect_witness:
  "\<exists>d' obj'. extend_campaign ended_campaign ''user:u1'' (Some (AwareTime 20)) PNone 9 ended_db = Inr (d', obj', True)
     \<and> c_status obj' = Active \<and> c_deadline obj' = Some 20"
proof -
  have g: "get_campaign (c_id ended_campaign) ended_db = Some ended_campaign"
    by (simp add: ended_db_def row_get_def)
  have r: "get_room ''r1'' ended_db = Some \<lparr>r_id = ''r1'', r_project = Some ''p1'', r_archived = None,
      r_is_dm = False, r_lead = Some ''g1''\<rparr>"
    by (simp add: ended_db_def sample_db_def row_get_def)
  obtain d' obj' where e: "extend_campaign ended_campaign ''user:u1'' (Some (AwareTime 20)) PNone 9 ended_db = Inr (d', obj', True)"
    and o': "c_deadline obj' = Some 20"
    using g by (simp add: extend_campaign_def transition.simps guardE_def r ended_campaign_def sample_usable
        apply_transition_def cas_update_def seen_rev_def Let_def ending_values_def RETRO_STATUSES_def
        reopen_values_def cas_write_def)
  from extend_campaign_effect [OF g e] e o' show ?thesis by (auto simp: ended_campaign_def)
qed

section \<open>Limits of a cycle execution\<close>

lemma clamp_tokens_le: "clamp_tokens r v = Inr n \<Longrightarrow> n \<le> r"
  by (cases v) auto

text \<open>
  A cycle's execution never gets more than the campaign has left (CMP-03): limits are given
  only to the task of an open attempt of a campaign that has not ended (a retrospective may run
  after an end, but not after a stop). A cycle's token limit is within the usable tokens that
  remain, some of which do remain; a retrospective's is within the cap. The deadline is in force:
  a cycle's is at most the campaign's, which is still to come, and a retrospective's at most two
  hours away.
\<close>

theorem cycle_limits_within_budget:
  assumes "cycle_execution_limits rt limits dl now d = Inr (c, lm, dl')"
  shows "\<exists>a cid. k_campaign rt = Some cid \<and> get_campaign cid d = Some c
    \<and> open_attempt_for_task rt d = Some a \<and> c_status c \<noteq> Stopped
    \<and> (a_kind a = CycleKind \<longrightarrow>
         c_status c \<notin> set TERMINAL_STATUSES
         \<and> (\<forall>u. usable_tokens (Some (c_budget c)) = Inr (Some u) \<longrightarrow>
              0 < u - c_tokens_used c \<and> (\<exists>n. dget lm ''max_total_tokens'' = PInt n \<and> n \<le> u - c_tokens_used c))
         \<and> (\<forall>cd. c_deadline c = Some cd \<longrightarrow> now < cd \<and> (\<exists>t. dl' = Some t \<and> t \<le> cd)))
    \<and> (a_kind a = RetroKind \<longrightarrow>
         (\<forall>cap. b_cap (c_budget c) = Some cap \<longrightarrow>
              0 < cap - c_tokens_used c \<and> (\<exists>n. dget lm ''max_total_tokens'' = PInt n \<and> n \<le> cap - c_tokens_used c))
         \<and> (\<exists>t. dl' = Some t \<and> t \<le> now + seconds RETRO_MAX_SECONDS))
    \<and> (\<forall>t. dl = Some t \<longrightarrow> (\<exists>t'. dl' = Some t' \<and> t' \<le> t))"
proof -
  from assms obtain cid where cid: "k_campaign rt = Some cid" and c: "get_campaign cid d = Some c"
    by (auto simp: cycle_execution_limits_def Let_def bindE_Inr_iff split: option.splits if_splits)
  from assms cid c obtain a where a: "open_attempt_for_task rt d = Some a" and ns: "c_status c \<noteq> Stopped"
    by (auto simp: cycle_execution_limits_def Let_def bindE_Inr_iff split: option.splits if_splits)
  show ?thesis
  proof (cases "a_kind a")
    case RetroKind
    with assms cid c a show ?thesis
      by (auto simp: cycle_execution_limits_def Let_def bindE_Inr_iff ns dest: clamp_tokens_le
          split: option.splits if_splits)
  next
    case CycleKind
    with assms cid c a show ?thesis
      apply (cases "c_deadline c")
       apply (auto simp: cycle_execution_limits_def Let_def bindE_Inr_iff ns remaining_cycle_tokens_def
          dest: clamp_tokens_le split: option.splits if_splits)
           apply (metis order_refl less_imp_le)+
      done
  qed
qed

definition cycle_task :: task_row where
  "cycle_task = \<lparr>k_id = ''t1'', k_room = ''r1'', k_title = ''c'', k_spec = None, k_status = Todo, k_error = None,
     k_finished = None, k_assignee = Some ''m1'', k_assigned_at = Some 0, k_created_by = None,
     k_triggered_by = ''campaign'', k_idem_key = None, k_campaign = Some ''c1'', k_execution = None,
     k_input_rev = None\<rparr>"

definition cycle_db :: db where
  "cycle_db = sample_db\<lparr>d_tasks := [cycle_task],
     d_attempts := [new_attempt ''a1'' ''c1'' 1 CycleKind ''t1'' 0 EvPending]\<rparr>"

lemma get_cycle_db [simp]: "get_campaign ''c1'' cycle_db = Some sample_campaign"
  by (simp add: cycle_db_def sample_db_def row_get_def)

lemma open_cycle_attempt: "open_attempt_for_task cycle_task cycle_db = Some (new_attempt ''a1'' ''c1'' 1 CycleKind ''t1'' 0 EvPending)"
  by (simp add: open_attempt_for_task_def cycle_task_def cycle_db_def open_attempts_def attempts_of_def new_attempt_def)

lemma cycle_limits_within_budget_witness:
  "\<exists>c lm dl'. cycle_execution_limits cycle_task [] (Some 9) 1 cycle_db = Inr (c, lm, dl') \<and>
     (\<exists>n. dget lm ''max_total_tokens'' = PInt n \<and> n \<le> 1000) \<and> (\<exists>t. dl' = Some t \<and> t \<le> 7)"
proof -
  have k: "k_campaign cycle_task = Some ''c1''" by (simp add: cycle_task_def)
  obtain c lm dl' where e: "cycle_execution_limits cycle_task [] (Some 9) 1 cycle_db = Inr (c, lm, dl')"
    by (simp add: cycle_execution_limits_def k open_cycle_attempt remaining_cycle_tokens_def sample_usable
        guardE_def Let_def new_attempt_def dget_def dget_or_def)
  from cycle_limits_within_budget [OF e] show ?thesis
    using e k by (auto simp: open_cycle_attempt new_attempt_def sample_usable)
qed

end
