(* ===== verification/ExecutionStops.thy ===== *)
theory ExecutionStops
  imports CampaignService
begin

text \<open>
  Cancelling an execution (project_executions/stop_service.py): turns are fenced first, every
  attempt that may run a process gets an exact stop request, and the execution ends only when
  every stop is proved safe by a receipt. The code that reacts to the end of a campaign cycle's
  execution (\<open>campaigns.lifecycle.on_execution_terminal\<close>) is called from the event writer; here
  it is the argument \<open>hook\<close>, and the lifecycle theory passes the real one. \<open>assign\<close> stands for
  the assignment message of a revised execution (\<open>inject_task_assignment_message\<close> and the check
  of the turn it creates); \<open>None\<close> means the assignment was refused.
\<close>

type_synonym terminal_hook = "string \<Rightarrow> string \<Rightarrow> db \<Rightarrow> db"

section \<open>Execution events\<close>

definition TERMINAL_EXECUTION_EVENTS :: "string list" where
  "TERMINAL_EXECUTION_EVENTS =
     [''execution_completed'', ''execution_usage_limit_stopped'', ''execution_deadline_stopped'',
      ''execution_cancelled'']"

definition execution_event ::
  "terminal_hook \<Rightarrow> string \<Rightarrow> string \<Rightarrow> string \<Rightarrow> string option \<Rightarrow> (string \<times> pyval) list \<Rightarrow> db \<Rightarrow> db" where
  "execution_event hook xid key typ task details d =
     (if key \<in> xe_key ` set (d_exec_events d) then d
      else
        let d1 = d\<lparr>d_exec_events := d_exec_events d @
              [\<lparr>xe_execution = xid, xe_task = task, xe_key = key, xe_type = typ, xe_details = details\<rparr>]\<rparr>
        in if typ \<in> set TERMINAL_EXECUTION_EVENTS then hook xid typ d1 else d1)"

section \<open>Stops\<close>

definition SAFE_STOP_STATES :: "stop_status list" where
  "SAFE_STOP_STATES = [StConfirmed, StNotStarted, StAlreadyFinished]"

abbreviation STOP_TIMEOUT_SEC :: int where "STOP_TIMEOUT_SEC \<equiv> 45"

definition stop_reason_of :: "mutation_row \<Rightarrow> string" where
  "stop_reason_of mu =
     (case mu_action mu of
        MDeadline \<Rightarrow> ''EXECUTION_DEADLINE_REACHED''
      | MLimit \<Rightarrow> mu_reason mu
      | MRevise \<Rightarrow> ''execution_input_superseded''
      | MCancel \<Rightarrow> ''execution_cancelled'')"

definition stops_of :: "string \<Rightarrow> db \<Rightarrow> stop_row list" where
  "stops_of xid d = filter (\<lambda>s. st_execution s = xid) (d_stops d)"

definition unsafe_stop :: "string \<Rightarrow> db \<Rightarrow> bool" where
  "unsafe_stop xid d \<longleftrightarrow> list_ex (\<lambda>s. st_status s \<notin> set SAFE_STOP_STATES) (stops_of xid d)"

record stop_counts =
  sc_total :: nat
  sc_pending :: nat
  sc_confirmed :: nat
  sc_not_started :: nat
  sc_already_finished :: nat
  sc_unknown :: nat
  sc_all_confirmed :: bool

definition stop_summary :: "string \<Rightarrow> db \<Rightarrow> stop_counts" where
  "stop_summary xid d =
     (let rows = stops_of xid d; count = (\<lambda>ss. length (filter (\<lambda>r. st_status r \<in> ss) rows))
      in \<lparr>sc_total = length rows, sc_pending = count {StPending, StDelivered},
          sc_confirmed = count {StConfirmed}, sc_not_started = count {StNotStarted},
          sc_already_finished = count {StAlreadyFinished}, sc_unknown = count {StUnknown},
          sc_all_confirmed = list_all (\<lambda>r. st_status r \<in> set SAFE_STOP_STATES) rows\<rparr>)"

section \<open>Fencing turns\<close>

definition OPEN_TURN_STATES :: "turn_state list" where
  "OPEN_TURN_STATES = [TnPending, TnLeased, TnRetrying, TnCompleting]"

definition ACTIVE_ATTEMPT_STATES :: "turn_attempt_state list" where
  "ACTIVE_ATTEMPT_STATES = [TaPending, TaLeased, TaStarted, TaCompleting]"

definition draw_uuid :: "db \<Rightarrow> string \<times> db" where
  "draw_uuid d = (d_uuid d (d_drawn d), d\<lparr>d_drawn := d_drawn d + 1\<rparr>)"

text \<open>An authenticated native receipt that the attempt's own process is over.\<close>

definition native_safe :: "string \<Rightarrow> turn_row \<Rightarrow> turn_attempt \<Rightarrow> db \<Rightarrow> bool" where
  "native_safe xid tn ta d \<longleftrightarrow>
     (case ta_local ta of
        None \<Rightarrow> False
      | Some l \<Rightarrow>
          l \<noteq> [] \<and>
          (case find (\<lambda>e. xe_execution e = xid \<and> xe_key e =
                  ''turn:'' @ tn_request tn @ '':attempt:'' @ int_str (ta_number ta) @ '':native-terminal'')
                (d_exec_events d) of
             None \<Rightarrow> False
           | Some e \<Rightarrow>
               dget (xe_details e) ''local_execution_id'' = PStr l \<and>
               dget (xe_details e) ''process_state'' \<in> {PStr ''finished'', PStr ''stopped'', PStr ''not_started''}))"

definition cancel_attempt :: "string \<Rightarrow> instant \<Rightarrow> turn_attempt \<Rightarrow> turn_attempt" where
  "cancel_attempt reason now ta =
     (if ta_state ta \<in> set ACTIVE_ATTEMPT_STATES
      then ta\<lparr>ta_state := TaCancelled,
              ta_ended := (case ta_ended ta of None \<Rightarrow> Some now | Some t \<Rightarrow> Some t),
              ta_reason := Some reason, ta_outcome := Some ''cancelled''\<rparr>
      else ta)"

definition new_stop :: "string \<Rightarrow> string \<Rightarrow> mutation_row \<Rightarrow> turn_row \<Rightarrow> turn_attempt \<Rightarrow> instant \<Rightarrow> stop_row" where
  "new_stop sid xid mu tn ta now =
     (let not_delivered = (ta_state ta = TaPending \<and> ta_local ta = None)
      in \<lparr>st_id = sid, st_mutation = mu_id mu, st_execution = xid,
          st_input_rev = (case tn_input_rev tn of None \<Rightarrow> mu_prev_rev mu
                          | Some r \<Rightarrow> if r = 0 then mu_prev_rev mu else r),
          st_request = tn_request tn, st_attempt_id = ta_id ta, st_attempt = ta_number ta,
          st_generation = ta_generation ta, st_agent = tn_agent tn, st_room = tn_room tn,
          st_participant = tn_participant tn, st_local = ta_local ta, st_reason = stop_reason_of mu,
          st_status = (if not_delivered then StNotStarted else StPending),
          st_deadline = now + seconds STOP_TIMEOUT_SEC,
          st_confirmed = (if not_delivered then Some now else None),
          st_receipt = (if not_delivered then
             Some [(''status'', PStr ''not_started''), (''code'', PStr ''SERVER_ATTEMPT_NOT_LEASED'')] else None),
          st_error_code = None\<rparr>)"

definition fence_attempt :: "string \<Rightarrow> mutation_row \<Rightarrow> instant \<Rightarrow> turn_row \<Rightarrow> turn_attempt \<Rightarrow> db \<Rightarrow> db" where
  "fence_attempt xid mu now tn ta d =
     (case find (\<lambda>s. st_attempt_id s = ta_id ta) (d_stops d) of
        Some row \<Rightarrow> row_upd d_turn_attempts_update ta_id (ta_id ta) (cancel_attempt (st_reason row) now) d
      | None \<Rightarrow>
          if native_safe xid tn ta d
          then row_upd d_turn_attempts_update ta_id (ta_id ta) (cancel_attempt (stop_reason_of mu) now) d
          else
            (let (sid, d1) = draw_uuid d; row = new_stop sid xid mu tn ta now
             in row_upd d_turn_attempts_update ta_id (ta_id ta) (cancel_attempt (st_reason row) now)
                  (row_add d_stops_update row d1)))"

definition fence_turn :: "string \<Rightarrow> mutation_row \<Rightarrow> instant \<Rightarrow> turn_row \<Rightarrow> db \<Rightarrow> db" where
  "fence_turn xid mu now tn d =
     (let tas = filter (\<lambda>ta. ta_turn ta = tn_request tn
             \<and> (ta_state ta \<in> set ACTIVE_ATTEMPT_STATES \<or> ta_local ta \<noteq> None)) (d_turn_attempts d);
          d1 = fold (fence_attempt xid mu now tn) tas d;
          d2 = d1\<lparr>d_outbox := map (\<lambda>ob. if ob_turn ob = tn_request tn \<and> ob_state ob \<in> {ObPending, ObDelivering}
                    then ob\<lparr>ob_state := ObCancelled\<rparr> else ob) (d_outbox d1)\<rparr>
      in if tn_state tn \<in> set OPEN_TURN_STATES
         then (row_upd d_turns_update tn_request (tn_request tn)
                 (\<lambda>t. t\<lparr>tn_state := TnCancelled, tn_reason := Some (stop_reason_of mu), tn_completed := Some now\<rparr>) d2)
                 \<lparr>d_closed_turns := d_closed_turns d2 @ [tn_request tn]\<rparr>
         else d2)"

definition fenced_turns :: "string \<Rightarrow> mutation_row \<Rightarrow> db \<Rightarrow> turn_row list" where
  "fenced_turns xid mu d =
     (let task_ids = map k_id (filter (\<lambda>k. k_execution k = Some xid
             \<and> (case k_input_rev k of None \<Rightarrow> False | Some r \<Rightarrow> r \<le> mu_prev_rev mu)) (d_tasks d))
      in filter (\<lambda>tn. (tn_execution tn = Some xid
                       \<or> (case tn_task tn of None \<Rightarrow> False | Some k \<Rightarrow> k \<in> set task_ids))
             \<and> (tn_state tn \<in> set OPEN_TURN_STATES
                \<or> list_ex (\<lambda>ta. ta_turn ta = tn_request tn \<and> ta_local ta \<noteq> None) (d_turn_attempts d)))
           (d_turns d))"

definition fence_execution_turns :: "string \<Rightarrow> mutation_row \<Rightarrow> instant \<Rightarrow> db \<Rightarrow> db" where
  "fence_execution_turns xid mu now d = fold (fence_turn xid mu now) (fenced_turns xid mu d) d"

section \<open>Settling a mutation\<close>

text \<open>\<open>ORDER BY requested_at DESC, id\<close>, first row.\<close>

definition mutation_before :: "mutation_row \<Rightarrow> mutation_row \<Rightarrow> bool" where
  "mutation_before a b \<longleftrightarrow>
     mu_requested b < mu_requested a \<or> (mu_requested a = mu_requested b \<and> str_lt (mu_id a) (mu_id b))"

fun first_mutation :: "mutation_row option \<Rightarrow> mutation_row list \<Rightarrow> mutation_row option" where
  "first_mutation best [] = best"
| "first_mutation best (m # ms) =
     first_mutation (case best of None \<Rightarrow> Some m | Some b \<Rightarrow> if mutation_before m b then Some m else Some b) ms"

definition awaiting_mutation :: "string \<Rightarrow> db \<Rightarrow> mutation_row option" where
  "awaiting_mutation xid d =
     first_mutation None (filter (\<lambda>m. mu_execution m = xid \<and> mu_phase m = AwaitingStop) (d_mutations d))"

definition revision_lead_ok :: "exec_row \<Rightarrow> mutation_row \<Rightarrow> db \<Rightarrow> bool" where
  "revision_lead_ok x mu d \<longleftrightarrow>
     (case (case mu_root_task mu of None \<Rightarrow> None | Some t \<Rightarrow> get_task t d) of
        None \<Rightarrow> False
      | Some k \<Rightarrow>
          k_execution k = Some (x_id x) \<and> k_input_rev k = Some (mu_rev mu) \<and>
          (case (case k_assignee k of None \<Rightarrow> None | Some p \<Rightarrow> get_participant p d) of
             None \<Rightarrow> False
           | Some p \<Rightarrow> p_agent p = Some (x_lead x) \<and> p_room p = x_room x
               \<and> p_role p \<in> {''member'', ''admin'', ''owner''}) \<and>
          (case get_room (x_room x) d of None \<Rightarrow> False | Some r \<Rightarrow> r_archived r = None) \<and>
          (case get_agent (x_lead x) d of None \<Rightarrow> False | Some g \<Rightarrow> g_desired_running g))"

definition settled_status :: "mutation_action \<Rightarrow> exec_status" where
  "settled_status a = (case a of MRevise \<Rightarrow> XPlanning | MDeadline \<Rightarrow> XFailed | MLimit \<Rightarrow> XFailed | MCancel \<Rightarrow> XCancelled)"

definition applied_event :: "mutation_action \<Rightarrow> string" where
  "applied_event a = (case a of
       MRevise \<Rightarrow> ''execution_revised''
     | MLimit \<Rightarrow> ''execution_usage_limit_stopped''
     | MDeadline \<Rightarrow> ''execution_deadline_stopped''
     | MCancel \<Rightarrow> ''execution_cancelled'')"

definition block_revision :: "terminal_hook \<Rightarrow> exec_row \<Rightarrow> mutation_row \<Rightarrow> string \<Rightarrow> instant \<Rightarrow> db \<Rightarrow> db" where
  "block_revision hook x mu code now d =
     execution_event hook (x_id x) (''mutation:'' @ mu_id mu @ '':resume-blocked:'' @ code)
       ''execution_revision_blocked'' (mu_root_task mu)
       [(''mutation_id'', PStr (mu_id mu)), (''code'', PStr code)]
       (upd_exec (x_id x) (\<lambda>x. if x_status x = XRevising \<and> x_input_rev x = mu_rev mu
          then x\<lparr>x_error := Some code, x_state_rev := x_state_rev x + 1, x_updated := now\<rparr> else x) d)"

text \<open>The write of the settled status and of the mutation, and the failed root task of a limit or a deadline.\<close>

definition settle_row :: "mutation_row \<Rightarrow> instant \<Rightarrow> exec_row \<Rightarrow> exec_row" where
  "settle_row mu now x =
     x\<lparr>x_status := settled_status (mu_action mu), x_state_rev := x_state_rev x + 1,
       x_finished := (if mu_action mu = MRevise then None else Some now),
       x_error := (if mu_action mu \<in> {MDeadline, MLimit} then Some (mu_reason mu) else None),
       x_updated := now\<rparr>"

definition fail_root_task :: "mutation_row \<Rightarrow> instant \<Rightarrow> db \<Rightarrow> db" where
  "fail_root_task mu now d =
     (case (case mu_root_task mu of None \<Rightarrow> None | Some t \<Rightarrow> get_task t d) of
        None \<Rightarrow> d
      | Some k \<Rightarrow>
          if k_status k = TaskDone then d
          else (upd_task (k_id k) (\<lambda>k. k\<lparr>k_status := TaskFailed, k_error := Some (mu_reason mu),
                  k_finished := (case k_finished k of None \<Rightarrow> Some now | Some t \<Rightarrow> Some t)\<rparr>) d)
               \<lparr>d_deadline_tasks := d_deadline_tasks d @ [k_id k]\<rparr>)"

definition finish_mutation :: "terminal_hook \<Rightarrow> exec_row \<Rightarrow> mutation_row \<Rightarrow> instant \<Rightarrow> db \<Rightarrow> db" where
  "finish_mutation hook x mu now d =
     (let d1 = row_upd d_mutations_update mu_id (mu_id mu) (\<lambda>m. m\<lparr>mu_phase := Applied, mu_completed := Some now\<rparr>) d;
          d2 = (if mu_action mu \<in> {MDeadline, MLimit} then fail_root_task mu now d1 else d1)
      in execution_event hook (x_id x) (''mutation:'' @ mu_id mu @ '':applied'') (applied_event (mu_action mu))
           (mu_root_task mu) [(''mutation_id'', PStr (mu_id mu)), (''input_revision'', PInt (mu_rev mu))] d2)"

text \<open>
  The revised assignment. \<open>assigner\<close> stands for the message service: the turn the assignment
  message opened for the lead, or nothing when there is none or the service refused. A turn that
  is already cancelled or failed counts as a refusal.
\<close>

type_synonym assigner = "exec_row \<Rightarrow> mutation_row \<Rightarrow> db \<Rightarrow> turn_row option"

definition assign_lead :: "assigner \<Rightarrow> exec_row \<Rightarrow> mutation_row \<Rightarrow> db \<Rightarrow> db option" where
  "assign_lead assign x mu d =
     (case assign x mu d of
        None \<Rightarrow> None
      | Some tn \<Rightarrow> if tn_state tn \<in> {TnCancelled, TnFailed} then None else Some (row_add d_turns_update tn d))"

definition settle_execution_mutation ::
  "terminal_hook \<Rightarrow> assigner \<Rightarrow> instant \<Rightarrow> string \<Rightarrow> db \<Rightarrow> db \<times> bool" where
  "settle_execution_mutation hook assign now xid d =
     (case get_exec xid d of
        None \<Rightarrow> (d, False)
      | Some x \<Rightarrow>
          if x_status x \<notin> {XRevising, XCancelling} then (d, False)
          else case awaiting_mutation xid d of
            None \<Rightarrow> (d, False)
          | Some mu \<Rightarrow>
              if mu_rev mu \<noteq> x_input_rev x \<or> unsafe_stop xid d then (d, False)
              else if mu_action mu = MRevise \<and> \<not> revision_lead_ok x mu d
                then (block_revision hook x mu ''REVISION_LEAD_UNAVAILABLE'' now d, False)
              else if x_status x \<noteq> (if mu_action mu = MRevise then XRevising else XCancelling) then (d, False)
              else let d1 = upd_exec xid (settle_row mu now) d
                in case (if mu_action mu = MRevise then assign_lead assign x mu d1 else Some d1) of
                     None \<Rightarrow> (block_revision hook x mu ''REVISION_ASSIGNMENT_REVOKED'' now d, False)
                   | Some d2 \<Rightarrow> (finish_mutation hook x mu now d2, True))"

section \<open>Receipts\<close>

text \<open>\<open>v == n\<close> of a JSON value and an integer.\<close>

fun py_eq_int :: "pyval \<Rightarrow> int \<Rightarrow> bool" where
  "py_eq_int (PInt m) n \<longleftrightarrow> m = n"
| "py_eq_int (PBool b) n \<longleftrightarrow> (if b then 1 else 0) = n"
| "py_eq_int (PFloat (Fin q)) n \<longleftrightarrow> q = of_int n"
| "py_eq_int _ _ \<longleftrightarrow> False"

definition hex_lower :: "char \<Rightarrow> bool" where
  "hex_lower ch \<longleftrightarrow> (let n = of_char ch :: nat in (48 \<le> n \<and> n \<le> 57) \<or> (97 \<le> n \<and> n \<le> 102))"

text \<open>\<open>str(UUID(s)) == s\<close>: the canonical form, 8-4-4-4-12 lowercase hexadecimal digits.\<close>

definition canonical_uuid :: "string \<Rightarrow> bool" where
  "canonical_uuid s \<longleftrightarrow>
     map length (split_char (CHR ''-'') s) = [8, 4, 4, 4, 12] \<and>
     list_all hex_lower (filter (\<lambda>ch. ch \<noteq> CHR ''-'') s)"

definition code_char :: "char \<Rightarrow> bool" where
  "code_char ch \<longleftrightarrow> (let n = of_char ch :: nat in
     (48 \<le> n \<and> n \<le> 57) \<or> (65 \<le> n \<and> n \<le> 90) \<or> (97 \<le> n \<and> n \<le> 122) \<or> ch \<in> {CHR ''_'', CHR ''.'', CHR '':'', CHR ''-''})"

fun bounded_code :: "pyval \<Rightarrow> bool" where
  "bounded_code PNone \<longleftrightarrow> True"
| "bounded_code (PStr s) \<longleftrightarrow> 1 \<le> length s \<and> length s \<le> 128 \<and> list_all code_char s"
| "bounded_code _ \<longleftrightarrow> False"

fun receipt_status :: "string \<Rightarrow> stop_status" where
  "receipt_status s =
     (if s = ''confirmed'' then StConfirmed else if s = ''not_started'' then StNotStarted
      else if s = ''already_finished'' then StAlreadyFinished else StUnknown)"

fun expected_process_state :: "stop_status \<Rightarrow> string" where
  "expected_process_state StConfirmed = ''stopped''"
| "expected_process_state StNotStarted = ''not_started''"
| "expected_process_state StAlreadyFinished = ''finished''"
| "expected_process_state _ = ''unknown''"

definition check_local_id :: "pyval \<Rightarrow> camp_exc + unit" where
  "check_local_id v =
     (case v of
        PNone \<Rightarrow> Inr ()
      | PStr s \<Rightarrow> guardE (canonical_uuid s) (ExecConflict ''STOP_RECEIPT_INVALID'')
      | _ \<Rightarrow> Inl (PyExc AttributeError))"

definition stop_identity_ok :: "string \<Rightarrow> string \<Rightarrow> (string \<times> pyval) list \<Rightarrow> stop_row \<Rightarrow> db \<Rightarrow> bool" where
  "stop_identity_ok agent room body row d \<longleftrightarrow>
     st_agent row = Some agent \<and> room = st_room row \<and>
     (case (case st_participant row of None \<Rightarrow> None | Some p \<Rightarrow> get_participant p d) of
        None \<Rightarrow> False | Some p \<Rightarrow> p_agent p = Some agent \<and> p_room p = room) \<and>
     dget body ''request_id'' = PStr (st_request row) \<and>
     py_eq_int (dget body ''attempt'') (st_attempt row) \<and>
     py_eq_int (dget body ''generation'') (st_generation row) \<and>
     dget body ''execution_id'' = PStr (st_execution row) \<and>
     py_eq_int (dget body ''input_revision'') (st_input_rev row)"

definition receipt_of :: "(string \<times> pyval) list \<Rightarrow> (string \<times> pyval) list" where
  "receipt_of body =
     [(''status'', dget body ''status''), (''local_execution_id'', dget body ''local_execution_id'')]
     @ filter (\<lambda>(_, v). v \<noteq> PNone)
         (map (\<lambda>k. (k, dget body k)) [''process_state'', ''outcome'', ''code''])"

definition check_receipt :: "string \<Rightarrow> string \<Rightarrow> (string \<times> pyval) list \<Rightarrow> stop_row \<Rightarrow> db \<Rightarrow> camp_exc + stop_status" where
  "check_receipt agent room body row d =
     (let local = dget body ''local_execution_id''
      in bindE (guardE (stop_identity_ok agent room body row d) (ExecConflict ''STOP_IDENTITY_MISMATCH'')) (\<lambda>_.
         bindE (lift_py (in_strs (dget body ''status'') [''confirmed'', ''not_started'', ''already_finished'', ''unknown''])) (\<lambda>known.
         bindE (guardE known (ExecConflict ''STOP_RECEIPT_INVALID'')) (\<lambda>_.
         bindE (check_local_id local) (\<lambda>_.
         let status = receipt_status (str_of (dget body ''status''))
         in bindE (guardE (st_local row = None \<or> local = opt_str (st_local row)) (ExecConflict ''STOP_LOCAL_EXECUTION_MISMATCH'')) (\<lambda>_.
            bindE (guardE (\<not> (status \<in> {StConfirmed, StAlreadyFinished} \<and> local = PNone)) (ExecConflict ''STOP_PROCESS_PROOF_MISSING'')) (\<lambda>_.
            bindE (guardE (dget body ''process_state'' = PStr (expected_process_state status)) (ExecConflict ''STOP_PROCESS_PROOF_INVALID'')) (\<lambda>_.
            bindE (guardE (list_all (\<lambda>k. bounded_code (dget body k)) [''process_state'', ''outcome'', ''code'']) (ExecConflict ''STOP_RECEIPT_INVALID'')) (\<lambda>_.
            Inr status)))))))))"

text \<open>The accepted receipt's write, its event, and the settling of the execution it may complete.\<close>

definition write_receipt :: "(string \<times> pyval) list \<Rightarrow> stop_status \<Rightarrow> instant \<Rightarrow> stop_row \<Rightarrow> stop_row" where
  "write_receipt body status now row =
     row\<lparr>st_status := status,
         st_local := (case dget body ''local_execution_id'' of PStr s \<Rightarrow> Some s | _ \<Rightarrow> None),
         st_receipt := Some (receipt_of body),
         st_error_code := (if status = StUnknown then (case dget body ''code'' of PStr s \<Rightarrow> Some s | _ \<Rightarrow> None) else None),
         st_confirmed := Some now\<rparr>"

definition record_stop_receipt ::
  "terminal_hook \<Rightarrow> assigner \<Rightarrow> string \<Rightarrow> string \<Rightarrow> (string \<times> pyval) list
   \<Rightarrow> instant \<Rightarrow> db \<Rightarrow> camp_exc + db" where
  "record_stop_receipt hook assign agent room body now d =
     (case dget body ''stop_id'' of
        PStr sid \<Rightarrow>
          (case get_stop sid d of
             None \<Rightarrow> Inl (ExecConflict ''STOP_NOT_FOUND'')
           | Some row \<Rightarrow>
               if get_exec (st_execution row) d = None then Inl (ExecConflict ''STOP_NOT_FOUND'')
               else bindE (check_receipt agent room body row d) (\<lambda>status.
                 if st_status row \<in> set SAFE_STOP_STATES then
                   (if st_receipt row = Some (receipt_of body) then Inr d
                    else Inl (ExecConflict ''STOP_RECEIPT_CONFLICT''))
                 else
                   let d1 = upd_stop sid (write_receipt body status now) d;
                       d2 = execution_event hook (st_execution row)
                              (''stop:'' @ sid @ '':receipt:'' @ str_of (dget body ''status''))
                              ''execution_stop_receipt'' None
                              [(''stop_id'', PStr sid), (''request_id'', PStr (st_request row)),
                               (''status'', dget body ''status''), (''local_execution_id'', dget body ''local_execution_id'')] d1
                   in Inr (fst (settle_execution_mutation hook assign now (st_execution row) d2))))
      | _ \<Rightarrow> Inl (ExecConflict ''STOP_NOT_FOUND''))"

definition expire_stop :: "terminal_hook \<Rightarrow> stop_row \<Rightarrow> db \<Rightarrow> db" where
  "expire_stop hook row d =
     execution_event hook (st_execution row) (''stop:'' @ st_id row @ '':timeout'') ''execution_stop_unknown'' None
       [(''stop_id'', PStr (st_id row)), (''request_id'', PStr (st_request row)), (''code'', PStr ''STOP_RECEIPT_TIMEOUT'')]
       (upd_stop (st_id row) (\<lambda>s. s\<lparr>st_status := StUnknown, st_error_code := Some ''STOP_RECEIPT_TIMEOUT''\<rparr>) d)"

definition expire_pending_stops :: "terminal_hook \<Rightarrow> instant \<Rightarrow> db \<Rightarrow> db \<times> nat" where
  "expire_pending_stops hook now d =
     (let rows = filter (\<lambda>s. st_status s \<in> {StPending, StDelivered} \<and> st_deadline s \<le> now) (d_stops d)
      in (fold (expire_stop hook) rows d, length rows))"

section \<open>Events and stops\<close>

lemma execution_event_plain:
  "typ \<notin> set TERMINAL_EXECUTION_EVENTS \<Longrightarrow>
     d_stops (execution_event hook x k typ t det d) = d_stops d
     \<and> d_executions (execution_event hook x k typ t det d) = d_executions d
     \<and> d_mutations (execution_event hook x k typ t det d) = d_mutations d"
  by (simp add: execution_event_def)

lemma plain_events [simp]:
  "''execution_stop_receipt'' \<notin> set TERMINAL_EXECUTION_EVENTS"
  "''execution_stop_unknown'' \<notin> set TERMINAL_EXECUTION_EVENTS"
  "''execution_revision_blocked'' \<notin> set TERMINAL_EXECUTION_EVENTS"
  "''execution_cancel_requested'' \<notin> set TERMINAL_EXECUTION_EVENTS"
  by (simp_all add: TERMINAL_EXECUTION_EVENTS_def)

text \<open>
  What later steps keep: stops that are proved safe are final (their whole row, receipt included),
  and so are the rows of executions that have ended. Stop identifiers are distinct and the supply
  of new ones is fresh.
\<close>

definition stops_ok :: "db \<Rightarrow> bool" where
  "stops_ok d \<longleftrightarrow> distinct (map st_id (d_stops d)) \<and> inj (d_uuid d)
     \<and> (\<forall>n \<ge> d_drawn d. d_uuid d n \<notin> st_id ` set (d_stops d))"

definition ENDED_EXECUTION :: "exec_status list" where
  "ENDED_EXECUTION = [XCompleted, XFailed, XCancelled]"

definition keeps :: "db \<Rightarrow> db \<Rightarrow> bool" where
  "keeps d d' \<longleftrightarrow>
     (stops_ok d \<longrightarrow> stops_ok d' \<and>
        (\<forall>k s. get_stop k d = Some s \<and> st_status s \<in> set SAFE_STOP_STATES \<longrightarrow> get_stop k d' = Some s)) \<and>
     (\<forall>k x. get_exec k d = Some x \<and> x_status x \<in> set ENDED_EXECUTION \<longrightarrow> get_exec k d' = Some x)"

lemma keeps_refl [simp, intro]: "keeps d d"
  by (simp add: keeps_def)

lemma keeps_trans [trans]: "keeps a b \<Longrightarrow> keeps b c \<Longrightarrow> keeps a c"
  unfolding keeps_def by blast

lemma keeps_fold: "(\<And>x d. x \<in> set xs \<Longrightarrow> keeps d (f x d)) \<Longrightarrow> keeps d (fold f xs d)"
proof (induction xs arbitrary: d)
  case (Cons x xs)
  have "keeps d (f x d)" using Cons.prems by simp
  also have "keeps (f x d) (fold f xs (f x d))" using Cons by simp
  finally show ?case by simp
qed simp

definition same_stops :: "db \<Rightarrow> db \<Rightarrow> bool" where
  "same_stops d d' \<longleftrightarrow> d_stops d' = d_stops d \<and> d_executions d' = d_executions d
     \<and> d_uuid d' = d_uuid d \<and> d_drawn d' = d_drawn d"

lemma same_stops_keeps: "same_stops d d' \<Longrightarrow> keeps d d'"
  by (simp add: same_stops_def keeps_def stops_ok_def row_get_def)

lemma keeps_exec_upd:
  assumes "\<And>x. x_id (f x) = x_id x" and "\<And>x. get_exec k d = Some x \<Longrightarrow> x_status x \<in> set ENDED_EXECUTION \<Longrightarrow> f x = x"
  shows "keeps d (upd_exec k f d)"
  using assms by (auto simp: keeps_def stops_ok_def row_get_def tget_tupd)

lemma keeps_stop_upd:
  assumes "\<And>s. st_id (f s) = st_id s"
    and "\<And>s. get_stop k d = Some s \<Longrightarrow> st_status s \<notin> set SAFE_STOP_STATES"
  shows "keeps d (upd_stop k f d)"
proof -
  have "map st_id (d_stops (upd_stop k f d)) = map st_id (d_stops d)"
    using assms(1) by (simp add: map_key_tupd)
  then have "st_id ` set (d_stops (upd_stop k f d)) = st_id ` set (d_stops d)"
    by (metis list.set_map)
  then show ?thesis
    using assms by (auto simp: keeps_def stops_ok_def row_get_def tget_tupd map_key_tupd)
qed

lemma get_stop_append: "get_stop k d = Some s \<Longrightarrow> get_stop k (row_add d_stops_update r d) = Some s"
  by (simp add: row_get_def tget_append)

lemma keeps_new_stop:
  assumes "st_id r = d_uuid d (d_drawn d)"
  shows "keeps d (row_add d_stops_update r (d\<lparr>d_drawn := d_drawn d + 1\<rparr>))"
proof -
  let ?d = "row_add d_stops_update r (d\<lparr>d_drawn := d_drawn d + 1\<rparr>)"
  have "stops_ok ?d" if "stops_ok d"
  proof -
    have "d_uuid d n \<noteq> d_uuid d (d_drawn d)" if "n \<ge> d_drawn d + 1" for n
      using \<open>stops_ok d\<close> that by (metis (no_types) Suc_eq_plus1 inj_eq not_less_eq_eq order_refl stops_ok_def)
    then show ?thesis using that assms by (auto simp: stops_ok_def)
  qed
  then show ?thesis
    by (auto simp: keeps_def row_get_def tget_append)
qed

lemma fence_attempt_keeps: "keeps d (fence_attempt xid mu now tn ta d)"
proof -
  have plain: "keeps d (row_upd d_turn_attempts_update ta_id k f d)" for k f d
    by (rule same_stops_keeps) (simp add: same_stops_def)
  show ?thesis
  proof (cases "find (\<lambda>s. st_attempt_id s = ta_id ta) (d_stops d) = None \<and> \<not> native_safe xid tn ta d")
    case True
    have "st_id (new_stop sid xid mu tn ta now) = sid" for sid by (simp add: new_stop_def Let_def)
    then have "keeps d (row_add d_stops_update (new_stop (d_uuid d (d_drawn d)) xid mu tn ta now) (d\<lparr>d_drawn := d_drawn d + 1\<rparr>))"
      by (rule keeps_new_stop)
    also note plain
    finally show ?thesis using True by (simp add: fence_attempt_def draw_uuid_def Let_def)
  qed (auto simp: fence_attempt_def plain split: option.splits)
qed

lemma fence_turn_keeps: "keeps d (fence_turn xid mu now tn d)"
proof -
  let ?d1 = "fold (fence_attempt xid mu now tn) (filter (\<lambda>ta. ta_turn ta = tn_request tn
             \<and> (ta_state ta \<in> set ACTIVE_ATTEMPT_STATES \<or> ta_local ta \<noteq> None)) (d_turn_attempts d)) d"
  have "keeps d ?d1" by (rule keeps_fold) (rule fence_attempt_keeps)
  also have "same_stops ?d1 (fence_turn xid mu now tn d)" by (simp add: fence_turn_def Let_def same_stops_def)
  then have "keeps ?d1 (fence_turn xid mu now tn d)" by (rule same_stops_keeps)
  finally show ?thesis .
qed

lemma fence_keeps: "keeps d (fence_execution_turns xid mu now d)"
  unfolding fence_execution_turns_def by (rule keeps_fold) (rule fence_turn_keeps)

lemma settle_cases:
  obtains (idle) "settle_execution_mutation hook assign now xid d = (d, False)"
    | (blocked) x mu code where "get_exec xid d = Some x"
        "settle_execution_mutation hook assign now xid d = (block_revision hook x mu code now d, False)"
    | (settled) x mu d2 where "get_exec xid d = Some x" "x_status x \<in> {XRevising, XCancelling}"
        "awaiting_mutation xid d = Some mu" "mu_rev mu = x_input_rev x" "\<not> unsafe_stop xid d"
        "x_status x = (if mu_action mu = MRevise then XRevising else XCancelling)"
        "(if mu_action mu = MRevise then assign_lead assign x mu (upd_exec xid (settle_row mu now) d)
          else Some (upd_exec xid (settle_row mu now) d)) = Some d2"
        "settle_execution_mutation hook assign now xid d = (finish_mutation hook x mu now d2, True)"
proof -
  note def = settle_execution_mutation_def
  show thesis
  proof (cases "get_exec xid d")
    case None
    then show ?thesis by (intro idle) (simp add: def)
  next
    case x: (Some x)
    show ?thesis
    proof (cases "x_status x \<in> {XRevising, XCancelling}")
      case False
      with x show ?thesis by (intro idle) (simp add: def)
    next
      case st: True
      show ?thesis
      proof (cases "awaiting_mutation xid d")
        case None
        with x st show ?thesis by (intro idle) (simp add: def)
      next
        case mu: (Some mu)
        show ?thesis
        proof (cases "mu_rev mu \<noteq> x_input_rev x \<or> unsafe_stop xid d")
          case True
          with x st mu show ?thesis by (intro idle) (simp add: def)
        next
          case ready: False
          let ?exp = "if mu_action mu = MRevise then XRevising else XCancelling"
          let ?d1 = "upd_exec xid (settle_row mu now) d"
          let ?r = "if mu_action mu = MRevise then assign_lead assign x mu ?d1 else Some ?d1"
          show ?thesis
          proof (cases "mu_action mu = MRevise \<and> \<not> revision_lead_ok x mu d")
            case True
            with x st mu ready show ?thesis by (intro blocked) (simp_all add: def)
          next
            case lead: False
            show ?thesis
            proof (cases "x_status x = ?exp")
              case False
              with x st mu ready lead show ?thesis by (intro idle) (auto simp: def)
            next
              case expd: True
              have eq: "settle_execution_mutation hook assign now xid d =
                  (case ?r of None \<Rightarrow> (block_revision hook x mu ''REVISION_ASSIGNMENT_REVOKED'' now d, False)
                   | Some d2 \<Rightarrow> (finish_mutation hook x mu now d2, True))"
                unfolding def Let_def using x st mu ready lead expd by (simp only: option.case if_False if_True) auto
              show ?thesis
              proof (cases ?r)
                case None
                with eq have "settle_execution_mutation hook assign now xid d
                    = (block_revision hook x mu ''REVISION_ASSIGNMENT_REVOKED'' now d, False)" by simp
                with x show ?thesis by (rule blocked)
              next
                case (Some d2)
                with eq have "settle_execution_mutation hook assign now xid d = (finish_mutation hook x mu now d2, True)"
                  by simp
                with x st mu ready expd Some show ?thesis by (intro settled) auto
              qed
            qed
          qed
        qed
      qed
    qed
  qed
qed

text \<open>
  The contract of the hook that reacts to the end of an execution: it keeps safe stops and ended
  executions. The operations that call it then keep them too.
\<close>

lemma assign_keeps: "assign_lead assign x mu d = Some d' \<Longrightarrow> keeps d d'"
  by (rule same_stops_keeps) (auto simp: assign_lead_def same_stops_def split: option.splits if_splits)

locale stop_hook =
  fixes hook :: terminal_hook
  assumes hook_keeps: "keeps d (hook xid typ d)"
begin

lemma event_keeps: "keeps d (execution_event hook xid key typ t det d)"
proof -
  let ?d1 = "d\<lparr>d_exec_events := d_exec_events d @
      [\<lparr>xe_execution = xid, xe_task = t, xe_key = key, xe_type = typ, xe_details = det\<rparr>]\<rparr>"
  have "keeps d ?d1" by (rule same_stops_keeps) (simp add: same_stops_def)
  then show ?thesis using keeps_trans [OF _ hook_keeps] by (simp add: execution_event_def Let_def)
qed

lemma block_revision_keeps: "keeps d (block_revision hook x mu code now d)"
proof -
  have "keeps d (upd_exec (x_id x) (\<lambda>x. if x_status x = XRevising \<and> x_input_rev x = mu_rev mu
          then x\<lparr>x_error := Some code, x_state_rev := x_state_rev x + 1, x_updated := now\<rparr> else x) d)"
    by (rule keeps_exec_upd) (auto simp: ENDED_EXECUTION_def)
  then show ?thesis unfolding block_revision_def using event_keeps by (rule keeps_trans)
qed

lemma finish_keeps: "keeps d (finish_mutation hook x mu now d)"
proof -
  let ?d1 = "row_upd d_mutations_update mu_id (mu_id mu) (\<lambda>m. m\<lparr>mu_phase := Applied, mu_completed := Some now\<rparr>) d"
  have "same_stops d (if mu_action mu \<in> {MDeadline, MLimit} then fail_root_task mu now ?d1 else ?d1)"
    by (auto simp: fail_root_task_def same_stops_def split: option.splits)
  then show ?thesis unfolding finish_mutation_def Let_def
    by (rule keeps_trans [OF same_stops_keeps event_keeps])
qed

lemma settle_row_keeps:
  assumes "get_exec xid d = Some x" and "x_status x \<in> {XRevising, XCancelling}"
  shows "keeps d (upd_exec xid (settle_row mu now) d)"
  by (rule keeps_exec_upd) (use assms in \<open>auto simp: settle_row_def ENDED_EXECUTION_def\<close>)

lemma settle_keeps: "keeps d (fst (settle_execution_mutation hook assign now xid d))"
proof (cases rule: settle_cases [of hook assign now xid d])
  case idle
  then show ?thesis by simp
next
  case (blocked x mu code)
  then show ?thesis using block_revision_keeps by simp
next
  case (settled x mu d2)
  have "keeps (upd_exec xid (settle_row mu now) d) d2"
    using settled(7) assign_keeps by (auto split: if_splits)
  with settle_row_keeps [OF settled(1,2)] have "keeps d d2" by (rule keeps_trans)
  then have "keeps d (finish_mutation hook x mu now d2)" using finish_keeps by (rule keeps_trans)
  then show ?thesis using settled(8) by simp
qed

lemma receipt_keeps:
  assumes "record_stop_receipt hook assign agent room body now d = Inr d'"
  shows "keeps d d'"
proof -
  from assms obtain sid where sid: "dget body ''stop_id'' = PStr sid"
    by (auto simp: record_stop_receipt_def split: pyval.splits)
  from assms sid obtain row where row: "get_stop sid d = Some row"
    by (auto simp: record_stop_receipt_def split: option.splits)
  from assms sid row obtain status where st: "check_receipt agent room body row d = Inr status"
    by (auto simp: record_stop_receipt_def bindE_Inr_iff split: if_splits)
  show ?thesis
  proof (cases "st_status row \<in> set SAFE_STOP_STATES")
    case True
    with assms sid row st show ?thesis by (auto simp: record_stop_receipt_def split: if_splits)
  next
    case False
    have "keeps d (upd_stop sid (write_receipt body status now) d)"
      by (rule keeps_stop_upd) (use row False in \<open>auto simp: write_receipt_def\<close>)
    also note event_keeps
    also note settle_keeps
    finally show ?thesis
      using assms sid row st False by (auto simp: record_stop_receipt_def Let_def split: if_splits)
  qed
qed

end

section \<open>What fencing guarantees\<close>

definition attempt_active :: "string \<Rightarrow> db \<Rightarrow> bool" where
  "attempt_active aid d \<longleftrightarrow> (\<exists>ta \<in> set (d_turn_attempts d). ta_id ta = aid \<and> ta_state ta \<in> set ACTIVE_ATTEMPT_STATES)"

definition turn_active :: "string \<Rightarrow> db \<Rightarrow> bool" where
  "turn_active rq d \<longleftrightarrow> (\<exists>ta \<in> set (d_turn_attempts d). ta_turn ta = rq \<and> ta_state ta \<in> set ACTIVE_ATTEMPT_STATES)"

text \<open>An attempt is accounted for by a stop request or by a native receipt of its own process.\<close>

definition accounted :: "string \<Rightarrow> string \<Rightarrow> db \<Rightarrow> bool" where
  "accounted xid aid d \<longleftrightarrow>
     (\<exists>s \<in> set (d_stops d). st_attempt_id s = aid) \<or> (\<exists>tn ta. ta_id ta = aid \<and> native_safe xid tn ta d)"

definition honest_stop :: "string \<Rightarrow> mutation_row \<Rightarrow> stop_row \<Rightarrow> bool" where
  "honest_stop xid mu s \<longleftrightarrow>
     st_execution s = xid \<and> st_mutation s = mu_id mu \<and>
     (st_status s \<in> set SAFE_STOP_STATES \<longrightarrow> st_status s = StNotStarted \<and> st_local s = None)"

text \<open>
  One step of the fence, as a relation between the databases before and after: no attempt becomes
  active, a deactivated one is accounted for, and new stops are honest.
\<close>

definition rows_back :: "db \<Rightarrow> db \<Rightarrow> bool" where
  "rows_back d d' \<longleftrightarrow> (\<forall>x \<in> set (d_turn_attempts d'). \<exists>t \<in> set (d_turn_attempts d).
      ta_id t = ta_id x \<and> ta_turn t = ta_turn x
      \<and> (ta_state x \<in> set ACTIVE_ATTEMPT_STATES \<longrightarrow> ta_state t \<in> set ACTIVE_ATTEMPT_STATES))"

lemma rows_back_active:
  assumes "rows_back d d'"
  shows "attempt_active aid d' \<Longrightarrow> attempt_active aid d" "turn_active rq d' \<Longrightarrow> turn_active rq d"
  using assms unfolding rows_back_def attempt_active_def turn_active_def by metis+

definition fenced :: "string \<Rightarrow> mutation_row \<Rightarrow> db \<Rightarrow> db \<Rightarrow> bool" where
  "fenced xid mu d d' \<longleftrightarrow>
     rows_back d d' \<and>
     (\<forall>aid. attempt_active aid d \<and> \<not> attempt_active aid d' \<longrightarrow> accounted xid aid d') \<and>
     (\<forall>aid. accounted xid aid d \<longrightarrow> accounted xid aid d') \<and>
     (\<forall>s \<in> set (d_stops d'). s \<in> set (d_stops d) \<or> honest_stop xid mu s)"

lemma rows_back_trans: "rows_back a b \<Longrightarrow> rows_back b c \<Longrightarrow> rows_back a c"
  unfolding rows_back_def by metis

lemma fenced_refl [simp]: "fenced xid mu d d"
  by (auto simp: fenced_def rows_back_def)

lemma fenced_trans: "fenced xid mu a b \<Longrightarrow> fenced xid mu b c \<Longrightarrow> fenced xid mu a c"
  unfolding fenced_def using rows_back_trans by meson

lemma fenced_active:
  assumes "fenced xid mu d d'"
  shows "attempt_active aid d' \<Longrightarrow> attempt_active aid d" "turn_active rq d' \<Longrightarrow> turn_active rq d"
  using assms rows_back_active unfolding fenced_def by blast+

lemma fenced_fold: "(\<And>x d. x \<in> set xs \<Longrightarrow> fenced xid mu d (f x d)) \<Longrightarrow> fenced xid mu d (fold f xs d)"
  by (induction xs arbitrary: d) (auto intro: fenced_trans)

lemma cancel_attempt_frame [simp]:
  "ta_id (cancel_attempt r now ta) = ta_id ta" "ta_turn (cancel_attempt r now ta) = ta_turn ta"
  "ta_local (cancel_attempt r now ta) = ta_local ta"
  by (simp_all add: cancel_attempt_def)

lemma cancel_attempt_inactive [simp]: "ta_state (cancel_attempt r now ta) \<notin> set ACTIVE_ATTEMPT_STATES"
  by (simp add: cancel_attempt_def ACTIVE_ATTEMPT_STATES_def)

lemma cancelled_rows:
  assumes "d_turn_attempts d' = tupd ta_id aid (cancel_attempt r now) (d_turn_attempts d)"
  shows "\<not> attempt_active aid d'" "rows_back d d'" "attempt_active b d \<Longrightarrow> b \<noteq> aid \<Longrightarrow> attempt_active b d'"
proof -
  let ?f = "\<lambda>ta. if ta_id ta = aid then cancel_attempt r now ta else ta"
  have rows: "set (d_turn_attempts d') = ?f ` set (d_turn_attempts d)" using assms by (simp add: tupd_def)
  have f: "ta_id (?f ta) = ta_id ta" "ta_turn (?f ta) = ta_turn ta" for ta by simp_all
  have g: "ta_state (?f ta) \<in> set ACTIVE_ATTEMPT_STATES \<longleftrightarrow> ta_state ta \<in> set ACTIVE_ATTEMPT_STATES \<and> ta_id ta \<noteq> aid" for ta
    by simp
  show "\<not> attempt_active aid d'" "rows_back d d'" "attempt_active b d \<Longrightarrow> b \<noteq> aid \<Longrightarrow> attempt_active b d'"
    unfolding attempt_active_def rows_back_def rows bex_simps(7) ball_simps(9) f g by blast+
qed

lemma native_safe_cong:
  assumes "d_exec_events d' = d_exec_events d"
  shows "native_safe xid tn ta d' = native_safe xid tn ta d"
  unfolding native_safe_def assms ..

lemma fence_attempt_fenced:
  shows "fenced xid mu d (fence_attempt xid mu now tn ta d)"
    and "\<not> attempt_active (ta_id ta) (fence_attempt xid mu now tn ta d)"
proof -
  let ?d' = "fence_attempt xid mu now tn ta d"
  have ev: "d_exec_events ?d' = d_exec_events d"
    by (simp add: fence_attempt_def draw_uuid_def Let_def split: option.split)
  have stops: "(d_stops ?d' = d_stops d \<and> (native_safe xid tn ta d \<or> (\<exists>s \<in> set (d_stops d). st_attempt_id s = ta_id ta)))
      \<or> d_stops ?d' = d_stops d @ [new_stop (d_uuid d (d_drawn d)) xid mu tn ta now]"
    by (auto simp: fence_attempt_def draw_uuid_def Let_def find_Some_iff split: option.splits)
  have "\<exists>r. d_turn_attempts ?d' = tupd ta_id (ta_id ta) (cancel_attempt r now) (d_turn_attempts d)"
    by (cases "find (\<lambda>s. st_attempt_id s = ta_id ta) (d_stops d)"; cases "native_safe xid tn ta d")
       (auto simp: fence_attempt_def draw_uuid_def Let_def)
  then obtain r where rows: "d_turn_attempts ?d' = tupd ta_id (ta_id ta) (cancel_attempt r now) (d_turn_attempts d)" ..
  have new: "st_attempt_id (new_stop i xid mu tn ta now) = ta_id ta" "honest_stop xid mu (new_stop i xid mu tn ta now)" for i
    by (auto simp: new_stop_def Let_def honest_stop_def SAFE_STOP_STATES_def)
  have "accounted xid (ta_id ta) ?d'"
    using stops new(1) native_safe_cong [OF ev] by (auto simp: accounted_def)
  moreover have "accounted xid aid d \<Longrightarrow> accounted xid aid ?d'" for aid
    using stops native_safe_cong [OF ev] by (auto simp: accounted_def)
  ultimately show "fenced xid mu d ?d'"
    using cancelled_rows [OF rows] stops new(2) unfolding fenced_def by auto
  show "\<not> attempt_active (ta_id ta) ?d'" by (rule cancelled_rows(1) [OF rows])
qed

lemma fence_attempts_fold:
  "ta \<in> set tas \<Longrightarrow> \<not> attempt_active (ta_id ta) (fold (fence_attempt xid mu now tn) tas d)"
proof (induction tas arbitrary: d)
  case (Cons t ts)
  show ?case
  proof (cases "ta \<in> set ts")
    case True
    with Cons show ?thesis by simp
  next
    case False
    with Cons.prems have "ta = t" by simp
    have "fenced xid mu (fence_attempt xid mu now tn t d)
        (fold (fence_attempt xid mu now tn) ts (fence_attempt xid mu now tn t d))"
      by (rule fenced_fold) (rule fence_attempt_fenced(1))
    from fenced_active(1) [OF this] fence_attempt_fenced(2) \<open>ta = t\<close> show ?thesis by (simp, blast)
  qed
qed simp

lemma fence_turn_fenced:
  shows "fenced xid mu d (fence_turn xid mu now tn d)"
    and "\<not> turn_active (tn_request tn) (fence_turn xid mu now tn d)"
proof -
  let ?tas = "filter (\<lambda>ta. ta_turn ta = tn_request tn
             \<and> (ta_state ta \<in> set ACTIVE_ATTEMPT_STATES \<or> ta_local ta \<noteq> None)) (d_turn_attempts d)"
  let ?d1 = "fold (fence_attempt xid mu now tn) ?tas d"
  have f: "fenced xid mu d ?d1" by (rule fenced_fold) (rule fence_attempt_fenced(1))
  have same: "d_turn_attempts (fence_turn xid mu now tn d) = d_turn_attempts ?d1"
    "d_stops (fence_turn xid mu now tn d) = d_stops ?d1"
    "d_exec_events (fence_turn xid mu now tn d) = d_exec_events ?d1"
    by (simp_all add: fence_turn_def Let_def)
  then have eqs: "attempt_active a (fence_turn xid mu now tn d) = attempt_active a ?d1"
    "turn_active rq (fence_turn xid mu now tn d) = turn_active rq ?d1"
    "accounted x a (fence_turn xid mu now tn d) = accounted x a ?d1"
    "rows_back d (fence_turn xid mu now tn d) = rows_back d ?d1" for a x rq
    by (simp_all add: attempt_active_def turn_active_def accounted_def rows_back_def native_safe_cong [OF same(3)])
  show "fenced xid mu d (fence_turn xid mu now tn d)"
    using f same(2) by (simp add: fenced_def eqs)
  show "\<not> turn_active (tn_request tn) (fence_turn xid mu now tn d)"
  proof
    assume "turn_active (tn_request tn) (fence_turn xid mu now tn d)"
    then have "turn_active (tn_request tn) ?d1" using eqs(2) by blast
    then obtain ta where ta: "ta \<in> set (d_turn_attempts ?d1)" "ta_turn ta = tn_request tn"
      "ta_state ta \<in> set ACTIVE_ATTEMPT_STATES"
      unfolding turn_active_def by blast
    have "rows_back d ?d1" using f by (simp add: fenced_def)
    from bspec [OF this [unfolded rows_back_def] ta(1)] ta(2,3)
    obtain t where t: "t \<in> set (d_turn_attempts d)" "ta_id t = ta_id ta" "ta_turn t = tn_request tn"
      "ta_state t \<in> set ACTIVE_ATTEMPT_STATES"
      by auto
    have "t \<in> set ?tas" using t by simp
    then have "\<not> attempt_active (ta_id t) ?d1" by (rule fence_attempts_fold)
    moreover have "attempt_active (ta_id t) ?d1"
      unfolding attempt_active_def t(2) using ta(1,3) by blast
    ultimately show False by contradiction
  qed
qed


definition sample_turn :: turn_row where
  "sample_turn = \<lparr>tn_request = ''q1'', tn_room = ''r1'', tn_participant = Some ''m1'', tn_agent = Some ''g1'',
     tn_task = Some ''t1'', tn_execution = Some ''x1'', tn_input_rev = Some 1, tn_state = TnLeased,
     tn_reason = None, tn_completed = None\<rparr>"

definition sample_mutation :: mutation_row where
  "sample_mutation = \<lparr>mu_id = ''mu1'', mu_execution = ''x1'', mu_action = MCancel, mu_phase = AwaitingStop,
     mu_prev_rev = 1, mu_rev = 1, mu_expected_state_rev = 0, mu_root_task = Some ''t1'',
     mu_reason = ''CAMPAIGN_CYCLE_CLOSED'', mu_requested = 5, mu_completed = None\<rparr>"

definition running_db :: db where
  "running_db = cycle_db\<lparr>d_turns := [sample_turn],
     d_turn_attempts := [\<lparr>ta_id = ''ta1'', ta_turn = ''q1'', ta_number = 1, ta_generation = 1, ta_local = Some ''l1'',
       ta_state = TaStarted, ta_ended = None, ta_reason = None, ta_outcome = None\<rparr>]\<rparr>"


end
