(* ===== verification/CampaignLifecycle.thy ===== *)
theory CampaignLifecycle
  imports ExecutionStops
begin

text \<open>
  Closing campaign cycles (campaigns/lifecycle.py): judging an evaluation, counting tokens, the
  next status, the clean-up of the cycle's execution and task, and the hooks other components
  call. Every operation runs inside the caller's transaction, so a campaign object is its row
  unless another writer is modelled explicitly; \<open>refresh\<close> is \<open>db.refresh\<close>.

  The hook \<open>on_execution_terminal\<close> and the cancellation of an execution call each other: a cancel
  whose stops are already safe ends the execution at once, and the event calls the hook. The
  model gives that recursion fuel; two levels are always enough, since the execution has ended
  when the hook runs.
\<close>

abbreviation SYSTEM_ACTOR :: string where "SYSTEM_ACTOR \<equiv> ''system:campaign''"
abbreviation EVAL_GRACE_SECONDS :: int where "EVAL_GRACE_SECONDS \<equiv> 120"
abbreviation EVAL_PENDING_WINDOW_SECONDS :: int where "EVAL_PENDING_WINDOW_SECONDS \<equiv> 86400"
abbreviation CYCLE_CLOSED_REASON :: string where "CYCLE_CLOSED_REASON \<equiv> ''CAMPAIGN_CYCLE_CLOSED''"
abbreviation EXCERPT_CHARS :: nat where "EXCERPT_CHARS \<equiv> 4096"

definition CANCELLABLE_EXECUTION_STATES :: "exec_status list" where
  "CANCELLABLE_EXECUTION_STATES = [XPlanning, XRunning, XWaitingChildren, XRevising]"

definition OPEN_EXECUTION_STATES :: "exec_status list" where
  "OPEN_EXECUTION_STATES = CANCELLABLE_EXECUTION_STATES @ [XCancelling]"

definition OPEN_TASK_STATES :: "task_status list" where
  "OPEN_TASK_STATES = [Todo, InProgress, TaskBlocked]"

definition legal :: "camp_status \<Rightarrow> camp_event \<Rightarrow> bool" where
  "legal s e \<longleftrightarrow> (case transition s e of Inl _ \<Rightarrow> False | Inr _ \<Rightarrow> True)"

definition raise_in :: "camp_exc \<Rightarrow> db \<Rightarrow> db" where
  "raise_in e d = (if d_raised d = None then d\<lparr>d_raised := Some e\<rparr> else d)"

section \<open>Planned writes\<close>

text \<open>
  A plan computes an event (or none), the columns and the details from the campaign as it is
  read; the last component is the strategy-change flag the plan of a closed cycle sets.
\<close>

type_synonym plan = "campaign \<Rightarrow> camp_exc + (camp_event option \<times> col list \<times> (string \<times> pyval) list \<times> bool)"

definition refresh :: "campaign \<Rightarrow> db \<Rightarrow> campaign" where
  "refresh c d = (case get_campaign (c_id c) d of None \<Rightarrow> c | Some r \<Rightarrow> r)"

definition write_once :: "plan \<Rightarrow> string \<Rightarrow> instant \<Rightarrow> campaign \<Rightarrow> db \<Rightarrow> camp_exc + (db \<times> campaign \<times> bool \<times> bool)" where
  "write_once p actor now c d =
     bindE (p c) (\<lambda>(ev, vs, det, flag).
       bindE (case ev of
                None \<Rightarrow> if vs = [] then Inr (d, c, True) else Inr (cas_update c None None vs now d)
              | Some e \<Rightarrow> apply_transition c e actor now det None None vs d)
         (\<lambda>(d1, c1, ok). Inr (d1, c1, ok, flag)))"

fun write_tries :: "nat \<Rightarrow> plan \<Rightarrow> string \<Rightarrow> instant \<Rightarrow> campaign \<Rightarrow> db \<Rightarrow> db \<times> campaign \<times> bool \<times> bool" where
  "write_tries 0 p actor now c d = (d, c, False, False)"
| "write_tries (Suc n) p actor now c d =
     (case write_once p actor now c d of
        Inl e \<Rightarrow> (raise_in e d, c, False, False)
      | Inr (d1, c1, ok, flag) \<Rightarrow>
          if ok then (d1, c1, True, flag)
          else if n = 0 then (d1, refresh c1 d1, False, flag)
          else write_tries n p actor now (refresh c1 d1) d1)"

definition write_plan :: "plan \<Rightarrow> string \<Rightarrow> instant \<Rightarrow> campaign \<Rightarrow> db \<Rightarrow> db \<times> campaign \<times> bool \<times> bool" where
  "write_plan p actor now c d = write_tries 3 p actor now c d"

section \<open>Attempts\<close>

text \<open>
  The close of an attempt: an UPDATE guarded by \<open>closed_at IS NULL\<close>. \<open>f\<close> writes the extra columns.
\<close>

definition close_attempt ::
  "string \<Rightarrow> outcome option \<Rightarrow> eval_status \<Rightarrow> instant option \<Rightarrow> instant \<Rightarrow> (attempt \<Rightarrow> attempt) \<Rightarrow> db \<Rightarrow> db \<times> bool" where
  "close_attempt aid oc evs finished now f d =
     (case get_attempt aid d of
        None \<Rightarrow> (d, False)
      | Some a \<Rightarrow>
          if a_closed a \<noteq> None then (d, False)
          else (add_mark (MarkAttempt aid)
                 (upd_attempt aid (\<lambda>a. (f a)\<lparr>a_closed := Some (cycle_closed_at finished (a_opened a) now),
                    a_outcome := oc, a_eval_status := evs\<rparr>) d), True))"

definition no_values :: "attempt \<Rightarrow> attempt" where
  "no_values a = a"

definition or_zero :: "int option \<Rightarrow> int" where
  "or_zero n = (case n of None \<Rightarrow> 0 | Some v \<Rightarrow> v)"

text \<open>
  \<open>known_total_tokens\<close> of the execution's usage summary is the table \<open>d_usage\<close>; an execution that
  is not there is the \<open>ValueError\<close> the code catches.
\<close>

definition sync_tokens :: "string \<Rightarrow> db \<Rightarrow> db \<times> int" where
  "sync_tokens aid d =
     (case get_attempt aid d of
        None \<Rightarrow> (d, 0)
      | Some a \<Rightarrow>
          (case (case a_execution a of None \<Rightarrow> None | Some xid \<Rightarrow> map_of (d_usage d) xid) of
             None \<Rightarrow> (d, 0)
           | Some known \<Rightarrow>
               let seen = or_zero (a_tokens a)
               in if known \<le> seen then (d, 0)
                  else (upd_attempt aid (\<lambda>a. a\<lparr>a_tokens := Some known\<rparr>) d, known - seen)))"

definition fail_cycle_task :: "string \<Rightarrow> string \<Rightarrow> instant \<Rightarrow> db \<Rightarrow> db" where
  "fail_cycle_task tid reason now d =
     (case get_task tid d of
        Some k \<Rightarrow>
          if k_status k \<in> set OPEN_TASK_STATES
          then add_mark (MarkTask tid) (upd_task tid (\<lambda>k. k\<lparr>k_status := TaskFailed,
                 k_error := Some (take 500 reason), k_finished := Some now\<rparr>) d)
          else d
      | None \<Rightarrow> d)"

section \<open>The execution and the task of a closed cycle\<close>

definition cancelling_mutation :: "string \<Rightarrow> exec_row \<Rightarrow> string \<Rightarrow> instant \<Rightarrow> mutation_row" where
  "cancelling_mutation mid x reason now =
     \<lparr>mu_id = mid, mu_execution = x_id x, mu_action = MCancel, mu_phase = AwaitingStop,
      mu_prev_rev = x_input_rev x, mu_rev = x_input_rev x,
      mu_expected_state_rev = x_state_rev x - 1, mu_root_task = x_root_task x, mu_reason = reason,
      mu_requested = now, mu_completed = None\<rparr>"

definition request_cancel :: "terminal_hook \<Rightarrow> instant \<Rightarrow> exec_row \<Rightarrow> string \<Rightarrow> db \<Rightarrow> mutation_row \<times> db" where
  "request_cancel hook now x reason d =
     (let x1 = x\<lparr>x_status := XCancelling, x_state_rev := x_state_rev x + 1, x_updated := now\<rparr>;
          d1 = upd_exec (x_id x) (\<lambda>_. x1) d;
          d2 = d1\<lparr>d_mutations := map (\<lambda>m. if mu_execution m = x_id x \<and> mu_phase m = AwaitingStop
                    then m\<lparr>mu_phase := Superseded, mu_completed := Some now\<rparr> else m) (d_mutations d1)\<rparr>;
          (mid, d3) = draw_uuid d2;
          mu = cancelling_mutation mid x1 reason now;
          d4 = row_add d_mutations_update mu d3
      in (mu, execution_event hook (x_id x) (''mutation:'' @ mid @ '':requested'') ''execution_cancel_requested''
            (x_root_task x)
            [(''mutation_id'', PStr mid), (''input_revision'', PInt (x_input_rev x)), (''reason'', PStr reason),
             (''system_origin'', PStr ''campaign'')] d4))"

definition cancel_cycle_execution ::
  "terminal_hook \<Rightarrow> assigner \<Rightarrow> instant \<Rightarrow> string \<Rightarrow> string \<Rightarrow> db \<Rightarrow> db" where
  "cancel_cycle_execution hook assign now xid reason d =
     (case get_exec xid d of
        None \<Rightarrow> d
      | Some x \<Rightarrow>
          if x_status x \<notin> set CANCELLABLE_EXECUTION_STATES then d
          else let (mu, d1) = request_cancel hook now x reason d;
                   d2 = fence_execution_turns xid mu now d1
               in fst (settle_execution_mutation hook assign now xid d2))"

definition settle_cycle_work ::
  "terminal_hook \<Rightarrow> assigner \<Rightarrow> instant \<Rightarrow> string \<Rightarrow> string \<Rightarrow> db \<Rightarrow> db" where
  "settle_cycle_work hook assign now reason aid d =
     (case get_attempt aid d of
        None \<Rightarrow> d
      | Some a \<Rightarrow>
          let d1 = (case a_execution a of
                      None \<Rightarrow> d
                    | Some xid \<Rightarrow> cancel_cycle_execution hook assign now xid CYCLE_CLOSED_REASON d);
              waiting = (case (case a_execution a of None \<Rightarrow> None | Some xid \<Rightarrow> get_exec xid d1) of
                           None \<Rightarrow> False
                         | Some x \<Rightarrow> x_status x \<in> set OPEN_EXECUTION_STATES)
          in if waiting then d1
             else case a_task a of None \<Rightarrow> d1 | Some tid \<Rightarrow> fail_cycle_task tid reason now d1)"

section \<open>Judging and state\<close>

definition outcome_str :: "outcome option \<Rightarrow> pyval" where
  "outcome_str oc = (case oc of
       None \<Rightarrow> PNone
     | Some Improved \<Rightarrow> PStr ''improved'' | Some NoGain \<Rightarrow> PStr ''no_gain''
     | Some Regressed \<Rightarrow> PStr ''regressed'' | Some GuardrailViolation \<Rightarrow> PStr ''guardrail_violation''
     | Some EvalFailed \<Rightarrow> PStr ''eval_failed'' | Some InvalidOutcome \<Rightarrow> PStr ''invalid''
     | Some NoRecord \<Rightarrow> PStr ''no_record'' | Some Unknown \<Rightarrow> PStr ''unknown'')"

definition eval_status_str :: "eval_status \<Rightarrow> string" where
  "eval_status_str s = (case s of
       EvPending \<Rightarrow> ''pending'' | EvRunning \<Rightarrow> ''running'' | EvOk \<Rightarrow> ''ok'' | EvFailed \<Rightarrow> ''failed''
     | EvInvalid \<Rightarrow> ''invalid'' | EvSkipped \<Rightarrow> ''skipped'' | EvTimedOut \<Rightarrow> ''timed_out'')"

abbreviation STRATEGY_CHANGE :: string where "STRATEGY_CHANGE \<equiv> ''change_strategy''"

text \<open>The counters a verdict leaves: consecutive evaluation failures and cycles since the last improvement.\<close>

definition failures_after :: "verdict \<Rightarrow> campaign \<Rightarrow> int" where
  "failures_after v c =
     (if v_eval_failed v then c_eval_failures c + 1
      else if v_pin_mismatch v then c_eval_failures c else 0)"

definition since_after :: "verdict \<Rightarrow> campaign \<Rightarrow> int" where
  "since_after v c =
     (if v_outcome v \<in> set JUDGED_OUTCOMES \<or> v_outcome v = NoRecord
      then (if v_improved v then 0 else c_since c + 1) else c_since c)"

text \<open>
  The branch on the verdict: the event, the columns and details it adds, the no-improvement
  counter it leaves and the strategy-change flag.
\<close>

definition verdict_step ::
  "verdict \<Rightarrow> int \<Rightarrow> campaign \<Rightarrow> camp_exc + (camp_event option \<times> col list \<times> (string \<times> pyval) list \<times> int \<times> bool)" where
  "verdict_step v tokens_used c =
     (let failures = failures_after v c; since = since_after v c
      in if v_pin_mismatch v then
           Inr (Some TBlock,
             [ColStatusDetail (Some ''The pinned evaluator files changed; restore them or update the pins.'')],
             [(''reason'', PStr ''pin_mismatch'')], since, False)
         else if EVAL_FAILURE_BLOCK_THRESHOLD \<le> failures then
           Inr (Some TBlock,
             [ColStatusDetail (Some (''The evaluation failed '' @ int_str failures
                @ '' times in a row; check the evaluator.''))],
             [(''reason'', PStr ''eval_failures'')], since, False)
         else if c_mode c = TargetMode \<and> v_valid v = Some True \<and> v_outcome v \<noteq> NoRecord
                 \<and> reaches_target (v_dev_score v) (c_metric c) then
           Inr (Some TTargetReached, [],
             [(''dev_score'', opt_float (v_dev_score v)),
              (''awaiting'', PStr (if c_trusted c = TrustExternal then ''trusted_score'' else ''confirmation''))],
             since, False)
         else bindE (lift_py (cycle_tokens_spent (Some (c_budget c)) tokens_used)) (\<lambda>spent.
           if spent then Inr (Some TBudgetExhausted, [], [], since, False)
           else if int PLATEAU_WINDOW \<le> since \<and> c_mode c = TargetMode then Inr (Some TPlateau, [], [], since, False)
           else if int PLATEAU_WINDOW \<le> since then Inr (None, [ColWakeReason (Some STRATEGY_CHANGE)], [], 0, True)
           else Inr (None, [], [], since, False)))"

definition truthy :: "string option \<Rightarrow> bool" where
  "truthy s \<longleftrightarrow> s \<noteq> None \<and> s \<noteq> Some []"

definition block_detail :: "attempt \<Rightarrow> string" where
  "block_detail a =
     take 4000 (''The agent reported: '' @ the (a_block_reason a) @ ''.''
       @ (if truthy (a_unblock_hint a) then '' To unblock: '' @ the (a_unblock_hint a) else []))"

definition is_wake_reason :: "col \<Rightarrow> bool" where
  "is_wake_reason v \<longleftrightarrow> (case v of ColWakeReason _ \<Rightarrow> True | _ \<Rightarrow> False)"

text \<open>What the verdict, or a close without one, asks for.\<close>

definition verdict_plan ::
  "attempt \<Rightarrow> verdict option \<Rightarrow> int \<Rightarrow> campaign
   \<Rightarrow> camp_exc + (camp_event option \<times> col list \<times> (string \<times> pyval) list \<times> bool)" where
  "verdict_plan a verdict tokens_used c =
     (case verdict of
        Some v \<Rightarrow>
          bindE (verdict_step v tokens_used c) (\<lambda>(ev, vs, det, since, flag).
            Inr (ev, [ColFailures (failures_after v c)]
                   @ (if v_improved v then [ColBest (Some (a_id a))] else []) @ vs @ [ColSince since],
                 det, flag))
      | None \<Rightarrow>
          bindE (lift_py (cycle_tokens_spent (Some (c_budget c)) tokens_used)) (\<lambda>spent.
            Inr (if spent then Some TBudgetExhausted else None, [], [], False)))"

text \<open>The agent's own block report overrides a close that would go on or only rest.\<close>

definition blocked_close :: "attempt \<Rightarrow> camp_event option \<Rightarrow> bool" where
  "blocked_close a ev \<longleftrightarrow> truthy (a_block_reason a) \<and> ev \<in> {None, Some TPlateau}"

definition closing_event :: "attempt \<Rightarrow> camp_event option \<Rightarrow> camp_event option" where
  "closing_event a ev = (if blocked_close a ev then Some TBlock else ev)"

text \<open>The plan of a closed cycle.\<close>

definition close_plan :: "attempt \<Rightarrow> verdict option \<Rightarrow> int \<Rightarrow> pins option \<Rightarrow> plan" where
  "close_plan a verdict delta pins c =
     (let tokens_used = c_tokens_used c + delta;
          det0 = [(''cycle_no'', PInt (a_cycle_no a)), (''outcome'', outcome_str (a_outcome a))];
          vs0 = (if delta \<noteq> 0 then [ColTokens tokens_used] else [])
                @ (if pins \<noteq> None \<and> pins \<noteq> Some [] \<and> c_pins c = None then [ColPins pins] else [])
      in if c_status c \<in> set TERMINAL_STATUSES then Inr (None, vs0, det0, False)
         else
           let vs1 = vs0 @ [ColNext (Some (next_cycle_at (the (a_closed a)) (a_wake_at a)))]
                 @ (if a_kind a \<noteq> RetroKind \<and> c_retro_due c = None \<and> 0 < c_cycles_run c
                       \<and> c_cycles_run c mod RETRO_EVERY_CYCLES = 0 then [ColRetroDue (Some RetroPeriodic)] else [])
           in bindE (verdict_plan a verdict tokens_used c) (\<lambda>(ev, vs, det, flag).
                let blocked = blocked_close a ev;
                    ev1 = closing_event a ev;
                    vs2 = (if blocked \<and> flag then filter (\<lambda>v. \<not> is_wake_reason v) vs else vs)
                          @ (if blocked then [ColStatusDetail (Some (block_detail a))] else []);
                    det1 = det @ (if blocked then [(''reason'', PStr ''agent_reported'')] else []);
                    vs3 = vs2 @ (if ev1 = Some TBudgetExhausted then [ColStopReason (Some ''budget'')] else []);
                    det2 = det1 @ (if ev1 = Some TBudgetExhausted then [(''tokens_used'', PInt tokens_used)] else []);
                    ev2 = (case ev1 of None \<Rightarrow> None | Some e \<Rightarrow> if legal (c_status c) e then Some e else None)
                in Inr (ev2, vs1 @ vs3, det0 @ det2, flag \<and> \<not> blocked)))"

definition cycle_key :: "string \<Rightarrow> int \<Rightarrow> string \<Rightarrow> string" where
  "cycle_key cid n what = key_of cid (''cycle:'' @ int_str n @ '':'' @ what)"

definition cycle_closed_row :: "attempt \<Rightarrow> string \<Rightarrow> string \<Rightarrow> instant \<Rightarrow> db \<Rightarrow> db" where
  "cycle_closed_row a cid actor now d =
     record_event cid (cycle_key cid (a_cycle_no a) ''closed'') ''cycle_closed''
       [(''cycle_no'', PInt (a_cycle_no a)), (''outcome'', outcome_str (a_outcome a)),
        (''eval_status'', PStr (eval_status_str (a_eval_status a))), (''dev_score'', opt_float (a_dev_score a)),
        (''tokens'', opt_int (a_tokens a))] actor now d"

definition after_close :: "string \<Rightarrow> string \<Rightarrow> verdict option \<Rightarrow> int \<Rightarrow> pins option \<Rightarrow> instant \<Rightarrow> db \<Rightarrow> db" where
  "after_close cid aid verdict delta pins now d =
     (case (get_campaign cid d, get_attempt aid d) of
        (Some c, Some a) \<Rightarrow>
          let (d1, c1, ok, strategy_change) = write_plan (close_plan a verdict delta pins) SYSTEM_ACTOR now c d;
              d2 = cycle_closed_row a cid SYSTEM_ACTOR now d1;
              d3 = (if a_kind a \<noteq> RetroKind \<and> c_status c1 = Active \<and> 0 < c_cycles_run c1
                       \<and> c_cycles_run c1 mod RETRO_EVERY_CYCLES = 0
                    then request_report c1 ''progress'' Active None d2 else d2)
          in if strategy_change then
               record_event cid (cycle_key cid (a_cycle_no a) ''strategy_change'') ''strategy_change''
                 [(''cycle_no'', PInt (a_cycle_no a)), (''window'', PInt (int PLATEAU_WINDOW))] SYSTEM_ACTOR now d3
             else d3
      | _ \<Rightarrow> d)"

definition add_tokens_plan :: "int \<Rightarrow> plan" where
  "add_tokens_plan delta c = Inr (None, [ColTokens (c_tokens_used c + delta)], [], False)"

definition add_tokens :: "string \<Rightarrow> int \<Rightarrow> instant \<Rightarrow> db \<Rightarrow> db" where
  "add_tokens cid delta now d =
     (if delta \<le> 0 then d
      else case get_campaign cid d of
        None \<Rightarrow> d
      | Some c \<Rightarrow> fst (write_plan (add_tokens_plan delta) SYSTEM_ACTOR now c d))"

section \<open>Hooks\<close>

text \<open>Queue an attempt's evaluation; the timeout is never 0 in a validated evaluator.\<close>

definition request_eval :: "campaign \<Rightarrow> attempt \<Rightarrow> instant \<Rightarrow> db \<Rightarrow> db" where
  "request_eval c a now d =
     (let timeout = (if ev_timeout (c_evaluator c) = 0 then 600 else ev_timeout (c_evaluator c));
          d1 = upd_attempt (a_id a) (\<lambda>a. a\<lparr>a_eval_status := EvPending, a_eval_job := Some (a_id a),
                 a_eval_deadline := Some (now + seconds (timeout + EVAL_GRACE_SECONDS + EVAL_PENDING_WINDOW_SECONDS))\<rparr>) d;
          d2 = record_event (c_id c) (cycle_key (c_id c) (a_cycle_no a) ''eval_requested'') ''eval_requested''
                 [(''cycle_no'', PInt (a_cycle_no a)), (''job_id'', PStr (a_id a))] SYSTEM_ACTOR now
                 (add_mark (MarkAttempt (a_id a)) d1)
      in d2\<lparr>d_dispatches := d_dispatches d2 @ [a_id a]\<rparr>)"

text \<open>\<open>ORDER BY cycle_no DESC LIMIT 1\<close>.\<close>

fun last_cycle :: "attempt option \<Rightarrow> attempt list \<Rightarrow> attempt option" where
  "last_cycle best [] = best"
| "last_cycle best (a # as) =
     last_cycle (case best of None \<Rightarrow> Some a | Some b \<Rightarrow> if a_cycle_no b < a_cycle_no a then Some a else Some b) as"

definition attempt_of_execution :: "string \<Rightarrow> db \<Rightarrow> attempt option" where
  "attempt_of_execution xid d = last_cycle None (filter (\<lambda>a. a_execution a = Some xid) (d_attempts d))"

definition on_usage_settled :: "string \<Rightarrow> instant \<Rightarrow> db \<Rightarrow> db" where
  "on_usage_settled xid now d =
     (case attempt_of_execution xid d of
        None \<Rightarrow> d
      | Some a \<Rightarrow>
          if get_campaign (a_campaign a) d = None then d
          else let (d1, delta) = sync_tokens (a_id a) d in add_tokens (a_campaign a) delta now d1)"

text \<open>
  The body of \<open>on_execution_terminal\<close>, with the clean-up of the cycle's work as an argument.
\<close>

definition close_run ::
  "(string \<Rightarrow> db \<Rightarrow> db) \<Rightarrow> instant \<Rightarrow> string \<Rightarrow> string \<Rightarrow> outcome option \<Rightarrow> instant option \<Rightarrow> int \<Rightarrow> db \<Rightarrow> db" where
  "close_run settle now cid aid oc finished delta d =
     (case close_attempt aid oc EvSkipped finished now no_values d of
        (d1, ok) \<Rightarrow> if ok then after_close cid aid None delta None now (settle aid d1) else d1)"

definition terminal_step :: "(string \<Rightarrow> db \<Rightarrow> db) \<Rightarrow> instant \<Rightarrow> string \<Rightarrow> string \<Rightarrow> db \<Rightarrow> db" where
  "terminal_step settle now xid typ d =
     (if typ \<notin> set TERMINAL_EXECUTION_EVENTS then d
      else case attempt_of_execution xid d of
        None \<Rightarrow> d
      | Some a \<Rightarrow>
          (case get_campaign (a_campaign a) d of
             None \<Rightarrow> d
           | Some c \<Rightarrow>
               (case sync_tokens (a_id a) d of (d1, delta) \<Rightarrow>
                 let finished = (case get_exec xid d of None \<Rightarrow> None | Some x \<Rightarrow> x_finished x)
                 in if a_closed a \<noteq> None \<or> a_eval_job a \<noteq> None then
                      add_tokens (c_id c) delta now (if a_closed a \<noteq> None then settle (a_id a) d1 else d1)
                    else if a_kind a = RetroKind then
                      close_run settle now (c_id c) (a_id a)
                        (if typ = ''execution_completed'' then None else Some Unknown) finished delta d1
                    else if typ = ''execution_completed'' \<and> c_status c \<notin> set TERMINAL_STATUSES then
                      add_tokens (c_id c) delta now (request_eval c a now d1)
                    else close_run settle now (c_id c) (a_id a) (Some Unknown) finished delta d1)))"

fun on_execution_terminal ::
  "nat \<Rightarrow> assigner \<Rightarrow> instant \<Rightarrow> string \<Rightarrow> string \<Rightarrow> db \<Rightarrow> db" where
  "on_execution_terminal 0 assign now xid typ d = d"
| "on_execution_terminal (Suc n) assign now xid typ d =
     terminal_step (settle_cycle_work (on_execution_terminal n assign now) assign now typ) now xid typ d"

text \<open>The hook with enough fuel, and the operations that use it.\<close>

abbreviation terminal_hook_of ::
  "assigner \<Rightarrow> instant \<Rightarrow> terminal_hook" where
  "terminal_hook_of assign now \<equiv> on_execution_terminal 2 assign now"

abbreviation settle_work ::
  "assigner \<Rightarrow> instant \<Rightarrow> string \<Rightarrow> string \<Rightarrow> db \<Rightarrow> db" where
  "settle_work assign now \<equiv> settle_cycle_work (terminal_hook_of assign now) assign now"

section \<open>Evaluation results\<close>

record eval_frame =
  f_job :: "string option"
  f_agent :: "string option"
  f_status :: string
  f_parsed :: "(string \<times> pyval) list option"
  f_stdout :: "string option"
  f_stderr :: "string option"
  f_error :: "string option"
  f_pins :: "pins option"

text \<open>\<open>s[-n:]\<close> for a positive \<open>n\<close>.\<close>

definition last_chars :: "nat \<Rightarrow> string \<Rightarrow> string" where
  "last_chars n s = drop (length s - n) s"

definition or_empty :: "string option \<Rightarrow> string" where
  "or_empty s = (case s of None \<Rightarrow> [] | Some v \<Rightarrow> v)"

definition eval_excerpt :: "eval_frame \<Rightarrow> string" where
  "eval_excerpt f =
     (let out = last_chars (EXCERPT_CHARS div 2) (or_empty (f_stdout f));
          err = last_chars (EXCERPT_CHARS div 2) (or_empty (f_stderr f));
          e1 = (if err = [] then out else out @ CHR 0x0A # ''--- stderr ---'' @ CHR 0x0A # err);
          e2 = (if truthy (f_error f) then ''['' @ the (f_error f) @ ''] '' @ e1 else e1)
      in last_chars EXCERPT_CHARS e2)"

definition wrong_machine :: "string option \<Rightarrow> eval_frame \<Rightarrow> campaign \<Rightarrow> db \<Rightarrow> bool" where
  "wrong_machine machine f c d \<longleftrightarrow>
     (case machine of
        None \<Rightarrow> False
      | Some m \<Rightarrow>
          (case (case c_agent c of None \<Rightarrow> None | Some g \<Rightarrow> get_agent g d) of
             None \<Rightarrow> True
           | Some g \<Rightarrow> g_machine g \<noteq> Some m \<or> f_agent f \<noteq> c_agent c))"

text \<open>
  The verdict of a result: an unreported run is judged, but only as \<open>no_record\<close>.
\<close>

definition judged_verdict :: "attempt \<Rightarrow> verdict \<Rightarrow> verdict" where
  "judged_verdict a v =
     (if a_recorded_at a = None \<and> v_outcome v \<in> set JUDGED_OUTCOMES then v\<lparr>v_outcome := NoRecord\<rparr> else v)"

definition attempt_of_job :: "string option \<Rightarrow> db \<Rightarrow> attempt option" where
  "attempt_of_job job d =
     (case job of
        None \<Rightarrow> None
      | Some j \<Rightarrow> if j = [] then None else find (\<lambda>a. a_eval_job a = Some j) (d_attempts d))"

definition late_result :: "campaign \<Rightarrow> attempt \<Rightarrow> eval_frame \<Rightarrow> instant \<Rightarrow> db \<Rightarrow> db" where
  "late_result c a f now d =
     record_event (c_id c) (key_of (c_id c) (''job:'' @ or_empty (f_job f) @ '':late'')) ''late_eval_result''
       [(''cycle_no'', PInt (a_cycle_no a)), (''status'', PStr (f_status f)),
        (''score'', dget (case f_parsed f of None \<Rightarrow> [] | Some p \<Rightarrow> p) (ev_score_key (c_evaluator c)))]
       SYSTEM_ACTOR now d"

definition eval_values :: "verdict \<Rightarrow> eval_frame \<Rightarrow> instant \<Rightarrow> attempt \<Rightarrow> attempt" where
  "eval_values v f now a =
     a\<lparr>a_dev_score := v_dev_score v, a_valid := v_valid v, a_metrics := f_parsed f,
       a_excerpt := Some (eval_excerpt f), a_eval_finished := Some now\<rparr>"

definition best_score :: "campaign \<Rightarrow> db \<Rightarrow> pyfloat option" where
  "best_score c d =
     (case (case c_best c of None \<Rightarrow> None | Some b \<Rightarrow> get_attempt b d) of
        None \<Rightarrow> None | Some b \<Rightarrow> a_dev_score b)"

definition on_eval_result ::
  "assigner \<Rightarrow> eval_frame \<Rightarrow> string option \<Rightarrow> instant \<Rightarrow> db
   \<Rightarrow> camp_exc + (db \<times> string)" where
  "on_eval_result assign f machine now d =
     (case attempt_of_job (f_job f) d of
        None \<Rightarrow> Inr (d, ''unknown_job'')
      | Some a \<Rightarrow>
          (case get_campaign (a_campaign a) d of
             None \<Rightarrow> Inr (d, ''unknown_job'')
           | Some c \<Rightarrow>
               if wrong_machine machine f c d then Inr (d, ''wrong_machine'')
               else if a_closed a \<noteq> None \<or> a_eval_status a \<notin> {EvPending, EvRunning}
                 then Inr (late_result c a f now d, ''late'')
               else bindE (lift_py (classify (c_metric c) (ev_score_key (c_evaluator c)) (f_status f) (f_parsed f)
                             (best_score c d))) (\<lambda>v0.
                 let v = judged_verdict a v0
                 in case close_attempt (a_id a) (Some (v_outcome v)) (v_eval_status v) (Some now) now
                           (eval_values v f now) d of
                      (d1, ok) \<Rightarrow>
                        if \<not> ok then Inr (d1, ''late'')
                        else
                          let (d2, delta) = sync_tokens (a_id a) d1;
                              d3 = settle_work assign now CYCLE_CLOSED_REASON (a_id a) d2;
                              ended = (case get_campaign (c_id c) d3 of
                                         None \<Rightarrow> False | Some c1 \<Rightarrow> c_status c1 \<in> set TERMINAL_STATUSES);
                              same = (a_eval_digest a = Some (evaluator_digest (Some (c_evaluator c))));
                              d4 = after_close (c_id c) (a_id a) (if ended then None else Some v) delta
                                     (if f_status f \<noteq> ''invalid'' \<and> same then f_pins f else None) now d3
                          in Inr (d4, if ended then ''recorded'' else ''judged''))))"

section \<open>Closing without a result\<close>

definition timed_out_verdict :: verdict where
  "timed_out_verdict = \<lparr>v_outcome = EvalFailed, v_eval_status = EvTimedOut, v_dev_score = None, v_valid = None\<rparr>"

definition timeout_excerpt :: "attempt \<Rightarrow> string" where
  "timeout_excerpt a =
     take EXCERPT_CHARS
       (if a_eval_status a = EvPending then
          ''[server] the machine never accepted the evaluation before the deadline''
          @ (if truthy (a_excerpt a) then ''; '' @ the (a_excerpt a) else [])
        else ''[server] no evaluation result before the deadline'')"

definition expire_eval :: "assigner \<Rightarrow> instant \<Rightarrow> attempt \<Rightarrow> db \<times> string list \<Rightarrow> db \<times> string list" where
  "expire_eval assign now a s =
     (case s of (d, expired) \<Rightarrow>
        (case get_campaign (a_campaign a) d of
           None \<Rightarrow> (d, expired)
         | Some c \<Rightarrow>
             (case close_attempt (a_id a) (Some EvalFailed) EvTimedOut (Some now) now
                     (\<lambda>r. r\<lparr>a_eval_finished := Some now, a_excerpt := Some (timeout_excerpt a)\<rparr>) d of
                (d1, ok) \<Rightarrow>
                  if \<not> ok then (d1, expired)
                  else
                    let d2 = record_event (c_id c) (cycle_key (c_id c) (a_cycle_no a) ''eval_timed_out'') ''eval_timed_out''
                               [(''cycle_no'', PInt (a_cycle_no a)), (''job_id'', opt_str (a_eval_job a)),
                                (''stage'', PStr (eval_status_str (a_eval_status a)))] SYSTEM_ACTOR now d1;
                        (d3, delta) = sync_tokens (a_id a) d2;
                        d4 = settle_work assign now CYCLE_CLOSED_REASON (a_id a) d3;
                        ended = (case get_campaign (c_id c) d4 of
                                   None \<Rightarrow> False | Some c1 \<Rightarrow> c_status c1 \<in> set TERMINAL_STATUSES)
                    in (after_close (c_id c) (a_id a) (if ended then None else Some timed_out_verdict) delta None now d4,
                        expired @ [a_id a]))))"

definition expire_eval_deadlines :: "assigner \<Rightarrow> instant \<Rightarrow> db \<Rightarrow> db \<times> string list" where
  "expire_eval_deadlines assign now d =
     fold (expire_eval assign now)
       (filter (\<lambda>a. a_closed a = None \<and> a_eval_job a \<noteq> None \<and> a_eval_status a \<in> {EvPending, EvRunning}
            \<and> (case a_eval_deadline a of None \<Rightarrow> False | Some t \<Rightarrow> t \<le> now)) (d_attempts d)) (d, [])"

definition close_unknown ::
  "assigner \<Rightarrow> instant \<Rightarrow> string \<Rightarrow> instant option \<Rightarrow> attempt \<Rightarrow> db \<Rightarrow> db \<times> bool" where
  "close_unknown assign now reason finished a d =
     (case get_campaign (a_campaign a) d of
        None \<Rightarrow> (d, False)
      | Some c \<Rightarrow>
          (case sync_tokens (a_id a) d of (d1, delta) \<Rightarrow>
           (case close_attempt (a_id a) (Some Unknown) EvSkipped finished now no_values d1 of (d2, ok) \<Rightarrow>
              if \<not> ok then (d2, False)
              else
                let d3 = record_event (c_id c) (cycle_key (c_id c) (a_cycle_no a) ''unknown'') ''cycle_unknown''
                           [(''cycle_no'', PInt (a_cycle_no a)), (''reason'', PStr reason)] SYSTEM_ACTOR now d2;
                    d4 = settle_work assign now reason (a_id a) d3
                in (after_close (c_id c) (a_id a) None delta None now d4, True))))"

definition on_cycle_task_closed ::
  "assigner \<Rightarrow> instant \<Rightarrow> string \<Rightarrow> task_row \<Rightarrow> db \<Rightarrow> db \<times> bool" where
  "on_cycle_task_closed assign now reason task d =
     (case open_attempt_for_task task d of
        None \<Rightarrow> (d, False)
      | Some a \<Rightarrow>
          if a_eval_job a \<noteq> None then (d, False)
          else close_unknown assign now reason (k_finished task) a d)"

section \<open>Stopping\<close>

definition stop_plan :: "string \<Rightarrow> string option \<Rightarrow> plan" where
  "stop_plan stop_reason reason c =
     (if \<not> legal (c_status c) TStop then Inr (None, [], [], False)
      else Inr (Some TStop, [ColStopReason (Some stop_reason)],
        (''stop_reason'', PStr stop_reason) # (if truthy reason then [(''reason'', opt_str reason)] else []), False))"

definition stop_campaign ::
  "assigner \<Rightarrow> instant \<Rightarrow> string \<Rightarrow> string \<Rightarrow> string option \<Rightarrow> campaign \<Rightarrow> db
   \<Rightarrow> db \<times> bool" where
  "stop_campaign assign now actor stop_reason reason c d =
     (if c_status c \<in> set TERMINAL_STATUSES then (d, False)
      else case write_plan (stop_plan stop_reason reason) actor now c d of
        (d1, c1, ok, _) \<Rightarrow>
          if c_status c1 \<noteq> Stopped then (d1, False)
          else (fold (\<lambda>a d. fst (close_unknown assign now (''campaign_stopped:'' @ stop_reason) None a d))
                  (open_attempts (c_id c) d1) d1, True))"

definition stop_for_room :: "assigner \<Rightarrow> instant \<Rightarrow> string \<Rightarrow> string \<Rightarrow> db \<Rightarrow> db \<times> bool" where
  "stop_for_room assign now actor cid d =
     (case get_campaign cid d of
        None \<Rightarrow> (d, False)
      | Some c \<Rightarrow> stop_campaign assign now actor ''room_archived'' None c d)"

definition stop_room_campaigns :: "assigner \<Rightarrow> instant \<Rightarrow> string \<Rightarrow> string \<Rightarrow> db \<Rightarrow> db \<times> string list" where
  "stop_room_campaigns assign now actor rid d =
     fold (\<lambda>cid s. case stop_for_room assign now actor cid (fst s) of
             (d1, ok) \<Rightarrow> (d1, if ok then snd s @ [cid] else snd s))
       (map c_id (filter (\<lambda>c. c_room c = rid \<and> c_status c \<notin> set TERMINAL_STATUSES) (d_campaigns d))) (d, [])"

text \<open>The safety net of the scheduler's tick, one campaign or open attempt at a time.\<close>

definition room_archived :: "campaign \<Rightarrow> db \<Rightarrow> bool" where
  "room_archived c d \<longleftrightarrow> (case get_room (c_room c) d of None \<Rightarrow> False | Some r \<Rightarrow> r_archived r \<noteq> None)"

definition reconcile_attempt ::
  "assigner \<Rightarrow> instant \<Rightarrow> string \<Rightarrow> db \<times> nat \<Rightarrow> db \<times> nat" where
  "reconcile_attempt assign now aid s =
     (case s of (d, n) \<Rightarrow>
        (case get_attempt aid d of
           None \<Rightarrow> (d, n)
         | Some a \<Rightarrow>
             (case a_execution a of
                Some xid \<Rightarrow>
                  (case get_exec xid d of
                     None \<Rightarrow> (d, n)
                   | Some x \<Rightarrow>
                       if x_status x \<in> set OPEN_EXECUTION_STATES then (d, n)
                       else (on_execution_terminal 2 assign now xid
                               (if x_status x = XCompleted then ''execution_completed'' else ''execution_cancelled'') d,
                             n + 1))
              | None \<Rightarrow>
                  (let task = (case a_task a of None \<Rightarrow> None | Some t \<Rightarrow> get_task t d);
                       reason = (case task of
                                   None \<Rightarrow> Some ''cycle_task_deleted''
                                 | Some k \<Rightarrow>
                                     if k_status k \<in> set TASK_TERMINAL_STATUSES then Some ''cycle_task_closed''
                                     else if k_assignee k = None then Some ''cycle_task_unassigned'' else None)
                   in case reason of
                        None \<Rightarrow> (d, n)
                      | Some r \<Rightarrow>
                          (case close_unknown assign now r (case task of None \<Rightarrow> None | Some k \<Rightarrow> k_finished k) a d of
                             (d1, ok) \<Rightarrow> (d1, if ok then n + 1 else n))))))"

definition reconcile_open_cycles :: "assigner \<Rightarrow> instant \<Rightarrow> db \<Rightarrow> db \<times> nat" where
  "reconcile_open_cycles assign now d =
     (let archived = map c_id (filter (\<lambda>c. room_archived c d \<and> c_status c \<notin> set TERMINAL_STATUSES) (d_campaigns d));
          (d1, n1) = fold (\<lambda>cid s. case stop_for_room assign now SYSTEM_ACTOR cid (fst s) of
                (d1, ok) \<Rightarrow> (d1, if ok then snd s + 1 else snd s)) archived (d, 0)
      in fold (reconcile_attempt assign now)
           (map a_id (filter (\<lambda>a. a_closed a = None \<and> a_eval_job a = None) (d_attempts d1))) (d1, n1))"

definition cycle_task_is_open :: "task_row \<Rightarrow> bool" where
  "cycle_task_is_open k \<longleftrightarrow> k_campaign k \<noteq> None \<and> k_status k \<notin> set TASK_TERMINAL_STATUSES"

section \<open>Frames\<close>

lemma apply_transition_world:
  "apply_transition c e actor now det k ex vs d = Inr (d1, c1, ok) \<Longrightarrow> same_world d d1"
  by (erule apply_transition_cases) simp_all

lemma write_once_world: "write_once p actor now c d = Inr (d1, c1, ok, flag) \<Longrightarrow> same_world d d1"
  unfolding write_once_def
  by (auto simp: bindE_Inr_iff dest: apply_transition_world cas_update_world split: option.splits if_splits)

lemma raise_in_frame [simp]:
  "same_world d (raise_in e d)" "d_campaigns (raise_in e d) = d_campaigns d" "d_events (raise_in e d) = d_events d"
  by (simp_all add: raise_in_def same_world_def)

lemma write_tries_world: "same_world d (fst (write_tries n p actor now c d))"
proof (induction n arbitrary: c d)
  case (Suc n)
  show ?case
  proof (cases "write_once p actor now c d")
    case (Inr r)
    obtain d1 c1 ok flag where r: "r = (d1, c1, ok, flag)" by (cases r)
    with Inr have w: "same_world d d1" using write_once_world by blast
    with Suc.IH [where c = "refresh c1 d1" and d = d1] have "same_world d (fst (write_tries n p actor now (refresh c1 d1) d1))"
      by (rule same_world_trans [rotated])
    with w Inr r show ?thesis by simp
  qed simp
qed simp

lemma write_plan_world: "write_plan p actor now c d = (d1, c1, ok, flag) \<Longrightarrow> same_world d d1"
  using write_tries_world [of d 3 p actor now c] by (simp add: write_plan_def)

lemma after_close_world: "same_world d (after_close cid aid v delta pins now d)"
proof (cases "get_campaign cid d = None \<or> get_attempt aid d = None")
  case True
  then show ?thesis by (auto simp: after_close_def split: option.splits)
next
  case False
  then obtain c a where ca: "get_campaign cid d = Some c" "get_attempt aid d = Some a" by auto
  obtain d1 c1 ok fl where w: "write_plan (close_plan a v delta pins) SYSTEM_ACTOR now c d = (d1, c1, ok, fl)"
    by (metis prod_cases4)
  from write_plan_world [OF w] show ?thesis
    by (simp add: after_close_def ca w Let_def cycle_closed_row_def same_world_def)
qed

lemma add_tokens_world: "same_world d (add_tokens cid delta now d)"
  using write_tries_world by (auto simp: add_tokens_def write_plan_def split: option.split)

lemma same_world_keeps: "same_world d d' \<Longrightarrow> keeps d d'"
  by (intro same_stops_keeps) (simp add: same_world_def same_stops_def)

section \<open>The fuel of the hook\<close>

lemma plain_event_hook:
  assumes "typ \<notin> set TERMINAL_EXECUTION_EVENTS"
  shows "execution_event h1 xid key typ t det d = execution_event h2 xid key typ t det d"
  using assms by (simp add: execution_event_def)

lemma settle_same_hook:
  assumes "\<And>typ e x. get_exec xid e = Some x \<Longrightarrow> x_status x \<in> set ENDED_EXECUTION \<Longrightarrow>
      d_attempts e = d_attempts d \<Longrightarrow> h1 xid typ e = h2 xid typ e"
  shows "settle_execution_mutation h1 assign now xid d = settle_execution_mutation h2 assign now xid d"
proof -
  have plain: "execution_event h1 i k t tk det e = execution_event h2 i k t tk det e"
    if "t \<notin> set TERMINAL_EXECUTION_EVENTS" for i k t tk det e
    using that by (rule plain_event_hook)
  have block: "block_revision h1 x mu c now e = block_revision h2 x mu c now e" for x mu c e
    unfolding block_revision_def by (rule plain) simp
  have fin: "finish_mutation h1 x mu now d2 = finish_mutation h2 x mu now d2"
    if x: "get_exec xid d = Some x" and d2: "(if mu_action mu = MRevise then assign_lead assign x mu (upd_exec xid (settle_row mu now) d)
        else Some (upd_exec xid (settle_row mu now) d)) = Some d2" for x mu d2
  proof (cases "mu_action mu = MRevise")
    case True
    then show ?thesis unfolding finish_mutation_def Let_def
      by (intro plain) (simp add: applied_event_def TERMINAL_EXECUTION_EVENTS_def)
  next
    case False
    have id: "x_id x = xid" using x by (rule executions.get_key)
    have ended: "settled_status (mu_action mu) \<in> set ENDED_EXECUTION"
      using False by (cases "mu_action mu") (simp_all add: settled_status_def ENDED_EXECUTION_def)
    let ?d = "row_upd d_mutations_update mu_id (mu_id mu) (\<lambda>m. m\<lparr>mu_phase := Applied, mu_completed := Some now\<rparr>) d2"
    let ?e = "if mu_action mu \<in> {MDeadline, MLimit} then fail_root_task mu now ?d else ?d"
    have "d_executions ?e = d_executions d2" "d_attempts ?e = d_attempts d2"
      by (simp_all add: fail_root_task_def split: option.split)
    moreover have "d_executions d2 = tupd x_id xid (settle_row mu now) (d_executions d)" "d_attempts d2 = d_attempts d"
      using d2 False by auto
    ultimately have att: "d_attempts (?e\<lparr>d_exec_events := es\<rparr>) = d_attempts d"
      and "get_exec xid (?e\<lparr>d_exec_events := es\<rparr>) = Some (settle_row mu now x)" for es
      using x by (simp_all add: row_get_def tget_tupd settle_row_def)
    note att
    moreover from \<open>\<And>es. get_exec xid (?e\<lparr>d_exec_events := es\<rparr>) = Some (settle_row mu now x)\<close>
    have "get_exec xid (?e\<lparr>d_exec_events := es\<rparr>) = Some (settle_row mu now x)" for es
      .
    moreover have "x_status (settle_row mu now x) \<in> set ENDED_EXECUTION" using ended by (simp add: settle_row_def)
    ultimately have "h1 xid t (?e\<lparr>d_exec_events := es\<rparr>) = h2 xid t (?e\<lparr>d_exec_events := es\<rparr>)" for es t
      using assms by blast
    then show ?thesis unfolding finish_mutation_def Let_def execution_event_def id by simp
  qed
  show ?thesis
  proof (cases "get_exec xid d")
    case (Some x)
    show ?thesis
      unfolding settle_execution_mutation_def Some option.case block Let_def
      by (intro if_cong refl option.case_cong) (use fin [OF Some] block in auto)
  qed (simp add: settle_execution_mutation_def)
qed

lemma cancel_same_hook:
  assumes "\<And>typ e x. get_exec xid e = Some x \<Longrightarrow> x_status x \<in> set ENDED_EXECUTION \<Longrightarrow>
      d_attempts e = d_attempts d \<Longrightarrow> h1 xid typ e = h2 xid typ e"
  shows "cancel_cycle_execution h1 assign now xid reason d = cancel_cycle_execution h2 assign now xid reason d"
proof -
  have req: "request_cancel h1 now x reason d = request_cancel h2 now x reason d" for x
    unfolding request_cancel_def Let_def
    by (subst plain_event_hook [where ?h2.0 = h2]) simp_all
  have att: "d_attempts (fence_execution_turns xid mu now e) = d_attempts e" for mu e
  proof -
    have "d_attempts (fence_attempt xid mu now tn ta e) = d_attempts e" for tn ta e
      by (simp add: fence_attempt_def draw_uuid_def Let_def split: option.split)
    then have f: "d_attempts (fold (fence_attempt xid mu now tn) tas e) = d_attempts e" for tn tas e
      by (induction tas arbitrary: e) simp_all
    have "d_attempts (fence_turn xid mu now tn e) = d_attempts e" for tn e
      by (simp add: fence_turn_def Let_def f)
    then have "d_attempts (fold (fence_turn xid mu now) tns e) = d_attempts e" for tns e
      by (induction tns arbitrary: e) simp_all
    then show ?thesis by (simp add: fence_execution_turns_def)
  qed
  have att2: "d_attempts (snd (request_cancel h2 now x reason d)) = d_attempts d" for x
    by (simp add: request_cancel_def execution_event_def draw_uuid_def Let_def)
  show ?thesis
    unfolding cancel_cycle_execution_def req
    by (auto simp: Let_def att att2 intro!: settle_same_hook arg_cong [where f = fst] assms
        split: option.split prod.split) (metis att att2 snd_conv)
qed

lemma settle_cycle_work_ended:
  assumes "get_attempt aid d = Some a" and "a_execution a = Some xid"
    and "get_exec xid d = Some x" and "x_status x \<in> set ENDED_EXECUTION"
  shows "settle_cycle_work h assign now r aid d =
    (case a_task a of None \<Rightarrow> d | Some tid \<Rightarrow> fail_cycle_task tid r now d)"
proof -
  have "x_status x \<notin> set CANCELLABLE_EXECUTION_STATES" "x_status x \<notin> set OPEN_EXECUTION_STATES"
    using assms(4) by (auto simp: ENDED_EXECUTION_def CANCELLABLE_EXECUTION_STATES_def OPEN_EXECUTION_STATES_def)
  then show ?thesis
    using assms(1-3) by (simp add: settle_cycle_work_def cancel_cycle_execution_def Let_def)
qed

definition attempts_wf :: "db \<Rightarrow> bool" where
  "attempts_wf d \<longleftrightarrow> distinct (map a_id (d_attempts d))"

lemma last_cycle_mem: "last_cycle best as = Some a \<Longrightarrow> a \<in> set as \<or> best = Some a"
  by (induction best as rule: last_cycle.induct) (auto split: option.splits if_splits)

lemma attempt_of_execution_get:
  assumes "attempts_wf d" and "attempt_of_execution xid d = Some a"
  shows "get_attempt (a_id a) d = Some a \<and> a_execution a = Some xid"
proof -
  from assms(2) have "a \<in> set (d_attempts d)" "a_execution a = Some xid"
    using last_cycle_mem unfolding attempt_of_execution_def by fastforce+
  then show ?thesis using assms(1) attempts.get_distinct by (auto simp: attempts_wf_def)
qed

lemma sync_tokens_cases:
  assumes "sync_tokens aid d = (d1, delta)"
  obtains (same) "d1 = d" "delta = 0"
    | (more) a xid n where "get_attempt aid d = Some a" "a_execution a = Some xid" "map_of (d_usage d) xid = Some n"
        "or_zero (a_tokens a) < n" "delta = n - or_zero (a_tokens a)"
        "d1 = upd_attempt aid (\<lambda>a. a\<lparr>a_tokens := Some n\<rparr>) d"
proof (cases "get_attempt aid d")
  case None
  with assms show ?thesis by (intro same) (simp_all add: sync_tokens_def)
next
  case a: (Some a)
  show ?thesis
  proof (cases "case a_execution a of None \<Rightarrow> None | Some xid \<Rightarrow> map_of (d_usage d) xid")
    case None
    with a assms show ?thesis by (intro same) (simp_all add: sync_tokens_def)
  next
    case n: (Some n)
    then obtain xid where x: "a_execution a = Some xid" "map_of (d_usage d) xid = Some n"
      by (cases "a_execution a") auto
    show ?thesis
    proof (cases "n \<le> or_zero (a_tokens a)")
      case True
      with a n assms show ?thesis by (intro same) (simp_all add: sync_tokens_def Let_def)
    next
      case False
      then have lt: "or_zero (a_tokens a) < n" by simp
      with a n assms have "d1 = upd_attempt aid (\<lambda>a. a\<lparr>a_tokens := Some n\<rparr>) d" "delta = n - or_zero (a_tokens a)"
        by (simp_all add: sync_tokens_def)
      with a x lt show ?thesis by (intro more)
    qed
  qed
qed

lemma sync_tokens_facts:
  assumes "sync_tokens aid d = (d1, delta)"
  shows "d_executions d1 = d_executions d" "map a_id (d_attempts d1) = map a_id (d_attempts d)" "0 \<le> delta"
    "get_attempt aid d = Some a \<Longrightarrow> \<exists>n. get_attempt aid d1 = Some (a\<lparr>a_tokens := n\<rparr>)"
proof -
  have "d_executions d1 = d_executions d \<and> map a_id (d_attempts d1) = map a_id (d_attempts d) \<and> 0 \<le> delta \<and>
      (\<forall>a. get_attempt aid d = Some a \<longrightarrow> (\<exists>n. get_attempt aid d1 = Some (a\<lparr>a_tokens := n\<rparr>)))"
  proof (cases "d1 = d \<and> delta = 0")
    case True
    have "\<exists>n. a = a\<lparr>a_tokens := n\<rparr>" for a :: attempt by (rule exI [where x = "a_tokens a"]) simp
    then have "\<forall>a. get_attempt aid d = Some a \<longrightarrow> (\<exists>n. get_attempt aid d = Some (a\<lparr>a_tokens := n\<rparr>))"
      by metis
    with True show ?thesis by simp
  next
    case False
    from sync_tokens_cases [OF assms] False
    obtain n where "d1 = upd_attempt aid (\<lambda>a. a\<lparr>a_tokens := n\<rparr>) d" "0 \<le> delta" by (cases; simp)
    then have e: "d1 = upd_attempt aid (\<lambda>a. a\<lparr>a_tokens := n\<rparr>) d" and "0 \<le> delta" by simp_all
    moreover have "map a_id (d_attempts d1) = map a_id (d_attempts d)" unfolding e by (simp add: map_key_tupd)
    moreover have "get_attempt aid d1 = Some (a\<lparr>a_tokens := n\<rparr>)" if "get_attempt aid d = Some a" for a
      using that unfolding e by (simp add: row_get_def tget_tupd)
    ultimately show ?thesis by auto
  qed
  then show "d_executions d1 = d_executions d" "map a_id (d_attempts d1) = map a_id (d_attempts d)" "0 \<le> delta"
    "get_attempt aid d = Some a \<Longrightarrow> \<exists>n. get_attempt aid d1 = Some (a\<lparr>a_tokens := n\<rparr>)"
    by blast+
qed

lemma close_attempt_facts:
  assumes "close_attempt aid oc evs fin now f d = (d1, ok)" and "\<And>a. a_id (f a) = a_id a"
  shows "d_executions d1 = d_executions d" "map a_id (d_attempts d1) = map a_id (d_attempts d)"
  using assms by (auto simp: close_attempt_def map_key_tupd split: option.splits if_splits)

lemma close_attempt_row:
  assumes "close_attempt aid oc evs fin now f d = (d1, True)" and "\<And>a. a_id (f a) = a_id a"
  obtains a where "get_attempt aid d = Some a" "a_closed a = None"
    "get_attempt aid d1 = Some ((f a)\<lparr>a_closed := Some (cycle_closed_at fin (a_opened a) now),
                    a_outcome := oc, a_eval_status := evs\<rparr>)"
    "d_attempts d1 = tupd a_id aid (\<lambda>a. (f a)\<lparr>a_closed := Some (cycle_closed_at fin (a_opened a) now),
                    a_outcome := oc, a_eval_status := evs\<rparr>) (d_attempts d)"
    "d_campaigns d1 = d_campaigns d"
  using assms by (auto simp: close_attempt_def row_get_def tget_tupd split: option.splits if_splits)

lemma settle_hook_indep:
  assumes "attempts_wf d"
    and "\<And>xid typ e x. get_exec xid e = Some x \<Longrightarrow> x_status x \<in> set ENDED_EXECUTION \<Longrightarrow> attempts_wf e
      \<Longrightarrow> h1 xid typ e = h2 xid typ e"
  shows "settle_cycle_work h1 assign now r aid d = settle_cycle_work h2 assign now r aid d"
proof -
  have "cancel_cycle_execution h1 assign now xid reason d = cancel_cycle_execution h2 assign now xid reason d" for xid reason
    using assms by (intro cancel_same_hook) (auto simp: attempts_wf_def)
  then show ?thesis unfolding settle_cycle_work_def by (simp only:)
qed

text \<open>Two clean-ups that agree on the databases the hook reaches give the same hook.\<close>

lemma terminal_step_cong:
  assumes "\<And>a d1 delta. attempt_of_execution xid d = Some a \<Longrightarrow> sync_tokens (a_id a) d = (d1, delta) \<Longrightarrow>
      s1 (a_id a) d1 = s2 (a_id a) d1"
    and "\<And>a d1 delta oc fin d2. attempt_of_execution xid d = Some a \<Longrightarrow> sync_tokens (a_id a) d = (d1, delta) \<Longrightarrow>
      close_attempt (a_id a) oc EvSkipped fin now no_values d1 = (d2, True) \<Longrightarrow> s1 (a_id a) d2 = s2 (a_id a) d2"
  shows "terminal_step s1 now xid typ d = terminal_step s2 now xid typ d"
proof (cases "attempt_of_execution xid d")
  case (Some a)
  obtain d1 delta where sy: "sync_tokens (a_id a) d = (d1, delta)" by (cases "sync_tokens (a_id a) d")
  have run: "close_run s1 now cid (a_id a) oc fin delta d1 = close_run s2 now cid (a_id a) oc fin delta d1" for cid oc fin
    using assms(2) [OF Some sy] by (cases "close_attempt (a_id a) oc EvSkipped fin now no_values d1")
      (auto simp: close_run_def)
  show ?thesis
    using assms(1) [OF Some sy] by (simp add: terminal_step_def Some sy run split: option.split)
qed (simp add: terminal_step_def)

lemma on_terminal_ended:
  assumes "attempts_wf d" and "get_exec xid d = Some x" and "x_status x \<in> set ENDED_EXECUTION"
  shows "on_execution_terminal (Suc n) assign now xid typ d = on_execution_terminal (Suc 0) assign now xid typ d"
  unfolding on_execution_terminal.simps(2)
proof (rule terminal_step_cong)
  fix a d1 delta
  assume a: "attempt_of_execution xid d = Some a" and sy: "sync_tokens (a_id a) d = (d1, delta)"
  obtain k where a1: "get_attempt (a_id a) d1 = Some (a\<lparr>a_tokens := k\<rparr>)" and ax: "a_execution a = Some xid"
    using attempt_of_execution_get [OF assms(1) a] sync_tokens_facts(4) [OF sy] by blast
  have ex1: "get_exec xid d1 = Some x" using sync_tokens_facts(1) [OF sy] assms(2) by (simp add: row_get_def)
  show "settle_cycle_work (on_execution_terminal n assign now) assign now typ (a_id a) d1
      = settle_cycle_work (on_execution_terminal 0 assign now) assign now typ (a_id a) d1"
    using settle_cycle_work_ended [OF a1 _ ex1 assms(3)] ax by simp
  fix oc fin d2
  assume c: "close_attempt (a_id a) oc EvSkipped fin now no_values d1 = (d2, True)"
  then obtain a2 where a2: "get_attempt (a_id a) d2 = Some a2" "a_execution a2 = Some xid"
    by (rule close_attempt_row) (auto simp: no_values_def a1 ax)
  have "get_exec xid d2 = Some x"
    using close_attempt_facts(1) [OF c] ex1 by (simp add: row_get_def no_values_def)
  from settle_cycle_work_ended [OF a2 this assms(3)]
  show "settle_cycle_work (on_execution_terminal n assign now) assign now typ (a_id a) d2
      = settle_cycle_work (on_execution_terminal 0 assign now) assign now typ (a_id a) d2" by simp
qed

text \<open>
  C26. Two levels of fuel are enough for the mutual recursion of the end-of-run hook and the
  cancellation: with any more fuel the hook does exactly the same, because the execution has
  already ended when the cancellation calls the hook again.
\<close>

theorem hook_fuel_enough:
  assumes "attempts_wf d"
  shows "on_execution_terminal (n + 2) assign now xid typ d = on_execution_terminal 2 assign now xid typ d"
proof -
  let ?h = "\<lambda>n. on_execution_terminal (Suc n) assign now"
  have eq: "settle_cycle_work (?h n) assign now r aid e = settle_cycle_work (?h 0) assign now r aid e"
    if "attempts_wf e" for r aid e
    using that by (rule settle_hook_indep) (rule on_terminal_ended)
  have "terminal_step (settle_cycle_work (?h n) assign now typ) now xid typ d
      = terminal_step (settle_cycle_work (?h 0) assign now typ) now xid typ d"
  proof (rule terminal_step_cong)
    fix a d1 delta
    assume sy: "sync_tokens (a_id a) d = (d1, delta)"
    then have wf: "attempts_wf d1" using assms sync_tokens_facts(2) [OF sy] by (simp add: attempts_wf_def)
    then show "settle_cycle_work (?h n) assign now typ (a_id a) d1 = settle_cycle_work (?h 0) assign now typ (a_id a) d1"
      by (rule eq)
    fix oc fin d2
    assume "close_attempt (a_id a) oc EvSkipped fin now no_values d1 = (d2, True)"
    from close_attempt_facts(2) [OF this] wf have "attempts_wf d2" by (simp add: attempts_wf_def no_values_def)
    then show "settle_cycle_work (?h n) assign now typ (a_id a) d2 = settle_cycle_work (?h 0) assign now typ (a_id a) d2"
      by (rule eq)
  qed
  then show ?thesis by (simp add: numeral_2_eq_2)
qed


lemma sample_attempts_wf: "attempts_wf running_db"
  by (simp add: attempts_wf_def running_db_def cycle_db_def sample_db_def)

lemma hook_fuel_enough_witness:
  "on_execution_terminal 7 (\<lambda>_ _ _. None) 9 ''x1'' ''execution_cancelled'' running_db
     = on_execution_terminal 2 (\<lambda>_ _ _. None) 9 ''x1'' ''execution_cancelled'' running_db"
  using hook_fuel_enough [where n = 5, OF sample_attempts_wf] by simp

section \<open>What the lifecycle keeps of stops and executions\<close>

lemma sync_tokens_world:
  "sync_tokens aid d = (d1, delta) \<Longrightarrow> same_stops d d1 \<and> d_campaigns d1 = d_campaigns d"
  by (erule sync_tokens_cases) (simp_all add: same_stops_def)

lemma close_attempt_world:
  "close_attempt aid oc evs fin now f d = (d1, ok) \<Longrightarrow> same_stops d d1 \<and> d_campaigns d1 = d_campaigns d"
  by (auto simp: close_attempt_def same_stops_def split: option.splits if_splits)

lemma fail_cycle_task_world: "same_stops d (fail_cycle_task tid r now d)"
  by (simp add: fail_cycle_task_def same_stops_def split: option.split)

lemma request_eval_world: "same_stops d (request_eval c a now d)"
  by (simp add: request_eval_def same_stops_def Let_def)

context stop_hook
begin

lemma request_cancel_keeps:
  assumes "get_exec (x_id x) d = Some x" and "x_status x \<in> set CANCELLABLE_EXECUTION_STATES"
  shows "keeps d (snd (request_cancel hook now x reason d))"
proof -
  let ?d1 = "upd_exec (x_id x) (\<lambda>_. x\<lparr>x_status := XCancelling, x_state_rev := x_state_rev x + 1, x_updated := now\<rparr>) d"
  have "keeps d ?d1"
    using assms by (auto simp: keeps_def stops_ok_def row_get_def tget_tupd CANCELLABLE_EXECUTION_STATES_def ENDED_EXECUTION_def)
  also have "keeps ?d1 (d_mutations_update f (?d1\<lparr>d_drawn := Suc (d_drawn ?d1)\<rparr>))" for f
    by (auto simp: keeps_def stops_ok_def row_get_def)
  also note event_keeps
  finally show ?thesis by (simp add: request_cancel_def draw_uuid_def Let_def row_add_def)
qed

lemma cancel_keeps: "keeps d (cancel_cycle_execution hook assign now xid reason d)"
proof (cases "get_exec xid d")
  case (Some x)
  have x: "get_exec (x_id x) d = Some x" using executions.get_key [OF Some] Some by simp
  show ?thesis
  proof (cases "x_status x \<in> set CANCELLABLE_EXECUTION_STATES")
    case True
    obtain mu d1 where r: "request_cancel hook now x reason d = (mu, d1)" by (cases "request_cancel hook now x reason d")
    from request_cancel_keeps [OF x True, of now reason] have "keeps d d1" by (simp add: r)
    also note fence_keeps
    also note settle_keeps
    finally show ?thesis by (simp add: cancel_cycle_execution_def Some True r)
  qed (simp add: cancel_cycle_execution_def Some)
qed (simp add: cancel_cycle_execution_def)

lemma settle_work_keeps: "keeps d (settle_cycle_work hook assign now reason aid d)"
proof (cases "get_attempt aid d")
  case (Some a)
  let ?d1 = "case a_execution a of None \<Rightarrow> d
               | Some xid \<Rightarrow> cancel_cycle_execution hook assign now xid CYCLE_CLOSED_REASON d"
  have "keeps d ?d1" by (auto simp: cancel_keeps split: option.split)
  moreover have "keeps ?d1 (fail_cycle_task tid reason now ?d1)" for tid
    by (rule same_stops_keeps) (rule fail_cycle_task_world)
  ultimately show ?thesis
    unfolding settle_cycle_work_def Some Let_def by (auto intro: keeps_trans split: option.split)
qed (simp add: settle_cycle_work_def)

end

lemma close_run_keeps:
  assumes "\<And>aid d. keeps d (settle aid d)"
  shows "keeps d (close_run settle now cid aid oc fin delta d)"
proof (cases "close_attempt aid oc EvSkipped fin now no_values d")
  case (Pair d1 ok)
  have "keeps d d1" using close_attempt_world [OF Pair] by (blast intro: same_stops_keeps)
  also note assms [of d1 aid]
  also have "keeps e (after_close cid aid None delta None now e)" for e
    by (rule same_world_keeps) (rule after_close_world)
  finally show ?thesis using \<open>keeps d d1\<close> by (simp add: close_run_def Pair)
qed

lemma terminal_step_keeps:
  assumes "\<And>aid d. keeps d (settle aid d)"
  shows "keeps d (terminal_step settle now xid typ d)"
proof (cases "attempt_of_execution xid d")
  case (Some a)
  obtain d1 delta where sy: "sync_tokens (a_id a) d = (d1, delta)" by (cases "sync_tokens (a_id a) d")
  have d1: "keeps d d1" using sync_tokens_world [OF sy] by (blast intro: same_stops_keeps)
  have tok: "keeps e (add_tokens cid n now e)" for cid n e by (rule same_world_keeps) (rule add_tokens_world)
  have req: "keeps d1 (request_eval c a now d1)" for c by (rule same_stops_keeps) (rule request_eval_world)
  note keeps_trans [OF d1 tok] keeps_trans [OF d1 keeps_trans [OF assms tok]]
    keeps_trans [OF d1 keeps_trans [OF req tok]] keeps_trans [OF d1 close_run_keeps [OF assms]]
  then show ?thesis by (simp add: terminal_step_def Some sy Let_def split: option.split)
qed (simp add: terminal_step_def)

lemma on_terminal_keeps: "keeps d (on_execution_terminal n assign now xid ty d)"
proof (induction n arbitrary: d xid ty)
  case (Suc n)
  have "stop_hook (on_execution_terminal n assign now)" using Suc by (rule stop_hook.intro)
  then show ?case unfolding on_execution_terminal.simps
    by (intro terminal_step_keeps stop_hook.settle_work_keeps)
qed simp


interpretation lifecycle: stop_hook "on_execution_terminal n assign now" for n assign now
  by unfold_locales (rule on_terminal_keeps)

text \<open>
  Everything that can happen to the stops of executions: a receipt of a machine, the expiry of
  stops nobody confirmed, a fence, the settling of a mutation, a cancellation by a closed cycle,
  and the end of a run.
\<close>

inductive stop_step :: "assigner \<Rightarrow> db \<Rightarrow> db \<Rightarrow> bool" for assign :: assigner where
  receipt: "record_stop_receipt (terminal_hook_of assign now) assign agent room body now d = Inr d' \<Longrightarrow> stop_step assign d d'"
| expire: "stop_step assign d (fst (expire_pending_stops (terminal_hook_of assign now) now d))"
| fence: "stop_step assign d (fence_execution_turns xid mu now d)"
| settle: "stop_step assign d (fst (settle_execution_mutation (terminal_hook_of assign now) assign now xid d))"
| cancel: "stop_step assign d (cancel_cycle_execution (terminal_hook_of assign now) assign now xid reason d)"
| ended: "stop_step assign d (on_execution_terminal n assign now xid ty d)"

definition stop_unsafe :: "db \<Rightarrow> string \<Rightarrow> bool" where
  "stop_unsafe d k \<longleftrightarrow> (\<forall>s. get_stop k d = Some s \<longrightarrow> st_status s \<notin> set SAFE_STOP_STATES)"

lemma expire_stop_keeps:
  assumes "stop_unsafe d (st_id row)"
  shows "keeps d (expire_stop (on_execution_terminal n assign now) row d)"
proof -
  have "keeps d (upd_stop (st_id row) (\<lambda>s. s\<lparr>st_status := StUnknown, st_error_code := Some ''STOP_RECEIPT_TIMEOUT''\<rparr>) d)"
    by (rule keeps_stop_upd) (use assms in \<open>auto simp: stop_unsafe_def\<close>)
  also note lifecycle.event_keeps
  finally show ?thesis unfolding expire_stop_def .
qed

lemma expire_stop_unsafe:
  assumes "stop_unsafe d k"
  shows "stop_unsafe (expire_stop hook row d) k"
proof -
  have "d_stops (expire_stop hook row d) = tupd st_id (st_id row)
      (\<lambda>s. s\<lparr>st_status := StUnknown, st_error_code := Some ''STOP_RECEIPT_TIMEOUT''\<rparr>) (d_stops d)"
    by (simp add: expire_stop_def execution_event_plain)
  then show ?thesis using assms
    by (auto simp: stop_unsafe_def row_get_def tget_tupd SAFE_STOP_STATES_def split: if_splits)
qed

lemma expire_keeps: "keeps d (fst (expire_pending_stops (on_execution_terminal n assign now) now d))"
proof -
  let ?f = "expire_stop (on_execution_terminal n assign now)"
  have fold: "keeps d (fold ?f rows d)" if "\<forall>r \<in> set rows. stop_unsafe d (st_id r)" for rows d
    using that
  proof (induction rows arbitrary: d)
    case (Cons r rows)
    have "keeps d (?f r d)" using Cons.prems by (intro expire_stop_keeps) simp
    also have "keeps (?f r d) (fold ?f rows (?f r d))"
      using Cons.prems by (intro Cons.IH) (auto intro: expire_stop_unsafe)
    finally show ?case by simp
  qed simp
  let ?rows = "filter (\<lambda>s. st_status s \<in> {StPending, StDelivered} \<and> st_deadline s \<le> now) (d_stops d)"
  show ?thesis
  proof (cases "stops_ok d")
    case True
    have "\<forall>r \<in> set ?rows. stop_unsafe d (st_id r)"
    proof
      fix r assume "r \<in> set ?rows"
      then have "get_stop (st_id r) d = Some r" "st_status r \<notin> set SAFE_STOP_STATES"
        using True stops.get_distinct by (auto simp: stops_ok_def SAFE_STOP_STATES_def)
      then show "stop_unsafe d (st_id r)" by (simp add: stop_unsafe_def)
    qed
    from fold [OF this] show ?thesis by (simp add: expire_pending_stops_def Let_def)
  next
    case False
    have "d_executions (fold ?f rows e) = d_executions e" for rows e
      by (induction rows arbitrary: e) (simp_all add: expire_stop_def execution_event_plain)
    with False show ?thesis by (simp add: expire_pending_stops_def Let_def keeps_def row_get_def)
  qed
qed

lemma stop_step_keeps: "stop_step assign d d' \<Longrightarrow> keeps d d'"
  by (induction rule: stop_step.induct)
     (auto intro: lifecycle.receipt_keeps lifecycle.settle_keeps lifecycle.cancel_keeps expire_keeps fence_keeps
        on_terminal_keeps)

lemma stop_steps_keep: "(stop_step assign)\<^sup>*\<^sup>* d d' \<Longrightarrow> keeps d d'"
  by (induction rule: rtranclp_induct) (auto intro: keeps_trans stop_step_keeps)

text \<open>
  C25. A confirmed stop is final: whatever receipts, timeouts, fences, settlements, cancellations
  and ends of runs follow in any order, a stop that was proved safe keeps its whole row, receipt
  included, so a later or duplicate report cannot reopen it; an execution that has ended keeps
  its row too.
\<close>

theorem safe_stops_final:
  assumes "stops_ok d" and "(stop_step assign)\<^sup>*\<^sup>* d d'"
  shows "stops_ok d'
    \<and> (\<forall>k s. get_stop k d = Some s \<and> st_status s \<in> set SAFE_STOP_STATES \<longrightarrow> get_stop k d' = Some s)
    \<and> (\<forall>k x. get_exec k d = Some x \<and> x_status x \<in> set ENDED_EXECUTION \<longrightarrow> get_exec k d' = Some x)"
  using assms(1) stop_steps_keep [OF assms(2)] by (simp add: keeps_def)

definition safe_stop :: stop_row where
  "safe_stop = (new_stop ''s1'' ''x1'' sample_mutation sample_turn
     \<lparr>ta_id = ''ta1'', ta_turn = ''q1'', ta_number = 1, ta_generation = 1, ta_local = Some ''l1'',
       ta_state = TaStarted, ta_ended = None, ta_reason = None, ta_outcome = None\<rparr> 5)\<lparr>st_status := StConfirmed\<rparr>"

definition stopped_db :: db where
  "stopped_db = running_db\<lparr>d_stops := [safe_stop], d_uuid := (\<lambda>n. replicate n CHR ''u'')\<rparr>"

lemma safe_stops_final_witness:
  "get_stop ''s1'' (fst (expire_pending_stops (terminal_hook_of (\<lambda>_ _ _. None) 99) 99
       (fence_execution_turns ''x1'' sample_mutation 9 stopped_db))) = Some safe_stop"
proof -
  let ?a = "\<lambda>_ _ _. None"
  let ?d1 = "fence_execution_turns ''x1'' sample_mutation 9 stopped_db"
  have id: "st_id safe_stop = ''s1''" by (simp add: safe_stop_def new_stop_def Let_def)
  have "inj (\<lambda>n. replicate n CHR ''u'')" by (rule injI) (metis length_replicate)
  moreover have "replicate n CHR ''u'' \<noteq> ''s1''" for n by (cases n) simp_all
  ultimately have ok: "stops_ok stopped_db" by (simp add: stops_ok_def stopped_db_def id)
  have g: "get_stop ''s1'' stopped_db = Some safe_stop" by (simp add: stopped_db_def row_get_def id)
  have s: "st_status safe_stop \<in> set SAFE_STOP_STATES" by (simp add: safe_stop_def SAFE_STOP_STATES_def)
  have "stop_step ?a stopped_db ?d1" by (rule stop_step.fence)
  moreover have "stop_step ?a ?d1 (fst (expire_pending_stops (terminal_hook_of ?a 99) 99 ?d1))" by (rule stop_step.expire)
  ultimately have "(stop_step ?a)\<^sup>*\<^sup>* stopped_db (fst (expire_pending_stops (terminal_hook_of ?a 99) 99 ?d1))" by simp
  from safe_stops_final [OF ok this] g s show ?thesis by blast
qed

text \<open>
  A cancelled execution ends exactly when every one of its stops is proved safe: settling
  it answers true iff no stop is outstanding, and then the row is ended with the status of the
  mutation's action and is not touched again by the loop's own clean-up; while a stop is
  outstanding nothing at all changes.
\<close>

theorem settle_waits_for_stops:
  assumes "get_exec xid d = Some x" and "x_status x = XCancelling" and "awaiting_mutation xid d = Some mu"
    and "mu_rev mu = x_input_rev x" and "mu_action mu \<noteq> MRevise"
    and "settle_execution_mutation (on_execution_terminal n assign now) assign now xid d = (d', ok)"
  shows "(ok \<longleftrightarrow> \<not> unsafe_stop xid d) \<and> (\<not> ok \<longrightarrow> d' = d)
    \<and> (ok \<longrightarrow> get_exec xid d' = Some (settle_row mu now x) \<and> x_status (settle_row mu now x) \<in> set ENDED_EXECUTION)"
proof (cases "unsafe_stop xid d")
  case True
  with assms show ?thesis by (simp add: settle_execution_mutation_def)
next
  case False
  let ?d1 = "upd_exec xid (settle_row mu now) d"
  have r: "(d', ok) = (finish_mutation (on_execution_terminal n assign now) x mu now ?d1, True)"
    using assms False by (simp add: settle_execution_mutation_def Let_def)
  have ended: "x_status (settle_row mu now x) \<in> set ENDED_EXECUTION"
    using assms(5) by (cases "mu_action mu") (simp_all add: settle_row_def settled_status_def ENDED_EXECUTION_def)
  moreover have "get_exec xid ?d1 = Some (settle_row mu now x)"
    using assms(1) by (simp add: row_get_def tget_tupd settle_row_def)
  moreover have "keeps ?d1 (finish_mutation (on_execution_terminal n assign now) x mu now ?d1)"
    by (rule lifecycle.finish_keeps)
  ultimately show ?thesis using r False by (simp add: keeps_def)
qed


definition cancelling_exec :: exec_row where
  "cancelling_exec = \<lparr>x_id = ''x1'', x_room = ''r1'', x_lead = ''g1'', x_root_task = Some ''t1'', x_input_rev = 1,
     x_status = XCancelling, x_state_rev = 4, x_error = None, x_updated = 5, x_finished = None\<rparr>"

definition cancelling_db :: db where
  "cancelling_db = stopped_db\<lparr>d_executions := [cancelling_exec], d_mutations := [sample_mutation]\<rparr>"

lemma settle_waits_for_stops_witness:
  "snd (settle_execution_mutation (on_execution_terminal 2 (\<lambda>_ _ _. None) 9) (\<lambda>_ _ _. None) 9 ''x1'' cancelling_db)"
proof -
  have x: "get_exec ''x1'' cancelling_db = Some cancelling_exec"
    by (simp add: cancelling_db_def row_get_def cancelling_exec_def)
  have st: "x_status cancelling_exec = XCancelling" by (simp add: cancelling_exec_def)
  have mu: "awaiting_mutation ''x1'' cancelling_db = Some sample_mutation"
    by (simp add: awaiting_mutation_def cancelling_db_def sample_mutation_def)
  have rv: "mu_rev sample_mutation = x_input_rev cancelling_exec" "mu_action sample_mutation \<noteq> MRevise"
    by (simp_all add: sample_mutation_def cancelling_exec_def)
  have safe: "\<not> unsafe_stop ''x1'' cancelling_db"
    by (simp add: unsafe_stop_def stops_of_def cancelling_db_def stopped_db_def safe_stop_def SAFE_STOP_STATES_def)
  show ?thesis
    using settle_waits_for_stops [OF x st mu rv prod.collapse [symmetric]] safe by blast
qed

section \<open>What the lifecycle keeps of the loop\<close>

text \<open>The events the loop raises by itself.\<close>

definition SYSTEM_EVENTS :: "camp_event list" where
  "SYSTEM_EVENTS = [TBlock, TPlateau, TTargetReached, TDeadline, TBudgetExhausted, TStop]"

text \<open>
  A status path: the status of a campaign moves along events of the state table, here only along
  events from \<open>E\<close>.
\<close>

definition status_path :: "camp_event list \<Rightarrow> campaign \<Rightarrow> campaign \<Rightarrow> bool" where
  "status_path E c c' \<longleftrightarrow> (\<exists>es. set es \<subseteq> set E \<and> run_events (c_status c) es = Some (c_status c'))"

lemma status_path_same: "c_status c' = c_status c \<Longrightarrow> status_path E c c'"
  unfolding status_path_def by (rule exI [where x = "[]"]) simp

lemma status_path_event:
  assumes "transition (c_status c) e = Inr (c_status c')" and "e \<in> set E"
  shows "status_path E c c'"
  unfolding status_path_def by (rule exI [where x = "[e]"]) (use assms in simp)

lemma status_path_trans: "status_path E a b \<Longrightarrow> status_path E b c \<Longrightarrow> status_path E a c"
  unfolding status_path_def using run_events_append by (metis Un_least set_append)

lemma status_path_mono: "status_path E a b \<Longrightarrow> set E \<subseteq> set F \<Longrightarrow> status_path F a b"
  unfolding status_path_def by blast

lemma system_transition:
  assumes "transition s e = Inr new" and "e \<in> set SYSTEM_EVENTS"
  shows "s \<notin> set TERMINAL_STATUSES" "new \<noteq> Achieved"
  using assms by (cases s; cases e; simp add: SYSTEM_EVENTS_def transition.simps)+

lemma system_run:
  assumes "run_events s es = Some t" and "set es \<subseteq> set SYSTEM_EVENTS"
  shows "(s \<in> set TERMINAL_STATUSES \<longrightarrow> t = s) \<and> (t = Achieved \<longrightarrow> s = Achieved)"
  using assms
proof (induction es arbitrary: s)
  case (Cons e es)
  then obtain u where u: "transition s e = Inr u" "run_events u es = Some t" by (auto split: sum.splits)
  have e: "e \<in> set SYSTEM_EVENTS" using Cons.prems by simp
  from Cons.IH [OF u(2)] Cons.prems system_transition [OF u(1) e] show ?case by auto
qed simp

lemma system_path_ends:
  assumes "status_path SYSTEM_EVENTS c c'"
  shows "c_status c \<in> set TERMINAL_STATUSES \<Longrightarrow> c_status c' = c_status c"
    and "c_status c' = Achieved \<Longrightarrow> c_status c = Achieved"
  using assms system_run unfolding status_path_def by blast+

text \<open>A closed attempt may only grow its token count.\<close>

definition grown :: "attempt \<Rightarrow> attempt \<Rightarrow> bool" where
  "grown a a' \<longleftrightarrow> (\<exists>n. a' = a\<lparr>a_tokens := n\<rparr> \<and> or_zero (a_tokens a) \<le> or_zero n)"

definition attempt_key :: "attempt \<Rightarrow> string \<times> string \<times> int \<times> attempt_kind" where
  "attempt_key a = (a_id a, a_campaign a, a_cycle_no a, a_kind a)"

definition attempts_kept :: "db \<Rightarrow> db \<Rightarrow> bool" where
  "attempts_kept d d' \<longleftrightarrow> map attempt_key (d_attempts d') = map attempt_key (d_attempts d) \<and>
     (attempts_wf d \<longrightarrow>
        (\<forall>k a. get_attempt k d = Some a \<and> a_closed a \<noteq> None \<longrightarrow> (\<exists>a'. get_attempt k d' = Some a' \<and> grown a a')))"

definition campaigns_kept :: "db \<Rightarrow> db \<Rightarrow> bool" where
  "campaigns_kept d d' \<longleftrightarrow>
     (\<forall>k c. get_campaign k d = Some c \<longrightarrow> (\<exists>c'. get_campaign k d' = Some c' \<and> status_path SYSTEM_EVENTS c c'))"

text \<open>The supply of identifiers is only consumed.\<close>

definition supply_kept :: "db \<Rightarrow> db \<Rightarrow> bool" where
  "supply_kept d d' \<longleftrightarrow> d_uuid d' = d_uuid d \<and> d_drawn d \<le> d_drawn d'"

definition ends_kept :: "db \<Rightarrow> db \<Rightarrow> bool" where
  "ends_kept d d' \<longleftrightarrow> attempts_kept d d' \<and> campaigns_kept d d' \<and> supply_kept d d'"

lemma grown_refl [simp]: "grown a a"
  unfolding grown_def by (rule exI [where x = "a_tokens a"]) simp

lemma grown_trans: "grown a b \<Longrightarrow> grown b c \<Longrightarrow> grown a c"
proof -
  assume "grown a b" "grown b c"
  then obtain n m where "b = a\<lparr>a_tokens := n\<rparr>" "or_zero (a_tokens a) \<le> or_zero n" "c = b\<lparr>a_tokens := m\<rparr>"
    "or_zero (a_tokens b) \<le> or_zero m"
    unfolding grown_def by blast
  then have "c = a\<lparr>a_tokens := m\<rparr>" "or_zero (a_tokens a) \<le> or_zero m" by simp_all
  then show ?thesis unfolding grown_def by blast
qed

lemma grown_closed: "grown a a' \<Longrightarrow> a_closed a' = a_closed a"
  by (auto simp: grown_def)

lemma attempts_kept_wf:
  assumes "attempts_kept d d'"
  shows "attempts_wf d' = attempts_wf d"
proof -
  have ids: "map a_id as = map fst (map attempt_key as)" for as by (simp add: attempt_key_def)
  have "map attempt_key (d_attempts d') = map attempt_key (d_attempts d)" using assms by (simp add: attempts_kept_def)
  then show ?thesis unfolding attempts_wf_def ids by simp
qed

lemma attempts_kept_trans:
  assumes "attempts_kept a b" and "attempts_kept b c"
  shows "attempts_kept a c"
  unfolding attempts_kept_def
proof (intro impI conjI allI)
  show "map attempt_key (d_attempts c) = map attempt_key (d_attempts a)"
    using assms by (simp add: attempts_kept_def)
  assume wf: "attempts_wf a"
  then have wb: "attempts_wf b" using attempts_kept_wf [OF assms(1)] by simp
  fix k r assume r: "get_attempt k a = Some r \<and> a_closed r \<noteq> None"
  then obtain r1 where r1: "get_attempt k b = Some r1" "grown r r1"
    using assms(1) wf unfolding attempts_kept_def by blast
  then have "a_closed r1 \<noteq> None" using r grown_closed by simp
  then obtain r2 where "get_attempt k c = Some r2" "grown r1 r2"
    using assms(2) wb r1 unfolding attempts_kept_def by blast
  then show "\<exists>r2. get_attempt k c = Some r2 \<and> grown r r2" using r1 grown_trans by blast
qed

lemma campaigns_kept_trans:
  assumes "campaigns_kept a b" and "campaigns_kept b c"
  shows "campaigns_kept a c"
  unfolding campaigns_kept_def
proof (intro impI allI)
  fix k r assume "get_campaign k a = Some r"
  then obtain r1 where "get_campaign k b = Some r1" "status_path SYSTEM_EVENTS r r1"
    using assms(1) unfolding campaigns_kept_def by blast
  moreover from this obtain r2 where "get_campaign k c = Some r2" "status_path SYSTEM_EVENTS r1 r2"
    using assms(2) unfolding campaigns_kept_def by blast
  ultimately show "\<exists>r2. get_campaign k c = Some r2 \<and> status_path SYSTEM_EVENTS r r2"
    using status_path_trans by blast
qed

lemma supply_kept_trans: "supply_kept a b \<Longrightarrow> supply_kept b c \<Longrightarrow> supply_kept a c"
  by (simp add: supply_kept_def)

lemma ends_kept_trans [trans]: "ends_kept a b \<Longrightarrow> ends_kept b c \<Longrightarrow> ends_kept a c"
  unfolding ends_kept_def using attempts_kept_trans campaigns_kept_trans supply_kept_trans by blast

definition same_loop :: "db \<Rightarrow> db \<Rightarrow> bool" where
  "same_loop d d' \<longleftrightarrow> d_attempts d' = d_attempts d \<and> d_campaigns d' = d_campaigns d \<and> supply_kept d d'"

lemma attempts_kept_same: "d_attempts d' = d_attempts d \<Longrightarrow> attempts_kept d d'"
  by (simp add: attempts_kept_def row_get_def)

lemma campaigns_kept_same: "d_campaigns d' = d_campaigns d \<Longrightarrow> campaigns_kept d d'"
  by (simp add: campaigns_kept_def row_get_def status_path_same)

lemma same_loop_ends: "same_loop d d' \<Longrightarrow> ends_kept d d'"
  by (simp add: same_loop_def ends_kept_def attempts_kept_same campaigns_kept_same)

lemma ends_kept_refl [simp, intro]: "ends_kept d d"
  by (rule same_loop_ends) (simp add: same_loop_def supply_kept_def)

lemma ends_kept_fold: "(\<And>x d. x \<in> set xs \<Longrightarrow> ends_kept d (f x d)) \<Longrightarrow> ends_kept d (fold f xs d)"
proof (induction xs arbitrary: d)
  case (Cons x xs)
  have "ends_kept d (f x d)" using Cons.prems by simp
  also have "ends_kept (f x d) (fold f xs (f x d))" using Cons by simp
  finally show ?case by simp
qed simp

lemma ends_kept_fold_fst:
  assumes "\<And>x s. ends_kept (fst s) (fst (f x s))"
  shows "ends_kept (fst s) (fst (fold f xs s))"
proof (induction xs arbitrary: s)
  case (Cons x xs)
  have "ends_kept (fst s) (fst (f x s))" by (rule assms)
  also have "ends_kept (fst (f x s)) (fst (fold f xs (f x s)))" by (rule Cons.IH)
  finally show ?case by simp
qed simp

text \<open>Fencing leaves the loop's tables alone.\<close>

lemma same_loop_trans: "same_loop a b \<Longrightarrow> same_loop b c \<Longrightarrow> same_loop a c"
  by (simp add: same_loop_def supply_kept_def)

lemma same_loop_fold:
  assumes "\<And>x d. same_loop d (f x d)"
  shows "same_loop d (fold f xs d)"
proof (induction xs arbitrary: d)
  case (Cons x xs)
  from same_loop_trans [OF assms Cons.IH] show ?case by simp
qed (simp add: same_loop_def supply_kept_def)

lemma fence_same_loop: "same_loop d (fence_execution_turns xid mu now d)"
proof -
  have "same_loop d (fence_attempt xid mu now tn ta d)" for tn ta d
    by (simp add: fence_attempt_def draw_uuid_def Let_def same_loop_def supply_kept_def split: option.split)
  then have "same_loop d (fold (fence_attempt xid mu now tn) tas d)" for tn tas d by (rule same_loop_fold)
  then have "same_loop d (fence_turn xid mu now tn d)" for tn d
    by (simp add: fence_turn_def Let_def same_loop_def supply_kept_def)
  then show ?thesis unfolding fence_execution_turns_def by (rule same_loop_fold)
qed

text \<open>A hook that also keeps the ends of the loop.\<close>

locale lifecycle_hook = stop_hook +
  assumes hook_ends: "ends_kept d (hook xid typ d)"
begin

lemma event_ends: "ends_kept d (execution_event hook xid key typ t det d)"
proof -
  let ?d1 = "d\<lparr>d_exec_events := d_exec_events d @
      [\<lparr>xe_execution = xid, xe_task = t, xe_key = key, xe_type = typ, xe_details = det\<rparr>]\<rparr>"
  have "ends_kept d ?d1" by (rule same_loop_ends) (simp add: same_loop_def supply_kept_def)
  then show ?thesis using ends_kept_trans [OF _ hook_ends] by (simp add: execution_event_def Let_def)
qed

lemma event_after: "same_loop d d1 \<Longrightarrow> ends_kept d (execution_event hook xid key typ t det d1)"
  by (rule ends_kept_trans [OF same_loop_ends event_ends])

lemma settle_ends: "ends_kept d (fst (settle_execution_mutation hook assign now xid d))"
proof (cases rule: settle_cases [of hook assign now xid d])
  case idle
  then show ?thesis by simp
next
  case (blocked x mu code)
  then show ?thesis by (simp add: block_revision_def) (rule event_after, simp add: same_loop_def supply_kept_def)
next
  case (settled x mu d2)
  have same: "same_loop d d2"
    using settled(7) by (auto simp: assign_lead_def same_loop_def supply_kept_def split: if_splits option.splits)
  have "same_loop d (if mu_action mu \<in> {MDeadline, MLimit}
      then fail_root_task mu now (row_upd d_mutations_update mu_id (mu_id mu) (\<lambda>m. m\<lparr>mu_phase := Applied, mu_completed := Some now\<rparr>) d2)
      else row_upd d_mutations_update mu_id (mu_id mu) (\<lambda>m. m\<lparr>mu_phase := Applied, mu_completed := Some now\<rparr>) d2)"
    using same by (auto simp: fail_root_task_def same_loop_def supply_kept_def split: option.split)
  then show ?thesis using settled(8) by (simp add: finish_mutation_def Let_def event_after)
qed

lemma cancel_ends: "ends_kept d (cancel_cycle_execution hook assign now xid reason d)"
proof -
  have req: "ends_kept d (snd (request_cancel hook now x reason d))" for x
    by (simp add: request_cancel_def draw_uuid_def Let_def) (rule event_after, simp add: same_loop_def supply_kept_def)
  have "ends_kept d (fst (settle_execution_mutation hook assign now xid (fence_execution_turns xid mu now d1)))"
    if "request_cancel hook now x reason d = (mu, d1)" for x mu d1
    using ends_kept_trans [OF ends_kept_trans [OF req same_loop_ends [OF fence_same_loop]] settle_ends] that
    by (metis snd_conv)
  then show ?thesis by (auto simp: cancel_cycle_execution_def split: option.split prod.split)
qed

lemma fail_cycle_task_same: "same_loop d (fail_cycle_task tid r now d)"
  by (simp add: fail_cycle_task_def same_loop_def supply_kept_def split: option.split)

lemma settle_work_ends: "ends_kept d (settle_cycle_work hook assign now reason aid d)"
proof (cases "get_attempt aid d")
  case (Some a)
  let ?d1 = "case a_execution a of None \<Rightarrow> d
               | Some xid \<Rightarrow> cancel_cycle_execution hook assign now xid CYCLE_CLOSED_REASON d"
  have "ends_kept d ?d1" by (auto simp: cancel_ends split: option.split)
  moreover from this have "ends_kept d (fail_cycle_task tid reason now ?d1)" for tid
    using same_loop_ends [OF fail_cycle_task_same] by (rule ends_kept_trans)
  ultimately show ?thesis
    unfolding settle_cycle_work_def Some Let_def by (simp split: option.split)
qed (simp add: settle_cycle_work_def)

end


text \<open>A planned write from the campaign's own row succeeds at the first try, or raises.\<close>

lemma write_plan_cases:
  assumes "get_campaign cid d = Some c" and "write_plan p actor now c d = (d1, c1, ok, flag)"
  obtains (raised) e where "d1 = raise_in e d" "c1 = c" "\<not> ok" "\<not> flag"
    | (quiet) vs det where "ok" "p c = Inr (None, vs, det, flag)"
        "c1 = (if vs = [] then c else cas_write vs None (c_rev c) now c)" "d_events d1 = d_events d"
        "\<And>k. get_campaign k d1 = (if k = cid then Some c1 else get_campaign k d)"
    | (moved) e vs det new where "ok" "p c = Inr (Some e, vs, det, flag)" "transition (c_status c) e = Inr new"
        "c1 = cas_write (ending_values c new vs d) (Some new) (c_rev c) now c" "set (d_events d) \<subseteq> set (d_events d1)"
        "\<And>k. get_campaign k d1 = (if k = cid then Some c1 else get_campaign k d)"
proof -
  have id: "c_id c = cid" using assms(1) by (rule campaigns.get_key)
  have w: "write_tries 3 p actor now c d = (d1, c1, ok, flag)" using assms(2) by (simp add: write_plan_def)
  show ?thesis
  proof (cases "write_once p actor now c d")
    case (Inl e)
    with w show ?thesis by (intro raised [of e]) (simp_all add: numeral_3_eq_3)
  next
    case (Inr r)
    obtain d2 c2 ok2 flag2 where r: "r = (d2, c2, ok2, flag2)" by (cases r)
    obtain ev vs det where p: "p c = Inr (ev, vs, det, flag2)"
      and step: "(case ev of None \<Rightarrow> if vs = [] then Inr (d, c, True) else Inr (cas_update c None None vs now d)
          | Some e \<Rightarrow> apply_transition c e actor now det None None vs d) = Inr (d2, c2, ok2)"
      using Inr r by (auto simp: write_once_def bindE_Inr_iff)
    have step_ok: ok2
    proof (cases ev)
      case None
      with step show ?thesis using assms(1) id by (auto simp: cas_update_def seen_rev_def Let_def split: if_splits)
    next
      case (Some e)
      with step obtain new where "transition (c_status c) e = Inr new"
        by (auto simp: apply_transition_def)
      with Some step show ?thesis using assms(1) id
        by (auto simp: apply_transition_def cas_update_def seen_rev_def Let_def)
    qed
    have eq: "d1 = d2" "c1 = c2" "ok" "flag = flag2" using w Inr r step_ok by (simp_all add: numeral_3_eq_3)
    show ?thesis
    proof (cases ev)
      case None
      then have "cas_update c None None vs now d = (d1, c1, ok) \<or> vs = [] \<and> d1 = d \<and> c1 = c"
        using step eq step_ok by (auto split: if_splits)
      then show ?thesis
      proof
        assume "cas_update c None None vs now d = (d1, c1, ok)"
        then show ?thesis
        proof (cases rule: cas_update_cases)
          case (won row)
          then show ?thesis using assms(1) p None eq step step_ok id
            by (intro quiet [of vs det]) (auto simp: seen_rev_def split: if_splits)
        qed (use eq in simp)
      next
        assume "vs = [] \<and> d1 = d \<and> c1 = c"
        then show ?thesis using p None eq assms(1) by (intro quiet [of vs det]) simp_all
      qed
    next
      case (Some e)
      then have "apply_transition c e actor now det None None vs d = Inr (d1, c1, ok)" using step eq step_ok by simp
      then show ?thesis
      proof (cases rule: apply_transition_cases)
        case (won row new)
        then have "row = c" using assms(1) id by simp
        with won p Some eq id show ?thesis by (intro moved [of e vs det new]) (simp_all add: seen_rev_def)
      qed (use eq in simp)
    qed
  qed
qed

definition system_plan :: "plan \<Rightarrow> bool" where
  "system_plan p \<longleftrightarrow> (\<forall>c e vs det flag. p c = Inr (Some e, vs, det, flag) \<longrightarrow> e \<in> set SYSTEM_EVENTS)"

lemma campaigns_kept_one:
  assumes "get_campaign cid d = Some c" and "status_path SYSTEM_EVENTS c c1"
    and "\<And>k. get_campaign k d1 = (if k = cid then Some c1 else get_campaign k d)"
  shows "campaigns_kept d d1"
  unfolding campaigns_kept_def
proof (intro allI impI)
  fix k r assume "get_campaign k d = Some r"
  moreover have "status_path SYSTEM_EVENTS r r" by (simp add: status_path_same)
  ultimately show "\<exists>r1. get_campaign k d1 = Some r1 \<and> status_path SYSTEM_EVENTS r r1"
    using assms by (cases "k = cid") simp_all
qed

lemma system_write_ends:
  assumes "system_plan p" and "get_campaign cid d = Some c" and "write_plan p actor now c d = (d1, c1, ok, flag)"
  shows "ends_kept d d1"
proof -
  have att: "attempts_kept d d1"
    using write_plan_world [OF assms(3)] by (simp add: same_world_def attempts_kept_same)
  have "campaigns_kept d d1"
    using assms(2,3)
  proof (cases rule: write_plan_cases)
    case (raised e)
    then show ?thesis by (simp add: campaigns_kept_same)
  next
    case (quiet vs det)
    have "status_path SYSTEM_EVENTS c c1" unfolding quiet(3) by (simp add: status_path_same)
    with assms(2) show ?thesis using quiet(5) by (rule campaigns_kept_one)
  next
    case (moved e vs det new)
    have "e \<in> set SYSTEM_EVENTS" using assms(1) moved(2) unfolding system_plan_def by blast
    with moved(3) have "status_path SYSTEM_EVENTS c c1"
      unfolding moved(4) by (intro status_path_event) simp_all
    with assms(2) show ?thesis using moved(6) by (rule campaigns_kept_one)
  qed
  moreover have "supply_kept d d1" using write_plan_world [OF assms(3)] by (simp add: same_world_def supply_kept_def)
  ultimately show ?thesis using att by (simp add: ends_kept_def)
qed

lemma verdict_step_system: "verdict_step v n c = Inr (Some e, r) \<Longrightarrow> e \<in> set SYSTEM_EVENTS"
  by (auto simp: verdict_step_def Let_def bindE_Inr_iff SYSTEM_EVENTS_def split: if_splits)

lemma verdict_plan_system: "verdict_plan a verdict n c = Inr (Some e, r) \<Longrightarrow> e \<in> set SYSTEM_EVENTS"
  by (auto simp: verdict_plan_def bindE_Inr_iff SYSTEM_EVENTS_def [symmetric] dest: verdict_step_system
      split: option.splits if_splits) (simp add: SYSTEM_EVENTS_def)

lemma close_plan_system: "system_plan (close_plan a verdict delta pins)"
  unfolding system_plan_def
proof (intro allI impI)
  fix c e vs det flag
  assume r: "close_plan a verdict delta pins c = Inr (Some e, vs, det, flag)"
  have block: "TBlock \<in> set SYSTEM_EVENTS" "TBudgetExhausted \<in> set SYSTEM_EVENTS" by (simp_all add: SYSTEM_EVENTS_def)
  show "e \<in> set SYSTEM_EVENTS"
  proof (cases "verdict_plan a verdict (c_tokens_used c + delta) c")
    case (Inl x)
    with r show ?thesis by (simp add: close_plan_def Let_def split: if_splits)
  next
    case (Inr q)
    obtain ev vs1 det1 flag1 where q: "q = (ev, vs1, det1, flag1)" by (cases q)
    have "closing_event a ev = Some e"
      using r Inr unfolding q by (simp add: close_plan_def Let_def split: if_splits option.splits)
    then have "e = TBlock \<or> ev = Some e" by (simp add: closing_event_def split: if_splits)
    then show ?thesis using block verdict_plan_system [of a verdict _ c e] Inr q by blast
  qed
qed

lemma add_tokens_plan_system: "system_plan (add_tokens_plan delta)"
  by (simp add: system_plan_def add_tokens_plan_def)

lemma stop_plan_system: "system_plan (stop_plan sr r)"
  by (simp add: system_plan_def stop_plan_def SYSTEM_EVENTS_def)


lemma after_close_ends: "ends_kept d (after_close cid aid v delta pins now d)"
proof (cases "get_campaign cid d = None \<or> get_attempt aid d = None")
  case True
  then show ?thesis by (auto simp: after_close_def split: option.splits)
next
  case False
  then obtain c a where ca: "get_campaign cid d = Some c" "get_attempt aid d = Some a" by auto
  obtain d1 c1 ok fl where w: "write_plan (close_plan a v delta pins) SYSTEM_ACTOR now c d = (d1, c1, ok, fl)"
    by (metis prod_cases4)
  have "ends_kept d d1" using close_plan_system ca(1) w by (rule system_write_ends)
  also have "same_loop d1 (after_close cid aid v delta pins now d)"
    by (simp add: after_close_def ca w Let_def cycle_closed_row_def same_loop_def supply_kept_def)
  then have "ends_kept d1 (after_close cid aid v delta pins now d)" by (rule same_loop_ends)
  finally show ?thesis .
qed

lemma add_tokens_ends: "ends_kept d (add_tokens cid delta now d)"
proof (cases "0 < delta \<and> get_campaign cid d \<noteq> None")
  case True
  then obtain c where c: "get_campaign cid d = Some c" by auto
  obtain d1 c1 ok fl where w: "write_plan (add_tokens_plan delta) SYSTEM_ACTOR now c d = (d1, c1, ok, fl)"
    by (metis prod_cases4)
  have "ends_kept d d1" using add_tokens_plan_system c w by (rule system_write_ends)
  with True c w show ?thesis by (simp add: add_tokens_def)
qed (auto simp: add_tokens_def split: option.split)

lemma attempts_kept_upd:
  assumes "\<And>r. attempt_key (f r) = attempt_key r"
    and "\<And>a. attempts_wf d \<Longrightarrow> get_attempt k d = Some a \<Longrightarrow> a_closed a \<noteq> None \<Longrightarrow> grown a (f a)"
    and "d_attempts d' = tupd a_id k f (d_attempts d)"
  shows "attempts_kept d d'"
  unfolding attempts_kept_def
proof (intro impI conjI allI)
  show "map attempt_key (d_attempts d') = map attempt_key (d_attempts d)"
    by (simp add: assms(1,3) tupd_def)
  have id: "a_id (f r) = a_id r" for r using assms(1) [of r] by (simp add: attempt_key_def)
  assume wf: "attempts_wf d"
  fix j a assume a: "get_attempt j d = Some a \<and> a_closed a \<noteq> None"
  then show "\<exists>a'. get_attempt j d' = Some a' \<and> grown a a'"
    using assms(2) [OF wf] id by (cases "j = k") (simp_all add: row_get_def assms(3) tget_tupd)
qed

lemma sync_tokens_ends:
  assumes "sync_tokens aid d = (d1, delta)"
  shows "ends_kept d d1"
  using assms
proof (cases rule: sync_tokens_cases)
  case (more a xid n)
  have "attempts_kept d d1"
    by (rule attempts_kept_upd [where k = aid and f = "\<lambda>a. a\<lparr>a_tokens := Some n\<rparr>"])
       (use more in \<open>auto simp: grown_def or_zero_def attempt_key_def\<close>)
  with more show ?thesis by (simp add: ends_kept_def campaigns_kept_same supply_kept_def)
qed simp

lemma close_attempt_ends:
  assumes "close_attempt aid oc evs fin now f d = (d1, ok)" and "\<And>a. attempt_key (f a) = attempt_key a"
  shows "ends_kept d d1"
proof (cases ok)
  case True
  have id: "a_id (f a) = a_id a" for a using assms(2) [of a] by (simp add: attempt_key_def)
  have c: "close_attempt aid oc evs fin now f d = (d1, True)" using assms(1) True by simp
  obtain a where a: "get_attempt aid d = Some a" "a_closed a = None"
    "d_attempts d1 = tupd a_id aid (\<lambda>a. (f a)\<lparr>a_closed := Some (cycle_closed_at fin (a_opened a) now),
                    a_outcome := oc, a_eval_status := evs\<rparr>) (d_attempts d)" "d_campaigns d1 = d_campaigns d"
    by (rule close_attempt_row [OF c id]; (rule that; assumption)?)
  have "attempts_kept d d1"
    by (rule attempts_kept_upd [OF _ _ a(3)]) (use a assms(2) in \<open>simp_all add: attempt_key_def\<close>)
  with a(4) close_attempt_world [OF c] show ?thesis
    by (simp add: ends_kept_def campaigns_kept_same supply_kept_def same_stops_def)
next
  case False
  with assms(1) have "d1 = d" by (auto simp: close_attempt_def split: option.splits if_splits)
  then show ?thesis by simp
qed

lemma request_eval_ends:
  assumes "attempts_wf d \<Longrightarrow> \<exists>a'. get_attempt (a_id a) d = Some a' \<and> a_closed a' = None"
  shows "ends_kept d (request_eval c a now d)"
proof -
  let ?f = "\<lambda>r. r\<lparr>a_eval_status := EvPending, a_eval_job := Some (a_id r),
     a_eval_deadline := Some (now + seconds ((if ev_timeout (c_evaluator c) = 0 then 600 else ev_timeout (c_evaluator c))
        + EVAL_GRACE_SECONDS + EVAL_PENDING_WINDOW_SECONDS))\<rparr>"
  have rows: "d_attempts (request_eval c a now d) = tupd a_id (a_id a) ?f (d_attempts d)"
    and camps: "d_campaigns (request_eval c a now d) = d_campaigns d"
    by (simp_all add: request_eval_def Let_def)
  have "attempts_kept d (request_eval c a now d)"
    by (rule attempts_kept_upd [OF _ _ rows]) (use assms in \<open>auto simp: attempt_key_def\<close>)
  moreover have "supply_kept d (request_eval c a now d)"
    using request_eval_world [of d c a now] by (simp add: supply_kept_def same_stops_def)
  ultimately show ?thesis using camps by (simp add: ends_kept_def campaigns_kept_same)
qed

lemma no_values_id [simp]: "a_id (no_values a) = a_id a" "attempt_key (no_values a) = attempt_key a"
  by (simp_all add: no_values_def)

lemma close_run_ends:
  assumes "\<And>aid d. ends_kept d (settle aid d)"
  shows "ends_kept d (close_run settle now cid aid oc fin delta d)"
proof (cases "close_attempt aid oc EvSkipped fin now no_values d")
  case (Pair d1 ok)
  have "ends_kept d d1" using Pair by (rule close_attempt_ends) simp
  also note assms [of d1 aid]
  also note after_close_ends
  finally show ?thesis using \<open>ends_kept d d1\<close> by (simp add: close_run_def Pair)
qed

lemma terminal_step_ends:
  assumes "\<And>aid d. ends_kept d (settle aid d)"
  shows "ends_kept d (terminal_step settle now xid typ d)"
proof (cases "attempt_of_execution xid d")
  case (Some a)
  obtain d1 delta where sy: "sync_tokens (a_id a) d = (d1, delta)" by (cases "sync_tokens (a_id a) d")
  have d1: "ends_kept d d1" using sy by (rule sync_tokens_ends)
  have req: "ends_kept d1 (request_eval c a now d1)" if "a_closed a = None" for c
  proof (rule request_eval_ends)
    assume "attempts_wf d1"
    then have "attempts_wf d" using sync_tokens_facts(2) [OF sy] by (simp add: attempts_wf_def)
    then have "get_attempt (a_id a) d = Some a" using Some attempt_of_execution_get by blast
    from sync_tokens_facts(4) [OF sy this] that show "\<exists>a'. get_attempt (a_id a) d1 = Some a' \<and> a_closed a' = None"
      by auto
  qed
  note ends_kept_trans [OF d1 add_tokens_ends] ends_kept_trans [OF d1 ends_kept_trans [OF assms add_tokens_ends]]
    ends_kept_trans [OF d1 ends_kept_trans [OF req add_tokens_ends]] ends_kept_trans [OF d1 close_run_ends [OF assms]]
  then show ?thesis by (simp add: terminal_step_def Some sy Let_def split: option.split)
qed (simp add: terminal_step_def)

lemma on_terminal_hook: "lifecycle_hook (on_execution_terminal n assign now)"
proof (induction n)
  case 0
  show ?case by unfold_locales simp_all
next
  case (Suc n)
  then have "ends_kept d (on_execution_terminal (Suc n) assign now xid ty d)" for d xid ty
    unfolding on_execution_terminal.simps by (intro terminal_step_ends lifecycle_hook.settle_work_ends)
  then show ?case by (intro lifecycle_hook.intro lifecycle_hook_axioms.intro stop_hook.intro on_terminal_keeps)
qed

interpretation loop: lifecycle_hook "on_execution_terminal n assign now" for n assign now
  by (rule on_terminal_hook)


text \<open>The operations of the loop, one by one.\<close>

lemma record_event_ends: "ends_kept d (record_event cid key typ det actor now d)"
  by (rule same_loop_ends) (simp add: same_loop_def supply_kept_def)

lemma usage_settled_ends: "ends_kept d (on_usage_settled xid now d)"
proof (cases "attempt_of_execution xid d")
  case (Some a)
  obtain d1 delta where sy: "sync_tokens (a_id a) d = (d1, delta)" by (cases "sync_tokens (a_id a) d")
  from ends_kept_trans [OF sync_tokens_ends [OF sy] add_tokens_ends] show ?thesis
    by (simp add: on_usage_settled_def Some sy)
qed (simp add: on_usage_settled_def)

lemma close_unknown_ends:
  assumes "close_unknown assign now reason fin a d = (d', ok)"
  shows "ends_kept d d'"
proof (cases "get_campaign (a_campaign a) d")
  case (Some c)
  obtain d1 delta where sy: "sync_tokens (a_id a) d = (d1, delta)" by (cases "sync_tokens (a_id a) d")
  obtain d2 b where cl: "close_attempt (a_id a) (Some Unknown) EvSkipped fin now no_values d1 = (d2, b)"
    by (cases "close_attempt (a_id a) (Some Unknown) EvSkipped fin now no_values d1")
  have "ends_kept d d1" using sy by (rule sync_tokens_ends)
  also have "ends_kept d1 d2" using cl by (rule close_attempt_ends) simp
  finally have d2: "ends_kept d d2" .
  also note record_event_ends
  also note loop.settle_work_ends
  also note after_close_ends
  finally show ?thesis using assms d2 by (auto simp: close_unknown_def Some sy cl Let_def split: if_splits)
qed (use assms in \<open>simp add: close_unknown_def\<close>)

lemma task_closed_ends: "ends_kept d (fst (on_cycle_task_closed assign now reason k d))"
  by (auto simp: on_cycle_task_closed_def split: option.split
      intro: close_unknown_ends [OF prod.collapse [symmetric]])

lemma eval_result_ends:
  assumes "on_eval_result assign f machine now d = Inr (d', res)"
  shows "ends_kept d d'"
proof (cases "attempt_of_job (f_job f) d")
  case a: (Some a)
  show ?thesis
  proof (cases "get_campaign (a_campaign a) d")
    case c: (Some c)
    show ?thesis
    proof (cases "wrong_machine machine f c d \<or> a_closed a \<noteq> None \<or> a_eval_status a \<notin> {EvPending, EvRunning}")
      case True
      then show ?thesis using assms
        by (auto simp: on_eval_result_def a c late_result_def record_event_ends split: if_splits)
    next
      case False
      let ?v = "\<lambda>v0. judged_verdict a v0"
      obtain v0 where v0: "lift_py (classify (c_metric c) (ev_score_key (c_evaluator c)) (f_status f) (f_parsed f)
          (best_score c d)) = Inr v0"
        using assms False by (auto simp: on_eval_result_def a c bindE_Inr_iff)
      obtain d1 ok where cl: "close_attempt (a_id a) (Some (v_outcome (?v v0))) (v_eval_status (?v v0)) (Some now) now
          (eval_values (?v v0) f now) d = (d1, ok)" by (metis surj_pair)
      obtain d2 delta where sy: "sync_tokens (a_id a) d1 = (d2, delta)" by (cases "sync_tokens (a_id a) d1")
      have d1: "ends_kept d d1" using cl by (rule close_attempt_ends) (simp add: eval_values_def attempt_key_def)
      also have "ends_kept d1 d2" using sy by (rule sync_tokens_ends)
      also note loop.settle_work_ends
      also note after_close_ends
      finally show ?thesis using assms False d1
        by (auto simp: on_eval_result_def a c v0 cl sy Let_def split: if_splits)
    qed
  qed (use assms a in \<open>simp add: on_eval_result_def\<close>)
qed (use assms in \<open>simp add: on_eval_result_def\<close>)

lemma expire_eval_ends: "ends_kept d (fst (expire_eval assign now a (d, ids)))"
proof (cases "get_campaign (a_campaign a) d")
  case (Some c)
  obtain d1 ok where cl: "close_attempt (a_id a) (Some EvalFailed) EvTimedOut (Some now) now
      (\<lambda>r. r\<lparr>a_eval_finished := Some now, a_excerpt := Some (timeout_excerpt a)\<rparr>) d = (d1, ok)" by (metis surj_pair)
  let ?d2 = "record_event (c_id c) (cycle_key (c_id c) (a_cycle_no a) ''eval_timed_out'') ''eval_timed_out''
     [(''cycle_no'', PInt (a_cycle_no a)), (''job_id'', opt_str (a_eval_job a)),
      (''stage'', PStr (eval_status_str (a_eval_status a)))] SYSTEM_ACTOR now d1"
  obtain d3 delta where sy: "sync_tokens (a_id a) ?d2 = (d3, delta)" by (cases "sync_tokens (a_id a) ?d2")
  have d1: "ends_kept d d1" using cl by (rule close_attempt_ends) (simp add: attempt_key_def)
  also note record_event_ends
  also have "ends_kept ?d2 d3" using sy by (rule sync_tokens_ends)
  also note loop.settle_work_ends
  also note after_close_ends
  finally show ?thesis using d1 by (simp add: expire_eval_def Some cl sy Let_def split: if_splits)
qed (simp add: expire_eval_def)

lemma expire_deadlines_ends: "ends_kept d (fst (expire_eval_deadlines assign now d))"
proof -
  have step: "ends_kept (fst s) (fst (expire_eval assign now a s))" for a s
    using expire_eval_ends [of "fst s" assign now a "snd s"] by simp
  have "ends_kept d (fst (fold (expire_eval assign now) as (d, [])))" for as
    using ends_kept_fold_fst [where f = "expire_eval assign now" and s = "(d, [])", OF step] by simp
  then show ?thesis by (simp add: expire_eval_deadlines_def)
qed

lemma stop_campaign_ends:
  assumes "get_campaign cid d = Some c"
  shows "ends_kept d (fst (stop_campaign assign now actor sr r c d))"
proof -
  obtain d1 c1 ok fl where w: "write_plan (stop_plan sr r) actor now c d = (d1, c1, ok, fl)" by (metis prod_cases4)
  have d1: "ends_kept d d1" using stop_plan_system assms w by (rule system_write_ends)
  have "ends_kept e (fst (close_unknown assign now reason None a e))" for reason a e
    by (rule close_unknown_ends [OF prod.collapse [symmetric]])
  then have "ends_kept d1 (fold (\<lambda>a d. fst (close_unknown assign now reason None a d)) as d1)" for reason as
    by (intro ends_kept_fold)
  with d1 show ?thesis by (auto simp: stop_campaign_def w intro: ends_kept_trans)
qed

lemma stop_for_room_ends: "ends_kept d (fst (stop_for_room assign now actor cid d))"
  by (simp add: stop_for_room_def stop_campaign_ends split: option.split)

lemma fst_case_pair [simp]: "fst (case p of (x, y) \<Rightarrow> (x, g x y)) = fst p"
  by (cases p) simp

lemma stop_room_ends: "ends_kept d (fst (stop_room_campaigns assign now actor rid d))"
proof -
  let ?f = "\<lambda>cid s. case stop_for_room assign now actor cid (fst s) of
             (d1, ok) \<Rightarrow> (d1, if ok then snd s @ [cid] else snd s)"
  have step: "ends_kept (fst s) (fst (?f cid s))" for cid s by (simp add: stop_for_room_ends)
  have "ends_kept d (fst (fold ?f cids (d, [])))" for cids
    using ends_kept_fold_fst [where f = ?f and s = "(d, [])", OF step] by simp
  then show ?thesis by (simp add: stop_room_campaigns_def)
qed

lemma reconcile_attempt_ends: "ends_kept (fst s) (fst (reconcile_attempt assign now aid s))"
proof -
  obtain d n where s: "s = (d, n)" by (cases s)
  have un: "ends_kept d (fst (close_unknown assign now reason fin a d))" for reason fin a
    by (rule close_unknown_ends [OF prod.collapse [symmetric]])
  show ?thesis
  proof (cases "get_attempt aid d")
    case (Some a)
    show ?thesis
    proof (cases "a_execution a")
      case None
      then show ?thesis using un by (simp add: reconcile_attempt_def s Some Let_def split: option.split)
    next
      case x: (Some xid)
      have "ends_kept d (on_execution_terminal 2 assign now xid ty d)" for ty by (rule loop.hook_ends)
      then show ?thesis by (simp add: reconcile_attempt_def s Some x split: option.split)
    qed
  qed (simp add: reconcile_attempt_def s)
qed

lemma reconcile_ends: "ends_kept d (fst (reconcile_open_cycles assign now d))"
proof -
  let ?f = "\<lambda>cid s. case stop_for_room assign now SYSTEM_ACTOR cid (fst s) of
             (d1, ok) \<Rightarrow> (d1, if ok then snd s + 1 else snd s)"
  let ?s = "fold ?f (map c_id (filter (\<lambda>c. room_archived c d \<and> c_status c \<notin> set TERMINAL_STATUSES) (d_campaigns d))) (d, 0 :: nat)"
  have step: "ends_kept (fst s) (fst (?f cid s))" for cid s by (simp add: stop_for_room_ends)
  have first: "ends_kept d (fst ?s)" using ends_kept_fold_fst [where f = ?f and s = "(d, 0)", OF step] by simp
  have "ends_kept (fst ?s) (fst (fold (reconcile_attempt assign now) as ?s))" for as
    by (rule ends_kept_fold_fst) (rule reconcile_attempt_ends)
  with first have "ends_kept d (fst (fold (reconcile_attempt assign now) as ?s))" for as
    by (rule ends_kept_trans)
  then show ?thesis by (simp add: reconcile_open_cycles_def Let_def case_prod_unfold)
qed


text \<open>
  Everything the loop does by itself: results and time-outs of evaluations, ends of runs and their
  token reports, closes of cycle tasks, stops asked by a person or an archived room, the safety
  net of the tick, and whatever happens to stops.
\<close>

inductive lifecycle_step :: "assigner \<Rightarrow> db \<Rightarrow> db \<Rightarrow> bool" for assign :: assigner where
  eval_result: "on_eval_result assign f machine now d = Inr (d', res) \<Longrightarrow> lifecycle_step assign d d'"
| eval_expired: "lifecycle_step assign d (fst (expire_eval_deadlines assign now d))"
| run_ended: "lifecycle_step assign d (on_execution_terminal n assign now xid ty d)"
| usage: "lifecycle_step assign d (on_usage_settled xid now d)"
| task_closed: "lifecycle_step assign d (fst (on_cycle_task_closed assign now reason k d))"
| stopped: "get_campaign cid d = Some c \<Longrightarrow> lifecycle_step assign d (fst (stop_campaign assign now actor sr r c d))"
| room: "lifecycle_step assign d (fst (stop_room_campaigns assign now actor rid d))"
| reconcile: "lifecycle_step assign d (fst (reconcile_open_cycles assign now d))"
| fenced: "lifecycle_step assign d (fence_execution_turns xid mu now d)"
| settled: "lifecycle_step assign d (fst (settle_execution_mutation (terminal_hook_of assign now) assign now xid d))"

lemma lifecycle_step_ends: "lifecycle_step assign d d' \<Longrightarrow> ends_kept d d'"
  by (induction rule: lifecycle_step.induct)
     (auto intro: eval_result_ends expire_deadlines_ends loop.hook_ends usage_settled_ends task_closed_ends
        stop_campaign_ends stop_room_ends reconcile_ends same_loop_ends fence_same_loop loop.settle_ends)

lemma lifecycle_steps_end: "(lifecycle_step assign)\<^sup>*\<^sup>* d d' \<Longrightarrow> ends_kept d d'"
  by (induction rule: rtranclp_induct) (auto intro: ends_kept_trans lifecycle_step_ends)

text \<open>
  What the loop cannot do by itself: in any sequence of its steps a campaign that ended keeps
  its status, no campaign becomes \<open>achieved\<close>, and a closed cycle is never judged again: its row
  keeps every column but the token count, which only grows (a late usage report). No attempt
  identifier is lost or doubled.
\<close>

theorem loop_keeps_ends:
  assumes "attempts_wf d" and "(lifecycle_step assign)\<^sup>*\<^sup>* d d'"
  shows "attempts_wf d'
    \<and> (\<forall>k a. get_attempt k d = Some a \<and> a_closed a \<noteq> None \<longrightarrow> (\<exists>n. get_attempt k d' = Some (a\<lparr>a_tokens := n\<rparr>)
          \<and> or_zero (a_tokens a) \<le> or_zero n))
    \<and> (\<forall>k c. get_campaign k d = Some c \<longrightarrow> (\<exists>c'. get_campaign k d' = Some c'
          \<and> (c_status c \<in> set TERMINAL_STATUSES \<longrightarrow> c_status c' = c_status c)
          \<and> (c_status c' = Achieved \<longrightarrow> c_status c = Achieved)))"
proof -
  have k: "attempts_kept d d'" "campaigns_kept d d'"
    using lifecycle_steps_end [OF assms(2)] by (simp_all add: ends_kept_def)
  have camps: "\<exists>c'. get_campaign k d' = Some c' \<and> (c_status c \<in> set TERMINAL_STATUSES \<longrightarrow> c_status c' = c_status c)
      \<and> (c_status c' = Achieved \<longrightarrow> c_status c = Achieved)" if own: "get_campaign k d = Some c" for k c
  proof -
    obtain c' where c': "get_campaign k d' = Some c'" "status_path SYSTEM_EVENTS c c'"
      using k(2) own unfolding campaigns_kept_def by blast
    show ?thesis using c'(1) system_path_ends [OF c'(2)] by (intro exI [where x = c'] conjI impI)
  qed
  have atts: "\<exists>n. get_attempt k d' = Some (a\<lparr>a_tokens := n\<rparr>) \<and> or_zero (a_tokens a) \<le> or_zero n"
    if "get_attempt k d = Some a" "a_closed a \<noteq> None" for k a
    using k(1) that assms(1) unfolding attempts_kept_def grown_def by blast
  have "attempts_wf d'" using assms(1) attempts_kept_wf [OF k(1)] by simp
  moreover have "\<forall>k a. get_attempt k d = Some a \<and> a_closed a \<noteq> None \<longrightarrow> (\<exists>n. get_attempt k d' = Some (a\<lparr>a_tokens := n\<rparr>)
          \<and> or_zero (a_tokens a) \<le> or_zero n)"
    by (intro allI impI atts) simp_all
  moreover have "\<forall>k c. get_campaign k d = Some c \<longrightarrow> (\<exists>c'. get_campaign k d' = Some c'
          \<and> (c_status c \<in> set TERMINAL_STATUSES \<longrightarrow> c_status c' = c_status c)
          \<and> (c_status c' = Achieved \<longrightarrow> c_status c = Achieved))"
    by (intro allI impI camps) assumption
  ultimately show ?thesis by (intro conjI)
qed

lemma loop_keeps_ends_witness:
  "\<exists>c'. get_campaign ''c1'' (fst (reconcile_open_cycles (\<lambda>_ _ _. None) 50
      (fst (expire_eval_deadlines (\<lambda>_ _ _. None) 40 running_db)))) = Some c' \<and> c_status c' \<noteq> Achieved"
proof -
  let ?a = "\<lambda>_ _ _. None"
  let ?d1 = "fst (expire_eval_deadlines ?a 40 running_db)"
  have "lifecycle_step ?a running_db ?d1" by (rule lifecycle_step.eval_expired)
  moreover have "lifecycle_step ?a ?d1 (fst (reconcile_open_cycles ?a 50 ?d1))" by (rule lifecycle_step.reconcile)
  ultimately have "(lifecycle_step ?a)\<^sup>*\<^sup>* running_db (fst (reconcile_open_cycles ?a 50 ?d1))" by simp
  moreover have "get_campaign ''c1'' running_db = Some sample_campaign" "c_status sample_campaign \<noteq> Achieved"
    by (simp_all add: running_db_def cycle_db_def sample_db_def row_get_def)
  ultimately show ?thesis using loop_keeps_ends [OF sample_attempts_wf] by blast
qed

text \<open>
  A result counts once: the first result accepted for an evaluation closes its cycle, and any
  later delivery for the same job, whatever it claims, is answered \<open>late\<close>, changes no attempt and
  no campaign, and is only recorded in the campaign's history.
\<close>

theorem eval_result_once:
  assumes "attempt_of_job (f_job f) d = Some a" and "get_campaign (a_campaign a) d = Some c"
    and "\<not> wrong_machine machine f c d" and "a_closed a \<noteq> None"
  shows "\<exists>d'. on_eval_result assign f machine now d = Inr (d', ''late'')
    \<and> d_attempts d' = d_attempts d \<and> d_campaigns d' = d_campaigns d \<and> same_world d d'
    \<and> set (d_events d) \<subseteq> set (d_events d')
    \<and> key_of (c_id c) (''job:'' @ or_empty (f_job f) @ '':late'') \<in> e_key ` set (d_events d')"
proof -
  have r: "on_eval_result assign f machine now d = Inr (late_result c a f now d, ''late'')"
    using assms by (simp add: on_eval_result_def)
  have "same_world d (late_result c a f now d)" "d_attempts (late_result c a f now d) = d_attempts d"
    "d_campaigns (late_result c a f now d) = d_campaigns d"
    "set (d_events d) \<subseteq> set (d_events (late_result c a f now d))"
    "key_of (c_id c) (''job:'' @ or_empty (f_job f) @ '':late'') \<in> e_key ` set (d_events (late_result c a f now d))"
    using record_event_mono record_event_key by (simp_all add: late_result_def same_world_def)
  then show ?thesis by (intro exI [where x = "late_result c a f now d"] conjI r)
qed

definition judged_attempt :: attempt where
  "judged_attempt = (new_attempt ''a1'' ''c1'' 1 CycleKind ''t1'' 0 EvOk)\<lparr>a_closed := Some 7, a_eval_job := Some ''a1''\<rparr>"

definition judged_db :: db where
  "judged_db = cycle_db\<lparr>d_attempts := [judged_attempt]\<rparr>"

definition sample_frame :: eval_frame where
  "sample_frame = \<lparr>f_job = Some ''a1'', f_agent = Some ''g1'', f_status = ''ok'', f_parsed = None, f_stdout = None,
     f_stderr = None, f_error = None, f_pins = None\<rparr>"

lemma eval_result_once_witness:
  "\<exists>d'. on_eval_result (\<lambda>_ _ _. None) sample_frame None 9 judged_db = Inr (d', ''late'')
    \<and> d_attempts d' = [judged_attempt]"
proof -
  have a: "attempt_of_job (f_job sample_frame) judged_db = Some judged_attempt"
    by (simp add: attempt_of_job_def sample_frame_def judged_db_def judged_attempt_def)
  have c: "get_campaign (a_campaign judged_attempt) judged_db = Some sample_campaign"
    by (simp add: judged_db_def judged_attempt_def new_attempt_def cycle_db_def sample_db_def row_get_def)
  have w: "\<not> wrong_machine None sample_frame sample_campaign judged_db" by (simp add: wrong_machine_def)
  have cl: "a_closed judged_attempt \<noteq> None" by (simp add: judged_attempt_def)
  have "d_attempts judged_db = [judged_attempt]" by (simp add: judged_db_def)
  then show ?thesis using eval_result_once [OF a c w cl, where assign = "\<lambda>_ _ _. None" and now = 9] by auto
qed

end
