(* ===== verification/CampaignScheduler.thy ===== *)
theory CampaignScheduler
  imports CampaignLifecycle "HOL-Library.Option_ord"
begin

text \<open>
  The campaign scheduler (campaigns/scheduler.py): the query that picks due campaigns, the step
  that advances one of them in its own transaction, and the tick that runs the safety net and then
  the steps. A cycle opens with the campaign's compare-and-set write, the assigned task
  (task_materialize.py) and the attempt row, in one transaction.

  The texts of the two briefs are parameters. The assignment message that wakes the agent is the
  list \<open>d_assigned\<close> of the state. \<open>IntegrityError\<close> is the database refusing a second task with the
  same idempotency key or a second attempt with the same cycle number.
\<close>

abbreviation MAX_CAMPAIGNS_PER_TICK :: nat where "MAX_CAMPAIGNS_PER_TICK \<equiv> 25"
abbreviation SCHEDULER_ACTOR :: string where "SCHEDULER_ACTOR \<equiv> ''system:scheduler''"

datatype tick_action =
  TickOpened | TickRetro | TickRetroSkipped | TickStopped | TickDeadline | TickBudget | TickBlocked | TickSkipped

record tick_outcome =
  to_campaign :: string
  to_action :: tick_action
  to_task :: "string option"
  to_cycle :: "int option"

definition outcome_of :: "string \<Rightarrow> tick_action \<Rightarrow> tick_outcome" where
  "outcome_of cid act = \<lparr>to_campaign = cid, to_action = act, to_task = None, to_cycle = None\<rparr>"

definition cycle_idempotency_key :: "string \<Rightarrow> int \<Rightarrow> string" where
  "cycle_idempotency_key cid n = ''campaign:'' @ cid @ '':'' @ int_str n"

section \<open>Assigned tasks\<close>

record new_task =
  nt_title :: string
  nt_spec :: "string option"
  nt_created_by :: "string option"
  nt_triggered_by :: string
  nt_idem_key :: "string option"
  nt_campaign :: "string option"

definition materialize_assigned_task ::
  "room_row \<Rightarrow> participant_row \<Rightarrow> new_task \<Rightarrow> instant \<Rightarrow> db \<Rightarrow> camp_exc + (task_row \<times> db)" where
  "materialize_assigned_task room participant t now d =
     (if nt_idem_key t \<noteq> None \<and> nt_idem_key t \<in> k_idem_key ` set (d_tasks d) then Inl IntegrityError
      else
        let (tid, d1) = draw_uuid d;
            task = \<lparr>k_id = tid, k_room = r_id room, k_title = nt_title t, k_spec = nt_spec t, k_status = Todo,
              k_error = None, k_finished = None, k_assignee = Some (p_id participant), k_assigned_at = Some now,
              k_created_by = nt_created_by t, k_triggered_by = nt_triggered_by t, k_idem_key = nt_idem_key t,
              k_campaign = nt_campaign t, k_execution = None, k_input_rev = None\<rparr>;
            d2 = row_add d_tasks_update task d1
        in Inr (task, d2\<lparr>d_assigned := d_assigned d2 @ [tid]\<rparr>))"

section \<open>Opening cycles\<close>

definition max_cycle_no :: "string \<Rightarrow> db \<Rightarrow> int" where
  "max_cycle_no cid d =
     (case map a_cycle_no (attempts_of cid d) of [] \<Rightarrow> 0 | n # ns \<Rightarrow> fold max ns n)"

definition next_cycle_no :: "string \<Rightarrow> db \<Rightarrow> int" where
  "next_cycle_no cid d = max_cycle_no cid d + 1"

text \<open>The attempt of a new cycle, linked to its task.\<close>

definition insert_attempt ::
  "string \<Rightarrow> int \<Rightarrow> attempt_kind \<Rightarrow> string \<Rightarrow> eval_status \<Rightarrow> instant \<Rightarrow> db \<Rightarrow> camp_exc + db" where
  "insert_attempt cid n kind tid evs now d =
     (if n \<in> a_cycle_no ` set (attempts_of cid d) then Inl IntegrityError
      else
        let (aid, d1) = draw_uuid d
        in Inr (add_mark (MarkAttempt aid) (row_add d_attempts_update (new_attempt aid cid n kind tid now evs) d1)))"

definition cycle_title :: "campaign \<Rightarrow> int \<Rightarrow> string" where
  "cycle_title c n = take 500 (c_title c @ '' '' @ [CHR 0x97] @ '' cycle '' @ int_str n)"

definition retro_title :: "campaign \<Rightarrow> string" where
  "retro_title c = take 500 (c_title c @ '' '' @ [CHR 0x97] @ '' retrospective'')"

definition cycle_task_of :: "campaign \<Rightarrow> string \<Rightarrow> string \<Rightarrow> int \<Rightarrow> new_task" where
  "cycle_task_of c title brief n =
     \<lparr>nt_title = title, nt_spec = Some brief, nt_created_by = c_owner c, nt_triggered_by = ''campaign'',
      nt_idem_key = Some (cycle_idempotency_key (c_id c) n), nt_campaign = Some (c_id c)\<rparr>"

text \<open>Task, attempt and history row of a claimed cycle.\<close>

definition open_attempt ::
  "campaign \<Rightarrow> room_row \<Rightarrow> participant_row \<Rightarrow> new_task \<Rightarrow> int \<Rightarrow> attempt_kind \<Rightarrow> eval_status \<Rightarrow> string
   \<Rightarrow> (string \<times> pyval) list \<Rightarrow> instant \<Rightarrow> db \<Rightarrow> camp_exc + (db \<times> string)" where
  "open_attempt c room participant t n kind evs what extra now d =
     bindE (materialize_assigned_task room participant t now d) (\<lambda>(task, d1).
       bindE (insert_attempt (c_id c) n kind (k_id task) evs now d1) (\<lambda>d2.
         Inr (record_event (c_id c) (cycle_key (c_id c) n what)
                (if what = ''opened'' then ''cycle_opened'' else what)
                ([(''cycle_no'', PInt n), (''task_id'', PStr (k_id task))] @ extra) SCHEDULER_ACTOR now d2,
              k_id task)))"

definition open_cycle ::
  "string \<Rightarrow> campaign \<Rightarrow> room_row \<Rightarrow> participant_row \<Rightarrow> instant \<Rightarrow> db \<Rightarrow> camp_exc + (db \<times> tick_outcome)" where
  "open_cycle brief c room participant now d =
     (let n = next_cycle_no (c_id c) d
      in case cas_update c None None [ColCyclesRun (c_cycles_run c + 1), ColWakeReason None] now d of
           (d1, c1, ok) \<Rightarrow>
             if \<not> ok then Inr (d1, outcome_of (c_id c) TickSkipped)
             else bindE (open_attempt c1 room participant (cycle_task_of c1 (cycle_title c1 n) brief n) n
                           CycleKind EvPending ''opened'' [] now d1) (\<lambda>(d2, tid).
               Inr (d2, \<lparr>to_campaign = c_id c, to_action = TickOpened, to_task = Some tid, to_cycle = Some n\<rparr>)))"

definition retro_reason :: "retro_why option \<Rightarrow> string" where
  "retro_reason w = (case w of
       None \<Rightarrow> ''periodic'' | Some RetroPeriodic \<Rightarrow> ''periodic'' | Some (RetroEnd s) \<Rightarrow> status_name s)"

definition open_retrospective ::
  "string \<Rightarrow> campaign \<Rightarrow> room_row \<Rightarrow> participant_row \<Rightarrow> instant \<Rightarrow> db \<Rightarrow> camp_exc + (db \<times> tick_outcome)" where
  "open_retrospective brief c room participant now d =
     (let n = next_cycle_no (c_id c) d
      in case cas_update c None None [ColRetroDue None] now d of
           (d1, c1, ok) \<Rightarrow>
             if \<not> ok then Inr (d1, outcome_of (c_id c) TickSkipped)
             else bindE (open_attempt c1 room participant (cycle_task_of c1 (retro_title c1) brief n) n
                           RetroKind EvSkipped ''retrospective_opened''
                           [(''reason'', if c_retro_due c = None then PNone else PStr (retro_reason (c_retro_due c)))]
                           now d1) (\<lambda>(d2, tid).
               Inr (d2, \<lparr>to_campaign = c_id c, to_action = TickRetro, to_task = Some tid, to_cycle = Some n\<rparr>)))"

definition skip_retrospective :: "campaign \<Rightarrow> instant \<Rightarrow> db \<Rightarrow> db \<times> tick_outcome" where
  "skip_retrospective c now d =
     (case cas_update c None None [ColRetroDue None] now d of
        (d1, c1, ok) \<Rightarrow>
          if \<not> ok then (d1, outcome_of (c_id c) TickSkipped)
          else (record_event (c_id c) (key_of (c_id c) (''retro:'' @ int_str (c_rev c1) @ '':skipped''))
                  ''retrospective_skipped''
                  [(''reason'', if c_retro_due c = None then PNone else PStr (retro_reason (c_retro_due c))),
                   (''why'', PStr ''room_or_agent_unavailable'')] SCHEDULER_ACTOR now d1,
                outcome_of (c_id c) TickRetroSkipped))"

section \<open>One step of a campaign\<close>

definition room_alive :: "room_row option \<Rightarrow> bool" where
  "room_alive r \<longleftrightarrow> (case r of None \<Rightarrow> False | Some room \<Rightarrow> r_archived room = None)"

definition past :: "instant option \<Rightarrow> instant \<Rightarrow> bool" where
  "past t now \<longleftrightarrow> (case t of None \<Rightarrow> False | Some x \<Rightarrow> x \<le> now)"

definition lead_participant :: "campaign \<Rightarrow> room_row \<Rightarrow> db \<Rightarrow> participant_row option" where
  "lead_participant c room d =
     (if truthy (c_agent c) then find_agent_participant (r_id room) (the (c_agent c)) d else None)"

definition end_step ::
  "camp_event \<Rightarrow> tick_action \<Rightarrow> (string \<times> pyval) list \<Rightarrow> col list \<Rightarrow> campaign \<Rightarrow> instant \<Rightarrow> db
   \<Rightarrow> camp_exc + (db \<times> tick_outcome)" where
  "end_step e act det vs c now d =
     bindE (apply_transition c e SCHEDULER_ACTOR now det None None vs d) (\<lambda>(d1, _, ok).
       Inr (d1, outcome_of (c_id c) (if ok then act else TickSkipped)))"

definition blocked_detail :: string where
  "blocked_detail = ''The campaign's agent is no longer a participant of the room.''"

definition retro_pending :: "campaign \<Rightarrow> bool" where
  "retro_pending c \<longleftrightarrow> c_retro_due c \<noteq> None \<and> (c_status c = Active \<or> c_status c \<in> set RETRO_STATUSES)"

record briefs =
  br_cycle :: "campaign \<Rightarrow> attempt list \<Rightarrow> int \<Rightarrow> instant \<Rightarrow> string"
  br_retro :: "campaign \<Rightarrow> attempt list \<Rightarrow> string \<Rightarrow> int \<Rightarrow> instant \<Rightarrow> db \<Rightarrow> string"

definition cycle_brief :: "briefs \<Rightarrow> campaign \<Rightarrow> instant \<Rightarrow> db \<Rightarrow> string" where
  "cycle_brief br c now d = br_cycle br c (attempts_of (c_id c) d) (next_cycle_no (c_id c) d) now"

definition retrospective_brief :: "briefs \<Rightarrow> campaign \<Rightarrow> instant \<Rightarrow> db \<Rightarrow> string" where
  "retrospective_brief br c now d =
     br_retro br c (attempts_of (c_id c) d) (retro_reason (c_retro_due c)) (next_cycle_no (c_id c) d) now d"

text \<open>An ended campaign has only its retrospective left to run.\<close>

definition advance_ended :: "briefs \<Rightarrow> campaign \<Rightarrow> instant \<Rightarrow> db \<Rightarrow> camp_exc + (db \<times> tick_outcome)" where
  "advance_ended br c now d =
     (let room = get_room (c_room c) d
      in case (if room_alive room then lead_participant c (the room) d else None) of
           None \<Rightarrow> Inr (skip_retrospective c now d)
         | Some p \<Rightarrow>
             if c_next c \<noteq> None \<and> \<not> past (c_next c) now then Inr (d, outcome_of (c_id c) TickSkipped)
             else open_retrospective (retrospective_brief br c now d) c (the room) p now d)"

definition advance_active :: "briefs \<Rightarrow> campaign \<Rightarrow> instant \<Rightarrow> db \<Rightarrow> camp_exc + (db \<times> tick_outcome)" where
  "advance_active br c now d =
     (let room = get_room (c_room c) d
      in if \<not> room_alive room then
           end_step TStop TickStopped [(''reason'', PStr ''room_archived'')] [ColStopReason (Some ''room_archived'')] c now d
         else if past (c_deadline c) now then
           end_step TDeadline TickDeadline [] [ColStopReason (Some ''deadline'')] c now d
         else bindE (lift_py (remaining_cycle_tokens c)) (\<lambda>remaining.
           if (case remaining of None \<Rightarrow> False | Some n \<Rightarrow> n \<le> 0) then
             end_step TBudgetExhausted TickBudget [(''tokens_used'', PInt (c_tokens_used c))]
               [ColStopReason (Some ''budget'')] c now d
           else if \<not> past (c_next c) now then Inr (d, outcome_of (c_id c) TickSkipped)
           else case lead_participant c (the room) d of
             None \<Rightarrow> end_step TBlock TickBlocked [(''reason'', PStr ''agent_not_in_room'')]
                       [ColStatusDetail (Some blocked_detail)] c now d
           | Some p \<Rightarrow>
               if retro_pending c then open_retrospective (retrospective_brief br c now d) c (the room) p now d
               else open_cycle (cycle_brief br c now d) c (the room) p now d))"

definition advance_step :: "briefs \<Rightarrow> string \<Rightarrow> instant \<Rightarrow> db \<Rightarrow> camp_exc + (db \<times> tick_outcome)" where
  "advance_step br cid now d =
     (case get_campaign cid d of
        None \<Rightarrow> Inr (d, outcome_of cid TickSkipped)
      | Some c \<Rightarrow>
          if c_status c \<noteq> Active \<and> \<not> retro_pending c then Inr (d, outcome_of cid TickSkipped)
          else if open_attempts cid d \<noteq> [] then Inr (d, outcome_of cid TickSkipped)
          else if c_status c = Active then advance_active br c now d
          else advance_ended br c now d)"

text \<open>One campaign in its own transaction: a skipped step is rolled back.\<close>

definition advance :: "briefs \<Rightarrow> string \<Rightarrow> instant \<Rightarrow> db \<Rightarrow> camp_exc + (db \<times> tick_outcome)" where
  "advance br cid now d =
     bindE (advance_step br cid now d) (\<lambda>(d1, o1).
       Inr (if to_action o1 = TickSkipped then d else d1, o1))"

section \<open>The tick\<close>

definition due :: "instant \<Rightarrow> db \<Rightarrow> campaign \<Rightarrow> bool" where
  "due now d c \<longleftrightarrow>
     ((c_status c = Active \<and> (past (c_next c) now \<or> past (c_deadline c) now))
      \<or> (c_retro_due c \<noteq> None \<and> c_status c \<in> set RETRO_STATUSES \<and> (c_next c = None \<or> past (c_next c) now)))
     \<and> open_attempts (c_id c) d = []"

text \<open>\<open>ORDER BY next_cycle_at\<close> with NULL first, as SQLite sorts it.\<close>

definition due_ids :: "instant \<Rightarrow> db \<Rightarrow> string list" where
  "due_ids now d = take MAX_CAMPAIGNS_PER_TICK (map c_id (sort_key c_next (filter (due now d) (d_campaigns d))))"

definition advance_all :: "briefs \<Rightarrow> instant \<Rightarrow> string list \<Rightarrow> db \<Rightarrow> db \<times> tick_outcome list" where
  "advance_all br now ids d =
     fold (\<lambda>cid s. case advance br cid now (fst s) of
             Inl _ \<Rightarrow> s
           | Inr (d1, o1) \<Rightarrow> (d1, snd s @ [o1])) ids (d, [])"

text \<open>The safety net runs first, in its own transaction; when it raises, the tick goes on.\<close>

definition reconcile_loop :: "assigner \<Rightarrow> instant \<Rightarrow> db \<Rightarrow> db" where
  "reconcile_loop assign now d =
     (let d1 = fst (reconcile_open_cycles assign now (fst (expire_eval_deadlines assign now d)))
      in if d_raised d1 = None then d1 else d)"

definition tick :: "assigner \<Rightarrow> briefs \<Rightarrow> instant \<Rightarrow> db \<Rightarrow> db \<times> tick_outcome list" where
  "tick assign br now d =
     (let d1 = reconcile_loop assign now d in advance_all br now (due_ids now d1) d1)"


section \<open>What opening a cycle does\<close>

lemma fold_max_ge: "m \<in> set (n # ns) \<Longrightarrow> m \<le> fold max ns (n :: int)"
proof (induction ns arbitrary: n m)
  case (Cons k ns)
  then have "m \<le> max k n \<or> m \<in> set ns" by auto
  moreover have "max k n \<le> fold max ns (max k n)" by (rule Cons.IH) simp
  moreover have "m \<in> set ns \<Longrightarrow> m \<le> fold max ns (max k n)" by (rule Cons.IH) simp
  ultimately show ?case by auto
qed simp

lemma max_cycle_no_ge: "a \<in> set (attempts_of cid d) \<Longrightarrow> a_cycle_no a \<le> max_cycle_no cid d"
proof -
  assume a: "a \<in> set (attempts_of cid d)"
  show ?thesis
  proof (cases "attempts_of cid d")
    case (Cons b bs)
    have "a_cycle_no a \<in> set (a_cycle_no b # map a_cycle_no bs)" using a unfolding Cons by auto
    then show ?thesis unfolding max_cycle_no_def Cons by (simp add: fold_max_ge del: fold_map)
  qed (use a in simp)
qed

lemma next_cycle_no_fresh: "next_cycle_no cid d \<notin> a_cycle_no ` set (attempts_of cid d)"
  using max_cycle_no_ge [of _ cid d] by (fastforce simp: next_cycle_no_def)

definition opened_task :: "string \<Rightarrow> room_row \<Rightarrow> participant_row \<Rightarrow> new_task \<Rightarrow> instant \<Rightarrow> task_row" where
  "opened_task tid room p t now =
     \<lparr>k_id = tid, k_room = r_id room, k_title = nt_title t, k_spec = nt_spec t, k_status = Todo,
      k_error = None, k_finished = None, k_assignee = Some (p_id p), k_assigned_at = Some now,
      k_created_by = nt_created_by t, k_triggered_by = nt_triggered_by t, k_idem_key = nt_idem_key t,
      k_campaign = nt_campaign t, k_execution = None, k_input_rev = None\<rparr>"

lemma materialize_cases:
  assumes "materialize_assigned_task room p t now d = Inr (task, d1)"
  obtains "nt_idem_key t = None \<or> nt_idem_key t \<notin> k_idem_key ` set (d_tasks d)"
    "task = opened_task (d_uuid d (d_drawn d)) room p t now" "d_tasks d1 = d_tasks d @ [task]"
    "d_assigned d1 = d_assigned d @ [k_id task]" "d_attempts d1 = d_attempts d" "d_campaigns d1 = d_campaigns d"
    "d_events d1 = d_events d" "d_uuid d1 = d_uuid d" "d_drawn d1 = d_drawn d + 1" "d_rooms d1 = d_rooms d"
    "d_participants d1 = d_participants d"
  using assms
  by (auto simp: materialize_assigned_task_def draw_uuid_def Let_def opened_task_def split: if_splits)

lemma insert_attempt_cases:
  assumes "insert_attempt cid n kind tid evs now d = Inr d1"
  obtains "n \<notin> a_cycle_no ` set (attempts_of cid d)"
    "d_attempts d1 = d_attempts d @ [new_attempt (d_uuid d (d_drawn d)) cid n kind tid now evs]"
    "d_tasks d1 = d_tasks d" "d_campaigns d1 = d_campaigns d" "d_events d1 = d_events d"
    "d_uuid d1 = d_uuid d" "d_drawn d1 = d_drawn d + 1" "d_assigned d1 = d_assigned d"
  using assms by (auto simp: insert_attempt_def draw_uuid_def Let_def split: if_splits)

lemma open_attempt_cases:
  assumes "open_attempt c room p t n kind evs what extra now d = Inr (d', tid)"
  obtains k a where "tid = d_uuid d (d_drawn d)" "k = opened_task tid room p t now"
    "nt_idem_key t = None \<or> nt_idem_key t \<notin> k_idem_key ` set (d_tasks d)"
    "n \<notin> a_cycle_no ` set (attempts_of (c_id c) d)"
    "a = new_attempt (d_uuid d (d_drawn d + 1)) (c_id c) n kind tid now evs"
    "d_tasks d' = d_tasks d @ [k]" "d_attempts d' = d_attempts d @ [a]" "d_assigned d' = d_assigned d @ [tid]"
    "d_campaigns d' = d_campaigns d" "d_uuid d' = d_uuid d" "d_drawn d' = d_drawn d + 2"
    "cycle_key (c_id c) n what \<in> e_key ` set (d_events d')"
proof -
  from assms obtain task d1 d2 where m: "materialize_assigned_task room p t now d = Inr (task, d1)"
    and i: "insert_attempt (c_id c) n kind (k_id task) evs now d1 = Inr d2"
    and d': "d' = record_event (c_id c) (cycle_key (c_id c) n what)
                (if what = ''opened'' then ''cycle_opened'' else what)
                ([(''cycle_no'', PInt n), (''task_id'', PStr (k_id task))] @ extra) SCHEDULER_ACTOR now d2"
    and tid: "tid = k_id task"
    by (auto simp: open_attempt_def bindE_Inr_iff)
  from m show thesis
  proof (cases rule: materialize_cases)
    case 1
    note mat = 1
    from i show thesis
    proof (cases rule: insert_attempt_cases)
      case 1
      have id: "k_id task = d_uuid d (d_drawn d)" using mat(2) by (simp add: opened_task_def)
      show thesis
        by (rule that [of task "new_attempt (d_uuid d (d_drawn d + 1)) (c_id c) n kind tid now evs"])
           (use 1 mat tid id in \<open>simp_all add: d' attempts_of_def record_event_key\<close>)
    qed
  qed
qed

lemma cas_own_row:
  assumes "get_campaign (c_id c) d = Some c" and "cas_update c None None vs now d = (d1, c1, ok)"
  shows "ok" "c1 = cas_write vs None (c_rev c) now c" "d_attempts d1 = d_attempts d" "same_world d d1"
    "\<And>k. get_campaign k d1 = (if k = c_id c then Some c1 else get_campaign k d)"
    "d_assigned d1 = d_assigned d"
proof -
  have "d1 = add_mark (MarkCampaign (c_id c)) (upd_campaign (c_id c) (cas_write vs None (c_rev c) now) d) \<and>
    c1 = cas_write vs None (c_rev c) now c \<and> ok"
    using assms by (auto simp: cas_update_def seen_rev_def Let_def)
  then show "ok" "c1 = cas_write vs None (c_rev c) now c" "d_attempts d1 = d_attempts d"
    "\<And>k. get_campaign k d1 = (if k = c_id c then Some c1 else get_campaign k d)" "d_assigned d1 = d_assigned d"
    using assms(1) by simp_all
  show "same_world d d1" using assms(2) by (rule cas_update_world)
qed

text \<open>What both kinds of opening leave, in one place.\<close>

definition cycle_opening :: "attempt_kind \<Rightarrow> instant \<Rightarrow> campaign \<Rightarrow> campaign \<Rightarrow> db \<Rightarrow> db \<Rightarrow> string \<Rightarrow> int \<Rightarrow> bool" where
  "cycle_opening kind now c c' d d' tid n \<longleftrightarrow>
     n = next_cycle_no (c_id c) d \<and> tid = d_uuid d (d_drawn d) \<and>
     (\<exists>k. d_tasks d' = d_tasks d @ [k] \<and> k_id k = tid \<and> k_status k = Todo \<and> k_campaign k = Some (c_id c)
        \<and> k_idem_key k = Some (cycle_idempotency_key (c_id c) n)) \<and>
     Some (cycle_idempotency_key (c_id c) n) \<notin> k_idem_key ` set (d_tasks d) \<and>
     d_attempts d' = d_attempts d @ [new_attempt (d_uuid d (d_drawn d + 1)) (c_id c) n kind tid now
        (if kind = RetroKind then EvSkipped else EvPending)] \<and>
     d_assigned d' = d_assigned d @ [tid] \<and> d_uuid d' = d_uuid d \<and> d_drawn d' = d_drawn d + 2 \<and>
     c_rev c' = c_rev c + 1 \<and> c_status c' = c_status c \<and>
     (\<forall>k. get_campaign k d' = (if k = c_id c then Some c' else get_campaign k d))"

lemma open_after_cas:
  assumes "get_campaign (c_id c) d = Some c" and "cas_update c None None vs now d = (d1, c1, ok)"
    and "open_attempt c1 room p (cycle_task_of c1 title brief n) n kind
           (if kind = RetroKind then EvSkipped else EvPending) what extra now d1 = Inr (d', tid)"
    and "n = next_cycle_no (c_id c) d"
  shows "cycle_opening kind now c c1 d d' tid n"
proof -
  note own = cas_own_row [OF assms(1,2)]
  have w: "d_tasks d1 = d_tasks d" "d_uuid d1 = d_uuid d" "d_drawn d1 = d_drawn d"
    using own(4) by (simp_all add: same_world_def)
  have c1: "c_id c1 = c_id c" "c_rev c1 = c_rev c + 1" "c_status c1 = c_status c" using own(2) by simp_all
  from assms(3) show ?thesis
  proof (cases rule: open_attempt_cases)
    case (1 k a)
    have k: "k_id k = tid" "k_status k = Todo" "k_campaign k = Some (c_id c)"
      "k_idem_key k = Some (cycle_idempotency_key (c_id c) n)"
      using 1(2) c1(1) by (simp_all add: opened_task_def cycle_task_of_def)
    have fresh: "Some (cycle_idempotency_key (c_id c) n) \<notin> k_idem_key ` set (d_tasks d)"
      using 1(3) w(1) c1(1) by (simp add: cycle_task_of_def)
    have camps: "get_campaign j d' = (if j = c_id c then Some c1 else get_campaign j d)" for j
      using own(5) [of j] 1(9) by (simp add: row_get_def)
    show ?thesis unfolding cycle_opening_def
      using assms(4) 1 k fresh camps c1 own(3,6) w by auto
  qed
qed


lemma open_cycle_cases:
  assumes "get_campaign (c_id c) d = Some c" and "open_cycle brief c room p now d = Inr (d', out)"
  obtains c' tid where "cycle_opening CycleKind now c c' d d' tid (next_cycle_no (c_id c) d)"
    "c_cycles_run c' = c_cycles_run c + 1" "c_wake_reason c' = None"
    "out = \<lparr>to_campaign = c_id c, to_action = TickOpened, to_task = Some tid, to_cycle = Some (next_cycle_no (c_id c) d)\<rparr>"
proof -
  let ?n = "next_cycle_no (c_id c) d" and ?vs = "[ColCyclesRun (c_cycles_run c + 1), ColWakeReason None]"
  obtain d1 c1 ok where cas: "cas_update c None None ?vs now d = (d1, c1, ok)" by (metis prod_cases3)
  note own = cas_own_row [OF assms(1) cas]
  from assms(2) own(1) obtain tid where
    op: "open_attempt c1 room p (cycle_task_of c1 (cycle_title c1 ?n) brief ?n) ?n CycleKind EvPending ''opened'' [] now d1
           = Inr (d', tid)"
    and out: "out = \<lparr>to_campaign = c_id c, to_action = TickOpened, to_task = Some tid, to_cycle = Some ?n\<rparr>"
    by (auto simp: open_cycle_def cas bindE_Inr_iff Let_def)
  have "cycle_opening CycleKind now c c1 d d' tid ?n"
    by (rule open_after_cas [OF assms(1) cas _ refl]) (use op in simp)
  moreover have "c_cycles_run c1 = c_cycles_run c + 1" "c_wake_reason c1 = None"
    using own(2) by (simp_all add: cas_write_def)
  ultimately show thesis using out by (rule that)
qed

lemma open_retrospective_cases:
  assumes "get_campaign (c_id c) d = Some c" and "open_retrospective brief c room p now d = Inr (d', out)"
  obtains c' tid where "cycle_opening RetroKind now c c' d d' tid (next_cycle_no (c_id c) d)"
    "c_cycles_run c' = c_cycles_run c" "c_retro_due c' = None"
    "out = \<lparr>to_campaign = c_id c, to_action = TickRetro, to_task = Some tid, to_cycle = Some (next_cycle_no (c_id c) d)\<rparr>"
proof -
  let ?n = "next_cycle_no (c_id c) d" and ?vs = "[ColRetroDue None]"
  obtain d1 c1 ok where cas: "cas_update c None None ?vs now d = (d1, c1, ok)" by (metis prod_cases3)
  note own = cas_own_row [OF assms(1) cas]
  from assms(2) own(1) obtain tid extra where
    op: "open_attempt c1 room p (cycle_task_of c1 (retro_title c1) brief ?n) ?n RetroKind EvSkipped
           ''retrospective_opened'' extra now d1 = Inr (d', tid)"
    and out: "out = \<lparr>to_campaign = c_id c, to_action = TickRetro, to_task = Some tid, to_cycle = Some ?n\<rparr>"
    by (auto simp: open_retrospective_def cas bindE_Inr_iff Let_def)
  have "cycle_opening RetroKind now c c1 d d' tid ?n"
    by (rule open_after_cas [OF assms(1) cas _ refl]) (use op in simp)
  moreover have "c_cycles_run c1 = c_cycles_run c" "c_retro_due c1 = None"
    using own(2) by (simp_all add: cas_write_def)
  ultimately show thesis using out by (rule that)
qed

text \<open>A transition that wins moves its row along one event; nothing else changes a campaign.\<close>

lemma apply_transition_path:
  assumes "get_campaign (c_id c) d = Some c" and "apply_transition c e actor now det None None vs d = Inr (d1, c1, ok)"
    and "e \<in> set E"
  shows "get_campaign k d1 = (if k = c_id c then Some c1 else get_campaign k d)" "status_path E c c1" "ok"
proof -
  from assms(2) have ok
    using assms(1) by (auto simp: apply_transition_def cas_update_def seen_rev_def Let_def bindE_Inr_iff)
  with assms(2) show ok by simp
  from assms(2) show "get_campaign k d1 = (if k = c_id c then Some c1 else get_campaign k d)"
  proof (cases rule: apply_transition_cases)
    case (won row new)
    then show ?thesis using assms(1) by (simp add: seen_rev_def)
  qed (use \<open>ok\<close> in simp)
  from assms(2) show "status_path E c c1"
  proof (cases rule: apply_transition_cases)
    case (won row new)
    then show ?thesis using assms(3) by (intro status_path_event) (simp_all add: seen_rev_def)
  qed (use \<open>ok\<close> in simp)
qed

lemma end_step_quiet:
  assumes "end_step e act det vs c now d = Inr (d', out)" and "act \<notin> {TickOpened, TickRetro}"
    and "get_campaign (c_id c) d = Some c" and "e \<in> set SYSTEM_EVENTS"
  shows "same_world d d' \<and> campaigns_kept d d' \<and> to_action out \<notin> {TickOpened, TickRetro}"
proof -
  obtain c1 ok where a: "apply_transition c e SCHEDULER_ACTOR now det None None vs d = Inr (d', c1, ok)"
    and out: "out = outcome_of (c_id c) (if ok then act else TickSkipped)"
    using assms(1) by (auto simp: end_step_def bindE_Inr_iff)
  note p = apply_transition_path [OF assms(3) a assms(4)]
  have "campaigns_kept d d'" using assms(3) p(2,1) by (rule campaigns_kept_one)
  with apply_transition_world [OF a] out assms(2) show ?thesis by (auto simp: outcome_of_def)
qed

lemma skip_retrospective_quiet:
  assumes "skip_retrospective c now d = (d', out)" and "get_campaign (c_id c) d = Some c"
  shows "same_world d d' \<and> campaigns_kept d d' \<and> to_action out \<notin> {TickOpened, TickRetro}"
proof -
  obtain d1 c1 ok where cas: "cas_update c None None [ColRetroDue None] now d = (d1, c1, ok)" by (metis prod_cases3)
  note own = cas_own_row [OF assms(2) cas]
  have "status_path SYSTEM_EVENTS c c1" using own(2) by (intro status_path_same) simp
  from campaigns_kept_one [OF assms(2) this own(5)] have "campaigns_kept d d1" .
  moreover have "d_campaigns d' = d_campaigns d1" "same_world d d'" "to_action out \<notin> {TickOpened, TickRetro}"
    using assms(1) own(4) by (auto simp: skip_retrospective_def cas outcome_of_def same_world_def split: if_splits)
  ultimately show ?thesis by (simp add: campaigns_kept_def row_get_def)
qed

text \<open>What an active campaign needs to open anything.\<close>

definition may_open :: "instant \<Rightarrow> db \<Rightarrow> campaign \<Rightarrow> bool" where
  "may_open now d c \<longleftrightarrow> c_status c = Active \<and> \<not> past (c_deadline c) now \<and> past (c_next c) now
     \<and> (case remaining_cycle_tokens c of Inl _ \<Rightarrow> False | Inr r \<Rightarrow> r = None \<or> 0 < the r)"

lemma advance_cases:
  assumes "advance br cid now d = Inr (d', out)"
  obtains (quiet) "same_world d d'" "campaigns_kept d d'" "to_action out \<notin> {TickOpened, TickRetro}"
    | (opened) c c' p tid kind where "get_campaign cid d = Some c" "open_attempts cid d = []"
        "room_alive (get_room (c_room c) d)" "lead_participant c (the (get_room (c_room c) d)) d = Some p"
        "cycle_opening kind now c c' d d' tid (next_cycle_no cid d)"
        "if kind = RetroKind
         then retro_pending c \<and> c_retro_due c' = None \<and> c_cycles_run c' = c_cycles_run c
              \<and> (c_status c = Active \<longrightarrow> may_open now d c)
         else \<not> retro_pending c \<and> c_wake_reason c' = None \<and> c_cycles_run c' = c_cycles_run c + 1 \<and> may_open now d c"
        "out = \<lparr>to_campaign = cid, to_action = (if kind = RetroKind then TickRetro else TickOpened),
                to_task = Some tid, to_cycle = Some (next_cycle_no cid d)\<rparr>"
proof -
  from assms obtain d1 where st: "advance_step br cid now d = Inr (d1, out)"
    and d': "d' = (if to_action out = TickSkipped then d else d1)"
    by (auto simp: advance_def bindE_Inr_iff)
  have calm: thesis if "same_world d d1 \<and> campaigns_kept d d1 \<and> to_action out \<notin> {TickOpened, TickRetro}"
    using that d' quiet campaigns_kept_same by (auto split: if_splits)
  have skipped: thesis if "to_action out = TickSkipped" using that d' quiet campaigns_kept_same by auto
  show thesis
  proof (cases "get_campaign cid d")
    case None
    with st show ?thesis by (intro skipped) (auto simp: advance_step_def outcome_of_def)
  next
    case c: (Some c)
    have id: "c_id c = cid" using c by (rule campaigns.get_key)
    have own: "get_campaign (c_id c) d = Some c" using c id by simp
    show ?thesis
    proof (cases "(c_status c \<noteq> Active \<and> \<not> retro_pending c) \<or> open_attempts cid d \<noteq> []")
      case True
      with st c show ?thesis by (intro skipped) (auto simp: advance_step_def outcome_of_def split: if_splits)
    next
      case go: False
      let ?r = "get_room (c_room c) d"
      show ?thesis
      proof (cases "c_status c = Active")
        case False
        with st c go have ended: "advance_ended br c now d = Inr (d1, out)" by (simp add: advance_step_def)
        show ?thesis
        proof (cases "if room_alive ?r then lead_participant c (the ?r) d else None")
          case None
          with ended have "skip_retrospective c now d = (d1, out)" by (simp add: advance_ended_def)
          then show ?thesis using own by (intro calm skip_retrospective_quiet)
        next
          case (Some p)
          then have lead: "room_alive ?r" "lead_participant c (the ?r) d = Some p" by (simp_all split: if_splits)
          show ?thesis
          proof (cases "c_next c \<noteq> None \<and> \<not> past (c_next c) now")
            case True
            with ended Some show ?thesis by (intro skipped) (auto simp: advance_ended_def outcome_of_def)
          next
            case False
            with ended Some have "open_retrospective (retrospective_brief br c now d) c (the ?r) p now d = Inr (d1, out)"
              by (auto simp: advance_ended_def)
            from open_retrospective_cases [OF own this] obtain c' tid where
              o: "cycle_opening RetroKind now c c' d d1 tid (next_cycle_no cid d)" "c_cycles_run c' = c_cycles_run c"
              "c_retro_due c' = None"
              "out = \<lparr>to_campaign = cid, to_action = TickRetro, to_task = Some tid, to_cycle = Some (next_cycle_no cid d)\<rparr>"
              unfolding id by metis
            show ?thesis
              by (rule opened [OF c _ lead, of RetroKind c' tid]) (use go o d' \<open>c_status c \<noteq> Active\<close> in auto)
          qed
        qed
      next
        case act: True
        with st c go have step: "advance_active br c now d = Inr (d1, out)" by (simp add: advance_step_def)
        show ?thesis
        proof (cases "\<not> room_alive ?r \<or> past (c_deadline c) now")
          case True
          with step have "(\<exists>e a det vs. end_step e a det vs c now d = Inr (d1, out) \<and> a \<notin> {TickOpened, TickRetro}
              \<and> e \<in> set SYSTEM_EVENTS)"
            by (auto simp: advance_active_def Let_def SYSTEM_EVENTS_def split: if_splits)
          then show ?thesis using calm end_step_quiet own by blast
        next
          case alive: False
          then obtain r where r: "remaining_cycle_tokens c = Inr r"
            using step by (cases "remaining_cycle_tokens c") (auto simp: advance_active_def)
          show ?thesis
          proof (cases "r \<noteq> None \<and> the r \<le> 0")
            case True
            with step alive r have "end_step TBudgetExhausted TickBudget [(''tokens_used'', PInt (c_tokens_used c))]
               [ColStopReason (Some ''budget'')] c now d = Inr (d1, out)"
              by (auto simp: advance_active_def)
            from end_step_quiet [OF this _ own] show ?thesis by (intro calm) (simp add: SYSTEM_EVENTS_def)
          next
            case rest: False
            then have nob: "(case r of None \<Rightarrow> False | Some n \<Rightarrow> n \<le> 0) = False" by (cases r) auto
            show ?thesis
            proof (cases "past (c_next c) now")
              case False
              with step alive r nob show ?thesis by (intro skipped) (auto simp: advance_active_def outcome_of_def)
            next
              case True
              have may: "may_open now d c" using act alive True r rest by (auto simp: may_open_def)
              show ?thesis
              proof (cases "lead_participant c (the ?r) d")
                case None
                with step alive r nob True have "end_step TBlock TickBlocked [(''reason'', PStr ''agent_not_in_room'')]
                     [ColStatusDetail (Some blocked_detail)] c now d = Inr (d1, out)"
                  by (simp add: advance_active_def)
                from end_step_quiet [OF this _ own] show ?thesis by (intro calm) (simp add: SYSTEM_EVENTS_def)
              next
                case (Some p)
                have lead: "room_alive ?r" "lead_participant c (the ?r) d = Some p" using alive Some by simp_all
                show ?thesis
                proof (cases "retro_pending c")
                  case ret: True
                  with step alive r nob True Some have
                    "open_retrospective (retrospective_brief br c now d) c (the ?r) p now d = Inr (d1, out)"
                    by (simp add: advance_active_def)
                  from open_retrospective_cases [OF own this] obtain c' tid where
                    o: "cycle_opening RetroKind now c c' d d1 tid (next_cycle_no cid d)" "c_cycles_run c' = c_cycles_run c"
                    "c_retro_due c' = None"
                    "out = \<lparr>to_campaign = cid, to_action = TickRetro, to_task = Some tid, to_cycle = Some (next_cycle_no cid d)\<rparr>"
                    unfolding id by metis
                  show ?thesis
                    by (rule opened [OF c _ lead, of RetroKind c' tid]) (use go o d' ret may in auto)
                next
                  case ret: False
                  with step alive r nob True Some have
                    "open_cycle (cycle_brief br c now d) c (the ?r) p now d = Inr (d1, out)"
                    by (simp add: advance_active_def)
                  from open_cycle_cases [OF own this] obtain c' tid where
                    o: "cycle_opening CycleKind now c c' d d1 tid (next_cycle_no cid d)"
                    "c_cycles_run c' = c_cycles_run c + 1" "c_wake_reason c' = None"
                    "out = \<lparr>to_campaign = cid, to_action = TickOpened, to_task = Some tid, to_cycle = Some (next_cycle_no cid d)\<rparr>"
                    unfolding id by metis
                  show ?thesis
                    by (rule opened [OF c _ lead, of CycleKind c' tid]) (use go o d' ret may in auto)
                qed
              qed
            qed
          qed
        qed
      qed
    qed
  qed
qed


text \<open>
  Opening a cycle (CMP-02): when a step opens one, the campaign was active, before its
  deadline, due and with tokens left, its room alive, its lead a participant and no cycle open;
  one task and one attempt were created together, the attempt with the next number and linked to
  the task, the task with the cycle's idempotency key; the campaign's revision is one higher, it
  counts one more cycle and its wake reason is spent. A retrospective opens instead when one is
  due, and does not count. No other campaign changes.
\<close>

theorem advance_opens:
  assumes "advance br cid now d = Inr (d', out)" and "to_action out \<in> {TickOpened, TickRetro}"
  shows "\<exists>c c' p tid kind. get_campaign cid d = Some c \<and> open_attempts cid d = []
    \<and> room_alive (get_room (c_room c) d) \<and> lead_participant c (the (get_room (c_room c) d)) d = Some p
    \<and> cycle_opening kind now c c' d d' tid (next_cycle_no cid d)
    \<and> to_task out = Some tid \<and> to_cycle out = Some (next_cycle_no cid d)
    \<and> (kind = RetroKind \<longleftrightarrow> to_action out = TickRetro) \<and> (kind = RetroKind \<longleftrightarrow> retro_pending c)
    \<and> (kind = RetroKind \<longrightarrow> c_retro_due c' = None \<and> c_cycles_run c' = c_cycles_run c)
    \<and> (kind = CycleKind \<longrightarrow> c_wake_reason c' = None \<and> c_cycles_run c' = c_cycles_run c + 1)
    \<and> (kind = CycleKind \<or> c_status c = Active \<longrightarrow> may_open now d c)"
  using assms(1)
proof (cases rule: advance_cases)
  case quiet
  with assms(2) show ?thesis by blast
next
  case (opened c c' p tid kind)
  then show ?thesis by (intro exI [where x = c] exI [where x = c'] exI [where x = p] exI [where x = tid]
      exI [where x = kind]) (cases kind; simp)
qed

definition sample_briefs :: briefs where
  "sample_briefs = \<lparr>br_cycle = (\<lambda>_ _ _ _. ''do it''), br_retro = (\<lambda>_ _ _ _ _ _. ''look back'')\<rparr>"

lemma sample_advance:
  "\<exists>d' out. advance sample_briefs ''c1'' 0 sample_db = Inr (d', out) \<and> to_action out = TickOpened"
proof -
  have u: "remaining_cycle_tokens sample_campaign = Inr (Some 1000)"
    using sample_usable by (simp add: remaining_cycle_tokens_def sample_campaign_def new_campaign_def sample_spec_def)
  have f: "c_status sample_campaign = Active" "c_retro_due sample_campaign = None" "c_deadline sample_campaign = Some 7"
    "c_next sample_campaign = Some 0" "c_room sample_campaign = ''r1''" "c_agent sample_campaign = Some ''g1''"
    "c_id sample_campaign = ''c1''" "c_rev sample_campaign = 0"
    by (simp_all add: sample_campaign_def new_campaign_def sample_spec_def)
  have o: "open_attempts ''c1'' sample_db = []" "attempts_of ''c1'' sample_db = []"
    by (simp_all add: open_attempts_def attempts_of_def sample_db_def empty_db_def)
  have r: "get_room ''r1'' sample_db = Some \<lparr>r_id = ''r1'', r_project = Some ''p1'', r_archived = None, r_is_dm = False,
      r_lead = Some ''g1''\<rparr>"
    by (simp add: sample_db_def row_get_def)
  have l: "lead_participant sample_campaign \<lparr>r_id = ''r1'', r_project = Some ''p1'', r_archived = None, r_is_dm = False,
      r_lead = Some ''g1''\<rparr> sample_db = Some \<lparr>p_id = ''m1'', p_room = ''r1'', p_agent = Some ''g1'', p_role = ''member''\<rparr>"
    by (simp add: lead_participant_def f truthy_def find_agent_participant_def sample_db_def)
  have n: "past (Some 0) 0" "\<not> past (Some 7) 0" by (simp_all add: past_def)
  have t: "d_tasks sample_db = []" "d_attempts sample_db = []" by (simp_all add: sample_db_def empty_db_def)
  obtain d1 c1 ok where cas: "cas_update sample_campaign None None
      [ColCyclesRun 1, ColWakeReason None] 0 sample_db = (d1, c1, ok)" by (metis prod_cases3)
  have g: "get_campaign (c_id sample_campaign) sample_db = Some sample_campaign" by (simp add: f)
  note own = cas_own_row [OF g cas]
  have w: "d_tasks d1 = []" "d_attempts d1 = []" using own(3,4) t by (simp_all add: same_world_def)
  show ?thesis
    by (simp add: advance_def advance_step_def f o retro_pending_def advance_active_def room_alive_def r n u l Let_def
        open_cycle_def cas own(1) open_attempt_def materialize_assigned_task_def w insert_attempt_def draw_uuid_def
        attempts_of_def)
qed

lemma advance_opens_witness:
  "\<exists>d' out. advance sample_briefs ''c1'' 0 sample_db = Inr (d', out) \<and> to_cycle out = Some (next_cycle_no ''c1'' sample_db)"
proof -
  obtain d' out where a: "advance sample_briefs ''c1'' 0 sample_db = Inr (d', out)" "to_action out = TickOpened"
    using sample_advance by blast
  then have "to_action out \<in> {TickOpened, TickRetro}" by simp
  from advance_opens [OF a(1) this] a(1) show ?thesis by blast
qed

section \<open>One open cycle\<close>

text \<open>
  The invariant of the loop: attempt identifiers and cycle numbers are distinct, at most one cycle
  of a campaign is open, and the identifiers still to be drawn are new.
\<close>

definition loop_ok :: "db \<Rightarrow> bool" where
  "loop_ok d \<longleftrightarrow> attempts_wf d \<and> (\<forall>cid. length (open_attempts cid d) \<le> 1)
     \<and> distinct (map (\<lambda>a. (a_campaign a, a_cycle_no a)) (d_attempts d))
     \<and> inj (d_uuid d) \<and> (\<forall>n \<ge> d_drawn d. d_uuid d n \<notin> a_id ` set (d_attempts d))"

lemma attempt_keys_determine:
  assumes "map attempt_key bs = map attempt_key as"
  shows "map a_id bs = map a_id as" "map (\<lambda>a. (a_campaign a, a_cycle_no a)) bs = map (\<lambda>a. (a_campaign a, a_cycle_no a)) as"
    "a_id ` set bs = a_id ` set as"
proof -
  have ids: "map a_id xs = map fst (map attempt_key xs)" for xs by (simp add: attempt_key_def)
  have nos: "map (\<lambda>a. (a_campaign a, a_cycle_no a)) xs = map (\<lambda>k. (fst (snd k), fst (snd (snd k)))) (map attempt_key xs)" for xs
    by (simp add: attempt_key_def)
  show e: "map a_id bs = map a_id as" unfolding ids assms ..
  show "map (\<lambda>a. (a_campaign a, a_cycle_no a)) bs = map (\<lambda>a. (a_campaign a, a_cycle_no a)) as" unfolding nos assms ..
  from e show "a_id ` set bs = a_id ` set as" by (metis list.set_map)
qed

lemma open_filter_le:
  assumes "list_all2 (\<lambda>a b. a_campaign b = a_campaign a \<and> (a_closed a \<noteq> None \<longrightarrow> a_closed b \<noteq> None)) as bs"
  shows "length (filter (\<lambda>a. a_campaign a = cid \<and> a_closed a = None) bs)
    \<le> length (filter (\<lambda>a. a_campaign a = cid \<and> a_closed a = None) as)"
  using assms by (induction rule: list_all2_induct) auto

lemma open_attempts_conj: "open_attempts cid d = filter (\<lambda>a. a_campaign a = cid \<and> a_closed a = None) (d_attempts d)"
  by (simp add: open_attempts_def attempts_of_def conj_commute)

lemma open_attempts_shrink:
  assumes "attempts_kept d d'" and "attempts_wf d"
  shows "length (open_attempts cid d') \<le> length (open_attempts cid d)"
  unfolding open_attempts_conj
proof (rule open_filter_le)
  let ?as = "d_attempts d" and ?bs = "d_attempts d'"
  have keys: "map attempt_key ?bs = map attempt_key ?as" using assms(1) by (simp add: attempts_kept_def)
  then have len: "length ?bs = length ?as" by (metis length_map)
  have wf': "attempts_wf d'" using attempts_kept_wf [OF assms(1)] assms(2) by simp
  show "list_all2 (\<lambda>a b. a_campaign b = a_campaign a \<and> (a_closed a \<noteq> None \<longrightarrow> a_closed b \<noteq> None)) ?as ?bs"
    unfolding list_all2_conv_all_nth
  proof (intro conjI allI impI)
    fix i assume i: "i < length ?as"
    have key: "attempt_key (?bs ! i) = attempt_key (?as ! i)" using keys i len by (metis nth_map)
    then show "a_campaign (?bs ! i) = a_campaign (?as ! i)" by (simp add: attempt_key_def)
    assume cl: "a_closed (?as ! i) \<noteq> None"
    have id: "a_id (?bs ! i) = a_id (?as ! i)" using key by (simp add: attempt_key_def)
    have a: "get_attempt (a_id (?as ! i)) d = Some (?as ! i)" 
      using assms(2) i by (intro attempts.get_distinct) (simp_all add: attempts_wf_def)
    have b: "get_attempt (a_id (?as ! i)) d' = Some (?bs ! i)"
      unfolding id [symmetric] using wf' i len by (intro attempts.get_distinct) (simp_all add: attempts_wf_def)
    obtain a' where "get_attempt (a_id (?as ! i)) d' = Some a'" "grown (?as ! i) a'"
      using assms a cl unfolding attempts_kept_def by blast
    then have "grown (?as ! i) (?bs ! i)" using b by simp
    then show "a_closed (?bs ! i) \<noteq> None" using cl grown_closed by simp
  qed (simp add: len)
qed

lemma ends_kept_loop_ok:
  assumes "ends_kept d d'" and "loop_ok d"
  shows "loop_ok d'"
proof -
  have k: "attempts_kept d d'" "supply_kept d d'" using assms(1) by (simp_all add: ends_kept_def)
  have wf: "attempts_wf d" using assms(2) by (simp add: loop_ok_def)
  note keys = attempt_keys_determine [of "d_attempts d'" "d_attempts d"]
  have e: "map attempt_key (d_attempts d') = map attempt_key (d_attempts d)" using k by (simp add: attempts_kept_def)
  have "length (open_attempts cid d') \<le> 1" for cid
    using open_attempts_shrink [OF k(1) wf, of cid] assms(2) unfolding loop_ok_def by (meson order_trans)
  then show ?thesis
    using assms(2) k(2) keys [OF e] by (simp add: loop_ok_def attempts_wf_def supply_kept_def)
qed

lemma same_world_loop_ok: "same_world d d' \<Longrightarrow> loop_ok d \<Longrightarrow> loop_ok d'"
  by (simp add: same_world_def loop_ok_def attempts_wf_def open_attempts_conj)

lemma opening_loop_ok:
  assumes "cycle_opening kind now c c' d d' tid (next_cycle_no (c_id c) d)" and "open_attempts (c_id c) d = []" and "loop_ok d"
  shows "loop_ok d'"
proof -
  define a where "a = new_attempt (d_uuid d (d_drawn d + 1)) (c_id c) (next_cycle_no (c_id c) d) kind tid now
        (if kind = RetroKind then EvSkipped else EvPending)"
  have f: "a_id a = d_uuid d (d_drawn d + 1)" "a_campaign a = c_id c" "a_cycle_no a = next_cycle_no (c_id c) d"
    by (simp_all add: a_def new_attempt_def)
  have d': "d_attempts d' = d_attempts d @ [a]" "d_uuid d' = d_uuid d" "d_drawn d' = d_drawn d + 2"
    using assms(1) by (simp_all add: cycle_opening_def a_def)
  have "d_uuid d (d_drawn d + 1) \<notin> a_id ` set (d_attempts d)" using assms(3) by (simp add: loop_ok_def)
  then have wf: "attempts_wf d'" using assms(3) f(1) d'(1) by (auto simp: attempts_wf_def loop_ok_def)
  have one: "length (open_attempts k d') \<le> 1" for k
    using assms(2,3) f(2) by (cases "k = c_id c") (simp_all add: open_attempts_conj d' loop_ok_def)
  have "(c_id c, next_cycle_no (c_id c) d) \<notin> (\<lambda>a. (a_campaign a, a_cycle_no a)) ` set (d_attempts d)"
    using next_cycle_no_fresh [of "c_id c" d] by (auto simp: attempts_of_def image_iff)
  then have nos: "distinct (map (\<lambda>a. (a_campaign a, a_cycle_no a)) (d_attempts d'))"
    using assms(3) f d'(1) by (simp add: loop_ok_def)
  have "d_uuid d n \<noteq> d_uuid d (d_drawn d + 1)" if "n \<ge> d_drawn d + 2" for n
    using assms(3) that unfolding loop_ok_def by (auto dest: injD)
  then show ?thesis using wf one nos assms(3) d' f(1) by (auto simp: loop_ok_def)
qed

lemma advance_campaigns:
  assumes "advance br cid now d = Inr (d', out)"
  shows "campaigns_kept d d'"
  using assms
proof (cases rule: advance_cases)
  case (opened c c' p tid kind)
  have "c_id c = cid" using opened(1) by (rule campaigns.get_key)
  with opened(5) have "status_path SYSTEM_EVENTS c c'"
    "\<And>k. get_campaign k d' = (if k = cid then Some c' else get_campaign k d)"
    by (auto simp: cycle_opening_def intro: status_path_same)
  with opened(1) show ?thesis by (rule campaigns_kept_one)
qed

lemma advance_loop_ok:
  assumes "advance br cid now d = Inr (d', out)" and "loop_ok d"
  shows "loop_ok d'"
  using assms(1)
proof (cases rule: advance_cases)
  case quiet
  with assms(2) show ?thesis using same_world_loop_ok by blast
next
  case (opened c c' p tid kind)
  then have "c_id c = cid" using campaigns.get_key by blast
  with opened assms(2) opening_loop_ok show ?thesis by metis
qed


lemma advance_all_loop_ok: "loop_ok d \<Longrightarrow> loop_ok (fst (advance_all br now ids d))"
proof -
  let ?f = "\<lambda>cid s. case advance br cid now (fst s) of Inl _ \<Rightarrow> s | Inr (d1, o1) \<Rightarrow> (d1, snd s @ [o1])"
  have step: "loop_ok (fst s) \<Longrightarrow> loop_ok (fst (?f cid s))" for cid s
    using advance_loop_ok by (auto split: sum.split prod.split)
  have "loop_ok (fst s) \<Longrightarrow> loop_ok (fst (fold ?f ids s))" for s
    by (induction ids arbitrary: s) (simp, metis (no_types, lifting) fold_simps(2) step)
  then show "loop_ok d \<Longrightarrow> loop_ok (fst (advance_all br now ids d))" by (simp add: advance_all_def)
qed

lemma tick_loop_ok: "loop_ok d \<Longrightarrow> loop_ok (fst (tick assign br now d))"
proof -
  assume ok: "loop_ok d"
  have "ends_kept d (fst (reconcile_open_cycles assign now (fst (expire_eval_deadlines assign now d))))"
    using ends_kept_trans [OF expire_deadlines_ends reconcile_ends] .
  then have "loop_ok (reconcile_loop assign now d)"
    using ends_kept_loop_ok ok by (simp add: reconcile_loop_def Let_def)
  then show ?thesis by (simp add: tick_def Let_def advance_all_loop_ok)
qed

text \<open>Ticks of the scheduler, interleaved in any order with everything the loop does by itself.\<close>

inductive scheduler_step :: "assigner \<Rightarrow> db \<Rightarrow> db \<Rightarrow> bool" for assign :: assigner where
  ticks: "scheduler_step assign d (fst (tick assign br now d))"
| opens: "advance br cid now d = Inr (d', out) \<Longrightarrow> scheduler_step assign d d'"
| loops: "lifecycle_step assign d d' \<Longrightarrow> scheduler_step assign d d'"

lemma scheduler_step_ok: "scheduler_step assign d d' \<Longrightarrow> loop_ok d \<Longrightarrow> loop_ok d'"
  by (induction rule: scheduler_step.induct)
     (auto intro: tick_loop_ok advance_loop_ok ends_kept_loop_ok lifecycle_step_ends)

text \<open>
  C27. One open cycle (CMP-02): in any interleaving of ticks, single steps, evaluation results,
  time-outs, ends of runs, closed tasks, stops and reconciliations, a campaign never has two open
  cycles, cycle numbers of a campaign are never reused, and attempt identifiers stay distinct.
\<close>

theorem one_open_cycle:
  assumes "loop_ok d" and "(scheduler_step assign)\<^sup>*\<^sup>* d d'"
  shows "(\<forall>cid. length (open_attempts cid d') \<le> 1) \<and> attempts_wf d'
    \<and> distinct (map (\<lambda>a. (a_campaign a, a_cycle_no a)) (d_attempts d'))"
proof -
  from assms(2,1) have "loop_ok d'" by (induction rule: rtranclp_induct) (auto intro: scheduler_step_ok)
  then show ?thesis by (simp add: loop_ok_def)
qed

lemma one_open_cycle_witness:
  "length (open_attempts ''c1'' (fst (tick (\<lambda>_ _ _. None) sample_briefs 30
      (fst (tick (\<lambda>_ _ _. None) sample_briefs 0 (sample_db\<lparr>d_uuid := (\<lambda>n. replicate n CHR ''u'')\<rparr>)))))) \<le> 1"
proof -
  let ?a = "\<lambda>_ _ _. None" and ?d = "sample_db\<lparr>d_uuid := (\<lambda>n. replicate n CHR ''u'')\<rparr>"
  have "inj (\<lambda>n. replicate n CHR ''u'')" by (rule injI) (metis length_replicate)
  then have ok: "loop_ok ?d"
    by (simp add: loop_ok_def attempts_wf_def open_attempts_conj sample_db_def empty_db_def)
  let ?d1 = "fst (tick ?a sample_briefs 0 ?d)"
  have "scheduler_step ?a ?d ?d1" by (rule scheduler_step.ticks)
  moreover have "scheduler_step ?a ?d1 (fst (tick ?a sample_briefs 30 ?d1))" by (rule scheduler_step.ticks)
  ultimately have "(scheduler_step ?a)\<^sup>*\<^sup>* ?d (fst (tick ?a sample_briefs 30 ?d1))" by simp
  from one_open_cycle [OF ok this] show ?thesis by blast
qed

section \<open>Due campaigns make progress\<close>

lemma open_attempt_result:
  assumes "nt_idem_key t \<notin> k_idem_key ` set (d_tasks d)" and "n \<notin> a_cycle_no ` set (attempts_of (c_id c) d)"
  shows "\<exists>r. open_attempt c room p t n kind evs what extra now d = Inr r"
proof -
  obtain task d1 where m: "materialize_assigned_task room p t now d = Inr (task, d1)"
    using assms(1) by (simp add: materialize_assigned_task_def draw_uuid_def Let_def)
  then have "d_attempts d1 = d_attempts d" by (rule materialize_cases)
  with assms(2) obtain d2 where "insert_attempt (c_id c) n kind (k_id task) evs now d1 = Inr d2"
    by (simp add: insert_attempt_def draw_uuid_def Let_def attempts_of_def)
  with m show ?thesis by (simp add: open_attempt_def)
qed

lemma cas_own_ok:
  assumes "get_campaign (c_id c) d = Some c"
  obtains d1 c1 where "cas_update c None None vs now d = (d1, c1, True)" "c_id c1 = c_id c" "d_tasks d1 = d_tasks d"
    "d_attempts d1 = d_attempts d"
proof -
  obtain d1 c1 ok where cas: "cas_update c None None vs now d = (d1, c1, ok)" by (metis prod_cases3)
  note own = cas_own_row [OF assms cas]
  have s: "c_id c1 = c_id c" "d_tasks d1 = d_tasks d" using own(2,4) by (simp_all add: same_world_def)
  from cas own(1) have "cas_update c None None vs now d = (d1, c1, True)" by simp
  then show thesis using s own(3) by (rule that)
qed

lemma open_cycle_acts:
  assumes "get_campaign (c_id c) d = Some c"
    and "Some (cycle_idempotency_key (c_id c) (next_cycle_no (c_id c) d)) \<notin> k_idem_key ` set (d_tasks d)"
  shows "\<exists>d' out. open_cycle brief c room p now d = Inr (d', out) \<and> to_action out \<noteq> TickSkipped"
proof -
  let ?n = "next_cycle_no (c_id c) d" and ?vs = "[ColCyclesRun (c_cycles_run c + 1), ColWakeReason None]"
  obtain d1 c1 where cas: "cas_update c None None ?vs now d = (d1, c1, True)" and
    s: "c_id c1 = c_id c" "d_tasks d1 = d_tasks d" "d_attempts d1 = d_attempts d"
    using cas_own_ok [OF assms(1)] .
  have "\<exists>r. open_attempt c1 room p (cycle_task_of c1 (cycle_title c1 ?n) brief ?n) ?n CycleKind EvPending ''opened'' [] now d1 = Inr r"
    using assms(2) next_cycle_no_fresh [of "c_id c" d]
    by (intro open_attempt_result) (simp_all add: cycle_task_of_def s attempts_of_def)
  then show ?thesis by (auto simp: open_cycle_def Let_def cas)
qed

lemma open_retrospective_acts:
  assumes "get_campaign (c_id c) d = Some c"
    and "Some (cycle_idempotency_key (c_id c) (next_cycle_no (c_id c) d)) \<notin> k_idem_key ` set (d_tasks d)"
  shows "\<exists>d' out. open_retrospective brief c room p now d = Inr (d', out) \<and> to_action out \<noteq> TickSkipped"
proof -
  let ?n = "next_cycle_no (c_id c) d" and ?vs = "[ColRetroDue None]"
  obtain d1 c1 where cas: "cas_update c None None ?vs now d = (d1, c1, True)" and
    s: "c_id c1 = c_id c" "d_tasks d1 = d_tasks d" "d_attempts d1 = d_attempts d"
    using cas_own_ok [OF assms(1)] .
  have "\<exists>r. open_attempt c1 room p (cycle_task_of c1 (retro_title c1) brief ?n) ?n RetroKind EvSkipped
      ''retrospective_opened'' extra now d1 = Inr r" for extra
    using assms(2) next_cycle_no_fresh [of "c_id c" d]
    by (intro open_attempt_result) (simp_all add: cycle_task_of_def s attempts_of_def)
  then obtain f where "\<And>extra. open_attempt c1 room p (cycle_task_of c1 (retro_title c1) brief ?n) ?n RetroKind EvSkipped
      ''retrospective_opened'' extra now d1 = Inr (f extra)" by metis
  then show ?thesis by (auto simp: open_retrospective_def Let_def cas split: prod.split)
qed

lemma end_step_acts:
  assumes "get_campaign (c_id c) d = Some c" and "c_status c = Active" and "e \<in> {TStop, TDeadline, TBudgetExhausted, TBlock}"
    and "act \<noteq> TickSkipped"
  shows "\<exists>d' out. end_step e act det vs c now d = Inr (d', out) \<and> to_action out \<noteq> TickSkipped"
proof -
  obtain new where t: "transition (c_status c) e = Inr new" using assms(2,3) by (auto simp: transition.simps)
  then show ?thesis using assms(1,4)
    by (simp add: end_step_def apply_transition_def cas_update_def seen_rev_def Let_def outcome_of_def)
qed


lemma advance_acts:
  assumes "advance_step br cid now d = Inr (d', out)" and "to_action out \<noteq> TickSkipped"
  shows "advance br cid now d = Inr (d', out)"
  using assms by (simp add: advance_def)

text \<open>
  C28. A due campaign always makes progress: when the due query picks a campaign, the step on the
  same state does not skip it. It ends the loop, blocks it, opens a cycle or a retrospective or
  drops the retrospective; the only failure is the budget's arithmetic raising, and the only
  assumption is that no task already carries the key of the next cycle.
\<close>

theorem due_campaign_advances:
  assumes "get_campaign cid d = Some c" and "due now d c"
    and "Some (cycle_idempotency_key cid (next_cycle_no cid d)) \<notin> k_idem_key ` set (d_tasks d)"
  shows "(\<exists>d' out. advance br cid now d = Inr (d', out) \<and> to_action out \<noteq> TickSkipped)
    \<or> (\<exists>e. remaining_cycle_tokens c = Inl e)"
proof (cases "remaining_cycle_tokens c")
  case (Inr r)
  have id: "c_id c = cid" using assms(1) by (rule campaigns.get_key)
  have own: "get_campaign (c_id c) d = Some c" using assms(1) id by simp
  note key = assms(3) [folded id]
  note opens = open_cycle_acts [OF own key] open_retrospective_acts [OF own key]
  have none: "open_attempts cid d = []" using assms(2) id by (simp add: due_def)
  let ?r = "get_room (c_room c) d"
  have "\<exists>d' out. advance_step br cid now d = Inr (d', out) \<and> to_action out \<noteq> TickSkipped"
  proof (cases "c_status c = Active")
    case act: True
    have step: "advance_step br cid now d = advance_active br c now d"
      using act none assms(1) by (simp add: advance_step_def)
    note ends = end_step_acts [OF own act]
    have blocked: "\<exists>d' out. (case lead_participant c (the ?r) d of
             None \<Rightarrow> end_step TBlock TickBlocked det vs c now d
           | Some p \<Rightarrow> if retro_pending c then open_retrospective b1 c (the ?r) p now d
                       else open_cycle b2 c (the ?r) p now d) = Inr (d', out) \<and> to_action out \<noteq> TickSkipped" for det vs b1 b2
      using opens ends [of TBlock TickBlocked] by (cases "lead_participant c (the ?r) d") simp_all
    have due: "past (c_deadline c) now \<or> past (c_next c) now" using assms(2) act by (auto simp: due_def RETRO_STATUSES_def)
    show ?thesis unfolding step advance_active_def Let_def Inr lift_py.simps bindE.simps
      using ends [of TStop TickStopped] ends [of TDeadline TickDeadline] ends [of TBudgetExhausted TickBudget] blocked due
      by auto
  next
    case False
    have ret: "c_retro_due c \<noteq> None" "c_status c \<in> set RETRO_STATUSES" "c_next c = None \<or> past (c_next c) now"
      using assms(2) False by (auto simp: due_def)
    have step: "advance_step br cid now d = advance_ended br c now d"
      using False none assms(1) ret by (simp add: advance_step_def retro_pending_def)
    obtain d1 c1 where cas: "cas_update c None None [ColRetroDue None] now d = (d1, c1, True)"
      using cas_own_ok [OF own] by metis
    have "\<exists>d' out. skip_retrospective c now d = (d', out) \<and> to_action out \<noteq> TickSkipped"
      by (simp add: skip_retrospective_def cas outcome_of_def)
    then show ?thesis unfolding step advance_ended_def Let_def
      using opens ret(3) by (cases "if room_alive ?r then lead_participant c (the ?r) d else None") auto
  qed
  then show ?thesis using advance_acts by blast
qed simp

lemma due_campaign_advances_witness:
  "\<exists>d' out. advance sample_briefs ''c1'' 9 sample_db = Inr (d', out) \<and> to_action out \<noteq> TickSkipped"
proof -
  have u: "remaining_cycle_tokens sample_campaign = Inr (Some 1000)"
    using sample_usable by (simp add: remaining_cycle_tokens_def sample_campaign_def new_campaign_def sample_spec_def)
  have d: "due 9 sample_db sample_campaign"
    by (simp add: due_def past_def open_attempts_conj sample_db_def empty_db_def sample_campaign_def new_campaign_def sample_spec_def)
  have k: "Some (cycle_idempotency_key ''c1'' (next_cycle_no ''c1'' sample_db)) \<notin> k_idem_key ` set (d_tasks sample_db)"
    by (simp add: sample_db_def empty_db_def)
  from due_campaign_advances [OF get_sample d k] u show ?thesis by auto
qed

end
