(* ===== verification/CampaignActions.thy ===== *)
theory CampaignActions
  imports CampaignScheduler
begin

text \<open>
  What people and external scorers do to a campaign (campaigns/actions.py): edits of its criteria,
  pause and resume, confirmation and rejection of a reached target, the choice of the final
  result and the record of a trusted score. Every action works on the campaign's row and returns
  the new database or the exception the request ends with (and is rolled back).

  An ellipsis is not a Latin-1 character; the model writes it as the control character 0x16.
\<close>

abbreviation TEXT_IN_EVENT :: nat where "TEXT_IN_EVENT \<equiv> 200"

definition clip_event :: "pyval \<Rightarrow> pyval" where
  "clip_event v = (case v of
       PStr s \<Rightarrow> if TEXT_IN_EVENT < length s then PStr (take (TEXT_IN_EVENT - 1) s @ [CHR 0x16]) else v
     | _ \<Rightarrow> v)"

definition open_cycle_no :: "campaign \<Rightarrow> db \<Rightarrow> int option" where
  "open_cycle_no c d = (case open_attempts (c_id c) d of [] \<Rightarrow> None | a # _ \<Rightarrow> Some (a_cycle_no a))"

definition lost :: camp_exc where
  "lost = CampaignConflict ''CAMPAIGN_CHANGED''"

definition person_transition ::
  "campaign \<Rightarrow> camp_event \<Rightarrow> string \<Rightarrow> (string \<times> pyval) list \<Rightarrow> col list \<Rightarrow> instant \<Rightarrow> db \<Rightarrow> camp_exc + (db \<times> campaign)" where
  "person_transition c e actor det vs now d =
     bindE (apply_transition c e actor now (det @ [(''open_cycle_no'', opt_int (open_cycle_no c d))]) None None vs d)
       (\<lambda>(d1, c1, ok). if ok then Inr (d1, c1) else Inl lost)"

section \<open>Edits\<close>

text \<open>The fields a request sent; a deadline that was sent may clear it.\<close>

record edit_changes =
  ed_title :: "pyval option"
  ed_purpose :: "pyval option"
  ed_metric :: "(string \<times> pyval) list"
  ed_budget :: "(string \<times> pyval) list"
  ed_evaluator :: "pyval option"
  ed_trusted :: "pyval option"
  ed_deadline :: "deadline_arg option option"

definition removes_token_budget :: "campaign \<Rightarrow> edit_changes \<Rightarrow> bool" where
  "removes_token_budget c ch \<longleftrightarrow>
     has_token_budget (Some (c_budget c)) \<and> map_of (ed_budget ch) ''max_total_tokens'' = Some PNone"

definition sent_or :: "pyval option \<Rightarrow> pyval \<Rightarrow> pyval" where
  "sent_or v dflt = (case v of None \<Rightarrow> dflt | Some x \<Rightarrow> x)"

definition dict_items :: "pyval \<Rightarrow> (string \<times> pyval) list" where
  "dict_items v = (case v of PDict d \<Rightarrow> d | _ \<Rightarrow> [])"

definition merge_dict :: "pyval \<Rightarrow> (string \<times> pyval) list \<Rightarrow> pyval" where
  "merge_dict old changes = PDict (fold (\<lambda>(k, v) m. dput m k v) changes (dict_items old))"

definition edit_deadline :: "campaign \<Rightarrow> edit_changes \<Rightarrow> deadline_arg option" where
  "edit_deadline c ch = (case ed_deadline ch of Some x \<Rightarrow> x | None \<Rightarrow> map_option AwareTime (c_deadline c))"

text \<open>An unchanged deadline that has passed is still accepted: the tick will end the loop.\<close>

definition check_now :: "campaign \<Rightarrow> edit_changes \<Rightarrow> instant \<Rightarrow> instant" where
  "check_now c ch now =
     (case (ed_deadline ch, c_deadline c) of
        (None, Some t) \<Rightarrow> if t \<le> now then t - seconds 1 else now
      | _ \<Rightarrow> now)"

definition edited_spec :: "campaign \<Rightarrow> edit_changes \<Rightarrow> instant \<Rightarrow> camp_exc + campaign_spec" where
  "edited_spec c ch now =
     validate_campaign_spec (sent_or (ed_title ch) (PStr (c_title c))) (sent_or (ed_purpose ch) (PStr (c_purpose c)))
       (PStr (mode_str (c_mode c))) (merge_dict (metric_raw (c_metric c)) (ed_metric ch))
       (sent_or (ed_evaluator ch) (evaluator_raw (c_evaluator c)))
       (merge_dict (budget_raw (c_budget c)) (ed_budget ch)) (edit_deadline c ch)
       (sent_or (ed_trusted ch) (PStr (trusted_str (c_trusted c)))) (check_now c ch now)"

text \<open>The keys of both dicts, in order of first occurrence.\<close>

definition dict_diff :: "string \<Rightarrow> (string \<times> pyval) list \<Rightarrow> (string \<times> pyval) list \<Rightarrow> (string \<times> pyval) list" where
  "dict_diff field old new =
     concat (map (\<lambda>k. if dget old k \<noteq> dget new k
                      then [(field @ ''.'' @ k, change_detail (dget old k) (dget new k))] else [])
       (rev (remdups (rev (map fst new @ map fst old)))))"

definition text_diff :: "string \<Rightarrow> string \<Rightarrow> string \<Rightarrow> (string \<times> pyval) list" where
  "text_diff field old new =
     (if new \<noteq> old then [(field, change_detail (clip_event (PStr old)) (clip_event (PStr new)))] else [])"

definition edit_diff :: "campaign \<Rightarrow> campaign_spec \<Rightarrow> (string \<times> pyval) list" where
  "edit_diff c s =
     text_diff ''title'' (c_title c) (cs_title s)
     @ text_diff ''purpose'' (c_purpose c) (cs_purpose s)
     @ text_diff ''trusted_eval'' (trusted_str (c_trusted c)) (trusted_str (cs_trusted s))
     @ dict_diff ''metric'' (dict_items (metric_raw (c_metric c))) (dict_items (metric_raw (cs_metric s)))
     @ dict_diff ''budget'' (dict_items (budget_raw (c_budget c))) (dict_items (budget_raw (cs_budget s)))
     @ (if cs_evaluator s \<noteq> c_evaluator c
        then [(''evaluator'', change_detail (evaluator_raw (c_evaluator c)) (evaluator_raw (cs_evaluator s)))] else [])
     @ (if c_deadline c \<noteq> cs_deadline s
        then [(''deadline_at'', change_detail (iso (c_deadline c)) (iso (cs_deadline s)))] else [])"

definition edit_values :: "campaign \<Rightarrow> campaign_spec \<Rightarrow> col list" where
  "edit_values c s =
     (if cs_title s \<noteq> c_title c then [ColTitle (cs_title s)] else [])
     @ (if cs_purpose s \<noteq> c_purpose c then [ColPurpose (cs_purpose s)] else [])
     @ (if cs_trusted s \<noteq> c_trusted c then [ColTrusted (cs_trusted s)] else [])
     @ (if cs_metric s \<noteq> c_metric c then [ColMetric (cs_metric s)] else [])
     @ (if cs_budget s \<noteq> c_budget c then [ColBudget (cs_budget s)] else [])
     @ (if cs_evaluator s \<noteq> c_evaluator c then [ColEvaluator (cs_evaluator s), ColPins None] else [])
     @ (if c_deadline c \<noteq> cs_deadline s then [ColDeadline (cs_deadline s)] else [])"

definition edit_reopens :: "campaign \<Rightarrow> edit_changes \<Rightarrow> bool" where
  "edit_reopens c ch \<longleftrightarrow> c_status c = BudgetExhausted \<and> removes_token_budget c ch"

definition write_edit ::
  "bool \<Rightarrow> string \<Rightarrow> campaign \<Rightarrow> campaign_spec \<Rightarrow> instant \<Rightarrow> db \<Rightarrow> camp_exc + (db \<times> campaign \<times> bool)" where
  "write_edit reopen actor c s now d =
     (if reopen then
        (if past (cs_deadline s) now then Inl (PolicyError ''EXTEND_DOES_NOT_REOPEN'')
         else apply_transition c TExtend actor now [(''reason'', PStr ''token_budget_removed'')] None None
                (edit_values c s @ reopen_values c now) d)
      else Inr (cas_update c None None (edit_values c s) now d))"

definition edit_campaign ::
  "campaign \<Rightarrow> string \<Rightarrow> edit_changes \<Rightarrow> instant \<Rightarrow> db \<Rightarrow> camp_exc + (db \<times> campaign \<times> (string \<times> pyval) list)" where
  "edit_campaign c actor ch now d =
     bindE (if edit_reopens c ch then Inr (c_status c) else transition (c_status c) TEdit) (\<lambda>_.
     bindE (edited_spec c ch now) (\<lambda>s.
     let diff = edit_diff c s
     in if diff = [] then Inr (d, c, [])
        else bindE (write_edit (edit_reopens c ch) actor c s now d) (\<lambda>(d1, c1, ok).
          if \<not> ok then Inl lost
          else Inr (record_event (c_id c) (key_of (c_id c) (''edit:'' @ int_str (c_rev c1))) ''edited''
                      [(''changes'', PDict diff), (''open_cycle_no'', opt_int (open_cycle_no c d))] actor now d1,
                    c1, diff))))"

section \<open>Status actions\<close>

definition pause_campaign :: "campaign \<Rightarrow> string \<Rightarrow> instant \<Rightarrow> db \<Rightarrow> camp_exc + (db \<times> campaign)" where
  "pause_campaign c actor now d = person_transition c TPause actor [] [] now d"

definition resume_campaign :: "campaign \<Rightarrow> string \<Rightarrow> instant \<Rightarrow> db \<Rightarrow> camp_exc + (db \<times> campaign)" where
  "resume_campaign c actor now d =
     person_transition c TResume actor []
       ([ColStatusDetail None] @ (if c_status c = Blocked then [ColFailures 0] else [])
        @ (if c_status c = Plateau then [ColSince 0] else [])) now d"

definition confirm_campaign :: "campaign \<Rightarrow> string \<Rightarrow> instant \<Rightarrow> db \<Rightarrow> camp_exc + (db \<times> campaign)" where
  "confirm_campaign c actor now d =
     person_transition c TConfirm actor [] [ColStopReason (Some ''achieved''), ColFinal (c_best c)] now d"

definition reject_campaign :: "campaign \<Rightarrow> string \<Rightarrow> string option \<Rightarrow> instant \<Rightarrow> db \<Rightarrow> camp_exc + (db \<times> campaign)" where
  "reject_campaign c actor reason now d =
     person_transition c TReject actor
       (if truthy reason then [(''reason'', clip_event (opt_str reason))] else [])
       (case c_next c of
          None \<Rightarrow> [ColNext (Some now)]
        | Some t \<Rightarrow> if t < now then [ColNext (Some now)] else []) now d"

section \<open>Results\<close>

definition cycle_attempt :: "campaign \<Rightarrow> string \<Rightarrow> db \<Rightarrow> camp_exc + attempt" where
  "cycle_attempt c aid d =
     (case get_attempt aid d of
        None \<Rightarrow> Inl AttemptNotFound
      | Some a \<Rightarrow> if a_campaign a \<noteq> c_id c then Inl AttemptNotFound else Inr a)"

definition selectable :: "attempt \<Rightarrow> bool" where
  "selectable a \<longleftrightarrow> a_kind a = CycleKind \<and> a_closed a \<noteq> None \<and> a_valid a \<noteq> Some False
     \<and> (a_dev_score a \<noteq> None \<or> a_trusted_score a \<noteq> None)"

definition select_final :: "campaign \<Rightarrow> string \<Rightarrow> string \<Rightarrow> instant \<Rightarrow> db \<Rightarrow> camp_exc + (db \<times> campaign)" where
  "select_final c actor aid now d =
     bindE (guardE (c_status c \<in> set RETRO_STATUSES) (CampaignConflict ''CAMPAIGN_NOT_ENDED'')) (\<lambda>_.
     bindE (cycle_attempt c aid d) (\<lambda>a.
     bindE (guardE (selectable a) (PolicyError ''ATTEMPT_NOT_SELECTABLE'')) (\<lambda>_.
     case cas_update c None None [ColFinal (Some (a_id a))] now d of
       (d1, c1, ok) \<Rightarrow>
         if \<not> ok then Inl lost
         else Inr (record_event (c_id c) (key_of (c_id c) (''final:'' @ int_str (c_rev c1))) ''final_selected''
                     [(''attempt_id'', PStr (a_id a)), (''cycle_no'', PInt (a_cycle_no a)),
                      (''previous'', opt_str (c_final c))] actor now d1, c1))))"

definition write_trusted :: "pyfloat \<Rightarrow> instant \<Rightarrow> attempt \<Rightarrow> attempt" where
  "write_trusted s now a = a\<lparr>a_trusted_score := Some s, a_trusted_at := Some now\<rparr>"

definition trusted_reaches :: "campaign \<Rightarrow> attempt \<Rightarrow> pyfloat \<Rightarrow> bool" where
  "trusted_reaches c a s \<longleftrightarrow>
     c_mode c = TargetMode \<and> a_valid a \<noteq> Some False \<and> reaches_target (Some s) (c_metric c)"

definition record_trusted_score ::
  "campaign \<Rightarrow> string \<Rightarrow> string \<Rightarrow> pyval \<Rightarrow> instant \<Rightarrow> db \<Rightarrow> camp_exc + (db \<times> bool)" where
  "record_trusted_score c actor aid score now d =
     bindE (lift_py (is_number score)) (\<lambda>finite.
     bindE (guardE finite (PolicyError ''INVALID_SCORE'')) (\<lambda>_.
     bindE (lift_py (to_float score)) (\<lambda>s.
     bindE (cycle_attempt c aid d) (\<lambda>a.
     bindE (guardE (a_kind a = CycleKind \<and> a_closed a \<noteq> None) (PolicyError ''ATTEMPT_NOT_SCORABLE'')) (\<lambda>_.
     let d1 = add_mark (MarkCampaign (c_id c)) (add_mark (MarkAttempt (a_id a)) (upd_attempt (a_id a) (write_trusted s now) d));
         d2 = record_event (c_id c)
                (key_of (c_id c) (''attempt:'' @ a_id a @ '':trusted:'' @ int_str now)) ''trusted_score_recorded''
                [(''attempt_id'', PStr (a_id a)), (''cycle_no'', PInt (a_cycle_no a)), (''score'', PFloat s)] actor now d1
     in if \<not> trusted_reaches c a s \<or> \<not> legal (c_status c) TTrustedTargetReached then Inr (d2, False)
        else bindE (person_transition c TTrustedTargetReached actor
                      [(''attempt_id'', PStr (a_id a)), (''trusted_score'', PFloat s)]
                      [ColStopReason (Some ''achieved''), ColFinal (Some (a_id a))] now d2) (\<lambda>(d3, _).
               Inr (d3, True)))))))"


section \<open>What an edit writes\<close>

definition with_spec :: "campaign_spec \<Rightarrow> campaign \<Rightarrow> campaign" where
  "with_spec s c = c\<lparr>c_title := cs_title s, c_purpose := cs_purpose s, c_trusted := cs_trusted s, c_metric := cs_metric s,
     c_budget := cs_budget s, c_evaluator := cs_evaluator s,
     c_pins := (if cs_evaluator s \<noteq> c_evaluator c then None else c_pins c), c_deadline := cs_deadline s\<rparr>"

text \<open>A conditional write of one column is the unconditional one, when the condition is a change.\<close>

lemma cond_cols:
  "set_cols (if x \<noteq> c_title r then [ColTitle x] else []) r = r\<lparr>c_title := x\<rparr>"
  "set_cols (if y \<noteq> c_purpose r then [ColPurpose y] else []) r = r\<lparr>c_purpose := y\<rparr>"
  "set_cols (if t \<noteq> c_trusted r then [ColTrusted t] else []) r = r\<lparr>c_trusted := t\<rparr>"
  "set_cols (if m \<noteq> c_metric r then [ColMetric m] else []) r = r\<lparr>c_metric := m\<rparr>"
  "set_cols (if b \<noteq> c_budget r then [ColBudget b] else []) r = r\<lparr>c_budget := b\<rparr>"
  "set_cols (if c_deadline r \<noteq> dl then [ColDeadline dl] else []) r = r\<lparr>c_deadline := dl\<rparr>"
  "set_cols (if e \<noteq> c_evaluator r then [ColEvaluator e, ColPins None] else []) r =
     r\<lparr>c_evaluator := e, c_pins := (if e \<noteq> c_evaluator r then None else c_pins r)\<rparr>"
  by simp_all

lemma edit_values_spec: "set_cols (edit_values c s) c = with_spec s c"
proof -
  let ?r1 = "c\<lparr>c_title := cs_title s\<rparr>"
  let ?r2 = "?r1\<lparr>c_purpose := cs_purpose s\<rparr>"
  let ?r3 = "?r2\<lparr>c_trusted := cs_trusted s\<rparr>"
  let ?r4 = "?r3\<lparr>c_metric := cs_metric s\<rparr>"
  let ?r5 = "?r4\<lparr>c_budget := cs_budget s\<rparr>"
  let ?r6 = "?r5\<lparr>c_evaluator := cs_evaluator s, c_pins := (if cs_evaluator s \<noteq> c_evaluator ?r5 then None else c_pins ?r5)\<rparr>"
  have same: "c_purpose ?r1 = c_purpose c" "c_trusted ?r2 = c_trusted c" "c_metric ?r3 = c_metric c"
    "c_budget ?r4 = c_budget c" "c_evaluator ?r5 = c_evaluator c" "c_deadline ?r6 = c_deadline c"
    by simp_all
  have dl: "set_cols (if c_deadline c \<noteq> x then [ColDeadline x] else []) r = r\<lparr>c_deadline := x\<rparr>"
    if "c_deadline r = c_deadline c" for r x
    using cond_cols(6) [of r x] that by simp
  have "set_cols (edit_values c s) c = ?r6\<lparr>c_deadline := cs_deadline s\<rparr>"
    unfolding edit_values_def set_cols_append cond_cols(1)
    unfolding cond_cols(2) [of _ ?r1, unfolded same(1)] cond_cols(3) [of _ ?r2, unfolded same(2)]
      cond_cols(4) [of _ ?r3, unfolded same(3)] cond_cols(5) [of _ ?r4, unfolded same(4)]
      cond_cols(7) [of _ ?r5, unfolded same(5)] same(5)
    by (rule dl) simp
  also have "\<dots> = with_spec s c" by (simp add: with_spec_def)
  finally show ?thesis .
qed

lemma metric_of_fixed:
  assumes "metric_of (PDict m) = Inr r"
  shows "m_name r = strip (str_of (dget m ''name''))" "m_direction r = direction_of (str_of (dget m ''direction''))"
  using assms by (auto simp: metric_of_def bindE_Inr_iff Let_def)

lemma dget_fold_dput:
  assumes "k \<notin> fst ` set changes"
  shows "dget (fold (\<lambda>(k, v) m. dput m k v) changes d) k = dget d k"
  using assms by (induction changes arbitrary: d) (auto split: prod.splits)

lemma validate_parts:
  assumes "validate_campaign_spec title purpose (PStr (mode_str mo)) metr evalr bud deadline trusted now = Inr s"
  shows "cs_mode s = mo" "metric_of metr = Inr (cs_metric s)"
proof -
  have "mode_of (str_of (PStr (mode_str mo))) = mo" by simp
  with assms show "cs_mode s = mo" "metric_of metr = Inr (cs_metric s)"
    unfolding validate_campaign_spec_def bindE_Inr_iff by auto
qed

lemma edited_spec_fixed:
  assumes "edited_spec c ch now = Inr s" and "metric_ok (c_metric c)" and "fst ` set (ed_metric ch) \<subseteq> {''target'', ''min_delta''}"
  shows "cs_mode s = c_mode c" "m_name (cs_metric s) = m_name (c_metric c)"
    "m_direction (cs_metric s) = m_direction (c_metric c)" "spec_ok (check_now c ch now) s"
proof -
  note v = assms(1) [unfolded edited_spec_def]
  show "cs_mode s = c_mode c" using validate_parts(1) [OF v] .
  show "spec_ok (check_now c ch now) s" using v by (rule validate_spec_ok)
  let ?m = "fold (\<lambda>(k, v) m. dput m k v) (ed_metric ch) (dict_items (metric_raw (c_metric c)))"
  have m: "metric_of (PDict ?m) = Inr (cs_metric s)" using validate_parts(2) [OF v] by (simp add: merge_dict_def)
  have "''name'' \<notin> fst ` set (ed_metric ch)" "''direction'' \<notin> fst ` set (ed_metric ch)" using assms(3) by auto
  then have "dget ?m ''name'' = PStr (m_name (c_metric c))"
    "dget ?m ''direction'' = PStr (direction_str (m_direction (c_metric c)))"
    unfolding dget_fold_dput [OF \<open>''name'' \<notin> fst ` set (ed_metric ch)\<close>]
      dget_fold_dput [OF \<open>''direction'' \<notin> fst ` set (ed_metric ch)\<close>]
    by (simp_all add: metric_raw_def dict_items_def dget_def dget_or_def)
  then show "m_name (cs_metric s) = m_name (c_metric c)" "m_direction (cs_metric s) = m_direction (c_metric c)"
    using metric_of_fixed [OF m] assms(2) by (simp_all add: metric_ok_def)
qed

lemma edit_cases:
  assumes "edit_campaign c actor ch now d = Inr (d', c', diff)"
  obtains (noop) s where "edited_spec c ch now = Inr s" "edit_diff c s = []" "d' = d" "c' = c" "diff = []"
    | (written) s d1 where "edited_spec c ch now = Inr s" "diff = edit_diff c s" "diff \<noteq> []"
        "write_edit (edit_reopens c ch) actor c s now d = Inr (d1, c', True)" "d_campaigns d' = d_campaigns d1"
        "same_world d1 d'" "edit_reopens c ch \<or> (\<exists>new. transition (c_status c) TEdit = Inr new)"
        "key_of (c_id c) (''edit:'' @ int_str (c_rev c')) \<in> e_key ` set (d_events d')"
proof -
  from assms obtain s where s: "edited_spec c ch now = Inr s"
    and open_or: "edit_reopens c ch \<or> (\<exists>new. transition (c_status c) TEdit = Inr new)"
    and rest: "(if edit_diff c s = [] then Inr (d, c, [])
        else bindE (write_edit (edit_reopens c ch) actor c s now d) (\<lambda>(d1, c1, ok).
          if \<not> ok then Inl lost
          else Inr (record_event (c_id c) (key_of (c_id c) (''edit:'' @ int_str (c_rev c1))) ''edited''
                      [(''changes'', PDict (edit_diff c s)), (''open_cycle_no'', opt_int (open_cycle_no c d))] actor now d1,
                    c1, edit_diff c s))) = Inr (d', c', diff)"
    by (auto simp: edit_campaign_def bindE_Inr_iff Let_def split: if_splits)
  show thesis
  proof (cases "edit_diff c s = []")
    case True
    with s rest show ?thesis by (intro noop) simp_all
  next
    case False
    let ?log = "\<lambda>d1 c1. record_event (c_id c) (key_of (c_id c) (''edit:'' @ int_str (c_rev c1))) ''edited''
                      [(''changes'', PDict (edit_diff c s)), (''open_cycle_no'', opt_int (open_cycle_no c d))] actor now d1"
    have r: "bindE (write_edit (edit_reopens c ch) actor c s now d) (\<lambda>(d1, c1, ok).
          if \<not> ok then Inl lost else Inr (?log d1 c1, c1, edit_diff c s)) = Inr (d', c', diff)"
      using rest unfolding if_not_P [OF False] .
    obtain d1 c1 ok where w1: "write_edit (edit_reopens c ch) actor c s now d = Inr (d1, c1, ok)"
      using r by (cases "write_edit (edit_reopens c ch) actor c s now d") auto
    have "ok \<and> ?log d1 c1 = d' \<and> c1 = c' \<and> edit_diff c s = diff"
      using r unfolding w1 by (auto split: if_splits)
    then have w: "write_edit (edit_reopens c ch) actor c s now d = Inr (d1, c', True)"
      and d': "d' = ?log d1 c'" and diff: "diff = edit_diff c s"
      using w1 by auto
    show ?thesis
      by (rule written [OF s diff _ w]) (use False diff open_or in \<open>simp_all add: d' same_world_def record_event_key\<close>)
  qed
qed


section \<open>What the actions do\<close>

lemma person_transition_facts:
  assumes "person_transition c e actor det vs now d = Inr (d1, c1)" and "get_campaign (c_id c) d = Some c"
  shows "transition (c_status c) e = Inr (c_status c1)" "same_world d d1"
    "get_campaign k d1 = (if k = c_id c then Some c1 else get_campaign k d)"
    "c1 = cas_write (ending_values c (c_status c1) vs d) (Some (c_status c1)) (c_rev c) now c"
    "set (d_events d) \<subseteq> set (d_events d1)"
proof -
  obtain det' where a: "apply_transition c e actor now det' None None vs d = Inr (d1, c1, True)"
    using assms(1) by (auto simp: person_transition_def bindE_Inr_iff split: if_splits)
  from a show "transition (c_status c) e = Inr (c_status c1)" "same_world d d1"
    "get_campaign k d1 = (if k = c_id c then Some c1 else get_campaign k d)"
    "c1 = cas_write (ending_values c (c_status c1) vs d) (Some (c_status c1)) (c_rev c) now c"
    "set (d_events d) \<subseteq> set (d_events d1)"
    using assms(2) by (cases rule: apply_transition_cases; simp add: seen_rev_def)+
qed

lemma write_edit_facts:
  assumes "write_edit reopen actor c s now d = Inr (d1, c1, True)" and "get_campaign (c_id c) d = Some c"
    and "reopen \<longrightarrow> c_status c = BudgetExhausted"
  shows "get_campaign k d1 = (if k = c_id c then Some c1 else get_campaign k d)" "same_world d d1"
    "c_rev c1 = c_rev c + 1"
    "c_status c1 = (if reopen then Active else c_status c)" "reopen \<longrightarrow> \<not> past (cs_deadline s) now"
    "\<exists>vs. c1 = set_cols vs (with_spec s c)\<lparr>c_status := c_status c1, c_rev := c_rev c + 1, c_updated := now\<rparr>
       \<and> (\<not> reopen \<longrightarrow> vs = []) \<and> (reopen \<longrightarrow> vs = reopen_values c now)"
proof -
  have "get_campaign k d1 = (if k = c_id c then Some c1 else get_campaign k d) \<and> same_world d d1 \<and> c_rev c1 = c_rev c + 1
    \<and> c_status c1 = (if reopen then Active else c_status c) \<and> (reopen \<longrightarrow> \<not> past (cs_deadline s) now)
    \<and> (\<exists>vs. c1 = set_cols vs (with_spec s c)\<lparr>c_status := c_status c1, c_rev := c_rev c + 1, c_updated := now\<rparr>
       \<and> (\<not> reopen \<longrightarrow> vs = []) \<and> (reopen \<longrightarrow> vs = reopen_values c now))" for k
  proof (cases reopen)
    case True
    with assms(1) have np: "\<not> past (cs_deadline s) now" and
      a: "apply_transition c TExtend actor now [(''reason'', PStr ''token_budget_removed'')] None None
            (edit_values c s @ reopen_values c now) d = Inr (d1, c1, True)"
      by (simp_all add: write_edit_def split: if_splits)
    have st: "c_status c = BudgetExhausted" using assms(3) True by simp
    from a show ?thesis
    proof (cases rule: apply_transition_cases)
      case (won row new)
      have new: "new = Active" using won(2) st by (simp add: transition.simps)
      have c1: "c1 = cas_write (edit_values c s @ reopen_values c now) (Some Active) (c_rev c) now c"
        using won(5) by (simp add: new ending_values_open RETRO_STATUSES_def seen_rev_def)
      have "get_campaign k d1 = (if k = c_id c then Some c1 else get_campaign k d)" 
        using won(3,5,6) assms(2) by simp
      moreover have "c_status c1 = Active" "c_rev c1 = c_rev c + 1" by (simp_all add: c1)
      moreover have "c1 = set_cols (reopen_values c now) (with_spec s c)\<lparr>c_status := Active, c_rev := c_rev c + 1, c_updated := now\<rparr>"
        by (simp add: c1 cas_write_def set_cols_append edit_values_spec)
      ultimately show ?thesis using True np won(8) by auto
    qed simp
  next
    case False
    with assms(1) have cas: "cas_update c None None (edit_values c s) now d = (d1, c1, True)" by (simp add: write_edit_def)
    note own = cas_own_row [OF assms(2) cas]
    have "c1 = (with_spec s c)\<lparr>c_status := c_status c, c_rev := c_rev c + 1, c_updated := now\<rparr>"
      using own(2) by (simp add: cas_write_def edit_values_spec with_spec_def)
    moreover have "c_status c1 = c_status c" "c_rev c1 = c_rev c + 1" using own(2) by simp_all
    ultimately show ?thesis using False own(4,5) by auto
  qed
  then show "get_campaign k d1 = (if k = c_id c then Some c1 else get_campaign k d)" "same_world d d1"
    "c_rev c1 = c_rev c + 1"
    "c_status c1 = (if reopen then Active else c_status c)" "reopen \<longrightarrow> \<not> past (cs_deadline s) now"
    "\<exists>vs. c1 = set_cols vs (with_spec s c)\<lparr>c_status := c_status c1, c_rev := c_rev c + 1, c_updated := now\<rparr>
       \<and> (\<not> reopen \<longrightarrow> vs = []) \<and> (reopen \<longrightarrow> vs = reopen_values c now)"
    by blast+
qed


lemma reopen_cols_fields [simp]:
  "c_mode (set_cols (reopen_values c now) r) = c_mode r" "c_metric (set_cols (reopen_values c now) r) = c_metric r"
  "c_budget (set_cols (reopen_values c now) r) = c_budget r" "c_deadline (set_cols (reopen_values c now) r) = c_deadline r"
  "c_evaluator (set_cols (reopen_values c now) r) = c_evaluator r" "c_pins (set_cols (reopen_values c now) r) = c_pins r"
  "c_title (set_cols (reopen_values c now) r) = c_title r" "c_purpose (set_cols (reopen_values c now) r) = c_purpose r"
  "c_trusted (set_cols (reopen_values c now) r) = c_trusted r" "c_tokens_used (set_cols (reopen_values c now) r) = c_tokens_used r"
  "c_best (set_cols (reopen_values c now) r) = c_best r" "c_cycles_run (set_cols (reopen_values c now) r) = c_cycles_run r"
  by (simp_all add: reopen_values_def)

definition spec_of :: "campaign \<Rightarrow> campaign_spec" where
  "spec_of c = \<lparr>cs_title = c_title c, cs_purpose = c_purpose c, cs_mode = c_mode c, cs_metric = c_metric c,
     cs_evaluator = c_evaluator c, cs_trusted = c_trusted c, cs_budget = c_budget c, cs_deadline = c_deadline c\<rparr>"

text \<open>
  An edit keeps scores comparable and criteria valid: the mode, the metric's name and its
  direction never change (the request can only send target and minimum improvement); an edit that
  changes nothing writes nothing; one that changes something leaves criteria that pass validation,
  forgets the pins exactly when the evaluator changed, keeps tokens, cycles and the best attempt,
  raises the revision by one, and keeps the status, except that removing the token budget of a
  \<open>budget_exhausted\<close> campaign reopens it, and then only when its deadline is still ahead.
\<close>

theorem edit_effect:
  assumes "get_campaign (c_id c) d = Some c" and "edit_campaign c actor ch now d = Inr (d', c', diff)"
    and "metric_ok (c_metric c)" and "fst ` set (ed_metric ch) \<subseteq> {''target'', ''min_delta''}"
  shows "(diff = [] \<longrightarrow> d' = d \<and> c' = c) \<and>
    (diff \<noteq> [] \<longrightarrow> get_campaign (c_id c) d' = Some c' \<and> (\<forall>k. k \<noteq> c_id c \<longrightarrow> get_campaign k d' = get_campaign k d)
      \<and> same_world d d' \<and> spec_ok (check_now c ch now) (spec_of c')
      \<and> c_mode c' = c_mode c \<and> m_name (c_metric c') = m_name (c_metric c)
      \<and> m_direction (c_metric c') = m_direction (c_metric c)
      \<and> c_pins c' = (if c_evaluator c' = c_evaluator c then c_pins c else None)
      \<and> c_tokens_used c' = c_tokens_used c \<and> c_cycles_run c' = c_cycles_run c \<and> c_best c' = c_best c
      \<and> c_rev c' = c_rev c + 1
      \<and> c_status c' = (if edit_reopens c ch then Active else c_status c)
      \<and> (edit_reopens c ch \<longrightarrow> \<not> past (c_deadline c') now))"
  using assms(2)
proof (cases rule: edit_cases)
  case (noop s)
  then show ?thesis by simp
next
  case (written s d1)
  note fixed = edited_spec_fixed [OF written(1) assms(3,4)]
  have reop: "edit_reopens c ch \<longrightarrow> c_status c = BudgetExhausted" by (simp add: edit_reopens_def)
  note w = write_edit_facts [OF written(4) assms(1) reop]
  obtain vs where c': "c' = set_cols vs (with_spec s c)\<lparr>c_status := c_status c', c_rev := c_rev c + 1, c_updated := now\<rparr>"
    and vs: "vs = [] \<or> vs = reopen_values c now"
    using w(6) by blast
  have f: "spec_of c' = s \<and> c_pins c' = (if cs_evaluator s \<noteq> c_evaluator c then None else c_pins c)
      \<and> c_tokens_used c' = c_tokens_used c \<and> c_cycles_run c' = c_cycles_run c \<and> c_best c' = c_best c"
    using vs fixed(1) by (subst (1 2 3 4 5) c') (elim disjE; simp add: with_spec_def spec_of_def)
  then have s: "cs_mode s = c_mode c'" "cs_metric s = c_metric c'" "cs_evaluator s = c_evaluator c'" "cs_deadline s = c_deadline c'"
    by (auto simp: spec_of_def)
  have camps: "get_campaign k d' = get_campaign k d1" for k using written(5) by (simp add: row_get_def)
  show ?thesis
    using f fixed w(1-5) written(3,6) s by (auto simp: camps intro: same_world_trans)
qed

definition title_edit :: edit_changes where
  "title_edit = \<lparr>ed_title = Some (PStr ''Faster''), ed_purpose = None, ed_metric = [], ed_budget = [], ed_evaluator = None,
     ed_trusted = None, ed_deadline = None\<rparr>"

lemma title_edit_spec: "edited_spec sample_campaign title_edit 3 = Inr (sample_spec\<lparr>cs_title := ''Faster''\<rparr>)"
proof -
  have "strip ''Faster'' = ''Faster''" by code_simp
  with sample_spec_ok have ok: "spec_ok 3 (sample_spec\<lparr>cs_title := ''Faster''\<rparr>)"
    by (simp add: spec_ok_def sample_spec_def)
  have "merge_dict (metric_raw m) [] = metric_raw m" "merge_dict (budget_raw b) [] = budget_raw b" for m b
    by (simp_all add: merge_dict_def metric_raw_def budget_raw_def dict_items_def)
  with revalidate_spec [OF ok] show ?thesis
    by (simp add: edited_spec_def title_edit_def sample_campaign_def new_campaign_def sample_spec_def check_now_def
        edit_deadline_def sent_or_def)
qed

lemma title_edit_runs:
  "\<exists>d' c' diff. edit_campaign sample_campaign ''user:u1'' title_edit 3 sample_db = Inr (d', c', diff) \<and> diff \<noteq> []
     \<and> c_title c' = ''Faster''"
proof -
  have g: "get_campaign (c_id sample_campaign) sample_db = Some sample_campaign"
    by (simp add: sample_db_def row_get_def)
  obtain d1 c1 ok where cas: "cas_update sample_campaign None None
      (edit_values sample_campaign (sample_spec\<lparr>cs_title := ''Faster''\<rparr>)) 3 sample_db = (d1, c1, ok)"
    by (metis prod_cases3)
  note own = cas_own_row [OF g cas]
  have r: "\<not> edit_reopens sample_campaign title_edit" by (simp add: edit_reopens_def)
  have title: "c_title c1 = ''Faster''"
    unfolding own(2) by (simp add: cas_write_def edit_values_spec) (simp add: with_spec_def)
  have diff: "edit_diff sample_campaign (sample_spec\<lparr>cs_title := ''Faster''\<rparr>) \<noteq> []"
    by (simp add: edit_diff_def text_diff_def sample_campaign_def new_campaign_def sample_spec_def)
  show ?thesis
    using own(1) diff title cas r
    by (simp add: edit_campaign_def title_edit_spec write_edit_def transition.simps Let_def)
qed

lemma edit_effect_witness:
  "\<exists>d' c' diff. edit_campaign sample_campaign ''user:u1'' title_edit 3 sample_db = Inr (d', c', diff)
     \<and> get_campaign ''c1'' d' = Some c' \<and> c_title c' = ''Faster'' \<and> c_rev c' = 1 \<and> c_status c' = Active"
proof -
  obtain d' c' diff where e: "edit_campaign sample_campaign ''user:u1'' title_edit 3 sample_db = Inr (d', c', diff)"
    and diff: "diff \<noteq> []" and title: "c_title c' = ''Faster''"
    using title_edit_runs by blast
  have g: "get_campaign (c_id sample_campaign) sample_db = Some sample_campaign"
    by (simp add: sample_db_def row_get_def)
  have m: "metric_ok (c_metric sample_campaign)"
    using sample_spec_ok by (simp add: spec_ok_def sample_campaign_def new_campaign_def)
  have k: "fst ` set (ed_metric title_edit) \<subseteq> {''target'', ''min_delta''}" by (simp add: title_edit_def)
  have "\<not> edit_reopens sample_campaign title_edit" by (simp add: edit_reopens_def)
  with edit_effect [OF g e m k] diff title e show ?thesis by auto
qed

section \<open>Trusted scores and the final result\<close>

lemma recorded_campaign [simp]:
  "get_campaign k (record_event cid key typ det actor now d) = get_campaign k d"
  by (simp add: row_get_def record_event_def)

lemma trusted_cases:
  assumes "record_trusted_score c actor aid score now d = Inr (d', won)"
  obtains a s d2 where
    "is_number score = Inr True" "to_float score = Inr s" "get_attempt aid d = Some a" "a_campaign a = c_id c"
    "a_id a = aid" "a_kind a = CycleKind" "a_closed a \<noteq> None"
    "\<And>k. get_attempt k d2 = (if k = aid then Some (write_trusted s now a) else get_attempt k d)"
    "\<And>k. get_campaign k d2 = get_campaign k d"
    "won \<longleftrightarrow> trusted_reaches c a s \<and> legal (c_status c) TTrustedTargetReached"
    "\<not> won \<Longrightarrow> d' = d2"
    "won \<Longrightarrow> \<exists>c'. person_transition c TTrustedTargetReached actor
        [(''attempt_id'', PStr (a_id a)), (''trusted_score'', PFloat s)]
        [ColStopReason (Some ''achieved''), ColFinal (Some aid)] now d2 = Inr (d', c')"
proof -
  note r = assms [unfolded record_trusted_score_def Let_def]
  obtain s a where n: "is_number score = Inr True" and s: "to_float score = Inr s" and a: "cycle_attempt c aid d = Inr a"
    and closed: "a_kind a = CycleKind \<and> a_closed a \<noteq> None"
    using r by (auto simp: bindE_Inr_iff guardE_Inr_iff)
  have own: "get_attempt aid d = Some a" "a_campaign a = c_id c" "a_id a = aid"
    using a by (auto simp: cycle_attempt_def split: option.splits if_splits dest: attempts.get_key)
  define d1 where "d1 = add_mark (MarkCampaign (c_id c)) (add_mark (MarkAttempt (a_id a)) (upd_attempt (a_id a) (write_trusted s now) d))"
  define d2 where "d2 = record_event (c_id c)
      (key_of (c_id c) (''attempt:'' @ a_id a @ '':trusted:'' @ int_str now)) ''trusted_score_recorded''
      [(''attempt_id'', PStr (a_id a)), (''cycle_no'', PInt (a_cycle_no a)), (''score'', PFloat s)] actor now d1"
  have att: "get_attempt k d2 = (if k = aid then Some (write_trusted s now a) else get_attempt k d)" for k
  proof -
    have "get_attempt k d2 = get_attempt k (upd_attempt (a_id a) (write_trusted s now) d)"
      by (simp add: d2_def d1_def row_get_def record_event_def add_mark_def)
    also have "\<dots> = (if k = a_id a then map_option (write_trusted s now) (get_attempt (a_id a) d) else get_attempt k d)"
      by (rule attempts.get_upd) (simp add: write_trusted_def)
    finally show ?thesis using own by simp
  qed
  have camp: "get_campaign k d2 = get_campaign k d" for k
    by (simp add: d2_def d1_def row_get_def record_event_def add_mark_def row_upd_def)
  have rest: "(if \<not> trusted_reaches c a s \<or> \<not> legal (c_status c) TTrustedTargetReached then Inr (d2, False)
        else bindE (person_transition c TTrustedTargetReached actor
                      [(''attempt_id'', PStr (a_id a)), (''trusted_score'', PFloat s)]
                      [ColStopReason (Some ''achieved''), ColFinal (Some (a_id a))] now d2) (\<lambda>(d3, _).
               Inr (d3, True))) = Inr (d', won)"
    using r closed by (simp only: n s a lift_py.simps bindE.simps guardE_def simp_thms if_True d1_def d2_def)
  have "(won \<longleftrightarrow> trusted_reaches c a s \<and> legal (c_status c) TTrustedTargetReached) \<and> (\<not> won \<longrightarrow> d' = d2)
    \<and> (won \<longrightarrow> (\<exists>c'. person_transition c TTrustedTargetReached actor
        [(''attempt_id'', PStr (a_id a)), (''trusted_score'', PFloat s)]
        [ColStopReason (Some ''achieved''), ColFinal (Some aid)] now d2 = Inr (d', c')))"
  proof (cases "trusted_reaches c a s \<and> legal (c_status c) TTrustedTargetReached")
    case False
    then have "Inr (d2, False) = (Inr (d', won) :: camp_exc + db \<times> bool)" using rest by (simp only: de_Morgan_conj if_True)
    then show ?thesis using False by auto
  next
    case True
    then obtain c' where "person_transition c TTrustedTargetReached actor
          [(''attempt_id'', PStr (a_id a)), (''trusted_score'', PFloat s)]
          [ColStopReason (Some ''achieved''), ColFinal (Some (a_id a))] now d2 = Inr (d', c')" and won
      using rest by (auto simp: bindE_Inr_iff)
    then show ?thesis using True own(3) by auto
  qed
  then show thesis using that [OF n s own _ _ att camp] closed by blast
qed

text \<open>
  A trusted score (CMP-07) is only stored for a closed cycle of the campaign, as a finite float.
  It writes the score and the time of that one attempt and no other attempt; the campaign is
  achieved by it exactly when it has a target, the attempt was not judged invalid, the score
  reaches the target, and the campaign is active, paused, on a plateau or awaiting confirmation.
  Then the row ends as achieved with this attempt as its final result; else no campaign changes.
\<close>

theorem trusted_score_effect:
  assumes "get_campaign (c_id c) d = Some c" and "record_trusted_score c actor aid score now d = Inr (d', won)"
  shows "\<exists>a s. get_attempt aid d = Some a \<and> a_campaign a = c_id c \<and> a_kind a = CycleKind \<and> a_closed a \<noteq> None
    \<and> to_float score = Inr s \<and> is_number score = Inr True
    \<and> get_attempt aid d' = Some (a\<lparr>a_trusted_score := Some s, a_trusted_at := Some now\<rparr>)
    \<and> (\<forall>k. k \<noteq> aid \<longrightarrow> get_attempt k d' = get_attempt k d)
    \<and> (won \<longleftrightarrow> c_mode c = TargetMode \<and> a_valid a \<noteq> Some False \<and> reaches_target (Some s) (c_metric c)
         \<and> c_status c \<in> {Active, Paused, Plateau, AwaitingConfirmation})
    \<and> (\<not> won \<longrightarrow> (\<forall>k. get_campaign k d' = get_campaign k d))
    \<and> (won \<longrightarrow> (\<exists>c'. get_campaign (c_id c) d' = Some c' \<and> c_status c' = Achieved \<and> c_final c' = Some aid
         \<and> c_stop_reason c' = Some ''achieved'' \<and> (\<forall>k. k \<noteq> c_id c \<longrightarrow> get_campaign k d' = get_campaign k d)))"
  using assms(2)
proof (cases rule: trusted_cases)
  case (1 a s d2)
  have leg: "legal (c_status c) TTrustedTargetReached \<longleftrightarrow> c_status c \<in> {Active, Paused, Plateau, AwaitingConfirmation}"
    by (cases "c_status c") (simp_all add: legal_def transition.simps)
  have G: "get_attempt aid d' = Some (write_trusted s now a) \<and> (\<forall>k. k \<noteq> aid \<longrightarrow> get_attempt k d' = get_attempt k d)
    \<and> (\<not> won \<longrightarrow> (\<forall>k. get_campaign k d' = get_campaign k d))
    \<and> (won \<longrightarrow> (\<exists>c'. get_campaign (c_id c) d' = Some c' \<and> c_status c' = Achieved \<and> c_final c' = Some aid
         \<and> c_stop_reason c' = Some ''achieved'' \<and> (\<forall>k. k \<noteq> c_id c \<longrightarrow> get_campaign k d' = get_campaign k d)))"
  proof (cases won)
    case True
    then obtain c' where p: "person_transition c TTrustedTargetReached actor
          [(''attempt_id'', PStr (a_id a)), (''trusted_score'', PFloat s)]
          [ColStopReason (Some ''achieved''), ColFinal (Some aid)] now d2 = Inr (d', c')"
      using 1(12) by blast
    have g: "get_campaign (c_id c) d2 = Some c" using assms(1) 1(9) by simp
    note f = person_transition_facts [OF p g]
    have st: "c_status c' = Achieved"
      using f(1) True 1(10) leg by (cases "c_status c") (auto simp: transition.simps)
    have vals: "ending_values c Achieved [ColStopReason (Some ''achieved''), ColFinal (Some aid)] d2 =
        [ColStopReason (Some ''achieved''), ColFinal (Some aid)]
        @ (if Achieved = c_status c then [] else [ColRetroDue (Some (RetroEnd Achieved))])"
      by (simp add: ending_values_def RETRO_STATUSES_def has_retro_col_def has_final_col_def)
    have c': "c_final c' = Some aid" "c_stop_reason c' = Some ''achieved''"
      unfolding f(4) [unfolded st vals] by (simp_all add: cas_write_def set_cols_append)
    have "get_attempt k d' = get_attempt k d2" for k using f(2) by (simp add: same_world_def row_get_def)
    then show ?thesis using True 1(8,9) f(3) st c' by auto
  qed (use 1(8,9,11) in simp)
  then show ?thesis using 1(1-7,10) leg unfolding trusted_reaches_def write_trusted_def by blast
qed

definition target_campaign :: campaign where
  "target_campaign = sample_campaign\<lparr>c_mode := TargetMode, c_metric := (c_metric sample_campaign)\<lparr>m_target := Some (Fin 5)\<rparr>\<rparr>"

definition closed_cycle :: attempt where
  "closed_cycle = (new_attempt ''a1'' ''c1'' 1 CycleKind ''t1'' 1 EvOk)\<lparr>a_closed := Some 2, a_valid := Some True,
     a_dev_score := Some (Fin 4)\<rparr>"

definition scored_db :: db where
  "scored_db = sample_db\<lparr>d_campaigns := [target_campaign], d_attempts := [closed_cycle]\<rparr>"

lemma scored_db_rows:
  "get_campaign ''c1'' scored_db = Some target_campaign" "get_attempt ''a1'' scored_db = Some closed_cycle"
  "c_id target_campaign = ''c1''" "c_status target_campaign = Active" "c_mode target_campaign = TargetMode"
  "reaches_target (Some (Fin 4)) (c_metric target_campaign)" "trusted_reaches target_campaign closed_cycle (Fin 4)"
  "cycle_attempt target_campaign ''a1'' scored_db = Inr closed_cycle"
  "a_kind closed_cycle = CycleKind" "a_closed closed_cycle = Some 2" "a_campaign closed_cycle = ''c1''"
  by (simp_all add: scored_db_def target_campaign_def closed_cycle_def new_attempt_def row_get_def cycle_attempt_def
      reaches_target_def trusted_reaches_def sample_campaign_def new_campaign_def sample_spec_def fle_def)

lemma trusted_run:
  "\<exists>d'. record_trusted_score target_campaign ''user:u1'' ''a1'' (PFloat (Fin 4)) 9 scored_db = Inr (d', True)"
proof -
  have leg: "legal (c_status target_campaign) TTrustedTargetReached"
    by (simp add: scored_db_rows legal_def transition.simps)
  have p: "\<exists>d3 c3. person_transition target_campaign TTrustedTargetReached actor det vs 9 d2 = Inr (d3, c3)"
    if "get_campaign ''c1'' d2 = Some target_campaign" for actor det vs d2
    using that by (simp add: person_transition_def apply_transition_def scored_db_rows transition.simps
        cas_update_def seen_rev_def Let_def)
  let ?d2 = "record_event ''c1'' (key_of ''c1'' (''attempt:'' @ a_id closed_cycle @ '':trusted:'' @ int_str 9)) ''trusted_score_recorded''
      [(''attempt_id'', PStr (a_id closed_cycle)), (''cycle_no'', PInt (a_cycle_no closed_cycle)), (''score'', PFloat (Fin 4))] ''user:u1'' 9
      (add_mark (MarkCampaign ''c1'') (add_mark (MarkAttempt (a_id closed_cycle))
        (upd_attempt (a_id closed_cycle) (write_trusted (Fin 4) 9) scored_db)))"
  have "get_campaign ''c1'' ?d2 = Some target_campaign"
    using scored_db_rows(1) by (simp add: row_get_def record_event_def add_mark_def row_upd_def)
  from p [OF this, of "''user:u1''" "[(''attempt_id'', PStr (a_id closed_cycle)), (''trusted_score'', PFloat (Fin 4))]"
      "[ColStopReason (Some ''achieved''), ColFinal (Some (a_id closed_cycle))]"]
  obtain d3 c3 where "person_transition target_campaign TTrustedTargetReached ''user:u1''
      [(''attempt_id'', PStr (a_id closed_cycle)), (''trusted_score'', PFloat (Fin 4))]
      [ColStopReason (Some ''achieved''), ColFinal (Some (a_id closed_cycle))] 9 ?d2 = Inr (d3, c3)" by blast
  then have "record_trusted_score target_campaign ''user:u1'' ''a1'' (PFloat (Fin 4)) 9 scored_db = Inr (d3, True)"
    unfolding record_trusted_score_def is_number.simps to_float.simps lift_py.simps bindE.simps scored_db_rows(8)
    using leg by (simp add: is_finite.simps guardE_def Let_def scored_db_rows)
  then show ?thesis by blast
qed

lemma trusted_score_effect_witness:
  "\<exists>d' c'. record_trusted_score target_campaign ''user:u1'' ''a1'' (PFloat (Fin 4)) 9 scored_db = Inr (d', True)
     \<and> get_campaign ''c1'' d' = Some c' \<and> c_status c' = Achieved \<and> c_final c' = Some ''a1''"
proof -
  obtain d' where r: "record_trusted_score target_campaign ''user:u1'' ''a1'' (PFloat (Fin 4)) 9 scored_db = Inr (d', True)"
    using trusted_run by blast
  have g: "get_campaign (c_id target_campaign) scored_db = Some target_campaign" by (simp add: scored_db_rows)
  from trusted_score_effect [OF g r] r scored_db_rows(3) show ?thesis by metis
qed

lemma final_outcomes:
  assumes "get_campaign (c_id c) d = Some c"
  shows "case select_final c actor aid now d of
      Inr (d', c') \<Rightarrow> c_status c \<in> {Achieved, DeadlineReached, BudgetExhausted}
        \<and> (\<exists>a. get_attempt aid d = Some a \<and> a_campaign a = c_id c \<and> selectable a)
        \<and> c' = c\<lparr>c_final := Some aid, c_rev := c_rev c + 1, c_updated := now\<rparr> \<and> same_world d d'
        \<and> (\<forall>k. get_campaign k d' = (if k = c_id c then Some c' else get_campaign k d))
    | Inl e \<Rightarrow>
        (if c_status c \<notin> {Achieved, DeadlineReached, BudgetExhausted} then e = CampaignConflict ''CAMPAIGN_NOT_ENDED''
         else if \<not> (\<exists>a. get_attempt aid d = Some a \<and> a_campaign a = c_id c) then e = AttemptNotFound
         else e = PolicyError ''ATTEMPT_NOT_SELECTABLE'' \<and> (\<forall>a. get_attempt aid d = Some a \<longrightarrow> \<not> selectable a))"
proof -
  note sel = select_final_def [of c actor aid now d]
  show ?thesis
  proof (cases "c_status c \<in> {Achieved, DeadlineReached, BudgetExhausted}")
    case False
    then have "select_final c actor aid now d = Inl (CampaignConflict ''CAMPAIGN_NOT_ENDED'')"
      unfolding sel by (simp add: guardE_def RETRO_STATUSES_def)
    with False show ?thesis by simp
  next
    case ended: True
    then have s1: "select_final c actor aid now d = bindE (cycle_attempt c aid d) (\<lambda>a.
        bindE (guardE (selectable a) (PolicyError ''ATTEMPT_NOT_SELECTABLE'')) (\<lambda>_.
        case cas_update c None None [ColFinal (Some (a_id a))] now d of
       (d1, c1, ok) \<Rightarrow>
         if \<not> ok then Inl lost
         else Inr (record_event (c_id c) (key_of (c_id c) (''final:'' @ int_str (c_rev c1))) ''final_selected''
                     [(''attempt_id'', PStr (a_id a)), (''cycle_no'', PInt (a_cycle_no a)),
                      (''previous'', opt_str (c_final c))] actor now d1, c1)))"
      unfolding sel by (simp add: guardE_def RETRO_STATUSES_def)
    show ?thesis
    proof (cases "\<exists>a. get_attempt aid d = Some a \<and> a_campaign a = c_id c")
      case False
      then have "select_final c actor aid now d = Inl AttemptNotFound"
        unfolding s1 by (auto simp: cycle_attempt_def split: option.splits)
      with ended False show ?thesis by simp
    next
      case True
      then obtain a where a: "get_attempt aid d = Some a" "a_campaign a = c_id c" by blast
      have i: "a_id a = aid" using a(1) by (rule attempts.get_key)
      show ?thesis
      proof (cases "selectable a")
        case False
        then have "select_final c actor aid now d = Inl (PolicyError ''ATTEMPT_NOT_SELECTABLE'')"
          unfolding s1 using a by (simp add: cycle_attempt_def guardE_def)
        with ended True a False show ?thesis by simp
      next
        case sel: True
        obtain d1 c1 ok where cas: "cas_update c None None [ColFinal (Some aid)] now d = (d1, c1, ok)"
          by (metis prod_cases3)
        note own = cas_own_row [OF assms cas]
        have c1: "c1 = c\<lparr>c_final := Some aid, c_rev := c_rev c + 1, c_updated := now\<rparr>"
          using own(2) by (simp add: cas_write_def)
        let ?d' = "record_event (c_id c) (key_of (c_id c) (''final:'' @ int_str (c_rev c1))) ''final_selected''
                     [(''attempt_id'', PStr (a_id a)), (''cycle_no'', PInt (a_cycle_no a)),
                      (''previous'', opt_str (c_final c))] actor now d1"
        have "select_final c actor aid now d = Inr (?d', c1)"
          unfolding s1 using a i sel cas own(1) by (simp add: cycle_attempt_def guardE_def)
        moreover have "same_world d ?d'" using own(4) by (simp add: same_world_def)
        ultimately show ?thesis using ended a sel c1 own(5) by auto
      qed
    qed
  qed
qed

text \<open>
  Choosing the final result: the choice succeeds exactly for an ended campaign (achieved,
  deadline reached or budget exhausted) and an attempt of this campaign that is selectable: a closed
  cycle, not judged invalid, with a score. It then only changes the campaign's final result, revision
  and time. The other requests fail in this order: not ended (409), unknown attempt or one of another
  campaign (404), not selectable (422); the row as read by the request never loses the write.
\<close>

theorem select_final_outcomes:
  assumes "get_campaign (c_id c) d = Some c"
  shows "case select_final c actor aid now d of
      Inr (d', c') \<Rightarrow> c_status c \<in> {Achieved, DeadlineReached, BudgetExhausted}
        \<and> (\<exists>a. get_attempt aid d = Some a \<and> a_campaign a = c_id c \<and> selectable a)
        \<and> c' = c\<lparr>c_final := Some aid, c_rev := c_rev c + 1, c_updated := now\<rparr> \<and> same_world d d'
        \<and> (\<forall>k. get_campaign k d' = (if k = c_id c then Some c' else get_campaign k d))
    | Inl e \<Rightarrow>
        (if c_status c \<notin> {Achieved, DeadlineReached, BudgetExhausted} then e = CampaignConflict ''CAMPAIGN_NOT_ENDED''
         else if \<not> (\<exists>a. get_attempt aid d = Some a \<and> a_campaign a = c_id c) then e = AttemptNotFound
         else e = PolicyError ''ATTEMPT_NOT_SELECTABLE'' \<and> (\<forall>a. get_attempt aid d = Some a \<longrightarrow> \<not> selectable a))"
  by (rule final_outcomes [OF assms])

lemma select_final_outcomes_witness:
  "\<exists>d' c'. select_final (target_campaign\<lparr>c_status := Achieved\<rparr>) ''user:u1'' ''a1'' 9
       (scored_db\<lparr>d_campaigns := [target_campaign\<lparr>c_status := Achieved\<rparr>]\<rparr>) = Inr (d', c') \<and> c_final c' = Some ''a1''"
proof -
  let ?c = "target_campaign\<lparr>c_status := Achieved\<rparr>" and ?d = "scored_db\<lparr>d_campaigns := [target_campaign\<lparr>c_status := Achieved\<rparr>]\<rparr>"
  have g: "get_campaign (c_id ?c) ?d = Some ?c" by (simp add: row_get_def)
  have a: "get_attempt ''a1'' ?d = Some closed_cycle" using scored_db_rows(2) by (simp add: row_get_def)
  have sel: "selectable closed_cycle" by (simp add: selectable_def closed_cycle_def new_attempt_def)
  from select_final_outcomes [OF g, where actor = "''user:u1''" and aid = "''a1''" and now = 9]
  show ?thesis using a sel scored_db_rows(3,11)
    by (cases "select_final ?c ''user:u1'' ''a1'' 9 ?d") (auto split: if_splits)
qed

section \<open>Every campaign moves along the table\<close>

lemma attempt_only_campaigns:
  assumes "record_trusted_score c actor aid score now d = Inr (d', won)" and "get_campaign (c_id c) d = Some c"
  shows "(\<forall>k. get_campaign k d' = get_campaign k d) \<or>
    (\<exists>c'. transition (c_status c) TTrustedTargetReached = Inr (c_status c')
       \<and> (\<forall>k. get_campaign k d' = (if k = c_id c then Some c' else get_campaign k d)))"
  using assms(1)
proof (cases rule: trusted_cases)
  case (1 a s d2)
  have g: "get_campaign (c_id c) d2 = Some c" using assms(2) 1(9) by simp
  show ?thesis
  proof (cases won)
    case True
    then obtain c' where p: "person_transition c TTrustedTargetReached actor
          [(''attempt_id'', PStr (a_id a)), (''trusted_score'', PFloat s)]
          [ColStopReason (Some ''achieved''), ColFinal (Some aid)] now d2 = Inr (d', c')"
      using 1(12) by blast
    from person_transition_facts(1,3) [OF p g] 1(9) show ?thesis by auto
  qed (use 1(9,11) in simp)
qed

text \<open>
  The steps of the whole campaign engine: what the scheduler and the loop's hooks do, and what
  people and external scorers do. A request works on the row as it read it.
\<close>

inductive campaign_step :: "assigner \<Rightarrow> db \<Rightarrow> db \<Rightarrow> bool" for assign :: assigner where
  engine: "scheduler_step assign d d' \<Longrightarrow> campaign_step assign d d'"
| created: "create_campaign cid owner room title purpose md metr evalr bud deadline trusted now d = Inr (d', c')
    \<Longrightarrow> campaign_step assign d d'"
| edited: "get_campaign (c_id c) d = Some c \<Longrightarrow> edit_campaign c actor ch now d = Inr (d', c', diff)
    \<Longrightarrow> campaign_step assign d d'"
| extended: "get_campaign (c_id c) d = Some c \<Longrightarrow> extend_campaign c actor dl cap now d = Inr (d', c', ok)
    \<Longrightarrow> campaign_step assign d d'"
| paused: "get_campaign (c_id c) d = Some c \<Longrightarrow> pause_campaign c actor now d = Inr (d', c') \<Longrightarrow> campaign_step assign d d'"
| resumed: "get_campaign (c_id c) d = Some c \<Longrightarrow> resume_campaign c actor now d = Inr (d', c') \<Longrightarrow> campaign_step assign d d'"
| confirmed: "get_campaign (c_id c) d = Some c \<Longrightarrow> confirm_campaign c actor now d = Inr (d', c') \<Longrightarrow> campaign_step assign d d'"
| rejected: "get_campaign (c_id c) d = Some c \<Longrightarrow> reject_campaign c actor reason now d = Inr (d', c') \<Longrightarrow> campaign_step assign d d'"
| selected: "get_campaign (c_id c) d = Some c \<Longrightarrow> select_final c actor aid now d = Inr (d', c') \<Longrightarrow> campaign_step assign d d'"
| scored: "get_campaign (c_id c) d = Some c \<Longrightarrow> record_trusted_score c actor aid score now d = Inr (d', won)
    \<Longrightarrow> campaign_step assign d d'"

text \<open>The abstract machine has only the status: a step of it is an event of the table.\<close>

definition table_path :: "camp_status \<Rightarrow> camp_event list \<Rightarrow> camp_status \<Rightarrow> bool" where
  "table_path s es t \<longleftrightarrow> run_events s es = Some t"

definition moves :: "db \<Rightarrow> db \<Rightarrow> bool" where
  "moves d d' \<longleftrightarrow> (\<forall>k c. get_campaign k d = Some c \<longrightarrow>
     (\<exists>c' es. get_campaign k d' = Some c' \<and> table_path (c_status c) es (c_status c')))"

lemma moves_refl: "(\<And>k. get_campaign k d' = get_campaign k d) \<Longrightarrow> moves d d'"
  unfolding moves_def table_path_def by (metis run_events.simps(1))

lemma moves_trans: "moves d d1 \<Longrightarrow> moves d1 d2 \<Longrightarrow> moves d d2"
  unfolding moves_def table_path_def using run_events_append by meson

lemma moves_kept: "campaigns_kept d d' \<Longrightarrow> moves d d'"
  unfolding moves_def campaigns_kept_def status_path_def table_path_def by blast

lemma moves_one:
  assumes "get_campaign cid d = Some c" and "run_events (c_status c) es = Some (c_status c1)"
    and "\<And>k. get_campaign k d1 = (if k = cid then Some c1 else get_campaign k d)"
  shows "moves d d1"
  unfolding moves_def table_path_def
proof (intro allI impI)
  fix k r assume r: "get_campaign k d = Some r"
  have "run_events (c_status r) [] = Some (c_status r)" by simp
  with r assms show "\<exists>c' es. get_campaign k d1 = Some c' \<and> run_events (c_status r) es = Some (c_status c')"
    by (cases "k = cid") (force, metis)
qed

lemma moves_event:
  assumes "get_campaign cid d = Some c" and "transition (c_status c) e = Inr (c_status c1)"
    and "\<And>k. get_campaign k d1 = (if k = cid then Some c1 else get_campaign k d)"
  shows "moves d d1"
  by (rule moves_one [OF assms(1) _ assms(3), of "[e]"]) (use assms(2) in \<open>simp del: transition.simps\<close>)

lemma person_moves:
  assumes "get_campaign (c_id c) d = Some c" and "person_transition c e actor det vs now d = Inr (d1, c1)"
  shows "moves d d1"
  using person_transition_facts(1,3) [OF assms(2,1)] by (rule moves_event [OF assms(1)])

lemma edit_moves:
  assumes "get_campaign (c_id c) d = Some c" and "edit_campaign c actor ch now d = Inr (d', c', diff)"
  shows "moves d d'"
  using assms(2)
proof (cases rule: edit_cases)
  case (written s d1)
  have reop: "edit_reopens c ch \<longrightarrow> c_status c = BudgetExhausted" by (simp add: edit_reopens_def)
  note w = write_edit_facts [OF written(4) assms(1) reop]
  have rows: "get_campaign k d' = (if k = c_id c then Some c' else get_campaign k d)" for k
    using w(1) written(5) by (simp add: row_get_def)
  show ?thesis
  proof (cases "edit_reopens c ch")
    case True
    then have "transition (c_status c) TExtend = Inr (c_status c')" using reop w(4) by (simp add: transition.simps)
    then show ?thesis using rows by (rule moves_event [OF assms(1)])
  next
    case False
    then have "run_events (c_status c) [] = Some (c_status c')" using w(4) by simp
    then show ?thesis using rows by (rule moves_one [OF assms(1)])
  qed
qed (simp add: moves_refl)

lemma extend_moves:
  assumes "get_campaign (c_id c) d = Some c" and "extend_campaign c actor dl cap now d = Inr (d', c', ok)"
  shows "moves d d'"
proof -
  obtain det vs where a: "apply_transition c TExtend actor now det None None vs d = Inr (d', c', ok)"
    using assms(2) by (auto simp: extend_campaign_def bindE_Inr_iff Let_def split: if_splits)
  note p = apply_transition_path [OF assms(1) a, of "[TExtend]"]
  then obtain es where "run_events (c_status c) es = Some (c_status c')"
    by (auto simp: status_path_def)
  then show ?thesis using p(1) by (intro moves_one [OF assms(1)]) auto
qed

lemma select_moves:
  assumes "get_campaign (c_id c) d = Some c" and "select_final c actor aid now d = Inr (d', c')"
  shows "moves d d'"
proof -
  have f: "c_status c' = c_status c \<and> (\<forall>k. get_campaign k d' = (if k = c_id c then Some c' else get_campaign k d))"
    using final_outcomes [OF assms(1), where actor = actor and aid = aid and now = now] assms(2) by auto
  then have "run_events (c_status c) [] = Some (c_status c')" by simp
  from moves_one [OF assms(1) this] f show ?thesis by blast
qed

lemma create_moves:
  assumes "create_campaign cid owner room title purpose md metr evalr bud deadline trusted now d = Inr (d', c')"
  shows "moves d d'"
proof -
  obtain c ty det actor key where d': "d' = record_event cid key ty det actor now (row_add d_campaigns_update c d)"
    using assms by (auto simp: create_campaign_def bindE_Inr_iff Let_def)
  have "get_campaign k d' = Some r" if "get_campaign k d = Some r" for k r
    using that by (simp add: d' row_get_def record_event_def row_add_def tget_append)
  then show ?thesis unfolding moves_def table_path_def by (metis run_events.simps(1))
qed

lemma scored_moves:
  assumes "get_campaign (c_id c) d = Some c" and "record_trusted_score c actor aid score now d = Inr (d', won)"
  shows "moves d d'"
  using attempt_only_campaigns [OF assms(2,1)]
proof (elim disjE exE conjE)
  fix c' assume "transition (c_status c) TTrustedTargetReached = Inr (c_status c')"
    "\<forall>k. get_campaign k d' = (if k = c_id c then Some c' else get_campaign k d)"
  then show ?thesis by (intro moves_event [OF assms(1)]) auto
qed (simp add: moves_refl)

lemma kept_campaigns_trans: "campaigns_kept a b \<Longrightarrow> campaigns_kept b c \<Longrightarrow> campaigns_kept a c"
  unfolding campaigns_kept_def using status_path_trans by meson

lemma advance_all_campaigns: "campaigns_kept d (fst (advance_all br now ids d))"
proof -
  let ?f = "\<lambda>cid s. case advance br cid now (fst s) of Inl _ \<Rightarrow> s | Inr (d1, o1) \<Rightarrow> (d1, snd s @ [o1])"
  have refl: "campaigns_kept e e" for e by (simp add: campaigns_kept_def status_path_same)
  have step: "campaigns_kept (fst s) (fst (?f cid s))" for cid s
    using advance_campaigns refl by (auto split: sum.split prod.split)
  have "campaigns_kept (fst s) (fst (fold ?f ids s))" for s
    by (induction ids arbitrary: s) (simp add: refl, metis (no_types, lifting) fold_simps(2) step kept_campaigns_trans)
  from this [of "(d, [])"] show ?thesis by (simp add: advance_all_def)
qed

lemma tick_campaigns: "campaigns_kept d (fst (tick assign br now d))"
proof -
  have "ends_kept d (fst (reconcile_open_cycles assign now (fst (expire_eval_deadlines assign now d))))"
    using ends_kept_trans [OF expire_deadlines_ends reconcile_ends] .
  then have "campaigns_kept d (reconcile_loop assign now d)"
    by (simp add: reconcile_loop_def Let_def ends_kept_def campaigns_kept_def status_path_same)
  then show ?thesis using kept_campaigns_trans advance_all_campaigns unfolding tick_def Let_def by blast
qed

lemma engine_moves: "scheduler_step assign d d' \<Longrightarrow> moves d d'"
proof (induction rule: scheduler_step.induct)
  case (loops d d')
  then show ?case using lifecycle_step_ends moves_kept unfolding ends_kept_def by blast
qed (auto intro: moves_kept advance_campaigns tick_campaigns)

lemma campaign_step_moves: "campaign_step assign d d' \<Longrightarrow> moves d d'"
  by (induction rule: campaign_step.induct)
     (auto intro: engine_moves create_moves edit_moves extend_moves select_moves scored_moves person_moves
        simp: pause_campaign_def resume_campaign_def confirm_campaign_def reject_campaign_def)

lemma reaches_achieved:
  assumes "run_events s es = Some Achieved" and "s \<noteq> Achieved"
  shows "TConfirm \<in> set es \<or> TTrustedTargetReached \<in> set es"
  using assms
proof (induction es arbitrary: s)
  case (Cons e es)
  then obtain u where u: "transition s e = Inr u" "run_events u es = Some Achieved" by (auto split: sum.splits)
  show ?case
  proof (cases "u = Achieved")
    case True
    with u(1) Cons.prems(2) show ?thesis by (cases s; cases e) (auto simp: transition.simps)
  qed (use Cons.IH [OF u(2)] in auto)
qed simp



end
