(* ===== verification/PyTime.thy ===== *)
theory PyTime
  imports PyFloat
begin

text \<open>
  Python's \<open>timedelta\<close> between floats of seconds and whole microseconds: \<open>timedelta(seconds=x)\<close> and
  \<open>total_seconds()\<close>, with the facts that make comparisons of the floats comparisons of the
  microseconds.
\<close>

text \<open>
  \<open>timedelta(seconds=x)\<close>: whole seconds exactly, the fraction as a float product, the rest
  rounded half to even microseconds.
\<close>

definition delta_of_seconds :: "rat \<Rightarrow> int" where
  "delta_of_seconds x =
     (let whole = trunc x
      in seconds whole + (case round64 ((x - of_int whole) * 1000000) of Fin us \<Rightarrow> round_half_even us | _ \<Rightarrow> 0))"

definition total_seconds :: "int \<Rightarrow> pyfloat" where
  "total_seconds us = round64 (of_int us / 1000000)"

lemma delta_of_seconds_bounds:
  assumes "of_int a \<le> x" and "x \<le> of_int b" and "0 \<le> a"
  shows "seconds a \<le> delta_of_seconds x \<and> delta_of_seconds x \<le> seconds b"
proof -
  have x: "0 \<le> x" using assms(1,3) by (meson of_int_0_le_iff order_trans)
  let ?w = "trunc x"
  have w: "of_int ?w \<le> x" "x < of_int ?w + 1" using x trunc_lower trunc_upper by blast+
  have "of_int a < rat_of_int (?w + 1)" using assms(1) w(2) by simp
  then have a: "a \<le> ?w" unfolding of_int_less_iff by simp
  have "0 \<le> (x - of_int ?w) * 1000000" "(x - of_int ?w) * 1000000 \<le> of_int 1000000"
    using w by simp_all
  then obtain us where us: "round64 ((x - of_int ?w) * 1000000) = Fin us" "0 \<le> us" "us \<le> of_int 1000000"
    using round64_small [of "(x - of_int ?w) * 1000000" 1000000] by auto
  have r: "0 \<le> round_half_even us" "round_half_even us \<le> 1000000"
    using us(2,3) round_half_even_nonneg round_half_even_mono_int by blast+
  have d: "delta_of_seconds x = seconds ?w + round_half_even us"
    by (simp only: delta_of_seconds_def Let_def us(1) pyfloat.case)
  have low: "seconds a \<le> delta_of_seconds x" using seconds_mono [OF a] r(1) d by simp
  have "rat_of_int ?w \<le> of_int b" using w(1) assms(2) by simp
  then have "?w \<le> b" unfolding of_int_le_iff .
  then consider "?w + 1 \<le> b" | "?w = b" by linarith
  then have "delta_of_seconds x \<le> seconds b"
  proof cases
    case 1
    then have "seconds ?w + 1000000 \<le> seconds b" by (simp add: seconds_def)
    with r(2) d show ?thesis by simp
  next
    case 2
    then have "x = of_int ?w" using w(1) assms(2) by simp
    then have "us = 0" using us(1) by (simp add: round64_def)
    then show ?thesis using d 2 by (simp add: round_half_even_def)
  qed
  with low show ?thesis ..
qed

section \<open>Rounding against a dyadic bound\<close>

lemma round_half_even_mono_low: "of_int n \<le> x \<Longrightarrow> n \<le> round_half_even x"
proof -
  assume "of_int n \<le> x"
  then have "n \<le> \<lfloor>x\<rfloor>" by (simp add: le_floor_iff)
  then show ?thesis by (auto simp: round_half_even_def Let_def)
qed

lemma unit_dyadic:
  assumes "fexponent x \<le> 52 - int k" and "k \<le> 1000"
  shows "\<exists>m :: int. of_int n / 2 ^ k = of_int m * pow2 (max (fexponent x) (- 1022) - 52)"
proof -
  define j where "j = nat (52 - max (fexponent x) (- 1022))"
  have j: "k \<le> j" using assms by (simp add: j_def)
  have u: "pow2 (max (fexponent x) (- 1022) - 52) = 1 / 2 ^ j" using assms by (simp add: pow2_def j_def)
  have "(2 :: rat) ^ j = 2 ^ k * 2 ^ (j - k)" using j by (simp add: power_add [symmetric])
  then have "of_int n / 2 ^ k = of_int (n * 2 ^ (j - k)) * (1 / 2 ^ j :: rat)" by simp
  with u show ?thesis by metis
qed

lemma round_pos_le:
  assumes "0 < x" and "x \<le> of_int n / 2 ^ k" and "fexponent x \<le> 52 - int k" and "k \<le> 1000"
  shows "round_pos x \<le> of_int n / 2 ^ k"
proof -
  let ?u = "pow2 (max (fexponent x) (- 1022) - 52)"
  obtain m where m: "of_int n / 2 ^ k = of_int m * ?u"
    using unit_dyadic [OF assms(3,4)] by blast
  have "x / ?u \<le> of_int m" using assms(2) pow2_pos unfolding m by (simp add: pos_divide_le_eq)
  then have "of_int (round_half_even (x / ?u)) * ?u \<le> of_int m * ?u"
    using round_half_even_mono_int by (simp add: less_imp_le mult_right_mono)
  then show ?thesis by (simp add: round_pos_def Let_def m)
qed

lemma round_pos_ge:
  assumes "0 < x" and "of_int n / 2 ^ k \<le> x" and "k \<le> 40" and "n \<le> 2 ^ 53"
  shows "of_int n / 2 ^ k \<le> round_pos x"
proof -
  let ?u = "pow2 (max (fexponent x) (- 1022) - 52)"
  show ?thesis
  proof (cases "fexponent x \<le> 52 - int k")
    case True
    then obtain m where m: "of_int n / 2 ^ k = of_int m * ?u"
      using unit_dyadic [OF True] assms(3) by auto
    have "of_int m \<le> x / ?u" using assms(2) pow2_pos unfolding m by (simp add: pos_le_divide_eq)
    then have "of_int m * ?u \<le> of_int (round_half_even (x / ?u)) * ?u"
      using round_half_even_mono_low by (simp add: less_imp_le mult_right_mono)
    then show ?thesis by (simp add: round_pos_def Let_def m)
  next
    case False
    then have e: "0 < fexponent x" "53 - int k \<le> fexponent x" using assms(3) by simp_all
    have u: "of_int (2 ^ 52) * ?u = 2 powi (fexponent x)"
      using e(1) by (simp add: pow2_powi power_int_diff max_def)
    have "of_int (2 ^ 52) * ?u \<le> x" using fexponent_lower [OF assms(1)] u by simp
    then have "of_int (2 ^ 52) \<le> x / ?u" by (simp add: pos_le_divide_eq)
    then have "of_int (2 ^ 52) * ?u \<le> of_int (round_half_even (x / ?u)) * ?u"
      using round_half_even_mono_low by (simp only: of_int_le_iff less_imp_le mult_right_mono pow2_pos)
    then have "2 powi (fexponent x) \<le> round_pos x" unfolding u round_pos_def Let_def .
    moreover have "(2 :: rat) powi (53 - int k) \<le> 2 powi (fexponent x)"
      using e(2) by (intro power_int_increasing) simp_all
    moreover have "of_int n / 2 ^ k \<le> (2 :: rat) powi (53 - int k)"
    proof -
      have "rat_of_int n \<le> of_int (2 ^ 53)" using assms(4) unfolding of_int_le_iff .
      then show ?thesis by (simp add: power_int_diff divide_right_mono)
    qed
    ultimately show ?thesis by linarith
  qed
qed

lemma fexponent_upper:
  assumes "0 < x" and "x < 2 ^ k"
  shows "fexponent x < int k"
proof (rule ccontr)
  assume "\<not> fexponent x < int k"
  then have "(2 :: rat) powi (int k) \<le> 2 powi (fexponent x)" by (intro power_int_increasing) simp_all
  with fexponent_lower [OF assms(1)] assms(2) show False by simp
qed

text \<open>A microsecond more or less than a whole number of seconds stays on its side of it.\<close>

lemma total_seconds_ge:
  assumes "fle (Fin (of_int a)) (total_seconds us)" and "0 < a" and "a < 2 ^ 30"
  shows "seconds a \<le> us"
proof (rule ccontr)
  assume "\<not> seconds a \<le> us"
  then have us: "us \<le> a * 1000000 - 1" by (simp add: seconds_def)
  let ?x = "rat_of_int us / 1000000"
  show False
  proof (cases "0 < us")
    case False
    then have "?x \<le> 0" by (simp add: divide_le_0_iff)
    then have "\<not> flt (Fin 0) (round64 ?x)" using round64_sign(1) [of ?x] by linarith
    with assms(1,2) show False
      by (cases "round64 ?x") (auto simp: total_seconds_def fle_def)
  next
    case True
    let ?n = "a * 2 ^ 20 - 1"
    have pos: "0 < ?x" using True by simp
    have le: "?x \<le> of_int ?n / 2 ^ 20"
    proof -
      have "rat_of_int us \<le> of_int (a * 1000000 - 1)" using us unfolding of_int_le_iff .
      then show ?thesis by (simp add: field_simps)
    qed
    have "rat_of_int a < of_int (2 ^ 30)" using assms(3) unfolding of_int_less_iff .
    then have "?x < 2 ^ 30" using le by (simp add: field_simps)
    then have "fexponent ?x < 30" using fexponent_upper [OF pos] by fastforce
    then have "round_pos ?x \<le> of_int ?n / 2 ^ 20" by (intro round_pos_le [OF pos le]) simp_all
    also have "\<dots> < of_int a" by (simp add: field_simps)
    finally have r: "round_pos ?x < of_int a" .
    with \<open>rat_of_int a < of_int (2 ^ 30)\<close> have "\<not> 2 ^ 1024 \<le> round_pos ?x" by simp
    with pos have "total_seconds us = Fin (round_pos ?x)" by (simp add: total_seconds_def round64_def Let_def)
    with assms(1) r show False by (simp add: fle_def)
  qed
qed

lemma total_seconds_le:
  assumes "fle (total_seconds us) (Fin (of_int a))" and "0 < a" and "a < 2 ^ 30"
  shows "us \<le> seconds a"
proof (rule ccontr)
  assume "\<not> us \<le> seconds a"
  then have us: "a * 1000000 + 1 \<le> us" by (simp add: seconds_def)
  let ?x = "rat_of_int us / 1000000" and ?n = "a * 2 ^ 20 + 1 :: int"
  have "0 < us" using us assms(2) by simp
  then have pos: "0 < ?x" by simp
  have le: "of_int ?n / 2 ^ 20 \<le> ?x"
  proof -
    have "of_int (a * 1000000 + 1) \<le> rat_of_int us" using us unfolding of_int_le_iff .
    then show ?thesis by (simp add: field_simps)
  qed
  have n: "?n \<le> 2 ^ 53" using assms(3) by simp
  have "of_int a < rat_of_int ?n / 2 ^ 20" by (simp add: field_simps)
  also have "\<dots> \<le> round_pos ?x" by (rule round_pos_ge [OF pos le _ n]) simp
  finally have r: "of_int a < round_pos ?x" .
  have "total_seconds us = PInf \<or> total_seconds us = Fin (round_pos ?x)"
    using pos by (simp add: total_seconds_def round64_def Let_def)
  with assms(1) r show False by (auto simp: fle_def)
qed

end
