(* ===== verification/CampaignTools.thy ===== *)
theory CampaignTools
  imports CampaignActions PyTime
begin

text \<open>
  What the campaign's agent may do during a cycle (campaigns/agent_actions.py) and how evaluations
  are sent to machines (campaigns/evaluation.py). A tool works on the cycle its turn belongs to:
  \<open>current_cycle\<close> finds it, every other function takes the context it returns.

  Outside the model: \<open>authorize_turn\<close> (the fence of the turn's lease, a parameter that returns the
  turn or an exception), the idempotency key of a turn (a parameter), the wording of directives
  and notes, the parsing of ISO timestamps (the argument is the parsed value) and the machine
  (a parameter that answers a request). What other transactions commit while a machine is asked
  is the parameter \<open>between\<close>.
\<close>

abbreviation MIN_WAKEUP_SECONDS :: int where "MIN_WAKEUP_SECONDS \<equiv> 60"
abbreviation MAX_WAKEUP_SECONDS :: int where "MAX_WAKEUP_SECONDS \<equiv> 604800"
abbreviation MAX_ATTEMPTS_PAGE :: int where "MAX_ATTEMPTS_PAGE \<equiv> 20"
abbreviation HYPOTHESIS_MAX :: nat where "HYPOTHESIS_MAX \<equiv> 4000"
abbreviation CHANGE_SUMMARY_MAX :: nat where "CHANGE_SUMMARY_MAX \<equiv> 8000"
abbreviation LESSONS_MAX :: nat where "LESSONS_MAX \<equiv> 4000"
abbreviation ARTIFACT_REF_MAX :: nat where "ARTIFACT_REF_MAX \<equiv> 1024"
abbreviation REASON_MAX :: nat where "REASON_MAX \<equiv> 4000"
abbreviation WAKE_REASON_MAX :: nat where "WAKE_REASON_MAX \<equiv> 500"
abbreviation EXCERPT_IN_LIST :: nat where "EXCERPT_IN_LIST \<equiv> 500"
abbreviation RUNNING_RECHECK_AFTER_SECONDS :: int where "RUNNING_RECHECK_AFTER_SECONDS \<equiv> 60"
abbreviation RUNNING_RECHECK_INTERVAL_SECONDS :: int where "RUNNING_RECHECK_INTERVAL_SECONDS \<equiv> 300"

section \<open>Arguments\<close>

definition invalid_argument :: camp_exc where
  "invalid_argument = ToolError ''CAMPAIGN_INVALID_ARGUMENT''"

definition tool_text :: "pyval \<Rightarrow> nat \<Rightarrow> bool \<Rightarrow> camp_exc + string option" where
  "tool_text v limit required =
     (if v = PNone \<or> (case v of PStr s \<Rightarrow> strip s = [] | _ \<Rightarrow> False)
      then (if required then Inl invalid_argument else Inr None)
      else case v of
          PStr s \<Rightarrow> if limit < length (strip s) then Inl invalid_argument else Inr (Some (strip s))
        | _ \<Rightarrow> Inl invalid_argument)"

section \<open>The guard\<close>

type_synonym authorizer = "string \<Rightarrow> db \<Rightarrow> camp_exc + turn_row"

record cycle_context =
  cx_campaign :: campaign
  cx_attempt :: attempt
  cx_turn :: turn_row

text \<open>The open cycle of the turn's task, and the campaign the task names.\<close>

definition task_cycle :: "turn_row \<Rightarrow> db \<Rightarrow> attempt option \<times> string option" where
  "task_cycle t d =
     (case tn_task t of
        None \<Rightarrow> (None, None)
      | Some tid \<Rightarrow>
          (case get_task tid d of
             None \<Rightarrow> (None, None)
           | Some k \<Rightarrow>
               (case k_campaign k of
                  None \<Rightarrow> (None, None)
                | Some cid \<Rightarrow>
                    (find (\<lambda>a. a_campaign a = cid \<and> a_task a = Some (k_id k) \<and> a_closed a = None) (d_attempts d),
                     Some cid))))"

definition newest_first :: "attempt list \<Rightarrow> attempt list" where
  "newest_first as = sort_key (\<lambda>a. - a_cycle_no a) as"

definition execution_cycle :: "turn_row \<Rightarrow> attempt option \<times> string option \<Rightarrow> db \<Rightarrow> attempt option \<times> string option" where
  "execution_cycle t found d =
     (case (fst found, tn_execution t) of
        (None, Some x) \<Rightarrow>
          (let rows = newest_first (filter (\<lambda>a. a_execution a = Some x) (d_attempts d))
           in (find (\<lambda>a. a_closed a = None) rows,
               case rows of [] \<Rightarrow> snd found | a # _ \<Rightarrow> Some (a_campaign a)))
      | _ \<Rightarrow> found)"

definition current_cycle :: "authorizer \<Rightarrow> string \<Rightarrow> db \<Rightarrow> camp_exc + cycle_context" where
  "current_cycle auth gid d =
     bindE (auth gid d) (\<lambda>t.
       case execution_cycle t (task_cycle t d) d of
         (None, cid) \<Rightarrow>
           Inl (ToolError (if cid \<noteq> None then ''CAMPAIGN_CYCLE_CLOSED'' else ''CAMPAIGN_CYCLE_REQUIRED''))
       | (Some a, _) \<Rightarrow>
           (case get_campaign (a_campaign a) d of
              None \<Rightarrow> Inl (ToolError ''CAMPAIGN_AGENT_MISMATCH'')
            | Some c \<Rightarrow>
                if c_agent c \<noteq> Some gid then Inl (ToolError ''CAMPAIGN_AGENT_MISMATCH'')
                else Inr \<lparr>cx_campaign = c, cx_attempt = a, cx_turn = t\<rparr>))"

section \<open>Follow-up directives\<close>

record directive =
  fd_type :: string
  fd_at :: instant
  fd_actor :: "string option"
  fd_instruction :: string
  fd_details :: "(string \<times> pyval) list"

definition by_person :: "event_row \<Rightarrow> bool" where
  "by_person e \<longleftrightarrow> take 5 (case e_actor e of None \<Rightarrow> [] | Some s \<Rightarrow> s) = ''user:''"

text \<open>A stamped event counts for the cycle of its stamp, an unstamped one when it is not older.\<close>

definition follows_up :: "attempt \<Rightarrow> event_row \<Rightarrow> bool" where
  "follows_up a e \<longleftrightarrow>
     (e_type e = ''status_changed'' \<longrightarrow> by_person e) \<and>
     (case dget (e_details e) ''open_cycle_no'' of
        PNone \<Rightarrow> a_opened a \<le> e_created e
      | stamped \<Rightarrow> stamped = PInt (a_cycle_no a))"

definition follow_up_directives :: "(event_row \<Rightarrow> string) \<Rightarrow> campaign \<Rightarrow> attempt \<Rightarrow> db \<Rightarrow> directive list" where
  "follow_up_directives wording c a d =
     map (\<lambda>e. \<lparr>fd_type = e_type e, fd_at = e_created e, fd_actor = e_actor e, fd_instruction = wording e,
               fd_details = e_details e\<rparr>)
       (filter (follows_up a)
         (sort_key e_created
           (filter (\<lambda>e. e_campaign e = c_id c \<and> e_type e \<in> {''edited'', ''status_changed''}) (d_events d))))"

section \<open>Actions\<close>

definition agent_actor :: "campaign \<Rightarrow> string" where
  "agent_actor c = ''agent:'' @ (case c_agent c of None \<Rightarrow> ''None'' | Some g \<Rightarrow> g)"

text \<open>\<open>UPDATE campaign_attempts ... WHERE id = .. AND cond\<close>: one row or none.\<close>

definition update_open :: "(attempt \<Rightarrow> bool) \<Rightarrow> (attempt \<Rightarrow> attempt) \<Rightarrow> string \<Rightarrow> db \<Rightarrow> db option" where
  "update_open cond f aid d =
     (case get_attempt aid d of
        None \<Rightarrow> None
      | Some a \<Rightarrow> if cond a then Some (upd_attempt aid f d) else None)"

definition agent_outcome_of :: "pyval \<Rightarrow> agent_outcome" where
  "agent_outcome_of v = (if v = PStr ''abandoned'' then Abandoned else Attempted)"

definition write_record ::
  "agent_outcome \<Rightarrow> string option \<Rightarrow> string option \<Rightarrow> string option \<Rightarrow> string option \<Rightarrow> instant \<Rightarrow> attempt \<Rightarrow> attempt" where
  "write_record oc hyp chg art les now a = a\<lparr>a_agent_outcome := Some oc, a_hypothesis := hyp, a_change_summary := chg,
     a_artifact_ref := art, a_lessons := les, a_recorded_at := Some now\<rparr>"

definition record_attempt ::
  "(event_row \<Rightarrow> string) \<Rightarrow> cycle_context \<Rightarrow> pyval \<Rightarrow> pyval \<Rightarrow> pyval \<Rightarrow> pyval \<Rightarrow> pyval \<Rightarrow> instant \<Rightarrow> db
   \<Rightarrow> camp_exc + (db \<times> directive list)" where
  "record_attempt wording cx outcome hypothesis change_summary artifact_ref lessons now d =
     (let c = cx_campaign cx; a = cx_attempt cx in
     bindE (guardE (a_kind a \<noteq> RetroKind) (ToolError ''CAMPAIGN_RETROSPECTIVE_CYCLE'')) (\<lambda>_.
     bindE (guardE (a_recorded_at a = None) (ToolError ''CAMPAIGN_ATTEMPT_ALREADY_RECORDED'')) (\<lambda>_.
     bindE (guardE (a_eval_job a = None) (ToolError ''CAMPAIGN_EVAL_STARTED'')) (\<lambda>_.
     bindE (lift_py (in_strs outcome [''attempted'', ''abandoned''])) (\<lambda>known.
     bindE (guardE known invalid_argument) (\<lambda>_.
     bindE (tool_text hypothesis HYPOTHESIS_MAX True) (\<lambda>hyp.
     bindE (tool_text change_summary CHANGE_SUMMARY_MAX True) (\<lambda>chg.
     bindE (tool_text artifact_ref ARTIFACT_REF_MAX False) (\<lambda>art.
     bindE (tool_text lessons LESSONS_MAX False) (\<lambda>les.
     case update_open (\<lambda>r. a_recorded_at r = None \<and> a_closed r = None \<and> a_eval_job r = None)
            (write_record (agent_outcome_of outcome) hyp chg art les now) (a_id a) d of
       None \<Rightarrow> Inl (ToolError ''CAMPAIGN_ATTEMPT_ALREADY_RECORDED'')
     | Some d1 \<Rightarrow>
         let d2 = record_event (c_id c) (cycle_key (c_id c) (a_cycle_no a) ''recorded'') ''attempt_recorded''
                    [(''cycle_no'', PInt (a_cycle_no a)), (''agent_outcome'', outcome)] (agent_actor c) now
                    (add_mark (MarkAttempt (a_id a)) d1)
         in Inr (d2, follow_up_directives wording c (write_record (agent_outcome_of outcome) hyp chg art les now a) d2)))))))))))"

definition closed_meanwhile :: camp_exc where
  "closed_meanwhile = ToolError ''CAMPAIGN_CYCLE_CLOSED''"

text \<open>The timestamp argument after \<open>datetime.fromisoformat\<close>.\<close>

datatype at_arg = AtNotString | AtUnreadable | AtTime deadline_arg

fun parse_at :: "at_arg \<Rightarrow> camp_exc + instant" where
  "parse_at (AtTime (AwareTime t)) = Inr t"
| "parse_at _ = Inl invalid_argument"

definition wakeup_in_range :: "pyfloat \<Rightarrow> bool" where
  "wakeup_in_range delay \<longleftrightarrow> fle (Fin (of_int MIN_WAKEUP_SECONDS)) delay \<and> fle delay (Fin (of_int MAX_WAKEUP_SECONDS))"

definition wake_from_delay :: "pyval \<Rightarrow> instant \<Rightarrow> camp_exc + instant option \<times> pyfloat" where
  "wake_from_delay delay_seconds now =
     (case delay_seconds of
        PInt _ \<Rightarrow> bindE (lift_py (to_float delay_seconds)) (\<lambda>delay.
          Inr (case delay of Fin x \<Rightarrow> if wakeup_in_range delay then Some (now + delta_of_seconds x) else None | _ \<Rightarrow> None, delay))
      | PFloat delay \<Rightarrow>
          (case delay of
             Fin x \<Rightarrow> Inr (if wakeup_in_range delay then Some (now + delta_of_seconds x) else None, delay)
           | _ \<Rightarrow> Inl invalid_argument)
      | _ \<Rightarrow> Inl invalid_argument)"

definition wake_time :: "pyval \<Rightarrow> at_arg option \<Rightarrow> instant \<Rightarrow> camp_exc + instant option \<times> pyfloat" where
  "wake_time delay_seconds tm now =
     (case tm of
        None \<Rightarrow> wake_from_delay delay_seconds now
      | Some v \<Rightarrow> bindE (parse_at v) (\<lambda>t. Inr (Some t, total_seconds (t - now))))"

definition write_wakeup :: "instant \<Rightarrow> string option \<Rightarrow> attempt \<Rightarrow> attempt" where
  "write_wakeup t why a = a\<lparr>a_wake_at := Some t, a_wake_reason := why\<rparr>"

definition schedule_wakeup ::
  "cycle_context \<Rightarrow> pyval \<Rightarrow> at_arg option \<Rightarrow> pyval \<Rightarrow> instant \<Rightarrow> db \<Rightarrow> camp_exc + (db \<times> instant)" where
  "schedule_wakeup cx delay_seconds tm reason now d =
     (let c = cx_campaign cx; a = cx_attempt cx in
     bindE (guardE ((delay_seconds = PNone) \<noteq> (tm = None)) invalid_argument) (\<lambda>_.
     bindE (wake_time delay_seconds tm now) (\<lambda>(wake_at, delay).
     case wake_at of
       None \<Rightarrow> Inl (ToolError ''CAMPAIGN_WAKEUP_OUT_OF_RANGE'')
     | Some t \<Rightarrow>
         bindE (guardE (wakeup_in_range delay) (ToolError ''CAMPAIGN_WAKEUP_OUT_OF_RANGE'')) (\<lambda>_.
         bindE (guardE (case c_deadline c of None \<Rightarrow> True | Some dl \<Rightarrow> t < dl) (ToolError ''CAMPAIGN_WAKEUP_AFTER_DEADLINE'')) (\<lambda>_.
         bindE (tool_text reason WAKE_REASON_MAX True) (\<lambda>why.
         case update_open (\<lambda>r. a_closed r = None) (write_wakeup t why) (a_id a) d of
           None \<Rightarrow> Inl closed_meanwhile
         | Some d1 \<Rightarrow>
             let (u, d2) = draw_uuid (add_mark (MarkAttempt (a_id a)) d1)
             in Inr (record_event (c_id c) (cycle_key (c_id c) (a_cycle_no a) (''wakeup:'' @ u)) ''wakeup_scheduled''
                       [(''cycle_no'', PInt (a_cycle_no a)), (''wake_at'', iso (Some t)), (''reason'', opt_str why)]
                       (agent_actor c) now d2, t)))))))"

definition write_block :: "string option \<Rightarrow> string option \<Rightarrow> attempt \<Rightarrow> attempt" where
  "write_block why hint a = a\<lparr>a_block_reason := why, a_unblock_hint := hint\<rparr>"

definition report_blocked :: "cycle_context \<Rightarrow> pyval \<Rightarrow> pyval \<Rightarrow> instant \<Rightarrow> db \<Rightarrow> camp_exc + db" where
  "report_blocked cx reason unblock_hint now d =
     (let c = cx_campaign cx; a = cx_attempt cx in
     bindE (tool_text reason REASON_MAX True) (\<lambda>why.
     bindE (tool_text unblock_hint REASON_MAX True) (\<lambda>hint.
     case update_open (\<lambda>r. a_closed r = None) (write_block why hint) (a_id a) d of
       None \<Rightarrow> Inl closed_meanwhile
     | Some d1 \<Rightarrow>
         let (u, d2) = draw_uuid (add_mark (MarkAttempt (a_id a)) d1)
         in Inr (record_event (c_id c) (cycle_key (c_id c) (a_cycle_no a) (''block_reported:'' @ u)) ''block_reported''
                   [(''cycle_no'', PInt (a_cycle_no a)), (''reason'', opt_str why), (''unblock_hint'', opt_str hint)]
                   (agent_actor c) now d2))))"

definition report_key :: "campaign \<Rightarrow> string \<Rightarrow> string" where
  "report_key c reason = ''goal-report:'' @ c_id c @ '':'' @ reason @ '':'' @ int_str (c_rev c)"

definition reported_campaign :: "string \<Rightarrow> db \<Rightarrow> campaign option" where
  "reported_campaign key d =
     (case split_char (CHR '':'') key of
        [w, cid, reason, _] \<Rightarrow>
          if w = ''goal-report'' \<and> reason = ''confirmation'' then get_campaign cid d else None
      | _ \<Rightarrow> None)"

definition advise_confirmation ::
  "authorizer \<Rightarrow> (turn_row \<Rightarrow> string option) \<Rightarrow> string \<Rightarrow> pyval \<Rightarrow> pyval \<Rightarrow> instant \<Rightarrow> db \<Rightarrow> camp_exc + db" where
  "advise_confirmation auth turn_key gid advice reason now d =
     bindE (lift_py (in_strs advice [''confirm'', ''hold''])) (\<lambda>known.
     bindE (guardE known invalid_argument) (\<lambda>_.
     bindE (tool_text reason REASON_MAX True) (\<lambda>why.
     bindE (auth gid d) (\<lambda>t.
     let key = (case turn_key t of None \<Rightarrow> [] | Some k \<Rightarrow> k)
     in case reported_campaign key d of
          None \<Rightarrow> Inl (ToolError ''CAMPAIGN_REPORT_TURN_REQUIRED'')
        | Some c \<Rightarrow>
            bindE (guardE (c_agent c = Some gid) (ToolError ''CAMPAIGN_REPORT_TURN_REQUIRED'')) (\<lambda>_.
            bindE (guardE (c_status c = AwaitingConfirmation \<and> key = report_key c ''confirmation'')
                    (ToolError ''CAMPAIGN_CONFIRMATION_DECIDED'')) (\<lambda>_.
            let (u, d1) = draw_uuid d
            in Inr (add_mark (MarkCampaign (c_id c))
                 (record_event (c_id c) (key_of (c_id c) (''confirm_advice:'' @ u)) ''confirm_advice''
                   [(''advice'', advice), (''reason'', opt_str why), (''state_revision'', PInt (c_rev c))]
                   (''agent:'' @ gid) now d1))))))))"

record attempts_page =
  pg_total :: int
  pg_offset :: int
  pg_limit :: int
  pg_next :: "int option"
  pg_attempts :: "attempt list"

definition last_chars :: "nat \<Rightarrow> 'a list \<Rightarrow> 'a list" where
  "last_chars n s = drop (length s - n) s"

definition clip_excerpt :: "attempt \<Rightarrow> attempt" where
  "clip_excerpt a = a\<lparr>a_excerpt := map_option (last_chars EXCERPT_IN_LIST) (a_excerpt a)\<rparr>"

definition page_argument :: "pyval \<Rightarrow> int \<Rightarrow> int option \<Rightarrow> camp_exc + int" where
  "page_argument v low high =
     (case v of
        PInt n \<Rightarrow> if low \<le> n \<and> (case high of None \<Rightarrow> True | Some h \<Rightarrow> n \<le> h) then Inr n else Inl invalid_argument
      | _ \<Rightarrow> Inl invalid_argument)"

definition read_attempts :: "cycle_context \<Rightarrow> pyval \<Rightarrow> pyval \<Rightarrow> db \<Rightarrow> camp_exc + attempts_page" where
  "read_attempts cx offset limit d =
     bindE (page_argument offset 0 None) (\<lambda>off.
     bindE (page_argument limit 1 (Some MAX_ATTEMPTS_PAGE)) (\<lambda>lim.
       let all = attempts_of (c_id (cx_campaign cx)) d;
           total = int (length all);
           rows = take (nat lim) (drop (nat off) (newest_first all));
           nxt = off + int (length rows)
       in Inr \<lparr>pg_total = total, pg_offset = off, pg_limit = lim, pg_next = (if nxt < total then Some nxt else None),
                pg_attempts = map clip_excerpt rows\<rparr>))"

section \<open>Sending evaluations\<close>

record eval_request =
  er_job :: "string option"
  er_agent :: "string option"
  er_cwd :: string
  er_command :: string
  er_timeout :: int
  er_pins :: "string list"
  er_expected :: "pins option"
  er_score_key :: string

definition eval_timeout :: "campaign \<Rightarrow> int" where
  "eval_timeout c = (if ev_timeout (c_evaluator c) = 0 then 600 else ev_timeout (c_evaluator c))"

definition eval_request_frame :: "campaign \<Rightarrow> attempt \<Rightarrow> eval_request" where
  "eval_request_frame c a =
     \<lparr>er_job = a_eval_job a, er_agent = c_agent c, er_cwd = ev_cwd (c_evaluator c),
      er_command = ev_command (c_evaluator c), er_timeout = eval_timeout c,
      er_pins = ev_pin_paths (c_evaluator c), er_expected = c_pins c, er_score_key = ev_score_key (c_evaluator c)\<rparr>"

text \<open>What the machine bus answers: an error, or an acknowledgement with its reason.\<close>

datatype eval_answer = EvalError string | EvalAck bool "string option"

record machine_bus =
  mb_connected :: "string \<Rightarrow> bool"
  mb_ask :: "string \<Rightarrow> eval_request \<Rightarrow> eval_answer"

type_synonym rechecks = "string \<rightharpoonup> instant"

definition waiting_note :: "string \<Rightarrow> string" where
  "waiting_note reason = ''[server] waiting: '' @
     (if reason = ''agent_missing'' then ''the campaign'' @ [CHR 39] @ ''s agent no longer exists''
      else ''the campaign'' @ [CHR 39] @ ''s agent is not placed on a machine'')"

definition write_excerpt :: "string option \<Rightarrow> attempt \<Rightarrow> attempt" where
  "write_excerpt e a = a\<lparr>a_excerpt := e\<rparr>"

definition record_waiting :: "string \<Rightarrow> string \<Rightarrow> string \<Rightarrow> instant \<Rightarrow> db \<Rightarrow> db" where
  "record_waiting aid reason note now d =
     (case get_attempt aid d of
        None \<Rightarrow> d
      | Some a \<Rightarrow>
          if a_closed a \<noteq> None \<or> a_eval_status a \<noteq> EvPending then d
          else record_event (a_campaign a) (cycle_key (a_campaign a) (a_cycle_no a) (''eval_waiting:'' @ reason)) ''eval_waiting''
                 [(''cycle_no'', PInt (a_cycle_no a)), (''reason'', PStr reason), (''detail'', PStr note)] SYSTEM_ACTOR now
                 (add_mark (MarkAttempt aid) (upd_attempt aid (write_excerpt (Some note)) d)))"

definition waiting_excerpt :: "string option \<Rightarrow> bool" where
  "waiting_excerpt e \<longleftrightarrow> take 16 (case e of None \<Rightarrow> [] | Some s \<Rightarrow> s) = ''[server] waiting''"

definition write_running :: "int \<Rightarrow> digest \<Rightarrow> instant \<Rightarrow> attempt \<Rightarrow> attempt" where
  "write_running timeout dg now a =
     a\<lparr>a_eval_status := EvRunning, a_eval_started := Some now,
       a_eval_deadline := Some (now + seconds (timeout + EVAL_GRACE_SECONDS)), a_eval_digest := Some dg,
       a_excerpt := (if waiting_excerpt (a_excerpt a) then None else a_excerpt a)\<rparr>"

text \<open>The second transaction of a dispatch, on whatever the database holds by then.\<close>

definition start_eval :: "string \<Rightarrow> int \<Rightarrow> digest \<Rightarrow> instant \<Rightarrow> db \<Rightarrow> db" where
  "start_eval aid timeout dg now d =
     (case get_attempt aid d of
        None \<Rightarrow> d
      | Some a \<Rightarrow>
          if a_closed a = None \<and> a_eval_status a = EvPending
          then add_mark (MarkAttempt aid) (upd_attempt aid (write_running timeout dg now) d) else d)"

definition write_digest :: "digest \<Rightarrow> attempt \<Rightarrow> attempt" where
  "write_digest dg a = a\<lparr>a_eval_digest := Some dg\<rparr>"

definition refresh_digest :: "string \<Rightarrow> digest \<Rightarrow> db \<Rightarrow> db" where
  "refresh_digest aid dg d =
     (case get_attempt aid d of
        None \<Rightarrow> d
      | Some a \<Rightarrow> if a_closed a = None then upd_attempt aid (write_digest dg) d else d)"

definition eval_target :: "string \<Rightarrow> db \<Rightarrow> (attempt \<times> campaign) option" where
  "eval_target aid d =
     (case get_attempt aid d of
        None \<Rightarrow> None
      | Some a \<Rightarrow>
          if a_closed a \<noteq> None \<or> a_eval_status a \<notin> {EvPending, EvRunning} \<or> a_eval_job a = None then None
          else map_option (Pair a) (get_campaign (a_campaign a) d))"

text \<open>
  \<open>between\<close> is what others commit between the read and the write. The clock is read after the
  machine answered.
\<close>

definition dispatch_eval ::
  "machine_bus option \<Rightarrow> (db \<Rightarrow> db) \<Rightarrow> string \<Rightarrow> instant \<Rightarrow> db \<times> rechecks \<Rightarrow> (db \<times> rechecks) \<times> string" where
  "dispatch_eval bus between aid now s =
     (let (d, rc) = s in
      case (bus, eval_target aid d) of
        (None, _) \<Rightarrow> (s, ''offline'')
      | (Some _, None) \<Rightarrow> (s, ''not_pending'')
      | (Some b, Some (a, c)) \<Rightarrow>
          (let agent = (if truthy (c_agent c) then get_agent (the (c_agent c)) d else None);
               waiting = (if agent = None then ''agent_missing'' else ''agent_not_placed'');
               note = waiting_note waiting
           in case (case agent of None \<Rightarrow> None | Some g \<Rightarrow> g_machine g) of
                None \<Rightarrow>
                  ((if a_excerpt a \<noteq> Some note \<and> a_eval_status a = EvPending
                    then (record_waiting aid waiting note now (between d), rc) else s), ''waiting'')
              | Some m \<Rightarrow>
                  if \<not> mb_connected b m then (s, ''offline'')
                  else
                    (let frame = eval_request_frame c a; dg = evaluator_digest (Some (c_evaluator c)); d1 = between d
                     in case mb_ask b m frame of
                          EvalError reason \<Rightarrow> ((d1, rc), reason)
                        | EvalAck False reason \<Rightarrow>
                            ((d1, rc), case reason of Some r \<Rightarrow> if r = [] then ''refused'' else r | None \<Rightarrow> ''refused'')
                        | EvalAck True reason \<Rightarrow>
                            if a_eval_status a = EvRunning
                            then ((if reason = None then refresh_digest aid dg d1 else d1, rc(aid \<mapsto> now)), ''re_requested'')
                            else ((start_eval aid (er_timeout frame) dg now d1, rc), ''accepted''))))"

definition machine_of :: "campaign \<Rightarrow> db \<Rightarrow> string option" where
  "machine_of c d =
     (case c_agent c of
        None \<Rightarrow> None
      | Some gid \<Rightarrow> (case get_agent gid d of None \<Rightarrow> None | Some g \<Rightarrow> g_machine g))"

text \<open>The query: open attempts with a job, of one machine or of a tick, oldest first.\<close>

definition wants_dispatch :: "string option \<Rightarrow> instant \<Rightarrow> db \<Rightarrow> attempt \<Rightarrow> bool" where
  "wants_dispatch machine now d a \<longleftrightarrow>
     a_closed a = None \<and> a_eval_job a \<noteq> None \<and>
     (case get_campaign (a_campaign a) d of
        None \<Rightarrow> False
      | Some c \<Rightarrow>
          (case machine of
             Some m \<Rightarrow> machine_of c d = Some m \<and> a_eval_status a \<in> {EvPending, EvRunning}
           | None \<Rightarrow> a_eval_status a = EvPending
               \<or> (a_eval_status a = EvRunning
                  \<and> (case a_eval_started a of None \<Rightarrow> False | Some t \<Rightarrow> t \<le> now - seconds RUNNING_RECHECK_AFTER_SECONDS))))"

definition dispatch_rows :: "string option \<Rightarrow> nat \<Rightarrow> instant \<Rightarrow> db \<Rightarrow> attempt list" where
  "dispatch_rows machine limit now d =
     take limit (sort_key a_opened (filter (wants_dispatch machine now d) (d_attempts d)))"

definition prune_rechecks :: "string option \<Rightarrow> attempt list \<Rightarrow> rechecks \<Rightarrow> rechecks" where
  "prune_rechecks machine rows rc =
     (if machine = None then rc |` (a_id ` set (filter (\<lambda>a. a_eval_status a = EvRunning) rows)) else rc)"

definition asked_recently :: "rechecks \<Rightarrow> instant \<Rightarrow> string \<Rightarrow> bool" where
  "asked_recently rc now aid \<longleftrightarrow>
     (case rc aid of None \<Rightarrow> False | Some t \<Rightarrow> now - t < seconds RUNNING_RECHECK_INTERVAL_SECONDS)"

definition dispatch_ids :: "string option \<Rightarrow> attempt list \<Rightarrow> rechecks \<Rightarrow> instant \<Rightarrow> string list" where
  "dispatch_ids machine rows rc now =
     map a_id (filter (\<lambda>a. \<not> (machine = None \<and> a_eval_status a = EvRunning \<and> asked_recently rc now (a_id a))) rows)"

definition request_pending_evals ::
  "machine_bus option \<Rightarrow> (db \<Rightarrow> db) \<Rightarrow> string option \<Rightarrow> nat \<Rightarrow> instant \<Rightarrow> db \<times> rechecks
   \<Rightarrow> (db \<times> rechecks) \<times> (string \<times> string) list" where
  "request_pending_evals bus between machine limit now s =
     (if bus = None then (s, [])
      else
        let rows = dispatch_rows machine limit now (fst s);
            rc = prune_rechecks machine rows (snd s)
        in fold (\<lambda>aid (s1, out). case dispatch_eval bus between aid now s1 of (s2, r) \<Rightarrow> (s2, out @ [(aid, r)]))
             (dispatch_ids machine rows rc now) ((fst s, rc), []))"

text \<open>A result frame from a machine: validated, then judged in one transaction.\<close>

definition handle_eval_result_frame ::
  "assigner \<Rightarrow> eval_frame option \<Rightarrow> string \<Rightarrow> instant \<Rightarrow> db \<Rightarrow> camp_exc + (db \<times> string)" where
  "handle_eval_result_frame assign frame machine now d =
     (case frame of
        None \<Rightarrow> Inr (d, ''invalid_frame'')
      | Some f \<Rightarrow> on_eval_result assign f (Some machine) now d)"

section \<open>What an agent can write\<close>

lemma current_cycle_facts:
  assumes "current_cycle auth gid d = Inr cx"
  shows "cx_attempt cx \<in> set (d_attempts d)" "a_closed (cx_attempt cx) = None"
    "get_campaign (a_campaign (cx_attempt cx)) d = Some (cx_campaign cx)" "c_agent (cx_campaign cx) = Some gid"
    "\<exists>t. auth gid d = Inr t \<and> cx_turn cx = t"
proof -
  obtain t where t: "auth gid d = Inr t" and r: "(case execution_cycle t (task_cycle t d) d of
         (None, cid) \<Rightarrow>
           Inl (ToolError (if cid \<noteq> None then ''CAMPAIGN_CYCLE_CLOSED'' else ''CAMPAIGN_CYCLE_REQUIRED''))
       | (Some a, _) \<Rightarrow>
           (case get_campaign (a_campaign a) d of
              None \<Rightarrow> Inl (ToolError ''CAMPAIGN_AGENT_MISMATCH'')
            | Some c \<Rightarrow>
                if c_agent c \<noteq> Some gid then Inl (ToolError ''CAMPAIGN_AGENT_MISMATCH'')
                else Inr \<lparr>cx_campaign = c, cx_attempt = a, cx_turn = t\<rparr>)) = Inr cx"
    using assms unfolding current_cycle_def bindE_Inr_iff by blast
  obtain a cid where f: "execution_cycle t (task_cycle t d) d = (Some a, cid)"
    using r by (auto split: prod.splits option.splits)
  have cx: "cx_attempt cx = a \<and> get_campaign (a_campaign a) d = Some (cx_campaign cx) \<and> c_agent (cx_campaign cx) = Some gid \<and> cx_turn cx = t"
    using r unfolding f by (auto split: option.splits if_splits)
  have task: "b \<in> set (d_attempts d) \<and> a_closed b = None" if "fst (task_cycle t d) = Some b" for b
    using that by (auto simp: task_cycle_def find_Some_iff split: option.splits)
  have exec: "b \<in> set (d_attempts d) \<and> a_closed b = None"
    if "find (\<lambda>a. a_closed a = None) (newest_first (filter (\<lambda>a. a_execution a = Some x) (d_attempts d))) = Some b" for b x
  proof -
    have "b \<in> set (newest_first (filter (\<lambda>a. a_execution a = Some x) (d_attempts d))) \<and> a_closed b = None"
      using that by (auto simp: find_Some_iff)
    then show ?thesis by (auto simp: newest_first_def)
  qed
  have "a \<in> set (d_attempts d) \<and> a_closed a = None"
  proof (cases "fst (task_cycle t d)")
    case (Some b)
    then have "task_cycle t d = (Some a, cid)" using f by (simp add: execution_cycle_def)
    then show ?thesis using task by simp
  next
    case None
    then obtain x where "tn_execution t = Some x" using f by (cases "tn_execution t") (auto simp: execution_cycle_def)
    then have "find (\<lambda>a. a_closed a = None) (newest_first (filter (\<lambda>a. a_execution a = Some x) (d_attempts d))) = Some a"
      using f None by (simp add: execution_cycle_def Let_def)
    then show ?thesis by (rule exec)
  qed
  with cx t show "cx_attempt cx \<in> set (d_attempts d)" "a_closed (cx_attempt cx) = None"
    "get_campaign (a_campaign (cx_attempt cx)) d = Some (cx_campaign cx)" "c_agent (cx_campaign cx) = Some gid"
    "\<exists>t. auth gid d = Inr t \<and> cx_turn cx = t" by auto
qed

text \<open>The columns of an attempt that belong to the agent.\<close>

definition agent_columns :: "attempt \<Rightarrow> attempt \<Rightarrow> attempt" where
  "agent_columns a a' = a\<lparr>a_agent_outcome := a_agent_outcome a', a_hypothesis := a_hypothesis a',
     a_change_summary := a_change_summary a', a_artifact_ref := a_artifact_ref a', a_lessons := a_lessons a',
     a_recorded_at := a_recorded_at a', a_wake_at := a_wake_at a', a_wake_reason := a_wake_reason a',
     a_block_reason := a_block_reason a', a_unblock_hint := a_unblock_hint a'\<rparr>"

lemma agent_columns_same [simp]: "agent_columns a a = a"
  by (simp add: agent_columns_def)

lemma agent_writes [simp]:
  "agent_columns a (write_record oc hyp chg art les now a) = write_record oc hyp chg art les now a"
  "agent_columns a (write_wakeup w why a) = write_wakeup w why a"
  "agent_columns a (write_block why hint a) = write_block why hint a"
  by (simp_all add: agent_columns_def write_record_def write_wakeup_def write_block_def)

lemma write_ids [simp]:
  "a_id (write_record oc hyp chg art les now a) = a_id a" "a_id (write_wakeup w why a) = a_id a"
  "a_id (write_block why hint a) = a_id a" "a_id (write_running tmo dg now a) = a_id a"
  "a_id (write_digest dg a) = a_id a" "a_id (write_excerpt e a) = a_id a"
  by (simp_all add: write_record_def write_wakeup_def write_block_def write_running_def write_digest_def write_excerpt_def)

text \<open>One open row written, everything else of the loop as it was.\<close>

definition writes_row :: "string \<Rightarrow> (attempt \<Rightarrow> attempt) \<Rightarrow> db \<Rightarrow> db \<Rightarrow> bool" where
  "writes_row aid f d d' \<longleftrightarrow>
     (\<exists>a. get_attempt aid d = Some a \<and> a_closed a = None)
     \<and> (\<forall>k. get_attempt k d' = (if k = aid then map_option f (get_attempt k d) else get_attempt k d))
     \<and> (\<forall>k. get_campaign k d' = get_campaign k d) \<and> d_tasks d' = d_tasks d
     \<and> map a_id (d_attempts d') = map a_id (d_attempts d)"

lemma update_open_writes:
  assumes "update_open cond f aid d = Some d1" and "\<And>r. cond r \<Longrightarrow> a_closed r = None" and "\<And>r. a_id (f r) = a_id r"
    and "d_attempts d' = d_attempts d1" and "d_campaigns d' = d_campaigns d1" and "d_tasks d' = d_tasks d1"
  shows "writes_row aid f d d'"
proof -
  obtain a where a: "get_attempt aid d = Some a" "cond a" and d1: "d1 = upd_attempt aid f d"
    using assms(1) by (auto simp: update_open_def split: option.splits if_splits)
  have row: "get_attempt k d1 = (if k = aid then map_option f (get_attempt aid d) else get_attempt k d)" for k
    unfolding d1 by (rule attempts.get_upd) (simp add: assms(3))
  have "get_attempt k d' = get_attempt k d1" "get_campaign k d' = get_campaign k d" for k
    using assms(4,5) by (simp_all add: row_get_def d1)
  moreover have "d_tasks d' = d_tasks d" using assms(6) by (simp add: d1)
  moreover have "map a_id (d_attempts d') = map a_id (d_attempts d)"
    unfolding assms(4) d1 by (rule attempts.keys_upd) (simp add: assms(3))
  ultimately show ?thesis using a assms(2) row by (auto simp: writes_row_def)
qed

lemma update_open_frame:
  assumes "update_open cond f aid d = Some d1"
  shows "cond (the (get_attempt aid d))" "get_attempt aid d \<noteq> None"
  using assms by (auto simp: update_open_def split: option.splits if_splits)

lemma record_attempt_writes:
  assumes "record_attempt wording cx outcome hypothesis change_summary artifact_ref lessons now d = Inr (d', fs)"
  shows "\<exists>oc hyp chg art les. writes_row (a_id (cx_attempt cx)) (write_record oc hyp chg art les now) d d'
    \<and> (\<exists>r. get_attempt (a_id (cx_attempt cx)) d = Some r \<and> a_recorded_at r = None)"
proof -
  let ?a = "cx_attempt cx" and ?c = "cx_campaign cx"
  note r = assms [unfolded record_attempt_def Let_def]
  obtain hyp chg art les where rest:
    "(case update_open (\<lambda>r. a_recorded_at r = None \<and> a_closed r = None \<and> a_eval_job r = None)
            (write_record (agent_outcome_of outcome) hyp chg art les now) (a_id ?a) d of
       None \<Rightarrow> Inl (ToolError ''CAMPAIGN_ATTEMPT_ALREADY_RECORDED'')
     | Some d1 \<Rightarrow>
         let d2 = record_event (c_id ?c) (cycle_key (c_id ?c) (a_cycle_no ?a) ''recorded'') ''attempt_recorded''
                    [(''cycle_no'', PInt (a_cycle_no ?a)), (''agent_outcome'', outcome)] (agent_actor ?c) now
                    (add_mark (MarkAttempt (a_id ?a)) d1)
         in Inr (d2, follow_up_directives wording ?c (write_record (agent_outcome_of outcome) hyp chg art les now ?a) d2))
      = Inr (d', fs)"
    using r unfolding bindE_Inr_iff Let_def by blast
  let ?f = "write_record (agent_outcome_of outcome) hyp chg art les now"
  obtain d1 where u: "update_open (\<lambda>r. a_recorded_at r = None \<and> a_closed r = None \<and> a_eval_job r = None) ?f (a_id ?a) d = Some d1"
    using rest by (auto split: option.splits)
  have d': "d' = record_event (c_id ?c) (cycle_key (c_id ?c) (a_cycle_no ?a) ''recorded'') ''attempt_recorded''
                    [(''cycle_no'', PInt (a_cycle_no ?a)), (''agent_outcome'', outcome)] (agent_actor ?c) now
                    (add_mark (MarkAttempt (a_id ?a)) d1)"
    using rest unfolding u by (simp add: Let_def)
  have "writes_row (a_id ?a) ?f d d'"
    by (rule update_open_writes [OF u]) (simp_all add: d')
  moreover have "\<exists>r. get_attempt (a_id ?a) d = Some r \<and> a_recorded_at r = None"
    using update_open_frame [OF u] by auto
  ultimately show ?thesis by blast
qed

lemma schedule_wakeup_writes:
  assumes "schedule_wakeup cx delay_seconds tm reason now d = Inr (d', t)"
  shows "\<exists>why. writes_row (a_id (cx_attempt cx)) (write_wakeup t why) d d'"
    "\<exists>delay. wake_time delay_seconds tm now = Inr (Some t, delay) \<and> wakeup_in_range delay"
    "\<forall>dl. c_deadline (cx_campaign cx) = Some dl \<longrightarrow> t < dl"
proof -
  let ?a = "cx_attempt cx" and ?c = "cx_campaign cx"
  note r = assms [unfolded schedule_wakeup_def Let_def]
  obtain w delay where w: "wake_time delay_seconds tm now = Inr (w, delay)"
    and r1: "(case w of
       None \<Rightarrow> Inl (ToolError ''CAMPAIGN_WAKEUP_OUT_OF_RANGE'')
     | Some t \<Rightarrow>
         bindE (guardE (wakeup_in_range delay) (ToolError ''CAMPAIGN_WAKEUP_OUT_OF_RANGE'')) (\<lambda>_.
         bindE (guardE (case c_deadline ?c of None \<Rightarrow> True | Some dl \<Rightarrow> t < dl) (ToolError ''CAMPAIGN_WAKEUP_AFTER_DEADLINE'')) (\<lambda>_.
         bindE (tool_text reason WAKE_REASON_MAX True) (\<lambda>why.
         case update_open (\<lambda>r. a_closed r = None) (write_wakeup t why) (a_id ?a) d of
           None \<Rightarrow> Inl closed_meanwhile
         | Some d1 \<Rightarrow>
             case draw_uuid (add_mark (MarkAttempt (a_id ?a)) d1) of (u, d2) \<Rightarrow>
                Inr (record_event (c_id ?c) (cycle_key (c_id ?c) (a_cycle_no ?a) (''wakeup:'' @ u)) ''wakeup_scheduled''
                       [(''cycle_no'', PInt (a_cycle_no ?a)), (''wake_at'', iso (Some t)), (''reason'', opt_str why)]
                       (agent_actor ?c) now d2, t))))) = Inr (d', t)"
    using r unfolding bindE_Inr_iff by (auto split: prod.splits)
  obtain t' where t': "w = Some t'" using r1 by (cases w) simp_all
  let ?new = "\<lambda>d1. draw_uuid (add_mark (MarkAttempt (a_id ?a)) d1)"
  obtain why d1 where g: "wakeup_in_range delay" "case c_deadline ?c of None \<Rightarrow> True | Some dl \<Rightarrow> t' < dl"
    and upd: "update_open (\<lambda>r. a_closed r = None) (write_wakeup t' why) (a_id ?a) d = Some d1"
    and d': "d' = record_event (c_id ?c) (cycle_key (c_id ?c) (a_cycle_no ?a) (''wakeup:'' @ fst (?new d1))) ''wakeup_scheduled''
                       [(''cycle_no'', PInt (a_cycle_no ?a)), (''wake_at'', iso (Some t')), (''reason'', opt_str why)]
                       (agent_actor ?c) now (snd (?new d1))" and tt: "t' = t"
    using r1 unfolding t' option.case bindE_Inr_iff guardE_Inr_iff case_prod_beta
    by (auto split: option.splits)
  have "writes_row (a_id ?a) (write_wakeup t' why) d d'"
    by (rule update_open_writes [OF upd]) (simp_all add: d' draw_uuid_def)
  then show "\<exists>why. writes_row (a_id (cx_attempt cx)) (write_wakeup t why) d d'" unfolding tt by blast
  show "\<exists>delay. wake_time delay_seconds tm now = Inr (Some t, delay) \<and> wakeup_in_range delay"
    using w g(1) t' tt by blast
  show "\<forall>dl. c_deadline ?c = Some dl \<longrightarrow> t < dl" using g(2) tt by (auto split: option.splits)
qed

lemma report_blocked_writes:
  assumes "report_blocked cx reason unblock_hint now d = Inr d'"
  shows "\<exists>why hint. writes_row (a_id (cx_attempt cx)) (write_block why hint) d d'"
proof -
  let ?a = "cx_attempt cx" and ?c = "cx_campaign cx"
  let ?new = "\<lambda>d1. draw_uuid (add_mark (MarkAttempt (a_id ?a)) d1)"
  obtain why hint d1 where
    upd: "update_open (\<lambda>r. a_closed r = None) (write_block why hint) (a_id ?a) d = Some d1"
    and d': "d' = record_event (c_id ?c) (cycle_key (c_id ?c) (a_cycle_no ?a) (''block_reported:'' @ fst (?new d1))) ''block_reported''
                   [(''cycle_no'', PInt (a_cycle_no ?a)), (''reason'', opt_str why), (''unblock_hint'', opt_str hint)]
                   (agent_actor ?c) now (snd (?new d1))"
    using assms unfolding report_blocked_def Let_def bindE_Inr_iff case_prod_beta
    by (auto split: option.splits)
  have "writes_row (a_id ?a) (write_block why hint) d d'"
    by (rule update_open_writes [OF upd]) (simp_all add: d' draw_uuid_def)
  then show ?thesis by blast
qed

lemma advise_confirmation_frame:
  assumes "advise_confirmation auth turn_key gid advice reason now d = Inr d'"
  shows "d_attempts d' = d_attempts d \<and> d_campaigns d' = d_campaigns d \<and> d_tasks d' = d_tasks d
    \<and> (\<exists>t c. auth gid d = Inr t \<and> turn_key t = Some (report_key c ''confirmation'') \<and> get_campaign (c_id c) d = Some c
         \<and> c_agent c = Some gid \<and> c_status c = AwaitingConfirmation)"
proof -
  let ?key = "\<lambda>t. case turn_key t of None \<Rightarrow> [] | Some k \<Rightarrow> k"
  let ?out = "\<lambda>c why. add_mark (MarkCampaign (c_id c))
                 (record_event (c_id c) (key_of (c_id c) (''confirm_advice:'' @ fst (draw_uuid d))) ''confirm_advice''
                   [(''advice'', advice), (''reason'', opt_str why), (''state_revision'', PInt (c_rev c))]
                   (''agent:'' @ gid) now (snd (draw_uuid d)))"
  obtain t why where t: "auth gid d = Inr t" and r: "(case reported_campaign (?key t) d of
          None \<Rightarrow> Inl (ToolError ''CAMPAIGN_REPORT_TURN_REQUIRED'')
        | Some c \<Rightarrow>
            bindE (guardE (c_agent c = Some gid) (ToolError ''CAMPAIGN_REPORT_TURN_REQUIRED'')) (\<lambda>_.
            bindE (guardE (c_status c = AwaitingConfirmation \<and> ?key t = report_key c ''confirmation'')
                    (ToolError ''CAMPAIGN_CONFIRMATION_DECIDED'')) (\<lambda>_. Inr (?out c why)))) = Inr d'"
    using assms unfolding advise_confirmation_def Let_def bindE_Inr_iff case_prod_beta by blast
  obtain c where c: "reported_campaign (?key t) d = Some c" using r by (auto split: option.splits)
  have own: "c_agent c = Some gid" "c_status c = AwaitingConfirmation" and key: "?key t = report_key c ''confirmation''"
    and d': "d' = ?out c why"
    using r unfolding c option.case bindE_Inr_iff guardE_Inr_iff by blast+
  have "turn_key t = Some (report_key c ''confirmation'')"
    using key by (cases "turn_key t") (simp_all add: report_key_def)
  moreover have "get_campaign (c_id c) d = Some c"
    using c by (auto simp: reported_campaign_def split: list.splits if_splits dest: campaigns.get_key)
  moreover have "d_attempts d' = d_attempts d \<and> d_campaigns d' = d_campaigns d \<and> d_tasks d' = d_tasks d"
    by (simp add: d' draw_uuid_def)
  ultimately show ?thesis using t own by blast
qed

text \<open>
  Every writing tool, as an agent can call it: with any authorisation of its turn, on the context
  the guard returns for the database at hand.
\<close>

inductive tool_step :: "string \<Rightarrow> db \<Rightarrow> db \<Rightarrow> bool" for gid :: string where
  records: "current_cycle auth gid d = Inr cx \<Longrightarrow> record_attempt wording cx oc hyp chg art les now d = Inr (d', fs)
    \<Longrightarrow> tool_step gid d d'"
| wakeups: "current_cycle auth gid d = Inr cx \<Longrightarrow> schedule_wakeup cx delay tm reason now d = Inr (d', t)
    \<Longrightarrow> tool_step gid d d'"
| blocks: "current_cycle auth gid d = Inr cx \<Longrightarrow> report_blocked cx reason hint now d = Inr d' \<Longrightarrow> tool_step gid d d'"
| advises: "advise_confirmation auth turn_key gid advice reason now d = Inr d' \<Longrightarrow> tool_step gid d d'"

definition agent_may :: "string \<Rightarrow> db \<Rightarrow> db \<Rightarrow> bool" where
  "agent_may gid d d' \<longleftrightarrow>
     (\<forall>k. get_campaign k d' = get_campaign k d) \<and>
     (\<forall>k. get_attempt k d' = get_attempt k d \<or>
        (\<exists>a a' c. get_attempt k d = Some a \<and> get_attempt k d' = Some a' \<and> a_closed a = None
           \<and> get_campaign (a_campaign a) d = Some c \<and> c_agent c = Some gid \<and> a' = agent_columns a a'))"

lemma writes_row_may:
  assumes "writes_row (a_id (cx_attempt cx)) f d d'" and "current_cycle auth gid d = Inr cx" and "attempts_wf d"
    and "\<And>a. agent_columns a (f a) = f a"
  shows "agent_may gid d d'"
proof -
  let ?a = "cx_attempt cx"
  note cc = current_cycle_facts [OF assms(2)]
  have own: "get_attempt (a_id ?a) d = Some ?a"
    using assms(3) cc(1) unfolding attempts_wf_def by (rule attempts.get_distinct)
  have "get_attempt k d' = get_attempt k d \<or>
      (\<exists>a a' c. get_attempt k d = Some a \<and> get_attempt k d' = Some a' \<and> a_closed a = None
         \<and> get_campaign (a_campaign a) d = Some c \<and> c_agent c = Some gid \<and> a' = agent_columns a a')" for k
  proof (cases "k = a_id ?a")
    case True
    have "get_attempt k d' = Some (f ?a)" using assms(1) own True by (simp add: writes_row_def)
    moreover have "f ?a = agent_columns ?a (f ?a)" using assms(4) by simp
    ultimately show ?thesis using own True cc(2-4) by blast
  qed (use assms(1) in \<open>simp add: writes_row_def\<close>)
  then show ?thesis using assms(1) unfolding writes_row_def agent_may_def by blast
qed

text \<open>
  What an agent can reach through its tools, with whatever turn: only an open cycle of a
  campaign it leads, and of that row only its own columns (the record, the wake-up, the block
  report). The score, the verdict, the token count, the closing and every other row are out of
  reach, and so is every campaign row.
\<close>

theorem tools_reach:
  assumes "attempts_wf d" and "tool_step gid d d'"
  shows "(\<forall>k. get_campaign k d' = get_campaign k d) \<and>
     (\<forall>k a. get_attempt k d = Some a \<longrightarrow> get_attempt k d' = Some a \<or>
        (\<exists>a' c. get_attempt k d' = Some a' \<and> a_closed a = None
           \<and> get_campaign (a_campaign a) d = Some c \<and> c_agent c = Some gid \<and> a' = agent_columns a a'))"
proof -
  have "agent_may gid d d'" using assms(2,1)
  proof (induction rule: tool_step.induct)
    case (records auth d cx wording oc hyp chg art les now d' fs)
    then show ?case using record_attempt_writes [OF records(2)] writes_row_may agent_writes(1) by blast
  next
    case (wakeups auth d cx delay tm reason now d' t)
    then show ?case using schedule_wakeup_writes(1) [OF wakeups(2)] writes_row_may agent_writes(2) by blast
  next
    case (blocks auth d cx reason hint now d')
    then show ?case using report_blocked_writes [OF blocks(2)] writes_row_may agent_writes(3) by blast
  next
    case (advises auth turn_key advice reason now d d')
    then show ?case using advise_confirmation_frame [OF advises(1)] by (simp add: agent_may_def row_get_def)
  qed
  then show ?thesis unfolding agent_may_def by (metis option.inject)
qed

text \<open>
  The wake-up window: a wake-up that is accepted, given as a delay or as a time, lies between
  60 seconds and 7 days from now to the microsecond and before the campaign's deadline, in spite of
  the float arithmetic of the check; it is then the wake time of the open attempt.
\<close>

theorem wakeup_in_window:
  assumes "schedule_wakeup cx delay_seconds tm reason now d = Inr (d', t)"
  shows "now + seconds 60 \<le> t \<and> t \<le> now + seconds 604800
    \<and> (\<forall>dl. c_deadline (cx_campaign cx) = Some dl \<longrightarrow> t < dl)
    \<and> (\<exists>a. get_attempt (a_id (cx_attempt cx)) d' = Some a \<and> a_wake_at a = Some t \<and> a_closed a = None)"
proof -
  note w = schedule_wakeup_writes [OF assms]
  obtain delay where wt: "wake_time delay_seconds tm now = Inr (Some t, delay)" and rng: "wakeup_in_range delay"
    using w(2) by blast
  have "seconds 60 \<le> t - now \<and> t - now \<le> seconds 604800"
  proof (cases tm)
    case None
    with wt have "wake_from_delay delay_seconds now = Inr (Some t, delay)" by (simp add: wake_time_def)
    then obtain x where "delay = Fin x" "t = now + delta_of_seconds x"
      by (auto simp: wake_from_delay_def bindE_Inr_iff split: pyval.splits pyfloat.splits if_splits)
    then show ?thesis using rng delta_of_seconds_bounds [of 60 x 604800] by (auto simp: wakeup_in_range_def fle_def)
  next
    case (Some v)
    with wt have "delay = total_seconds (t - now)" by (auto simp: wake_time_def bindE_Inr_iff)
    then show ?thesis using rng total_seconds_ge [of 60 "t - now"] total_seconds_le [of "t - now" 604800]
      by (simp add: wakeup_in_range_def)
  qed
  moreover obtain why where "writes_row (a_id (cx_attempt cx)) (write_wakeup t why) d d'" using w(1) by blast
  then have "\<exists>a. get_attempt (a_id (cx_attempt cx)) d' = Some a \<and> a_wake_at a = Some t \<and> a_closed a = None"
    by (auto simp: writes_row_def write_wakeup_def)
  ultimately show ?thesis using w(3) by auto
qed

text \<open>
  A cycle is recorded once: a record that succeeds finds the row open, unrecorded and not yet
  being evaluated and stamps it; from then on no call for this cycle succeeds, not even one that
  still holds the context of before, and a call with a fresh context is told that the attempt is
  already recorded.
\<close>

theorem recorded_once:
  assumes "attempts_wf d" and "current_cycle auth gid d = Inr cx"
    and "record_attempt wording cx oc hyp chg art les now d = Inr (d1, fs)"
  shows "a_recorded_at (cx_attempt cx) = None \<and> a_eval_job (cx_attempt cx) = None
    \<and> (\<exists>a. get_attempt (a_id (cx_attempt cx)) d1 = Some a \<and> a_recorded_at a = Some now)
    \<and> (\<forall>wording' cx' oc' hyp' chg' art' les' now'. a_id (cx_attempt cx') = a_id (cx_attempt cx)
         \<longrightarrow> (\<exists>e. record_attempt wording' cx' oc' hyp' chg' art' les' now' d1 = Inl e))
    \<and> (\<forall>auth' gid' cx' wording' oc' hyp' chg' art' les' now'.
         current_cycle auth' gid' d1 = Inr cx' \<and> a_id (cx_attempt cx') = a_id (cx_attempt cx)
         \<longrightarrow> record_attempt wording' cx' oc' hyp' chg' art' les' now' d1 = Inl (ToolError ''CAMPAIGN_ATTEMPT_ALREADY_RECORDED''))"
proof -
  let ?a = "cx_attempt cx"
  obtain o' h' c' a' l' where w: "writes_row (a_id ?a) (write_record o' h' c' a' l' now) d d1"
    using record_attempt_writes [OF assms(3)] by blast
  have own: "get_attempt (a_id ?a) d = Some ?a"
    using assms(1) current_cycle_facts(1) [OF assms(2)] unfolding attempts_wf_def by (rule attempts.get_distinct)
  then have row: "get_attempt (a_id ?a) d1 = Some (write_record o' h' c' a' l' now ?a)"
    using w by (simp add: writes_row_def)
  have pre: "a_kind ?a \<noteq> RetroKind \<and> a_recorded_at ?a = None \<and> a_eval_job ?a = None"
    using assms(3) unfolding record_attempt_def Let_def bindE_Inr_iff guardE_Inr_iff by blast
  have again: "\<exists>e. record_attempt wording' cx' oc' hyp' chg' art' les' now' d1 = Inl e"
    if "a_id (cx_attempt cx') = a_id ?a" for wording' cx' oc' hyp' chg' art' les' now'
  proof (cases "record_attempt wording' cx' oc' hyp' chg' art' les' now' d1")
    case (Inr r)
    then obtain d2 fs2 where "record_attempt wording' cx' oc' hyp' chg' art' les' now' d1 = Inr (d2, fs2)" by (cases r) simp
    from record_attempt_writes [OF this] row that show ?thesis by (auto simp: write_record_def)
  qed simp
  have wf1: "attempts_wf d1" using assms(1) w by (simp add: attempts_wf_def writes_row_def)
  have fresh: "record_attempt wording' cx' oc' hyp' chg' art' les' now' d1 = Inl (ToolError ''CAMPAIGN_ATTEMPT_ALREADY_RECORDED'')"
    if c: "current_cycle auth' gid' d1 = Inr cx'" and i: "a_id (cx_attempt cx') = a_id ?a"
    for auth' gid' cx' wording' oc' hyp' chg' art' les' now'
  proof -
    have "get_attempt (a_id (cx_attempt cx')) d1 = Some (cx_attempt cx')"
      using wf1 current_cycle_facts(1) [OF c] unfolding attempts_wf_def by (rule attempts.get_distinct)
    then have "cx_attempt cx' = write_record o' h' c' a' l' now ?a" using row i by simp
    then have "a_kind (cx_attempt cx') \<noteq> RetroKind" "a_recorded_at (cx_attempt cx') = Some now"
      using pre by (simp_all add: write_record_def)
    then show ?thesis by (simp add: record_attempt_def guardE_def Let_def)
  qed
  show ?thesis using pre row again fresh by (auto simp: write_record_def)
qed

section \<open>What a dispatch writes\<close>

definition dispatched_row :: "string \<Rightarrow> instant \<Rightarrow> db \<Rightarrow> attempt \<Rightarrow> attempt \<Rightarrow> bool" where
  "dispatched_row aid now sent a a' \<longleftrightarrow>
     a_id a = aid \<and> a_closed a = None \<and>
     (\<exists>c a0. get_attempt aid sent = Some a0 \<and> get_campaign (a_campaign a0) sent = Some c \<and>
        ((a_eval_status a = EvPending \<and> a' = write_running (eval_timeout c) (evaluator_digest (Some (c_evaluator c))) now a)
         \<or> (a_eval_status a0 = EvRunning \<and> a' = write_digest (evaluator_digest (Some (c_evaluator c))) a)
         \<or> (a_eval_status a = EvPending \<and> (\<exists>why. a' = write_excerpt (Some (waiting_note why)) a))))"

definition row_written :: "(attempt \<Rightarrow> attempt \<Rightarrow> bool) \<Rightarrow> db \<Rightarrow> db \<Rightarrow> bool" where
  "row_written ok d d' \<longleftrightarrow>
     (\<forall>k. get_campaign k d' = get_campaign k d) \<and>
     (\<forall>k. get_attempt k d' = get_attempt k d \<or> (\<exists>a a'. get_attempt k d = Some a \<and> get_attempt k d' = Some a' \<and> ok a a'))"

lemma row_written_refl: "row_written ok d d"
  by (simp add: row_written_def)

lemma row_written_upd:
  assumes "get_attempt aid d = Some a" and "ok a (f a)" and "\<And>r. a_id (f r) = a_id r"
    and "d_attempts d' = d_attempts (upd_attempt aid f d)" and "d_campaigns d' = d_campaigns d"
  shows "row_written ok d d'"
proof -
  have "get_attempt k (upd_attempt aid f d) = (if k = aid then map_option f (get_attempt aid d) else get_attempt k d)" for k
    by (rule attempts.get_upd) (simp add: assms(3))
  then have "get_attempt k d' = (if k = aid then Some (f a) else get_attempt k d)" for k
    using assms(1,4) by (simp add: row_get_def)
  then show ?thesis using assms(1,2,5) by (auto simp: row_written_def row_get_def)
qed

lemma record_waiting_written:
  assumes "\<And>a. get_attempt aid d = Some a \<Longrightarrow> a_closed a = None \<Longrightarrow> a_eval_status a = EvPending \<Longrightarrow>
    ok a (write_excerpt (Some note) a)"
  shows "row_written ok d (record_waiting aid why note now d)"
proof (cases "get_attempt aid d")
  case (Some a)
  show ?thesis
  proof (cases "a_closed a \<noteq> None \<or> a_eval_status a \<noteq> EvPending")
    case False
    then have "record_waiting aid why note now d =
      record_event (a_campaign a) (cycle_key (a_campaign a) (a_cycle_no a) (''eval_waiting:'' @ why)) ''eval_waiting''
                 [(''cycle_no'', PInt (a_cycle_no a)), (''reason'', PStr why), (''detail'', PStr note)] SYSTEM_ACTOR now
                 (add_mark (MarkAttempt aid) (upd_attempt aid (write_excerpt (Some note)) d))"
      using Some by (simp add: record_waiting_def)
    then show ?thesis
      by (intro row_written_upd [OF Some, where f = "write_excerpt (Some note)"]) (use assms Some False in auto)
  qed (use Some in \<open>auto simp: record_waiting_def row_written_refl\<close>)
qed (simp add: record_waiting_def row_written_refl)

lemma start_eval_written:
  assumes "\<And>a. get_attempt aid d = Some a \<Longrightarrow> a_closed a = None \<Longrightarrow> a_eval_status a = EvPending \<Longrightarrow>
    ok a (write_running tmo dg now a)"
  shows "row_written ok d (start_eval aid tmo dg now d)"
proof (cases "get_attempt aid d")
  case (Some a)
  show ?thesis
  proof (cases "a_closed a = None \<and> a_eval_status a = EvPending")
    case True
    then have "start_eval aid tmo dg now d = add_mark (MarkAttempt aid) (upd_attempt aid (write_running tmo dg now) d)"
      using Some by (simp add: start_eval_def)
    then show ?thesis
      by (intro row_written_upd [OF Some, where f = "write_running tmo dg now"]) (use assms Some True in auto)
  qed (use Some in \<open>auto simp: start_eval_def row_written_refl\<close>)
qed (simp add: start_eval_def row_written_refl)

lemma refresh_digest_written:
  assumes "\<And>a. get_attempt aid d = Some a \<Longrightarrow> a_closed a = None \<Longrightarrow> ok a (write_digest dg a)"
  shows "row_written ok d (refresh_digest aid dg d)"
proof (cases "get_attempt aid d")
  case (Some a)
  show ?thesis
  proof (cases "a_closed a = None")
    case True
    then have "refresh_digest aid dg d = upd_attempt aid (write_digest dg) d"
      using Some by (simp add: refresh_digest_def)
    then show ?thesis
      by (intro row_written_upd [OF Some, where f = "write_digest dg"]) (use assms Some True in auto)
  qed (use Some in \<open>auto simp: refresh_digest_def row_written_refl\<close>)
qed (simp add: refresh_digest_def row_written_refl)

lemma eval_target_facts:
  "eval_target aid d = Some (a, c) \<Longrightarrow> get_attempt aid d = Some a \<and> get_campaign (a_campaign a) d = Some c
     \<and> a_eval_status a \<in> {EvPending, EvRunning}"
  by (auto simp: eval_target_def split: option.splits if_splits)

text \<open>
  Sending an evaluation never disturbs what others did meanwhile: whatever was committed while
  the machine was asked stays, and the only row a dispatch writes is its own attempt, only while
  that is still open. A pending row becomes running, with the deadline of its timeout; the digest
  that is stored is of the evaluator the machine was sent, even if the campaign was edited since.
\<close>

theorem dispatch_writes:
  assumes "dispatch_eval bus between aid now (d, rc) = ((d', rc'), r)"
  shows "d' = d \<or> row_written (dispatched_row aid now d) (between d) d'"
proof (cases bus)
  case None
  with assms show ?thesis by (auto simp: dispatch_eval_def)
next
  case bus: (Some b)
  show ?thesis
  proof (cases "eval_target aid d")
    case None
    with assms bus show ?thesis by (auto simp: dispatch_eval_def)
  next
    case (Some ac)
    obtain a c where target: "eval_target aid d = Some (a, c)" using Some by (cases ac) simp
    note tf = eval_target_facts [OF target]
    let ?ok = "dispatched_row aid now d" and ?dg = "evaluator_digest (Some (c_evaluator c))"
    have key: "a_id x = aid" if "get_attempt aid e = Some x" for x e using that by (rule attempts.get_key)
    have ok1: "?ok x (write_running (eval_timeout c) ?dg now x)"
      if "get_attempt aid e = Some x" "a_closed x = None" "a_eval_status x = EvPending" for x e
      using that tf key unfolding dispatched_row_def by blast
    have ok2: "?ok x (write_digest ?dg x)"
      if "get_attempt aid e = Some x" "a_closed x = None" "a_eval_status a = EvRunning" for x e
      using that tf key unfolding dispatched_row_def by blast
    have ok3: "?ok x (write_excerpt (Some (waiting_note why)) x)"
      if "get_attempt aid e = Some x" "a_closed x = None" "a_eval_status x = EvPending" for x e why
      using that tf key unfolding dispatched_row_def by blast
    define agent where "agent = (if truthy (c_agent c) then get_agent (the (c_agent c)) d else None)"
    define why where "why = (if agent = None then ''agent_missing'' else ''agent_not_placed'')"
    have run: "dispatch_eval bus between aid now (d, rc) =
      (case (case agent of None \<Rightarrow> None | Some g \<Rightarrow> g_machine g) of
                None \<Rightarrow>
                  ((if a_excerpt a \<noteq> Some (waiting_note why) \<and> a_eval_status a = EvPending
                    then (record_waiting aid why (waiting_note why) now (between d), rc) else (d, rc)), ''waiting'')
              | Some m \<Rightarrow>
                  if \<not> mb_connected b m then ((d, rc), ''offline'')
                  else (case mb_ask b m (eval_request_frame c a) of
                          EvalError reason \<Rightarrow> ((between d, rc), reason)
                        | EvalAck False reason \<Rightarrow>
                            ((between d, rc), case reason of Some r \<Rightarrow> if r = [] then ''refused'' else r | None \<Rightarrow> ''refused'')
                        | EvalAck True reason \<Rightarrow>
                            if a_eval_status a = EvRunning
                            then ((if reason = None then refresh_digest aid ?dg (between d) else between d, rc(aid \<mapsto> now)), ''re_requested'')
                            else ((start_eval aid (er_timeout (eval_request_frame c a)) ?dg now (between d), rc), ''accepted'')))"
      by (simp only: dispatch_eval_def bus target agent_def why_def Let_def prod.case option.case)
    have tmo: "er_timeout (eval_request_frame c a) = eval_timeout c" by (simp add: eval_request_frame_def)
    have "d' \<in> {d, between d, record_waiting aid why (waiting_note why) now (between d),
        start_eval aid (eval_timeout c) ?dg now (between d)} \<or>
        (d' = refresh_digest aid ?dg (between d) \<and> a_eval_status a = EvRunning)"
      using assms unfolding run tmo by (auto split: option.splits if_splits eval_answer.splits bool.splits)
    then show ?thesis
      using record_waiting_written [of aid "between d" ?ok "waiting_note why" why now]
        start_eval_written [of aid "between d" ?ok "eval_timeout c" ?dg now]
        refresh_digest_written [of aid "between d" ?ok ?dg] ok1 ok2 ok3 row_written_refl by blast
  qed
qed

section \<open>Witnesses\<close>

definition tool_turn :: turn_row where
  "tool_turn = sample_turn\<lparr>tn_task := Some ''t1''\<rparr>"

definition tool_context :: cycle_context where
  "tool_context = \<lparr>cx_campaign = sample_campaign, cx_attempt = new_attempt ''a1'' ''c1'' 1 CycleKind ''t1'' 0 EvPending,
     cx_turn = tool_turn\<rparr>"

lemma tool_cycle: "current_cycle (\<lambda>_ _. Inr tool_turn) ''g1'' cycle_db = Inr tool_context"
proof -
  have "task_cycle tool_turn cycle_db = (Some (new_attempt ''a1'' ''c1'' 1 CycleKind ''t1'' 0 EvPending), Some ''c1'')"
    by (simp add: task_cycle_def tool_turn_def cycle_db_def row_get_def cycle_task_def new_attempt_def)
  then show ?thesis
    by (simp add: current_cycle_def execution_cycle_def tool_context_def new_attempt_def)
qed

lemma cycle_db_wf: "attempts_wf cycle_db"
  by (simp add: attempts_wf_def cycle_db_def)

lemma cycle_db_row: "get_attempt ''a1'' cycle_db = Some (new_attempt ''a1'' ''c1'' 1 CycleKind ''t1'' 0 EvPending)"
  by (simp add: cycle_db_def row_get_def new_attempt_def)

lemma sample_texts: "tool_text (PStr ''stuck'') n True = (if n < 5 then Inl invalid_argument else Inr (Some ''stuck''))"
  "tool_text PNone n False = Inr None"
proof -
  have "strip ''stuck'' = ''stuck''" by code_simp
  then show "tool_text (PStr ''stuck'') n True = (if n < 5 then Inl invalid_argument else Inr (Some ''stuck''))"
    by (simp add: tool_text_def)
qed (simp add: tool_text_def)

lemma tools_reach_witness:
  "\<exists>d' a'. report_blocked tool_context (PStr ''stuck'') (PStr ''stuck'') 5 cycle_db = Inr d'
     \<and> get_attempt ''a1'' d' = Some a' \<and> a_block_reason a' = Some ''stuck'' \<and> a_dev_score a' = None
     \<and> get_campaign ''c1'' d' = Some sample_campaign"
proof -
  obtain d' where r: "report_blocked tool_context (PStr ''stuck'') (PStr ''stuck'') 5 cycle_db = Inr d'"
    by (simp add: report_blocked_def sample_texts update_open_def tool_context_def Let_def draw_uuid_def
        cycle_db_row) (simp add: new_attempt_def cycle_db_row draw_uuid_def)
  obtain why hint where w: "writes_row ''a1'' (write_block why hint) cycle_db d'"
    using report_blocked_writes [OF r] by (auto simp: tool_context_def new_attempt_def)
  have "tool_step ''g1'' cycle_db d'" using tool_cycle r by (rule tool_step.blocks)
  note reach = tools_reach [OF cycle_db_wf this]
  have "\<exists>a'. get_attempt ''a1'' d' = Some a' \<and> a_block_reason a' = Some ''stuck''"
    using r by (auto simp: report_blocked_def sample_texts update_open_def tool_context_def Let_def draw_uuid_def
        new_attempt_def cycle_db_def row_get_def write_block_def record_event_def add_mark_def row_upd_def)
  then obtain a' where a': "get_attempt ''a1'' d' = Some a'" "a_block_reason a' = Some ''stuck''" by blast
  moreover from reach cycle_db_row a' have "a' = agent_columns (new_attempt ''a1'' ''c1'' 1 CycleKind ''t1'' 0 EvPending) a'"
  proof -
    let ?A = "new_attempt ''a1'' ''c1'' 1 CycleKind ''t1'' 0 EvPending"
    have "get_attempt ''a1'' d' = Some ?A \<or> (\<exists>b. get_attempt ''a1'' d' = Some b \<and> b = agent_columns ?A b)"
      using reach cycle_db_row by blast
    then have "a' = ?A \<or> a' = agent_columns ?A a'" using a'(1) by (elim disjE exE conjE) (metis option.inject)+
    then show ?thesis by (elim disjE) (simp only: agent_columns_same)
  qed
  then have "a_dev_score a' = a_dev_score (agent_columns (new_attempt ''a1'' ''c1'' 1 CycleKind ''t1'' 0 EvPending) a')" by simp
  then have "a_dev_score a' = None" by (simp add: agent_columns_def new_attempt_def)
  moreover from reach have "get_campaign ''c1'' d' = Some sample_campaign" by simp
  ultimately show ?thesis using r by blast
qed

lemma wakeup_in_window_witness:
  "\<exists>d' t. schedule_wakeup (tool_context\<lparr>cx_campaign := sample_campaign\<lparr>c_deadline := None\<rparr>\<rparr>) (PInt 90) None (PStr ''stuck'') 5 cycle_db
      = Inr (d', t) \<and> seconds 60 + 5 \<le> t"
proof -
  let ?cx = "tool_context\<lparr>cx_campaign := sample_campaign\<lparr>c_deadline := None\<rparr>\<rparr>"
  have f: "to_float (PInt 90) = Inr (Fin 90)" using float_of_int_small [of 90] by simp
  have "\<exists>d' t. schedule_wakeup ?cx (PInt 90) None (PStr ''stuck'') 5 cycle_db = Inr (d', t)"
    by (simp add: schedule_wakeup_def wake_time_def wake_from_delay_def f wakeup_in_range_def fle_def guardE_def Let_def
        sample_texts update_open_def tool_context_def del: to_float.simps)
       (simp add: new_attempt_def cycle_db_row draw_uuid_def)
  then obtain d' t where r: "schedule_wakeup ?cx (PInt 90) None (PStr ''stuck'') 5 cycle_db = Inr (d', t)" by blast
  from wakeup_in_window [OF r] r show ?thesis by (auto simp: add.commute)
qed

lemma recorded_once_witness:
  "\<exists>d1 fs e. record_attempt (\<lambda>_. []) tool_context (PStr ''attempted'') (PStr ''stuck'') (PStr ''stuck'') PNone PNone 5 cycle_db = Inr (d1, fs)
     \<and> record_attempt (\<lambda>_. []) tool_context (PStr ''attempted'') (PStr ''stuck'') (PStr ''stuck'') PNone PNone 6 d1 = Inl e"
proof -
  have "\<exists>d1 fs. record_attempt (\<lambda>_. []) tool_context (PStr ''attempted'') (PStr ''stuck'') (PStr ''stuck'') PNone PNone 5 cycle_db = Inr (d1, fs)"
    by (simp add: record_attempt_def guardE_def Let_def sample_texts update_open_def tool_context_def)
       (simp add: new_attempt_def cycle_db_row Let_def)
  then obtain d1 fs where r: "record_attempt (\<lambda>_. []) tool_context (PStr ''attempted'') (PStr ''stuck'') (PStr ''stuck'')
      PNone PNone 5 cycle_db = Inr (d1, fs)" by blast
  from recorded_once [OF cycle_db_wf tool_cycle r]
  have "\<exists>e. record_attempt (\<lambda>_. []) tool_context (PStr ''attempted'') (PStr ''stuck'') (PStr ''stuck'') PNone PNone 6 d1 = Inl e"
    by simp
  then obtain e where "record_attempt (\<lambda>_. []) tool_context (PStr ''attempted'') (PStr ''stuck'') (PStr ''stuck'') PNone PNone 6 d1 = Inl e" ..
  with r show ?thesis by (intro exI conjI)
qed

definition busy_db :: db where
  "busy_db = cycle_db\<lparr>d_attempts := [(new_attempt ''a1'' ''c1'' 1 CycleKind ''t1'' 0 EvPending)\<lparr>a_eval_job := Some ''a1''\<rparr>],
     d_agents := [\<lparr>g_id = ''g1'', g_machine = Some ''k1'', g_desired_running = True\<rparr>]\<rparr>"

lemma dispatch_writes_witness:
  "\<exists>d' rc'. dispatch_eval (Some \<lparr>mb_connected = (\<lambda>_. True), mb_ask = (\<lambda>_ _. EvalAck True None)\<rparr>) id ''a1'' 5 (busy_db, Map.empty)
      = ((d', rc'), ''accepted'') \<and> (d' = busy_db \<or> row_written (dispatched_row ''a1'' 5 busy_db) busy_db d')"
proof -
  let ?bus = "Some \<lparr>mb_connected = (\<lambda>_. True), mb_ask = (\<lambda>_ _. EvalAck True None)\<rparr>"
  let ?a = "(new_attempt ''a1'' ''c1'' 1 CycleKind ''t1'' 0 EvPending)\<lparr>a_eval_job := Some ''a1''\<rparr>"
  have "get_campaign ''c1'' busy_db = Some sample_campaign"
    by (simp add: busy_db_def cycle_db_def sample_db_def row_get_def)
  then have target: "eval_target ''a1'' busy_db = Some (?a, sample_campaign)"
    by (simp add: eval_target_def busy_db_def row_get_def new_attempt_def)
  have agent: "get_agent ''g1'' busy_db = Some \<lparr>g_id = ''g1'', g_machine = Some ''k1'', g_desired_running = True\<rparr>"
    by (simp add: busy_db_def row_get_def)
  have "\<exists>d' rc'. dispatch_eval ?bus id ''a1'' 5 (busy_db, Map.empty) = ((d', rc'), ''accepted'')"
    by (simp add: dispatch_eval_def target agent Let_def truthy_def new_attempt_def)
  then obtain d' rc' where r: "dispatch_eval ?bus id ''a1'' 5 (busy_db, Map.empty) = ((d', rc'), ''accepted'')" by blast
  from dispatch_writes [OF r] r show ?thesis by auto
qed

end
