(* ===== verification/BudgetLedger.thy ===== *)
theory BudgetLedger
  imports GardenPrelude
begin

text \<open>
  The token-budget ledger of the LLM proxy (budgets/ledger.py): usage rows are summed per scope and
  window, a call is refused when an active hard-stop policy of its scopes has reached its ceiling,
  and after a call the breaches are recorded as incidents and the agent of a breached agent scope
  is paused and stopped. Sums are cached for a few seconds on the refusal path.

  Outside: metrics, logging, and the stop request itself (the function returns whom to stop).
\<close>

abbreviation CACHE_TTL_SECONDS :: mono where "CACHE_TTL_SECONDS \<equiv> 8"
abbreviation DAY_MICROSECONDS :: int where "DAY_MICROSECONDS \<equiv> 86400000000"

section \<open>Rows\<close>

record usage_row =
  us_agent :: "string option"
  us_room :: "string option"
  us_time :: instant
  us_status :: int
  us_prompt :: "int option"
  us_completion :: "int option"

record budget_policy =
  bp_id :: string
  bp_scope_type :: string
  bp_scope_id :: "string option"
  bp_window_kind :: string
  bp_ceiling :: int
  bp_warn_percent :: int
  bp_active :: bool
  bp_hard_stop :: bool

datatype threshold = Soft | Hard

record incident =
  in_policy :: string
  in_scope_type :: string
  in_scope_id :: "string option"
  in_window_start :: instant
  in_threshold :: threshold
  in_open :: bool
  in_observed :: int

record paused_agent =
  pa_id :: string
  pa_reason :: "string option"

record budget_db =
  bd_usage :: "usage_row list"
  bd_policies :: "budget_policy list"
  bd_incidents :: "incident list"
  bd_agents :: "paused_agent list"

section \<open>Windows and sums\<close>

definition window_start :: "string \<Rightarrow> instant \<Rightarrow> instant" where
  "window_start kind now =
     (if kind = ''calendar_day_utc'' then now - now mod DAY_MICROSECONDS else now - DAY_MICROSECONDS)"

definition tokens_or_zero :: "int option \<Rightarrow> int" where
  "tokens_or_zero n = (case n of None \<Rightarrow> 0 | Some k \<Rightarrow> k)"

definition counts_for :: "string \<Rightarrow> string option \<Rightarrow> instant \<Rightarrow> usage_row \<Rightarrow> bool" where
  "counts_for scope_type scope_id start u \<longleftrightarrow>
     start \<le> us_time u \<and> us_status u < 400 \<and>
     (if scope_type = ''agent'' then scope_id \<noteq> None \<and> us_agent u = scope_id
      else if scope_type = ''room'' then scope_id \<noteq> None \<and> us_room u = scope_id
      else True)"

definition compute_observed_tokens :: "string \<Rightarrow> string option \<Rightarrow> instant \<Rightarrow> budget_db \<Rightarrow> int" where
  "compute_observed_tokens scope_type scope_id start d =
     sum_list (map (\<lambda>u. tokens_or_zero (us_prompt u) + tokens_or_zero (us_completion u))
       (filter (counts_for scope_type scope_id start) (bd_usage d)))"

type_synonym observed_cache = "string \<times> string option \<rightharpoonup> int \<times> mono"

definition observed_for_policy :: "budget_policy \<Rightarrow> instant \<Rightarrow> mono \<Rightarrow> budget_db \<Rightarrow> observed_cache \<Rightarrow> int \<times> observed_cache" where
  "observed_for_policy p now mnow d cache =
     (let key = (bp_scope_type p, bp_scope_id p);
          fresh = compute_observed_tokens (bp_scope_type p) (bp_scope_id p) (window_start (bp_window_kind p) now) d
      in case cache key of
           Some (n, expires) \<Rightarrow>
             if mnow < expires then (n, cache) else (fresh, cache(key \<mapsto> (fresh, mnow + CACHE_TTL_SECONDS)))
         | None \<Rightarrow> (fresh, cache(key \<mapsto> (fresh, mnow + CACHE_TTL_SECONDS))))"

section \<open>Refusing a call\<close>

record invocation_block =
  ib_scope_type :: string
  ib_scope_id :: "string option"
  ib_reason :: string

definition applies :: "string option \<Rightarrow> string option \<Rightarrow> budget_policy \<Rightarrow> bool" where
  "applies agent room p \<longleftrightarrow>
     bp_active p \<and> bp_hard_stop p \<and>
     (bp_scope_type p = ''global''
      \<or> (agent \<noteq> None \<and> bp_scope_type p = ''agent'' \<and> bp_scope_id p = agent)
      \<or> (room \<noteq> None \<and> bp_scope_type p = ''room'' \<and> bp_scope_id p = room))"

definition scope_order :: "budget_policy \<Rightarrow> int" where
  "scope_order p = (if bp_scope_type p = ''global'' then 0 else if bp_scope_type p = ''agent'' then 1
     else if bp_scope_type p = ''room'' then 2 else 99)"

definition paused_for_budget :: "string option \<Rightarrow> budget_db \<Rightarrow> bool" where
  "paused_for_budget agent d \<longleftrightarrow>
     (case agent of None \<Rightarrow> False
      | Some g \<Rightarrow> (case tget pa_id g (bd_agents d) of None \<Rightarrow> False | Some a \<Rightarrow> pa_reason a = Some ''budget''))"

definition block_of :: "budget_policy \<Rightarrow> int \<Rightarrow> invocation_block" where
  "block_of p n = \<lparr>ib_scope_type = bp_scope_type p, ib_scope_id = bp_scope_id p,
     ib_reason = ''token budget exceeded: '' @ int_str n @ '' >= '' @ int_str (bp_ceiling p)
       @ '' ('' @ bp_window_kind p @ '')''\<rparr>"

fun first_over :: "budget_policy list \<Rightarrow> instant \<Rightarrow> mono \<Rightarrow> budget_db \<Rightarrow> observed_cache \<Rightarrow> invocation_block option \<times> observed_cache" where
  "first_over [] now mnow d cache = (None, cache)"
| "first_over (p # ps) now mnow d cache =
     (let (n, cache1) = observed_for_policy p now mnow d cache
      in if bp_ceiling p \<le> n then (Some (block_of p n), cache1) else first_over ps now mnow d cache1)"

definition invocation_block_in_session ::
  "string option \<Rightarrow> string option \<Rightarrow> instant \<Rightarrow> mono \<Rightarrow> budget_db \<Rightarrow> observed_cache \<Rightarrow> invocation_block option \<times> observed_cache" where
  "invocation_block_in_session agent room now mnow d cache =
     (if paused_for_budget agent d
      then (Some \<lparr>ib_scope_type = ''agent'', ib_scope_id = agent, ib_reason = ''agent paused: budget''\<rparr>, cache)
      else first_over (sort_key scope_order (filter (applies agent room) (bd_policies d))) now mnow d cache)"

section \<open>After a call\<close>

definition same_open_incident :: "budget_policy \<Rightarrow> threshold \<Rightarrow> incident \<Rightarrow> bool" where
  "same_open_incident p t i \<longleftrightarrow> in_policy i = bp_id p \<and> in_threshold i = t \<and> in_open i"

definition ensure_open_incident :: "budget_policy \<Rightarrow> instant \<Rightarrow> threshold \<Rightarrow> int \<Rightarrow> budget_db \<Rightarrow> budget_db \<times> bool" where
  "ensure_open_incident p start t n d =
     (if \<exists>i \<in> set (bd_incidents d). same_open_incident p t i then (d, False)
      else (d\<lparr>bd_incidents := bd_incidents d @
              [\<lparr>in_policy = bp_id p, in_scope_type = bp_scope_type p, in_scope_id = bp_scope_id p,
                in_window_start = start, in_threshold = t, in_open = True, in_observed = n\<rparr>]\<rparr>, True))"

definition warn_threshold :: "budget_policy \<Rightarrow> int" where
  "warn_threshold p = (bp_ceiling p * bp_warn_percent p) div 100"

definition pause_agent :: "bool \<Rightarrow> budget_policy \<Rightarrow> budget_db \<times> string option \<Rightarrow> budget_db \<times> string option" where
  "pause_agent lifecycle p s =
     (let (d, to_stop) = s in
      if bp_scope_type p = ''agent'' \<and> bp_scope_id p \<noteq> None \<and> lifecycle then
        (case tget pa_id (the (bp_scope_id p)) (bd_agents d) of
           None \<Rightarrow> s
         | Some a \<Rightarrow>
             if pa_reason a \<noteq> Some ''budget''
             then (d\<lparr>bd_agents := tupd pa_id (the (bp_scope_id p)) (\<lambda>r. r\<lparr>pa_reason := Some ''budget''\<rparr>) (bd_agents d)\<rparr>,
                   bp_scope_id p)
             else s)
      else s)"

definition cost_step :: "bool \<Rightarrow> instant \<Rightarrow> budget_policy \<Rightarrow> budget_db \<times> string option \<Rightarrow> budget_db \<times> string option" where
  "cost_step lifecycle now p s =
     (let (d, to_stop) = s;
          start = window_start (bp_window_kind p) now;
          n = compute_observed_tokens (bp_scope_type p) (bp_scope_id p) start d
      in if bp_ceiling p \<le> n then pause_agent lifecycle p (fst (ensure_open_incident p start Hard n d), to_stop)
         else if warn_threshold p \<le> n then (fst (ensure_open_incident p start Soft n d), to_stop)
         else s)"

definition evaluate_cost_event ::
  "string option \<Rightarrow> string option \<Rightarrow> bool \<Rightarrow> instant \<Rightarrow> budget_db \<Rightarrow> budget_db \<times> string option" where
  "evaluate_cost_event agent room lifecycle now d =
     fold (cost_step lifecycle now) (filter (applies agent room) (bd_policies d)) (d, None)"

section \<open>The refusal decision\<close>

text \<open>What the decision should be: some policy of the call has reached its ceiling now.\<close>

definition over_ceiling :: "instant \<Rightarrow> budget_db \<Rightarrow> budget_policy \<Rightarrow> bool" where
  "over_ceiling now d p \<longleftrightarrow>
     bp_ceiling p \<le> compute_observed_tokens (bp_scope_type p) (bp_scope_id p) (window_start (bp_window_kind p) now) d"

definition policy_key :: "budget_policy \<Rightarrow> string \<times> string option" where
  "policy_key p = (bp_scope_type p, bp_scope_id p)"

text \<open>A cache agrees with a database for the policies of a call: a live entry is what a sum would be.\<close>

definition cache_agrees :: "budget_policy list \<Rightarrow> instant \<Rightarrow> mono \<Rightarrow> budget_db \<Rightarrow> observed_cache \<Rightarrow> bool" where
  "cache_agrees ps now mnow d cache \<longleftrightarrow>
     (\<forall>p \<in> set ps. case cache (policy_key p) of None \<Rightarrow> True
        | Some (n, expires) \<Rightarrow> mnow < expires \<longrightarrow>
            n = compute_observed_tokens (bp_scope_type p) (bp_scope_id p) (window_start (bp_window_kind p) now) d)"

definition one_window_per_scope :: "budget_policy list \<Rightarrow> bool" where
  "one_window_per_scope ps \<longleftrightarrow>
     (\<forall>p \<in> set ps. \<forall>q \<in> set ps. policy_key p = policy_key q \<longrightarrow> bp_window_kind p = bp_window_kind q)"

lemma observed_agrees:
  assumes "cache_agrees ps now mnow d cache" and "one_window_per_scope ps" and "p \<in> set ps"
    and "observed_for_policy p now mnow d cache = (n, cache1)"
  shows "n = compute_observed_tokens (bp_scope_type p) (bp_scope_id p) (window_start (bp_window_kind p) now) d"
    and "cache_agrees ps now mnow d cache1"
proof -
  let ?fresh = "compute_observed_tokens (bp_scope_type p) (bp_scope_id p) (window_start (bp_window_kind p) now) d"
  have store: "cache_agrees ps now mnow d (cache(policy_key p \<mapsto> (?fresh, mnow + CACHE_TTL_SECONDS)))"
    unfolding cache_agrees_def
  proof
    fix q assume q: "q \<in> set ps"
    show "case (cache(policy_key p \<mapsto> (?fresh, mnow + CACHE_TTL_SECONDS))) (policy_key q) of None \<Rightarrow> True
        | Some (n, expires) \<Rightarrow> mnow < expires \<longrightarrow>
            n = compute_observed_tokens (bp_scope_type q) (bp_scope_id q) (window_start (bp_window_kind q) now) d"
    proof (cases "policy_key q = policy_key p")
      case True
      then have "bp_window_kind q = bp_window_kind p" using assms(2,3) q unfolding one_window_per_scope_def by blast
      with True show ?thesis by (simp add: policy_key_def)
    next
      case False
      with assms(1) q show ?thesis by (simp add: cache_agrees_def)
    qed
  qed
  have own: "case cache (policy_key p) of None \<Rightarrow> True | Some (n, expires) \<Rightarrow> mnow < expires \<longrightarrow> n = ?fresh"
    using assms(1,3) by (simp add: cache_agrees_def)
  have eq: "observed_for_policy p now mnow d cache = (case cache (policy_key p) of
      Some (k, expires) \<Rightarrow> if mnow < expires then (k, cache) else (?fresh, cache(policy_key p \<mapsto> (?fresh, mnow + CACHE_TTL_SECONDS)))
    | None \<Rightarrow> (?fresh, cache(policy_key p \<mapsto> (?fresh, mnow + CACHE_TTL_SECONDS))))"
    unfolding observed_for_policy_def Let_def policy_key_def ..
  have res: "(n = ?fresh \<and> cache1 = cache) \<or> (n = ?fresh \<and> cache1 = cache(policy_key p \<mapsto> (?fresh, mnow + CACHE_TTL_SECONDS)))"
    using own assms(4) unfolding eq by (auto split: option.splits if_splits)
  have "n = ?fresh \<and> cache_agrees ps now mnow d cache1" using res assms(1) store by blast
  then show "n = ?fresh" "cache_agrees ps now mnow d cache1" by simp_all
qed

lemma first_over_spec:
  assumes "cache_agrees qs now mnow d cache" and "one_window_per_scope qs" and "set ps \<subseteq> set qs"
  shows "fst (first_over ps now mnow d cache) =
    map_option (\<lambda>p. block_of p (compute_observed_tokens (bp_scope_type p) (bp_scope_id p) (window_start (bp_window_kind p) now) d))
      (find (over_ceiling now d) ps)"
  using assms
proof (induction ps arbitrary: cache)
  case (Cons p ps)
  obtain n cache1 where o: "observed_for_policy p now mnow d cache = (n, cache1)" by fastforce
  have p: "p \<in> set qs" using Cons.prems by simp
  note a = observed_agrees [OF Cons.prems(1,2) p o]
  show ?case
  proof (cases "bp_ceiling p \<le> n")
    case True
    with o a(1) show ?thesis by (simp add: over_ceiling_def)
  next
    case False
    with o a Cons.IH [OF a(2) Cons.prems(2)] Cons.prems(3) show ?thesis by (simp add: over_ceiling_def)
  qed
qed simp


text \<open>
  The rows the refusal itself writes (status 429) never count, so a refusal cannot keep itself up.
\<close>

lemma refusals_do_not_count:
  assumes "\<forall>u \<in> set us. 400 \<le> us_status u"
  shows "compute_observed_tokens t i start (d\<lparr>bd_usage := bd_usage d @ us\<rparr>) = compute_observed_tokens t i start d"
proof -
  have "filter (counts_for t i start) us = []" using assms by (auto simp: filter_empty_conv counts_for_def)
  then show ?thesis by (simp add: compute_observed_tokens_def)
qed

definition night_policy :: budget_policy where
  "night_policy = \<lparr>bp_id = ''b1'', bp_scope_type = ''global'', bp_scope_id = None, bp_window_kind = ''calendar_day_utc'',
     bp_ceiling = 100, bp_warn_percent = 80, bp_active = True, bp_hard_stop = True\<rparr>"

definition rolling_policy :: budget_policy where
  "rolling_policy = night_policy\<lparr>bp_id := ''b2'', bp_window_kind := ''rolling_24h'', bp_ceiling := 50\<rparr>"

text \<open>60 tokens an hour before midnight, seen an hour after midnight.\<close>

definition midnight_db :: budget_db where
  "midnight_db = \<lparr>bd_usage = [\<lparr>us_agent = Some ''g1'', us_room = None, us_time = 82800000000, us_status = 200,
       us_prompt = Some 60, us_completion = None\<rparr>],
     bd_policies = [night_policy, rolling_policy], bd_incidents = [], bd_agents = [\<lparr>pa_id = ''g1'', pa_reason = None\<rparr>]\<rparr>"


text \<open>
  The cache key leaves out the window kind: with two global policies of different windows, the sum
  of the calendar day is used for the rolling day, and a call over the rolling ceiling passes.
\<close>

lemma shared_cache_key_misses:
  "over_ceiling 90000000000 midnight_db rolling_policy \<and> applies (Some ''g1'') None rolling_policy
   \<and> rolling_policy \<in> set (bd_policies midnight_db)
   \<and> fst (invocation_block_in_session (Some ''g1'') None 90000000000 0 midnight_db Map.empty) = None"
proof -
  have a: "filter (applies (Some ''g1'') None) (bd_policies midnight_db) = [night_policy, rolling_policy]"
    by (simp add: midnight_db_def applies_def rolling_policy_def night_policy_def)
  have s: "sort_key scope_order [night_policy, rolling_policy] = [night_policy, rolling_policy]"
    by (simp add: scope_order_def rolling_policy_def night_policy_def)
  have n: "observed_for_policy night_policy 90000000000 0 midnight_db Map.empty = (0, [(''global'', None) \<mapsto> (0, 8)])"
    by (simp add: observed_for_policy_def night_policy_def midnight_db_def compute_observed_tokens_def
        counts_for_def window_start_def)
  have r: "observed_for_policy rolling_policy 90000000000 0 midnight_db [(''global'', None) \<mapsto> (0, 8)] = (0, [(''global'', None) \<mapsto> (0, 8)])"
    by (simp add: observed_for_policy_def rolling_policy_def night_policy_def)
  have "fst (invocation_block_in_session (Some ''g1'') None 90000000000 0 midnight_db Map.empty) = None"
    unfolding invocation_block_in_session_def a s
    by (simp add: paused_for_budget_def n r) (simp add: midnight_db_def rolling_policy_def night_policy_def)
  then show ?thesis
    by (simp add: over_ceiling_def rolling_policy_def night_policy_def midnight_db_def compute_observed_tokens_def
        counts_for_def window_start_def tokens_or_zero_def applies_def)
qed

section \<open>Incidents\<close>

definition incident_key :: "incident \<Rightarrow> string \<times> threshold" where
  "incident_key i = (in_policy i, in_threshold i)"

definition incidents_unique :: "budget_db \<Rightarrow> bool" where
  "incidents_unique d \<longleftrightarrow> distinct (map incident_key (filter in_open (bd_incidents d)))"

definition has_open :: "budget_policy \<Rightarrow> threshold \<Rightarrow> budget_db \<Rightarrow> bool" where
  "has_open p t d \<longleftrightarrow> (\<exists>i \<in> set (bd_incidents d). same_open_incident p t i)"

definition warned :: "instant \<Rightarrow> budget_db \<Rightarrow> budget_policy \<Rightarrow> bool" where
  "warned now d p \<longleftrightarrow> \<not> over_ceiling now d p \<and>
     warn_threshold p \<le> compute_observed_tokens (bp_scope_type p) (bp_scope_id p) (window_start (bp_window_kind p) now) d"

definition agent_scope :: "budget_policy \<Rightarrow> string \<Rightarrow> bool" where
  "agent_scope p g \<longleftrightarrow> bp_scope_type p = ''agent'' \<and> bp_scope_id p = Some g"

definition handled :: "bool \<Rightarrow> instant \<Rightarrow> budget_policy \<Rightarrow> budget_db \<Rightarrow> bool" where
  "handled lifecycle now p d \<longleftrightarrow>
     (over_ceiling now d p \<longrightarrow> has_open p Hard d
        \<and> (\<forall>g a. lifecycle \<and> agent_scope p g \<and> tget pa_id g (bd_agents d) = Some a \<longrightarrow> pa_reason a = Some ''budget''))
     \<and> (warned now d p \<longrightarrow> has_open p Soft d)"

lemma ensure_cases:
  assumes "ensure_open_incident p start t n d = (d1, created)"
  shows "has_open p t d1" "\<exists>is. bd_incidents d1 = bd_incidents d @ is" "bd_usage d1 = bd_usage d"
    "bd_agents d1 = bd_agents d" "bd_policies d1 = bd_policies d" "incidents_unique d \<Longrightarrow> incidents_unique d1"
    "has_open p t d \<Longrightarrow> d1 = d"
proof -
  show "has_open p t d1" "\<exists>is. bd_incidents d1 = bd_incidents d @ is" "bd_usage d1 = bd_usage d"
    "bd_agents d1 = bd_agents d" "bd_policies d1 = bd_policies d" "has_open p t d \<Longrightarrow> d1 = d"
    using assms by (auto simp: ensure_open_incident_def has_open_def same_open_incident_def split: if_splits)
  show "incidents_unique d1" if u: "incidents_unique d"
  proof (cases "has_open p t d")
    case True
    then show ?thesis using assms u by (auto simp: ensure_open_incident_def has_open_def)
  next
    case False
    then have "(bp_id p, t) \<notin> incident_key ` set (filter in_open (bd_incidents d))"
      by (auto simp: has_open_def same_open_incident_def incident_key_def)
    moreover have "map incident_key (filter in_open (bd_incidents d1)) =
        map incident_key (filter in_open (bd_incidents d)) @ [(bp_id p, t)]"
      using assms False by (auto simp: ensure_open_incident_def has_open_def incident_key_def)
    ultimately show ?thesis using u by (simp add: incidents_unique_def)
  qed
qed

lemma observed_usage: "bd_usage d1 = bd_usage d \<Longrightarrow> over_ceiling now d1 p = over_ceiling now d p \<and> warned now d1 p = warned now d p"
  by (simp add: over_ceiling_def warned_def compute_observed_tokens_def)

lemma pause_agent_facts:
  assumes "pause_agent lifecycle p (d, x) = (d1, y)"
  shows "bd_usage d1 = bd_usage d" "bd_incidents d1 = bd_incidents d" "bd_policies d1 = bd_policies d"
    "\<And>g. tget pa_id g (bd_agents d1) = tget pa_id g (bd_agents d) \<or>
       (lifecycle \<and> agent_scope p g \<and> (\<exists>a. tget pa_id g (bd_agents d1) = Some a \<and> pa_reason a = Some ''budget''))"
    "\<And>g a. lifecycle \<Longrightarrow> agent_scope p g \<Longrightarrow> tget pa_id g (bd_agents d1) = Some a \<Longrightarrow> pa_reason a = Some ''budget''"
    "(\<And>g a. lifecycle \<Longrightarrow> agent_scope p g \<Longrightarrow> tget pa_id g (bd_agents d) = Some a \<Longrightarrow> pa_reason a = Some ''budget'') \<Longrightarrow> d1 = d \<and> y = x"
    "y = x \<or> (lifecycle \<and> (\<exists>g. agent_scope p g \<and> y = Some g))"
proof -
  let ?g = "the (bp_scope_id p)" and ?f = "\<lambda>r. r\<lparr>pa_reason := Some ''budget''\<rparr>"
  have upd: "tget pa_id k (tupd pa_id g ?f as) = (if k = g then map_option ?f (tget pa_id g as) else tget pa_id k as)" for k g as
    by (rule tget_tupd) simp
  note all = assms [unfolded pause_agent_def Let_def prod.case]
  show "bd_usage d1 = bd_usage d" "bd_incidents d1 = bd_incidents d" "bd_policies d1 = bd_policies d"
    using all by (auto split: if_splits option.splits)
  show "tget pa_id g (bd_agents d1) = tget pa_id g (bd_agents d) \<or>
       (lifecycle \<and> agent_scope p g \<and> (\<exists>a. tget pa_id g (bd_agents d1) = Some a \<and> pa_reason a = Some ''budget''))" for g
    using all by (cases "g = ?g") (auto simp: upd agent_scope_def split: if_splits option.splits)
  show "pa_reason a = Some ''budget''" if "lifecycle" "agent_scope p g" "tget pa_id g (bd_agents d1) = Some a" for g a
    using all that by (auto simp: upd agent_scope_def split: if_splits option.splits)
  show "d1 = d \<and> y = x"
    if "\<And>g a. lifecycle \<Longrightarrow> agent_scope p g \<Longrightarrow> tget pa_id g (bd_agents d) = Some a \<Longrightarrow> pa_reason a = Some ''budget''"
    using all that [of ?g] by (auto simp: agent_scope_def split: if_splits option.splits)
  show "y = x \<or> (lifecycle \<and> (\<exists>g. agent_scope p g \<and> y = Some g))"
    using all by (auto simp: agent_scope_def split: if_splits option.splits)
qed

lemma cost_step_facts:
  assumes "cost_step lifecycle now p (d, x) = (d1, y)"
  shows "bd_usage d1 = bd_usage d" "bd_policies d1 = bd_policies d" "\<exists>is. bd_incidents d1 = bd_incidents d @ is"
    "incidents_unique d \<Longrightarrow> incidents_unique d1"
    "\<And>g. tget pa_id g (bd_agents d1) = tget pa_id g (bd_agents d) \<or>
       (lifecycle \<and> over_ceiling now d p \<and> agent_scope p g \<and> (\<exists>a. tget pa_id g (bd_agents d1) = Some a \<and> pa_reason a = Some ''budget''))"
    "handled lifecycle now p d1" "handled lifecycle now p d \<Longrightarrow> d1 = d \<and> y = x"
    "y = x \<or> (lifecycle \<and> (\<exists>g. agent_scope p g \<and> y = Some g))"
proof -
  let ?n = "compute_observed_tokens (bp_scope_type p) (bp_scope_id p) (window_start (bp_window_kind p) now) d"
  let ?start = "window_start (bp_window_kind p) now"
  consider (over) "over_ceiling now d p" | (warn) "warned now d p" | (quiet) "\<not> over_ceiling now d p" "\<not> warned now d p" by blast
  then have "bd_usage d1 = bd_usage d \<and> bd_policies d1 = bd_policies d \<and> (\<exists>is. bd_incidents d1 = bd_incidents d @ is)
    \<and> (incidents_unique d \<longrightarrow> incidents_unique d1)
    \<and> (\<forall>g. tget pa_id g (bd_agents d1) = tget pa_id g (bd_agents d) \<or>
       (lifecycle \<and> over_ceiling now d p \<and> agent_scope p g \<and> (\<exists>a. tget pa_id g (bd_agents d1) = Some a \<and> pa_reason a = Some ''budget'')))
    \<and> handled lifecycle now p d1 \<and> (handled lifecycle now p d \<longrightarrow> d1 = d \<and> y = x)
    \<and> (y = x \<or> (lifecycle \<and> (\<exists>g. agent_scope p g \<and> y = Some g)))"
  proof cases
    case over
    obtain d2 cr where e: "ensure_open_incident p ?start Hard ?n d = (d2, cr)" by fastforce
    note ef = ensure_cases [OF e]
    have pa: "pause_agent lifecycle p (d2, x) = (d1, y)"
      using assms over e by (simp add: cost_step_def Let_def over_ceiling_def)
    note pf = pause_agent_facts [OF pa]
    have usage: "bd_usage d1 = bd_usage d" using ef(3) pf(1) by simp
    have o1: "over_ceiling now d1 p" "\<not> warned now d1 p" using over observed_usage [OF usage] by (auto simp: warned_def)
    have "has_open p Hard d1" using ef(1) pf(2) by (simp add: has_open_def)
    then have "handled lifecycle now p d1" using o1 pf(5) by (auto simp: handled_def)
    moreover have "d1 = d \<and> y = x" if h: "handled lifecycle now p d"
    proof -
      have "d2 = d" using ef(7) h over by (auto simp: handled_def)
      then show ?thesis using pf(6) h over by (auto simp: handled_def)
    qed
    moreover have "incidents_unique d1" if "incidents_unique d" using ef(6) [OF that] pf(2) by (simp add: incidents_unique_def)
    moreover have "\<exists>is. bd_incidents d1 = bd_incidents d @ is" using ef(2) pf(2) by simp
    moreover have "bd_policies d1 = bd_policies d" using ef(5) pf(3) by simp
    moreover have "tget pa_id g (bd_agents d1) = tget pa_id g (bd_agents d) \<or>
       (lifecycle \<and> over_ceiling now d p \<and> agent_scope p g \<and> (\<exists>a. tget pa_id g (bd_agents d1) = Some a \<and> pa_reason a = Some ''budget''))" for g
      using pf(4) [of g] over ef(4) by simp
    ultimately show ?thesis using usage pf(7) by blast
  next
    case warn
    then have "\<not> bp_ceiling p \<le> ?n" "warn_threshold p \<le> ?n" by (simp_all add: warned_def over_ceiling_def)
    then obtain cr where e: "ensure_open_incident p ?start Soft ?n d = (d1, cr)" and y: "y = x"
      using assms by (cases "ensure_open_incident p ?start Soft ?n d") (simp add: cost_step_def Let_def)
    note ef = ensure_cases [OF e]
    have "handled lifecycle now p d1" using observed_usage [OF ef(3)] ef(1) warn by (auto simp: handled_def warned_def)
    then show ?thesis using ef y warn by (auto simp: handled_def)
  next
    case quiet
    then have "\<not> bp_ceiling p \<le> ?n" "\<not> warn_threshold p \<le> ?n" by (simp_all add: warned_def over_ceiling_def)
    then have "d1 = d \<and> y = x" using assms by (simp add: cost_step_def Let_def)
    then show ?thesis using quiet by (auto simp: handled_def)
  qed
  then show "bd_usage d1 = bd_usage d" "bd_policies d1 = bd_policies d" "\<exists>is. bd_incidents d1 = bd_incidents d @ is"
    "incidents_unique d \<Longrightarrow> incidents_unique d1"
    "\<And>g. tget pa_id g (bd_agents d1) = tget pa_id g (bd_agents d) \<or>
       (lifecycle \<and> over_ceiling now d p \<and> agent_scope p g \<and> (\<exists>a. tget pa_id g (bd_agents d1) = Some a \<and> pa_reason a = Some ''budget''))"
    "handled lifecycle now p d1" "handled lifecycle now p d \<Longrightarrow> d1 = d \<and> y = x"
    "y = x \<or> (lifecycle \<and> (\<exists>g. agent_scope p g \<and> y = Some g))"
    by blast+
qed

lemma handled_mono:
  assumes "cost_step lifecycle now p (d, x) = (d1, y)" and "handled lifecycle now q d"
  shows "handled lifecycle now q d1"
proof -
  note f = cost_step_facts [OF assms(1)]
  have "has_open q t d1" if "has_open q t d" for t using that f(3) by (auto simp: has_open_def)
  moreover have "pa_reason a = Some ''budget''"
    if "over_ceiling now d q" "lifecycle" "agent_scope q g" "tget pa_id g (bd_agents d1) = Some a" for g a
    using f(5) [of g] that assms(2) by (auto simp: handled_def)
  ultimately show ?thesis using assms(2) observed_usage [OF f(1)] by (auto simp: handled_def)
qed

lemma cost_fold_facts:
  assumes "fold (cost_step lifecycle now) ps (d, x) = (d1, y)"
  shows "bd_usage d1 = bd_usage d \<and> bd_policies d1 = bd_policies d \<and> (\<exists>is. bd_incidents d1 = bd_incidents d @ is)
    \<and> (incidents_unique d \<longrightarrow> incidents_unique d1)
    \<and> (\<forall>g. tget pa_id g (bd_agents d1) = tget pa_id g (bd_agents d) \<or>
       (lifecycle \<and> (\<exists>p \<in> set ps. over_ceiling now d p \<and> agent_scope p g)
         \<and> (\<exists>a. tget pa_id g (bd_agents d1) = Some a \<and> pa_reason a = Some ''budget'')))
    \<and> (\<forall>p. p \<in> set ps \<or> handled lifecycle now p d \<longrightarrow> handled lifecycle now p d1)"
  using assms
proof (induction ps arbitrary: d x)
  case (Cons p ps)
  obtain d2 z where s: "cost_step lifecycle now p (d, x) = (d2, z)" by fastforce
  with Cons.prems have r: "fold (cost_step lifecycle now) ps (d2, z) = (d1, y)" by simp
  note f = cost_step_facts [OF s] and IH = Cons.IH [OF r]
  have o: "over_ceiling now d2 q = over_ceiling now d q" for q using observed_usage [OF f(1)] by simp
  have h: "handled lifecycle now q d1" if "q \<in> set (p # ps) \<or> handled lifecycle now q d" for q
    using that IH f(6) handled_mono [OF s] by auto
  have g: "tget pa_id g (bd_agents d1) = tget pa_id g (bd_agents d) \<or>
       (lifecycle \<and> (\<exists>q \<in> set (p # ps). over_ceiling now d q \<and> agent_scope q g)
         \<and> (\<exists>a. tget pa_id g (bd_agents d1) = Some a \<and> pa_reason a = Some ''budget''))" for g
    using f(5) [of g] IH o by (metis list.set_intros(1,2))
  have "\<exists>is. bd_incidents d1 = bd_incidents d @ is" using f(3) IH by auto
  then show ?case using f(1,2,4) IH h g by simp
qed auto

lemma cost_fold_handled:
  "(\<And>p. p \<in> set ps \<Longrightarrow> handled lifecycle now p d) \<Longrightarrow> fold (cost_step lifecycle now) ps (d, x) = (d, x)"
proof (induction ps)
  case (Cons p ps)
  obtain d2 z where s: "cost_step lifecycle now p (d, x) = (d2, z)" by fastforce
  have "d2 = d \<and> z = x" using cost_step_facts(7) [OF s] Cons.prems by simp
  with s Cons show ?case by simp
qed simp

text \<open>
  After a call, every policy of its scopes that has reached its ceiling has an open hard
  incident and every one at its warning level an open soft one, and no policy ever has two open
  incidents of one kind, however often it is breached. Only the agent of a breached agent scope is
  paused (never on a room or global breach, never without a lifecycle), and evaluating the same
  state again changes nothing and stops nobody.
\<close>

theorem cost_event_effect:
  assumes "incidents_unique d" and "evaluate_cost_event agent room lifecycle now d = (d1, stop)"
  shows "incidents_unique d1
    \<and> (\<forall>p \<in> set (bd_policies d). applies agent room p \<longrightarrow>
         (over_ceiling now d p \<longrightarrow> has_open p Hard d1) \<and> (warned now d p \<longrightarrow> has_open p Soft d1))
    \<and> (\<exists>is. bd_incidents d1 = bd_incidents d @ is)
    \<and> (\<forall>g. tget pa_id g (bd_agents d1) = tget pa_id g (bd_agents d) \<or>
         (lifecycle \<and> (\<exists>p \<in> set (bd_policies d). applies agent room p \<and> over_ceiling now d p \<and> agent_scope p g)
           \<and> (\<exists>a. tget pa_id g (bd_agents d1) = Some a \<and> pa_reason a = Some ''budget'')))
    \<and> evaluate_cost_event agent room lifecycle now d1 = (d1, None)"
proof -
  let ?ps = "filter (applies agent room) (bd_policies d)"
  note f = cost_fold_facts [OF assms(2) [unfolded evaluate_cost_event_def]]
  have h: "handled lifecycle now p d1" if "p \<in> set ?ps" for p using f that by blast
  have "evaluate_cost_event agent room lifecycle now d1 = (d1, None)"
    using cost_fold_handled [of ?ps lifecycle now d1 None] h f by (simp add: evaluate_cost_event_def)
  moreover have "(over_ceiling now d p \<longrightarrow> has_open p Hard d1) \<and> (warned now d p \<longrightarrow> has_open p Soft d1)"
    if "p \<in> set (bd_policies d)" "applies agent room p" for p
    using h [of p] that observed_usage [of d1 d now p] f by (auto simp: handled_def)
  moreover have "tget pa_id g (bd_agents d1) = tget pa_id g (bd_agents d) \<or>
         (lifecycle \<and> (\<exists>p \<in> set (bd_policies d). applies agent room p \<and> over_ceiling now d p \<and> agent_scope p g)
           \<and> (\<exists>a. tget pa_id g (bd_agents d1) = Some a \<and> pa_reason a = Some ''budget''))" for g
    using f by fastforce
  ultimately show ?thesis using f assms(1) by blast
qed

lemma cost_event_effect_witness:
  "\<exists>d1 stop. evaluate_cost_event (Some ''g1'') None True 90000000000 (midnight_db\<lparr>bd_policies := [rolling_policy]\<rparr>) = (d1, stop)
     \<and> incidents_unique d1 \<and> has_open rolling_policy Hard d1"
proof -
  let ?d = "midnight_db\<lparr>bd_policies := [rolling_policy]\<rparr>"
  obtain d1 stop where e: "evaluate_cost_event (Some ''g1'') None True 90000000000 ?d = (d1, stop)" by fastforce
  have u: "incidents_unique ?d" by (simp add: incidents_unique_def midnight_db_def)
  have "over_ceiling 90000000000 ?d rolling_policy" "applies (Some ''g1'') None rolling_policy"
    by (simp_all add: over_ceiling_def rolling_policy_def night_policy_def midnight_db_def compute_observed_tokens_def
        counts_for_def window_start_def tokens_or_zero_def applies_def)
  with cost_event_effect [OF u e] e show ?thesis by simp
qed

end
