(* ===== verification/PeerCalls.thy ===== *)
theory PeerCalls
  imports PyValues
begin

text \<open>
  Who a message calls, and the brakes on agents calling each other: mention parsing, the expansion
  of room-wide calls, the peer safety net with its hand-off budget, typing state
  (orchestration/rules.py) and the repetition guard of the agents
  (agent/integrations/cycle_guard.py).

  A mention dict of the code is a value of \<open>mention\<close>; the regular expressions are written out as
  scanners over Latin-1 text. The SHA-1 of a message is a parameter.
\<close>

section \<open>Characters\<close>

text \<open>\<open>\w\<close>, and the case folding of \<open>re.IGNORECASE\<close>, on Latin-1.\<close>

definition word_char :: "char \<Rightarrow> bool" where
  "word_char c \<longleftrightarrow> (let n = of_char c :: nat in
     (48 \<le> n \<and> n \<le> 57) \<or> (65 \<le> n \<and> n \<le> 90) \<or> n = 95 \<or> (97 \<le> n \<and> n \<le> 122)
     \<or> n \<in> {170, 178, 179, 181, 185, 186, 188, 189, 190} \<or> (192 \<le> n \<and> n \<le> 214) \<or> (216 \<le> n \<and> n \<le> 246) \<or> 248 \<le> n)"

definition lower_char :: "char \<Rightarrow> char" where
  "lower_char c = (let n = of_char c :: nat in
     if (65 \<le> n \<and> n \<le> 90) \<or> (192 \<le> n \<and> n \<le> 214) \<or> (216 \<le> n \<and> n \<le> 222) then char_of (n + 32) else c)"

definition name_char :: "char \<Rightarrow> bool" where
  "name_char c \<longleftrightarrow> word_char c \<or> c = CHR ''-''"

definition after_word :: "char option \<Rightarrow> bool" where
  "after_word prev \<longleftrightarrow> (case prev of None \<Rightarrow> False | Some c \<Rightarrow> word_char c)"

fun prefix_of :: "string \<Rightarrow> string \<Rightarrow> bool" where
  "prefix_of [] s \<longleftrightarrow> True"
| "prefix_of (p # ps) [] \<longleftrightarrow> False"
| "prefix_of (p # ps) (c # cs) \<longleftrightarrow> p = c \<and> prefix_of ps cs"

lemma prefix_of_conv: "prefix_of p s \<longleftrightarrow> (\<exists>r. s = p @ r)"
  by (induction p s rule: prefix_of.induct) auto

section \<open>Mentions\<close>

datatype mention = MUser string "string option" | MRoom string | MLegacy string | MEveryone

text \<open>A token \<open>open\<close>, at least one character other than \<open>>\<close>, then \<open>>\<close>: its inside and the rest.\<close>

definition bracketed :: "string \<Rightarrow> string \<Rightarrow> (string \<times> string) option" where
  "bracketed lead s =
     (if prefix_of lead s then
        (let r = drop (length lead) s; inside = takeWhile (\<lambda>c. c \<noteq> CHR ''>'') r; rest = dropWhile (\<lambda>c. c \<noteq> CHR ''>'') r
         in if inside \<noteq> [] \<and> rest \<noteq> [] then Some (inside, tl rest) else None)
      else None)"

definition user_token :: "string \<Rightarrow> (string \<times> string) option" where
  "user_token s = bracketed ''<@user:'' s"

definition room_token :: "string \<Rightarrow> (string \<times> string) option" where
  "room_token s = bracketed ''<#room:'' s"

lemma bracketed_Some:
  assumes "bracketed lead s = Some (i, rest)"
  shows "s = lead @ i @ CHR ''>'' # rest" "i \<noteq> []" "CHR ''>'' \<notin> set i"
proof -
  obtain r where s: "s = lead @ r" using assms by (auto simp: bracketed_def prefix_of_conv split: if_splits)
  have i: "i = takeWhile (\<lambda>c. c \<noteq> CHR ''>'') r" "i \<noteq> []" and d: "dropWhile (\<lambda>c. c \<noteq> CHR ''>'') r \<noteq> []"
    "rest = tl (dropWhile (\<lambda>c. c \<noteq> CHR ''>'') r)"
    using assms by (auto simp: bracketed_def s Let_def prefix_of_conv split: if_splits)
  have hd: "hd (dropWhile (\<lambda>c. c \<noteq> CHR ''>'') r) = CHR ''>''" using hd_dropWhile [OF d(1)] by simp
  have "dropWhile (\<lambda>c. c \<noteq> CHR ''>'') r = CHR ''>'' # rest"
    using d hd by (cases "dropWhile (\<lambda>c. c \<noteq> CHR ''>'') r") simp_all
  moreover have "r = takeWhile (\<lambda>c. c \<noteq> CHR ''>'') r @ dropWhile (\<lambda>c. c \<noteq> CHR ''>'') r" by simp
  ultimately have "r = i @ CHR ''>'' # rest" using i(1) by simp
  then show "s = lead @ i @ CHR ''>'' # rest" using s by simp
  show "i \<noteq> []" "CHR ''>'' \<notin> set i" using i by (auto dest: set_takeWhileD)
qed

lemma bracketed_append:
  assumes "i \<noteq> []" and "CHR ''>'' \<notin> set i"
  shows "bracketed lead (lead @ i @ CHR ''>'' # rest) = Some (i, rest)"
proof -
  have "takeWhile (\<lambda>c. c \<noteq> CHR ''>'') (i @ CHR ''>'' # rest) = i" "dropWhile (\<lambda>c. c \<noteq> CHR ''>'') (i @ CHR ''>'' # rest) = CHR ''>'' # rest"
    using assms(2) by (auto simp: takeWhile_append dropWhile_append)
  then show ?thesis using assms(1) by (simp add: bracketed_def prefix_of_conv)
qed

lemma bracketed_shorter [termination_simp]:
  "bracketed lead (c # cs) = Some (i, rest) \<Longrightarrow> length rest < Suc (length cs)"
  by (drule bracketed_Some(1)) (metis Suc_le_eq append_Cons append_assoc length_Cons length_append le_add2)

lemma token_shorter [termination_simp]:
  "user_token (c # cs) = Some (i, rest) \<Longrightarrow> length rest < Suc (length cs)"
  "room_token (c # cs) = Some (i, rest) \<Longrightarrow> length rest < Suc (length cs)"
  by (simp_all add: user_token_def room_token_def bracketed_shorter)

lemma length_dropWhile_Suc [termination_simp]: "length (dropWhile P cs) < Suc (length cs)"
  by (simp add: le_imp_less_Suc length_dropWhile_le)

fun id_mentions :: "string \<Rightarrow> mention list" where
  "id_mentions [] = []"
| "id_mentions (c # cs) =
     (case user_token (c # cs) of
        Some (i, rest) \<Rightarrow> MUser i None # id_mentions rest
      | None \<Rightarrow>
          (case room_token (c # cs) of
             Some (i, rest) \<Rightarrow> MRoom i # id_mentions rest
           | None \<Rightarrow> id_mentions cs))"

fun legacy_names :: "char option \<Rightarrow> string \<Rightarrow> string list" where
  "legacy_names prev [] = []"
| "legacy_names prev (c # cs) =
     (let name = takeWhile name_char cs
      in if c = CHR ''@'' \<and> \<not> after_word prev \<and> name \<noteq> []
         then name # legacy_names (Some (last name)) (dropWhile name_char cs)
         else legacy_names (Some c) cs)"

definition ends_name :: "string \<Rightarrow> bool" where
  "ends_name s \<longleftrightarrow> s = [] \<or> \<not> name_char (hd s)"

fun everyone_in :: "char option \<Rightarrow> string \<Rightarrow> bool" where
  "everyone_in prev [] \<longleftrightarrow> False"
| "everyone_in prev (c # cs) \<longleftrightarrow>
     (\<not> after_word prev \<and> prefix_of ''@everyone'' (c # cs) \<and> ends_name (drop 9 (c # cs))) \<or> everyone_in (Some c) cs"

definition parse_mentions :: "string \<Rightarrow> mention list" where
  "parse_mentions content =
     (let ids = id_mentions content;
          room = (if everyone_in None content then [MEveryone] else []);
          legacy = (if ids = [] then map MLegacy (filter (\<lambda>n. n \<noteq> ''everyone'') (legacy_names None content)) else [])
      in ids @ room @ legacy)"

section \<open>Room-wide calls\<close>

definition is_user :: "mention \<Rightarrow> bool" where
  "is_user m \<longleftrightarrow> (case m of MUser _ _ \<Rightarrow> True | _ \<Rightarrow> False)"

definition is_legacy :: "mention \<Rightarrow> bool" where
  "is_legacy m \<longleftrightarrow> (case m of MLegacy _ \<Rightarrow> True | _ \<Rightarrow> False)"

fun called_users :: "mention list \<Rightarrow> string list" where
  "called_users [] = []"
| "called_users (MUser i _ # ms) = i # called_users ms"
| "called_users (_ # ms) = called_users ms"

fun call_everyone :: "string option \<Rightarrow> string list \<Rightarrow> string list \<Rightarrow> mention list" where
  "call_everyone sender seen [] = []"
| "call_everyone sender seen (p # ps) =
     (if Some p = sender \<or> p \<in> set seen then call_everyone sender seen ps
      else MUser p (Some ''everyone'') # call_everyone sender (p # seen) ps)"

definition expand_room_mentions :: "mention list \<Rightarrow> string list \<Rightarrow> string option \<Rightarrow> bool \<Rightarrow> bool \<Rightarrow> mention list" where
  "expand_room_mentions ms agents sender human thread_reply =
     (if MEveryone \<in> set ms then
        (let kept = filter (\<lambda>m. m \<noteq> MEveryone) ms in kept @ call_everyone sender (called_users kept) agents)
      else if human \<and> \<not> thread_reply \<and> length agents = 1 \<and> \<not> (\<exists>m \<in> set ms. is_user m \<or> is_legacy m)
      then ms @ [MUser (hd agents) (Some ''sole_agent'')]
      else ms)"

fun name_at :: "string \<Rightarrow> string \<Rightarrow> bool" where
  "name_at [] s \<longleftrightarrow> s = [] \<or> \<not> (word_char (hd s) \<or> hd s = CHR '':'')"
| "name_at (n # ns) [] \<longleftrightarrow> False"
| "name_at (n # ns) (c # cs) \<longleftrightarrow> lower_char n = lower_char c \<and> name_at ns cs"

fun name_in :: "string \<Rightarrow> string \<Rightarrow> bool" where
  "name_in name [] \<longleftrightarrow> False"
| "name_in name (c # cs) \<longleftrightarrow> (c = CHR ''@'' \<and> name_at name cs) \<or> name_in name cs"

definition names_agent_in_content :: "string option \<Rightarrow> string \<Rightarrow> bool" where
  "names_agent_in_content agent_name content \<longleftrightarrow>
     (case agent_name of None \<Rightarrow> False | Some n \<Rightarrow> n \<noteq> [] \<and> name_in n content)"

section \<open>The peer safety net\<close>

abbreviation MAX_PEER_DEPTH :: int where "MAX_PEER_DEPTH \<equiv> 1"
abbreviation MAX_TOTAL_PEER_HANDOFFS_PER_USER_TURN :: int where "MAX_TOTAL_PEER_HANDOFFS_PER_USER_TURN \<equiv> 8"

definition is_peer_mention :: "mention \<Rightarrow> string option \<Rightarrow> (string \<rightharpoonup> string) \<Rightarrow> bool" where
  "is_peer_mention m sender_agent participants \<longleftrightarrow>
     (case m of
        MUser pid _ \<Rightarrow> (case participants pid of None \<Rightarrow> False | Some g \<Rightarrow> sender_agent \<noteq> Some g)
      | _ \<Rightarrow> False)"

text \<open>\<open>int(v)\<close>: numbers are truncated, strings parsed as decimal with single underscores.\<close>

definition digit_val :: "char \<Rightarrow> int" where
  "digit_val c = int (of_char c) - 48"

definition is_digit :: "char \<Rightarrow> bool" where
  "is_digit c \<longleftrightarrow> 0 \<le> digit_val c \<and> digit_val c \<le> 9"

fun digits_ok :: "string \<Rightarrow> bool" where
  "digits_ok [] \<longleftrightarrow> False"
| "digits_ok [c] \<longleftrightarrow> is_digit c"
| "digits_ok (c # d # s) \<longleftrightarrow> is_digit c \<and> (if d = CHR ''_'' then digits_ok s else digits_ok (d # s))"

definition int_of_str :: "string \<Rightarrow> py_exc + int" where
  "int_of_str s =
     (let t = strip s; neg = (t \<noteq> [] \<and> hd t = CHR ''-'');
          body = (if t \<noteq> [] \<and> (hd t = CHR ''-'' \<or> hd t = CHR ''+'') then tl t else t);
          ds = filter (\<lambda>c. c \<noteq> CHR ''_'') body
      in if digits_ok body \<and> length ds \<le> 4300
         then (let n = foldl (\<lambda>a c. 10 * a + digit_val c) 0 ds in Inr (if neg then - n else n))
         else Inl ValueError)"

fun py_int :: "pyval \<Rightarrow> py_exc + int" where
  "py_int (PInt n) = Inr n"
| "py_int (PBool b) = Inr (if b then 1 else 0)"
| "py_int (PFloat f) = int_of_float f"
| "py_int (PStr s) = int_of_str s"
| "py_int _ = Inl TypeError"

definition compute_outbound_peer_depth :: "(string \<times> pyval) list option \<Rightarrow> py_exc + int" where
  "compute_outbound_peer_depth metadata =
     (case metadata of
        None \<Rightarrow> Inr 0
      | Some d \<Rightarrow>
          if d = [] then Inr 0
          else (case py_int (dget d ''peer_depth'') of
                  Inr depth \<Rightarrow> Inr (if 0 \<le> depth then depth + 1 else 0)
                | Inl e \<Rightarrow> if e \<in> {TypeError, ValueError} then Inr 0 else Inl e))"

lemma dropWhile_space_shorter [termination_simp]:
  assumes "user_token (dropWhile py_space (c # cs)) = Some (i, rest)"
  shows "length (dropWhile P rest) < Suc (length cs)" "length rest < Suc (length cs)"
proof -
  have "dropWhile py_space (c # cs) = ''<@user:'' @ i @ CHR ''>'' # rest"
    by (rule bracketed_Some(1) [OF assms [unfolded user_token_def]])
  then have "length rest < length (dropWhile py_space (c # cs))" by simp
  also have "\<dots> \<le> length (c # cs)" by (rule length_dropWhile_le)
  finally show "length rest < Suc (length cs)" by simp
  then show "length (dropWhile P rest) < Suc (length cs)" using length_dropWhile_le [of P rest] by simp
qed

text \<open>\<open>re.sub\<close> of a token with the white space around it; a kept token keeps its text.\<close>

fun strip_tokens :: "string list \<Rightarrow> string \<Rightarrow> string" where
  "strip_tokens pids [] = []"
| "strip_tokens pids (c # cs) =
     (case user_token (dropWhile py_space (c # cs)) of
        Some (i, rest) \<Rightarrow>
          (if i \<in> set pids then '' ''
           else takeWhile py_space (c # cs) @ ''<@user:'' @ i @ ''>'' @ takeWhile py_space rest)
          @ strip_tokens pids (dropWhile py_space rest)
      | None \<Rightarrow> c # strip_tokens pids cs)"

definition strip_peer_mentions_from_content :: "string \<Rightarrow> string list \<Rightarrow> string" where
  "strip_peer_mentions_from_content content pids = (if pids = [] then content else strip_tokens pids content)"

definition undelivered_peer_calls :: "mention list \<Rightarrow> string \<Rightarrow> (string \<times> string) list" where
  "undelivered_peer_calls ms reason = map (\<lambda>i. (i, reason)) (filter (\<lambda>i. i \<noteq> []) (called_users ms))"

section \<open>The hand-off budget\<close>

record handoff_budget =
  hb_capacity :: int
  hb_remaining :: "string \<rightharpoonup> int"
  hb_woken :: "string \<rightharpoonup> string set"
  hb_called :: "string \<rightharpoonup> string set"

definition new_budget :: "int \<Rightarrow> handoff_budget" where
  "new_budget cap = \<lparr>hb_capacity = cap, hb_remaining = Map.empty, hb_woken = Map.empty, hb_called = Map.empty\<rparr>"

definition budget_reset :: "string \<Rightarrow> handoff_budget \<Rightarrow> handoff_budget" where
  "budget_reset room b = b\<lparr>hb_remaining := (hb_remaining b)(room \<mapsto> hb_capacity b),
     hb_woken := (hb_woken b)(room := None), hb_called := (hb_called b)(room := None)\<rparr>"

definition mark_woken :: "string \<Rightarrow> string list \<Rightarrow> handoff_budget \<Rightarrow> handoff_budget" where
  "mark_woken room pids b = b\<lparr>hb_woken := (hb_woken b)(room \<mapsto> set pids)\<rparr>"

definition woken :: "string \<Rightarrow> handoff_budget \<Rightarrow> string set" where
  "woken room b = (case hb_woken b room of None \<Rightarrow> {} | Some s \<Rightarrow> s)"

definition peer_called :: "string \<Rightarrow> handoff_budget \<Rightarrow> string set" where
  "peer_called room b = (case hb_called b room of None \<Rightarrow> {} | Some s \<Rightarrow> s)"

definition mark_peer_called :: "string \<Rightarrow> string list \<Rightarrow> handoff_budget \<Rightarrow> handoff_budget" where
  "mark_peer_called room pids b = b\<lparr>hb_called := (hb_called b)(room \<mapsto> peer_called room b \<union> set pids)\<rparr>"

definition budget_remaining :: "string \<Rightarrow> handoff_budget \<Rightarrow> int" where
  "budget_remaining room b = (case hb_remaining b room of None \<Rightarrow> hb_capacity b | Some n \<Rightarrow> n)"

definition consume :: "string \<Rightarrow> int \<Rightarrow> handoff_budget \<Rightarrow> handoff_budget \<times> bool" where
  "consume room n b =
     (if budget_remaining room b < n then (b, False)
      else (b\<lparr>hb_remaining := (hb_remaining b)(room \<mapsto> budget_remaining room b - n)\<rparr>, True))"

definition would_block :: "string \<Rightarrow> int \<Rightarrow> int \<Rightarrow> handoff_budget \<Rightarrow> bool" where
  "would_block room hop reserved b \<longleftrightarrow> MAX_PEER_DEPTH < hop \<or> budget_remaining room b < reserved + 1"

section \<open>Typing\<close>

type_synonym 'v room_dict = "string \<Rightarrow> (string \<times> 'v) list"

definition kput :: "string \<Rightarrow> 'v \<Rightarrow> (string \<times> 'v) list \<Rightarrow> (string \<times> 'v) list" where
  "kput k v d = (if k \<in> fst ` set d then map (\<lambda>(a, b). if a = k then (a, v) else (a, b)) d else d @ [(k, v)])"

definition kpop :: "string \<Rightarrow> (string \<times> 'v) list \<Rightarrow> (string \<times> 'v) list" where
  "kpop k d = filter (\<lambda>p. fst p \<noteq> k) d"

record typing_tracker =
  ty_ttl :: mono
  ty_state :: "mono room_dict"
  ty_since :: "mono room_dict"

definition set_typing :: "string \<Rightarrow> string \<Rightarrow> bool \<Rightarrow> mono \<Rightarrow> typing_tracker \<Rightarrow> typing_tracker" where
  "set_typing room pid is_typing now t =
     (if is_typing then
        (let fresh = (case map_of (ty_state t room) pid of
                        None \<Rightarrow> True
                      | Some before \<Rightarrow> ty_ttl t < now - before \<or> map_of (ty_since t room) pid = None)
         in t\<lparr>ty_since := (if fresh then (ty_since t)(room := kput pid now (ty_since t room)) else ty_since t),
              ty_state := (ty_state t)(room := kput pid now (ty_state t room))\<rparr>)
      else t\<lparr>ty_state := (ty_state t)(room := kpop pid (ty_state t room)),
             ty_since := (ty_since t)(room := kpop pid (ty_since t room))\<rparr>)"

definition typing_elapsed :: "string \<Rightarrow> string \<Rightarrow> mono \<Rightarrow> typing_tracker \<Rightarrow> mono option" where
  "typing_elapsed room pid now t =
     (case (map_of (ty_state t room) pid, map_of (ty_since t room) pid) of
        (Some before, Some since) \<Rightarrow> if ty_ttl t < now - before then None else Some (max 0 (now - since))
      | _ \<Rightarrow> None)"

definition typing_elapsed_ms :: "string \<Rightarrow> string \<Rightarrow> mono \<Rightarrow> typing_tracker \<Rightarrow> int option" where
  "typing_elapsed_ms room pid now t = map_option (\<lambda>s. trunc (s * 1000)) (typing_elapsed room pid now t)"

definition get_typing :: "string \<Rightarrow> mono \<Rightarrow> typing_tracker \<Rightarrow> typing_tracker \<times> string list" where
  "get_typing room now t =
     (let active = map fst (filter (\<lambda>(p, ts). now - ts \<le> ty_ttl t) (ty_state t room));
          expired = map fst (filter (\<lambda>(p, ts). \<not> now - ts \<le> ty_ttl t) (ty_state t room))
      in (t\<lparr>ty_state := (ty_state t)(room := fold kpop expired (ty_state t room)),
            ty_since := (ty_since t)(room := fold kpop expired (ty_since t room))\<rparr>, active))"

section \<open>The repetition guard\<close>

abbreviation MIN_HASHABLE_LEN :: nat where "MIN_HASHABLE_LEN \<equiv> 16"
abbreviation HASH_PREFIX_LEN :: nat where "HASH_PREFIX_LEN \<equiv> 64"

text \<open>One leading routing token (an empty user id is allowed here), and the text after it.\<close>

definition leading_token :: "string \<Rightarrow> string option" where
  "leading_token s =
     (let t = dropWhile py_space s in
      if prefix_of ''<@user:'' t then
        (case dropWhile (\<lambda>c. c \<noteq> CHR ''>'') (drop 7 t) of [] \<Rightarrow> None | _ # rest \<Rightarrow> Some rest)
      else if prefix_of ''@everyone'' t \<and> ends_name (drop 9 t) then Some (drop 9 t)
      else None)"

lemma leading_token_shorter [termination_simp]: "leading_token s = Some r \<Longrightarrow> length r < length s"
proof -
  assume a: "leading_token s = Some r"
  let ?t = "dropWhile py_space s"
  have t: "length ?t \<le> length s" by (rule length_dropWhile_le)
  show ?thesis
  proof (cases "prefix_of ''<@user:'' ?t")
    case True
    then obtain u where u: "?t = ''<@user:'' @ u" by (auto simp: prefix_of_conv)
    then obtain c where "dropWhile (\<lambda>c. c \<noteq> CHR ''>'') u = c # r"
      using a True by (auto simp: leading_token_def Let_def split: list.splits)
    then have "length r < length u" using length_dropWhile_le [of "\<lambda>c. c \<noteq> CHR ''>''" u] by simp
    then show ?thesis using t u by simp
  next
    case False
    then have "r = drop 9 ?t" "prefix_of ''@everyone'' ?t" using a by (auto simp: leading_token_def Let_def split: if_splits)
    then have "length r < length ?t" by (auto simp: prefix_of_conv)
    then show ?thesis using t by simp
  qed
qed

function drop_leading :: "string \<Rightarrow> string" where
  "drop_leading s = (case leading_token s of None \<Rightarrow> s | Some r \<Rightarrow> (case leading_token r of None \<Rightarrow> lstrip r | Some _ \<Rightarrow> drop_leading r))"
  by pat_completeness auto
termination
  by (relation "measure length") (auto simp: leading_token_shorter)

declare drop_leading.simps [simp del]

definition hash_content :: "(string \<Rightarrow> string) \<Rightarrow> string \<Rightarrow> string option" where
  "hash_content digest content =
     (let body = drop_leading content
      in if length body < MIN_HASHABLE_LEN then None else Some (digest (take HASH_PREFIX_LEN body)))"

definition last_window :: "int \<Rightarrow> 'a list \<Rightarrow> 'a list" where
  "last_window w xs = (if 0 < w then drop (length xs - nat w) xs else drop (nat (- w)) xs)"

definition is_cycle_detected ::
  "(string \<Rightarrow> string) \<Rightarrow> string option \<Rightarrow> string \<Rightarrow> (string option \<times> string option) list \<Rightarrow> int \<Rightarrow> int \<Rightarrow> bool" where
  "is_cycle_detected digest sender content recent window min_repetitions =
     (let h = hash_content digest content
      in if sender = None \<or> sender = Some [] \<or> h = None then False
         else min_repetitions \<le> int (length (filter (\<lambda>(s, g). s = sender \<and> g = h) (last_window window recent))))"

section \<open>Stripped calls are muted\<close>

fun user_tokens :: "string \<Rightarrow> string list" where
  "user_tokens [] = []"
| "user_tokens (c # cs) = (case user_token (c # cs) of Some (i, rest) \<Rightarrow> i # user_tokens rest | None \<Rightarrow> user_tokens cs)"

abbreviation lead :: string where "lead \<equiv> ''<@user:''"

lemma user_token_None: "c \<noteq> CHR ''<'' \<Longrightarrow> user_token (c # cs) = None"
  by (simp add: user_token_def bracketed_def)

lemma py_space_lt [simp]: "\<not> py_space CHR ''<''" "\<not> py_space CHR ''>''" "\<not> py_space CHR ''@''"
  by (simp_all add: py_space_def)

lemma user_token_spaces: "user_token (dropWhile py_space s) = None \<Longrightarrow> user_token s = None"
proof (cases s)
  case (Cons c cs)
  moreover assume "user_token (dropWhile py_space s) = None"
  ultimately show ?thesis by (cases "py_space c") (auto intro: user_token_None)
qed simp

lemma user_tokens_spaces: "(\<And>c. c \<in> set ws \<Longrightarrow> py_space c) \<Longrightarrow> user_tokens (ws @ s) = user_tokens s"
proof (induction ws)
  case (Cons c ws)
  then have "c \<noteq> CHR ''<''" by fastforce
  with Cons show ?case by (simp add: user_token_None)
qed simp

lemma user_tokens_takeWhile: "user_tokens (takeWhile py_space a @ s) = user_tokens s"
  by (rule user_tokens_spaces) (auto dest: set_takeWhileD)

lemma user_tokens_dropWhile: "user_tokens (dropWhile py_space s) = user_tokens s"
  using user_tokens_takeWhile [of s "dropWhile py_space s"] by simp

lemma user_tokens_token:
  assumes "i \<noteq> []" and "CHR ''>'' \<notin> set i"
  shows "user_tokens (lead @ i @ CHR ''>'' # s) = i # user_tokens s"
  using bracketed_append [OF assms, of lead s] by (simp add: user_token_def)

text \<open>Characters that are no white space and start no token come from the same place.\<close>

lemma strip_plain_head:
  assumes "strip_tokens P s = c # x" and "\<not> py_space c" and "c \<noteq> CHR ''<''"
  shows "\<exists>u. s = c # u \<and> x = strip_tokens P u"
proof (cases s)
  case Nil
  then show ?thesis using assms(1) by simp
next
  case (Cons a u)
  show ?thesis
  proof (cases "user_token (dropWhile py_space (a # u))")
    case None
    then show ?thesis using assms(1) Cons by simp
  next
    case (Some ir)
    obtain i rest where ir: "ir = (i, rest)" by (cases ir)
    let ?ws = "takeWhile py_space (a # u)"
    have "strip_tokens P s = (if i \<in> set P then '' '' else ?ws @ lead @ i @ ''>'' @ takeWhile py_space rest)
        @ strip_tokens P (dropWhile py_space rest)"
      using Some ir Cons by simp
    then have "c = (if i \<in> set P then CHR '' '' else hd (?ws @ lead))" using assms(1) by (cases ?ws) auto
    moreover have "hd (?ws @ lead) = CHR ''<'' \<or> py_space (hd (?ws @ lead))"
      by (cases "py_space a") auto
    moreover have "py_space CHR '' ''" by (simp add: py_space_def)
    ultimately have False using assms(2,3) by (auto split: if_splits)
    then show ?thesis ..
  qed
qed

lemma strip_plain_prefix:
  assumes "strip_tokens P s = w @ x" and "\<And>c. c \<in> set w \<Longrightarrow> \<not> py_space c \<and> c \<noteq> CHR ''<''"
  shows "\<exists>u. s = w @ u \<and> x = strip_tokens P u"
  using assms
proof (induction w arbitrary: s)
  case (Cons c w)
  have "strip_tokens P s = c # (w @ x)" "\<not> py_space c" "c \<noteq> CHR ''<''" using Cons.prems by simp_all
  then obtain u where u: "s = c # u" "w @ x = strip_tokens P u" using strip_plain_head by blast
  obtain v where "u = w @ v \<and> x = strip_tokens P v"
    using Cons.IH [of u] u(2) Cons.prems(2) by (metis list.set_intros(2))
  with u(1) show ?case by simp
qed simp

lemma strip_no_close: "CHR ''>'' \<notin> set s \<Longrightarrow> strip_tokens P s = s"
proof (induction s)
  case (Cons c cs)
  have "user_token (dropWhile py_space (c # cs)) = None"
  proof (rule ccontr)
    assume "user_token (dropWhile py_space (c # cs)) \<noteq> None"
    then obtain i rest where "user_token (dropWhile py_space (c # cs)) = Some (i, rest)" by auto
    then have "dropWhile py_space (c # cs) = lead @ i @ CHR ''>'' # rest"
      unfolding user_token_def by (rule bracketed_Some(1))
    then have "CHR ''>'' \<in> set (dropWhile py_space (c # cs))" by simp
    then have "CHR ''>'' \<in> set (c # cs)" by (rule set_dropWhileD)
    then show False using Cons.prems by simp
  qed
  with Cons show ?case by simp
qed simp

text \<open>Skipping a character of the text never uncovers a token in the stripped text.\<close>

lemma strip_keeps_None:
  assumes "user_token (c # cs) = None" and "\<not> py_space c \<or> user_token (dropWhile py_space (c # cs)) = None"
  shows "user_token (c # strip_tokens P cs) = None"
proof (cases "c = CHR ''<''")
  case False
  then show ?thesis by (rule user_token_None)
next
  case True
  show ?thesis
  proof (rule ccontr)
    assume "user_token (c # strip_tokens P cs) \<noteq> None"
    then obtain i rest where "user_token (c # strip_tokens P cs) = Some (i, rest)" by auto
    then have f: "c # strip_tokens P cs = lead @ i @ CHR ''>'' # rest" "i \<noteq> []" "CHR ''>'' \<notin> set i"
      unfolding user_token_def by (rule bracketed_Some)+
    have "strip_tokens P cs = ''@user:'' @ (i @ CHR ''>'' # rest)" using f(1) by simp
    moreover have "\<And>d. d \<in> set ''@user:'' \<Longrightarrow> \<not> py_space d \<and> d \<noteq> CHR ''<''" by (auto simp: py_space_def)
    ultimately obtain u where u: "cs = ''@user:'' @ u" "i @ CHR ''>'' # rest = strip_tokens P u"
      using strip_plain_prefix by blast
    have full: "c # cs = lead @ u" using True u(1) by simp
    show False
    proof (cases "CHR ''>'' \<in> set u")
      case False
      then have "strip_tokens P u = u" by (rule strip_no_close)
      with u(2) have "CHR ''>'' \<in> set u" by (metis in_set_conv_decomp)
      with False show False ..
    next
      case close: True
      let ?j = "takeWhile (\<lambda>c. c \<noteq> CHR ''>'') u" and ?d = "dropWhile (\<lambda>c. c \<noteq> CHR ''>'') u"
      have j: "CHR ''>'' \<notin> set ?j" by (auto dest: set_takeWhileD)
      have ne: "?d \<noteq> []" using close by (auto simp: dropWhile_eq_Nil_conv)
      have "hd ?d = CHR ''>''" using hd_dropWhile [OF ne] by simp
      then have "?d = CHR ''>'' # tl ?d" using ne by (cases ?d) simp_all
      moreover have "u = ?j @ ?d" by simp
      ultimately obtain r where r: "u = ?j @ CHR ''>'' # r" by metis
      show False
      proof (cases "?j = []")
        case True
        then have "u = CHR ''>'' # r" using r by simp
        moreover have "user_token (dropWhile py_space (CHR ''>'' # r)) = None" by (simp add: user_token_None)
        ultimately have "strip_tokens P u = CHR ''>'' # strip_tokens P r" by simp
        with u(2) f(2,3) show False by (cases i) auto
      next
        case False
        have "user_token (lead @ ?j @ CHR ''>'' # r) = Some (?j, r)"
          unfolding user_token_def using False j by (rule bracketed_append)
        then have "user_token (c # cs) = Some (?j, r)" using full r by simp
        with assms(1) show False by simp
      qed
    qed
  qed
qed

lemma strip_user_tokens: "user_tokens (strip_tokens P s) = filter (\<lambda>i. i \<notin> set P) (user_tokens s)"
proof (induction P s rule: strip_tokens.induct)
  case (2 P c cs)
  show ?case
  proof (cases "user_token (dropWhile py_space (c # cs))")
    case None
    have none: "user_token (c # cs) = None" by (rule user_token_spaces [OF None])
    have "user_token (c # strip_tokens P cs) = None" using none None by (intro strip_keeps_None) simp_all
    then show ?thesis using none None 2(1) [OF None] by simp
  next
    case (Some ir)
    obtain i rest where ir: "ir = (i, rest)" by (cases ir)
    have IH: "user_tokens (strip_tokens P (dropWhile py_space rest)) = filter (\<lambda>i. i \<notin> set P) (user_tokens rest)"
      using 2(2) [OF Some ir [symmetric]] by (simp add: user_tokens_dropWhile)
    have "dropWhile py_space (c # cs) = lead @ i @ CHR ''>'' # rest" and i: "i \<noteq> []" "CHR ''>'' \<notin> set i"
      using Some ir unfolding user_token_def by (auto dest: bracketed_Some)
    then have toks: "user_tokens (c # cs) = i # user_tokens rest"
      using user_tokens_dropWhile [of "c # cs"] user_tokens_token [OF i] by simp
    let ?rest = "strip_tokens P (dropWhile py_space rest)"
    show ?thesis
    proof (cases "i \<in> set P")
      case True
      then have "strip_tokens P (c # cs) = '' '' @ ?rest" using Some ir by simp
      moreover have "user_tokens ('' '' @ ?rest) = user_tokens ?rest" by (rule user_tokens_spaces) (simp add: py_space_def)
      ultimately show ?thesis using toks IH True by simp
    next
      case False
      then have "strip_tokens P (c # cs) = takeWhile py_space (c # cs) @ lead @ i @ CHR ''>'' # (takeWhile py_space rest @ ?rest)"
        using Some ir by simp
      also have "user_tokens \<dots> = i # user_tokens (takeWhile py_space rest @ ?rest)"
        unfolding user_tokens_takeWhile [of "c # cs"] by (rule user_tokens_token [OF i])
      finally show ?thesis using toks IH False by (simp add: user_tokens_takeWhile)
    qed
  qed
qed simp

text \<open>Every user the parser calls is one of the tokens, also where a room token hides some of them.\<close>

lemma after_close: "CHR ''>'' \<notin> set a \<Longrightarrow> dropWhile (\<lambda>c. c \<noteq> CHR ''>'') (a @ CHR ''>'' # r) = CHR ''>'' # r"
  by (induction a) auto

lemma user_tokens_after_close:
  assumes "CHR ''>'' \<notin> set x"
  shows "set (user_tokens rest) \<subseteq> set (user_tokens (x @ CHR ''>'' # rest))"
  using assms
proof (induction x)
  case Nil
  then show ?case by (simp add: user_token_None)
next
  case (Cons c x)
  show ?case
  proof (cases "user_token (c # x @ CHR ''>'' # rest)")
    case None
    then show ?thesis using Cons by simp
  next
    case (Some ir)
    obtain i r where ir: "ir = (i, r)" by (cases ir)
    have f: "(c # x) @ CHR ''>'' # rest = (lead @ i) @ CHR ''>'' # r" "CHR ''>'' \<notin> set i"
      using Some ir unfolding user_token_def by (auto dest: bracketed_Some)
    have "CHR ''>'' \<notin> set (lead @ i)" using f(2) by simp
    then have "dropWhile (\<lambda>c. c \<noteq> CHR ''>'') ((c # x) @ CHR ''>'' # rest) = CHR ''>'' # r"
      unfolding f(1) by (rule after_close)
    moreover have "dropWhile (\<lambda>c. c \<noteq> CHR ''>'') ((c # x) @ CHR ''>'' # rest) = CHR ''>'' # rest"
      using Cons.prems by (rule after_close)
    ultimately have "rest = r" by simp
    then show ?thesis using Some ir by auto
  qed
qed

lemma called_id_mentions: "set (called_users (id_mentions s)) \<subseteq> set (user_tokens s)"
proof (induction s rule: id_mentions.induct)
  case (2 c cs)
  show ?case
  proof (cases "user_token (c # cs)")
    case (Some ir)
    obtain i rest where ir: "ir = (i, rest)" by (cases ir)
    show ?thesis using 2(3) [OF Some ir [symmetric]] Some ir by auto
  next
    case none: None
    show ?thesis
    proof (cases "room_token (c # cs)")
      case None
      with 2(1) [OF none None] none show ?thesis by simp
    next
      case (Some ir)
      obtain i rest where ir: "ir = (i, rest)" by (cases ir)
      have f: "c # cs = (''<#room:'' @ i) @ CHR ''>'' # rest" "CHR ''>'' \<notin> set i"
        using Some ir unfolding room_token_def by (auto dest: bracketed_Some)
      have "CHR ''>'' \<notin> set (''<#room:'' @ i)" using f(2) by simp
      from user_tokens_after_close [OF this, of rest] have "set (user_tokens rest) \<subseteq> set (user_tokens (c # cs))"
        unfolding f(1) .
      with 2(2) [OF none Some ir [symmetric]] Some ir none show ?thesis by auto
    qed
  qed
qed simp

lemma called_users_append [simp]: "called_users (a @ b) = called_users a @ called_users b"
  by (induction a rule: called_users.induct) simp_all

lemma called_users_parse: "called_users (parse_mentions s) = called_users (id_mentions s)"
proof -
  have legacy: "called_users (map MLegacy ns) = []" for ns by (induction ns) simp_all
  show ?thesis by (simp add: parse_mentions_def Let_def legacy)
qed

text \<open>
  C31. The peer safety net mutes exactly the calls it is told to: after stripping, the user tokens of
  the text are the earlier ones without the stripped participants, in order (whatever the text:
  nested or broken tokens, tokens next to each other, tokens inside a room token), and the parser
  finds no call of a stripped participant in it.
\<close>

theorem strip_mutes_calls:
  "user_tokens (strip_peer_mentions_from_content s pids) = filter (\<lambda>i. i \<notin> set pids) (user_tokens s)
   \<and> set (called_users (parse_mentions (strip_peer_mentions_from_content s pids))) \<inter> set pids = {}"
proof -
  have toks: "user_tokens (strip_peer_mentions_from_content s pids) = filter (\<lambda>i. i \<notin> set pids) (user_tokens s)"
    by (simp add: strip_peer_mentions_from_content_def strip_user_tokens)
  have "set (called_users (parse_mentions (strip_peer_mentions_from_content s pids)))
      \<subseteq> set (user_tokens (strip_peer_mentions_from_content s pids))"
    unfolding called_users_parse by (rule called_id_mentions)
  with toks show ?thesis by auto
qed

text \<open>A room-wide call reaches every agent but the sender, none of them twice.\<close>

lemma everyone_called:
  "set (called_users (call_everyone sender seen ps)) = {p \<in> set ps. Some p \<noteq> sender \<and> p \<notin> set seen}"
  "distinct (called_users (call_everyone sender seen ps))"
proof -
  show s: "set (called_users (call_everyone sender seen ps)) = {p \<in> set ps. Some p \<noteq> sender \<and> p \<notin> set seen}" for seen ps
    by (induction ps arbitrary: seen) auto
  show "distinct (called_users (call_everyone sender seen ps))"
  proof (induction ps arbitrary: seen)
    case (Cons p ps)
    have "p \<notin> set (called_users (call_everyone sender (p # seen) ps))" unfolding s by simp
    with Cons show ?case by simp
  qed simp
qed

lemma expand_everyone:
  assumes "MEveryone \<in> set ms"
  shows "set (called_users (expand_room_mentions ms agents sender human reply)) =
    set (called_users (filter (\<lambda>m. m \<noteq> MEveryone) ms)) \<union> {p \<in> set agents. Some p \<noteq> sender}"
    and "MEveryone \<notin> set (expand_room_mentions ms agents sender human reply)"
proof -
  have "MEveryone \<notin> set (call_everyone sender seen ps)" for seen ps by (induction ps arbitrary: seen) auto
  then show "MEveryone \<notin> set (expand_room_mentions ms agents sender human reply)"
    using assms by (simp add: expand_room_mentions_def Let_def)
qed (use assms in \<open>auto simp: expand_room_mentions_def Let_def everyone_called\<close>)

section \<open>The hand-off budget over a user turn\<close>

datatype budget_op = OpReset string | OpWoken string "string list" | OpCalled string "string list" | OpConsume string int

fun budget_step :: "budget_op \<Rightarrow> handoff_budget \<Rightarrow> handoff_budget" where
  "budget_step (OpReset r) b = budget_reset r b"
| "budget_step (OpWoken r ps) b = mark_woken r ps b"
| "budget_step (OpCalled r ps) b = mark_peer_called r ps b"
| "budget_step (OpConsume r n) b = fst (consume r n b)"

text \<open>What a room was granted by a sequence of operations.\<close>

fun granted :: "string \<Rightarrow> budget_op list \<Rightarrow> handoff_budget \<Rightarrow> int" where
  "granted room [] b = 0"
| "granted room (op # ops) b =
     (case op of OpConsume r n \<Rightarrow> if r = room \<and> snd (consume r n b) then n else 0 | _ \<Rightarrow> 0)
     + granted room ops (budget_step op b)"

fun within_turn :: "string \<Rightarrow> budget_op \<Rightarrow> bool" where
  "within_turn room (OpReset r) \<longleftrightarrow> r \<noteq> room"
| "within_turn room (OpConsume r n) \<longleftrightarrow> 0 \<le> n"
| "within_turn room _ \<longleftrightarrow> True"

fun called_by :: "string \<Rightarrow> budget_op \<Rightarrow> string set" where
  "called_by room (OpCalled r ps) = (if r = room then set ps else {})"
| "called_by room _ = {}"

lemma budget_views:
  "budget_remaining room (budget_reset r b) = (if r = room then hb_capacity b else budget_remaining room b)"
  "budget_remaining room (mark_woken r ps b) = budget_remaining room b"
  "budget_remaining room (mark_peer_called r ps b) = budget_remaining room b"
  "budget_remaining room (fst (consume r n b)) = budget_remaining room b - (if r = room \<and> snd (consume r n b) then n else 0)"
  "snd (consume r n b) \<longleftrightarrow> n \<le> budget_remaining r b"
  "peer_called room (budget_reset r b) = (if r = room then {} else peer_called room b)"
  "peer_called room (mark_woken r ps b) = peer_called room b"
  "peer_called room (mark_peer_called r ps b) = (if r = room then peer_called room b \<union> set ps else peer_called room b)"
  "peer_called room (fst (consume r n b)) = peer_called room b"
  by (simp_all add: budget_remaining_def budget_reset_def mark_woken_def mark_peer_called_def peer_called_def consume_def
      split: option.split)

lemma budget_step_turn:
  assumes "within_turn room op"
  shows "(case op of OpConsume r n \<Rightarrow> if r = room \<and> snd (consume r n b) then n else 0 | _ \<Rightarrow> 0)
       + budget_remaining room (budget_step op b) = budget_remaining room b"
    and "0 \<le> budget_remaining room b \<Longrightarrow> 0 \<le> budget_remaining room (budget_step op b)"
    and "peer_called room (budget_step op b) = peer_called room b \<union> called_by room op"
proof -
  show "(case op of OpConsume r n \<Rightarrow> if r = room \<and> snd (consume r n b) then n else 0 | _ \<Rightarrow> 0)
       + budget_remaining room (budget_step op b) = budget_remaining room b"
    using assms by (cases op) (simp_all add: budget_views)
  show "0 \<le> budget_remaining room (budget_step op b)" if "0 \<le> budget_remaining room b"
    using assms that by (cases op) (auto simp: budget_views)
  show "peer_called room (budget_step op b) = peer_called room b \<union> called_by room op"
    using assms by (cases op) (simp_all add: budget_views)
qed

text \<open>
  C32. Within one user turn of a room - from a message of a person to the next - the peer calls that
  were granted and the slots left always add up to the capacity, so no interleaving of calls,
  wakes and traffic of other rooms grants more than the cap; \<open>would_block\<close> predicts the next call,
  and the called peers are exactly those recorded since the turn began.
\<close>

theorem handoffs_bounded:
  assumes "\<forall>op \<in> set ops. within_turn room op" and "0 \<le> hb_capacity b"
  shows "granted room ops (budget_reset room b) + budget_remaining room (fold budget_step ops (budget_reset room b)) = hb_capacity b
    \<and> 0 \<le> budget_remaining room (fold budget_step ops (budget_reset room b))
    \<and> (would_block room 1 0 (fold budget_step ops (budget_reset room b)) \<longleftrightarrow>
         \<not> snd (consume room 1 (fold budget_step ops (budget_reset room b))))
    \<and> peer_called room (fold budget_step ops (budget_reset room b)) = (\<Union>op \<in> set ops. called_by room op)"
proof -
  have run: "granted room ops b + budget_remaining room (fold budget_step ops b) = budget_remaining room b
      \<and> (0 \<le> budget_remaining room b \<longrightarrow> 0 \<le> budget_remaining room (fold budget_step ops b))
      \<and> peer_called room (fold budget_step ops b) = peer_called room b \<union> (\<Union>op \<in> set ops. called_by room op)" for b
    using assms(1)
  proof (induction ops arbitrary: b)
    case (Cons op ops)
    have op: "within_turn room op" using Cons.prems by simp
    note s = budget_step_turn [OF op, of b]
    have IH: "granted room ops (budget_step op b) + budget_remaining room (fold budget_step ops (budget_step op b))
        = budget_remaining room (budget_step op b)
      \<and> (0 \<le> budget_remaining room (budget_step op b) \<longrightarrow> 0 \<le> budget_remaining room (fold budget_step ops (budget_step op b)))
      \<and> peer_called room (fold budget_step ops (budget_step op b)) = peer_called room (budget_step op b) \<union> (\<Union>op \<in> set ops. called_by room op)"
      by (rule Cons.IH) (use Cons.prems in simp)
    show ?case using IH s by auto
  qed simp
  have "budget_remaining room (budget_reset room b) = hb_capacity b" "peer_called room (budget_reset room b) = {}"
    by (simp_all add: budget_reset_def budget_remaining_def peer_called_def)
  with run [of "budget_reset room b"] assms(2) show ?thesis by (auto simp: would_block_def consume_def)
qed

lemma handoffs_bounded_witness:
  "granted ''r1'' [OpConsume ''r1'' 3, OpCalled ''r1'' [''p1''], OpConsume ''r1'' 9] (budget_reset ''r1'' (new_budget 8))
     + budget_remaining ''r1'' (fold budget_step [OpConsume ''r1'' 3, OpCalled ''r1'' [''p1''], OpConsume ''r1'' 9]
         (budget_reset ''r1'' (new_budget 8))) = 8"
  using handoffs_bounded [of "[OpConsume ''r1'' 3, OpCalled ''r1'' [''p1''], OpConsume ''r1'' 9]" "''r1''" "new_budget 8"]
  by (simp add: new_budget_def)

text \<open>Typing: a participant is reported until \<open>ttl\<close> passed since its last sign, with a nonnegative time.\<close>

lemma typing_reported:
  "0 \<le> now' - now \<Longrightarrow> now' - now \<le> ty_ttl t \<Longrightarrow>
     \<exists>e. typing_elapsed room pid now' (set_typing room pid True now t) = Some e \<and> 0 \<le> e"
proof -
  have put: "map_of (kput pid v d) pid = Some v" for v and d :: "(string \<times> mono) list"
  proof -
    have "map_of (map (\<lambda>(a, b). if a = pid then (a, v) else (a, b)) d) pid = Some v" if "pid \<in> fst ` set d"
      using that by (induction d) auto
    moreover have "map_of (d @ [(pid, v)]) pid = Some v" if "pid \<notin> fst ` set d"
    proof -
      have "map_of d pid = None" using that by (simp add: map_of_eq_None_iff)
      then show ?thesis by (simp add: map_add_def)
    qed
    ultimately show ?thesis by (simp add: kput_def)
  qed
  assume ttl: "0 \<le> now' - now" "now' - now \<le> ty_ttl t"
  let ?t = "set_typing room pid True now t"
  have state: "map_of (ty_state ?t room) pid = Some now" by (simp add: set_typing_def Let_def put)
  have "map_of (ty_since ?t room) pid \<noteq> None"
    by (cases "map_of (ty_state t room) pid") (simp_all add: set_typing_def Let_def put)
  then obtain since where "map_of (ty_since ?t room) pid = Some since" by blast
  moreover have "ty_ttl ?t = ty_ttl t" by (simp add: set_typing_def Let_def)
  ultimately have "typing_elapsed room pid now' ?t = Some (max 0 (now' - since))"
    using state ttl(2) by (simp add: typing_elapsed_def)
  then show ?thesis by simp
qed

text \<open>An unusable depth counts as 0, except an infinite one, whose \<open>OverflowError\<close> escapes.\<close>

lemma peer_depth_infinity:
  "compute_outbound_peer_depth (Some [(''peer_depth'', PFloat PInf)]) = Inl OverflowError"
  "compute_outbound_peer_depth (Some [(''peer_depth'', PFloat NaN)]) = Inr 0"
  "compute_outbound_peer_depth (Some [(''peer_depth'', PStr ''two'')]) = Inr 0"
proof -
  have "int_of_str ''two'' = Inl ValueError" by code_simp
  then show "compute_outbound_peer_depth (Some [(''peer_depth'', PStr ''two'')]) = Inr 0"
    by (simp add: compute_outbound_peer_depth_def dget_def dget_or_def)
qed (simp_all add: compute_outbound_peer_depth_def dget_def dget_or_def)

end
