(* ===== verification/AgentStreams.thy ===== *)
theory AgentStreams
  imports PyValues
begin

text \<open>
  What an agent process reads and keeps during a turn: the line splitter of an engine's output
  (agent/runtime/execution/lines.py), the idle clock (turn_clock.py) and the buffer of room
  context for the next turn (agent/coordination/pending_context.py).

  Bytes are 8-bit characters. Logging and the Korean wording of context lines are outside.
\<close>

section \<open>Lines of an engine\<close>

record line_state =
  ls_buffer :: string
  ls_dropping :: bool

definition add_piece :: "nat \<Rightarrow> string \<Rightarrow> line_state \<Rightarrow> line_state" where
  "add_piece limit piece st =
     (if ls_dropping st then st
      else
        let b = ls_buffer st @ piece
        in if limit < length b then \<lparr>ls_buffer = [], ls_dropping = True\<rparr> else st\<lparr>ls_buffer := b\<rparr>)"

definition end_line :: "line_state \<Rightarrow> line_state \<times> string option" where
  "end_line st =
     (if ls_dropping st then (st\<lparr>ls_dropping := False\<rparr>, None) else (st\<lparr>ls_buffer := []\<rparr>, Some (ls_buffer st)))"

lemma dropWhile_Cons_shorter [termination_simp]: "dropWhile P s = c # r \<Longrightarrow> length r < length s"
  using length_dropWhile_le [of P s] by simp

fun feed_chunk :: "nat \<Rightarrow> string \<Rightarrow> line_state \<Rightarrow> line_state \<times> string option list" where
  "feed_chunk limit chunk st =
     (case dropWhile (\<lambda>c. c \<noteq> NL) chunk of
        [] \<Rightarrow> (add_piece limit chunk st, [])
      | _ # rest \<Rightarrow>
          (let (st1, line) = end_line (add_piece limit (takeWhile (\<lambda>c. c \<noteq> NL) chunk @ [NL]) st);
               (st2, lines) = feed_chunk limit rest st1
           in (st2, line # lines)))"

declare feed_chunk.simps [simp del]

fun feed_chunks :: "nat \<Rightarrow> string list \<Rightarrow> line_state \<Rightarrow> line_state \<times> string option list" where
  "feed_chunks limit [] st = (st, [])"
| "feed_chunks limit (chunk # chunks) st =
     (if chunk = [] then (st, [])
      else
        let (st1, a) = feed_chunk limit chunk st;
            (st2, b) = feed_chunks limit chunks st1
        in (st2, a @ b))"

definition last_lines :: "line_state \<Rightarrow> string option list" where
  "last_lines st = (if ls_dropping st then [None] else if ls_buffer st \<noteq> [] then [Some (ls_buffer st)] else [])"

text \<open>All lines of a stream that delivers these chunks; an empty chunk is its end.\<close>

definition engine_lines :: "nat \<Rightarrow> string list \<Rightarrow> string option list" where
  "engine_lines limit chunks =
     (case feed_chunks limit chunks \<lparr>ls_buffer = [], ls_dropping = False\<rparr> of (st, lines) \<Rightarrow> lines @ last_lines st)"

text \<open>
  The reference: the lines of the whole text, each with its newline, and what follows the last
  newline as a line of its own.
\<close>

fun split_lines :: "string \<Rightarrow> string list" where
  "split_lines s =
     (if s = [] then []
      else case dropWhile (\<lambda>c. c \<noteq> NL) s of
        [] \<Rightarrow> [s]
      | _ # rest \<Rightarrow> (takeWhile (\<lambda>c. c \<noteq> NL) s @ [NL]) # split_lines rest)"

declare split_lines.simps [simp del]

definition clip :: "nat \<Rightarrow> string \<Rightarrow> string option" where
  "clip limit l = (if limit < length l then None else Some l)"

text \<open>The splitter's state after the part \<open>r\<close> of a line that has no newline yet.\<close>

definition state_of :: "nat \<Rightarrow> string \<Rightarrow> line_state" where
  "state_of limit r = (if limit < length r then \<lparr>ls_buffer = [], ls_dropping = True\<rparr>
                       else \<lparr>ls_buffer = r, ls_dropping = False\<rparr>)"

lemma add_piece_state: "add_piece limit p (state_of limit r) = state_of limit (r @ p)"
  by (auto simp: add_piece_def state_of_def Let_def)

lemma end_line_state: "end_line (state_of limit r) = (state_of limit [], clip limit r)"
  by (auto simp: end_line_def state_of_def clip_def)

lemma no_newline: "NL \<notin> set r \<Longrightarrow> dropWhile (\<lambda>c. c \<noteq> NL) r = []"
  by auto

lemma split_lines_open: "NL \<notin> set r \<Longrightarrow> split_lines r = (if r = [] then [] else [r])"
  by (subst split_lines.simps, subst no_newline) simp_all

lemma feed_chunk_open: "NL \<notin> set chunk \<Longrightarrow> feed_chunk limit chunk st = (add_piece limit chunk st, [])"
  by (subst feed_chunk.simps, subst no_newline) simp_all

lemma split_lines_closed: "NL \<notin> set r \<Longrightarrow> split_lines (r @ NL # s) = (r @ [NL]) # split_lines s"
  by (subst split_lines.simps) (auto simp: dropWhile_append takeWhile_append)

lemma last_lines_state: "NL \<notin> set r \<Longrightarrow> last_lines (state_of limit r) = map (clip limit) (split_lines r)"
  by (auto simp: last_lines_def state_of_def clip_def split_lines_open)

lemma feed_chunk_state:
  assumes "NL \<notin> set r"
  shows "\<exists>r'. NL \<notin> set r' \<and> fst (feed_chunk limit chunk (state_of limit r)) = state_of limit r'
    \<and> (\<forall>s. map (clip limit) (split_lines (r @ chunk @ s))
           = snd (feed_chunk limit chunk (state_of limit r)) @ map (clip limit) (split_lines (r' @ s)))"
  using assms
proof (induction "length chunk" arbitrary: chunk r rule: less_induct)
  case less
  show ?case
  proof (cases "dropWhile (\<lambda>c. c \<noteq> NL) chunk")
    case Nil
    then have "NL \<notin> set chunk" by (auto simp: dropWhile_eq_Nil_conv)
    with less.prems Nil show ?thesis
      by (intro exI [of _ "r @ chunk"]) (simp add: feed_chunk_open add_piece_state)
  next
    case (Cons c rest)
    let ?piece = "takeWhile (\<lambda>c. c \<noteq> NL) chunk"
    have c: "c = NL" using Cons by (metis (mono_tags, lifting) dropWhile_eq_Cons_conv)
    have chunk: "chunk = ?piece @ NL # rest" using takeWhile_dropWhile_id [of "\<lambda>c. c \<noteq> NL" chunk] Cons c by simp
    have piece: "NL \<notin> set ?piece" by (auto dest: set_takeWhileD)
    have feed: "feed_chunk limit chunk (state_of limit r) =
        (fst (feed_chunk limit rest (state_of limit [])),
         clip limit (r @ ?piece @ [NL]) # snd (feed_chunk limit rest (state_of limit [])))"
      using Cons by (simp add: feed_chunk.simps [of limit chunk] add_piece_state end_line_state case_prod_beta Let_def)
    obtain r' where r': "NL \<notin> set r'" "fst (feed_chunk limit rest (state_of limit [])) = state_of limit r'"
      "\<And>s. map (clip limit) (split_lines (rest @ s)) = snd (feed_chunk limit rest (state_of limit [])) @ map (clip limit) (split_lines (r' @ s))"
      using less.hyps [of rest "[]"] dropWhile_Cons_shorter [OF Cons] by auto
    have "split_lines (r @ chunk @ s) = (r @ ?piece @ [NL]) # split_lines (rest @ s)" for s
      using split_lines_closed [of "r @ ?piece" "rest @ s"] less.prems piece by (subst chunk) simp
    then show ?thesis using r' feed by (intro exI [of _ r']) simp
  qed
qed

lemma feed_chunks_state:
  assumes "NL \<notin> set r"
  shows "\<exists>r'. NL \<notin> set r' \<and> fst (feed_chunks limit chunks (state_of limit r)) = state_of limit r'
    \<and> map (clip limit) (split_lines (r @ concat (takeWhile (\<lambda>c. c \<noteq> []) chunks)))
      = snd (feed_chunks limit chunks (state_of limit r)) @ map (clip limit) (split_lines r')"
  using assms
proof (induction chunks arbitrary: r)
  case Nil
  then show ?case by auto
next
  case (Cons chunk chunks)
  show ?case
  proof (cases "chunk = []")
    case False
    obtain r1 where r1: "NL \<notin> set r1" "fst (feed_chunk limit chunk (state_of limit r)) = state_of limit r1"
      "\<And>s. map (clip limit) (split_lines (r @ chunk @ s))
          = snd (feed_chunk limit chunk (state_of limit r)) @ map (clip limit) (split_lines (r1 @ s))"
      using feed_chunk_state [OF Cons.prems] by blast
    show ?thesis using Cons.IH [OF r1(1)] False by (simp add: case_prod_beta Let_def r1(2,3))
  qed (use Cons.prems in auto)
qed

text \<open>
  C33. However an engine's output is cut into chunks, the splitter yields the lines of the whole
  text in order (the unfinished last one included), and exactly those longer than the limit are
  replaced by the dropped-line marker: neither the chunk borders nor an earlier huge line
  change what the caller reads.
\<close>

theorem engine_lines_split:
  "engine_lines limit chunks = map (clip limit) (split_lines (concat (takeWhile (\<lambda>c. c \<noteq> []) chunks)))"
proof -
  have start: "\<lparr>ls_buffer = [], ls_dropping = False\<rparr> = state_of limit []" by (simp add: state_of_def)
  obtain r' where "NL \<notin> set r'" "fst (feed_chunks limit chunks (state_of limit [])) = state_of limit r'"
    "map (clip limit) (split_lines (concat (takeWhile (\<lambda>c. c \<noteq> []) chunks)))
       = snd (feed_chunks limit chunks (state_of limit [])) @ map (clip limit) (split_lines r')"
    using feed_chunks_state [of "[]" limit chunks] by auto
  then show ?thesis by (simp add: engine_lines_def start case_prod_beta last_lines_state)
qed

text \<open>No text is lost but in dropped lines.\<close>

lemma split_lines_concat: "concat (split_lines s) = s"
proof (induction s rule: split_lines.induct)
  case (1 s)
  show ?case
  proof (cases "dropWhile (\<lambda>c. c \<noteq> NL) s")
    case Nil
    then have "NL \<notin> set s" by auto
    then show ?thesis by (simp add: split_lines_open)
  next
    case (Cons c rest)
    have c: "c = NL" using Cons by (metis (mono_tags, lifting) dropWhile_eq_Cons_conv)
    have s: "takeWhile (\<lambda>c. c \<noteq> NL) s @ NL # rest = s" using takeWhile_dropWhile_id [of "\<lambda>c. c \<noteq> NL" s] Cons c by simp
    then have "s \<noteq> []" by auto
    moreover have "concat (split_lines rest) = rest" using 1 \<open>s \<noteq> []\<close> Cons by blast
    ultimately show ?thesis using s Cons by (simp add: split_lines.simps [of s])
  qed
qed

section \<open>The idle clock\<close>

record turn_clock =
  tc_idle :: mono
  tc_started :: mono
  tc_last_touch :: mono
  tc_open_tools :: int

definition new_clock :: "mono \<Rightarrow> mono \<Rightarrow> turn_clock" where
  "new_clock idle now = \<lparr>tc_idle = idle, tc_started = now, tc_last_touch = now, tc_open_tools = 0\<rparr>"

definition touch :: "mono \<Rightarrow> turn_clock \<Rightarrow> turn_clock" where
  "touch now c = c\<lparr>tc_last_touch := now\<rparr>"

definition tool_ended :: "turn_clock \<Rightarrow> turn_clock" where
  "tool_ended c = c\<lparr>tc_open_tools := max 0 (tc_open_tools c - 1)\<rparr>"

definition observe :: "string \<Rightarrow> pyval \<Rightarrow> mono \<Rightarrow> turn_clock \<Rightarrow> turn_clock" where
  "observe kind payload now c =
     (let c1 = touch now c in
      case payload of
        PDict p \<Rightarrow>
          if kind \<noteq> ''progress'' then c1
          else if dget p ''event'' \<noteq> PStr ''activity'' \<or> dget p ''activity'' = PStr ''thinking'' then c1
          else if dget p ''phase'' = PStr ''started'' then c1\<lparr>tc_open_tools := tc_open_tools c1 + 1\<rparr>
          else if dget p ''phase'' = PStr ''completed'' then tool_ended c1
          else c1
      | _ \<Rightarrow> c1)"

text \<open>\<open>None\<close> is infinity.\<close>

definition clock_remaining :: "mono \<Rightarrow> turn_clock \<Rightarrow> mono option" where
  "clock_remaining now c = (if 0 < tc_open_tools c then None else Some (tc_last_touch c + tc_idle c - now))"

definition clock_elapsed :: "mono \<Rightarrow> turn_clock \<Rightarrow> mono" where
  "clock_elapsed now c = now - tc_started c"

text \<open>A sequence of reports with their times, oldest first.\<close>

fun observe_all :: "(mono \<times> string \<times> pyval) list \<Rightarrow> turn_clock \<Rightarrow> turn_clock" where
  "observe_all [] c = c"
| "observe_all ((now, kind, payload) # es) c = observe_all es (observe kind payload now c)"

lemma observe_touches: "tc_last_touch (observe kind payload now c) = now"
  by (auto simp: observe_def touch_def tool_ended_def Let_def split: pyval.splits)

lemma observe_tools: "0 \<le> tc_open_tools c \<Longrightarrow> 0 \<le> tc_open_tools (observe kind payload now c)"
  by (auto simp: observe_def touch_def tool_ended_def Let_def split: pyval.splits)

lemma observe_idle: "tc_idle (observe kind payload now c) = tc_idle c"
  by (auto simp: observe_def touch_def tool_ended_def Let_def split: pyval.splits)

lemma last_is_touch:
  "(es \<noteq> [] \<Longrightarrow> tc_last_touch (observe_all es (observe kind payload now c)) = fst (List.last es)) \<Longrightarrow>
   tc_last_touch (observe_all es (observe kind payload now c)) = (if es = [] then now else fst (List.last es))"
  by (cases es) (simp_all add: observe_touches)

text \<open>
  A clock runs out only when no reported tool is open and nothing was reported for the whole idle
  time.
\<close>

lemma runs_out_only_idle:
  assumes "clock_remaining now (observe_all es c) = Some r" "r \<le> 0"
  shows "tc_open_tools (observe_all es c) \<le> 0"
    "es \<noteq> [] \<Longrightarrow> fst (List.last es) + tc_idle c \<le> now"
proof -
  have "tc_idle (observe_all es c) = tc_idle c"
    by (induction es c rule: observe_all.induct) (simp_all add: observe_idle)
  moreover have "es \<noteq> [] \<Longrightarrow> tc_last_touch (observe_all es c) = fst (List.last es)"
    by (induction es c rule: observe_all.induct) (simp_all add: last_is_touch)
  ultimately show "es \<noteq> [] \<Longrightarrow> fst (List.last es) + tc_idle c \<le> now"
    using assms by (auto simp: clock_remaining_def split: if_splits)
  show "tc_open_tools (observe_all es c) \<le> 0" using assms(1) by (auto simp: clock_remaining_def split: if_splits)
qed

section \<open>Room context for the next turn\<close>

abbreviation PENDING_CONTEXT_MAX :: nat where "PENDING_CONTEXT_MAX \<equiv> 10"
abbreviation PENDING_CONTEXT_TTL_SEC :: mono where "PENDING_CONTEXT_TTL_SEC \<equiv> 600"

type_synonym context_buffer = "string \<rightharpoonup> (mono \<times> string) list"

record participant_brief =
  br_name :: "string option"
  br_kind :: "string option"

definition nonempty_str :: "string option \<Rightarrow> bool" where
  "nonempty_str s \<longleftrightarrow> s \<noteq> None \<and> s \<noteq> Some []"

definition resolve_speaker_label :: "string option \<Rightarrow> (string \<rightharpoonup> participant_brief) option \<Rightarrow> string option" where
  "resolve_speaker_label pid roster =
     (case (roster, pid) of
        (Some r, Some p) \<Rightarrow>
          if p = [] then None
          else (case r p of
            None \<Rightarrow> None
          | Some b \<Rightarrow>
              if nonempty_str (br_name b)
              then Some (the (br_name b) @ ''('' @ (if nonempty_str (br_kind b) then the (br_kind b) else ''user'') @ '')'')
              else None)
      | _ \<Rightarrow> None)"

definition append_context_line :: "string \<Rightarrow> string \<Rightarrow> mono \<Rightarrow> context_buffer \<Rightarrow> context_buffer" where
  "append_context_line room line now buf =
     (let old = (case buf room of None \<Rightarrow> [] | Some b \<Rightarrow> b);
          live = filter (\<lambda>(t, _). now - PENDING_CONTEXT_TTL_SEC \<le> t) old;
          kept = (if PENDING_CONTEXT_MAX \<le> length live then tl live else live)
      in buf(room \<mapsto> kept @ [(now, line)]))"

definition drain_context :: "string \<Rightarrow> mono \<Rightarrow> context_buffer \<Rightarrow> context_buffer \<times> string" where
  "drain_context room now buf =
     (let b = (case buf room of None \<Rightarrow> [] | Some b \<Rightarrow> b)
      in (buf(room := None), join_lines (map snd (filter (\<lambda>(t, _). now - PENDING_CONTEXT_TTL_SEC \<le> t) b))))"

text \<open>The buffer of a room: at most ten lines, oldest first, all younger than the time to live at the last write.\<close>

definition buffer_ok :: "mono \<Rightarrow> context_buffer \<Rightarrow> bool" where
  "buffer_ok now buf \<longleftrightarrow> (\<forall>b\<in>ran buf. length b \<le> PENDING_CONTEXT_MAX \<and> sorted (map fst b) \<and> (\<forall>x\<in>set b. fst x \<le> now))"

lemma append_context_ok:
  assumes "buffer_ok before buf" "before \<le> now"
  shows "buffer_ok now (append_context_line room line now buf)"
proof -
  define old where "old = (case buf room of None \<Rightarrow> [] | Some b \<Rightarrow> b)"
  define live where "live = filter (\<lambda>x. now - PENDING_CONTEXT_TTL_SEC \<le> fst x) old"
  define kept where "kept = (if PENDING_CONTEXT_MAX \<le> length live then tl live else live)"
  have old: "length old \<le> PENDING_CONTEXT_MAX" "sorted (map fst old)" "\<forall>x\<in>set old. fst x \<le> now"
  proof -
    have "old = [] \<or> old \<in> ran buf" by (auto simp: old_def ran_def split: option.splits)
    then show "length old \<le> PENDING_CONTEXT_MAX" "sorted (map fst old)" "\<forall>x\<in>set old. fst x \<le> now"
      using assms order_trans [OF _ assms(2)] by (auto simp: buffer_ok_def)
  qed
  have live: "length live \<le> PENDING_CONTEXT_MAX" "sorted (map fst live)" "\<forall>x\<in>set live. fst x \<le> now"
    using old le_trans [OF length_filter_le old(1)] by (auto simp: live_def sorted_filter)
  have "set kept \<subseteq> set live" by (cases live) (auto simp: kept_def)
  then have kept: "length kept < PENDING_CONTEXT_MAX" "sorted (map fst kept)" "\<forall>x\<in>set kept. fst x \<le> now"
    using live by (auto simp: kept_def map_tl sorted_tl)
  have "append_context_line room line now buf = buf(room \<mapsto> kept @ [(now, line)])"
    by (simp add: append_context_line_def old_def [symmetric] live_def kept_def case_prod_beta' Let_def)
  then show ?thesis
    using kept assms by (auto simp: buffer_ok_def sorted_append ran_def split: if_splits) force+
qed

text \<open>A drained room starts empty, and only live lines reach the prompt.\<close>

lemma drain_empties: "fst (drain_context room now buf) room = None"
  "r \<noteq> room \<Longrightarrow> fst (drain_context room now buf) r = buf r"
  by (simp_all add: drain_context_def Let_def)

lemma drain_after_append:
  "snd (drain_context room now (append_context_line room line now (buf(room := None)))) = line"
  by (simp add: drain_context_def append_context_line_def)

end
