(* ===== verification/ReceiptStore.thy ===== *)
theory ReceiptStore
  imports PyValues
begin

text \<open>
  The durable receipts of an agent process: \<open>ReceiptStore\<close> (agent/runtime/execution/store.py) with
  the accounting of an engine that only reports cumulative session counters (usage.py) and the
  types of contracts.py.

  A table is a map from its primary key. JSON columns hold the value they encode; paths, SQL
  files and the directory lock are outside. \<open>sha\<close> is the SHA-256 of the standard library.
\<close>

section \<open>Contract types\<close>

datatype run_outcome = Succeeded | FailedRun | CancelledRun | UnknownRun

datatype proc_state = ProcNotStarted | ProcRunning | ProcFinished | ProcStopped | ProcUnknown

datatype run_state =
    RsQueued | RsLaunching | RsRunning | RsCancelRequested | RsCompleted | RsFailed | RsCancelled | RsUnknown

definition FAILURE_CODES :: "string list" where
  "FAILURE_CODES =
     [''ENGINE_ERROR'', ''ENGINE_AUTH_ERROR'', ''PI_PROVIDER_ERROR'', ''TIMEOUT_STOPPED'', ''TIMEOUT_AFTER_SIDE_EFFECT'',
      ''UNSUPPORTED_RUNTIME'', ''POLICY_DENIED'', ''AUTH_MISSING'', ''UNKNOWN_PROVIDER'', ''AUTH_CHECK_FAILED'',
      ''MODEL_CONFIGURATION_INVALID'', ''MODEL_TRANSIENT_FAILURE'']"

abbreviation SOURCE :: string where "SOURCE \<equiv> ''codex-session-cumulative-v1''"

record runtime_result =
  rr_outcome :: run_outcome
  rr_process :: proc_state
  rr_reason :: string
  rr_text :: "string option"
  rr_session :: "string option"
  rr_usage :: "pyval option"
  rr_source :: "string option"
  rr_cumulative :: pyval
  rr_usage_session :: "string option"
  rr_terminal :: bool

definition plain_result :: "run_outcome \<Rightarrow> proc_state \<Rightarrow> string \<Rightarrow> runtime_result" where
  "plain_result oc ps reason =
     \<lparr>rr_outcome = oc, rr_process = ps, rr_reason = reason, rr_text = None, rr_session = None, rr_usage = None,
      rr_source = None, rr_cumulative = PNone, rr_usage_session = None, rr_terminal = False\<rparr>"

section \<open>Usage of an invocation\<close>

abbreviation MAX_COUNTER :: int where "MAX_COUNTER \<equiv> 9223372036854775807"

record counters =
  ct_input :: "int option"
  ct_output :: "int option"
  ct_cached :: "int option"

definition counter_of :: "pyval \<Rightarrow> int option" where
  "counter_of v = (case v of PInt n \<Rightarrow> if 0 \<le> n \<and> n \<le> MAX_COUNTER then Some n else None | _ \<Rightarrow> None)"

definition counters_of :: "pyval \<Rightarrow> counters option" where
  "counters_of v =
     (case v of
        PDict d \<Rightarrow> Some \<lparr>ct_input = counter_of (dget d ''input_tokens''), ct_output = counter_of (dget d ''output_tokens''),
                        ct_cached = counter_of (dget d ''cached_input_tokens'')\<rparr>
      | _ \<Rightarrow> None)"

record baseline =
  bl_cumulative :: pyval
  bl_valid :: bool
  bl_execution :: string

datatype usage_status =
    FreshMeasured | MeasuredDelta | BaselineMissing | BaselineInvalidated | CounterRollback | SessionChanged
  | SessionUnobserved | TerminalUsageMissing | ProviderUsageInvalid | ProcessOutcomeUnknown | UsageNotStarted

datatype baseline_status = BaseFresh | BaseAbsent | BaseValid | BaseInvalidated

record invocation_usage =
  iu_tokens :: counters
  iu_status :: usage_status
  iu_baseline_status :: baseline_status
  iu_raw :: "counters option"
  iu_prior :: "counters option"
  iu_requested :: "string option"
  iu_observed :: "string option"
  iu_execution :: "string option"

definition zero_counters :: counters where
  "zero_counters = \<lparr>ct_input = Some 0, ct_output = Some 0, ct_cached = Some 0\<rparr>"

definition went_back :: "int option \<Rightarrow> int option \<Rightarrow> bool" where
  "went_back new old \<longleftrightarrow> (case (new, old) of (Some n, Some k) \<Rightarrow> n < k | _ \<Rightarrow> False)"

definition rolled_back :: "counters \<Rightarrow> counters \<Rightarrow> bool" where
  "rolled_back raw prior \<longleftrightarrow> ct_input prior = None \<or> ct_output prior = None
     \<or> went_back (ct_input raw) (ct_input prior) \<or> went_back (ct_output raw) (ct_output prior)
     \<or> went_back (ct_cached raw) (ct_cached prior)"

definition minus_opt :: "int option \<Rightarrow> int option \<Rightarrow> int option" where
  "minus_opt a b = (case (a, b) of (Some n, Some k) \<Rightarrow> Some (n - k) | _ \<Rightarrow> None)"

definition minus_counters :: "counters \<Rightarrow> counters \<Rightarrow> counters" where
  "minus_counters raw prior = \<lparr>ct_input = minus_opt (ct_input raw) (ct_input prior),
     ct_output = minus_opt (ct_output raw) (ct_output prior), ct_cached = minus_opt (ct_cached raw) (ct_cached prior)\<rparr>"

definition no_counters :: counters where
  "no_counters = \<lparr>ct_input = None, ct_output = None, ct_cached = None\<rparr>"

definition baseline_status_of :: "string option \<Rightarrow> baseline option \<Rightarrow> baseline_status" where
  "baseline_status_of requested b =
     (if requested = None then BaseFresh
      else case b of None \<Rightarrow> BaseAbsent | Some r \<Rightarrow> if bl_valid r then BaseValid else BaseInvalidated)"

definition usage_status_of ::
  "string option \<Rightarrow> string option \<Rightarrow> counters option \<Rightarrow> bool \<Rightarrow> proc_state \<Rightarrow> counters option \<Rightarrow> baseline_status \<Rightarrow> usage_status" where
  "usage_status_of requested observed raw terminal_usage process prior bs =
     (if process = ProcNotStarted then UsageNotStarted
      else if process = ProcUnknown then ProcessOutcomeUnknown
      else if \<not> terminal_usage then TerminalUsageMissing
      else case raw of
        None \<Rightarrow> ProviderUsageInvalid
      | Some r \<Rightarrow>
          if ct_input r = None \<or> ct_output r = None then ProviderUsageInvalid
          else if observed = None then SessionUnobserved
          else if requested \<noteq> None \<and> observed \<noteq> requested then SessionChanged
          else if requested = None then FreshMeasured
          else case prior of
            None \<Rightarrow> if bs = BaseInvalidated then BaselineInvalidated else BaselineMissing
          | Some p \<Rightarrow>
              if bs \<noteq> BaseValid then (if bs = BaseInvalidated then BaselineInvalidated else BaselineMissing)
              else if rolled_back r p then CounterRollback else MeasuredDelta)"

definition digest_of :: "(string \<Rightarrow> string) \<Rightarrow> string option \<Rightarrow> string option" where
  "digest_of sha v = (case v of None \<Rightarrow> None | Some s \<Rightarrow> if s = [] then None else Some (sha s))"

definition measure_invocation ::
  "(string \<Rightarrow> string) \<Rightarrow> string option \<Rightarrow> string option \<Rightarrow> pyval \<Rightarrow> bool \<Rightarrow> proc_state \<Rightarrow> baseline option \<Rightarrow> invocation_usage" where
  "measure_invocation sha requested observed cumulative terminal_usage process b =
     (let raw = counters_of cumulative;
          prior0 = (case b of None \<Rightarrow> None | Some r \<Rightarrow> counters_of (bl_cumulative r));
          bs = baseline_status_of requested b;
          status = usage_status_of requested observed raw terminal_usage process prior0 bs;
          prior = (if status = FreshMeasured then Some zero_counters else prior0);
          tokens = (case (raw, prior) of
                      (Some r, Some p) \<Rightarrow> if status \<in> {FreshMeasured, MeasuredDelta} then minus_counters r p else no_counters
                    | _ \<Rightarrow> no_counters)
      in \<lparr>iu_tokens = tokens, iu_status = status, iu_baseline_status = bs, iu_raw = raw, iu_prior = prior,
          iu_requested = digest_of sha requested, iu_observed = digest_of sha observed,
          iu_execution = (case b of None \<Rightarrow> None | Some r \<Rightarrow> digest_of sha (Some (bl_execution r)))\<rparr>)"

text \<open>The dictionary an invocation's usage is stored and sent as.\<close>

definition opt_int :: "int option \<Rightarrow> pyval" where
  "opt_int v = (case v of None \<Rightarrow> PNone | Some n \<Rightarrow> PInt n)"

definition opt_str :: "string option \<Rightarrow> pyval" where
  "opt_str v = (case v of None \<Rightarrow> PNone | Some s \<Rightarrow> PStr s)"

definition counters_dict :: "counters \<Rightarrow> pyval" where
  "counters_dict c = PDict [(''input_tokens'', opt_int (ct_input c)), (''output_tokens'', opt_int (ct_output c)),
     (''cached_input_tokens'', opt_int (ct_cached c))]"

definition opt_counters :: "counters option \<Rightarrow> pyval" where
  "opt_counters c = (case c of None \<Rightarrow> PNone | Some k \<Rightarrow> counters_dict k)"

fun status_str :: "usage_status \<Rightarrow> string" where
  "status_str FreshMeasured = ''fresh_measured''"
| "status_str MeasuredDelta = ''measured_delta''"
| "status_str BaselineMissing = ''baseline_missing''"
| "status_str BaselineInvalidated = ''baseline_invalidated''"
| "status_str CounterRollback = ''counter_rollback''"
| "status_str SessionChanged = ''session_changed''"
| "status_str SessionUnobserved = ''session_unobserved''"
| "status_str TerminalUsageMissing = ''terminal_usage_missing''"
| "status_str ProviderUsageInvalid = ''provider_usage_invalid''"
| "status_str ProcessOutcomeUnknown = ''process_outcome_unknown''"
| "status_str UsageNotStarted = ''not_started''"

fun baseline_str :: "baseline_status \<Rightarrow> string" where
  "baseline_str BaseFresh = ''fresh''"
| "baseline_str BaseAbsent = ''absent''"
| "baseline_str BaseValid = ''valid''"
| "baseline_str BaseInvalidated = ''invalidated''"

definition metadata_dict :: "invocation_usage \<Rightarrow> pyval" where
  "metadata_dict u = PDict
     [(''source'', PStr SOURCE), (''status'', PStr (status_str (iu_status u))),
      (''baseline_status'', PStr (baseline_str (iu_baseline_status u))),
      (''provider_cumulative'', opt_counters (iu_raw u)), (''baseline'', opt_counters (iu_prior u)),
      (''requested_session_sha256'', opt_str (iu_requested u)), (''observed_session_sha256'', opt_str (iu_observed u)),
      (''baseline_execution_sha256'', opt_str (iu_execution u))]"

definition usage_dict :: "invocation_usage \<Rightarrow> pyval" where
  "usage_dict u = PDict
     [(''input_tokens'', opt_int (ct_input (iu_tokens u))), (''output_tokens'', opt_int (ct_output (iu_tokens u))),
      (''cached_input_tokens'', opt_int (ct_cached (iu_tokens u))), (''metadata'', metadata_dict u)]"

section \<open>The store\<close>

record exec_entry =
  ee_fingerprint :: string
  ee_scope :: string
  ee_engine :: string
  ee_state :: run_state
  ee_process :: proc_state
  ee_outcome :: "run_outcome option"
  ee_reason :: "string option"
  ee_text :: "string option"
  ee_usage :: "pyval option"
  ee_pid :: "int option"

record store_event =
  se_execution :: string
  se_sequence :: nat
  se_kind :: string
  se_payload :: pyval

record receipts =
  rs_executions :: "string \<rightharpoonup> exec_entry"
  rs_ids :: "string list"
  rs_events :: "store_event list"
  rs_bindings :: "string \<rightharpoonup> string"
  rs_sessions :: "string \<rightharpoonup> string"
  rs_counters :: "string \<times> string \<rightharpoonup> baseline"

text \<open>What the store reads of an invocation: \<open>fingerprint\<close>, \<open>scope.key\<close> and the materialization are digests.\<close>

record invocation =
  iv_id :: string
  iv_fingerprint :: string
  iv_scope :: string
  iv_engine :: string
  iv_materialization :: string

definition empty_store :: receipts where
  "empty_store = \<lparr>rs_executions = Map.empty, rs_ids = [], rs_events = [], rs_bindings = Map.empty,
     rs_sessions = Map.empty, rs_counters = Map.empty\<rparr>"

definition next_sequence :: "string \<Rightarrow> receipts \<Rightarrow> nat" where
  "next_sequence xid s = Suc (fold max (map se_sequence (filter (\<lambda>e. se_execution e = xid) (rs_events s))) 0)"

definition store_event_add :: "string \<Rightarrow> string \<Rightarrow> pyval \<Rightarrow> receipts \<Rightarrow> receipts" where
  "store_event_add xid kind payload s =
     s\<lparr>rs_events := rs_events s @ [\<lparr>se_execution = xid, se_sequence = next_sequence xid s, se_kind = kind, se_payload = payload\<rparr>]\<rparr>"

definition store_session :: "string \<Rightarrow> receipts \<Rightarrow> string option" where
  "store_session scope s = rs_sessions s scope"

definition scope_blocked :: "string \<Rightarrow> receipts \<Rightarrow> bool" where
  "scope_blocked scope s \<longleftrightarrow>
     list_ex (\<lambda>i. case rs_executions s i of None \<Rightarrow> False
                   | Some e \<Rightarrow> ee_scope e = scope \<and> ee_outcome e = Some UnknownRun) (rs_ids s)"

datatype store_error = StoreKeyError | ConflictContent | ConflictEpoch

definition accept_invocation :: "invocation \<Rightarrow> receipts \<Rightarrow> store_error + bool \<times> receipts" where
  "accept_invocation iv s =
     (case rs_executions s (iv_id iv) of
        Some e \<Rightarrow> if ee_fingerprint e \<noteq> iv_fingerprint iv then Inl ConflictContent else Inr (False, s)
      | None \<Rightarrow>
          if rs_bindings s (iv_scope iv) \<notin> {None, Some (iv_materialization iv)} then Inl ConflictEpoch
          else
            let e = \<lparr>ee_fingerprint = iv_fingerprint iv, ee_scope = iv_scope iv, ee_engine = iv_engine iv,
                     ee_state = RsQueued, ee_process = ProcNotStarted, ee_outcome = None, ee_reason = None,
                     ee_text = None, ee_usage = None, ee_pid = None\<rparr>;
                s1 = s\<lparr>rs_bindings := (rs_bindings s)(iv_scope iv \<mapsto> iv_materialization iv),
                       rs_executions := (rs_executions s)(iv_id iv \<mapsto> e), rs_ids := rs_ids s @ [iv_id iv]\<rparr>
            in Inr (True, store_event_add (iv_id iv) ''accepted'' (PDict []) s1))"

fun run_state_str :: "run_state \<Rightarrow> string" where
  "run_state_str RsQueued = ''queued''"
| "run_state_str RsLaunching = ''launching''"
| "run_state_str RsRunning = ''running''"
| "run_state_str RsCancelRequested = ''cancel_requested''"
| "run_state_str RsCompleted = ''completed''"
| "run_state_str RsFailed = ''failed''"
| "run_state_str RsCancelled = ''cancelled''"
| "run_state_str RsUnknown = ''unknown''"

fun proc_str :: "proc_state \<Rightarrow> string" where
  "proc_str ProcNotStarted = ''not_started''"
| "proc_str ProcRunning = ''running''"
| "proc_str ProcFinished = ''finished''"
| "proc_str ProcStopped = ''stopped''"
| "proc_str ProcUnknown = ''unknown''"

fun outcome_str :: "run_outcome \<Rightarrow> string" where
  "outcome_str Succeeded = ''succeeded''"
| "outcome_str FailedRun = ''failed''"
| "outcome_str CancelledRun = ''cancelled''"
| "outcome_str UnknownRun = ''unknown''"

definition update_entry :: "string \<Rightarrow> (exec_entry \<Rightarrow> exec_entry) \<Rightarrow> receipts \<Rightarrow> receipts" where
  "update_entry xid f s = s\<lparr>rs_executions := (rs_executions s)(xid := map_option f (rs_executions s xid))\<rparr>"

text \<open>The update is guarded by \<open>outcome IS NULL\<close>, the event is not.\<close>

definition store_transition :: "string \<Rightarrow> run_state \<Rightarrow> proc_state \<Rightarrow> int option \<Rightarrow> receipts \<Rightarrow> receipts" where
  "store_transition xid st ps pid s =
     store_event_add xid (run_state_str st) (PDict [(''process_state'', PStr (proc_str ps))])
       (update_entry xid (\<lambda>e. if ee_outcome e \<noteq> None then e
          else e\<lparr>ee_state := (if ee_state e = RsCancelRequested then RsCancelRequested else st),
                 ee_process := ps, ee_pid := pid\<rparr>) s)"

text \<open>The receipt of a row, as its dictionary.\<close>

definition receipt_dict :: "string \<Rightarrow> exec_entry \<Rightarrow> pyval" where
  "receipt_dict xid e = PDict
     [(''execution_id'', PStr xid), (''state'', PStr (run_state_str (ee_state e))), (''process_state'', PStr (proc_str (ee_process e))),
      (''outcome'', opt_str (map_option outcome_str (ee_outcome e))), (''reason'', opt_str (ee_reason e)),
      (''text'', opt_str (ee_text e)), (''usage'', (case ee_usage e of None \<Rightarrow> PNone | Some u \<Rightarrow> u)),
      (''error_code'', (case ee_reason e of
          Some r \<Rightarrow> if ee_outcome e = Some FailedRun \<and> r \<in> set FAILURE_CODES then PStr r else PNone
        | None \<Rightarrow> PNone))]"

section \<open>Finishing\<close>

text \<open>A result whose outcome and process state contradict each other is stored as unknown.\<close>

definition contradictory :: "runtime_result \<Rightarrow> bool" where
  "contradictory r \<longleftrightarrow>
     rr_outcome r = Succeeded \<and> (rr_text r \<in> {None, Some []} \<or> rr_process r \<notin> {ProcFinished, ProcStopped})
     \<or> rr_outcome r = FailedRun \<and> (rr_reason r \<notin> set FAILURE_CODES \<or> rr_process r \<notin> {ProcNotStarted, ProcFinished, ProcStopped})
     \<or> rr_outcome r = CancelledRun \<and> rr_process r \<notin> {ProcNotStarted, ProcStopped}"

definition checked_result :: "runtime_result \<Rightarrow> runtime_result" where
  "checked_result r =
     (if contradictory r
      then r\<lparr>rr_outcome := UnknownRun, rr_process := ProcUnknown, rr_reason := ''invalid_terminal_evidence'',
             rr_text := None, rr_session := None\<rparr>
      else r)"

definition baseline_row :: "string \<Rightarrow> receipts \<Rightarrow> baseline option" where
  "baseline_row scope s =
     (case store_session scope s of
        None \<Rightarrow> None
      | Some h \<Rightarrow> if h = [] then None else rs_counters s (scope, h))"

text \<open>A started run of the counting engine without evidence invalidates an existing counter.\<close>

definition with_evidence :: "exec_entry \<Rightarrow> baseline option \<Rightarrow> runtime_result \<Rightarrow> runtime_result" where
  "with_evidence e b r =
     (if rr_source r \<noteq> Some SOURCE \<and> rr_process r \<noteq> ProcNotStarted \<and> ee_engine e = ''codex-cli'' \<and> b \<noteq> None
      then r\<lparr>rr_source := Some SOURCE, rr_cumulative := PNone, rr_usage_session := None, rr_terminal := False\<rparr>
      else r)"

definition counter_valid :: "runtime_result \<Rightarrow> bool" where
  "counter_valid r \<longleftrightarrow> rr_terminal r \<and> rr_process r \<in> {ProcFinished, ProcStopped}
     \<and> (case counters_of (rr_cumulative r) of None \<Rightarrow> False | Some c \<Rightarrow> ct_input c \<noteq> None \<and> ct_output c \<noteq> None)"

definition counter_row :: "string \<Rightarrow> runtime_result \<Rightarrow> string option \<Rightarrow> baseline option \<Rightarrow> string \<Rightarrow> baseline" where
  "counter_row xid r requested b handle =
     (let hv = counter_valid r \<and> Some handle = rr_usage_session r;
          old = (if Some handle = requested then b else None)
      in \<lparr>bl_cumulative = (if hv then opt_counters (counters_of (rr_cumulative r))
                          else case old of None \<Rightarrow> PNone | Some o' \<Rightarrow> bl_cumulative o'),
          bl_valid = hv,
          bl_execution = (if hv then xid else case old of None \<Rightarrow> xid | Some o' \<Rightarrow> bl_execution o')\<rparr>)"

definition put_counter ::
  "string \<Rightarrow> string \<Rightarrow> runtime_result \<Rightarrow> string option \<Rightarrow> baseline option \<Rightarrow> string option \<Rightarrow> receipts \<Rightarrow> receipts" where
  "put_counter xid scope r requested b h s =
     (case h of
        None \<Rightarrow> s
      | Some handle \<Rightarrow> s\<lparr>rs_counters := (rs_counters s)((scope, handle) \<mapsto> counter_row xid r requested b handle)\<rparr>)"

definition settle_usage ::
  "(string \<Rightarrow> string) \<Rightarrow> string \<Rightarrow> exec_entry \<Rightarrow> runtime_result \<Rightarrow> receipts \<Rightarrow> runtime_result \<times> receipts" where
  "settle_usage sha xid e r0 s =
     (let scope = ee_scope e; requested = store_session scope s; b = baseline_row scope s;
          r = with_evidence e b r0
      in if rr_source r \<noteq> Some SOURCE then (r, s)
         else
           let u = measure_invocation sha requested (rr_usage_session r) (rr_cumulative r) (rr_terminal r) (rr_process r) b;
               r' = r\<lparr>rr_usage := Some (usage_dict u)\<rparr>
           in if rr_process r = ProcNotStarted then (r', s)
              else (r', put_counter xid scope r requested b (rr_usage_session r) (put_counter xid scope r requested b requested s)))"

definition final_state :: "run_outcome \<Rightarrow> run_state" where
  "final_state oc = (case oc of Succeeded \<Rightarrow> RsCompleted | FailedRun \<Rightarrow> RsFailed | CancelledRun \<Rightarrow> RsCancelled | UnknownRun \<Rightarrow> RsUnknown)"

definition stored_usage :: "pyval option \<Rightarrow> pyval option" where
  "stored_usage u = (if u = Some (PDict []) then None else u)"

definition finish_entry :: "runtime_result \<Rightarrow> exec_entry \<Rightarrow> exec_entry" where
  "finish_entry r e = e\<lparr>ee_state := final_state (rr_outcome r), ee_process := rr_process r, ee_outcome := Some (rr_outcome r),
     ee_reason := Some (rr_reason r), ee_text := rr_text r, ee_usage := stored_usage (rr_usage r)\<rparr>"

definition keep_session :: "string \<Rightarrow> runtime_result \<Rightarrow> receipts \<Rightarrow> receipts" where
  "keep_session scope r s =
     (case rr_session r of
        None \<Rightarrow> s
      | Some h \<Rightarrow> if rr_outcome r = Succeeded \<and> h \<noteq> [] then s\<lparr>rs_sessions := (rs_sessions s)(scope \<mapsto> h)\<rparr> else s)"

definition finish :: "(string \<Rightarrow> string) \<Rightarrow> string \<Rightarrow> runtime_result \<Rightarrow> receipts \<Rightarrow> store_error + receipts" where
  "finish sha xid result s =
     (case rs_executions s xid of
        None \<Rightarrow> Inl StoreKeyError
      | Some e \<Rightarrow>
          if ee_outcome e \<noteq> None then Inr s
          else
            let (r, s1) = settle_usage sha xid e (checked_result result) s;
                s2 = keep_session (ee_scope e) r (update_entry xid (finish_entry r) s1)
            in Inr (store_event_add xid ''terminal'' (receipt_dict xid (finish_entry r e)) s2))"

text \<open>The owner's restart closes every run that has no outcome.\<close>

fun recover :: "(string \<Rightarrow> string) \<Rightarrow> string list \<Rightarrow> receipts \<Rightarrow> receipts" where
  "recover sha [] s = s"
| "recover sha (xid # xids) s =
     recover sha xids
       (case rs_executions s xid of
          None \<Rightarrow> s
        | Some e \<Rightarrow>
            if ee_outcome e \<noteq> None then s
            else case finish sha xid
                   (if ee_state e = RsQueued then plain_result CancelledRun ProcNotStarted ''manager_restarted''
                    else plain_result UnknownRun ProcUnknown ''manager_restarted'') s of
                   Inl _ \<Rightarrow> s | Inr s' \<Rightarrow> s')"

definition reopen :: "(string \<Rightarrow> string) \<Rightarrow> receipts \<Rightarrow> receipts" where
  "reopen sha s = recover sha (rs_ids s) s"

definition events_after :: "string \<Rightarrow> nat \<Rightarrow> receipts \<Rightarrow> store_event list" where
  "events_after xid after s =
     take 100 (sort_key se_sequence (filter (\<lambda>e. se_execution e = xid \<and> after < se_sequence e) (rs_events s)))"

section \<open>Receipts are final\<close>

lemma store_event_executions [simp]:
  "rs_executions (store_event_add xid k p s) = rs_executions s" "rs_ids (store_event_add xid k p s) = rs_ids s"
  "rs_counters (store_event_add xid k p s) = rs_counters s" "rs_sessions (store_event_add xid k p s) = rs_sessions s"
  "rs_bindings (store_event_add xid k p s) = rs_bindings s"
  by (simp_all add: store_event_add_def)

lemma update_entry_simps [simp]:
  "rs_executions (update_entry xid f s) = (rs_executions s)(xid := map_option f (rs_executions s xid))"
  "rs_ids (update_entry xid f s) = rs_ids s" "rs_counters (update_entry xid f s) = rs_counters s"
  "rs_sessions (update_entry xid f s) = rs_sessions s" "rs_events (update_entry xid f s) = rs_events s"
  "rs_bindings (update_entry xid f s) = rs_bindings s"
  by (simp_all add: update_entry_def)

lemma put_counter_simps [simp]:
  "rs_executions (put_counter xid sc r q b h s) = rs_executions s" "rs_ids (put_counter xid sc r q b h s) = rs_ids s"
  "rs_sessions (put_counter xid sc r q b h s) = rs_sessions s" "rs_bindings (put_counter xid sc r q b h s) = rs_bindings s"
  "rs_events (put_counter xid sc r q b h s) = rs_events s"
  by (simp_all add: put_counter_def split: option.split)

lemma keep_session_simps [simp]:
  "rs_executions (keep_session sc r s) = rs_executions s" "rs_ids (keep_session sc r s) = rs_ids s"
  "rs_counters (keep_session sc r s) = rs_counters s" "rs_bindings (keep_session sc r s) = rs_bindings s"
  "rs_events (keep_session sc r s) = rs_events s"
  by (simp_all add: keep_session_def split: option.split)

lemma settle_usage_frame [simp]:
  "rs_executions (snd (settle_usage sha xid e r s)) = rs_executions s"
  "rs_ids (snd (settle_usage sha xid e r s)) = rs_ids s"
  "rs_sessions (snd (settle_usage sha xid e r s)) = rs_sessions s"
  "rs_bindings (snd (settle_usage sha xid e r s)) = rs_bindings s"
  "rs_events (snd (settle_usage sha xid e r s)) = rs_events s"
  by (simp_all add: settle_usage_def Let_def)

lemma settle_usage_result [simp]:
  "rr_outcome (fst (settle_usage sha xid e r s)) = rr_outcome r"
  "rr_process (fst (settle_usage sha xid e r s)) = rr_process r"
  "rr_reason (fst (settle_usage sha xid e r s)) = rr_reason r"
  "rr_text (fst (settle_usage sha xid e r s)) = rr_text r"
  "rr_session (fst (settle_usage sha xid e r s)) = rr_session r"
  by (simp_all add: settle_usage_def with_evidence_def Let_def)

lemma finish_entries:
  assumes "finish sha xid result s = Inr s'"
  obtains (old) e where "rs_executions s xid = Some e" "ee_outcome e \<noteq> None" "s' = s"
  | (new) e r where "rs_executions s xid = Some e" "ee_outcome e = None"
      "r = fst (settle_usage sha xid e (checked_result result) s)"
      "rs_executions s' = (rs_executions s)(xid \<mapsto> finish_entry r e)" "rs_ids s' = rs_ids s"
      "rs_bindings s' = rs_bindings s"
proof (cases "rs_executions s xid")
  case None
  then show ?thesis using assms by (simp add: finish_def)
next
  case (Some e)
  show ?thesis
  proof (cases "ee_outcome e = None")
    case True
    show ?thesis
      using assms by (intro new [OF Some True refl]) (auto simp: finish_def Some True case_prod_beta Let_def)
  next
    case False
    then show ?thesis using assms Some by (intro old [OF Some False]) (simp add: finish_def)
  qed
qed

text \<open>What the columns of a row say together.\<close>

definition entry_ok :: "exec_entry \<Rightarrow> bool" where
  "entry_ok e \<longleftrightarrow>
     (case ee_outcome e of
        None \<Rightarrow> ee_state e \<in> {RsQueued, RsLaunching, RsRunning, RsCancelRequested}
          \<and> (ee_state e = RsQueued \<longrightarrow> ee_process e = ProcNotStarted)
      | Some oc \<Rightarrow> ee_state e = final_state oc
          \<and> (oc = Succeeded \<longrightarrow> ee_text e \<notin> {None, Some []} \<and> ee_process e \<in> {ProcFinished, ProcStopped})
          \<and> (oc = FailedRun \<longrightarrow> (\<exists>c\<in>set FAILURE_CODES. ee_reason e = Some c) \<and> ee_process e \<in> {ProcNotStarted, ProcFinished, ProcStopped})
          \<and> (oc = CancelledRun \<longrightarrow> ee_process e \<in> {ProcNotStarted, ProcStopped}))"

lemma checked_not_contradictory: "\<not> contradictory (checked_result r)"
  by (simp add: checked_result_def contradictory_def)

lemma finish_entry_ok:
  assumes "r = fst (settle_usage sha xid e (checked_result result) s)"
  shows "entry_ok (finish_entry r e)"
  using checked_not_contradictory [of result]
  by (auto simp: assms entry_ok_def finish_entry_def contradictory_def)

text \<open>
  The operations of the store in any order. A launch goes through \<open>store_transition\<close> with \<open>launching\<close>
  and \<open>running\<close> only, a cancellation with the process state the row has; the manager also writes
  the session table itself (imports and revocations).
\<close>

inductive store_step :: "(string \<Rightarrow> string) \<Rightarrow> receipts \<Rightarrow> receipts \<Rightarrow> bool" for sha where
  accept: "accept_invocation iv s = Inr (b, s') \<Longrightarrow> store_step sha s s'"
| launching: "store_step sha s (store_transition xid RsLaunching ProcUnknown None s)"
| running: "store_step sha s (store_transition xid RsRunning ProcRunning (Some pid) s)"
| cancelling: "rs_executions s xid = Some e \<Longrightarrow>
    store_step sha s (store_transition xid RsCancelRequested (ee_process e) None s)"
| progress: "store_step sha s (store_event_add xid kind payload s)"
| finish: "finish sha xid r s = Inr s' \<Longrightarrow> store_step sha s s'"
| reopen: "store_step sha s (reopen sha s)"
| sessions: "store_step sha s (s\<lparr>rs_sessions := f\<rparr>)"

abbreviation store_steps :: "(string \<Rightarrow> string) \<Rightarrow> receipts \<Rightarrow> receipts \<Rightarrow> bool" where
  "store_steps sha \<equiv> (store_step sha)\<^sup>*\<^sup>*"

text \<open>Rows stay, keep their identity, and are never written again once they have an outcome.\<close>

definition receipts_kept :: "receipts \<Rightarrow> receipts \<Rightarrow> bool" where
  "receipts_kept s t \<longleftrightarrow>
     (\<forall>xid e. rs_executions s xid = Some e \<longrightarrow>
        (\<exists>e'. rs_executions t xid = Some e' \<and> ee_fingerprint e' = ee_fingerprint e \<and> ee_scope e' = ee_scope e
           \<and> ee_engine e' = ee_engine e \<and> (ee_outcome e \<noteq> None \<longrightarrow> e' = e)))
     \<and> (\<forall>scope m. rs_bindings s scope = Some m \<longrightarrow> rs_bindings t scope = Some m)"

definition store_ok :: "receipts \<Rightarrow> bool" where
  "store_ok s \<longleftrightarrow> dom (rs_executions s) = set (rs_ids s) \<and> (\<forall>e\<in>ran (rs_executions s). entry_ok e)"

lemma receipts_kept_refl [simp]: "receipts_kept s s"
  by (simp add: receipts_kept_def)

lemma receipts_kept_trans: "receipts_kept s t \<Longrightarrow> receipts_kept t u \<Longrightarrow> receipts_kept s u"
  unfolding receipts_kept_def by (smt (verit, ccfv_threshold))

lemma finish_kept: "finish sha xid r s = Inr s' \<Longrightarrow> receipts_kept s s'"
  by (erule finish_entries) (auto simp: receipts_kept_def finish_entry_def)

lemma finish_ok: "finish sha xid r s = Inr s' \<Longrightarrow> store_ok s \<Longrightarrow> store_ok s'"
  by (erule finish_entries) (auto simp: store_ok_def ran_def finish_entry_ok)

lemma recover_step: "P s \<Longrightarrow> (\<And>xid r s s'. P s \<Longrightarrow> finish sha xid r s = Inr s' \<Longrightarrow> P s') \<Longrightarrow> P (recover sha xids s)"
proof (induction xids arbitrary: s)
  case (Cons xid xids)
  show ?case using Cons.IH Cons.prems by (auto split: option.split sum.split)
qed simp

lemma store_transition_kept: "receipts_kept s (store_transition xid st ps pid s)"
  by (auto simp: receipts_kept_def store_transition_def)

lemma store_ok_row:
  assumes "store_ok s" "rs_executions s xid = Some e0" "entry_ok e"
    "rs_executions t = (rs_executions s)(xid \<mapsto> e)" "rs_ids t = rs_ids s"
  shows "store_ok t"
  using assms by (auto simp: store_ok_def ran_def)

lemma store_transition_ok:
  assumes "store_ok s" "st \<in> {RsLaunching, RsRunning, RsCancelRequested}"
  shows "store_ok (store_transition xid st ps pid s)"
proof (cases "rs_executions s xid")
  case None
  then show ?thesis using assms(1) by (simp add: store_ok_def store_transition_def fun_upd_idem)
next
  case (Some e)
  have e: "entry_ok e" using assms(1) Some by (auto simp: store_ok_def ran_def)
  let ?e = "if ee_outcome e \<noteq> None then e
    else e\<lparr>ee_state := (if ee_state e = RsCancelRequested then RsCancelRequested else st), ee_process := ps, ee_pid := pid\<rparr>"
  have "entry_ok ?e" using e assms(2) by (cases "ee_outcome e") (auto simp: entry_ok_def)
  then show ?thesis
    by (rule store_ok_row [OF assms(1) Some]) (simp_all add: store_transition_def Some del: if_split)
qed

lemma accept_kept: "accept_invocation iv s = Inr (b, s') \<Longrightarrow> receipts_kept s s'"
  by (auto simp: accept_invocation_def receipts_kept_def Let_def split: option.splits if_splits)

lemma accept_ok: "accept_invocation iv s = Inr (b, s') \<Longrightarrow> store_ok s \<Longrightarrow> store_ok s'"
proof -
  assume acc: "accept_invocation iv s = Inr (b, s')" and ok: "store_ok s"
  show "store_ok s'"
  proof (cases "rs_executions s (iv_id iv)")
    case None
    obtain e where e: "entry_ok e" "rs_executions s' = (rs_executions s)(iv_id iv \<mapsto> e)" "rs_ids s' = rs_ids s @ [iv_id iv]"
      using acc None by (simp add: accept_invocation_def Let_def split: if_splits) (force simp: entry_ok_def)
    have "ran ((rs_executions s)(iv_id iv \<mapsto> e)) = insert e (ran (rs_executions s))" using None by (rule ran_map_upd)
    then show ?thesis using ok e by (simp add: store_ok_def)
  next
    case (Some e)
    then show ?thesis using acc ok by (simp add: accept_invocation_def split: if_splits)
  qed
qed

lemma event_kept: "receipts_kept s (store_event_add xid kind payload s)"
  by (simp add: receipts_kept_def)

lemma store_step_kept: "store_step sha s t \<Longrightarrow> receipts_kept s t"
proof (induction rule: store_step.induct)
  case (reopen s)
  show ?case unfolding reopen_def
    by (rule recover_step [where P = "receipts_kept s"]) (auto intro: receipts_kept_trans finish_kept)
qed (auto intro: store_transition_kept accept_kept finish_kept event_kept simp: receipts_kept_def [of _ "_\<lparr>rs_sessions := _\<rparr>"])

lemma store_step_ok: "store_step sha s t \<Longrightarrow> store_ok s \<Longrightarrow> store_ok t"
proof (induction rule: store_step.induct)
  case (reopen s)
  then show ?case unfolding reopen_def by (rule recover_step [where P = store_ok]) (rule finish_ok)
next
  case (progress s xid kind payload)
  then show ?case by (simp add: store_ok_def)
next
  case (sessions s f)
  then show ?case by (simp add: store_ok_def)
qed (auto intro: store_transition_ok accept_ok finish_ok)

text \<open>What a user of the store relies on: rows are kept and stay consistent, whatever happens.\<close>

locale receipt_keeper =
  fixes step :: "receipts \<Rightarrow> receipts \<Rightarrow> bool"
  assumes step_kept: "step s t \<Longrightarrow> receipts_kept s t"
    and step_ok: "step s t \<Longrightarrow> store_ok s \<Longrightarrow> store_ok t"
begin

lemma steps_kept: "step\<^sup>*\<^sup>* s t \<Longrightarrow> receipts_kept s t"
  by (induction rule: rtranclp_induct) (auto intro: receipts_kept_trans step_kept)

lemma steps_ok: "step\<^sup>*\<^sup>* s t \<Longrightarrow> store_ok s \<Longrightarrow> store_ok t"
  by (induction rule: rtranclp_induct) (auto intro: step_ok)

lemma final_row: "step\<^sup>*\<^sup>* s t \<Longrightarrow> rs_executions s x = Some e \<Longrightarrow> ee_outcome e \<noteq> None \<Longrightarrow> rs_executions t x = Some e"
  using steps_kept [of s t] unfolding receipts_kept_def by blast

end

interpretation store: receipt_keeper "store_step sha" for sha
  by unfold_locales (auto intro: store_step_kept store_step_ok)

text \<open>
  C34. Whatever the order of accepts, launches, cancellations, progress, results and restarts of
  the agent process: a receipt that has an outcome is never written again, an execution keeps
  its content, scope and engine, a scope keeps its materialization, and every stored outcome is
  backed by its row (a success has a text and an ended process, a failure a known code, a
  cancellation a process that never started or was stopped).
\<close>

theorem receipts_final:
  assumes "store_ok s" "store_steps sha s t"
  shows "store_ok t \<and> receipts_kept s t"
  using assms store.steps_ok store.steps_kept by blast

text \<open>An accepted run that succeeded, then a restart.\<close>

theorem receipts_final_witness:
  "\<exists>t e. store_ok t \<and> receipts_kept empty_store t \<and> rs_executions t ''x'' = Some e \<and> ee_outcome e = Some Succeeded"
proof -
  define iv where "iv = \<lparr>iv_id = ''x'', iv_fingerprint = ''f'', iv_scope = ''s'', iv_engine = ''codex-cli'', iv_materialization = ''m''\<rparr>"
  define r where "r = (plain_result Succeeded ProcFinished ''done'')\<lparr>rr_text := Some ''hello''\<rparr>"
  obtain s1 where s1: "accept_invocation iv empty_store = Inr (True, s1)"
    by (simp add: accept_invocation_def empty_store_def Let_def)
  then have row: "\<exists>e. rs_executions s1 ''x'' = Some e \<and> ee_outcome e = None"
    by (auto simp: accept_invocation_def empty_store_def Let_def iv_def)
  then obtain s2 where s2: "finish id ''x'' r s1 = Inr s2" by (auto simp: finish_def case_prod_beta Let_def)
  have e: "\<exists>e. rs_executions s2 ''x'' = Some e \<and> ee_outcome e = Some Succeeded"
    using s2 by (rule finish_entries) (use row in \<open>auto simp: finish_entry_def checked_result_def contradictory_def r_def plain_result_def\<close>)
  have "store_steps id empty_store s2"
    using store_step.accept [OF s1, of id] store_step.finish [OF s2] by (meson converse_rtranclp_into_rtranclp rtranclp.rtrancl_refl)
  moreover have "store_ok empty_store" by (simp add: store_ok_def empty_store_def)
  ultimately show ?thesis using receipts_final [of empty_store id s2] e by blast
qed

section \<open>Counted tokens\<close>

lemma counter_of_opt: "(\<And>n. v = Some n \<Longrightarrow> 0 \<le> n \<and> n \<le> MAX_COUNTER) \<Longrightarrow> counter_of (opt_int v) = v"
  by (cases v) (auto simp: counter_of_def opt_int_def)

lemma counter_of_range: "counter_of v = Some n \<Longrightarrow> 0 \<le> n \<and> n \<le> MAX_COUNTER"
  by (auto simp: counter_of_def split: pyval.splits if_splits)

text \<open>Counters that went through \<open>counters\<close> once stay as they are.\<close>

definition counters_ok :: "counters \<Rightarrow> bool" where
  "counters_ok c \<longleftrightarrow> (\<forall>v\<in>{ct_input c, ct_output c, ct_cached c}. \<forall>n. v = Some n \<longrightarrow> 0 \<le> n \<and> n \<le> MAX_COUNTER)"

lemma counters_of_ok: "counters_of v = Some c \<Longrightarrow> counters_ok c"
  by (cases v) (auto simp: counters_of_def counters_ok_def dest: counter_of_range)

lemma counters_of_dict:
  assumes "counters_ok c"
  shows "counters_of (counters_dict c) = Some c"
  using assms by (simp add: counters_of_def counters_dict_def dget_def dget_or_def counter_of_opt counters_ok_def)

lemma counters_of_usage:
  assumes "counters_ok (iu_tokens u)"
  shows "counters_of (usage_dict u) = Some (iu_tokens u)"
  using assms by (simp add: counters_of_def usage_dict_def dget_def dget_or_def counter_of_opt counters_ok_def)

lemma minus_counters_ok:
  assumes "counters_ok r" "counters_ok p" "\<not> rolled_back r p"
  shows "counters_ok (minus_counters r p)"
  using assms
  by (auto simp: counters_ok_def minus_counters_def minus_opt_def rolled_back_def went_back_def split: option.splits)

text \<open>A run of session \<open>h\<close> that ended and reported its cumulative counters \<open>c\<close>.\<close>

definition counted_run :: "string \<Rightarrow> runtime_result \<Rightarrow> counters \<Rightarrow> bool" where
  "counted_run h r c \<longleftrightarrow> \<not> contradictory r \<and> rr_source r = Some SOURCE \<and> rr_terminal r
     \<and> rr_process r \<in> {ProcFinished, ProcStopped} \<and> rr_usage_session r = Some h \<and> rr_session r \<in> {None, Some h}
     \<and> counters_of (rr_cumulative r) = Some c \<and> ct_input c \<noteq> None \<and> ct_output c \<noteq> None"

definition counted_from :: "string \<Rightarrow> string \<Rightarrow> counters \<Rightarrow> receipts \<Rightarrow> bool" where
  "counted_from scope h p s \<longleftrightarrow> h \<noteq> [] \<and> rs_sessions s scope = Some h
     \<and> (\<exists>b. rs_counters s (scope, h) = Some b \<and> bl_valid b \<and> counters_of (bl_cumulative b) = Some p)"

definition waiting_run :: "string \<Rightarrow> string \<Rightarrow> receipts \<Rightarrow> bool" where
  "waiting_run scope xid s \<longleftrightarrow> (\<exists>e. rs_executions s xid = Some e \<and> ee_scope e = scope \<and> ee_outcome e = None)"

definition reported :: "string \<Rightarrow> receipts \<Rightarrow> counters option" where
  "reported xid s = (case rs_executions s xid of None \<Rightarrow> None
     | Some e \<Rightarrow> (case ee_usage e of None \<Rightarrow> None | Some u \<Rightarrow> counters_of u))"

lemma finish_counts:
  assumes "waiting_run scope xid s" "counted_from scope h p s" "counted_run h r c" "\<not> rolled_back c p"
  shows "\<exists>s'. finish sha xid r s = Inr s' \<and> counted_from scope h c s' \<and> reported xid s' = Some (minus_counters c p)
    \<and> (\<forall>y. y \<noteq> xid \<longrightarrow> waiting_run scope y s \<longrightarrow> waiting_run scope y s')"
proof -
  obtain e where e: "rs_executions s xid = Some e" "ee_scope e = scope" "ee_outcome e = None"
    using assms(1) by (auto simp: waiting_run_def)
  obtain b where b: "h \<noteq> []" "rs_sessions s scope = Some h" "rs_counters s (scope, h) = Some b" "bl_valid b"
    "counters_of (bl_cumulative b) = Some p" using assms(2) by (auto simp: counted_from_def)
  have r: "checked_result r = r" "rr_source r = Some SOURCE" "rr_terminal r" "rr_process r \<in> {ProcFinished, ProcStopped}"
    "rr_usage_session r = Some h" "rr_session r \<in> {None, Some h}" "counters_of (rr_cumulative r) = Some c"
    "ct_input c \<noteq> None" "ct_output c \<noteq> None"
    using assms(3) by (auto simp: counted_run_def checked_result_def)
  have row: "baseline_row scope s = Some b" using b by (simp add: baseline_row_def store_session_def)
  have ev: "with_evidence e (Some b) r = r" using r by (simp add: with_evidence_def)
  define u where "u = measure_invocation sha (Some h) (Some h) (rr_cumulative r) True (rr_process r) (Some b)"
  have status: "iu_status u = MeasuredDelta" "iu_tokens u = minus_counters c p"
    using r b assms(4) by (auto simp: u_def measure_invocation_def usage_status_of_def baseline_status_of_def Let_def)
  have usage: "counters_of (usage_dict u) = Some (minus_counters c p)"
    using counters_of_usage [of u] minus_counters_ok [OF counters_of_ok [OF r(7)] counters_of_ok [OF b(5)] assms(4)] status by simp
  have valid: "counter_valid r" using r by (simp add: counter_valid_def)
  have settle: "settle_usage sha xid e r s =
      (r\<lparr>rr_usage := Some (usage_dict u)\<rparr>,
       put_counter xid scope r (Some h) (Some b) (Some h) (put_counter xid scope r (Some h) (Some b) (Some h) s))"
    using r e row b ev by (auto simp: settle_usage_def store_session_def u_def Let_def)
  have "usage_dict u \<noteq> PDict []" by (simp add: usage_dict_def)
  then show ?thesis
    using e b r settle valid usage counters_of_dict [OF counters_of_ok [OF r(7)]]
    by (auto simp: finish_def counted_from_def put_counter_def counter_row_def reported_def finish_entry_def
          stored_usage_def keep_session_def waiting_run_def opt_counters_def Let_def split: option.splits)
qed

fun finish_all :: "(string \<Rightarrow> string) \<Rightarrow> (string \<times> runtime_result) list \<Rightarrow> receipts \<Rightarrow> store_error + receipts" where
  "finish_all sha [] s = Inr s"
| "finish_all sha ((xid, r) # runs) s = bindE (finish sha xid r s) (finish_all sha runs)"

text \<open>The reported counters along the runs of a session never go back.\<close>

fun counting :: "string \<Rightarrow> counters \<Rightarrow> (string \<times> runtime_result) list \<Rightarrow> bool" where
  "counting h p [] \<longleftrightarrow> True"
| "counting h p ((xid, r) # runs) \<longleftrightarrow>
     (case counters_of (rr_cumulative r) of
        None \<Rightarrow> False
      | Some c \<Rightarrow> counted_run h r c \<and> \<not> rolled_back c p \<and> counting h c runs)"

fun last_count :: "counters \<Rightarrow> (string \<times> runtime_result) list \<Rightarrow> counters" where
  "last_count p [] = p"
| "last_count p ((xid, r) # runs) = (case counters_of (rr_cumulative r) of None \<Rightarrow> p | Some c \<Rightarrow> last_count c runs)"

definition total :: "(counters \<Rightarrow> int option) \<Rightarrow> (string \<times> runtime_result) list \<Rightarrow> receipts \<Rightarrow> int" where
  "total f runs s = sum_list (map (\<lambda>x. case reported (fst x) s of None \<Rightarrow> 0 | Some c \<Rightarrow> the (f c)) runs)"

lemma finish_all_kept: "finish_all sha runs s = Inr t \<Longrightarrow> receipts_kept s t"
proof (induction runs arbitrary: s)
  case (Cons x runs)
  then show ?case by (cases x) (auto elim!: bindE_InrE intro: receipts_kept_trans finish_kept)
qed simp

lemma reported_kept:
  assumes "receipts_kept s t" "reported xid s = Some c" "finish sha xid r s0 = Inr s"
  shows "reported xid t = Some c"
proof -
  obtain e where e: "rs_executions s xid = Some e" "ee_outcome e \<noteq> None"
    using assms(3) by (rule finish_entries) (auto simp: finish_entry_def)
  then have "rs_executions t xid = Some e" using assms(1) unfolding receipts_kept_def by blast
  then show ?thesis using assms(2) e by (simp add: reported_def)
qed

lemma finish_all_counts:
  assumes "counted_from scope h p s" "counting h p runs" "distinct (map fst runs)"
    "\<forall>x\<in>set runs. waiting_run scope (fst x) s" "ct_input p \<noteq> None" "ct_output p \<noteq> None"
  shows "\<exists>t. finish_all sha runs s = Inr t \<and> counted_from scope h (last_count p runs) t
    \<and> (\<forall>x\<in>set runs. reported (fst x) t \<noteq> None)
    \<and> total ct_input runs t = the (ct_input (last_count p runs)) - the (ct_input p)
    \<and> total ct_output runs t = the (ct_output (last_count p runs)) - the (ct_output p)"
  using assms
proof (induction runs arbitrary: s p)
  case Nil
  then show ?case by (simp add: total_def)
next
  case (Cons x runs)
  obtain xid r where x: "x = (xid, r)" by (cases x)
  obtain c where c: "counters_of (rr_cumulative r) = Some c" "counted_run h r c" "\<not> rolled_back c p" "counting h c runs"
    using Cons.prems(2) x by (auto split: option.splits)
  have full: "ct_input c \<noteq> None" "ct_output c \<noteq> None" using c(2) by (auto simp: counted_run_def)
  have "waiting_run scope xid s" using Cons.prems(4) x by simp
  from finish_counts [OF this Cons.prems(1) c(2,3), of sha] obtain s1 where s1: "finish sha xid r s = Inr s1"
    "counted_from scope h c s1" "reported xid s1 = Some (minus_counters c p)"
    "\<And>y. y \<noteq> xid \<Longrightarrow> waiting_run scope y s \<Longrightarrow> waiting_run scope y s1" by blast
  have wait: "\<forall>x\<in>set runs. waiting_run scope (fst x) s1"
    using s1(4) Cons.prems(3,4) x by (metis (no_types, lifting) distinct.simps(2) fst_conv image_eqI list.set_intros(2) list.simps(9) set_map)
  from Cons.IH [OF s1(2) c(4) _ wait full] Cons.prems(3) obtain t where t: "finish_all sha runs s1 = Inr t"
    "counted_from scope h (last_count c runs) t" "\<forall>x\<in>set runs. reported (fst x) t \<noteq> None"
    "total ct_input runs t = the (ct_input (last_count c runs)) - the (ct_input c)"
    "total ct_output runs t = the (ct_output (last_count c runs)) - the (ct_output c)" by auto
  have rep: "reported xid t = Some (minus_counters c p)"
    by (rule reported_kept [OF finish_all_kept [OF t(1)] s1(3) s1(1)])
  obtain i i' k k' where "ct_input c = Some i" "ct_input p = Some i'" "ct_output c = Some k" "ct_output p = Some k'"
    using full Cons.prems(5,6) by auto
  then show ?case using t s1(1) rep x c(1) by (simp add: total_def minus_counters_def minus_opt_def)
qed

text \<open>
  C35. Along any number of runs that resume one native session and end with non-decreasing
  cumulative counters, the tokens reported for the runs add up to exactly what the session
  counter moved: nothing is counted twice and nothing between the first and the last report is
  lost, and the stored baseline is the last report.
\<close>

theorem session_tokens_conserved:
  assumes "counted_from scope h p s" "counting h p runs" "distinct (map fst runs)"
    "\<forall>x\<in>set runs. waiting_run scope (fst x) s" "ct_input p \<noteq> None" "ct_output p \<noteq> None"
  shows "\<exists>t. finish_all sha runs s = Inr t \<and> counted_from scope h (last_count p runs) t
    \<and> (\<forall>x\<in>set runs. reported (fst x) t \<noteq> None)
    \<and> total ct_input runs t = the (ct_input (last_count p runs)) - the (ct_input p)
    \<and> total ct_output runs t = the (ct_output (last_count p runs)) - the (ct_output p)"
  using finish_all_counts [OF assms] .

text \<open>Two runs that resume a session whose counter stood at 10 and 5.\<close>

theorem session_tokens_conserved_witness:
  "\<exists>s runs t. finish_all id runs s = Inr t \<and> length runs = 2 \<and> total ct_input runs t = 40 \<and> total ct_output runs t = 7"
proof -
  define c where "c = (\<lambda>i k. PDict [(''input_tokens'', PInt i), (''output_tokens'', PInt k)])"
  define e where "e = \<lparr>ee_fingerprint = ''f'', ee_scope = ''s'', ee_engine = ''codex-cli'', ee_state = RsRunning,
    ee_process = ProcRunning, ee_outcome = None, ee_reason = None, ee_text = None, ee_usage = None, ee_pid = Some 7\<rparr>"
  define s where "s = empty_store\<lparr>rs_executions := [''a'' \<mapsto> e, ''b'' \<mapsto> e], rs_ids := [''a'', ''b''],
    rs_sessions := [''s'' \<mapsto> ''h''],
    rs_counters := [(''s'', ''h'') \<mapsto> \<lparr>bl_cumulative = c 10 5, bl_valid = True, bl_execution = ''z''\<rparr>]\<rparr>"
  define r where "r = (\<lambda>i k. (plain_result Succeeded ProcFinished ''done'')\<lparr>rr_text := Some ''ok'', rr_source := Some SOURCE,
    rr_cumulative := c i k, rr_usage_session := Some ''h'', rr_terminal := True\<rparr>)"
  define n where "n = (\<lambda>i k. \<lparr>ct_input = Some i, ct_output = Some k, ct_cached = None\<rparr>)"
  have c: "counters_of (c i k) = Some (n i k)" if "0 \<le> i" "i \<le> 100" "0 \<le> k" "k \<le> 100" for i k
    using that by (simp add: c_def counters_of_def n_def dget_def dget_or_def counter_of_def)
  have base: "counted_from ''s'' ''h'' (n 10 5) s" by (simp add: counted_from_def s_def empty_store_def c)
  have run: "counted_run ''h'' (r i k) (n i k)" if "0 \<le> i" "i \<le> 100" "0 \<le> k" "k \<le> 100" for i k
    using c [OF that] by (simp add: counted_run_def r_def plain_result_def contradictory_def n_def)
  have cum: "counters_of (rr_cumulative (r i k)) = counters_of (c i k)" for i k by (simp add: r_def)
  have fwd: "\<not> rolled_back (n 30 9) (n 10 5)" "\<not> rolled_back (n 50 12) (n 30 9)"
    by (simp_all add: rolled_back_def went_back_def n_def)
  have chain: "counting ''h'' (n 10 5) [(''a'', r 30 9), (''b'', r 50 12)]"
    using run [of 30 9] run [of 50 12] fwd by (simp add: cum c)
  have wait: "\<forall>x\<in>set [(''a'', r 30 9), (''b'', r 50 12)]. waiting_run ''s'' (fst x) s"
    by (simp add: waiting_run_def s_def e_def)
  have fin: "last_count (n 10 5) [(''a'', r 30 9), (''b'', r 50 12)] = n 50 12" by (simp add: cum c)
  obtain t where "finish_all id [(''a'', r 30 9), (''b'', r 50 12)] s = Inr t"
    "total ct_input [(''a'', r 30 9), (''b'', r 50 12)] t = 50 - 10"
    "total ct_output [(''a'', r 30 9), (''b'', r 50 12)] t = 12 - 5"
    using session_tokens_conserved [OF base chain _ wait, of id, unfolded fin] by (auto simp: n_def)
  then show ?thesis
    by (intro exI [of _ s] exI [of _ "[(''a'', r 30 9), (''b'', r 50 12)]"] exI [of _ t]) simp
qed

end
