(* ===== verification/LocalExecution.thy ===== *)
theory LocalExecution
  imports ReceiptStore "HOL-Library.AList"
begin

text \<open>
  The local execution manager of an agent (agent/runtime/execution/manager.py): queueing and
  launching of invocations over the receipt store, cancellation, and the stop receipts that the
  cluster takes as proof that a delivered turn no longer runs.

  The event loop interleaves \<open>_run\<close> tasks, stops and cancellations at their awaits, so each of
  them is split there into steps on one state; every step between two awaits is a function and
  \<open>manager_step\<close> collects them. A lock of a session scope is the execution that holds it.
  Authorization is the answer of the policy owner at the moment it is asked, the validation of
  an invocation (beyond its identifier) a boolean; the runtime is whatever it reports.
\<close>

section \<open>State\<close>

text \<open>\<open>str(UUID(v)) == v\<close>: lower-case hexadecimal digits in groups of 8, 4, 4, 4 and 12.\<close>

definition hex_digit :: "char \<Rightarrow> bool" where
  "hex_digit c \<longleftrightarrow> c \<in> set ''0123456789abcdef''"

definition canonical_uuid :: "string \<Rightarrow> bool" where
  "canonical_uuid s \<longleftrightarrow> length s = 36
     \<and> list_all (\<lambda>(i, c). if i \<in> {8, 13, 18, 23} then c = CHR ''-'' else hex_digit c) (List.enumerate 0 s)"

type_synonym turn_key = "string \<times> string \<times> int \<times> int"

record turn_identity =
  ti_room :: string
  ti_request :: string
  ti_attempt :: int
  ti_generation :: int
  ti_execution :: "string option"
  ti_revision :: "int option"

definition identity_key :: "turn_identity \<Rightarrow> turn_key" where
  "identity_key i = (ti_room i, ti_request i, ti_attempt i, ti_generation i)"

record turn_binding =
  bn_identity :: turn_identity
  bn_local :: "string option"
  bn_cancelled :: bool

datatype stop_answer = SaUnknown | SaNotStarted | SaAlreadyFinished | SaConfirmed

record stop_result =
  sr_local :: "string option"
  sr_status :: stop_answer
  sr_process :: proc_state
  sr_outcome :: "run_outcome option"
  sr_code :: "string option"

record saved_stop =
  sv_was_finished :: "bool option"
  sv_receipt :: "stop_result option"

record manager =
  mg_store :: receipts
  mg_bindings :: "(turn_key \<times> turn_binding) list"
  mg_stops :: "turn_key \<rightharpoonup> saved_stop"
  mg_tasks :: "string list"
  mg_locks :: "string \<rightharpoonup> string"
  mg_imports :: "string list"
  mg_closed :: bool

datatype turn_error = TurnScopeInvalid | TurnBindingChanged | TurnCancelled | LocalExecutionMismatch

definition invocation_cancelled :: "string \<Rightarrow> manager \<Rightarrow> bool" where
  "invocation_cancelled xid m \<longleftrightarrow> list_ex (\<lambda>(_, b). bn_local b = Some xid \<and> bn_cancelled b) (mg_bindings m)"

section \<open>Bindings of turns\<close>

definition put_binding :: "turn_key \<Rightarrow> turn_binding \<Rightarrow> manager \<Rightarrow> manager" where
  "put_binding k b m = m\<lparr>mg_bindings := AList.update k b (mg_bindings m)\<rparr>"

definition bind_turn :: "turn_identity \<Rightarrow> string \<Rightarrow> manager \<Rightarrow> turn_error + string \<times> manager" where
  "bind_turn i xid m =
     (if \<not> canonical_uuid xid then Inl TurnScopeInvalid
      else case map_of (mg_bindings m) (identity_key i) of
        None \<Rightarrow> Inr (xid, put_binding (identity_key i) \<lparr>bn_identity = i, bn_local = Some xid, bn_cancelled = False\<rparr> m)
      | Some b \<Rightarrow>
          if ti_execution (bn_identity b) \<noteq> ti_execution i \<or> ti_revision (bn_identity b) \<noteq> ti_revision i
          then Inl TurnBindingChanged
          else if bn_cancelled b then Inl TurnCancelled
          else case bn_local b of
            Some y \<Rightarrow> Inr (y, m)
          | None \<Rightarrow> Inr (xid, put_binding (identity_key i) (b\<lparr>bn_local := Some xid\<rparr>) m))"

definition turn_cancelled :: "turn_identity \<Rightarrow> manager \<Rightarrow> bool" where
  "turn_cancelled i m = (case map_of (mg_bindings m) (identity_key i) of None \<Rightarrow> False | Some b \<Rightarrow> bn_cancelled b)"

definition turn_receipt :: "turn_identity \<Rightarrow> manager \<Rightarrow> exec_entry option" where
  "turn_receipt i m =
     (case map_of (mg_bindings m) (identity_key i) of
        None \<Rightarrow> None
      | Some b \<Rightarrow> (case bn_local b of None \<Rightarrow> None | Some xid \<Rightarrow> rs_executions (mg_store m) xid))"

section \<open>Cancelling and stopping\<close>

text \<open>\<open>_cancel\<close> up to its first await; an unknown execution raises \<open>KeyError\<close>.\<close>

definition cancel_local :: "string \<Rightarrow> manager \<Rightarrow> manager" where
  "cancel_local xid m =
     (case rs_executions (mg_store m) xid of
        None \<Rightarrow> m
      | Some e \<Rightarrow>
          if ee_outcome e \<noteq> None \<or> ee_state e = RsCancelRequested then m
          else m\<lparr>mg_store := store_transition xid RsCancelRequested (ee_process e) None (mg_store m)\<rparr>)"

definition persist_stop :: "turn_key \<Rightarrow> stop_result \<Rightarrow> manager \<Rightarrow> manager" where
  "persist_stop k r m =
     m\<lparr>mg_stops := (mg_stops m)(k \<mapsto>
         (case mg_stops m k of None \<Rightarrow> \<lparr>sv_was_finished = None, sv_receipt = Some r\<rparr> | Some v \<Rightarrow> v\<lparr>sv_receipt := Some r\<rparr>))\<rparr>"

definition persist_finished :: "turn_key \<Rightarrow> bool \<Rightarrow> manager \<Rightarrow> manager" where
  "persist_finished k fin m =
     m\<lparr>mg_stops := (mg_stops m)(k \<mapsto>
         (case mg_stops m k of
            None \<Rightarrow> \<lparr>sv_was_finished = Some fin, sv_receipt = None\<rparr>
          | Some v \<Rightarrow> v\<lparr>sv_was_finished := (case sv_was_finished v of None \<Rightarrow> Some fin | Some f \<Rightarrow> Some f)\<rparr>))\<rparr>"

definition unknown_stop :: "string option \<Rightarrow> stop_result" where
  "unknown_stop xid = \<lparr>sr_local = xid, sr_status = SaUnknown, sr_process = ProcUnknown, sr_outcome = Some UnknownRun,
     sr_code = Some ''LOCAL_EXECUTION_UNKNOWN''\<rparr>"

definition not_started_stop :: "string option \<Rightarrow> stop_result" where
  "not_started_stop xid = \<lparr>sr_local = xid, sr_status = SaNotStarted, sr_process = ProcNotStarted,
     sr_outcome = Some CancelledRun, sr_code = None\<rparr>"

datatype stop_progress = StopDone stop_result | StopWaits string bool

definition stop_local :: "turn_identity \<Rightarrow> string option \<Rightarrow> manager \<Rightarrow> turn_error + string option" where
  "stop_local i xid m =
     (case map_of (mg_bindings m) (identity_key i) of
        None \<Rightarrow> Inr xid
      | Some b \<Rightarrow>
          if ti_execution (bn_identity b) \<noteq> None
             \<and> (ti_execution (bn_identity b) \<noteq> ti_execution i \<or> ti_revision (bn_identity b) \<noteq> ti_revision i)
          then Inl TurnBindingChanged
          else if xid \<noteq> None \<and> bn_local b \<noteq> None \<and> bn_local b \<noteq> xid then Inl LocalExecutionMismatch
          else Inr (if bn_local b = None \<or> bn_local b = Some [] then xid else bn_local b))"

definition unknown_origin :: "saved_stop option \<Rightarrow> bool" where
  "unknown_origin v \<longleftrightarrow> (case v of None \<Rightarrow> False
     | Some w \<Rightarrow> (case sv_receipt w of None \<Rightarrow> False | Some r \<Rightarrow> sr_code r = Some ''LOCAL_EXECUTION_UNKNOWN''))"

definition settled_stop :: "saved_stop option \<Rightarrow> stop_result option" where
  "settled_stop v = (case v of None \<Rightarrow> None
     | Some w \<Rightarrow> (case sv_receipt w of None \<Rightarrow> None | Some r \<Rightarrow> if sr_status r \<noteq> SaUnknown then Some r else None))"

text \<open>\<open>stop_turn\<close> up to the wait for the task.\<close>

definition stop_begin :: "turn_identity \<Rightarrow> string option \<Rightarrow> manager \<Rightarrow> turn_error + stop_progress \<times> manager" where
  "stop_begin i xid m =
     (let k = identity_key i; known = (map_of (mg_bindings m) k \<noteq> None) in
      case stop_local i xid m of
        Inl err \<Rightarrow> Inl err
      | Inr x \<Rightarrow>
          let m1 = put_binding k \<lparr>bn_identity = i, bn_local = x, bn_cancelled = True\<rparr> m; saved = mg_stops m1 k in
          case settled_stop saved of
            Some r \<Rightarrow> Inr (StopDone r, m1)
          | None \<Rightarrow>
              case x of
                None \<Rightarrow> let r = not_started_stop None in Inr (StopDone r, persist_stop k r m1)
              | Some y \<Rightarrow>
                  case rs_executions (mg_store m1) y of
                    None \<Rightarrow>
                      let r = (if known \<and> \<not> unknown_origin saved then not_started_stop x else unknown_stop x)
                      in Inr (StopDone r, persist_stop k r m1)
                  | Some e \<Rightarrow>
                      let fin = (case saved of Some v \<Rightarrow> (case sv_was_finished v of Some f \<Rightarrow> f | None \<Rightarrow> ee_outcome e \<noteq> None)
                                 | None \<Rightarrow> ee_outcome e \<noteq> None)
                      in Inr (StopWaits y fin, cancel_local y (persist_finished k fin m1)))"

definition stop_verdict :: "string \<Rightarrow> bool \<Rightarrow> exec_entry \<Rightarrow> stop_result" where
  "stop_verdict y fin e =
     (let r = \<lparr>sr_local = Some y, sr_status = SaUnknown, sr_process = ee_process e, sr_outcome = ee_outcome e,
               sr_code = Some ''LOCAL_EXECUTION_UNKNOWN''\<rparr>
      in if ee_outcome e = None \<or> ee_process e \<in> {ProcRunning, ProcUnknown}
         then r\<lparr>sr_process := ProcUnknown, sr_code := Some ''STOP_UNCONFIRMED''\<rparr>
         else if ee_process e = ProcNotStarted then r\<lparr>sr_status := SaNotStarted, sr_code := None\<rparr>
         else if fin then r\<lparr>sr_status := SaAlreadyFinished, sr_process := ProcFinished, sr_code := None\<rparr>
         else if ee_process e \<in> {ProcStopped, ProcFinished}
         then r\<lparr>sr_status := SaConfirmed, sr_process := ProcStopped, sr_code := None\<rparr>
         else r)"

text \<open>After the wait, whether the task ended or the wait timed out.\<close>

definition stop_end :: "turn_key \<Rightarrow> string \<Rightarrow> bool \<Rightarrow> manager \<Rightarrow> store_error + stop_result \<times> manager" where
  "stop_end k y fin m =
     (case rs_executions (mg_store m) y of
        None \<Rightarrow> Inl StoreKeyError
      | Some e \<Rightarrow> let r = stop_verdict y fin e in Inr (r, persist_stop k r m))"

section \<open>Running\<close>

datatype start_error = ManagerClosed | InvalidInvocation | StartTurnCancelled | PermissionDenied | QueueFull | StartStore store_error

definition start :: "nat \<Rightarrow> bool \<Rightarrow> bool \<Rightarrow> invocation \<Rightarrow> manager \<Rightarrow> start_error + manager" where
  "start queue_limit valid authorized iv m =
     (if mg_closed m then Inl ManagerClosed
      else if iv_id iv = [] \<or> \<not> valid then Inl InvalidInvocation
      else if invocation_cancelled (iv_id iv) m then Inl StartTurnCancelled
      else if \<not> authorized then Inl PermissionDenied
      else if rs_executions (mg_store m) (iv_id iv) = None \<and> queue_limit \<le> length (mg_tasks m) then Inl QueueFull
      else case accept_invocation iv (mg_store m) of
        Inl err \<Rightarrow> Inl (StartStore err)
      | Inr (new, s) \<Rightarrow>
          Inr (m\<lparr>mg_store := s, mg_tasks := (if new then mg_tasks m @ [iv_id iv] else mg_tasks m)\<rparr>))"

definition release :: "string \<Rightarrow> (string \<rightharpoonup> string) \<Rightarrow> string \<rightharpoonup> string" where
  "release xid locks = (\<lambda>sc. if locks sc = Some xid then None else locks sc)"

text \<open>The end of a task: its lock is free again and its entry leaves the queue.\<close>

definition close_task :: "(string \<Rightarrow> string) \<Rightarrow> string \<Rightarrow> runtime_result \<Rightarrow> manager \<Rightarrow> manager" where
  "close_task sha xid r m =
     (case finish sha xid r (mg_store m) of
        Inl _ \<Rightarrow> m
      | Inr s \<Rightarrow> m\<lparr>mg_store := s, mg_tasks := remove1 xid (mg_tasks m), mg_locks := release xid (mg_locks m)\<rparr>)"

text \<open>\<open>_run\<close> from taking the lock to the runtime.\<close>

definition run_begin :: "(string \<Rightarrow> string) \<Rightarrow> bool \<Rightarrow> string \<Rightarrow> exec_entry \<Rightarrow> manager \<Rightarrow> manager" where
  "run_begin sha authorized xid e m =
     (if ee_state e = RsCancelRequested \<or> invocation_cancelled xid m
      then close_task sha xid (plain_result CancelledRun ProcNotStarted ''cancelled_before_start'') m
      else if \<not> authorized \<or> scope_blocked (ee_scope e) (mg_store m)
      then close_task sha xid (plain_result FailedRun ProcNotStarted ''POLICY_DENIED'') m
      else m\<lparr>mg_store := store_transition xid RsLaunching ProcUnknown None (mg_store m),
             mg_locks := (mg_locks m)(ee_scope e \<mapsto> xid)\<rparr>)"

definition launched :: "string \<Rightarrow> int \<Rightarrow> manager \<Rightarrow> manager" where
  "launched xid pid m = m\<lparr>mg_store := store_transition xid RsRunning ProcRunning (Some pid) (mg_store m)\<rparr>"

definition run_emit :: "string \<Rightarrow> string \<Rightarrow> pyval \<Rightarrow> manager \<Rightarrow> manager" where
  "run_emit xid kind payload m = m\<lparr>mg_store := store_event_add xid kind payload (mg_store m)\<rparr>"

definition run_end :: "(string \<Rightarrow> string) \<Rightarrow> string \<Rightarrow> exec_entry \<Rightarrow> runtime_result \<Rightarrow> manager \<Rightarrow> manager" where
  "run_end sha xid e r m =
     close_task sha xid
       (if ee_state e = RsCancelRequested \<and> rr_outcome r = Succeeded
        then r\<lparr>rr_outcome := CancelledRun, rr_process := ProcStopped, rr_reason := ''completed_after_cancel'', rr_text := None\<rparr>
        else r) m"

definition run_cancelled :: "(string \<Rightarrow> string) \<Rightarrow> string \<Rightarrow> exec_entry \<Rightarrow> manager \<Rightarrow> manager" where
  "run_cancelled sha xid e m =
     close_task sha xid
       (if ee_process e = ProcNotStarted then plain_result CancelledRun ProcNotStarted ''cancelled_before_start''
        else plain_result UnknownRun ProcUnknown ''unconfirmed_cancel'') m"

definition run_failed :: "(string \<Rightarrow> string) \<Rightarrow> string \<Rightarrow> manager \<Rightarrow> manager" where
  "run_failed sha xid m = close_task sha xid (plain_result UnknownRun ProcUnknown ''runtime_error'') m"

section \<open>Control operations\<close>

definition import_legacy_session :: "bool \<Rightarrow> string \<Rightarrow> string option \<Rightarrow> string \<Rightarrow> manager \<Rightarrow> manager option" where
  "import_legacy_session authorized scope handle source m =
     (if \<not> authorized then None
      else if source \<in> set (mg_imports m) then Some m
      else
        let m1 = m\<lparr>mg_imports := source # mg_imports m\<rparr> in
        case handle of
          None \<Rightarrow> Some m1
        | Some h \<Rightarrow>
            if h = [] \<or> rs_sessions (mg_store m) scope \<noteq> None then Some m1
            else Some (m1\<lparr>mg_store := (mg_store m)\<lparr>rs_sessions := (rs_sessions (mg_store m))(scope \<mapsto> h)\<rparr>\<rparr>))"

definition scope_of :: "string \<Rightarrow> manager \<Rightarrow> string option" where
  "scope_of xid m = map_option ee_scope (rs_executions (mg_store m) xid)"

definition revoke :: "string \<Rightarrow> manager \<Rightarrow> manager" where
  "revoke scope m =
     (let m1 = m\<lparr>mg_store := (mg_store m)\<lparr>rs_sessions := (rs_sessions (mg_store m))(scope := None)\<rparr>\<rparr>
      in fold (\<lambda>xid n. if scope_of xid n = Some scope then cancel_local xid n else n) (mg_tasks m) m1)"

definition close_manager :: "manager \<Rightarrow> manager" where
  "close_manager m = fold cancel_local (mg_tasks m) (m\<lparr>mg_closed := True\<rparr>)"

text \<open>A new process over the same directory.\<close>

definition restart :: "(string \<Rightarrow> string) \<Rightarrow> manager \<Rightarrow> manager" where
  "restart sha m = m\<lparr>mg_store := reopen sha (mg_store m), mg_tasks := [], mg_locks := Map.empty, mg_closed := False\<rparr>"

definition new_manager :: manager where
  "new_manager = \<lparr>mg_store = empty_store, mg_bindings = [], mg_stops = Map.empty, mg_tasks = [], mg_locks = Map.empty,
     mg_imports = [], mg_closed = False\<rparr>"

section \<open>All interleavings\<close>

definition holds_lock :: "string \<Rightarrow> manager \<Rightarrow> bool" where
  "holds_lock xid m \<longleftrightarrow> (\<exists>sc. mg_locks m sc = Some xid)"

definition bound_stopped :: "turn_key \<Rightarrow> string \<Rightarrow> manager \<Rightarrow> bool" where
  "bound_stopped k y m \<longleftrightarrow> (\<exists>b. map_of (mg_bindings m) k = Some b \<and> bn_cancelled b \<and> bn_local b = Some y)"

inductive manager_step :: "(string \<Rightarrow> string) \<Rightarrow> nat \<Rightarrow> manager \<Rightarrow> manager \<Rightarrow> bool" for sha limit where
  bind: "bind_turn i xid m = Inr (y, m') \<Longrightarrow> manager_step sha limit m m'"
| start: "start limit valid authorized iv m = Inr m' \<Longrightarrow> manager_step sha limit m m'"
| begin_run: "\<lbrakk>xid \<in> set (mg_tasks m); rs_executions (mg_store m) xid = Some e; mg_locks m (ee_scope e) = None\<rbrakk>
    \<Longrightarrow> manager_step sha limit m (run_begin sha authorized xid e m)"
| launch: "\<lbrakk>rs_executions (mg_store m) xid = Some e; mg_locks m (ee_scope e) = Some xid\<rbrakk>
    \<Longrightarrow> manager_step sha limit m (launched xid pid m)"
| emit: "manager_step sha limit m (run_emit xid kind payload m)"
| end_run: "\<lbrakk>holds_lock xid m; rs_executions (mg_store m) xid = Some e\<rbrakk> \<Longrightarrow> manager_step sha limit m (run_end sha xid e r m)"
| task_cancelled: "\<lbrakk>xid \<in> set (mg_tasks m); rs_executions (mg_store m) xid = Some e\<rbrakk>
    \<Longrightarrow> manager_step sha limit m (run_cancelled sha xid e m)"
| task_failed: "xid \<in> set (mg_tasks m) \<Longrightarrow> manager_step sha limit m (run_failed sha xid m)"
| cancel: "manager_step sha limit m (cancel_local xid m)"
| stop: "stop_begin i xid m = Inr (p, m') \<Longrightarrow> manager_step sha limit m m'"
| stopped: "\<lbrakk>bound_stopped k y m; stop_end k y fin m = Inr (r, m')\<rbrakk> \<Longrightarrow> manager_step sha limit m m'"
| import: "import_legacy_session authorized scope handle source m = Some m' \<Longrightarrow> manager_step sha limit m m'"
| revoke: "manager_step sha limit m (revoke scope m)"
| close: "manager_step sha limit m (close_manager m)"
| restart: "manager_step sha limit m (restart sha m)"

abbreviation manager_steps :: "(string \<Rightarrow> string) \<Rightarrow> nat \<Rightarrow> manager \<Rightarrow> manager \<Rightarrow> bool" where
  "manager_steps sha limit \<equiv> (manager_step sha limit)\<^sup>*\<^sup>*"

text \<open>The suspended second half of a stop always finds the binding it wrote.\<close>

lemma map_of_put_binding [simp]: "map_of (mg_bindings (put_binding k b m)) = (map_of (mg_bindings m))(k \<mapsto> b)"
  by (simp add: put_binding_def update_conv')

lemma put_binding_simps [simp]:
  "mg_store (put_binding k b m) = mg_store m" "mg_stops (put_binding k b m) = mg_stops m"
  "mg_tasks (put_binding k b m) = mg_tasks m" "mg_locks (put_binding k b m) = mg_locks m"
  by (simp_all add: put_binding_def)

lemma cancel_local_simps [simp]:
  "mg_bindings (cancel_local xid m) = mg_bindings m" "mg_stops (cancel_local xid m) = mg_stops m"
  "mg_tasks (cancel_local xid m) = mg_tasks m" "mg_locks (cancel_local xid m) = mg_locks m"
  by (auto simp: cancel_local_def split: option.split)

lemma persist_simps [simp]:
  "mg_store (persist_stop k r m) = mg_store m" "mg_bindings (persist_stop k r m) = mg_bindings m"
  "mg_locks (persist_stop k r m) = mg_locks m" "mg_store (persist_finished k f m) = mg_store m"
  "mg_bindings (persist_finished k f m) = mg_bindings m" "mg_locks (persist_finished k f m) = mg_locks m"
  by (simp_all add: persist_stop_def persist_finished_def)

lemma stop_waits_bound:
  assumes "stop_begin i xid m = Inr (StopWaits y fin, m')"
  shows "bound_stopped (identity_key i) y m'"
  using assms by (auto simp: stop_begin_def Let_def bound_stopped_def split: sum.splits option.splits if_splits)

section \<open>Stop receipts hold\<close>

lemma close_task_store: "store_steps sha (mg_store m) (mg_store (close_task sha xid r m))"
  by (auto simp: close_task_def split: sum.split intro: store_step.finish)

lemma cancel_local_store: "store_steps sha (mg_store m) (mg_store (cancel_local xid m))"
  by (auto simp: cancel_local_def split: option.split intro: store_step.cancelling)

lemma cancel_local_wrapped:
  "mg_store (cancel_local y (persist_finished k f (put_binding k' b m))) = mg_store (cancel_local y m)"
  by (simp add: cancel_local_def split: option.split)

lemma fold_cancel_store: "store_steps sha (mg_store m) (mg_store (fold (\<lambda>xid n. if P xid n then cancel_local xid n else n) xids m))"
proof (induction xids arbitrary: m)
  case (Cons x xids)
  show ?case
    using rtranclp_trans [OF cancel_local_store [of sha m x] Cons.IH [of "cancel_local x m"]] Cons.IH [of m] by simp
qed simp

lemma accept_steps: "accept_invocation iv s = Inr (b, s') \<Longrightarrow> store_steps sha s s'"
  by (blast intro: store_step.accept)

lemma sessions_steps: "store_steps sha s (s\<lparr>rs_sessions := f\<rparr>)"
  by (rule r_into_rtranclp) (rule store_step.sessions)

lemma manager_step_store: "manager_step sha limit m m' \<Longrightarrow> store_steps sha (mg_store m) (mg_store m')"
proof (induction rule: manager_step.induct)
  case (start valid authorized iv m m')
  then show ?case by (auto simp: start_def split: if_splits sum.splits intro: accept_steps)
next
  case (begin_run xid m e authorized)
  then show ?case by (auto simp: run_begin_def close_task_store intro: store_step.launching)
next
  case (stop i xid m p m')
  then show ?case
    by (auto simp: stop_begin_def cancel_local_wrapped cancel_local_store Let_def split: sum.splits option.splits if_splits)
next
  case (revoke m scope)
  have "store_steps sha (mg_store m) (mg_store (m\<lparr>mg_store := (mg_store m)\<lparr>rs_sessions := (rs_sessions (mg_store m))(scope := None)\<rparr>\<rparr>))"
    by (auto intro: store_step.sessions)
  then show ?case unfolding revoke_def Let_def by (rule rtranclp_trans) (rule fold_cancel_store)
next
  case (close m)
  show ?case using fold_cancel_store [of sha "m\<lparr>mg_closed := True\<rparr>" "\<lambda>_ _. True" "mg_tasks m"]
    by (simp add: close_manager_def)
qed (auto simp: bind_turn_def launched_def run_emit_def run_end_def run_cancelled_def run_failed_def close_task_store
      cancel_local_store sessions_steps stop_end_def import_legacy_session_def restart_def Let_def
      split: if_splits option.splits intro: store_step.intros)

text \<open>Only a start adds rows, and never one of a stopped turn.\<close>

lemma finish_dom: "finish sha xid r s = Inr s' \<Longrightarrow> dom (rs_executions s') = dom (rs_executions s)"
  by (erule finish_entries) auto

lemma transition_dom: "dom (rs_executions (store_transition xid st ps pid s)) = dom (rs_executions s)"
  by (auto simp: store_transition_def)

lemma close_task_dom: "dom (rs_executions (mg_store (close_task sha xid r m))) = dom (rs_executions (mg_store m))"
  by (auto simp: close_task_def finish_dom split: sum.split)

lemma cancel_local_dom: "dom (rs_executions (mg_store (cancel_local xid m))) = dom (rs_executions (mg_store m))"
  by (simp add: cancel_local_def transition_dom split: option.split)

lemma fold_cancel_simps:
  "dom (rs_executions (mg_store (fold (\<lambda>xid n. if P xid n then cancel_local xid n else n) xids m))) = dom (rs_executions (mg_store m))"
  "mg_bindings (fold (\<lambda>xid n. if P xid n then cancel_local xid n else n) xids m) = mg_bindings m"
  "mg_stops (fold (\<lambda>xid n. if P xid n then cancel_local xid n else n) xids m) = mg_stops m"
  "mg_locks (fold (\<lambda>xid n. if P xid n then cancel_local xid n else n) xids m) = mg_locks m"
  by (induction xids arbitrary: m) (simp_all add: cancel_local_dom)

lemmas close_cancel_simps = fold_cancel_simps [of "\<lambda>_ _. True", simplified]

lemma close_task_simps [simp]:
  "mg_bindings (close_task sha xid r m) = mg_bindings m" "mg_stops (close_task sha xid r m) = mg_stops m"
  by (auto simp: close_task_def split: sum.split)

lemma reopen_dom: "dom (rs_executions (reopen sha s)) = dom (rs_executions s)"
  unfolding reopen_def
  by (rule recover_step [where P = "\<lambda>t. dom (rs_executions t) = dom (rs_executions s)"]) (auto simp: finish_dom)

text \<open>The bindings and rows after a step, seen from an execution that a stop has cancelled.\<close>

definition stopped_local :: "string \<Rightarrow> manager \<Rightarrow> bool" where
  "stopped_local x m \<longleftrightarrow> x \<noteq> [] \<and> (\<exists>k. bound_stopped k x m)"

definition bindings_kept :: "manager \<Rightarrow> manager \<Rightarrow> bool" where
  "bindings_kept m m' \<longleftrightarrow>
     (\<forall>k b. map_of (mg_bindings m) k = Some b \<longrightarrow> bn_cancelled b \<longrightarrow>
        (\<exists>b'. map_of (mg_bindings m') k = Some b' \<and> bn_cancelled b' \<and> (bn_local b \<notin> {None, Some []} \<longrightarrow> bn_local b' = bn_local b)))"

lemma bindings_kept_same: "mg_bindings m' = mg_bindings m \<Longrightarrow> bindings_kept m m'"
  by (auto simp: bindings_kept_def)

lemma bind_turn_bindings: "bind_turn i xid m = Inr (y, m') \<Longrightarrow> bindings_kept m m'"
  by (auto simp: bind_turn_def bindings_kept_def split: if_splits option.splits)

lemma stop_begin_bindings: "stop_begin i xid m = Inr (p, m') \<Longrightarrow> bindings_kept m m'"
  by (auto simp: stop_begin_def stop_local_def bindings_kept_def Let_def split: sum.splits if_splits option.splits)

lemma manager_step_bindings: "manager_step sha limit m m' \<Longrightarrow> bindings_kept m m'"
proof (induction rule: manager_step.induct)
  case (start valid authorized iv m m')
  then show ?case by (intro bindings_kept_same) (auto simp: start_def split: if_splits sum.splits)
next
  case (stopped k y m fin r m')
  then show ?case by (intro bindings_kept_same) (auto simp: stop_end_def Let_def split: option.splits)
next
  case (import authorized scope handle source m m')
  then show ?case
    by (intro bindings_kept_same) (auto simp: import_legacy_session_def Let_def split: if_splits option.splits)
next
  case (close m)
  show ?case by (intro bindings_kept_same) (simp add: close_manager_def close_cancel_simps)
qed (auto intro: bind_turn_bindings stop_begin_bindings bindings_kept_same
      simp: run_begin_def launched_def run_emit_def run_end_def run_cancelled_def run_failed_def revoke_def
        fold_cancel_simps restart_def)

lemma stopped_localI: "bound_stopped k x m \<Longrightarrow> x \<noteq> [] \<Longrightarrow> stopped_local x m"
  unfolding stopped_local_def by blast

lemma stopped_local_kept: "manager_step sha limit m m' \<Longrightarrow> stopped_local x m \<Longrightarrow> stopped_local x m'"
  using manager_step_bindings [of sha limit m m'] unfolding stopped_local_def bound_stopped_def bindings_kept_def
  by fastforce

lemma map_of_list_ex: "map_of al k = Some b \<Longrightarrow> P b \<Longrightarrow> list_ex (\<lambda>(_, b). P b) al"
  by (auto simp: list_ex_iff dest!: map_of_SomeD)

lemma stopped_local_cancelled: "stopped_local x m \<Longrightarrow> invocation_cancelled x m"
  unfolding stopped_local_def bound_stopped_def invocation_cancelled_def by (auto intro: map_of_list_ex)

lemma new_row_started:
  assumes "manager_step sha limit m m'" "rs_executions (mg_store m) x = None" "rs_executions (mg_store m') x \<noteq> None"
  shows "x \<noteq> [] \<and> \<not> invocation_cancelled x m"
proof -
  have same: "dom (rs_executions (mg_store m')) \<noteq> dom (rs_executions (mg_store m))" using assms(2,3) by auto
  from assms(1) same assms(2,3) show ?thesis
  proof (induction rule: manager_step.induct)
    case (start valid authorized iv m m')
    then show ?case
      by (auto simp: start_def accept_invocation_def Let_def split: if_splits sum.splits option.splits)
  qed (auto simp: bind_turn_def run_begin_def launched_def run_emit_def run_end_def run_cancelled_def run_failed_def
        transition_dom close_task_dom cancel_local_dom cancel_local_wrapped stop_begin_def stop_end_def import_legacy_session_def
        revoke_def fold_cancel_simps close_manager_def close_cancel_simps restart_def reopen_dom Let_def
        split: if_splits option.splits sum.splits)
qed

text \<open>An execution that never ran and never will.\<close>

definition never_started :: "string \<Rightarrow> manager \<Rightarrow> bool" where
  "never_started x m \<longleftrightarrow>
     (case rs_executions (mg_store m) x of
        None \<Rightarrow> True
      | Some e \<Rightarrow> ee_outcome e \<noteq> None \<and> ee_process e = ProcNotStarted)"

definition dead :: "string \<Rightarrow> manager \<Rightarrow> bool" where
  "dead x m \<longleftrightarrow> never_started x m \<and> (x = [] \<and> rs_executions (mg_store m) [] = None \<or> stopped_local x m)"

lemma dead_kept:
  assumes "manager_step sha limit m m'" "dead x m"
  shows "dead x m'"
proof (cases "rs_executions (mg_store m) x")
  case None
  have "rs_executions (mg_store m') x = None"
    using new_row_started [OF assms(1) None] assms(2) stopped_local_cancelled [of x m] unfolding dead_def by blast
  then show ?thesis using assms(2) stopped_local_kept [OF assms(1)] by (auto simp: dead_def never_started_def)
next
  case (Some e)
  then have e: "ee_outcome e \<noteq> None" "ee_process e = ProcNotStarted" "stopped_local x m"
    using assms(2) by (auto simp: dead_def never_started_def)
  have "rs_executions (mg_store m') x = Some e"
    by (rule store.final_row [OF manager_step_store [OF assms(1)] Some e(1)])
  then show ?thesis using e stopped_local_kept [OF assms(1)] by (simp add: dead_def never_started_def)
qed

text \<open>What a saved stop receipt claims of its execution.\<close>

definition ended :: "string \<Rightarrow> manager \<Rightarrow> bool" where
  "ended x m \<longleftrightarrow> (\<exists>e. rs_executions (mg_store m) x = Some e \<and> ee_outcome e \<noteq> None \<and> ee_process e \<in> {ProcFinished, ProcStopped})"

definition stop_holds :: "stop_result \<Rightarrow> manager \<Rightarrow> bool" where
  "stop_holds r m \<longleftrightarrow>
     (sr_status r = SaNotStarted \<longrightarrow> (\<forall>x. sr_local r = Some x \<longrightarrow> dead x m))
     \<and> (sr_status r \<in> {SaAlreadyFinished, SaConfirmed} \<longrightarrow> (\<exists>x. sr_local r = Some x \<and> ended x m))"

lemma stop_holds_kept:
  assumes "manager_step sha limit m m'" "stop_holds r m"
  shows "stop_holds r m'"
proof -
  have "ended x m \<Longrightarrow> ended x m'" for x
    using store.final_row [OF manager_step_store [OF assms(1)]] unfolding ended_def by blast
  then show ?thesis using assms(2) dead_kept [OF assms(1)] unfolding stop_holds_def by blast
qed

definition stops_hold :: "manager \<Rightarrow> bool" where
  "stops_hold m \<longleftrightarrow> (\<forall>k v r. mg_stops m k = Some v \<longrightarrow> sv_receipt v = Some r \<longrightarrow> stop_holds r m)"

definition manager_ok :: "manager \<Rightarrow> bool" where
  "manager_ok m \<longleftrightarrow> store_ok (mg_store m) \<and> rs_executions (mg_store m) [] = None \<and> stops_hold m"

lemma stop_verdict_holds:
  assumes "rs_executions (mg_store m) y = Some e" "stopped_local y m"
  shows "stop_holds (stop_verdict y fin e) m"
  using assms by (cases "ee_process e")
    (auto simp: stop_verdict_def stop_holds_def dead_def never_started_def ended_def Let_def split: if_splits)

text \<open>A step saves at most one receipt, and what it saves holds at once.\<close>

lemma persist_stops:
  "mg_stops (persist_stop k r m) k' = Some v \<Longrightarrow> sv_receipt v = Some q \<Longrightarrow>
     q = r \<or> (\<exists>w. mg_stops m k' = Some w \<and> sv_receipt w = Some q)"
  by (auto simp: persist_stop_def split: if_splits option.splits)

lemma persist_finished_stops:
  "mg_stops (persist_finished k f m) k' = Some v \<Longrightarrow> sv_receipt v = Some q \<Longrightarrow>
     \<exists>w. mg_stops m k' = Some w \<and> sv_receipt w = Some q"
  by (auto simp: persist_finished_def split: if_splits option.splits)

definition saves :: "manager \<Rightarrow> manager \<Rightarrow> bool" where
  "saves m m' \<longleftrightarrow> (\<forall>k v q. mg_stops m' k = Some v \<longrightarrow> sv_receipt v = Some q \<longrightarrow>
     stop_holds q m' \<or> (\<exists>k w. mg_stops m k = Some w \<and> sv_receipt w = Some q))"

lemma saves_same: "mg_stops m' = mg_stops m \<Longrightarrow> saves m m'"
  by (auto simp: saves_def)

lemma saves_persist: "stop_holds r (persist_stop k r m) \<Longrightarrow> mg_stops m = mg_stops m0 \<Longrightarrow> saves m0 (persist_stop k r m)"
  unfolding saves_def using persist_stops by metis

lemma stop_begin_saves:
  assumes "stop_begin i xid m = Inr (p, m')" "rs_executions (mg_store m) [] = None"
  shows "saves m m'"
proof -
  let ?k = "identity_key i"
  from assms(1) obtain x where x: "stop_local i xid m = Inr x" by (auto simp: stop_begin_def Let_def split: sum.splits)
  let ?m = "put_binding ?k \<lparr>bn_identity = i, bn_local = x, bn_cancelled = True\<rparr> m"
  have missing: "stop_holds (not_started_stop x) (persist_stop ?k (not_started_stop x) ?m)"
    if "\<And>y. x = Some y \<Longrightarrow> rs_executions (mg_store m) y = None"
  proof -
    have "stopped_local y (persist_stop ?k (not_started_stop x) ?m)" if "x = Some y" "y \<noteq> []" for y
      by (rule stopped_localI [of ?k]) (use that in \<open>simp_all add: bound_stopped_def\<close>)
    then show ?thesis using that assms(2) by (auto simp: stop_holds_def not_started_stop_def dead_def never_started_def)
  qed
  have unknown: "stop_holds (unknown_stop x) n" for n by (simp add: stop_holds_def unknown_stop_def)
  have fin: "saves m (cancel_local y (persist_finished ?k f ?m))" for y f
    unfolding saves_def by (auto dest!: persist_finished_stops)
  show ?thesis
    using assms(1) x missing unknown fin
    by (auto simp: stop_begin_def Let_def saves_same saves_persist split: option.splits if_splits)
qed

lemma manager_step_saves:
  assumes "manager_step sha limit m m'" "rs_executions (mg_store m) [] = None"
  shows "saves m m'"
  using assms
proof (induction rule: manager_step.induct)
  case (stop i xid m p m')
  then show ?case by (blast intro: stop_begin_saves)
next
  case (stopped k y m fin r m')
  then obtain e where e: "rs_executions (mg_store m) y = Some e" "r = stop_verdict y fin e" "m' = persist_stop k r m"
    by (auto simp: stop_end_def Let_def split: option.splits)
  have "y \<noteq> []" using e(1) stopped.prems by auto
  moreover have "bound_stopped k y m'" using stopped e by (simp add: bound_stopped_def)
  ultimately have "stopped_local y m'" by (intro stopped_localI)
  then have "stop_holds r m'" using e stop_verdict_holds [of m' y e fin] by simp
  then show ?case using e by (simp add: saves_persist)
next
  case (start valid authorized iv m m')
  then show ?case by (intro saves_same) (auto simp: start_def split: if_splits sum.splits)
next
  case (bind i xid m y m')
  then show ?case by (intro saves_same) (auto simp: bind_turn_def split: if_splits option.splits)
next
  case (import authorized scope handle source m m')
  then show ?case by (intro saves_same) (auto simp: import_legacy_session_def Let_def split: if_splits option.splits)
qed (auto intro!: saves_same simp: run_begin_def launched_def run_emit_def run_end_def run_cancelled_def run_failed_def
      revoke_def fold_cancel_simps close_manager_def close_cancel_simps restart_def)

lemma manager_ok_kept:
  assumes "manager_step sha limit m m'" "manager_ok m"
  shows "manager_ok m'"
proof -
  have ok: "store_ok (mg_store m)" "rs_executions (mg_store m) [] = None" "stops_hold m"
    using assms(2) by (auto simp: manager_ok_def)
  have "rs_executions (mg_store m') [] = None" using new_row_started [OF assms(1) ok(2)] by blast
  moreover have "stops_hold m'"
    using manager_step_saves [OF assms(1) ok(2)] stop_holds_kept [OF assms(1)] ok(3) unfolding stops_hold_def saves_def by blast
  ultimately show ?thesis using store.steps_ok [OF manager_step_store [OF assms(1)] ok(1)] by (simp add: manager_ok_def)
qed

lemma manager_steps_ok: "manager_steps sha limit m m' \<Longrightarrow> manager_ok m \<Longrightarrow> manager_ok m'"
  by (induction rule: rtranclp_induct) (auto intro: manager_ok_kept)

lemma stop_holds_steps: "manager_steps sha limit m m' \<Longrightarrow> stop_holds r m \<Longrightarrow> stop_holds r m'"
  by (induction rule: rtranclp_induct) (auto intro: stop_holds_kept)

lemma new_manager_ok: "manager_ok new_manager"
  by (simp add: manager_ok_def new_manager_def empty_store_def store_ok_def stops_hold_def)



section \<open>One process per session scope\<close>

text \<open>What a row shows of its process.\<close>

definition live :: "string \<Rightarrow> string \<Rightarrow> receipts \<Rightarrow> bool" where
  "live scope x s \<longleftrightarrow> (\<exists>e. rs_executions s x = Some e \<and> ee_scope e = scope \<and> ee_outcome e = None \<and> ee_process e \<noteq> ProcNotStarted)"

definition live_held :: "manager \<Rightarrow> bool" where
  "live_held m \<longleftrightarrow> (\<forall>scope x. live scope x (mg_store m) \<longrightarrow> mg_locks m scope = Some x)"

lemma live_heldI: "live_held m \<Longrightarrow> (\<And>scope x. live scope x (mg_store m') \<Longrightarrow> live scope x (mg_store m)) \<Longrightarrow>
    mg_locks m' = mg_locks m \<Longrightarrow> live_held m'"
  by (auto simp: live_held_def)

lemma transition_live:
  assumes "live scope x (store_transition xid st ps pid s)"
  shows "live scope x s \<or> x = xid \<and> ps \<noteq> ProcNotStarted \<and> (\<exists>e. rs_executions s x = Some e \<and> ee_scope e = scope)"
  using assms by (auto simp: live_def store_transition_def split: if_splits)

lemma cancel_local_live: "live scope x (mg_store (cancel_local xid m)) \<Longrightarrow> live scope x (mg_store m)"
  by (auto simp: cancel_local_def live_def store_transition_def split: option.splits if_splits)

lemma fold_cancel_live:
  "live scope x (mg_store (fold (\<lambda>xid n. if P xid n then cancel_local xid n else n) xids m)) \<Longrightarrow> live scope x (mg_store m)"
  by (induction xids arbitrary: m) (auto split: if_splits dest: cancel_local_live)

lemma finish_live:
  assumes "finish sha xid r s = Inr s'" "live scope x s'"
  shows "live scope x s \<and> x \<noteq> xid"
  using assms(1)
proof (cases rule: finish_entries)
  case (old e)
  then show ?thesis using assms(2) by (auto simp: live_def)
next
  case (new e r)
  then show ?thesis using assms(2) by (auto simp: live_def finish_entry_def split: if_splits)
qed

lemma accept_live: "accept_invocation iv s = Inr (b, s') \<Longrightarrow> live scope x s' \<Longrightarrow> live scope x s"
  by (cases "rs_executions s (iv_id iv)") (auto simp: accept_invocation_def live_def Let_def split: if_splits)

lemma close_task_live: "live_held m \<Longrightarrow> live_held (close_task sha xid r m)"
proof (cases "finish sha xid r (mg_store m)")
  case (Inr s)
  assume "live_held m"
  then show ?thesis using finish_live [OF Inr] by (fastforce simp: close_task_def live_held_def release_def Inr)
qed (simp add: close_task_def)

lemma finish_total: "rs_executions s xid = Some e \<Longrightarrow> \<exists>s'. finish sha xid r s = Inr s'"
  by (auto simp: finish_def case_prod_beta Let_def)

lemma recover_live: "live scope x (recover sha xids s) \<Longrightarrow> live scope x s \<and> x \<notin> set xids"
proof (induction xids arbitrary: s)
  case (Cons y xids)
  show ?case
  proof (cases "rs_executions s y")
    case None
    then show ?thesis using Cons.IH [of s] Cons.prems by (auto simp: live_def)
  next
    case (Some e)
    show ?thesis
    proof (cases "ee_outcome e = None")
      case False
      then show ?thesis using Some Cons.IH [of s] Cons.prems by (auto simp: live_def)
    next
      case True
      let ?r = "if ee_state e = RsQueued then plain_result CancelledRun ProcNotStarted ''manager_restarted''
        else plain_result UnknownRun ProcUnknown ''manager_restarted''"
      obtain s' where s': "finish sha y ?r s = Inr s'" using finish_total [OF Some] by blast
      then have "live scope x s' \<and> x \<notin> set xids" using Cons.IH [of s'] Cons.prems Some True by simp
      then show ?thesis using finish_live [OF s'] by auto
    qed
  qed
qed simp

lemma stop_begin_frame:
  "stop_begin i xid m = Inr (p, m') \<Longrightarrow>
     mg_locks m' = mg_locks m \<and> (mg_store m' = mg_store m \<or> (\<exists>y. mg_store m' = mg_store (cancel_local y m)))"
  by (auto simp: stop_begin_def cancel_local_wrapped Let_def split: sum.splits option.splits if_splits)

lemma start_accepts:
  assumes "start limit valid authorized iv m = Inr m'"
  shows "\<exists>b. accept_invocation iv (mg_store m) = Inr (b, mg_store m') \<and> mg_locks m' = mg_locks m"
proof (cases "accept_invocation iv (mg_store m)")
  case (Inr p)
  then show ?thesis using assms by (cases p) (auto simp: start_def split: if_splits)
qed (use assms in \<open>auto simp: start_def split: if_splits\<close>)

lemma live_held_kept:
  assumes "manager_step sha limit m m'" "live_held m" "store_ok (mg_store m)"
  shows "live_held m'"
  using assms
proof (induction rule: manager_step.induct)
  case (bind i xid m y m')
  have "mg_store m' = mg_store m" "mg_locks m' = mg_locks m"
    using bind.hyps by (auto simp: bind_turn_def split: if_splits option.splits)
  with bind.prems show ?case by (simp add: live_held_def)
next
  case (start valid authorized iv m m')
  obtain b where b: "accept_invocation iv (mg_store m) = Inr (b, mg_store m')" "mg_locks m' = mg_locks m"
    using start_accepts [OF start.hyps] by blast
  show ?case by (rule live_heldI [OF start.prems(1) accept_live [OF b(1)] b(2)])
next
  case (begin_run xid m e authorized)
  let ?m = "m\<lparr>mg_store := store_transition xid RsLaunching ProcUnknown None (mg_store m), mg_locks := (mg_locks m)(ee_scope e \<mapsto> xid)\<rparr>"
  have "live_held ?m" using begin_run by (auto simp: live_held_def dest!: transition_live)
  then show ?case using begin_run.prems(1) by (simp add: run_begin_def close_task_live)
next
  case (launch m xid e pid)
  then show ?case by (auto simp: launched_def live_held_def dest!: transition_live)
next
  case (stop i xid m p m')
  then show ?case using stop_begin_frame [OF stop.hyps] cancel_local_live by (metis live_heldI)
next
  case (stopped k y m fin r m')
  then show ?case by - (rule live_heldI [of m], auto simp: stop_end_def Let_def split: option.splits)
next
  case (import authorized scope handle source m m')
  then show ?case
    by - (rule live_heldI [of m], auto simp: import_legacy_session_def live_def Let_def split: if_splits option.splits)
next
  case (revoke m scope)
  have "live sc x (mg_store (revoke scope m)) \<Longrightarrow> live sc x (mg_store m)" for sc x
    unfolding revoke_def Let_def by (drule fold_cancel_live) (simp add: live_def)
  then show ?case using revoke by - (rule live_heldI [of m], simp_all add: revoke_def fold_cancel_simps)
next
  case (close m)
  have "live sc x (mg_store (close_manager m)) \<Longrightarrow> live sc x (mg_store m)" for sc x
    using fold_cancel_live [of sc x "\<lambda>_ _. True" "mg_tasks m" "m\<lparr>mg_closed := True\<rparr>"] by (simp add: close_manager_def)
  then show ?case using close by - (rule live_heldI [of m], simp_all add: close_manager_def close_cancel_simps)
next
  case (restart m)
  have "\<not> live sc x (mg_store (restart sha m))" for sc x
  proof
    assume "live sc x (mg_store (restart sha m))"
    then have "live sc x (mg_store m)" "x \<notin> set (rs_ids (mg_store m))"
      using recover_live [of sc x sha] by (simp_all add: restart_def reopen_def)
    then show False using restart.prems(2) unfolding live_def store_ok_def by blast
  qed
  then show ?case by (simp add: live_held_def)
next
  case (emit m xid kind payload)
  then show ?case by - (rule live_heldI [of m], auto simp: run_emit_def live_def)
next
  case (cancel m xid)
  then show ?case by - (rule live_heldI [of m], auto dest: cancel_local_live)
qed (simp_all add: run_end_def run_cancelled_def run_failed_def close_task_live)

lemma live_held_steps:
  assumes "manager_steps sha limit new_manager m"
  shows "live_held m"
proof -
  have "live_held m \<and> manager_ok m"
    using assms
  proof (induction rule: rtranclp_induct)
    case base
    then show ?case using new_manager_ok by (simp add: live_held_def live_def new_manager_def empty_store_def)
  next
    case (step m m')
    then show ?case using live_held_kept [OF step(2)] manager_ok_kept [OF step(2)] by (simp add: manager_ok_def)
  qed
  then show ?thesis by simp
qed



end
