(* ===== verification/NativeUsage.thy ===== *)
theory NativeUsage
  imports CampaignModel LocalExecution
begin

text \<open>
  Accounting of native invocations, the pure part of project_executions/usage.py: what a terminal
  frame of an agent is worth (\<open>_normalized_settlement\<close> and its readers), the summary of an
  execution and the admission of new work against its limits.

  A cost is the decimal number its \<open>str\<close> writes. The digest of a settlement is a parameter over the
  structure the code serializes.
\<close>

section \<open>Frames and rows\<close>

datatype cost_value = CostNone | CostBool bool | CostOther | CostNumber rat | CostNonFinite

record lifecycle_frame =
  fr_event :: string
  fr_room :: string
  fr_request :: string
  fr_attempt :: "int option"
  fr_generation :: "int option"
  fr_local :: "string option"
  fr_lease :: "string option"
  fr_process :: "string option"
  fr_outcome :: "string option"
  fr_reason :: "string option"
  fr_transient :: "bool option"
  fr_input :: pyval
  fr_output :: pyval
  fr_metadata :: pyval
  fr_model :: pyval
  fr_cost :: cost_value
  fr_duration :: pyval

datatype native_status = NaPending | NaMeasured | NaUnknown | NaNotStarted

record usage_meta =
  um_status :: string
  um_baseline_status :: string
  um_cumulative :: "counters option"
  um_baseline :: "counters option"
  um_requested :: "string option"
  um_observed :: "string option"
  um_execution :: "string option"

record native_terminal =
  nt_local :: string
  nt_process :: string
  nt_outcome :: string
  nt_reason :: "string option"
  nt_transient :: bool

text \<open>The columns a settlement writes; \<open>None\<close> in the row while it is pending.\<close>

record settlement =
  sl_status :: native_status
  sl_reason :: string
  sl_source :: string
  sl_tokens :: counters
  sl_cost :: "rat option"
  sl_model :: "string option"
  sl_duration :: "int option"
  sl_metadata :: "usage_meta option"
  sl_terminal :: native_terminal

record native_row =
  na_id :: string
  na_attempt :: string
  na_local :: string
  na_request :: string
  na_agent :: "string option"
  na_room :: string
  na_task :: "string option"
  na_execution :: "string option"
  na_revision :: "int option"
  na_number :: int
  na_generation :: int
  na_settlement :: "settlement option"
  na_sha :: "string option"
  na_reserved :: instant
  na_settled :: "instant option"
  na_as_of :: instant

definition na_status :: "native_row \<Rightarrow> native_status" where
  "na_status r = (case na_settlement r of None \<Rightarrow> NaPending | Some s \<Rightarrow> sl_status s)"

definition na_tokens :: "native_row \<Rightarrow> counters" where
  "na_tokens r = (case na_settlement r of None \<Rightarrow> no_counters | Some s \<Rightarrow> sl_tokens s)"

definition na_cost :: "native_row \<Rightarrow> rat option" where
  "na_cost r = (case na_settlement r of None \<Rightarrow> None | Some s \<Rightarrow> sl_cost s)"

section \<open>Reading a frame\<close>

definition MEASURED :: "string list" where
  "MEASURED = [''fresh_measured'', ''measured_delta'']"

definition USAGE_STATUSES :: "string list" where
  "USAGE_STATUSES = MEASURED @ [''baseline_missing'', ''baseline_invalidated'', ''counter_rollback'', ''session_changed'',
     ''session_unobserved'', ''terminal_usage_missing'', ''provider_usage_invalid'', ''process_outcome_unknown'', ''not_started'']"

definition BASELINE_STATUSES :: "string list" where
  "BASELINE_STATUSES = [''fresh'', ''valid'', ''absent'', ''invalidated'']"

definition TOKEN_KEYS :: "string list" where
  "TOKEN_KEYS = [''input_tokens'', ''output_tokens'', ''cached_input_tokens'']"

definition METADATA_KEYS :: "string list" where
  "METADATA_KEYS = [''source'', ''status'', ''baseline_status'', ''provider_cumulative'', ''baseline'',
     ''requested_session_sha256'', ''observed_session_sha256'', ''baseline_execution_sha256'']"

definition NATIVE_REASONS :: "string list" where
  "NATIVE_REASONS = [''MODEL_CONFIGURATION_INVALID'', ''AUTHENTICATION_FAILED'', ''MODEL_TRANSIENT_FAILURE'',
     ''MODEL_EXECUTION_FAILED'', ''PROCESS_OUTCOME_UNKNOWN'']"

text \<open>\<open>_count\<close> is the reader of a counter, \<open>counter_of\<close>.\<close>

definition cost_of :: "cost_value \<Rightarrow> rat option" where
  "cost_of v = (case v of
      CostNumber r \<Rightarrow>
        if r < 0 \<or> r > of_int (10 ^ 20 - 1) / 10 ^ 9 then None
        else if snd (quotient_of (r * 10 ^ 9)) = 1 then Some r else None
    | _ \<Rightarrow> None)"

definition counter_entry :: "(string \<times> pyval) list \<Rightarrow> string \<Rightarrow> py_exc + int option" where
  "counter_entry d k =
     (case dget d k of PNone \<Rightarrow> Inr None
      | v \<Rightarrow> (case counter_of v of None \<Rightarrow> Inl ValueError | Some n \<Rightarrow> Inr (Some n)))"

definition counter_dict :: "pyval \<Rightarrow> py_exc + counters option" where
  "counter_dict v =
     (case v of
        PNone \<Rightarrow> Inr None
      | PDict d \<Rightarrow>
          if \<not> set (map fst d) \<subseteq> set TOKEN_KEYS then Inl ValueError
          else
            bindE (counter_entry d ''input_tokens'') (\<lambda>i.
            bindE (counter_entry d ''output_tokens'') (\<lambda>k.
            bindE (counter_entry d ''cached_input_tokens'') (\<lambda>c.
              Inr (Some \<lparr>ct_input = i, ct_output = k, ct_cached = c\<rparr>))))
      | _ \<Rightarrow> Inl ValueError)"

definition hex_sha :: "string \<Rightarrow> bool" where
  "hex_sha s \<longleftrightarrow> length s = 64 \<and> list_all hex_digit s"

definition hashed_entry :: "(string \<times> pyval) list \<Rightarrow> string \<Rightarrow> py_exc + string option" where
  "hashed_entry d k =
     (case dget d k of
        PNone \<Rightarrow> Inr None
      | PStr s \<Rightarrow> if hex_sha s then Inr (Some s) else Inl ValueError
      | _ \<Rightarrow> Inl ValueError)"

text \<open>\<open>value.get(k) not in frozenset\<close> raises for a list or a dict.\<close>

definition status_entry :: "(string \<times> pyval) list \<Rightarrow> string \<Rightarrow> string list \<Rightarrow> py_exc + string" where
  "status_entry d k xs =
     bindE (in_strs (dget d k) xs) (\<lambda>ok. case dget d k of PStr s \<Rightarrow> if ok then Inr s else Inl ValueError | _ \<Rightarrow> Inl ValueError)"

definition usage_metadata :: "pyval \<Rightarrow> py_exc + usage_meta option" where
  "usage_metadata v =
     (case v of
        PNone \<Rightarrow> Inr None
      | PDict d \<Rightarrow>
          if \<not> set (map fst d) \<subseteq> set METADATA_KEYS \<or> dget d ''source'' \<noteq> PStr SOURCE then Inl ValueError
          else
            bindE (status_entry d ''status'' USAGE_STATUSES) (\<lambda>st.
            bindE (status_entry d ''baseline_status'' BASELINE_STATUSES) (\<lambda>bs.
            bindE (counter_dict (dget d ''provider_cumulative'')) (\<lambda>raw.
            bindE (counter_dict (dget d ''baseline'')) (\<lambda>prior.
            bindE (hashed_entry d ''requested_session_sha256'') (\<lambda>rq.
            bindE (hashed_entry d ''observed_session_sha256'') (\<lambda>ob.
            bindE (hashed_entry d ''baseline_execution_sha256'') (\<lambda>ex.
              Inr (Some \<lparr>um_status = st, um_baseline_status = bs, um_cumulative = raw, um_baseline = prior,
                         um_requested = rq, um_observed = ob, um_execution = ex\<rparr>))))))))
      | _ \<Rightarrow> Inl ValueError)"

definition model_char :: "char \<Rightarrow> bool" where
  "model_char c \<longleftrightarrow> c \<in> set ''ABCDEFGHIJKLMNOPQRSTUVWXYZabcdefghijklmnopqrstuvwxyz0123456789._:/+@-''"

definition model_name :: "pyval \<Rightarrow> string option" where
  "model_name v = (case v of
      PStr s \<Rightarrow>
        if s \<noteq> [] \<and> length s \<le> 160 \<and> list_all model_char s \<and> hd s \<notin> set ''._:/+@-'' then Some s else None
    | _ \<Rightarrow> None)"

section \<open>What a terminal frame settles\<close>

definition safe_pair :: "string option \<Rightarrow> string option \<Rightarrow> bool" where
  "safe_pair oc ps \<longleftrightarrow>
     oc = Some ''succeeded'' \<and> ps = Some ''finished''
     \<or> oc = Some ''failed'' \<and> ps \<in> {Some ''finished'', Some ''stopped'', Some ''not_started''}
     \<or> oc = Some ''cancelled'' \<and> ps \<in> {Some ''stopped'', Some ''not_started''}"

definition cached_ok :: "counters \<Rightarrow> bool" where
  "cached_ok c \<longleftrightarrow> (case ct_cached c of None \<Rightarrow> True
     | Some k \<Rightarrow> (case ct_input c of None \<Rightarrow> False | Some i \<Rightarrow> k \<le> i))"

definition provenance_ok :: "usage_meta \<Rightarrow> counters \<Rightarrow> bool" where
  "provenance_ok m prior \<longleftrightarrow>
     (if um_status m = ''fresh_measured''
      then um_baseline_status m = ''fresh'' \<and> um_requested m = None \<and> um_execution m = None \<and> prior = zero_counters
      else um_baseline_status m = ''valid'' \<and> um_requested m = um_observed m \<and> um_requested m \<noteq> None \<and> um_execution m \<noteq> None)"

definition in_range :: "int option \<Rightarrow> bool" where
  "in_range v \<longleftrightarrow> (case v of None \<Rightarrow> True | Some n \<Rightarrow> 0 \<le> n \<and> n \<le> MAX_COUNTER)"

text \<open>The tokens of a measured claim, or none when its evidence does not support it.\<close>

definition measured_tokens :: "usage_meta \<Rightarrow> int option \<Rightarrow> int option \<Rightarrow> counters option" where
  "measured_tokens m top_in top_out =
     (case (um_cumulative m, um_baseline m) of
        (Some raw, Some prior) \<Rightarrow>
          if ct_input raw = None \<or> ct_output raw = None \<or> ct_input prior = None \<or> ct_output prior = None
             \<or> um_observed m = None \<or> \<not> provenance_ok m prior then None
          else
            let t = minus_counters raw prior
            in if in_range (ct_input t) \<and> in_range (ct_output t) \<and> in_range (ct_cached t)
                  \<and> top_in = ct_input t \<and> top_out = ct_output t
                  \<and> cached_ok raw \<and> cached_ok prior \<and> cached_ok t
               then Some t else None
      | _ \<Rightarrow> None)"

definition top_invalid :: "pyval \<Rightarrow> bool" where
  "top_invalid v \<longleftrightarrow> v \<noteq> PNone \<and> counter_of v = None"

definition settled_outcome :: "lifecycle_frame \<Rightarrow> usage_meta option \<Rightarrow> string \<Rightarrow> native_status \<times> string \<times> counters" where
  "settled_outcome fr meta reason =
     (let ps = fr_process fr; oc = fr_outcome fr; ti = counter_of (fr_input fr); tu = counter_of (fr_output fr);
          bad = top_invalid (fr_input fr) \<or> top_invalid (fr_output fr)
      in if ps = Some ''not_started'' then
           (if oc \<in> {Some ''failed'', Some ''cancelled'', Some ''unknown''} \<and> \<not> bad
               \<and> ti \<in> {None, Some 0} \<and> tu \<in> {None, Some 0}
               \<and> (case meta of None \<Rightarrow> True | Some m \<Rightarrow> um_status m = ''not_started'')
            then (NaNotStarted, ''not_started'', no_counters)
            else (NaUnknown, ''provider_usage_invalid'', no_counters))
         else if \<not> safe_pair oc ps \<or> ps \<in> {Some ''unknown'', Some ''running''}
         then (NaUnknown, ''process_outcome_unknown'', no_counters)
         else if (case meta of None \<Rightarrow> False | Some m \<Rightarrow> um_status m \<in> set MEASURED) \<and> \<not> bad then
           (case measured_tokens (the meta) ti tu of
              Some t \<Rightarrow> (NaMeasured, reason, t)
            | None \<Rightarrow> (NaUnknown, ''provider_usage_invalid'', no_counters))
         else if bad then (NaUnknown, ''provider_usage_invalid'', no_counters)
         else (NaUnknown, reason, no_counters))"

definition terminal_of :: "string \<Rightarrow> lifecycle_frame \<Rightarrow> native_terminal" where
  "terminal_of xid fr =
     \<lparr>nt_local = xid,
      nt_process = (case fr_process fr of
         Some p \<Rightarrow> if p \<in> {''not_started'', ''running'', ''finished'', ''stopped'', ''unknown''} then p else ''unknown''
       | None \<Rightarrow> ''unknown''),
      nt_outcome = (case fr_outcome fr of
         Some oc \<Rightarrow> if oc \<in> {''succeeded'', ''failed'', ''cancelled'', ''unknown''} then oc else ''unknown'' | None \<Rightarrow> ''unknown''),
      nt_reason = (case fr_reason fr of Some r \<Rightarrow> if r \<in> set NATIVE_REASONS then Some r else None | None \<Rightarrow> None),
      nt_transient = (fr_outcome fr = Some ''failed'' \<and> fr_reason fr = Some ''MODEL_TRANSIENT_FAILURE'' \<and> fr_transient fr = Some True)\<rparr>"

definition frame_metadata :: "lifecycle_frame \<Rightarrow> usage_meta option \<times> string" where
  "frame_metadata fr =
     (case usage_metadata (fr_metadata fr) of
        Inl _ \<Rightarrow> (None, ''provider_usage_invalid'')
      | Inr None \<Rightarrow> (None, ''terminal_usage_missing'')
      | Inr (Some m) \<Rightarrow> (Some m, um_status m))"

text \<open>What the digest covers besides the settlement: the reported numbers and the identity of the row.\<close>

record settlement_facts =
  sf_settlement :: settlement
  sf_top :: "int option \<times> int option"
  sf_cost :: "rat option"
  sf_identity :: "string \<times> string \<times> string \<times> string option \<times> string \<times> int \<times> int"

definition normalized_settlement ::
  "(settlement_facts \<Rightarrow> string) \<Rightarrow> native_row \<Rightarrow> lifecycle_frame \<Rightarrow> settlement \<times> string" where
  "normalized_settlement digest r fr =
     (let (meta, reason0) = frame_metadata fr; (status, reason, tokens) = settled_outcome fr meta reason0;
          reported = cost_of (fr_cost fr);
          s = \<lparr>sl_status = status, sl_reason = reason,
               sl_source = (if meta = None then ''native-terminal-v1'' else SOURCE), sl_tokens = tokens,
               sl_cost = (if status = NaMeasured then reported else None), sl_model = model_name (fr_model fr),
               sl_duration = counter_of (fr_duration fr), sl_metadata = meta, sl_terminal = terminal_of (na_local r) fr\<rparr>
      in (s, digest \<lparr>sf_settlement = s, sf_top = (counter_of (fr_input fr), counter_of (fr_output fr)), sf_cost = reported,
                    sf_identity = (na_attempt r, na_local r, na_request r, na_agent r, na_room r, na_number r, na_generation r)\<rparr>))"

section \<open>Summary of an execution\<close>

record usage_totals =
  ut_count :: nat
  ut_pending :: nat
  ut_measured :: nat
  ut_unknown :: nat
  ut_not_started :: nat
  ut_known :: counters
  ut_known_total :: "int option"
  ut_tokens :: counters
  ut_total :: "int option"
  ut_known_cost :: "rat option"
  ut_cost :: "rat option"
  ut_cost_measured :: nat
  ut_cost_unknown :: nat
  ut_reasons :: "(string \<times> nat) list"

definition with_status :: "native_status \<Rightarrow> native_row list \<Rightarrow> native_row list" where
  "with_status st rows = filter (\<lambda>r. na_status r = st) rows"

definition known_sum :: "(counters \<Rightarrow> int option) \<Rightarrow> native_row list \<Rightarrow> int option" where
  "known_sum f rows =
     (let values = List.map_filter (\<lambda>r. f (na_tokens r)) (with_status NaMeasured rows)
      in if values \<noteq> [] then Some (sum_list values)
         else if rows \<noteq> [] \<and> length (with_status NaNotStarted rows) = length rows then Some 0
         else None)"

definition plus_opt :: "int option \<Rightarrow> int option \<Rightarrow> int option" where
  "plus_opt a b = (case (a, b) of (Some n, Some k) \<Rightarrow> Some (n + k) | _ \<Rightarrow> None)"

definition reason_counts :: "native_row list \<Rightarrow> (string \<times> nat) list" where
  "reason_counts rows =
     (let rs = map (\<lambda>r. case na_settlement r of Some s \<Rightarrow> if sl_reason s = [] then ''terminal_usage_missing'' else sl_reason s
                        | None \<Rightarrow> ''terminal_usage_missing'') (with_status NaUnknown rows)
      in map (\<lambda>x. (x, count_list rs x)) (remdups rs))"

definition totals :: "native_row list \<Rightarrow> bool \<Rightarrow> usage_totals" where
  "totals rows cov =
     (let count = (\<lambda>st. length (with_status st rows));
          known = \<lparr>ct_input = known_sum ct_input rows, ct_output = known_sum ct_output rows, ct_cached = known_sum ct_cached rows\<rparr>;
          known_total = plus_opt (ct_input known) (ct_output known);
          tc = (cov \<and> count NaPending = 0 \<and> count NaUnknown = 0);
          costs = List.map_filter na_cost rows;
          cost_complete = (tc \<and> costs \<noteq> [] \<and> length costs = length rows)
      in \<lparr>ut_count = length rows, ut_pending = count NaPending, ut_measured = count NaMeasured, ut_unknown = count NaUnknown,
          ut_not_started = count NaNotStarted, ut_known = known, ut_known_total = known_total,
          ut_tokens = \<lparr>ct_input = (if tc then ct_input known else None), ct_output = (if tc then ct_output known else None),
             ct_cached = (if tc \<and> list_all (\<lambda>r. ct_cached (na_tokens r) \<noteq> None) (with_status NaMeasured rows)
                          then ct_cached known else None)\<rparr>,
          ut_total = (if tc then known_total else None),
          ut_known_cost = (if costs = [] then None else Some (sum_list costs)),
          ut_cost = (if cost_complete then Some (sum_list costs) else None),
          ut_cost_measured = length costs, ut_cost_unknown = length rows - length costs, ut_reasons = reason_counts rows\<rparr>)"

record usage_summary =
  us_totals :: usage_totals
  us_reserved :: int
  us_source :: bool
  us_missing :: nat
  us_expected :: nat
  us_matches :: bool
  us_complete :: bool
  us_revisions :: "(int \<times> usage_totals) list"
  us_as_of :: instant

section \<open>Limits\<close>

type_synonym limits = "(string \<times> pyval) list"

definition limit_of :: "limits \<Rightarrow> string \<Rightarrow> py_exc + int option" where
  "limit_of l k =
     (case dget l k of
        PNone \<Rightarrow> Inr None
      | PInt n \<Rightarrow> if 1 \<le> n \<and> n \<le> MAX_COUNTER then Inr (Some n) else Inl ValueError
      | _ \<Rightarrow> Inl ValueError)"

record disposition =
  ad_allowed :: bool
  ad_reason :: "string option"

definition denied :: "string \<Rightarrow> disposition" where
  "denied reason = \<lparr>ad_allowed = False, ad_reason = Some reason\<rparr>"

abbreviation NATIVE_LIMIT :: string where "NATIVE_LIMIT \<equiv> ''EXECUTION_NATIVE_INVOCATION_LIMIT''"
abbreviation USAGE_LIMIT :: string where "USAGE_LIMIT \<equiv> ''EXECUTION_USAGE_LIMIT_REACHED''"

definition token_limit_hit :: "usage_summary \<Rightarrow> int option \<Rightarrow> bool" where
  "token_limit_hit s cap \<longleftrightarrow>
     (case (cap, ut_known_total (us_totals s)) of (Some c, Some n) \<Rightarrow> c \<le> n | _ \<Rightarrow> False)"

definition admission :: "usage_summary \<Rightarrow> limits \<Rightarrow> py_exc + disposition" where
  "admission s l =
     bindE (limit_of l ''max_native_invocations'') (\<lambda>native.
     bindE (limit_of l ''max_total_tokens'') (\<lambda>tokens.
       Inr (if native \<noteq> None \<and> \<not> us_complete s then denied ''EXECUTION_USAGE_ACCOUNTING_INCOMPLETE''
            else if native \<noteq> None \<and> the native \<le> us_reserved s then denied NATIVE_LIMIT
            else if token_limit_hit s tokens then denied USAGE_LIMIT
            else \<lparr>ad_allowed = True, ad_reason = None\<rparr>)))"

section \<open>An agent's measurement at the server\<close>

lemma counter_entry_opt:
  assumes "dget d k = opt_int v" "\<And>n. v = Some n \<Longrightarrow> 0 \<le> n \<and> n \<le> MAX_COUNTER"
  shows "counter_entry d k = Inr v"
  using assms by (cases v) (auto simp: counter_entry_def opt_int_def counter_of_def)

lemma counter_dict_opt:
  assumes "\<And>k. c = Some k \<Longrightarrow> counters_ok k"
  shows "counter_dict (opt_counters c) = Inr c"
proof (cases c)
  case None
  then show ?thesis by (simp add: opt_counters_def counter_dict_def)
next
  case (Some k)
  let ?d = "[(''input_tokens'', opt_int (ct_input k)), (''output_tokens'', opt_int (ct_output k)),
     (''cached_input_tokens'', opt_int (ct_cached k))]"
  have ok: "counters_ok k" using assms Some by blast
  have "counter_entry ?d ''input_tokens'' = Inr (ct_input k)" "counter_entry ?d ''output_tokens'' = Inr (ct_output k)"
    "counter_entry ?d ''cached_input_tokens'' = Inr (ct_cached k)"
    using ok by (auto intro!: counter_entry_opt simp: dget_def dget_or_def counters_ok_def)
  then show ?thesis using Some by (simp add: counter_dict_def opt_counters_def counters_dict_def TOKEN_KEYS_def)
qed

lemma hashed_entry_opt:
  assumes "dget d k = opt_str v" "\<And>s. v = Some s \<Longrightarrow> hex_sha s"
  shows "hashed_entry d k = Inr v"
  using assms by (cases v) (auto simp: hashed_entry_def opt_str_def)

lemma status_entry_str:
  assumes "dget d k = PStr s" "s \<in> set xs"
  shows "status_entry d k xs = Inr s"
  using assms by (simp add: status_entry_def)

lemma status_str_known: "status_str st \<in> set USAGE_STATUSES" "baseline_str bs \<in> set BASELINE_STATUSES"
  by (cases st; simp add: USAGE_STATUSES_def MEASURED_def) (cases bs; simp add: BASELINE_STATUSES_def)

lemma status_str_measured: "status_str st \<in> set MEASURED \<longleftrightarrow> st \<in> {FreshMeasured, MeasuredDelta}"
  by (cases st) (simp_all add: MEASURED_def)

text \<open>The server reads back every usage record an agent sends.\<close>

definition meta_of :: "invocation_usage \<Rightarrow> usage_meta" where
  "meta_of u = \<lparr>um_status = status_str (iu_status u), um_baseline_status = baseline_str (iu_baseline_status u),
     um_cumulative = iu_raw u, um_baseline = iu_prior u, um_requested = iu_requested u, um_observed = iu_observed u,
     um_execution = iu_execution u\<rparr>"

definition usage_sendable :: "invocation_usage \<Rightarrow> bool" where
  "usage_sendable u \<longleftrightarrow> (\<forall>c. iu_raw u = Some c \<or> iu_prior u = Some c \<longrightarrow> counters_ok c)
     \<and> (\<forall>s. s \<in> {iu_requested u, iu_observed u, iu_execution u} \<longrightarrow> (\<forall>h. s = Some h \<longrightarrow> hex_sha h))"

lemma usage_metadata_read:
  assumes "usage_sendable u"
  shows "usage_metadata (metadata_dict u) = Inr (Some (meta_of u))"
proof -
  let ?d = "[(''source'', PStr SOURCE), (''status'', PStr (status_str (iu_status u))),
      (''baseline_status'', PStr (baseline_str (iu_baseline_status u))),
      (''provider_cumulative'', opt_counters (iu_raw u)), (''baseline'', opt_counters (iu_prior u)),
      (''requested_session_sha256'', opt_str (iu_requested u)), (''observed_session_sha256'', opt_str (iu_observed u)),
      (''baseline_execution_sha256'', opt_str (iu_execution u))]"
  have keys: "set (map fst ?d) \<subseteq> set METADATA_KEYS" by (simp add: METADATA_KEYS_def)
  have source: "dget ?d ''source'' = PStr SOURCE" by (simp add: dget_def dget_or_def)
  have st: "status_entry ?d ''status'' USAGE_STATUSES = Inr (status_str (iu_status u))"
    "status_entry ?d ''baseline_status'' BASELINE_STATUSES = Inr (baseline_str (iu_baseline_status u))"
    by (rule status_entry_str; simp add: dget_def dget_or_def status_str_known)+
  have raw: "dget ?d ''provider_cumulative'' = opt_counters (iu_raw u)" "dget ?d ''baseline'' = opt_counters (iu_prior u)"
    by (simp_all add: dget_def dget_or_def)
  have dict: "counter_dict (opt_counters (iu_raw u)) = Inr (iu_raw u)" "counter_dict (opt_counters (iu_prior u)) = Inr (iu_prior u)"
    by (rule counter_dict_opt; use assms in \<open>simp add: usage_sendable_def\<close>)+
  have sha: "hashed_entry ?d ''requested_session_sha256'' = Inr (iu_requested u)"
    "hashed_entry ?d ''observed_session_sha256'' = Inr (iu_observed u)"
    "hashed_entry ?d ''baseline_execution_sha256'' = Inr (iu_execution u)"
    by (rule hashed_entry_opt; use assms in \<open>simp add: dget_def dget_or_def usage_sendable_def\<close>)+
  show ?thesis
    unfolding metadata_dict_def usage_metadata_def pyval.case
    by (simp only: keys source st raw dict sha bindE.simps if_False not_not simp_thms meta_of_def)
qed

lemma zero_counters_ok: "counters_ok zero_counters"
  by (simp add: counters_ok_def zero_counters_def)

lemma digest_of_hex:
  assumes "\<And>s. s \<noteq> [] \<Longrightarrow> hex_sha (sha s)" "digest_of sha v = Some h"
  shows "hex_sha h"
  using assms by (auto simp: digest_of_def split: option.splits if_splits)

lemma measured_sendable:
  assumes "\<And>s. s \<noteq> [] \<Longrightarrow> hex_sha (sha s)"
  shows "usage_sendable (measure_invocation sha rq ob cum term ps b)"
proof -
  have hex: "digest_of sha v = Some h \<Longrightarrow> hex_sha h" for v h by (rule digest_of_hex [OF assms])
  show ?thesis
    unfolding usage_sendable_def measure_invocation_def Let_def
    by (auto dest: counters_of_ok intro: hex simp: zero_counters_ok split: option.splits if_splits)
qed

text \<open>What the agent's two measured statuses mean.\<close>

lemma fresh_status:
  assumes "usage_status_of rq ob raw term ps prior bs = FreshMeasured"
  shows "rq = None \<and> (\<exists>h. ob = Some h) \<and> (\<exists>r. raw = Some r \<and> ct_input r \<noteq> None \<and> ct_output r \<noteq> None)"
  using assms by (simp add: usage_status_of_def split: if_splits option.splits)

lemma delta_status:
  assumes "usage_status_of rq ob raw term ps prior bs = MeasuredDelta"
  shows "bs = BaseValid \<and> (\<exists>h. rq = Some h \<and> ob = Some h)
    \<and> (\<exists>r p. raw = Some r \<and> prior = Some p \<and> ct_input r \<noteq> None \<and> ct_output r \<noteq> None \<and> \<not> rolled_back r p)"
  using assms by (auto simp: usage_status_of_def split: if_splits option.splits)

lemma measured_cases:
  assumes "u = measure_invocation sha rq ob cum term ps b" "iu_status u \<in> {FreshMeasured, MeasuredDelta}"
  obtains (fresh) raw h where "iu_status u = FreshMeasured" "iu_baseline_status u = BaseFresh" "iu_raw u = Some raw"
      "iu_prior u = Some zero_counters" "iu_tokens u = minus_counters raw zero_counters" "rq = None" "ob = Some h"
      "ct_input raw \<noteq> None" "ct_output raw \<noteq> None"
    | (delta) raw prior h r where "iu_status u = MeasuredDelta" "iu_baseline_status u = BaseValid" "iu_raw u = Some raw"
      "iu_prior u = Some prior" "b = Some r" "iu_tokens u = minus_counters raw prior" "rq = Some h" "ob = Some h"
      "\<not> rolled_back raw prior" "ct_input raw \<noteq> None" "ct_output raw \<noteq> None"
proof -
  define p0 where "p0 = (case b of None \<Rightarrow> None | Some r \<Rightarrow> counters_of (bl_cumulative r))"
  define st where "st = usage_status_of rq ob (counters_of cum) term ps p0 (baseline_status_of rq b)"
  have u: "iu_status u = st" "iu_baseline_status u = baseline_status_of rq b" "iu_raw u = counters_of cum"
    "iu_prior u = (if st = FreshMeasured then Some zero_counters else p0)"
    by (simp_all add: assms(1) measure_invocation_def Let_def st_def p0_def)
  have "iu_tokens u = (case (iu_raw u, iu_prior u) of
      (Some r, Some p) \<Rightarrow> if iu_status u \<in> {FreshMeasured, MeasuredDelta} then minus_counters r p else no_counters
    | _ \<Rightarrow> no_counters)"
    by (simp add: assms(1) measure_invocation_def Let_def split: option.split)
  then have tokens: "iu_tokens u = minus_counters raw p" if "counters_of cum = Some raw" "iu_prior u = Some p" for raw p
    using that u(3) assms(2) by simp
  show ?thesis
  proof (cases "st = FreshMeasured")
    case True
    then obtain h raw where s: "rq = None" "ob = Some h" "counters_of cum = Some raw" "ct_input raw \<noteq> None" "ct_output raw \<noteq> None"
      using fresh_status unfolding st_def by metis
    then show ?thesis using True u tokens by (intro fresh) (simp_all add: baseline_status_of_def)
  next
    case False
    then have "st = MeasuredDelta" using assms(2) u(1) by simp
    then obtain h raw p where s: "baseline_status_of rq b = BaseValid" "rq = Some h" "ob = Some h" "counters_of cum = Some raw" "p0 = Some p"
      "ct_input raw \<noteq> None" "ct_output raw \<noteq> None" "\<not> rolled_back raw p"
      using delta_status unfolding st_def by metis
    moreover obtain r where "b = Some r" using s(5) by (auto simp: p0_def split: option.splits)
    ultimately show ?thesis using \<open>st = MeasuredDelta\<close> u tokens by (intro delta) simp_all
  qed
qed

text \<open>The lifecycle frame the agent's wrapper builds from a usage record.\<close>

definition reports :: "invocation_usage \<Rightarrow> lifecycle_frame \<Rightarrow> bool" where
  "reports u fr \<longleftrightarrow> fr_input fr = opt_int (ct_input (iu_tokens u)) \<and> fr_output fr = opt_int (ct_output (iu_tokens u))
     \<and> fr_metadata fr = metadata_dict u"

lemma in_range_counters: "counters_ok t \<Longrightarrow> in_range (ct_input t) \<and> in_range (ct_output t) \<and> in_range (ct_cached t)"
  by (auto simp: counters_ok_def in_range_def split: option.split)

lemma digest_of_None: "digest_of sha v = None \<longleftrightarrow> v \<in> {None, Some []}"
  by (auto simp: digest_of_def split: option.splits)

lemma not_rolled_zero: "counters_ok raw \<Longrightarrow> \<not> rolled_back raw zero_counters"
  by (auto simp: rolled_back_def zero_counters_def went_back_def counters_ok_def split: option.splits)

text \<open>An agent's measurement has the evidence the server asks for, up to the size of its cached part.\<close>

lemma agent_evidence:
  assumes "u = measure_invocation sha rq ob cum term ps b" "iu_status u \<in> {FreshMeasured, MeasuredDelta}"
    "\<And>s. s \<noteq> [] \<Longrightarrow> hex_sha (sha s)" "ob \<noteq> Some []" "\<And>r. b = Some r \<Longrightarrow> bl_execution r \<noteq> []"
    "iu_status u = FreshMeasured \<Longrightarrow> b = None"
  obtains raw prior where "iu_raw u = Some raw" "iu_prior u = Some prior" "counters_ok (iu_tokens u)"
    "ct_input (iu_tokens u) \<noteq> None" "ct_output (iu_tokens u) \<noteq> None"
    "measured_tokens (meta_of u) (ct_input (iu_tokens u)) (ct_output (iu_tokens u)) =
       (if cached_ok raw \<and> cached_ok prior \<and> cached_ok (iu_tokens u) then Some (iu_tokens u) else None)"
proof -
  have sendable: "usage_sendable u" unfolding assms(1) by (rule measured_sendable) (rule assms(3))
  have hashes: "iu_requested u = digest_of sha rq" "iu_observed u = digest_of sha ob"
    "iu_execution u = (case b of None \<Rightarrow> None | Some r \<Rightarrow> digest_of sha (Some (bl_execution r)))"
    by (simp_all add: assms(1) measure_invocation_def Let_def)
  from assms(1,2) show ?thesis
  proof (cases rule: measured_cases)
    case (fresh raw h)
    have ok: "counters_ok raw" using sendable fresh(3) by (simp add: usage_sendable_def)
    have t: "counters_ok (iu_tokens u)" using minus_counters_ok [OF ok zero_counters_ok not_rolled_zero [OF ok]] fresh by simp
    have "h \<noteq> []" using fresh assms(4) by simp
    then have "provenance_ok (meta_of u) zero_counters" "um_observed (meta_of u) \<noteq> None"
      using fresh hashes assms(6) by (simp_all add: provenance_ok_def meta_of_def digest_of_def)
    then show ?thesis
      using that [OF fresh(3,4) t] fresh in_range_counters [OF t]
      by (auto simp: measured_tokens_def meta_of_def minus_counters_def minus_opt_def zero_counters_def Let_def split: option.splits)
  next
    case (delta raw prior h r)
    have ok: "counters_ok raw" "counters_ok prior" using sendable delta(3,4) by (simp_all add: usage_sendable_def)
    have t: "counters_ok (iu_tokens u)" using minus_counters_ok [OF ok delta(9)] delta by simp
    have prior: "ct_input prior \<noteq> None" "ct_output prior \<noteq> None" using delta(9) by (auto simp: rolled_back_def)
    have "h \<noteq> []" "bl_execution r \<noteq> []" using delta assms(4,5) by auto
    then have "provenance_ok (meta_of u) prior" "um_observed (meta_of u) \<noteq> None"
      using delta hashes by (simp_all add: provenance_ok_def meta_of_def digest_of_def)
    then show ?thesis
      using that [OF delta(3,4) t] delta prior in_range_counters [OF t]
      by (auto simp: measured_tokens_def meta_of_def minus_counters_def minus_opt_def Let_def split: option.splits)
  qed
qed

lemma counter_of_opt_ok: "counters_ok c \<Longrightarrow> v \<in> {ct_input c, ct_output c, ct_cached c} \<Longrightarrow> counter_of (opt_int v) = v"
  by (rule counter_of_opt) (auto simp: counters_ok_def)

lemma top_valid: "counters_ok c \<Longrightarrow> v \<in> {ct_input c, ct_output c, ct_cached c} \<Longrightarrow> \<not> top_invalid (opt_int v)"
  using counter_of_opt_ok [of c v] by (cases v) (auto simp: top_invalid_def opt_int_def)



end
