(* ===== verification/NativeAccounting.thy ===== *)
theory NativeAccounting
  imports NativeUsage
begin

text \<open>
  Accounting of native invocations, the transactional part of project_executions/usage.py and the
  binding of turns in authorization.py: one row per permitted native start, reserved once under
  the limits of its execution, adopted once when an ordinary turn becomes the source of an
  execution, and settled once by a terminal frame.

  \<open>between\<close> is what other transactions commit between the unlocked read of a turn's binding and
  the lock of its execution; after the lock the service reads again.
\<close>

section \<open>Tables\<close>

record native_exec =
  nx_id :: string
  nx_project :: string
  nx_room :: string
  nx_lead :: string
  nx_root_task :: "string option"
  nx_source_message :: string
  nx_status :: exec_status
  nx_revision :: int
  nx_limits :: limits
  nx_reserved :: int
  nx_state_revision :: int
  nx_summary :: "usage_summary option"
  nx_created :: instant
  nx_updated :: instant

record native_turn =
  nu_request :: string
  nu_room :: string
  nu_participant :: "string option"
  nu_agent :: "string option"
  nu_task :: "string option"
  nu_trigger :: "string option"
  nu_execution :: "string option"
  nu_revision :: "int option"
  nu_state :: turn_state
  nu_active :: int

record native_attempt =
  nb_id :: string
  nb_turn :: string
  nb_agent :: "string option"
  nb_number :: int
  nb_generation :: int
  nb_state :: turn_attempt_state
  nb_local :: "string option"
  nb_lease :: string
  nb_expires :: "instant option"

record native_agent =
  ng_id :: string
  ng_generation :: int
  ng_running :: bool

record native_event = exec_event +
  ve_created :: instant

record conflict_log =
  cf_agent :: "string option"
  cf_room :: string
  cf_request :: string
  cf_accounting :: string
  cf_reason :: string
  cf_sha :: "string option"

record native_db =
  nd_execs :: "native_exec list"
  nd_rows :: "native_row list"
  nd_turns :: "native_turn list"
  nd_attempts :: "native_attempt list"
  nd_agents :: "native_agent list"
  nd_participants :: "participant_row list"
  nd_rooms :: "room_row list"
  nd_tasks :: "task_row list"
  nd_events :: "native_event list"
  nd_conflicts :: "conflict_log list"

abbreviation get_nexec :: "string \<Rightarrow> native_db \<Rightarrow> native_exec option" where
  "get_nexec xid d \<equiv> tget nx_id xid (nd_execs d)"

abbreviation get_nturn :: "string \<Rightarrow> native_db \<Rightarrow> native_turn option" where
  "get_nturn rid d \<equiv> tget nu_request rid (nd_turns d)"

abbreviation get_nattempt :: "string \<Rightarrow> native_db \<Rightarrow> native_attempt option" where
  "get_nattempt aid d \<equiv> tget nb_id aid (nd_attempts d)"

definition opt_get :: "('r \<Rightarrow> string) \<Rightarrow> string option \<Rightarrow> 'r list \<Rightarrow> 'r option" where
  "opt_get key k rows = (case k of None \<Rightarrow> None | Some x \<Rightarrow> tget key x rows)"

definition ACTIVE_EXECUTIONS :: "exec_status list" where
  "ACTIVE_EXECUTIONS = [XPlanning, XRunning, XWaitingChildren]"

definition identity_matches :: "native_row \<Rightarrow> native_turn \<Rightarrow> native_attempt \<Rightarrow> string option \<Rightarrow> bool" where
  "identity_matches r t a xid \<longleftrightarrow> na_attempt r = nb_id a \<and> Some (na_local r) = xid \<and> na_request r = nu_request t
     \<and> na_agent r = nu_agent t \<and> na_room r = nu_room t \<and> na_number r = nb_number a \<and> na_generation r = nb_generation a"

definition binding_matches :: "native_row \<Rightarrow> native_turn \<Rightarrow> bool" where
  "binding_matches r t \<longleftrightarrow> na_task r = nu_task t \<and> na_execution r = nu_execution t \<and> na_revision r = nu_revision t"

section \<open>The summary of an execution\<close>

definition rows_of :: "string \<Rightarrow> native_db \<Rightarrow> native_row list" where
  "rows_of xid d = filter (\<lambda>r. na_execution r = Some xid) (nd_rows d)"

definition in_execution :: "string \<Rightarrow> native_db \<Rightarrow> native_turn \<Rightarrow> bool" where
  "in_execution xid d t \<longleftrightarrow> nu_execution t = Some xid
     \<or> (case opt_get k_id (nu_task t) (nd_tasks d) of None \<Rightarrow> False | Some k \<Rightarrow> k_execution k = Some xid)"

text \<open>Attempts that were permitted a native start.\<close>

definition permitted :: "string \<Rightarrow> native_db \<Rightarrow> (string \<times> string) list" where
  "permitted xid d =
     List.map_filter (\<lambda>a. case nb_local a of
         None \<Rightarrow> None
       | Some l \<Rightarrow> (case get_nturn (nb_turn a) d of
           None \<Rightarrow> None
         | Some t \<Rightarrow> if in_execution xid d t then Some (nb_id a, l) else None)) (nd_attempts d)"

definition source_event :: "string \<Rightarrow> native_db \<Rightarrow> native_event option" where
  "source_event xid d =
     (case sort_key ve_created (filter (\<lambda>e. xe_execution e = xid \<and> xe_type e = ''native_source_invocations_adopted'') (nd_events d)) of
        [] \<Rightarrow> None | e # _ \<Rightarrow> Some e)"

definition summary_of :: "native_exec \<Rightarrow> native_db \<Rightarrow> usage_summary" where
  "summary_of x d =
     (let rows = rows_of (nx_id x) d; expected = permitted (nx_id x) d;
          matched = map (\<lambda>r. (na_attempt r, na_local r)) rows;
          missing = length (filter (\<lambda>p. p \<notin> set matched) expected);
          source = source_event (nx_id x) d;
          matches = (nx_reserved x = int (length rows));
          cov = (source \<noteq> None \<and> rows \<noteq> [] \<and> missing = 0 \<and> matches);
          revisions = sort (remdups (List.map_filter na_revision rows));
          stamps = map na_as_of rows @ (case source of None \<Rightarrow> [] | Some e \<Rightarrow> [ve_created e])
      in \<lparr>us_totals = totals rows cov, us_reserved = nx_reserved x, us_source = (source \<noteq> None), us_missing = missing,
          us_expected = length (remdups (expected @ matched)), us_matches = matches, us_complete = cov,
          us_revisions = map (\<lambda>v. (v, totals (filter (\<lambda>r. na_revision r = Some v) rows) cov)) revisions,
          us_as_of = (case stamps of [] \<Rightarrow> nx_created x | s # ss \<Rightarrow> fold max ss s)\<rparr>)"

definition execution_usage_summary :: "string \<Rightarrow> native_db \<Rightarrow> py_exc + usage_summary" where
  "execution_usage_summary xid d = (case get_nexec xid d of None \<Rightarrow> Inl ValueError | Some x \<Rightarrow> Inr (summary_of x d))"

definition upd_nexec :: "string \<Rightarrow> (native_exec \<Rightarrow> native_exec) \<Rightarrow> native_db \<Rightarrow> native_db" where
  "upd_nexec xid f d = d\<lparr>nd_execs := tupd nx_id xid f (nd_execs d)\<rparr>"

definition write_summary :: "string \<Rightarrow> instant \<Rightarrow> native_db \<Rightarrow> py_exc + usage_summary \<times> native_db" where
  "write_summary xid now d =
     bindE (execution_usage_summary xid d) (\<lambda>s.
       Inr (s, upd_nexec xid (\<lambda>x. x\<lparr>nx_summary := Some s, nx_state_revision := nx_state_revision x + 1, nx_updated := now\<rparr>) d))"

section \<open>Admission of new work\<close>

definition admission_disposition :: "string \<Rightarrow> string \<Rightarrow> native_db \<Rightarrow> py_exc + disposition" where
  "admission_disposition xid phase d =
     (if phase \<notin> {''intent'', ''native''} then Inl ValueError else
      case get_nexec xid d of
        None \<Rightarrow> Inr (denied ''EXECUTION_NOT_ACTIVE'')
      | Some x \<Rightarrow>
          if nx_status x \<notin> set ACTIVE_EXECUTIONS then Inr (denied ''EXECUTION_NOT_ACTIVE'')
          else bindE (execution_usage_summary xid d) (\<lambda>s. admission s (nx_limits x)))"

definition is_permitted :: "native_turn \<Rightarrow> native_attempt \<Rightarrow> native_db \<Rightarrow> bool" where
  "is_permitted t a d \<longleftrightarrow> nb_turn a = nu_request t \<and> nb_agent a = nu_agent t
     \<and> (case nb_local a of None \<Rightarrow> False | Some l \<Rightarrow> canonical_uuid l)
     \<and> (case find (\<lambda>r. na_attempt r = nb_id a) (nd_rows d) of
          None \<Rightarrow> False
        | Some r \<Rightarrow> identity_matches r t a (nb_local a) \<and> binding_matches r t)"

section \<open>Reserving a native start\<close>

record native_admission =
  nad_allowed :: bool
  nad_duplicate :: bool
  nad_reason :: "string option"
  nad_row :: "string option"

definition refuse :: "string \<Rightarrow> native_admission" where
  "refuse reason = \<lparr>nad_allowed = False, nad_duplicate = False, nad_reason = Some reason, nad_row = None\<rparr>"

definition attempt_current :: "native_turn \<Rightarrow> native_attempt \<Rightarrow> string \<Rightarrow> bool" where
  "attempt_current t a xid \<longleftrightarrow> nb_turn a = nu_request t \<and> nb_agent a = nu_agent t \<and> nb_number a = nu_active t
     \<and> nb_state a \<in> {TaLeased, TaStarted} \<and> nu_state t \<in> {TnPending, TnLeased, TnRetrying} \<and> nb_local a \<in> {None, Some xid}"

definition start_current :: "native_turn \<Rightarrow> native_attempt \<Rightarrow> instant \<Rightarrow> native_db \<Rightarrow> bool" where
  "start_current t a now d \<longleftrightarrow>
     (case (opt_get ng_id (nu_agent t) (nd_agents d), opt_get p_id (nu_participant t) (nd_participants d), tget r_id (nu_room t) (nd_rooms d)) of
        (Some g, Some p, Some r) \<Rightarrow>
          ng_generation g = nb_generation a \<and> ng_running g \<and> p_agent p = Some (ng_id g) \<and> p_room p = nu_room t
          \<and> p_role p \<in> {''member'', ''admin'', ''owner''} \<and> r_archived r = None
          \<and> (case nb_expires a of None \<Rightarrow> False | Some e \<Rightarrow> now < e)
      | _ \<Rightarrow> False)"

definition task_current :: "native_turn \<Rightarrow> native_exec option \<Rightarrow> native_db \<Rightarrow> bool" where
  "task_current t xo d \<longleftrightarrow>
     (case (xo, opt_get k_id (nu_task t) (nd_tasks d), tget r_id (nu_room t) (nd_rooms d)) of
        (Some x, Some k, Some r) \<Rightarrow>
          r_project r = Some (nx_project x) \<and> nx_status x \<in> set ACTIVE_EXECUTIONS \<and> Some (nx_revision x) = nu_revision t
          \<and> k_execution k = Some (nx_id x) \<and> k_input_rev k = nu_revision t \<and> k_room k = nu_room t \<and> k_assignee k = nu_participant t
      | _ \<Rightarrow> False)"

definition new_row :: "string \<Rightarrow> native_turn \<Rightarrow> native_attempt \<Rightarrow> string \<Rightarrow> instant \<Rightarrow> native_row" where
  "new_row nid t a xid now =
     \<lparr>na_id = nid, na_attempt = nb_id a, na_local = xid, na_request = nu_request t, na_agent = nu_agent t, na_room = nu_room t,
      na_task = nu_task t, na_execution = nu_execution t, na_revision = nu_revision t, na_number = nb_number a,
      na_generation = nb_generation a, na_settlement = None, na_sha = None, na_reserved = now, na_settled = None, na_as_of = now\<rparr>"

definition add_row :: "native_row \<Rightarrow> native_db \<Rightarrow> native_db" where
  "add_row r d = d\<lparr>nd_rows := nd_rows d @ [r]\<rparr>"

text \<open>The counter of the execution, taken only under its cap.\<close>

definition take_slot :: "native_exec \<Rightarrow> native_turn \<Rightarrow> native_db \<Rightarrow> py_exc + native_admission + native_db" where
  "take_slot x t d =
     bindE (execution_usage_summary (nx_id x) d) (\<lambda>s.
     bindE (admission s (nx_limits x)) (\<lambda>ad.
       if \<not> ad_allowed ad then Inr (Inl (\<lparr>nad_allowed = False, nad_duplicate = False, nad_reason = ad_reason ad, nad_row = None\<rparr>))
       else
         bindE (limit_of (nx_limits x) ''max_native_invocations'') (\<lambda>cap.
           if nx_status x \<in> set ACTIVE_EXECUTIONS \<and> Some (nx_revision x) = nu_revision t \<and> nx_reserved x < MAX_COUNTER
              \<and> (case cap of None \<Rightarrow> True | Some c \<Rightarrow> nx_reserved x < c)
           then Inr (Inr (upd_nexec (nx_id x) (\<lambda>y. y\<lparr>nx_reserved := nx_reserved y + 1\<rparr>) d))
           else Inr (Inl (refuse NATIVE_LIMIT)))))"

definition insert_permit ::
  "string \<Rightarrow> native_turn \<Rightarrow> native_attempt \<Rightarrow> string \<Rightarrow> native_exec option \<Rightarrow> instant \<Rightarrow> native_db \<Rightarrow> py_exc + native_admission \<times> native_db" where
  "insert_permit nid t a xid xo now d =
     (let granted = \<lparr>nad_allowed = True, nad_duplicate = False, nad_reason = None, nad_row = Some nid\<rparr>;
          row = new_row nid t a xid now in
      case xo of
        None \<Rightarrow> Inr (granted, add_row row d)
      | Some x \<Rightarrow>
          bindE (take_slot x t d) (\<lambda>res.
            case res of
              Inl refusal \<Rightarrow> Inr (refusal, d)
            | Inr d1 \<Rightarrow> bindE (write_summary (nx_id x) now (add_row row d1)) (\<lambda>(_, d2). Inr (granted, d2))))"

text \<open>\<open>reserve_native_invocation\<close> after the locks.\<close>

definition reserve_locked ::
  "string \<Rightarrow> native_turn \<Rightarrow> string \<Rightarrow> string \<Rightarrow> native_exec option \<Rightarrow> instant \<Rightarrow> native_db \<Rightarrow> py_exc + native_admission \<times> native_db" where
  "reserve_locked nid t aid xid xo now d =
     (case get_nattempt aid d of
        None \<Rightarrow> Inr (refuse ''NATIVE_ACCOUNTING_BINDING_CONFLICT'', d)
      | Some a \<Rightarrow>
          if \<not> attempt_current t a xid then Inr (refuse ''NATIVE_ACCOUNTING_BINDING_CONFLICT'', d)
          else if \<not> start_current t a now d then Inr (refuse ''STALE_TURN_PROOF'', d)
          else if nu_execution t \<noteq> None \<and> \<not> task_current t xo d then Inr (refuse ''TURN_EXECUTION_BINDING_INVALID'', d)
          else if nu_execution t = None \<and> nu_revision t \<noteq> None then Inr (refuse ''TURN_EXECUTION_BINDING_INVALID'', d)
          else case find (\<lambda>r. na_attempt r = aid \<or> na_local r = xid) (nd_rows d) of
            Some r \<Rightarrow>
              let same = identity_matches r t a (Some xid) \<and> binding_matches r t
              in Inr (\<lparr>nad_allowed = same, nad_duplicate = same,
                       nad_reason = (if same then None else Some ''NATIVE_ACCOUNTING_BINDING_CONFLICT''), nad_row = Some (na_id r)\<rparr>, d)
          | None \<Rightarrow> insert_permit nid t a xid xo now d)"

definition reserve_native ::
  "(native_db \<Rightarrow> native_db) \<Rightarrow> string \<Rightarrow> string \<Rightarrow> string \<Rightarrow> string \<Rightarrow> instant \<Rightarrow> native_db \<Rightarrow> py_exc + native_admission \<times> native_db" where
  "reserve_native between nid rid aid xid now d =
     (if \<not> canonical_uuid xid then Inr (refuse ''LOCAL_EXECUTION_ID_INVALID'', d)
      else case get_nturn rid d of
        None \<Rightarrow> Inr (refuse ''NATIVE_ACCOUNTING_BINDING_CONFLICT'', d)
      | Some t0 \<Rightarrow>
          let d1 = between d; xo = opt_get nx_id (nu_execution t0) (nd_execs d1) in
          case get_nturn rid d1 of
            None \<Rightarrow> Inr (refuse ''NATIVE_ACCOUNTING_BINDING_CONFLICT'', d1)
          | Some t \<Rightarrow>
              if nu_execution t \<noteq> nu_execution t0 \<or> nu_revision t \<noteq> nu_revision t0
              then Inr (refuse ''NATIVE_ACCOUNTING_BINDING_CONFLICT'', d1)
              else reserve_locked nid t aid xid xo now d1)"

section \<open>Adopting the source turn\<close>

definition is_source :: "native_turn \<Rightarrow> native_exec \<Rightarrow> bool" where
  "is_source t x \<longleftrightarrow> nu_task t = nx_root_task x \<and> nu_agent t = Some (nx_lead x) \<and> nu_room t = nx_room x
     \<and> nu_trigger t = Some (nx_source_message x)"

definition adoptable :: "native_exec \<Rightarrow> native_turn \<Rightarrow> native_db \<Rightarrow> native_row \<Rightarrow> bool" where
  "adoptable x t d r \<longleftrightarrow>
     (case get_nattempt (na_attempt r) d of
        None \<Rightarrow> False
      | Some a \<Rightarrow> nb_turn a = nu_request t \<and> identity_matches r t a (nb_local a)
          \<and> (na_task r = None \<or> na_task r = nx_root_task x)
          \<and> ((na_execution r = None \<and> na_revision r = None) \<or> (na_execution r = Some (nx_id x) \<and> na_revision r = Some 1)))"

definition adopt_row :: "native_exec \<Rightarrow> string \<Rightarrow> native_row \<Rightarrow> native_row" where
  "adopt_row x rid r =
     (if na_request r = rid \<and> na_execution r = None
      then r\<lparr>na_execution := Some (nx_id x), na_revision := Some 1, na_task := nx_root_task x\<rparr> else r)"

definition source_key :: "string \<Rightarrow> string \<Rightarrow> string" where
  "source_key xid rid = ''execution:'' @ xid @ '':usage-source:'' @ rid"

definition new_source_event :: "native_exec \<Rightarrow> string \<Rightarrow> nat \<Rightarrow> instant \<Rightarrow> native_event" where
  "new_source_event x rid n now =
     \<lparr>xe_execution = nx_id x, xe_task = nx_root_task x, xe_key = source_key (nx_id x) rid,
      xe_type = ''native_source_invocations_adopted'',
      xe_details = [(''version'', PStr ''native-invocation-v1''), (''request_id'', PStr rid), (''input_revision'', PInt 1),
        (''accounted_source_attempts'', PInt (int n)), (''initial_limit_declared_after_native_start'', PBool True)],
      ve_created = now\<rparr>"

definition unbound_rows :: "string \<Rightarrow> native_db \<Rightarrow> native_row list" where
  "unbound_rows rid d = filter (\<lambda>r. na_request r = rid \<and> na_execution r = None) (nd_rows d)"

definition adopt_rows :: "native_exec \<Rightarrow> string \<Rightarrow> native_db \<Rightarrow> native_db" where
  "adopt_rows x rid d =
     (if unbound_rows rid d = [] then d
      else upd_nexec (nx_id x) (\<lambda>y. y\<lparr>nx_reserved := nx_reserved y + int (length (unbound_rows rid d))\<rparr>)
             (d\<lparr>nd_rows := map (adopt_row x rid) (nd_rows d)\<rparr>))"

definition record_source ::
  "native_exec \<Rightarrow> string \<Rightarrow> nat \<Rightarrow> bool \<Rightarrow> instant \<Rightarrow> native_db \<Rightarrow> py_exc + usage_summary \<times> native_db" where
  "record_source x rid n adopted now d =
     (case find (\<lambda>e. xe_key e = source_key (nx_id x) rid) (nd_events d) of
        Some e \<Rightarrow>
          if xe_execution e \<noteq> nx_id x \<or> xe_task e \<noteq> nx_root_task x \<or> dget (xe_details e) ''request_id'' \<noteq> PStr rid
          then Inl ValueError
          else if adopted then write_summary (nx_id x) now d
          else bindE (execution_usage_summary (nx_id x) d) (\<lambda>s. Inr (s, d))
      | None \<Rightarrow> write_summary (nx_id x) now (d\<lparr>nd_events := nd_events d @ [new_source_event x rid n now]\<rparr>))"

definition adopt_locked :: "native_exec \<Rightarrow> native_turn \<Rightarrow> instant \<Rightarrow> native_db \<Rightarrow> py_exc + usage_summary \<times> native_db" where
  "adopt_locked x t now d =
     (let rid = nu_request t; rows = filter (\<lambda>r. na_request r = rid) (nd_rows d); unbound = unbound_rows rid d in
      if \<not> list_all (adoptable x t d) rows then Inl ValueError
      else if unbound \<noteq> [] \<and> \<not> nx_reserved x \<le> MAX_COUNTER - int (length unbound) then Inl ValueError
      else record_source x rid (length rows) (unbound \<noteq> []) now (adopt_rows x rid d))"

definition adopt_source ::
  "(native_db \<Rightarrow> native_db) \<Rightarrow> native_exec \<Rightarrow> native_turn \<Rightarrow> instant \<Rightarrow> native_db \<Rightarrow> py_exc + usage_summary \<times> native_db" where
  "adopt_source between x t now d =
     (if \<not> is_source t x then bindE (execution_usage_summary (nx_id x) d) (\<lambda>s. Inr (s, d))
      else
        let d1 = between d in
        case (get_nexec (nx_id x) d1, get_nturn (nu_request t) d1) of
          (Some x1, Some t1) \<Rightarrow>
            if is_source t1 x1 \<and> nu_execution t1 = Some (nx_id x1) \<and> nu_revision t1 = Some 1 then adopt_locked x1 t1 now d1
            else Inl ValueError
        | _ \<Rightarrow> Inl ValueError)"

text \<open>\<open>bind_execution_turn\<close>: its conflicts are exceptions of the service.\<close>

datatype bind_error = BindInvalid | BindImmutable | BindRaced | BindUsage py_exc

definition lift_usage :: "py_exc + usage_summary \<times> native_db \<Rightarrow> bind_error + native_db" where
  "lift_usage r = (case r of Inl e \<Rightarrow> Inl (BindUsage e) | Inr (_, d) \<Rightarrow> Inr d)"

definition bind_execution_turn ::
  "(native_db \<Rightarrow> native_db) \<Rightarrow> native_turn \<Rightarrow> task_row \<Rightarrow> instant \<Rightarrow> native_db \<Rightarrow> bind_error + native_db" where
  "bind_execution_turn between t k now d =
     (case (k_execution k, k_input_rev k) of
        (Some xid, Some v) \<Rightarrow>
          if xid = [] \<or> nu_task t \<noteq> Some (k_id k) then Inl BindInvalid
          else if nu_execution t \<noteq> None \<or> nu_revision t \<noteq> None then
            (if nu_execution t \<noteq> Some xid \<or> nu_revision t \<noteq> Some v then Inl BindImmutable
             else case get_nexec xid d of
                    None \<Rightarrow> Inl (BindUsage AttributeError)
                  | Some x \<Rightarrow> lift_usage (adopt_source between x t now d))
          else
            (case get_nturn (nu_request t) d of
               None \<Rightarrow> Inl BindRaced
             | Some t0 \<Rightarrow>
                 if nu_task t0 \<noteq> Some (k_id k) \<or> nu_execution t0 \<noteq> None \<or> nu_revision t0 \<noteq> None then Inl BindRaced
                 else
                   let t1 = t0\<lparr>nu_execution := Some xid, nu_revision := Some v\<rparr>;
                       d1 = d\<lparr>nd_turns := tupd nu_request (nu_request t) (\<lambda>_. t1) (nd_turns d)\<rparr>
                   in case get_nexec xid d1 of
                        None \<Rightarrow> Inl (BindUsage AttributeError)
                      | Some x \<Rightarrow> lift_usage (adopt_source between x t1 now d1))
      | _ \<Rightarrow> Inl BindInvalid)"

section \<open>Settling\<close>

record settle_result =
  ns_accepted :: bool
  ns_duplicate :: bool
  ns_execution :: "string option"
  ns_changed :: bool
  ns_limit :: "string option"

definition settle_refused :: "string option \<Rightarrow> settle_result" where
  "settle_refused x = \<lparr>ns_accepted = False, ns_duplicate = False, ns_execution = x, ns_changed = False, ns_limit = None\<rparr>"

definition conflict_key :: "native_row \<Rightarrow> string \<Rightarrow> string option \<Rightarrow> string" where
  "conflict_key r reason sha =
     ''native-accounting:'' @ na_id r @ '':conflict:'' @ reason @ '':'' @ (case sha of None \<Rightarrow> ''identity'' | Some [] \<Rightarrow> ''identity'' | Some s \<Rightarrow> s)"

definition record_conflict :: "native_row \<Rightarrow> string \<Rightarrow> string option \<Rightarrow> instant \<Rightarrow> native_db \<Rightarrow> native_db" where
  "record_conflict r reason sha now d =
     (case na_execution r of
        Some xid \<Rightarrow>
          let key = conflict_key r reason sha in
          if list_ex (\<lambda>e. xe_key e = key) (nd_events d) then d
          else d\<lparr>nd_events := nd_events d @ [\<lparr>xe_execution = xid, xe_task = na_task r, xe_key = key,
                  xe_type = ''native_usage_accounting_conflict'',
                  xe_details = [(''accounting_id'', PStr (na_id r)), (''reason_code'', PStr reason), (''settlement_sha256'', opt_str sha)],
                  ve_created = now\<rparr>]\<rparr>
      | None \<Rightarrow>
          let l = \<lparr>cf_agent = na_agent r, cf_room = na_room r, cf_request = na_request r, cf_accounting = na_id r,
                   cf_reason = reason, cf_sha = sha\<rparr>
          in if l \<in> set (nd_conflicts d) then d else d\<lparr>nd_conflicts := nd_conflicts d @ [l]\<rparr>)"

definition settle_native_row :: "settlement \<Rightarrow> string \<Rightarrow> instant \<Rightarrow> native_row \<Rightarrow> native_row" where
  "settle_native_row s sha now r = r\<lparr>na_settlement := Some s, na_sha := Some sha, na_settled := Some now, na_as_of := now\<rparr>"

definition settled_limit :: "usage_summary \<Rightarrow> native_exec \<Rightarrow> py_exc + string option" where
  "settled_limit s x =
     bindE (limit_of (nx_limits x) ''max_total_tokens'') (\<lambda>cap.
     bindE (limit_of (nx_limits x) ''max_native_invocations'') (\<lambda>native.
       Inr (if token_limit_hit s cap then Some USAGE_LIMIT
            else if (case native of None \<Rightarrow> False | Some c \<Rightarrow> c \<le> nx_reserved x) then Some NATIVE_LIMIT else None)))"

definition settle_pending ::
  "settlement \<times> string \<Rightarrow> native_row \<Rightarrow> instant \<Rightarrow> native_db \<Rightarrow> py_exc + settle_result \<times> native_db" where
  "settle_pending n r now d =
     (if na_settled r \<noteq> None \<or> na_sha r \<noteq> None then Inl ValueError
      else
        let d1 = d\<lparr>nd_rows := tupd na_id (na_id r) (settle_native_row (fst n) (snd n) now) (nd_rows d)\<rparr> in
        case na_execution r of
          None \<Rightarrow> Inr (\<lparr>ns_accepted = True, ns_duplicate = False, ns_execution = None, ns_changed = False, ns_limit = None\<rparr>, d1)
        | Some xid \<Rightarrow>
            bindE (write_summary xid now d1) (\<lambda>(s, d2).
              case get_nexec xid d2 of
                None \<Rightarrow> Inl AttributeError
              | Some x \<Rightarrow> bindE (settled_limit s x) (\<lambda>limit.
                  Inr (\<lparr>ns_accepted = True, ns_duplicate = False, ns_execution = Some xid, ns_changed = True, ns_limit = limit\<rparr>, d2))))"

definition settle_found ::
  "(settlement_facts \<Rightarrow> string) \<Rightarrow> lifecycle_frame \<Rightarrow> native_row \<Rightarrow> native_turn \<Rightarrow> instant \<Rightarrow> native_db \<Rightarrow> py_exc + settle_result \<times> native_db" where
  "settle_found digest fr r t now d =
     (if \<not> binding_matches r t
      then Inr (settle_refused (na_execution r), record_conflict r ''NATIVE_ACCOUNTING_BINDING_CONFLICT'' None now d)
      else
        let n = normalized_settlement digest r fr in
        if na_status r \<noteq> NaPending then
          (if na_sha r = Some (snd n)
           then Inr (\<lparr>ns_accepted = True, ns_duplicate = True, ns_execution = na_execution r, ns_changed = False, ns_limit = None\<rparr>, d)
           else Inr (settle_refused (na_execution r),
                     record_conflict r ''NATIVE_USAGE_SETTLEMENT_CONFLICT'' (Some (snd n)) now d))
        else settle_pending n r now d)"

definition proof_matches :: "string \<Rightarrow> int \<Rightarrow> string \<Rightarrow> string \<Rightarrow> native_attempt \<Rightarrow> bool" where
  "proof_matches gid gen xid lease a \<longleftrightarrow>
     nb_agent a = Some gid \<and> nb_generation a = gen \<and> nb_local a = Some xid \<and> nb_lease a = lease"

definition settle_native ::
  "(settlement_facts \<Rightarrow> string) \<Rightarrow> (native_db \<Rightarrow> native_db) \<Rightarrow> string \<Rightarrow> string \<Rightarrow> lifecycle_frame \<Rightarrow> instant \<Rightarrow> native_db
     \<Rightarrow> py_exc + settle_result \<times> native_db" where
  "settle_native digest between gid room fr now d =
     (case (fr_attempt fr, fr_generation fr, fr_local fr, fr_lease fr) of
        (Some n, Some gen, Some xid, Some lease) \<Rightarrow>
          if fr_event fr \<noteq> ''engine_call_finished'' \<or> fr_room fr \<noteq> room \<or> n < 1 \<or> gen < 0 \<or> \<not> canonical_uuid xid
          then Inr (settle_refused None, d)
          else (case get_nturn (fr_request fr) d of
            None \<Rightarrow> Inr (settle_refused None, d)
          | Some t0 \<Rightarrow>
              let d1 = between d in
              if nu_execution t0 \<notin> {None, Some []} \<and> opt_get nx_id (nu_execution t0) (nd_execs d1) = None then Inr (settle_refused None, d1)
              else (case get_nturn (fr_request fr) d1 of
                None \<Rightarrow> Inr (settle_refused None, d1)
              | Some t \<Rightarrow>
                  if nu_execution t \<noteq> nu_execution t0 \<or> nu_revision t \<noteq> nu_revision t0 \<or> nu_agent t \<noteq> Some gid \<or> nu_room t \<noteq> room
                  then Inr (settle_refused None, d1)
                  else (case find (\<lambda>a. nb_turn a = nu_request t \<and> nb_number a = n) (nd_attempts d1) of
                    None \<Rightarrow> Inr (settle_refused None, d1)
                  | Some a \<Rightarrow>
                      if \<not> proof_matches gid gen xid lease a then Inr (settle_refused None, d1)
                      else (case find (\<lambda>r. na_attempt r = nb_id a) (nd_rows d1) of
                        None \<Rightarrow> Inr (settle_refused None, d1)
                      | Some r \<Rightarrow>
                          if \<not> identity_matches r t a (Some xid) then Inr (settle_refused None, d1)
                          else settle_found digest fr r t now d1))))
      | _ \<Rightarrow> Inr (settle_refused None, d))"

section \<open>The ledger\<close>

definition slots :: "native_db \<Rightarrow> (string \<times> int) list" where
  "slots d = map (\<lambda>x. (nx_id x, nx_reserved x)) (nd_execs d)"

text \<open>
  Every permitted start has one row, keyed by its attempt and by its local invocation, and the
  counter of an execution is the number of its rows.
\<close>

definition row_ok :: "native_row \<Rightarrow> bool" where
  "row_ok r \<longleftrightarrow> (case na_settlement r of None \<Rightarrow> na_sha r = None \<and> na_settled r = None | Some s \<Rightarrow> sl_status s \<noteq> NaPending)"

definition ledger_ok :: "native_db \<Rightarrow> bool" where
  "ledger_ok d \<longleftrightarrow> distinct (map na_id (nd_rows d)) \<and> distinct (map na_attempt (nd_rows d)) \<and> distinct (map na_local (nd_rows d))
     \<and> distinct (map fst (slots d)) \<and> (\<forall>(xid, n) \<in> set (slots d). n = int (length (rows_of xid d)))
     \<and> (\<forall>r \<in> set (nd_rows d). \<forall>xid. na_execution r = Some xid \<longrightarrow> xid \<in> fst ` set (slots d))
     \<and> (\<forall>r \<in> set (nd_rows d). row_ok r)"

text \<open>A row keeps its identity, its binding once it has one, and its settlement once it has one.\<close>

definition row_kept :: "native_row \<Rightarrow> native_row \<Rightarrow> bool" where
  "row_kept r r' \<longleftrightarrow> na_id r' = na_id r \<and> na_attempt r' = na_attempt r \<and> na_local r' = na_local r \<and> na_request r' = na_request r
     \<and> na_agent r' = na_agent r \<and> na_room r' = na_room r \<and> na_number r' = na_number r \<and> na_generation r' = na_generation r
     \<and> na_reserved r' = na_reserved r
     \<and> (na_execution r \<noteq> None \<longrightarrow> na_execution r' = na_execution r \<and> na_revision r' = na_revision r \<and> na_task r' = na_task r)
     \<and> (na_settlement r \<noteq> None \<longrightarrow> na_settlement r' = na_settlement r \<and> na_sha r' = na_sha r \<and> na_settled r' = na_settled r)"

definition rows_kept :: "native_db \<Rightarrow> native_db \<Rightarrow> bool" where
  "rows_kept d d' \<longleftrightarrow> (\<forall>r \<in> set (nd_rows d). \<exists>r' \<in> set (nd_rows d'). row_kept r r')"

lemma row_kept_refl [simp]: "row_kept r r"
  by (simp add: row_kept_def)

lemma row_kept_trans: "row_kept a b \<Longrightarrow> row_kept b c \<Longrightarrow> row_kept a c"
  unfolding row_kept_def by (elim conjE, intro conjI impI) simp_all

lemma rows_kept_same: "nd_rows d' = nd_rows d \<Longrightarrow> rows_kept d d'"
  unfolding rows_kept_def by (metis row_kept_refl)

lemma rows_kept_trans: "rows_kept a b \<Longrightarrow> rows_kept b c \<Longrightarrow> rows_kept a c"
  unfolding rows_kept_def by (meson row_kept_trans)

lemma rows_of_cong: "nd_rows d' = nd_rows d \<Longrightarrow> rows_of xid d' = rows_of xid d"
  by (simp add: rows_of_def)

lemma ledger_ok_cong:
  assumes "ledger_ok d" "nd_rows d' = nd_rows d" "slots d' = slots d"
  shows "ledger_ok d'"
  using assms by (simp add: ledger_ok_def rows_of_cong [of d' d])

lemma slots_upd:
  assumes "\<And>x. nx_id (f x) = nx_id x" "\<And>x. nx_reserved (f x) = nx_reserved x + k"
  shows "slots (upd_nexec xid f d) = map (\<lambda>(i, n). (i, if i = xid then n + k else n)) (slots d)"
  using assms by (simp add: slots_def upd_nexec_def tupd_def)

lemma slots_same:
  assumes "\<And>x. nx_id (f x) = nx_id x" "\<And>x. nx_reserved (f x) = nx_reserved x"
  shows "slots (upd_nexec xid f d) = slots d"
  using assms by (simp add: slots_def upd_nexec_def tupd_def)

lemma upd_nexec_rows [simp]: "nd_rows (upd_nexec xid f d) = nd_rows d"
  by (simp add: upd_nexec_def)

lemma write_summary_frame:
  assumes "write_summary xid now d = Inr (s, d')"
  shows "nd_rows d' = nd_rows d \<and> slots d' = slots d"
  using assms by (auto simp: write_summary_def slots_same elim!: bindE_InrE)

lemma ledger_write_summary: "write_summary xid now d = Inr (s, d') \<Longrightarrow> ledger_ok d \<Longrightarrow> ledger_ok d'"
  using write_summary_frame [of xid now d s d'] ledger_ok_cong by blast

text \<open>Adding a permit under its execution's counter.\<close>

lemma ledger_add:
  assumes "ledger_ok d" "na_id r \<notin> na_id ` set (nd_rows d)" "na_attempt r \<notin> na_attempt ` set (nd_rows d)"
    "na_local r \<notin> na_local ` set (nd_rows d)" "row_ok r"
    "case na_execution r of None \<Rightarrow> slots d' = slots d
     | Some xid \<Rightarrow> xid \<in> fst ` set (slots d) \<and> slots d' = map (\<lambda>(i, n). (i, if i = xid then n + 1 else n)) (slots d)"
    "nd_rows d' = nd_rows d @ [r]"
  shows "ledger_ok d'"
proof -
  have len: "length (rows_of i d') = length (rows_of i d) + (if na_execution r = Some i then 1 else 0)" for i
    by (simp add: rows_of_def assms(7))
  have ids: "fst ` set (slots d') = fst ` set (slots d)" "map fst (slots d') = map fst (slots d)"
    using assms(6) by (auto split: option.splits simp: case_prod_beta image_image comp_def)
  have cnt: "\<forall>(xid, n) \<in> set (slots d'). n = int (length (rows_of xid d'))"
    using assms(1,6) by (auto simp: len ledger_ok_def split: option.splits)
  show ?thesis
    using assms ids cnt unfolding ledger_ok_def by (auto split: option.splits)
qed

lemma rows_kept_add: "nd_rows d' = nd_rows d @ rs \<Longrightarrow> rows_kept d d'"
  unfolding rows_kept_def by (metis UnCI row_kept_refl set_append)

text \<open>Rewriting rows in place.\<close>

lemma ledger_map:
  assumes "ledger_ok d" "nd_rows d' = map f (nd_rows d)"
    "\<And>r. r \<in> set (nd_rows d) \<Longrightarrow> row_kept r (f r)"
    "\<And>r. r \<in> set (nd_rows d) \<Longrightarrow> row_ok (f r)"
    "map fst (slots d') = map fst (slots d)" "\<forall>(xid, n) \<in> set (slots d'). n = int (length (rows_of xid d'))"
    "\<And>r xid. r \<in> set (nd_rows d) \<Longrightarrow> na_execution (f r) = Some xid \<Longrightarrow> xid \<in> fst ` set (slots d)"
  shows "ledger_ok d' \<and> rows_kept d d'"
proof -
  have keys: "map na_id (nd_rows d') = map na_id (nd_rows d)" "map na_attempt (nd_rows d') = map na_attempt (nd_rows d)"
    "map na_local (nd_rows d') = map na_local (nd_rows d)"
    using assms(3) by (simp_all add: assms(2) row_kept_def)
  have ids: "fst ` set (slots d') = fst ` set (slots d)" using assms(5) by (metis set_map)
  have "ledger_ok d'"
    using assms(1,4,5,6,7) unfolding ledger_ok_def keys by (auto simp: assms(2) ids)
  moreover have "rows_kept d d'" using assms(2,3) unfolding rows_kept_def by auto
  ultimately show ?thesis ..
qed

subsection \<open>Reserving\<close>

lemma opt_get_Some: "opt_get key k rows = Some x \<Longrightarrow> k = Some (key x) \<and> tget key (key x) rows = Some x"
  by (auto simp: opt_get_def split: option.splits dest: tget_Some_key)

lemma get_nexec_slot: "get_nexec xid d = Some x \<Longrightarrow> nx_id x = xid \<and> (xid, nx_reserved x) \<in> set (slots d)"
  by (auto simp: slots_def dest: tget_Some_key tget_Some_mem)

text \<open>What a granted new permit went through.\<close>

lemma take_slot_granted:
  assumes "take_slot x t d = Inr (Inr d1)"
  shows "d1 = upd_nexec (nx_id x) (\<lambda>y. y\<lparr>nx_reserved := nx_reserved y + 1\<rparr>) d" "nx_status x \<in> set ACTIVE_EXECUTIONS"
    "nx_reserved x < MAX_COUNTER" "\<exists>s. execution_usage_summary (nx_id x) d = Inr s \<and> admission s (nx_limits x) = Inr \<lparr>ad_allowed = True, ad_reason = None\<rparr>"
    "\<forall>c. limit_of (nx_limits x) ''max_native_invocations'' = Inr (Some c) \<longrightarrow> nx_reserved x < c"
  using assms
  by (auto simp: take_slot_def refuse_def admission_def denied_def split: if_splits option.splits elim!: bindE_InrE)

lemma reserve_locked_cases:
  assumes "reserve_locked nid t aid xid xo now d = Inr (ad, d')" "xo = opt_get nx_id (nu_execution t) (nd_execs d)"
  obtains (same) "d' = d" "nad_allowed ad \<longrightarrow> nad_duplicate ad"
  | (plain) a where "nb_id a = aid" "nu_execution t = None" "d' = add_row (new_row nid t a xid now) d"
      "aid \<notin> na_attempt ` set (nd_rows d)" "xid \<notin> na_local ` set (nd_rows d)"
  | (bound) a x s where "nb_id a = aid" "xo = Some x" "nu_execution t = Some (nx_id x)"
      "aid \<notin> na_attempt ` set (nd_rows d)" "xid \<notin> na_local ` set (nd_rows d)"
      "take_slot x t d = Inr (Inr (upd_nexec (nx_id x) (\<lambda>y. y\<lparr>nx_reserved := nx_reserved y + 1\<rparr>) d))"
      "write_summary (nx_id x) now (add_row (new_row nid t a xid now) (upd_nexec (nx_id x) (\<lambda>y. y\<lparr>nx_reserved := nx_reserved y + 1\<rparr>) d)) = Inr (s, d')"
proof (cases "get_nattempt aid d")
  case None
  then show ?thesis using assms(1) by (intro same) (auto simp: reserve_locked_def refuse_def)
next
  case (Some a)
  have aid: "nb_id a = aid" using Some by (rule tget_Some_key)
  let ?ok = "attempt_current t a xid \<and> start_current t a now d \<and> (nu_execution t \<noteq> None \<longrightarrow> task_current t xo d)
     \<and> (nu_execution t = None \<longrightarrow> nu_revision t = None) \<and> find (\<lambda>r. na_attempt r = aid \<or> na_local r = xid) (nd_rows d) = None"
  show ?thesis
  proof (cases ?ok)
    case False
    then show ?thesis using assms(1) Some
      by (intro same) (auto simp: reserve_locked_def refuse_def Let_def split: if_splits option.splits)
  next
    case True
    then have fresh: "aid \<notin> na_attempt ` set (nd_rows d)" "xid \<notin> na_local ` set (nd_rows d)" by (auto simp: find_None_iff)
    have ins: "insert_permit nid t a xid xo now d = Inr (ad, d')" using assms(1) Some True by (simp add: reserve_locked_def split: if_splits)
    show ?thesis
    proof (cases xo)
      case None
      then have "nu_execution t = None" using True by (auto simp: task_current_def)
      then show ?thesis using ins None by (intro plain [OF aid _ _ fresh]) (simp_all add: insert_permit_def)
    next
      case (Some x)
      from ins Some obtain res where res: "take_slot x t d = Inr res" by (auto simp: insert_permit_def elim!: bindE_InrE)
      show ?thesis
      proof (cases res)
        case (Inl refusal)
        have "\<not> nad_allowed refusal"
          using res Inl by (auto simp: take_slot_def refuse_def split: if_splits option.splits elim!: bindE_InrE)
        then show ?thesis using ins Some res Inl by (intro same) (auto simp: insert_permit_def)
      next
        case (Inr d1)
        note d1 = take_slot_granted(1) [OF res [unfolded Inr]]
        from ins Some res Inr obtain s where s: "write_summary (nx_id x) now (add_row (new_row nid t a xid now) d1) = Inr (s, d')"
          by (auto simp: insert_permit_def elim!: bindE_InrE)
        have "nu_execution t = Some (nx_id x)" using opt_get_Some assms(2) Some by metis
        then show ?thesis by (rule bound [OF aid Some _ fresh res [unfolded Inr d1] s [unfolded d1]])
      qed
    qed
  qed
qed

lemma new_row_simps [simp]:
  "na_id (new_row nid t a xid now) = nid" "na_attempt (new_row nid t a xid now) = nb_id a"
  "na_local (new_row nid t a xid now) = xid" "na_execution (new_row nid t a xid now) = nu_execution t"
  "na_settlement (new_row nid t a xid now) = None" "na_sha (new_row nid t a xid now) = None"
  "na_settled (new_row nid t a xid now) = None" "row_ok (new_row nid t a xid now)"
  by (simp_all add: new_row_def row_ok_def)

lemma add_row_simps [simp]: "nd_rows (add_row r d) = nd_rows d @ [r]" "slots (add_row r d) = slots d" "nd_execs (add_row r d) = nd_execs d"
  by (simp_all add: add_row_def slots_def)

lemma reserve_locked_ledger:
  assumes "reserve_locked nid t aid xid xo now d = Inr (ad, d')" "xo = opt_get nx_id (nu_execution t) (nd_execs d)"
    "ledger_ok d" "nid \<notin> na_id ` set (nd_rows d)"
  shows "ledger_ok d' \<and> rows_kept d d'"
  using assms(1,2)
proof (cases rule: reserve_locked_cases)
  case same
  then show ?thesis using assms(3) by (simp add: rows_kept_same)
next
  case (plain a)
  then show ?thesis
    using ledger_add [OF assms(3), of "new_row nid t a xid now" d'] assms(4) rows_kept_add [of d' d] by simp
next
  case (bound a x s)
  let ?inc = "\<lambda>y. y\<lparr>nx_reserved := nx_reserved y + 1\<rparr>"
  have x: "nx_id x \<in> fst ` set (slots d)"
    using assms(2) bound(2) opt_get_Some get_nexec_slot by (metis fst_conv image_eqI)
  have sl: "slots (upd_nexec (nx_id x) ?inc d) = map (\<lambda>(i, n). (i, if i = nx_id x then n + 1 else n)) (slots d)"
    by (rule slots_upd) simp_all
  have "ledger_ok (add_row (new_row nid t a xid now) (upd_nexec (nx_id x) ?inc d))"
    by (rule ledger_add [OF assms(3), of "new_row nid t a xid now"]) (use bound assms(4) x sl in \<open>simp_all\<close>)
  then have "ledger_ok d'" by (rule ledger_write_summary [OF bound(7)])
  moreover have "nd_rows d' = nd_rows d @ [new_row nid t a xid now]" using write_summary_frame [OF bound(7)] by simp
  ultimately show ?thesis using rows_kept_add by blast
qed

subsection \<open>Adopting\<close>

lemma length_filter_or:
  "(\<And>r. \<not> (P r \<and> Q r)) \<Longrightarrow> length (filter (\<lambda>r. P r \<or> Q r) rs) = length (filter P rs) + length (filter Q rs)"
  by (induction rs) auto

lemma adopt_row_execution:
  "na_execution (adopt_row x rid r) = (if na_request r = rid \<and> na_execution r = None then Some (nx_id x) else na_execution r)"
  by (simp add: adopt_row_def)

lemma adopt_row_count:
  "length (filter (\<lambda>r. na_execution (adopt_row x rid r) = Some i) rows)
     = length (filter (\<lambda>r. na_execution r = Some i) rows)
       + (if i = nx_id x then length (filter (\<lambda>r. na_request r = rid \<and> na_execution r = None) rows) else 0)"
proof (cases "i = nx_id x")
  case True
  have "filter (\<lambda>r. na_execution (adopt_row x rid r) = Some i) rows
      = filter (\<lambda>r. na_execution r = Some i \<or> (na_request r = rid \<and> na_execution r = None)) rows"
    using True by (intro filter_cong) (auto simp: adopt_row_execution)
  then show ?thesis using True length_filter_or [of "\<lambda>r. na_execution r = Some i" "\<lambda>r. na_request r = rid \<and> na_execution r = None" rows] by simp
next
  case False
  have "filter (\<lambda>r. na_execution (adopt_row x rid r) = Some i) rows = filter (\<lambda>r. na_execution r = Some i) rows"
    using False by (intro filter_cong) (auto simp: adopt_row_execution)
  then show ?thesis using False by simp
qed

lemma adopt_row_kept: "row_kept r (adopt_row x rid r)"
  by (simp add: row_kept_def adopt_row_def)

lemma adopt_rows_ledger:
  assumes "ledger_ok d" "get_nexec (nx_id x) d = Some x" "unbound_rows rid d \<noteq> []"
    "n = length (unbound_rows rid d)" "d' = adopt_rows x rid d"
  shows "ledger_ok d' \<and> rows_kept d d'"
proof (rule ledger_map [OF assms(1)])
  have d': "d' = upd_nexec (nx_id x) (\<lambda>y. y\<lparr>nx_reserved := nx_reserved y + int n\<rparr>) (d\<lparr>nd_rows := map (adopt_row x rid) (nd_rows d)\<rparr>)"
    using assms(3-5) by (simp add: adopt_rows_def)
  then show "nd_rows d' = map (adopt_row x rid) (nd_rows d)" by simp
  show "row_kept r (adopt_row x rid r)" for r by (rule adopt_row_kept)
  show "row_ok (adopt_row x rid r)" if "r \<in> set (nd_rows d)" for r
    using that assms(1) by (cases "na_settlement r") (auto simp: ledger_ok_def adopt_row_def row_ok_def)
  have "slots (d\<lparr>nd_rows := map (adopt_row x rid) (nd_rows d)\<rparr>) = slots d" by (simp add: slots_def)
  then have sl: "slots d' = map (\<lambda>(i, k). (i, if i = nx_id x then k + int n else k)) (slots d)"
    using slots_upd [of "\<lambda>y. y\<lparr>nx_reserved := nx_reserved y + int n\<rparr>" "int n" "nx_id x"] by (simp add: d')
  then show "map fst (slots d') = map fst (slots d)" by (simp add: case_prod_beta comp_def)
  have "length (rows_of i d') = length (rows_of i d) + (if i = nx_id x then n else 0)" for i
    by (simp add: rows_of_def d' assms(4) unbound_rows_def filter_map comp_def adopt_row_count)
  then show "\<forall>(i, k)\<in>set (slots d'). k = int (length (rows_of i d'))"
    using assms(1) by (auto simp: sl ledger_ok_def)
  have "nx_id x \<in> fst ` set (slots d)" using get_nexec_slot [OF assms(2)] by (metis fst_conv image_eqI)
  then show "xid \<in> fst ` set (slots d)" if "r \<in> set (nd_rows d)" "na_execution (adopt_row x rid r) = Some xid" for r xid
    using that assms(1) by (auto simp: adopt_row_def ledger_ok_def split: if_splits)
qed

lemma slots_events [simp]: "slots (d\<lparr>nd_events := es\<rparr>) = slots d"
  by (simp add: slots_def)

lemma record_source_frame:
  assumes "record_source x rid n b now d = Inr (s, d')"
  shows "nd_rows d' = nd_rows d \<and> slots d' = slots d"
  using assms by (auto simp: record_source_def dest: write_summary_frame split: if_splits option.splits elim!: bindE_InrE)

lemma adopt_locked_ledger:
  assumes "adopt_locked x t now d = Inr (s, d')" "get_nexec (nx_id x) d = Some x" "ledger_ok d"
  shows "ledger_ok d' \<and> rows_kept d d'"
proof -
  let ?d = "adopt_rows x (nu_request t) d"
  have d1: "ledger_ok ?d \<and> rows_kept d ?d"
  proof (cases "unbound_rows (nu_request t) d = []")
    case True
    then show ?thesis using assms(3) by (simp add: adopt_rows_def rows_kept_same)
  next
    case False
    then show ?thesis by (rule adopt_rows_ledger [OF assms(3,2) _ refl refl])
  qed
  have "nd_rows d' = nd_rows ?d \<and> slots d' = slots ?d"
    using assms(1) by (auto simp: adopt_locked_def Let_def dest: record_source_frame split: if_splits)
  then show ?thesis using d1 ledger_ok_cong [of ?d d'] rows_kept_trans [of d ?d d'] rows_kept_same [of d' ?d] by blast
qed

subsection \<open>Settling\<close>

lemma settle_rows_ledger:
  assumes "ledger_ok d" "r \<in> set (nd_rows d)" "na_settlement r = None"
    "d' = d\<lparr>nd_rows := tupd na_id (na_id r) (settle_native_row s sha now) (nd_rows d)\<rparr>"
    "sl_status s \<noteq> NaPending"
  shows "ledger_ok d' \<and> rows_kept d d'"
proof (rule ledger_map [OF assms(1)])
  let ?f = "\<lambda>q. if na_id q = na_id r then settle_native_row s sha now q else q"
  have only: "q = r" if "q \<in> set (nd_rows d)" "na_id q = na_id r" for q
    using that assms(1,2) by (auto simp: ledger_ok_def distinct_map inj_on_def)
  show "nd_rows d' = map ?f (nd_rows d)" by (simp add: assms(4) tupd_def)
  show "row_kept q (?f q)" if "q \<in> set (nd_rows d)" for q
    using only [OF that] assms(3) by (auto simp: row_kept_def settle_native_row_def)
  show "row_ok (?f q)" if "q \<in> set (nd_rows d)" for q
    using that assms(1,5) by (simp add: settle_native_row_def ledger_ok_def row_ok_def)
  have ex: "na_execution (?f q) = na_execution q" for q by (simp add: settle_native_row_def)
  then have "length (rows_of i d') = length (rows_of i d)" for i
    by (simp add: rows_of_def assms(4) tupd_def filter_map comp_def)
  moreover have sl: "slots d' = slots d" by (simp add: assms(4) slots_def)
  ultimately show "\<forall>(i, k)\<in>set (slots d'). k = int (length (rows_of i d'))" using assms(1) by (auto simp: ledger_ok_def)
  show "map fst (slots d') = map fst (slots d)" by (simp add: sl)
  show "xid \<in> fst ` set (slots d)" if "q \<in> set (nd_rows d)" "na_execution (?f q) = Some xid" for q xid
    using that assms(1) unfolding ex ledger_ok_def by blast
qed

lemma settle_pending_ledger:
  assumes "settle_pending n r now d = Inr (res, d')" "ledger_ok d" "r \<in> set (nd_rows d)" "na_settlement r = None"
    "sl_status (fst n) \<noteq> NaPending"
  shows "ledger_ok d' \<and> rows_kept d d'"
proof -
  define d1 where "d1 = d\<lparr>nd_rows := tupd na_id (na_id r) (settle_native_row (fst n) (snd n) now) (nd_rows d)\<rparr>"
  have d1: "ledger_ok d1 \<and> rows_kept d d1" by (rule settle_rows_ledger [OF assms(2,3,4) d1_def assms(5)])
  have "nd_rows d' = nd_rows d1 \<and> slots d' = slots d1"
    using assms(1)
    by (auto simp: settle_pending_def d1_def [symmetric] Let_def dest: write_summary_frame
        split: if_splits option.splits elim!: bindE_InrE)
  then show ?thesis using d1 ledger_ok_cong [of d1 d'] rows_kept_trans [of d d1 d'] rows_kept_same [of d' d1] by blast
qed

lemma record_conflict_frame [simp]: "nd_rows (record_conflict r reason sha now d) = nd_rows d"
    "slots (record_conflict r reason sha now d) = slots d"
  by (auto simp: record_conflict_def slots_def Let_def split: option.splits)

lemma settlement_not_pending: "sl_status (fst (normalized_settlement digest r fr)) \<noteq> NaPending"
  by (auto simp: normalized_settlement_def settled_outcome_def Let_def split: prod.splits if_splits option.splits)

lemma settle_found_ledger:
  assumes "settle_found digest fr r t now d = Inr (res, d')" "ledger_ok d" "r \<in> set (nd_rows d)"
  shows "ledger_ok d' \<and> rows_kept d d'"
proof (cases "binding_matches r t \<and> na_status r = NaPending")
  case True
  then have "na_settlement r = None"
    using assms(2,3) by (auto simp: ledger_ok_def row_ok_def na_status_def split: option.splits)
  moreover have "settle_pending (normalized_settlement digest r fr) r now d = Inr (res, d')"
    using True assms(1) by (simp add: settle_found_def Let_def)
  ultimately show ?thesis using settle_pending_ledger assms(2,3) settlement_not_pending by blast
next
  case False
  then have "nd_rows d' = nd_rows d \<and> slots d' = slots d"
    using assms(1) by (auto simp: settle_found_def Let_def split: if_splits)
  then show ?thesis using assms(2) ledger_ok_cong rows_kept_same by blast
qed

section \<open>The service beside everything else\<close>

text \<open>
  Other transactions may do anything but write accounting rows and counters; new executions start
  with a counter of zero.
\<close>

definition outside :: "native_db \<Rightarrow> native_db \<Rightarrow> bool" where
  "outside d d' \<longleftrightarrow> nd_rows d' = nd_rows d \<and> (\<exists>new. slots d' = slots d @ map (\<lambda>i. (i, 0)) new) \<and> distinct (map fst (slots d'))"

inductive native_step :: "(settlement_facts \<Rightarrow> string) \<Rightarrow> native_db \<Rightarrow> native_db \<Rightarrow> bool" for digest where
  reserve: "\<lbrakk>\<forall>e. (native_step digest)\<^sup>*\<^sup>* e (between e); reserve_native between nid rid aid xid now d = Inr (ad, d');
      nid \<notin> na_id ` set (nd_rows (between d))\<rbrakk> \<Longrightarrow> native_step digest d d'"
| bind: "\<lbrakk>\<forall>e. (native_step digest)\<^sup>*\<^sup>* e (between e); bind_execution_turn between t k now d = Inr d'\<rbrakk> \<Longrightarrow> native_step digest d d'"
| settle: "\<lbrakk>\<forall>e. (native_step digest)\<^sup>*\<^sup>* e (between e); settle_native digest between gid room fr now d = Inr (res, d')\<rbrakk>
      \<Longrightarrow> native_step digest d d'"
| other: "outside d d' \<Longrightarrow> native_step digest d d'"

definition ledger_safe :: "native_db \<Rightarrow> native_db \<Rightarrow> bool" where
  "ledger_safe d d' \<longleftrightarrow> (ledger_ok d \<longrightarrow> ledger_ok d' \<and> rows_kept d d')"

lemma ledger_safe_refl [simp]: "ledger_safe d d"
  by (simp add: ledger_safe_def rows_kept_same)

lemma ledger_safe_trans: "ledger_safe a b \<Longrightarrow> ledger_safe b c \<Longrightarrow> ledger_safe a c"
  unfolding ledger_safe_def using rows_kept_trans by blast

lemma ledger_safe_steps: "(\<lambda>x y. step x y \<and> ledger_safe x y)\<^sup>*\<^sup>* d d' \<Longrightarrow> ledger_safe d d'"
  by (induction rule: rtranclp_induct) (auto intro: ledger_safe_trans)

lemma ledger_safe_same: "nd_rows d' = nd_rows d \<Longrightarrow> slots d' = slots d \<Longrightarrow> ledger_safe d d'"
  using ledger_ok_cong rows_kept_same by (simp add: ledger_safe_def)

lemma outside_safe:
  assumes "outside d d'"
  shows "ledger_safe d d'"
proof -
  obtain new where new: "nd_rows d' = nd_rows d" "slots d' = slots d @ map (\<lambda>i. (i, 0)) new" "distinct (map fst (slots d'))"
    using assms by (auto simp: outside_def)
  have "n = int (length (rows_of xid d'))" if "ledger_ok d" "(xid, n) \<in> set (slots d')" for xid n
  proof (cases "(xid, n) \<in> set (slots d)")
    case True
    then show ?thesis using that(1) by (auto simp: ledger_ok_def rows_of_cong [OF new(1)])
  next
    case False
    then have n: "n = 0" "xid \<in> set new" using that(2) new(2) by auto
    then have "xid \<notin> fst ` set (slots d)" using new(2,3) by auto
    then have "rows_of xid d = []" using that(1) by (auto simp: rows_of_def ledger_ok_def filter_empty_conv)
    then show ?thesis using n rows_of_cong [OF new(1)] by simp
  qed
  moreover have "fst ` set (slots d) \<subseteq> fst ` set (slots d')" using new(2) by auto
  ultimately show ?thesis
    using new(1,3) rows_kept_same [of d' d] unfolding ledger_safe_def ledger_ok_def by (auto simp: subset_iff)
qed

lemma reserve_safe:
  assumes "reserve_native between nid rid aid xid now d = Inr (ad, d')" "ledger_safe d (between d)"
    "nid \<notin> na_id ` set (nd_rows (between d))"
  shows "ledger_safe d d'"
proof (cases "d' = d \<or> d' = between d")
  case False
  then obtain t where "reserve_locked nid t aid xid (opt_get nx_id (nu_execution t) (nd_execs (between d))) now (between d) = Inr (ad, d')"
    using assms(1) by (auto simp: reserve_native_def Let_def split: if_splits option.splits) metis
  then have "ledger_safe (between d) d'"
    using reserve_locked_ledger [OF _ refl] assms(3) by (simp add: ledger_safe_def)
  then show ?thesis using assms(2) ledger_safe_trans by blast
qed (use assms(2) in auto)

lemma adopt_source_safe:
  assumes "adopt_source between x t now d = Inr (s, d')" "ledger_safe d (between d)"
  shows "ledger_safe d d'"
proof (cases "d' = d")
  case False
  then obtain x1 t1 where "adopt_locked x1 t1 now (between d) = Inr (s, d')" "get_nexec (nx_id x) (between d) = Some x1"
    using assms(1) by (auto simp: adopt_source_def Let_def split: if_splits option.splits elim!: bindE_InrE)
  moreover have "nx_id x1 = nx_id x" using calculation(2) by (rule tget_Some_key)
  ultimately have "ledger_safe (between d) d'" using adopt_locked_ledger unfolding ledger_safe_def by metis
  then show ?thesis using assms(2) ledger_safe_trans by blast
qed simp

lemma bind_safe:
  assumes "bind_execution_turn between t k now d = Inr d'" "\<And>e. ledger_safe e (between e)"
  shows "ledger_safe d d'"
proof -
  have turns: "ledger_safe d (d\<lparr>nd_turns := ts\<rparr>)" for ts by (rule ledger_safe_same) (simp_all add: slots_def)
  obtain x t1 e s where "adopt_source between x t1 now e = Inr (s, d')" "e = d \<or> (\<exists>ts. e = d\<lparr>nd_turns := ts\<rparr>)"
    using assms(1)
    by (auto simp: bind_execution_turn_def lift_usage_def Let_def split: option.splits if_splits sum.splits) blast
  then have "ledger_safe e d'" "ledger_safe d e" using adopt_source_safe [of between x t1 now e s d'] assms(2) turns by auto
  then show ?thesis using ledger_safe_trans by blast
qed

lemma settle_safe:
  assumes "settle_native digest between gid room fr now d = Inr (res, d')" "ledger_safe d (between d)"
  shows "ledger_safe d d'"
proof (cases "d' = d \<or> d' = between d")
  case False
  then obtain r t where "settle_found digest fr r t now (between d) = Inr (res, d')" "r \<in> set (nd_rows (between d))"
    using assms(1)
    by (auto simp: settle_native_def Let_def find_Some_iff split: if_splits option.splits)
  then have "ledger_safe (between d) d'" using settle_found_ledger by (simp add: ledger_safe_def)
  then show ?thesis using assms(2) ledger_safe_trans by blast
qed (use assms(2) in auto)

lemma native_step_safe: "native_step digest d d' \<Longrightarrow> ledger_safe d d'"
proof (induction rule: native_step.induct)
  case (reserve between nid rid aid xid now d ad d')
  then show ?case using ledger_safe_steps by (blast intro: reserve_safe)
next
  case (bind between t k now d d')
  then show ?case using ledger_safe_steps by (blast intro: bind_safe)
next
  case (settle between gid room fr now d res d')
  then show ?case using ledger_safe_steps by (blast intro: settle_safe)
qed (rule outside_safe)

lemma native_steps_safe: "(native_step digest)\<^sup>*\<^sup>* d d' \<Longrightarrow> ledger_safe d d'"
  by (induction rule: rtranclp_induct) (auto intro: native_step_safe ledger_safe_trans)

text \<open>
  C38. Whatever transactions interleave: there is one accounting row per permitted attempt and per
  local invocation, the counter of an execution is exactly the number of its rows, a row never
  loses its identity, never leaves the execution it is bound to, and never changes once it is
  settled.
\<close>

theorem ledger_exact:
  assumes "ledger_ok d" "(native_step digest)\<^sup>*\<^sup>* d d'"
  shows "ledger_ok d' \<and> rows_kept d d'"
  using native_steps_safe [OF assms(2)] assms(1) by (simp add: ledger_safe_def)

text \<open>
  C39. A new native start is permitted only within the limits: when \<open>reserve_native_invocation\<close>
  grants a fresh permit to a turn of an execution, the execution is active, its counter goes up
  by one and equals the number of its rows, it stays within the invocation cap (whose accounting
  must be complete), and the tokens known so far are below the token cap.
\<close>

theorem permit_within_limits:
  assumes "reserve_native between nid rid aid xid now d = Inr (ad, d')" "nad_allowed ad" "\<not> nad_duplicate ad"
    "ledger_ok (between d)" "nid \<notin> na_id ` set (nd_rows (between d))"
    "get_nturn rid d = Some t" "nu_execution t = Some eid"
  shows "\<exists>x x'. get_nexec eid (between d) = Some x \<and> get_nexec eid d' = Some x' \<and> nx_status x \<in> set ACTIVE_EXECUTIONS
    \<and> nx_reserved x' = nx_reserved x + 1 \<and> nx_reserved x' = int (length (rows_of eid d'))
    \<and> (\<forall>c. limit_of (nx_limits x) ''max_native_invocations'' = Inr (Some c) \<longrightarrow>
         nx_reserved x' \<le> c \<and> us_complete (summary_of x (between d)))
    \<and> (\<forall>c n. limit_of (nx_limits x) ''max_total_tokens'' = Inr (Some c) \<longrightarrow>
         ut_known_total (us_totals (summary_of x (between d))) = Some n \<longrightarrow> n < c)"
proof -
  let ?d = "between d"
  obtain u where u: "get_nturn rid ?d = Some u" "nu_execution u = Some eid"
    "reserve_locked nid u aid xid (opt_get nx_id (nu_execution u) (nd_execs ?d)) now ?d = Inr (ad, d')"
    using assms(1,2,6,7) by (auto simp: reserve_native_def refuse_def Let_def split: if_splits option.splits)
  from u(3) refl show ?thesis
  proof (cases rule: reserve_locked_cases)
    case same
    then show ?thesis using assms(2,3) by simp
  next
    case (plain a)
    then show ?thesis using u(2) by simp
  next
    case (bound a x s)
    have x: "nx_id x = eid" "get_nexec eid ?d = Some x" using bound(2,3) u(2) opt_get_Some by fastforce+
    note granted = take_slot_granted [OF bound(6)]
    have ok: "ledger_ok d'" using reserve_locked_ledger [OF u(3) refl assms(4,5)] by simp
    obtain x' where x': "get_nexec eid d' = Some x'" "nx_reserved x' = nx_reserved x + 1"
      using bound(7) x
      by (auto simp: write_summary_def upd_nexec_def tget_tupd execution_usage_summary_def elim!: bindE_InrE split: option.splits)
    have "nx_reserved x' = int (length (rows_of eid d'))"
      using ok get_nexec_slot [OF x'(1)] by (auto simp: ledger_ok_def)
    moreover obtain sm where sm: "sm = summary_of x ?d" "admission sm (nx_limits x) = Inr \<lparr>ad_allowed = True, ad_reason = None\<rparr>"
      using granted(4) x by (auto simp: execution_usage_summary_def)
    have "us_complete sm" if "limit_of (nx_limits x) ''max_native_invocations'' = Inr (Some c)" for c
      using sm(2) that by (auto simp: admission_def denied_def elim!: bindE_InrE split: if_splits)
    moreover have "n < c" if "limit_of (nx_limits x) ''max_total_tokens'' = Inr (Some c)" "ut_known_total (us_totals sm) = Some n" for c n
      using sm(2) that by (auto simp: admission_def denied_def token_limit_hit_def elim!: bindE_InrE split: if_splits)
    ultimately show ?thesis using x x' granted(2,5) sm(1) by (intro exI [of _ x] exI [of _ x']) auto
  qed
qed

section \<open>A small database\<close>

text \<open>
  An execution with a cap of two native starts: one permit is out, and a turn of a task of the
  execution asks for the second.
\<close>

definition permit_ids :: "string \<times> string" where
  "permit_ids = (''00000000-0000-4000-8000-000000000001'', ''00000000-0000-4000-8000-000000000002'')"

definition sample_turn :: "string \<Rightarrow> native_turn" where
  "sample_turn rid = \<lparr>nu_request = rid, nu_room = ''room'', nu_participant = Some ''p'', nu_agent = Some ''g'', nu_task = Some ''k'',
     nu_trigger = None, nu_execution = Some ''x'', nu_revision = Some 1, nu_state = TnLeased, nu_active = 1\<rparr>"

definition sample_attempt :: "string \<Rightarrow> string \<Rightarrow> string option \<Rightarrow> native_attempt" where
  "sample_attempt aid rid l = \<lparr>nb_id = aid, nb_turn = rid, nb_agent = Some ''g'', nb_number = 1, nb_generation = 3,
     nb_state = TaLeased, nb_local = l, nb_lease = ''lease'', nb_expires = Some 100\<rparr>"

definition sample_ledger :: native_db where
  "sample_ledger =
     \<lparr>nd_execs = [\<lparr>nx_id = ''x'', nx_project = ''pr'', nx_room = ''room'', nx_lead = ''g'', nx_root_task = Some ''k'',
        nx_source_message = ''m'', nx_status = XRunning, nx_revision = 1, nx_limits = [(''max_native_invocations'', PInt 2)],
        nx_reserved = 1, nx_state_revision = 0, nx_summary = None, nx_created = 0, nx_updated = 0\<rparr>],
      nd_rows = [new_row ''n1'' (sample_turn ''q1'') (sample_attempt ''a1'' ''q1'' (Some (fst permit_ids))) (fst permit_ids) 1],
      nd_turns = [sample_turn ''q1'', sample_turn ''q2''],
      nd_attempts = [sample_attempt ''a1'' ''q1'' (Some (fst permit_ids)), sample_attempt ''a2'' ''q2'' None],
      nd_agents = [\<lparr>ng_id = ''g'', ng_generation = 3, ng_running = True\<rparr>],
      nd_participants = [\<lparr>p_id = ''p'', p_room = ''room'', p_agent = Some ''g'', p_role = ''member''\<rparr>],
      nd_rooms = [\<lparr>r_id = ''room'', r_project = Some ''pr'', r_archived = None, r_is_dm = False, r_lead = Some ''p''\<rparr>],
      nd_tasks = [\<lparr>k_id = ''k'', k_room = ''room'', k_title = [], k_spec = None, k_status = InProgress, k_error = None, k_finished = None,
        k_assignee = Some ''p'', k_assigned_at = None, k_created_by = None, k_triggered_by = [], k_idem_key = None, k_campaign = None,
        k_execution = Some ''x'', k_input_rev = Some 1\<rparr>],
      nd_events = [new_source_event
        \<lparr>nx_id = ''x'', nx_project = ''pr'', nx_room = ''room'', nx_lead = ''g'', nx_root_task = Some ''k'',
         nx_source_message = ''m'', nx_status = XRunning, nx_revision = 1, nx_limits = [], nx_reserved = 1,
         nx_state_revision = 0, nx_summary = None, nx_created = 0, nx_updated = 0\<rparr> ''q1'' 1 1],
      nd_conflicts = []\<rparr>"

lemma sample_granted:
  "\<exists>ad d'. reserve_native (\<lambda>e. e) ''n2'' ''q2'' ''a2'' (snd permit_ids) 5 sample_ledger = Inr (ad, d') \<and> nad_allowed ad \<and> \<not> nad_duplicate ad"
proof -
  have "case reserve_native (\<lambda>e. e) ''n2'' ''q2'' ''a2'' (snd permit_ids) 5 sample_ledger of
      Inl _ \<Rightarrow> False | Inr (ad, d') \<Rightarrow> nad_allowed ad \<and> \<not> nad_duplicate ad"
    by code_simp
  then show ?thesis by (auto split: sum.splits)
qed

lemma sample_ledger_ok: "ledger_ok sample_ledger"
  by (simp add: ledger_ok_def sample_ledger_def slots_def rows_of_def sample_turn_def)

theorem ledger_exact_witness:
  "\<exists>d'. ledger_ok d' \<and> rows_kept sample_ledger d' \<and> (native_step (\<lambda>_. ''h''))\<^sup>*\<^sup>* sample_ledger d' \<and> d' \<noteq> sample_ledger"
proof -
  obtain ad d' where r: "reserve_native (\<lambda>e. e) ''n2'' ''q2'' ''a2'' (snd permit_ids) 5 sample_ledger = Inr (ad, d')"
    "nad_allowed ad" "\<not> nad_duplicate ad" using sample_granted by blast
  have "''n2'' \<notin> na_id ` set (nd_rows sample_ledger)" by (simp add: sample_ledger_def)
  then have "native_step (\<lambda>_. ''h'') sample_ledger d'" by (intro native_step.reserve [OF _ r(1)]) simp_all
  then have steps: "(native_step (\<lambda>_. ''h''))\<^sup>*\<^sup>* sample_ledger d'" by blast
  have "case reserve_native (\<lambda>e. e) ''n2'' ''q2'' ''a2'' (snd permit_ids) 5 sample_ledger of
      Inl _ \<Rightarrow> False | Inr (_, d') \<Rightarrow> length (nd_rows d') = 2" by code_simp
  then have "d' \<noteq> sample_ledger" using r(1) by (auto simp: sample_ledger_def)
  then show ?thesis using ledger_exact [OF sample_ledger_ok steps] steps by blast
qed

theorem permit_within_limits_witness:
  "\<exists>ad d' x'. reserve_native (\<lambda>e. e) ''n2'' ''q2'' ''a2'' (snd permit_ids) 5 sample_ledger = Inr (ad, d')
     \<and> get_nexec ''x'' d' = Some x' \<and> nx_reserved x' = 2"
proof -
  obtain ad d' where r: "reserve_native (\<lambda>e. e) ''n2'' ''q2'' ''a2'' (snd permit_ids) 5 sample_ledger = Inr (ad, d')"
    "nad_allowed ad" "\<not> nad_duplicate ad" using sample_granted by blast
  have "get_nturn ''q2'' sample_ledger = Some (sample_turn ''q2'')" "nu_execution (sample_turn ''q2'') = Some ''x''"
    by (simp_all add: sample_ledger_def sample_turn_def)
  from permit_within_limits [OF r sample_ledger_ok _ this]
  obtain x x' where "get_nexec ''x'' sample_ledger = Some x" "get_nexec ''x'' d' = Some x'" "nx_reserved x' = nx_reserved x + 1"
    by (auto simp: sample_ledger_def)
  then show ?thesis using r(1) by (auto simp: sample_ledger_def)
qed

end
