(* ===== verification/TurnTables.thy ===== *)
theory TurnTables
  imports NativeAccounting BudgetLedger ExecutionStops
begin

text \<open>
  The tables of the durable turns (turns/service.py): a turn with its leased attempts and its
  outbox rows, and what their gates read: executions, tasks, rooms, participants, agents,
  workspace leases, stops, accepted results and receipts. The rows of the native ledger are
  extended by the columns the turn service adds; \<open>native_view\<close> is the part of the database the
  ledger reads.

  Ends of turns go through one gate, \<open>mark_turn_terminal\<close>, with the peer fan-in's hook.
\<close>

section \<open>Rows\<close>

record run_turn = native_turn +
  rt_thread :: "string option"
  rt_key :: string
  rt_attachment :: "string option"
  rt_epoch :: "int option"
  rt_protocol :: int
  rt_retries :: int
  rt_max :: int
  rt_accepted :: "string option"
  rt_reason :: "string option"
  rt_created :: instant
  rt_updated :: instant
  rt_completed :: "instant option"

record run_attempt = native_attempt +
  ra_leased :: "instant option"
  ra_started :: "instant option"
  ra_ended :: "instant option"
  ra_outcome :: "string option"
  ra_reason :: "string option"
  ra_transient :: bool

record run_agent = native_agent +
  rg_actual :: string
  rg_pending :: "int option"
  rg_deadline :: "instant option"
  rg_timeout :: "int option"
  rg_machine :: "string option"

record run_exec = native_exec +
  rx_deadline :: "instant option"
  rx_report :: "string option"

record run_task = task_row +
  rk_source :: "string option"

record run_room = room_row +
  rr_parent :: "string option"

record run_event = native_event +
  re_message :: "string option"

record run_outbox =
  ro_id :: string
  ro_turn :: string
  ro_attempt :: string
  ro_room :: string
  ro_participant :: "string option"
  ro_state :: outbox_state
  ro_count :: int
  ro_available :: instant
  ro_delivered :: "instant option"
  ro_error :: "string option"
  ro_created :: instant

record message_row =
  ms_id :: string
  ms_room :: string
  ms_participant :: "string option"
  ms_content :: string
  ms_meta :: "(string \<times> pyval) list"
  ms_root :: "string option"
  ms_seq :: int

record result_row =
  tr_id :: string
  tr_execution :: string
  tr_task :: string
  tr_revision :: int
  tr_attempt :: "string option"
  tr_producer :: "string option"

text \<open>A frozen input with the JSON value of its payload and the bytes it takes on the wire.\<close>

record revision_row =
  iv_execution :: string
  iv_revision :: int
  iv_payload :: pyval
  iv_wire :: int

record attachment_row =
  wa_id :: string
  wa_agent :: string
  wa_machine :: string
  wa_room :: string
  wa_participant :: string
  wa_mode :: string
  wa_state :: string
  wa_epoch :: int
  wa_expires :: instant

record audit_row =
  au_attachment :: string
  au_type :: string
  au_request :: string
  au_outcome :: "string option"
  au_details :: "(string \<times> pyval) list"

record turn_log =
  tl_agent :: "string option"
  tl_type :: string
  tl_request :: string
  tl_room :: string
  tl_details :: "(string \<times> pyval) list"

datatype group_state = GrCollecting | GrReady | GrWaking | GrWoken | GrAbandoned

datatype target_state = TgPending | TgCompleted | TgFailed | TgCancelled | TgTimeout

record peer_group =
  pg_id :: string
  pg_room :: string
  pg_participant :: string
  pg_agent :: "string option"
  pg_caller :: string
  pg_trigger :: "string option"
  pg_scope :: "string option"
  pg_state :: group_state
  pg_closed :: "instant option"
  pg_draft :: "string option"
  pg_deadline :: instant
  pg_wake :: "string option"
  pg_woken :: "instant option"

record peer_target =
  pt_id :: string
  pt_group :: string
  pt_participant :: string
  pt_question :: string
  pt_message :: "string option"
  pt_request :: string
  pt_state :: target_state
  pt_reason :: "string option"
  pt_reply :: "string option"
  pt_forwarded :: "(string \<times> string) list"
  pt_finished :: "instant option"
  pt_created :: instant

text \<open>
  \<open>td_recoveries\<close> are the calls of \<open>on_turn_recovery\<close>, which projects a transition to the task of
  an execution, and \<open>td_denials\<close> the budget denials queued for after the commit.
\<close>

record turn_db =
  td_turns :: "run_turn list"
  td_attempts :: "run_attempt list"
  td_outbox :: "run_outbox list"
  td_agents :: "run_agent list"
  td_participants :: "participant_row list"
  td_rooms :: "run_room list"
  td_tasks :: "run_task list"
  td_messages :: "message_row list"
  td_execs :: "run_exec list"
  td_revisions :: "revision_row list"
  td_stops :: "stop_row list"
  td_results :: "result_row list"
  td_events :: "run_event list"
  td_rows :: "native_row list"
  td_attachments :: "attachment_row list"
  td_audits :: "audit_row list"
  td_groups :: "peer_group list"
  td_targets :: "peer_target list"
  td_budget :: budget_db
  td_logs :: "turn_log list"
  td_recoveries :: "(string \<times> int \<times> string \<times> string option) list"
  td_denials :: "(string \<times> string) list"

definition native_view :: "turn_db \<Rightarrow> native_db" where
  "native_view d =
     \<lparr>nd_execs = map native_exec.truncate (td_execs d), nd_rows = td_rows d,
      nd_turns = map native_turn.truncate (td_turns d), nd_attempts = map native_attempt.truncate (td_attempts d),
      nd_agents = map native_agent.truncate (td_agents d), nd_participants = td_participants d,
      nd_rooms = map room_row.truncate (td_rooms d), nd_tasks = map task_row.truncate (td_tasks d),
      nd_events = map native_event.truncate (td_events d), nd_conflicts = []\<rparr>"

abbreviation get_turn :: "string \<Rightarrow> turn_db \<Rightarrow> run_turn option" where
  "get_turn rid d \<equiv> tget nu_request rid (td_turns d)"

abbreviation get_turn_attempt :: "string \<Rightarrow> turn_db \<Rightarrow> run_attempt option" where
  "get_turn_attempt aid d \<equiv> tget nb_id aid (td_attempts d)"

abbreviation get_outbox :: "string \<Rightarrow> turn_db \<Rightarrow> run_outbox option" where
  "get_outbox oid d \<equiv> tget ro_id oid (td_outbox d)"

definition upd_turn :: "string \<Rightarrow> (run_turn \<Rightarrow> run_turn) \<Rightarrow> turn_db \<Rightarrow> turn_db" where
  "upd_turn rid f d = d\<lparr>td_turns := tupd nu_request rid f (td_turns d)\<rparr>"

definition upd_turn_attempt :: "string \<Rightarrow> (run_attempt \<Rightarrow> run_attempt) \<Rightarrow> turn_db \<Rightarrow> turn_db" where
  "upd_turn_attempt aid f d = d\<lparr>td_attempts := tupd nb_id aid f (td_attempts d)\<rparr>"

definition upd_outbox :: "string \<Rightarrow> (run_outbox \<Rightarrow> run_outbox) \<Rightarrow> turn_db \<Rightarrow> turn_db" where
  "upd_outbox oid f d = d\<lparr>td_outbox := tupd ro_id oid f (td_outbox d)\<rparr>"

definition add_log :: "turn_log \<Rightarrow> turn_db \<Rightarrow> turn_db" where
  "add_log l d = d\<lparr>td_logs := td_logs d @ [l]\<rparr>"

definition log_turn :: "string \<Rightarrow> (string \<times> pyval) list \<Rightarrow> run_turn \<Rightarrow> turn_db \<Rightarrow> turn_db" where
  "log_turn ty det t d =
     add_log \<lparr>tl_agent = nu_agent t, tl_type = ty, tl_request = nu_request t, tl_room = nu_room t, tl_details = det\<rparr> d"

section \<open>States\<close>

definition LEASED_STATES :: "turn_attempt_state list" where
  "LEASED_STATES = [TaLeased, TaStarted]"

definition SAFE_PROCESS_STATES :: "string list" where
  "SAFE_PROCESS_STATES = [''finished'', ''stopped'', ''not_started'']"

abbreviation TRANSIENT_FAILURE :: string where "TRANSIENT_FAILURE \<equiv> ''MODEL_TRANSIENT_FAILURE''"

abbreviation MAX_TRANSIENT_RETRIES :: int where "MAX_TRANSIENT_RETRIES \<equiv> 3"

definition AGENT_EXECUTION_ROLES :: "string list" where
  "AGENT_EXECUTION_ROLES = [''member'', ''admin'', ''owner'']"

definition transient_retry_delay :: "int \<Rightarrow> int" where
  "transient_retry_delay used = [30, 60, 120] ! nat (min used 2)"

definition transient_retries_used :: "string \<Rightarrow> int \<Rightarrow> turn_db \<Rightarrow> int" where
  "transient_retries_used rid before d =
     int (length (filter (\<lambda>a. nb_turn a = rid \<and> nb_number a < before \<and> ra_transient a) (td_attempts d)))"

definition lease_retry_delay :: "int \<Rightarrow> int" where
  "lease_retry_delay used = min 30 (5 * 2 ^ nat used)"

definition rg_crashed :: "run_agent \<Rightarrow> bool" where
  "rg_crashed g \<longleftrightarrow> rg_actual g = ''crashed''"

definition turn_lease_seconds :: "run_agent \<Rightarrow> int" where
  "turn_lease_seconds g =
     max 60 ((case rg_timeout g of None \<Rightarrow> 900 | Some n \<Rightarrow> if n = 0 then 900 else n) + 300)"

section \<open>Peers\<close>

definition settled_target :: "target_state \<Rightarrow> bool" where
  "settled_target s \<longleftrightarrow> s \<in> {TgCompleted, TgFailed, TgCancelled, TgTimeout}"

definition target_outcome :: "run_turn \<Rightarrow> target_state \<times> string option" where
  "target_outcome t =
     (case nu_state t of
        TnCompleted \<Rightarrow> (TgCompleted, if rt_reason t = Some ''agent_skipped'' then Some ''declined'' else None)
      | TnCancelled \<Rightarrow> (TgCancelled, rt_reason t)
      | TnFailed \<Rightarrow> (TgFailed, rt_reason t)
      | _ \<Rightarrow> (TgPending, rt_reason t))"

definition upd_group :: "string \<Rightarrow> (peer_group \<Rightarrow> peer_group) \<Rightarrow> turn_db \<Rightarrow> turn_db" where
  "upd_group gid f d = d\<lparr>td_groups := tupd pg_id gid f (td_groups d)\<rparr>"

definition upd_target :: "string \<Rightarrow> (peer_target \<Rightarrow> peer_target) \<Rightarrow> turn_db \<Rightarrow> turn_db" where
  "upd_target tid f d = d\<lparr>td_targets := tupd pt_id tid f (td_targets d)\<rparr>"

definition targets_of :: "string \<Rightarrow> turn_db \<Rightarrow> peer_target list" where
  "targets_of gid d =
     sort_by (\<lambda>a b. pt_created a < pt_created b \<or> (pt_created a = pt_created b \<and> str_lt (pt_id a) (pt_id b)))
       (filter (\<lambda>t. pt_group t = gid) (td_targets d))"

definition mark_ready_if_done :: "string \<Rightarrow> turn_db \<Rightarrow> turn_db" where
  "mark_ready_if_done gid d =
     (case tget pg_id gid (td_groups d) of
        None \<Rightarrow> d
      | Some g \<Rightarrow>
          if pg_state g \<noteq> GrCollecting \<or> pg_closed g = None then d
          else if list_all (\<lambda>t. settled_target (pt_state t)) (targets_of gid d)
          then upd_group gid (\<lambda>g. g\<lparr>pg_state := GrReady\<rparr>) d
          else d)"

definition settle_own_target :: "run_turn \<Rightarrow> instant \<Rightarrow> turn_db \<Rightarrow> turn_db" where
  "settle_own_target t now d =
     (case find (\<lambda>x. pt_request x = nu_request t) (td_targets d) of
        None \<Rightarrow> d
      | Some x \<Rightarrow>
          if settled_target (pt_state x) then d
          else
            mark_ready_if_done (pt_group x)
              (upd_target (pt_id x) (\<lambda>x. x\<lparr>pt_state := fst (target_outcome t), pt_reason := snd (target_outcome t),
                 pt_reply := rt_accepted t, pt_finished := Some now\<rparr>) d))"

definition close_caller :: "run_turn \<Rightarrow> instant \<Rightarrow> turn_db \<Rightarrow> turn_db" where
  "close_caller t now d =
     (case find (\<lambda>g. pg_caller g = nu_request t) (td_groups d) of
        None \<Rightarrow> d
      | Some g \<Rightarrow>
          if pg_closed g \<noteq> None then d
          else mark_ready_if_done (pg_id g) (upd_group (pg_id g) (\<lambda>g. g\<lparr>pg_closed := Some now\<rparr>) d))"

definition on_turn_terminal :: "run_turn \<Rightarrow> instant \<Rightarrow> turn_db \<Rightarrow> turn_db" where
  "on_turn_terminal t now d = close_caller t now (settle_own_target t now d)"

section \<open>The end of a turn\<close>

datatype turn_end = EndCompleted | EndCancelled | EndFailed

fun ended_turn :: "turn_end \<Rightarrow> turn_state" where
  "ended_turn EndCompleted = TnCompleted"
| "ended_turn EndCancelled = TnCancelled"
| "ended_turn EndFailed = TnFailed"

fun ended_attempt :: "turn_end \<Rightarrow> turn_attempt_state" where
  "ended_attempt EndCompleted = TaCompleted"
| "ended_attempt EndCancelled = TaCancelled"
| "ended_attempt EndFailed = TaFailed"

definition stamp :: "'a option \<Rightarrow> 'a option \<Rightarrow> 'a option" where
  "stamp v old = (if v = None then old else v)"

definition end_turn :: "turn_end \<Rightarrow> string option \<Rightarrow> instant option \<Rightarrow> run_turn \<Rightarrow> run_turn" where
  "end_turn e reason at_time t =
     t\<lparr>nu_state := ended_turn e, rt_reason := reason, rt_completed := stamp at_time (rt_completed t)\<rparr>"

definition end_attempt :: "turn_end \<Rightarrow> instant option \<Rightarrow> string option \<Rightarrow> string option \<Rightarrow> run_attempt \<Rightarrow> run_attempt" where
  "end_attempt e at_time outcome areason a =
     a\<lparr>nb_state := ended_attempt e, ra_ended := stamp at_time (ra_ended a), ra_outcome := stamp outcome (ra_outcome a),
       ra_reason := stamp areason (ra_reason a)\<rparr>"

text \<open>
  \<open>at_time\<close> is the optional stamp and \<open>now\<close> the hook's own clock. Every caller that names an
  attempt state passes the state of the turn, so the default covers them.
\<close>

definition mark_turn_terminal ::
  "turn_end \<Rightarrow> string option \<Rightarrow> instant option \<Rightarrow> string option \<Rightarrow> string option \<Rightarrow> string option \<Rightarrow> instant \<Rightarrow> string
     \<Rightarrow> turn_db \<Rightarrow> turn_db" where
  "mark_turn_terminal e reason at_time aid outcome areason now rid d =
     (let d1 = upd_turn rid (end_turn e reason at_time) d;
          d2 = (case aid of None \<Rightarrow> d1 | Some k \<Rightarrow> upd_turn_attempt k (end_attempt e at_time outcome areason) d1)
      in case get_turn rid d2 of None \<Rightarrow> d2 | Some t \<Rightarrow> on_turn_terminal t now d2)"

end
