(* ===== verification/TurnGates.thy ===== *)
theory TurnGates
  imports TurnTables
begin

text \<open>
  The gates every transition of a turn passes: the workspace lease of its agent
  (\<open>validate_turn\<close> and \<open>bind_turn\<close> of workspaces/service.py), the revision of its execution
  (\<open>validate_execution_turn\<close>), the admission of new work under the limits of the execution, the
  membership of its participant, and the lock that reads its binding again.
\<close>

section \<open>The workspace lease\<close>

definition active_attachment :: "string \<Rightarrow> turn_db \<Rightarrow> attachment_row option" where
  "active_attachment gid d = find (\<lambda>w. wa_agent w = gid \<and> wa_state w = ''active'') (td_attachments d)"

definition write_task_reason :: "run_turn \<Rightarrow> attachment_row \<Rightarrow> turn_db \<Rightarrow> string option" where
  "write_task_reason t w d =
     (case nu_task t of
        None \<Rightarrow> Some ''workspace_write_requires_task''
      | Some kid \<Rightarrow>
          (case opt_get ms_id (nu_trigger t) (td_messages d) of
             None \<Rightarrow> Some ''workspace_source_message_mismatch''
           | Some m \<Rightarrow>
               if ms_room m \<noteq> wa_room w then Some ''workspace_source_message_mismatch''
               else (case tget k_id kid (td_tasks d) of
                 None \<Rightarrow> Some ''workspace_write_task_not_claimed''
               | Some k \<Rightarrow>
                   if k_room k \<noteq> wa_room w \<or> k_assignee k \<noteq> Some (wa_participant w) \<or> rk_source k = None
                      \<or> rk_source k \<noteq> nu_trigger t \<or> k_status k \<noteq> InProgress
                   then Some ''workspace_write_task_not_claimed'' else None)))"

definition attachment_turn_reason :: "instant \<Rightarrow> run_turn \<Rightarrow> attachment_row \<Rightarrow> turn_db \<Rightarrow> string option" where
  "attachment_turn_reason now t w d =
     (if wa_state w \<noteq> ''active'' then Some ''workspace_not_active''
      else if wa_expires w \<le> now then Some ''workspace_expired''
      else if rt_epoch t \<noteq> Some (wa_epoch w) then Some ''workspace_epoch_mismatch''
      else if (case tget r_id (wa_room w) (td_rooms d) of None \<Rightarrow> True | Some r \<Rightarrow> r_archived r \<noteq> None)
      then Some ''workspace_room_archived''
      else if (case tget p_id (wa_participant w) (td_participants d) of None \<Rightarrow> True
               | Some p \<Rightarrow> p_room p \<noteq> wa_room w \<or> p_agent p \<noteq> Some (wa_agent w) \<or> p_role p \<notin> set AGENT_EXECUTION_ROLES)
      then Some ''workspace_participant_removed''
      else if (case tget ng_id (wa_agent w) (td_agents d) of None \<Rightarrow> True | Some g \<Rightarrow> rg_machine g \<noteq> Some (wa_machine w))
      then Some ''workspace_machine_changed''
      else if nu_room t \<noteq> wa_room w \<or> nu_agent t \<noteq> Some (wa_agent w) \<or> nu_participant t \<noteq> Some (wa_participant w)
      then Some ''workspace_scope_mismatch''
      else if wa_mode w \<noteq> ''write'' then None
      else write_task_reason t w d)"

definition workspace_gate :: "instant \<Rightarrow> run_turn \<Rightarrow> turn_db \<Rightarrow> bool \<times> string option \<times> attachment_row option" where
  "workspace_gate now t d =
     (case nu_agent t of
        None \<Rightarrow> (True, None, None)
      | Some gid \<Rightarrow>
          (case rt_attachment t of
             None \<Rightarrow>
               (case active_attachment gid d of
                  Some w \<Rightarrow> (False, Some ''workspace_binding_missing'', Some w)
                | None \<Rightarrow> (True, None, None))
           | Some wid \<Rightarrow>
               (case tget wa_id wid (td_attachments d) of
                  None \<Rightarrow> (False, Some ''workspace_attachment_missing'', None)
                | Some w \<Rightarrow>
                    (let r = attachment_turn_reason now t w d in (r = None, r, Some w)))))"

definition append_audit ::
  "attachment_row \<Rightarrow> string \<Rightarrow> run_turn \<Rightarrow> string option \<Rightarrow> (string \<times> pyval) list \<Rightarrow> turn_db \<Rightarrow> turn_db" where
  "append_audit w ty t outcome det d =
     d\<lparr>td_audits := td_audits d @ [\<lparr>au_attachment = wa_id w, au_type = ty, au_request = nu_request t, au_outcome = outcome, au_details = det\<rparr>]\<rparr>"

definition audit_denied :: "attachment_row option \<Rightarrow> string \<Rightarrow> run_turn \<Rightarrow> string \<Rightarrow> string option \<Rightarrow> turn_db \<Rightarrow> turn_db" where
  "audit_denied wo ty t outcome reason d =
     (case wo of None \<Rightarrow> d | Some w \<Rightarrow> append_audit w ty t (Some outcome) [(''reason'', opt_str reason)] d)"

definition bind_turn_workspace :: "instant \<Rightarrow> run_turn \<Rightarrow> turn_db \<Rightarrow> (bool \<times> string option) \<times> run_turn \<times> turn_db" where
  "bind_turn_workspace now t d =
     (case (case nu_agent t of None \<Rightarrow> None | Some gid \<Rightarrow> active_attachment gid d) of
        None \<Rightarrow> ((True, None), t, d)
      | Some w \<Rightarrow>
          let t1 = t\<lparr>rt_attachment := Some (wa_id w), rt_epoch := Some (wa_epoch w)\<rparr>;
              reason = attachment_turn_reason now t1 w d
          in ((reason = None, reason), t1,
              append_audit w (if reason = None then ''invocation_allowed'' else ''invocation_denied'') t1
                (Some (if reason = None then ''allowed'' else ''denied''))
                [(''reason'', opt_str reason), (''attachment_epoch'', PInt (wa_epoch w))] d))"

section \<open>The execution of a turn\<close>

abbreviation MAX_SNAPSHOT_WIRE_BYTES :: int where "MAX_SNAPSHOT_WIRE_BYTES \<equiv> 768 * 1024"

definition unresolved_stop :: "string \<Rightarrow> turn_db \<Rightarrow> bool" where
  "unresolved_stop xid d \<longleftrightarrow> list_ex (\<lambda>s. st_execution s = xid \<and> st_status s \<notin> set SAFE_STOP_STATES) (td_stops d)"

text \<open>The conditional update that locks the row, evaluated again on the same database.\<close>

definition execution_lockable :: "instant \<Rightarrow> run_exec \<Rightarrow> int option \<Rightarrow> turn_db \<Rightarrow> bool" where
  "execution_lockable now x revision d \<longleftrightarrow>
     Some (nx_revision x) = revision \<and> nx_status x \<in> set ACTIVE_EXECUTIONS
     \<and> (case rx_deadline x of None \<Rightarrow> True | Some t \<Rightarrow> now < t)
     \<and> (case tget r_id (nx_room x) (td_rooms d) of None \<Rightarrow> False
        | Some r \<Rightarrow> r_project r = Some (nx_project x) \<and> r_archived r = None)
     \<and> \<not> unresolved_stop (nx_id x) d"

definition frozen_input_payload :: "revision_row \<Rightarrow> pyval option" where
  "frozen_input_payload v = (if iv_wire v > MAX_SNAPSHOT_WIRE_BYTES then None else Some (iv_payload v))"

definition bound_task_ok :: "run_turn \<Rightarrow> run_task option \<Rightarrow> bool" where
  "bound_task_ok t ko \<longleftrightarrow>
     (case ko of None \<Rightarrow> False
      | Some k \<Rightarrow> k_execution k = nu_execution t \<and> k_input_rev k = nu_revision t \<and> k_room k = nu_room t \<and> k_assignee k = nu_participant t)"

text \<open>\<open>if turn.task_id\<close>: an empty id reads no task.\<close>

definition turn_task :: "run_turn \<Rightarrow> turn_db \<Rightarrow> run_task option" where
  "turn_task t d = (if nu_task t = Some [] then None else opt_get k_id (nu_task t) (td_tasks d))"

definition validate_execution_turn :: "bool \<Rightarrow> instant \<Rightarrow> run_turn \<Rightarrow> turn_db \<Rightarrow> bool \<times> string option \<times> pyval option" where
  "validate_execution_turn lock now t d =
     (let ko = turn_task t d in
      if nu_execution t = None \<and> nu_revision t = None then
        (case ko of
           Some k \<Rightarrow> if k_execution k \<noteq> None then (False, Some ''TURN_EXECUTION_BINDING_MISSING'', None) else (True, None, None)
         | None \<Rightarrow> (True, None, None))
      else if \<not> bound_task_ok t ko then (False, Some ''TURN_EXECUTION_BINDING_INVALID'', None)
      else
        (case (opt_get nx_id (nu_execution t) (td_execs d), tget r_id (nu_room t) (td_rooms d)) of
           (Some x, Some r) \<Rightarrow>
             if r_project r \<noteq> Some (nx_project x) \<or> r_archived r \<noteq> None then (False, Some ''EXECUTION_SCOPE_REVOKED'', None)
             else if Some (nx_revision x) \<noteq> nu_revision t then (False, Some ''EXECUTION_INPUT_SUPERSEDED'', None)
             else if nx_status x \<notin> set ACTIVE_EXECUTIONS then (False, Some ''EXECUTION_NOT_ACTIVE'', None)
             else if (case rx_deadline x of None \<Rightarrow> False | Some e \<Rightarrow> e \<le> now) then (False, Some ''EXECUTION_DEADLINE_REACHED'', None)
             else if unresolved_stop (nx_id x) d then (False, Some ''EXECUTION_STOP_UNCONFIRMED'', None)
             else if lock \<and> \<not> execution_lockable now x (nu_revision t) d then (False, Some ''EXECUTION_AUTHORIZATION_CHANGED'', None)
             else
               (case find (\<lambda>v. iv_execution v = nx_id x \<and> Some (iv_revision v) = nu_revision t) (td_revisions d) of
                  None \<Rightarrow> (False, Some ''EXECUTION_INPUT_MISSING'', None)
                | Some v \<Rightarrow>
                    (case frozen_input_payload v of
                       None \<Rightarrow> (False, Some ''INPUT_SNAPSHOT_TOO_LARGE'', None)
                     | Some p \<Rightarrow> (True, None, Some p)))
         | _ \<Rightarrow> (False, Some ''EXECUTION_SCOPE_REVOKED'', None)))"

text \<open>The accepted result of exactly this attempt, for a finished execution.\<close>

definition accepted_result :: "run_turn \<Rightarrow> string \<Rightarrow> turn_db \<Rightarrow> bool" where
  "accepted_result t aid d \<longleftrightarrow>
     list_ex (\<lambda>r. Some (tr_execution r) = nu_execution t \<and> Some (tr_task r) = nu_task t \<and> Some (tr_revision r) = nu_revision t
         \<and> tr_attempt r = Some aid \<and> tr_producer r = nu_agent t
         \<and> (case tget k_id (tr_task r) (td_tasks d) of None \<Rightarrow> False
            | Some k \<Rightarrow> k_status k = TaskDone \<and> k_execution k = nu_execution t \<and> k_input_rev k = nu_revision t)) (td_results d)"

definition execution_completed :: "run_turn \<Rightarrow> turn_db \<Rightarrow> bool" where
  "execution_completed t d \<longleftrightarrow>
     (case opt_get nx_id (nu_execution t) (td_execs d) of None \<Rightarrow> False
      | Some x \<Rightarrow> Some (nx_revision x) = nu_revision t \<and> nx_status x = XCompleted)"

definition execution_gate ::
  "instant \<Rightarrow> run_turn \<Rightarrow> string option \<Rightarrow> turn_db \<Rightarrow> bool \<times> string option \<times> pyval option" where
  "execution_gate now t completion d =
     (case validate_execution_turn True now t d of
        (allowed, reason, snapshot) \<Rightarrow>
          (case completion of
             None \<Rightarrow> (allowed, reason, snapshot)
           | Some aid \<Rightarrow>
               if allowed \<or> reason \<noteq> Some ''EXECUTION_NOT_ACTIVE'' then (allowed, reason, snapshot)
               else if execution_completed t d \<and> accepted_result t aid d then (True, None, None)
               else (False, reason, None)))"

section \<open>Admission of new work\<close>

definition granted_admission :: disposition where
  "granted_admission = \<lparr>ad_allowed = True, ad_reason = None\<rparr>"

definition queue_denial :: "string \<Rightarrow> disposition \<Rightarrow> turn_db \<Rightarrow> turn_db" where
  "queue_denial xid ad d =
     (case ad_reason ad of
        Some r \<Rightarrow>
          if \<not> ad_allowed ad \<and> r \<in> {NATIVE_LIMIT, USAGE_LIMIT} then d\<lparr>td_denials := td_denials d @ [(xid, r)]\<rparr> else d
      | None \<Rightarrow> d)"

definition execution_admission :: "run_turn \<Rightarrow> run_attempt option \<Rightarrow> turn_db \<Rightarrow> py_exc + disposition \<times> turn_db" where
  "execution_admission t ao d =
     (case nu_execution t of
        None \<Rightarrow> Inr (granted_admission, d)
      | Some xid \<Rightarrow>
          if (case ao of None \<Rightarrow> False | Some a \<Rightarrow> is_permitted (native_turn.truncate t) (native_attempt.truncate a) (native_view d))
          then Inr (granted_admission, d)
          else
            (case tget nx_id xid (td_execs d) of
               None \<Rightarrow> Inr (denied ''EXECUTION_INPUT_SUPERSEDED'', d)
             | Some x \<Rightarrow>
                 if Some (nx_revision x) \<noteq> nu_revision t then Inr (denied ''EXECUTION_INPUT_SUPERSEDED'', d)
                 else bindE (admission_disposition xid ''intent'' (native_view d)) (\<lambda>ad. Inr (ad, queue_denial xid ad d))))"

section \<open>Membership and the lock\<close>

text \<open>The agent's participant of a live room, the agent wanted running.\<close>

definition member_gate :: "string option \<Rightarrow> string \<Rightarrow> string option \<Rightarrow> turn_db \<Rightarrow> bool" where
  "member_gate pid room gid d \<longleftrightarrow>
     (case (opt_get p_id pid (td_participants d), tget r_id room (td_rooms d), opt_get ng_id gid (td_agents d)) of
        (Some p, Some r, Some g) \<Rightarrow>
          p_room p = room \<and> p_agent p = gid \<and> p_role p \<in> set AGENT_EXECUTION_ROLES \<and> r_archived r = None \<and> ng_running g
      | _ \<Rightarrow> False)"

definition same_binding :: "run_turn \<Rightarrow> run_turn \<Rightarrow> bool" where
  "same_binding t t0 \<longleftrightarrow> nu_execution t = nu_execution t0 \<and> nu_revision t = nu_revision t0 \<and> nu_task t = nu_task t0"

text \<open>The turn under its lock, or whether its binding changed meanwhile, and the database then.\<close>

definition lock_scoped_turn :: "(turn_db \<Rightarrow> turn_db) \<Rightarrow> string \<Rightarrow> turn_db \<Rightarrow> run_turn option \<times> bool \<times> turn_db" where
  "lock_scoped_turn between rid d =
     (case get_turn rid d of
        None \<Rightarrow> (None, False, d)
      | Some t0 \<Rightarrow>
          let d1 = between d in
          case get_turn rid d1 of
            None \<Rightarrow> (None, True, d1)
          | Some t \<Rightarrow> if same_binding t t0 then (Some t, False, d1) else (None, True, d1))"

definition active_attempt_of :: "run_turn \<Rightarrow> turn_db \<Rightarrow> run_attempt option" where
  "active_attempt_of t d = find (\<lambda>a. nb_turn a = nu_request t \<and> nb_number a = nu_active t) (td_attempts d)"

end
