(* ===== verification/TurnService.thy ===== *)
theory TurnService
  imports TurnGates
begin

text \<open>
  The transactions of turns/service.py and turns/cancel.py on one durable turn: creating it,
  delivering its outbox row, accepting its one visible reply, applying the agent's lifecycle
  frames and cancelling it.

  \<open>between\<close> is what other transactions commit between the unlocked read of a turn and its lock
  (PostgreSQL); with SQLite's writer lock it is the identity. A transaction that ends without a
  commit leaves what the others committed.
\<close>

datatype turn_exc = TurnConflict string | TurnCancelError int string | ThreadRootInvalid | TurnRaised py_exc

fun lift_exc :: "py_exc + 'a \<Rightarrow> turn_exc + 'a" where
  "lift_exc (Inl e) = Inl (TurnRaised e)"
| "lift_exc (Inr x) = Inr x"

lemma lift_exc_Inr [simp]: "lift_exc r = Inr x \<longleftrightarrow> r = Inr x"
  by (cases r) auto

record fresh_ids =
  fi_request :: string
  fi_attempt :: string
  fi_lease :: string
  fi_outbox :: string
  fi_message :: string

definition or_else :: "string option \<Rightarrow> string \<Rightarrow> string option" where
  "or_else v dflt = (case v of None \<Rightarrow> Some dflt | Some [] \<Rightarrow> Some dflt | Some s \<Rightarrow> Some s)"

section \<open>Creating a turn\<close>

record turn_request =
  tq_room :: string
  tq_participant :: string
  tq_agent :: string
  tq_trigger :: string
  tq_thread :: "string option"
  tq_task :: "string option"
  tq_request :: "string option"
  tq_key :: "string option"
  tq_retries :: int
  tq_max :: int

definition request_key :: "turn_request \<Rightarrow> string" where
  "request_key q = the (or_else (tq_key q) (''message:'' @ tq_trigger q @ '':participant:'' @ tq_participant q))"

definition new_turn :: "turn_request \<Rightarrow> string \<Rightarrow> instant \<Rightarrow> run_turn" where
  "new_turn q rid now =
     \<lparr>nu_request = rid, nu_room = tq_room q, nu_participant = Some (tq_participant q), nu_agent = Some (tq_agent q),
      nu_task = tq_task q, nu_trigger = Some (tq_trigger q), nu_execution = None, nu_revision = None, nu_state = TnPending,
      nu_active = 1, rt_thread = tq_thread q, rt_key = request_key q, rt_attachment = None, rt_epoch = None, rt_protocol = 1,
      rt_retries = tq_retries q, rt_max = tq_max q, rt_accepted = None, rt_reason = None, rt_created = now, rt_updated = now,
      rt_completed = None\<rparr>"

definition new_attempt_row :: "fresh_ids \<Rightarrow> string \<Rightarrow> string option \<Rightarrow> int \<Rightarrow> int \<Rightarrow> run_attempt" where
  "new_attempt_row ids rid gid n gen =
     \<lparr>nb_id = fi_attempt ids, nb_turn = rid, nb_agent = gid, nb_number = n, nb_generation = gen, nb_state = TaPending,
      nb_local = None, nb_lease = fi_lease ids, nb_expires = None, ra_leased = None, ra_started = None, ra_ended = None,
      ra_outcome = None, ra_reason = None, ra_transient = False\<rparr>"

definition new_outbox_row :: "fresh_ids \<Rightarrow> run_turn \<Rightarrow> instant \<Rightarrow> instant \<Rightarrow> run_outbox" where
  "new_outbox_row ids t available now =
     \<lparr>ro_id = fi_outbox ids, ro_turn = nu_request t, ro_attempt = fi_attempt ids, ro_room = nu_room t,
      ro_participant = nu_participant t, ro_state = ObPending, ro_count = 0, ro_available = available, ro_delivered = None,
      ro_error = None, ro_created = now\<rparr>"

definition add_attempt :: "run_attempt \<Rightarrow> turn_db \<Rightarrow> turn_db" where
  "add_attempt a d = d\<lparr>td_attempts := td_attempts d @ [a]\<rparr>"

definition add_outbox :: "run_outbox \<Rightarrow> turn_db \<Rightarrow> turn_db" where
  "add_outbox r d = d\<lparr>td_outbox := td_outbox d @ [r]\<rparr>"

definition task_binding_changed :: "run_task option \<Rightarrow> run_task option \<Rightarrow> bool" where
  "task_binding_changed before after \<longleftrightarrow>
     (case (before, after) of
        (Some k0, Some k) \<Rightarrow> k_execution k \<noteq> k_execution k0 \<or> k_input_rev k \<noteq> k_input_rev k0
      | (Some _, None) \<Rightarrow> True
      | (None, Some k) \<Rightarrow> k_execution k \<noteq> None
      | (None, None) \<Rightarrow> False)"

definition bind_turn_task :: "run_task option \<Rightarrow> run_turn \<Rightarrow> run_turn" where
  "bind_turn_task ko t =
     (case ko of
        Some k \<Rightarrow> if k_execution k = None then t else t\<lparr>nu_execution := k_execution k, nu_revision := k_input_rev k\<rparr>
      | None \<Rightarrow> t)"

text \<open>Why a turn is born cancelled, the checks in the order of the code.\<close>

definition refusal_of ::
  "bool \<Rightarrow> bool \<times> string option \<Rightarrow> instant \<Rightarrow> run_turn \<Rightarrow> turn_db \<Rightarrow> turn_exc + string option \<times> turn_db" where
  "refusal_of running ws now t d =
     (if \<not> running then Inr (Some ''agent_not_running'', d)
      else if \<not> fst ws then Inr (or_else (snd ws) ''workspace_authorization_revoked'', d)
      else
        (case execution_gate now t None d of
           (ok, reason, _) \<Rightarrow>
             if \<not> ok then Inr (or_else reason ''execution_authorization_revoked'', d)
             else if nu_execution t = None then Inr (None, d)
             else bindE (lift_exc (execution_admission t None d)) (\<lambda>(ad, d1).
                    Inr (if ad_allowed ad then None else or_else (ad_reason ad) ''EXECUTION_ADMISSION_DENIED'', d1))))"

definition insert_turn :: "run_turn \<Rightarrow> fresh_ids \<Rightarrow> int \<Rightarrow> string option \<Rightarrow> instant \<Rightarrow> turn_db \<Rightarrow> turn_db" where
  "insert_turn t ids gen refusal now d =
     (let d1 = d\<lparr>td_turns := td_turns d @ [t]\<rparr>;
          a = new_attempt_row ids (nu_request t) (nu_agent t) 1 gen in
      case refusal of
        None \<Rightarrow> add_outbox (new_outbox_row ids t now now) (add_attempt a d1)
      | Some r \<Rightarrow>
          add_attempt (a\<lparr>nb_state := TaCancelled, ra_reason := Some r\<rparr>)
            (mark_turn_terminal EndCancelled (Some r) None None None None now (nu_request t) d1))"

definition create_turn ::
  "(turn_db \<Rightarrow> turn_db) \<Rightarrow> instant \<Rightarrow> fresh_ids \<Rightarrow> turn_request \<Rightarrow> turn_db \<Rightarrow> turn_exc + string \<times> turn_db" where
  "create_turn between now ids q d =
     (let rid = the (or_else (tq_request q) (fi_request ids)) in
      case find (\<lambda>t. rt_key t = request_key q) (td_turns d) of
        Some t \<Rightarrow> Inr (nu_request t, d)
      | None \<Rightarrow>
          let d1 = (if tq_task q = None then d else between d); task = opt_get k_id (tq_task q) (td_tasks d1) in
          if task_binding_changed (opt_get k_id (tq_task q) (td_tasks d)) task
          then Inl (TurnConflict ''TURN_EXECUTION_BINDING_CHANGED'')
          else
            let agent = tget ng_id (tq_agent q) (td_agents d1);
                gen = (case agent of None \<Rightarrow> 0 | Some g \<Rightarrow> ng_generation g);
                running = (case agent of None \<Rightarrow> False | Some g \<Rightarrow> ng_running g) in
            case bind_turn_workspace now (new_turn q rid now) d1 of
              (ws, t1, d2) \<Rightarrow>
                let t = bind_turn_task task t1 in
                bindE (refusal_of running ws now t d2) (\<lambda>(refusal, d3). Inr (rid, insert_turn t ids gen refusal now d3)))"

section \<open>Delivering\<close>

text \<open>What the connection manager answers for the participant, and what the delivery reads elsewhere.\<close>

record delivery_env =
  de_connected :: bool
  de_control :: bool
  de_generation :: "int option"
  de_conversation :: "pyval option"
  de_mono :: mono
  de_cache :: observed_cache

record delivery =
  dl_participant :: "string option"
  dl_turn :: string
  dl_attempt :: string
  dl_message :: string
  dl_legacy :: bool
  dl_generation :: int
  dl_meta :: "(string \<times> pyval) list"

definition dpop :: "string \<Rightarrow> (string \<times> pyval) list \<Rightarrow> (string \<times> pyval) list" where
  "dpop k d = filter (\<lambda>e. fst e \<noteq> k) d"

fun dputs :: "(string \<times> pyval) list \<Rightarrow> (string \<times> pyval) list \<Rightarrow> (string \<times> pyval) list" where
  "dputs d [] = d"
| "dputs d ((k, v) # kvs) = dputs (dput d k v) kvs"

definition is_operating_lead :: "run_turn \<Rightarrow> turn_db \<Rightarrow> bool" where
  "is_operating_lead t d \<longleftrightarrow>
     (case tget r_id (nu_room t) (td_rooms d) of
        None \<Rightarrow> False
      | Some r \<Rightarrow> \<not> r_is_dm r \<and> r_lead r = nu_agent t
          \<and> list_ex (\<lambda>s. rr_parent s = Some (r_id r) \<and> r_archived s = None) (td_rooms d))"

definition task_assignment :: "run_turn \<Rightarrow> (string \<times> pyval) list \<Rightarrow> (string \<times> pyval) list" where
  "task_assignment t m =
     (case nu_task t of
        None \<Rightarrow> m
      | Some kid \<Rightarrow>
          dput m ''task_assignment''
            (PDict (dputs (case dget m ''task_assignment'' of PDict a \<Rightarrow> a | _ \<Rightarrow> [])
                      [(''task_id'', PStr kid), (''assignee_pid'', opt_str (nu_participant t))])))"

definition durable_metadata ::
  "run_turn \<Rightarrow> run_attempt \<Rightarrow> (string \<times> pyval) list \<Rightarrow> pyval option \<Rightarrow> bool \<Rightarrow> (string \<times> pyval) list" where
  "durable_metadata t a base snapshot lead =
     (let m0 = dpop ''operating_lead'' base;
          m1 = (if lead then dput m0 ''operating_lead'' (PBool True) else m0);
          m2 = dputs m1 [(''request_id'', PStr (nu_request t)), (''turn_attempt'', PInt (nb_number a)),
                 (''turn_generation'', PInt (nb_generation a)), (''turn_lease'', PStr (nb_lease a)),
                 (''turn_idempotency_key'', PStr (rt_key t)), (''turn_protocol'', PInt 1)];
          m3 = fold dpop [''execution_id'', ''input_revision'', ''execution_input_snapshot''] m2;
          m4 = (case nu_execution t of
                  None \<Rightarrow> m3
                | Some xid \<Rightarrow>
                    task_assignment t
                      (dputs m3 [(''execution_id'', PStr xid), (''input_revision'', opt_int (nu_revision t)),
                         (''execution_input_snapshot'', (case snapshot of None \<Rightarrow> PNone | Some p \<Rightarrow> p))]))
      in case rt_attachment t of
           None \<Rightarrow> m4
         | Some wid \<Rightarrow> dputs m4 [(''workspace_attachment_id'', PStr wid), (''workspace_attachment_epoch'', opt_int (rt_epoch t))])"

definition due_outbox :: "instant \<Rightarrow> string list \<Rightarrow> nat \<Rightarrow> turn_db \<Rightarrow> string list" where
  "due_outbox now pids limit d =
     map ro_id (take limit (sort_key ro_created
       (filter (\<lambda>r. ro_state r = ObPending \<and> ro_available r \<le> now
          \<and> (pids = [] \<or> (\<exists>p\<in>set pids. ro_participant r = Some p))) (td_outbox d))))"

definition created_before :: "run_turn \<Rightarrow> run_turn \<Rightarrow> bool" where
  "created_before t' t \<longleftrightarrow> rt_created t' < rt_created t \<or> (rt_created t' = rt_created t \<and> str_lt (nu_request t') (nu_request t))"

text \<open>An open turn of the same room and participant that was asked for earlier.\<close>

definition earlier_turn :: "message_row \<Rightarrow> run_turn \<Rightarrow> turn_db \<Rightarrow> run_turn \<Rightarrow> bool" where
  "earlier_turn m t d t' \<longleftrightarrow>
     nu_request t' \<noteq> nu_request t \<and> nu_room t' = nu_room t \<and> nu_participant t \<noteq> None \<and> nu_participant t' = nu_participant t
     \<and> nu_state t' \<in> set OPEN_TURN_STATES
     \<and> (case opt_get ms_id (nu_trigger t') (td_messages d) of
          Some m' \<Rightarrow> ms_seq m' < ms_seq m \<or> (ms_seq m' = ms_seq m \<and> created_before t' t)
        | None \<Rightarrow> created_before t' t)"

definition prior_open :: "message_row \<Rightarrow> run_turn \<Rightarrow> turn_db \<Rightarrow> bool" where
  "prior_open m t d \<longleftrightarrow> list_ex (earlier_turn m t d) (td_turns d)"

definition cancel_row :: "string \<Rightarrow> string option \<Rightarrow> turn_db \<Rightarrow> turn_db" where
  "cancel_row oid err d = upd_outbox oid (\<lambda>r. r\<lparr>ro_state := ObCancelled, ro_error := stamp err (ro_error r)\<rparr>) d"

text \<open>A gate refuses the delivery: the turn, its attempt and the row are cancelled.\<close>

definition cancel_delivery :: "instant \<Rightarrow> string \<Rightarrow> run_turn \<Rightarrow> run_attempt \<Rightarrow> string \<Rightarrow> turn_db \<Rightarrow> turn_db" where
  "cancel_delivery now oid t a reason d =
     cancel_row oid (Some reason)
       (mark_turn_terminal EndCancelled (Some reason) None (Some (nb_id a)) None (Some reason) now (nu_request t) d)"

definition delivery_metadata ::
  "delivery_env \<Rightarrow> run_turn \<Rightarrow> run_attempt \<Rightarrow> message_row \<Rightarrow> pyval option \<Rightarrow> turn_db \<Rightarrow> (string \<times> pyval) list" where
  "delivery_metadata env t a m snapshot d =
     (if de_generation env = None then dput (ms_meta m) ''request_id'' (PStr (nu_request t))
      else
        let base = dpop ''conversation_context'' (durable_metadata t a (ms_meta m) snapshot (is_operating_lead t d))
        in case de_conversation env of None \<Rightarrow> base | Some c \<Rightarrow> dput base ''conversation_context'' c)"

definition lease_attempt :: "instant \<Rightarrow> int \<Rightarrow> run_attempt \<Rightarrow> run_attempt" where
  "lease_attempt now secs a = a\<lparr>nb_state := TaLeased, ra_leased := Some now, nb_expires := Some (now + seconds secs)\<rparr>"

abbreviation OUTBOX_RECLAIM_SEC :: int where "OUTBOX_RECLAIM_SEC \<equiv> 30"

text \<open>An agent of the old protocol has no generation: its turn keeps the old contract.\<close>

definition mark_legacy :: "delivery_env \<Rightarrow> run_turn \<Rightarrow> turn_db \<Rightarrow> turn_db" where
  "mark_legacy env t d = (if de_generation env = None then upd_turn (nu_request t) (\<lambda>t. t\<lparr>rt_protocol := 0\<rparr>) d else d)"

text \<open>The claim of the row and the lease of the attempt, in one transaction.\<close>

definition lease_delivery ::
  "delivery_env \<Rightarrow> instant \<Rightarrow> instant \<Rightarrow> string \<Rightarrow> run_turn \<Rightarrow> run_attempt \<Rightarrow> run_agent \<Rightarrow> delivery \<Rightarrow> turn_db \<Rightarrow> turn_db \<times> delivery option" where
  "lease_delivery env now lease_now oid t a g dl d =
     (case get_outbox oid d of
        None \<Rightarrow> (d, None)
      | Some r \<Rightarrow>
          if ro_state r \<noteq> ObPending \<or> now < ro_available r then (d, None)
          else
            let d1 = upd_outbox oid (\<lambda>r. r\<lparr>ro_available := now + seconds OUTBOX_RECLAIM_SEC, ro_count := ro_count r + 1\<rparr>) d;
                d2 = mark_legacy env t d1;
                d3 = (if nb_state a = TaPending
                      then upd_turn (nu_request t) (\<lambda>t. if nu_state t \<in> {TnPending, TnRetrying} then t\<lparr>nu_state := TnLeased\<rparr> else t)
                             (upd_turn_attempt (nb_id a) (lease_attempt lease_now (turn_lease_seconds g)) d2)
                      else d2)
            in (d3, Some dl))"

text \<open>After the gates: intent order, the connection, the admission and the subscription.\<close>

definition dispatch_claimed ::
  "delivery_env \<Rightarrow> instant \<Rightarrow> instant \<Rightarrow> string \<Rightarrow> run_outbox \<Rightarrow> run_turn \<Rightarrow> run_attempt \<Rightarrow> run_agent \<Rightarrow> message_row \<Rightarrow> pyval option
     \<Rightarrow> turn_db \<Rightarrow> turn_exc + turn_db \<times> delivery option" where
  "dispatch_claimed env now lease_now oid row t a g m snapshot d =
     (if prior_open m t d \<or> \<not> de_connected env then Inr (d, None)
      else if nu_execution t \<noteq> None \<and> \<not> de_control env
      then Inr (cancel_delivery now oid t a ''NATIVE_TURN_CONTROL_REQUIRED'' d, None)
      else
        bindE (lift_exc (execution_admission t (Some a) d)) (\<lambda>(ad, d1).
          if \<not> ad_allowed ad then
            Inr (upd_outbox oid (\<lambda>r. r\<lparr>ro_available := now + seconds 5,
                   ro_error := or_else (ad_reason ad) ''EXECUTION_ADMISSION_PENDING''\<rparr>) d1, None)
          else if de_generation env \<notin> {None, Some (nb_generation a)} then Inr (d, None)
          else if de_generation env = None \<and> nu_execution t \<noteq> None
          then Inr (upd_outbox oid (\<lambda>r. r\<lparr>ro_error := Some ''PROJECT_TURN_START_PROTOCOL_REQUIRED''\<rparr>) d, None)
          else if nb_state a \<notin> insert TaPending (set LEASED_STATES)
          then Inr (cancel_row oid None (mark_legacy env t d), None)
          else
            Inr (lease_delivery env now lease_now oid t a g
              \<lparr>dl_participant = ro_participant row, dl_turn = ro_turn row, dl_attempt = ro_attempt row, dl_message = ms_id m,
               dl_legacy = (de_generation env = None), dl_generation = nb_generation a,
               dl_meta = delivery_metadata env t a m snapshot d\<rparr> d)))"

text \<open>The gates of a delivery under the lock, in the order of the code.\<close>

definition gated_claim ::
  "delivery_env \<Rightarrow> instant \<Rightarrow> instant \<Rightarrow> string \<Rightarrow> run_outbox \<Rightarrow> run_turn \<Rightarrow> run_attempt \<Rightarrow> turn_db \<Rightarrow> turn_exc + turn_db \<times> delivery option" where
  "gated_claim env now lease_now oid row t a d =
     (case (execution_gate now t None d, workspace_gate now t d) of
        ((xok, xreason, snapshot), (wok, wreason, w)) \<Rightarrow>
          if \<not> xok then Inr (cancel_delivery now oid t a (the (or_else xreason ''execution_authorization_revoked'')) d, None)
          else if \<not> wok then
            (let reason = the (or_else wreason ''workspace_authorization_revoked'')
             in Inr (audit_denied w ''dispatch_denied'' t ''denied'' (Some reason) (cancel_delivery now oid t a reason d), None))
          else if \<not> member_gate (ro_participant row) (ro_room row) (nu_agent t) d then
            Inr (log_turn ''turn_cancelled'' [(''reason'', PStr ''authorization_revoked''), (''attempt'', PInt (nb_number a))] t
                  (cancel_delivery now oid t a ''authorization_revoked'' d), None)
          else
            (case opt_get ng_id (nu_agent t) (td_agents d) of
               None \<Rightarrow> Inr (d, None)
             | Some g \<Rightarrow>
                 if nb_generation a \<noteq> ng_generation g then Inr (d, None)
                 else
                   (case fst (invocation_block_in_session (nu_agent t) (Some (nu_room t)) now (de_mono env) (td_budget d) (de_cache env)) of
                      Some b \<Rightarrow>
                        Inr (log_turn ''turn_cancelled''
                              [(''reason'', PStr ''budget_hard_stop''), (''attempt'', PInt (nb_number a)),
                               (''budget_scope_type'', PStr (ib_scope_type b)), (''budget_scope_id'', opt_str (ib_scope_id b)),
                               (''detail'', PStr (ib_reason b))] t
                              (cancel_delivery now oid t a ''budget_hard_stop'' d), None)
                    | None \<Rightarrow>
                        (case opt_get ms_id (nu_trigger t) (td_messages d) of
                           None \<Rightarrow>
                             Inr (cancel_row oid None
                                    (mark_turn_terminal EndCancelled (Some ''trigger_message_deleted'') None (Some (nb_id a)) None
                                       (Some ''trigger_message_deleted'') now (nu_request t) d), None)
                         | Some m \<Rightarrow> dispatch_claimed env now lease_now oid row t a g m snapshot d))))"

definition claim_outbox ::
  "delivery_env \<Rightarrow> (turn_db \<Rightarrow> turn_db) \<Rightarrow> instant \<Rightarrow> instant \<Rightarrow> string \<Rightarrow> turn_db \<Rightarrow> turn_exc + turn_db \<times> delivery option" where
  "claim_outbox env between now lease_now oid d =
     (case get_outbox oid d of
        None \<Rightarrow> Inr (d, None)
      | Some row \<Rightarrow>
          if ro_state row \<noteq> ObPending \<or> now < ro_available row \<or> ro_participant row = None then Inr (d, None)
          else
            (case (get_turn (ro_turn row) d, get_turn_attempt (ro_attempt row) d) of
               (Some t0, Some _) \<Rightarrow>
                 if nu_state t0 \<notin> set OPEN_TURN_STATES then Inr (cancel_row oid None d, None)
                 else
                   (case lock_scoped_turn between (ro_turn row) d of
                      (Some t, False, d1) \<Rightarrow>
                        (case get_turn_attempt (ro_attempt row) d1 of
                           None \<Rightarrow> Inr (d1, None)
                         | Some a \<Rightarrow>
                             if nb_turn a \<noteq> nu_request t then Inr (d1, None)
                             else gated_claim env now lease_now oid row t a d1)
                    | (_, _, d1) \<Rightarrow> Inr (d1, None))
             | _ \<Rightarrow> Inr (cancel_row oid None d, None)))"

text \<open>The second transaction, after the socket took the frame.\<close>

definition confirm_delivery :: "instant \<Rightarrow> string \<Rightarrow> delivery \<Rightarrow> turn_db \<Rightarrow> turn_db \<times> nat" where
  "confirm_delivery now oid dl d =
     (case (get_outbox oid d, get_turn (dl_turn dl) d, get_turn_attempt (dl_attempt dl) d) of
        (Some r, Some t, Some a) \<Rightarrow>
          if ro_state r \<noteq> ObPending \<or> nu_state t \<notin> set OPEN_TURN_STATES \<or> nb_state a \<notin> set LEASED_STATES then (d, 0)
          else
            (log_turn ''turn_dispatched''
               [(''attempt'', PInt (nb_number a)), (''generation'', PInt (nb_generation a)), (''legacy'', PBool (dl_legacy dl))] t
               (upd_outbox oid (\<lambda>r. r\<lparr>ro_state := ObDelivered, ro_delivered := Some now\<rparr>) d), 1)
      | _ \<Rightarrow> (d, 0))"

text \<open>One row of \<open>deliver_pending_outbox\<close>; \<open>send\<close> is the socket and what others commit meanwhile.\<close>

definition deliver_one ::
  "(string \<Rightarrow> delivery_env) \<Rightarrow> (turn_db \<Rightarrow> turn_db) \<Rightarrow> (delivery \<Rightarrow> turn_db \<Rightarrow> bool \<times> turn_db) \<Rightarrow> instant \<Rightarrow> instant \<Rightarrow> instant \<Rightarrow> string
     \<Rightarrow> turn_db \<Rightarrow> turn_exc + turn_db \<times> nat" where
  "deliver_one env between send now lease_now sent_now oid d =
     bindE (claim_outbox (env oid) between now lease_now oid d) (\<lambda>(d1, dlo).
       case dlo of
         None \<Rightarrow> Inr (d1, 0)
       | Some dl \<Rightarrow>
           (case send dl d1 of (sent, d2) \<Rightarrow> Inr (if sent then confirm_delivery sent_now oid dl d2 else (d2, 0))))"

fun deliver_rows ::
  "(string \<Rightarrow> turn_db \<Rightarrow> turn_exc + turn_db \<times> nat) \<Rightarrow> string list \<Rightarrow> turn_db \<Rightarrow> (turn_db \<times> nat) \<times> turn_exc option" where
  "deliver_rows one [] d = ((d, 0), None)"
| "deliver_rows one (oid # oids) d =
     (case one oid d of
        Inl e \<Rightarrow> ((d, 0), Some e)
      | Inr (d1, n) \<Rightarrow> (case deliver_rows one oids d1 of ((d2, k), e) \<Rightarrow> ((d2, n + k), e)))"

definition deliver_pending_outbox ::
  "(string \<Rightarrow> delivery_env) \<Rightarrow> (turn_db \<Rightarrow> turn_db) \<Rightarrow> (delivery \<Rightarrow> turn_db \<Rightarrow> bool \<times> turn_db) \<Rightarrow> instant \<Rightarrow> instant \<Rightarrow> instant
     \<Rightarrow> string list \<Rightarrow> nat \<Rightarrow> turn_db \<Rightarrow> (turn_db \<times> nat) \<times> turn_exc option" where
  "deliver_pending_outbox env between send now lease_now sent_now pids limit d =
     deliver_rows (deliver_one env between send now lease_now sent_now) (due_outbox now pids limit d) d"

end
