(* ===== verification/TurnFlow.thy ===== *)
theory TurnFlow
  imports TurnService
begin

text \<open>
  Closing a turn: the completion of its one visible reply with the message it posts (turns/service.py
  and the send path of ws/handler.py), the agent's lifecycle frames, the user's cancellation
  (turns/cancel.py) and the sweep of turns whose gate was revoked.
\<close>

section \<open>Completion\<close>

text \<open>The lease proof a reply or a frame presents.\<close>

record turn_proof =
  pf_attempt :: "int option"
  pf_generation :: "int option"
  pf_lease :: "string option"

definition legacy_proof :: "turn_proof \<Rightarrow> bool" where
  "legacy_proof p \<longleftrightarrow> pf_attempt p = None \<and> pf_generation p = None \<and> pf_lease p = None"

definition proves :: "turn_proof \<Rightarrow> run_attempt \<Rightarrow> bool" where
  "proves p a \<longleftrightarrow> pf_attempt p = Some (nb_number a) \<and> pf_generation p = Some (nb_generation a) \<and> pf_lease p = Some (nb_lease a)"

datatype completion_decision =
    DLegacy
  | DAccept string
  | DFailure string
  | DIdempotent "string option"
  | DStale string

definition audit_stale :: "run_turn \<Rightarrow> string \<Rightarrow> string \<Rightarrow> turn_proof \<Rightarrow> turn_db \<Rightarrow> turn_db" where
  "audit_stale t gid reason p d =
     add_log \<lparr>tl_agent = Some gid, tl_type = ''stale_completion'', tl_request = nu_request t, tl_room = nu_room t,
       tl_details = [(''reason'', PStr reason), (''attempt'', opt_int (pf_attempt p)), (''generation'', opt_int (pf_generation p)),
         (''active_attempt'', PInt (nu_active t))]\<rparr> d"

definition stale :: "run_turn \<Rightarrow> string \<Rightarrow> string \<Rightarrow> turn_proof \<Rightarrow> turn_db \<Rightarrow> completion_decision \<times> turn_db" where
  "stale t gid reason p d = (DStale reason, audit_stale t gid reason p d)"

definition attempt_event_key :: "run_turn \<Rightarrow> int \<Rightarrow> string \<Rightarrow> string" where
  "attempt_event_key t n suffix = ''turn:'' @ nu_request t @ '':attempt:'' @ int_str n @ '':'' @ suffix"

definition event_of :: "string \<Rightarrow> turn_db \<Rightarrow> run_event option" where
  "event_of key d = find (\<lambda>e. xe_key e = key) (td_events d)"

definition new_event :: "run_turn \<Rightarrow> string \<Rightarrow> string \<Rightarrow> (string \<times> pyval) list \<Rightarrow> instant \<Rightarrow> run_event" where
  "new_event t key ty det now =
     \<lparr>xe_execution = (case nu_execution t of None \<Rightarrow> [] | Some x \<Rightarrow> x), xe_task = nu_task t, xe_key = key, xe_type = ty,
      xe_details = det, ve_created = now, re_message = None\<rparr>"

definition FAILED_REPLIES :: "string list" where
  "FAILED_REPLIES = [''failed'', ''timeout'', ''retry_exhausted'', ''rejected'']"

definition begin_failure_notice :: "instant \<Rightarrow> run_turn \<Rightarrow> run_attempt \<Rightarrow> string \<Rightarrow> turn_db \<Rightarrow> completion_decision \<times> turn_db" where
  "begin_failure_notice now t a outcome d =
     (if nu_state t \<notin> {TnPending, TnLeased, TnRetrying} then (DStale ''failure_notice_after_terminal'', d)
      else
        let key = attempt_event_key t (nb_number a) ''failure-notice'' in
        case event_of key d of
          Some e \<Rightarrow> (DIdempotent (re_message e), d)
        | None \<Rightarrow>
            (DFailure (nb_id a),
             d\<lparr>td_events := td_events d @ [new_event t key ''task_failure_notice''
                [(''attempt'', PInt (nb_number a)), (''outcome'', PStr outcome)] now]\<rparr>))"

text \<open>The CAS of the one visible completion.\<close>

definition reserve_completion :: "instant \<Rightarrow> string \<Rightarrow> bool \<Rightarrow> turn_proof \<Rightarrow> run_turn \<Rightarrow> run_attempt \<Rightarrow> turn_db \<Rightarrow> completion_decision \<times> turn_db" where
  "reserve_completion now gid legacy p t a d =
     (if nu_state t \<in> {TnPending, TnLeased, TnRetrying} \<and> nu_active t = nb_number a \<and> rt_accepted t = None then
        let d1 = upd_turn (nu_request t) (\<lambda>t. t\<lparr>nu_state := TnCompleting, rt_updated := now\<rparr>) d;
            d2 = (if legacy
                  then add_log \<lparr>tl_agent = Some gid, tl_type = ''legacy_completion_accepted'', tl_request = nu_request t,
                         tl_room = nu_room t, tl_details = [(''attempt'', PInt 1)]\<rparr>
                         (upd_turn (nu_request t) (\<lambda>t. t\<lparr>rt_protocol := 0\<rparr>) d1)
                  else d1)
        in (DAccept (nb_id a), upd_turn_attempt (nb_id a) (\<lambda>a. a\<lparr>nb_state := TaCompleting\<rparr>) d2)
      else if rt_accepted t \<noteq> None \<or> nu_state t = TnCompleted then (DIdempotent (rt_accepted t), d)
      else stale t gid ''completion_cas_lost'' p d)"

text \<open>After the gates: the proof of the active attempt, the repeated reply and the reservation.\<close>

definition proven_completion ::
  "instant \<Rightarrow> string \<Rightarrow> turn_proof \<Rightarrow> string option \<Rightarrow> run_turn \<Rightarrow> run_attempt \<Rightarrow> turn_db \<Rightarrow> completion_decision \<times> turn_db" where
  "proven_completion now gid p outcome t a d =
     (if legacy_proof p \<and> (rt_retries t \<noteq> 0 \<or> nu_active t \<noteq> 1) then stale t gid ''legacy_after_redispatch'' p d
      else if \<not> legacy_proof p \<and> \<not> proves p a then stale t gid ''lease_mismatch'' p d
      else if rt_accepted t \<noteq> None \<or> nu_state t = TnCompleted then (DIdempotent (rt_accepted t), d)
      else
        (case execution_gate now t (Some (nb_id a)) d of
           (ok, reason, _) \<Rightarrow>
             if \<not> ok then stale t gid (the (or_else reason ''execution_authorization_revoked'')) p d
             else if nu_execution t \<noteq> None \<and> (case outcome of None \<Rightarrow> False | Some oc \<Rightarrow> oc \<in> set FAILED_REPLIES)
             then begin_failure_notice now t a (the outcome) d
             else reserve_completion now gid (legacy_proof p) p t a d))"

definition begin_completion ::
  "(turn_db \<Rightarrow> turn_db) \<Rightarrow> instant \<Rightarrow> string option \<Rightarrow> string \<Rightarrow> string \<Rightarrow> string \<Rightarrow> turn_proof \<Rightarrow> string option \<Rightarrow> turn_db
     \<Rightarrow> completion_decision \<times> turn_db" where
  "begin_completion between now rid room pid gid p outcome d =
     (case rid of
        None \<Rightarrow> (DLegacy, d)
      | Some [] \<Rightarrow> (DLegacy, d)
      | Some r \<Rightarrow>
          (case lock_scoped_turn between r d of
             (None, True, d1) \<Rightarrow> (DStale ''TURN_EXECUTION_BINDING_CHANGED'', d1)
           | (None, False, d1) \<Rightarrow> (DLegacy, d1)
           | (Some t, _, d1) \<Rightarrow>
               (case workspace_gate now t d1 of
                  (wok, wreason, w) \<Rightarrow>
                    if \<not> wok then
                      (let reason = the (or_else wreason ''workspace_authorization_revoked'')
                       in (DStale reason, audit_denied w ''completion_denied'' t ''stale'' (Some reason) (audit_stale t gid reason p d1)))
                    else if \<not> member_gate (Some pid) room (Some gid) d1 \<or> nu_room t \<noteq> room \<or> nu_agent t \<noteq> Some gid
                    then stale t gid ''authorization_revoked'' p d1
                    else
                      (case active_attempt_of t d1 of
                         None \<Rightarrow> (DStale ''attempt_missing'', d1)
                       | Some a \<Rightarrow> proven_completion now gid p outcome t a d1))))"

definition finish_failure_notice :: "run_turn \<Rightarrow> run_attempt \<Rightarrow> string \<Rightarrow> turn_db \<Rightarrow> turn_db" where
  "finish_failure_notice t a mid d =
     d\<lparr>td_events := map (\<lambda>e. if xe_key e = attempt_event_key t (nb_number a) ''failure-notice'' \<and> re_message e = None
                              then e\<lparr>re_message := Some mid\<rparr> else e) (td_events d)\<rparr>"

definition sent_details :: "run_turn \<Rightarrow> run_attempt \<Rightarrow> string \<times> pyval \<Rightarrow> (string \<times> pyval) list" where
  "sent_details t a extra =
     [(''room_id'', PStr (nu_room t)), (''attempt'', PInt (nb_number a)), (''generation'', PInt (nb_generation a)), extra]"

definition finish_completion :: "instant \<Rightarrow> run_turn \<Rightarrow> run_attempt \<Rightarrow> string \<Rightarrow> turn_db \<Rightarrow> turn_db" where
  "finish_completion now t a mid d =
     (let d1 = upd_turn (nu_request t) (\<lambda>t. t\<lparr>rt_accepted := Some mid, rt_updated := now\<rparr>) d;
          d2 = mark_turn_terminal EndCompleted (rt_reason t) (Some now) (Some (nb_id a)) (Some ''ok'') None now (nu_request t) d1;
          d3 = log_turn ''response_sent'' (sent_details t a (''message_id'', PStr mid)) t d2
      in case workspace_gate now t d3 of
           (True, _, Some w) \<Rightarrow> append_audit w ''invocation_completed'' t (Some ''ok'') [(''attempt'', PInt (nb_number a))] d3
         | _ \<Rightarrow> d3)"

definition finish_deferred :: "instant \<Rightarrow> run_turn \<Rightarrow> run_attempt \<Rightarrow> turn_db \<Rightarrow> turn_db" where
  "finish_deferred now t a d =
     log_turn ''response_deferred'' (sent_details t a (''reason'', PStr ''awaiting_peers'')) t
       (mark_turn_terminal EndCompleted (Some ''awaiting_peers'') (Some now) (Some (nb_id a)) (Some ''ok'') None now (nu_request t)
          (upd_turn (nu_request t) (\<lambda>t. t\<lparr>rt_updated := now\<rparr>) d))"

section \<open>Posting the reply\<close>

definition thread_root_ok :: "string \<Rightarrow> string option \<Rightarrow> turn_db \<Rightarrow> bool" where
  "thread_root_ok room thread d \<longleftrightarrow>
     (case thread of
        None \<Rightarrow> True
      | Some x \<Rightarrow> (case tget ms_id x (td_messages d) of None \<Rightarrow> False | Some m \<Rightarrow> ms_room m = room \<and> ms_root m = None))"

definition next_seq :: "string \<Rightarrow> turn_db \<Rightarrow> int" where
  "next_seq room d = fold max (map ms_seq (filter (\<lambda>m. ms_room m = room) (td_messages d))) 0 + 1"

definition append_message ::
  "string \<Rightarrow> string \<Rightarrow> string option \<Rightarrow> string \<Rightarrow> (string \<times> pyval) list \<Rightarrow> string option \<Rightarrow> turn_db \<Rightarrow> turn_exc + turn_db" where
  "append_message mid room pid content meta thread d =
     (if \<not> thread_root_ok room thread d then Inl ThreadRootInvalid
      else Inr (d\<lparr>td_messages := td_messages d @ [\<lparr>ms_id = mid, ms_room = room, ms_participant = pid, ms_content = content,
             ms_meta = meta, ms_root = thread, ms_seq = next_seq room d\<rparr>]\<rparr>))"

text \<open>The final report of a completed execution closes its lead's turn without a second message.\<close>

definition final_report :: "run_turn \<Rightarrow> string \<Rightarrow> string \<Rightarrow> turn_db \<Rightarrow> string option" where
  "final_report t room gid d =
     (case nu_task t of
        None \<Rightarrow> None
      | Some [] \<Rightarrow> None
      | Some k \<Rightarrow>
          (case find (\<lambda>x. nx_root_task x = Some k \<and> nx_room x = room \<and> nx_lead x = gid \<and> nx_status x = XCompleted \<and> rx_report x \<noteq> None)
                  (td_execs d) of
             None \<Rightarrow> None
           | Some x \<Rightarrow> rx_report x))"

definition add_draft :: "string \<Rightarrow> string option \<Rightarrow> string option" where
  "add_draft text old =
     (if text = [] then old
      else case old of None \<Rightarrow> Some text | Some [] \<Rightarrow> Some text | Some o0 \<Rightarrow> Some (o0 @ [CHR 0x0A, CHR 0x0A] @ text))"

definition absorb_caller_reply :: "string \<Rightarrow> string \<Rightarrow> turn_db \<Rightarrow> turn_db option" where
  "absorb_caller_reply rid content d =
     (case find (\<lambda>g. pg_caller g = rid) (td_groups d) of
        None \<Rightarrow> None
      | Some g \<Rightarrow> Some (upd_group (pg_id g) (\<lambda>g. g\<lparr>pg_draft := add_draft (strip content) (pg_draft g)\<rparr>) d))"

record reply =
  ry_request :: "string option"
  ry_room :: string
  ry_participant :: string
  ry_agent :: string
  ry_proof :: turn_proof
  ry_outcome :: "string option"
  ry_content :: string
  ry_meta :: "(string \<times> pyval) list"
  ry_thread :: "string option"

text \<open>An accepted reply: the final report, a draft for the peers, or the message in the room.\<close>

definition accept_reply :: "instant \<Rightarrow> string \<Rightarrow> reply \<Rightarrow> run_turn \<Rightarrow> run_attempt \<Rightarrow> turn_db \<Rightarrow> turn_exc + turn_db" where
  "accept_reply now mid y t a d =
     (case final_report t (ry_room y) (ry_agent y) d of
        Some report \<Rightarrow> Inr (finish_deferred now t a (upd_turn (nu_request t) (\<lambda>t. t\<lparr>rt_accepted := Some report\<rparr>) d))
      | None \<Rightarrow>
          (case absorb_caller_reply (nu_request t) (ry_content y) d of
             Some d1 \<Rightarrow> Inr (finish_deferred now t a d1)
           | None \<Rightarrow>
               bindE (append_message mid (ry_room y) (Some (ry_participant y)) (ry_content y) (ry_meta y) (ry_thread y) d)
                 (\<lambda>d1. Inr (finish_completion now t a mid d1))))"

text \<open>The transaction of a reply: whatever it raises is rolled back to what others committed.\<close>

definition reply_turn :: "(turn_db \<Rightarrow> turn_db) \<Rightarrow> instant \<Rightarrow> string \<Rightarrow> reply \<Rightarrow> turn_db \<Rightarrow> turn_exc + completion_decision \<times> turn_db" where
  "reply_turn between now mid y d =
     (case begin_completion between now (ry_request y) (ry_room y) (ry_participant y) (ry_agent y) (ry_proof y) (ry_outcome y) d of
        (dec, d1) \<Rightarrow>
          let post = append_message mid (ry_room y) (Some (ry_participant y)) (ry_content y) (ry_meta y) (ry_thread y) d1;
              turn = opt_get nu_request (ry_request y) (td_turns d1) in
          case dec of
            DStale _ \<Rightarrow> Inr (dec, d1)
          | DIdempotent _ \<Rightarrow> Inr (dec, d1)
          | DLegacy \<Rightarrow> bindE post (\<lambda>d2. Inr (dec, d2))
          | DAccept aid \<Rightarrow>
              (case (turn, get_turn_attempt aid d1) of
                 (Some t, Some a) \<Rightarrow> bindE (accept_reply now mid y t a d1) (\<lambda>d2. Inr (dec, d2))
               | _ \<Rightarrow> Inr (dec, d1))
          | DFailure aid \<Rightarrow>
              (case (turn, get_turn_attempt aid d1) of
                 (Some t, Some a) \<Rightarrow> bindE post (\<lambda>d2. Inr (dec, finish_failure_notice t a mid d2))
               | _ \<Rightarrow> Inr (dec, d1)))"

section \<open>Lifecycle frames\<close>

record turn_frame = lifecycle_frame +
  tf_outcome :: "string option"

definition frame_proof :: "turn_frame \<Rightarrow> turn_proof" where
  "frame_proof fr = \<lparr>pf_attempt = fr_attempt fr, pf_generation = fr_generation fr, pf_lease = fr_lease fr\<rparr>"

definition NATIVE_FAILURE_CODES :: "string list" where
  "NATIVE_FAILURE_CODES = [''MODEL_CONFIGURATION_INVALID'', ''AUTHENTICATION_FAILED'', TRANSIENT_FAILURE, ''MODEL_EXECUTION_FAILED'']"

datatype failure_proof = NoProof | TransientProof | PermanentProof

definition general_failure_receipt :: "run_attempt \<Rightarrow> turn_frame \<Rightarrow> failure_proof" where
  "general_failure_receipt a fr =
     (if fr_event fr = ''handler_finished'' \<and> tf_outcome fr \<in> {Some ''failed'', Some ''timeout''}
         \<and> fr_local fr \<noteq> None \<and> fr_local fr = nb_local a \<and> fr_outcome fr = Some ''failed''
         \<and> (case fr_process fr of None \<Rightarrow> False | Some p \<Rightarrow> p \<in> set SAFE_PROCESS_STATES)
         \<and> (case fr_reason fr of None \<Rightarrow> False | Some r \<Rightarrow> r \<in> set NATIVE_FAILURE_CODES)
      then if fr_reason fr = Some TRANSIENT_FAILURE \<and> fr_transient fr = Some True then TransientProof else PermanentProof
      else NoProof)"

definition valid_pair :: "string \<Rightarrow> string \<Rightarrow> bool" where
  "valid_pair outcome ps \<longleftrightarrow>
     outcome = ''succeeded'' \<and> ps = ''finished''
     \<or> outcome = ''failed'' \<and> ps \<in> set SAFE_PROCESS_STATES
     \<or> outcome = ''cancelled'' \<and> ps \<in> {''stopped'', ''not_started''}
     \<or> outcome = ''unknown'' \<and> ps \<in> {''unknown'', ''stopped'', ''finished'', ''not_started''}"

definition receipt_details :: "string \<Rightarrow> string \<Rightarrow> string \<Rightarrow> turn_frame \<Rightarrow> (string \<times> pyval) list" where
  "receipt_details l ps outcome fr =
     [(''local_execution_id'', PStr l), (''process_state'', PStr ps), (''outcome'', PStr outcome), (''reason_code'', opt_str (fr_reason fr)),
      (''retryable'', PBool (outcome = ''failed'' \<and> ps \<in> set SAFE_PROCESS_STATES)),
      (''transient'', PBool (outcome = ''failed'' \<and> fr_transient fr = Some True \<and> fr_reason fr = Some TRANSIENT_FAILURE))]"

definition receipt_ok :: "run_attempt \<Rightarrow> turn_frame \<Rightarrow> string \<Rightarrow> string \<Rightarrow> string \<Rightarrow> bool" where
  "receipt_ok a fr l ps outcome \<longleftrightarrow>
     fr_event fr \<in> {''engine_call_finished'', ''handler_finished''} \<and> l \<noteq> [] \<and> nb_local a = Some l \<and> valid_pair outcome ps
     \<and> (case fr_reason fr of None \<Rightarrow> outcome \<notin> {''failed'', ''unknown''} | Some r \<Rightarrow> r \<in> set NATIVE_REASONS)"

type_synonym receipt = "(string \<times> pyval) list"

definition native_terminal_receipt ::
  "instant \<Rightarrow> run_turn \<Rightarrow> run_attempt \<Rightarrow> turn_frame \<Rightarrow> turn_db \<Rightarrow> (bool \<times> receipt option) \<times> turn_db" where
  "native_terminal_receipt now t a fr d =
     (if nu_execution t = None \<or> (fr_local fr = None \<and> fr_process fr = None \<and> fr_outcome fr = None) then ((True, None), d)
      else
        (case (fr_local fr, fr_process fr, fr_outcome fr) of
           (Some l, Some ps, Some oc) \<Rightarrow>
             if \<not> receipt_ok a fr l ps oc then ((False, None), d)
             else
               let det = receipt_details l ps oc fr; key = attempt_event_key t (nb_number a) ''native-terminal'' in
               (case event_of key d of
                  Some e \<Rightarrow> ((xe_details e = det, Some (xe_details e)), d)
                | None \<Rightarrow> ((True, Some det), d\<lparr>td_events := td_events d @ [new_event t key ''task_native_terminal'' det now]\<rparr>))
         | _ \<Rightarrow> ((False, None), d)))"

definition on_turn_recovery :: "run_turn \<Rightarrow> int \<Rightarrow> string \<Rightarrow> string option \<Rightarrow> turn_db \<Rightarrow> turn_db" where
  "on_turn_recovery t n phase reason d = d\<lparr>td_recoveries := td_recoveries d @ [(nu_request t, n, phase, reason)]\<rparr>"

definition receipt_str :: "receipt option \<Rightarrow> string \<Rightarrow> string option" where
  "receipt_str ro k = (case ro of None \<Rightarrow> None | Some r \<Rightarrow> (case dget r k of PStr (c # s) \<Rightarrow> Some (c # s) | _ \<Rightarrow> None))"

definition receipt_flag :: "receipt option \<Rightarrow> string \<Rightarrow> bool" where
  "receipt_flag ro k \<longleftrightarrow> (case ro of None \<Rightarrow> False | Some r \<Rightarrow> dget r k = PBool True)"

text \<open>
  The failed handler of an execution turn: a transient failure with budget left waits for the
  server's retry, everything else ends the turn.
\<close>

definition execution_failure ::
  "instant \<Rightarrow> run_turn \<Rightarrow> run_attempt \<Rightarrow> string \<Rightarrow> receipt option \<Rightarrow> turn_db \<Rightarrow> turn_exc + turn_db" where
  "execution_failure now t a outcome r0 d =
     (let r = (case r0 of Some _ \<Rightarrow> r0
               | None \<Rightarrow> map_option xe_details (event_of (attempt_event_key t (nb_number a) ''native-terminal'') d));
          code = the (or_else (receipt_str r ''reason_code'') ''PROCESS_OUTCOME_UNKNOWN'');
          transient = (receipt_flag r ''retryable'' \<and> receipt_flag r ''transient'');
          used = (if transient then transient_retries_used (nu_request t) (nb_number a) d else 0);
          retry_possible = (transient \<and> used < MAX_TRANSIENT_RETRIES);
          d1 = upd_turn_attempt (nb_id a) (\<lambda>a. a\<lparr>ra_outcome := Some outcome, ra_reason := Some code\<rparr>) d in
      bindE (if retry_possible then bindE (lift_exc (execution_admission t None d1)) (\<lambda>(ad, d2). Inr (Some ad, d2)) else Inr (None, d1))
        (\<lambda>(ado, d2).
           if (case ado of None \<Rightarrow> False | Some ad \<Rightarrow> ad_allowed ad) then
             Inr (on_turn_recovery t (nb_number a) ''waiting_retry'' (Some code)
                   (upd_turn_attempt (nb_id a) (\<lambda>a. a\<lparr>nb_expires := Some now\<rparr>) d2))
           else
             let reason = (case ado of None \<Rightarrow> Some code | Some ad \<Rightarrow> or_else (ad_reason ad) code) in
             Inr (on_turn_recovery t (nb_number a) (if transient \<and> \<not> retry_possible then ''exhausted'' else ''action_required'') reason
                   (mark_turn_terminal EndFailed reason (Some now) (Some (nb_id a)) (Some outcome) (Some code) now (nu_request t) d2))))"

text \<open>A general turn whose reply never came: end it on a proven permanent failure, else expire the lease.\<close>

definition lost_reply :: "instant \<Rightarrow> run_turn \<Rightarrow> run_attempt \<Rightarrow> turn_frame \<Rightarrow> turn_db \<Rightarrow> turn_db" where
  "lost_reply now t a fr d =
     (let proof = (if nu_execution t = None then general_failure_receipt a fr else NoProof);
          outcome = (case tf_outcome fr of None \<Rightarrow> ''None'' | Some oc \<Rightarrow> oc) in
      if proof = PermanentProof
      then mark_turn_terminal EndFailed (fr_reason fr) (Some now) (Some (nb_id a)) (tf_outcome fr) (fr_reason fr) now (nu_request t) d
      else
        upd_turn_attempt (nb_id a) (\<lambda>a. a\<lparr>ra_outcome := tf_outcome fr,
          ra_reason := Some (if proof = TransientProof then TRANSIENT_FAILURE else ''agent_'' @ outcome @ ''_without_completion''),
          nb_expires := Some now\<rparr>) d)"

definition handler_finished ::
  "instant \<Rightarrow> run_turn \<Rightarrow> run_attempt \<Rightarrow> turn_frame \<Rightarrow> receipt option \<Rightarrow> turn_db \<Rightarrow> turn_exc + turn_db" where
  "handler_finished now t a fr r d =
     (if nu_execution t \<noteq> None \<and> (case tf_outcome fr of None \<Rightarrow> False | Some oc \<Rightarrow> oc \<in> set FAILED_REPLIES)
         \<and> nu_state t \<in> {TnPending, TnLeased, TnRetrying}
      then execution_failure now t a (the (tf_outcome fr)) r d
      else if nu_state t = TnCompleted then
        Inr (upd_turn_attempt (nb_id a) (\<lambda>a. a\<lparr>nb_state := TaCompleted, ra_ended := Some now, ra_outcome := tf_outcome fr\<rparr>) d)
      else if tf_outcome fr = Some ''cancelled'' then
        Inr (mark_turn_terminal EndCancelled (Some ''agent_cancelled'') (Some now) (Some (nb_id a)) (Some ''cancelled'') None now (nu_request t) d)
      else if tf_outcome fr = Some ''skipped'' then
        Inr (if nb_state a \<in> set LEASED_STATES \<and> nu_state t \<in> {TnPending, TnLeased, TnRetrying}
             then mark_turn_terminal EndCompleted (Some ''agent_skipped'') (Some now) (Some (nb_id a)) (Some ''skipped'') None now (nu_request t) d
             else d)
      else if nb_state a \<in> set LEASED_STATES then Inr (lost_reply now t a fr d)
      else Inr d)"

definition handler_started :: "instant \<Rightarrow> run_turn \<Rightarrow> run_attempt \<Rightarrow> turn_db \<Rightarrow> turn_db" where
  "handler_started now t a d =
     (let d1 = (if nb_state a \<in> {TaPending, TaLeased}
                then upd_turn_attempt (nb_id a) (\<lambda>a. a\<lparr>nb_state := TaStarted, ra_started := Some now\<rparr>) d else d)
      in if nu_state t \<in> {TnPending, TnRetrying} then upd_turn (nu_request t) (\<lambda>t. t\<lparr>nu_state := TnLeased\<rparr>) d1 else d1)"

definition frame_valid :: "string \<Rightarrow> turn_frame \<Rightarrow> run_turn \<Rightarrow> run_attempt option \<Rightarrow> bool \<Rightarrow> bool \<Rightarrow> bool \<Rightarrow> bool" where
  "frame_valid gid fr t ao member wok xok \<longleftrightarrow>
     (case ao of
        None \<Rightarrow> False
      | Some a \<Rightarrow>
          member \<and> wok \<and> xok \<and> nu_state t \<notin> {TnCancelled, TnFailed} \<and> nu_agent t = Some gid \<and> nu_room t = fr_room fr
          \<and> (legacy_proof (frame_proof fr) \<and> rt_retries t = 0 \<and> nu_active t = 1 \<or> proves (frame_proof fr) a))"

text \<open>The audit rows and the effect of an authenticated frame of a leased attempt.\<close>

definition apply_frame ::
  "instant \<Rightarrow> turn_frame \<Rightarrow> run_turn \<Rightarrow> run_attempt \<Rightarrow> attachment_row option \<Rightarrow> receipt option \<Rightarrow> turn_db \<Rightarrow> turn_exc + turn_db" where
  "apply_frame now fr t a wo r d =
     (let d1 = (if legacy_proof (frame_proof fr) then upd_turn (nu_request t) (\<lambda>t. t\<lparr>rt_protocol := 0\<rparr>) d else d);
          d2 = (case wo of
                  Some w \<Rightarrow>
                    if fr_event fr \<in> {''handler_started'', ''handler_finished''}
                    then append_audit w (if fr_event fr = ''handler_started'' then ''invocation_started'' else ''invocation_finished'') t
                           (tf_outcome fr) [(''attempt'', PInt (nb_number a))] d1
                    else d1
                | None \<Rightarrow> d1) in
      if fr_event fr = ''handler_started'' then Inr (handler_started now t a d2)
      else if fr_event fr = ''handler_finished'' \<and> tf_outcome fr \<notin> {Some ''queued'', Some ''retrying''}
      then handler_finished now t a fr r d2
      else Inr d2)"

definition record_lifecycle ::
  "(turn_db \<Rightarrow> turn_db) \<Rightarrow> instant \<Rightarrow> string \<Rightarrow> turn_frame \<Rightarrow> turn_db \<Rightarrow> turn_exc + bool \<times> turn_db" where
  "record_lifecycle between now gid fr d =
     (case lock_scoped_turn between (fr_request fr) d of
        (None, True, d1) \<Rightarrow> Inr (False, d1)
      | (None, False, d1) \<Rightarrow> Inr (True, d1)
      | (Some t, _, d1) \<Rightarrow>
          let ao = active_attempt_of t d1; p = frame_proof fr;
              member = member_gate (nu_participant t) (nu_room t) (Some gid) d1;
              finished = (fr_event fr \<in> {''handler_finished'', ''engine_call_finished''}) in
          case (workspace_gate now t d1, execution_gate now t (if finished then map_option nb_id ao else None) d1) of
            ((wok, wreason, w), (xok, xreason, _)) \<Rightarrow>
              if \<not> frame_valid gid fr t ao member wok xok then
                (let reason = (case (wreason, xreason) of
                       (Some s, _) \<Rightarrow> s | (None, Some s) \<Rightarrow> s
                     | _ \<Rightarrow> if \<not> member then ''lifecycle_authorization_revoked'' else ''lifecycle_lease_mismatch'');
                     d2 = audit_stale t gid reason p d1
                 in Inr (False, if wok then d2
                                else audit_denied w ''lifecycle_denied'' t ''stale'' (or_else wreason ''workspace_authorization_revoked'') d2))
              else
                (let a = the ao in
                 case native_terminal_receipt now t a fr d1 of
                   ((ok, r), d2) \<Rightarrow>
                     if \<not> ok then Inr (False, audit_stale t gid ''native_terminal_receipt_mismatch'' p d2)
                     else if nb_state a = TaPending then Inr (False, audit_stale t gid ''lifecycle_before_lease'' p d2)
                     else bindE (apply_frame now fr t a w r d2) (\<lambda>d3. Inr (True, d3))))"

section \<open>Cancelling\<close>

abbreviation USER_CANCELLED :: string where "USER_CANCELLED \<equiv> ''user_cancelled''"

definition cancel_outbox :: "string \<Rightarrow> outbox_state set \<Rightarrow> string \<Rightarrow> turn_db \<Rightarrow> turn_db" where
  "cancel_outbox rid states err d =
     d\<lparr>td_outbox := map (\<lambda>r. if ro_turn r = rid \<and> ro_state r \<in> states then r\<lparr>ro_state := ObCancelled, ro_error := Some err\<rparr> else r)
         (td_outbox d)\<rparr>"

definition is_execution_bound :: "run_turn \<Rightarrow> turn_db \<Rightarrow> bool" where
  "is_execution_bound t d \<longleftrightarrow> nu_execution t \<noteq> None
     \<or> (case opt_get k_id (nu_task t) (td_tasks d) of None \<Rightarrow> False | Some k \<Rightarrow> k_execution k \<noteq> None)"

record cancel_result =
  cr_changed :: bool
  cr_stop :: "(string \<times> int \<times> int) option"

definition stop_target :: "run_turn \<Rightarrow> run_attempt option \<Rightarrow> (string \<times> int \<times> int) option" where
  "stop_target t ao =
     (case (ao, nu_participant t) of
        (Some a, Some (c # pid)) \<Rightarrow> if nb_state a \<noteq> TaPending then Some (c # pid, nb_number a, nb_generation a) else None
      | _ \<Rightarrow> None)"

definition cancel_general_turn ::
  "(turn_db \<Rightarrow> turn_db) \<Rightarrow> instant \<Rightarrow> string \<Rightarrow> string option \<Rightarrow> turn_db \<Rightarrow> turn_exc + cancel_result \<times> turn_db" where
  "cancel_general_turn between now rid actor d =
     (case lock_scoped_turn between rid d of
        (None, True, _) \<Rightarrow> Inl (TurnCancelError 409 ''TURN_BOUND_TO_EXECUTION'')
      | (None, False, _) \<Rightarrow> Inl (TurnCancelError 404 ''TURN_NOT_FOUND'')
      | (Some t, _, d1) \<Rightarrow>
          if is_execution_bound t d1 then Inl (TurnCancelError 409 ''TURN_BOUND_TO_EXECUTION'')
          else if nu_state t = TnCancelled then Inr (\<lparr>cr_changed = False, cr_stop = None\<rparr>, d1)
          else if nu_state t \<notin> set OPEN_TURN_STATES then Inl (TurnCancelError 409 ''TURN_ALREADY_TERMINAL'')
          else if nu_state t = TnCompleting then Inl (TurnCancelError 409 ''TURN_COMPLETING'')
          else
            let ao = (case active_attempt_of t d1 of
                        Some a \<Rightarrow> if nb_state a \<in> {TaPending, TaLeased, TaStarted} then Some a else None | None \<Rightarrow> None);
                d2 = mark_turn_terminal EndCancelled (Some USER_CANCELLED) (Some now) (map_option nb_id ao) (Some ''cancelled'')
                       (Some USER_CANCELLED) now rid d1;
                d3 = cancel_outbox rid {ObPending, ObDelivering} USER_CANCELLED d2
            in Inr (\<lparr>cr_changed = True, cr_stop = stop_target t ao\<rparr>,
                    log_turn ''turn_cancelled'' [(''reason'', PStr USER_CANCELLED), (''attempt'', PInt (nu_active t)),
                      (''actor_user_id'', opt_str actor)] t d3))"

text \<open>\<open>cancel_invalid_turns\<close>: one transaction over the open turns.\<close>

definition revoke_turn ::
  "instant \<Rightarrow> run_turn \<Rightarrow> run_attempt option \<Rightarrow> bool \<times> string option \<times> attachment_row option \<Rightarrow> string option \<Rightarrow> turn_db \<Rightarrow> turn_db" where
  "revoke_turn now t ao ws xreason d =
     (case ws of (wok, wreason, w) \<Rightarrow>
        let reason = (case (wreason, xreason) of (Some s, _) \<Rightarrow> s | (None, Some s) \<Rightarrow> s | _ \<Rightarrow> ''authorization_revoked'');
            keep = (case ao of None \<Rightarrow> None | Some a \<Rightarrow> if nb_state a \<in> {TaCompleted, TaCancelled} then None else Some (nb_id a));
            d1 = mark_turn_terminal EndCancelled (Some reason) (Some now) keep None (Some reason) now (nu_request t) d;
            d2 = log_turn ''turn_cancelled'' [(''reason'', PStr reason), (''attempt'', PInt (nu_active t))] t
                   (cancel_outbox (nu_request t) {ObPending} reason d1)
        in if wok then d2 else audit_denied w ''turn_cancelled'' t ''cancelled'' (Some reason) d2)"

definition cancel_invalid_one :: "(turn_db \<Rightarrow> turn_db) \<Rightarrow> instant \<Rightarrow> string \<Rightarrow> turn_db \<Rightarrow> turn_db \<times> nat" where
  "cancel_invalid_one between now rid d =
     (case lock_scoped_turn between rid d of
        (Some t, _, d1) \<Rightarrow>
          let ao = active_attempt_of t d1; member = member_gate (nu_participant t) (nu_room t) (nu_agent t) d1;
              ws = workspace_gate now t d1; xs = execution_gate now t (map_option nb_id ao) d1
          in if member \<and> fst ws \<and> fst xs then (d1, 0) else (revoke_turn now t ao ws (fst (snd xs)) d1, 1)
      | (None, _, d1) \<Rightarrow> (d1, 0))"

text \<open>By execution, the unbound turns after them, then by request.\<close>

definition sweep_before :: "run_turn \<Rightarrow> run_turn \<Rightarrow> bool" where
  "sweep_before t' t \<longleftrightarrow>
     (case (nu_execution t', nu_execution t) of
        (Some x', Some x) \<Rightarrow> str_lt x' x \<or> (x' = x \<and> str_lt (nu_request t') (nu_request t))
      | (Some _, None) \<Rightarrow> True
      | (None, Some _) \<Rightarrow> False
      | (None, None) \<Rightarrow> str_lt (nu_request t') (nu_request t))"

definition open_turns :: "turn_db \<Rightarrow> string list" where
  "open_turns d = map nu_request (sort_by sweep_before (filter (\<lambda>t. nu_state t \<in> set OPEN_TURN_STATES) (td_turns d)))"

fun cancel_each :: "(turn_db \<Rightarrow> turn_db) \<Rightarrow> instant \<Rightarrow> string list \<Rightarrow> turn_db \<Rightarrow> turn_db \<times> nat" where
  "cancel_each between now [] d = (d, 0)"
| "cancel_each between now (rid # rids) d =
     (case cancel_invalid_one between now rid d of
        (d1, n) \<Rightarrow> (case cancel_each between now rids d1 of (d2, k) \<Rightarrow> (d2, n + k)))"

definition cancel_invalid_turns :: "(turn_db \<Rightarrow> turn_db) \<Rightarrow> instant \<Rightarrow> turn_db \<Rightarrow> turn_db \<times> nat" where
  "cancel_invalid_turns between now d = cancel_each between now (open_turns d) d"

end
