(* ===== verification/PeerFanin.thy ===== *)
theory PeerFanin
  imports TurnFlow PeerCalls
begin

text \<open>
  The fan-in of \<open>ask_peer\<close> questions (orchestration/peer_fanin.py): opening a group for the caller's
  turn, posting a question with the peer's turn, and the worker's tick, which settles the targets
  that will not settle themselves and wakes the caller of a group that is done. How the end of a
  turn settles its target is \<open>on_turn_terminal\<close> of the turn tables.

  The display names of the room are a parameter; the dash and the ellipsis of the wake message are
  the characters 0x97 and 0x16.
\<close>

section \<open>Limits\<close>

definition env_seconds :: "string option \<Rightarrow> int \<Rightarrow> int" where
  "env_seconds raw dflt =
     max 1 (case raw of
              None \<Rightarrow> dflt
            | Some [] \<Rightarrow> dflt
            | Some s \<Rightarrow> (case int_of_str s of Inr n \<Rightarrow> n | Inl _ \<Rightarrow> dflt))"

text \<open>The two environment variables and the display names of the room's participants.\<close>

record fanin_env =
  fe_deadline :: "string option"
  fe_start :: "string option"
  fe_names :: "(string \<times> string) list"

definition deadline_seconds :: "fanin_env \<Rightarrow> int" where
  "deadline_seconds env = env_seconds (fe_deadline env) 86400"

definition start_timeout_seconds :: "fanin_env \<Rightarrow> int" where
  "start_timeout_seconds env = env_seconds (fe_start env) 900"

definition name_of :: "fanin_env \<Rightarrow> string \<Rightarrow> string" where
  "name_of env pid = (case map_of (fe_names env) pid of None \<Rightarrow> pid | Some n \<Rightarrow> n)"

section \<open>Groups and questions\<close>

definition group_for_caller :: "string \<Rightarrow> turn_db \<Rightarrow> peer_group option" where
  "group_for_caller rid d = find (\<lambda>g. pg_caller g = rid) (td_groups d)"

definition target_for_turn :: "string \<Rightarrow> turn_db \<Rightarrow> peer_target option" where
  "target_for_turn rid d = find (\<lambda>x. pt_request x = rid) (td_targets d)"

definition group_scope :: "run_turn \<Rightarrow> turn_db \<Rightarrow> string option" where
  "group_scope t d = (case opt_get ms_id (nu_trigger t) (td_messages d) of Some m \<Rightarrow> ms_root m | None \<Rightarrow> rt_thread t)"

definition new_group :: "fanin_env \<Rightarrow> instant \<Rightarrow> string \<Rightarrow> run_turn \<Rightarrow> string \<Rightarrow> string option \<Rightarrow> peer_group" where
  "new_group env now gid t pid scope =
     \<lparr>pg_id = gid, pg_room = nu_room t, pg_participant = pid, pg_agent = nu_agent t, pg_caller = nu_request t,
      pg_trigger = nu_trigger t, pg_scope = scope, pg_state = GrCollecting, pg_closed = None, pg_draft = None,
      pg_deadline = now + seconds (deadline_seconds env), pg_wake = None, pg_woken = None\<rparr>"

text \<open>
  \<open>between\<close> is what others commit before the insert; the loser of a race on the unique caller reads
  the winner's row.
\<close>

definition open_or_join_group ::
  "fanin_env \<Rightarrow> (turn_db \<Rightarrow> turn_db) \<Rightarrow> instant \<Rightarrow> string \<Rightarrow> run_turn \<Rightarrow> string \<Rightarrow> turn_db \<Rightarrow> peer_group \<times> turn_db" where
  "open_or_join_group env between now gid t pid d =
     (case group_for_caller (nu_request t) d of
        Some g \<Rightarrow> (g, d)
      | None \<Rightarrow>
          let d1 = between d in
          (case group_for_caller (nu_request t) d1 of
             Some g \<Rightarrow> (g, d1)
           | None \<Rightarrow> let g = new_group env now gid t pid (group_scope t d) in (g, d1\<lparr>td_groups := td_groups d1 @ [g]\<rparr>)))"

abbreviation RESULTS_SYSTEM_ORIGIN :: string where "RESULTS_SYSTEM_ORIGIN \<equiv> ''peer_ask_results''"

text \<open>Whether Python takes a value for true.\<close>

fun truth :: "pyval \<Rightarrow> bool" where
  "truth PNone = False"
| "truth (PBool b) = b"
| "truth (PInt n) = (n \<noteq> 0)"
| "truth (PFloat f) = (f \<noteq> Fin 0)"
| "truth (PStr s) = (s \<noteq> [])"
| "truth (PList xs) = (xs \<noteq> [])"
| "truth (PDict d) = (d \<noteq> [])"

text \<open>The message a hidden result message points back to.\<close>

definition origin_ref :: "message_row \<Rightarrow> py_exc + pyval" where
  "origin_ref m =
     (case dget (ms_meta m) RESULTS_SYSTEM_ORIGIN of
        PDict r \<Rightarrow> Inr (dget r ''origin_message_id'')
      | v \<Rightarrow> if truth v then Inl AttributeError else Inr PNone)"

definition message_ref :: "pyval \<Rightarrow> string option" where
  "message_ref v = (case v of PStr s \<Rightarrow> Some s | _ \<Rightarrow> None)"

function origin_from :: "turn_db \<Rightarrow> string list \<Rightarrow> string option \<Rightarrow> py_exc + message_row option" where
  "origin_from d seen mid =
     (case opt_get ms_id mid (td_messages d) of
        None \<Rightarrow> Inr None
      | Some m \<Rightarrow>
          if ms_id m \<in> set seen then Inr (Some m)
          else bindE (origin_ref m) (\<lambda>v.
                 if truth v then origin_from d (ms_id m # seen) (message_ref v) else Inr (Some m)))"
  by pat_completeness auto
termination
proof (relation "measure (\<lambda>(d, seen, mid). card (ms_id ` set (td_messages d) - set seen))", simp, goal_cases)
  case (1 d seen mid m v)
  then have "ms_id m \<in> ms_id ` set (td_messages d)" by (auto simp: opt_get_def dest: tget_Some_mem split: option.splits)
  then have "ms_id m \<in> ms_id ` set (td_messages d) - set seen" using 1 by simp
  moreover have "ms_id ` set (td_messages d) - set (ms_id m # seen) = ms_id ` set (td_messages d) - set seen - {ms_id m}" by auto
  ultimately show ?case by (simp only: in_measure prod.case) (metis card_Diff1_less finite_Diff finite_imageI finite_set)
qed

declare origin_from.simps [simp del]

definition origin_message :: "peer_group \<Rightarrow> turn_db \<Rightarrow> py_exc + message_row option" where
  "origin_message g d = origin_from d [] (pg_trigger g)"

text \<open>Where a question is posted: the thread of the message the exchange started from.\<close>

definition question_thread :: "peer_group \<Rightarrow> turn_db \<Rightarrow> py_exc + string option" where
  "question_thread g d =
     bindE (origin_message g d) (\<lambda>origin.
       Inr (case origin of None \<Rightarrow> pg_scope g | Some m \<Rightarrow> or_else (ms_root m) (ms_id m)))"

definition mention_of :: "string \<Rightarrow> pyval" where
  "mention_of pid = PDict [(''type'', PStr ''user''), (''id'', PStr pid)]"

definition question_meta :: "peer_group \<Rightarrow> string \<Rightarrow> pyval list \<Rightarrow> (string \<times> pyval) list" where
  "question_meta g pid refs =
     [(''mentions'', PList [mention_of pid]),
      (''peer_ask'', PDict [(''via'', PStr ''tool''), (''group_id'', PStr (pg_id g))]),
      (''peer_depth'', PInt 1), (''kind'', PStr ''peer_query'')]
     @ (if refs = [] then [] else [(''references'', PList refs)])"

definition new_target :: "instant \<Rightarrow> string \<Rightarrow> string \<Rightarrow> peer_group \<Rightarrow> string \<Rightarrow> string \<Rightarrow> string \<Rightarrow> peer_target" where
  "new_target now tid rid g pid question mid =
     \<lparr>pt_id = tid, pt_group = pg_id g, pt_participant = pid, pt_question = question, pt_message = Some mid, pt_request = rid,
      pt_state = TgPending, pt_reason = None, pt_reply = None, pt_forwarded = [], pt_finished = None, pt_created = now\<rparr>"

definition plain_request :: "string \<Rightarrow> string \<Rightarrow> string \<Rightarrow> string \<Rightarrow> string option \<Rightarrow> string option \<Rightarrow> string \<Rightarrow> turn_request" where
  "plain_request room pid gid trigger thread task rid =
     \<lparr>tq_room = room, tq_participant = pid, tq_agent = gid, tq_trigger = trigger, tq_thread = thread, tq_task = task,
      tq_request = Some rid, tq_key = None, tq_retries = 0, tq_max = 1\<rparr>"

text \<open>
  One question: its message, its target row and the turn of the peer, in this order, so a turn that is
  born cancelled settles the row. Only agents are asked; the turn has no task, so nothing commits
  between.
\<close>

definition post_question ::
  "instant \<Rightarrow> fresh_ids \<Rightarrow> string \<Rightarrow> peer_group \<Rightarrow> participant_row \<Rightarrow> string \<Rightarrow> pyval list \<Rightarrow> turn_db
     \<Rightarrow> turn_exc + turn_db" where
  "post_question now ids tid g target question refs d =
     bindE (lift_exc (question_thread g d)) (\<lambda>thread.
     bindE (append_message (fi_message ids) (pg_room g) (Some (pg_participant g)) (''<@user:'' @ p_id target @ ''> '' @ question)
              (question_meta g (p_id target) refs) thread d) (\<lambda>d1.
       let d2 = d1\<lparr>td_targets := td_targets d1 @ [new_target now tid (fi_request ids) g (p_id target) question (fi_message ids)]\<rparr> in
     bindE (create_turn (\<lambda>e. e) now ids
              (plain_request (pg_room g) (p_id target) (case p_agent target of None \<Rightarrow> [] | Some a \<Rightarrow> a) (fi_message ids) thread None
                 (fi_request ids)) d2) (\<lambda>(_, d3). Inr d3)))"

definition record_forwarded_request :: "string \<Rightarrow> string \<Rightarrow> string \<Rightarrow> turn_db \<Rightarrow> turn_db \<times> bool" where
  "record_forwarded_request rid pid question d =
     (case target_for_turn rid d of
        None \<Rightarrow> (d, False)
      | Some x \<Rightarrow> (upd_target (pt_id x) (\<lambda>x. x\<lparr>pt_forwarded := pt_forwarded x @ [(pid, question)]\<rparr>) d, True))"

section \<open>The tick: settling\<close>

definition TERMINAL_TURNS :: "turn_state list" where
  "TERMINAL_TURNS = [TnCompleted, TnCancelled, TnFailed]"

definition has_active_attempt :: "string \<Rightarrow> turn_db \<Rightarrow> bool" where
  "has_active_attempt rid d = list_ex (\<lambda>a. nb_turn a = rid \<and> nb_state a \<in> set LEASED_STATES) (td_attempts d)"

definition attempt_time :: "run_attempt \<Rightarrow> instant option" where
  "attempt_time a = (case ra_ended a of None \<Rightarrow> ra_leased a | Some e \<Rightarrow> Some e)"

text \<open>The latest time an attempt of the turn was leased or ended.\<close>

definition last_attempt_time :: "string \<Rightarrow> turn_db \<Rightarrow> instant option" where
  "last_attempt_time rid d =
     (case List.map_filter attempt_time (filter (\<lambda>a. nb_turn a = rid) (td_attempts d)) of
        [] \<Rightarrow> None
      | t # ts \<Rightarrow> Some (fold max ts t))"

definition settle :: "target_state \<Rightarrow> string option \<Rightarrow> instant \<Rightarrow> peer_target \<Rightarrow> peer_target" where
  "settle s reason now x = x\<lparr>pt_state := s, pt_reason := reason, pt_finished := Some now\<rparr>"

text \<open>A turn that never started within the limit, counted from the end of its last attempt.\<close>

definition unstarted :: "fanin_env \<Rightarrow> instant \<Rightarrow> run_turn \<Rightarrow> turn_db \<Rightarrow> bool" where
  "unstarted env now t d \<longleftrightarrow>
     (let cutoff = now - seconds (start_timeout_seconds env) in
      \<not> has_active_attempt (nu_request t) d \<and> nu_state t \<in> {TnPending, TnRetrying} \<and> rt_created t \<le> cutoff
      \<and> (case last_attempt_time (nu_request t) d of None \<Rightarrow> True | Some last_run \<Rightarrow> last_run \<le> cutoff))"

definition target_verdict :: "fanin_env \<Rightarrow> instant \<Rightarrow> peer_group \<Rightarrow> peer_target \<Rightarrow> turn_db \<Rightarrow> (peer_target \<Rightarrow> peer_target) option" where
  "target_verdict env now g x d =
     (case get_turn (pt_request x) d of
        None \<Rightarrow> Some (settle TgFailed (Some ''turn_missing'') now)
      | Some t \<Rightarrow>
          if nu_state t \<in> set TERMINAL_TURNS
          then Some (\<lambda>x. (settle (fst (target_outcome t)) (snd (target_outcome t)) now x)\<lparr>pt_reply := rt_accepted t\<rparr>)
          else if pg_deadline g \<le> now then Some (settle TgTimeout (Some ''deadline'') now)
          else if unstarted env now t d then Some (settle TgTimeout (Some ''peer_unavailable'') now)
          else None)"

definition verdict_of :: "fanin_env \<Rightarrow> instant \<Rightarrow> turn_db \<Rightarrow> peer_target \<Rightarrow> (peer_target \<Rightarrow> peer_target) option" where
  "verdict_of env now d x =
     (if settled_target (pt_state x) then None
      else case tget pg_id (pt_group x) (td_groups d) of
             None \<Rightarrow> None
           | Some g \<Rightarrow> if pg_state g = GrCollecting then target_verdict env now g x d else None)"

text \<open>The rows are read once; the groups that were touched or whose caller closed are checked again.\<close>

definition advance_collecting :: "fanin_env \<Rightarrow> instant \<Rightarrow> turn_db \<Rightarrow> turn_db" where
  "advance_collecting env now d =
     (let vs = filter (\<lambda>x. verdict_of env now d x \<noteq> None) (td_targets d);
          d1 = fold (\<lambda>x. upd_target (pt_id x) (the (verdict_of env now d x))) vs d;
          closed = filter (\<lambda>g. pg_state g = GrCollecting \<and> pg_closed g \<noteq> None) (td_groups d1)
      in fold mark_ready_if_done (remdups (map pt_group vs @ map pg_id closed)) d1)"

section \<open>The tick: waking\<close>

fun target_state_name :: "target_state \<Rightarrow> string" where
  "target_state_name TgPending = ''pending''"
| "target_state_name TgCompleted = ''completed''"
| "target_state_name TgFailed = ''failed''"
| "target_state_name TgCancelled = ''cancelled''"
| "target_state_name TgTimeout = ''timeout''"

record result_entry =
  en_name :: string
  en_state :: target_state
  en_reason :: "string option"
  en_question :: string
  en_answer :: "string option"
  en_forwarded :: "(string \<times> string) list"

definition reply_of :: "peer_target \<Rightarrow> turn_db \<Rightarrow> string option" where
  "reply_of x d =
     (if pt_reply x = None \<and> pt_state x = TgCompleted
      then (case get_turn (pt_request x) d of None \<Rightarrow> None | Some t \<Rightarrow> rt_accepted t)
      else pt_reply x)"

definition entry_of :: "fanin_env \<Rightarrow> turn_db \<Rightarrow> peer_target \<Rightarrow> result_entry" where
  "entry_of env d x =
     \<lparr>en_name = name_of env (pt_participant x), en_state = pt_state x, en_reason = pt_reason x, en_question = pt_question x,
      en_answer = map_option ms_content (opt_get ms_id (reply_of x d) (td_messages d)),
      en_forwarded = map (\<lambda>(pid, q). (name_of env pid, q)) (pt_forwarded x)\<rparr>"

definition reason_note :: "string option \<Rightarrow> string option" where
  "reason_note r =
     (if r = Some ''peer_unavailable''
      then Some ''This agent never started working on the question (it is probably not connected).''
      else if r = Some ''deadline'' then Some ''This agent was still working when the waiting limit ran out.''
      else if r = Some ''turn_missing'' then Some ''This agent's turn no longer exists.''
      else None)"

definition filled :: "string option \<Rightarrow> bool" where
  "filled s \<longleftrightarrow> s \<noteq> None \<and> s \<noteq> Some []"

definition entry_lines :: "nat \<Rightarrow> result_entry \<Rightarrow> string list" where
  "entry_lines i e =
     [[], int_str (int i) @ ''. '' @ en_name e @ '' '' @ [CHR 0x97] @ '' '' @ target_state_name (en_state e)
            @ (if filled (en_reason e) then '' ('' @ the (en_reason e) @ '')'' else [])]
     @ (if en_state e \<noteq> TgCompleted then (case reason_note (en_reason e) of None \<Rightarrow> [] | Some n \<Rightarrow> [n]) else [])
     @ [''Question: '' @ en_question e]
     @ (if filled (en_answer e) then [''Answer:'', the (en_answer e)]
        else if en_state e = TgCompleted then [''Answer: (no reply was posted)''] else [])
     @ map (\<lambda>(n, q). ''It asked you to ask '' @ n @ '': '' @ q @ '' (call ask_peer yourself if you still need this)'') (en_forwarded e)"

definition excerpt :: "string \<Rightarrow> string" where
  "excerpt s = (if length s \<le> 1000 then s else take 1000 s @ [CHR 0x16])"

definition render_results :: "string \<Rightarrow> string option \<Rightarrow> string option \<Rightarrow> result_entry list \<Rightarrow> string" where
  "render_results pid origin draft es =
     join_lines
       ([''<@user:'' @ pid @ ''> [ask_peer results] The peers you asked have ''
           @ ''finished. Write your final answer to the user now, in one message, ''
           @ ''using these results together with your own findings. Say which ''
           @ ''peer failed or timed out and why. Do not ask again for anything ''
           @ ''already answered here.'']
        @ (if filled origin then [[], ''Original request:'', excerpt (the origin)] else [])
        @ (if filled draft then [[], ''Your draft from before you asked (not posted):'', the draft] else [])
        @ concat (map (\<lambda>(i, e). entry_lines i e) (enumerate 1 es)))"

definition open_caller_task :: "peer_group \<Rightarrow> turn_db \<Rightarrow> string option" where
  "open_caller_task g d =
     (case get_turn (pg_caller g) d of
        None \<Rightarrow> None
      | Some t \<Rightarrow>
          (case opt_get k_id (nu_task t) (td_tasks d) of
             None \<Rightarrow> None
           | Some k \<Rightarrow> if k_status k \<in> {TaskDone, TaskFailed} then None else Some (k_id k)))"

definition wake_meta :: "peer_group \<Rightarrow> message_row option \<Rightarrow> (string \<times> pyval) list" where
  "wake_meta g origin =
     [(''mentions'', PList [mention_of (pg_participant g)]), (''system_origin'', PStr RESULTS_SYSTEM_ORIGIN),
      (RESULTS_SYSTEM_ORIGIN,
       PDict [(''group_id'', PStr (pg_id g)), (''origin_message_id'', opt_str (map_option ms_id origin))])]"

definition wake_agent :: "peer_group \<Rightarrow> participant_row \<Rightarrow> string option" where
  "wake_agent g p = (if filled (pg_agent g) then pg_agent g else p_agent p)"

text \<open>The result message and the caller's next turn; \<open>rid\<close> of a repeated intent is the old turn's.\<close>

definition wake_group ::
  "fanin_env \<Rightarrow> (turn_db \<Rightarrow> turn_db) \<Rightarrow> instant \<Rightarrow> fresh_ids \<Rightarrow> peer_group \<Rightarrow> turn_db \<Rightarrow> turn_exc + turn_db" where
  "wake_group env between now ids g d =
     (case tget p_id (pg_participant g) (td_participants d) of
        None \<Rightarrow> Inr (upd_group (pg_id g) (\<lambda>g. g\<lparr>pg_state := GrAbandoned\<rparr>) d)
      | Some p \<Rightarrow>
          (case wake_agent g p of
             None \<Rightarrow> Inr (upd_group (pg_id g) (\<lambda>g. g\<lparr>pg_state := GrAbandoned\<rparr>) d)
           | Some agent \<Rightarrow>
               bindE (lift_exc (origin_message g d)) (\<lambda>origin.
               bindE (append_message (fi_message ids) (pg_room g) None
                        (render_results (p_id p) (map_option ms_content origin) (pg_draft g)
                           (map (entry_of env d) (targets_of (pg_id g) d)))
                        (wake_meta g origin) (pg_scope g) d) (\<lambda>d1.
               bindE (create_turn between now ids
                        (plain_request (pg_room g) (p_id p) agent (fi_message ids) (pg_scope g) (open_caller_task g d1) (fi_request ids)) d1)
                 (\<lambda>(rid, d2).
                    Inr (upd_group (pg_id g)
                           (\<lambda>g. g\<lparr>pg_wake := Some (fi_request ids), pg_woken := Some now,
                                  pg_state := (if map_option nu_state (get_turn rid d2) = Some TnPending then GrWoken else GrAbandoned)\<rparr>)
                           d2))))))"

text \<open>The claim of a ready group and its waking are one transaction.\<close>

definition wake_one ::
  "fanin_env \<Rightarrow> (turn_db \<Rightarrow> turn_db) \<Rightarrow> instant \<Rightarrow> fresh_ids \<Rightarrow> string \<Rightarrow> turn_db \<Rightarrow> turn_exc + turn_db \<times> nat" where
  "wake_one env between now ids gid d =
     (case tget pg_id gid (td_groups d) of
        None \<Rightarrow> Inr (d, 0)
      | Some g \<Rightarrow>
          if pg_state g \<noteq> GrReady then Inr (d, 0)
          else
            let claim = (\<lambda>g. g\<lparr>pg_state := GrWaking\<rparr>) in
            bindE (wake_group env between now ids (claim g) (upd_group gid claim d)) (\<lambda>d1.
              Inr (d1, if map_option pg_state (tget pg_id gid (td_groups d1)) = Some GrWoken then 1 else 0)))"

text \<open>\<open>others\<close> is what other transactions commit before each group; a failed waking is rolled back and logged.\<close>

fun wake_each ::
  "(string \<Rightarrow> turn_db \<Rightarrow> turn_exc + turn_db \<times> nat) \<Rightarrow> (string \<Rightarrow> turn_db \<Rightarrow> turn_db) \<Rightarrow> string list \<Rightarrow> turn_db \<Rightarrow> turn_db \<times> nat" where
  "wake_each one others [] d = (d, 0)"
| "wake_each one others (gid # gids) d =
     (case one gid (others gid d) of
        Inl _ \<Rightarrow> wake_each one others gids (others gid d)
      | Inr (d1, n) \<Rightarrow> (case wake_each one others gids d1 of (d2, k) \<Rightarrow> (d2, n + k)))"

definition ready_groups :: "turn_db \<Rightarrow> string list" where
  "ready_groups d = map pg_id (filter (\<lambda>g. pg_state g = GrReady) (td_groups d))"

definition dispatch_peer_ask_groups ::
  "fanin_env \<Rightarrow> (turn_db \<Rightarrow> turn_db) \<Rightarrow> (string \<Rightarrow> turn_db \<Rightarrow> turn_db) \<Rightarrow> instant \<Rightarrow> (string \<Rightarrow> instant) \<Rightarrow> (string \<Rightarrow> fresh_ids) \<Rightarrow> turn_db
     \<Rightarrow> turn_db \<times> nat" where
  "dispatch_peer_ask_groups env between others now wake_at ids d =
     (let d1 = advance_collecting env now d
      in wake_each (\<lambda>gid. wake_one env between (wake_at gid) (ids gid) gid) others (ready_groups d1) d1)"

end
