(* ===== verification/AskPeer.thy ===== *)
theory AskPeer
  imports PeerFanin
begin

text \<open>
  Asking peers during a turn: the caller and its hop (orchestration/peer_ask.py) and the tool
  \<open>ask_peer\<close> (mcp/tools.py), which posts the accepted questions or hands a peer's own request back.
  The wording of the tool's results is outside; their data is a value of \<open>ask_answer\<close>.
\<close>

section \<open>The caller\<close>

text \<open>\<open>str(v)\<close> of an id in the mentions; other kinds of values are never an id.\<close>

fun id_text :: "pyval \<Rightarrow> string option" where
  "id_text (PStr s) = Some s"
| "id_text (PInt n) = Some (int_str n)"
| "id_text (PBool b) = Some (if b then ''True'' else ''False'')"
| "id_text PNone = Some ''None''"
| "id_text _ = None"

fun called_id :: "pyval \<Rightarrow> string option" where
  "called_id (PDict m) = (if dget m ''type'' = PStr ''user'' then id_text (dget m ''id'') else None)"
| "called_id _ = None"

text \<open>Iterating a string or a dict yields no mention; a number cannot be iterated.\<close>

definition called_ids :: "(string \<times> pyval) list \<Rightarrow> py_exc + string list" where
  "called_ids meta =
     (case dget meta ''mentions'' of
        PList ms \<Rightarrow> Inr (List.map_filter called_id ms)
      | PStr _ \<Rightarrow> Inr []
      | PDict _ \<Rightarrow> Inr []
      | v \<Rightarrow> if truth v then Inl TypeError else Inr [])"

definition turn_hop :: "run_turn option \<Rightarrow> turn_db \<Rightarrow> py_exc + int" where
  "turn_hop to d =
     (case to of
        None \<Rightarrow> Inr 1
      | Some t \<Rightarrow>
          (case opt_get ms_id (nu_trigger t) (td_messages d) of
             None \<Rightarrow> Inr 1
           | Some m \<Rightarrow>
               (case opt_get p_id (ms_participant m) (td_participants d) of
                  None \<Rightarrow> Inr 1
                | Some p \<Rightarrow>
                    if p_agent p = None then Inr 1
                    else bindE (called_ids (ms_meta m)) (\<lambda>ids.
                           Inr (if \<exists>k\<in>set ids. nu_participant t = Some k then 2 else 1)))))"

definition sender_hop :: "string option \<Rightarrow> string \<Rightarrow> turn_db \<Rightarrow> py_exc + int" where
  "sender_hop rid pid d =
     (case opt_get nu_request rid (td_turns d) of
        None \<Rightarrow> Inr 1
      | Some t \<Rightarrow> if nu_participant t \<noteq> Some pid then Inr 1 else turn_hop (Some t) d)"

definition attempt_state_of :: "run_turn \<Rightarrow> turn_db \<Rightarrow> turn_attempt_state option" where
  "attempt_state_of t d =
     map_option nb_state (find (\<lambda>a. nb_turn a = nu_request t \<and> nb_number a = nu_active t) (td_attempts d))"

text \<open>The caller's open turns, the newest first; the one that is executing is preferred.\<close>

definition open_turns_of :: "string \<Rightarrow> string \<Rightarrow> string \<Rightarrow> turn_db \<Rightarrow> run_turn list" where
  "open_turns_of room gid pid d =
     sort_key (\<lambda>t. - rt_created t)
       (filter (\<lambda>t. nu_room t = room \<and> nu_agent t = Some gid \<and> nu_participant t = Some pid \<and> nu_state t \<in> set OPEN_TURN_STATES)
          (td_turns d))"

definition open_turn :: "string \<Rightarrow> string \<Rightarrow> string \<Rightarrow> turn_db \<Rightarrow> run_turn option" where
  "open_turn room gid pid d =
     (let ts = open_turns_of room gid pid d in
      case find (\<lambda>t. attempt_state_of t d \<in> {Some TaLeased, Some TaStarted}) ts of
        Some t \<Rightarrow> Some t
      | None \<Rightarrow> (case ts of [] \<Rightarrow> None | t # _ \<Rightarrow> Some t))"

record ask_caller =
  ac_participant :: participant_row
  ac_turn :: "run_turn option"
  ac_hop :: int

definition resolve_caller :: "string \<Rightarrow> string \<Rightarrow> turn_db \<Rightarrow> py_exc + ask_caller option" where
  "resolve_caller gid room d =
     (case find (\<lambda>p. p_room p = room \<and> p_agent p = Some gid) (td_participants d) of
        None \<Rightarrow> Inr None
      | Some p \<Rightarrow>
          let to = open_turn room gid (p_id p) d in
          bindE (turn_hop to d) (\<lambda>hop. Inr (Some \<lparr>ac_participant = p, ac_turn = to, ac_hop = hop\<rparr>)))"

datatype peer_decision = PeerAccepted participant_row | PeerRejected string | PeerInvalid string

abbreviation ALREADY_ANSWERING :: string where "ALREADY_ANSWERING \<equiv> ''already_answering''"
abbreviation LIMIT_REACHED :: string where "LIMIT_REACHED \<equiv> ''limit_reached''"

definition answering :: "string \<Rightarrow> string \<Rightarrow> turn_db \<Rightarrow> bool" where
  "answering room pid d =
     list_ex (\<lambda>t. nu_room t = room \<and> nu_participant t = Some pid \<and> nu_state t \<in> set OPEN_TURN_STATES) (td_turns d)"

definition check_peer_ask :: "ask_caller \<Rightarrow> string \<Rightarrow> turn_db \<Rightarrow> peer_decision" where
  "check_peer_ask c pid d =
     (let room = p_room (ac_participant c) in
      case tget p_id pid (td_participants d) of
        None \<Rightarrow> PeerInvalid (pid @ '' is not a participant of this room.'')
      | Some p \<Rightarrow>
          if p_room p \<noteq> room then PeerInvalid (pid @ '' is not a participant of this room.'')
          else if p_id p = p_id (ac_participant c) then PeerInvalid ''You cannot ask yourself.''
          else if p_agent p = None
          then PeerInvalid (''ask_peer only calls agents. Address people by name in '' @ ''your reply; everyone in the room sees it.'')
          else if answering room pid d then PeerRejected ALREADY_ANSWERING
          else PeerAccepted p)"

text \<open>The last ten messages of the conversation since the turn's trigger.\<close>

definition since_excerpt :: "string \<Rightarrow> string" where
  "since_excerpt s = (if 400 < length s then take 400 s @ [CHR 0x16] else s)"

definition since_turn_start :: "fanin_env \<Rightarrow> run_turn option \<Rightarrow> turn_db \<Rightarrow> (int \<times> string \<times> string) list" where
  "since_turn_start env to d =
     (case to of
        None \<Rightarrow> []
      | Some t \<Rightarrow>
          (case opt_get ms_id (nu_trigger t) (td_messages d) of
             None \<Rightarrow> []
           | Some m0 \<Rightarrow>
               let ms = sort_key ms_seq (filter (\<lambda>m. ms_room m = nu_room t \<and> ms_seq m0 < ms_seq m \<and> ms_root m = rt_thread t) (td_messages d))
               in map (\<lambda>m. (ms_seq m,
                            case map_of (fe_names env) (case ms_participant m of None \<Rightarrow> [] | Some p \<Rightarrow> p) of
                              None \<Rightarrow> ''unknown'' | Some n \<Rightarrow> n,
                            since_excerpt (ms_content m)))
                    (drop (length ms - 10) ms)))"

section \<open>Attachments\<close>

record artifact_row =
  ar_id :: string
  ar_room :: string
  ar_name :: string
  ar_mime :: string
  ar_size :: int
  ar_sha :: string
  ar_agent :: "string option"
  ar_created :: instant

definition artifact_reference :: "artifact_row \<Rightarrow> pyval" where
  "artifact_reference r =
     PDict [(''type'', PStr ''artifact''), (''id'', PStr (ar_id r)), (''room_id'', PStr (ar_room r)), (''name'', PStr (ar_name r)),
       (''mime'', PStr (ar_mime r)), (''size_bytes'', PInt (ar_size r)), (''sha256'', PStr (ar_sha r))]"

definition newest_artifacts :: "artifact_row list \<Rightarrow> artifact_row list" where
  "newest_artifacts rs =
     sort_by (\<lambda>a b. ar_created b < ar_created a \<or> (ar_created a = ar_created b \<and> str_lt (ar_id b) (ar_id a))) rs"

text \<open>The newest file of a name, the caller's own before anyone's.\<close>

definition better_file :: "string \<Rightarrow> artifact_row \<Rightarrow> (string \<times> artifact_row) list \<Rightarrow> (string \<times> artifact_row) list" where
  "better_file gid r best =
     (case map_of best (ar_name r) of
        None \<Rightarrow> best @ [(ar_name r, r)]
      | Some c \<Rightarrow>
          if ar_agent r = Some gid \<and> ar_agent c \<noteq> Some gid then kput (ar_name r) r best else best)"

definition resolve_attachments :: "artifact_row list \<Rightarrow> string \<Rightarrow> string \<Rightarrow> string list \<Rightarrow> pyval list \<times> string list" where
  "resolve_attachments files room gid names =
     (let rows = newest_artifacts (filter (\<lambda>r. ar_room r = room \<and> ar_name r \<in> set names) files);
          best = fold (better_file gid) rows []
      in (List.map_filter (\<lambda>n. map_option artifact_reference (map_of best n)) names, filter (\<lambda>n. map_of best n = None) names))"

fun dedupe :: "'a list \<Rightarrow> 'a list" where
  "dedupe [] = []"
| "dedupe (x # xs) = x # filter (\<lambda>y. y \<noteq> x) (dedupe xs)"

definition known_attachment_names :: "artifact_row list \<Rightarrow> string \<Rightarrow> string \<Rightarrow> string list" where
  "known_attachment_names files room gid =
     take 10 (dedupe (take 30 (map ar_name (newest_artifacts (filter (\<lambda>r. ar_room r = room \<and> ar_agent r = Some gid) files)))))"

section \<open>The arguments of the tool\<close>

abbreviation MAX_QUESTION_CHARS :: nat where "MAX_QUESTION_CHARS \<equiv> 2000"
abbreviation MAX_ASKS_PER_CALL :: nat where "MAX_ASKS_PER_CALL \<equiv> 8"
abbreviation MAX_ATTACHMENTS :: nat where "MAX_ATTACHMENTS \<equiv> 5"

type_synonym ask_files = "(string \<times> string list) list"

record ask =
  ak_pid :: string
  ak_question :: string

fun stripped_name :: "pyval \<Rightarrow> string option" where
  "stripped_name (PStr s) = (if strip s = [] then None else Some (strip s))"
| "stripped_name _ = None"

definition file_names :: "pyval \<Rightarrow> string + string list" where
  "file_names v =
     (if \<not> truth v then Inr []
      else case v of
             PList ns \<Rightarrow>
               if list_all (\<lambda>n. stripped_name n \<noteq> None) ns
               then (let names = dedupe (List.map_filter stripped_name ns)
                     in if MAX_ATTACHMENTS < length names then Inl (''at most 5 attachments per question'') else Inr names)
               else Inl ''attachments must be a list of file names''
           | _ \<Rightarrow> Inl ''attachments must be a list of file names'')"

definition ask_item :: "pyval \<Rightarrow> string + ask \<times> string list" where
  "ask_item v =
     (let m = (case v of PDict m \<Rightarrow> m | _ \<Rightarrow> []) in
      case dget m ''participant_id'' of
        PStr pid \<Rightarrow>
          if pid = [] then Inl ''each ask needs a participant_id''
          else
            (case dget m ''question'' of
               PStr q \<Rightarrow>
                 if strip q = [] then Inl ''each ask needs a question''
                 else if MAX_QUESTION_CHARS < length (strip q) then Inl ''question is longer than 2000 characters''
                 else bindE (file_names (dget m ''attachments'')) (\<lambda>fs.
                        Inr (\<lparr>ak_pid = pid, ak_question = strip q\<rparr>, fs))
             | _ \<Rightarrow> Inl ''each ask needs a question'')
      | _ \<Rightarrow> Inl ''each ask needs a participant_id'')"

text \<open>A repeated target keeps its last question.\<close>

fun ask_items :: "pyval list \<Rightarrow> ask list \<Rightarrow> ask_files \<Rightarrow> string + ask list \<times> ask_files" where
  "ask_items [] asks files = Inr (asks, files)"
| "ask_items (v # vs) asks files =
     bindE (ask_item v) (\<lambda>(a, fs). ask_items vs (filter (\<lambda>b. ak_pid b \<noteq> ak_pid a) asks @ [a]) (kput (ak_pid a) fs files))"

definition raw_asks :: "(string \<times> pyval) list \<Rightarrow> pyval" where
  "raw_asks args =
     (if dget args ''asks'' = PNone \<and> map_of args ''participant_id'' \<noteq> None
      then PList [PDict [(''participant_id'', dget args ''participant_id''), (''question'', dget args ''question'')]]
      else dget args ''asks'')"

definition parse_asks :: "(string \<times> pyval) list \<Rightarrow> string + string \<times> ask list \<times> ask_files" where
  "parse_asks args =
     (case dget args ''room_id'' of
        PStr room \<Rightarrow>
          if room = [] then Inl ''room_id is required''
          else
            (case raw_asks args of
               PList vs \<Rightarrow>
                 if vs = [] then Inl ''asks is required''
                 else if MAX_ASKS_PER_CALL < length vs then Inl ''at most 8 asks per call''
                 else bindE (ask_items vs [] []) (\<lambda>p. Inr (room, p))
             | _ \<Rightarrow> Inl ''asks is required'')
      | _ \<Rightarrow> Inl ''room_id is required'')"

section \<open>The tool\<close>

text \<open>What the tool answers: an error, a request handed back, a refusal, or the questions sent.\<close>

datatype ask_answer =
    AskError string
  | AskForwarded "string list"
  | AskRejected "(string \<times> peer_decision) list" "(int \<times> string \<times> string) list"
  | AskSent "(string \<times> peer_decision) list"

text \<open>The decision on each target in order; an accepted one takes a slot of the hand-off budget.\<close>

fun decide_asks ::
  "ask_caller \<Rightarrow> string \<Rightarrow> turn_db \<Rightarrow> ask list \<Rightarrow> handoff_budget option \<Rightarrow> (string \<times> peer_decision) list \<times> (participant_row \<times> ask) list \<times> handoff_budget option" where
  "decide_asks c room d [] bo = ([], [], bo)"
| "decide_asks c room d (a # asks) bo =
     (let (dec, bo1) =
        (case check_peer_ask c (ak_pid a) d of
           PeerAccepted p \<Rightarrow>
             (case bo of
                None \<Rightarrow> (PeerAccepted p, None)
              | Some b \<Rightarrow> (case consume room 1 b of (b1, ok) \<Rightarrow> (if ok then PeerAccepted p else PeerRejected LIMIT_REACHED, Some b1)))
         | r \<Rightarrow> (r, bo))
      in case decide_asks c room d asks bo1 of
           (res, acc, bo2) \<Rightarrow>
             ((ak_pid a, dec) # res, (case dec of PeerAccepted p \<Rightarrow> (p, a) # acc | _ \<Rightarrow> acc), bo2))"

fun post_asks ::
  "instant \<Rightarrow> (string \<Rightarrow> fresh_ids) \<Rightarrow> (string \<Rightarrow> string) \<Rightarrow> (string \<Rightarrow> pyval list) \<Rightarrow> peer_group
     \<Rightarrow> (participant_row \<times> ask) list \<Rightarrow> turn_db \<Rightarrow> turn_exc + turn_db" where
  "post_asks now ids tid refs g [] d = Inr d"
| "post_asks now ids tid refs g ((p, a) # acc) d =
     bindE (post_question now (ids (p_id p)) (tid (p_id p)) g p (ak_question a) (refs (p_id p)) d)
       (post_asks now ids tid refs g acc)"

text \<open>A peer's own request goes back to the agent that asked it.\<close>

fun forward_asks :: "string \<Rightarrow> ask list \<Rightarrow> turn_db \<Rightarrow> string list \<times> turn_db" where
  "forward_asks rid [] d = ([], d)"
| "forward_asks rid (a # asks) d =
     (case record_forwarded_request rid (ak_pid a) (ak_question a) d of
        (d1, ok) \<Rightarrow> (case forward_asks rid asks d1 of (fs, d2) \<Rightarrow> (if ok then ak_pid a # fs else fs, d2)))"

definition forward_all :: "fanin_env \<Rightarrow> run_turn \<Rightarrow> ask list \<Rightarrow> turn_db \<Rightarrow> ask_answer \<times> turn_db" where
  "forward_all env t asks d =
     (case forward_asks (nu_request t) asks d of
        (fs, d1) \<Rightarrow>
          if fs \<noteq> [] then (AskForwarded fs, d1)
          else (AskRejected (map (\<lambda>a. (ak_pid a, PeerRejected LIMIT_REACHED)) asks) (since_turn_start env (Some t) d1), d1))"

record ask_ids =
  ai_group :: string
  ai_turns :: "string \<Rightarrow> fresh_ids"
  ai_target :: "string \<Rightarrow> string"

definition send_asks ::
  "fanin_env \<Rightarrow> (turn_db \<Rightarrow> turn_db) \<Rightarrow> instant \<Rightarrow> ask_ids \<Rightarrow> (string \<Rightarrow> pyval list) \<Rightarrow> string \<Rightarrow> ask_caller \<Rightarrow> run_turn \<Rightarrow> ask list
     \<Rightarrow> handoff_budget option \<Rightarrow> turn_db \<Rightarrow> (turn_exc + ask_answer \<times> turn_db) \<times> handoff_budget option" where
  "send_asks env between now ids refs room c t asks bo d =
     (case decide_asks c room d asks bo of
        (res, acc, bo1) \<Rightarrow>
          (case (asks, res) of
             ([_], [(_, PeerInvalid detail)]) \<Rightarrow> (Inr (AskError (if detail = [] then ''invalid peer'' else detail), d), bo1)
           | _ \<Rightarrow>
               if acc = [] then (Inr (AskRejected res (since_turn_start env (Some t) d), d), bo1)
               else
                 (case open_or_join_group env between now (ai_group ids) t (p_id (ac_participant c)) d of
                    (g, d1) \<Rightarrow>
                      (case post_asks now (ai_turns ids) (ai_target ids) refs g acc d1 of
                         Inl e \<Rightarrow> (Inl e, bo1)
                       | Inr d2 \<Rightarrow>
                           (Inr (AskSent res, d2), map_option (mark_peer_called room (map (\<lambda>(p, a). p_id p) acc)) bo1)))))"

definition missing_files :: "artifact_row list \<Rightarrow> string \<Rightarrow> string \<Rightarrow> ask_files \<Rightarrow> string list" where
  "missing_files files room gid wanted = dedupe (concat (map (\<lambda>(pid, ns). snd (resolve_attachments files room gid ns)) wanted))"

definition references_for :: "artifact_row list \<Rightarrow> string \<Rightarrow> string \<Rightarrow> ask_files \<Rightarrow> string \<Rightarrow> pyval list" where
  "references_for files room gid wanted pid =
     (case map_of wanted pid of None \<Rightarrow> [] | Some ns \<Rightarrow> fst (resolve_attachments files room gid ns))"

fun commas :: "string list \<Rightarrow> string" where
  "commas [] = []"
| "commas [s] = s"
| "commas (s # ss) = s @ '', '' @ commas ss"

definition missing_text :: "string list \<Rightarrow> string list \<Rightarrow> string" where
  "missing_text missing known =
     ''Nothing was sent. Not a file in this room: '' @ commas missing @ ''. ''
     @ (if known \<noteq> [] then ''Your files here: '' @ commas known @ ''. '' else ''You have no files in this room yet. '')
     @ ''A file you wrote in this turn reaches the room only when your ''
     @ ''turn ends; put what the peer needs into the question instead, or '' @ ''ask without it.''"

text \<open>\<open>ask_peer\<close> with the budget of the process, which a rollback does not restore.\<close>

definition ask_peer ::
  "fanin_env \<Rightarrow> (turn_db \<Rightarrow> turn_db) \<Rightarrow> instant \<Rightarrow> ask_ids \<Rightarrow> artifact_row list \<Rightarrow> string \<Rightarrow> (string \<times> pyval) list
     \<Rightarrow> handoff_budget option \<Rightarrow> turn_db \<Rightarrow> (turn_exc + ask_answer \<times> turn_db) \<times> handoff_budget option" where
  "ask_peer env between now ids files gid args bo d =
     (case parse_asks args of
        Inl e \<Rightarrow> (Inr (AskError e, d), bo)
      | Inr (room, asks, wanted) \<Rightarrow>
          (case resolve_caller gid room d of
             Inl e \<Rightarrow> (Inl (TurnRaised e), bo)
           | Inr None \<Rightarrow> (Inr (AskError ''You are not a participant of this room.'', d), bo)
           | Inr (Some c) \<Rightarrow>
               (case ac_turn c of
                  None \<Rightarrow> (Inr (AskError ''ask_peer can only be used while you are answering a message.'', d), bo)
                | Some t \<Rightarrow>
                    let missing = missing_files files room gid wanted in
                    if missing \<noteq> [] then (Inr (AskError (missing_text missing (known_attachment_names files room gid)), d), bo)
                    else if MAX_PEER_DEPTH < ac_hop c then (Inr (forward_all env t asks d), bo)
                    else send_asks env between now ids (references_for files room gid wanted) room c t asks bo d)))"

end
