(* ===== verification/TurnRecovery.thy ===== *)
theory TurnRecovery
  imports TurnFlow
begin

text \<open>
  Recovering stalled turns (\<open>recover_stalled_turns\<close> of turns/service.py) and the user's retry of a
  failed task of an execution (\<open>retry_task\<close> of project_executions/recovery.py). A lease that ran
  out, a crashed agent or a missed restart deadline fences the attempt; the turn is redispatched
  within its budgets, or closed.
\<close>

section \<open>Which attempts are stalled\<close>

definition lease_over :: "instant \<Rightarrow> run_attempt \<Rightarrow> bool" where
  "lease_over now a \<longleftrightarrow> (case nb_expires a of None \<Rightarrow> False | Some e \<Rightarrow> e \<le> now)"

definition deadline_over :: "instant \<Rightarrow> run_agent \<Rightarrow> run_attempt \<Rightarrow> bool" where
  "deadline_over now g a \<longleftrightarrow> (case rg_deadline g of None \<Rightarrow> False | Some e \<Rightarrow> e \<le> now) \<and> nb_generation a = ng_generation g"

definition stalled :: "instant \<Rightarrow> turn_db \<Rightarrow> run_attempt \<Rightarrow> bool" where
  "stalled now d a \<longleftrightarrow>
     (case opt_get ng_id (nb_agent a) (td_agents d) of
        None \<Rightarrow> False
      | Some g \<Rightarrow> nb_state a \<in> set LEASED_STATES \<and> (lease_over now a \<or> rg_crashed g \<or> deadline_over now g a))"

definition stalled_attempts :: "instant \<Rightarrow> string list option \<Rightarrow> turn_db \<Rightarrow> string list" where
  "stalled_attempts now scope d =
     map nb_id (filter (\<lambda>a. stalled now d a \<and> (case scope of None \<Rightarrow> True | Some ids \<Rightarrow> nb_id a \<in> set ids)) (td_attempts d))"

text \<open>A lease that merely ran out while the agent still signals the turn; a failing check is no signal.\<close>

definition live_lease :: "instant \<Rightarrow> (string \<Rightarrow> string \<Rightarrow> bool) \<Rightarrow> turn_db \<Rightarrow> run_attempt \<Rightarrow> bool" where
  "live_lease now alive d a \<longleftrightarrow>
     (case (opt_get ng_id (nb_agent a) (td_agents d), get_turn (nb_turn a) d) of
        (Some g, Some t) \<Rightarrow> ra_reason a = None \<and> \<not> rg_crashed g \<and> \<not> deadline_over now g a \<and> alive (ng_id g) (nu_room t)
      | _ \<Rightarrow> False)"

definition live_lease_attempts :: "instant \<Rightarrow> (string \<Rightarrow> string \<Rightarrow> bool) option \<Rightarrow> string list \<Rightarrow> turn_db \<Rightarrow> string list" where
  "live_lease_attempts now alive ids d =
     (case alive of
        None \<Rightarrow> []
      | Some signals \<Rightarrow> map nb_id (filter (\<lambda>a. nb_id a \<in> set ids \<and> live_lease now signals d a) (td_attempts d)))"

section \<open>One attempt\<close>

record recovery_result =
  rs_redispatched :: nat
  rs_cancelled :: nat
  rs_failed :: nat
  rs_drain :: "string list"

definition no_recovery :: recovery_result where
  "no_recovery = \<lparr>rs_redispatched = 0, rs_cancelled = 0, rs_failed = 0, rs_drain = []\<rparr>"

definition plus_recovery :: "recovery_result \<Rightarrow> recovery_result \<Rightarrow> recovery_result" where
  "plus_recovery a b =
     \<lparr>rs_redispatched = rs_redispatched a + rs_redispatched b, rs_cancelled = rs_cancelled a + rs_cancelled b,
      rs_failed = rs_failed a + rs_failed b, rs_drain = rs_drain a @ rs_drain b\<rparr>"

abbreviation PROCESS_LOST :: string where "PROCESS_LOST \<equiv> ''process_lost''"
abbreviation GENERATION_INTERRUPTED :: string where "GENERATION_INTERRUPTED \<equiv> ''generation_interrupted''"

definition stall_reason :: "instant \<Rightarrow> run_agent \<Rightarrow> run_attempt \<Rightarrow> string" where
  "stall_reason now g a =
     (if rg_crashed g then PROCESS_LOST
      else if deadline_over now g a then GENERATION_INTERRUPTED
      else the (or_else (ra_reason a) ''lease_expired''))"

text \<open>\<open>TaskResult\<close> of this attempt on its task, done.\<close>

definition recovered_result :: "run_turn \<Rightarrow> run_attempt \<Rightarrow> turn_db \<Rightarrow> bool" where
  "recovered_result t a d \<longleftrightarrow>
     list_ex (\<lambda>r. Some (tr_task r) = nu_task t \<and> tr_attempt r = Some (nb_id a)
        \<and> (case tget k_id (tr_task r) (td_tasks d) of None \<Rightarrow> False | Some k \<Rightarrow> k_status k = TaskDone)) (td_results d)"

definition terminal_receipt :: "run_turn \<Rightarrow> run_attempt \<Rightarrow> turn_db \<Rightarrow> receipt option" where
  "terminal_receipt t a d = map_option xe_details (event_of (attempt_event_key t (nb_number a) ''native-terminal'') d)"

text \<open>A receipt of the attempt's own invocation: it failed and its process is over.\<close>

definition safe_receipt :: "run_attempt \<Rightarrow> receipt option \<Rightarrow> bool" where
  "safe_receipt a ro \<longleftrightarrow> receipt_flag ro ''retryable''
     \<and> (case ro of None \<Rightarrow> False | Some r \<Rightarrow> dget r ''local_execution_id'' = opt_str (nb_local a))"

definition transient_receipt :: "run_attempt \<Rightarrow> receipt option \<Rightarrow> bool" where
  "transient_receipt a ro \<longleftrightarrow> safe_receipt a ro \<and> receipt_flag ro ''transient''"

record retry_plan =
  rp_transient :: bool
  rp_reason :: string
  rp_allowed :: bool
  rp_delay :: int

definition retry_plan_of :: "instant \<Rightarrow> run_turn \<Rightarrow> run_attempt \<Rightarrow> run_agent \<Rightarrow> bool \<Rightarrow> turn_db \<Rightarrow> retry_plan" where
  "retry_plan_of now t a g marked d =
     (let reason0 = stall_reason now g a;
          transient = (marked \<and> reason0 \<notin> {PROCESS_LOST, GENERATION_INTERRUPTED});
          used = transient_retries_used (nu_request t) (nb_number a) d;
          lease_used = rt_retries t - used
      in \<lparr>rp_transient = transient, rp_reason = (if transient then TRANSIENT_FAILURE else reason0),
          rp_allowed = (if transient then used < MAX_TRANSIENT_RETRIES else lease_used < rt_max t),
          rp_delay = (if transient then transient_retry_delay used
                      else if nu_execution t \<noteq> None then lease_retry_delay lease_used else 0)\<rparr>)"

definition fence_outcome :: "string option \<Rightarrow> string option" where
  "fence_outcome oc =
     (if oc \<in> {Some ''failed'', Some ''timeout'', Some ''retry_exhausted''} then oc else Some ''interrupted'')"

definition fence_stalled :: "instant \<Rightarrow> string \<Rightarrow> run_attempt \<Rightarrow> run_attempt" where
  "fence_stalled now reason a =
     a\<lparr>nb_state := TaInterrupted, ra_ended := Some now, ra_outcome := fence_outcome (ra_outcome a), ra_reason := Some reason\<rparr>"

definition redispatch_generation :: "string \<Rightarrow> run_agent \<Rightarrow> int" where
  "redispatch_generation reason g =
     (if reason = GENERATION_INTERRUPTED then (case rg_pending g of None \<Rightarrow> ng_generation g | Some n \<Rightarrow> n) else ng_generation g)"

text \<open>The next attempt with its outbox row; the transient marker is set here only.\<close>

definition redispatch ::
  "instant \<Rightarrow> fresh_ids \<Rightarrow> retry_plan \<Rightarrow> run_turn \<Rightarrow> run_attempt \<Rightarrow> run_agent \<Rightarrow> turn_db \<Rightarrow> turn_db" where
  "redispatch now ids pl t a g d =
     (let n = nu_active t + 1; available = now + seconds (rp_delay pl);
          d1 = add_outbox (new_outbox_row ids t available now)
                 (add_attempt (new_attempt_row ids (nu_request t) (nu_agent t) n (redispatch_generation (rp_reason pl) g)) d);
          d2 = (if rp_transient pl then upd_turn_attempt (nb_id a) (\<lambda>a. a\<lparr>ra_transient := True\<rparr>) d1 else d1);
          d3 = upd_turn (nu_request t) (\<lambda>t. t\<lparr>nu_state := TnRetrying, nu_active := n, rt_retries := rt_retries t + 1, rt_reason := None\<rparr>) d2
      in if nu_execution t = None then d3 else on_turn_recovery t n ''retrying'' (Some (rp_reason pl)) d3)"

definition turn_ended :: "turn_end \<Rightarrow> string option \<Rightarrow> instant \<Rightarrow> run_turn \<Rightarrow> turn_db \<Rightarrow> turn_db" where
  "turn_ended e reason now t d = mark_turn_terminal e reason (Some now) None None None now (nu_request t) d"

datatype recovery_end = ReCancelled | ReCompleted | ReLegacy | ReExhausted | ReDenied string | ReRedispatched

fun recovery_event :: "recovery_end \<Rightarrow> string" where
  "recovery_event ReCancelled = ''turn_cancelled''"
| "recovery_event ReCompleted = ''turn_completion_recovered''"
| "recovery_event ReLegacy = ''turn_retry_exhausted''"
| "recovery_event ReExhausted = ''turn_retry_exhausted''"
| "recovery_event (ReDenied _) = ''turn_retry_denied''"
| "recovery_event ReRedispatched = ''turn_redispatched''"

fun recovery_count :: "recovery_end \<Rightarrow> recovery_result" where
  "recovery_count ReCancelled = no_recovery\<lparr>rs_cancelled := 1\<rparr>"
| "recovery_count ReCompleted = no_recovery"
| "recovery_count ReRedispatched = no_recovery\<lparr>rs_redispatched := 1\<rparr>"
| "recovery_count _ = no_recovery\<lparr>rs_failed := 1\<rparr>"

text \<open>Which end the fenced attempt's turn takes; \<open>ado\<close> is the admission of a retry.\<close>

definition recovery_end_of :: "bool \<Rightarrow> bool \<Rightarrow> run_turn \<Rightarrow> retry_plan \<Rightarrow> disposition option \<Rightarrow> recovery_end" where
  "recovery_end_of gate_ok completed t pl ado =
     (if \<not> gate_ok then ReCancelled
      else if completed then ReCompleted
      else if rt_protocol t = 0 then ReLegacy
      else if \<not> rp_allowed pl then ReExhausted
      else (case ado of
              Some ad \<Rightarrow> if ad_allowed ad then ReRedispatched else ReDenied (the (or_else (ad_reason ad) ''EXECUTION_ADMISSION_DENIED''))
            | None \<Rightarrow> ReRedispatched))"

fun end_recovery ::
  "recovery_end \<Rightarrow> instant \<Rightarrow> fresh_ids \<Rightarrow> retry_plan \<Rightarrow> string \<Rightarrow> run_turn \<Rightarrow> run_attempt \<Rightarrow> run_agent \<Rightarrow> turn_db \<Rightarrow> turn_db" where
  "end_recovery ReCancelled now ids pl gate_reason t a g d = turn_ended EndCancelled (Some gate_reason) now t d"
| "end_recovery ReCompleted now ids pl gate_reason t a g d = turn_ended EndCompleted (Some ''accepted_result_recovered'') now t d"
| "end_recovery ReLegacy now ids pl gate_reason t a g d = turn_ended EndFailed (Some ''legacy_interrupted'') now t d"
| "end_recovery ReExhausted now ids pl gate_reason t a g d =
     (let d1 = turn_ended EndFailed (Some ''retry_exhausted'') now t d
      in if nu_execution t = None then d1 else on_turn_recovery t (nb_number a) ''exhausted'' (Some (rp_reason pl)) d1)"
| "end_recovery (ReDenied code) now ids pl gate_reason t a g d =
     on_turn_recovery t (nb_number a) ''action_required'' (Some code) (turn_ended EndFailed (Some code) now t d)"
| "end_recovery ReRedispatched now ids pl gate_reason t a g d = redispatch now ids pl t a g d"

definition drain_generation :: "string \<Rightarrow> run_agent \<Rightarrow> pyval" where
  "drain_generation reason g = (if reason = GENERATION_INTERRUPTED then opt_int (rg_pending g) else PInt (ng_generation g))"

text \<open>The audit rows and, for a failed turn of a live room, the notice; its text is not modelled.\<close>

definition after_recovery ::
  "recovery_end \<Rightarrow> instant \<Rightarrow> fresh_ids \<Rightarrow> retry_plan \<Rightarrow> run_turn \<Rightarrow> run_attempt \<Rightarrow> run_agent \<Rightarrow> bool \<times> string option \<times> attachment_row option
     \<Rightarrow> turn_db \<Rightarrow> turn_exc + turn_db" where
  "after_recovery re now ids pl t a g ws d =
     (case get_turn (nu_request t) d of
        None \<Rightarrow> Inr d
      | Some t1 \<Rightarrow>
          let d1 = upd_turn (nu_request t) (\<lambda>t. t\<lparr>rt_updated := now\<rparr>) d;
              d2 = log_turn ''turn_interrupted'' [(''reason'', PStr (rp_reason pl)), (''attempt'', PInt (nb_number a)),
                     (''generation'', PInt (nb_generation a))] t d1;
              d3 = (case ws of (wok, _, w) \<Rightarrow> if wok then d2 else audit_denied w ''retry_denied'' t ''cancelled'' (rt_reason t1) d2);
              d4 = log_turn (recovery_event re) [(''reason'', opt_str (or_else (rt_reason t1) (rp_reason pl))),
                     (''attempt'', PInt (nu_active t1)), (''generation'', drain_generation (rp_reason pl) g)] t d3
          in if nu_state t1 = TnFailed \<and> (case tget r_id (nu_room t) (td_rooms d) of None \<Rightarrow> False | Some r \<Rightarrow> r_archived r = None)
             then append_message (fi_message ids) (nu_room t) None []
                    [(''system_origin'', PStr ''turn_retry_exhausted''), (''request_id'', PStr (nu_request t))] (rt_thread t) d4
             else Inr d4)"

definition retry_member :: "run_turn \<Rightarrow> run_agent \<Rightarrow> turn_db \<Rightarrow> bool" where
  "retry_member t g d \<longleftrightarrow>
     (case (tget r_id (nu_room t) (td_rooms d), opt_get p_id (nu_participant t) (td_participants d)) of
        (Some r, Some p) \<Rightarrow>
          r_archived r = None \<and> p_room p = nu_room t \<and> p_agent p = nu_agent t \<and> p_role p \<in> set AGENT_EXECUTION_ROLES \<and> ng_running g
      | _ \<Rightarrow> False)"

text \<open>Fence, judge the gates again and take the end.\<close>

definition fence_and_retry ::
  "instant \<Rightarrow> fresh_ids \<Rightarrow> run_turn \<Rightarrow> run_attempt \<Rightarrow> run_agent \<Rightarrow> bool \<Rightarrow> turn_db \<Rightarrow> turn_exc + turn_db \<times> recovery_result" where
  "fence_and_retry now ids t a g marked d =
     (let pl = retry_plan_of now t a g marked d;
          d1 = upd_turn_attempt (nb_id a) (fence_stalled now (rp_reason pl)) d;
          ws = workspace_gate now t d1; xs = execution_gate now t (Some (nb_id a)) d1;
          gate_ok = (retry_member t g d1 \<and> fst ws \<and> fst xs);
          gate_reason = (case (fst (snd ws), fst (snd xs)) of (Some s, _) \<Rightarrow> s | (None, Some s) \<Rightarrow> s | _ \<Rightarrow> ''authorization_revoked'');
          completed = (nu_execution t \<noteq> None \<and> execution_completed t d1) in
      bindE (if gate_ok \<and> \<not> completed \<and> rt_protocol t \<noteq> 0 \<and> rp_allowed pl \<and> nu_execution t \<noteq> None
             then bindE (lift_exc (execution_admission t None d1)) (\<lambda>(ad, d2). Inr (Some ad, d2))
             else Inr (None, d1))
        (\<lambda>(ado, d2).
           let re = recovery_end_of gate_ok completed t pl ado in
           bindE (after_recovery re now ids pl t a g ws (end_recovery re now ids pl gate_reason t a g d2)) (\<lambda>d3.
             Inr (d3, (recovery_count re)\<lparr>rs_drain := (if rp_reason pl = GENERATION_INTERRUPTED then [ng_id g] else [])\<rparr>))))"

text \<open>
  The part only a turn of an execution has: the result it already delivered, and the native call
  whose outcome is not known to be a safe transient failure. \<open>None\<close> goes on to the fence, with
  whether its receipt was a transient failure.
\<close>

definition recover_execution ::
  "instant \<Rightarrow> run_turn \<Rightarrow> run_attempt \<Rightarrow> turn_db \<Rightarrow> (turn_db \<times> recovery_result) option \<times> bool" where
  "recover_execution now t a d =
     (if \<not> fst (execution_gate now t (Some (nb_id a)) d) then (None, False)
      else if recovered_result t a d then
        (Some (mark_turn_terminal EndCompleted (Some ''accepted_result_recovered'') (Some now) (Some (nb_id a)) None None now (nu_request t) d,
               no_recovery), False)
      else
        let r = terminal_receipt t a d; transient = transient_receipt a r in
        if nb_local a \<noteq> None \<and> \<not> transient then
          (let code = the (or_else (receipt_str r ''reason_code'') ''PROCESS_OUTCOME_UNKNOWN'');
               outcome = or_else (ra_outcome a) ''unknown''
           in (Some (on_turn_recovery t (nb_number a) ''action_required'' (Some code)
                      (mark_turn_terminal EndFailed (Some code) (Some now) (Some (nb_id a)) outcome (Some code) now (nu_request t) d),
                     no_recovery\<lparr>rs_failed := 1\<rparr>), False))
        else (None, transient))"

definition recover_locked ::
  "instant \<Rightarrow> string list \<Rightarrow> fresh_ids \<Rightarrow> run_turn \<Rightarrow> run_attempt \<Rightarrow> turn_db \<Rightarrow> turn_exc + turn_db \<times> recovery_result" where
  "recover_locked now alive_ids ids t a d =
     (case opt_get ng_id (nb_agent a) (td_agents d) of
        None \<Rightarrow> Inr (d, no_recovery)
      | Some g \<Rightarrow>
          if nu_state t \<notin> set OPEN_TURN_STATES then Inr (d, no_recovery)
          else if nb_id a \<in> set alive_ids \<and> ra_reason a = None \<and> \<not> rg_crashed g then
            Inr (upd_turn_attempt (nb_id a) (\<lambda>a. a\<lparr>nb_expires := Some (now + seconds (turn_lease_seconds g))\<rparr>) d, no_recovery)
          else if nu_execution t = None then fence_and_retry now ids t a g (ra_reason a = Some TRANSIENT_FAILURE) d
          else
            (case recover_execution now t a d of
               (Some res, _) \<Rightarrow> Inr res
             | (None, transient) \<Rightarrow> fence_and_retry now ids t a g transient d))"

definition recover_one ::
  "(turn_db \<Rightarrow> turn_db) \<Rightarrow> instant \<Rightarrow> string list \<Rightarrow> fresh_ids \<Rightarrow> string \<Rightarrow> turn_db \<Rightarrow> turn_exc + turn_db \<times> recovery_result" where
  "recover_one between now alive_ids ids aid d =
     (case get_turn_attempt aid d of
        None \<Rightarrow> Inr (d, no_recovery)
      | Some a0 \<Rightarrow>
          if nb_state a0 \<notin> set LEASED_STATES then Inr (d, no_recovery)
          else
            (case lock_scoped_turn between (nb_turn a0) d of
               (Some t, False, d1) \<Rightarrow>
                 (case get_turn_attempt aid d1 of
                    None \<Rightarrow> Inr (d1, no_recovery)
                  | Some a \<Rightarrow>
                      if nb_turn a \<noteq> nu_request t \<or> nb_state a \<notin> set LEASED_STATES then Inr (d1, no_recovery)
                      else recover_locked now alive_ids ids t a d1)
             | (_, _, d1) \<Rightarrow> Inr (d1, no_recovery)))"

text \<open>
  The whole pass: one transaction per attempt, what others commit before each of them being
  \<open>meanwhile\<close>. An exception ends it, what was committed stays.
\<close>

fun recover_each ::
  "(string \<Rightarrow> turn_db \<Rightarrow> turn_exc + turn_db \<times> recovery_result) \<Rightarrow> (turn_db \<Rightarrow> turn_db) \<Rightarrow> string list \<Rightarrow> turn_db
     \<Rightarrow> (turn_db \<times> recovery_result) \<times> turn_exc option" where
  "recover_each one meanwhile [] d = ((d, no_recovery), None)"
| "recover_each one meanwhile (aid # aids) d =
     (case one aid (meanwhile d) of
        Inl e \<Rightarrow> ((meanwhile d, no_recovery), Some e)
      | Inr (d1, r) \<Rightarrow> (case recover_each one meanwhile aids d1 of ((d2, rs), e) \<Rightarrow> ((d2, plus_recovery r rs), e)))"

definition recover_stalled_turns ::
  "(turn_db \<Rightarrow> turn_db) \<Rightarrow> (turn_db \<Rightarrow> turn_db) \<Rightarrow> instant \<Rightarrow> string list option \<Rightarrow> (string \<Rightarrow> string \<Rightarrow> bool) option
     \<Rightarrow> (string \<Rightarrow> fresh_ids) \<Rightarrow> turn_db \<Rightarrow> (turn_db \<times> recovery_result) \<times> turn_exc option" where
  "recover_stalled_turns between meanwhile now scope alive draw d =
     (let ids = stalled_attempts now scope d; alive_ids = live_lease_attempts now alive ids (meanwhile d)
      in recover_each (\<lambda>aid. recover_one between now alive_ids (draw aid) aid) meanwhile ids (meanwhile d))"

section \<open>The user's retry\<close>

text \<open>What the denial reads in tables the model leaves out.\<close>

record retry_checks =
  rk_prior_result :: bool
  rk_repair_intent :: bool
  rk_question :: bool
  rk_approval :: "string option"
  rk_dependency :: bool

definition native_terminal_of :: "run_turn \<Rightarrow> run_attempt \<Rightarrow> turn_db \<Rightarrow> receipt option" where
  "native_terminal_of t a d =
     (case find (\<lambda>e. Some (xe_execution e) = nu_execution t \<and> xe_task e = nu_task t
               \<and> xe_key e = attempt_event_key t (nb_number a) ''native-terminal'') (td_events d) of
        None \<Rightarrow> None
      | Some e \<Rightarrow>
          let r = xe_details e in
          if nb_local a \<in> {None, Some []} \<or> dget r ''local_execution_id'' \<noteq> opt_str (nb_local a)
             \<or> dget r ''outcome'' \<noteq> PStr ''failed''
             \<or> dget r ''process_state'' \<notin> PStr ` set SAFE_PROCESS_STATES
             \<or> dget r ''reason_code'' \<notin> PStr ` set NATIVE_REASONS
             \<or> dget r ''reason_code'' = PStr ''PROCESS_OUTCOME_UNKNOWN''
          then None else Some r)"

definition retry_binding_ok :: "run_task \<Rightarrow> run_exec \<Rightarrow> run_turn \<Rightarrow> run_attempt \<Rightarrow> bool" where
  "retry_binding_ok k x t a \<longleftrightarrow>
     k_execution k = Some (nx_id x) \<and> nx_status x \<in> set ACTIVE_EXECUTIONS \<and> k_input_rev k = Some (nx_revision x)
     \<and> nu_execution t = Some (nx_id x) \<and> nu_revision t = k_input_rev k \<and> nu_task t = Some (k_id k) \<and> nu_room t = k_room k
     \<and> nu_participant t = k_assignee k \<and> nb_turn a = nu_request t \<and> nb_agent a = nu_agent t \<and> nb_number a = nu_active t"

definition retry_agent_ok :: "run_exec \<Rightarrow> run_task \<Rightarrow> run_turn \<Rightarrow> turn_db \<Rightarrow> bool" where
  "retry_agent_ok x k t d \<longleftrightarrow>
     (case (opt_get ng_id (nu_agent t) (td_agents d), opt_get p_id (nu_participant t) (td_participants d), tget r_id (k_room k) (td_rooms d)) of
        (Some g, Some p, Some r) \<Rightarrow>
          ng_running g \<and> rg_actual g = ''running'' \<and> rg_pending g = None \<and> p_agent p = Some (ng_id g) \<and> p_room p = k_room k
          \<and> p_role p \<in> set AGENT_EXECUTION_ROLES \<and> r_project r = Some (nx_project x) \<and> r_archived r = None
      | _ \<Rightarrow> False)"

definition open_turn_of_task :: "run_task \<Rightarrow> run_exec \<Rightarrow> turn_db \<Rightarrow> bool" where
  "open_turn_of_task k x d \<longleftrightarrow>
     list_ex (\<lambda>t. nu_task t = Some (k_id k) \<and> nu_execution t = Some (nx_id x) \<and> nu_revision t = k_input_rev k
        \<and> nu_state t \<in> set OPEN_TURN_STATES) (td_turns d)"

definition retry_denial ::
  "retry_checks \<Rightarrow> instant \<Rightarrow> run_task \<Rightarrow> run_exec \<Rightarrow> run_turn \<Rightarrow> run_attempt \<Rightarrow> turn_db \<Rightarrow> py_exc + string option" where
  "retry_denial c now k x t a d =
     (if \<not> retry_binding_ok k x t a then Inr (Some ''AUTHORIZATION_REVOKED'')
      else if k_status k = TaskDone \<or> rt_accepted t \<notin> {None, Some []} then Inr (Some ''ACCEPTED_RESULT_PRESENT'')
      else if rk_prior_result c \<and> \<not> rk_repair_intent c then Inr (Some ''ACCEPTED_RESULT_PRESENT'')
      else if k_status k \<notin> {TaskBlocked, TaskFailed} \<or> nu_state t \<notin> {TnFailed, TnCancelled} then Inr (Some ''RECOVERY_PENDING'')
      else if nb_state a \<notin> {TaFailed, TaInterrupted, TaCancelled, TaStale} then Inr (Some ''RECOVERY_PENDING'')
      else if (case rx_deadline x of None \<Rightarrow> False | Some e \<Rightarrow> e \<le> now) then Inr (Some ''EXECUTION_DEADLINE_REACHED'')
      else if rt_max t \<le> rt_retries t then Inr (Some ''RETRY_EXHAUSTED'')
      else if \<not> receipt_flag (native_terminal_of t a d) ''retryable'' then Inr (Some ''PROCESS_OUTCOME_UNKNOWN'')
      else if open_turn_of_task k x d then Inr (Some ''RECOVERY_PENDING'')
      else if unresolved_stop (nx_id x) d then Inr (Some ''NATIVE_STOP_UNCONFIRMED'')
      else if rk_question c then Inr (Some ''QUESTION_PENDING'')
      else if rk_approval c \<noteq> None then Inr (rk_approval c)
      else if rk_dependency c then Inr (Some ''DEPENDENCY_PENDING'')
      else if \<not> retry_agent_ok x k t d then Inr (Some ''AGENT_STOPPED'')
      else bindE (admission_disposition (nx_id x) ''intent'' (native_view d)) (\<lambda>ad.
             Inr (if ad_allowed ad then None else or_else (ad_reason ad) ''RECOVERY_PENDING'')))"

definition latest_turn_of_task :: "run_task \<Rightarrow> run_exec \<Rightarrow> turn_db \<Rightarrow> run_turn option" where
  "latest_turn_of_task k x d =
     (let ts = filter (\<lambda>t. nu_task t = Some (k_id k) \<and> nu_execution t = Some (nx_id x) \<and> nu_revision t = k_input_rev k) (td_turns d)
      in find (\<lambda>t. \<not> list_ex (\<lambda>t'. created_before t t') ts) ts)"

text \<open>The compare-and-swap of the reopened turn with its fresh attempt.\<close>

definition reopen_turn :: "instant \<Rightarrow> fresh_ids \<Rightarrow> int \<Rightarrow> int \<Rightarrow> run_turn \<Rightarrow> turn_db \<Rightarrow> turn_exc + turn_db" where
  "reopen_turn now ids n gen t d =
     (if nu_active t \<noteq> n \<or> nu_state t \<notin> {TnFailed, TnCancelled} \<or> rt_max t \<le> rt_retries t
      then Inl (TurnConflict ''TASK_RETRY_ATTEMPT_CHANGED'')
      else
        let t1 = t\<lparr>nu_state := TnRetrying, nu_active := n + 1, rt_retries := rt_retries t + 1, rt_reason := None, rt_completed := None,
                   rt_updated := now\<rparr>;
            d1 = upd_turn (nu_request t) (\<lambda>_. t1) d;
            d2 = d1\<lparr>td_outbox := map (\<lambda>r. if ro_turn r = nu_request t \<and> ro_state r \<in> {ObPending, ObDelivering}
                                          then r\<lparr>ro_state := ObCancelled\<rparr> else r) (td_outbox d1)\<rparr>
        in Inr (on_turn_recovery t (n + 1) ''retrying'' None
                 (add_outbox (new_outbox_row ids t1 now now)
                   (add_attempt (new_attempt_row ids (nu_request t) (nu_agent t) (n + 1) gen) d2))))"

text \<open>\<open>retry_task\<close> after the caller's permission and the identical earlier operation were checked.\<close>

definition retry_task ::
  "retry_checks \<Rightarrow> instant \<Rightarrow> fresh_ids \<Rightarrow> string \<Rightarrow> string \<Rightarrow> int \<Rightarrow> turn_db \<Rightarrow> turn_exc + turn_db" where
  "retry_task c now ids kid rid n d =
     (case tget k_id kid (td_tasks d) of
        None \<Rightarrow> Inl (TurnConflict ''RETRY_EXECUTION_CHANGED'')
      | Some k \<Rightarrow>
          (case opt_get nx_id (k_execution k) (td_execs d) of
             None \<Rightarrow> Inl (TurnConflict ''RETRY_EXECUTION_CHANGED'')
           | Some x \<Rightarrow>
               (case (find (\<lambda>t. nu_request t = rid \<and> nu_execution t = Some (nx_id x) \<and> nu_revision t = k_input_rev k
                              \<and> nu_task t = Some kid) (td_turns d),
                      find (\<lambda>a. nb_turn a = rid \<and> nb_number a = n) (td_attempts d)) of
                  (Some t, Some a) \<Rightarrow>
                    bindE (lift_exc (retry_denial c now k x t a d)) (\<lambda>denial.
                      case denial of
                        Some code \<Rightarrow> Inl (TurnConflict (''TASK_RETRY_'' @ code))
                      | None \<Rightarrow>
                          if map_option nu_request (latest_turn_of_task k x d) \<noteq> Some rid
                          then Inl (TurnConflict ''TASK_RETRY_REQUEST_SUPERSEDED'')
                          else (case opt_get ng_id (nu_agent t) (td_agents d) of
                            None \<Rightarrow> Inl (TurnConflict ''TASK_RETRY_AGENT_RESTARTING'')
                          | Some g \<Rightarrow>
                              if \<not> ng_running g \<or> rg_actual g \<noteq> ''running'' \<or> rg_pending g \<noteq> None
                              then Inl (TurnConflict ''TASK_RETRY_AGENT_RESTARTING'')
                              else reopen_turn now ids n (ng_generation g) t d))
                | _ \<Rightarrow> Inl (TurnConflict ''TASK_RETRY_AUTHORIZATION_REVOKED''))))"

end
