(* ===== verification/TurnStart.thy ===== *)
theory TurnStart
  imports TurnRecovery
begin

text \<open>
  Permitting a native start (turns/start_service.py, with \<open>authorize_turn\<close> of
  project_executions/service.py): the reservation of the ledger, the invocation id of the attempt
  and the audit row are one savepoint. \<open>put_native\<close> writes the ledger's rows back.
\<close>

definition put_native :: "native_db \<Rightarrow> turn_db \<Rightarrow> turn_db" where
  "put_native n d =
     d\<lparr>td_rows := nd_rows n,
       td_execs := map2 (\<lambda>x y. native_exec.extend y (native_exec.more x)) (td_execs d) (nd_execs n)\<rparr>"

section \<open>Authorizing an invocation\<close>

record turn_packet =
  tp_request :: string
  tp_attempt :: int
  tp_generation :: int
  tp_lease :: string
  tp_local :: string
  tp_execution :: "string option"
  tp_revision :: "int option"

definition attempt_numbered :: "string \<Rightarrow> int \<Rightarrow> turn_db \<Rightarrow> run_attempt option" where
  "attempt_numbered rid n d = find (\<lambda>a. nb_turn a = rid \<and> nb_number a = n) (td_attempts d)"

definition live_proof :: "instant \<Rightarrow> string \<Rightarrow> turn_packet \<Rightarrow> run_turn \<Rightarrow> run_attempt \<Rightarrow> run_agent \<Rightarrow> bool" where
  "live_proof now gid p t a g \<longleftrightarrow>
     ng_running g \<and> nu_agent t = Some gid \<and> nb_agent a = Some gid \<and> nu_state t \<in> set OPEN_TURN_STATES
     \<and> nu_active t = tp_attempt p \<and> nb_state a \<in> set LEASED_STATES \<and> nb_generation a = tp_generation p
     \<and> ng_generation g = tp_generation p \<and> tp_lease p \<noteq> [] \<and> nb_lease a = tp_lease p
     \<and> (case nb_expires a of None \<Rightarrow> False | Some e \<Rightarrow> now < e)"

definition turn_member :: "string \<Rightarrow> run_turn \<Rightarrow> turn_db \<Rightarrow> bool" where
  "turn_member gid t d \<longleftrightarrow>
     (case (opt_get p_id (nu_participant t) (td_participants d), tget r_id (nu_room t) (td_rooms d)) of
        (Some p, Some r) \<Rightarrow>
          p_agent p = Some gid \<and> p_role p \<in> set AGENT_EXECUTION_ROLES \<and> p_room p = nu_room t \<and> r_archived r = None
      | _ \<Rightarrow> False)"

definition authorize_turn ::
  "(turn_db \<Rightarrow> turn_db) \<Rightarrow> instant \<Rightarrow> string \<Rightarrow> turn_packet \<Rightarrow> turn_db \<Rightarrow> (turn_exc + run_turn) \<times> turn_db" where
  "authorize_turn between now gid p d =
     (case find (\<lambda>t. nu_request t = tp_request p \<and> nu_agent t = Some gid) (td_turns d) of
        None \<Rightarrow> (Inl (TurnConflict ''STALE_TURN_PROOF''), d)
      | Some t0 \<Rightarrow>
          let d1 = between d in
          (case get_turn (tp_request p) d1 of
             None \<Rightarrow> (Inl (TurnConflict ''STALE_TURN_PROOF''), d1)
           | Some t \<Rightarrow>
               if nu_execution t \<noteq> nu_execution t0 \<or> nu_revision t \<noteq> nu_revision t0
               then (Inl (TurnConflict ''STALE_TURN_PROOF''), d1)
               else
                 (case (attempt_numbered (tp_request p) (tp_attempt p) d1, tget ng_id gid (td_agents d1)) of
                    (Some a, Some g) \<Rightarrow>
                      if \<not> live_proof now gid p t a g then (Inl (TurnConflict ''STALE_TURN_PROOF''), d1)
                      else if \<not> turn_member gid t d1 then (Inl (TurnConflict ''TURN_ROOM_ACCESS_REVOKED''), d1)
                      else
                        (case validate_execution_turn True now t d1 of
                           (ok, code, _) \<Rightarrow>
                             (if ok then Inr t else Inl (TurnConflict (the (or_else code ''EXECUTION_AUTHORIZATION_REVOKED''))), d1))
                  | _ \<Rightarrow> (Inl (TurnConflict ''STALE_TURN_PROOF''), d1))))"

section \<open>The permit\<close>

record start_permit =
  sp_allowed :: bool
  sp_code :: "string option"
  sp_snapshot :: "pyval option"

definition start_denied :: "string \<Rightarrow> start_permit" where
  "start_denied code = \<lparr>sp_allowed = False, sp_code = Some code, sp_snapshot = None\<rparr>"

definition start_fence_ok :: "instant \<Rightarrow> turn_packet \<Rightarrow> run_turn \<Rightarrow> run_attempt \<Rightarrow> bool" where
  "start_fence_ok now p t a \<longleftrightarrow>
     nb_state a \<in> set LEASED_STATES \<and> nb_generation a = tp_generation p \<and> nb_lease a = tp_lease p
     \<and> (case nb_expires a of None \<Rightarrow> False | Some e \<Rightarrow> now < e) \<and> nb_local a \<in> {None, Some (tp_local p)}
     \<and> nu_active t = tp_attempt p \<and> nu_state t \<in> {TnPending, TnLeased, TnRetrying}"

definition permit_details :: "turn_packet \<Rightarrow> run_turn \<Rightarrow> (string \<times> pyval) list" where
  "permit_details p t =
     [(''attempt'', PInt (tp_attempt p)), (''generation'', PInt (tp_generation p)), (''execution_id'', opt_str (nu_execution t)),
      (''input_revision'', opt_int (nu_revision t)), (''local_execution_id'', PStr (tp_local p))]"

text \<open>Reserve in the ledger, bind the invocation to the attempt, write the audit row.\<close>

definition grant_start ::
  "instant \<Rightarrow> string \<Rightarrow> turn_packet \<Rightarrow> run_turn \<Rightarrow> run_attempt \<Rightarrow> turn_db \<Rightarrow> turn_exc + turn_db" where
  "grant_start now nid p t a d =
     bindE (lift_exc (reserve_native (\<lambda>n. n) nid (nu_request t) (nb_id a) (tp_local p) now (native_view d))) (\<lambda>(ad, n).
       if \<not> nad_allowed ad then Inl (TurnConflict (the (or_else (nad_reason ad) ''NATIVE_ADMISSION_DENIED'')))
       else if \<not> start_fence_ok now p t a then Inl (TurnConflict ''NATIVE_START_FENCE_CHANGED'')
       else
         let d1 = upd_turn_attempt (nb_id a) (\<lambda>a. a\<lparr>nb_local := Some (tp_local p)\<rparr>) (put_native n d)
         in Inr (if nad_duplicate ad then d1 else log_turn ''turn_start_permitted'' (permit_details p t) t d1))"

text \<open>\<open>handoff\<close> is what \<open>validate_parent_handoff_turn\<close> answers for a first start.\<close>

definition start_locked ::
  "instant \<Rightarrow> string \<Rightarrow> string \<Rightarrow> string \<Rightarrow> string option \<Rightarrow> turn_packet \<Rightarrow> run_turn \<Rightarrow> turn_db \<Rightarrow> turn_exc + pyval option \<times> turn_db" where
  "start_locked now nid room pid handoff p t d =
     (if nu_room t \<noteq> room \<or> nu_participant t \<noteq> Some pid then Inl (TurnConflict ''TURN_SCOPE_MISMATCH'')
      else if nu_execution t \<noteq> tp_execution p \<or> nu_revision t \<noteq> tp_revision p
      then Inl (TurnConflict ''TURN_EXECUTION_BINDING_MISMATCH'')
      else
        (case (workspace_gate now t d, execution_gate now t None d) of
           ((wok, wreason, _), (ok, code, snapshot)) \<Rightarrow>
             if \<not> wok then Inl (TurnConflict (the (or_else wreason ''WORKSPACE_AUTHORIZATION_REVOKED'')))
             else if \<not> ok then Inl (TurnConflict (the (or_else code ''EXECUTION_AUTHORIZATION_REVOKED'')))
             else
               (case attempt_numbered (nu_request t) (tp_attempt p) d of
                  None \<Rightarrow> Inl (TurnConflict ''ATTEMPT_NOT_FOUND'')
                | Some a \<Rightarrow>
                    if nb_local a \<notin> {None, Some (tp_local p)} then Inl (TurnConflict ''LOCAL_EXECUTION_BINDING_IMMUTABLE'')
                    else if nb_local a = None \<and> handoff \<noteq> None then Inl (TurnConflict (the handoff))
                    else bindE (grant_start now nid p t a d) (\<lambda>d1. Inr (snapshot, d1)))))"

text \<open>
  \<open>close_limit\<close> is \<open>close_execution_limit\<close>, run when a limit denied the start; a denial leaves what the
  savepoint found.
\<close>

definition start_answer ::
  "(string option \<Rightarrow> string \<Rightarrow> turn_db \<Rightarrow> turn_db) \<Rightarrow> turn_packet \<Rightarrow> turn_exc + pyval option \<times> turn_db \<Rightarrow> turn_db \<Rightarrow> start_permit \<times> turn_db" where
  "start_answer close_limit p res d =
     (case res of
        Inr (snapshot, d1) \<Rightarrow> (\<lparr>sp_allowed = True, sp_code = None, sp_snapshot = snapshot\<rparr>, d1)
      | Inl (TurnConflict code) \<Rightarrow>
          (start_denied code, if code \<in> {NATIVE_LIMIT, USAGE_LIMIT} then close_limit (tp_execution p) code d else d)
      | Inl _ \<Rightarrow> (start_denied ''LOCAL_EXECUTION_ID_INVALID'', d))"

definition authorize_native_start ::
  "(turn_db \<Rightarrow> turn_db) \<Rightarrow> (string option \<Rightarrow> string \<Rightarrow> turn_db \<Rightarrow> turn_db) \<Rightarrow> instant \<Rightarrow> string \<Rightarrow> string \<Rightarrow> string \<Rightarrow> string
     \<Rightarrow> string option \<Rightarrow> turn_packet \<Rightarrow> turn_db \<Rightarrow> start_permit \<times> turn_db" where
  "authorize_native_start between close_limit now nid gid room pid handoff p d =
     (if \<not> LocalExecution.canonical_uuid (tp_local p) then (start_denied ''LOCAL_EXECUTION_ID_INVALID'', d)
      else
        (case authorize_turn between now gid p d of
           (Inl (TurnConflict code), d1) \<Rightarrow> (start_denied code, d1)
         | (Inl _, d1) \<Rightarrow> (start_denied ''LOCAL_EXECUTION_ID_INVALID'', d1)
         | (Inr t, d1) \<Rightarrow> start_answer close_limit p (start_locked now nid room pid handoff p t d1) d1))"

end
