(* ===== verification/PeerSafety.thy ===== *)
theory PeerSafety
  imports AskPeer TurnStart
begin

text \<open>
  What every transaction keeps of the fan-in, whatever interleaves: a group only moves forward and
  keeps its caller, a woken or abandoned one never changes its end again, and a settled target keeps
  its outcome.
\<close>

section \<open>The invariant\<close>

fun stage :: "group_state \<Rightarrow> nat" where
  "stage GrCollecting = 0"
| "stage GrReady = 1"
| "stage GrWaking = 2"
| "stage GrWoken = 3"
| "stage GrAbandoned = 3"

definition group_ok :: "peer_group \<Rightarrow> bool" where
  "group_ok g \<longleftrightarrow> (pg_state g \<noteq> GrCollecting \<longrightarrow> pg_closed g \<noteq> None) \<and> (pg_wake g \<noteq> None \<longrightarrow> stage (pg_state g) = 3)
     \<and> (pg_state g = GrWoken \<longrightarrow> pg_wake g \<noteq> None)"

definition peers_ok :: "turn_db \<Rightarrow> bool" where
  "peers_ok d \<longleftrightarrow>
     distinct (map pg_id (td_groups d)) \<and> distinct (map pg_caller (td_groups d))
     \<and> distinct (map pt_id (td_targets d)) \<and> distinct (map pt_request (td_targets d))
     \<and> (\<forall>g \<in> set (td_groups d). group_ok g)"

definition group_kept :: "peer_group \<Rightarrow> peer_group \<Rightarrow> bool" where
  "group_kept g g' \<longleftrightarrow>
     pg_id g' = pg_id g \<and> pg_room g' = pg_room g \<and> pg_participant g' = pg_participant g \<and> pg_caller g' = pg_caller g
     \<and> pg_trigger g' = pg_trigger g \<and> pg_scope g' = pg_scope g \<and> pg_deadline g' = pg_deadline g
     \<and> stage (pg_state g) \<le> stage (pg_state g') \<and> (pg_closed g \<noteq> None \<longrightarrow> pg_closed g' = pg_closed g)
     \<and> (stage (pg_state g) = 3 \<longrightarrow> pg_state g' = pg_state g \<and> pg_wake g' = pg_wake g \<and> pg_woken g' = pg_woken g)"

definition target_kept :: "peer_target \<Rightarrow> peer_target \<Rightarrow> bool" where
  "target_kept x x' \<longleftrightarrow>
     pt_id x' = pt_id x \<and> pt_group x' = pt_group x \<and> pt_participant x' = pt_participant x \<and> pt_question x' = pt_question x
     \<and> pt_request x' = pt_request x \<and> pt_created x' = pt_created x
     \<and> (settled_target (pt_state x) \<longrightarrow>
          pt_state x' = pt_state x \<and> pt_reason x' = pt_reason x \<and> pt_reply x' = pt_reply x \<and> pt_finished x' = pt_finished x)"

definition peers_kept :: "turn_db \<Rightarrow> turn_db \<Rightarrow> bool" where
  "peers_kept d d' \<longleftrightarrow>
     (\<forall>g \<in> set (td_groups d). \<exists>g' \<in> set (td_groups d'). group_kept g g')
     \<and> (\<forall>x \<in> set (td_targets d). \<exists>x' \<in> set (td_targets d'). target_kept x x')"

text \<open>The groups a worker holds, which no commit shows.\<close>

definition held :: "turn_db \<Rightarrow> string set" where
  "held d = {pg_id g |g. g \<in> set (td_groups d) \<and> pg_state g = GrWaking}"

definition peer_safe :: "turn_db \<Rightarrow> turn_db \<Rightarrow> bool" where
  "peer_safe d d' \<longleftrightarrow> (peers_ok d \<longrightarrow> peers_ok d' \<and> peers_kept d d' \<and> held d' \<subseteq> held d)"

lemma group_kept_refl [simp]: "group_kept g g"
  by (simp add: group_kept_def)

lemma target_kept_refl [simp]: "target_kept x x"
  by (simp add: target_kept_def)

lemma group_kept_trans: "group_kept a b \<Longrightarrow> group_kept b c \<Longrightarrow> group_kept a c"
  by (auto simp: group_kept_def)

lemma target_kept_trans: "target_kept a b \<Longrightarrow> target_kept b c \<Longrightarrow> target_kept a c"
  by (auto simp: target_kept_def)

lemma peers_kept_trans: "peers_kept a b \<Longrightarrow> peers_kept b c \<Longrightarrow> peers_kept a c"
  unfolding peers_kept_def by (meson group_kept_trans target_kept_trans)

lemma peer_safe_refl [simp]: "peer_safe d d"
  unfolding peer_safe_def peers_kept_def using group_kept_refl target_kept_refl by blast

lemma peer_safe_trans [trans]: "peer_safe a b \<Longrightarrow> peer_safe b c \<Longrightarrow> peer_safe a c"
  unfolding peer_safe_def by (meson peers_kept_trans subset_trans)

lemma peer_safe_same: "td_groups d' = td_groups d \<Longrightarrow> td_targets d' = td_targets d \<Longrightarrow> peer_safe a d \<Longrightarrow> peer_safe a d'"
  by (simp add: peer_safe_def peers_ok_def peers_kept_def held_def)

section \<open>Rows\<close>

lemma map_key_inj: "distinct (map key xs) \<Longrightarrow> x \<in> set xs \<Longrightarrow> y \<in> set xs \<Longrightarrow> key x = key y \<Longrightarrow> x = y"
  by (induction xs) (auto simp: rev_image_eqI)

lemma peers_keptI:
  assumes "\<And>g. g \<in> set (td_groups d) \<Longrightarrow> h g \<in> set (td_groups d') \<and> group_kept g (h g)"
    and "\<And>x. x \<in> set (td_targets d) \<Longrightarrow> k x \<in> set (td_targets d') \<and> target_kept x (k x)"
  shows "peers_kept d d'"
  unfolding peers_kept_def using assms by blast

lemma upd_group_safe:
  assumes "\<And>g. peers_ok d \<Longrightarrow> g \<in> set (td_groups d) \<Longrightarrow> pg_id g = gid
    \<Longrightarrow> group_kept g (f g) \<and> group_ok (f g) \<and> (pg_state (f g) = GrWaking \<longrightarrow> pg_state g = GrWaking)"
  shows "peer_safe d (upd_group gid f d)"
  unfolding peer_safe_def
proof (intro impI)
  assume ok: "peers_ok d"
  let ?h = "\<lambda>g. if pg_id g = gid then f g else g"
  have h: "group_kept g (?h g) \<and> group_ok (?h g) \<and> (pg_state (?h g) = GrWaking \<longrightarrow> pg_state g = GrWaking)"
    if "g \<in> set (td_groups d)" for g
    using assms [OF ok that] ok that by (auto simp: peers_ok_def)
  have rows: "td_groups (upd_group gid f d) = map ?h (td_groups d)" "td_targets (upd_group gid f d) = td_targets d"
    by (simp_all add: upd_group_def tupd_def)
  have ids: "map pg_id (map ?h (td_groups d)) = map pg_id (td_groups d)"
    "map pg_caller (map ?h (td_groups d)) = map pg_caller (td_groups d)"
    using h by (auto simp: group_kept_def)
  have "\<forall>g \<in> set (map ?h (td_groups d)). group_ok g" using h by (metis (no_types, lifting) imageE set_map)
  then have "peers_ok (upd_group gid f d)" using ok unfolding peers_ok_def rows ids by blast
  moreover have "peers_kept d (upd_group gid f d)"
    by (rule peers_keptI [where h = ?h and k = "\<lambda>x. x"]) (use h rows in auto)
  moreover have "held (upd_group gid f d) \<subseteq> held d"
  proof
    fix k
    assume "k \<in> held (upd_group gid f d)"
    then obtain g where g: "g \<in> set (td_groups d)" "pg_state (?h g) = GrWaking" "k = pg_id (?h g)"
      unfolding held_def rows by auto
    then show "k \<in> held d" using h [OF g(1)] by (auto simp: held_def group_kept_def)
  qed
  ultimately show "peers_ok (upd_group gid f d) \<and> peers_kept d (upd_group gid f d) \<and> held (upd_group gid f d) \<subseteq> held d" by blast
qed

lemma map_targets_safe:
  assumes "\<And>x. peers_ok d \<Longrightarrow> x \<in> set (td_targets d) \<Longrightarrow> target_kept x (f x)"
  shows "peer_safe d (d\<lparr>td_targets := map f (td_targets d)\<rparr>)"
  unfolding peer_safe_def
proof (intro impI)
  assume ok: "peers_ok d"
  note f = assms [OF ok]
  have ids: "map pt_id (map f (td_targets d)) = map pt_id (td_targets d)" "map pt_request (map f (td_targets d)) = map pt_request (td_targets d)"
    using f by (auto simp: target_kept_def)
  have "peers_ok (d\<lparr>td_targets := map f (td_targets d)\<rparr>)" using ok by (simp add: peers_ok_def ids del: map_map)
  moreover have "peers_kept d (d\<lparr>td_targets := map f (td_targets d)\<rparr>)"
    by (rule peers_keptI [where h = "\<lambda>g. g" and k = f]) (use f in simp_all)
  ultimately show "peers_ok (d\<lparr>td_targets := map f (td_targets d)\<rparr>) \<and> peers_kept d (d\<lparr>td_targets := map f (td_targets d)\<rparr>)
      \<and> held (d\<lparr>td_targets := map f (td_targets d)\<rparr>) \<subseteq> held d"
    by (simp add: held_def)
qed

lemma upd_target_safe:
  assumes "\<And>x. peers_ok d \<Longrightarrow> x \<in> set (td_targets d) \<Longrightarrow> pt_id x = tid \<Longrightarrow> target_kept x (f x)"
  shows "peer_safe d (upd_target tid f d)"
  unfolding upd_target_def tupd_def by (rule map_targets_safe) (use assms in auto)

lemma add_group_safe:
  assumes "pg_id g \<notin> pg_id ` set (td_groups d)" "pg_caller g \<notin> pg_caller ` set (td_groups d)" "pg_state g = GrCollecting" "pg_wake g = None"
  shows "peer_safe d (d\<lparr>td_groups := td_groups d @ [g]\<rparr>)"
proof -
  have "peers_kept d (d\<lparr>td_groups := td_groups d @ [g]\<rparr>)"
    by (rule peers_keptI [where h = "\<lambda>g. g" and k = "\<lambda>x. x"]) simp_all
  moreover have "held (d\<lparr>td_groups := td_groups d @ [g]\<rparr>) \<subseteq> held d" using assms by (auto simp: held_def)
  ultimately show ?thesis using assms by (simp add: peer_safe_def peers_ok_def group_ok_def)
qed

lemma add_target_safe:
  assumes "pt_id x \<notin> pt_id ` set (td_targets d)" "pt_request x \<notin> pt_request ` set (td_targets d)"
  shows "peer_safe d (d\<lparr>td_targets := td_targets d @ [x]\<rparr>)"
proof -
  have "peers_kept d (d\<lparr>td_targets := td_targets d @ [x]\<rparr>)"
    by (rule peers_keptI [where h = "\<lambda>g. g" and k = "\<lambda>x. x"]) simp_all
  moreover have "held (d\<lparr>td_targets := td_targets d @ [x]\<rparr>) \<subseteq> held d" by (simp add: held_def)
  ultimately show ?thesis using assms by (simp add: peer_safe_def peers_ok_def)
qed

section \<open>The hooks\<close>

lemma mark_ready_safe: "peer_safe d (mark_ready_if_done gid d)"
proof (cases "tget pg_id gid (td_groups d)")
  case None
  then show ?thesis by (simp add: mark_ready_if_done_def)
next
  case (Some g)
  have eq: "g' = g" if "peers_ok d" "g' \<in> set (td_groups d)" "pg_id g' = gid" for g'
    using tget_distinct [of pg_id "td_groups d" g'] that Some by (simp add: peers_ok_def)
  have "peer_safe d (upd_group gid (\<lambda>g. g\<lparr>pg_state := GrReady\<rparr>) d)" if "pg_state g = GrCollecting" "pg_closed g \<noteq> None"
  proof (rule upd_group_safe, goal_cases)
    case (1 g')
    then have "group_ok g" "g' = g" using eq by (auto simp: peers_ok_def)
    then show ?case using that by (simp add: group_kept_def group_ok_def)
  qed
  then show ?thesis using Some by (auto simp: mark_ready_if_done_def)
qed

lemma settle_own_safe: "peer_safe d (settle_own_target t now d)"
proof (cases "find (\<lambda>x. pt_request x = nu_request t) (td_targets d)")
  case None
  then show ?thesis by (simp add: settle_own_target_def)
next
  case (Some x)
  have x: "x \<in> set (td_targets d)" using Some by (auto simp: find_Some_iff)
  have "peer_safe d (upd_target (pt_id x) f d)" if "\<not> settled_target (pt_state x)" "\<And>y. target_kept (y\<lparr>pt_state := TgPending\<rparr>) (f y)" for f
  proof (rule upd_target_safe, goal_cases)
    case (1 y)
    then have "y = x" using map_key_inj [of pt_id "td_targets d" y x] x by (simp add: peers_ok_def)
    then show ?case using that(1) that(2) [of x] by (simp add: target_kept_def)
  qed
  then have "peer_safe d (upd_target (pt_id x) (\<lambda>x. x\<lparr>pt_state := fst (target_outcome t), pt_reason := snd (target_outcome t),
                 pt_reply := rt_accepted t, pt_finished := Some now\<rparr>) d)" if "\<not> settled_target (pt_state x)"
    using that by (simp add: target_kept_def settled_target_def)
  then show ?thesis using Some by (auto simp: settle_own_target_def intro: peer_safe_trans [OF _ mark_ready_safe])
qed

lemma close_caller_safe: "peer_safe d (close_caller t now d)"
proof (cases "find (\<lambda>g. pg_caller g = nu_request t) (td_groups d)")
  case None
  then show ?thesis by (simp add: close_caller_def)
next
  case (Some g)
  have g: "g \<in> set (td_groups d)" using Some by (auto simp: find_Some_iff)
  have "peer_safe d (upd_group (pg_id g) (\<lambda>g. g\<lparr>pg_closed := Some now\<rparr>) d)" if "pg_closed g = None"
  proof (rule upd_group_safe, goal_cases)
    case (1 g')
    then have "g' = g" "group_ok g" using map_key_inj [of pg_id "td_groups d" g' g] g by (auto simp: peers_ok_def)
    then show ?case using that by (auto simp: group_kept_def group_ok_def)
  qed
  then show ?thesis using Some by (auto simp: close_caller_def intro: peer_safe_trans [OF _ mark_ready_safe])
qed

lemma hook_safe: "peer_safe d (on_turn_terminal t now d)"
  unfolding on_turn_terminal_def by (rule peer_safe_trans [OF settle_own_safe close_caller_safe])

section \<open>What the turn service may do to its observers\<close>

text \<open>
  A relation between databases that sees nothing but the groups and targets, and that the hook of an
  ended turn and the draft of a caller respect, is respected by every transaction of the turn service.
\<close>

locale turn_observer =
  fixes safe :: "turn_db \<Rightarrow> turn_db \<Rightarrow> bool"
  assumes safe_trans: "safe a b \<Longrightarrow> safe b c \<Longrightarrow> safe a c"
    and safe_same: "td_groups d' = td_groups d \<Longrightarrow> td_targets d' = td_targets d \<Longrightarrow> safe d d'"
    and safe_hook: "safe d (on_turn_terminal t now d)"
    and safe_draft: "safe d (upd_group gid (\<lambda>g. g\<lparr>pg_draft := f (pg_draft g)\<rparr>) d)"
begin

lemma safe_refl [simp, intro!]: "safe d d"
  by (simp add: safe_same)

lemma safe_iff: "td_groups d' = td_groups d \<Longrightarrow> td_targets d' = td_targets d \<Longrightarrow> safe a d' \<longleftrightarrow> safe a d"
  using safe_same [of d' d] safe_same [of d d'] by (metis safe_trans)

lemma safe_iff_left: "td_groups d' = td_groups d \<Longrightarrow> td_targets d' = td_targets d \<Longrightarrow> safe d' b \<longleftrightarrow> safe d b"
  using safe_same [of d' d] safe_same [of d d'] by (metis safe_trans)

lemma safe_frames [simp]:
  "safe a (upd_turn rid f d) \<longleftrightarrow> safe a d"
  "safe a (upd_turn_attempt aid fa d) \<longleftrightarrow> safe a d"
  "safe a (upd_outbox oid fo d) \<longleftrightarrow> safe a d"
  "safe a (add_log l d) \<longleftrightarrow> safe a d"
  "safe a (log_turn ty det t d) \<longleftrightarrow> safe a d"
  "safe a (add_attempt n d) \<longleftrightarrow> safe a d"
  "safe a (add_outbox r d) \<longleftrightarrow> safe a d"
  "safe a (cancel_row oid err d) \<longleftrightarrow> safe a d"
  "safe a (append_audit w ty t oc det d) \<longleftrightarrow> safe a d"
  "safe a (audit_stale t gid reasons p d) \<longleftrightarrow> safe a d"
  "safe a (on_turn_recovery t k ph reason d) \<longleftrightarrow> safe a d"
  "safe a (cancel_outbox rid sts errs d) \<longleftrightarrow> safe a d"
  "safe a (put_native nd d) \<longleftrightarrow> safe a d"
  "safe a (finish_failure_notice t b mid d) \<longleftrightarrow> safe a d"
  "safe a (d\<lparr>td_turns := ts\<rparr>) \<longleftrightarrow> safe a d"
  "safe a (d\<lparr>td_outbox := obs\<rparr>) \<longleftrightarrow> safe a d"
  "safe a (d\<lparr>td_events := es\<rparr>) \<longleftrightarrow> safe a d"
  "safe a (d\<lparr>td_messages := ms\<rparr>) \<longleftrightarrow> safe a d"
  by (rule safe_iff; simp add: upd_turn_def upd_turn_attempt_def upd_outbox_def add_log_def log_turn_def add_attempt_def add_outbox_def
      cancel_row_def append_audit_def audit_stale_def on_turn_recovery_def cancel_outbox_def put_native_def finish_failure_notice_def)+

lemma safe_frames_left [simp]:
  "safe (upd_turn rid f d) b \<longleftrightarrow> safe d b"
  "safe (upd_turn_attempt aid fa d) b \<longleftrightarrow> safe d b"
  "safe (append_audit w ty t oc det d) b \<longleftrightarrow> safe d b"
  "safe (log_turn ty det t d) b \<longleftrightarrow> safe d b"
  by (rule safe_iff_left; simp add: upd_turn_def upd_turn_attempt_def append_audit_def log_turn_def add_log_def)+

lemma safe_audit_denied [simp]: "safe a (audit_denied wo ty t oc reason d) \<longleftrightarrow> safe a d"
  by (simp add: audit_denied_def split: option.split)

lemma safe_audit_denied_left [simp]: "safe (audit_denied wo ty t oc reason d) b \<longleftrightarrow> safe d b"
  by (simp add: audit_denied_def split: option.split)

lemma safe_queue_denial [simp]: "safe a (queue_denial xid ad d) \<longleftrightarrow> safe a d"
  by (rule safe_iff) (simp_all add: queue_denial_def split: option.split)

lemma safe_legacy [simp]: "safe a (mark_legacy env t d) \<longleftrightarrow> safe a d"
  by (simp add: mark_legacy_def)

lemma safe_terminal [intro!]: "safe a d \<Longrightarrow> safe a (mark_turn_terminal e reason at_time aid outcome areason now rid d)"
  unfolding mark_turn_terminal_def Let_def
  by (auto split: option.splits intro: safe_trans [OF _ safe_hook])

lemma safe_lock: "(\<And>e. safe e (between e)) \<Longrightarrow> lock_scoped_turn between rid d = (x, b, d1) \<Longrightarrow> safe d d1"
  by (auto simp: lock_scoped_turn_def Let_def split: option.splits if_splits)

lemma safe_admission: "execution_admission t ao d = Inr (ad, d') \<Longrightarrow> safe d d'"
  by (auto simp: execution_admission_def bindE_Inr_iff split: option.splits if_splits)

lemma safe_message: "append_message mid room pid content meta thread d = Inr d' \<Longrightarrow> safe d d'"
  by (auto simp: append_message_def split: if_splits)

lemma safe_create:
  assumes "\<And>e. safe e (between e)" "create_turn between now ids q d = Inr (rid, d')"
  shows "safe d d'"
proof (cases "find (\<lambda>t. rt_key t = request_key q) (td_turns d)")
  case (Some t)
  then show ?thesis using assms(2) by (simp add: create_turn_def Let_def)
next
  case None
  define d1 where "d1 = (if tq_task q = None then d else between d)"
  obtain ws t1 d2 where b: "bind_turn_workspace now (new_turn q (the (or_else (tq_request q) (fi_request ids))) now) d1 = (ws, t1, d2)"
    by (metis prod_cases3)
  obtain running t gen refusal d3 where r: "refusal_of running ws now t d2 = Inr (refusal, d3)" and d': "d' = insert_turn t ids gen refusal now d3"
    using assms(2) None by (auto simp: create_turn_def Let_def b d1_def [symmetric] bindE_Inr_iff split: if_splits)
  have "safe d d1" using assms(1) by (simp add: d1_def)
  also have "safe d1 d2" using b by (auto simp: bind_turn_workspace_def Let_def split: option.splits)
  finally (safe_trans) have "safe d d2" .
  moreover have "safe d2 d3" using r by (auto simp: refusal_of_def bindE_Inr_iff split: if_splits prod.splits dest: safe_admission)
  ultimately have "safe d d3" by (rule safe_trans)
  then show ?thesis unfolding d' by (auto simp: insert_turn_def Let_def split: option.split)
qed

lemma safe_cancel_delivery [intro!]: "safe a d \<Longrightarrow> safe a (cancel_delivery now oid t b reason d)"
  by (auto simp: cancel_delivery_def)

lemma safe_lease: "lease_delivery env now lease_now oid t b g dl d = (d', x) \<Longrightarrow> safe d d'"
  by (auto simp: lease_delivery_def Let_def split: option.splits if_splits)

lemma safe_dispatch: "dispatch_claimed env now lease_now oid row t b g m snapshot d = Inr (d', x) \<Longrightarrow> safe d d'"
  unfolding dispatch_claimed_def
  by (auto simp: bindE_Inr_iff split: if_splits dest: safe_lease safe_admission)

lemma safe_gated: "gated_claim env now lease_now oid row t b d = Inr (d', x) \<Longrightarrow> safe d d'"
  unfolding gated_claim_def Let_def
  by (auto split: if_splits prod.splits option.splits dest: safe_dispatch)

lemma safe_claim:
  assumes "\<And>e. safe e (between e)" "claim_outbox env between now lease_now oid d = Inr (d', x)"
  shows "safe d d'"
  using assms(2) unfolding claim_outbox_def
  by (auto split: option.splits if_splits prod.splits bool.splits dest: safe_lock [OF assms(1)] intro: safe_trans [OF _ safe_gated])

lemma safe_confirm: "safe d (fst (confirm_delivery now oid dl d))"
  by (auto simp: confirm_delivery_def split: option.split)

lemma safe_stale [simp]: "safe a (snd (stale t gid reason p d)) \<longleftrightarrow> safe a d"
  by (simp add: stale_def)

lemma safe_notice: "begin_failure_notice now t b outcome d = (dec, d') \<Longrightarrow> safe d d'"
  by (auto simp: begin_failure_notice_def Let_def split: if_splits option.splits)

lemma safe_reserve: "reserve_completion now gid legacy p t b d = (dec, d') \<Longrightarrow> safe d d'"
  by (auto simp: reserve_completion_def stale_def Let_def split: if_splits)

lemma safe_proven: "proven_completion now gid p outcome t b d = (dec, d') \<Longrightarrow> safe d d'"
  by (auto simp: proven_completion_def stale_def split: if_splits prod.splits dest: safe_notice safe_reserve)

lemma safe_begin:
  assumes "\<And>e. safe e (between e)" "begin_completion between now rid room pid gid p outcome d = (dec, d')"
  shows "safe d d'"
  using assms(2) unfolding begin_completion_def
  by (auto simp: stale_def Let_def split: option.splits list.splits prod.splits bool.splits if_splits
      dest: safe_lock [OF assms(1)] intro: safe_trans [OF _ safe_proven])

lemma safe_absorb: "absorb_caller_reply rid content d = Some d' \<Longrightarrow> safe d d'"
  by (auto simp: absorb_caller_reply_def safe_draft split: option.splits)

lemma safe_deferred [intro!]: "safe a d \<Longrightarrow> safe a (finish_deferred now t b d)"
  by (auto simp: finish_deferred_def)

lemma safe_finish [intro!]: "safe a d \<Longrightarrow> safe a (finish_completion now t b mid d)"
  unfolding finish_completion_def Let_def by (auto split: prod.split bool.split option.split)

lemma safe_accept: "accept_reply now mid y t b d = Inr d' \<Longrightarrow> safe d d'"
  by (auto simp: accept_reply_def bindE_Inr_iff split: option.splits dest: safe_absorb safe_message)

lemma safe_reply:
  assumes "\<And>e. safe e (between e)" "reply_turn between now mid y d = Inr (dec, d')"
  shows "safe d d'"
proof -
  obtain dec1 d1 where b: "begin_completion between now (ry_request y) (ry_room y) (ry_participant y) (ry_agent y) (ry_proof y) (ry_outcome y) d
      = (dec1, d1)" by fastforce
  have d1: "safe d d1" by (rule safe_begin [OF assms(1) b])
  have "safe d1 d'"
    using assms(2) unfolding reply_turn_def b Let_def
    by (auto simp: bindE_Inr_iff split: completion_decision.splits option.splits dest: safe_accept safe_message)
  with d1 show ?thesis by (rule safe_trans)
qed

lemma safe_receipt: "native_terminal_receipt now t b fr d = (x, d') \<Longrightarrow> safe d d'"
  by (auto simp: native_terminal_receipt_def Let_def split: if_splits option.splits)

lemma safe_failure: "execution_failure now t b outcome r d = Inr d' \<Longrightarrow> safe d d'"
  unfolding execution_failure_def Let_def
  by (auto simp: bindE_Inr_iff split: if_splits option.splits dest!: safe_admission)

lemma safe_finished: "handler_finished now t b fr r d = Inr d' \<Longrightarrow> safe d d'"
  unfolding handler_finished_def lost_reply_def Let_def
  by (auto split: if_splits option.splits dest: safe_failure)

lemma safe_frame: "apply_frame now fr t b wo r d = Inr d' \<Longrightarrow> safe d d'"
  unfolding apply_frame_def handler_started_def Let_def
  by (auto split: if_splits option.splits dest!: safe_finished)

lemma safe_applied: "native_terminal_receipt now t b fr d = (x, d2) \<Longrightarrow> apply_frame now fr t b wo r d2 = Inr d' \<Longrightarrow> safe d d'"
  by (rule safe_trans [OF safe_receipt safe_frame])

lemma safe_lifecycle:
  assumes "\<And>e. safe e (between e)" "record_lifecycle between now gid fr d = Inr (okk, d')"
  shows "safe d d'"
proof -
  obtain to b d1 where lock: "lock_scoped_turn between (fr_request fr) d = (to, b, d1)" by (metis prod_cases3)
  have "safe d1 d'"
    using assms(2) unfolding record_lifecycle_def lock Let_def
    by (auto simp: bindE_Inr_iff split: option.splits bool.splits prod.splits if_splits dest: safe_receipt safe_applied)
  with safe_lock [OF assms(1) lock] show ?thesis by (rule safe_trans)
qed

lemma safe_cancel:
  assumes "\<And>e. safe e (between e)" "cancel_general_turn between now rid actor d = Inr (res, d')"
  shows "safe d d'"
  using assms(2) unfolding cancel_general_turn_def Let_def
  by (auto split: option.splits bool.splits prod.splits if_splits dest: safe_lock [OF assms(1)])

lemma safe_revoke: "safe a d \<Longrightarrow> safe a (revoke_turn now t ao ws xreason d)"
  by (auto simp: revoke_turn_def Let_def split: prod.split)

lemma safe_cancel_one:
  assumes "\<And>e. safe e (between e)"
  shows "safe d (fst (cancel_invalid_one between now rid d))"
  unfolding cancel_invalid_one_def Let_def
  by (auto split: option.splits prod.splits intro!: safe_revoke dest: safe_lock [OF assms])

lemma safe_sweep:
  assumes "\<And>e. safe e (between e)"
  shows "safe d (fst (cancel_invalid_turns between now d))"
proof -
  have "safe e (fst (cancel_each between now rids e))" for rids e
  proof (induction rids arbitrary: e)
    case (Cons rid rids)
    show ?case
      using Cons [of "fst (cancel_invalid_one between now rid e)"] safe_cancel_one [OF assms, of e now rid]
      by (auto split: prod.splits intro: safe_trans)
  qed simp
  then show ?thesis by (simp add: cancel_invalid_turns_def)
qed

lemma safe_after: "after_recovery re now ids pl t b g ws d = Inr d' \<Longrightarrow> safe d d'"
  unfolding after_recovery_def Let_def
  by (auto split: option.splits if_splits prod.splits dest!: safe_message)

lemma safe_end: "safe a d \<Longrightarrow> safe a (end_recovery re now ids pl reason t b g d)"
  by (cases re) (auto simp: turn_ended_def redispatch_def Let_def)

lemma safe_ending:
  assumes "bindE m (\<lambda>(ado, d2). bindE (after_recovery (re ado) now ids pl t b g ws (end_recovery (re ado) now ids pl reason t b g d2))
      (\<lambda>d3. Inr (d3, rc ado))) = Inr (d', res)" "\<And>ado d2. m = Inr (ado, d2) \<Longrightarrow> safe d d2"
  shows "safe d d'"
proof -
  obtain ado d2 where m: "m = Inr (ado, d2)"
    and a: "after_recovery (re ado) now ids pl t b g ws (end_recovery (re ado) now ids pl reason t b g d2) = Inr d'"
    using assms(1) by (auto simp: bindE_Inr_iff)
  show ?thesis using safe_end [OF assms(2) [OF m]] safe_after [OF a] by (rule safe_trans)
qed

lemma safe_fence:
  assumes "fence_and_retry now ids t b g marked d = Inr (d', res)"
  shows "safe d d'"
  by (rule safe_ending [OF assms [unfolded fence_and_retry_def Let_def]])
    (auto simp: bindE_Inr_iff split: if_splits dest: safe_admission)

lemma safe_recover:
  assumes "\<And>e. safe e (between e)" "recover_one between now alive_ids ids aid d = Inr (d', res)"
  shows "safe d d'"
proof -
  have "safe e d'" if "recover_locked now alive_ids ids t b e = Inr (d', res)" for t b e
    using that unfolding recover_locked_def recover_execution_def Let_def
    by (auto split: option.splits if_splits prod.splits dest: safe_fence)
  then show ?thesis
    using assms(2) unfolding recover_one_def
    by (auto split: option.splits if_splits prod.splits bool.splits dest!: safe_lock [OF assms(1)] intro: safe_trans)
qed

lemma safe_retry: "retry_task c now ids kid rid n d = Inr d' \<Longrightarrow> safe d d'"
  unfolding retry_task_def reopen_turn_def Let_def
  by (auto simp: bindE_Inr_iff split: option.splits if_splits)

lemma safe_start:
  assumes "\<And>e. safe e (between e)" "\<And>xo code e. safe e (close_limit xo code e)"
    "authorize_native_start between close_limit now nid gid room pid handoff p d = (sp, d')"
  shows "safe d d'"
proof -
  obtain res d1 where auth: "authorize_turn between now gid p d = (res, d1)" by fastforce
  have d1: "safe d d1" using auth assms(1) by (auto simp: authorize_turn_def Let_def split: option.splits if_splits prod.splits)
  have "safe e d2" if "start_locked now nid room pid handoff p t e = Inr (sn, d2)" for t e sn d2
    using that unfolding start_locked_def grant_start_def Let_def
    by (auto simp: bindE_Inr_iff split: if_splits prod.splits option.splits)
  then have "safe e d2" if "start_answer close_limit p (start_locked now nid room pid handoff p t e) e = (sp, d2)" for t e d2
    using that assms(2) unfolding start_answer_def by (auto split: sum.splits turn_exc.splits prod.splits if_splits)
  then show ?thesis
    using assms(3) d1 unfolding authorize_native_start_def auth by (auto split: if_splits sum.splits turn_exc.splits intro: safe_trans)
qed

end

lemma draft_safe: "peer_safe d (upd_group gid (\<lambda>g. g\<lparr>pg_draft := f (pg_draft g)\<rparr>) d)"
  by (rule upd_group_safe) (auto simp: peers_ok_def group_kept_def group_ok_def)

interpretation fanin: turn_observer peer_safe
  by unfold_locales (auto intro: peer_safe_trans peer_safe_same hook_safe draft_safe)

end
