(* ===== verification/TurnSafety.thy ===== *)
theory TurnSafety
  imports TurnStart
begin

text \<open>
  What every transaction of the durable turns keeps, whatever interleaves: the attempts of a turn
  are numbered without gaps and only the last one is live, the retries stay within the two
  budgets, and at most one reply is ever accepted. With one writer at a time an ended turn stays
  ended, but for the user's own retry.
\<close>

section \<open>The invariant\<close>

definition live_attempt :: "run_attempt \<Rightarrow> bool" where
  "live_attempt a \<longleftrightarrow> nb_state a \<in> {TaPending, TaLeased, TaStarted, TaCompleting}"

definition tries_of :: "string \<Rightarrow> turn_db \<Rightarrow> run_attempt list" where
  "tries_of rid d = filter (\<lambda>a. nb_turn a = rid) (td_attempts d)"

definition transient_marks :: "string \<Rightarrow> turn_db \<Rightarrow> int" where
  "transient_marks rid d = int (length (filter ra_transient (tries_of rid d)))"

text \<open>The visible replies, as the audit log has them.\<close>

definition replies :: "turn_db \<Rightarrow> turn_log list" where
  "replies d = filter (\<lambda>l. tl_type l = ''response_sent'') (td_logs d)"

definition attempt_ok :: "run_turn \<Rightarrow> run_attempt \<Rightarrow> bool" where
  "attempt_ok t a \<longleftrightarrow> (live_attempt a \<longrightarrow> nb_number a = nu_active t) \<and> (ra_transient a \<longrightarrow> nb_number a < nu_active t)"

definition turn_ok :: "run_turn \<Rightarrow> turn_db \<Rightarrow> bool" where
  "turn_ok t d \<longleftrightarrow>
     map nb_number (tries_of (nu_request t) d) = [1..nu_active t]
     \<and> (\<forall>a \<in> set (tries_of (nu_request t) d). attempt_ok t a)
     \<and> 1 \<le> nu_active t \<and> nu_active t - 1 \<le> rt_retries t \<and> transient_marks (nu_request t) d \<le> MAX_TRANSIENT_RETRIES
     \<and> nu_active t - 1 - transient_marks (nu_request t) d \<le> rt_max t"

definition reply_ok :: "turn_db \<Rightarrow> turn_log \<Rightarrow> bool" where
  "reply_ok d l \<longleftrightarrow>
     (\<exists>t \<in> set (td_turns d). nu_request t = tl_request l \<and> rt_accepted t \<noteq> None \<and> dget (tl_details l) ''message_id'' = opt_str (rt_accepted t))"

definition turns_ok :: "turn_db \<Rightarrow> bool" where
  "turns_ok d \<longleftrightarrow>
     distinct (map nu_request (td_turns d)) \<and> distinct (map nb_id (td_attempts d))
     \<and> (\<forall>a \<in> set (td_attempts d). nb_turn a \<in> nu_request ` set (td_turns d))
     \<and> (\<forall>t \<in> set (td_turns d). turn_ok t d)
     \<and> distinct (map tl_request (replies d)) \<and> (\<forall>l \<in> set (replies d). reply_ok d l)"

text \<open>What becomes of a row; \<open>solo\<close> is one writer at a time.\<close>

definition ended :: "run_turn \<Rightarrow> bool" where
  "ended t \<longleftrightarrow> nu_state t \<in> {TnCompleted, TnCancelled, TnFailed}"

definition turn_kept :: "bool \<Rightarrow> run_turn \<Rightarrow> run_turn \<Rightarrow> bool" where
  "turn_kept solo t t' \<longleftrightarrow>
     nu_request t' = nu_request t \<and> rt_key t' = rt_key t \<and> rt_max t' = rt_max t \<and> nu_active t \<le> nu_active t' \<and> rt_retries t \<le> rt_retries t'
     \<and> (rt_accepted t \<noteq> None \<longrightarrow> rt_accepted t' = rt_accepted t)
     \<and> (solo \<longrightarrow> ended t \<longrightarrow> nu_state t' = nu_state t \<or> (nu_state t \<noteq> TnCompleted \<and> nu_active t < nu_active t'))"

definition turns_kept :: "bool \<Rightarrow> turn_db \<Rightarrow> turn_db \<Rightarrow> bool" where
  "turns_kept solo d d' \<longleftrightarrow> (\<forall>t \<in> set (td_turns d). \<exists>t' \<in> set (td_turns d'). turn_kept solo t t')"

definition turn_safe :: "bool \<Rightarrow> turn_db \<Rightarrow> turn_db \<Rightarrow> bool" where
  "turn_safe solo d d' \<longleftrightarrow> (turns_ok d \<longrightarrow> turns_ok d' \<and> turns_kept solo d d')"

lemma turn_kept_refl [simp]: "turn_kept solo t t"
  by (simp add: turn_kept_def)

lemma turn_kept_trans:
  assumes "turn_kept solo a b" "turn_kept solo b c"
  shows "turn_kept solo a c"
proof -
  have "nu_state c = nu_state a \<or> (nu_state a \<noteq> TnCompleted \<and> nu_active a < nu_active c)" if "solo" "ended a"
  proof (cases "nu_state b = nu_state a")
    case True
    then show ?thesis using assms that by (fastforce simp: turn_kept_def ended_def)
  next
    case False
    then show ?thesis using assms that by (auto simp: turn_kept_def)
  qed
  then show ?thesis using assms unfolding turn_kept_def by (elim conjE, intro conjI impI) simp_all
qed

lemma turns_kept_trans: "turns_kept solo a b \<Longrightarrow> turns_kept solo b c \<Longrightarrow> turns_kept solo a c"
  unfolding turns_kept_def by (meson turn_kept_trans)

lemma turns_kept_same: "td_turns d' = td_turns d \<Longrightarrow> turns_kept solo d d'"
  unfolding turns_kept_def by (metis turn_kept_refl)

lemma turn_safe_refl [simp]: "turn_safe solo d d"
  by (simp add: turn_safe_def turns_kept_same)

lemma turn_safe_trans: "turn_safe solo a b \<Longrightarrow> turn_safe solo b c \<Longrightarrow> turn_safe solo a c"
  unfolding turn_safe_def using turns_kept_trans by blast

text \<open>Changes elsewhere keep everything.\<close>

definition same_core :: "turn_db \<Rightarrow> turn_db \<Rightarrow> bool" where
  "same_core d d' \<longleftrightarrow> td_turns d' = td_turns d \<and> td_attempts d' = td_attempts d \<and> replies d' = replies d"

lemma same_core_safe:
  assumes "same_core d d'"
  shows "turn_safe solo d d'"
proof -
  have "tries_of rid d' = tries_of rid d" for rid using assms by (simp add: tries_of_def same_core_def)
  then have "turns_ok d' = turns_ok d"
    using assms by (simp add: turns_ok_def turn_ok_def transient_marks_def reply_ok_def same_core_def)
  then show ?thesis using assms turns_kept_same by (simp add: turn_safe_def same_core_def)
qed

lemma same_core_refl [simp]: "same_core d d"
  by (simp add: same_core_def)

lemma same_core_trans: "same_core a b \<Longrightarrow> same_core b c \<Longrightarrow> same_core a c"
  by (simp add: same_core_def)

section \<open>One row\<close>

definition turn_mod :: "bool \<Rightarrow> run_turn \<Rightarrow> run_turn \<Rightarrow> bool" where
  "turn_mod solo t t' \<longleftrightarrow>
     nu_request t' = nu_request t \<and> rt_key t' = rt_key t \<and> rt_max t' = rt_max t \<and> nu_active t' = nu_active t \<and> rt_retries t' = rt_retries t
     \<and> (rt_accepted t' = rt_accepted t \<or> rt_accepted t = None) \<and> (solo \<longrightarrow> ended t \<longrightarrow> nu_state t' = nu_state t)"

lemma turn_mod_kept: "turn_mod solo t t' \<Longrightarrow> turn_kept solo t t'"
  by (auto simp: turn_mod_def turn_kept_def)

lemma upd_turn_core [simp]: "td_attempts (upd_turn rid f d) = td_attempts d" "replies (upd_turn rid f d) = replies d"
  "tries_of k (upd_turn rid f d) = tries_of k d" "transient_marks k (upd_turn rid f d) = transient_marks k d"
  by (simp_all add: upd_turn_def replies_def tries_of_def transient_marks_def)

lemma upd_turn_safe:
  assumes "\<And>t. get_turn rid d = Some t \<Longrightarrow> turn_mod solo t (f t)"
  shows "turn_safe solo d (upd_turn rid f d)"
  unfolding turn_safe_def
proof (intro impI)
  assume ok: "turns_ok d"
  have dist: "distinct (map nu_request (td_turns d))" using ok by (simp add: turns_ok_def)
  define g where "g = (\<lambda>t. if nu_request t = rid then f t else t)"
  have turns: "td_turns (upd_turn rid f d) = map g (td_turns d)" by (simp add: upd_turn_def tupd_def g_def)
  have mods: "turn_mod solo t (g t)" if "t \<in> set (td_turns d)" for t
    using assms tget_distinct [OF dist that] by (auto simp: g_def turn_mod_def)
  have req: "map nu_request (map g (td_turns d)) = map nu_request (td_turns d)"
    using mods by (auto simp: turn_mod_def)
  have rows: "turn_ok (g t) (upd_turn rid f d)" if "t \<in> set (td_turns d)" for t
    using ok mods [OF that] that by (auto simp: turns_ok_def turn_ok_def attempt_ok_def turn_mod_def)
  have reply: "reply_ok (upd_turn rid f d) l" if "reply_ok d l" for l
    using that mods unfolding reply_ok_def turns by (fastforce simp: turn_mod_def)
  have "nu_request ` set (map g (td_turns d)) = nu_request ` set (td_turns d)"
    using req by (metis set_map)
  then have "turns_ok (upd_turn rid f d)"
    using ok rows reply unfolding turns_ok_def turns req by simp
  then show "turns_ok (upd_turn rid f d) \<and> turns_kept solo d (upd_turn rid f d)"
    using mods turn_mod_kept unfolding turns_kept_def turns by (metis image_eqI set_map)
qed

definition attempt_mod :: "run_attempt \<Rightarrow> run_attempt \<Rightarrow> bool" where
  "attempt_mod a a' \<longleftrightarrow> nb_id a' = nb_id a \<and> nb_turn a' = nb_turn a \<and> nb_number a' = nb_number a \<and> ra_transient a' = ra_transient a"

lemma filter_map_commute: "(\<And>x. x \<in> set xs \<Longrightarrow> P (f x) = P x) \<Longrightarrow> filter P (map f xs) = map f (filter P xs)"
  by (induction xs) auto

lemma upd_turn_attempt_core [simp]: "td_turns (upd_turn_attempt aid f d) = td_turns d" "replies (upd_turn_attempt aid f d) = replies d"
  by (simp_all add: upd_turn_attempt_def replies_def)

lemma upd_turn_attempt_safe:
  assumes "\<And>a. get_turn_attempt aid d = Some a \<Longrightarrow> attempt_mod a (f a)
      \<and> (live_attempt (f a) \<longrightarrow> live_attempt a \<or> (\<forall>t \<in> set (td_turns d). nu_request t = nb_turn a \<longrightarrow> nb_number a = nu_active t))"
  shows "turn_safe solo d (upd_turn_attempt aid f d)"
  unfolding turn_safe_def
proof (intro impI conjI)
  assume ok: "turns_ok d"
  have dist: "distinct (map nb_id (td_attempts d))" using ok by (simp add: turns_ok_def)
  define g where "g = (\<lambda>a. if nb_id a = aid then f a else a)"
  have atts: "td_attempts (upd_turn_attempt aid f d) = map g (td_attempts d)" by (simp add: upd_turn_attempt_def tupd_def g_def)
  have mods: "attempt_mod a (g a)" and live: "live_attempt (g a) \<Longrightarrow>
      live_attempt a \<or> (\<forall>t \<in> set (td_turns d). nu_request t = nb_turn a \<longrightarrow> nb_number a = nu_active t)"
    if "a \<in> set (td_attempts d)" for a
    using assms [of a] tget_distinct [OF dist that] by (cases "nb_id a = aid"; simp add: g_def attempt_mod_def)+
  have of: "tries_of rid (upd_turn_attempt aid f d) = map g (tries_of rid d)" for rid
    unfolding tries_of_def atts using mods by (intro filter_map_commute) (auto simp: attempt_mod_def)
  have sub: "set (tries_of rid d) \<subseteq> set (td_attempts d)" for rid by (auto simp: tries_of_def)
  have numbers: "map nb_number (tries_of rid (upd_turn_attempt aid f d)) = map nb_number (tries_of rid d)" for rid
    using mods sub by (auto simp: of attempt_mod_def)
  have "filter ra_transient (map g (tries_of rid d)) = map g (filter ra_transient (tries_of rid d))" for rid
    using mods sub by (intro filter_map_commute) (auto simp: attempt_mod_def)
  then have marks: "transient_marks rid (upd_turn_attempt aid f d) = transient_marks rid d" for rid
    by (simp add: transient_marks_def of)
  have rows: "attempt_ok t (g a)" if "t \<in> set (td_turns d)" "a \<in> set (tries_of (nu_request t) d)" for t a
  proof -
    have "a \<in> set (td_attempts d)" "nb_turn a = nu_request t" "attempt_ok t a"
      using that ok by (auto simp: tries_of_def turns_ok_def turn_ok_def)
    then show ?thesis using mods [of a] live [of a] that(1) by (auto simp: attempt_ok_def attempt_mod_def)
  qed
  have "turn_ok t (upd_turn_attempt aid f d)" if "t \<in> set (td_turns d)" for t
    using ok that rows [OF that] unfolding turns_ok_def turn_ok_def numbers marks by (auto simp: of)
  moreover have ids: "map nb_id (map g (td_attempts d)) = map nb_id (td_attempts d)"
    using mods by (auto simp: attempt_mod_def)
  moreover have "nb_turn (g a) = nb_turn a" if "a \<in> set (td_attempts d)" for a
    using mods [OF that] by (simp add: attempt_mod_def)
  ultimately show "turns_ok (upd_turn_attempt aid f d)"
    using ok unfolding turns_ok_def reply_ok_def upd_turn_attempt_core atts ids by simp
qed (rule turns_kept_same, simp)

section \<open>Helpers that leave turns alone\<close>

lemma same_core_simps [simp]:
  "same_core d (upd_outbox oid f' d)" "same_core d (upd_group gid g' d)" "same_core d (upd_target tid h' d)"
  "same_core d (append_audit w ty t oc det d)" "same_core d (add_outbox r d)"
  "same_core d (queue_denial xid ad d)" "same_core d (on_turn_recovery t n phase reason d)" "same_core d (cancel_outbox rid ss err d)"
  "same_core d (finish_failure_notice t a mid d)" "same_core d (cancel_row oid err2 d)"
  by (simp_all add: same_core_def replies_def upd_outbox_def upd_group_def upd_target_def append_audit_def add_outbox_def queue_denial_def
      on_turn_recovery_def cancel_outbox_def finish_failure_notice_def cancel_row_def split: option.splits)

lemma same_core_log: "ty \<noteq> ''response_sent'' \<Longrightarrow> same_core d (log_turn ty det t d)"
  by (simp add: same_core_def replies_def log_turn_def add_log_def)

lemma same_core_stale [simp]: "same_core d (audit_stale t gid reason p d)"
  by (simp add: same_core_def replies_def audit_stale_def add_log_def)

lemma same_core_denied [simp]: "same_core d (audit_denied w ty t oc reason d)"
  by (simp add: audit_denied_def split: option.split)

lemma same_core_ready [simp]: "same_core d (mark_ready_if_done gid d)"
  by (simp add: mark_ready_if_done_def split: option.split)

lemma same_core_settle [simp]: "same_core d (settle_own_target t now d)"
  unfolding settle_own_target_def
  by (auto split: option.split intro: same_core_trans [OF same_core_simps(3) same_core_ready])

lemma same_core_close [simp]: "same_core d (close_caller t now d)"
  unfolding close_caller_def
  by (auto split: option.split intro: same_core_trans [OF same_core_simps(2) same_core_ready])

lemma same_core_hook [simp]: "same_core d (on_turn_terminal t now d)"
  unfolding on_turn_terminal_def by (meson same_core_settle same_core_close same_core_trans)

lemma same_core_admission: "execution_admission t ao d = Inr (ad, d') \<Longrightarrow> same_core d d'"
  by (auto simp: execution_admission_def split: option.splits if_splits elim!: bindE_InrE)

lemma same_core_message: "append_message mid room pid content meta thread d = Inr d' \<Longrightarrow> same_core d d'"
  by (auto simp: append_message_def same_core_def replies_def split: if_splits)

lemma same_core_absorb: "absorb_caller_reply rid content d = Some d' \<Longrightarrow> same_core d d'"
  by (auto simp: absorb_caller_reply_def split: option.splits)

lemma same_core_receipt: "native_terminal_receipt now t a fr d = (r, d') \<Longrightarrow> same_core d d'"
  by (auto simp: native_terminal_receipt_def Let_def same_core_def replies_def split: if_splits option.splits)

lemma core_safe: "same_core d d' \<Longrightarrow> turn_safe solo d d'"
  by (rule same_core_safe)

lemma safe_core: "turn_safe solo d e \<Longrightarrow> same_core e d' \<Longrightarrow> turn_safe solo d d'"
  by (meson core_safe turn_safe_trans)

lemma ended_alt: "ended t \<longleftrightarrow> nu_state t \<notin> set OPEN_TURN_STATES"
  by (cases "nu_state t") (simp_all add: ended_def OPEN_TURN_STATES_def)

text \<open>The end of a turn.\<close>

definition may_end :: "bool \<Rightarrow> string \<Rightarrow> turn_db \<Rightarrow> bool" where
  "may_end solo rid d \<longleftrightarrow> (solo \<longrightarrow> (\<forall>t. get_turn rid d = Some t \<longrightarrow> \<not> ended t))"

lemma end_turn_mod: "(solo \<longrightarrow> \<not> ended t) \<Longrightarrow> turn_mod solo t (end_turn e reason at_time t)"
  by (simp add: turn_mod_def end_turn_def)

lemma end_attempt_mod: "attempt_mod a (end_attempt e at_time oc ar a) \<and> \<not> live_attempt (end_attempt e at_time oc ar a)"
  by (cases e) (simp_all add: attempt_mod_def end_attempt_def live_attempt_def)

lemma mark_safe:
  assumes "may_end solo rid d"
  shows "turn_safe solo d (mark_turn_terminal e reason at_time aid oc ar now rid d)"
proof -
  have 1: "turn_safe solo d (upd_turn rid (end_turn e reason at_time) d)"
    using assms by (intro upd_turn_safe end_turn_mod) (simp add: may_end_def)
  have 2: "turn_safe solo d1 (case aid of None \<Rightarrow> d1 | Some k \<Rightarrow> upd_turn_attempt k (end_attempt e at_time oc ar) d1)" for d1
    using end_attempt_mod by (auto split: option.split intro: upd_turn_attempt_safe)
  have 3: "turn_safe solo d2 (case get_turn rid d2 of None \<Rightarrow> d2 | Some t \<Rightarrow> on_turn_terminal t now d2)" for d2
    by (auto split: option.split intro: core_safe)
  show ?thesis unfolding mark_turn_terminal_def Let_def using 1 2 3 turn_safe_trans by blast
qed

lemma mark_core:
  shows "td_turns (mark_turn_terminal e reason at_time aid oc ar now rid d) = tupd nu_request rid (end_turn e reason at_time) (td_turns d)"
    and "replies (mark_turn_terminal e reason at_time aid oc ar now rid d) = replies d"
proof -
  have hook: "td_turns (on_turn_terminal t now x) = td_turns x \<and> replies (on_turn_terminal t now x) = replies x" for t x
    using same_core_hook [of x t now] by (simp add: same_core_def)
  show "td_turns (mark_turn_terminal e reason at_time aid oc ar now rid d) = tupd nu_request rid (end_turn e reason at_time) (td_turns d)"
    "replies (mark_turn_terminal e reason at_time aid oc ar now rid d) = replies d"
    by (simp_all add: mark_turn_terminal_def Let_def hook split: option.split) (simp_all add: upd_turn_def)
qed

section \<open>New rows\<close>

text \<open>The one visible reply of a turn that had none.\<close>

lemma reply_logged:
  assumes "turns_ok d" "t \<in> set (td_turns d)" "rt_accepted t = Some mid" "tl_request l = nu_request t" "tl_type l = ''response_sent''"
    "dget (tl_details l) ''message_id'' = PStr mid" "\<forall>r \<in> set (replies d). tl_request r \<noteq> nu_request t"
  shows "turn_safe solo d (add_log l d)"
proof -
  have r: "replies (add_log l d) = replies d @ [l]" using assms(5) by (simp add: replies_def add_log_def)
  have f: "td_turns (add_log l d) = td_turns d" "td_attempts (add_log l d) = td_attempts d" by (simp_all add: add_log_def)
  have "tries_of rid (add_log l d) = tries_of rid d" for rid by (simp add: tries_of_def f)
  then have "turns_ok (add_log l d)"
    using assms by (auto simp: turns_ok_def r f turn_ok_def transient_marks_def reply_ok_def opt_str_def)
  then show ?thesis using f(1) turns_kept_same by (simp add: turn_safe_def)
qed

lemma turn_created:
  assumes "nu_request t \<notin> nu_request ` set (td_turns d)" "nb_id a \<notin> nb_id ` set (td_attempts d)"
    "nb_turn a = nu_request t" "nb_number a = 1" "nu_active t = 1" "\<not> ra_transient a" "0 \<le> rt_retries t" "0 \<le> rt_max t"
    "td_turns d' = td_turns d @ [t]" "td_attempts d' = td_attempts d @ [a]" "replies d' = replies d"
  shows "turn_safe solo d d'"
  unfolding turn_safe_def
proof (intro impI conjI)
  assume ok: "turns_ok d"
  have none: "tries_of (nu_request t) d = []"
    using ok assms(1) unfolding tries_of_def filter_empty_conv turns_ok_def by metis
  have old: "tries_of rid d' = tries_of rid d" if "rid \<noteq> nu_request t" for rid
    using that assms by (simp add: tries_of_def)
  have new: "tries_of (nu_request t) d' = [a]"
    using none assms by (simp add: tries_of_def)
  have "turn_ok s d'" if "s \<in> set (td_turns d)" for s
  proof -
    have "nu_request s \<noteq> nu_request t" using that assms(1) by (metis image_eqI)
    then show ?thesis using ok that old [of "nu_request s"] by (simp add: turns_ok_def turn_ok_def transient_marks_def)
  qed
  moreover have "turn_ok t d'"
    using assms by (simp add: turn_ok_def new transient_marks_def attempt_ok_def)
  moreover have "reply_ok d' l" if "reply_ok d l" for l using that assms(9) by (auto simp: reply_ok_def)
  ultimately show "turns_ok d'" using ok assms by (auto simp: turns_ok_def)
next
  show "turns_kept solo d d'" unfolding turns_kept_def assms(9) by (metis UnCI set_append turn_kept_refl)
qed

text \<open>
  A further attempt: every earlier one is over, and the turn has budget: a transient retry marks
  the fenced attempt, any other retry is one of \<open>rt_max\<close>.
\<close>

lemma turn_extended:
  assumes ok: "turns_ok d" and t: "t \<in> set (td_turns d)"
    and dead: "\<forall>a \<in> set (tries_of (nu_request t) d). \<not> live_attempt a"
    and turns: "td_turns d' = map (\<lambda>s. if nu_request s = nu_request t then t' else s) (td_turns d)"
    and t': "nu_request t' = nu_request t" "rt_key t' = rt_key t" "rt_max t' = rt_max t" "nu_active t' = nu_active t + 1"
      "rt_retries t' = rt_retries t + 1" "rt_accepted t' = rt_accepted t" "solo \<longrightarrow> nu_state t \<noteq> TnCompleted"
    and atts: "td_attempts d' = map (\<lambda>a. if mark \<and> nb_id a = aid then a\<lparr>ra_transient := True\<rparr> else a) (td_attempts d) @ [n]"
    and n: "nb_turn n = nu_request t" "nb_number n = nu_active t + 1" "\<not> ra_transient n" "nb_id n \<notin> nb_id ` set (td_attempts d)"
    and aid: "mark \<longrightarrow> (\<exists>a \<in> set (tries_of (nu_request t) d). nb_id a = aid \<and> nb_number a = nu_active t)"
    and budget: "if mark then transient_marks (nu_request t) d < MAX_TRANSIENT_RETRIES
      else nu_active t - transient_marks (nu_request t) d \<le> rt_max t"
    and rest: "replies d' = replies d"
  shows "turns_ok d' \<and> turns_kept solo d d'"
proof
  define g :: "run_attempt \<Rightarrow> run_attempt" where "g = (\<lambda>a. if mark \<and> nb_id a = aid then a\<lparr>ra_transient := True\<rparr> else a)"
  have g: "nb_id (g a) = nb_id a" "nb_turn (g a) = nb_turn a" "nb_number (g a) = nb_number a" "live_attempt (g a) = live_attempt a" for a
    by (simp_all add: g_def live_attempt_def)
  have atts: "td_attempts d' = map g (td_attempts d) @ [n]" by (simp add: atts g_def)
  have tries: "tries_of rid d' = map g (tries_of rid d) @ (if rid = nu_request t then [n] else [])" for rid
    using n(1) by (simp add: tries_of_def atts filter_map_commute [where f = g] g)
  have tok: "turn_ok t d" using ok t by (simp add: turns_ok_def)
  have dist: "distinct (map nb_id (td_attempts d))" using ok by (simp add: turns_ok_def)
  have elsewhere: "map g (tries_of rid d) = tries_of rid d" if other: "rid \<noteq> nu_request t" for rid
  proof -
    have "g a = a" if a: "a \<in> set (tries_of rid d)" for a
    proof (cases "mark \<and> nb_id a = aid")
      case True
      then obtain b where "b \<in> set (tries_of (nu_request t) d)" "nb_id b = nb_id a" using aid by auto
      then have "b = a" using dist a by (auto simp: tries_of_def distinct_map dest: inj_onD)
      then show ?thesis using \<open>b \<in> _\<close> a other by (auto simp: tries_of_def)
    qed (auto simp: g_def)
    then show ?thesis by (simp add: map_idI)
  qed
  have count: "transient_marks (nu_request t) d' = transient_marks (nu_request t) d + (if mark then 1 else 0)"
  proof (cases mark)
    case False
    then have "map g xs = xs" for xs by (simp add: g_def map_idI)
    then show ?thesis using False n(3) by (simp add: transient_marks_def tries)
  next
    case True
    then obtain a where a: "a \<in> set (tries_of (nu_request t) d)" "nb_id a = aid" "nb_number a = nu_active t" using aid by auto
    have unmarked: "\<not> ra_transient a" using tok a by (fastforce simp: turn_ok_def attempt_ok_def)
    obtain ys zs where split: "tries_of (nu_request t) d = ys @ a # zs" using a(1) by (meson split_list)
    have "distinct (map nb_id (tries_of (nu_request t) d))" using dist by (simp add: tries_of_def distinct_map_filter)
    then have out: "aid \<notin> nb_id ` set ys" "aid \<notin> nb_id ` set zs" unfolding split using a(2) by auto
    have "map g xs = xs" if "aid \<notin> nb_id ` set xs" for xs
      using that by (induction xs) (auto simp: g_def)
    then have "map g ys = ys" "map g zs = zs" using out by blast+
    moreover have "ra_transient (g a)" using True a(2) by (simp add: g_def)
    ultimately show ?thesis using True n(3) unmarked by (simp add: transient_marks_def tries split)
  qed
  have row: "turn_ok t' d'"
  proof -
    have "map nb_number (tries_of (nu_request t) d') = [1..nu_active t] @ [nu_active t + 1]"
      using tok n by (simp add: tries turn_ok_def g comp_def)
    then have "map nb_number (tries_of (nu_request t) d') = [1..nu_active t + 1]"
      using tok by (simp add: turn_ok_def upto_rec2 [of 1 "nu_active t + 1"])
    moreover have "attempt_ok t' (g a)" if "a \<in> set (tries_of (nu_request t) d)" for a
    proof -
      have "nb_number a \<le> nu_active t"
        using tok that by (auto simp: turn_ok_def dest!: arg_cong [where f = set])
      then show ?thesis using dead that t' by (auto simp: attempt_ok_def g)
    qed
    moreover have "attempt_ok t' n" using n t' by (simp add: attempt_ok_def)
    ultimately show ?thesis
      using tok t' budget count by (auto simp: turn_ok_def tries split: if_splits)
  qed
  have other: "turn_ok s d'" if "s \<in> set (td_turns d)" "nu_request s \<noteq> nu_request t" for s
    using ok that elsewhere [of "nu_request s"] by (simp add: turns_ok_def turn_ok_def tries transient_marks_def)
  have "\<forall>s \<in> set (td_turns d'). turn_ok s d'" using row other by (auto simp: turns)
  moreover have reqs: "map nu_request (td_turns d') = map nu_request (td_turns d)" using t'(1) by (simp add: turns)
  moreover have "reply_ok d' l" if l: "reply_ok d l" for l
  proof -
    obtain s where s: "s \<in> set (td_turns d)" "nu_request s = tl_request l" "rt_accepted s \<noteq> None"
      "dget (tl_details l) ''message_id'' = opt_str (rt_accepted s)" using l unfolding reply_ok_def by blast
    have "distinct (map nu_request (td_turns d))" using ok by (simp add: turns_ok_def)
    then have "nu_request s = nu_request t \<Longrightarrow> s = t" using s(1) t by (auto simp: distinct_map dest: inj_onD)
    then have "(if nu_request s = nu_request t then t' else s) \<in> set (td_turns d')" "rt_accepted (if nu_request s = nu_request t then t' else s) = rt_accepted s"
      "nu_request (if nu_request s = nu_request t then t' else s) = nu_request s"
      using s(1) t'(1,6) by (auto simp: turns)
    then show ?thesis using s unfolding reply_ok_def by metis
  qed
  moreover have ids: "map nb_id (td_attempts d') = map nb_id (td_attempts d) @ [nb_id n]" by (simp add: atts g)
  moreover have "nb_turn a \<in> nu_request ` set (td_turns d')" if "a \<in> set (td_attempts d')" for a
  proof -
    have "nu_request ` set (td_turns d') = nu_request ` set (td_turns d)" using reqs by (metis set_map)
    then show ?thesis using that ok t n(1) by (auto simp: atts g turns_ok_def)
  qed
  ultimately show "turns_ok d'"
    using ok n(4) unfolding turns_ok_def reqs ids rest by simp
  show "turns_kept solo d d'"
    unfolding turns_kept_def
  proof
    fix s assume s: "s \<in> set (td_turns d)"
    show "\<exists>s' \<in> set (td_turns d'). turn_kept solo s s'"
    proof (cases "nu_request s = nu_request t")
      case True
      have "distinct (map nu_request (td_turns d))" using ok by (simp add: turns_ok_def)
      then have "s = t" using s t True by (auto simp: distinct_map dest: inj_onD)
      then have "turn_kept solo s t'" using t' by (simp add: turn_kept_def)
      then show ?thesis using s True by (auto simp: turns)
    qed (use s in \<open>auto simp: turns intro!: bexI [of _ s] rev_image_eqI\<close>)
  qed
qed

end
