(* ===== verification/TurnSteps.thy ===== *)
theory TurnSteps
  imports TurnSafety
begin

text \<open>
  The durable turns as a step relation: one step is one transaction of turns/service.py,
  turns/cancel.py, turns/start_service.py, of the reply's send path or of the user's retry. A step
  with \<open>solo\<close> runs alone (SQLite's writer lock); otherwise any other steps may commit between the
  unlocked read of a turn and its lock (PostgreSQL).
\<close>

section \<open>The lock\<close>

lemma lock_get:
  assumes "lock_scoped_turn between rid d = (Some t, b, d1)"
  shows "get_turn rid d1 = Some t" "nu_request t = rid" "d1 = between d"
proof -
  show "get_turn rid d1 = Some t" "d1 = between d"
    using assms by (auto simp: lock_scoped_turn_def Let_def split: option.splits if_splits)
  then show "nu_request t = rid" by (auto dest: tget_Some_key)
qed

lemma lock_safe:
  assumes "\<And>e. turn_safe solo e (between e)" "lock_scoped_turn between rid d = (x, b, d1)"
  shows "turn_safe solo d d1"
  using assms by (auto simp: lock_scoped_turn_def Let_def split: option.splits if_splits)

lemma lock_self: "get_turn rid d = Some t \<Longrightarrow> lock_scoped_turn (\<lambda>e. e) rid d = (Some t, False, d)"
  by (simp add: lock_scoped_turn_def same_binding_def)

lemma may_end_open: "get_turn rid d = Some t \<Longrightarrow> nu_state t \<in> set OPEN_TURN_STATES \<Longrightarrow> may_end solo rid d"
  by (simp add: may_end_def ended_alt)

section \<open>Creating\<close>

lemma bind_workspace_core:
  assumes "bind_turn_workspace now t d = (ws, t', d')"
  shows "same_core d d'" "nu_request t' = nu_request t" "rt_retries t' = rt_retries t" "rt_max t' = rt_max t" "nu_active t' = nu_active t"
  using assms by (auto simp: bind_turn_workspace_def Let_def split: option.splits)

lemma bind_task_core [simp]:
  "nu_request (bind_turn_task ko t) = nu_request t" "rt_retries (bind_turn_task ko t) = rt_retries t"
  "rt_max (bind_turn_task ko t) = rt_max t" "nu_active (bind_turn_task ko t) = nu_active t"
  by (simp_all add: bind_turn_task_def split: option.split)

lemma refusal_core: "refusal_of running ws now t d = Inr (rf, d') \<Longrightarrow> same_core d d'"
  by (auto simp: refusal_of_def bindE_Inr_iff split: if_splits prod.splits dest: same_core_admission)

lemma mark_attempts_None: "td_attempts (mark_turn_terminal e reason at_time None oc ar now rid d) = td_attempts d"
proof -
  have "td_attempts (on_turn_terminal t now x) = td_attempts x" for t x
    using same_core_hook [of x t now] by (simp add: same_core_def)
  then show ?thesis by (simp add: mark_turn_terminal_def Let_def split: option.split)
qed

lemma tupd_absent: "k \<notin> key ` set rows \<Longrightarrow> tupd key k f rows = rows"
  unfolding tupd_def by (rule map_idI) auto

lemma insert_turn_safe:
  assumes "nu_request t \<notin> nu_request ` set (td_turns d)" "fi_attempt ids \<notin> nb_id ` set (td_attempts d)"
    "nu_active t = 1" "0 \<le> rt_retries t" "0 \<le> rt_max t"
  shows "turn_safe solo d (insert_turn t ids gen refusal now d)"
proof (cases refusal)
  case None
  have "td_turns (insert_turn t ids gen refusal now d) = td_turns d @ [t]"
    "td_attempts (insert_turn t ids gen refusal now d) = td_attempts d @ [new_attempt_row ids (nu_request t) (nu_agent t) 1 gen]"
    "replies (insert_turn t ids gen refusal now d) = replies d"
    by (simp_all add: None insert_turn_def Let_def add_outbox_def add_attempt_def replies_def)
  then show ?thesis
    using assms by (intro turn_created [where t = t and a = "new_attempt_row ids (nu_request t) (nu_agent t) 1 gen"])
      (simp_all add: new_attempt_row_def)
next
  case (Some r)
  define t' where "t' = end_turn EndCancelled (Some r) None t"
  define a where "a = (new_attempt_row ids (nu_request t) (nu_agent t) 1 gen)\<lparr>nb_state := TaCancelled, ra_reason := Some r\<rparr>"
  define m where "m = mark_turn_terminal EndCancelled (Some r) None None None None now (nu_request t) (d\<lparr>td_turns := td_turns d @ [t]\<rparr>)"
  have ins: "insert_turn t ids gen refusal now d = add_attempt a m" by (simp add: Some insert_turn_def a_def m_def Let_def)
  have "tupd nu_request (nu_request t) f (td_turns d @ [t]) = td_turns d @ [f t]" for f
    using tupd_absent [OF assms(1)] by (simp add: tupd_def)
  then have "td_turns m = td_turns d @ [t']" by (simp add: m_def mark_core t'_def)
  moreover have "td_attempts m = td_attempts d" by (simp add: m_def mark_attempts_None)
  moreover have "replies m = replies d" unfolding m_def mark_core by (simp add: replies_def)
  ultimately have "td_turns (insert_turn t ids gen refusal now d) = td_turns d @ [t']"
    "td_attempts (insert_turn t ids gen refusal now d) = td_attempts d @ [a]" "replies (insert_turn t ids gen refusal now d) = replies d"
    by (simp_all add: ins add_attempt_def replies_def)
  then show ?thesis
    using assms by (intro turn_created [where t = t' and a = a]) (simp_all add: t'_def a_def new_attempt_row_def end_turn_def)
qed

lemma create_safe:
  assumes "\<And>e. turn_safe solo e (between e)" "create_turn between now ids q d = Inr (rid, d')"
    and fresh: "\<forall>e \<in> {d, between d}. the (or_else (tq_request q) (fi_request ids)) \<notin> nu_request ` set (td_turns e) \<and> fi_attempt ids \<notin> nb_id ` set (td_attempts e)"
    and "0 \<le> tq_retries q" "0 \<le> tq_max q"
  shows "turn_safe solo d d'"
proof (cases "find (\<lambda>t. rt_key t = request_key q) (td_turns d)")
  case (Some t)
  then show ?thesis using assms(2) by (simp add: create_turn_def Let_def)
next
  case None
  define d1 where "d1 = (if tq_task q = None then d else between d)"
  have d1: "turn_safe solo d d1" "d1 \<in> {d, between d}" using assms(1) by (auto simp: d1_def)
  obtain ws t1 d2 where b: "bind_turn_workspace now (new_turn q (the (or_else (tq_request q) (fi_request ids))) now) d1 = (ws, t1, d2)"
    by (metis prod_cases3)
  define t where "t = bind_turn_task (opt_get k_id (tq_task q) (td_tasks d1)) t1"
  obtain running gen refusal d3 where r: "refusal_of running ws now t d2 = Inr (refusal, d3)"
    and d': "d' = insert_turn t ids gen refusal now d3"
    using assms(2) None by (auto simp: create_turn_def Let_def b d1_def [symmetric] t_def bindE_Inr_iff split: if_splits)
  have core: "same_core d1 d3" using bind_workspace_core(1) [OF b] refusal_core [OF r] same_core_trans by blast
  have t: "nu_request t = the (or_else (tq_request q) (fi_request ids))" "nu_active t = 1" "rt_retries t = tq_retries q" "rt_max t = tq_max q"
    using bind_workspace_core [OF b] by (simp_all add: t_def new_turn_def)
  have "turn_safe solo d3 d'"
    unfolding d' using core fresh d1(2) t assms(4,5) by (intro insert_turn_safe) (auto simp: same_core_def)
  then show ?thesis using d1(1) safe_core [OF d1(1) core] turn_safe_trans by blast
qed

section \<open>Delivering\<close>

lemma cancel_delivery_safe: "may_end solo (nu_request t) d \<Longrightarrow> turn_safe solo d (cancel_delivery now oid t a reason d)"
  unfolding cancel_delivery_def by (rule safe_core [OF mark_safe same_core_simps(10)])

lemma mark_legacy_safe [simp]: "turn_safe solo d (mark_legacy env t d)"
  by (simp add: mark_legacy_def) (rule impI, rule upd_turn_safe, simp add: turn_mod_def)

lemma mark_legacy_attempts [simp]: "td_attempts (mark_legacy env t d) = td_attempts d"
  by (simp add: mark_legacy_def)

lemma lease_delivery_safe:
  assumes "get_turn_attempt (nb_id a) d = Some a"
  shows "turn_safe solo d (fst (lease_delivery env now lease_now oid t a g dl d))"
proof (cases "\<exists>r. get_outbox oid d = Some r \<and> ro_state r = ObPending \<and> \<not> now < ro_available r")
  case False
  then have "fst (lease_delivery env now lease_now oid t a g dl d) = d"
    by (auto simp: lease_delivery_def split: option.split)
  then show ?thesis by simp
next
  case True
  define d1 where "d1 = upd_outbox oid (\<lambda>r. r\<lparr>ro_available := now + seconds OUTBOX_RECLAIM_SEC, ro_count := ro_count r + 1\<rparr>) d"
  define d2 where "d2 = mark_legacy env t d1"
  have "turn_safe solo d d1" by (simp add: d1_def core_safe)
  then have 2: "turn_safe solo d d2" unfolding d2_def using mark_legacy_safe turn_safe_trans by blast
  have "td_attempts d2 = td_attempts d" by (simp add: d2_def d1_def upd_outbox_def)
  then have a: "get_turn_attempt (nb_id a) d2 = Some a" using assms by simp
  have 3: "nb_state a = TaPending \<Longrightarrow> turn_safe solo d2 (upd_turn_attempt (nb_id a) (lease_attempt lease_now (turn_lease_seconds g)) d2)"
    by (rule upd_turn_attempt_safe) (use a in \<open>simp add: attempt_mod_def lease_attempt_def live_attempt_def\<close>)
  have 4: "turn_safe solo x (upd_turn (nu_request t) (\<lambda>t. if nu_state t \<in> {TnPending, TnRetrying} then t\<lparr>nu_state := TnLeased\<rparr> else t) x)" for x
    by (intro upd_turn_safe) (auto simp: turn_mod_def ended_def)
  have "fst (lease_delivery env now lease_now oid t a g dl d) = (if nb_state a = TaPending
      then upd_turn (nu_request t) (\<lambda>t. if nu_state t \<in> {TnPending, TnRetrying} then t\<lparr>nu_state := TnLeased\<rparr> else t)
             (upd_turn_attempt (nb_id a) (lease_attempt lease_now (turn_lease_seconds g)) d2) else d2)"
    using True by (auto simp: lease_delivery_def d2_def d1_def Let_def)
  then show ?thesis using 2 turn_safe_trans [OF turn_safe_trans [OF 2 3] 4] by simp
qed

lemma dispatch_safe:
  assumes "dispatch_claimed env now lease_now oid row t a g m snapshot d = Inr (d', dl)" "may_end solo (nu_request t) d"
    "get_turn_attempt (nb_id a) d = Some a"
  shows "turn_safe solo d d'"
proof -
  have "turn_safe solo d (upd_outbox oid f d1)" if "execution_admission t (Some a) d = Inr (ad, d1)" for ad d1 f
    using same_core_trans [OF same_core_admission [OF that] same_core_simps(1)] core_safe by blast
  moreover have "turn_safe solo d (cancel_row oid err (mark_legacy env t d))" for err
    by (rule safe_core [OF mark_legacy_safe same_core_simps(10)])
  moreover have "turn_safe solo d d'" if "lease_delivery env now lease_now oid t a g dl' d = (d', dl)" for dl'
    using lease_delivery_safe [OF assms(3), of solo env now lease_now oid t g dl'] that by simp
  ultimately show ?thesis
    using assms(1) cancel_delivery_safe [OF assms(2)]
    unfolding dispatch_claimed_def by (auto simp: bindE_Inr_iff core_safe split: if_splits)
qed


lemma mark_end_safe: "may_end solo rid d \<Longrightarrow> same_core (mark_turn_terminal e reason at_time aid oc ar now rid d) d' \<Longrightarrow> turn_safe solo d d'"
  by (rule safe_core [OF mark_safe])

lemma gated_safe:
  assumes r: "gated_claim env now lease_now oid row t a d = Inr (d', dl)" and e: "may_end solo (nu_request t) d"
    and a: "get_turn_attempt (nb_id a) d = Some a"
  shows "turn_safe solo d d'"
proof -
  have log: "turn_safe solo d (log_turn ''turn_cancelled'' det t (cancel_delivery now oid t a reason d))" for det reason
    by (rule safe_core [OF cancel_delivery_safe [OF e] same_core_log]) simp
  have denied: "turn_safe solo d (audit_denied w ''dispatch_denied'' t oc rs (cancel_delivery now oid t a reason d))" for w oc rs reason
    by (rule safe_core [OF cancel_delivery_safe [OF e] same_core_denied])
  have gone: "turn_safe solo d (cancel_row oid None (mark_turn_terminal EndCancelled rs None aid oc ar now (nu_request t) d))" for rs aid oc ar
    by (rule mark_end_safe [OF e same_core_simps(10)])
  show ?thesis
    using r cancel_delivery_safe [OF e] log denied gone dispatch_safe [OF _ e a]
    by (auto simp: gated_claim_def Let_def split: prod.splits if_splits option.splits)
qed

lemma claim_safe:
  assumes "\<And>e. turn_safe solo e (between e)" "solo \<longrightarrow> between = (\<lambda>e. e)" "claim_outbox env between now lease_now oid d = Inr (d', dl)"
  shows "turn_safe solo d d'"
proof -
  consider "same_core d d'"
    | b d1 x where "lock_scoped_turn between x d = b" "d1 = snd (snd b)" "d' = d1"
    | row t0 t a d1 where "get_turn (ro_turn row) d = Some t0" "nu_state t0 \<in> set OPEN_TURN_STATES"
        "lock_scoped_turn between (ro_turn row) d = (Some t, False, d1)" "get_turn_attempt (ro_attempt row) d1 = Some a"
        "gated_claim env now lease_now oid row t a d1 = Inr (d', dl)"
    using assms(3) unfolding claim_outbox_def
    by (auto split: option.splits if_splits prod.splits bool.splits)
  then show ?thesis
  proof cases
    case 2
    then show ?thesis using lock_safe [OF assms(1)] by (metis prod.exhaust_sel)
  next
    case 3
    note lk = lock_get [OF 3(3)]
    have "solo \<Longrightarrow> t = t0" using 3(1) lk assms(2) by simp
    then have "may_end solo (nu_request t) d1"
      using 3(2) lk by (auto simp: may_end_def ended_alt)
    moreover have "get_turn_attempt (nb_id a) d1 = Some a" using 3(4) tget_Some_key by fastforce
    ultimately show ?thesis using gated_safe [OF 3(5)] lock_safe [OF assms(1) 3(3)] turn_safe_trans by blast
  qed (rule core_safe)
qed

lemma confirm_safe [simp]: "turn_safe solo d (fst (confirm_delivery now oid dl d))"
proof -
  have "turn_safe solo d (log_turn ''turn_dispatched'' det t (upd_outbox oid f d))" for det t f
    by (rule core_safe [OF same_core_trans [OF same_core_simps(1) same_core_log]]) simp
  then show ?thesis by (auto simp: confirm_delivery_def split: option.split)
qed


section \<open>The reply\<close>

text \<open>What an accepting answer reserved: the turn is completing and no reply was accepted before.\<close>

lemma begin_notice_effect:
  assumes "begin_failure_notice now t a oc d = (dec, d')"
  shows "same_core d d'" "\<And>aid. dec \<noteq> DAccept aid"
  using assms by (auto simp: begin_failure_notice_def Let_def same_core_def replies_def split: if_splits option.splits)

lemma reserve_effect:
  assumes r: "reserve_completion now gid legacy p t a d = (dec, d')" and t: "get_turn (nu_request t) d = Some t"
    and a: "active_attempt_of t d = Some a" "get_turn_attempt (nb_id a) d = Some a"
  shows "turn_safe solo d d'"
    and "dec = DAccept aid \<Longrightarrow> \<exists>t'. get_turn (nu_request t) d' = Some t' \<and> nu_state t' = TnCompleting \<and> rt_accepted t' = None"
proof -
  define d1 where "d1 = upd_turn (nu_request t) (\<lambda>t. t\<lparr>nu_state := TnCompleting, rt_updated := now\<rparr>) d"
  define d2 where "d2 = (if legacy
      then add_log \<lparr>tl_agent = Some gid, tl_type = ''legacy_completion_accepted'', tl_request = nu_request t,
             tl_room = nu_room t, tl_details = [(''attempt'', PInt 1)]\<rparr> (upd_turn (nu_request t) (\<lambda>t. t\<lparr>rt_protocol := 0\<rparr>) d1)
      else d1)"
  define ok where "ok \<longleftrightarrow> nu_state t \<in> {TnPending, TnLeased, TnRetrying} \<and> nu_active t = nb_number a \<and> rt_accepted t = None"
  have dec: "if ok then dec = DAccept (nb_id a) \<and> d' = upd_turn_attempt (nb_id a) (\<lambda>a. a\<lparr>nb_state := TaCompleting\<rparr>) d2
      else same_core d d' \<and> (\<forall>aid. dec \<noteq> DAccept aid)"
    using r unfolding reserve_completion_def ok_def d1_def d2_def
    by (auto simp: Let_def stale_def split: if_splits)
  have num: "nb_turn a = nu_request t" "nb_number a = nu_active t" using a(1) by (auto simp: active_attempt_of_def find_Some_iff)
  have s1: "turn_safe solo d d1" if ok
    unfolding d1_def by (rule upd_turn_safe) (use that t in \<open>auto simp: turn_mod_def ended_def ok_def\<close>)
  have s2: "turn_safe solo d1 d2"
  proof (cases legacy)
    case True
    have "turn_safe solo d1 (upd_turn (nu_request t) (\<lambda>t. t\<lparr>rt_protocol := 0\<rparr>) d1)"
      by (rule upd_turn_safe) (simp add: turn_mod_def)
    moreover have "same_core x (add_log \<lparr>tl_agent = Some gid, tl_type = ''legacy_completion_accepted'', tl_request = nu_request t,
        tl_room = nu_room t, tl_details = [(''attempt'', PInt 1)]\<rparr> x)" for x
      by (simp add: same_core_def replies_def add_log_def)
    ultimately show ?thesis using True safe_core by (simp add: d2_def)
  qed (simp add: d2_def)
  have f: "td_attempts d2 = td_attempts d" "td_turns d2 = tupd nu_request (nu_request t) (\<lambda>t. t\<lparr>rt_protocol := 0\<rparr>) (td_turns d1) \<or> td_turns d2 = td_turns d1"
    by (simp_all add: d2_def d1_def add_log_def upd_turn_def)
  have g: "\<exists>t'. get_turn (nu_request t) d2 = Some t' \<and> nu_state t' = TnCompleting \<and> rt_accepted t' = None \<and> nu_active t' = nu_active t" if ok
    using that t f(2) by (auto simp: d1_def upd_turn_def tget_tupd ok_def)
  show "dec = DAccept aid \<Longrightarrow> \<exists>t'. get_turn (nu_request t) d' = Some t' \<and> nu_state t' = TnCompleting \<and> rt_accepted t' = None"
    using dec g by (cases ok) auto
  show "turn_safe solo d d'"
  proof (cases ok)
    case False
    then show ?thesis using dec core_safe by simp
  next
    case True
    have "turn_safe solo d2 (upd_turn_attempt (nb_id a) (\<lambda>a. a\<lparr>nb_state := TaCompleting\<rparr>) d2)"
      unfolding turn_safe_def
    proof (rule impI)
      assume ok: "turns_ok d2"
      have "nb_number a = nu_active s" if "s \<in> set (td_turns d2)" "nu_request s = nb_turn a" for s
        using g [OF True] tget_distinct [of nu_request "td_turns d2" s] ok that num by (auto simp: turns_ok_def)
      then have "turn_safe solo d2 (upd_turn_attempt (nb_id a) (\<lambda>a. a\<lparr>nb_state := TaCompleting\<rparr>) d2)"
        by (intro upd_turn_attempt_safe) (use a(2) f(1) in \<open>auto simp: attempt_mod_def\<close>)
      then show "turns_ok (upd_turn_attempt (nb_id a) (\<lambda>a. a\<lparr>nb_state := TaCompleting\<rparr>) d2)
          \<and> turns_kept solo d2 (upd_turn_attempt (nb_id a) (\<lambda>a. a\<lparr>nb_state := TaCompleting\<rparr>) d2)"
        using ok by (simp add: turn_safe_def)
    qed
    then show ?thesis using True dec s1 s2 turn_safe_trans by metis
  qed
qed


lemma turn_safeI: "(turns_ok d \<Longrightarrow> turn_safe solo d d') \<Longrightarrow> turn_safe solo d d'"
  by (auto simp: turn_safe_def)

lemma turn_safe_ok: "turn_safe solo d d' \<Longrightarrow> turns_ok d \<Longrightarrow> turns_ok d'"
  by (simp add: turn_safe_def)

lemma active_attempt_get: "turns_ok d \<Longrightarrow> active_attempt_of t d = Some a \<Longrightarrow> get_turn_attempt (nb_id a) d = Some a"
  by (rule tget_distinct) (auto simp: turns_ok_def active_attempt_of_def find_Some_iff)

definition reserved_turn :: "string option \<Rightarrow> turn_db \<Rightarrow> completion_decision \<Rightarrow> bool" where
  "reserved_turn rid d dec \<longleftrightarrow>
     (\<forall>aid. dec = DAccept aid \<longrightarrow> (\<exists>t. opt_get nu_request rid (td_turns d) = Some t \<and> nu_state t = TnCompleting \<and> rt_accepted t = None))"

lemma proven_effect:
  assumes r: "proven_completion now gid p oc t a d = (dec, d')" and t: "get_turn (nu_request t) d = Some t"
    and a: "active_attempt_of t d = Some a" and ok: "turns_ok d"
  shows "turn_safe solo d d' \<and> reserved_turn (Some (nu_request t)) d' dec"
proof -
  consider "same_core d d'" "\<And>aid. dec \<noteq> DAccept aid" | "begin_failure_notice now t a (the oc) d = (dec, d')"
    | "reserve_completion now gid (legacy_proof p) p t a d = (dec, d')"
    using r by (auto simp: proven_completion_def stale_def split: if_splits prod.splits)
  then show ?thesis
  proof cases
    case 1
    then show ?thesis by (simp add: reserved_turn_def core_safe)
  next
    case 2
    then show ?thesis using begin_notice_effect [OF 2] by (simp add: reserved_turn_def core_safe)
  next
    case 3
    then show ?thesis using reserve_effect [OF 3 t a active_attempt_get [OF ok a]]
      by (auto simp: reserved_turn_def opt_get_def)
  qed
qed

lemma begin_effect:
  assumes b: "\<And>e. turn_safe solo e (between e)" and r: "begin_completion between now rid room pid gid p oc d = (dec, d')" and ok: "turns_ok d"
  shows "turn_safe solo d d' \<and> reserved_turn rid d' dec"
proof -
  have denied: "same_core x (audit_denied w ty t oc1 rs (audit_stale t gid1 rs1 p x))" for x w ty t oc1 rs gid1 rs1
    using same_core_stale same_core_denied same_core_trans by blast
  show ?thesis
  proof (cases "rid = None \<or> rid = Some []")
    case True
    then show ?thesis using r by (auto simp: begin_completion_def reserved_turn_def)
  next
    case False
    then obtain c k where rid: "rid = Some (c # k)" by (metis list.exhaust option.exhaust)
    obtain x st d1 where lk: "lock_scoped_turn between (c # k) d = (x, st, d1)" by (metis prod_cases3)
    have safe: "turn_safe solo d d1" by (rule lock_safe [OF b lk])
    show ?thesis
    proof (cases x)
      case None
      then have "d' = d1" "\<And>aid. dec \<noteq> DAccept aid" using r by (auto simp: begin_completion_def rid lk split: bool.splits)
      then show ?thesis using safe by (simp add: reserved_turn_def)
    next
      case (Some t)
      have t: "get_turn (nu_request t) d1 = Some t" "nu_request t = c # k" using lock_get [OF lk [unfolded Some]] by auto
      consider "same_core d1 d'" "\<And>aid. dec \<noteq> DAccept aid"
        | a where "active_attempt_of t d1 = Some a" "proven_completion now gid p oc t a d1 = (dec, d')"
        using r denied by (auto simp: begin_completion_def rid lk Some Let_def stale_def split: prod.splits if_splits option.splits)
      then show ?thesis
      proof cases
        case 1
        then show ?thesis using safe_core [OF safe 1(1)] by (simp add: reserved_turn_def)
      next
        case 2
        show ?thesis using proven_effect [OF 2(2) t(1) 2(1) turn_safe_ok [OF safe ok]] safe turn_safe_trans t(2) rid by metis
      qed
    qed
  qed
qed


lemma get_upd_turn:
  assumes "\<And>t. nu_request t = rid \<Longrightarrow> nu_request (f t) = rid" "get_turn rid d = Some t"
  shows "get_turn rid (upd_turn rid f d) = Some (f t)"
  using assms by (simp add: upd_turn_def tget_tupd)

lemma deferred_safe:
  assumes "get_turn (nu_request t) d = Some u" "\<not> ended u"
  shows "turn_safe solo d (finish_deferred now t a d)"
proof -
  let ?d1 = "upd_turn (nu_request t) (\<lambda>t. t\<lparr>rt_updated := now\<rparr>) d"
  have 1: "turn_safe solo d ?d1" by (rule upd_turn_safe) (simp add: turn_mod_def)
  have "get_turn (nu_request t) ?d1 = Some (u\<lparr>rt_updated := now\<rparr>)" using assms(1) by (intro get_upd_turn) simp_all
  then have 2: "may_end solo (nu_request t) ?d1" using assms(2) by (simp add: may_end_def ended_def)
  show ?thesis unfolding finish_deferred_def
    by (rule turn_safe_trans [OF 1 mark_end_safe [OF 2 same_core_log]]) simp
qed

lemma no_reply_yet:
  assumes "turns_ok d" "get_turn rid d = Some t" "rt_accepted t = None"
  shows "\<forall>r \<in> set (replies d). tl_request r \<noteq> rid"
proof (intro ballI notI)
  fix r assume r: "r \<in> set (replies d)" "tl_request r = rid"
  then obtain s where s: "s \<in> set (td_turns d)" "nu_request s = rid" "rt_accepted s \<noteq> None"
    using assms(1) unfolding turns_ok_def reply_ok_def by metis
  then show False using assms tget_distinct [of nu_request "td_turns d" s] by (auto simp: turns_ok_def)
qed

lemma completion_safe:
  assumes ok: "turns_ok d" and t: "get_turn (nu_request t) d = Some u" "\<not> ended u" "rt_accepted u = None"
  shows "turn_safe solo d (finish_completion now t a mid d)"
proof -
  let ?rid = "nu_request t"
  define d1 where "d1 = upd_turn ?rid (\<lambda>t. t\<lparr>rt_accepted := Some mid, rt_updated := now\<rparr>) d"
  define d2 where "d2 = mark_turn_terminal EndCompleted (rt_reason t) (Some now) (Some (nb_id a)) (Some ''ok'') None now ?rid d1"
  define l where "l = \<lparr>tl_agent = nu_agent t, tl_type = ''response_sent'', tl_request = ?rid, tl_room = nu_room t,
      tl_details = sent_details t a (''message_id'', PStr mid)\<rparr>"
  have 1: "turn_safe solo d d1"
    unfolding d1_def by (rule upd_turn_safe) (use t in \<open>simp add: turn_mod_def\<close>)
  have g1: "get_turn ?rid d1 = Some (u\<lparr>rt_accepted := Some mid, rt_updated := now\<rparr>)"
    unfolding d1_def using t(1) by (intro get_upd_turn) simp_all
  have 2: "turn_safe solo d1 d2"
    unfolding d2_def by (rule mark_safe) (use g1 t(2) in \<open>simp add: may_end_def ended_def\<close>)
  define s where "s = end_turn EndCompleted (rt_reason t) (Some now) (u\<lparr>rt_accepted := Some mid, rt_updated := now\<rparr>)"
  have "get_turn ?rid d2 = Some s"
    using g1 by (simp add: d2_def mark_core tget_tupd end_turn_def s_def)
  then have s: "s \<in> set (td_turns d2)" "nu_request s = ?rid" "rt_accepted s = Some mid"
    using tget_Some_mem tget_Some_key by (fastforce, fastforce) (simp add: s_def end_turn_def)
  have r2: "replies d2 = replies d" by (simp add: d2_def mark_core) (simp add: d1_def)
  have 3: "turn_safe solo d2 (add_log l d2)"
    by (rule reply_logged [OF turn_safe_ok [OF turn_safe_trans [OF 1 2] ok] s(1,3)])
      (use s(2) no_reply_yet [OF ok t(1,3)] in \<open>simp_all add: l_def r2 sent_details_def dget_def dget_or_def\<close>)
  have "same_core (add_log l d2) (finish_completion now t a mid d)"
    by (auto simp: finish_completion_def Let_def d1_def [symmetric] d2_def [symmetric] log_turn_def l_def [symmetric]
        split: prod.split option.split bool.split)
  then show ?thesis using turn_safe_trans [OF turn_safe_trans [OF 1 2] 3] safe_core by blast
qed

lemma accept_safe:
  assumes r: "accept_reply now mid y t a d = Inr d'" and ok: "turns_ok d"
    and t: "get_turn (nu_request t) d = Some t" "\<not> ended t" "rt_accepted t = None"
  shows "turn_safe solo d d'"
proof -
  consider rep where "d' = finish_deferred now t a (upd_turn (nu_request t) (\<lambda>t. t\<lparr>rt_accepted := Some rep\<rparr>) d)"
    | d1 where "absorb_caller_reply (nu_request t) (ry_content y) d = Some d1" "d' = finish_deferred now t a d1"
    | d1 where "append_message mid (ry_room y) (Some (ry_participant y)) (ry_content y) (ry_meta y) (ry_thread y) d = Inr d1"
        "d' = finish_completion now t a mid d1"
    using r by (auto simp: accept_reply_def bindE_Inr_iff split: option.splits)
  then show ?thesis
  proof cases
    case 1
    let ?d1 = "upd_turn (nu_request t) (\<lambda>t. t\<lparr>rt_accepted := Some rep\<rparr>) d"
    have "turn_safe solo d ?d1" by (rule upd_turn_safe) (use t in \<open>simp add: turn_mod_def\<close>)
    moreover have "get_turn (nu_request t) ?d1 = Some (t\<lparr>rt_accepted := Some rep\<rparr>)" using t(1) by (intro get_upd_turn) simp_all
    then have "turn_safe solo ?d1 d'" unfolding 1 by (rule deferred_safe) (use t(2) in \<open>simp add: ended_def\<close>)
    ultimately show ?thesis by (rule turn_safe_trans)
  next
    case 2
    have core: "same_core d d1" by (rule same_core_absorb [OF 2(1)])
    have "turn_safe solo d1 d'" unfolding 2(2) using t core by (intro deferred_safe [where u = t]) (simp_all add: same_core_def)
    then show ?thesis using core_safe [OF core] turn_safe_trans by blast
  next
    case 3
    have core: "same_core d d1" by (rule same_core_message [OF 3(1)])
    have "turns_ok d1" using turn_safe_ok [OF core_safe [OF core] ok] .
    then have "turn_safe solo d1 d'" unfolding 3(2) using t core by (intro completion_safe [where u = t]) (simp_all add: same_core_def)
    then show ?thesis using core_safe [OF core] turn_safe_trans by blast
  qed
qed

lemma reply_safe:
  assumes b: "\<And>e. turn_safe solo e (between e)" and r: "reply_turn between now mid y d = Inr (dec, d')"
  shows "turn_safe solo d d'"
proof (rule turn_safeI)
  assume ok: "turns_ok d"
  obtain dec1 d1 where bg: "begin_completion between now (ry_request y) (ry_room y) (ry_participant y) (ry_agent y) (ry_proof y) (ry_outcome y) d
      = (dec1, d1)" by fastforce
  have 1: "turn_safe solo d d1" "reserved_turn (ry_request y) d1 dec1" using begin_effect [OF b bg ok] by auto
  have post: "same_core d1 d2" if "append_message mid (ry_room y) (Some (ry_participant y)) (ry_content y) (ry_meta y) (ry_thread y) d1 = Inr d2" for d2
    using that by (rule same_core_message)
  have fail: "same_core d1 (finish_failure_notice t a mid d2)" if "same_core d1 d2" for t a d2
    using same_core_trans [OF that same_core_simps(9)] .
  consider "same_core d1 d'" | aid t a where "dec1 = DAccept aid" "opt_get nu_request (ry_request y) (td_turns d1) = Some t"
      "accept_reply now mid y t a d1 = Inr d'"
    using r post fail by (auto simp: reply_turn_def bg Let_def bindE_Inr_iff split: completion_decision.splits option.splits)
  then show "turn_safe solo d d'"
  proof cases
    case 1
    then show ?thesis using \<open>turn_safe solo d d1\<close> safe_core by blast
  next
    case 2
    then have t: "nu_state t = TnCompleting" "rt_accepted t = None" "get_turn (nu_request t) d1 = Some t"
      using \<open>reserved_turn _ _ _\<close> by (auto simp: reserved_turn_def opt_get_def split: option.splits dest: tget_Some_key)
    have "turn_safe solo d1 d'"
      by (rule accept_safe [OF 2(3) turn_safe_ok [OF \<open>turn_safe solo d d1\<close> ok] t(3)]) (use t in \<open>simp_all add: ended_def\<close>)
    then show ?thesis using \<open>turn_safe solo d d1\<close> turn_safe_trans by blast
  qed
qed


section \<open>Lifecycle frames\<close>

lemma attempt_keep_safe:
  assumes "\<And>a. attempt_mod a (f a) \<and> (live_attempt (f a) \<longrightarrow> live_attempt a)"
  shows "turn_safe solo d (upd_turn_attempt aid f d)"
  by (rule upd_turn_attempt_safe) (use assms in blast)

lemma same_core_upd_attempt: "same_core d d' \<Longrightarrow> td_attempts d' = td_attempts d \<and> td_turns d' = td_turns d"
  by (simp add: same_core_def)

lemma failure_safe:
  assumes r: "execution_failure now t a oc r0 d = Inr d'" and e: "may_end solo (nu_request t) d"
  shows "turn_safe solo d d'"
proof -
  let ?d1 = "\<lambda>code. upd_turn_attempt (nb_id a) (\<lambda>a. a\<lparr>ra_outcome := Some oc, ra_reason := Some code\<rparr>) d"
  have 1: "turn_safe solo d (?d1 code)" for code
    by (rule attempt_keep_safe) (simp add: attempt_mod_def live_attempt_def)
  have wait: "turn_safe solo x (on_turn_recovery t n ph rs (upd_turn_attempt (nb_id a) (\<lambda>a. a\<lparr>nb_expires := Some now\<rparr>) x))" for x n ph rs
    by (rule safe_core [OF attempt_keep_safe same_core_simps(7)]) (simp add: attempt_mod_def live_attempt_def)
  have fin: "turn_safe solo (?d1 code) (on_turn_recovery t n ph rs (mark_turn_terminal EndFailed rs1 at_t aid ocx ar now (nu_request t) x))"
    if "same_core (?d1 code) x" for code x n ph rs rs1 at_t aid ocx ar
  proof -
    have "may_end solo (nu_request t) x" using e that by (simp add: may_end_def same_core_def)
    then show ?thesis using turn_safe_trans [OF core_safe [OF that] mark_end_safe [OF _ same_core_simps(7)]] by blast
  qed
  define rc where "rc = (case r0 of Some _ \<Rightarrow> r0 | None \<Rightarrow> map_option xe_details (event_of (attempt_event_key t (nb_number a) ''native-terminal'') d))"
  define code where "code = the (or_else (receipt_str rc ''reason_code'') ''PROCESS_OUTCOME_UNKNOWN'')"
  define tr where "tr = (receipt_flag rc ''retryable'' \<and> receipt_flag rc ''transient'')"
  define again where "again = (tr \<and> (if tr then transient_retries_used (nu_request t) (nb_number a) d else 0) < MAX_TRANSIENT_RETRIES)"
  obtain ado d2 where ad: "(if again then bindE (lift_exc (execution_admission t None (?d1 code))) (\<lambda>(ad, d2). Inr (Some ad, d2))
        else Inr (None, ?d1 code)) = Inr (ado, d2)"
    and d': "(\<exists>n ph rs. d' = on_turn_recovery t n ph rs (upd_turn_attempt (nb_id a) (\<lambda>a. a\<lparr>nb_expires := Some now\<rparr>) d2))
      \<or> (\<exists>n ph rs rs1 at_t aid ocx ar. d' = on_turn_recovery t n ph rs (mark_turn_terminal EndFailed rs1 at_t aid ocx ar now (nu_request t) d2))"
  proof -
    obtain res where res: "(if again then bindE (lift_exc (execution_admission t None (?d1 code))) (\<lambda>(ad, d2). Inr (Some ad, d2))
        else Inr (None, ?d1 code)) = Inr res" (is "?A = _")
      using r unfolding execution_failure_def Let_def rc_def [symmetric] code_def [symmetric] tr_def [symmetric] again_def [symmetric]
        bindE_Inr_iff by blast
    have "d' \<in> {on_turn_recovery t (nb_number a) ''waiting_retry'' (Some code)
          (upd_turn_attempt (nb_id a) (\<lambda>a. a\<lparr>nb_expires := Some now\<rparr>) (snd res)),
        (let reason = (case fst res of None \<Rightarrow> Some code | Some ad \<Rightarrow> or_else (ad_reason ad) code) in
         on_turn_recovery t (nb_number a) (if tr \<and> \<not> again then ''exhausted'' else ''action_required'') reason
           (mark_turn_terminal EndFailed reason (Some now) (Some (nb_id a)) (Some oc) (Some code) now (nu_request t) (snd res)))}"
      using r unfolding execution_failure_def Let_def rc_def [symmetric] code_def [symmetric] tr_def [symmetric] again_def [symmetric] res
      by (auto split: prod.splits if_splits)
    then show ?thesis using that [of "fst res" "snd res"] res unfolding Let_def by fastforce
  qed
  have d2: "same_core (?d1 code) d2"
    using ad same_core_admission by (auto simp: bindE_Inr_iff split: if_splits)
  show ?thesis using d'
  proof
    assume "\<exists>n ph rs. d' = on_turn_recovery t n ph rs (upd_turn_attempt (nb_id a) (\<lambda>a. a\<lparr>nb_expires := Some now\<rparr>) d2)"
    then show ?thesis using turn_safe_trans [OF turn_safe_trans [OF 1 core_safe [OF d2]] wait] by blast
  next
    assume "\<exists>n ph rs rs1 at_t aid ocx ar. d' = on_turn_recovery t n ph rs (mark_turn_terminal EndFailed rs1 at_t aid ocx ar now (nu_request t) d2)"
    then show ?thesis using turn_safe_trans [OF 1 fin [OF d2]] by blast
  qed
qed

lemma lost_reply_safe:
  assumes "may_end solo (nu_request t) d"
  shows "turn_safe solo d (lost_reply now t a fr d)"
proof -
  have "turn_safe solo d (upd_turn_attempt (nb_id a) (\<lambda>a. a\<lparr>ra_outcome := oc, ra_reason := rs, nb_expires := Some now\<rparr>) d)" for oc rs
    by (rule attempt_keep_safe) (simp add: attempt_mod_def live_attempt_def)
  then show ?thesis using mark_safe [OF assms] by (simp add: lost_reply_def Let_def)
qed

lemma finished_safe:
  assumes r: "handler_finished now t a fr rc d = Inr d'" and t: "get_turn (nu_request t) d = Some u" "nu_state u = nu_state t"
    "nu_state t \<notin> {TnCancelled, TnFailed}"
  shows "turn_safe solo d d'"
proof -
  have e: "may_end solo (nu_request t) d" if "nu_state t \<noteq> TnCompleted" using that t by (simp add: may_end_def ended_def)
  have "turn_safe solo d (upd_turn_attempt (nb_id a) (\<lambda>a. a\<lparr>nb_state := TaCompleted, ra_ended := Some now, ra_outcome := oc\<rparr>) d)" for oc
    by (rule attempt_keep_safe) (simp add: attempt_mod_def live_attempt_def)
  then show ?thesis using r failure_safe [OF _ e] mark_safe [OF e] lost_reply_safe [OF e] unfolding handler_finished_def
    by (auto split: if_splits)
qed

lemma started_safe:
  assumes "get_turn_attempt (nb_id a) d = Some a" and t: "get_turn (nu_request t) d = Some u" "nu_state u = nu_state t"
  shows "turn_safe solo d (handler_started now t a d)"
proof -
  define d1 where "d1 = (if nb_state a \<in> {TaPending, TaLeased}
      then upd_turn_attempt (nb_id a) (\<lambda>a. a\<lparr>nb_state := TaStarted, ra_started := Some now\<rparr>) d else d)"
  have 1: "turn_safe solo d d1"
  proof (cases "nb_state a \<in> {TaPending, TaLeased}")
    case True
    then have "live_attempt a" by (auto simp: live_attempt_def)
    then have "turn_safe solo d (upd_turn_attempt (nb_id a) (\<lambda>a. a\<lparr>nb_state := TaStarted, ra_started := Some now\<rparr>) d)"
      by (intro upd_turn_attempt_safe) (use assms in \<open>simp add: attempt_mod_def\<close>)
    then show ?thesis using True by (simp add: d1_def)
  qed (simp add: d1_def)
  have turns: "td_turns d1 = td_turns d" by (simp add: d1_def)
  have "turn_safe solo d1 (upd_turn (nu_request t) (\<lambda>t. t\<lparr>nu_state := TnLeased\<rparr>) d1)"
    if "nu_state t \<in> {TnPending, TnRetrying}"
    by (rule upd_turn_safe) (use that t turns in \<open>auto simp: turn_mod_def ended_def\<close>)
  then show ?thesis using 1 turn_safe_trans unfolding handler_started_def Let_def d1_def [symmetric] by auto
qed


lemma frame_safe:
  assumes r: "apply_frame now fr t a wo rc d = Inr d'" and t: "get_turn (nu_request t) d = Some t" "nu_state t \<notin> {TnCancelled, TnFailed}"
    and a: "get_turn_attempt (nb_id a) d = Some a"
  shows "turn_safe solo d d'"
proof -
  define d1 where "d1 = (if legacy_proof (frame_proof fr) then upd_turn (nu_request t) (\<lambda>t. t\<lparr>rt_protocol := 0\<rparr>) d else d)"
  define d2 where "d2 = (case wo of
      Some w \<Rightarrow>
        if fr_event fr \<in> {''handler_started'', ''handler_finished''}
        then append_audit w (if fr_event fr = ''handler_started'' then ''invocation_started'' else ''invocation_finished'') t
               (tf_outcome fr) [(''attempt'', PInt (nb_number a))] d1
        else d1
    | None \<Rightarrow> d1)"
  have 1: "turn_safe solo d d1"
    using upd_turn_safe [of "nu_request t" d solo "\<lambda>t. t\<lparr>rt_protocol := 0\<rparr>"] by (simp add: d1_def turn_mod_def)
  have c: "same_core d1 d2" by (simp add: d2_def split: option.split)
  have 2: "turn_safe solo d d2" by (rule safe_core [OF 1 c])
  define u where "u = (if legacy_proof (frame_proof fr) then t\<lparr>rt_protocol := 0\<rparr> else t)"
  have "td_turns d2 = td_turns d1" "td_attempts d2 = td_attempts d" using c by (simp_all add: same_core_def d1_def)
  then have u: "get_turn (nu_request t) d2 = Some u" "nu_state u = nu_state t" "get_turn_attempt (nb_id a) d2 = Some a"
    using t(1) a by (simp_all add: u_def d1_def upd_turn_def tget_tupd)
  have "turn_safe solo d2 d'"
    using r started_safe [OF u(3,1,2)] finished_safe [OF _ u(1,2) t(2)] unfolding apply_frame_def Let_def
      d1_def [symmetric] d2_def [symmetric] by (auto split: if_splits)
  then show ?thesis using 2 turn_safe_trans by blast
qed

lemma record_safe:
  assumes b: "\<And>e. turn_safe solo e (between e)" and r: "record_lifecycle between now gid fr d = Inr (okk, d')"
  shows "turn_safe solo d d'"
proof (rule turn_safeI)
  assume ok: "turns_ok d"
  obtain x st d1 where lk: "lock_scoped_turn between (fr_request fr) d = (x, st, d1)" by (metis prod_cases3)
  have safe: "turn_safe solo d d1" by (rule lock_safe [OF b lk])
  show "turn_safe solo d d'"
  proof (cases x)
    case None
    then show ?thesis using r safe by (auto simp: record_lifecycle_def lk split: bool.splits)
  next
    case (Some t)
    have t: "get_turn (nu_request t) d1 = Some t" using lock_get [OF lk [unfolded Some]] by simp
    obtain wok wreason w xok xreason snap where g: "workspace_gate now t d1 = (wok, wreason, w)"
        "execution_gate now t (if fr_event fr \<in> {''handler_finished'', ''engine_call_finished''} then map_option nb_id (active_attempt_of t d1)
           else None) d1 = (xok, xreason, snap)" by (metis prod_cases3)
    note r1 = r [unfolded record_lifecycle_def lk Some Let_def, simplified, unfolded g [simplified], simplified]
    let ?valid = "frame_valid gid fr t (active_attempt_of t d1) (member_gate (nu_participant t) (nu_room t) (Some gid) d1) wok xok"
    show ?thesis
    proof (cases ?valid)
      case False
      then have "same_core d1 d'"
        using r1 by (auto split: if_splits intro: same_core_trans [OF same_core_stale same_core_denied])
      then show ?thesis using safe safe_core by blast
    next
      case True
      then obtain a where a: "active_attempt_of t d1 = Some a" "nu_state t \<notin> {TnCancelled, TnFailed}"
        by (auto simp: frame_valid_def split: option.splits)
      obtain ok2 rc d2 where n: "native_terminal_receipt now t a fr d1 = ((ok2, rc), d2)" by (metis prod.exhaust)
      have c: "same_core d1 d2" by (rule same_core_receipt [OF n])
      then have d2: "turn_safe solo d d2" using safe safe_core by blast
      have g2: "get_turn (nu_request t) d2 = Some t" "get_turn_attempt (nb_id a) d2 = Some a"
        using c t active_attempt_get [OF turn_safe_ok [OF safe ok] a(1)] by (simp_all add: same_core_def)
      have "same_core d2 d' \<or> apply_frame now fr t a w rc d2 = Inr d'"
        using r1 True by (auto simp: a n bindE_Inr_iff split: if_splits)
      then show ?thesis using d2 safe_core frame_safe [OF _ g2(1) a(2) g2(2)] turn_safe_trans by blast
    qed
  qed
qed

section \<open>Cancelling\<close>

lemma cancel_general_safe:
  assumes b: "\<And>e. turn_safe solo e (between e)" and r: "cancel_general_turn between now rid actor d = Inr (res, d')"
  shows "turn_safe solo d d'"
proof -
  obtain x st d1 where lk: "lock_scoped_turn between rid d = (x, st, d1)" by (metis prod_cases3)
  obtain t where t: "x = Some t" using r by (auto simp: cancel_general_turn_def lk split: option.splits bool.splits)
  have safe: "turn_safe solo d d1" by (rule lock_safe [OF b lk])
  have get: "get_turn rid d1 = Some t" using lock_get [OF lk [unfolded t]] by simp
  have "d' = d1 \<or> (nu_state t \<in> set OPEN_TURN_STATES \<and> (\<exists>aid det. d' = log_turn ''turn_cancelled'' det t
      (cancel_outbox rid {ObPending, ObDelivering} USER_CANCELLED
        (mark_turn_terminal EndCancelled (Some USER_CANCELLED) (Some now) aid (Some ''cancelled'') (Some USER_CANCELLED) now rid d1))))"
    using r by (auto simp: cancel_general_turn_def lk t Let_def split: if_splits)
  then show ?thesis
  proof
    assume "nu_state t \<in> set OPEN_TURN_STATES \<and> (\<exists>aid det. d' = log_turn ''turn_cancelled'' det t
      (cancel_outbox rid {ObPending, ObDelivering} USER_CANCELLED
        (mark_turn_terminal EndCancelled (Some USER_CANCELLED) (Some now) aid (Some ''cancelled'') (Some USER_CANCELLED) now rid d1)))"
    then obtain aid det where e: "may_end solo rid d1" and d': "d' = log_turn ''turn_cancelled'' det t
      (cancel_outbox rid {ObPending, ObDelivering} USER_CANCELLED
        (mark_turn_terminal EndCancelled (Some USER_CANCELLED) (Some now) aid (Some ''cancelled'') (Some USER_CANCELLED) now rid d1))"
      using may_end_open [OF get] by blast
    have "turn_safe solo d1 d'" unfolding d'
      by (rule safe_core [OF mark_end_safe [OF e same_core_simps(8)] same_core_log]) simp
    then show ?thesis using safe turn_safe_trans by blast
  qed (use safe in simp)
qed

lemma revoke_safe:
  assumes "may_end solo (nu_request t) d"
  shows "turn_safe solo d (revoke_turn now t ao ws xreason d)"
    and "rid \<noteq> nu_request t \<Longrightarrow> get_turn rid (revoke_turn now t ao ws xreason d) = get_turn rid d"
proof -
  obtain aid rs ad det rs2 where *: "same_core (log_turn ''turn_cancelled'' det t (cancel_outbox (nu_request t) {ObPending} rs2
      (mark_turn_terminal EndCancelled rs (Some now) aid None ad now (nu_request t) d))) (revoke_turn now t ao ws xreason d)"
  proof -
    have "same_core x (if wok then x else audit_denied w ty t oc rs1 x)" for wok w ty oc rs1 x by simp
    then show ?thesis using that unfolding revoke_turn_def Let_def by (cases ws) (metis (no_types, lifting) prod.case)
  qed
  let ?m = "mark_turn_terminal EndCancelled rs (Some now) aid None ad now (nu_request t) d"
  have c: "same_core ?m (revoke_turn now t ao ws xreason d)"
    using same_core_trans [OF same_core_trans [OF same_core_simps(8) same_core_log] *] by simp
  show "turn_safe solo d (revoke_turn now t ao ws xreason d)" by (rule mark_end_safe [OF assms c])
  show "rid \<noteq> nu_request t \<Longrightarrow> get_turn rid (revoke_turn now t ao ws xreason d) = get_turn rid d"
    using c by (simp add: same_core_def mark_core tget_tupd end_turn_def)
qed

lemma cancel_one_safe:
  assumes b: "\<And>e. turn_safe solo e (between e)" "solo \<longrightarrow> between = (\<lambda>e. e)" and e: "may_end solo rid d"
  shows "turn_safe solo d (fst (cancel_invalid_one between now rid d))"
    and "solo \<Longrightarrow> k \<noteq> rid \<Longrightarrow> get_turn k (fst (cancel_invalid_one between now rid d)) = get_turn k d"
proof -
  obtain x st d1 where lk: "lock_scoped_turn between rid d = (x, st, d1)" by (metis prod_cases3)
  have safe: "turn_safe solo d d1" by (rule lock_safe [OF b(1) lk])
  have d1: "solo \<Longrightarrow> d1 = d" using lk b(2) by (auto simp: lock_scoped_turn_def split: option.splits if_splits)
  have rev: "turn_safe solo d1 (revoke_turn now t ao ws xr d1)"
    "solo \<Longrightarrow> k \<noteq> rid \<Longrightarrow> get_turn k (revoke_turn now t ao ws xr d1) = get_turn k d1" if "x = Some t" for t ao ws xr
  proof -
    note g = lock_get [OF lk [unfolded that]]
    have "may_end solo (nu_request t) d1" using e d1 g(2) by (auto simp: may_end_def)
    then show "turn_safe solo d1 (revoke_turn now t ao ws xr d1)"
      "solo \<Longrightarrow> k \<noteq> rid \<Longrightarrow> get_turn k (revoke_turn now t ao ws xr d1) = get_turn k d1"
      using revoke_safe g(2) by auto
  qed
  show "turn_safe solo d (fst (cancel_invalid_one between now rid d))"
    using safe turn_safe_trans [OF safe rev(1)] by (auto simp: cancel_invalid_one_def lk Let_def split: option.split)
  show "solo \<Longrightarrow> k \<noteq> rid \<Longrightarrow> get_turn k (fst (cancel_invalid_one between now rid d)) = get_turn k d"
    using rev(2) d1 by (auto simp: cancel_invalid_one_def lk Let_def split: option.split)
qed

lemma cancel_each_safe:
  assumes b: "\<And>e. turn_safe solo e (between e)" "solo \<longrightarrow> between = (\<lambda>e. e)"
    and "distinct rids" "\<forall>rid \<in> set rids. may_end solo rid d"
  shows "turn_safe solo d (fst (cancel_each between now rids d))"
  using assms(3,4)
proof (induction rids arbitrary: d)
  case (Cons rid rids)
  define d1 where "d1 = fst (cancel_invalid_one between now rid d)"
  have 1: "turn_safe solo d d1" unfolding d1_def by (rule cancel_one_safe [OF b]) (use Cons in simp)
  have "\<forall>k \<in> set rids. may_end solo k d1"
    using Cons.prems cancel_one_safe(2) [OF b, of rid d] by (fastforce simp: may_end_def d1_def)
  then have "turn_safe solo d1 (fst (cancel_each between now rids d1))" using Cons by simp
  then show ?case using 1 turn_safe_trans by (auto simp: d1_def split: prod.split)
qed simp

lemma cancel_invalid_safe:
  assumes b: "\<And>e. turn_safe solo e (between e)" "solo \<longrightarrow> between = (\<lambda>e. e)"
  shows "turn_safe solo d (fst (cancel_invalid_turns between now d))"
proof (rule turn_safeI)
  assume ok: "turns_ok d"
  have "distinct (open_turns d)" using ok by (simp add: open_turns_def turns_ok_def distinct_map_filter)
  moreover have "may_end solo rid d" if mem: "rid \<in> set (open_turns d)" for rid
  proof -
    obtain t where "t \<in> set (td_turns d)" "nu_request t = rid" "nu_state t \<in> set OPEN_TURN_STATES" using mem by (auto simp: open_turns_def)
    then show ?thesis using ok tget_distinct [of nu_request "td_turns d" t] by (intro may_end_open) (auto simp: turns_ok_def)
  qed
  ultimately show "turn_safe solo d (fst (cancel_invalid_turns between now d))"
    unfolding cancel_invalid_turns_def by (intro cancel_each_safe [OF b]) simp_all
qed


section \<open>Recovering and retrying\<close>

lemma dead_tries:
  assumes "turn_ok t d" "a \<in> set (tries_of (nu_request t) d)" "nb_number a = nu_active t" "\<not> live_attempt a"
  shows "\<forall>b \<in> set (tries_of (nu_request t) d). \<not> live_attempt b"
proof (intro ballI notI)
  fix b assume b: "b \<in> set (tries_of (nu_request t) d)" "live_attempt b"
  then have "nb_number b = nb_number a" using assms by (simp add: turn_ok_def attempt_ok_def)
  moreover have "distinct (map nb_number (tries_of (nu_request t) d))" using assms(1) by (simp add: turn_ok_def)
  ultimately have "b = a" using b(1) assms(2) by (auto simp: distinct_map dest: inj_onD)
  then show False using b(2) assms(4) by simp
qed

lemma redispatch_safe:
  assumes ok: "turns_ok d" and t: "get_turn (nu_request t) d = Some t" "\<not> ended t"
    and a: "a \<in> set (td_attempts d)" "nb_turn a = nu_request t" "nb_number a = nu_active t" "\<not> live_attempt a"
    and fresh: "fi_attempt ids \<notin> nb_id ` set (td_attempts d)" and aid: "nb_id a' = nb_id a"
    and budget: "if rp_transient pl then transient_marks (nu_request t) d < MAX_TRANSIENT_RETRIES
      else nu_active t - transient_marks (nu_request t) d \<le> rt_max t"
  shows "turn_safe solo d (redispatch now ids pl t a' g d)"
proof -
  have mem: "t \<in> set (td_turns d)" using t(1) by (rule tget_Some_mem)
  have dist: "distinct (map nu_request (td_turns d))" using ok by (simp add: turns_ok_def)
  define n where "n = new_attempt_row ids (nu_request t) (nu_agent t) (nu_active t + 1) (redispatch_generation (rp_reason pl) g)"
  define t' where "t' = t\<lparr>nu_state := TnRetrying, nu_active := nu_active t + 1, rt_retries := rt_retries t + 1, rt_reason := None\<rparr>"
  define d' where "d' = redispatch now ids pl t a' g d"
  have same: "s = t" if "s \<in> set (td_turns d)" "nu_request s = nu_request t" for s
    using tget_distinct [OF dist that(1)] unfolding that(2) t(1) by (rule option.inject [THEN iffD1, symmetric])
  have turns: "td_turns d' = map (\<lambda>s. if nu_request s = nu_request t then t' else s) (td_turns d)"
  proof -
    have "td_turns d' = tupd nu_request (nu_request t)
        (\<lambda>s. s\<lparr>nu_state := TnRetrying, nu_active := nu_active t + 1, rt_retries := rt_retries s + 1, rt_reason := None\<rparr>) (td_turns d)"
      by (simp add: d'_def redispatch_def Let_def upd_turn_def upd_turn_attempt_def add_outbox_def add_attempt_def on_turn_recovery_def)
    also have "\<dots> = map (\<lambda>s. if nu_request s = nu_request t then t' else s) (td_turns d)"
      unfolding tupd_def
    proof (rule map_cong [OF refl])
      fix s assume s: "s \<in> set (td_turns d)"
      show "(if nu_request s = nu_request t
          then s\<lparr>nu_state := TnRetrying, nu_active := nu_active t + 1, rt_retries := rt_retries s + 1, rt_reason := None\<rparr> else s)
        = (if nu_request s = nu_request t then t' else s)"
      proof (cases "nu_request s = nu_request t")
        case True
        then have "s = t" by (rule same [OF s])
        then show ?thesis by (simp add: t'_def)
      qed simp
    qed
    finally show ?thesis .
  qed
  have atts: "td_attempts d' = map (\<lambda>x. if rp_transient pl \<and> nb_id x = nb_id a then x\<lparr>ra_transient := True\<rparr> else x) (td_attempts d) @ [n]"
  proof -
    have "nb_id n = fi_attempt ids" by (simp add: n_def new_attempt_row_def)
    then have "nb_id n \<noteq> nb_id a" using fresh a(1) by auto
    then have "tupd nb_id (nb_id a) f (td_attempts d @ [n]) = map (\<lambda>x. if nb_id x = nb_id a then f x else x) (td_attempts d) @ [n]" for f
      by (simp add: tupd_def)
    then show ?thesis
      by (simp add: d'_def redispatch_def Let_def upd_turn_def upd_turn_attempt_def add_outbox_def add_attempt_def n_def aid on_turn_recovery_def)
  qed
  have rest: "replies d' = replies d"
    by (simp add: d'_def redispatch_def Let_def replies_def upd_turn_def upd_turn_attempt_def add_outbox_def add_attempt_def on_turn_recovery_def)
  have tries: "a \<in> set (tries_of (nu_request t) d)" using a by (simp add: tries_of_def)
  have "turn_ok t d" using ok mem by (simp add: turns_ok_def)
  then have dead: "\<forall>b \<in> set (tries_of (nu_request t) d). \<not> live_attempt b" by (rule dead_tries [OF _ tries a(3,4)])
  have "turns_ok d' \<and> turns_kept solo d d'"
    by (rule turn_extended [OF ok mem dead turns _ _ _ _ _ _ _ atts _ _ _ _ _ budget rest])
      (use t(2) tries a fresh in \<open>auto simp: t'_def n_def new_attempt_row_def ended_def\<close>)
  then show ?thesis by (simp add: turn_safe_def d'_def)
qed

lemma used_marks:
  assumes "turn_ok t d" "n = nu_active t"
  shows "transient_retries_used (nu_request t) n d = transient_marks (nu_request t) d"
proof -
  have "nb_number x < n" if "x \<in> set (td_attempts d)" "nb_turn x = nu_request t" "ra_transient x" for x
  proof -
    have "x \<in> set (tries_of (nu_request t) d)" using that by (simp add: tries_of_def)
    then show ?thesis using assms that(3) by (simp add: turn_ok_def attempt_ok_def)
  qed
  then have "filter (\<lambda>a. nb_turn a = nu_request t \<and> nb_number a < n \<and> ra_transient a) (td_attempts d)
      = filter (\<lambda>a. nb_turn a = nu_request t \<and> ra_transient a) (td_attempts d)"
    by (intro filter_cong) auto
  then show ?thesis by (simp add: transient_retries_used_def transient_marks_def tries_of_def)
qed

lemma either_branch: "(if c then r else Inr x) = Inr y \<Longrightarrow> y = x \<or> r = Inr y"
  by (simp split: if_splits)

lemma after_recovery_core:
  assumes "after_recovery re now ids pl t a g ws d = Inr d'"
  shows "same_core (upd_turn (nu_request t) (\<lambda>t. t\<lparr>rt_updated := now\<rparr>) d) d' \<or> d' = d"
proof (cases "get_turn (nu_request t) d")
  case None
  then show ?thesis using assms by (simp add: after_recovery_def)
next
  case (Some t1)
  define d1 where "d1 = upd_turn (nu_request t) (\<lambda>t. t\<lparr>rt_updated := now\<rparr>) d"
  have ev: "recovery_event re \<noteq> ''response_sent''" by (cases re) simp_all
  have log: "same_core x (log_turn (recovery_event re) det t x)" "same_core x (log_turn ''turn_interrupted'' det t x)" for det x
    by (rule same_core_log [OF ev], rule same_core_log) simp
  have denied: "same_core x (case ws of (wok, rs, w) \<Rightarrow> if wok then x else audit_denied w ty t oc rs2 x)" for x ty oc rs2
    by (cases ws) simp
  let ?d2 = "log_turn ''turn_interrupted'' [(''reason'', PStr (rp_reason pl)), (''attempt'', PInt (nb_number a)),
      (''generation'', PInt (nb_generation a))] t d1"
  let ?d3 = "case ws of (wok, _, w) \<Rightarrow> if wok then ?d2 else audit_denied w ''retry_denied'' t ''cancelled'' (rt_reason t1) ?d2"
  let ?d4 = "log_turn (recovery_event re) [(''reason'', opt_str (or_else (rt_reason t1) (rp_reason pl))),
      (''attempt'', PInt (nu_active t1)), (''generation'', drain_generation (rp_reason pl) g)] t ?d3"
  have d4: "same_core d1 ?d4" by (rule same_core_trans [OF same_core_trans [OF log(2) denied] log(1)])
  have "d' = ?d4 \<or> append_message (fi_message ids) (nu_room t) None []
      [(''system_origin'', PStr ''turn_retry_exhausted''), (''request_id'', PStr (nu_request t))] (rt_thread t) ?d4 = Inr d'"
    using assms unfolding after_recovery_def Some option.case Let_def d1_def [symmetric] by (rule either_branch)
  then have "same_core d1 d'"
  proof
    assume "append_message (fi_message ids) (nu_room t) None []
      [(''system_origin'', PStr ''turn_retry_exhausted''), (''request_id'', PStr (nu_request t))] (rt_thread t) ?d4 = Inr d'"
    then show ?thesis by (rule same_core_trans [OF d4 same_core_message])
  qed (use d4 in simp)
  then show ?thesis by (simp add: d1_def)
qed

lemma after_recovery_safe:
  assumes "after_recovery re now ids pl t a g ws d = Inr d'"
  shows "turn_safe solo d d'"
proof -
  have "turn_safe solo d (upd_turn (nu_request t) (\<lambda>t. t\<lparr>rt_updated := now\<rparr>) d)"
    by (rule upd_turn_safe) (simp add: turn_mod_def)
  then show ?thesis using after_recovery_core [OF assms] safe_core by auto
qed

lemma turn_ended_safe: "may_end solo (nu_request t) d \<Longrightarrow> turn_safe solo d (turn_ended e reason now t d)"
  unfolding turn_ended_def by (rule mark_safe)

lemma leased_live: "nb_state a \<in> set LEASED_STATES \<Longrightarrow> live_attempt a"
  by (auto simp: LEASED_STATES_def live_attempt_def)

lemma end_recovery_safe:
  assumes e: "may_end solo (nu_request t) d"
    and re: "re = ReRedispatched \<Longrightarrow> turn_safe solo d (redispatch now ids pl t a g d)"
  shows "turn_safe solo d (end_recovery re now ids pl gr t a g d)"
proof -
  have rec: "turn_safe solo d (on_turn_recovery t n ph rs (turn_ended en rs2 now t d))" for n ph rs en rs2
    by (rule safe_core [OF turn_ended_safe [OF e] same_core_simps(7)])
  show ?thesis using re turn_ended_safe [OF e] rec by (cases re) (simp_all add: Let_def)
qed

lemma fence_cases:
  assumes "fence_and_retry now ids t a g marked d = Inr (d', res)" "pl = retry_plan_of now t a g marked d"
    "d1 = upd_turn_attempt (nb_id a) (fence_stalled now (rp_reason pl)) d"
  obtains re gr d2 where "same_core d1 d2"
    "after_recovery re now ids pl t a g (workspace_gate now t d1) (end_recovery re now ids pl gr t a g d2) = Inr d'"
    "rs_redispatched res = (if re = ReRedispatched then 1 else 0)"
    "re = ReRedispatched \<Longrightarrow> rp_allowed pl \<and> rt_protocol t \<noteq> 0 \<and> fst (workspace_gate now t d1)
       \<and> fst (execution_gate now t (Some (nb_id a)) d1)"
proof -
  define ws where "ws = workspace_gate now t d1"
  define xs where "xs = execution_gate now t (Some (nb_id a)) d1"
  define gate_ok where "gate_ok = (retry_member t g d1 \<and> fst ws \<and> fst xs)"
  define gr where "gr = (case (fst (snd ws), fst (snd xs)) of (Some s, _) \<Rightarrow> s | (None, Some s) \<Rightarrow> s | _ \<Rightarrow> ''authorization_revoked'')"
  define fin where "fin = (nu_execution t \<noteq> None \<and> execution_completed t d1)"
  note r1 = assms(1) [unfolded fence_and_retry_def Let_def, folded assms(2), folded assms(3), folded ws_def xs_def, folded gate_ok_def gr_def fin_def]
  obtain ado d2 x where ad: "(if gate_ok \<and> \<not> fin \<and> rt_protocol t \<noteq> 0 \<and> rp_allowed pl \<and> nu_execution t \<noteq> None
        then bindE (lift_exc (execution_admission t None d1)) (\<lambda>(ad, d2). Inr (Some ad, d2)) else Inr (None, d1)) = Inr (ado, d2)"
    and d': "after_recovery (recovery_end_of gate_ok fin t pl ado) now ids pl t a g ws
        (end_recovery (recovery_end_of gate_ok fin t pl ado) now ids pl gr t a g d2) = Inr d'"
    and res: "res = (recovery_count (recovery_end_of gate_ok fin t pl ado))\<lparr>rs_drain := x\<rparr>"
    using r1 unfolding bindE_Inr_iff by auto
  have "same_core d1 d2" using ad same_core_admission by (auto simp: bindE_Inr_iff split: if_splits)
  moreover have "rs_redispatched ((recovery_count re)\<lparr>rs_drain := x\<rparr>) = (if re = ReRedispatched then 1 else 0)" for re
    by (cases re) (simp_all add: no_recovery_def)
  moreover have "rp_allowed pl \<and> rt_protocol t \<noteq> 0 \<and> fst ws \<and> fst xs" if "recovery_end_of gate_ok fin t pl ado = ReRedispatched"
    using that by (auto simp: recovery_end_of_def gate_ok_def split: if_splits)
  ultimately show ?thesis using d' by (intro that) (simp_all add: res ws_def xs_def)
qed

lemma upd_marks:
  assumes "\<And>a. attempt_mod a (f a)"
  shows "transient_marks rid (upd_turn_attempt aid f d) = transient_marks rid d"
proof -
  define g where "g = (\<lambda>a. if nb_id a = aid then f a else a)"
  have g: "nb_turn (g a) = nb_turn a" "ra_transient (g a) = ra_transient a" for a
    using assms [of a] by (simp_all add: g_def attempt_mod_def)
  have "tries_of rid (upd_turn_attempt aid f d) = map g (tries_of rid d)"
    unfolding tries_of_def upd_turn_attempt_def tupd_def g_def [symmetric] by (simp add: filter_map_commute g)
  then show ?thesis by (simp add: transient_marks_def filter_map_commute g)
qed

lemma fence_safe:
  assumes ok: "turns_ok d" and t: "get_turn (nu_request t) d = Some t" "\<not> ended t"
    and a: "get_turn_attempt (nb_id a) d = Some a" "nb_turn a = nu_request t" "nb_state a \<in> set LEASED_STATES"
    and fresh: "fi_attempt ids \<notin> nb_id ` set (td_attempts d)" and r: "fence_and_retry now ids t a g marked d = Inr (d', res)"
  shows "turn_safe solo d d'"
proof -
  define pl where "pl = retry_plan_of now t a g marked d"
  define d1 where "d1 = upd_turn_attempt (nb_id a) (fence_stalled now (rp_reason pl)) d"
  define f where "f = fence_stalled now (rp_reason pl) a"
  have 1: "turn_safe solo d d1" unfolding d1_def
    by (rule attempt_keep_safe) (simp add: attempt_mod_def live_attempt_def fence_stalled_def)
  have ok1: "turns_ok d1" by (rule turn_safe_ok [OF 1 ok])
  have mem: "t \<in> set (td_turns d)" "t \<in> set (td_turns d1)" using tget_Some_mem [OF t(1)] by (simp_all add: d1_def)
  have tok: "turn_ok t d" using ok mem(1) by (simp add: turns_ok_def)
  have "a \<in> set (tries_of (nu_request t) d)" using tget_Some_mem [OF a(1)] a(2) by (simp add: tries_of_def)
  then have num: "nb_number a = nu_active t" using tok leased_live [OF a(3)] by (simp add: turn_ok_def attempt_ok_def)
  have "get_turn_attempt (nb_id a) d1 = Some f"
    using a(1) by (simp add: d1_def upd_turn_attempt_def tget_tupd fence_stalled_def f_def)
  then have f: "f \<in> set (td_attempts d1)" "nb_turn f = nu_request t" "nb_number f = nu_active t" "\<not> live_attempt f" "nb_id a = nb_id f"
    using tget_Some_mem a(2) num by (fastforce, simp_all add: f_def fence_stalled_def live_attempt_def)
  have ids1: "nb_id ` set (td_attempts d1) = nb_id ` set (td_attempts d)"
  proof -
    have "map nb_id (td_attempts d1) = map nb_id (td_attempts d)"
      unfolding d1_def upd_turn_attempt_def by (simp add: map_key_tupd fence_stalled_def)
    then show ?thesis by (metis set_map)
  qed
  have marks: "transient_marks (nu_request t) d1 = transient_retries_used (nu_request t) (nb_number a) d"
  proof -
    have "transient_marks (nu_request t) d1 = transient_marks (nu_request t) d"
      unfolding d1_def by (rule upd_marks) (simp add: attempt_mod_def fence_stalled_def)
    then show ?thesis using used_marks [OF tok num] by simp
  qed
  obtain re gr d2 where c: "same_core d1 d2"
    and d': "after_recovery re now ids pl t a g (workspace_gate now t d1) (end_recovery re now ids pl gr t a g d2) = Inr d'"
    and allowed: "re = ReRedispatched \<Longrightarrow> rp_allowed pl"
    using fence_cases [OF r pl_def d1_def] by metis
  have ok2: "turns_ok d2" by (rule turn_safe_ok [OF core_safe [OF c] ok1])
  have t2: "get_turn (nu_request t) d2 = Some t" using t(1) c by (simp add: same_core_def d1_def)
  have marks2: "transient_marks (nu_request t) d2 = transient_marks (nu_request t) d1"
    using c by (simp add: transient_marks_def tries_of_def same_core_def)
  have re: "turn_safe solo d2 (redispatch now ids pl t a g d2)" if "re = ReRedispatched"
  proof (rule redispatch_safe [OF ok2 t2 t(2) _ f(2,3,4) _ f(5)])
    have "rp_allowed pl" by (rule allowed [OF that])
    then show "if rp_transient pl then transient_marks (nu_request t) d2 < MAX_TRANSIENT_RETRIES
        else nu_active t - transient_marks (nu_request t) d2 \<le> rt_max t"
      using tok unfolding marks2 marks turn_ok_def by (simp add: pl_def retry_plan_of_def Let_def split: if_splits)
  qed (use f(1) c ids1 fresh in \<open>simp_all add: same_core_def\<close>)
  have e: "may_end solo (nu_request t) d2" using t2 t(2) by (simp add: may_end_def)
  show ?thesis
    using turn_safe_trans [OF safe_core [OF 1 c] turn_safe_trans [OF end_recovery_safe [OF e re] after_recovery_safe [OF d']]] by blast
qed


lemma recover_execution_safe:
  assumes e: "may_end solo (nu_request t) d" and r: "recover_execution now t a d = (Some (d', res), tr)"
  shows "turn_safe solo d d'"
proof -
  have rec: "turn_safe solo d (on_turn_recovery t n ph rs (mark_turn_terminal en rs2 at_t aid oc ar now (nu_request t) d))"
    for n ph rs en rs2 at_t aid oc ar
    by (rule mark_end_safe [OF e same_core_simps(7)])
  show ?thesis using r mark_safe [OF e] rec unfolding recover_execution_def Let_def by (auto split: if_splits)
qed

lemma recover_locked_safe:
  assumes ok: "turns_ok d" and t: "get_turn (nu_request t) d = Some t"
    and a: "get_turn_attempt (nb_id a) d = Some a" "nb_turn a = nu_request t" "nb_state a \<in> set LEASED_STATES"
    and fresh: "fi_attempt ids \<notin> nb_id ` set (td_attempts d)" and r: "recover_locked now alive_ids ids t a d = Inr (d', res)"
  shows "turn_safe solo d d'"
proof -
  have renew: "turn_safe solo d (upd_turn_attempt (nb_id a) (\<lambda>a. a\<lparr>nb_expires := e\<rparr>) d)" for e
    by (rule attempt_keep_safe) (simp add: attempt_mod_def live_attempt_def)
  consider "d' = d" | e where "d' = upd_turn_attempt (nb_id a) (\<lambda>a. a\<lparr>nb_expires := e\<rparr>) d"
    | g marked where "\<not> ended t" "fence_and_retry now ids t a g marked d = Inr (d', res)"
    | tr where "\<not> ended t" "recover_execution now t a d = (Some (d', res), tr)"
    using r unfolding recover_locked_def
    by (auto simp: ended_alt split: option.splits if_splits prod.splits)
  then show ?thesis
  proof cases
    case 3
    then show ?thesis by (intro fence_safe [OF ok t _ a fresh])
  next
    case 4
    then show ?thesis using t by (intro recover_execution_safe) (simp_all add: may_end_def)
  qed (use renew in simp_all)
qed

lemma recover_safe:
  assumes b: "\<And>e. turn_safe solo e (between e)" and r: "recover_one between now alive_ids ids aid d = Inr (d', res)"
    and fresh: "\<And>rid x st d1. lock_scoped_turn between rid d = (x, st, d1) \<Longrightarrow> fi_attempt ids \<notin> nb_id ` set (td_attempts d1)"
  shows "turn_safe solo d d'"
proof (rule turn_safeI)
  assume ok: "turns_ok d"
  show "turn_safe solo d d'"
  proof (cases "get_turn_attempt aid d")
    case None
    then show ?thesis using r by (simp add: recover_one_def)
  next
    case (Some a0)
    obtain x st d1 where lk: "lock_scoped_turn between (nb_turn a0) d = (x, st, d1)" by (metis prod_cases3)
    have safe: "turn_safe solo d d1" by (rule lock_safe [OF b lk])
    consider "d' = d" | "d' = d1" | t a where "x = Some t" "get_turn_attempt aid d1 = Some a" "nb_turn a = nu_request t"
        "nb_state a \<in> set LEASED_STATES" "recover_locked now alive_ids ids t a d1 = Inr (d', res)"
      using r unfolding recover_one_def Some by (auto simp: lk split: option.splits if_splits bool.splits)
    then show ?thesis
    proof cases
      case 3
      have "get_turn (nu_request t) d1 = Some t" using lock_get [OF lk [unfolded 3(1)]] by simp
      moreover have "get_turn_attempt (nb_id a) d1 = Some a" using 3(2) tget_Some_key by fastforce
      ultimately have "turn_safe solo d1 d'"
        by (rule recover_locked_safe [OF turn_safe_ok [OF safe ok] _ _ 3(3,4) fresh [OF lk] 3(5)])
      then show ?thesis using safe turn_safe_trans by blast
    qed (use safe in simp_all)
  qed
qed

lemma reopen_safe:
  assumes ok: "turns_ok d" and t: "t \<in> set (td_turns d)" and a: "a \<in> set (td_attempts d)" "nb_turn a = nu_request t"
    "nb_number a = nu_active t" "\<not> live_attempt a"
    and fresh: "fi_attempt ids \<notin> nb_id ` set (td_attempts d)" and r: "reopen_turn now ids n gen t d = Inr d'"
  shows "turn_safe solo d d'"
proof -
  define t' where "t' = t\<lparr>nu_state := TnRetrying, nu_active := n + 1, rt_retries := rt_retries t + 1, rt_reason := None, rt_completed := None,
      rt_updated := now\<rparr>"
  define m where "m = new_attempt_row ids (nu_request t) (nu_agent t) (n + 1) gen"
  have g: "nu_active t = n" "nu_state t \<in> {TnFailed, TnCancelled}" "rt_retries t < rt_max t"
    using r by (auto simp: reopen_turn_def split: if_splits)
  have d': "td_turns d' = map (\<lambda>s. if nu_request s = nu_request t then t' else s) (td_turns d)" "td_attempts d' = td_attempts d @ [m]"
    "replies d' = replies d"
    using r g by (auto simp: reopen_turn_def Let_def t'_def m_def upd_turn_def tupd_def add_outbox_def add_attempt_def on_turn_recovery_def
        replies_def)
  have tok: "turn_ok t d" using ok t by (simp add: turns_ok_def)
  have tries: "a \<in> set (tries_of (nu_request t) d)" using a by (simp add: tries_of_def)
  have budget: "nu_active t - transient_marks (nu_request t) d \<le> rt_max t"
    using tok g(3) by (simp add: turn_ok_def transient_marks_def)
  have atts: "td_attempts d' = map (\<lambda>x. if False \<and> nb_id x = nb_id a then x\<lparr>ra_transient := True\<rparr> else x) (td_attempts d) @ [m]"
    using d'(2) by simp
  have "turns_ok d' \<and> turns_kept solo d d'"
    by (rule turn_extended [OF ok t dead_tries [OF tok tries a(3,4)] d'(1) _ _ _ _ _ _ _ atts _ _ _ _ _ _ d'(3)])
      (use g fresh budget in \<open>auto simp: t'_def m_def new_attempt_row_def\<close>)
  then show ?thesis by (simp add: turn_safe_def)
qed

lemma retry_safe:
  assumes r: "retry_task c now ids kid rid n d = Inr d'" and fresh: "fi_attempt ids \<notin> nb_id ` set (td_attempts d)"
  shows "turn_safe solo d d'"
proof (rule turn_safeI)
  assume ok: "turns_ok d"
  obtain k x t a gen where t: "find (\<lambda>t. nu_request t = rid \<and> nu_execution t = Some (nx_id x) \<and> nu_revision t = k_input_rev k
        \<and> nu_task t = Some kid) (td_turns d) = Some t"
    and a: "find (\<lambda>a. nb_turn a = rid \<and> nb_number a = n) (td_attempts d) = Some a"
    and den: "retry_denial c now k x t a d = Inr None" and ro: "reopen_turn now ids n gen t d = Inr d'"
    using r unfolding retry_task_def by (auto simp: bindE_Inr_iff split: option.splits if_splits)
  have bind: "retry_binding_ok k x t a" "nb_state a \<in> {TaFailed, TaInterrupted, TaCancelled, TaStale}"
    using den unfolding retry_denial_def by (auto split: if_splits)
  have "t \<in> set (td_turns d)" "a \<in> set (td_attempts d)" using t a by (auto simp: find_Some_iff)
  moreover have "nb_turn a = nu_request t" "nb_number a = nu_active t" "\<not> live_attempt a"
    using bind by (auto simp: retry_binding_ok_def live_attempt_def)
  ultimately show "turn_safe solo d d'" by (intro reopen_safe [OF ok _ _ _ _ _ fresh ro])
qed


section \<open>Permitting a start\<close>

lemma same_core_put [simp]: "same_core d (put_native n d)"
  by (simp add: same_core_def put_native_def replies_def)

lemma grant_safe:
  assumes "grant_start now nid p t a d = Inr d'"
  shows "turn_safe solo d d'"
proof -
  let ?d1 = "\<lambda>n. upd_turn_attempt (nb_id a) (\<lambda>a. a\<lparr>nb_local := Some (tp_local p)\<rparr>) (put_native n d)"
  obtain n where d': "d' = ?d1 n \<or> d' = log_turn ''turn_start_permitted'' (permit_details p t) t (?d1 n)"
    using assms unfolding grant_start_def bindE_Inr_iff Let_def by (auto split: if_splits)
  have 1: "turn_safe solo d (?d1 n)"
    by (rule turn_safe_trans [OF core_safe [OF same_core_put] attempt_keep_safe]) (simp add: attempt_mod_def live_attempt_def)
  show ?thesis using d' 1 safe_core [OF 1 same_core_log] by auto
qed

lemma start_safe:
  assumes b: "\<And>e. turn_safe solo e (between e)" and c: "\<And>xo code e. turn_safe solo e (close_limit xo code e)"
    and r: "authorize_native_start between close_limit now nid gid room pid handoff p d = (sp, d')"
  shows "turn_safe solo d d'"
proof -
  obtain res d1 where auth: "authorize_turn between now gid p d = (res, d1)" by fastforce
  have "d1 \<in> {d, between d}" using auth by (auto simp: authorize_turn_def Let_def split: option.splits if_splits prod.splits)
  then have safe: "turn_safe solo d d1" using b by auto
  have locked: "turn_safe solo d1 d2" if "start_locked now nid room pid handoff p t d1 = Inr (sn, d2)" for t sn d2
    using that grant_safe by (auto simp: start_locked_def bindE_Inr_iff split: if_splits option.splits prod.splits)
  have answer: "turn_safe solo d1 d2" if "start_answer close_limit p (start_locked now nid room pid handoff p t d1) d1 = (sp, d2)" for t d2
    using that locked c by (auto simp: start_answer_def split: sum.splits turn_exc.splits if_splits)
  have "d' = d \<or> d' = d1 \<or> (\<exists>t. start_answer close_limit p (start_locked now nid room pid handoff p t d1) d1 = (sp, d'))"
    using r by (auto simp: authorize_native_start_def auth split: if_splits sum.splits turn_exc.splits)
  then show ?thesis using safe answer turn_safe_trans by auto
qed

section \<open>The steps\<close>

text \<open>
  What transactions of other modules may do to these tables: end an open turn, close a live attempt, and change any
  column the turn service does not own; they write no reply and no further attempt.
\<close>

definition elsewhere_turn :: "run_turn \<Rightarrow> run_turn \<Rightarrow> bool" where
  "elsewhere_turn t t' \<longleftrightarrow>
     nu_request t' = nu_request t \<and> rt_key t' = rt_key t \<and> rt_max t' = rt_max t \<and> nu_active t' = nu_active t \<and> rt_retries t' = rt_retries t
     \<and> rt_accepted t' = rt_accepted t \<and> (nu_state t' = nu_state t \<or> \<not> ended t \<and> nu_state t' = TnCancelled)"

definition elsewhere_attempt :: "run_attempt \<Rightarrow> run_attempt \<Rightarrow> bool" where
  "elsewhere_attempt a a' \<longleftrightarrow> attempt_mod a a' \<and> (live_attempt a' \<longrightarrow> live_attempt a)"

definition turns_elsewhere :: "turn_db \<Rightarrow> turn_db \<Rightarrow> bool" where
  "turns_elsewhere d d' \<longleftrightarrow>
     list_all2 elsewhere_turn (td_turns d) (td_turns d') \<and> list_all2 elsewhere_attempt (td_attempts d) (td_attempts d') \<and> replies d' = replies d"

lemma elsewhere_tries:
  assumes "list_all2 elsewhere_attempt xs ys"
  shows "list_all2 elsewhere_attempt (filter (\<lambda>a. nb_turn a = rid) xs) (filter (\<lambda>a. nb_turn a = rid) ys)"
  using assms by (induction rule: list_all2_induct) (auto simp: elsewhere_attempt_def attempt_mod_def)

lemma list_all2_map_eq: "list_all2 R xs ys \<Longrightarrow> (\<And>x y. R x y \<Longrightarrow> f y = g x) \<Longrightarrow> map f ys = map g xs"
  by (induction rule: list_all2_induct) auto

lemma list_all2_left: "list_all2 R xs ys \<Longrightarrow> x \<in> set xs \<Longrightarrow> \<exists>y \<in> set ys. R x y"
  by (induction rule: list_all2_induct) auto

lemma list_all2_right: "list_all2 R xs ys \<Longrightarrow> y \<in> set ys \<Longrightarrow> \<exists>x \<in> set xs. R x y"
  by (induction rule: list_all2_induct) auto

lemma length_filter_map_id: "length (filter P xs) = length (filter id (map P xs))"
  by (induction xs) auto

lemma elsewhere_safe:
  assumes "turns_elsewhere d d'"
  shows "turn_safe solo d d'"
  unfolding turn_safe_def
proof (intro impI conjI)
  assume ok: "turns_ok d"
  have T: "list_all2 elsewhere_turn (td_turns d) (td_turns d')" and A: "list_all2 elsewhere_attempt (td_attempts d) (td_attempts d')"
    and R: "replies d' = replies d" using assms by (auto simp: turns_elsewhere_def)
  have tries: "list_all2 elsewhere_attempt (tries_of rid d) (tries_of rid d')" for rid
    unfolding tries_of_def by (rule elsewhere_tries [OF A])
  have reqs: "map nu_request (td_turns d') = map nu_request (td_turns d)" by (rule list_all2_map_eq [OF T]) (simp add: elsewhere_turn_def)
  have ids: "map nb_id (td_attempts d') = map nb_id (td_attempts d)"
    by (rule list_all2_map_eq [OF A]) (simp add: elsewhere_attempt_def attempt_mod_def)
  have owners: "map nb_turn (td_attempts d') = map nb_turn (td_attempts d)"
    by (rule list_all2_map_eq [OF A]) (simp add: elsewhere_attempt_def attempt_mod_def)
  have nums: "map nb_number (tries_of rid d') = map nb_number (tries_of rid d)" for rid
    by (rule list_all2_map_eq [OF tries]) (simp add: elsewhere_attempt_def attempt_mod_def)
  have "map ra_transient (tries_of rid d') = map ra_transient (tries_of rid d)" for rid
    by (rule list_all2_map_eq [OF tries]) (simp add: elsewhere_attempt_def attempt_mod_def)
  then have marks: "transient_marks rid d' = transient_marks rid d" for rid
    unfolding transient_marks_def length_filter_map_id [of ra_transient] by presburger
  have rows: "turn_ok t' d'" if t': "t' \<in> set (td_turns d')" for t'
  proof -
    obtain t where t: "t \<in> set (td_turns d)" "elsewhere_turn t t'" using list_all2_right [OF T t'] by blast
    have "attempt_ok t' a'" if a': "a' \<in> set (tries_of (nu_request t) d')" for a'
    proof -
      obtain a where "a \<in> set (tries_of (nu_request t) d)" "elsewhere_attempt a a'" using list_all2_right [OF tries a'] by blast
      then show ?thesis using ok t by (auto simp: turns_ok_def turn_ok_def attempt_ok_def elsewhere_attempt_def attempt_mod_def elsewhere_turn_def)
    qed
    moreover have "turn_ok t d" using ok t(1) by (simp add: turns_ok_def)
    ultimately show ?thesis using t(2) by (simp add: turn_ok_def elsewhere_turn_def nums marks)
  qed
  have reply: "reply_ok d' l" if l: "reply_ok d l" for l
  proof -
    obtain t where t: "t \<in> set (td_turns d)" "nu_request t = tl_request l" "rt_accepted t \<noteq> None"
      "dget (tl_details l) ''message_id'' = opt_str (rt_accepted t)" using l unfolding reply_ok_def by blast
    obtain t' where "t' \<in> set (td_turns d')" "elsewhere_turn t t'" using list_all2_left [OF T t(1)] by blast
    then show ?thesis using t unfolding reply_ok_def elsewhere_turn_def by metis
  qed
  have same: "nb_turn ` set (td_attempts d') = nb_turn ` set (td_attempts d)" "nu_request ` set (td_turns d') = nu_request ` set (td_turns d)"
    using owners reqs by (metis set_map)+
  have "nb_turn ` set (td_attempts d) \<subseteq> nu_request ` set (td_turns d)" using ok unfolding turns_ok_def image_subset_iff by (elim conjE)
  then have own: "\<forall>a \<in> set (td_attempts d'). nb_turn a \<in> nu_request ` set (td_turns d')"
    unfolding same [symmetric] image_subset_iff .
  show "turns_ok d'"
    unfolding turns_ok_def reqs ids R
  proof (intro conjI)
    show "\<forall>t \<in> set (td_turns d'). turn_ok t d'" using rows by blast
    show "\<forall>l \<in> set (replies d). reply_ok d' l" using ok reply unfolding turns_ok_def by blast
  qed (use ok own in \<open>simp_all add: turns_ok_def\<close>)
  show "turns_kept solo d d'"
    unfolding turns_kept_def
  proof
    fix t assume "t \<in> set (td_turns d)"
    then obtain t' where "t' \<in> set (td_turns d')" "elsewhere_turn t t'" using list_all2_left [OF T] by blast
    then show "\<exists>t' \<in> set (td_turns d'). turn_kept solo t t'" by (auto simp: elsewhere_turn_def turn_kept_def)
  qed
qed

text \<open>
  \<open>deliver_pending_outbox\<close> is a sequence of claims and confirmations, with the socket between them.
\<close>

inductive turn_step :: "bool \<Rightarrow> turn_db \<Rightarrow> turn_db \<Rightarrow> bool" for solo where
  create: "\<lbrakk>solo \<longrightarrow> between = (\<lambda>e. e); \<forall>e. (turn_step solo)\<^sup>*\<^sup>* e (between e); create_turn between now ids q d = Inr (rid, d');
      \<forall>e \<in> {d, between d}. the (or_else (tq_request q) (fi_request ids)) \<notin> nu_request ` set (td_turns e)
         \<and> fi_attempt ids \<notin> nb_id ` set (td_attempts e);
      0 \<le> tq_retries q; 0 \<le> tq_max q\<rbrakk> \<Longrightarrow> turn_step solo d d'"
| claim: "\<lbrakk>solo \<longrightarrow> between = (\<lambda>e. e); \<forall>e. (turn_step solo)\<^sup>*\<^sup>* e (between e);
      claim_outbox env between now lease_now oid d = Inr (d', dl)\<rbrakk> \<Longrightarrow> turn_step solo d d'"
| confirm: "turn_step solo d (fst (confirm_delivery now oid dl d))"
| reply: "\<lbrakk>solo \<longrightarrow> between = (\<lambda>e. e); \<forall>e. (turn_step solo)\<^sup>*\<^sup>* e (between e); reply_turn between now mid y d = Inr (dec, d')\<rbrakk>
      \<Longrightarrow> turn_step solo d d'"
| frame: "\<lbrakk>solo \<longrightarrow> between = (\<lambda>e. e); \<forall>e. (turn_step solo)\<^sup>*\<^sup>* e (between e); record_lifecycle between now gid fr d = Inr (okk, d')\<rbrakk>
      \<Longrightarrow> turn_step solo d d'"
| cancel: "\<lbrakk>solo \<longrightarrow> between = (\<lambda>e. e); \<forall>e. (turn_step solo)\<^sup>*\<^sup>* e (between e);
      cancel_general_turn between now rid actor d = Inr (res, d')\<rbrakk> \<Longrightarrow> turn_step solo d d'"
| sweep: "\<lbrakk>solo \<longrightarrow> between = (\<lambda>e. e); \<forall>e. (turn_step solo)\<^sup>*\<^sup>* e (between e)\<rbrakk>
      \<Longrightarrow> turn_step solo d (fst (cancel_invalid_turns between now d))"
| recover: "\<lbrakk>solo \<longrightarrow> between = (\<lambda>e. e); \<forall>e. (turn_step solo)\<^sup>*\<^sup>* e (between e);
      recover_one between now alive_ids ids aid d = Inr (d', rs);
      \<forall>e \<in> {d, between d}. fi_attempt ids \<notin> nb_id ` set (td_attempts e)\<rbrakk> \<Longrightarrow> turn_step solo d d'"
| retry: "\<lbrakk>retry_task c now ids kid rid n d = Inr d'; fi_attempt ids \<notin> nb_id ` set (td_attempts d)\<rbrakk> \<Longrightarrow> turn_step solo d d'"
| start: "\<lbrakk>solo \<longrightarrow> between = (\<lambda>e. e); \<forall>e. (turn_step solo)\<^sup>*\<^sup>* e (between e);
      \<forall>xo code e. (turn_step solo)\<^sup>*\<^sup>* e (close_limit xo code e);
      authorize_native_start between close_limit now nid gid room pid handoff p d = (sp, d')\<rbrakk> \<Longrightarrow> turn_step solo d d'"
| elsewhere: "turns_elsewhere d d' \<Longrightarrow> turn_step solo d d'"

lemma steps_safe: "(\<lambda>x y. turn_step solo x y \<and> turn_safe solo x y)\<^sup>*\<^sup>* d d' \<Longrightarrow> turn_safe solo d d'"
  by (induction rule: rtranclp_induct) (auto intro: turn_safe_trans)

lemma turn_step_safe: "turn_step solo d d' \<Longrightarrow> turn_safe solo d d'"
proof (induction rule: turn_step.induct)
  case (create between now ids q d rid d')
  show ?case by (rule create_safe [OF steps_safe [OF create.IH [rule_format]] create.hyps(2,3,4,5)])
next
  case (claim between env now lease_now oid d d' dl)
  show ?case by (rule claim_safe [OF steps_safe [OF claim.IH [rule_format]] claim.hyps])
next
  case (reply between now mid y d dec d')
  show ?case by (rule reply_safe [OF steps_safe [OF reply.IH [rule_format]] reply.hyps(2)])
next
  case (frame between now gid fr d okk d')
  show ?case by (rule record_safe [OF steps_safe [OF frame.IH [rule_format]] frame.hyps(2)])
next
  case (cancel between now rid actor d res d')
  show ?case by (rule cancel_general_safe [OF steps_safe [OF cancel.IH [rule_format]] cancel.hyps(2)])
next
  case (sweep between now d)
  show ?case by (rule cancel_invalid_safe [OF steps_safe [OF sweep.IH [rule_format]] sweep.hyps])
next
  case (recover between now alive_ids ids aid d d' rs)
  have "d1 \<in> {d, between d}" if "lock_scoped_turn between k d = (x, st, d1)" for k x st d1
    using that by (auto simp: lock_scoped_turn_def Let_def split: option.splits if_splits)
  then show ?case using recover.hyps(3) by (intro recover_safe [OF steps_safe [OF recover.IH [rule_format]] recover.hyps(2)]) blast
next
  case (retry c now ids kid rid n d d')
  then show ?case by (rule retry_safe)
next
  case (start between close_limit now nid gid room pid handoff p d sp d')
  show ?case by (rule start_safe [OF steps_safe [OF start.IH(1) [rule_format]] steps_safe [OF start.IH(2) [rule_format]] start.hyps(2)])
next
  case (elsewhere d d')
  then show ?case by (rule elsewhere_safe)
qed simp

lemma turn_steps_safe: "(turn_step solo)\<^sup>*\<^sup>* d d' \<Longrightarrow> turn_safe solo d d'"
  by (induction rule: rtranclp_induct) (auto intro: turn_step_safe turn_safe_trans)

end
