(* ===== verification/PeerSteps.thy ===== *)
theory PeerSteps
  imports PeerSafety TurnSteps
begin

text \<open>
  The fan-in as a step relation, over every interleaving with the transactions of the turn service,
  and the closed form of the worker's tick.
\<close>

section \<open>Settling in closed form\<close>

lemma fold_tupd:
  assumes "distinct (map key rows)" "\<And>x r. key (F x r) = key r" "set vs \<subseteq> set rows" "distinct vs"
  shows "fold (\<lambda>x. tupd key (key x) (F x)) vs rows = map (\<lambda>r. if r \<in> set vs then F r r else r) rows"
  using assms(3,4)
proof (induction vs rule: rev_induct)
  case (snoc v vs)
  have v: "v \<in> set rows" "v \<notin> set vs" using snoc.prems by simp_all
  let ?h = "\<lambda>r. if r \<in> set vs then F r r else r"
  have "(if key (?h r) = key v then F v (?h r) else ?h r) = (if r \<in> set (vs @ [v]) then F r r else r)" if "r \<in> set rows" for r
    using map_key_inj [OF assms(1) that v(1)] v(2) assms(2) by auto
  then have "map (\<lambda>r. if key (?h r) = key v then F v (?h r) else ?h r) rows = map (\<lambda>r. if r \<in> set (vs @ [v]) then F r r else r) rows"
    by (rule map_cong [OF refl])
  moreover have "fold (\<lambda>x. tupd key (key x) (F x)) (vs @ [v]) rows = tupd key (key v) (F v) (map ?h rows)"
    using snoc by simp
  moreover have "tupd key k f (map h rows) = map (\<lambda>r. if key (h r) = k then f (h r) else h r) rows" for k f h
    by (simp add: tupd_def)
  ultimately show ?case by (simp only:)
qed simp

lemma verdict_key:
  assumes "verdict_of env now d x = Some f"
  shows "target_kept (y\<lparr>pt_state := TgPending\<rparr>) (f y)" "settled_target (pt_state (f y))" "\<not> settled_target (pt_state x)"
  using assms
  by (auto simp: verdict_of_def target_verdict_def settle_def target_kept_def settled_target_def target_outcome_def TERMINAL_TURNS_def
      split: if_splits option.splits turn_state.splits)

definition judged :: "fanin_env \<Rightarrow> instant \<Rightarrow> turn_db \<Rightarrow> peer_target \<Rightarrow> peer_target" where
  "judged env now d x = (case verdict_of env now d x of None \<Rightarrow> x | Some f \<Rightarrow> f x)"

lemma judged_kept: "target_kept x (judged env now d x)"
proof (cases "verdict_of env now d x")
  case (Some f)
  then show ?thesis using verdict_key(1,2) [OF Some, of x] verdict_key(3) [OF Some] by (simp add: judged_def target_kept_def)
qed (simp add: judged_def)

lemma fold_upd_target: "fold (\<lambda>x. upd_target (pt_id x) (F x)) vs d = d\<lparr>td_targets := fold (\<lambda>x. tupd pt_id (pt_id x) (F x)) vs (td_targets d)\<rparr>"
  by (induction vs arbitrary: d) (simp_all add: upd_target_def)

lemma settle_all:
  assumes "peers_ok d"
  shows "fold (\<lambda>x. upd_target (pt_id x) (the (verdict_of env now d x))) (filter (\<lambda>x. verdict_of env now d x \<noteq> None) (td_targets d)) d
    = d\<lparr>td_targets := map (judged env now d) (td_targets d)\<rparr>"
proof -
  let ?vs = "filter (\<lambda>x. verdict_of env now d x \<noteq> None) (td_targets d)"
  let ?F = "\<lambda>x r. if verdict_of env now d x = None then r else the (verdict_of env now d x) r"
  have dist: "distinct (map pt_id (td_targets d))" using assms by (simp add: peers_ok_def)
  have sub: "set ?vs \<subseteq> set (td_targets d)" "distinct ?vs" using dist by (auto simp: distinct_map)
  have key: "pt_id (?F x r) = pt_id r" for x r
    using verdict_key(1) [of env now d x _ r] by (auto simp: target_kept_def)
  have "fold (\<lambda>x. tupd pt_id (pt_id x) (the (verdict_of env now d x))) ?vs rows = fold (\<lambda>x. tupd pt_id (pt_id x) (?F x)) ?vs rows" for rows
    by (rule fold_cong) (auto simp: fun_eq_iff)
  also have "fold (\<lambda>x. tupd pt_id (pt_id x) (?F x)) ?vs (td_targets d) = map (\<lambda>r. if r \<in> set ?vs then ?F r r else r) (td_targets d)"
    using fold_tupd [where key = pt_id and F = ?F and rows = "td_targets d" and vs = ?vs] dist key sub by blast
  also have "\<dots> = map (judged env now d) (td_targets d)" by (rule map_cong) (auto simp: judged_def)
  finally show ?thesis by (simp add: fold_upd_target)
qed

text \<open>A group is done when its caller closed and every target is settled.\<close>

definition all_settled :: "string \<Rightarrow> turn_db \<Rightarrow> bool" where
  "all_settled gid d \<longleftrightarrow> (\<forall>x \<in> set (td_targets d). pt_group x = gid \<longrightarrow> settled_target (pt_state x))"

definition group_done :: "turn_db \<Rightarrow> peer_group \<Rightarrow> bool" where
  "group_done d g \<longleftrightarrow> pg_state g = GrCollecting \<and> pg_closed g \<noteq> None \<and> all_settled (pg_id g) d"

lemma targets_settled: "list_all (\<lambda>t. settled_target (pt_state t)) (targets_of gid d) \<longleftrightarrow> all_settled gid d"
  by (auto simp: targets_of_def all_settled_def list_all_iff)

abbreviation set_ready :: "turn_db \<Rightarrow> string list \<Rightarrow> peer_group \<Rightarrow> peer_group" where
  "set_ready d gids g \<equiv> (if pg_id g \<in> set gids \<and> group_done d g then g\<lparr>pg_state := GrReady\<rparr> else g)"

lemma mark_ready_map:
  assumes "distinct (map pg_id (td_groups d))"
  shows "mark_ready_if_done gid d = d\<lparr>td_groups := map (set_ready d [gid]) (td_groups d)\<rparr>"
proof (cases "tget pg_id gid (td_groups d)")
  case None
  then have "map (set_ready d [gid]) (td_groups d) = td_groups d" by (intro map_idI) (auto simp: tget_None_iff)
  then show ?thesis by (simp add: mark_ready_if_done_def None)
next
  case (Some g)
  have eq: "g' = g" if "g' \<in> set (td_groups d)" "pg_id g' = gid" for g' using tget_distinct [OF assms that(1)] that(2) Some by simp
  have "mark_ready_if_done gid d = (if group_done d g then upd_group gid (\<lambda>g. g\<lparr>pg_state := GrReady\<rparr>) d else d)"
    using tget_Some_key [OF Some] by (auto simp: mark_ready_if_done_def Some targets_settled group_done_def)
  moreover have "tupd pg_id gid (\<lambda>g. g\<lparr>pg_state := GrReady\<rparr>) (td_groups d) = map (set_ready d [gid]) (td_groups d)" if "group_done d g"
    unfolding tupd_def by (rule map_cong) (use that eq in auto)
  moreover have "map (set_ready d [gid]) (td_groups d) = td_groups d" if "\<not> group_done d g"
    by (rule map_idI) (use that eq in auto)
  ultimately show ?thesis by (simp add: upd_group_def)
qed

lemma fold_ready:
  assumes "distinct (map pg_id (td_groups d))"
  shows "fold mark_ready_if_done gids d = d\<lparr>td_groups := map (set_ready d gids) (td_groups d)\<rparr>"
proof (induction gids rule: rev_induct)
  case Nil
  have "map (set_ready d []) (td_groups d) = td_groups d" by (rule map_idI) simp
  then show ?case by simp
next
  case (snoc gid gids)
  let ?e = "d\<lparr>td_groups := map (set_ready d gids) (td_groups d)\<rparr>"
  have ids: "map pg_id (td_groups ?e) = map pg_id (td_groups d)" by simp
  have done_eq: "group_done ?e (set_ready d gids g) \<longleftrightarrow> group_done d g \<and> pg_id g \<notin> set gids" for g
    by (cases "pg_id g \<in> set gids \<and> group_done d g") (auto simp: group_done_def all_settled_def)
  have "fold mark_ready_if_done (gids @ [gid]) d = mark_ready_if_done gid ?e" using snoc by simp
  also have "\<dots> = ?e\<lparr>td_groups := map (set_ready ?e [gid]) (td_groups ?e)\<rparr>" by (rule mark_ready_map) (use ids assms in \<open>simp only:\<close>)
  also have "map (set_ready ?e [gid]) (td_groups ?e) = map (set_ready d (gids @ [gid])) (td_groups d)"
    using done_eq by (auto simp: done_eq)
  finally show ?case by simp
qed

lemma advance_closed_form:
  fixes env now d
  assumes "peers_ok d"
  defines "e \<equiv> d\<lparr>td_targets := map (judged env now d) (td_targets d)\<rparr>"
  shows "advance_collecting env now d = e\<lparr>td_groups := map (\<lambda>g. if group_done e g then g\<lparr>pg_state := GrReady\<rparr> else g) (td_groups d)\<rparr>"
proof -
  let ?vs = "filter (\<lambda>x. verdict_of env now d x \<noteq> None) (td_targets d)"
  let ?ids = "remdups (map pt_group ?vs @ map pg_id (filter (\<lambda>g. pg_state g = GrCollecting \<and> pg_closed g \<noteq> None) (td_groups e)))"
  have "advance_collecting env now d = fold mark_ready_if_done ?ids e"
    by (simp only: advance_collecting_def Let_def settle_all [OF assms(1)] e_def)
  also have "\<dots> = e\<lparr>td_groups := map (set_ready e ?ids) (td_groups e)\<rparr>"
    by (rule fold_ready) (use assms(1) in \<open>simp add: e_def peers_ok_def\<close>)
  also have "map (set_ready e ?ids) (td_groups e) = map (\<lambda>g. if group_done e g then g\<lparr>pg_state := GrReady\<rparr> else g) (td_groups d)"
    by (rule map_cong) (auto simp: e_def group_done_def)
  finally show ?thesis by simp
qed

section \<open>The transactions of the fan-in\<close>

lemma fold_ready_safe: "peer_safe d (fold mark_ready_if_done gids d)"
proof (induction gids arbitrary: d)
  case (Cons gid gids)
  show ?case using peer_safe_trans [OF mark_ready_safe Cons] by simp
qed simp

lemma advance_safe: "peer_safe d (advance_collecting env now d)"
proof (cases "peers_ok d")
  case True
  have "peer_safe d (d\<lparr>td_targets := map (judged env now d) (td_targets d)\<rparr>)" by (rule map_targets_safe) (rule judged_kept)
  then show ?thesis
    unfolding advance_collecting_def Let_def settle_all [OF True] by (rule peer_safe_trans [OF _ fold_ready_safe])
qed (simp add: peer_safe_def)

lemma forward_safe: "peer_safe d (snd (forward_asks rid asks d))"
proof (induction asks arbitrary: d)
  case (Cons a asks)
  have "peer_safe d (fst (record_forwarded_request rid (ak_pid a) (ak_question a) d))"
    by (auto simp: record_forwarded_request_def split: option.split intro!: upd_target_safe) (simp add: target_kept_def)
  then show ?case using Cons [of "fst (record_forwarded_request rid (ak_pid a) (ak_question a) d)"]
    by (auto split: prod.splits intro: peer_safe_trans)
qed simp

lemma open_group_safe:
  assumes "\<And>e. peer_safe e (between e)" "gid \<notin> pg_id ` set (td_groups (between d))" "open_or_join_group env between now gid t pid d = (g, d1)"
  shows "peer_safe d d1" "d1 = d \<or> td_targets d1 = td_targets (between d)"
proof -
  have "peer_safe (between d) ((between d)\<lparr>td_groups := td_groups (between d) @ [new_group env now gid t pid sc]\<rparr>)"
    if "group_for_caller (nu_request t) (between d) = None" for sc
    by (rule add_group_safe) (use assms(2) that in \<open>auto simp: new_group_def group_for_caller_def find_None_iff\<close>)
  then show "peer_safe d d1"
    using assms(1,3) by (auto simp: open_or_join_group_def Let_def split: option.splits intro: peer_safe_trans)
  show "d1 = d \<or> td_targets d1 = td_targets (between d)"
    using assms(3) by (auto simp: open_or_join_group_def Let_def split: option.splits)
qed

text \<open>Ids a step draws that no row has yet.\<close>

definition unused :: "string list \<Rightarrow> string list \<Rightarrow> turn_db \<Rightarrow> bool" where
  "unused tids rids d \<longleftrightarrow>
     distinct tids \<and> distinct rids \<and> set tids \<inter> set (map pt_id (td_targets d)) = {} \<and> set rids \<inter> set (map pt_request (td_targets d)) = {}"

text \<open>The turn service adds and removes no row of the fan-in.\<close>

definition same_rows :: "turn_db \<Rightarrow> turn_db \<Rightarrow> bool" where
  "same_rows d d' \<longleftrightarrow> map pg_id (td_groups d') = map pg_id (td_groups d) \<and> map pg_caller (td_groups d') = map pg_caller (td_groups d)
     \<and> map pg_participant (td_groups d') = map pg_participant (td_groups d)
     \<and> map pt_id (td_targets d') = map pt_id (td_targets d) \<and> map pt_request (td_targets d') = map pt_request (td_targets d)"

lemma same_rows_upd:
  "(\<And>g. pg_id (f g) = pg_id g \<and> pg_caller (f g) = pg_caller g \<and> pg_participant (f g) = pg_participant g)
    \<Longrightarrow> same_rows d (upd_group gid f d)"
  "(\<And>x. pt_id (k x) = pt_id x \<and> pt_request (k x) = pt_request x) \<Longrightarrow> same_rows d (upd_target tid k d)"
  by (auto simp: same_rows_def upd_group_def upd_target_def tupd_def)

lemma same_rows_trans: "same_rows a b \<Longrightarrow> same_rows b c \<Longrightarrow> same_rows a c"
  by (simp add: same_rows_def)

lemma same_rows_hook: "same_rows d (on_turn_terminal t now d)"
proof -
  have r: "same_rows e e" for e by (simp add: same_rows_def)
  have m: "same_rows e (mark_ready_if_done gid e)" for gid e
    by (auto simp: mark_ready_if_done_def r intro: same_rows_upd split: option.split)
  have "same_rows e (settle_own_target t now e)" for e
    unfolding settle_own_target_def by (auto simp: r intro!: same_rows_trans [OF _ m] same_rows_upd split: option.split)
  moreover have "same_rows e (close_caller t now e)" for e
    unfolding close_caller_def by (auto simp: r intro!: same_rows_trans [OF _ m] same_rows_upd split: option.split)
  ultimately show ?thesis unfolding on_turn_terminal_def by (rule same_rows_trans)
qed

interpretation rows: turn_observer same_rows
  by unfold_locales (auto intro: same_rows_trans same_rows_hook same_rows_upd, simp add: same_rows_def)

lemma question_safe:
  assumes "post_question now ids tid g p question refs d = Inr d'"
    "tid \<notin> pt_id ` set (td_targets d)" "fi_request ids \<notin> pt_request ` set (td_targets d)"
  shows "peer_safe d d'" "map pt_id (td_targets d') = map pt_id (td_targets d) @ [tid]"
    "map pt_request (td_targets d') = map pt_request (td_targets d) @ [fi_request ids]"
proof -
  obtain d1 thread rid where m: "append_message (fi_message ids) (pg_room g) (Some (pg_participant g)) (''<@user:'' @ p_id p @ ''> '' @ question)
      (question_meta g (p_id p) refs) thread d = Inr d1"
    and c: "create_turn (\<lambda>e. e) now ids (plain_request (pg_room g) (p_id p) (case p_agent p of None \<Rightarrow> [] | Some a \<Rightarrow> a) (fi_message ids) thread None
                 (fi_request ids)) (d1\<lparr>td_targets := td_targets d1 @ [new_target now tid (fi_request ids) g (p_id p) question (fi_message ids)]\<rparr>)
      = Inr (rid, d')"
    using assms(1) by (auto simp: post_question_def bindE_Inr_iff Let_def)
  have t: "td_targets d1 = td_targets d" using m by (auto simp: append_message_def split: if_splits)
  have "peer_safe d d1" by (rule fanin.safe_message [OF m])
  also have "peer_safe d1 (d1\<lparr>td_targets := td_targets d1 @ [new_target now tid (fi_request ids) g (p_id p) question (fi_message ids)]\<rparr>)"
    by (rule add_target_safe) (use assms(2,3) t in \<open>simp_all add: new_target_def\<close>)
  also have "peer_safe \<dots> d'" by (rule fanin.safe_create [OF _ c]) simp
  finally show "peer_safe d d'" .
  have "same_rows (d1\<lparr>td_targets := td_targets d1 @ [new_target now tid (fi_request ids) g (p_id p) question (fi_message ids)]\<rparr>) d'"
    by (rule rows.safe_create [OF _ c]) simp
  then show "map pt_id (td_targets d') = map pt_id (td_targets d) @ [tid]"
    "map pt_request (td_targets d') = map pt_request (td_targets d) @ [fi_request ids]"
    by (simp_all add: same_rows_def t new_target_def)
qed

lemma questions_safe:
  assumes "post_asks now ids tid refs g acc d = Inr d'" "unused (map (\<lambda>(p, a). tid (p_id p)) acc) (map (\<lambda>(p, a). fi_request (ids (p_id p))) acc) d"
  shows "peer_safe d d'"
  using assms
proof (induction acc arbitrary: d)
  case (Cons pa acc)
  obtain p a where pa: "pa = (p, a)" by fastforce
  obtain d1 where q: "post_question now (ids (p_id p)) (tid (p_id p)) g p (ak_question a) (refs (p_id p)) d = Inr d1"
    and r: "post_asks now ids tid refs g acc d1 = Inr d'"
    using Cons.prems(1) by (auto simp: pa bindE_Inr_iff)
  have fresh: "tid (p_id p) \<notin> pt_id ` set (td_targets d)" "fi_request (ids (p_id p)) \<notin> pt_request ` set (td_targets d)"
    using Cons.prems(2) by (auto simp: unused_def pa)
  note q' = question_safe [OF q fresh]
  have "unused (map (\<lambda>(p, a). tid (p_id p)) acc) (map (\<lambda>(p, a). fi_request (ids (p_id p))) acc) d1"
    using Cons.prems(2) unfolding unused_def q'(2,3) pa by simp
  then have "peer_safe d1 d'" by (rule Cons.IH [OF r])
  with q'(1) show ?case by (rule peer_safe_trans)
qed simp

text \<open>The accepted targets of a call are different participants.\<close>

lemma ask_items_distinct:
  "ask_items vs asks files = Inr (asks', files') \<Longrightarrow> distinct (map ak_pid asks) \<Longrightarrow> distinct (map ak_pid asks')"
proof (induction vs arbitrary: asks files)
  case (Cons v vs)
  obtain a fs where r: "ask_items vs (filter (\<lambda>b. ak_pid b \<noteq> ak_pid a) asks @ [a]) (kput (ak_pid a) fs files) = Inr (asks', files')"
    using Cons.prems(1) by (auto simp: bindE_Inr_iff)
  show ?case by (rule Cons.IH [OF r]) (use Cons.prems(2) in \<open>auto simp: distinct_map_filter\<close>)
qed simp

lemma decided_accepted:
  assumes "decide_asks c room d asks bo = (res, acc, bo')" "distinct (map ak_pid asks)"
  shows "distinct (map (\<lambda>(p, a). p_id p) acc) \<and> (\<lambda>(p, a). p_id p) ` set acc \<subseteq> ak_pid ` set asks
    \<and> (\<forall>(p, a) \<in> set acc. tget p_id (p_id p) (td_participants d) = Some p \<and> p_agent p \<noteq> None)"
  using assms
proof (induction asks arbitrary: bo res acc bo')
  case (Cons a asks)
  consider (take) p bo1 res1 acc1 where "check_peer_ask c (ak_pid a) d = PeerAccepted p" "decide_asks c room d asks bo1 = (res1, acc1, bo')"
      "acc = (p, a) # acc1"
    | (leave) bo1 res1 where "decide_asks c room d asks bo1 = (res1, acc, bo')"
    using Cons.prems(1) by (auto simp: Let_def split: prod.splits peer_decision.splits option.splits if_splits)
  then show ?case
  proof cases
    case take
    have "tget p_id (ak_pid a) (td_participants d) = Some p" "p_agent p \<noteq> None"
      using take(1) by (auto simp: check_peer_ask_def Let_def split: option.splits if_splits)
    moreover from this have "p_id p = ak_pid a" using tget_Some_key by fastforce
    ultimately show ?thesis using Cons.IH [OF take(2)] Cons.prems(2) take(3) by auto
  next
    case leave
    show ?thesis using Cons.IH [OF leave] Cons.prems(2) by auto
  qed
qed simp

definition fresh_ask :: "ask_ids \<Rightarrow> turn_db \<Rightarrow> bool" where
  "fresh_ask ids d \<longleftrightarrow>
     inj (ai_target ids) \<and> inj (\<lambda>pid. fi_request (ai_turns ids pid)) \<and> ai_group ids \<notin> pg_id ` set (td_groups d)
     \<and> (\<forall>pid. ai_target ids pid \<notin> pt_id ` set (td_targets d) \<and> fi_request (ai_turns ids pid) \<notin> pt_request ` set (td_targets d))"

lemma fresh_unused:
  assumes "fresh_ask ids d" "td_targets d1 = td_targets d" "distinct (map (\<lambda>(p, a). p_id p) acc)"
  shows "unused (map (\<lambda>(p, a). ai_target ids (p_id p)) acc) (map (\<lambda>(p, a). fi_request (ai_turns ids (p_id p))) acc) d1"
proof -
  have eq: "map (\<lambda>(p, a). h (p_id p)) acc = map h (map (\<lambda>(p, a). p_id p) acc)" for h :: "string \<Rightarrow> string" by (simp add: case_prod_beta')
  have one: "distinct (map (\<lambda>(p, a). h (p_id p)) acc) \<and> set (map (\<lambda>(p, a). h (p_id p)) acc) \<inter> set (map key (td_targets d)) = {}"
    if "inj h" "\<forall>pid. h pid \<notin> key ` set (td_targets d)" for h :: "string \<Rightarrow> string" and key :: "peer_target \<Rightarrow> string"
  proof
    show "distinct (map (\<lambda>(p, a). h (p_id p)) acc)"
      unfolding eq distinct_map [of h] using assms(3) that(1) by (auto intro: inj_on_subset)
  qed (use that(2) in auto)
  show ?thesis
    using one [of "ai_target ids" pt_id] one [of "\<lambda>pid. fi_request (ai_turns ids pid)" pt_request] assms(1)
    unfolding unused_def fresh_ask_def assms(2) by blast
qed

lemma ask_safe:
  assumes "\<And>e. peer_safe e (between e)" "fresh_ask ids d" "fresh_ask ids (between d)"
    and "ask_peer env between now ids files gid args bo d = (Inr (ans, d'), bo')"
  shows "peer_safe d d'"
proof -
  have send: "peer_safe d d'" if s: "send_asks env between now ids refs room c t asks bo d = (Inr (ans, d'), bo')"
    and dist: "distinct (map ak_pid asks)" for refs room c t asks
  proof -
    obtain res acc bo1 where dec: "decide_asks c room d asks bo = (res, acc, bo1)" by (metis prod_cases3)
    obtain g d1 where o: "open_or_join_group env between now (ai_group ids) t (p_id (ac_participant c)) d = (g, d1)" by fastforce
    have "d' = d \<or> post_asks now (ai_turns ids) (ai_target ids) refs g acc d1 = Inr d'"
      using s unfolding send_asks_def dec o by (auto split: list.splits prod.splits peer_decision.splits if_splits sum.splits)
    moreover have "peer_safe d d'" if p: "post_asks now (ai_turns ids) (ai_target ids) refs g acc d1 = Inr d'"
    proof -
      have "ai_group ids \<notin> pg_id ` set (td_groups (between d))" using assms(3) by (simp add: fresh_ask_def)
      note og = open_group_safe [OF assms(1) this o]
      have "fresh_ask ids (if d1 = d then d else between d)" "td_targets d1 = td_targets (if d1 = d then d else between d)"
        using assms(2,3) og(2) by auto
      then have "peer_safe d1 d'" by (rule questions_safe [OF p fresh_unused]) (use decided_accepted [OF dec dist] in blast)
      with og(1) show ?thesis by (rule peer_safe_trans)
    qed
    ultimately show ?thesis by auto
  qed
  show ?thesis
  proof (cases "parse_asks args")
    case (Inr q)
    obtain room asks wanted where q: "q = (room, asks, wanted)" by (metis prod_cases3)
    have dist: "distinct (map ak_pid asks)"
      using Inr by (auto simp: q parse_asks_def bindE_Inr_iff split: pyval.splits if_splits intro: ask_items_distinct)
    have fwd: "peer_safe d d'" if "forward_all env t asks d = (ans, d')" for t
      using that forward_safe [of d "nu_request t" asks] by (auto simp: forward_all_def split: prod.splits if_splits)
    show ?thesis
      using assms(4) unfolding ask_peer_def Inr q
      by (auto simp: Let_def split: sum.splits option.splits if_splits intro: send [OF _ dist] fwd)
  qed (use assms(4) in \<open>simp add: ask_peer_def\<close>)
qed

section \<open>Waking\<close>

text \<open>A waking leaves its group at an end; everything before it only kept what was there.\<close>

lemma wake_group_form:
  assumes "\<And>e. peer_safe e (between e)" "wake_group env between now ids g d = Inr d'"
  obtains e f where "peer_safe d e" "d' = upd_group (pg_id g) f e"
    "f = (\<lambda>g. g\<lparr>pg_state := GrAbandoned\<rparr>)
     \<or> (\<exists>b. f = (\<lambda>g. g\<lparr>pg_wake := Some (fi_request ids), pg_woken := Some now, pg_state := (if b then GrWoken else GrAbandoned)\<rparr>))"
proof -
  consider "d' = upd_group (pg_id g) (\<lambda>g. g\<lparr>pg_state := GrAbandoned\<rparr>) d"
    | content meta thread d1 q rid d2 b where "append_message (fi_message ids) (pg_room g) None content meta thread d = Inr d1"
      "create_turn between now ids q d1 = Inr (rid, d2)"
      "d' = upd_group (pg_id g) (\<lambda>g. g\<lparr>pg_wake := Some (fi_request ids), pg_woken := Some now, pg_state := (if b then GrWoken else GrAbandoned)\<rparr>) d2"
    using assms(2) unfolding wake_group_def by (auto simp: bindE_Inr_iff split: option.splits)
  then show ?thesis
  proof cases
    case 1
    then show ?thesis using that [of d] by simp
  next
    case 2
    have "peer_safe d d2" by (rule peer_safe_trans [OF fanin.safe_message [OF 2(1)] fanin.safe_create [OF assms(1) 2(2)]])
    then show ?thesis using that 2(3) by blast
  qed
qed

lemma wake_safe:
  assumes "\<And>e. peer_safe e (between e)" "wake_one env between now ids gid d = Inr (d', n)"
  shows "peer_safe d d'"
  unfolding peer_safe_def
proof (intro impI)
  assume ok: "peers_ok d"
  let ?claim = "\<lambda>g. g\<lparr>pg_state := GrWaking\<rparr>"
  let ?d0 = "upd_group gid ?claim d"
  have same: "peers_ok d \<and> peers_kept d d \<and> held d \<subseteq> held d" using ok peer_safe_refl [of d] unfolding peer_safe_def by blast
  show "peers_ok d' \<and> peers_kept d d' \<and> held d' \<subseteq> held d"
  proof (cases "\<exists>g. tget pg_id gid (td_groups d) = Some g \<and> pg_state g = GrReady")
    case False
    then have "d' = d" using assms(2) by (auto simp: wake_one_def split: option.splits if_splits)
    then show ?thesis using same by simp
  next
    case True
    then obtain g where g: "tget pg_id gid (td_groups d) = Some g" "pg_state g = GrReady" by blast
    have gid: "pg_id g = gid" using tget_Some_key [OF g(1)] .
    have only: "g' = g" if "g' \<in> set (td_groups d)" "pg_id g' = gid" for g'
      using tget_distinct [of pg_id "td_groups d" g'] that g(1) ok by (simp add: peers_ok_def)
    have gok: "group_ok g" using ok tget_Some_mem [OF g(1)] by (simp add: peers_ok_def)
    have w: "wake_group env between now ids (?claim g) ?d0 = Inr d'"
      using assms(2) g by (auto simp: wake_one_def Let_def bindE_Inr_iff)
    obtain e f where e: "peer_safe ?d0 e" "d' = upd_group gid f e"
      and f: "f = (\<lambda>g. g\<lparr>pg_state := GrAbandoned\<rparr>)
       \<or> (\<exists>b. f = (\<lambda>g. g\<lparr>pg_wake := Some (fi_request ids), pg_woken := Some now, pg_state := (if b then GrWoken else GrAbandoned)\<rparr>))"
      using wake_group_form [OF assms(1) w] gid by auto
    let ?h = "\<lambda>g. if pg_id g = gid then f g else g" and ?c = "\<lambda>g. if pg_id g = gid then ?claim g else g"
    have rows0: "td_groups ?d0 = map ?c (td_groups d)" "td_targets ?d0 = td_targets d" by (simp_all add: upd_group_def tupd_def)
    have rows: "td_groups d' = map ?h (td_groups e)" "td_targets d' = td_targets e" by (simp_all add: e(2) upd_group_def tupd_def)
    have cids: "map pg_id (map ?c (td_groups d)) = map pg_id (td_groups d)" "map pg_caller (map ?c (td_groups d)) = map pg_caller (td_groups d)"
      by simp_all
    have "\<forall>x \<in> set (td_groups d). group_ok (?c x)" using ok only gok g(2) by (auto simp: peers_ok_def group_ok_def)
    then have "\<forall>x \<in> set (map ?c (td_groups d)). group_ok x" by (metis (no_types, lifting) imageE set_map)
    then have ok0: "peers_ok ?d0" using ok unfolding peers_ok_def rows0 cids by blast
    then have oke: "peers_ok e" and kept: "peers_kept ?d0 e" and held: "held e \<subseteq> held ?d0" using e(1) by (auto simp: peer_safe_def)
    have mem0: "?c x \<in> set (td_groups ?d0)" if "x \<in> set (td_groups d)" for x
      unfolding rows0 set_map using that by (rule imageI)
    have fkeep: "pg_id (f x) = pg_id x \<and> pg_caller (f x) = pg_caller x \<and> pg_closed (f x) = pg_closed x \<and> pg_room (f x) = pg_room x
        \<and> pg_participant (f x) = pg_participant x \<and> pg_trigger (f x) = pg_trigger x \<and> pg_scope (f x) = pg_scope x
        \<and> pg_deadline (f x) = pg_deadline x \<and> stage (pg_state (f x)) = 3 \<and> pg_state (f x) \<noteq> GrWaking
        \<and> (pg_state (f x) = GrWoken \<longrightarrow> pg_wake (f x) \<noteq> None)" for x
      using f by (auto split: if_splits)
    have each: "\<exists>x' \<in> set (td_groups d'). group_kept x x'" if x: "x \<in> set (td_groups d)" for x
    proof -
      obtain y where y: "y \<in> set (td_groups e)" "group_kept (?c x) y" using kept mem0 [OF x] unfolding peers_kept_def by blast
      have "group_kept x (?h y)"
        using y(2) only [OF x] g(2) fkeep [of y] by (cases "pg_id x = gid") (auto simp: group_kept_def)
      moreover have "?h y \<in> set (td_groups d')" unfolding rows set_map using y(1) by (rule imageI)
      ultimately show ?thesis by blast
    qed
    have "peers_kept d d'" using each kept unfolding peers_kept_def rows(2) rows0(2) by blast
    moreover have "peers_ok d'"
    proof -
      have closed: "pg_closed y \<noteq> None" if y: "y \<in> set (td_groups e)" "pg_id y = gid" for y
      proof -
        obtain z where z: "z \<in> set (td_groups e)" "group_kept (?c g) z" using kept mem0 [OF tget_Some_mem [OF g(1)]] unfolding peers_kept_def by blast
        then have "z = y" using map_key_inj [of pg_id "td_groups e" z y] oke y gid by (auto simp: peers_ok_def group_kept_def)
        then show ?thesis using z(2) gok g(2) gid by (auto simp: group_kept_def group_ok_def)
      qed
      have "\<forall>y \<in> set (td_groups e). group_ok (?h y)" using oke closed fkeep by (auto simp: peers_ok_def group_ok_def)
      then have "\<forall>y \<in> set (map ?h (td_groups e)). group_ok y" by (metis (no_types, lifting) imageE set_map)
      moreover have "map pg_id (map ?h (td_groups e)) = map pg_id (td_groups e)" "map pg_caller (map ?h (td_groups e)) = map pg_caller (td_groups e)"
        using fkeep by simp_all
      ultimately show ?thesis using oke unfolding peers_ok_def rows by (simp only:)
    qed
    moreover have "held d' \<subseteq> held d"
    proof
      fix k
      assume "k \<in> held d'"
      then obtain y where y: "y \<in> set (td_groups e)" "pg_state (?h y) = GrWaking" "k = pg_id (?h y)" unfolding held_def rows by auto
      then have ne: "pg_id y \<noteq> gid" "k = pg_id y" "pg_state y = GrWaking" using fkeep [of y] by (auto split: if_splits)
      then have "k \<in> held ?d0" using y(1) held by (auto simp: held_def)
      then show "k \<in> held d" using ne(1,2) unfolding held_def rows0 by (auto split: if_splits)
    qed
    ultimately show ?thesis by blast
  qed
qed

end
