(* ===== verification/TurnGuarantees.thy ===== *)
theory TurnGuarantees
  imports TurnSteps
begin

text \<open>
  What the durable turns promise, over every interleaving of their transactions: one visible reply,
  bounded attempts, ends that stay, deliveries and redispatches that passed their gates, and starts
  that are permitted whole or not at all.
\<close>

section \<open>A small installation\<close>

definition sample_run_turn :: "string \<Rightarrow> string \<Rightarrow> turn_state \<Rightarrow> run_turn" where
  "sample_run_turn rid mid st =
     \<lparr>nu_request = rid, nu_room = ''room'', nu_participant = Some ''p'', nu_agent = Some ''g'', nu_task = None, nu_trigger = Some mid,
      nu_execution = None, nu_revision = None, nu_state = st, nu_active = 1, rt_thread = None, rt_key = rid, rt_attachment = None,
      rt_epoch = None, rt_protocol = 1, rt_retries = 0, rt_max = 1, rt_accepted = None, rt_reason = None, rt_created = 0,
      rt_updated = 0, rt_completed = None\<rparr>"

definition sample_try :: "string \<Rightarrow> string \<Rightarrow> turn_attempt_state \<Rightarrow> run_attempt" where
  "sample_try aid rid st =
     \<lparr>nb_id = aid, nb_turn = rid, nb_agent = Some ''g'', nb_number = 1, nb_generation = 3, nb_state = st, nb_local = None,
      nb_lease = ''lease'', nb_expires = Some 100, ra_leased = None, ra_started = None, ra_ended = None, ra_outcome = None,
      ra_reason = None, ra_transient = False\<rparr>"

definition sample_outbox :: "string \<Rightarrow> string \<Rightarrow> string \<Rightarrow> run_outbox" where
  "sample_outbox oid rid aid =
     \<lparr>ro_id = oid, ro_turn = rid, ro_attempt = aid, ro_room = ''room'', ro_participant = Some ''p'', ro_state = ObPending, ro_count = 0,
      ro_available = 0, ro_delivered = None, ro_error = None, ro_created = 0\<rparr>"

definition sample_message :: "string \<Rightarrow> int \<Rightarrow> message_row" where
  "sample_message mid n =
     \<lparr>ms_id = mid, ms_room = ''room'', ms_participant = None, ms_content = ''hi'', ms_meta = [], ms_root = None, ms_seq = n\<rparr>"

text \<open>Two turns of one participant: the first leased by its agent, the second waiting behind it.\<close>

definition sample_desk :: turn_db where
  "sample_desk =
     \<lparr>td_turns = [sample_run_turn ''q1'' ''m1'' TnLeased, sample_run_turn ''q2'' ''m2'' TnPending],
      td_attempts = [sample_try ''a1'' ''q1'' TaLeased, sample_try ''a2'' ''q2'' TaPending],
      td_outbox = [sample_outbox ''o2'' ''q2'' ''a2''],
      td_agents = [\<lparr>ng_id = ''g'', ng_generation = 3, ng_running = True, rg_actual = ''running'', rg_pending = None, rg_deadline = None,
        rg_timeout = None, rg_machine = None\<rparr>],
      td_participants = [\<lparr>p_id = ''p'', p_room = ''room'', p_agent = Some ''g'', p_role = ''member''\<rparr>],
      td_rooms = [\<lparr>r_id = ''room'', r_project = None, r_archived = None, r_is_dm = False, r_lead = None, rr_parent = None\<rparr>],
      td_tasks = [], td_messages = [sample_message ''m1'' 1, sample_message ''m2'' 2], td_execs = [], td_revisions = [], td_stops = [],
      td_results = [], td_events = [], td_rows = [], td_attachments = [], td_audits = [], td_groups = [], td_targets = [],
      td_budget = \<lparr>bd_usage = [], bd_policies = [], bd_incidents = [], bd_agents = []\<rparr>, td_logs = [], td_recoveries = [],
      td_denials = []\<rparr>"

definition sample_reply :: reply where
  "sample_reply =
     \<lparr>ry_request = Some ''q1'', ry_room = ''room'', ry_participant = ''p'', ry_agent = ''g'',
      ry_proof = \<lparr>pf_attempt = Some 1, pf_generation = Some 3, pf_lease = Some ''lease''\<rparr>, ry_outcome = Some ''ok'',
      ry_content = ''done'', ry_meta = [], ry_thread = None\<rparr>"

definition sample_ids :: fresh_ids where
  "sample_ids = \<lparr>fi_request = ''q3'', fi_attempt = ''a3'', fi_lease = ''lease3'', fi_outbox = ''o3'', fi_message = ''m3''\<rparr>"

definition sample_env :: delivery_env where
  "sample_env = \<lparr>de_connected = True, de_control = True, de_generation = Some 3, de_conversation = None, de_mono = 0, de_cache = (\<lambda>_. None)\<rparr>"

lemma sample_desk_ok: "turns_ok sample_desk"
  by (simp add: turns_ok_def turn_ok_def sample_desk_def sample_run_turn_def sample_try_def tries_of_def transient_marks_def
      attempt_ok_def replies_def live_attempt_def)

lemma sample_replied:
  "case reply_turn (\<lambda>e. e) 50 ''m9'' sample_reply sample_desk of
     Inl _ \<Rightarrow> False | Inr (dec, d) \<Rightarrow> dec = DAccept ''a1'' \<and> map tl_request (replies d) = [''q1'']"
  by code_simp

lemma sample_recovered:
  "case recover_one (\<lambda>e. e) 200 [] sample_ids ''a1'' sample_desk of
     Inl _ \<Rightarrow> False | Inr (d, res) \<Rightarrow> rs_redispatched res = 1 \<and> map nb_id (tries_of ''q1'' d) = [''a1'', ''a3'']"
  by code_simp

lemma sample_cancelled:
  "case cancel_general_turn (\<lambda>e. e) 50 ''q2'' None sample_desk of
     Inl _ \<Rightarrow> False
   | Inr (res, d) \<Rightarrow>
       map nu_state (td_turns d) = [TnLeased, TnCancelled]
       \<and> (case reply_turn (\<lambda>e. e) 50 ''m9'' sample_reply d of
            Inl _ \<Rightarrow> False | Inr (dec, d') \<Rightarrow> map nu_state (td_turns d') = [TnCompleted, TnCancelled])"
  by code_simp

lemma sample_queued:
  "claim_outbox sample_env (\<lambda>e. e) 60 60 ''o2'' sample_desk = Inr (sample_desk, None)"
  by code_simp


lemma sample_step_reply:
  obtains dec d' where "reply_turn (\<lambda>e. e) 50 ''m9'' sample_reply sample_desk = Inr (dec, d')"
    "(turn_step True)\<^sup>*\<^sup>* sample_desk d'" "map tl_request (replies d') = [''q1'']"
proof -
  obtain dec d' where r: "reply_turn (\<lambda>e. e) 50 ''m9'' sample_reply sample_desk = Inr (dec, d')" "map tl_request (replies d') = [''q1'']"
    using sample_replied by (auto split: sum.splits)
  have "turn_step True sample_desk d'" by (rule turn_step.reply [OF _ _ r(1)]) simp_all
  then show ?thesis by (rule that [OF r(1) r_into_rtranclp r(2)])
qed

lemma sample_step_recover:
  obtains d' res where "(turn_step True)\<^sup>*\<^sup>* sample_desk d'" "map nb_id (tries_of ''q1'' d') = [''a1'', ''a3'']"
    "recover_one (\<lambda>e. e) 200 [] sample_ids ''a1'' sample_desk = Inr (d', res)" "rs_redispatched res = 1"
proof -
  obtain d' res where r: "recover_one (\<lambda>e. e) 200 [] sample_ids ''a1'' sample_desk = Inr (d', res)"
    "map nb_id (tries_of ''q1'' d') = [''a1'', ''a3'']" "rs_redispatched res = 1"
    using sample_recovered by (auto split: sum.splits)
  have "fi_attempt sample_ids \<notin> nb_id ` set (td_attempts sample_desk)" by (simp add: sample_ids_def sample_desk_def sample_try_def)
  then have "turn_step True sample_desk d'" by (intro turn_step.recover [OF _ _ r(1)]) simp_all
  then show ?thesis by (rule that [OF r_into_rtranclp r(2,1,3)])
qed

lemma sample_step_cancel:
  obtains d1 d2 where "(turn_step True)\<^sup>*\<^sup>* sample_desk d1" "(turn_step True)\<^sup>*\<^sup>* d1 d2"
    "map nu_state (td_turns d1) = [TnLeased, TnCancelled]" "map nu_state (td_turns d2) = [TnCompleted, TnCancelled]"
proof -
  obtain res d1 dec d2 where r: "cancel_general_turn (\<lambda>e. e) 50 ''q2'' None sample_desk = Inr (res, d1)"
    "reply_turn (\<lambda>e. e) 50 ''m9'' sample_reply d1 = Inr (dec, d2)"
    "map nu_state (td_turns d1) = [TnLeased, TnCancelled]" "map nu_state (td_turns d2) = [TnCompleted, TnCancelled]"
  proof (cases "cancel_general_turn (\<lambda>e. e) 50 ''q2'' None sample_desk")
    case (Inr c)
    then show ?thesis
      using sample_cancelled that by (cases c; cases "reply_turn (\<lambda>e. e) 50 ''m9'' sample_reply (snd c)") auto
  qed (use sample_cancelled in simp)
  have "turn_step True sample_desk d1" by (rule turn_step.cancel [OF _ _ r(1)]) simp_all
  moreover have "turn_step True d1 d2" by (rule turn_step.reply [OF _ _ r(2)]) simp_all
  ultimately show ?thesis by (rule that [OF r_into_rtranclp r_into_rtranclp r(3,4)])
qed

section \<open>Over every interleaving\<close>


text \<open>
  C2. A turn gets a bounded number of attempts: they are numbered from one without gaps, at most
  \<open>rt_max\<close> of them are ordinary retries and three transient ones, and only the newest can still run.
\<close>

theorem attempts_bounded:
  assumes "turns_ok d" "(turn_step solo)\<^sup>*\<^sup>* d d'" "t \<in> set (td_turns d')"
  shows "map nb_number (tries_of (nu_request t) d') = [1..nu_active t]
    \<and> int (length (tries_of (nu_request t) d')) \<le> 1 + rt_max t + MAX_TRANSIENT_RETRIES
    \<and> (\<forall>a \<in> set (tries_of (nu_request t) d'). live_attempt a \<longrightarrow> nb_number a = nu_active t)
    \<and> length (filter live_attempt (tries_of (nu_request t) d')) \<le> 1"
proof -
  have ok: "turn_ok t d'" using turn_steps_safe [OF assms(2)] assms(1,3) by (simp add: turn_safe_def turns_ok_def)
  let ?as = "tries_of (nu_request t) d'"
  have nums: "map nb_number ?as = [1..nu_active t]" and live: "\<forall>a \<in> set ?as. live_attempt a \<longrightarrow> nb_number a = nu_active t"
    using ok by (auto simp: turn_ok_def attempt_ok_def)
  have "int (length ?as) = nu_active t" using arg_cong [OF nums, of length] ok by (simp add: turn_ok_def)
  moreover have "length (filter live_attempt ?as) \<le> 1"
  proof -
    have "distinct (map nb_number (filter live_attempt ?as))" using nums by (simp add: distinct_map_filter)
    moreover have "set (map nb_number (filter live_attempt ?as)) \<subseteq> {nu_active t}" using live by auto
    ultimately have "length (map nb_number (filter live_attempt ?as)) \<le> card {nu_active t}"
      by (metis card_mono distinct_card finite.emptyI finite.insertI)
    then show ?thesis by simp
  qed
  ultimately show ?thesis using nums live ok by (auto simp: turn_ok_def)
qed

text \<open>
  C3. Run one at a time, the transactions never bring an ended turn back: it keeps its end, a completed one
  whatever happens, and a failed or cancelled one unless the user's retry opens a new attempt.
\<close>

theorem ended_turns_stay:
  assumes "turns_ok d" "(turn_step True)\<^sup>*\<^sup>* d d'" "t \<in> set (td_turns d)" "ended t"
  shows "\<exists>t' \<in> set (td_turns d'). nu_request t' = nu_request t
    \<and> (nu_state t' = nu_state t \<or> (nu_state t \<noteq> TnCompleted \<and> nu_active t < nu_active t'))"
proof -
  have "turns_kept True d d'" using turn_steps_safe [OF assms(2)] assms(1) by (simp add: turn_safe_def)
  then show ?thesis using assms(3,4) unfolding turns_kept_def turn_kept_def by blast
qed


theorem attempts_bounded_witness:
  "\<exists>d' (t::run_turn). (turn_step True)\<^sup>*\<^sup>* sample_desk d' \<and> nu_request t = ''q1'' \<and> length (tries_of ''q1'' d') = 2 \<and> nu_active t = 2
     \<and> length (filter live_attempt (tries_of ''q1'' d')) \<le> 1"
proof -
  obtain d' res where s: "(turn_step True)\<^sup>*\<^sup>* sample_desk d'" "map nb_id (tries_of ''q1'' d') = [''a1'', ''a3'']"
    by (rule sample_step_recover)
  have two: "length (tries_of ''q1'' d') = 2" using arg_cong [OF s(2), of length] by simp
  have "turns_kept True sample_desk d'" using turn_steps_safe [OF s(1)] sample_desk_ok by (simp add: turn_safe_def)
  moreover have "sample_run_turn ''q1'' ''m1'' TnLeased \<in> set (td_turns sample_desk)" by (simp add: sample_desk_def)
  ultimately obtain t where "t \<in> set (td_turns d')" "turn_kept True (sample_run_turn ''q1'' ''m1'' TnLeased) t"
    unfolding turns_kept_def by blast
  then have t: "t \<in> set (td_turns d')" "nu_request t = ''q1''" by (simp_all add: turn_kept_def sample_run_turn_def)
  note b = attempts_bounded [OF sample_desk_ok s(1) t(1), unfolded t(2)]
  have act: "nu_active t = 2" using arg_cong [OF conjunct1 [OF b], of length] two by simp
  have single: "length (filter live_attempt (tries_of ''q1'' d')) \<le> 1" using b by (elim conjE)
  show ?thesis by (intro exI [of _ d'] exI [of _ t] conjI s(1) t(2) two act single)
qed

theorem ended_turns_stay_witness:
  "\<exists>d1 d2 t t'. (turn_step True)\<^sup>*\<^sup>* sample_desk d1 \<and> (turn_step True)\<^sup>*\<^sup>* d1 d2 \<and> t \<in> set (td_turns d1) \<and> nu_state t = TnCancelled
     \<and> t' \<in> set (td_turns d2) \<and> nu_request t' = nu_request t \<and> (nu_state t' = TnCancelled \<or> nu_active t < nu_active t')"
proof -
  obtain d1 d2 where s: "(turn_step True)\<^sup>*\<^sup>* sample_desk d1" "(turn_step True)\<^sup>*\<^sup>* d1 d2"
    "map nu_state (td_turns d1) = [TnLeased, TnCancelled]" by (rule sample_step_cancel)
  have ok: "turns_ok d1" using turn_steps_safe [OF s(1)] sample_desk_ok by (simp add: turn_safe_def)
  have "TnCancelled \<in> nu_state ` set (td_turns d1)" using s(3) by (metis list.set_intros(1,2) set_map)
  then obtain t where t: "t \<in> set (td_turns d1)" "nu_state t = TnCancelled" by (metis imageE)
  then have "ended t" by (simp add: ended_def)
  from ended_turns_stay [OF ok s(2) t(1) this] obtain t' where t': "t' \<in> set (td_turns d2)" "nu_request t' = nu_request t"
    "nu_state t' = TnCancelled \<or> nu_active t < nu_active t'" unfolding t(2) by blast
  show ?thesis by (intro exI [of _ d1] exI [of _ d2] exI [of _ t] exI [of _ t'] conjI s t t')
qed


section \<open>Deliveries\<close>

text \<open>Everything a delivery needs, in the database it was locked in.\<close>

definition delivery_allowed :: "delivery_env \<Rightarrow> instant \<Rightarrow> run_outbox \<Rightarrow> run_turn \<Rightarrow> run_attempt \<Rightarrow> run_agent \<Rightarrow> message_row \<Rightarrow> turn_db \<Rightarrow> bool" where
  "delivery_allowed env now row t a g m d \<longleftrightarrow>
     fst (execution_gate now t None d) \<and> fst (workspace_gate now t d) \<and> member_gate (ro_participant row) (ro_room row) (nu_agent t) d
     \<and> opt_get ng_id (nu_agent t) (td_agents d) = Some g \<and> nb_generation a = ng_generation g
     \<and> fst (invocation_block_in_session (nu_agent t) (Some (nu_room t)) now (de_mono env) (td_budget d) (de_cache env)) = None
     \<and> opt_get ms_id (nu_trigger t) (td_messages d) = Some m \<and> \<not> prior_open m t d \<and> de_connected env
     \<and> nb_state a \<in> {TaPending, TaLeased, TaStarted}"


lemma sample_delivered:
  "case reply_turn (\<lambda>e. e) 50 ''m9'' sample_reply sample_desk of
     Inl _ \<Rightarrow> False
   | Inr (dec, d) \<Rightarrow> (case claim_outbox sample_env (\<lambda>e. e) 60 60 ''o2'' d of Inl _ \<Rightarrow> False | Inr (d', dl) \<Rightarrow> map_option dl_turn dl = Some ''q2'')"
  by code_simp



section \<open>Recovery\<close>

lemma gate_other_attempts [simp]:
  "execution_gate now t c (upd_turn_attempt k f d) = execution_gate now t c d"
  "workspace_gate now t (upd_turn_attempt k f d) = workspace_gate now t d"
proof -
  let ?d = "upd_turn_attempt k f d"
  have same: "td_stops ?d = td_stops d" "td_tasks ?d = td_tasks d" "td_execs ?d = td_execs d" "td_rooms ?d = td_rooms d"
    "td_revisions ?d = td_revisions d" "td_results ?d = td_results d" "td_attachments ?d = td_attachments d"
    "td_participants ?d = td_participants d" "td_agents ?d = td_agents d" "td_messages ?d = td_messages d"
    by (simp_all add: upd_turn_attempt_def)
  have stop: "unresolved_stop x ?d = unresolved_stop x d" for x unfolding unresolved_stop_def same by (rule refl)
  have lock: "execution_lockable now x r ?d = execution_lockable now x r d" for x r unfolding execution_lockable_def same stop by (rule refl)
  have task: "turn_task t ?d = turn_task t d" unfolding turn_task_def same by (rule refl)
  have valid: "validate_execution_turn l now t ?d = validate_execution_turn l now t d" for l
    unfolding validate_execution_turn_def same task lock stop by (rule refl)
  have fin: "execution_completed t ?d = execution_completed t d" "accepted_result t aid ?d = accepted_result t aid d" for aid
    unfolding execution_completed_def accepted_result_def same by (rule refl)+
  show "execution_gate now t c ?d = execution_gate now t c d" unfolding execution_gate_def valid fin by (rule refl)
  have reason: "attachment_turn_reason now t w ?d = attachment_turn_reason now t w d" for w
    unfolding attachment_turn_reason_def write_task_reason_def same by (rule refl)
  show "workspace_gate now t ?d = workspace_gate now t d"
    unfolding workspace_gate_def active_attachment_def reason same by (rule refl)
qed

lemma fence_redispatch:
  assumes "fence_and_retry now ids t a g marked d = Inr (d', res)" "rs_redispatched res \<noteq> 0"
  shows "fst (execution_gate now t (Some (nb_id a)) d) \<and> fst (workspace_gate now t d) \<and> rt_protocol t \<noteq> 0
    \<and> rp_allowed (retry_plan_of now t a g marked d)"
  using fence_cases [OF assms(1) refl refl] assms(2) by (metis gate_other_attempts)




lemma core_get: "same_core d d' \<Longrightarrow> get_turn rid d' = get_turn rid d \<and> get_turn_attempt aid d' = get_turn_attempt aid d"
  by (simp add: same_core_def)

lemma mark_attempts_Some:
  "td_attempts (mark_turn_terminal e reason at_time (Some k) oc ar now rid d) = tupd nb_id k (end_attempt e at_time oc ar) (td_attempts d)"
proof -
  have "td_attempts (on_turn_terminal t now x) = td_attempts x" for t x
    using same_core_hook [of x t now] by (simp add: same_core_def)
  then show ?thesis by (simp add: mark_turn_terminal_def Let_def upd_turn_attempt_def split: option.split)
qed

text \<open>A resolved attempt: it is over, and its turn ended or has a fresh attempt.\<close>

definition turn_resolved :: "run_turn \<Rightarrow> string \<Rightarrow> turn_db \<Rightarrow> bool" where
  "turn_resolved t aid d \<longleftrightarrow>
     (\<exists>a. get_turn_attempt aid d = Some a \<and> \<not> live_attempt a)
     \<and> (\<exists>t'. get_turn (nu_request t) d = Some t'
          \<and> (ended t' \<or> nu_state t' = TnRetrying \<and> nu_active t' = nu_active t + 1
               \<and> (\<exists>n \<in> set (td_attempts d). nb_turn n = nu_request t \<and> nb_number n = nu_active t' \<and> nb_state n = TaPending)))"

lemma resolved_core: "turn_resolved t aid d \<Longrightarrow> same_core d d' \<Longrightarrow> turn_resolved t aid d'"
  by (simp add: turn_resolved_def same_core_def)

lemma ended_end_turn [simp]: "ended (end_turn e r at_time t)"
  by (cases e) (simp_all add: ended_def end_turn_def)

lemma mark_get: "get_turn rid d = Some t \<Longrightarrow> get_turn rid (mark_turn_terminal e r at_time aid oc ar now rid d) = Some (end_turn e r at_time t)"
  by (simp add: mark_core tget_tupd end_turn_def)

lemma mark_resolved:
  assumes "get_turn (nu_request t) d = Some u" "get_turn_attempt aid d = Some a"
  shows "turn_resolved t aid (mark_turn_terminal e r at_time (Some aid) oc ar now (nu_request t) d)"
proof -
  have "nb_id (end_attempt e at_time oc ar a) = nb_id a" for a by (simp add: end_attempt_def)
  then have "get_turn_attempt aid (mark_turn_terminal e r at_time (Some aid) oc ar now (nu_request t) d) = Some (end_attempt e at_time oc ar a)"
    using assms(2) by (simp add: mark_attempts_Some tget_tupd)
  then show ?thesis using mark_get [OF assms(1)] end_attempt_mod by (auto simp: turn_resolved_def)
qed

lemma ended_resolved:
  assumes "get_turn (nu_request t) d = Some u" "get_turn_attempt aid d = Some a" "\<not> live_attempt a"
  shows "turn_resolved t aid (turn_ended e r now t d)"
  using assms mark_get [OF assms(1)] by (simp add: turn_resolved_def turn_ended_def mark_attempts_None)

lemma redispatch_resolved:
  assumes t: "get_turn (nu_request t) d = Some t" and a: "get_turn_attempt aid d = Some a0" "\<not> live_attempt a0" and "fi_attempt ids \<noteq> aid"
  shows "turn_resolved t aid (redispatch now ids pl t a g d)"
proof -
  define n where "n = new_attempt_row ids (nu_request t) (nu_agent t) (nu_active t + 1) (redispatch_generation (rp_reason pl) g)"
  define f where "f = (\<lambda>x. x\<lparr>ra_transient := True\<rparr> :: run_attempt)"
  let ?d' = "redispatch now ids pl t a g d"
  have atts: "td_attempts ?d' = (if rp_transient pl then tupd nb_id (nb_id a) f (td_attempts d @ [n]) else td_attempts d @ [n])"
    by (simp add: redispatch_def Let_def upd_turn_def upd_turn_attempt_def add_outbox_def add_attempt_def on_turn_recovery_def n_def f_def)
  have turns: "td_turns ?d' = tupd nu_request (nu_request t)
      (\<lambda>s. s\<lparr>nu_state := TnRetrying, nu_active := nu_active t + 1, rt_retries := rt_retries s + 1, rt_reason := None\<rparr>) (td_turns d)"
    by (simp add: redispatch_def Let_def upd_turn_def upd_turn_attempt_def add_outbox_def add_attempt_def on_turn_recovery_def)
  have fid: "nb_id (f x) = nb_id x" "live_attempt (f x) = live_attempt x" "nb_turn (f x) = nb_turn x" "nb_number (f x) = nb_number x"
    "nb_state (f x) = nb_state x" for x
    by (simp_all add: f_def live_attempt_def)
  have get: "tget nb_id aid (td_attempts d @ [n]) = Some a0" using a(1) by (simp add: tget_append)
  have "\<exists>x. get_turn_attempt aid ?d' = Some x \<and> \<not> live_attempt x"
    using get a(2) by (auto simp: atts tget_tupd fid)
  moreover have "get_turn (nu_request t) ?d' = Some (t\<lparr>nu_state := TnRetrying, nu_active := nu_active t + 1, rt_retries := rt_retries t + 1,
      rt_reason := None\<rparr>)"
    using t by (simp add: turns tget_tupd)
  moreover have "\<exists>m \<in> set (td_attempts ?d'). nb_turn m = nu_request t \<and> nb_number m = nu_active t + 1 \<and> nb_state m = TaPending"
  proof (intro bexI conjI)
    let ?m = "if rp_transient pl \<and> nb_id n = nb_id a then f n else n"
    show "?m \<in> set (td_attempts ?d')" by (simp add: atts tupd_def)
    show "nb_turn ?m = nu_request t" "nb_number ?m = nu_active t + 1" "nb_state ?m = TaPending"
      by (simp_all add: fid n_def new_attempt_row_def)
  qed
  ultimately show ?thesis by (simp add: turn_resolved_def)
qed


lemma fence_resolved:
  assumes r: "fence_and_retry now ids t a g marked d = Inr (d', res)" and t: "get_turn (nu_request t) d = Some t"
    and a: "get_turn_attempt (nb_id a) d = Some a" and fresh: "fi_attempt ids \<noteq> nb_id a"
  shows "turn_resolved t (nb_id a) d'"
proof -
  define pl where "pl = retry_plan_of now t a g marked d"
  define d1 where "d1 = upd_turn_attempt (nb_id a) (fence_stalled now (rp_reason pl)) d"
  define f where "f = fence_stalled now (rp_reason pl) a"
  obtain re gr d2 where c: "same_core d1 d2"
    and d': "after_recovery re now ids pl t a g (workspace_gate now t d1) (end_recovery re now ids pl gr t a g d2) = Inr d'"
    using fence_cases [OF r pl_def d1_def] by metis
  have "get_turn_attempt (nb_id a) d1 = Some f" "get_turn (nu_request t) d1 = Some t"
    using a t by (simp_all add: d1_def upd_turn_attempt_def tget_tupd fence_stalled_def f_def)
  then have g: "get_turn_attempt (nb_id a) d2 = Some f" "get_turn (nu_request t) d2 = Some t" using core_get [OF c] by simp_all
  have dead: "\<not> live_attempt f" by (simp add: f_def fence_stalled_def live_attempt_def)
  have rec: "turn_resolved t (nb_id a) (on_turn_recovery t n ph rs (turn_ended e r now t d2))" for n ph rs e r
    by (rule resolved_core [OF ended_resolved [OF g(2,1) dead] same_core_simps(7)])
  have e: "turn_resolved t (nb_id a) (end_recovery re now ids pl gr t a g d2)"
    using ended_resolved [OF g(2,1) dead] rec redispatch_resolved [OF g(2,1) dead fresh]
    by (cases re) (simp_all add: Let_def)
  have "turn_resolved t (nb_id a) (upd_turn (nu_request t) (\<lambda>t. t\<lparr>rt_updated := now\<rparr>) x)" if "turn_resolved t (nb_id a) x" for x
    using that by (auto simp: turn_resolved_def upd_turn_def tget_tupd ended_def)
  then show ?thesis using after_recovery_core [OF d'] e resolved_core by blast
qed

text \<open>
  C4. A stalled attempt is always resolved: once \<open>recover_stalled_turns\<close> reaches an open turn whose lease
  is not renewed, that attempt is over, and the turn either ended or waits with a fresh attempt.
\<close>

theorem stalled_turn_resolved:
  assumes "recover_one (\<lambda>e. e) now [] ids aid d = Inr (d', res)"
    and a: "get_turn_attempt aid d = Some a" "nb_state a \<in> set LEASED_STATES"
    and t: "get_turn (nb_turn a) d = Some t" "nu_state t \<in> set OPEN_TURN_STATES"
    and g: "opt_get ng_id (nb_agent a) (td_agents d) = Some g" and fresh: "fi_attempt ids \<noteq> aid"
  shows "turn_resolved t aid d'"
proof -
  have id: "nb_id a = aid" "nu_request t = nb_turn a" using a(1) t(1) by (auto dest: tget_Some_key)
  have lock: "lock_scoped_turn (\<lambda>e. e) (nb_turn a) d = (Some t, False, d)" by (rule lock_self [OF t(1)])
  have "recover_locked now [] ids t a d = Inr (d', res)"
    using assms(1) a lock id by (simp add: recover_one_def)
  then consider marked where "fence_and_retry now ids t a g marked d = Inr (d', res)"
    | tr where "recover_execution now t a d = (Some (d', res), tr)"
    using g t(2) unfolding recover_locked_def by (auto split: if_splits option.splits prod.splits)
  then show ?thesis
  proof cases
    case 1
    then show ?thesis using fence_resolved [OF 1] t(1) a(1) fresh id by simp
  next
    case 2
    have get: "get_turn (nu_request t) d = Some t" using t(1) id by simp
    have rec: "turn_resolved t aid (on_turn_recovery t n ph rs (mark_turn_terminal e r at_time (Some aid) oc ar now (nu_request t) d))"
      for n ph rs e r at_time oc ar
      by (rule resolved_core [OF mark_resolved [OF get a(1)] same_core_simps(7)])
    show ?thesis using 2 mark_resolved [OF get a(1)] rec unfolding recover_execution_def Let_def id by (auto split: if_splits)
  qed
qed

theorem stalled_turn_resolved_witness:
  "\<exists>d' res. recover_one (\<lambda>e. e) 200 [] sample_ids ''a1'' sample_desk = Inr (d', res)
     \<and> turn_resolved (sample_run_turn ''q1'' ''m1'' TnLeased) ''a1'' d'"
proof -
  obtain d' res where r: "recover_one (\<lambda>e. e) 200 [] sample_ids ''a1'' sample_desk = Inr (d', res)"
    by (rule sample_step_recover)
  obtain g where g: "opt_get ng_id (nb_agent (sample_try ''a1'' ''q1'' TaLeased)) (td_agents sample_desk) = Some g"
    by (simp add: sample_desk_def sample_try_def opt_get_def)
  have "turn_resolved (sample_run_turn ''q1'' ''m1'' TnLeased) ''a1'' d'"
    by (rule stalled_turn_resolved [OF r _ _ _ _ g])
      (simp_all add: sample_desk_def sample_try_def sample_run_turn_def sample_ids_def LEASED_STATES_def OPEN_TURN_STATES_def)
  then show ?thesis using r by blast
qed


section \<open>Starts\<close>

text \<open>What a permit writes.\<close>

definition start_permitted :: "instant \<Rightarrow> string \<Rightarrow> string \<Rightarrow> turn_packet \<Rightarrow> turn_db \<Rightarrow> turn_db \<Rightarrow> bool" where
  "start_permitted now nid gid p d d' \<longleftrightarrow>
     (\<exists>t a g ad n. get_turn (tp_request p) d = Some t \<and> attempt_numbered (tp_request p) (tp_attempt p) d = Some a
        \<and> tget ng_id gid (td_agents d) = Some g \<and> live_proof now gid p t a g \<and> start_fence_ok now p t a
        \<and> reserve_native (\<lambda>n. n) nid (nu_request t) (nb_id a) (tp_local p) now (native_view d) = Inr (ad, n) \<and> nad_allowed ad
        \<and> td_rows d' = nd_rows n \<and> get_turn_attempt (nb_id a) d' = Some (a\<lparr>nb_local := Some (tp_local p)\<rparr>))"

lemma grant_permitted:
  assumes "grant_start now nid p t a d = Inr d'" "get_turn_attempt (nb_id a) d = Some a"
  shows "\<exists>ad n. reserve_native (\<lambda>n. n) nid (nu_request t) (nb_id a) (tp_local p) now (native_view d) = Inr (ad, n) \<and> nad_allowed ad
    \<and> start_fence_ok now p t a \<and> td_rows d' = nd_rows n \<and> get_turn_attempt (nb_id a) d' = Some (a\<lparr>nb_local := Some (tp_local p)\<rparr>)"
proof -
  have get: "get_turn_attempt (nb_id a) (upd_turn_attempt (nb_id a) (\<lambda>a. a\<lparr>nb_local := Some (tp_local p)\<rparr>) (put_native n d))
      = Some (a\<lparr>nb_local := Some (tp_local p)\<rparr>)" for n
    using assms(2) by (simp add: upd_turn_attempt_def put_native_def tget_tupd)
  have rows: "td_rows (upd_turn_attempt k f (put_native n d)) = nd_rows n" for k f n by (simp add: upd_turn_attempt_def put_native_def)
  have log: "td_rows (log_turn ty det t x) = td_rows x" "td_attempts (log_turn ty det t x) = td_attempts x" for ty det x
    by (simp_all add: log_turn_def add_log_def)
  show ?thesis
    using assms(1) get rows unfolding grant_start_def bindE_Inr_iff Let_def by (auto simp: log split: if_splits)
qed

text \<open>
  C7. A native start is permitted whole or not at all: a permit was asked with the live lease of the open turn,
  the ledger granted it, its rows are written and the attempt is bound to exactly that invocation; a denial
  leaves what others committed, but for the closing of an execution whose limit was reached.
\<close>

theorem start_permitted_whole:
  assumes "authorize_native_start between close_limit now nid gid room pid handoff p d = (sp, d')" "turns_ok (between d)"
  shows "if sp_allowed sp then start_permitted now nid gid p (between d) d'
    else d' = d \<or> d' = between d \<or> (\<exists>code \<in> {NATIVE_LIMIT, USAGE_LIMIT}. d' = close_limit (tp_execution p) code (between d))"
proof (cases "sp_allowed sp")
  case True
  obtain t where auth: "authorize_turn between now gid p d = (Inr t, between d)"
    and ans: "start_answer close_limit p (start_locked now nid room pid handoff p t (between d)) (between d) = (sp, d')"
    using assms(1) True unfolding authorize_native_start_def
    by (auto simp: start_denied_def authorize_turn_def Let_def split: if_splits prod.splits sum.splits turn_exc.splits option.splits)
  obtain a g where t: "get_turn (tp_request p) (between d) = Some t" and a: "attempt_numbered (tp_request p) (tp_attempt p) (between d) = Some a"
    and g: "tget ng_id gid (td_agents (between d)) = Some g" "live_proof now gid p t a g"
    using auth by (auto simp: authorize_turn_def Let_def split: option.splits if_splits prod.splits)
  obtain sn where lk: "start_locked now nid room pid handoff p t (between d) = Inr (sn, d')"
    using ans True by (auto simp: start_answer_def start_denied_def split: sum.splits turn_exc.splits prod.splits if_splits)
  have req: "nu_request t = tp_request p" using tget_Some_key [OF t] .
  have "grant_start now nid p t a (between d) = Inr d'"
    using lk a req by (auto simp: start_locked_def bindE_Inr_iff split: if_splits prod.splits)
  moreover have "get_turn_attempt (nb_id a) (between d) = Some a"
    by (rule tget_distinct) (use assms(2) a in \<open>auto simp: turns_ok_def attempt_numbered_def find_Some_iff\<close>)
  ultimately show ?thesis using True t a g grant_permitted unfolding start_permitted_def by fastforce
next
  case False
  obtain res d1 where auth: "authorize_turn between now gid p d = (res, d1)" by fastforce
  have d1: "d1 = d \<or> d1 = between d" "\<And>t. res = Inr t \<Longrightarrow> d1 = between d"
    using auth by (auto simp: authorize_turn_def Let_def split: option.splits if_splits prod.splits)
  have "d' = d1 \<or> (\<exists>code \<in> {NATIVE_LIMIT, USAGE_LIMIT}. d' = close_limit (tp_execution p) code d1)"
    if "start_answer close_limit p x d1 = (sp, d')" for x
    using that False by (auto simp: start_answer_def split: sum.splits turn_exc.splits prod.splits if_splits)
  then have "d' = d \<or> d' = d1 \<or> (\<exists>t. res = Inr t) \<and> (\<exists>code \<in> {NATIVE_LIMIT, USAGE_LIMIT}. d' = close_limit (tp_execution p) code d1)"
    using assms(1) unfolding authorize_native_start_def auth by (auto split: if_splits sum.splits turn_exc.splits)
  then show ?thesis using False d1 by auto
qed

definition sample_packet :: turn_packet where
  "sample_packet =
     \<lparr>tp_request = ''q1'', tp_attempt = 1, tp_generation = 3, tp_lease = ''lease'', tp_local = fst permit_ids, tp_execution = None,
      tp_revision = None\<rparr>"

lemma sample_permitted:
  "case authorize_native_start (\<lambda>e. e) (\<lambda>_ _ e. e) 50 ''n1'' ''g'' ''room'' ''p'' None sample_packet sample_desk of
     (sp, d) \<Rightarrow> sp_allowed sp \<and> map na_local (td_rows d) = [fst permit_ids]"
  by code_simp

theorem start_permitted_whole_witness:
  "\<exists>sp d'. authorize_native_start (\<lambda>e. e) (\<lambda>_ _ e. e) 50 ''n1'' ''g'' ''room'' ''p'' None sample_packet sample_desk = (sp, d')
     \<and> sp_allowed sp \<and> start_permitted 50 ''n1'' ''g'' sample_packet sample_desk d' \<and> map na_local (td_rows d') = [fst permit_ids]"
proof -
  obtain sp d' where r: "authorize_native_start (\<lambda>e. e) (\<lambda>_ _ e. e) 50 ''n1'' ''g'' ''room'' ''p'' None sample_packet sample_desk = (sp, d')"
    by fastforce
  then have s: "sp_allowed sp" "map na_local (td_rows d') = [fst permit_ids]" using sample_permitted by simp_all
  have w: "start_permitted 50 ''n1'' ''g'' sample_packet sample_desk d'" using start_permitted_whole [OF r sample_desk_ok] s(1) by simp
  show ?thesis by (intro exI [of _ sp] exI [of _ d'] conjI r s w)
qed

end
