(* ===== verification/PeerGuarantees.thy ===== *)
theory PeerGuarantees
  imports PeerSteps TurnGuarantees
begin

text \<open>
  What the fan-in of peer questions promises: a caller is woken at most once, waits only for peers that
  are still working, gets every answer in the message that wakes it, and a peer that was asked cannot
  ask on.
\<close>

section \<open>Over every interleaving\<close>

text \<open>
  One transaction of the fan-in or of the turn service; what else writes the tables leaves groups and
  targets alone. The deletion of a room, which removes its groups, is not a step.
\<close>

inductive peer_step :: "turn_db \<Rightarrow> turn_db \<Rightarrow> bool" where
  create: "\<lbrakk>\<forall>e. peer_step\<^sup>*\<^sup>* e (between e); create_turn between now ids q d = Inr (rid, d')\<rbrakk> \<Longrightarrow> peer_step d d'"
| claim: "\<lbrakk>\<forall>e. peer_step\<^sup>*\<^sup>* e (between e); claim_outbox denv between now lease_now oid d = Inr (d', dl)\<rbrakk> \<Longrightarrow> peer_step d d'"
| confirm: "peer_step d (fst (confirm_delivery now oid dl d))"
| reply: "\<lbrakk>\<forall>e. peer_step\<^sup>*\<^sup>* e (between e); reply_turn between now mid y d = Inr (dec, d')\<rbrakk> \<Longrightarrow> peer_step d d'"
| frame: "\<lbrakk>\<forall>e. peer_step\<^sup>*\<^sup>* e (between e); record_lifecycle between now gid fr d = Inr (okk, d')\<rbrakk> \<Longrightarrow> peer_step d d'"
| cancel: "\<lbrakk>\<forall>e. peer_step\<^sup>*\<^sup>* e (between e); cancel_general_turn between now rid actor d = Inr (res, d')\<rbrakk> \<Longrightarrow> peer_step d d'"
| sweep: "\<forall>e. peer_step\<^sup>*\<^sup>* e (between e) \<Longrightarrow> peer_step d (fst (cancel_invalid_turns between now d))"
| recover: "\<lbrakk>\<forall>e. peer_step\<^sup>*\<^sup>* e (between e); recover_one between now alive_ids ids aid d = Inr (d', recovered)\<rbrakk> \<Longrightarrow> peer_step d d'"
| retry: "retry_task c now ids kid rid k d = Inr d' \<Longrightarrow> peer_step d d'"
| start: "\<lbrakk>\<forall>e. peer_step\<^sup>*\<^sup>* e (between e); \<forall>xo code e. peer_step\<^sup>*\<^sup>* e (close_limit xo code e);
      authorize_native_start between close_limit now nid gid room pid handoff p d = (sp, d')\<rbrakk> \<Longrightarrow> peer_step d d'"
| ask: "\<lbrakk>\<forall>e. peer_step\<^sup>*\<^sup>* e (between e); fresh_ask draw d; fresh_ask draw (between d);
      ask_peer env between now draw files gid args bo d = (Inr (ans, d'), bo')\<rbrakk> \<Longrightarrow> peer_step d d'"
| advance: "peer_step d (advance_collecting env now d)"
| wake: "\<lbrakk>\<forall>e. peer_step\<^sup>*\<^sup>* e (between e); wake_one env between now ids gid d = Inr (d', n)\<rbrakk> \<Longrightarrow> peer_step d d'"
| elsewhere: "\<lbrakk>td_groups d' = td_groups d; td_targets d' = td_targets d\<rbrakk> \<Longrightarrow> peer_step d d'"

lemma peer_run_safe: "(\<lambda>x y. peer_step x y \<and> peer_safe x y)\<^sup>*\<^sup>* d d' \<Longrightarrow> peer_safe d d'"
  by (induction rule: rtranclp_induct) (auto intro: peer_safe_trans)

lemma peer_step_safe: "peer_step d d' \<Longrightarrow> peer_safe d d'"
proof (induction rule: peer_step.induct)
  case (create between now ids q d rid d')
  show ?case by (rule fanin.safe_create [OF _ create(2)]) (use create(1) peer_run_safe in blast)
next
  case (claim between denv now lease_now oid d d' dl)
  show ?case by (rule fanin.safe_claim [OF _ claim(2)]) (use claim(1) peer_run_safe in blast)
next
  case confirm
  show ?case by (rule fanin.safe_confirm)
next
  case (reply between now mid y d dec d')
  show ?case by (rule fanin.safe_reply [OF _ reply(2)]) (use reply(1) peer_run_safe in blast)
next
  case (frame between now gid fr d okk d')
  show ?case by (rule fanin.safe_lifecycle [OF _ frame(2)]) (use frame(1) peer_run_safe in blast)
next
  case (cancel between now rid actor d res d')
  show ?case by (rule fanin.safe_cancel [OF _ cancel(2)]) (use cancel(1) peer_run_safe in blast)
next
  case (sweep between now d)
  show ?case by (rule fanin.safe_sweep) (use sweep peer_run_safe in blast)
next
  case (recover between now alive_ids ids aid d d' recovered)
  show ?case by (rule fanin.safe_recover [OF _ recover(2)]) (use recover(1) peer_run_safe in blast)
next
  case (retry c now ids kid rid k d d')
  then show ?case by (rule fanin.safe_retry)
next
  case (start between close_limit now nid gid room pid handoff p d sp d')
  show ?case by (rule fanin.safe_start [OF _ _ start(3)]) (use start(1,2) peer_run_safe in blast)+
next
  case (ask between draw d env now files gid args bo ans d' bo')
  show ?case by (rule ask_safe [OF _ ask(2-4)]) (use ask(1) peer_run_safe in blast)
next
  case advance
  show ?case by (rule advance_safe)
next
  case (wake between env now ids gid d d' n)
  show ?case by (rule wake_safe [OF _ wake(2)]) (use wake(1) peer_run_safe in blast)
next
  case (elsewhere d' d)
  then show ?case by (rule peer_safe_same) simp
qed

lemma peer_steps_safe: "peer_step\<^sup>*\<^sup>* d d' \<Longrightarrow> peer_safe d d'"
  by (induction rule: rtranclp_induct) (auto intro: peer_safe_trans peer_step_safe)

text \<open>
  C8. Over every interleaving of the transactions a group of questions only moves forward: it keeps its
  caller, closes once, a committed group is never half woken, and one that woke its caller or was given
  up keeps that end and its wake turn for ever, so no caller is woken twice; a settled question keeps its
  outcome.
\<close>

theorem caller_woken_once:
  assumes "peers_ok d" "held d = {}" "peer_step\<^sup>*\<^sup>* d d'"
  shows "peers_ok d' \<and> held d' = {}
    \<and> (\<forall>g \<in> set (td_groups d). \<exists>g' \<in> set (td_groups d').
         pg_id g' = pg_id g \<and> pg_caller g' = pg_caller g \<and> stage (pg_state g) \<le> stage (pg_state g')
         \<and> (pg_closed g \<noteq> None \<longrightarrow> pg_closed g' = pg_closed g)
         \<and> (pg_state g \<in> {GrWoken, GrAbandoned} \<longrightarrow> pg_state g' = pg_state g \<and> pg_wake g' = pg_wake g))
    \<and> (\<forall>x \<in> set (td_targets d). \<exists>x' \<in> set (td_targets d').
         pt_id x' = pt_id x \<and> pt_group x' = pt_group x \<and> pt_request x' = pt_request x
         \<and> (settled_target (pt_state x) \<longrightarrow> pt_state x' = pt_state x \<and> pt_reason x' = pt_reason x \<and> pt_reply x' = pt_reply x))"
proof -
  have s: "peers_ok d'" "peers_kept d d'" "held d' \<subseteq> {}"
    using peer_steps_safe [OF assms(3)] assms(1,2) by (auto simp: peer_safe_def)
  have g: "\<exists>g' \<in> set (td_groups d'). group_kept g g'" if "g \<in> set (td_groups d)" for g using s(2) that unfolding peers_kept_def by blast
  have x: "\<exists>x' \<in> set (td_targets d'). target_kept x x'" if "x \<in> set (td_targets d)" for x using s(2) that unfolding peers_kept_def by blast
  have "stage (pg_state g) = 3" if "pg_state g \<in> {GrWoken, GrAbandoned}" for g using that by auto
  then show ?thesis using s(1,3) g x unfolding group_kept_def target_kept_def by (intro conjI ballI) (blast | force)+
qed

section \<open>Waiting\<close>

lemma judged_settled:
  assumes "\<not> settled_target (pt_state (judged env now d x))" "tget pg_id (pt_group x) (td_groups d) = Some g" "pg_state g = GrCollecting"
  obtains t where "get_turn (pt_request x) d = Some t" "nu_state t \<in> set OPEN_TURN_STATES" "now < pg_deadline g" "\<not> unstarted env now t d"
proof -
  have none: "verdict_of env now d x = None"
  proof (cases "verdict_of env now d x")
    case (Some f)
    then show ?thesis using verdict_key(2) [OF Some, of x] assms(1) by (simp add: judged_def)
  qed simp
  then have u: "\<not> settled_target (pt_state x)" using assms(1) by (simp add: judged_def)
  then obtain t where t: "get_turn (pt_request x) d = Some t" "nu_state t \<notin> set TERMINAL_TURNS" "now < pg_deadline g" "\<not> unstarted env now t d"
    using none assms(2,3) by (auto simp: verdict_of_def target_verdict_def split: option.splits if_splits)
  have "nu_state t \<in> set OPEN_TURN_STATES" using t(2) by (cases "nu_state t") (simp_all add: TERMINAL_TURNS_def OPEN_TURN_STATES_def)
  then show thesis using t that by blast
qed

text \<open>
  C9. A caller waits only for peers that are still working: after the worker's tick a group whose caller
  closed is still collecting only before its deadline and for a question whose turn is open and is either
  being executed or has not waited longer than the start timeout; every other group is ready.
\<close>

theorem caller_waits_for_work:
  assumes "peers_ok d" "g \<in> set (td_groups (advance_collecting env now d))" "pg_state g = GrCollecting" "pg_closed g \<noteq> None"
  shows "now < pg_deadline g
    \<and> (\<exists>x \<in> set (td_targets d). \<exists>t. pt_group x = pg_id g \<and> \<not> settled_target (pt_state x) \<and> get_turn (pt_request x) d = Some t
         \<and> nu_state t \<in> set OPEN_TURN_STATES \<and> \<not> unstarted env now t d)"
proof -
  let ?e = "d\<lparr>td_targets := map (judged env now d) (td_targets d)\<rparr>"
  obtain g0 where g0: "g0 \<in> set (td_groups d)" "g = (if group_done ?e g0 then g0\<lparr>pg_state := GrReady\<rparr> else g0)"
    using assms(2) unfolding advance_closed_form [OF assms(1)] by auto
  then have nd: "\<not> group_done ?e g0" and eq: "g = g0" using assms(3) by (auto split: if_splits)
  have "\<not> all_settled (pg_id g) ?e" using nd assms(3,4) unfolding group_done_def eq by blast
  then obtain x where x: "x \<in> set (td_targets d)" "pt_group (judged env now d x) = pg_id g" "\<not> settled_target (pt_state (judged env now d x))"
    unfolding all_settled_def by auto
  have k: "target_kept x (judged env now d x)" by (rule judged_kept)
  have grp: "pt_group x = pg_id g" using k x(2) by (simp add: target_kept_def)
  have get: "tget pg_id (pt_group x) (td_groups d) = Some g"
    unfolding grp eq by (rule tget_distinct) (use assms(1) g0(1) in \<open>simp_all add: peers_ok_def\<close>)
  obtain t where t: "get_turn (pt_request x) d = Some t" "nu_state t \<in> set OPEN_TURN_STATES" "now < pg_deadline g" "\<not> unstarted env now t d"
    by (rule judged_settled [OF x(3) get assms(3)])
  have "\<not> settled_target (pt_state x)" using k x(3) by (auto simp: target_kept_def)
  then show ?thesis using x(1) grp t by blast
qed

section \<open>What waking and asking write\<close>

lemma hook_quiet [simp]:
  "td_messages (on_turn_terminal t now d) = td_messages d" "td_participants (on_turn_terminal t now d) = td_participants d"
proof -
  have r: "td_messages (mark_ready_if_done gid e) = td_messages e \<and> td_participants (mark_ready_if_done gid e) = td_participants e" for gid e
    by (auto simp: mark_ready_if_done_def upd_group_def split: option.split)
  have "td_messages (settle_own_target t now e) = td_messages e \<and> td_participants (settle_own_target t now e) = td_participants e" for e
    by (auto simp: settle_own_target_def r upd_target_def split: option.split)
  moreover have "td_messages (close_caller t now e) = td_messages e \<and> td_participants (close_caller t now e) = td_participants e" for e
    by (auto simp: close_caller_def r upd_group_def split: option.split)
  ultimately show "td_messages (on_turn_terminal t now d) = td_messages d" "td_participants (on_turn_terminal t now d) = td_participants d"
    by (simp_all add: on_turn_terminal_def)
qed

lemma mark_quiet [simp]:
  "td_messages (mark_turn_terminal e reason at_time aid oc ar now rid d) = td_messages d"
  "td_participants (mark_turn_terminal e reason at_time aid oc ar now rid d) = td_participants d"
  by (simp_all add: mark_turn_terminal_def Let_def upd_turn_def upd_turn_attempt_def split: option.split)

lemma insert_quiet [simp]:
  "td_messages (insert_turn t ids gen refusal now d) = td_messages d"
  "td_participants (insert_turn t ids gen refusal now d) = td_participants d"
  "td_turns (insert_turn t ids gen refusal now d) =
     (case refusal of None \<Rightarrow> td_turns d @ [t]
      | Some r \<Rightarrow> tupd nu_request (nu_request t) (end_turn EndCancelled (Some r) None) (td_turns d @ [t]))"
  by (simp_all add: insert_turn_def Let_def add_attempt_def add_outbox_def mark_core split: option.split)

text \<open>A created turn, with what the gates read unchanged.\<close>

lemma create_form:
  assumes "create_turn (\<lambda>e. e) now ids q d = Inr (rid, d')" "\<forall>t \<in> set (td_turns d). rt_key t \<noteq> request_key q"
  obtains t gen refusal d3 where "d' = insert_turn t ids gen refusal now d3" "td_turns d3 = td_turns d" "td_messages d3 = td_messages d"
    "td_participants d3 = td_participants d" "nu_request t = rid" "rid = the (or_else (tq_request q) (fi_request ids))"
    "nu_trigger t = Some (tq_trigger q)" "nu_participant t = Some (tq_participant q)" "nu_state t = TnPending"
proof -
  have none: "find (\<lambda>t. rt_key t = request_key q) (td_turns d) = None" using assms(2) by (simp add: find_None_iff)
  define r where "r = the (or_else (tq_request q) (fi_request ids))"
  obtain ws t1 d2 where b: "bind_turn_workspace now (new_turn q r now) d = (ws, t1, d2)" by (metis prod_cases3)
  obtain running gen refusal d3 where f: "refusal_of running ws now (bind_turn_task (opt_get k_id (tq_task q) (td_tasks d)) t1) d2 = Inr (refusal, d3)"
    and d': "rid = r" "d' = insert_turn (bind_turn_task (opt_get k_id (tq_task q) (td_tasks d)) t1) ids gen refusal now d3"
    using assms(1) none by (auto simp: create_turn_def Let_def r_def [symmetric] b bindE_Inr_iff split: if_splits)
  have d2: "td_turns d2 = td_turns d" "td_messages d2 = td_messages d" "td_participants d2 = td_participants d"
    "nu_request t1 = r" "nu_trigger t1 = Some (tq_trigger q)" "nu_participant t1 = Some (tq_participant q)" "nu_state t1 = TnPending"
    using b by (auto simp: bind_turn_workspace_def Let_def new_turn_def append_audit_def split: option.splits)
  have "td_turns d3 = td_turns d2 \<and> td_messages d3 = td_messages d2 \<and> td_participants d3 = td_participants d2"
    using f by (auto simp: refusal_of_def execution_admission_def queue_denial_def bindE_Inr_iff split: if_splits prod.splits option.splits)
  moreover have "nu_trigger (bind_turn_task ko t1) = nu_trigger t1" "nu_participant (bind_turn_task ko t1) = nu_participant t1"
    "nu_state (bind_turn_task ko t1) = nu_state t1" for ko
    by (simp_all add: bind_turn_task_def split: option.split)
  ultimately show thesis using that [OF d'(2)] d2 d'(1) by (simp add: r_def)
qed

text \<open>
  C10. A waking delivers: run on a ready group it leaves the group at an end; if the caller was woken, one
  message of the room, in the thread the caller worked in, carries the outcome of every question in the
  order they were asked, and a pending turn of the caller was created for that message.
\<close>

theorem waking_delivers:
  assumes w: "wake_one env (\<lambda>e. e) now ids gid d = Inr (d', n)" and g: "tget pg_id gid (td_groups d) = Some g" "pg_state g = GrReady"
    and fresh: "fi_request ids \<notin> nu_request ` set (td_turns d)" "fi_request ids \<noteq> []"
      "\<forall>t \<in> set (td_turns d). rt_key t \<noteq> ''message:'' @ fi_message ids @ '':participant:'' @ pg_participant g"
  shows "\<exists>g'. tget pg_id gid (td_groups d') = Some g'
    \<and> (n = 0 \<and> pg_state g' = GrAbandoned
       \<or> n = 1 \<and> pg_state g' = GrWoken \<and> pg_wake g' = Some (fi_request ids)
         \<and> (\<exists>m \<in> set (td_messages d'). \<exists>t origin. ms_id m = fi_message ids \<and> ms_room m = pg_room g \<and> ms_root m = pg_scope g
              \<and> ms_content m = render_results (pg_participant g) origin (pg_draft g) (map (entry_of env d) (targets_of gid d))
              \<and> get_turn (fi_request ids) d' = Some t \<and> nu_state t = TnPending \<and> nu_trigger t = Some (fi_message ids)
              \<and> nu_participant t = Some (pg_participant g)))"
proof -
  let ?claim = "\<lambda>g. g\<lparr>pg_state := GrWaking\<rparr>"
  let ?d0 = "upd_group gid ?claim d"
  have id: "pg_id g = gid" using tget_Some_key [OF g(1)] .
  have d0: "td_messages ?d0 = td_messages d" "td_turns ?d0 = td_turns d" "td_targets ?d0 = td_targets d"
    by (simp_all add: upd_group_def)
  have g0: "tget pg_id gid (td_groups ?d0) = Some (?claim g)" using g(1) by (simp add: upd_group_def tget_tupd)
  have ent: "entry_of env ?d0 = entry_of env d" "targets_of gid ?d0 = targets_of gid d"
    by (simp_all add: fun_eq_iff entry_of_def reply_of_def targets_of_def d0)
  have wg: "wake_group env (\<lambda>e. e) now ids (?claim g) ?d0 = Inr d'"
    and n: "n = (if map_option pg_state (tget pg_id gid (td_groups d')) = Some GrWoken then 1 else 0)"
    using w g by (auto simp: wake_one_def Let_def bindE_Inr_iff)
  have get: "tget pg_id gid (td_groups (upd_group gid f e)) = map_option f (tget pg_id gid (td_groups e))"
    if "\<And>x. pg_id (f x) = pg_id x" for f e using that by (simp add: upd_group_def tget_tupd)
  consider (gone) "d' = upd_group gid (\<lambda>g. g\<lparr>pg_state := GrAbandoned\<rparr>) ?d0"
    | (posted) p origin meta agent task d1 rid d2 where "tget p_id (pg_participant g) (td_participants ?d0) = Some p"
        "append_message (fi_message ids) (pg_room g) None
           (render_results (p_id p) origin (pg_draft g) (map (entry_of env d) (targets_of gid d))) meta (pg_scope g) ?d0 = Inr d1"
        "create_turn (\<lambda>e. e) now ids (plain_request (pg_room g) (p_id p) agent (fi_message ids) (pg_scope g) task (fi_request ids)) d1 = Inr (rid, d2)"
        "d' = upd_group gid (\<lambda>g. g\<lparr>pg_wake := Some (fi_request ids), pg_woken := Some now,
           pg_state := (if map_option nu_state (get_turn rid d2) = Some TnPending then GrWoken else GrAbandoned)\<rparr>) d2"
    using wg by (auto simp: wake_group_def bindE_Inr_iff id ent split: option.splits)
  then show ?thesis
  proof cases
    case gone
    have "tget pg_id gid (td_groups d') = Some (g\<lparr>pg_state := GrAbandoned\<rparr>)"
      unfolding gone by (subst get) (simp_all add: g0)
    then show ?thesis using n by simp
  next
    case posted
    have pid: "p_id p = pg_participant g" using tget_Some_key [OF posted(1)] .
    obtain m where m: "d1 = ?d0\<lparr>td_messages := td_messages ?d0 @ [m]\<rparr>" "ms_id m = fi_message ids" "ms_room m = pg_room g" "ms_root m = pg_scope g"
      "ms_content m = render_results (p_id p) origin (pg_draft g) (map (entry_of env d) (targets_of gid d))"
      using posted(2) by (auto simp: append_message_def split: if_splits)
    have turns1: "td_turns d1 = td_turns d" by (simp add: m(1) d0)
    let ?q = "plain_request (pg_room g) (p_id p) agent (fi_message ids) (pg_scope g) task (fi_request ids)"
    have key: "request_key ?q = ''message:'' @ fi_message ids @ '':participant:'' @ pg_participant g"
      by (simp add: request_key_def or_else_def plain_request_def pid)
    obtain t gen refusal d3 where t: "d2 = insert_turn t ids gen refusal now d3" "td_turns d3 = td_turns d1" "td_messages d3 = td_messages d1"
      "nu_request t = rid" "rid = the (or_else (tq_request ?q) (fi_request ids))" "nu_trigger t = Some (tq_trigger ?q)"
      "nu_participant t = Some (tq_participant ?q)" "nu_state t = TnPending"
      using create_form [OF posted(3)] fresh(3) unfolding turns1 key by metis
    have rid: "rid = fi_request ids" using t(5) fresh(2) by (cases "fi_request ids") (simp_all add: plain_request_def or_else_def)
    have no: "tget nu_request (fi_request ids) (td_turns d) = None" using fresh(1) by (simp add: tget_None_iff)
    obtain y where y: "tget pg_id gid (td_groups d2) = Some y"
    proof -
      have "same_rows ?d0 d2"
        by (rule same_rows_trans [OF rows.safe_message [OF posted(2)] rows.safe_create [OF _ posted(3)]]) simp
      then have "gid \<in> pg_id ` set (td_groups d2)"
        using tget_Some_mem [OF g0] id unfolding same_rows_def by (metis image_eqI list.set_map select_convs(1) tget_Some_key [OF g0])
      then show thesis using that tget_None_iff [of pg_id gid "td_groups d2"] by (cases "tget pg_id gid (td_groups d2)") auto
    qed
    show ?thesis
    proof (cases refusal)
      case None
      have turn: "get_turn (fi_request ids) d2 = Some t"
        using t(1,2,4) turns1 no rid None by (simp add: tget_append)
      have msgs: "m \<in> set (td_messages d')" using t(1,3) posted(4) by (simp add: m(1) upd_group_def)
      have "get_turn (fi_request ids) d' = Some t" using turn posted(4) by (simp add: upd_group_def)
      moreover have "tget pg_id gid (td_groups d') = Some (y\<lparr>pg_wake := Some (fi_request ids), pg_woken := Some now, pg_state := GrWoken\<rparr>)"
        using posted(4) y turn rid t(8) by (simp add: get)
      ultimately show ?thesis using n msgs m(2-5) t(6-8) pid by (auto simp: plain_request_def)
    next
      case (Some r)
      have "get_turn (fi_request ids) d2 = Some (end_turn EndCancelled (Some r) None t)"
        using t(1,2,4) turns1 no rid Some by (simp add: tget_tupd end_turn_def tget_append)
      then have "tget pg_id gid (td_groups d') = Some (y\<lparr>pg_wake := Some (fi_request ids), pg_woken := Some now, pg_state := GrAbandoned\<rparr>)"
        using posted(4) y rid by (simp add: get end_turn_def)
      then show ?thesis using n by simp
    qed
  qed
qed

text \<open>A turn that asked peers never posts its reply, also when its group already woke the caller.\<close>

lemma retried_reply_unposted:
  assumes "accept_reply now mid y t a d = Inr d'" "final_report t (ry_room y) (ry_agent y) d = None"
    "find (\<lambda>g. pg_caller g = nu_request t) (td_groups d) = Some g"
  shows "td_messages d' = td_messages d"
  using assms
  by (auto simp: accept_reply_def absorb_caller_reply_def finish_deferred_def log_turn_def add_log_def upd_turn_def upd_group_def)

section \<open>Asking\<close>

lemma create_rows:
  assumes "create_turn (\<lambda>e. e) now ids q d = Inr (rid, d')"
  shows "td_messages d' = td_messages d" "td_participants d' = td_participants d"
    "t \<in> set (td_turns d') \<Longrightarrow> (\<exists>t0 \<in> set (td_turns d). nu_request t0 = nu_request t \<and> nu_trigger t0 = nu_trigger t \<and> nu_participant t0 = nu_participant t)
       \<or> nu_trigger t = Some (tq_trigger q) \<and> nu_participant t = Some (tq_participant q)"
proof -
  have "td_messages d' = td_messages d \<and> td_participants d' = td_participants d
    \<and> (\<forall>t \<in> set (td_turns d'). (\<exists>t0 \<in> set (td_turns d). nu_request t0 = nu_request t \<and> nu_trigger t0 = nu_trigger t \<and> nu_participant t0 = nu_participant t)
       \<or> nu_trigger t = Some (tq_trigger q) \<and> nu_participant t = Some (tq_participant q))"
  proof (cases "find (\<lambda>t. rt_key t = request_key q) (td_turns d)")
    case (Some t)
    then show ?thesis using assms by (auto simp: create_turn_def Let_def)
  next
    case None
    then have "\<forall>t \<in> set (td_turns d). rt_key t \<noteq> request_key q" by (simp add: find_None_iff)
    then obtain n gen refusal d3 where n: "d' = insert_turn n ids gen refusal now d3" "td_turns d3 = td_turns d" "td_messages d3 = td_messages d"
      "td_participants d3 = td_participants d" "nu_trigger n = Some (tq_trigger q)" "nu_participant n = Some (tq_participant q)"
      using create_form [OF assms] by metis
    have "(\<exists>t0 \<in> set (td_turns d). nu_request t0 = nu_request t \<and> nu_trigger t0 = nu_trigger t \<and> nu_participant t0 = nu_participant t)
       \<or> nu_trigger t = Some (tq_trigger q) \<and> nu_participant t = Some (tq_participant q)" if "t \<in> set (td_turns d')" for t
      using that n by (auto simp: tupd_def end_turn_def split: option.splits if_splits)
    then show ?thesis using n by simp
  qed
  then show "td_messages d' = td_messages d" "td_participants d' = td_participants d"
    "t \<in> set (td_turns d') \<Longrightarrow> (\<exists>t0 \<in> set (td_turns d). nu_request t0 = nu_request t \<and> nu_trigger t0 = nu_trigger t \<and> nu_participant t0 = nu_participant t)
       \<or> nu_trigger t = Some (tq_trigger q) \<and> nu_participant t = Some (tq_participant q)" by blast+
qed

text \<open>A turn that a question of the caller started.\<close>

definition asked_by :: "string \<Rightarrow> run_turn \<Rightarrow> turn_db \<Rightarrow> bool" where
  "asked_by cpid t d \<longleftrightarrow>
     (\<exists>m k. opt_get ms_id (nu_trigger t) (td_messages d) = Some m \<and> ms_participant m = Some cpid \<and> called_ids (ms_meta m) = Inr [k]
        \<and> nu_participant t = Some k)"

lemma asked_by_hop:
  assumes "asked_by cpid t d" "tget p_id cpid (td_participants d) = Some p" "p_agent p \<noteq> None"
  shows "turn_hop (Some t) d = Inr 2"
  using assms by (auto simp: asked_by_def turn_hop_def opt_get_def)

lemma question_called: "called_ids (question_meta g pid refs) = Inr [pid]"
  by (simp add: called_ids_def question_meta_def mention_of_def dget_def dget_or_def map_filter_simps)

lemma question_asked:
  assumes q: "post_question now ids tid g p question refs d = Inr d'"
    and fresh: "fi_message ids \<notin> ms_id ` set (td_messages d)"
    and old: "\<forall>t \<in> set (td_turns d). nu_request t \<in> R \<or> asked_by (pg_participant g) t d"
  shows "\<forall>t \<in> set (td_turns d'). nu_request t \<in> R \<or> asked_by (pg_participant g) t d'" "td_participants d' = td_participants d"
    "ms_id ` set (td_messages d') = insert (fi_message ids) (ms_id ` set (td_messages d))"
proof -
  obtain d1 thread rid where m: "append_message (fi_message ids) (pg_room g) (Some (pg_participant g)) (''<@user:'' @ p_id p @ ''> '' @ question)
      (question_meta g (p_id p) refs) thread d = Inr d1"
    and c: "create_turn (\<lambda>e. e) now ids (plain_request (pg_room g) (p_id p) (case p_agent p of None \<Rightarrow> [] | Some a \<Rightarrow> a) (fi_message ids) thread None
                 (fi_request ids)) (d1\<lparr>td_targets := td_targets d1 @ [new_target now tid (fi_request ids) g (p_id p) question (fi_message ids)]\<rparr>)
      = Inr (rid, d')"
    using q by (auto simp: post_question_def bindE_Inr_iff Let_def)
  obtain msg where msg: "td_messages d1 = td_messages d @ [msg]" "ms_id msg = fi_message ids" "ms_participant msg = Some (pg_participant g)"
    "ms_meta msg = question_meta g (p_id p) refs" "td_turns d1 = td_turns d" "td_participants d1 = td_participants d"
    using m by (auto simp: append_message_def split: if_splits)
  note rows = create_rows [OF c, simplified]
  have msgs: "td_messages d' = td_messages d @ [msg]" using rows(1) msg(1) by simp
  have keep: "asked_by (pg_participant g) t d'" if "asked_by (pg_participant g) t0 d" "nu_trigger t0 = nu_trigger t" "nu_participant t0 = nu_participant t" for t t0
    using that unfolding asked_by_def msgs by (auto simp: opt_get_def tget_append split: option.splits)
  have new: "asked_by (pg_participant g) t d'" if "nu_trigger t = Some (fi_message ids)" "nu_participant t = Some (p_id p)" for t
  proof -
    have "tget ms_id (fi_message ids) (td_messages d) = None" using fresh by (simp add: tget_None_iff)
    then show ?thesis using that msg unfolding asked_by_def msgs by (simp add: opt_get_def tget_append question_called)
  qed
  show "\<forall>t \<in> set (td_turns d'). nu_request t \<in> R \<or> asked_by (pg_participant g) t d'"
  proof
    fix t assume t: "t \<in> set (td_turns d')"
    from rows(3) [OF t] show "nu_request t \<in> R \<or> asked_by (pg_participant g) t d'"
      using old keep new msg(5) by (auto simp: plain_request_def)
  qed
  show "td_participants d' = td_participants d" using rows(2) msg(6) by simp
  show "ms_id ` set (td_messages d') = insert (fi_message ids) (ms_id ` set (td_messages d))" by (simp add: msgs msg(2))
qed

lemma questions_asked:
  assumes "post_asks now ids tid refs g acc d = Inr d'" "distinct (map (\<lambda>(p, a). fi_message (ids (p_id p))) acc)"
    "\<forall>(p, a) \<in> set acc. fi_message (ids (p_id p)) \<notin> ms_id ` set (td_messages d)"
    "\<forall>t \<in> set (td_turns d). nu_request t \<in> R \<or> asked_by (pg_participant g) t d"
  shows "(\<forall>t \<in> set (td_turns d'). nu_request t \<in> R \<or> asked_by (pg_participant g) t d') \<and> td_participants d' = td_participants d"
  using assms
proof (induction acc arbitrary: d)
  case (Cons pa acc)
  obtain p a where pa: "pa = (p, a)" by fastforce
  obtain d1 where q: "post_question now (ids (p_id p)) (tid (p_id p)) g p (ak_question a) (refs (p_id p)) d = Inr d1"
    and r: "post_asks now ids tid refs g acc d1 = Inr d'"
    using Cons.prems(1) by (auto simp: pa bindE_Inr_iff)
  have "fi_message (ids (p_id p)) \<notin> ms_id ` set (td_messages d)" using Cons.prems(3) by (simp add: pa)
  note q' = question_asked [OF q this Cons.prems(4)]
  have "\<forall>(p, a) \<in> set acc. fi_message (ids (p_id p)) \<notin> ms_id ` set (td_messages d1)"
    using Cons.prems(2,3) unfolding q'(3) pa by force
  then show ?case using Cons.IH [OF r _ _ q'(1)] Cons.prems(2) q'(2) by (auto simp: pa)
qed simp

text \<open>Ids of messages a call may draw.\<close>

definition fresh_messages :: "ask_ids \<Rightarrow> turn_db \<Rightarrow> bool" where
  "fresh_messages ids d \<longleftrightarrow> inj (\<lambda>pid. fi_message (ai_turns ids pid)) \<and> (\<forall>pid. fi_message (ai_turns ids pid) \<notin> ms_id ` set (td_messages d))"

lemma send_asked:
  assumes s: "send_asks env between now ids refs room c t asks bo d = (Inr (ans, d'), bo')"
    and dist: "distinct (map ak_pid asks)" and fresh: "fresh_messages ids d" "fresh_messages ids (between d)"
    and parts: "td_participants (between d) = td_participants d"
    and own: "\<forall>e \<in> {d, between d}. \<forall>g \<in> set (td_groups e). pg_caller g = nu_request t \<longrightarrow> pg_participant g = p_id (ac_participant c)"
  shows "(\<forall>t \<in> set (td_turns d'). nu_request t \<in> nu_request ` (set (td_turns d) \<union> set (td_turns (between d))) \<or> asked_by (p_id (ac_participant c)) t d')
    \<and> td_participants d' = td_participants d"
proof -
  obtain res acc bo1 where dec: "decide_asks c room d asks bo = (res, acc, bo1)" by (metis prod_cases3)
  obtain g d1 where o: "open_or_join_group env between now (ai_group ids) t (p_id (ac_participant c)) d = (g, d1)" by fastforce
  have mem: "h \<in> set (td_groups e) \<and> pg_caller h = nu_request t" if "group_for_caller (nu_request t) e = Some h" for h e
    using that by (auto simp: group_for_caller_def find_Some_iff)
  have "pg_participant g = p_id (ac_participant c) \<and> (d1 = d \<or> td_turns d1 = td_turns (between d) \<and> td_messages d1 = td_messages (between d)
      \<and> td_participants d1 = td_participants (between d))"
  proof (cases "group_for_caller (nu_request t) d")
    case (Some g0)
    then have "g = g0" "d1 = d" "g0 \<in> set (td_groups d)" "pg_caller g0 = nu_request t"
      using o mem [OF Some] by (simp_all add: open_or_join_group_def)
    then show ?thesis using own by blast
  next
    case None
    show ?thesis
    proof (cases "group_for_caller (nu_request t) (between d)")
      case (Some g0)
      then have "g = g0" "d1 = between d" "g0 \<in> set (td_groups (between d))" "pg_caller g0 = nu_request t"
        using o None mem [OF Some] by (simp_all add: open_or_join_group_def Let_def)
      then show ?thesis using own by blast
    next
      case none: None
      show ?thesis using o None none by (auto simp: open_or_join_group_def Let_def new_group_def)
    qed
  qed
  then have g: "pg_participant g = p_id (ac_participant c)"
    and d1: "d1 = d \<or> td_turns d1 = td_turns (between d) \<and> td_messages d1 = td_messages (between d)" "td_participants d1 = td_participants d"
    using parts by auto
  let ?R = "nu_request ` (set (td_turns d) \<union> set (td_turns (between d)))"
  have "d' = d \<or> post_asks now (ai_turns ids) (ai_target ids) refs g acc d1 = Inr d'"
    using s unfolding send_asks_def dec o by (auto split: list.splits prod.splits peer_decision.splits if_splits sum.splits)
  moreover have "(\<forall>t \<in> set (td_turns d'). nu_request t \<in> ?R \<or> asked_by (pg_participant g) t d') \<and> td_participants d' = td_participants d1"
    if "post_asks now (ai_turns ids) (ai_target ids) refs g acc d1 = Inr d'"
  proof (rule questions_asked [OF that])
    have "distinct (map (\<lambda>pid. fi_message (ai_turns ids pid)) (map (\<lambda>(p, a). p_id p) acc))"
      using decided_accepted [OF dec dist] fresh(1) unfolding fresh_messages_def distinct_map [of "\<lambda>pid. fi_message (ai_turns ids pid)"]
      by (auto intro: inj_on_subset)
    then show "distinct (map (\<lambda>(p, a). fi_message (ai_turns ids (p_id p))) acc)" by (simp add: case_prod_beta' comp_def)
    show "\<forall>(p, a) \<in> set acc. fi_message (ai_turns ids (p_id p)) \<notin> ms_id ` set (td_messages d1)"
    proof -
      have "\<forall>pid. fi_message (ai_turns ids pid) \<notin> ms_id ` set (td_messages d1)" using fresh d1(1) unfolding fresh_messages_def by metis
      then show ?thesis by blast
    qed
    show "\<forall>t \<in> set (td_turns d1). nu_request t \<in> ?R \<or> asked_by (pg_participant g) t d1" using d1(1) by auto
  qed
  ultimately show ?thesis using g d1(2) by auto
qed

text \<open>
  C11. Questions never chain: every turn a call of \<open>ask_peer\<close> starts has hop 2, and a call from a turn of
  hop 2 starts no turn and posts no message; it only hands the request back to the agent that asked.
\<close>

theorem asked_peer_cannot_ask:
  assumes call: "ask_peer env between now ids files gid args bo d = (Inr (ans, d'), bo')"
    and caller: "parse_asks args = Inr (room, asks, wanted)" "resolve_caller gid room d = Inr (Some c)" "ac_turn c = Some t"
    and fresh: "fresh_messages ids d" "fresh_messages ids (between d)"
    and parts: "td_participants (between d) = td_participants d" "distinct (map p_id (td_participants d))"
    and own: "\<forall>e \<in> {d, between d}. \<forall>g \<in> set (td_groups e). pg_caller g = nu_request t \<longrightarrow> pg_participant g = p_id (ac_participant c)"
  shows "(\<forall>t \<in> set (td_turns d'). nu_request t \<in> nu_request ` (set (td_turns d) \<union> set (td_turns (between d))) \<or> turn_hop (Some t) d' = Inr 2)
    \<and> (1 < ac_hop c \<longrightarrow> td_turns d' = td_turns d \<and> td_messages d' = td_messages d \<and> td_groups d' = td_groups d)"
proof -
  have dist: "distinct (map ak_pid asks)"
    using caller(1) by (auto simp: parse_asks_def bindE_Inr_iff split: pyval.splits if_splits intro: ask_items_distinct)
  have cp: "ac_participant c \<in> set (td_participants d)" "p_agent (ac_participant c) \<noteq> None"
    using caller(2) by (auto simp: resolve_caller_def bindE_Inr_iff Let_def find_Some_iff split: option.splits)
  have get: "tget p_id (p_id (ac_participant c)) (td_participants d) = Some (ac_participant c)" by (rule tget_distinct [OF parts(2) cp(1)])
  have forward: "td_turns e' = td_turns e \<and> td_messages e' = td_messages e \<and> td_groups e' = td_groups e"
    if "forward_asks rid as e = (fs, e')" for rid as e fs e'
    using that
  proof (induction as arbitrary: e fs)
    case (Cons a as)
    then show ?case by (fastforce simp: record_forwarded_request_def upd_target_def split: prod.splits option.splits)
  qed simp
  consider (keep) "d' = d" | (fwd) fs where "forward_asks (nu_request t) asks d = (fs, d')"
    | (send) "\<not> 1 < ac_hop c" "send_asks env between now ids (references_for files room gid wanted) room c t asks bo d = (Inr (ans, d'), bo')"
    using call unfolding ask_peer_def caller by (auto simp: Let_def caller forward_all_def split: if_splits prod.splits)
  then show ?thesis
  proof cases
    case fwd
    then show ?thesis using forward [OF fwd] by auto
  next
    case send
    note s = send_asked [OF send(2) dist fresh parts(1) own]
    have "turn_hop (Some u) d' = Inr 2" if "asked_by (p_id (ac_participant c)) u d'" for u
      by (rule asked_by_hop [OF that _ cp(2)]) (use s get in simp)
    then show ?thesis using s send(1) by blast
  qed auto
qed

section \<open>A small exchange\<close>

text \<open>The caller's turn \<open>q1\<close> is being executed; agent \<open>h\<close> is a peer in the same room.\<close>

definition sample_room :: turn_db where
  "sample_room =
     sample_desk\<lparr>td_turns := [sample_run_turn ''q1'' ''m1'' TnLeased],
       td_attempts := [sample_try ''a1'' ''q1'' TaLeased], td_outbox := [],
       td_agents := td_agents sample_desk @ [\<lparr>ng_id = ''h'', ng_generation = 1, ng_running = True, rg_actual = ''running'', rg_pending = None,
         rg_deadline = None, rg_timeout = None, rg_machine = None\<rparr>],
       td_participants := td_participants sample_desk @ [\<lparr>p_id = ''p2'', p_room = ''room'', p_agent = Some ''h'', p_role = ''member''\<rparr>]\<rparr>"

definition sample_fanin :: fanin_env where
  "sample_fanin = \<lparr>fe_deadline = None, fe_start = Some ''60'', fe_names = [(''p'', ''Lead''), (''p2'', ''Helper'')]\<rparr>"

definition sample_draw :: ask_ids where
  "sample_draw =
     \<lparr>ai_group = ''grp'',
      ai_turns = (\<lambda>pid. \<lparr>fi_request = ''r-'' @ pid, fi_attempt = ''a-'' @ pid, fi_lease = ''l-'' @ pid, fi_outbox = ''o-'' @ pid, fi_message = ''m-'' @ pid\<rparr>),
      ai_target = (\<lambda>pid. ''t-'' @ pid)\<rparr>"

definition sample_question :: "(string \<times> pyval) list" where
  "sample_question =
     [(''room_id'', PStr ''room''),
      (''asks'', PList [PDict [(''participant_id'', PStr ''p2''), (''question'', PStr '' Is it green? '')]])]"

definition sample_group :: "group_state \<Rightarrow> instant option \<Rightarrow> string option \<Rightarrow> peer_group" where
  "sample_group st shut draft =
     \<lparr>pg_id = ''grp'', pg_room = ''room'', pg_participant = ''p'', pg_agent = Some ''g'', pg_caller = ''q1'', pg_trigger = Some ''m1'',
      pg_scope = None, pg_state = st, pg_closed = shut, pg_draft = draft, pg_deadline = 10 + seconds 86400, pg_wake = None, pg_woken = None\<rparr>"

definition sample_target :: "target_state \<Rightarrow> string option \<Rightarrow> instant option \<Rightarrow> peer_target" where
  "sample_target st reason stop_at =
     \<lparr>pt_id = ''t-p2'', pt_group = ''grp'', pt_participant = ''p2'', pt_question = ''Is it green?'', pt_message = Some ''m-p2'',
      pt_request = ''r-p2'', pt_state = st, pt_reason = reason, pt_reply = None, pt_forwarded = [], pt_finished = stop_at, pt_created = 10\<rparr>"

text \<open>The question was posted and the helper's turn waits.\<close>

definition asked_turn :: run_turn where
  "asked_turn = (sample_run_turn ''r-p2'' ''m-p2'' TnPending)\<lparr>nu_participant := Some ''p2'', nu_agent := Some ''h'', rt_thread := Some ''m1'',
     rt_key := ''message:m-p2:participant:p2'', rt_created := 10, rt_updated := 10\<rparr>"

definition asked_room :: "turn_db" where
  "asked_room =
     sample_room\<lparr>
       td_turns := td_turns sample_room @ [asked_turn],
       td_attempts := td_attempts sample_room @
         [(sample_try ''a-p2'' ''r-p2'' TaPending)\<lparr>nb_agent := Some ''h'', nb_generation := 1, nb_lease := ''l-p2'', nb_expires := None\<rparr>],
       td_outbox := [(sample_outbox ''o-p2'' ''r-p2'' ''a-p2'')\<lparr>ro_participant := Some ''p2'', ro_available := 10, ro_created := 10\<rparr>],
       td_messages := td_messages sample_room @
         [\<lparr>ms_id = ''m-p2'', ms_room = ''room'', ms_participant = Some ''p'', ms_content = ''<@user:p2> Is it green?'',
           ms_meta = question_meta (sample_group GrCollecting None None) ''p2'' [], ms_root = Some ''m1'', ms_seq = 3\<rparr>],
       td_groups := [sample_group GrCollecting None None], td_targets := [sample_target TgPending None None]\<rparr>"

lemma sample_asked:
  "fst (ask_peer sample_fanin (\<lambda>e. e) 10 sample_draw [] ''g'' sample_question None sample_room)
     = Inr (AskSent [(''p2'', PeerAccepted \<lparr>p_id = ''p2'', p_room = ''room'', p_agent = Some ''h'', p_role = ''member''\<rparr>)], asked_room)"
  by code_simp

text \<open>The caller's reply became its draft; sixty seconds later the helper has not started.\<close>

definition waiting_room :: "turn_db" where
  "waiting_room = (case reply_turn (\<lambda>e. e) 20 ''m9'' sample_reply asked_room of Inr (_, d) \<Rightarrow> d | _ \<Rightarrow> asked_room)"

lemma waiting_room_rows:
  "map nu_state (td_turns waiting_room) = [TnCompleted, TnPending] \<and> map ms_id (td_messages waiting_room) = [''m1'', ''m2'', ''m-p2'']
   \<and> td_groups waiting_room = [sample_group GrCollecting (Some 20) (Some ''done'')] \<and> td_targets waiting_room = td_targets asked_room"
  by code_simp

definition ready_room :: "turn_db" where
  "ready_room = waiting_room\<lparr>td_groups := [sample_group GrReady (Some 20) (Some ''done'')],
     td_targets := [sample_target TgTimeout (Some ''peer_unavailable'') (Some (10 + seconds 60))]\<rparr>"

lemma ready_room_rows:
  "td_groups (advance_collecting sample_fanin (10 + seconds 60) waiting_room) = td_groups ready_room
   \<and> td_targets (advance_collecting sample_fanin (10 + seconds 60) waiting_room) = td_targets ready_room"
  by code_simp

definition woken_room :: "turn_db" where
  "woken_room = (case wake_one sample_fanin (\<lambda>e. e) 90000000 sample_ids ''grp'' ready_room of Inr (d, _) \<Rightarrow> d | _ \<Rightarrow> ready_room)"

lemma woken_room_rows:
  "map pg_state (td_groups woken_room) = [GrWoken] \<and> map pg_wake (td_groups woken_room) = [Some ''q3'']
   \<and> map nu_state (td_turns woken_room) = [TnCompleted, TnPending, TnPending]"
  by code_simp

lemma held_none: "held d = {} \<longleftrightarrow> (\<forall>g \<in> set (td_groups d). pg_state g \<noteq> GrWaking)"
  by (auto simp: held_def)

lemma sample_woken: "wake_one sample_fanin (\<lambda>e. e) 90000000 sample_ids ''grp'' ready_room = Inr (woken_room, 1)"
proof -
  have "case wake_one sample_fanin (\<lambda>e. e) 90000000 sample_ids ''grp'' ready_room of Inl _ \<Rightarrow> False | Inr (d, n) \<Rightarrow> n = 1" by code_simp
  then show ?thesis by (auto simp: woken_room_def split: sum.splits)
qed

lemma sample_ready: "peers_ok ready_room" "held ready_room = {}"
proof -
  show "peers_ok ready_room" by code_simp
  show "held ready_room = {}" unfolding held_none by code_simp
qed

theorem caller_woken_once_witness:
  "peer_step\<^sup>*\<^sup>* ready_room woken_room \<and> held woken_room = {}
     \<and> (\<exists>x \<in> set (td_targets woken_room). pt_state x = TgTimeout \<and> pt_reason x = Some ''peer_unavailable'')"
proof -
  have step: "peer_step\<^sup>*\<^sup>* ready_room woken_room" by (rule r_into_rtranclp, rule peer_step.wake [OF _ sample_woken]) simp
  note once = caller_woken_once [OF sample_ready step]
  have "list_ex (\<lambda>x. pt_state x = TgTimeout \<and> pt_reason x = Some ''peer_unavailable'') (td_targets ready_room)" by code_simp
  then obtain x where x: "x \<in> set (td_targets ready_room)" "pt_state x = TgTimeout" "pt_reason x = Some ''peer_unavailable''"
    by (auto simp: list_ex_iff)
  then obtain x' where "x' \<in> set (td_targets woken_room)" "settled_target (pt_state x) \<longrightarrow> pt_state x' = pt_state x \<and> pt_reason x' = pt_reason x"
    using once by blast
  then show ?thesis using x(2,3) step once by (auto simp: settled_target_def)
qed

theorem caller_waits_for_work_witness:
  "\<exists>t. get_turn ''r-p2'' waiting_room = Some t \<and> nu_state t \<in> set OPEN_TURN_STATES \<and> \<not> unstarted sample_fanin (9 + seconds 60) t waiting_room"
proof -
  have ok: "peers_ok waiting_room" by code_simp
  have "list_ex (\<lambda>g. pg_state g = GrCollecting \<and> pg_closed g \<noteq> None) (td_groups (advance_collecting sample_fanin (9 + seconds 60) waiting_room))"
    by code_simp
  then obtain g where g: "g \<in> set (td_groups (advance_collecting sample_fanin (9 + seconds 60) waiting_room))" "pg_state g = GrCollecting" "pg_closed g \<noteq> None"
    by (auto simp: list_ex_iff)
  have "list_all (\<lambda>x. pt_request x = ''r-p2'') (td_targets waiting_room)" by code_simp
  then show ?thesis using caller_waits_for_work [OF ok g] unfolding list_all_iff by metis
qed

theorem waking_delivers_witness:
  "\<exists>m \<in> set (td_messages woken_room). \<exists>t. ms_id m = ''m3'' \<and> get_turn ''q3'' woken_room = Some t \<and> nu_state t = TnPending \<and> nu_trigger t = Some ''m3''"
proof -
  have "map_option pg_state (tget pg_id ''grp'' (td_groups ready_room)) = Some GrReady" by code_simp
  then obtain g where g: "tget pg_id ''grp'' (td_groups ready_room) = Some g" "pg_state g = GrReady" by auto
  have new: "fi_request sample_ids \<notin> nu_request ` set (td_turns ready_room)" "fi_request sample_ids \<noteq> []" by code_simp+
  have "map_option pg_participant (tget pg_id ''grp'' (td_groups ready_room)) = Some ''p''
      \<and> list_all (\<lambda>t. rt_key t \<noteq> ''message:'' @ fi_message sample_ids @ '':participant:'' @ ''p'') (td_turns ready_room)" by code_simp
  then have key: "\<forall>t \<in> set (td_turns ready_room). rt_key t \<noteq> ''message:'' @ fi_message sample_ids @ '':participant:'' @ pg_participant g"
    using g by (simp add: list_all_iff)
  show ?thesis using waking_delivers [OF sample_woken g new key] by (auto simp: sample_ids_def)
qed

theorem asked_peer_cannot_ask_witness:
  "\<exists>t \<in> set (td_turns asked_room). nu_request t = ''r-p2'' \<and> turn_hop (Some t) asked_room = Inr 2"
proof -
  obtain ans bo' where call: "ask_peer sample_fanin (\<lambda>e. e) 10 sample_draw [] ''g'' sample_question None sample_room = (Inr (ans, asked_room), bo')"
    using sample_asked by (metis prod.collapse)
  have "case parse_asks sample_question of Inl _ \<Rightarrow> False | Inr (room, _, _) \<Rightarrow> room = ''room''" by code_simp
  then obtain asks wanted where p: "parse_asks sample_question = Inr (''room'', asks, wanted)" by (auto split: sum.splits)
  have "case resolve_caller ''g'' ''room'' sample_room of Inr (Some c) \<Rightarrow> ac_turn c \<noteq> None | _ \<Rightarrow> False" by code_simp
  then obtain c t where c: "resolve_caller ''g'' ''room'' sample_room = Inr (Some c)" "ac_turn c = Some t"
    by (auto split: sum.splits option.splits)
  have fresh: "fresh_messages sample_draw sample_room"
    by (simp add: fresh_messages_def sample_draw_def inj_def sample_room_def sample_desk_def sample_message_def)
  have "distinct (map p_id (td_participants sample_room))" "td_groups sample_room = []" by code_simp+
  then have "\<forall>t \<in> set (td_turns asked_room). nu_request t \<in> nu_request ` (set (td_turns sample_room) \<union> set (td_turns sample_room))
      \<or> turn_hop (Some t) asked_room = Inr 2"
    using asked_peer_cannot_ask [OF call p c fresh fresh] by simp
  moreover have "asked_turn \<in> set (td_turns asked_room)" "nu_request asked_turn = ''r-p2''"
    by (simp_all add: asked_room_def asked_turn_def sample_run_turn_def)
  moreover have "''r-p2'' \<notin> nu_request ` (set (td_turns sample_room) \<union> set (td_turns sample_room))" by code_simp
  ultimately show ?thesis by (metis (no_types))
qed

end
