(* ===== verification/AgentPlacement.thy ===== *)
theory AgentPlacement
  imports TurnTables
begin

text \<open>
  Where agents run (scheduler/placement.py): the query that picks a machine, and the reservation that
  repeats it under the row lock of the machine, with the rows both of them and the lifecycle of an
  agent (scheduler/lifecycle.py) work on.

  The tables of the lifecycle are one record, \<open>fleet\<close>; \<open>fl_sent\<close> are the frames handed to the
  machine bus, in order. \<open>wait n\<close> is what other transactions have committed when the \<open>n\<close>-th wait of a
  transaction ends (a row lock, or the write of a row read before).
\<close>

section \<open>Rows\<close>

record fleet_agent =
  fa_id :: string
  fa_engine :: string
  fa_provider :: "string option"
  fa_base_url :: "string option"
  fa_placed :: "string option"
  fa_desired :: string
  fa_actual :: string
  fa_pid :: "int option"
  fa_started :: "instant option"
  fa_heartbeat :: "instant option"
  fa_crash :: "string option"
  fa_code :: "string option"
  fa_detail :: pyval
  fa_since :: "instant option"
  fa_generation :: int
  fa_token :: "string option"
  fa_expires :: "instant option"
  fa_delivery :: "string option"
  fa_legacy :: "int option"
  fa_pending :: "int option"
  fa_requested :: "instant option"
  fa_deadline :: "instant option"
  fa_hash :: "string option"
  fa_pending_hash :: "string option"

record fleet_machine =
  mc_id :: string
  mc_status :: string
  mc_max :: int
  mc_labels :: "(string \<times> pyval) list"
  mc_capabilities :: "string list"

record fleet_frame =
  ff_machine :: string
  ff_agent :: string
  ff_generation :: int
  ff_desired :: string

record fleet_event =
  fe_agent :: string
  fe_type :: string
  fe_details :: "(string \<times> pyval) list"

record fleet =
  fl_agents :: "fleet_agent list"
  fl_machines :: "fleet_machine list"
  fl_engines :: "(string \<times> string) list"
  fl_members :: "participant_row list"
  fl_rooms :: "run_room list"
  fl_turns :: "run_turn list"
  fl_attempts :: "run_attempt list"
  fl_results :: "result_row list"
  fl_events :: "fleet_event list"
  fl_sent :: "fleet_frame list"

abbreviation fleet_agent_of :: "string \<Rightarrow> fleet \<Rightarrow> fleet_agent option" where
  "fleet_agent_of aid d \<equiv> tget fa_id aid (fl_agents d)"

abbreviation get_machine :: "string \<Rightarrow> fleet \<Rightarrow> fleet_machine option" where
  "get_machine mid d \<equiv> tget mc_id mid (fl_machines d)"

section \<open>Selection\<close>

definition CAPACITY_STATES :: "string list" where
  "CAPACITY_STATES = [''pending'', ''starting'', ''running'', ''stopping'']"

text \<open>
  A placement request: \<open>connected_ids\<close> of the machine bus and the arguments of
  \<open>select_machine_for\<close>. An absent dict or set is the empty one, which the code treats the same way.
\<close>

record placement_query =
  pq_engine :: string
  pq_connected :: "string list"
  pq_labels :: "(string \<times> pyval) list"
  pq_capabilities :: "string list"
  pq_machine :: "string option"
  pq_exclude :: "string option"

definition occupies :: "placement_query \<Rightarrow> string \<Rightarrow> fleet_agent \<Rightarrow> bool" where
  "occupies q mid a \<longleftrightarrow> fa_placed a = Some mid \<and> fa_actual a \<in> set CAPACITY_STATES
     \<and> (pq_exclude q \<in> {None, Some []} \<or> pq_exclude q \<noteq> Some (fa_id a))"

definition agent_count :: "placement_query \<Rightarrow> string \<Rightarrow> fleet \<Rightarrow> int" where
  "agent_count q mid d = int (length (filter (occupies q mid) (fl_agents d)))"

text \<open>\<open>==\<close> on two label values: numbers by value, NaN unequal to itself, the rest structurally.\<close>

fun label_number :: "pyval \<Rightarrow> rat option" where
  "label_number (PBool b) = Some (if b then 1 else 0)"
| "label_number (PInt n) = Some (of_int n)"
| "label_number (PFloat (Fin x)) = Some x"
| "label_number _ = None"

definition label_eq :: "pyval \<Rightarrow> pyval \<Rightarrow> bool" where
  "label_eq a b \<longleftrightarrow> (if label_number a \<noteq> None then label_number a = label_number b else a = b \<and> a \<noteq> PFloat NaN)"

text \<open>
  The rows of the query: an online machine once for each of its rows of the engine, those with fewer
  occupied slots first. SQL leaves the order of equal counts open; here it is the order of the rows.
\<close>

definition candidate_rows :: "placement_query \<Rightarrow> fleet \<Rightarrow> fleet_machine list" where
  "candidate_rows q d =
     sort_by (\<lambda>x y. agent_count q (mc_id x) d \<le> agent_count q (mc_id y) d)
       (concat (map (\<lambda>m. map (\<lambda>_. m) (filter (\<lambda>(mid, e). mid = mc_id m \<and> e = pq_engine q) (fl_engines d)))
         (filter (\<lambda>m. mc_status m = ''online'' \<and> (pq_machine q \<noteq> None \<longrightarrow> pq_machine q = Some (mc_id m))) (fl_machines d))))"

definition suitable :: "placement_query \<Rightarrow> fleet \<Rightarrow> fleet_machine \<Rightarrow> bool" where
  "suitable q d m \<longleftrightarrow> mc_id m \<in> set (pq_connected q)
     \<and> set (pq_capabilities q) \<subseteq> set (mc_capabilities m)
     \<and> agent_count q (mc_id m) d < mc_max m
     \<and> list_all (\<lambda>(k, v). label_eq (dget (mc_labels m) k) v) (pq_labels q)"

text \<open>\<open>None\<close> is \<open>NoSuitableMachineError\<close>.\<close>

definition select_machine_for :: "placement_query \<Rightarrow> fleet \<Rightarrow> fleet_machine option" where
  "select_machine_for q d = find (suitable q d) (candidate_rows q d)"

lemma candidate_rowsD:
  assumes "m \<in> set (candidate_rows q d)"
  shows "m \<in> set (fl_machines d)" "mc_status m = ''online''" "(mc_id m, pq_engine q) \<in> set (fl_engines d)"
    "pq_machine q = Some mid \<Longrightarrow> mc_id m = mid"
  using assms by (auto simp: candidate_rows_def)

lemma candidate_rowsI:
  assumes "m \<in> set (fl_machines d)" "mc_status m = ''online''" "(mc_id m, pq_engine q) \<in> set (fl_engines d)"
    and "pq_machine q \<noteq> None \<Longrightarrow> pq_machine q = Some (mc_id m)"
  shows "m \<in> set (candidate_rows q d)"
  using assms by (fastforce simp: candidate_rows_def)

lemma select_machineD:
  assumes "select_machine_for q d = Some m"
  shows "m \<in> set (candidate_rows q d)" "suitable q d m"
  using assms by (auto simp: select_machine_for_def find_Some_iff)

section \<open>Least loaded first\<close>

lemma sorted_insert_by:
  fixes f :: "'a \<Rightarrow> int"
  assumes "sorted (map f xs)"
  shows "sorted (map f (insert_by (\<lambda>x y. f x \<le> f y) x xs))"
  using assms
proof (induction xs)
  case (Cons y ys)
  then show ?case by (auto simp: order_trans)
qed simp

lemma sorted_sort_by: "sorted (map f (sort_by (\<lambda>x y. f x \<le> (f y :: int)) xs))"
proof (induction xs)
  case (Cons x xs)
  then show ?case using sorted_insert_by [OF Cons] by (simp add: sort_by_def)
qed (simp add: sort_by_def)

lemma find_sorted_least:
  fixes f :: "'a \<Rightarrow> int"
  assumes "sorted (map f xs)" "find P xs = Some x" "y \<in> set xs" "P y"
  shows "f x \<le> f y"
  using assms by (induction xs) (auto split: if_splits)

lemma select_least_loaded:
  assumes "select_machine_for q d = Some m" and "m' \<in> set (candidate_rows q d)" and "suitable q d m'"
  shows "agent_count q (mc_id m) d \<le> agent_count q (mc_id m') d"
proof -
  let ?f = "\<lambda>m. agent_count q (mc_id m) d"
  have "sorted (map ?f (candidate_rows q d))" unfolding candidate_rows_def by (rule sorted_sort_by)
  then show ?thesis using assms find_sorted_least [of ?f "candidate_rows q d" "suitable q d" m m']
    by (simp add: select_machine_for_def)
qed

section \<open>Reservation\<close>

text \<open>
  The loop of \<open>reserve_machine_for\<close>: \<open>attempted\<close> grows in every round, so it ends when every machine
  was tried. \<open>Some (None, \<dots>)\<close> is \<open>NoSuitableMachineError\<close>, the outer \<open>None\<close> only a loop cut short by
  its fuel. The locked select looks at the one machine whose lock is held.
\<close>

fun reserve_from ::
  "nat \<Rightarrow> (nat \<Rightarrow> fleet \<Rightarrow> fleet) \<Rightarrow> placement_query \<Rightarrow> string list \<Rightarrow> nat \<Rightarrow> fleet \<Rightarrow> (fleet_machine option \<times> fleet \<times> nat) option" where
  "reserve_from 0 wait q attempted n d = None"
| "reserve_from (Suc fuel) wait q attempted n d =
     (case select_machine_for q d of
        None \<Rightarrow> Some (None, d, n)
      | Some m \<Rightarrow>
          if mc_id m \<in> set attempted then Some (None, d, n)
          else
            let d1 = wait n d in
            (case select_machine_for (q\<lparr>pq_machine := Some (mc_id m)\<rparr>) d1 of
               Some m1 \<Rightarrow> Some (Some m1, d1, Suc n)
             | None \<Rightarrow> if pq_machine q \<noteq> None then Some (None, d1, Suc n)
                       else reserve_from fuel wait q (mc_id m # attempted) (Suc n) d1))"

definition reserve_machine_for ::
  "nat \<Rightarrow> (nat \<Rightarrow> fleet \<Rightarrow> fleet) \<Rightarrow> placement_query \<Rightarrow> nat \<Rightarrow> fleet \<Rightarrow> (fleet_machine option \<times> fleet \<times> nat) option" where
  "reserve_machine_for fuel wait q n d = reserve_from fuel wait (q\<lparr>pq_labels := []\<rparr>) [] n d"

text \<open>What the holder of a reservation may rely on at the moment it was granted.\<close>

definition fits :: "placement_query \<Rightarrow> fleet \<Rightarrow> fleet_machine \<Rightarrow> bool" where
  "fits q d m \<longleftrightarrow> m \<in> set (fl_machines d) \<and> mc_status m = ''online'' \<and> mc_id m \<in> set (pq_connected q)
     \<and> (mc_id m, pq_engine q) \<in> set (fl_engines d) \<and> set (pq_capabilities q) \<subseteq> set (mc_capabilities m)
     \<and> (pq_machine q \<noteq> None \<longrightarrow> pq_machine q = Some (mc_id m)) \<and> agent_count q (mc_id m) d < mc_max m"

lemma agent_count_query [simp]:
  "agent_count (q\<lparr>pq_machine := x\<rparr>) = agent_count q" "agent_count (q\<lparr>pq_labels := ls\<rparr>) = agent_count q"
  by (simp_all add: fun_eq_iff agent_count_def occupies_def cong: filter_cong)

lemma reserve_from_fits:
  assumes "reserve_from fuel wait q attempted n d = Some (Some m, d', n')"
  shows "fits q d' m"
  using assms
proof (induction fuel wait q attempted n d rule: reserve_from.induct)
  case (2 fuel wait q attempted n d)
  obtain m0 where m0: "select_machine_for q d = Some m0" "mc_id m0 \<notin> set attempted"
    using 2(2) by (auto split: option.splits if_splits)
  let ?q = "q\<lparr>pq_machine := Some (mc_id m0)\<rparr>" and ?d = "wait n d"
  show ?case
  proof (cases "select_machine_for ?q ?d")
    case None
    then have "reserve_from fuel wait q (mc_id m0 # attempted) (Suc n) ?d = Some (Some m, d', n')"
      using 2(2) m0 by (simp add: Let_def split: if_splits)
    then show ?thesis using 2(1) [OF m0(1) m0(2) refl None] 2(2) m0 None by (auto simp: Let_def split: if_splits)
  next
    case (Some m1)
    then have e: "m = m1" "d' = ?d" using 2(2) m0 by (auto simp: Let_def)
    note c = select_machineD [OF Some]
    have "pq_machine q \<noteq> None \<longrightarrow> pq_machine q = Some (mc_id m0)"
      using candidate_rowsD(4) [OF select_machineD(1) [OF m0(1)]] by auto
    then show ?thesis using candidate_rowsD [OF c(1)] c(2) e by (auto simp: fits_def suitable_def)
  qed
qed simp

lemma reserve_fits: "reserve_machine_for fuel wait q n d = Some (Some m, d', n') \<Longrightarrow> fits q d' m"
  using reserve_from_fits [of fuel wait "q\<lparr>pq_labels := []\<rparr>" "[]" n d m d' n']
  by (simp add: reserve_machine_for_def fits_def)

text \<open>More fuel than machines is never used up.\<close>

lemma reserve_from_total:
  assumes "finite M" and "\<And>n d. mc_id ` set (fl_machines d) \<subseteq> M \<Longrightarrow> mc_id ` set (fl_machines (wait n d)) \<subseteq> M"
    and "mc_id ` set (fl_machines d) \<subseteq> M" and "card (M - set attempted) < fuel"
  shows "reserve_from fuel wait q attempted n d \<noteq> None"
  using assms(3,4)
proof (induction fuel arbitrary: attempted n d)
  case (Suc fuel)
  show ?case
  proof (cases "select_machine_for q d")
    case (Some m)
    show ?thesis
    proof (cases "mc_id m \<in> set attempted")
      case new: False
      have "m \<in> set (fl_machines d)" using candidate_rowsD(1) [OF select_machineD(1) [OF Some]] .
      then have "mc_id m \<in> M - set attempted" using Suc.prems(1) new by auto
      then have "card (M - set (mc_id m # attempted)) < card (M - set attempted)"
        using \<open>finite M\<close> by (intro psubset_card_mono) auto
      then have "reserve_from fuel wait q (mc_id m # attempted) (Suc n) (wait n d) \<noteq> None"
        using Suc.prems assms(2) [OF Suc.prems(1)] by (intro Suc.IH) auto
      then show ?thesis using Some new by (simp add: Let_def split: option.split)
    qed (simp add: Some)
  qed simp
qed simp

end
