(* ===== verification/AgentLifecycle.thy ===== *)
theory AgentLifecycle
  imports AgentPlacement PeerCalls
begin

text \<open>
  The lifecycle of an agent's process as the server sees it (scheduler/lifecycle.py): claiming a
  start, dispatching it, stopping, reports of machines, restarts after a change of configuration and
  the sweep of silent agents.

  An ORM object is the row as it was read; \<open>flush\<close> writes the columns that the operation changed over
  whatever the row is by then, and the rest of the row stays as others left it. Row deletion is
  outside. The content of a manifest is the parameter \<open>le_manifest\<close> (its hash), and so are the two
  checks of credentials. Rows of the activity log carry the details the code writes, without texts
  of times; agent tokens are left out.
\<close>

section \<open>Writing back an ORM object\<close>

definition keep_col :: "'a \<Rightarrow> 'a \<Rightarrow> 'a \<Rightarrow> 'a" where
  "keep_col was now_is cur = (if now_is = was then cur else now_is)"

definition merge_row :: "fleet_agent \<Rightarrow> fleet_agent \<Rightarrow> fleet_agent \<Rightarrow> fleet_agent" where
  "merge_row a b c = c\<lparr>
     fa_placed := keep_col (fa_placed a) (fa_placed b) (fa_placed c),
     fa_desired := keep_col (fa_desired a) (fa_desired b) (fa_desired c),
     fa_actual := keep_col (fa_actual a) (fa_actual b) (fa_actual c),
     fa_pid := keep_col (fa_pid a) (fa_pid b) (fa_pid c),
     fa_started := keep_col (fa_started a) (fa_started b) (fa_started c),
     fa_heartbeat := keep_col (fa_heartbeat a) (fa_heartbeat b) (fa_heartbeat c),
     fa_crash := keep_col (fa_crash a) (fa_crash b) (fa_crash c),
     fa_code := keep_col (fa_code a) (fa_code b) (fa_code c),
     fa_detail := keep_col (fa_detail a) (fa_detail b) (fa_detail c),
     fa_since := keep_col (fa_since a) (fa_since b) (fa_since c),
     fa_generation := keep_col (fa_generation a) (fa_generation b) (fa_generation c),
     fa_token := keep_col (fa_token a) (fa_token b) (fa_token c),
     fa_expires := keep_col (fa_expires a) (fa_expires b) (fa_expires c),
     fa_delivery := keep_col (fa_delivery a) (fa_delivery b) (fa_delivery c),
     fa_legacy := keep_col (fa_legacy a) (fa_legacy b) (fa_legacy c),
     fa_pending := keep_col (fa_pending a) (fa_pending b) (fa_pending c),
     fa_requested := keep_col (fa_requested a) (fa_requested b) (fa_requested c),
     fa_deadline := keep_col (fa_deadline a) (fa_deadline b) (fa_deadline c),
     fa_hash := keep_col (fa_hash a) (fa_hash b) (fa_hash c),
     fa_pending_hash := keep_col (fa_pending_hash a) (fa_pending_hash b) (fa_pending_hash c)\<rparr>"

definition upd_agent :: "string \<Rightarrow> (fleet_agent \<Rightarrow> fleet_agent) \<Rightarrow> fleet \<Rightarrow> fleet" where
  "upd_agent aid f d = d\<lparr>fl_agents := tupd fa_id aid f (fl_agents d)\<rparr>"

definition flush :: "fleet_agent \<Rightarrow> fleet_agent \<Rightarrow> fleet \<Rightarrow> fleet" where
  "flush a b d = upd_agent (fa_id a) (merge_row a b) d"

definition log_event :: "string \<Rightarrow> string \<Rightarrow> (string \<times> pyval) list \<Rightarrow> fleet \<Rightarrow> fleet" where
  "log_event aid ty details d = d\<lparr>fl_events := fl_events d @ [\<lparr>fe_agent = aid, fe_type = ty, fe_details = details\<rparr>]\<rparr>"

definition send_frame :: "string \<Rightarrow> string \<Rightarrow> int \<Rightarrow> string \<Rightarrow> fleet \<Rightarrow> fleet" where
  "send_frame mid aid gen desired d =
     d\<lparr>fl_sent := fl_sent d @ [\<lparr>ff_machine = mid, ff_agent = aid, ff_generation = gen, ff_desired = desired\<rparr>]\<rparr>"

section \<open>Availability and checks\<close>

definition GENERATION_REPORT_CAPABILITY :: string where
  "GENERATION_REPORT_CAPABILITY = ''agent_generation_reports_v1''"

definition PI_AUTH_CAPABILITY :: string where
  "PI_AUTH_CAPABILITY = ''pi_native_auth_v1''"

definition DIRECT_CAPABILITY :: string where
  "DIRECT_CAPABILITY = ''direct_endpoint_v1''"

definition RETRYABLE_DELIVERY_STATES :: "string list" where
  "RETRYABLE_DELIVERY_STATES = [''dispatching'', ''pending_ack'', ''unknown'']"

definition mark_unavailable :: "instant \<Rightarrow> string \<Rightarrow> pyval \<Rightarrow> fleet_agent \<Rightarrow> fleet_agent" where
  "mark_unavailable now code detail a =
     a\<lparr>fa_since := (if fa_code a \<noteq> Some code then Some now else fa_since a), fa_code := Some code, fa_detail := detail\<rparr>"

definition clear_unavailable :: "fleet_agent \<Rightarrow> fleet_agent" where
  "clear_unavailable a = a\<lparr>fa_code := None, fa_detail := PNone, fa_since := None\<rparr>"

definition release_lease :: "string \<Rightarrow> fleet_agent \<Rightarrow> fleet_agent" where
  "release_lease delivery a = a\<lparr>fa_token := None, fa_expires := None, fa_delivery := Some delivery\<rparr>"

definition REMOVED_ENGINES :: "string list" where
  "REMOVED_ENGINES = [''claude-code'', ''claude_code'', ''gemini-cli'', ''gemini_cli'', ''openhands'']"

definition ENGINE_REMOVED_MESSAGE :: string where
  "ENGINE_REMOVED_MESSAGE =
     ''This engine has been removed. Create a codex-cli or pi-cli agent and transfer the settings you want to keep; ''
     @ ''existing configuration and history are preserved.''"

definition PI_PROVIDER_REQUIRED :: string where
  "PI_PROVIDER_REQUIRED =
     ''Pi requires a valid explicit provider; configure Provider in agent settings before starting.''"

definition PI_CREDENTIAL_MISSING :: string where
  "PI_CREDENTIAL_MISSING =
     ''Pi provider credential is missing or unavailable; add an API key in agent settings''"

definition PI_MACHINE_UNSUPPORTED :: string where
  "PI_MACHINE_UNSUPPORTED =
     ''Placed machine cannot enforce Pi native authentication; update it before restarting''"

definition removed_engine :: "fleet_agent \<Rightarrow> bool" where
  "removed_engine a \<longleftrightarrow> fa_engine a \<in> set REMOVED_ENGINES"

definition provider_char :: "char \<Rightarrow> bool" where
  "provider_char c \<longleftrightarrow> (let n = of_char c :: nat in (48 \<le> n \<and> n \<le> 57) \<or> (65 \<le> n \<and> n \<le> 90) \<or> (97 \<le> n \<and> n \<le> 122))"

definition provider_ok :: "string option \<Rightarrow> bool" where
  "provider_ok p \<longleftrightarrow>
     (case p of
        Some (c # cs) \<Rightarrow> provider_char c \<and> length cs \<le> 63
          \<and> list_all (\<lambda>c. provider_char c \<or> c \<in> {CHR ''.'', CHR ''_'', CHR ''-''}) cs
      | _ \<Rightarrow> False)"

definition PI_ENGINE :: string where
  "PI_ENGINE = ''pi-cli''"

definition pi_provider_error :: "fleet_agent \<Rightarrow> bool" where
  "pi_provider_error a \<longleftrightarrow> fa_engine a = PI_ENGINE \<and> \<not> provider_ok (fa_provider a)"

definition direct_endpoint :: "fleet_agent \<Rightarrow> bool" where
  "direct_endpoint a \<longleftrightarrow> fa_base_url a \<notin> {None, Some []}"

definition pi_native :: "fleet_agent \<Rightarrow> bool" where
  "pi_native a \<longleftrightarrow> fa_engine a = PI_ENGINE \<and> \<not> direct_endpoint a"

definition has_capability :: "string \<Rightarrow> fleet_machine option \<Rightarrow> bool" where
  "has_capability c mo \<longleftrightarrow> (case mo of None \<Rightarrow> False | Some m \<Rightarrow> c \<in> set (mc_capabilities m))"

text \<open>
  The connected machines, the two environment variables, whether the secrets of a direct endpoint
  and of a native provider can be built, and the hash of a manifest.
\<close>

record lifecycle_env =
  le_connected :: "string list"
  le_lease :: "string option"
  le_drain :: "string option"
  le_direct :: "fleet_agent \<Rightarrow> fleet \<Rightarrow> bool"
  le_native :: "fleet_agent \<Rightarrow> fleet \<Rightarrow> bool"
  le_manifest :: "fleet_agent \<Rightarrow> string \<Rightarrow> string list \<Rightarrow> fleet \<Rightarrow> string"

definition seconds_of :: "string option \<Rightarrow> int \<Rightarrow> int" where
  "seconds_of raw dflt =
     (case raw of None \<Rightarrow> max 1 dflt | Some s \<Rightarrow> (case int_of_str s of Inr n \<Rightarrow> max 1 n | Inl _ \<Rightarrow> dflt))"

definition lease_expiry :: "lifecycle_env \<Rightarrow> instant \<Rightarrow> instant" where
  "lease_expiry env now = now + seconds_of (le_lease env) 120 * 1000000"

definition rooms_of :: "string \<Rightarrow> fleet \<Rightarrow> string list" where
  "rooms_of aid d = map p_room (filter (\<lambda>p. p_agent p = Some aid) (fl_members d))"

section \<open>Frames\<close>

text \<open>
  The desired state a manifest asks for, with what building it does to the agent. Every refusal
  publishes a stop instead.
\<close>

definition secrets_ok :: "lifecycle_env \<Rightarrow> fleet_agent \<Rightarrow> fleet \<Rightarrow> bool" where
  "secrets_ok env a d \<longleftrightarrow> le_direct env a d \<and> le_native env a d
     \<and> (direct_endpoint a \<longrightarrow> has_capability DIRECT_CAPABILITY (Option.bind (fa_placed a) (\<lambda>mid. get_machine mid d)))"

definition build_sync_frame :: "lifecycle_env \<Rightarrow> instant \<Rightarrow> fleet_agent \<Rightarrow> fleet \<Rightarrow> string \<times> fleet_agent" where
  "build_sync_frame env now a d =
     (if removed_engine a then
        (''stopped'', mark_unavailable now ''engine_removed'' (PDict [(''engine'', PStr (fa_engine a))]) (a\<lparr>fa_crash := Some ENGINE_REMOVED_MESSAGE\<rparr>))
      else if pi_provider_error a \<and> fa_desired a = ''running'' then
        (''stopped'', mark_unavailable now ''invalid_provider'' PNone (a\<lparr>fa_crash := Some PI_PROVIDER_REQUIRED\<rparr>))
      else if \<not> secrets_ok env a d then
        (''stopped'', if pi_native a then mark_unavailable now ''invalid_pi_auth'' PNone (a\<lparr>fa_crash := Some PI_CREDENTIAL_MISSING\<rparr>)
                      else mark_unavailable now ''invalid_endpoint'' PNone (a\<lparr>fa_crash := Some (''Direct endpoint configuration, credential or machine capability '' @ ''unavailable; update agent settings'')\<rparr>))
      else if pi_native a \<and> \<not> has_capability PI_AUTH_CAPABILITY (Option.bind (fa_placed a) (\<lambda>mid. get_machine mid d)) then
        (''stopped'', mark_unavailable now ''invalid_pi_auth'' PNone (a\<lparr>fa_crash := Some PI_MACHINE_UNSUPPORTED\<rparr>))
      else (fa_desired a, a))"

section \<open>Claiming a start\<close>

text \<open>The refusals before any lease is looked at: what they write, or \<open>None\<close>.\<close>

definition start_refusal :: "lifecycle_env \<Rightarrow> instant \<Rightarrow> fleet_agent \<Rightarrow> fleet \<Rightarrow> fleet_agent option" where
  "start_refusal env now a d =
     (if removed_engine a then
        Some (mark_unavailable now ''engine_removed'' (PDict [(''engine'', PStr (fa_engine a))]) (a\<lparr>fa_crash := Some ENGINE_REMOVED_MESSAGE\<rparr>))
      else if pi_provider_error a then
        Some (mark_unavailable now ''invalid_provider'' PNone (a\<lparr>fa_crash := Some PI_PROVIDER_REQUIRED\<rparr>))
      else if \<not> le_direct env a d then
        Some (mark_unavailable now ''invalid_endpoint'' PNone
          (a\<lparr>fa_crash := Some ''Direct endpoint configuration or credential unavailable; update agent settings''\<rparr>))
      else if \<not> le_native env a d then
        Some (mark_unavailable now ''invalid_pi_auth'' PNone (a\<lparr>fa_crash := Some PI_CREDENTIAL_MISSING\<rparr>))
      else None)"

definition lease_active :: "instant \<Rightarrow> fleet_agent \<Rightarrow> bool" where
  "lease_active now a \<longleftrightarrow> fa_token a \<notin> {None, Some []} \<and> (case fa_expires a of None \<Rightarrow> False | Some e \<Rightarrow> now < e)"

definition no_rooms :: "instant \<Rightarrow> fleet_agent \<Rightarrow> fleet_agent" where
  "no_rooms now a =
     mark_unavailable now ''no_room'' PNone
       ((release_lease ''released'' a)\<lparr>fa_actual := ''pending'', fa_desired := ''running'', fa_pid := None,
          fa_crash := Some (''no rooms assigned '' @ [CHR 0x97] @ '' add the agent to at least one room before starting'')\<rparr>)"

definition machine_busy :: "instant \<Rightarrow> fleet_agent \<Rightarrow> fleet_agent" where
  "machine_busy now a =
     mark_unavailable now ''machine_busy'' (PDict [(''machine_id'', PStr (the (fa_placed a)))])
       (a\<lparr>fa_actual := ''pending'', fa_crash := Some (''the agent'' @ [CHR 0x27] @ ''s machine has no capacity left'')\<rparr>)"

definition no_machine :: "instant \<Rightarrow> fleet_agent \<Rightarrow> fleet_agent" where
  "no_machine now a =
     mark_unavailable now ''no_machine_for_engine'' (PDict [(''engine'', PStr (fa_engine a))])
       ((release_lease ''released'' a)\<lparr>fa_actual := ''pending'', fa_placed := None,
          fa_crash := Some (''no online machine supports engine '' @ [CHR 0x27] @ fa_engine a @ [CHR 0x27])\<rparr>)"

text \<open>A committed claim, as the dispatch that follows carries it.\<close>

record start_claim =
  sc_agent :: string
  sc_machine :: string
  sc_generation :: int
  sc_token :: string
  sc_retry :: bool
  sc_rooms :: "string list"

definition retry_same_generation :: "fleet_agent \<Rightarrow> bool" where
  "retry_same_generation a \<longleftrightarrow> fa_placed a \<noteq> None \<and> fa_desired a = ''running''
     \<and> fa_actual a \<in> {''starting'', ''pending''}
     \<and> (case fa_delivery a of None \<Rightarrow> True | Some s \<Rightarrow> s \<in> set RETRYABLE_DELIVERY_STATES)"

definition claim_values :: "lifecycle_env \<Rightarrow> instant \<Rightarrow> string \<Rightarrow> fleet_agent \<Rightarrow> fleet_machine \<Rightarrow> fleet_agent \<Rightarrow> fleet_agent" where
  "claim_values env now tok a m r =
     (let r1 = r\<lparr>fa_token := Some tok, fa_expires := Some (lease_expiry env now), fa_delivery := Some ''dispatching''\<rparr>
      in if retry_same_generation a then r1
         else r1\<lparr>fa_placed := Some (mc_id m), fa_desired := ''running'', fa_actual := ''pending'',
            fa_generation := fa_generation a + 1, fa_started := Some now, fa_pending := None, fa_requested := None,
            fa_deadline := None, fa_pending_hash := None,
            fa_legacy := (if GENERATION_REPORT_CAPABILITY \<notin> set (mc_capabilities m) \<and> fa_legacy a = None
                          then Some (fa_generation a + 1) else fa_legacy r)\<rparr>)"

definition claim_matches :: "instant \<Rightarrow> fleet_agent \<Rightarrow> fleet_agent \<Rightarrow> bool" where
  "claim_matches now a r \<longleftrightarrow> fa_generation r = fa_generation a \<and> fa_placed r = fa_placed a
     \<and> (fa_token r = None \<or> (case fa_expires r of None \<Rightarrow> True | Some e \<Rightarrow> e \<le> now))"

text \<open>
  The transaction after the choice of a machine: \<open>a\<close> is the row read at its start. Without a machine
  the row is refreshed, and a placement another worker committed meanwhile is left alone.
\<close>

definition claim_machine ::
  "lifecycle_env \<Rightarrow> (nat \<Rightarrow> fleet \<Rightarrow> fleet) \<Rightarrow> instant \<Rightarrow> string \<Rightarrow> fleet_agent \<Rightarrow> string list \<Rightarrow> fleet_machine option \<Rightarrow> nat
     \<Rightarrow> fleet \<Rightarrow> start_claim option \<times> fleet" where
  "claim_machine env wait now tok a rooms mo n d =
     (case mo of
        None \<Rightarrow>
          (case fleet_agent_of (fa_id a) d of
             None \<Rightarrow> (None, d)
           | Some r \<Rightarrow>
               if fa_placed r \<noteq> None \<and> fa_actual r \<in> set CAPACITY_STATES then (None, d)
               else if fa_placed r \<noteq> None then (None, flush r (machine_busy now r) (wait n d))
               else (None, log_event (fa_id a) ''agent_unavailable''
                       [(''code'', PStr ''no_machine_for_engine''), (''engine'', PStr (fa_engine r))]
                       (flush r (no_machine now r) (wait n d))))
      | Some m \<Rightarrow>
          if direct_endpoint a \<and> DIRECT_CAPABILITY \<notin> set (mc_capabilities m) then
            (None, flush a (mark_unavailable now ''invalid_endpoint'' PNone
               (a\<lparr>fa_crash := Some ''Placed machine does not support direct_endpoint_v1; update it before restarting''\<rparr>)) (wait n d))
          else if pi_native a \<and> PI_AUTH_CAPABILITY \<notin> set (mc_capabilities m) then
            (None, flush a (mark_unavailable now ''invalid_pi_auth'' PNone (a\<lparr>fa_crash := Some PI_MACHINE_UNSUPPORTED\<rparr>)) (wait n d))
          else
            let d1 = wait n d in
            (case fleet_agent_of (fa_id a) d1 of
               None \<Rightarrow> (None, d1)
             | Some r \<Rightarrow>
                 if \<not> claim_matches now a r then (None, d1)
                 else (Some \<lparr>sc_agent = fa_id a, sc_machine = mc_id m,
                          sc_generation = (if retry_same_generation a then fa_generation a else fa_generation a + 1),
                          sc_token = tok, sc_retry = retry_same_generation a, sc_rooms = rooms\<rparr>,
                       upd_agent (fa_id a) (claim_values env now tok a m) d1)))"

definition start_capabilities :: "fleet_agent \<Rightarrow> string list" where
  "start_capabilities a =
     (if direct_endpoint a then [DIRECT_CAPABILITY] else if fa_engine a = PI_ENGINE then [PI_AUTH_CAPABILITY] else [])"

definition start_query :: "lifecycle_env \<Rightarrow> fleet_agent \<Rightarrow> placement_query" where
  "start_query env a =
     \<lparr>pq_engine = fa_engine a, pq_connected = le_connected env, pq_labels = [],
      pq_capabilities = (if fa_placed a = None then start_capabilities a else []),
      pq_machine = fa_placed a, pq_exclude = Some (fa_id a)\<rparr>"

text \<open>\<open>request_start\<close> up to the commit of its claim; \<open>None\<close> is a reservation cut short by its fuel.\<close>

definition request_start ::
  "nat \<Rightarrow> lifecycle_env \<Rightarrow> (nat \<Rightarrow> fleet \<Rightarrow> fleet) \<Rightarrow> instant \<Rightarrow> string \<Rightarrow> string \<Rightarrow> fleet \<Rightarrow> (start_claim option \<times> fleet) option" where
  "request_start fuel env wait now tok aid d =
     (case fleet_agent_of aid d of
        None \<Rightarrow> Some (None, d)
      | Some a \<Rightarrow>
          (case start_refusal env now a d of
             Some b \<Rightarrow> Some (None, flush a b (wait 0 d))
           | None \<Rightarrow>
               if lease_active now a then Some (None, d)
               else if fa_desired a = ''running'' \<and> fa_actual a = ''running'' \<and> fa_placed a \<noteq> None then Some (None, d)
               else if rooms_of aid d = [] then Some (None, flush a (no_rooms now a) (wait 0 d))
               else if fa_placed a = None \<and> fa_code a = Some ''machine_removed'' then Some (None, d)
               else
                 let go = (\<lambda>(mo, d1, n). claim_machine env wait now tok a (rooms_of aid d) mo n d1);
                     reserve = map_option go (reserve_machine_for fuel wait (start_query env a) 0 d) in
                 (case fa_placed a of
                    None \<Rightarrow> reserve
                  | Some mid \<Rightarrow>
                      (case get_machine mid d of
                         None \<Rightarrow> Some (None, d)
                       | Some m \<Rightarrow>
                           if mid \<notin> set (le_connected env) then Some (None, d)
                           else if fa_actual a \<notin> set CAPACITY_STATES then reserve
                           else Some (go (Some m, d, 0))))))"

section \<open>Dispatching a claim\<close>

text \<open>The second transaction of \<open>request_start\<close>: the manifest of the refreshed row and its log entry.\<close>

definition start_manifest ::
  "lifecycle_env \<Rightarrow> (nat \<Rightarrow> fleet \<Rightarrow> fleet) \<Rightarrow> instant \<Rightarrow> start_claim \<Rightarrow> fleet \<Rightarrow> (int \<times> string) option \<times> fleet" where
  "start_manifest env wait now c d =
     (case fleet_agent_of (sc_agent c) d of
        None \<Rightarrow> (None, d)
      | Some a \<Rightarrow>
          let a1 = (if sc_retry c then a else clear_unavailable a);
              (desired, a2) = build_sync_frame env now a1 d;
              a3 = a2\<lparr>fa_hash := Some (le_manifest env a2 desired (sc_rooms c) d)\<rparr>
          in (Some (fa_generation a, desired),
              log_event (sc_agent c) (if sc_retry c then ''start_reconciled'' else ''start_requested'')
                [(''machine_id'', PStr (sc_machine c)), (''generation'', PInt (sc_generation c)), (''delivery_state'', PStr ''dispatching'')]
                (flush a a3 (wait 0 d))))"

definition owns_dispatch :: "start_claim \<Rightarrow> fleet_agent \<Rightarrow> bool" where
  "owns_dispatch c r \<longleftrightarrow> fa_generation r = sc_generation c \<and> fa_placed r = Some (sc_machine c)
     \<and> fa_desired r = ''running'' \<and> fa_token r = Some (sc_token c) \<and> fa_delivery r = Some ''dispatching''"

definition dispatch_claim_is_current :: "start_claim \<Rightarrow> fleet \<Rightarrow> bool" where
  "dispatch_claim_is_current c d \<longleftrightarrow> (case fleet_agent_of (sc_agent c) d of None \<Rightarrow> False | Some r \<Rightarrow> owns_dispatch c r)"

text \<open>The check and the send are two steps of the event loop; \<open>wait 0\<close> lies between them.\<close>

definition dispatch_start :: "(nat \<Rightarrow> fleet \<Rightarrow> fleet) \<Rightarrow> start_claim \<Rightarrow> int \<times> string \<Rightarrow> fleet \<Rightarrow> fleet" where
  "dispatch_start wait c fr d =
     (if dispatch_claim_is_current c d then send_frame (sc_machine c) (sc_agent c) (fst fr) (snd fr) (wait 0 d) else d)"

definition record_dispatch_result :: "instant \<Rightarrow> start_claim \<Rightarrow> bool \<Rightarrow> fleet \<Rightarrow> bool \<times> fleet" where
  "record_dispatch_result now c sent d =
     (if \<not> dispatch_claim_is_current c d then (False, d)
      else
        let d1 = upd_agent (sc_agent c) (\<lambda>r. r\<lparr>fa_delivery := Some (if sent then ''pending_ack'' else ''unknown'')\<rparr>) d in
        if sent then (True, d1)
        else (True, log_event (sc_agent c) ''lifecycle_dispatch_unknown''
               [(''machine_id'', PStr (sc_machine c)), (''generation'', PInt (sc_generation c)), (''recovery'', PStr ''same_placement_reconcile'')]
               (upd_agent (sc_agent c)
                 (\<lambda>r. mark_unavailable now ''spawn_failed''
                    (PDict [(''machine_id'', PStr (sc_machine c)), (''reason'', PStr ''delivery_unknown'')])
                    (r\<lparr>fa_crash := Some (''dispatch_unknown to '' @ sc_machine c @ '': awaiting machine reconciliation'')\<rparr>)) d1)))"

section \<open>Stopping\<close>

text \<open>The single UPDATE of \<open>request_stop\<close>, and the stop frame that follows its commit.\<close>

definition stop_values :: "fleet_agent \<Rightarrow> fleet_agent" where
  "stop_values r =
     (clear_unavailable (release_lease ''stopped'' r))\<lparr>
        fa_desired := ''stopped'',
        fa_actual := (if fa_placed r = None then ''stopped''
                      else if fa_actual r \<in> {''running'', ''starting'', ''pending''} then ''stopping'' else fa_actual r),
        fa_pid := (if fa_placed r = None then None else fa_pid r),
        fa_generation := fa_generation r + 1, fa_pending := None, fa_requested := None, fa_deadline := None,
        fa_pending_hash := None\<rparr>"

definition request_stop :: "string \<Rightarrow> fleet \<Rightarrow> (string option \<times> int) option \<times> fleet" where
  "request_stop aid d =
     (case fleet_agent_of aid d of
        None \<Rightarrow> (None, d)
      | Some r \<Rightarrow>
          (Some (fa_placed r, fa_generation r + 1),
           log_event aid ''stop_requested'' [(''generation'', PInt (fa_generation r + 1))] (upd_agent aid stop_values d)))"

definition send_stop :: "string \<Rightarrow> (string option \<times> int) option \<Rightarrow> fleet \<Rightarrow> fleet" where
  "send_stop aid s d =
     (case s of Some (Some mid, gen) \<Rightarrow> send_frame mid aid gen ''stopped'' d | _ \<Rightarrow> d)"

section \<open>Reports\<close>

text \<open>
  One entry of \<open>report_actual_state\<close>, typed as the machine's frame has it (\<open>AgentActual\<close>); the
  server looks at each key with \<open>get\<close>, so an absent key is \<open>None\<close>.
\<close>

record state_report =
  sr_agent :: string
  sr_state :: "string option"
  sr_generation :: "int option"
  sr_pid :: "int option option"
  sr_crash :: "string option option"
  sr_engine :: "string option"
  sr_uptime :: "int option"

definition generation_required :: "string \<Rightarrow> fleet \<Rightarrow> bool" where
  "generation_required mid d \<longleftrightarrow> has_capability GENERATION_REPORT_CAPABILITY (get_machine mid d)"

text \<open>Which report is about the process the row stands for: the row it is applied to, or \<open>None\<close>.\<close>

definition report_accepted :: "bool \<Rightarrow> string \<Rightarrow> state_report \<Rightarrow> fleet_agent \<Rightarrow> fleet_agent option" where
  "report_accepted required mid e a =
     (if fa_placed a \<noteq> Some mid then None
      else case sr_generation e of
        Some g \<Rightarrow> if g \<noteq> fa_generation a then None else Some a
      | None \<Rightarrow>
          if required then None
          else (case fa_legacy a of
                  None \<Rightarrow> Some (a\<lparr>fa_legacy := Some (fa_generation a)\<rparr>)
                | Some l \<Rightarrow> if l \<noteq> fa_generation a then None else Some a))"

definition reported_availability :: "instant \<Rightarrow> state_report \<Rightarrow> string option \<Rightarrow> fleet_agent \<Rightarrow> fleet_agent" where
  "reported_availability now e st a =
     (if st = Some ''running'' then
        (let eng = strip (case sr_engine e of None \<Rightarrow> [] | Some s \<Rightarrow> s)
         in if eng \<noteq> [] \<and> eng \<noteq> fa_engine a
            then mark_unavailable now ''engine_mismatch'' (PDict [(''db_engine'', PStr (fa_engine a)), (''running_engine'', PStr eng)]) a
            else clear_unavailable a)
      else if st = Some ''crashed'' then
        mark_unavailable now (if (case sr_uptime e of None \<Rightarrow> 0 | Some u \<Rightarrow> u) \<le> 0 then ''spawn_failed'' else ''crashed'')
          (PDict [(''engine'', PStr (fa_engine a)),
                  (''stderr_tail'', case sr_crash e of Some (Some s) \<Rightarrow> PStr s | _ \<Rightarrow> PNone)]) a
      else if st = Some ''stopped'' then clear_unavailable (release_lease ''stopped'' a)
      else a)"

definition acknowledge :: "fleet_agent \<Rightarrow> fleet_agent" where
  "acknowledge a = (if fa_desired a = ''running'' then release_lease ''acknowledged'' a else a)"

text \<open>
  What an accepted entry makes of the row, and the state it counts as. A report of a live process of
  an agent that is being stopped only acknowledges.
\<close>

definition reported_state :: "state_report \<Rightarrow> fleet_agent \<Rightarrow> string option" where
  "reported_state e a =
     (let st = (if sr_state e = Some [] then None else sr_state e)
      in if fa_desired a = ''stopped'' \<and> st = Some ''crashed'' then Some ''stopped'' else st)"

definition ignored_while_stopping :: "state_report \<Rightarrow> fleet_agent \<Rightarrow> bool" where
  "ignored_while_stopping e a \<longleftrightarrow> fa_desired a = ''stopped'' \<and> sr_state e \<in> {Some ''running'', Some ''starting''}"

definition apply_report :: "instant \<Rightarrow> state_report \<Rightarrow> fleet_agent \<Rightarrow> fleet_agent" where
  "apply_report now e a =
     (let b = acknowledge a; st = reported_state e b
      in if ignored_while_stopping e b then b
         else reported_availability now e st
           (b\<lparr>fa_actual := (case st of None \<Rightarrow> fa_actual b | Some s \<Rightarrow> s),
              fa_pid := (case sr_pid e of None \<Rightarrow> fa_pid b | Some p \<Rightarrow> p),
              fa_crash := (case sr_crash e of None \<Rightarrow> fa_crash b | Some c \<Rightarrow> c),
              fa_heartbeat := (if st = Some ''running'' then Some now else fa_heartbeat b)\<rparr>))"

definition state_changed :: "string \<Rightarrow> string \<Rightarrow> state_report \<Rightarrow> fleet_agent \<Rightarrow> fleet \<Rightarrow> fleet" where
  "state_changed aid mid e a d =
     (case reported_state e a of
        None \<Rightarrow> d
      | Some st \<Rightarrow>
          if ignored_while_stopping e a \<or> st = fa_actual a then d
          else log_event aid ''state_changed''
            [(''from'', PStr (fa_actual a)), (''to'', PStr st),
             (''pid'', case sr_pid e of Some (Some p) \<Rightarrow> PInt p | _ \<Rightarrow> PNone), (''machine_id'', PStr mid)] d)"

definition report_entry :: "(nat \<Rightarrow> fleet \<Rightarrow> fleet) \<Rightarrow> instant \<Rightarrow> bool \<Rightarrow> string \<Rightarrow> nat \<Rightarrow> state_report \<Rightarrow> fleet \<Rightarrow> fleet" where
  "report_entry wait now required mid n e d =
     (case (if sr_agent e = [] then None else fleet_agent_of (sr_agent e) d) of
        None \<Rightarrow> d
      | Some a \<Rightarrow>
          (case report_accepted required mid e a of
             None \<Rightarrow> d
           | Some b \<Rightarrow> state_changed (fa_id a) mid e b (flush a (apply_report now e b) (wait n d))))"

definition absent_stopped :: "fleet_agent \<Rightarrow> fleet_agent" where
  "absent_stopped a = clear_unavailable ((release_lease ''stopped'' a)\<lparr>fa_actual := ''stopped'', fa_pid := None\<rparr>)"

text \<open>Agents of the machine that its report leaves out are stopped, when they were asked to.\<close>

definition report_absent :: "(nat \<Rightarrow> fleet \<Rightarrow> fleet) \<Rightarrow> string \<Rightarrow> nat \<Rightarrow> fleet_agent \<Rightarrow> fleet \<Rightarrow> fleet" where
  "report_absent wait mid n a d =
     (if fa_desired a = ''stopped'' \<and> fa_actual a \<noteq> ''stopped''
      then log_event (fa_id a) ''state_changed''
        [(''from'', PStr (fa_actual a)), (''to'', PStr ''stopped''), (''machine_id'', PStr mid), (''reason'', PStr ''absent_from_report'')]
        (flush a (absent_stopped a) (wait n d))
      else d)"

fun each :: "(nat \<Rightarrow> 'a \<Rightarrow> fleet \<Rightarrow> fleet) \<Rightarrow> nat \<Rightarrow> 'a list \<Rightarrow> fleet \<Rightarrow> fleet" where
  "each f n [] d = d"
| "each f n (x # xs) d = each f (Suc n) xs (f n x d)"

definition handle_report_actual_state ::
  "(nat \<Rightarrow> fleet \<Rightarrow> fleet) \<Rightarrow> instant \<Rightarrow> string \<Rightarrow> state_report list \<Rightarrow> fleet \<Rightarrow> fleet" where
  "handle_report_actual_state wait now mid es d =
     (let d1 = each (report_entry wait now (generation_required mid d) mid) 0 es d;
          absent = filter (\<lambda>a. fa_placed a = Some mid \<and> fa_id a \<notin> set (map sr_agent es)) (fl_agents d1)
      in each (report_absent wait mid) (length es) absent d1)"

section \<open>A machine that gives up\<close>

definition crash_loop :: "instant \<Rightarrow> string \<Rightarrow> string \<Rightarrow> fleet_agent \<Rightarrow> fleet_agent" where
  "crash_loop now mid reason r =
     (release_lease ''stopped'' r)\<lparr>fa_desired := ''stopped'', fa_actual := ''crashed'', fa_pid := None, fa_crash := Some reason,
        fa_code := Some ''crash_loop'', fa_detail := PDict [(''reason'', PStr reason), (''machine_id'', PStr mid)], fa_since := Some now\<rparr>"

definition handle_request_replacement ::
  "(nat \<Rightarrow> fleet \<Rightarrow> fleet) \<Rightarrow> instant \<Rightarrow> string \<Rightarrow> string \<Rightarrow> string \<Rightarrow> int option \<Rightarrow> fleet \<Rightarrow> fleet" where
  "handle_request_replacement wait now mid aid reason gen d =
     (case fleet_agent_of aid d of
        None \<Rightarrow> d
      | Some a \<Rightarrow>
          if fa_placed a \<noteq> Some mid then d
          else if (case gen of
                     None \<Rightarrow> generation_required mid d \<or> (fa_legacy a \<noteq> None \<and> fa_legacy a \<noteq> Some (fa_generation a))
                   | Some g \<Rightarrow> g \<noteq> fa_generation a) then d
          else
            let d1 = wait 0 d in
            (case fleet_agent_of aid d1 of
               None \<Rightarrow> d1
             | Some r \<Rightarrow>
                 if fa_placed r = Some mid \<and> fa_generation r = fa_generation a
                 then log_event aid ''agent_crash_loop_stopped''
                   [(''machine_id'', PStr mid), (''generation'', PInt (fa_generation a)), (''reason'', PStr reason)]
                   (upd_agent aid (crash_loop now mid reason) d1)
                 else d1))"

section \<open>Restarts for a new configuration\<close>

text \<open>\<open>_remap_unstarted_pending_attempts\<close>: only intents that no process has seen follow the new generation.\<close>

definition current_intent :: "string \<Rightarrow> run_attempt \<Rightarrow> fleet \<Rightarrow> bool" where
  "current_intent aid b d \<longleftrightarrow>
     list_ex (\<lambda>t. nu_request t = nb_turn b \<and> nu_agent t = Some aid \<and> nu_active t = nb_number b
       \<and> nu_state t \<in> set OPEN_TURN_STATES \<and> rt_accepted t = None
       \<and> list_ex (\<lambda>p. nu_participant t = Some (p_id p) \<and> p_agent p = Some aid \<and> p_room p = nu_room t
            \<and> p_role p \<in> set AGENT_EXECUTION_ROLES
            \<and> list_ex (\<lambda>r. r_id r = p_room p \<and> r_archived r = None) (fl_rooms d)) (fl_members d)
       \<and> \<not> list_ex (\<lambda>x. list_ex (\<lambda>b'. tr_attempt x = Some (nb_id b') \<and> nb_turn b' = nu_request t) (fl_attempts d)) (fl_results d))
     (fl_turns d)"

definition remappable :: "string \<Rightarrow> int \<Rightarrow> fleet \<Rightarrow> run_attempt \<Rightarrow> bool" where
  "remappable aid gen d b \<longleftrightarrow> nb_agent b = Some aid \<and> nb_generation b = gen \<and> nb_state b = TaPending
     \<and> nb_local b = None \<and> ra_leased b = None \<and> ra_started b = None \<and> ra_ended b = None \<and> nb_expires b = None
     \<and> ra_outcome b = None \<and> current_intent aid b d"

definition remap_attempts :: "string \<Rightarrow> int \<Rightarrow> int \<Rightarrow> fleet \<Rightarrow> fleet" where
  "remap_attempts aid old gen d =
     d\<lparr>fl_attempts := map (\<lambda>b. if remappable aid old d b then b\<lparr>nb_generation := gen\<rparr> else b) (fl_attempts d)\<rparr>"

definition active_leases :: "string \<Rightarrow> int \<Rightarrow> fleet \<Rightarrow> int" where
  "active_leases aid gen d =
     int (length (filter (\<lambda>b. nb_agent b = Some aid \<and> nb_generation b = gen \<and> nb_state b \<in> set LEASED_STATES) (fl_attempts d)))"

definition no_drain :: "fleet_agent \<Rightarrow> fleet_agent" where
  "no_drain a = a\<lparr>fa_pending := None, fa_requested := None, fa_deadline := None, fa_pending_hash := None\<rparr>"

text \<open>
  \<open>bump_generation\<close>, with the frame it sends after its commit. An agent that is not running on a
  machine only counts up; an unchanged manifest cancels a drain; a changed one waits for the leases of
  the live generation, or restarts at once.
\<close>

definition bump_generation ::
  "lifecycle_env \<Rightarrow> (nat \<Rightarrow> fleet \<Rightarrow> fleet) \<Rightarrow> instant \<Rightarrow> string \<Rightarrow> fleet \<Rightarrow> (string \<times> int \<times> string) option \<times> fleet" where
  "bump_generation env wait now aid d =
     (case fleet_agent_of aid d of
        None \<Rightarrow> (None, d)
      | Some a \<Rightarrow>
          if fa_desired a \<noteq> ''running'' \<or> fa_placed a = None then
            (None, remap_attempts aid (fa_generation a) (fa_generation a + 1)
               (flush a (a\<lparr>fa_generation := fa_generation a + 1\<rparr>) (wait 0 d)))
          else
            let rooms = rooms_of aid d;
                (desired, b) = build_sync_frame env now a d;
                h = Some (le_manifest env b desired rooms d);
                active = active_leases aid (fa_generation a) d in
            if h = fa_hash b then
              (case fa_pending b of
                 None \<Rightarrow> (None, flush a b (wait 0 d))
               | Some g \<Rightarrow>
                   (None, log_event aid ''generation_drain_cancelled''
                     [(''generation'', PInt (fa_generation a)), (''cancelled_generation'', PInt g),
                      (''reason'', PStr ''effective_manifest_unchanged'')]
                     (remap_attempts aid g (fa_generation a) (flush a (no_drain b) (wait 0 d)))))
            else if h = fa_pending_hash b then (None, flush a b (wait 0 d))
            else if active \<noteq> 0 then
              (let base = (case fa_pending b of Some g \<Rightarrow> if g \<noteq> 0 then g else fa_generation a | None \<Rightarrow> fa_generation a);
                   c = b\<lparr>fa_pending := Some (base + 1), fa_requested := Some now,
                         fa_deadline := Some (now + seconds_of (le_drain env) 60 * 1000000), fa_pending_hash := h\<rparr>;
                   d1 = flush a c (wait 0 d)
               in (None, log_event aid ''generation_drain_requested''
                    [(''generation'', PInt (fa_generation a)), (''pending_generation'', PInt (base + 1)), (''active_leases'', PInt active)]
                    (case fa_pending b of None \<Rightarrow> d1 | Some g \<Rightarrow> remap_attempts aid g (base + 1) d1)))
            else
              (Some (the (fa_placed a), fa_generation a + 1, desired),
               remap_attempts aid (fa_generation a) (fa_generation a + 1)
                 (flush a (b\<lparr>fa_generation := fa_generation a + 1, fa_hash := h\<rparr>) (wait 0 d))))"

text \<open>The promotion of a pending generation: guarded by the row and by its leases as they are then.\<close>

definition promote :: "fleet_agent \<Rightarrow> int \<Rightarrow> fleet_agent \<Rightarrow> fleet_agent" where
  "promote a gen r = (no_drain r)\<lparr>fa_generation := gen, fa_hash := fa_pending_hash a\<rparr>"

definition release_generation_drain ::
  "lifecycle_env \<Rightarrow> (nat \<Rightarrow> fleet \<Rightarrow> fleet) \<Rightarrow> instant \<Rightarrow> string \<Rightarrow> fleet \<Rightarrow> bool \<times> (string \<times> int \<times> string) option \<times> fleet" where
  "release_generation_drain env wait now aid d =
     (case fleet_agent_of aid d of
        None \<Rightarrow> (False, None, d)
      | Some a \<Rightarrow>
          (case fa_pending a of
             None \<Rightarrow> (False, None, d)
           | Some g \<Rightarrow>
               if active_leases aid (fa_generation a) d \<noteq> 0 then (False, None, d)
               else
                 let d1 = wait 0 d in
                 (case fleet_agent_of aid d1 of
                    None \<Rightarrow> (False, None, d1)
                  | Some r \<Rightarrow>
                      if fa_generation r \<noteq> fa_generation a \<or> fa_pending r \<noteq> Some g \<or> active_leases aid (fa_generation a) d1 \<noteq> 0
                      then (False, None, d1)
                      else
                        let d2 = remap_attempts aid (fa_generation a) g (upd_agent aid (promote a g) d1);
                            r2 = promote a g r;
                            (frame, d3) =
                              (if fa_desired r2 = ''running'' \<and> fa_placed r2 \<noteq> None
                               then (let (desired, r3) = build_sync_frame env now r2 d2
                                     in (Some (the (fa_placed r2), g, desired), flush r2 r3 d2))
                               else (None, d2))
                        in (True, frame, log_event aid ''generation_drain_completed'' [(''generation'', PInt g)] d3))))"

definition send_sync :: "string \<Rightarrow> (string \<times> int \<times> string) option \<Rightarrow> fleet \<Rightarrow> fleet" where
  "send_sync aid fr d = (case fr of None \<Rightarrow> d | Some (mid, gen, desired) \<Rightarrow> send_frame mid aid gen desired d)"

datatype room_added = NothingToDo | StartAgent | RestartAgent

definition on_room_added :: "string \<Rightarrow> fleet \<Rightarrow> room_added" where
  "on_room_added aid d =
     (case fleet_agent_of aid d of
        None \<Rightarrow> NothingToDo
      | Some a \<Rightarrow>
          if fa_actual a \<in> {''idle'', ''stopped'', ''crashed'', ''pending''} then StartAgent
          else if fa_actual a \<in> {''running'', ''starting''} then RestartAgent
          else NothingToDo)"

section \<open>Reconnects and silent agents\<close>

text \<open>
  \<open>send_sync_batch\<close>: the frames of every agent of a machine in one transaction, sent as one batch.
\<close>

definition batch_agent :: "lifecycle_env \<Rightarrow> (nat \<Rightarrow> fleet \<Rightarrow> fleet) \<Rightarrow> instant \<Rightarrow> nat \<Rightarrow> fleet_agent \<Rightarrow> fleet \<Rightarrow> fleet" where
  "batch_agent env wait now n a d = flush a (snd (build_sync_frame env now a d)) (wait n d)"

definition send_sync_batch :: "lifecycle_env \<Rightarrow> (nat \<Rightarrow> fleet \<Rightarrow> fleet) \<Rightarrow> instant \<Rightarrow> string \<Rightarrow> fleet \<Rightarrow> fleet" where
  "send_sync_batch env wait now mid d =
     (let agents = filter (\<lambda>a. fa_placed a = Some mid) (fl_agents d);
          frames = map (\<lambda>a. \<lparr>ff_machine = mid, ff_agent = fa_id a, ff_generation = fa_generation a,
                              ff_desired = fst (build_sync_frame env now a d)\<rparr>) agents;
          d1 = each (batch_agent env wait now) 0 agents d
      in d1\<lparr>fl_sent := fl_sent d1 @ frames\<rparr>)"

definition stale_agent :: "instant \<Rightarrow> fleet \<Rightarrow> fleet_agent \<Rightarrow> bool" where
  "stale_agent threshold d a \<longleftrightarrow> fa_actual a = ''running''
     \<and> (case fa_heartbeat a of None \<Rightarrow> False | Some h \<Rightarrow> h < threshold)
     \<and> list_ex (\<lambda>m. fa_placed a = Some (mc_id m) \<and> mc_status m \<noteq> ''online'') (fl_machines d)"

definition sweep_agent :: "(nat \<Rightarrow> fleet \<Rightarrow> fleet) \<Rightarrow> int \<Rightarrow> nat \<Rightarrow> fleet_agent \<Rightarrow> fleet \<Rightarrow> fleet" where
  "sweep_agent wait secs n a d =
     log_event (fa_id a) ''state_changed''
       [(''from'', PStr (fa_actual a)), (''to'', PStr ''crashed''), (''reason'', PStr ''heartbeat_stale''), (''threshold_sec'', PInt secs)]
       (flush a (a\<lparr>fa_actual := ''crashed'', fa_crash := Some ''heartbeat_stale''\<rparr>) (wait n d))"

definition sweep_stale_agents :: "(nat \<Rightarrow> fleet \<Rightarrow> fleet) \<Rightarrow> int \<Rightarrow> instant \<Rightarrow> fleet \<Rightarrow> int \<times> fleet" where
  "sweep_stale_agents wait secs now d =
     (let stale = filter (stale_agent (now - secs * 1000000) d) (fl_agents d)
      in (int (length stale), each (sweep_agent wait secs) 0 stale d))"

end
