(* ===== verification/LifecycleSafety.thy ===== *)
theory LifecycleSafety
  imports AgentLifecycle
begin

text \<open>
  What the transactions of the lifecycle keep of every agent's row. A rule on rows that the few kinds
  of writes respect is kept by whole runs, whatever interleaves; it is interpreted for the placement
  of an agent and, with one writer at a time, for its generation.
\<close>

section \<open>Rules on rows\<close>

definition fleet_kept :: "(fleet_agent \<Rightarrow> fleet_agent \<Rightarrow> bool) \<Rightarrow> fleet \<Rightarrow> fleet \<Rightarrow> bool" where
  "fleet_kept R d d' \<longleftrightarrow> (\<forall>aid a. fleet_agent_of aid d = Some a \<longrightarrow> (\<exists>a'. fleet_agent_of aid d' = Some a' \<and> R a a'))"

definition drain_ok :: "fleet_agent \<Rightarrow> bool" where
  "drain_ok a \<longleftrightarrow> (case fa_pending a of None \<Rightarrow> True | Some g \<Rightarrow> fa_generation a < g)"

lemma merge_row_sel [simp]:
  "fa_id (merge_row a b c) = fa_id c"
  "fa_placed (merge_row a b c) = keep_col (fa_placed a) (fa_placed b) (fa_placed c)"
  "fa_generation (merge_row a b c) = keep_col (fa_generation a) (fa_generation b) (fa_generation c)"
  "fa_pending (merge_row a b c) = keep_col (fa_pending a) (fa_pending b) (fa_pending c)"
  "fa_desired (merge_row a b c) = keep_col (fa_desired a) (fa_desired b) (fa_desired c)"
  "fa_actual (merge_row a b c) = keep_col (fa_actual a) (fa_actual b) (fa_actual c)"
  by (simp_all add: merge_row_def)

lemma keep_col_same [simp]: "keep_col x x c = c" "keep_col x y x = y"
  by (simp_all add: keep_col_def)

lemma get_upd_agent:
  assumes "\<And>r. fa_id (f r) = fa_id r"
  shows "fleet_agent_of k (upd_agent aid f d) = (if k = aid then map_option f (fleet_agent_of aid d) else fleet_agent_of k d)"
  using assms by (simp add: upd_agent_def tget_tupd)

lemma get_agent_id: "fleet_agent_of aid d = Some a \<Longrightarrow> fa_id a = aid"
  by (rule tget_Some_key)

lemma same_agents [simp]:
  "fl_agents (log_event x ty det d) = fl_agents d" "fl_agents (send_frame mid x g s d) = fl_agents d"
  "fl_agents (remap_attempts x g h d) = fl_agents d"
  by (simp_all add: log_event_def send_frame_def remap_attempts_def)

lemmas row_writers = mark_unavailable_def clear_unavailable_def release_lease_def no_rooms_def machine_busy_def no_machine_def
  absent_stopped_def acknowledge_def no_drain_def

lemma start_refusal_cols:
  assumes "start_refusal env now a d = Some b"
  shows "fa_placed b = fa_placed a" "fa_generation b = fa_generation a" "fa_pending b = fa_pending a"
  using assms by (auto simp: start_refusal_def row_writers split: if_splits)

lemma build_sync_cols:
  assumes "build_sync_frame env now a d = (s, b)"
  shows "fa_id b = fa_id a" "fa_placed b = fa_placed a" "fa_generation b = fa_generation a" "fa_pending b = fa_pending a"
    "fa_desired b = fa_desired a"
  using assms by (auto simp: build_sync_frame_def row_writers split: if_splits)

lemma report_cols:
  assumes "report_accepted required mid e a = Some b"
  shows "fa_placed b = fa_placed a" "fa_generation b = fa_generation a" "fa_pending b = fa_pending a" "fa_desired b = fa_desired a"
    "fa_id b = fa_id a" "fa_actual b = fa_actual a" "fa_placed a = Some mid"
    "fa_engine b = fa_engine a" "fa_provider b = fa_provider a" "fa_base_url b = fa_base_url a"
    "sr_generation e \<noteq> None \<Longrightarrow> sr_generation e = Some (fa_generation a)"
  using assms by (auto simp: report_accepted_def split: if_splits option.splits)

lemma availability_cols:
  "fa_placed (reported_availability now e st b) = fa_placed b"
  "fa_generation (reported_availability now e st b) = fa_generation b"
  "fa_pending (reported_availability now e st b) = fa_pending b"
  "fa_desired (reported_availability now e st b) = fa_desired b"
  "fa_id (reported_availability now e st b) = fa_id b"
  "fa_engine (reported_availability now e st b) = fa_engine b"
  "fa_provider (reported_availability now e st b) = fa_provider b"
  "fa_base_url (reported_availability now e st b) = fa_base_url b"
  by (simp_all add: reported_availability_def row_writers Let_def)

lemma acknowledge_cols:
  "fa_placed (acknowledge b) = fa_placed b"
  "fa_generation (acknowledge b) = fa_generation b"
  "fa_pending (acknowledge b) = fa_pending b"
  "fa_desired (acknowledge b) = fa_desired b"
  "fa_id (acknowledge b) = fa_id b"
  "fa_engine (acknowledge b) = fa_engine b"
  "fa_provider (acknowledge b) = fa_provider b"
  "fa_base_url (acknowledge b) = fa_base_url b"
  by (simp_all add: row_writers)

lemma apply_report_cols:
  "fa_placed (apply_report now e b) = fa_placed b"
  "fa_generation (apply_report now e b) = fa_generation b"
  "fa_pending (apply_report now e b) = fa_pending b"
  "fa_desired (apply_report now e b) = fa_desired b"
  "fa_id (apply_report now e b) = fa_id b"
  "fa_engine (apply_report now e b) = fa_engine b"
  "fa_provider (apply_report now e b) = fa_provider b"
  "fa_base_url (apply_report now e b) = fa_base_url b"
  by (simp_all add: apply_report_def availability_cols acknowledge_cols Let_def)

lemma state_changed_agents [simp]: "fl_agents (state_changed aid mid e a d) = fl_agents d"
  by (simp add: state_changed_def log_event_def split: option.split)

locale row_rule =
  fixes R :: "fleet_agent \<Rightarrow> fleet_agent \<Rightarrow> bool" and solo :: bool
  assumes R_refl: "R r r"
    and R_trans: "R r s \<Longrightarrow> R s t \<Longrightarrow> R r t"
    and R_flush: "\<lbrakk>fa_placed b = fa_placed a; fa_generation b = fa_generation a; fa_pending b = fa_pending a\<rbrakk>
      \<Longrightarrow> R r (merge_row a b r)"
    and R_write: "\<lbrakk>solo \<Longrightarrow> r = a; fa_placed b = fa_placed a; solo \<Longrightarrow> drain_ok a \<Longrightarrow> fa_generation a \<le> fa_generation b \<and> drain_ok b\<rbrakk>
      \<Longrightarrow> R r (merge_row a b r)"
    and R_claim: "\<lbrakk>claim_matches now a r; fa_placed a \<noteq> None \<Longrightarrow> fa_placed a = Some (mc_id m)\<rbrakk>
      \<Longrightarrow> R r (claim_values env now tok a m r)"
    and R_stop: "R r (stop_values r)"
    and R_crash: "R r (crash_loop now mid reason r)"
    and R_promote: "\<lbrakk>fa_generation r = fa_generation a; fa_pending r = Some g\<rbrakk> \<Longrightarrow> R r (promote a g r)"
    and R_delivery: "R r (r\<lparr>fa_delivery := x\<rparr>)"
    and R_unavailable: "R r (mark_unavailable now code det (r\<lparr>fa_crash := x\<rparr>))"
begin

abbreviation kept :: "fleet \<Rightarrow> fleet \<Rightarrow> bool" where "kept \<equiv> fleet_kept R"

lemma kept_same: "fl_agents d' = fl_agents d \<Longrightarrow> kept d d'"
  by (simp add: fleet_kept_def R_refl)

lemma kept_refl [simp]: "kept d d"
  by (simp add: kept_same)

lemma kept_trans [trans]: "kept a b \<Longrightarrow> kept b c \<Longrightarrow> kept a c"
  unfolding fleet_kept_def by (meson R_trans)

lemma kept_agents [simp]:
  "kept d (log_event x ty det e) = kept d e" "kept d (send_frame mid x g s e) = kept d e" "kept d (remap_attempts x g h e) = kept d e"
  by (simp_all add: fleet_kept_def)

lemma kept_upd:
  assumes "\<And>r. fa_id (f r) = fa_id r" and "\<And>r. fleet_agent_of aid d = Some r \<Longrightarrow> R r (f r)"
  shows "kept d (upd_agent aid f d)"
  using assms by (auto simp: fleet_kept_def get_upd_agent R_refl)

lemma kept_flush:
  assumes "fa_placed b = fa_placed a" "fa_generation b = fa_generation a" "fa_pending b = fa_pending a"
  shows "kept d (flush a b d)"
  unfolding flush_def by (rule kept_upd) (use R_flush [OF assms] in simp_all)

lemma kept_write:
  assumes "solo \<Longrightarrow> fleet_agent_of (fa_id a) d = Some a" and "fa_placed b = fa_placed a"
    and "solo \<Longrightarrow> drain_ok a \<Longrightarrow> fa_generation a \<le> fa_generation b \<and> drain_ok b"
  shows "kept d (flush a b d)"
  unfolding flush_def by (rule kept_upd) (use assms in \<open>auto intro: R_write\<close>)

text \<open>Operations that write only what every rule allows, over any interleaving.\<close>


lemma claim_machine_kept:
  assumes W: "\<And>n e. kept e (wait n e)" and m: "\<And>m. mo = Some m \<Longrightarrow> fa_placed a \<noteq> None \<Longrightarrow> fa_placed a = Some (mc_id m)"
    and c: "claim_machine env wait now tok a rooms mo n d = (c, d')"
  shows "kept d d'"
proof (cases mo)
  case None
  have "kept d (flush r (machine_busy now r) (wait n d))" for r
    by (rule kept_trans [OF W kept_flush]) (simp_all add: row_writers)
  moreover have "kept d (flush r (no_machine now r) (wait n d))" if "fa_placed r = None" for r
    by (rule kept_trans [OF W kept_flush]) (simp_all add: row_writers that)
  ultimately show ?thesis using c None by (auto simp: claim_machine_def split: option.splits if_splits)
next
  case (Some m)
  have f: "kept d (flush a (mark_unavailable now x y (a\<lparr>fa_crash := z\<rparr>)) (wait n d))" for x y z
    by (rule kept_trans [OF W kept_flush]) (simp_all add: row_writers)
  have u: "kept (wait n d) (upd_agent (fa_id a) (claim_values env now tok a m) (wait n d))"
    if "fleet_agent_of (fa_id a) (wait n d) = Some r" "claim_matches now a r" for r
    by (rule kept_upd) (use that R_claim [OF that(2)] assms(2) [OF Some] in \<open>auto simp: claim_values_def Let_def\<close>)
  show ?thesis using c Some f W kept_trans [OF W u] by (auto simp: claim_machine_def Let_def split: option.splits if_splits)
qed

lemma reserve_from_kept:
  assumes W: "\<And>n e. kept e (wait n e)" and r: "reserve_from fuel wait q attempted n d = Some (mo, d', n')"
  shows "kept d d'"
  using r
proof (induction fuel arbitrary: attempted n d)
  case (Suc fuel)
  then show ?case
    by (auto simp: Let_def W split: option.splits if_splits intro: W kept_trans [OF W])
qed simp

lemma request_start_kept:
  assumes W: "\<And>n e. kept e (wait n e)" and r: "request_start fuel env wait now tok aid d = Some (c, d')"
  shows "kept d d'"
proof (cases "fleet_agent_of aid d")
  case (Some a)
  have f: "kept d (flush a b (wait 0 d))" if "start_refusal env now a d = Some b" for b
    by (rule kept_trans [OF W kept_flush]) (use start_refusal_cols [OF that] in simp_all)
  have n: "kept d (flush a (no_rooms now a) (wait 0 d))"
    by (rule kept_trans [OF W kept_flush]) (simp_all add: row_writers)
  have here: "claim_machine env wait now tok a (rooms_of aid d) (Some m) 0 d = (c, d') \<Longrightarrow> kept d d'"
    if "get_machine mid d = Some m" "fa_placed a = Some mid" for m mid
    by (rule claim_machine_kept [OF W]) (use that tget_Some_key [OF that(1)] in auto)
  have go: "kept d d'" if "reserve_machine_for fuel wait (start_query env a) 0 d = Some (mo, d1, n)"
    "claim_machine env wait now tok a (rooms_of aid d) mo n d1 = (c, d')" for mo d1 n
  proof (rule kept_trans)
    show "kept d d1" using that(1) by (auto simp: reserve_machine_for_def intro: reserve_from_kept [OF W])
    show "kept d1 d'"
      by (rule claim_machine_kept [OF W _ that(2)]) (use that(1) reserve_fits in \<open>auto simp: fits_def start_query_def\<close>)
  qed
  show ?thesis using r Some f n here go
    by (auto simp: request_start_def Let_def split: option.splits if_splits prod.splits)
qed (use r in \<open>simp add: request_start_def\<close>)

lemma start_manifest_kept:
  assumes W: "\<And>n e. kept e (wait n e)" and r: "start_manifest env wait now c d = (fr, d')"
  shows "kept d d'"
proof -
  have "kept d (flush a (b\<lparr>fa_hash := h\<rparr>) (wait 0 d))"
    if "build_sync_frame env now (if sc_retry c then a else clear_unavailable a) d = (x, b)" for a b h x
    by (rule kept_trans [OF W kept_flush]) (use build_sync_cols [OF that] in \<open>auto simp: clear_unavailable_def split: if_splits\<close>)
  then show ?thesis using r by (auto simp: start_manifest_def Let_def split: option.splits prod.splits)
qed

lemma dispatch_start_kept: "(\<And>n e. kept e (wait n e)) \<Longrightarrow> kept d (dispatch_start wait c fr d)"
  by (simp add: dispatch_start_def)

lemma record_dispatch_kept: "kept d (snd (record_dispatch_result now c sent d))"
proof -
  have u: "kept e (upd_agent aid (\<lambda>r. r\<lparr>fa_delivery := x\<rparr>) e)" for aid x e
    by (rule kept_upd) (simp_all add: R_delivery)
  have v: "kept e (upd_agent aid (\<lambda>r. mark_unavailable now' code det (r\<lparr>fa_crash := x\<rparr>)) e)" for aid now' code det x e
    by (rule kept_upd) (simp add: mark_unavailable_def, rule R_unavailable)
  show ?thesis by (auto simp: record_dispatch_result_def Let_def u intro: kept_trans [OF u v])
qed

lemma request_stop_kept: "kept d (snd (request_stop aid d))"
proof -
  have "kept d (upd_agent aid stop_values d)"
    by (rule kept_upd) (simp_all add: stop_values_def row_writers R_stop [unfolded stop_values_def row_writers])
  then show ?thesis by (auto simp: request_stop_def split: option.splits)
qed

lemma each_kept: "(\<And>n x e. kept e (f n x e)) \<Longrightarrow> kept d (each f n xs d)"
proof (induction xs arbitrary: n d)
  case (Cons x xs)
  show ?case using kept_trans [OF Cons.prems Cons.IH [OF Cons.prems]] by simp
qed simp

lemma report_kept:
  assumes W: "\<And>n e. kept e (wait n e)"
  shows "kept d (handle_report_actual_state wait now mid es d)"
proof -
  have e: "kept d (report_entry wait now q mid n e d)" for q n e d
  proof -
    have "kept d (flush a (apply_report now e b) (wait n d))" if "report_accepted q mid e a = Some b" for a b
      by (rule kept_trans [OF W kept_flush]) (use report_cols [OF that] in \<open>simp_all add: apply_report_cols\<close>)
    then show ?thesis
      by (auto simp: report_entry_def state_changed_def Let_def split: option.splits)
  qed
  have a: "kept d (report_absent wait mid n a d)" for n a d
  proof -
    have "kept d (flush a (absent_stopped a) (wait n d))"
      by (rule kept_trans [OF W kept_flush]) (simp_all add: row_writers)
    then show ?thesis by (simp add: report_absent_def)
  qed
  show ?thesis unfolding handle_report_actual_state_def Let_def
    by (rule kept_trans [OF each_kept each_kept]) (rule e, rule a)
qed

lemma replacement_kept:
  assumes W: "\<And>n e. kept e (wait n e)"
  shows "kept d (handle_request_replacement wait now mid aid reason gen d)"
proof -
  have "kept d (upd_agent aid (crash_loop now mid reason) (wait 0 d))"
    by (rule kept_trans [OF W kept_upd]) (simp_all add: crash_loop_def row_writers R_crash [unfolded crash_loop_def row_writers])
  then show ?thesis by (auto simp: handle_request_replacement_def Let_def W split: option.splits)
qed

lemma sync_batch_kept:
  assumes W: "\<And>n e. kept e (wait n e)"
  shows "kept d (send_sync_batch env wait now mid d)"
proof -
  have b: "kept d (batch_agent env wait now n a d)" for n a d
    unfolding batch_agent_def
    by (rule kept_trans [OF W kept_flush]) (use build_sync_cols [OF prod.collapse [symmetric]] in \<open>simp_all\<close>)
  show ?thesis unfolding send_sync_batch_def Let_def
    by (rule kept_trans [OF each_kept [OF b] kept_same]) simp
qed

lemma sweep_kept:
  assumes W: "\<And>n e. kept e (wait n e)"
  shows "kept d (snd (sweep_stale_agents wait secs now d))"
proof -
  have "kept d (sweep_agent wait secs n a d)" for n a d
    unfolding sweep_agent_def kept_agents by (rule kept_trans [OF W kept_flush]) simp_all
  then show ?thesis by (simp add: sweep_stale_agents_def Let_def each_kept)
qed

text \<open>
  The two operations that move a generation by a plain write. Alone, a restart must not overtake a
  drain that is still pending.
\<close>

lemma bump_kept:
  assumes W: "\<And>n e. kept e (wait n e)" and S: "solo \<Longrightarrow> wait = (\<lambda>n e. e)"
    and L: "\<And>a a'. \<lbrakk>solo; fleet_agent_of aid d = Some a; fleet_agent_of aid d' = Some a'; fa_pending a \<noteq> None\<rbrakk> \<Longrightarrow> fa_generation a' = fa_generation a"
    and r: "bump_generation env wait now aid d = (fr, d')"
  shows "kept d d'"
proof (cases "fleet_agent_of aid d")
  case (Some a)
  have id: "fa_id a = aid" using Some by (rule get_agent_id)
  have w: "kept d (flush a b (wait 0 d))"
    if "fa_placed b = fa_placed a" "solo \<Longrightarrow> drain_ok a \<Longrightarrow> fa_generation a \<le> fa_generation b \<and> drain_ok b" for b
    by (rule kept_trans [OF W kept_write]) (use that S Some id in auto)
  have none: "fa_pending a = None" if solo "fl_agents d' = fl_agents (flush a b (wait 0 d))" "fa_generation b = fa_generation a + 1" for b
  proof (rule ccontr)
    assume p: "fa_pending a \<noteq> None"
    have "fleet_agent_of aid d' = Some (merge_row a b a)"
      using that(2) Some id S [OF that(1)] by (simp add: flush_def get_upd_agent)
    from L [OF that(1) Some this p] that(3) show False by simp
  qed
  have count: "kept d (flush a (b\<lparr>fa_generation := fa_generation a + 1, fa_hash := h\<rparr>) (wait 0 d))"
    if "fl_agents d' = fl_agents (flush a (b\<lparr>fa_generation := fa_generation a + 1, fa_hash := h\<rparr>) (wait 0 d))"
      "fa_placed b = fa_placed a" "fa_pending b = fa_pending a" for b h
    by (rule w) (use that none in \<open>auto simp: drain_ok_def\<close>)
  have up: "kept d (flush a (a\<lparr>fa_generation := fa_generation a + 1\<rparr>) (wait 0 d))"
    if "fl_agents d' = fl_agents (flush a (a\<lparr>fa_generation := fa_generation a + 1\<rparr>) (wait 0 d))"
    by (rule w) (use that none in \<open>auto simp: drain_ok_def\<close>)
  show ?thesis
  proof (cases "fa_desired a \<noteq> ''running'' \<or> fa_placed a = None")
    case True
    then have "d' = remap_attempts aid (fa_generation a) (fa_generation a + 1) (flush a (a\<lparr>fa_generation := fa_generation a + 1\<rparr>) (wait 0 d))"
      using r Some by (auto simp: bump_generation_def)
    then show ?thesis using up by simp
  next
    case False
    obtain s b where sb: "build_sync_frame env now a d = (s, b)" by fastforce
    note c = build_sync_cols [OF sb]
    have plain: "kept d (flush a b (wait 0 d))" by (rule w) (use c in \<open>auto simp: drain_ok_def split: option.splits\<close>)
    have cancel: "kept d (flush a (no_drain b) (wait 0 d))" by (rule w) (use c in \<open>auto simp: drain_ok_def no_drain_def\<close>)
    have later: "kept d (flush a (b\<lparr>fa_pending := Some (g + 1), fa_requested := x, fa_deadline := y, fa_pending_hash := h\<rparr>) (wait 0 d))"
      if "drain_ok a \<Longrightarrow> fa_generation a \<le> g" for g x y h
      by (rule w) (use c that in \<open>auto simp: drain_ok_def\<close>)
    have base: "drain_ok a \<Longrightarrow> fa_generation a \<le> (case fa_pending b of None \<Rightarrow> fa_generation a | Some g \<Rightarrow> if g \<noteq> 0 then g else fa_generation a)"
      using c by (auto simp: drain_ok_def split: option.splits)
    let ?h = "Some (le_manifest env b s (rooms_of aid d) d)"
    consider (same) "?h = fa_hash b" | (coalesced) "?h \<noteq> fa_hash b" "?h = fa_pending_hash b"
      | (drain) "?h \<noteq> fa_hash b" "?h \<noteq> fa_pending_hash b" "active_leases aid (fa_generation a) d \<noteq> 0"
      | (restart) "?h \<noteq> fa_hash b" "?h \<noteq> fa_pending_hash b" "active_leases aid (fa_generation a) d = 0" by blast
    then show ?thesis
    proof cases
      case same
      then show ?thesis using r Some False sb plain cancel by (auto simp: bump_generation_def Let_def split: option.splits)
    next
      case coalesced
      then show ?thesis using r Some False sb plain by (auto simp: bump_generation_def Let_def)
    next
      case drain
      then show ?thesis using r Some False sb later [OF base]
        by (auto simp: bump_generation_def Let_def split: option.splits)
    next
      case restart
      then have "d' = remap_attempts aid (fa_generation a) (fa_generation a + 1)
          (flush a (b\<lparr>fa_generation := fa_generation a + 1, fa_hash := ?h\<rparr>) (wait 0 d))"
        using r Some False sb by (auto simp: bump_generation_def Let_def)
      then show ?thesis using count [where b = b and h = "?h"] c by simp
    qed
  qed
qed (use r in \<open>simp add: bump_generation_def\<close>)

lemma release_kept:
  assumes W: "\<And>n e. kept e (wait n e)" and r: "release_generation_drain env wait now aid d = (okk, fr, d')"
  shows "kept d d'"
proof -
  have p: "kept e (upd_agent aid (promote a g) e)"
    if "fleet_agent_of aid e = Some s" "fa_generation s = fa_generation a" "fa_pending s = Some g" for a g s e
    by (rule kept_upd) (use that R_promote in \<open>auto simp: promote_def no_drain_def\<close>)
  have f: "kept e (flush s b e)" if "build_sync_frame env now s e = (x, b)" for s b e x
    by (rule kept_flush) (use build_sync_cols [OF that] in simp_all)
  have pf: "kept d (flush (promote a g s) b (remap_attempts aid x y (upd_agent aid (promote a g) (wait 0 d))))"
    if "fleet_agent_of aid (wait 0 d) = Some s" "fa_generation s = fa_generation a" "fa_pending s = Some g"
      "build_sync_frame env now (promote a g s) (remap_attempts aid x y (upd_agent aid (promote a g) (wait 0 d))) = (z, b)" for a g s b x y z
    by (rule kept_trans [OF kept_trans [OF W p [OF that(1-3)]] kept_trans [OF kept_same f [OF that(4)]]]) simp
  show ?thesis using r
    by (auto simp: release_generation_drain_def Let_def W kept_trans [OF W p] pf split: option.splits if_splits prod.splits)
qed

end

section \<open>The two rules\<close>

definition stays_placed :: "fleet_agent \<Rightarrow> fleet_agent \<Rightarrow> bool" where
  "stays_placed r r' \<longleftrightarrow> (fa_placed r \<noteq> None \<longrightarrow> fa_placed r' = fa_placed r)"

definition generation_grows :: "fleet_agent \<Rightarrow> fleet_agent \<Rightarrow> bool" where
  "generation_grows r r' \<longleftrightarrow> (drain_ok r \<longrightarrow> fa_generation r \<le> fa_generation r' \<and> drain_ok r')"

lemmas row_writes = claim_values_def claim_matches_def stop_values_def crash_loop_def promote_def row_writers Let_def

interpretation placement: row_rule stays_placed False
  by unfold_locales (auto simp: stays_placed_def row_writes)

interpretation generation: row_rule generation_grows True
  by unfold_locales (auto simp: generation_grows_def drain_ok_def row_writes split: option.splits)

section \<open>Runs\<close>

text \<open>
  A run of the lifecycle. The steps of a start are separate, as their transactions are; \<open>sending\<close>
  stands for the frames sent after the commits of a stop and of a restart. With \<open>solo\<close> nothing commits
  inside an operation and no generation moves past a pending drain; otherwise every wait may be any
  run. \<open>elsewhere\<close> is every other part of the server: it may add agents, and change anything but the
  placements and generations of the agents there are.
\<close>

definition elsewhere_fleet :: "fleet \<Rightarrow> fleet \<Rightarrow> bool" where
  "elsewhere_fleet d d' \<longleftrightarrow> fleet_kept (\<lambda>r r'. fa_placed r' = fa_placed r \<and> fa_generation r' = fa_generation r \<and> fa_pending r' = fa_pending r) d d'"

inductive fleet_step :: "bool \<Rightarrow> fleet \<Rightarrow> fleet \<Rightarrow> bool" for solo where
  start: "\<lbrakk>solo \<longrightarrow> wait = (\<lambda>n e. e); \<forall>n e. (fleet_step solo)\<^sup>*\<^sup>* e (wait n e);
      request_start fuel env wait now tok aid d = Some (c, d')\<rbrakk> \<Longrightarrow> fleet_step solo d d'"
| manifest: "\<lbrakk>solo \<longrightarrow> wait = (\<lambda>n e. e); \<forall>n e. (fleet_step solo)\<^sup>*\<^sup>* e (wait n e);
      start_manifest env wait now c d = (fr, d')\<rbrakk> \<Longrightarrow> fleet_step solo d d'"
| dispatch: "\<lbrakk>solo \<longrightarrow> wait = (\<lambda>n e. e); \<forall>n e. (fleet_step solo)\<^sup>*\<^sup>* e (wait n e)\<rbrakk> \<Longrightarrow> fleet_step solo d (dispatch_start wait c fr d)"
| result: "fleet_step solo d (snd (record_dispatch_result now c sent d))"
| stop: "fleet_step solo d (snd (request_stop aid d))"
| report: "\<lbrakk>solo \<longrightarrow> wait = (\<lambda>n e. e); \<forall>n e. (fleet_step solo)\<^sup>*\<^sup>* e (wait n e)\<rbrakk>
      \<Longrightarrow> fleet_step solo d (handle_report_actual_state wait now mid es d)"
| replacement: "\<lbrakk>solo \<longrightarrow> wait = (\<lambda>n e. e); \<forall>n e. (fleet_step solo)\<^sup>*\<^sup>* e (wait n e)\<rbrakk>
      \<Longrightarrow> fleet_step solo d (handle_request_replacement wait now mid aid reason gen d)"
| bump: "\<lbrakk>solo \<longrightarrow> wait = (\<lambda>n e. e); \<forall>n e. (fleet_step solo)\<^sup>*\<^sup>* e (wait n e);
      bump_generation env wait now aid d = (sf, d');
      solo \<longrightarrow> (\<forall>a a'. fleet_agent_of aid d = Some a \<longrightarrow> fleet_agent_of aid d' = Some a' \<longrightarrow> fa_pending a \<noteq> None
        \<longrightarrow> fa_generation a' = fa_generation a)\<rbrakk> \<Longrightarrow> fleet_step solo d d'"
| release: "\<lbrakk>solo \<longrightarrow> wait = (\<lambda>n e. e); \<forall>n e. (fleet_step solo)\<^sup>*\<^sup>* e (wait n e);
      release_generation_drain env wait now aid d = (okk, sf, d')\<rbrakk> \<Longrightarrow> fleet_step solo d d'"
| batch: "\<lbrakk>solo \<longrightarrow> wait = (\<lambda>n e. e); \<forall>n e. (fleet_step solo)\<^sup>*\<^sup>* e (wait n e)\<rbrakk>
      \<Longrightarrow> fleet_step solo d (send_sync_batch env wait now mid d)"
| sweep: "\<lbrakk>solo \<longrightarrow> wait = (\<lambda>n e. e); \<forall>n e. (fleet_step solo)\<^sup>*\<^sup>* e (wait n e)\<rbrakk>
      \<Longrightarrow> fleet_step solo d (snd (sweep_stale_agents wait secs now d))"
| sending: "fleet_step solo d (send_frame mid aid gen desired d)"
| elsewhere: "elsewhere_fleet d d' \<Longrightarrow> fleet_step solo d d'"

lemma elsewhere_kept:
  assumes "elsewhere_fleet d d'"
    and "\<And>r r'. \<lbrakk>fa_placed r' = fa_placed r; fa_generation r' = fa_generation r; fa_pending r' = fa_pending r\<rbrakk> \<Longrightarrow> R r r'"
  shows "fleet_kept R d d'"
  using assms unfolding elsewhere_fleet_def fleet_kept_def by blast

lemma placement_steps: "(\<lambda>x y. fleet_step solo x y \<and> fleet_kept stays_placed x y)\<^sup>*\<^sup>* d d' \<Longrightarrow> fleet_kept stays_placed d d'"
  by (induction rule: rtranclp_induct) (auto intro: placement.kept_trans)

lemma placement_step: "fleet_step solo d d' \<Longrightarrow> fleet_kept stays_placed d d'"
proof (induction rule: fleet_step.induct)
  case (start wait fuel env now tok aid d c d')
  then show ?case using placement_steps by (intro placement.request_start_kept [OF _ start.hyps(2)]) blast
next
  case (manifest wait env now c d fr d')
  then show ?case using placement_steps by (intro placement.start_manifest_kept [OF _ manifest.hyps(2)]) blast
next
  case (dispatch wait d c fr)
  then show ?case using placement_steps by (intro placement.dispatch_start_kept) blast
next
  case (report wait d now mid es)
  then show ?case using placement_steps by (intro placement.report_kept) blast
next
  case (replacement wait d now mid aid reason gen)
  then show ?case using placement_steps by (intro placement.replacement_kept) blast
next
  case (bump wait env now aid d sf d')
  then show ?case using placement_steps by (intro placement.bump_kept [OF _ _ _ bump.hyps(2)]) blast+
next
  case (release wait env now aid d okk sf d')
  then show ?case using placement_steps by (intro placement.release_kept [OF _ release.hyps(2)]) blast
next
  case (batch wait d env now mid)
  then show ?case using placement_steps by (intro placement.sync_batch_kept) blast
next
  case (sweep wait d secs now)
  then show ?case using placement_steps by (intro placement.sweep_kept) blast
next
  case (elsewhere d d')
  then show ?case by (rule elsewhere_kept) (simp add: stays_placed_def)
qed (simp_all add: placement.record_dispatch_kept placement.request_stop_kept)

lemma generation_step: "fleet_step True d d' \<Longrightarrow> fleet_kept generation_grows d d'"
proof (cases rule: fleet_step.cases, assumption)
  fix wait :: "nat \<Rightarrow> fleet \<Rightarrow> fleet" and env now aid sf
  assume a: "True \<longrightarrow> wait = (\<lambda>n e. e)" "bump_generation env wait now aid d = (sf, d')"
    "True \<longrightarrow> (\<forall>a a'. fleet_agent_of aid d = Some a \<longrightarrow> fleet_agent_of aid d' = Some a' \<longrightarrow> fa_pending a \<noteq> None
        \<longrightarrow> fa_generation a' = fa_generation a)"
  show ?thesis by (rule generation.bump_kept [OF _ _ _ a(2)]) (use a in auto)
next
  assume "elsewhere_fleet d d'"
  then show ?thesis by (rule elsewhere_kept) (auto simp: generation_grows_def drain_ok_def split: option.splits)
qed (auto intro: generation.request_start_kept [where wait = "\<lambda>n e. e", OF generation.kept_refl]
    generation.start_manifest_kept [where wait = "\<lambda>n e. e", OF generation.kept_refl] generation.dispatch_start_kept
    generation.record_dispatch_kept generation.request_stop_kept generation.report_kept generation.replacement_kept
    generation.release_kept [where wait = "\<lambda>n e. e", OF generation.kept_refl] generation.sync_batch_kept generation.sweep_kept)

lemma generation_steps: "(fleet_step True)\<^sup>*\<^sup>* d d' \<Longrightarrow> fleet_kept generation_grows d d'"
  by (induction rule: rtranclp_induct) (auto intro: generation_step generation.kept_trans)

lemma placement_run: "(fleet_step solo)\<^sup>*\<^sup>* d d' \<Longrightarrow> fleet_kept stays_placed d d'"
  by (induction rule: rtranclp_induct) (auto intro: placement_step placement.kept_trans)

end
