(* ===== verification/LifecycleGuarantees.thy ===== *)
theory LifecycleGuarantees
  imports LifecycleSafety
begin

text \<open>
  What the lifecycle of agents promises: an agent is only ever started on the machine it is placed on,
  reservations fit the machine, reports of other processes change nothing, and generations fence.
  Two lemmas show where the code does less than it means to: a refused agent takes its slot anyway,
  and a drain promoted late lowers a generation.
\<close>

abbreviation calm :: "nat \<Rightarrow> fleet \<Rightarrow> fleet" where
  "calm \<equiv> \<lambda>n e. e"

section \<open>A sample fleet\<close>

definition sample_fa :: fleet_agent where
  "sample_fa = \<lparr>fa_id = ''a1'', fa_engine = ''codex-cli'', fa_provider = None, fa_base_url = None, fa_placed = None,
     fa_desired = ''idle'', fa_actual = ''idle'', fa_pid = None, fa_started = None, fa_heartbeat = None, fa_crash = None,
     fa_code = None, fa_detail = PNone, fa_since = None, fa_generation = 5, fa_token = None, fa_expires = None,
     fa_delivery = None, fa_legacy = None, fa_pending = None, fa_requested = None, fa_deadline = None, fa_hash = None,
     fa_pending_hash = None\<rparr>"

definition sample_machine :: fleet_machine where
  "sample_machine = \<lparr>mc_id = ''m1'', mc_status = ''online'', mc_max = 1, mc_labels = [],
     mc_capabilities = [GENERATION_REPORT_CAPABILITY]\<rparr>"

definition sample_fleet :: "fleet_agent list \<Rightarrow> fleet" where
  "sample_fleet as = \<lparr>fl_agents = as, fl_machines = [sample_machine], fl_engines = [(''m1'', ''codex-cli'')],
     fl_members = [\<lparr>p_id = ''p1'', p_room = ''r1'', p_agent = Some ''a1'', p_role = ''member''\<rparr>], fl_rooms = [],
     fl_turns = [], fl_attempts = [], fl_results = [], fl_events = [], fl_sent = []\<rparr>"

definition sample_lifecycle :: lifecycle_env where
  "sample_lifecycle = \<lparr>le_connected = [''m1''], le_lease = None, le_drain = None, le_direct = (\<lambda>a d. True),
     le_native = (\<lambda>a d. True), le_manifest = (\<lambda>a s rs d. s)\<rparr>"

lemmas sample_fleet_defs = sample_fa_def sample_machine_def sample_fleet_def sample_lifecycle_def

lemmas start_code = request_start_def start_refusal_def removed_engine_def REMOVED_ENGINES_def pi_provider_error_def PI_ENGINE_def
  lease_active_def rooms_of_def start_query_def start_capabilities_def direct_endpoint_def pi_native_def claim_machine_def
  claim_matches_def claim_values_def retry_same_generation_def RETRYABLE_DELIVERY_STATES_def CAPACITY_STATES_def
  lease_expiry_def seconds_of_def reserve_machine_for_def select_machine_for_def candidate_rows_def suitable_def agent_count_def
  occupies_def sort_by_def upd_agent_def flush_def merge_row_def keep_col_def log_event_def

definition sample_claim :: start_claim where
  "sample_claim = \<lparr>sc_agent = ''a1'', sc_machine = ''m1'', sc_generation = 6, sc_token = ''t1'', sc_retry = False, sc_rooms = [''r1'']\<rparr>"

lemma sample_start:
  "request_start 2 sample_lifecycle calm 100 ''t1'' ''a1'' (sample_fleet [sample_fa]) =
     Some (Some sample_claim,
       sample_fleet [sample_fa\<lparr>fa_placed := Some ''m1'', fa_desired := ''running'', fa_actual := ''pending'', fa_generation := 6,
         fa_started := Some 100, fa_token := Some ''t1'', fa_expires := Some 120000100, fa_delivery := Some ''dispatching''\<rparr>])"
  by (simp add: sample_fleet_defs start_code sample_claim_def numeral_2_eq_2)

section \<open>Reservations\<close>

text \<open>
  C12. A reservation of a slot ends, however many other transactions come in between: with more
  fuel than there are machines the loop returns. A machine it returns is, in the state in which its
  row lock is held, online and connected, supports the engine and the capabilities, is the requested
  one if one was requested, and has a free slot beside the agent itself. Undisturbed it refuses only
  when no machine is suitable.
\<close>

theorem reserved_machine_fits:
  assumes "finite M" and "\<And>n e. mc_id ` set (fl_machines e) \<subseteq> M \<Longrightarrow> mc_id ` set (fl_machines (wait n e)) \<subseteq> M"
    and "mc_id ` set (fl_machines d) \<subseteq> M" and "card M < fuel"
  shows "\<exists>mo d' n'. reserve_machine_for fuel wait q n d = Some (mo, d', n')
    \<and> (\<forall>m. mo = Some m \<longrightarrow> fits q d' m)
    \<and> (mo = None \<and> wait = calm \<longrightarrow> (\<forall>m \<in> set (candidate_rows (q\<lparr>pq_labels := []\<rparr>) d). \<not> suitable (q\<lparr>pq_labels := []\<rparr>) d m))"
proof -
  let ?q = "q\<lparr>pq_labels := []\<rparr>"
  obtain mo d' n' where r: "reserve_machine_for fuel wait q n d = Some (mo, d', n')"
    using reserve_from_total [where attempted = "[]" and fuel = fuel and q = ?q and n = n and wait = wait, OF assms(1,2,3)] assms(4)
    by (auto simp: reserve_machine_for_def)
  have "select_machine_for ?q d = None" if "mo = None" "wait = calm"
  proof (rule ccontr)
    assume "select_machine_for ?q d \<noteq> None"
    then obtain m where m: "select_machine_for ?q d = Some m" by blast
    note c = select_machineD [OF m]
    have "m \<in> set (candidate_rows (?q\<lparr>pq_machine := Some (mc_id m)\<rparr>) d)" using candidate_rowsD [OF c(1)] by (intro candidate_rowsI) auto
    moreover have "suitable (?q\<lparr>pq_machine := Some (mc_id m)\<rparr>) d m" using c(2) by (simp add: suitable_def)
    ultimately have "select_machine_for (?q\<lparr>pq_machine := Some (mc_id m)\<rparr>) d \<noteq> None"
      by (auto simp: select_machine_for_def find_None_iff)
    then show False using r m that assms(4) by (cases fuel) (auto simp: reserve_machine_for_def Let_def split: option.splits)
  qed
  then show ?thesis using r reserve_fits [of fuel wait q n d] by (auto simp: select_machine_for_def find_None_iff)
qed

lemma reserved_machine_fits_witness:
  "\<exists>mo d' n'. reserve_machine_for 2 calm (start_query sample_lifecycle sample_fa) 0 (sample_fleet [sample_fa]) = Some (mo, d', n')
    \<and> (\<forall>m. mo = Some m \<longrightarrow> fits (start_query sample_lifecycle sample_fa) d' m)"
  using reserved_machine_fits [of "{''m1''}" calm "sample_fleet [sample_fa]" 2 "start_query sample_lifecycle sample_fa" 0]
  by (auto simp: sample_fleet_defs)

section \<open>Placement\<close>

lemma claim_places:
  assumes "request_start fuel env wait now tok aid d = Some (Some c, d1)"
  shows "\<exists>a. fleet_agent_of aid d1 = Some a \<and> fa_placed a = Some (sc_machine c)"
    and "fleet_agent_of aid d = Some a0 \<Longrightarrow> fa_placed a0 = Some mid \<Longrightarrow> sc_machine c = mid"
proof -
  obtain a where a: "fleet_agent_of aid d = Some a" using assms by (auto simp: request_start_def split: option.splits)
  have id: "fa_id a = aid" using a by (rule get_agent_id)
  have m: "\<exists>b. fleet_agent_of aid d1 = Some b \<and> fa_placed b = Some (mc_id m)" "sc_machine c = mc_id m"
    if "claim_machine env wait now tok a rooms (Some m) n e = (Some c, d1)" "fa_placed a \<noteq> None \<Longrightarrow> fa_placed a = Some (mc_id m)" for m n e rooms
    using that id
    by (auto simp: claim_machine_def Let_def get_upd_agent claim_values_def claim_matches_def retry_same_generation_def split: option.splits if_splits)
  have go: "\<exists>m n e. claim_machine env wait now tok a (rooms_of aid d) (Some m) n e = (Some c, d1) \<and> (fa_placed a \<noteq> None \<longrightarrow> fa_placed a = Some (mc_id m))"
  proof -
    have r: "\<exists>m n e. claim_machine env wait now tok a (rooms_of aid d) (Some m) n e = (Some c, d1) \<and> (fa_placed a \<noteq> None \<longrightarrow> fa_placed a = Some (mc_id m))"
      if "reserve_machine_for fuel wait (start_query env a) 0 d = Some (mo, e, n)" "claim_machine env wait now tok a (rooms_of aid d) mo n e = (Some c, d1)" for mo e n
    proof -
      note t = that
      obtain m where "mo = Some m" using t(2) by (auto simp: claim_machine_def split: option.splits if_splits)
      then show ?thesis using t reserve_fits [of fuel wait "start_query env a" 0 d m e n] by (auto simp: fits_def start_query_def)
    qed
    have k: "mc_id m = mid" if "get_machine mid d = Some m" for m mid using that by (rule tget_Some_key)
    show ?thesis using assms a r
      by (auto simp: request_start_def Let_def split: option.splits if_splits prod.splits) (metis k)+
  qed
  then obtain m n e where g: "claim_machine env wait now tok a (rooms_of aid d) (Some m) n e = (Some c, d1)"
    "fa_placed a \<noteq> None \<Longrightarrow> fa_placed a = Some (mc_id m)" by blast
  show "\<exists>a. fleet_agent_of aid d1 = Some a \<and> fa_placed a = Some (sc_machine c)" using m [OF g] by simp
  assume "fleet_agent_of aid d = Some a0" "fa_placed a0 = Some mid"
  then show "sc_machine c = mid" using m(2) [OF g] g(2) a by simp
qed

text \<open>
  C13. The server never moves an agent: after a start was claimed on a machine, whatever transactions
  of the lifecycle interleave (stops, failed and repeated starts, reports, restarts, sweeps), the agent
  stays placed on that machine, every later claim names it, and every frame a start dispatches goes
  to it.
\<close>

theorem placed_agent_stays:
  assumes "request_start fuel env wait now tok aid d = Some (Some c, d1)" and "(fleet_step solo)\<^sup>*\<^sup>* d1 d2"
  shows "(\<exists>a. fleet_agent_of aid d2 = Some a \<and> fa_placed a = Some (sc_machine c))
    \<and> (\<forall>fuel' env' wait' now' tok' c' d3. request_start fuel' env' wait' now' tok' aid d2 = Some (Some c', d3) \<longrightarrow> sc_machine c' = sc_machine c)
    \<and> (\<forall>c' wait' fr. sc_agent c' = aid \<and> dispatch_start wait' c' fr d2 \<noteq> d2 \<longrightarrow> sc_machine c' = sc_machine c)"
proof -
  obtain a1 where a1: "fleet_agent_of aid d1 = Some a1" "fa_placed a1 = Some (sc_machine c)" using claim_places(1) [OF assms(1)] by blast
  obtain a2 where a2: "fleet_agent_of aid d2 = Some a2" "stays_placed a1 a2"
    using placement_run [OF assms(2)] a1(1) unfolding fleet_kept_def by blast
  have p: "fa_placed a2 = Some (sc_machine c)" using a1(2) a2(2) by (simp add: stays_placed_def)
  have "sc_machine c' = sc_machine c" if "sc_agent c' = aid" "dispatch_start wait' c' fr d2 \<noteq> d2" for c' wait' fr
    using that a2(1) p by (auto simp: dispatch_start_def dispatch_claim_is_current_def owns_dispatch_def split: if_splits)
  then show ?thesis using a2(1) p claim_places(2) by blast
qed

lemma placed_agent_stays_witness:
  "\<exists>d1 a. request_start 2 sample_lifecycle calm 100 ''t1'' ''a1'' (sample_fleet [sample_fa]) = Some (Some sample_claim, d1)
     \<and> fleet_agent_of ''a1'' (snd (request_stop ''a1'' d1)) = Some a \<and> fa_placed a = Some ''m1''"
  using placed_agent_stays [OF sample_start r_into_rtranclp [of "fleet_step True", OF fleet_step.stop [where aid = "''a1''"]]] sample_start
  by (auto simp: sample_claim_def)

section \<open>Reports\<close>

lemma merge_self:
  assumes "fa_id b = fa_id a" "fa_engine b = fa_engine a" "fa_provider b = fa_provider a" "fa_base_url b = fa_base_url a"
  shows "merge_row a b a = b"
  using assms by (simp add: merge_row_def)

text \<open>What one entry makes of the row of its agent, and what the end of a report makes of an absent one.\<close>

definition reported_row :: "instant \<Rightarrow> bool \<Rightarrow> string \<Rightarrow> state_report \<Rightarrow> fleet_agent \<Rightarrow> fleet_agent" where
  "reported_row now required mid e a =
     (case report_accepted required mid e a of None \<Rightarrow> a | Some b \<Rightarrow> apply_report now e b)"

lemma report_entry_row:
  "fleet_agent_of aid (report_entry calm now q mid n e d) =
     map_option (\<lambda>a. if sr_agent e = aid \<and> aid \<noteq> [] then reported_row now q mid e a else a) (fleet_agent_of aid d)"
proof (cases "sr_agent e = aid \<and> aid \<noteq> [] \<and> fleet_agent_of aid d \<noteq> None")
  case False
  then show ?thesis
    by (cases "fleet_agent_of aid d") (auto simp: report_entry_def flush_def get_upd_agent dest: get_agent_id split: option.split)
next
  case True
  then obtain a where a: "fleet_agent_of aid d = Some a" "sr_agent e = aid" "aid \<noteq> []" by blast
  have id: "fa_id a = aid" using a(1) by (rule get_agent_id)
  have merged: "merge_row a (apply_report now e b) a = apply_report now e b" if "report_accepted q mid e a = Some b" for b
    by (rule merge_self) (use report_cols [OF that] in \<open>simp_all add: apply_report_cols\<close>)
  show ?thesis using a id
    by (simp add: report_entry_def reported_row_def flush_def get_upd_agent merged split: option.split)
qed

lemma reported_row_cols:
  "fa_placed (reported_row now q mid e a) = fa_placed a" "fa_generation (reported_row now q mid e a) = fa_generation a"
  "fa_desired (reported_row now q mid e a) = fa_desired a" "fa_id (reported_row now q mid e a) = fa_id a"
  by (cases "report_accepted q mid e a"; simp add: reported_row_def apply_report_cols report_cols)+

lemma reported_row_stopping:
  assumes "fa_desired a = ''stopped''" "fa_actual a \<notin> {''running'', ''starting''}"
  shows "fa_actual (reported_row now q mid e a) \<notin> {''running'', ''starting''}"
proof (cases "report_accepted q mid e a")
  case (Some b)
  then show ?thesis using assms report_cols [OF Some]
    by (auto simp: reported_row_def apply_report_def reported_state_def ignored_while_stopping_def reported_availability_def row_writers Let_def
        split: option.split)
qed (use assms in \<open>simp add: reported_row_def\<close>)

definition report_keeps :: "fleet_agent \<Rightarrow> fleet_agent \<Rightarrow> bool" where
  "report_keeps a a' \<longleftrightarrow> fa_placed a' = fa_placed a \<and> fa_generation a' = fa_generation a \<and> fa_desired a' = fa_desired a
     \<and> (fa_desired a = ''stopped'' \<and> fa_actual a \<notin> {''running'', ''starting''} \<longrightarrow> fa_actual a' \<notin> {''running'', ''starting''})"

lemma report_keeps_row: "report_keeps a (reported_row now q mid e a)"
  using reported_row_stopping [of a now q mid e] by (auto simp: report_keeps_def reported_row_cols)

text \<open>An entry is about another process: another machine's, or another generation's.\<close>

definition foreign_report :: "string \<Rightarrow> fleet_agent \<Rightarrow> state_report \<Rightarrow> bool" where
  "foreign_report mid a e \<longleftrightarrow> sr_agent e \<noteq> fa_id a \<or> fa_placed a \<noteq> Some mid
     \<or> (\<exists>g. sr_generation e = Some g \<and> g \<noteq> fa_generation a)"

lemma entries_row:
  assumes "fleet_agent_of aid d = Some a"
  shows "\<exists>a'. fleet_agent_of aid (each (report_entry calm now q mid) n es d) = Some a' \<and> report_keeps a a'
    \<and> (list_all (foreign_report mid a) es \<longrightarrow> a' = a)"
  using assms
proof (induction es arbitrary: n d a)
  case (Cons e es)
  let ?a1 = "if sr_agent e = aid \<and> aid \<noteq> [] then reported_row now q mid e a else a"
  obtain a' where a': "fleet_agent_of aid (each (report_entry calm now q mid) (Suc n) es (report_entry calm now q mid n e d)) = Some a'"
    "report_keeps ?a1 a'" "list_all (foreign_report mid ?a1) es \<longrightarrow> a' = ?a1"
    using Cons.IH [of "report_entry calm now q mid n e d" ?a1] Cons.prems by (auto simp: report_entry_row)
  have "report_keeps a ?a1" using report_keeps_row by (simp add: report_keeps_def)
  then have "report_keeps a a'" using a'(2) unfolding report_keeps_def by metis
  moreover have "?a1 = a" if "foreign_report mid a e"
    using that get_agent_id [OF Cons.prems] by (auto simp: foreign_report_def reported_row_def report_accepted_def)
  ultimately show ?case using a' by auto
qed (simp add: report_keeps_def)

lemma report_absent_row:
  "fleet_agent_of aid (report_absent calm mid n x d) =
     map_option (\<lambda>a. if fa_id x = aid \<and> fa_desired x = ''stopped'' \<and> fa_actual x \<noteq> ''stopped'' then merge_row x (absent_stopped x) a else a)
       (fleet_agent_of aid d)"
  by (cases "fleet_agent_of aid d") (auto simp: report_absent_def flush_def get_upd_agent)

lemma absent_rows:
  assumes "fleet_agent_of aid d = Some a"
  shows "\<exists>a'. fleet_agent_of aid (each (report_absent calm mid) n xs d) = Some a' \<and> report_keeps a a'
    \<and> ((\<forall>x \<in> set xs. fa_id x = aid \<longrightarrow> fa_desired x \<noteq> ''stopped'') \<longrightarrow> a' = a)"
  using assms
proof (induction xs arbitrary: n d a)
  case (Cons x xs)
  let ?a1 = "if fa_id x = aid \<and> fa_desired x = ''stopped'' \<and> fa_actual x \<noteq> ''stopped'' then merge_row x (absent_stopped x) a else a"
  obtain a' where a': "fleet_agent_of aid (each (report_absent calm mid) (Suc n) xs (report_absent calm mid n x d)) = Some a'"
    "report_keeps ?a1 a'" "(\<forall>x \<in> set xs. fa_id x = aid \<longrightarrow> fa_desired x \<noteq> ''stopped'') \<longrightarrow> a' = ?a1"
    using Cons.IH [of "report_absent calm mid n x d" ?a1 "Suc n"] Cons.prems by (auto simp: report_absent_row)
  have "report_keeps a ?a1" by (auto simp: report_keeps_def row_writers keep_col_def)
  then have "report_keeps a a'" using a'(2) unfolding report_keeps_def by metis
  then show ?case using a' by auto
qed (simp add: report_keeps_def)

lemma entry_ids: "map fa_id (fl_agents (report_entry calm now q mid n e d)) = map fa_id (fl_agents d)"
  by (auto simp: report_entry_def flush_def upd_agent_def map_key_tupd split: option.split)

lemma entries_ids: "map fa_id (fl_agents (each (report_entry calm now q mid) n es d)) = map fa_id (fl_agents d)"
  by (induction es arbitrary: n d) (simp_all add: entry_ids)



section \<open>Generations\<close>

text \<open>
  C15. Generations fence processes: in every run of whole transactions in which no restart overtakes a
  pending drain, the generation of an agent never decreases. A stop after the run publishes a
  generation above every earlier one, and from then on no report of an earlier process is accepted.
\<close>

theorem generation_fences:
  assumes "(fleet_step True)\<^sup>*\<^sup>* d d'" and "fleet_agent_of aid d = Some a" and "drain_ok a"
  shows "\<exists>a' s a'' d''. fleet_agent_of aid d' = Some a' \<and> fa_generation a \<le> fa_generation a'
    \<and> request_stop aid d' = (s, d'') \<and> fleet_agent_of aid d'' = Some a'' \<and> fa_desired a'' = ''stopped''
    \<and> s = Some (fa_placed a', fa_generation a'') \<and> fa_generation a' < fa_generation a''
    \<and> (\<forall>required mid e g. sr_generation e = Some g \<and> g \<le> fa_generation a' \<longrightarrow> report_accepted required mid e a'' = None)"
proof -
  obtain a' where a': "fleet_agent_of aid d' = Some a'" "fa_generation a \<le> fa_generation a'"
    using generation_steps [OF assms(1)] assms(2,3) unfolding fleet_kept_def generation_grows_def by blast
  have "fleet_agent_of aid (snd (request_stop aid d')) = Some (stop_values a')"
    using a'(1) by (simp add: request_stop_def get_upd_agent stop_values_def row_writers)
  moreover have "request_stop aid d' = (Some (fa_placed a', fa_generation (stop_values a')), snd (request_stop aid d'))"
    using a'(1) by (simp add: request_stop_def stop_values_def row_writers)
  moreover have g: "fa_desired (stop_values a') = ''stopped''" "fa_generation a' < fa_generation (stop_values a')"
    by (simp_all add: stop_values_def row_writers)
  moreover have "report_accepted required mid e (stop_values a') = None"
    if "sr_generation e = Some k \<and> k \<le> fa_generation a'" for required mid e k
    using that g(2) by (simp add: report_accepted_def)
  ultimately show ?thesis using a' by blast
qed

lemma generation_fences_witness:
  "\<exists>a'. fleet_agent_of ''a1'' (snd (request_stop ''a1'' (sample_fleet [sample_fa]))) = Some a' \<and> 5 \<le> fa_generation a'"
  using generation_fences [OF r_into_rtranclp [of "fleet_step True", OF fleet_step.stop [where aid = "''a1''" and d = "sample_fleet [sample_fa]"]],
      where aid = "''a1''" and a = sample_fa]
  by (auto simp: sample_fleet_def sample_fa_def drain_ok_def)

section \<open>Where the code falls short\<close>

text \<open>
  An agent that lost its slot is refused by its full machine, which marks it pending; pending counts as
  a taken slot, so the next start skips the reservation and both agents run on a machine for one.
\<close>

definition crashed_fa :: fleet_agent where
  "crashed_fa = sample_fa\<lparr>fa_placed := Some ''m1'', fa_desired := ''running'', fa_actual := ''crashed''\<rparr>"

definition other_fa :: fleet_agent where
  "other_fa = sample_fa\<lparr>fa_id := ''a2'', fa_placed := Some ''m1'', fa_desired := ''running'', fa_actual := ''running''\<rparr>"

lemma refused_agent_starts:
  "\<exists>d1 c d2. request_start 2 sample_lifecycle calm 100 ''t1'' ''a1'' (sample_fleet [crashed_fa, other_fa]) = Some (None, d1)
     \<and> request_start 2 sample_lifecycle calm 200 ''t2'' ''a1'' d1 = Some (Some c, d2)
     \<and> mc_max sample_machine < agent_count (start_query sample_lifecycle (sample_fa\<lparr>fa_id := ''a3''\<rparr>)) ''m1'' d2"
proof -
  let ?busy = "crashed_fa\<lparr>fa_actual := ''pending'', fa_crash := Some (''the agent'' @ [CHR 0x27] @ ''s machine has no capacity left''),
    fa_code := Some ''machine_busy'', fa_detail := PDict [(''machine_id'', PStr ''m1'')], fa_since := Some 100\<rparr>"
  have one: "request_start 2 sample_lifecycle calm 100 ''t1'' ''a1'' (sample_fleet [crashed_fa, other_fa]) = Some (None, sample_fleet [?busy, other_fa])"
    by (simp add: sample_fleet_defs start_code crashed_fa_def other_fa_def numeral_2_eq_2 machine_busy_def mark_unavailable_def)
  have "\<exists>c d2. request_start 2 sample_lifecycle calm 200 ''t2'' ''a1'' (sample_fleet [?busy, other_fa]) = Some (Some c, d2)
     \<and> mc_max sample_machine < agent_count (start_query sample_lifecycle (sample_fa\<lparr>fa_id := ''a3''\<rparr>)) ''m1'' d2"
    by (simp add: sample_fleet_defs start_code crashed_fa_def other_fa_def numeral_2_eq_2)
  then show ?thesis using one by blast
qed

text \<open>
  A drain is pending for generation 6 and its leases end; two changes of configuration restart at once
  as 6 and 7 without clearing it, and its promotion then sets the generation back to 6.
\<close>

definition draining_fa :: fleet_agent where
  "draining_fa = sample_fa\<lparr>fa_placed := Some ''m1'', fa_desired := ''running'', fa_actual := ''running'', fa_hash := Some ''h0'',
     fa_pending := Some 6, fa_pending_hash := Some ''h1''\<rparr>"

definition manifest_env :: "string \<Rightarrow> lifecycle_env" where
  "manifest_env h = sample_lifecycle\<lparr>le_manifest := (\<lambda>a s rs d. h)\<rparr>"

lemmas bump_code = bump_generation_def build_sync_frame_def removed_engine_def REMOVED_ENGINES_def pi_provider_error_def PI_ENGINE_def
  secrets_ok_def direct_endpoint_def pi_native_def rooms_of_def active_leases_def upd_agent_def flush_def merge_row_def keep_col_def
  remap_attempts_def manifest_env_def log_event_def

lemma late_promotion_lowers:
  "\<exists>d1 d2 d3 f1 f2 f3. bump_generation (manifest_env ''h2'') calm 1 ''a1'' (sample_fleet [draining_fa]) = (f1, d1)
     \<and> bump_generation (manifest_env ''h3'') calm 2 ''a1'' d1 = (f2, d2)
     \<and> release_generation_drain (manifest_env ''h3'') calm 3 ''a1'' d2 = (True, f3, d3)
     \<and> map fa_generation (fl_agents d1 @ fl_agents d2 @ fl_agents d3) = [6, 7, 6]"
  by (simp add: sample_fleet_defs bump_code draining_fa_def release_generation_drain_def promote_def no_drain_def)

end
