(* ===== verification/GoalLoop.thy ===== *)
theory GoalLoop
  imports TurnTables
begin

text \<open>
  Goals, the recurring duties of agents: the rules of their triggers (goals/policy.py), the claim of a
  due slot and the tick (goals/scheduler.py), firing and completion (goals/executor.py), the sweep of
  stuck tasks (goals/sweeper.py) and the owner's run, pause and resume (api/v1/goals.py).

  \<open>croniter\<close> and the time zone data are parameters: the next fire time of a cron expression in a zone,
  and which expressions and zones exist. \<open>wait n\<close> is what other transactions have committed when the
  \<open>n\<close>-th write of a transaction has its lock. Messages are the list of announced tasks; the hook of a
  campaign's task is a parameter of the sweep.
\<close>

section \<open>Rows\<close>

record goal_row =
  go_id :: string
  go_agent :: string
  go_owner :: string
  go_room :: "string option"
  go_title :: string
  go_spec :: string
  go_status :: string
  go_type :: string
  go_config :: "(string \<times> pyval) list"
  go_materialize :: string
  go_failures :: int
  go_next :: "instant option"
  go_last :: "instant option"
  go_claimed :: "instant option"
  go_updated :: instant

text \<open>The schedule context of a task; its overlap policy is always \<open>wait\<close>.\<close>

record schedule_context =
  sx_goal :: string
  sx_slot :: "instant option"
  sx_timezone :: string
  sx_source :: string

record goal_task = task_row +
  gt_goal :: "string option"
  gt_started :: "instant option"
  gt_interesting :: bool
  gt_silent :: bool
  gt_applied :: bool
  gt_context :: "schedule_context option"

record goal_db =
  gd_goals :: "goal_row list"
  gd_tasks :: "goal_task list"
  gd_rooms :: "room_row list"
  gd_members :: "participant_row list"
  gd_turns :: "run_turn list"
  gd_announced :: "string list"

abbreviation get_goal :: "string \<Rightarrow> goal_db \<Rightarrow> goal_row option" where
  "get_goal gid d \<equiv> tget go_id gid (gd_goals d)"

abbreviation get_goal_task :: "string \<Rightarrow> goal_db \<Rightarrow> goal_task option" where
  "get_goal_task tid d \<equiv> tget k_id tid (gd_tasks d)"

definition upd_goal :: "string \<Rightarrow> (goal_row \<Rightarrow> goal_row) \<Rightarrow> goal_db \<Rightarrow> goal_db" where
  "upd_goal gid f d = d\<lparr>gd_goals := tupd go_id gid f (gd_goals d)\<rparr>"

definition upd_goal_task :: "string \<Rightarrow> (goal_task \<Rightarrow> goal_task) \<Rightarrow> goal_db \<Rightarrow> goal_db" where
  "upd_goal_task tid f d = d\<lparr>gd_tasks := tupd k_id tid f (gd_tasks d)\<rparr>"

text \<open>The exceptions of a fire: the policy's, the executor's, the strict delivery's with its code, the
  database's and the overflow of a date.\<close>

datatype goal_exc = InvalidTriggerConfig | GoalExecutionError | ScheduledEventError string | GoalIntegrityError | GoalOverflow | GoalKeyError

section \<open>Triggers\<close>

definition MIN_INTERVAL_SECONDS :: int where
  "MIN_INTERVAL_SECONDS = 60"

definition GOAL_FAILURE_PAUSE_THRESHOLD :: int where
  "GOAL_FAILURE_PAUSE_THRESHOLD = 3"

definition TASK_PICKUP_TIMEOUT_SECONDS :: int where
  "TASK_PICKUP_TIMEOUT_SECONDS = 300"

definition TASK_EXECUTION_TIMEOUT_SECONDS :: int where
  "TASK_EXECUTION_TIMEOUT_SECONDS = 600"

record goal_env =
  ge_zone :: "string \<Rightarrow> bool"
  ge_cron :: "string \<Rightarrow> bool"
  ge_next :: "string \<Rightarrow> string \<Rightarrow> instant \<Rightarrow> instant"

definition trigger_timezone :: "goal_env \<Rightarrow> (string \<times> pyval) list \<Rightarrow> goal_exc + string" where
  "trigger_timezone env config =
     (case dget_or config ''timezone'' (PStr ''UTC'') of
        PStr s \<Rightarrow> if strip s = [] \<or> \<not> ge_zone env s then Inl InvalidTriggerConfig else Inr s
      | _ \<Rightarrow> Inl InvalidTriggerConfig)"

text \<open>\<open>isinstance(v, int)\<close>, which holds for booleans too.\<close>

fun int_value :: "pyval \<Rightarrow> int option" where
  "int_value (PInt n) = Some n"
| "int_value (PBool b) = Some (if b then 1 else 0)"
| "int_value _ = None"

definition valid_trigger :: "goal_env \<Rightarrow> instant \<Rightarrow> string \<Rightarrow> (string \<times> pyval) list \<Rightarrow> bool" where
  "valid_trigger env now ty config \<longleftrightarrow>
     (case trigger_timezone env config of
        Inl _ \<Rightarrow> False
      | Inr _ \<Rightarrow>
          if ty = ''cron'' then
            (case dget config ''cron'' of
               PStr c \<Rightarrow> strip c \<noteq> [] \<and> ge_cron env c
                 \<and> (let first = ge_next env c ''UTC'' now; second = ge_next env c ''UTC'' first
                    in MIN_INTERVAL_SECONDS * 1000000 \<le> second - first)
             | _ \<Rightarrow> False)
          else if ty = ''interval'' then
            (case int_value (dget config ''interval_seconds'') of None \<Rightarrow> False | Some n \<Rightarrow> MIN_INTERVAL_SECONDS \<le> n)
          else ty = ''manual'')"

definition validate_trigger_config :: "goal_env \<Rightarrow> instant \<Rightarrow> string \<Rightarrow> (string \<times> pyval) list \<Rightarrow> goal_exc + unit" where
  "validate_trigger_config env now ty config = (if valid_trigger env now ty config then Inr () else Inl InvalidTriggerConfig)"

text \<open>The last instant a \<open>datetime\<close> can hold, the end of the year 9999.\<close>

definition MAX_INSTANT :: instant where
  "MAX_INSTANT = 253402300799999999"

definition compute_next_run_at :: "goal_env \<Rightarrow> string \<Rightarrow> (string \<times> pyval) list \<Rightarrow> instant \<Rightarrow> goal_exc + instant option" where
  "compute_next_run_at env ty config after =
     bindE (trigger_timezone env config) (\<lambda>tz.
       if ty = ''cron'' then
         (case dget config ''cron'' of PStr c \<Rightarrow> Inr (Some (ge_next env c tz after)) | _ \<Rightarrow> Inl GoalKeyError)
       else if ty = ''interval'' then
         (case int_value (dget config ''interval_seconds'') of
            None \<Rightarrow> Inl GoalKeyError
          | Some n \<Rightarrow> if MAX_INSTANT < after + n * 1000000 then Inl GoalOverflow else Inr (Some (after + n * 1000000)))
       else if ty = ''manual'' then Inr None
       else Inl InvalidTriggerConfig)"

datatype materialize_decision = KeepTask | HideTask

definition materialize_decision_of :: "string \<Rightarrow> string \<Rightarrow> bool \<Rightarrow> materialize_decision" where
  "materialize_decision_of mode final interesting =
     (if mode = ''full'' then KeepTask else if final = ''failed'' then KeepTask else if interesting then KeepTask else HideTask)"

section \<open>Firing\<close>

definition goal_open_run :: "string \<Rightarrow> goal_db \<Rightarrow> bool" where
  "goal_open_run gid d \<longleftrightarrow> list_ex (\<lambda>t. gt_goal t = Some gid \<and> k_status t \<notin> set TASK_TERMINAL_STATUSES) (gd_tasks d)"

text \<open>\<open>int(slot.timestamp())\<close>: whole seconds, towards zero.\<close>

definition epoch_seconds :: "instant \<Rightarrow> int" where
  "epoch_seconds t = (if 0 \<le> t then t div 1000000 else - ((- t) div 1000000))"

definition slot_key :: "string \<Rightarrow> instant \<Rightarrow> string" where
  "slot_key gid slot = gid @ '':'' @ int_str (epoch_seconds slot)"

definition fired_task :: "goal_row \<Rightarrow> room_row \<Rightarrow> participant_row \<Rightarrow> string \<Rightarrow> string \<Rightarrow> string option \<Rightarrow> instant option \<Rightarrow> string \<Rightarrow> instant \<Rightarrow> goal_task" where
  "fired_task g room p tid source key slot tz now =
     \<lparr>k_id = tid, k_room = r_id room, k_title = go_title g, k_spec = Some (go_spec g), k_status = Todo, k_error = None,
      k_finished = None, k_assignee = Some (p_id p), k_assigned_at = Some now, k_created_by = Some (go_owner g),
      k_triggered_by = source, k_idem_key = key, k_campaign = None, k_execution = None, k_input_rev = None,
      gt_goal = Some (go_id g), gt_started = Some now, gt_interesting = False, gt_silent = False, gt_applied = False,
      gt_context = Some \<lparr>sx_goal = go_id g, sx_slot = slot, sx_timezone = tz, sx_source = source\<rparr>\<rparr>"

definition trigger_goal ::
  "goal_env \<Rightarrow> instant \<Rightarrow> string \<Rightarrow> string \<Rightarrow> string option \<Rightarrow> instant option \<Rightarrow> goal_row \<Rightarrow> goal_db \<Rightarrow> goal_exc + goal_task \<times> goal_db" where
  "trigger_goal env now tid source key slot g d =
     (case go_room g of
        None \<Rightarrow> Inl GoalExecutionError
      | Some rid \<Rightarrow>
          (case tget r_id rid (gd_rooms d) of
             None \<Rightarrow> Inl GoalExecutionError
           | Some room \<Rightarrow>
               if rid = [] \<or> r_archived room \<noteq> None then Inl GoalExecutionError
               else
                 (case find (\<lambda>p. p_room p = rid \<and> p_agent p = Some (go_agent g)) (gd_members d) of
                    None \<Rightarrow> Inl GoalExecutionError
                  | Some p \<Rightarrow>
                      bindE (trigger_timezone env (go_config g)) (\<lambda>tz.
                        if key \<noteq> None \<and> key \<in> k_idem_key ` set (gd_tasks d) then Inl GoalIntegrityError
                        else
                          let t = fired_task g room p tid source key slot tz now in
                          Inr (t, upd_goal (go_id g) (\<lambda>r. r\<lparr>go_last := Some now, go_updated := now\<rparr>)
                                (d\<lparr>gd_tasks := gd_tasks d @ [t], gd_announced := gd_announced d @ [tid]\<rparr>))))))"

section \<open>Claiming a slot\<close>

record event_claim =
  ec_task :: "string option"
  ec_duplicate :: bool
  ec_waiting :: bool

definition slot_task :: "string \<Rightarrow> instant \<Rightarrow> goal_db \<Rightarrow> goal_task option" where
  "slot_task gid slot d = find (\<lambda>t. gt_goal t = Some gid \<and> k_idem_key t = Some (slot_key gid slot)) (gd_tasks d)"

definition slot_provenance :: "goal_env \<Rightarrow> string \<Rightarrow> instant \<Rightarrow> goal_task \<Rightarrow> bool" where
  "slot_provenance env gid slot t \<longleftrightarrow>
     (case gt_context t of
        None \<Rightarrow> False
      | Some c \<Rightarrow> ge_zone env (sx_timezone c) \<and> sx_slot c = Some slot \<and> k_triggered_by t = ''scheduler''
          \<and> sx_goal c = gid \<and> sx_source c = ''scheduler'')"

definition scheduled_slot_task :: "goal_env \<Rightarrow> string \<Rightarrow> instant \<Rightarrow> goal_db \<Rightarrow> goal_exc + goal_task option" where
  "scheduled_slot_task env gid slot d =
     (case slot_task gid slot d of
        None \<Rightarrow> Inr None
      | Some t \<Rightarrow> if slot_provenance env gid slot t then Inr (Some t) else Inl (ScheduledEventError ''SCHEDULED_SLOT_CONFLICT''))"

definition replayed :: "goal_task \<Rightarrow> event_claim" where
  "replayed t = \<lparr>ec_task = Some (k_id t), ec_duplicate = True, ec_waiting = False\<rparr>"

definition overlapping :: event_claim where
  "overlapping = \<lparr>ec_task = None, ec_duplicate = False, ec_waiting = True\<rparr>"

text \<open>The checks of a supplied slot before the claim; \<open>Inr None\<close> lets it go on.\<close>

definition check_supplied :: "goal_env \<Rightarrow> instant \<Rightarrow> string \<Rightarrow> instant \<Rightarrow> goal_db \<Rightarrow> goal_exc + event_claim option" where
  "check_supplied env now gid slot d =
     (if now < slot then Inl (ScheduledEventError ''SCHEDULED_SLOT_FUTURE'')
      else case get_goal gid d of
        None \<Rightarrow> Inl (ScheduledEventError ''GOAL_NOT_FOUND'')
      | Some g \<Rightarrow>
          if go_type g \<notin> {''cron'', ''interval''} then Inl (ScheduledEventError ''SCHEDULED_GOAL_REQUIRED'')
          else bindE (scheduled_slot_task env gid slot d) (\<lambda>replay.
            case replay of
              Some t \<Rightarrow> Inr (Some (replayed t))
            | None \<Rightarrow>
                if go_status g \<noteq> ''active'' then Inl (ScheduledEventError ''GOAL_NOT_ACTIVE'')
                else if go_next g \<noteq> Some slot then Inl (ScheduledEventError ''SCHEDULED_SLOT_NOT_CURRENT'')
                else Inr None))"

text \<open>The guarded UPDATE of the claim.\<close>

definition claimable :: "instant \<Rightarrow> goal_row \<Rightarrow> instant \<Rightarrow> goal_db \<Rightarrow> bool" where
  "claimable now g slot d \<longleftrightarrow>
     (case get_goal (go_id g) d of
        None \<Rightarrow> False
      | Some r \<Rightarrow> go_status r = ''active'' \<and> go_next r = Some slot \<and> slot \<le> now \<and> go_updated r = go_updated g
          \<and> \<not> goal_open_run (go_id g) d)"

definition claim_slot :: "instant \<Rightarrow> instant option \<Rightarrow> goal_row \<Rightarrow> goal_row" where
  "claim_slot now next_slot r = r\<lparr>go_next := next_slot, go_last := Some now, go_claimed := Some now, go_updated := now\<rparr>"

definition lost_claim :: "goal_env \<Rightarrow> string \<Rightarrow> instant option \<Rightarrow> goal_db \<Rightarrow> goal_exc + event_claim option" where
  "lost_claim env gid supplied d =
     (case supplied of
        None \<Rightarrow> Inr None
      | Some slot \<Rightarrow> bindE (scheduled_slot_task env gid slot d) (\<lambda>replay.
          case replay of
            Some t \<Rightarrow> Inr (Some (replayed t))
          | None \<Rightarrow>
              (case get_goal gid d of
                 None \<Rightarrow> Inl (ScheduledEventError ''GOAL_NOT_FOUND'')
               | Some r \<Rightarrow>
                   if go_status r \<noteq> ''active'' then Inl (ScheduledEventError ''GOAL_NOT_ACTIVE'')
                   else if go_next r = Some slot \<and> goal_open_run gid d then Inr (Some overlapping)
                   else Inl (ScheduledEventError ''SCHEDULED_SLOT_CHANGED''))))"

text \<open>
  After a won claim: the task that owns the slot already, or a new one. A task another transaction
  inserted meanwhile is the IntegrityError of the unique key, and the claim is rolled back.
\<close>

definition fire_slot ::
  "goal_env \<Rightarrow> (nat \<Rightarrow> goal_db \<Rightarrow> goal_db) \<Rightarrow> instant \<Rightarrow> string \<Rightarrow> instant option \<Rightarrow> goal_row \<Rightarrow> instant \<Rightarrow> instant option \<Rightarrow> goal_db
     \<Rightarrow> (goal_exc + event_claim option) \<times> goal_db" where
  "fire_slot env wait now tid supplied g slot next_slot d =
     (let gid = go_id g in
      case slot_task gid slot d of
        Some t \<Rightarrow>
          if supplied \<noteq> None \<and> \<not> slot_provenance env gid slot t then (Inl (ScheduledEventError ''SCHEDULED_SLOT_CONFLICT''), d)
          else (Inr (Some (replayed t)), upd_goal gid (claim_slot now next_slot) d)
      | None \<Rightarrow>
          let d1 = wait 1 d in
          (case trigger_goal env now tid ''scheduler'' (Some (slot_key gid slot)) (Some slot) g (upd_goal gid (claim_slot now next_slot) d1) of
             Inr (t, d2) \<Rightarrow> (Inr (Some \<lparr>ec_task = Some (k_id t), ec_duplicate = False, ec_waiting = False\<rparr>), d2)
           | Inl GoalIntegrityError \<Rightarrow>
               if supplied = None then (Inl GoalIntegrityError, d1)
               else (case scheduled_slot_task env gid slot d1 of
                       Inl e \<Rightarrow> (Inl e, d1)
                     | Inr None \<Rightarrow> (Inl (ScheduledEventError ''SCHEDULED_SLOT_CONFLICT''), d1)
                     | Inr (Some t) \<Rightarrow> (Inr (Some (replayed t)), d1))
           | Inl e \<Rightarrow> (Inl e, d1)))"

definition claim_due ::
  "goal_env \<Rightarrow> (nat \<Rightarrow> goal_db \<Rightarrow> goal_db) \<Rightarrow> instant \<Rightarrow> string \<Rightarrow> instant option \<Rightarrow> string \<Rightarrow> goal_db \<Rightarrow> (goal_exc + event_claim option) \<times> goal_db" where
  "claim_due env wait now tid supplied gid d =
     (case get_goal gid d of
        None \<Rightarrow> (Inr None, d)
      | Some g \<Rightarrow>
          (case go_next g of
             None \<Rightarrow> (Inr None, d)
           | Some slot \<Rightarrow>
               if go_status g \<noteq> ''active'' then (Inr None, d)
               else if goal_open_run gid d then (Inr (if supplied \<noteq> None then Some overlapping else None), d)
               else
                 (case bindE (validate_trigger_config env now (go_type g) (go_config g))
                         (\<lambda>_. compute_next_run_at env (go_type g) (go_config g) now) of
                    Inl e \<Rightarrow> (Inl e, d)
                  | Inr next_slot \<Rightarrow>
                      let d1 = wait 0 d in
                      if claimable now g slot d1 then fire_slot env wait now tid supplied g slot next_slot d1
                      else (lost_claim env gid supplied d1, d1))))"

definition claim_and_fire ::
  "goal_env \<Rightarrow> (nat \<Rightarrow> goal_db \<Rightarrow> goal_db) \<Rightarrow> instant \<Rightarrow> string \<Rightarrow> instant option \<Rightarrow> string \<Rightarrow> goal_db \<Rightarrow> (goal_exc + event_claim option) \<times> goal_db" where
  "claim_and_fire env wait now tid supplied gid d =
     (case supplied of
        None \<Rightarrow> claim_due env wait now tid supplied gid d
      | Some slot \<Rightarrow>
          (case check_supplied env now gid slot d of
             Inl e \<Rightarrow> (Inl e, d)
           | Inr (Some c) \<Rightarrow> (Inr (Some c), d)
           | Inr None \<Rightarrow> claim_due env wait now tid supplied gid d))"

section \<open>The tick\<close>

definition MAX_GOALS_PER_TICK :: nat where
  "MAX_GOALS_PER_TICK = 25"

definition goal_due :: "instant \<Rightarrow> goal_db \<Rightarrow> goal_row \<Rightarrow> bool" where
  "goal_due now d g \<longleftrightarrow> go_status g = ''active'' \<and> (case go_next g of None \<Rightarrow> False | Some s \<Rightarrow> s \<le> now) \<and> \<not> goal_open_run (go_id g) d"

definition due_goals :: "instant \<Rightarrow> goal_db \<Rightarrow> string list" where
  "due_goals now d = take MAX_GOALS_PER_TICK (map go_id (sort_by (\<lambda>x y. the (go_next x) \<le> the (go_next y)) (filter (goal_due now d) (gd_goals d))))"

definition pauses :: "goal_exc \<Rightarrow> bool" where
  "pauses e \<longleftrightarrow> (case e of InvalidTriggerConfig \<Rightarrow> True | GoalExecutionError \<Rightarrow> True | ScheduledEventError _ \<Rightarrow> True | _ \<Rightarrow> False)"

definition tick_goal :: "goal_env \<Rightarrow> (nat \<Rightarrow> goal_db \<Rightarrow> goal_db) \<Rightarrow> instant \<Rightarrow> string \<Rightarrow> string \<Rightarrow> goal_db \<Rightarrow> goal_db" where
  "tick_goal env wait now tid gid d =
     (case claim_and_fire env wait now tid None gid d of
        (Inr _, d1) \<Rightarrow> d1
      | (Inl e, d1) \<Rightarrow>
          if pauses e then upd_goal gid (\<lambda>g. if go_status g = ''active'' then g\<lparr>go_status := ''paused'', go_updated := now\<rparr> else g) d1
          else d1)"

fun goal_tick_each :: "goal_env \<Rightarrow> (string \<Rightarrow> nat \<Rightarrow> goal_db \<Rightarrow> goal_db) \<Rightarrow> instant \<Rightarrow> (string \<Rightarrow> string) \<Rightarrow> string list \<Rightarrow> goal_db \<Rightarrow> goal_db" where
  "goal_tick_each env wait now tids [] d = d"
| "goal_tick_each env wait now tids (gid # gids) d =
     goal_tick_each env wait now tids gids (tick_goal env (wait gid) now (tids gid) gid d)"

definition goal_tick :: "goal_env \<Rightarrow> (string \<Rightarrow> nat \<Rightarrow> goal_db \<Rightarrow> goal_db) \<Rightarrow> instant \<Rightarrow> (string \<Rightarrow> string) \<Rightarrow> goal_db \<Rightarrow> goal_db" where
  "goal_tick env wait now tids d = goal_tick_each env wait now tids (due_goals now d) d"

section \<open>The owner's commands\<close>

definition manual_run_key :: "instant \<Rightarrow> goal_row \<Rightarrow> string" where
  "manual_run_key now g =
     (case go_next g of
        Some s \<Rightarrow> slot_key (go_id g) s
      | None \<Rightarrow> go_id g @ '':manual:'' @ int_str (epoch_seconds (now - now mod 60000000)))"

definition manual_run_goal :: "goal_env \<Rightarrow> (nat \<Rightarrow> goal_db \<Rightarrow> goal_db) \<Rightarrow> instant \<Rightarrow> string \<Rightarrow> string \<Rightarrow> goal_db \<Rightarrow> bool \<times> goal_db" where
  "manual_run_goal env wait now tid gid d =
     (case get_goal gid d of
        None \<Rightarrow> (False, d)
      | Some g \<Rightarrow>
          let d1 = wait 0 d in
          (case trigger_goal env now tid ''manual'' (Some (manual_run_key now g)) None g d1 of
             Inr (t, d2) \<Rightarrow> (True, d2)
           | Inl GoalIntegrityError \<Rightarrow> (True, d1)
           | Inl _ \<Rightarrow> (False, d1)))"

definition pause_goal :: "instant \<Rightarrow> string \<Rightarrow> goal_db \<Rightarrow> goal_db" where
  "pause_goal now gid d = upd_goal gid (\<lambda>g. g\<lparr>go_status := ''paused'', go_updated := now\<rparr>) d"

definition resume_goal :: "goal_env \<Rightarrow> instant \<Rightarrow> string \<Rightarrow> goal_db \<Rightarrow> goal_exc + goal_db" where
  "resume_goal env now gid d =
     (case get_goal gid d of
        None \<Rightarrow> Inr d
      | Some g \<Rightarrow>
          bindE (if go_type g \<noteq> ''manual'' then compute_next_run_at env (go_type g) (go_config g) now else Inr (go_next g)) (\<lambda>n.
            Inr (upd_goal gid (\<lambda>r. r\<lparr>go_status := ''active'', go_failures := 0, go_next := n, go_updated := now\<rparr>) d)))"

section \<open>Completion and the sweep\<close>

definition count_completion :: "string \<Rightarrow> instant \<Rightarrow> goal_row \<Rightarrow> goal_row" where
  "count_completion final now g =
     (let n = (if final = ''done'' then 0 else go_failures g + 1)
      in g\<lparr>go_failures := n, go_updated := now,
           go_status := (if final \<noteq> ''done'' \<and> go_status g = ''active'' \<and> GOAL_FAILURE_PAUSE_THRESHOLD \<le> n then ''paused'' else go_status g)\<rparr>)"

text \<open>The pure rule of the policy that the UPDATE of the counter follows.\<close>

definition apply_completion_to_failure_counter :: "int \<Rightarrow> string \<Rightarrow> int \<times> bool" where
  "apply_completion_to_failure_counter current final =
     (if final = ''done'' then (0, False) else (current + 1, GOAL_FAILURE_PAUSE_THRESHOLD \<le> current + 1))"

lemma count_follows_policy:
  "apply_completion_to_failure_counter (go_failures g) final = (n, pause) \<Longrightarrow>
     go_failures (count_completion final now g) = n
     \<and> go_status (count_completion final now g) = (if pause \<and> go_status g = ''active'' then ''paused'' else go_status g)"
  by (auto simp: apply_completion_to_failure_counter_def count_completion_def Let_def split: if_splits)

fun final_task_status :: "string \<Rightarrow> task_status option" where
  "final_task_status s = (if s = ''done'' then Some TaskDone else if s = ''failed'' then Some TaskFailed else None)"

text \<open>\<open>t\<close> is the caller's task object; the hook marks its row once and counts it.\<close>

definition apply_completion :: "instant \<Rightarrow> goal_task \<Rightarrow> string \<Rightarrow> goal_db \<Rightarrow> bool \<times> goal_db" where
  "apply_completion now t final d =
     (case (gt_goal t, final_task_status final) of
        (Some gid, Some st) \<Rightarrow>
          (case get_goal gid d of
             None \<Rightarrow> (False, d)
           | Some _ \<Rightarrow>
               (case get_goal_task (k_id t) d of
                  None \<Rightarrow> (False, d)
                | Some r \<Rightarrow>
                    if gt_goal r \<noteq> Some gid \<or> k_status r \<noteq> st \<or> gt_applied r then (gt_silent r, d)
                    else
                      let d1 = upd_goal gid (count_completion final now)
                                 (upd_goal_task (k_id t)
                                    (\<lambda>r. r\<lparr>gt_applied := True, k_finished := (case k_finished t of None \<Rightarrow> Some now | Some f \<Rightarrow> Some f)\<rparr>) d);
                          hide = (case get_goal gid d1 of
                                    None \<Rightarrow> False
                                  | Some g \<Rightarrow> materialize_decision_of (go_materialize g) final (gt_interesting r) = HideTask)
                      in (hide, upd_goal_task (k_id t) (\<lambda>r. r\<lparr>gt_silent := hide\<rparr>) d1)))
      | _ \<Rightarrow> (False, d))"

definition stuck_todo :: "instant \<Rightarrow> goal_db \<Rightarrow> goal_task \<Rightarrow> bool" where
  "stuck_todo now d t \<longleftrightarrow> list_ex (\<lambda>r. r_id r = k_room t \<and> r_archived r = None) (gd_rooms d) \<and> k_execution t = None \<and> k_status t = Todo
     \<and> (case k_assigned_at t of None \<Rightarrow> False | Some a \<Rightarrow> a < now - TASK_PICKUP_TIMEOUT_SECONDS * 1000000)"

definition stuck_running :: "instant \<Rightarrow> goal_db \<Rightarrow> goal_task \<Rightarrow> bool" where
  "stuck_running now d t \<longleftrightarrow> list_ex (\<lambda>r. r_id r = k_room t \<and> r_archived r = None) (gd_rooms d) \<and> k_execution t = None \<and> k_status t = InProgress
     \<and> (case gt_started t of None \<Rightarrow> False | Some s \<Rightarrow> s < now - TASK_EXECUTION_TIMEOUT_SECONDS * 1000000)
     \<and> \<not> list_ex (\<lambda>u. nu_task u = Some (k_id t) \<and> nu_state u \<in> set OPEN_TURN_STATES) (gd_turns d)"

text \<open>\<open>fail_stale_task_cas\<close>: only the row that is still as the sweep read it, in a live room.\<close>

definition fail_stale_task :: "instant \<Rightarrow> goal_task \<Rightarrow> string \<Rightarrow> goal_db \<Rightarrow> goal_task option \<times> goal_db" where
  "fail_stale_task now t reason d =
     (case get_goal_task (k_id t) d of
        None \<Rightarrow> (None, d)
      | Some r \<Rightarrow>
          if k_room r = k_room t \<and> k_execution r = None \<and> k_status r = k_status t \<and> k_status r \<in> {Todo, InProgress}
             \<and> k_assignee r = k_assignee t \<and> list_ex (\<lambda>x. r_id x = k_room t \<and> r_archived x = None) (gd_rooms d)
          then let f = (\<lambda>r. r\<lparr>k_status := TaskFailed, k_error := Some reason, k_finished := Some now\<rparr>) in (Some (f r), upd_goal_task (k_id t) f d)
          else (None, d))"

definition sweep_task ::
  "(goal_task \<Rightarrow> string \<Rightarrow> goal_db \<Rightarrow> goal_db) \<Rightarrow> (goal_db \<Rightarrow> goal_db) \<Rightarrow> instant \<Rightarrow> goal_task \<Rightarrow> goal_db \<Rightarrow> bool \<times> goal_db" where
  "sweep_task campaign_hook between now t d =
     (let reason = (if k_status t = Todo then ''pickup_timeout'' else ''execution_timeout'') in
      case fail_stale_task now t reason (between d) of
        (None, d1) \<Rightarrow> (False, d1)
      | (Some r, d1) \<Rightarrow>
          let d2 = snd (apply_completion now r ''failed'' d1)
          in (True, if k_campaign r \<noteq> None then campaign_hook r reason d2 else d2))"

fun sweep_each ::
  "(goal_task \<Rightarrow> string \<Rightarrow> goal_db \<Rightarrow> goal_db) \<Rightarrow> (goal_db \<Rightarrow> goal_db) \<Rightarrow> instant \<Rightarrow> goal_task list \<Rightarrow> goal_db \<Rightarrow> nat \<times> goal_db" where
  "sweep_each hook between now [] d = (0, d)"
| "sweep_each hook between now (t # ts) d =
     (let (hit, d1) = sweep_task hook between now t d; (n, d2) = sweep_each hook between now ts d1
      in ((if hit then Suc n else n), d2))"

definition sweep_stuck_tasks ::
  "(goal_task \<Rightarrow> string \<Rightarrow> goal_db \<Rightarrow> goal_db) \<Rightarrow> (goal_db \<Rightarrow> goal_db) \<Rightarrow> instant \<Rightarrow> goal_db \<Rightarrow> nat \<times> goal_db" where
  "sweep_stuck_tasks hook between now d =
     sweep_each hook between now (filter (stuck_todo now d) (gd_tasks d) @ filter (stuck_running now d) (gd_tasks d)) d"

section \<open>What a fire leaves\<close>

lemma get_upd_goal:
  assumes "\<And>r. go_id (f r) = go_id r"
  shows "get_goal k (upd_goal gid f d) = (if k = gid then map_option f (get_goal gid d) else get_goal k d)"
  using assms by (simp add: upd_goal_def tget_tupd)

lemma get_upd_goal_task:
  assumes "\<And>r. k_id (f r) = k_id r"
  shows "get_goal_task k (upd_goal_task tid f d) = (if k = tid then map_option f (get_goal_task tid d) else get_goal_task k d)"
  using assms by (simp add: upd_goal_task_def tget_tupd)

lemma upd_goal_tables [simp]:
  "gd_tasks (upd_goal gid f d) = gd_tasks d" "gd_rooms (upd_goal gid f d) = gd_rooms d" "gd_members (upd_goal gid f d) = gd_members d"
  "gd_goals (upd_goal_task tid h d) = gd_goals d"
  by (simp_all add: upd_goal_def upd_goal_task_def)

lemma goal_open_run_upd [simp]: "goal_open_run k (upd_goal gid f d) = goal_open_run k d"
  by (simp add: goal_open_run_def)

lemma compute_next_later:
  assumes "compute_next_run_at env ty config now = Inr n" and "valid_trigger env now ty config"
    and "\<And>c tz t. t < ge_next env c tz t"
  shows "case n of None \<Rightarrow> ty = ''manual'' | Some s \<Rightarrow> now < s"
proof (cases "ty = ''interval''")
  case True
  then show ?thesis using assms(1,2)
    by (auto simp: compute_next_run_at_def valid_trigger_def MIN_INTERVAL_SECONDS_def split: sum.splits option.splits if_splits)
next
  case False
  then show ?thesis using assms
    by (auto simp: compute_next_run_at_def split: sum.splits option.splits if_splits pyval.splits)
qed

lemma trigger_goalD:
  assumes "trigger_goal env now tid source (Some key) slot g d = Inr (t, d')"
  shows "\<exists>room p tz. t = fired_task g room p tid source (Some key) slot tz now \<and> ge_zone env tz"
    and "gd_tasks d' = gd_tasks d @ [t]" and "Some key \<notin> k_idem_key ` set (gd_tasks d)"
    and "get_goal k d' = (if k = go_id g then map_option (\<lambda>r. r\<lparr>go_last := Some now, go_updated := now\<rparr>) (get_goal k d) else get_goal k d)"
proof -
  have z: "trigger_timezone env c = Inr tz \<Longrightarrow> ge_zone env tz" for c tz
    by (auto simp: trigger_timezone_def split: pyval.splits if_splits)
  obtain room p tz where t: "trigger_timezone env (go_config g) = Inr tz" "t = fired_task g room p tid source (Some key) slot tz now"
    "Some key \<notin> k_idem_key ` set (gd_tasks d)"
    "d' = upd_goal (go_id g) (\<lambda>r. r\<lparr>go_last := Some now, go_updated := now\<rparr>) (d\<lparr>gd_tasks := gd_tasks d @ [t], gd_announced := gd_announced d @ [tid]\<rparr>)"
    using assms by (auto simp: trigger_goal_def Let_def split: option.splits if_splits sum.splits elim!: bindE_InrE)
  show "\<exists>room p tz. t = fired_task g room p tid source (Some key) slot tz now \<and> ge_zone env tz" using t z by blast
  show "gd_tasks d' = gd_tasks d @ [t]" "Some key \<notin> k_idem_key ` set (gd_tasks d)" using t(3,4) by auto
  show "get_goal k d' = (if k = go_id g then map_option (\<lambda>r. r\<lparr>go_last := Some now, go_updated := now\<rparr>) (get_goal k d) else get_goal k d)"
    using t(4) by (simp add: get_upd_goal)
qed

text \<open>The stages of a claim that fired a new task.\<close>

lemma claim_fired:
  assumes "claim_and_fire env wait now tid supplied gid d = (Inr (Some c), d')" and "\<not> ec_duplicate c" "\<not> ec_waiting c"
  obtains g slot next_slot t d0 where
    "get_goal gid d = Some g" "go_next g = Some slot" "valid_trigger env now (go_type g) (go_config g)"
    "compute_next_run_at env (go_type g) (go_config g) now = Inr next_slot" "claimable now g slot (wait 0 d)"
    "slot_task gid slot (wait 0 d) = None" "d0 = upd_goal gid (claim_slot now next_slot) (wait 1 (wait 0 d))"
    "trigger_goal env now tid ''scheduler'' (Some (slot_key gid slot)) (Some slot) g d0 = Inr (t, d')" "ec_task c = Some (k_id t)" "go_id g = gid"
proof -
  have due: "claim_due env wait now tid supplied gid d = (Inr (Some c), d')"
    using assms by (auto simp: claim_and_fire_def check_supplied_def replayed_def split: option.splits sum.splits if_splits elim!: bindE_InrE)
  obtain g where g: "get_goal gid d = Some g" using due by (auto simp: claim_due_def split: option.splits)
  have id: "go_id g = gid" using g by (rule tget_Some_key)
  obtain slot where slot: "go_next g = Some slot" using due g by (auto simp: claim_due_def split: option.splits)
  obtain n where n: "bindE (validate_trigger_config env now (go_type g) (go_config g)) (\<lambda>_. compute_next_run_at env (go_type g) (go_config g) now) = Inr n"
    and fire: "claimable now g slot (wait 0 d)" "fire_slot env wait now tid supplied g slot n (wait 0 d) = (Inr (Some c), d')"
    using due g slot assms(2,3)
    by (auto simp: claim_due_def Let_def lost_claim_def replayed_def overlapping_def split: option.splits if_splits sum.splits elim!: bindE_InrE)
  have v: "valid_trigger env now (go_type g) (go_config g)" "compute_next_run_at env (go_type g) (go_config g) now = Inr n"
    using n by (auto simp: validate_trigger_config_def split: if_splits)
  have st: "slot_task gid slot (wait 0 d) = None"
    using fire(2) id assms(2) by (auto simp: fire_slot_def Let_def replayed_def split: option.splits if_splits)
  have tr: "\<exists>t. trigger_goal env now tid ''scheduler'' (Some (slot_key gid slot)) (Some slot) g (upd_goal gid (claim_slot now n) (wait 1 (wait 0 d))) = Inr (t, d')
      \<and> ec_task c = Some (k_id t)"
    using fire(2) id st assms(2)
    by (auto simp: fire_slot_def Let_def replayed_def split: option.splits if_splits sum.splits goal_exc.splits)
  then show thesis using that g slot v fire(1) st id by blast
qed

end
