(* ===== verification/GoalGuarantees.thy ===== *)
theory GoalGuarantees
  imports GoalLoop
begin

text \<open>
  What the goal loop promises: a due slot fires one task and is consumed, a goal the tick worked on is
  no longer due, and every completion is counted once.
\<close>

abbreviation undisturbed :: "nat \<Rightarrow> goal_db \<Rightarrow> goal_db" where
  "undisturbed \<equiv> \<lambda>n e. e"

section \<open>Samples\<close>

definition sample_goal :: goal_row where
  "sample_goal = \<lparr>go_id = ''g1'', go_agent = ''a1'', go_owner = ''u1'', go_room = Some ''r1'', go_title = ''watch'', go_spec = ''look'',
     go_status = ''active'', go_type = ''interval'', go_config = [(''interval_seconds'', PInt 600)], go_materialize = ''interesting_only'',
     go_failures = 2, go_next = Some 60000000, go_last = None, go_claimed = None, go_updated = 0\<rparr>"

definition sample_goals :: goal_db where
  "sample_goals = \<lparr>gd_goals = [sample_goal], gd_tasks = [],
     gd_rooms = [\<lparr>r_id = ''r1'', r_project = None, r_archived = None, r_is_dm = False, r_lead = None\<rparr>],
     gd_members = [\<lparr>p_id = ''p1'', p_room = ''r1'', p_agent = Some ''a1'', p_role = ''member''\<rparr>], gd_turns = [], gd_announced = []\<rparr>"

definition sample_goal_env :: goal_env where
  "sample_goal_env = \<lparr>ge_zone = (\<lambda>z. z = ''UTC''), ge_cron = (\<lambda>c. True), ge_next = (\<lambda>c z t. t + 60000000)\<rparr>"

definition sample_fired :: goal_task where
  "sample_fired = \<lparr>k_id = ''t1'', k_room = ''r1'', k_title = ''watch'', k_spec = Some ''look'', k_status = Todo, k_error = None,
      k_finished = None, k_assignee = Some ''p1'', k_assigned_at = Some 61000000, k_created_by = Some ''u1'',
      k_triggered_by = ''scheduler'', k_idem_key = Some ''g1:60'', k_campaign = None, k_execution = None, k_input_rev = None,
      gt_goal = Some ''g1'', gt_started = Some 61000000, gt_interesting = False, gt_silent = False, gt_applied = False,
      gt_context = Some \<lparr>sx_goal = ''g1'', sx_slot = Some 60000000, sx_timezone = ''UTC'', sx_source = ''scheduler''\<rparr>\<rparr>"

lemmas sample_goal_defs = sample_goal_def sample_goals_def sample_goal_env_def

lemmas claim_code = claim_and_fire_def claim_due_def goal_open_run_def validate_trigger_config_def valid_trigger_def trigger_timezone_def
  dget_or_def dget_def MIN_INTERVAL_SECONDS_def compute_next_run_at_def MAX_INSTANT_def claimable_def fire_slot_def slot_task_def slot_key_def
  epoch_seconds_def trigger_goal_def fired_task_def claim_slot_def upd_goal_def strip_def lstrip_def py_space_def int_str_def nat_str.simps
  digit_char_def Let_def

lemma sample_digits: "char_of (48 :: nat) = CHR ''0''" "char_of (54 :: nat) = CHR ''6''"
  by code_simp+

lemma sample_claim_fires:
  "\<exists>d'. claim_and_fire sample_goal_env undisturbed 61000000 ''t1'' None ''g1'' sample_goals
     = (Inr (Some \<lparr>ec_task = Some ''t1'', ec_duplicate = False, ec_waiting = False\<rparr>), d') \<and> gd_tasks d' = [sample_fired]"
  by (simp add: sample_goal_defs claim_code sample_fired_def sample_digits)

section \<open>One task for a slot\<close>

text \<open>
  C16. A claim that fires a task consumes its slot, whatever other transactions interleave: the slot was
  due, the goal had no open run, the task that was added is the only one with the key of the slot and
  records where it comes from, and the goal's next run lies in the future. From then on the delivery of the
  same slot is answered with this task and changes nothing.
\<close>

theorem due_slot_fires_once:
  assumes claim: "claim_and_fire env wait now tid supplied gid d = (Inr (Some c), d')" and new: "\<not> ec_duplicate c" "\<not> ec_waiting c"
    and cron: "\<And>c tz t. t < ge_next env c tz t"
  shows "\<exists>slot t. slot \<le> now \<and> \<not> goal_open_run gid (wait 0 d) \<and> ec_task c = Some (k_id t) \<and> t \<in> set (gd_tasks d')
    \<and> slot_provenance env gid slot t \<and> (\<forall>u \<in> set (gd_tasks d'). k_idem_key u = Some (slot_key gid slot) \<longrightarrow> u = t)
    \<and> (\<forall>g. get_goal gid d' = Some g \<longrightarrow> (case go_next g of None \<Rightarrow> True | Some s \<Rightarrow> now < s))
    \<and> (\<forall>wait' now' tid' g. get_goal gid d' = Some g \<and> go_type g \<in> {''cron'', ''interval''} \<and> now \<le> now'
        \<longrightarrow> claim_and_fire env wait' now' tid' (Some slot) gid d' = (Inr (Some (replayed t)), d'))"
proof -
  obtain g slot n t d0 where s: "get_goal gid d = Some g" "go_next g = Some slot" "valid_trigger env now (go_type g) (go_config g)"
    "compute_next_run_at env (go_type g) (go_config g) now = Inr n" "claimable now g slot (wait 0 d)"
    "slot_task gid slot (wait 0 d) = None" "d0 = upd_goal gid (claim_slot now n) (wait 1 (wait 0 d))"
    "trigger_goal env now tid ''scheduler'' (Some (slot_key gid slot)) (Some slot) g d0 = Inr (t, d')" "ec_task c = Some (k_id t)" "go_id g = gid"
    by (rule claim_fired [OF claim new])
  note tr = trigger_goalD [OF s(8)]
  obtain room p tz where t: "t = fired_task g room p tid ''scheduler'' (Some (slot_key gid slot)) (Some slot) tz now" "ge_zone env tz"
    using tr(1) by blast
  have due: "slot \<le> now" "\<not> goal_open_run gid (wait 0 d)" using s(5,10) by (auto simp: claimable_def split: option.splits)
  have key: "k_idem_key t = Some (slot_key gid slot)" "gt_goal t = Some gid" using t(1) s(10) by (simp_all add: fired_task_def)
  have prov: "slot_provenance env gid slot t" using t s(10) by (simp add: slot_provenance_def fired_task_def)
  have only: "u = t" if "u \<in> set (gd_tasks d')" "k_idem_key u = Some (slot_key gid slot)" for u
    using that tr(2,3) by (force simp: image_iff)
  have mem: "t \<in> set (gd_tasks d')" using tr(2) by simp
  have found: "slot_task gid slot d' = Some t"
  proof -
    have "slot_task gid slot d' \<noteq> None" using mem key by (auto simp: slot_task_def find_None_iff)
    then obtain u where u: "slot_task gid slot d' = Some u" by blast
    then have "u \<in> set (gd_tasks d')" "k_idem_key u = Some (slot_key gid slot)"
      by (auto simp: slot_task_def find_Some_iff in_set_conv_nth)
    then show ?thesis using u only by simp
  qed
  have later: "case go_next g' of None \<Rightarrow> True | Some s \<Rightarrow> now < s" if "get_goal gid d' = Some g'" for g'
    using that tr(4) [of gid] s(7,10) compute_next_later [OF s(4,3) cron]
    by (auto simp: get_upd_goal claim_slot_def split: option.splits)
  have again: "claim_and_fire env wait' now' tid' (Some slot) gid d' = (Inr (Some (replayed t)), d')"
    if "get_goal gid d' = Some g'" "go_type g' \<in> {''cron'', ''interval''}" "now \<le> now'" for wait' now' tid' g'
    using that due(1) found prov
    by (auto simp: claim_and_fire_def check_supplied_def scheduled_slot_task_def)
  show ?thesis using due s(9) mem prov only later again by blast
qed

lemma due_slot_fires_once_witness:
  "\<exists>d' slot. claim_and_fire sample_goal_env undisturbed 61000000 ''t1'' None ''g1'' sample_goals
     = (Inr (Some \<lparr>ec_task = Some ''t1'', ec_duplicate = False, ec_waiting = False\<rparr>), d') \<and> slot \<le> (61000000 :: instant)"
proof -
  obtain d' where d': "claim_and_fire sample_goal_env undisturbed 61000000 ''t1'' None ''g1'' sample_goals
     = (Inr (Some \<lparr>ec_task = Some ''t1'', ec_duplicate = False, ec_waiting = False\<rparr>), d')" using sample_claim_fires by blast
  show ?thesis using due_slot_fires_once [OF d'] d' by (auto simp: sample_goal_env_def)
qed

section \<open>The tick makes progress\<close>

text \<open>
  C17. A due goal does not stay due: after the tick worked on it undisturbed, it has an open run, a
  later next run or is paused. Only an exception the tick does not know (the overflow of a date, or a task
  of another goal with the key of the slot) leaves it due for the next tick.
\<close>

theorem ticked_goal_settles:
  assumes g: "get_goal gid d = Some g" and cron: "\<And>c tz t. t < ge_next env c tz t"
  shows "(\<exists>e. fst (claim_and_fire env undisturbed now tid None gid d) = Inl e \<and> \<not> pauses e)
    \<or> (\<exists>g'. get_goal gid (tick_goal env undisturbed now tid gid d) = Some g' \<and> \<not> goal_due now (tick_goal env undisturbed now tid gid d) g')"
proof (cases "claim_and_fire env undisturbed now tid None gid d")
  case (Pair r d')
  have id: "go_id g = gid" using g by (rule tget_Some_key)
  show ?thesis
  proof (cases r)
    case (Inl e)
    have "d' = d" using Pair Inl id
      by (auto simp: claim_and_fire_def claim_due_def fire_slot_def lost_claim_def Let_def split: option.splits if_splits sum.splits goal_exc.splits prod.splits)
    then show ?thesis using Pair Inl g by (auto simp: tick_goal_def get_upd_goal goal_due_def)
  next
    case (Inr co)
    have t: "tick_goal env undisturbed now tid gid d = d'" using Pair Inr by (simp add: tick_goal_def)
    show ?thesis
    proof (cases "goal_due now d g")
      case False
      have "d' = d"
        using Pair Inr g id False
        by (auto simp: claim_and_fire_def claim_due_def claimable_def goal_due_def lost_claim_def Let_def split: option.splits if_splits sum.splits)
      then show ?thesis using False t g by auto
    next
      case True
      then obtain slot where slot: "go_next g = Some slot" "slot \<le> now" "go_status g = ''active''" "\<not> goal_open_run gid d"
        using id by (auto simp: goal_due_def split: option.splits)
      have claimable: "claimable now g slot d" using slot g id by (simp add: claimable_def)
      obtain n where n: "valid_trigger env now (go_type g) (go_config g)" "compute_next_run_at env (go_type g) (go_config g) now = Inr n"
        "fire_slot env undisturbed now tid None g slot n d = (Inr co, d')"
        using Pair Inr g slot claimable
        by (auto simp: claim_and_fire_def claim_due_def validate_trigger_config_def Let_def split: if_splits sum.splits)
      note later = compute_next_later [OF n(2,1) cron]
      have "go_next (claim_slot now n g) = n" by (simp add: claim_slot_def)
      moreover have "\<exists>g'. get_goal gid d' = Some g' \<and> go_next g' = n"
      proof (cases "slot_task gid slot d")
        case (Some u)
        then show ?thesis using n(3) g id by (auto simp: fire_slot_def get_upd_goal claim_slot_def)
      next
        case None
        then obtain u where u: "trigger_goal env now tid ''scheduler'' (Some (slot_key gid slot)) (Some slot) g (upd_goal gid (claim_slot now n) d) = Inr (u, d')"
          using n(3) id by (auto simp: fire_slot_def Let_def split: sum.splits goal_exc.splits)
        show ?thesis using trigger_goalD(4) [OF u, of gid] g id by (simp add: get_upd_goal claim_slot_def)
      qed
      ultimately show ?thesis using t later by (auto simp: goal_due_def split: option.splits)
    qed
  qed
qed

lemma ticked_goal_settles_witness:
  "\<exists>g'. get_goal ''g1'' (tick_goal sample_goal_env undisturbed 61000000 ''t1'' ''g1'' sample_goals) = Some g'
     \<and> \<not> goal_due 61000000 (tick_goal sample_goal_env undisturbed 61000000 ''t1'' ''g1'' sample_goals) g'"
  using ticked_goal_settles [of "''g1''" sample_goals sample_goal sample_goal_env 61000000 "''t1''"] sample_claim_fires
  by (auto simp: sample_goal_defs)

section \<open>Completions\<close>

text \<open>
  C18. Every completion of a run is counted once: a success resets the consecutive failures, a failure
  adds one and pauses an active goal from the third on, the task is hidden exactly for a silent success
  the goal does not want to see, and applying the completion again, in any order of statuses, changes nothing.
\<close>

theorem completion_counts_once:
  assumes "gt_goal t = Some gid" and "final_task_status final = Some st" and "get_goal gid d = Some g"
    and "get_goal_task (k_id t) d = Some r" and "gt_goal r = Some gid" and "k_status r = st" and "\<not> gt_applied r"
  shows "\<exists>hide d' g' r'. apply_completion now t final d = (hide, d') \<and> get_goal gid d' = Some g' \<and> get_goal_task (k_id t) d' = Some r'
    \<and> go_failures g' = (if final = ''done'' then 0 else go_failures g + 1)
    \<and> go_status g' = (if final = ''failed'' \<and> go_status g = ''active'' \<and> 3 \<le> go_failures g + 1 then ''paused'' else go_status g)
    \<and> gt_applied r' \<and> k_status r' = st \<and> gt_silent r' = hide
    \<and> (hide \<longleftrightarrow> go_materialize g \<noteq> ''full'' \<and> final = ''done'' \<and> \<not> gt_interesting r)
    \<and> (\<forall>now' t' final'. k_id t' = k_id t \<longrightarrow> snd (apply_completion now' t' final' d') = d')"
proof -
  define d1 where "d1 = upd_goal gid (count_completion final now)
    (upd_goal_task (k_id t) (\<lambda>r. r\<lparr>gt_applied := True, k_finished := (case k_finished t of None \<Rightarrow> Some now | Some f \<Rightarrow> Some f)\<rparr>) d)"
  define hide where "hide = (materialize_decision_of (go_materialize g) final (gt_interesting r) = HideTask)"
  have fin: "final = ''done'' \<or> final = ''failed''" using assms(2) by (auto split: if_splits)
  have goal: "get_goal gid d1 = Some (count_completion final now g)"
    using assms(3) by (simp add: d1_def get_upd_goal count_completion_def Let_def)
  have task: "get_goal_task (k_id t) d1 = Some (r\<lparr>gt_applied := True, k_finished := (case k_finished t of None \<Rightarrow> Some now | Some f \<Rightarrow> Some f)\<rparr>)"
    using assms(4) by (simp add: d1_def get_upd_goal_task)
  let ?d' = "upd_goal_task (k_id t) (\<lambda>r. r\<lparr>gt_silent := hide\<rparr>) d1"
  let ?r' = "r\<lparr>gt_applied := True, k_finished := (case k_finished t of None \<Rightarrow> Some now | Some f \<Rightarrow> Some f), gt_silent := hide\<rparr>"
  have run: "apply_completion now t final d = (hide, ?d')"
    using assms goal by (simp add: apply_completion_def Let_def d1_def [symmetric] hide_def count_completion_def)
  have r': "get_goal_task (k_id t) ?d' = Some ?r'" using task by (simp add: get_upd_goal_task)
  have again: "snd (apply_completion now' t' final' ?d') = ?d'" if "k_id t' = k_id t" for now' t' final'
    using that r' by (simp add: apply_completion_def split: option.split)
  have "hide \<longleftrightarrow> go_materialize g \<noteq> ''full'' \<and> final = ''done'' \<and> \<not> gt_interesting r"
    using fin by (auto simp: hide_def materialize_decision_of_def)
  moreover have "get_goal gid ?d' = Some (count_completion final now g)" using goal by simp
  moreover have "go_failures (count_completion final now g) = (if final = ''done'' then 0 else go_failures g + 1)"
    "go_status (count_completion final now g)
      = (if final = ''failed'' \<and> go_status g = ''active'' \<and> 3 \<le> go_failures g + 1 then ''paused'' else go_status g)"
    using fin by (auto simp: count_completion_def Let_def GOAL_FAILURE_PAUSE_THRESHOLD_def)
  moreover have "gt_applied ?r'" "k_status ?r' = st" "gt_silent ?r' = hide" using assms(6) by simp_all
  ultimately show ?thesis using run r' again by blast
qed

lemma completion_counts_once_witness:
  "\<exists>hide d' g'. apply_completion 9 (sample_fired\<lparr>k_status := TaskFailed\<rparr>) ''failed'' (sample_goals\<lparr>gd_tasks := [sample_fired\<lparr>k_status := TaskFailed\<rparr>]\<rparr>)
     = (hide, d') \<and> get_goal ''g1'' d' = Some g' \<and> go_status g' = ''paused''"
  using completion_counts_once [of "sample_fired\<lparr>k_status := TaskFailed\<rparr>" "''g1''" "''failed''" TaskFailed
      "sample_goals\<lparr>gd_tasks := [sample_fired\<lparr>k_status := TaskFailed\<rparr>]\<rparr>" sample_goal "sample_fired\<lparr>k_status := TaskFailed\<rparr>" 9]
  by (auto simp: sample_fired_def sample_goal_defs)

end
