(* ===== verification/Spec2Isabelle.thy ===== *)
theory Spec2Isabelle
  imports RateLimits CampaignTools BudgetLedger PeerCalls AgentStreams PeerGuarantees LifecycleGuarantees GoalGuarantees
begin

text \<open>
  A verification development of the AnyGarden server and of the agent process it drives, both
  under src/packages/cluster/anygarden. Every path below is relative to that directory.

  \<^bold>\<open>The program\<close>

  Agents (programs around a language model) take part in rooms beside people. A message that calls
  an agent creates a durable \<^emph>\<open>turn\<close>, which is leased to the agent in numbered attempts over an
  outbox, answered by one visible reply, recovered when an attempt stalls and cancelled by people.
  An agent that answers may ask its peers, and is woken by a fan-in once they all answered. A turn
  that runs work belongs to an \<^emph>\<open>execution\<close>, whose native starts are permitted, counted and settled
  in a ledger, and which ends only after every process that may run for it was proved stopped. A
  \<^emph>\<open>campaign\<close> repeats such executions in judged cycles towards a target under a budget. On the
  agent's side a receipt store and a local manager keep one process per scope and give the server
  the proofs it asks for. Agents run on \<^emph>\<open>machines\<close>: the lifecycle places an agent on one,
  claims and dispatches its starts under numbered generations and follows the machines' reports.
  A \<^emph>\<open>goal\<close> gives its room a task at every slot of its schedule.

  \<^bold>\<open>Conventions\<close>

  A component's tables are lists of records in one state record (\<open>db\<close> for the campaigns,
  \<open>native_db\<close> for the ledger, \<open>turn_db\<close> for the turns, \<open>fleet\<close> for agents and machines,
  \<open>goal_db\<close> for the goals, \<open>receipts\<close> and \<open>manager\<close> for an agent); a
  row is read by \<open>tget\<close> and written by \<open>tupd\<close> (GardenPrelude), and the laws of such tables are the
  locale \<open>row_table\<close>, interpreted on each table. An operation takes the state and returns the new
  one; a raise, an early return or a rollback is a branch (\<open>Inl\<close> an exception, a decision datatype
  or the unchanged state). Instants are integers of microseconds and floats are binary64 values
  (PyFloat, PyTime); Python values that arrive from outside are \<open>pyval\<close>, so the checks of their
  types are in the model (PyValues). Strings are lists of 8-bit characters: a Latin-1 program, in
  which the em dash of a notice is \<open>CHR 0x97\<close> and an ellipsis \<open>CHR 0x16\<close>. Identifiers the code draws
  are arguments, or come from a supply in the state. Digests are parameters.

  Transactions are atomic. Where the code reads before it locks, an argument \<open>between\<close> maps the
  state to what other transactions have committed when the lock is held; it is an arbitrary
  function in the definitions and, in the step relations, one whose result is reachable by the
  relation's own steps. The flag \<open>solo\<close> of the turns' relation says that nothing commits in between
  (SQLite with its writer lock); properties without it hold for row locks too. A compare-and-set
  write takes the revision its caller had read. The agent lifecycle commits several times per
  operation: its argument \<open>wait\<close> gives what others committed at its \<open>n\<close>-th wait, and an ORM object
  is the row as read, of which \<open>flush\<close> writes back the columns the operation changed.

  \<^bold>\<open>Durable turns\<close> (turns/service.py, turns/cancel.py, turns/start_service.py)

  \<^item> TurnTables: the rows \<open>run_turn\<close>, \<open>run_attempt\<close>, outbox rows, events, messages and peer rows of
    db/models.py, and the one gate \<open>mark_turn_terminal\<close> that ends a turn, with what it does to the
    attempts, the outbox, the draft and the questions that turn asked or answered.
  \<^item> TurnGates: workspace lease (workspaces/service.py), execution revision and role
    (project_executions/authorization.py), admission, membership, lock.
  \<^item> TurnService: \<open>create_turn\<close>, \<open>claim_outbox\<close> and \<open>confirm_delivery\<close> (the two transactions of
    \<open>deliver_pending_outbox\<close>), the active attempt and the proof of an answer.
  \<^item> TurnFlow: \<open>begin_completion\<close>, \<open>finish_completion\<close> and the send path of ws/handler.py around
    them (\<open>reply_turn\<close>, with \<open>append_message\<close> of db/repository.py), \<open>record_lifecycle\<close>,
    \<open>cancel_general_turn\<close>, \<open>cancel_invalid_turns\<close>.
  \<^item> TurnRecovery: \<open>recover_one\<close> (one iteration of \<open>recover_stalled_turns\<close>), the retry budgets and
    the user's retry of a failed task (project_executions/recovery.py).
  \<^item> TurnStart: \<open>authorize_native_start\<close>, a savepoint over the ledger.
  \<^item> TurnSafety, TurnSteps, TurnGuarantees: the invariant of the attempts, what every transaction
    keeps of every turn, the relation \<open>turn_step solo\<close> whose steps are the transactions above, and
    the properties over its reachable states.

  \<^bold>\<open>Peer questions\<close> (orchestration/peer_ask.py, orchestration/peer_fanin.py, mcp/tools.py)

  \<^item> PeerFanin: groups and targets, posting a question, the worker's tick (\<open>advance_collecting\<close>,
    \<open>wake_one\<close>). AskPeer: the caller with its hop, the tool \<open>ask_peer\<close>, attached files.
  \<^item> PeerSafety, PeerSteps, PeerGuarantees: groups only move forward, whatever the turns do. The
    locale \<open>turn_observer\<close> is the interface between both: a transitive relation on states that
    allows every change outside groups and targets, the hook of an ended turn and the keeping of a
    draft is kept by each transaction of the turn service.
    It is interpreted twice, by the invariant of the fan-in and by the rows the fan-in works on.
    \<open>peer_step\<close> is the joint relation of the turns, of the questions and of the worker.

  \<^bold>\<open>Agents and machines\<close> (scheduler/placement.py, scheduler/lifecycle.py)

  \<^item> AgentPlacement: the rows of \<open>fleet\<close>, \<open>select_machine_for\<close>, \<open>reserve_machine_for\<close>.
  \<^item> AgentLifecycle: \<open>request_start\<close> (refusals, the claim, the manifest, the dispatch and its
    result), \<open>request_stop\<close>, \<open>handle_report_actual_state\<close>, \<open>handle_request_replacement\<close>,
    \<open>bump_generation\<close> with the drain and its release, \<open>on_room_added\<close>, \<open>send_sync_batch\<close> and
    \<open>sweep_stale_agents\<close>.
  \<^item> LifecycleSafety: the locale \<open>row_rule\<close> is a relation between two versions of a row that every
    write of the lifecycle keeps, and so does a merge of columns. Its interpretations are
    \<open>placement\<close> (an agent stays where it was placed) and \<open>generation\<close> (generations grow).
    \<open>fleet_step solo\<close> is the relation of the operations; here the flag leaves out the writes that
    overtake a pending drain.
  \<^item> LifecycleGuarantees: the properties over these runs, and two lemmas that exhibit findings.

  \<^bold>\<open>Goals\<close> (goals/policy.py, goals/scheduler.py, goals/executor.py, goals/sweeper.py, api/v1/goals.py)

  \<^item> GoalLoop: triggers and the next run, \<open>claim_and_fire\<close> with supplied slots, \<open>goal_tick\<close>, the
    owner's run, pause and resume, \<open>apply_completion\<close> and \<open>sweep_stuck_tasks\<close>. Cron expressions and
    time zones are parameters (the record \<open>goal_env\<close>). GoalGuarantees: its properties.

  \<^bold>\<open>Executions and their native starts\<close> (project_executions/)

  \<^item> ExecutionStops: stop_service.py. Turns are fenced before stops are written, receipts settle
    stops, the last safe stop settles the cancellation or the revision. What a cycle of a campaign
    does when its execution ends is behind the locale \<open>stop_hook\<close> (extended by \<open>lifecycle_hook\<close>),
    interpreted on the campaigns' own hook in CampaignLifecycle.
  \<^item> NativeUsage, NativeAccounting: usage.py. What a terminal frame settles, the totals, admission
    under limits, and the transactions on the ledger with the relation \<open>native_step\<close>.

  \<^bold>\<open>Campaigns\<close> (campaigns/)

  \<^item> CampaignPolicy: validation and normal form of a request, budget arithmetic (policy.py).
    CampaignJudge: the verdict on a score (judge.py).
  \<^item> CampaignModel: the rows. CampaignService: the state table, compare-and-set writes, creation,
    extension and limits (service.py).
  \<^item> CampaignLifecycle: closing of cycles and every hook (lifecycle.py). CampaignScheduler: the due
    query, opening of cycles and the tick (scheduler.py, task_materialize.py). CampaignActions:
    what people and scorers do (actions.py). CampaignTools: what the agent does during a cycle
    (agent_actions.py) and how evaluations are sent (evaluation.py).
  \<^item> Each has a step relation (\<open>stop_step\<close>, \<open>lifecycle_step\<close>, \<open>scheduler_step\<close>, \<open>campaign_step\<close>,
    \<open>tool_step\<close>); the state table is the abstract specification the writes refine.

  \<^bold>\<open>Limits\<close>: RateLimits (machine/crash_budget.py, auth/limiter.py and the token bucket of
  orchestration/rules.py; the locale \<open>sliding_window\<close> is what the first two share), BudgetLedger
  (budgets/ledger.py, sums per window with their cache, refusal and incidents), PeerCalls (mentions
  and hand-off budget of orchestration/rules.py, agent/integrations/cycle_guard.py).

  \<^bold>\<open>The agent process\<close> (agent/): ReceiptStore (runtime/execution/store.py, with the locale
  \<open>receipt_keeper\<close> for relations that every store transaction keeps), LocalExecution (manager.py,
  split at the awaits of the event loop, with restarts), AgentStreams (line splitter, idle clock,
  pending context).

  \<^bold>\<open>Recursion and fuel\<close>

  Loops of the code are structural recursion or folds over rows, with measures for the scanners
  and for the walk to the origin of a message (the messages not yet seen). Two recursions have fuel.
  The end of an execution cancels the cycle's execution, which may end it again: two levels are
  enough and more change nothing, since the execution has ended by then. A reservation tries
  another machine each time the locked one no longer fits: fuel beyond the number of machines is
  never used up, so a reservation returns. Both are properties of the development and not
  assumptions. Nothing else is partial.

  \<^bold>\<open>Hypotheses\<close>

  The properties over runs start from states that satisfy the invariant of their component, and
  each has a witness at a concrete state. Those of the turns and questions assume that drawn
  identifiers are fresh. The ends of turns are final for one writer at a time; the finding on
  turns/service.py says what row locks alone would allow.

  \<^bold>\<open>Not modelled\<close>

  \<^item> Sockets, broadcasts, typing frames, logs, metrics, the after-commit queue and background
    threads: no state of the model depends on them; the operations they call are modelled.
  \<^item> The wording of notices and of briefs where only a person reads it (the answers of \<open>ask_peer\<close>
    to its caller, directives of a cycle), ISO timestamp parsing, the decimal text of a float.
  \<^item> \<open>close_execution_limit\<close>, \<open>validate_parent_handoff_turn\<close>, the message service that opens a
    revised assignment, the fence of a campaign tool: parameters of the operations that call them.
  \<^item> The projection of a recovery to its task (\<open>on_turn_recovery\<close>) is recorded, not executed; the
    hash chain of the audit log is left out; a room's deletion cascade is no step.
  \<^item> Agent tokens, the content of a manifest (its hash is a parameter), the back-fill of shared
    files at a dispatch and the sweep of orphaned requests; the goal routes that create, list,
    edit or delete, and permissions.
  \<^item> \<open>timedelta\<close> overflow for environment values beyond its range.
  \<^item> The rest of the repository (request handlers, engine drivers, the machine daemon, federation,
    shared channels, files and work trees, prompts, the web frontend): I/O around these tables.
\<close>

end
